(* ===== verification/Prelude.thy ===== *)
theory Prelude
  imports "HOL-Library.Finite_Map" "HOL-Library.Signed_Division"
begin

text \<open>
  What every component theory shares: error values, Go's 64-bit integers, reads from Go maps,
  and generic facts on lists, options and finite maps.

  A Go map is an \<open>fmap\<close>: finite by its type, so that a loop over free keys ends. A nil map and
  an empty map read alike and are the same value here.

  An error is the format string the code passes to \<^verbatim>\<open>fmt.Errorf\<close> with its arguments, an error
  wrapped by the verb \<^verbatim>\<open>%w\<close>, or one of the sentinel values made by \<^verbatim>\<open>errors.New\<close>.
\<close>

named_theorems op_defs "definitions of the state operations"
named_theorems inv_intros "preservation lemmas of the world invariants"

datatype go_error =
    Errorf string "string list"
  | Wrapf string "string list" go_error
  | Sentinel string

type_synonym 'a result = "go_error + 'a"

subsection \<open>Integers of width 64\<close>

definition i64 :: "int \<Rightarrow> int" where
  "i64 x = (x + 2 ^ 63) mod 2 ^ 64 - 2 ^ 63"

definition in_i64 :: "int \<Rightarrow> bool" where
  "in_i64 x \<longleftrightarrow> - (2 ^ 63) \<le> x \<and> x < 2 ^ 63"

lemma i64_id [simp]: "in_i64 x \<Longrightarrow> i64 x = x"
  by (simp add: i64_def in_i64_def)

lemma in_i64_i64 [simp]: "in_i64 (i64 x)"
  by (simp add: i64_def in_i64_def)

lemma i64_mod: "i64 x mod 2 ^ 64 = x mod 2 ^ 64"
  unfolding i64_def by (metis add_diff_cancel_right' mod_diff_left_eq)

lemma i64_cong: "x mod 2 ^ 64 = y mod 2 ^ 64 \<Longrightarrow> i64 x = i64 y"
  unfolding i64_def by (metis mod_add_left_eq)

lemma i64_add_left: "i64 (i64 x + y) = i64 (x + y)"
  by (rule i64_cong) (metis i64_mod mod_add_left_eq)

lemma i64_add_right: "i64 (x + i64 y) = i64 (x + y)"
  using i64_add_left [of y x] by (simp add: add.commute)

lemma in_i64_small: "- (2 ^ 62) \<le> x \<Longrightarrow> x < 2 ^ 62 \<Longrightarrow> in_i64 x"
  by (simp add: in_i64_def)

subsection \<open>Reads from Go maps\<close>

text \<open>A missing key reads as the zero value of the element type.\<close>

definition mget :: "'v \<Rightarrow> ('k, 'v) fmap \<Rightarrow> 'k \<Rightarrow> 'v" where
  "mget z m k = (case fmlookup m k of None \<Rightarrow> z | Some v \<Rightarrow> v)"

lemma mget_upd [simp]: "mget z (fmupd k v m) k' = (if k = k' then v else mget z m k')"
  by (simp add: mget_def)

lemma mget_empty [simp]: "mget z fmempty k = z"
  by (simp add: mget_def)

lemma mget_Some: "fmlookup m k = Some v \<Longrightarrow> mget z m k = v"
  by (simp add: mget_def)

lemma mget_None: "fmlookup m k = None \<Longrightarrow> mget z m k = z"
  by (simp add: mget_def)

text \<open>A \<^verbatim>\<open>for k, v := range m\<close> loop that returns true at the first pair with \<open>P k v\<close>.\<close>

definition mex :: "('k \<Rightarrow> 'v \<Rightarrow> bool) \<Rightarrow> ('k, 'v) fmap \<Rightarrow> bool" where
  "mex P m = fBex (fmdom m) (\<lambda>k. case fmlookup m k of None \<Rightarrow> False | Some v \<Rightarrow> P k v)"

lemma mex_iff: "mex P m \<longleftrightarrow> (\<exists>k v. fmlookup m k = Some v \<and> P k v)"
proof
  assume "mex P m"
  then obtain k where "k |\<in>| fmdom m" and "case fmlookup m k of None \<Rightarrow> False | Some v \<Rightarrow> P k v"
    unfolding mex_def by blast
  then show "\<exists>k v. fmlookup m k = Some v \<and> P k v"
    by (auto split: option.splits)
next
  assume "\<exists>k v. fmlookup m k = Some v \<and> P k v"
  then obtain k v where "fmlookup m k = Some v" and "P k v"
    by blast
  then show "mex P m"
    unfolding mex_def by (intro fBexI [of _ k]) (simp_all add: fmdomI)
qed

lemma mex_empty [simp]: "\<not> mex P fmempty"
  by (simp add: mex_iff)

text \<open>The result of a run, named by its first component.\<close>

lemma run_eq: "fst x = r \<Longrightarrow> x = (r, snd x)"
  by (cases x) simp

subsection \<open>Lists\<close>

lemma filter_neq_notin [simp]: "x \<notin> set xs \<Longrightarrow> filter (\<lambda>y. y \<noteq> x) xs = xs"
  by (induction xs) auto

lemma sum_list_update_int:
  "i < length xs \<Longrightarrow> sum_list (xs[i := v]) = sum_list xs - xs ! i + (v :: int)"
  by (induction xs arbitrary: i) (auto split: nat.splits)

lemma finite_card_le_pigeonhole:
  assumes "finite A" and "inj_on f {i..<n}" and "f ` {i..<n} \<subseteq> A"
  shows "n - i \<le> card A"
  using card_inj_on_le [OF assms(2) assms(3) assms(1)] by simp

end
