(* ===== verification/GoStrings.thy ===== *)
theory GoStrings
  imports Prelude "HOL-Library.Char_ord" "HOL-Library.List_Lexorder" "HOL-Library.Sublist"
begin

text \<open>
  The functions of Go's \<^verbatim>\<open>strings\<close> and \<^verbatim>\<open>strconv\<close> that the modelled code calls.
  A Go string is a byte sequence and so is an Isabelle \<open>string\<close>: a \<open>char\<close> is one byte, and text
  outside ASCII stands in its UTF-8 encoding.

  \<^verbatim>\<open>strings.TrimSpace\<close> removes every encoding of a Unicode white space rune.
  \<^verbatim>\<open>strings.ToLower\<close> and \<^verbatim>\<open>strings.EqualFold\<close> are given for ASCII letters; every other byte is
  kept, which is exact for ASCII and for scripts without case such as Hangul.
  The order on strings is the byte-wise lexicographic one of \<^verbatim>\<open>strings.Compare\<close>, from
  the library's \<open>linorder\<close> instance on lists of characters.
\<close>

subsection \<open>TrimSpace\<close>

definition go_spaces :: "string list" where
  "go_spaces =
     [[CHR 0x20], [CHR 0x09], [CHR 0x0A], [CHR 0x0B], [CHR 0x0C], [CHR 0x0D],
      [CHR 0xC2, CHR 0x85], [CHR 0xC2, CHR 0xA0], [CHR 0xE1, CHR 0x9A, CHR 0x80],
      [CHR 0xE2, CHR 0x80, CHR 0x80], [CHR 0xE2, CHR 0x80, CHR 0x81],
      [CHR 0xE2, CHR 0x80, CHR 0x82], [CHR 0xE2, CHR 0x80, CHR 0x83],
      [CHR 0xE2, CHR 0x80, CHR 0x84], [CHR 0xE2, CHR 0x80, CHR 0x85],
      [CHR 0xE2, CHR 0x80, CHR 0x86], [CHR 0xE2, CHR 0x80, CHR 0x87],
      [CHR 0xE2, CHR 0x80, CHR 0x88], [CHR 0xE2, CHR 0x80, CHR 0x89],
      [CHR 0xE2, CHR 0x80, CHR 0x8A], [CHR 0xE2, CHR 0x80, CHR 0xA8],
      [CHR 0xE2, CHR 0x80, CHR 0xA9], [CHR 0xE2, CHR 0x80, CHR 0xAF],
      [CHR 0xE2, CHR 0x81, CHR 0x9F], [CHR 0xE3, CHR 0x80, CHR 0x80]]"

function trim_with :: "'a list list \<Rightarrow> 'a list \<Rightarrow> 'a list" where
  "trim_with ps s =
     (case find (\<lambda>p. p \<noteq> [] \<and> prefix p s) ps of
        None \<Rightarrow> s
      | Some p \<Rightarrow> trim_with ps (drop (length p) s))"
  by pat_completeness auto
termination
proof (relation "measure (\<lambda>(ps, s). length s)")
  fix ps and s p :: "'a list"
  assume "find (\<lambda>p. p \<noteq> [] \<and> prefix p s) ps = Some p"
  then have "p \<noteq> []" and "prefix p s"
    by (auto simp: find_Some_iff)
  then show "((ps, drop (length p) s), ps, s) \<in> measure (\<lambda>(ps, s). length s)"
    by (cases p; cases s) auto
qed simp

declare trim_with.simps [simp del]

definition trimSpace :: "string \<Rightarrow> string" where
  "trimSpace s = rev (trim_with (map rev go_spaces) (rev (trim_with go_spaces s)))"

lemma trim_with_id:
  "(\<And>p. p \<in> set ps \<Longrightarrow> p \<noteq> [] \<Longrightarrow> \<not> prefix p s) \<Longrightarrow> trim_with ps s = s"
  by (subst trim_with.simps) (auto simp: find_None_iff split: option.splits dest: find_Some_iff [THEN iffD1])

lemma trim_with_no_prefix:
  "p \<in> set ps \<Longrightarrow> p \<noteq> [] \<Longrightarrow> \<not> prefix p (trim_with ps s)"
proof (induction ps s rule: trim_with.induct)
  case (1 ps s)
  show ?case
  proof (cases "find (\<lambda>p. p \<noteq> [] \<and> prefix p s) ps")
    case None
    then have "trim_with ps s = s"
      by (subst trim_with.simps) simp
    with None "1.prems" show ?thesis
      by (auto simp: find_None_iff)
  next
    case (Some q)
    with 1 show ?thesis
      by (subst trim_with.simps) auto
  qed
qed

lemma suffix_trim_with: "suffix (trim_with ps s) s"
proof (induction ps s rule: trim_with.induct)
  case (1 ps s)
  show ?case
  proof (cases "find (\<lambda>p. p \<noteq> [] \<and> prefix p s) ps")
    case (Some q)
    with 1 have "suffix (trim_with ps (drop (length q) s)) s"
      by (meson suffix_drop suffix_order.trans)
    with Some show ?thesis
      by (subst trim_with.simps) simp
  qed (subst trim_with.simps, simp)
qed

lemma prefix_trimSpace: "prefix (trimSpace s) (trim_with go_spaces s)"
  unfolding trimSpace_def by (metis suffix_to_prefix suffix_trim_with rev_rev_ident)

lemma trimSpace_idem [simp]: "trimSpace (trimSpace s) = trimSpace s"
proof -
  have "trim_with go_spaces (trimSpace s) = trimSpace s"
    by (rule trim_with_id) (meson prefix_trimSpace prefix_order.trans trim_with_no_prefix)
  moreover have "trim_with (map rev go_spaces) (rev (trimSpace s)) = rev (trimSpace s)"
    by (rule trim_with_id) (metis rev_rev_ident trimSpace_def trim_with_no_prefix)
  ultimately show ?thesis
    unfolding trimSpace_def [of "trimSpace s"] by simp
qed

lemma trimSpace_Nil [simp]: "trimSpace [] = []"
  by (simp add: trimSpace_def trim_with_id)

text \<open>
  A string that starts and ends with a printable ASCII byte is kept; as a code equation this
  spares the evaluation the search for white space.
\<close>

definition plain_byte :: "char \<Rightarrow> bool" where
  "plain_byte c \<longleftrightarrow>
     \<not> digit7 c \<and> (digit6 c \<or> digit5 c \<and> (digit0 c \<or> digit1 c \<or> digit2 c \<or> digit3 c \<or> digit4 c))"

lemma go_spaces_bytes:
  "p \<in> set go_spaces \<Longrightarrow> p \<noteq> [] \<and> \<not> plain_byte (hd p) \<and> \<not> plain_byte (last p)"
  by (auto simp: go_spaces_def plain_byte_def)

lemma trimSpace_plain:
  assumes "s \<noteq> []" and "plain_byte (hd s)" and "plain_byte (last s)"
  shows "trimSpace s = s"
proof -
  have "trim_with go_spaces s = s"
    by (rule trim_with_id) (metis assms(2) go_spaces_bytes prefix_def hd_append2)
  moreover have "trim_with (map rev go_spaces) (rev s) = rev s"
  proof (rule trim_with_id)
    fix p assume "p \<in> set (map rev go_spaces)"
    then have "\<not> plain_byte (last (rev p))" and "p \<noteq> []"
      using go_spaces_bytes by fastforce+
    with assms(3) show "\<not> prefix p (rev s)"
      by (metis suffix_to_prefix suffix_def last_appendR rev_is_Nil_conv rev_rev_ident)
  qed
  ultimately show ?thesis
    by (simp add: trimSpace_def)
qed

text \<open>A printable ASCII byte at either end stays there.\<close>

lemma trim_go_spaces_Cons: "plain_byte c \<Longrightarrow> trim_with go_spaces (c # s) = c # s"
  by (rule trim_with_id) (metis go_spaces_bytes list.sel(1) hd_append2 prefix_def)

lemma trim_with_snoc:
  assumes "\<And>p. p \<in> set ps \<Longrightarrow> p \<noteq> [] \<and> \<not> P (last p)" and "P c"
  shows "\<exists>s'. trim_with ps (s @ [c]) = s' @ [c]"
proof (induction "length s" arbitrary: s rule: less_induct)
  case less
  show ?case
  proof (cases "find (\<lambda>p. p \<noteq> [] \<and> prefix p (s @ [c])) ps")
    case None
    then show ?thesis
      by (subst trim_with.simps) simp
  next
    case (Some p)
    then have p: "p \<in> set ps" "p \<noteq> []" "prefix p (s @ [c])"
      by (auto simp: find_Some_iff simp del: prefix_snoc)
    moreover have "p \<noteq> s @ [c]"
      using assms p(1) by force
    ultimately obtain t where t: "s = p @ t"
      by (auto simp: prefix_snoc elim: prefixE)
    then have "\<exists>s'. trim_with ps (t @ [c]) = s' @ [c]"
      using p(2) by (intro less) simp
    then show ?thesis
      using Some t by (subst trim_with.simps) simp
  qed
qed

lemma trimSpace_snoc_plain:
  assumes "plain_byte c"
  shows "\<exists>s'. trimSpace (s @ [c]) = s' @ [c]"
proof -
  obtain s' where s': "trim_with go_spaces (s @ [c]) = s' @ [c]"
    using trim_with_snoc [of go_spaces plain_byte c s] go_spaces_bytes assms by blast
  have "trim_with (map rev go_spaces) (c # rev s') = c # rev s'"
    using assms go_spaces_bytes
    by (intro trim_with_id) (auto simp: prefix_def hd_rev Cons_eq_append_conv neq_Nil_conv, metis last_snoc)
  then show ?thesis
    using s' by (simp add: trimSpace_def)
qed

lemma trimSpace_Cons_plain:
  assumes "plain_byte c"
  shows "\<exists>s'. trimSpace (c # s) = c # s'"
proof -
  have "\<exists>s'. trim_with (map rev go_spaces) (rev s @ [c]) = s' @ [c]"
    using assms go_spaces_bytes by (intro trim_with_snoc [where P = plain_byte]) (auto simp: last_rev)
  then show ?thesis
    using assms by (auto simp: trimSpace_def trim_go_spaces_Cons intro: exI [of _ "rev _"])
qed

lemma trimSpace_code [code]:
  "trimSpace s =
     (if s = [] then [] else if plain_byte (hd s) \<and> plain_byte (last s) then s
      else rev (trim_with (map rev go_spaces) (rev (trim_with go_spaces s))))"
  using trimSpace_plain by (auto simp flip: trimSpace_def)

subsection \<open>ToLower, EqualFold, ReplaceAll\<close>

definition lower_char :: "char \<Rightarrow> char" where
  "lower_char c =
     (if 65 \<le> (of_char c :: nat) \<and> (of_char c :: nat) \<le> 90 then char_of (of_char c + 32 :: nat) else c)"

lemma lower_char_code [code]:
  "lower_char (Char b0 b1 b2 b3 b4 b5 b6 b7) =
     (if \<not> b7 \<and> b6 \<and> \<not> b5 \<and> (b0 \<or> b1 \<or> b2 \<or> b3 \<or> b4) \<and> \<not> (b4 \<and> b3 \<and> (b2 \<or> b1 \<and> b0))
      then Char b0 b1 b2 b3 b4 True b6 b7 else Char b0 b1 b2 b3 b4 b5 b6 b7)"
  by (cases b0; cases b1; cases b2; cases b3; cases b4; cases b5; cases b6; cases b7)
     (simp_all add: lower_char_def char_of_def bit_simps)

definition toLower :: "string \<Rightarrow> string" where
  "toLower s = map lower_char s"

definition equalFold :: "string \<Rightarrow> string \<Rightarrow> bool" where
  "equalFold s t \<longleftrightarrow> toLower s = toLower t"

text \<open>\<^verbatim>\<open>strings.ReplaceAll(s, c, "")\<close> for a one-byte pattern.\<close>

definition remove_byte :: "char \<Rightarrow> string \<Rightarrow> string" where
  "remove_byte c s = filter (\<lambda>d. d \<noteq> c) s"

lemma lower_char_idem [simp]: "lower_char (lower_char c) = lower_char c"
  by (auto simp: lower_char_def)

lemma toLower_idem [simp]: "toLower (toLower s) = toLower s"
  by (simp add: toLower_def)

subsection \<open>Decimal numbers: Itoa, Atoi and padding\<close>

definition digit_char :: "nat \<Rightarrow> char" where
  "digit_char d = char_of (48 + d)"

definition is_digit :: "char \<Rightarrow> bool" where
  "is_digit c \<longleftrightarrow> 48 \<le> (of_char c :: nat) \<and> (of_char c :: nat) \<le> 57"

definition digit_val :: "char \<Rightarrow> nat" where
  "digit_val c = of_char c - 48"

fun nat_digits :: "nat \<Rightarrow> string" where
  "nat_digits n =
     (if n < 10 then [digit_char n] else nat_digits (n div 10) @ [digit_char (n mod 10)])"

declare nat_digits.simps [simp del]

definition digits_nat :: "string \<Rightarrow> nat" where
  "digits_nat s = foldl (\<lambda>v c. 10 * v + digit_val c) 0 s"

definition itoa :: "int \<Rightarrow> string" where
  "itoa i = (if i < 0 then CHR ''-'' # nat_digits (nat (- i)) else nat_digits (nat i))"

definition atoi :: "string \<Rightarrow> int option" where
  "atoi s =
     (let neg = (case s of [] \<Rightarrow> False | c # _ \<Rightarrow> c = CHR ''-'');
          ds = (case s of [] \<Rightarrow> [] | c # t \<Rightarrow> if c = CHR ''-'' \<or> c = CHR ''+'' then t else s);
          v = (if neg then - int (digits_nat ds) else int (digits_nat ds))
      in if ds = [] \<or> \<not> list_all is_digit ds \<or> \<not> in_i64 v then None else Some v)"

text \<open>The verb \<^verbatim>\<open>%06d\<close> on a number that is not negative.\<close>

definition pad06 :: "nat \<Rightarrow> string" where
  "pad06 n = replicate (6 - length (nat_digits n)) (CHR ''0'') @ nat_digits n"

lemma of_char_digit_char: "d < 10 \<Longrightarrow> (of_char (digit_char d) :: nat) = 48 + d"
  by (simp add: digit_char_def)

lemma digit_val_digit_char [simp]: "d < 10 \<Longrightarrow> digit_val (digit_char d) = d"
  by (simp add: digit_val_def of_char_digit_char)

lemma is_digit_digit_char [simp]: "d < 10 \<Longrightarrow> is_digit (digit_char d)"
  by (simp add: is_digit_def of_char_digit_char)

lemma digits_nat_snoc [simp]: "digits_nat (s @ [c]) = 10 * digits_nat s + digit_val c"
  by (simp add: digits_nat_def)

lemma digits_nat_nat_digits [simp]: "digits_nat (nat_digits n) = n"
proof (induction n rule: nat_digits.induct)
  case (1 n)
  then show ?case
    by (subst nat_digits.simps) (auto simp: digits_nat_def)
qed

lemma list_all_is_digit_nat_digits [simp]: "list_all is_digit (nat_digits n)"
proof (induction n rule: nat_digits.induct)
  case (1 n)
  then show ?case
    by (subst nat_digits.simps) auto
qed

lemma nat_digits_not_Nil [simp]: "nat_digits n \<noteq> []"
  by (subst nat_digits.simps) simp

lemma nat_digits_head:
  assumes "nat_digits n = c # t"
  shows "is_digit c" and "c \<noteq> CHR ''-''" and "c \<noteq> CHR ''+''"
proof -
  show d: "is_digit c"
    using list_all_is_digit_nat_digits [of n] assms by simp
  show "c \<noteq> CHR ''-''" "c \<noteq> CHR ''+''"
    using d by (auto simp: is_digit_def)
qed

text \<open>Parsing what \<^verbatim>\<open>Itoa\<close> prints gives the number back.\<close>

lemma atoi_itoa [simp]: "in_i64 i \<Longrightarrow> atoi (itoa i) = Some i"
proof (cases "i < 0")
  case True
  moreover assume "in_i64 i"
  ultimately show ?thesis
    by (simp add: atoi_def itoa_def)
next
  case False
  moreover assume "in_i64 i"
  moreover obtain c t where ct: "nat_digits (nat i) = c # t"
    by (cases "nat_digits (nat i)") auto
  moreover have "digits_nat (c # t) = nat i" and "list_all is_digit (c # t)"
    by (simp_all flip: ct)
  ultimately show ?thesis
    using nat_digits_head [OF ct] by (simp add: atoi_def itoa_def Let_def)
qed

lemma plain_digit_char: "d < 10 \<Longrightarrow> plain_byte (digit_char d)"
proof -
  assume "d < 10"
  moreover have "list_all (\<lambda>d. plain_byte (digit_char d)) [0..<10]"
    by code_simp
  ultimately show ?thesis
    by (simp add: list_all_iff)
qed

lemma plain_minus: "plain_byte CHR ''-''"
  by code_simp

lemma plain_nat_digits: "plain_byte (hd (nat_digits n)) \<and> plain_byte (last (nat_digits n))"
proof (induction n rule: nat_digits.induct)
  case (1 n)
  then show ?case
    by (subst (1 2) nat_digits.simps) (auto simp: plain_digit_char hd_append)
qed

lemma trimSpace_itoa [simp]: "trimSpace (itoa i) = itoa i"
  by (rule trimSpace_plain) (auto simp: itoa_def plain_nat_digits plain_minus)

lemma atoi_in_i64: "atoi s = Some v \<Longrightarrow> in_i64 v"
  by (auto simp: atoi_def Let_def split: if_splits)

lemma digits_nat_zeros: "digits_nat (replicate k (CHR ''0'') @ s) = digits_nat s"
  by (induction k) (simp_all add: digits_nat_def digit_val_def)

lemma inj_pad06: "inj pad06"
  by (rule inj_on_inverseI [where g = digits_nat]) (simp add: pad06_def digits_nat_zeros)

lemma inj_itoa_int: "inj (\<lambda>n. itoa (int n))"
  by (rule inj_on_inverseI [where g = digits_nat]) (simp add: itoa_def)

subsection \<open>Searching\<close>

definition hasPrefix :: "string \<Rightarrow> string \<Rightarrow> bool" where
  "hasPrefix s p \<longleftrightarrow> prefix p s"

text \<open>
  \<^verbatim>\<open>strings.Cut\<close> at a one-byte separator: the parts before and after its first occurrence.
\<close>

fun cut_byte :: "char \<Rightarrow> string \<Rightarrow> (string \<times> string) option" where
  "cut_byte c [] = None"
| "cut_byte c (d # s) =
     (if d = c then Some ([], s) else map_option (\<lambda>(a, b). (d # a, b)) (cut_byte c s))"

text \<open>The text after the last occurrence of a byte, as \<^verbatim>\<open>strings.LastIndex\<close> and a slice give it.\<close>

definition after_last :: "char \<Rightarrow> string \<Rightarrow> string option" where
  "after_last c s = (if c \<in> set s then Some (rev (takeWhile (\<lambda>d. d \<noteq> c) (rev s))) else None)"

lemma cut_byte_Some: "cut_byte c s = Some (a, b) \<Longrightarrow> s = a @ c # b \<and> c \<notin> set a"
  by (induction s arbitrary: a b) (auto split: if_splits)

end
