(* ===== verification/Entities.thy ===== *)
theory Entities
  imports GoStrings
begin

text \<open>
  The data model of \<^verbatim>\<open>internal/world/model\<close>: identifiers, records of rooms, exits, creatures,
  players, families, banks, prototypes and object instances, and their \<^verbatim>\<open>Validate\<close> methods.
  A record here has the fields of the Go struct, each with the struct's name in front.
  A \<^verbatim>\<open>Validate\<close> method returns the error it would return, or \<open>None\<close> for Go's nil.
\<close>

subsection \<open>Identifiers (ids.go)\<close>

type_synonym PlayerID = string
type_synonym CreatureID = string
type_synonym RoomID = string
type_synonym ObjectInstanceID = string
type_synonym PrototypeID = string
type_synonym BankID = string
type_synonym BoardID = string
type_synonym BoardPostID = string
type_synonym SpecialID = int

definition IsZero :: "string \<Rightarrow> bool" where
  "IsZero i \<longleftrightarrow> i = []"

definition SpecialID_IsZero :: "SpecialID \<Rightarrow> bool" where
  "SpecialID_IsZero i \<longleftrightarrow> i = 0"

declare IsZero_def [simp] SpecialID_IsZero_def [simp]

subsection \<open>Metadata (metadata.go)\<close>

record PrototypeResolutionCandidate =
  Cand_PrototypeID :: PrototypeID
  Cand_Path :: string
  Cand_Index :: int
  Cand_LegacyNumber :: int
  Cand_RecordOffset :: int

record PrototypeResolutionMetadata =
  PR_Status :: string
  PR_Method :: string
  PR_Confidence :: string
  PR_SelectedPrototypeID :: PrototypeID
  PR_SyntheticPrototypeID :: PrototypeID
  PR_CandidateCount :: int
  PR_Candidates :: "PrototypeResolutionCandidate list"
  PR_Fingerprint :: string
  PR_FingerprintAlgorithm :: string
  PR_ComparableBytes :: int
  PR_MaterializedFromObjectInstanceID :: ObjectInstanceID

record Metadata =
  Meta_Source :: string
  Meta_LegacyKind :: string
  Meta_LegacyID :: string
  Meta_LegacyPath :: string
  Meta_LegacyEncoding :: string
  Meta_RecordIndex :: int
  Meta_RecordOffset :: int
  Meta_ObjectTreePath :: string
  Meta_RawFields :: "(string, string) fmap"
  Meta_Tags :: "string list"
  Meta_Notes :: "string list"
  Meta_PrototypeResolution :: "PrototypeResolutionMetadata option"

definition noMetadata :: Metadata where
  "noMetadata =
     \<lparr>Meta_Source = [], Meta_LegacyKind = [], Meta_LegacyID = [], Meta_LegacyPath = [],
      Meta_LegacyEncoding = [], Meta_RecordIndex = 0, Meta_RecordOffset = 0,
      Meta_ObjectTreePath = [], Meta_RawFields = fmempty, Meta_Tags = [], Meta_Notes = [],
      Meta_PrototypeResolution = None\<rparr>"

subsection \<open>Entities (entities.go, family.go)\<close>

definition CreatureKindPlayer :: string where "CreatureKindPlayer = ''player''"
definition CreatureKindMonster :: string where "CreatureKindMonster = ''monster''"
definition CreatureKindNPC :: string where "CreatureKindNPC = ''npc''"
definition ObjectKindContainer :: string where "ObjectKindContainer = ''container''"
definition ObjectKindMoney :: string where "ObjectKindMoney = ''money''"
definition ObjectKindKey :: string where "ObjectKindKey = ''key''"

record ObjectRefList =
  ObjectIDs :: "ObjectInstanceID list"

record Exit =
  Exit_Name :: string
  Exit_ToRoomID :: RoomID
  Exit_Flags :: "string list"
  Exit_Metadata :: Metadata

record Room =
  Room_ID :: RoomID
  Room_DisplayName :: string
  Room_ShortDescription :: string
  Room_LongDescription :: string
  Room_ObjectDescription :: string
  Room_Exits :: "Exit list"
  Room_CreatureIDs :: "CreatureID list"
  Room_PlayerIDs :: "PlayerID list"
  Room_Objects :: ObjectRefList
  Room_Properties :: "(string, string) fmap"
  Room_Metadata :: Metadata

record Creature =
  Creature_ID :: CreatureID
  Creature_Kind :: string
  Creature_DisplayName :: string
  Creature_Description :: string
  Creature_Level :: int
  Creature_RoomID :: RoomID
  Creature_PlayerID :: PlayerID
  Creature_Inventory :: ObjectRefList
  Creature_Equipment :: "(string, ObjectInstanceID) fmap"
  Creature_Stats :: "(string, int) fmap"
  Creature_Properties :: "(string, string) fmap"
  Creature_Metadata :: Metadata

record Player =
  Player_ID :: PlayerID
  Player_DisplayName :: string
  Player_CreatureID :: CreatureID
  Player_RoomID :: RoomID
  Player_AccountName :: string
  Player_Metadata :: Metadata

record BankAccount =
  Bank_ID :: BankID
  Bank_Kind :: string
  Bank_OwnerName :: string
  Bank_OwnerPlayerID :: PlayerID
  Bank_Objects :: ObjectRefList
  Bank_Metadata :: Metadata

record ObjectPrototype =
  Proto_ID :: PrototypeID
  Proto_Kind :: string
  Proto_DisplayName :: string
  Proto_Description :: string
  Proto_Keywords :: "string list"
  Proto_Properties :: "(string, string) fmap"
  Proto_Metadata :: Metadata

record ObjectLocation =
  Loc_RoomID :: RoomID
  Loc_CreatureID :: CreatureID
  Loc_BankID :: BankID
  Loc_ContainerID :: ObjectInstanceID
  Loc_Slot :: string

record ObjectInstance =
  Object_ID :: ObjectInstanceID
  Object_PrototypeID :: PrototypeID
  Object_DisplayNameOverride :: string
  Object_Quantity :: int
  Object_Location :: ObjectLocation
  Object_Contents :: ObjectRefList
  Object_Properties :: "(string, string) fmap"
  Object_Metadata :: Metadata

record BoardPost =
  Post_ID :: BoardPostID
  Post_BoardID :: BoardID
  Post_Title :: string
  Post_AuthorID :: PlayerID
  Post_AuthorName :: string
  Post_Body :: string
  Post_CreatedAt :: int
  Post_ReadCount :: int
  Post_Metadata :: Metadata

record FamilyMember =
  Member_DisplayName :: string
  Member_Class :: int
  Member_Metadata :: Metadata

record Family =
  Family_ID :: int
  Family_Slot :: int
  Family_DisplayName :: string
  Family_BossName :: string
  Family_JoinSubsidy :: int
  Family_Members :: "FamilyMember list"
  Family_Metadata :: Metadata

text \<open>Locations as the code builds them: every field it leaves out is the zero value.\<close>

definition roomLocation :: "RoomID \<Rightarrow> ObjectLocation" where
  "roomLocation r = \<lparr>Loc_RoomID = r, Loc_CreatureID = [], Loc_BankID = [], Loc_ContainerID = [], Loc_Slot = []\<rparr>"

definition inventoryLocation :: "CreatureID \<Rightarrow> ObjectLocation" where
  "inventoryLocation c =
     \<lparr>Loc_RoomID = [], Loc_CreatureID = c, Loc_BankID = [], Loc_ContainerID = [], Loc_Slot = ''inventory''\<rparr>"

definition bankLocation :: "BankID \<Rightarrow> string \<Rightarrow> ObjectLocation" where
  "bankLocation b slot =
     \<lparr>Loc_RoomID = [], Loc_CreatureID = [], Loc_BankID = b, Loc_ContainerID = [], Loc_Slot = slot\<rparr>"

definition containerLocation :: "ObjectInstanceID \<Rightarrow> ObjectLocation" where
  "containerLocation k =
     \<lparr>Loc_RoomID = [], Loc_CreatureID = [], Loc_BankID = [], Loc_ContainerID = k, Loc_Slot = []\<rparr>"

lemmas location_defs = roomLocation_def inventoryLocation_def bankLocation_def containerLocation_def

subsection \<open>Validation (validate.go)\<close>

fun validate_refs :: "nat \<Rightarrow> string list \<Rightarrow> string list \<Rightarrow> go_error option" where
  "validate_refs i seen [] = None"
| "validate_refs i seen (x # xs) =
     (if IsZero x then Some (Errorf ''object id %d is empty'' [itoa (int i)])
      else if x \<in> set seen then Some (Errorf ''object id %q is duplicated'' [x])
      else validate_refs (Suc i) (x # seen) xs)"

definition ObjectRefList_Validate :: "ObjectRefList \<Rightarrow> go_error option" where
  "ObjectRefList_Validate l = validate_refs 0 [] (ObjectIDs l)"

definition ObjectLocation_Validate :: "ObjectLocation \<Rightarrow> go_error option" where
  "ObjectLocation_Validate l =
     (let holders = (if IsZero (Loc_RoomID l) then 0 else 1) + (if IsZero (Loc_CreatureID l) then 0 else 1)
            + (if IsZero (Loc_BankID l) then 0 else 1) + (if IsZero (Loc_ContainerID l) then 0 else (1 :: int))
      in if holders \<noteq> 1 then Some (Errorf ''exactly one object holder is required, got %d'' [itoa holders])
         else None)"

definition ObjectInstance_Validate :: "ObjectInstance \<Rightarrow> go_error option" where
  "ObjectInstance_Validate p =
     (if IsZero (Object_ID p) then Some (Errorf ''object instance id is required'' [])
      else if IsZero (Object_PrototypeID p) then Some (Errorf ''object instance prototype id is required'' [])
      else if Object_Quantity p < 0 then Some (Errorf ''object instance quantity cannot be negative'' [])
      else case ObjectLocation_Validate (Object_Location p) of
        Some e \<Rightarrow> Some (Wrapf ''object instance location: %w'' [] e)
      | None \<Rightarrow>
          if Loc_ContainerID (Object_Location p) = Object_ID p
          then Some (Errorf ''object instance cannot be located inside itself'' [])
          else case ObjectRefList_Validate (Object_Contents p) of
            Some e \<Rightarrow> Some (Wrapf ''object instance contents: %w'' [] e)
          | None \<Rightarrow>
              if list_ex (\<lambda>c. c = Object_ID p) (ObjectIDs (Object_Contents p))
              then Some (Errorf ''object instance cannot contain itself'' []) else None)"

fun validate_exits :: "nat \<Rightarrow> Exit list \<Rightarrow> go_error option" where
  "validate_exits i [] = None"
| "validate_exits i (x # xs) =
     (if Exit_Name x = [] then Some (Errorf ''room exit %d name is required'' [itoa (int i)])
      else if IsZero (Exit_ToRoomID x)
      then Some (Errorf ''room exit %d target room id is required'' [itoa (int i)])
      else validate_exits (Suc i) xs)"

definition Room_Validate :: "Room \<Rightarrow> go_error option" where
  "Room_Validate r =
     (if IsZero (Room_ID r) then Some (Errorf ''room id is required'' [])
      else if Room_DisplayName r = [] then Some (Errorf ''room display name is required'' [])
      else case validate_exits 0 (Room_Exits r) of
        Some e \<Rightarrow> Some e
      | None \<Rightarrow>
          (case ObjectRefList_Validate (Room_Objects r) of
             Some e \<Rightarrow> Some (Wrapf ''room objects: %w'' [] e)
           | None \<Rightarrow> None))"

definition Creature_Validate :: "Creature \<Rightarrow> go_error option" where
  "Creature_Validate c =
     (if IsZero (Creature_ID c) then Some (Errorf ''creature id is required'' [])
      else if Creature_DisplayName c = [] then Some (Errorf ''creature display name is required'' [])
      else if Creature_Kind c = [] then Some (Errorf ''creature kind is required'' [])
      else if Creature_Kind c = CreatureKindPlayer \<and> IsZero (Creature_PlayerID c)
      then Some (Errorf ''player creature must reference a player id'' [])
      else case ObjectRefList_Validate (Creature_Inventory c) of
        Some e \<Rightarrow> Some (Wrapf ''creature inventory: %w'' [] e)
      | None \<Rightarrow> None)"

definition Player_Validate :: "Player \<Rightarrow> go_error option" where
  "Player_Validate p =
     (if IsZero (Player_ID p) then Some (Errorf ''player id is required'' [])
      else if Player_DisplayName p = [] then Some (Errorf ''player display name is required'' [])
      else None)"

fun validate_members :: "nat \<Rightarrow> FamilyMember list \<Rightarrow> go_error option" where
  "validate_members i [] = None"
| "validate_members i (m # ms) =
     (if Member_DisplayName m = []
      then Some (Errorf ''family member %d display name is required'' [itoa (int i)])
      else if Member_Class m < 0
      then Some (Errorf ''family member %d class cannot be negative'' [itoa (int i)])
      else validate_members (Suc i) ms)"

definition Family_Validate :: "Family \<Rightarrow> go_error option" where
  "Family_Validate f =
     (if Family_ID f < 0 then Some (Errorf ''family id cannot be negative'' [])
      else if Family_Slot f < 0 then Some (Errorf ''family slot cannot be negative'' [])
      else if Family_DisplayName f = [] then Some (Errorf ''family display name is required'' [])
      else if Family_JoinSubsidy f < 0 then Some (Errorf ''family join subsidy cannot be negative'' [])
      else validate_members 0 (Family_Members f))"

definition BankAccount_Validate :: "BankAccount \<Rightarrow> go_error option" where
  "BankAccount_Validate b =
     (if IsZero (Bank_ID b) then Some (Errorf ''bank id is required'' [])
      else if Bank_Kind b = [] then Some (Errorf ''bank kind is required'' [])
      else if Bank_OwnerName b = [] then Some (Errorf ''bank owner name is required'' [])
      else case ObjectRefList_Validate (Bank_Objects b) of
        Some e \<Rightarrow> Some (Wrapf ''bank objects: %w'' [] e)
      | None \<Rightarrow> None)"

definition ObjectPrototype_Validate :: "ObjectPrototype \<Rightarrow> go_error option" where
  "ObjectPrototype_Validate p =
     (if IsZero (Proto_ID p) then Some (Errorf ''object prototype id is required'' [])
      else if Proto_DisplayName p = []
      then Some (Errorf ''object prototype display name is required'' [])
      else None)"

definition BoardPost_Validate :: "BoardPost \<Rightarrow> go_error option" where
  "BoardPost_Validate p =
     (if IsZero (Post_ID p) then Some (Errorf ''board post id is required'' [])
      else if IsZero (Post_BoardID p) then Some (Errorf ''board id is required'' [])
      else None)"

subsection \<open>What validation accepts\<close>

lemma validate_refs_None:
  "validate_refs i seen xs = None \<longleftrightarrow> [] \<notin> set xs \<and> distinct xs \<and> set xs \<inter> set seen = {}"
  by (induction xs arbitrary: i seen) auto

lemma ObjectRefList_Validate_None:
  "ObjectRefList_Validate l = None \<longleftrightarrow> [] \<notin> set (ObjectIDs l) \<and> distinct (ObjectIDs l)"
  by (simp add: ObjectRefList_Validate_def validate_refs_None)

text \<open>The holders a location names, in the order of the code's \<^verbatim>\<open>switch\<close> statements.\<close>

datatype Holder = InRoom RoomID | OnCreature CreatureID | InBank BankID | InObject ObjectInstanceID | Nowhere

definition holderOf :: "ObjectLocation \<Rightarrow> Holder" where
  "holderOf l =
     (if \<not> IsZero (Loc_RoomID l) then InRoom (Loc_RoomID l)
      else if \<not> IsZero (Loc_CreatureID l) then OnCreature (Loc_CreatureID l)
      else if \<not> IsZero (Loc_BankID l) then InBank (Loc_BankID l)
      else if \<not> IsZero (Loc_ContainerID l) then InObject (Loc_ContainerID l)
      else Nowhere)"

definition holder_fields :: "ObjectLocation \<Rightarrow> Holder list" where
  "holder_fields l =
     (if Loc_RoomID l = [] then [] else [InRoom (Loc_RoomID l)])
     @ (if Loc_CreatureID l = [] then [] else [OnCreature (Loc_CreatureID l)])
     @ (if Loc_BankID l = [] then [] else [InBank (Loc_BankID l)])
     @ (if Loc_ContainerID l = [] then [] else [InObject (Loc_ContainerID l)])"

lemma ObjectLocation_Validate_fields:
  "ObjectLocation_Validate l = None \<longleftrightarrow> holder_fields l = [holderOf l]"
  by (simp add: ObjectLocation_Validate_def holder_fields_def holderOf_def Let_def)

lemma holderOf_location [simp]:
  "r \<noteq> [] \<Longrightarrow> holderOf (roomLocation r) = InRoom r"
  "c \<noteq> [] \<Longrightarrow> holderOf (inventoryLocation c) = OnCreature c"
  "b \<noteq> [] \<Longrightarrow> holderOf (bankLocation b s) = InBank b"
  "k \<noteq> [] \<Longrightarrow> holderOf (containerLocation k) = InObject k"
  by (simp_all add: holderOf_def location_defs)

lemma ObjectLocation_Validate_location [simp]:
  "r \<noteq> [] \<Longrightarrow> ObjectLocation_Validate (roomLocation r) = None"
  "c \<noteq> [] \<Longrightarrow> ObjectLocation_Validate (inventoryLocation c) = None"
  "b \<noteq> [] \<Longrightarrow> ObjectLocation_Validate (bankLocation b s) = None"
  "k \<noteq> [] \<Longrightarrow> ObjectLocation_Validate (containerLocation k) = None"
  by (simp_all add: ObjectLocation_Validate_def location_defs)

lemma ObjectInstance_Validate_None:
  "ObjectInstance_Validate p = None \<longleftrightarrow>
     Object_ID p \<noteq> [] \<and> Object_PrototypeID p \<noteq> [] \<and> 0 \<le> Object_Quantity p
     \<and> holder_fields (Object_Location p) = [holderOf (Object_Location p)]
     \<and> holderOf (Object_Location p) \<noteq> InObject (Object_ID p)
     \<and> [] \<notin> set (ObjectIDs (Object_Contents p)) \<and> distinct (ObjectIDs (Object_Contents p))
     \<and> Object_ID p \<notin> set (ObjectIDs (Object_Contents p))"
  by (auto simp: ObjectInstance_Validate_def ObjectLocation_Validate_fields [symmetric]
        ObjectRefList_Validate_None [symmetric] list_ex_iff holderOf_def holder_fields_def
        ObjectLocation_Validate_def Let_def split: option.splits if_splits)

lemma validate_exits_None:
  "validate_exits i xs = None \<longleftrightarrow> (\<forall>x \<in> set xs. Exit_Name x \<noteq> [] \<and> Exit_ToRoomID x \<noteq> [])"
  by (induction xs arbitrary: i) auto

end
