(* ===== verification/AliasTables.thy ===== *)
theory AliasTables
  imports Entities
begin

text \<open>
  The alias tables of \<^verbatim>\<open>internal/world/state/state.go\<close>, entry for entry: \<^verbatim>\<open>FlagAliasMap\<close> as an
  association list and the four \<^verbatim>\<open>legacy...FlagAliasGroups\<close> as lists of groups.
\<close>

definition FlagAliasMap :: "(string \<times> string list) list" where
  "FlagAliasMap =
    [(''poison'', [''poison'', ''poisoned'', ''ppoisn'', ''mpoisn'']),
     (''poisoned'', [''poison'', ''poisoned'', ''ppoisn'', ''mpoisn'']),
     (''ppoisn'', [''poison'', ''poisoned'', ''ppoisn'', ''mpoisn'']),
     (''mpoisn'', [''poison'', ''poisoned'', ''ppoisn'', ''mpoisn'']),
     (''disease'', [''disease'', ''diseased'', ''pdisea'', ''mdisea'']),
     (''diseased'', [''disease'', ''diseased'', ''pdisea'', ''mdisea'']),
     (''pdisea'', [''disease'', ''diseased'', ''pdisea'', ''mdisea'']),
     (''mdisea'', [''disease'', ''diseased'', ''pdisea'', ''mdisea'']),
     (''blind'', [''blind'', ''blinded'', ''pblind'', ''mblind'']),
     (''blinded'', [''blind'', ''blinded'', ''pblind'', ''mblind'']),
     (''pblind'', [''blind'', ''blinded'', ''pblind'', ''mblind'']),
     (''mblind'', [''blind'', ''blinded'', ''pblind'', ''mblind'']),
     (''fear'', [''fear'', ''fearful'', ''pfears'', ''mfears'']),
     (''fearful'', [''fear'', ''fearful'', ''pfears'', ''mfears'']),
     (''pfears'', [''fear'', ''fearful'', ''pfears'', ''mfears'']),
     (''mfears'', [''fear'', ''fearful'', ''pfears'', ''mfears'']),
     (''charm'', [''charm'', ''charmed'', ''pcharm'', ''mcharm'']),
     (''charmed'', [''charm'', ''charmed'', ''pcharm'', ''mcharm'']),
     (''pcharm'', [''charm'', ''charmed'', ''pcharm'', ''mcharm'']),
     (''mcharm'', [''charm'', ''charmed'', ''pcharm'', ''mcharm'']),
     (''silence'', [''silence'', ''silenced'', ''psilnc'', ''msilnc'']),
     (''silenced'', [''silence'', ''silenced'', ''psilnc'', ''msilnc'']),
     (''psilnc'', [''silence'', ''silenced'', ''psilnc'', ''msilnc'']),
     (''msilnc'', [''silence'', ''silenced'', ''psilnc'', ''msilnc'']),
     (''befuddle'', [''befuddle'', ''befuddled'']),
     (''befuddled'', [''befuddle'', ''befuddled'']),
     (''hidden'', [''hidden'', ''phiddn'', ''mhiddn'']),
     (''phiddn'', [''hidden'', ''phiddn'', ''mhiddn'']),
     (''mhiddn'', [''hidden'', ''phiddn'', ''mhiddn'']),
     (''invisible'', [''invisible'', ''invisibility'', ''pinvis'', ''minvis'']),
     (''invisibility'', [''invisible'', ''invisibility'', ''pinvis'', ''minvis'']),
     (''pinvis'', [''invisible'', ''invisibility'', ''pinvis'', ''minvis'']),
     (''minvis'', [''invisible'', ''invisibility'', ''pinvis'', ''minvis'']),
     (''detectinvisible'', [''detectinvisible'', ''detectinvis'', ''pdinvi'', ''mdinvi'']),
     (''detectinvis'', [''detectinvisible'', ''detectinvis'', ''pdinvi'', ''mdinvi'']),
     (''pdinvi'', [''detectinvisible'', ''detectinvis'', ''pdinvi'', ''mdinvi'']),
     (''mdinvi'', [''detectinvisible'', ''detectinvis'', ''pdinvi'', ''mdinvi'']),
     (''bless'', [''bless'', ''blessed'', ''pbless'']),
     (''blessed'', [''bless'', ''blessed'', ''pbless'']),
     (''pbless'', [''bless'', ''blessed'', ''pbless'']),
     (''light'', [''light'', ''plight'']),
     (''plight'', [''light'', ''plight'']),
     (''protection'', [''protection'', ''protect'', ''protected'', ''pprote'']),
     (''protect'', [''protection'', ''protect'', ''protected'', ''pprote'']),
     (''protected'', [''protection'', ''protect'', ''protected'', ''pprote'']),
     (''pprote'', [''protection'', ''protect'', ''protected'', ''pprote'']),
     (''resistfire'', [''resistfire'', ''fireresistance'', ''prfire'']),
     (''fireresistance'', [''resistfire'', ''fireresistance'', ''prfire'']),
     (''prfire'', [''resistfire'', ''fireresistance'', ''prfire'']),
     (''resistcold'', [''resistcold'', ''coldresistance'', ''prcold'']),
     (''coldresistance'', [''resistcold'', ''coldresistance'', ''prcold'']),
     (''prcold'', [''resistcold'', ''coldresistance'', ''prcold'']),
     (''earthshield'', [''earthshield'', ''stoneshield'', ''psshld'']),
     (''stoneshield'', [''earthshield'', ''stoneshield'', ''psshld'']),
     (''psshld'', [''earthshield'', ''stoneshield'', ''psshld'']),
     (''resistmagic'', [''resistmagic'', ''magicresistance'', ''prmagi'', ''mrmagi'']),
     (''magicresistance'', [''resistmagic'', ''magicresistance'', ''prmagi'', ''mrmagi'']),
     (''prmagi'', [''resistmagic'', ''magicresistance'', ''prmagi'', ''mrmagi'']),
     (''mrmagi'', [''resistmagic'', ''magicresistance'', ''prmagi'', ''mrmagi'']),
     (''prepared'', [''prepared'', ''prepare'', ''pprepa'']),
     (''prepare'', [''prepared'', ''prepare'', ''pprepa'']),
     (''pprepa'', [''prepared'', ''prepare'', ''pprepa'']),
     (''levitate'', [''levitate'', ''levitation'', ''plevit'']),
     (''levitation'', [''levitate'', ''levitation'', ''plevit'']),
     (''plevit'', [''levitate'', ''levitation'', ''plevit'']),
     (''fly'', [''fly'', ''flying'', ''pflysp'']),
     (''flying'', [''fly'', ''flying'', ''pflysp'']),
     (''pflysp'', [''fly'', ''flying'', ''pflysp'']),
     (''breathewater'', [''breathewater'', ''waterbreathing'', ''pbrwat'']),
     (''waterbreathing'', [''breathewater'', ''waterbreathing'', ''pbrwat'']),
     (''pbrwat'', [''breathewater'', ''waterbreathing'', ''pbrwat'']),
     (''detectmagic'', [''detectmagic'', ''dmagic'', ''pdmagi'']),
     (''dmagic'', [''detectmagic'', ''dmagic'', ''pdmagi'']),
     (''pdmagi'', [''detectmagic'', ''dmagic'', ''pdmagi'']),
     (''haste'', [''haste'', ''hasted'', ''phaste'']),
     (''hasted'', [''haste'', ''hasted'', ''phaste'']),
     (''phaste'', [''haste'', ''hasted'', ''phaste'']),
     (''prayer'', [''prayer'', ''prayed'', ''pprayd'']),
     (''prayed'', [''prayer'', ''prayed'', ''pprayd'']),
     (''pprayd'', [''prayer'', ''prayed'', ''pprayd'']),
     (''meditate'', [''meditate'', ''meditation'', ''pmedit'']),
     (''meditation'', [''meditate'', ''meditation'', ''pmedit'']),
     (''pmedit'', [''meditate'', ''meditation'', ''pmedit'']),
     (''power'', [''power'', ''ppower'']),
     (''ppower'', [''power'', ''ppower'']),
     (''knowalignment'', [''knowalignment'', ''alignmentsense'', ''pknowa'']),
     (''alignmentsense'', [''knowalignment'', ''alignmentsense'', ''pknowa'']),
     (''pknowa'', [''knowalignment'', ''alignmentsense'', ''pknowa'']),
     (''updamage'', [''updamage'', ''updmg'', ''pupdmg'']),
     (''updmg'', [''updamage'', ''updmg'', ''pupdmg'']),
     (''pupdmg'', [''updamage'', ''updmg'', ''pupdmg'']),
     (''reflect'', [''reflect'', ''reflection'', ''preflect'']),
     (''reflection'', [''reflect'', ''reflection'', ''preflect'']),
     (''preflect'', [''reflect'', ''reflection'', ''preflect'']),
     (''slayer'', [''slayer'', ''slay'', ''pslaye'']),
     (''slay'', [''slayer'', ''slay'', ''pslaye'']),
     (''pslaye'', [''slayer'', ''slay'', ''pslaye'']),
     (''angel'', [''angel'', ''pangel'']),
     (''pangel'', [''angel'', ''pangel'']),
     (''married'', [''married'', ''marriage'', ''pmarri'']),
     (''marriage'', [''married'', ''marriage'', ''pmarri'']),
     (''pmarri'', [''married'', ''marriage'', ''pmarri''])]"

definition legacyCreatureFlagAliasGroups :: "string list list" where
  "legacyCreatureFlagAliasGroups =
    [[''MPERMT'', ''permanent''],
     [''MHIDDN'', ''hidden''],
     [''MINVIS'', ''invisible''],
     [''MTOMEN'', ''manToMenPlural''],
     [''MDROPS'', ''noPluralSuffix''],
     [''MNOPRE'', ''noPrefix''],
     [''MAGGRE'', ''aggressive''],
     [''MGUARD'', ''guardTreasure''],
     [''MBLOCK'', ''blocksExits''],
     [''MFOLLO'', ''followsAttacker''],
     [''MFLEER'', ''flees''],
     [''MSCAVE'', ''scavenger''],
     [''MMALES'', ''male''],
     [''MPOISS'', ''poisoner''],
     [''MUNDED'', ''undead''],
     [''MUNSTL'', ''cannotSteal''],
     [''MPOISN'', ''poisoned'', ''poison''],
     [''MMAGIC'', ''magicUser'', ''magic''],
     [''MHASSC'', ''hasScavenged''],
     [''MBRETH'', ''breathWeapon'', ''breath''],
     [''MMGONL'', ''magicOnly''],
     [''MDINVI'', ''detectInvisible'', ''detectInvis''],
     [''MENONL'', ''magicOrEnchantedOnly''],
     [''MTALKS'', ''talks''],
     [''MUNKIL'', ''unkillable''],
     [''MNRGLD'', ''fixedGold''],
     [''MTLKAG'', ''talkAggressive''],
     [''MRMAGI'', ''resistMagic'', ''magicResistance''],
     [''MBRWP1'', ''breathWeaponType1''],
     [''MBRWP2'', ''breathWeaponType2''],
     [''MENEDR'', ''energyDrain''],
     [''MKNGDM'', ''kingdom''],
     [''MPLDGK'', ''pledgeKingdom''],
     [''MRSCND'', ''rescindKingdom''],
     [''MDISEA'', ''disease'', ''diseased''],
     [''MDISIT'', ''dissolveItems''],
     [''MPURIT'', ''purchaseItems''],
     [''MTRADE'', ''tradeItems''],
     [''MPGUAR'', ''passiveExitGuard''],
     [''MGAGGR'', ''goodAggressive''],
     [''MEAGGR'', ''evilAggressive''],
     [''MDEATH'', ''deathDescription''],
     [''MMAGIO'', ''magicPercent''],
     [''MRBEFD'', ''resistStunOnly''],
     [''MNOCIR'', ''cannotCircle''],
     [''MBLNDR'', ''blind''],
     [''MDMFOL'', ''followDM''],
     [''MFEARS'', ''fearful'', ''fear''],
     [''MSILNC'', ''silenced'', ''silence''],
     [''MBLIND'', ''blinded''],
     [''MCHARM'', ''charmed'', ''charm''],
     [''MBEFUD'', ''befuddled'', ''befuddle''],
     [''MKNDM1'', ''kingdom1''],
     [''MKNDM2'', ''kingdom2''],
     [''MKNDM3'', ''kingdom3''],
     [''MKNDM4'', ''kingdom4''],
     [''MKING1'', ''king1''],
     [''MKING2'', ''king2''],
     [''MKING3'', ''king3''],
     [''MKING4'', ''king4''],
     [''MSAYTLK'', ''sayTalk''],
     [''MSUMMO'', ''summoner'', ''summon''],
     [''MNOCHA'', ''noCharm'']]"

definition legacyRoomFlagAliasGroups :: "string list list" where
  "legacyRoomFlagAliasGroups =
    [[''RSHOPP'', ''shoppe'', ''shop''],
     [''RDUMPR'', ''dump''],
     [''RPAWNS'', ''pawnShop'', ''pawn'', ''pawns''],
     [''RTRAIN'', ''train'', ''training''],
     [''RTRAIN4'', ''trainingBit4'', ''trainBit4''],
     [''RTRAIN5'', ''trainingBit5'', ''trainBit5''],
     [''RTRAIN6'', ''trainingBit6'', ''trainBit6''],
     [''RREPAI'', ''repair'', ''repairShop''],
     [''RDARKR'', ''darkAlways''],
     [''RDARKN'', ''darkNight''],
     [''RPOSTO'', ''postOffice''],
     [''RNOKIL'', ''noPlayerKill'', ''noKill''],
     [''RNOTEL'', ''noTeleport''],
     [''RHEALR'', ''healFast''],
     [''RONEPL'', ''onePlayer''],
     [''RTWOPL'', ''twoPlayers''],
     [''RTHREE'', ''threePlayers''],
     [''RNOMAG'', ''noMagic''],
     [''RPTRAK'', ''permanentTracks'', ''permTrack''],
     [''REARTH'', ''earth''],
     [''RWINDR'', ''wind''],
     [''RFIRER'', ''fire''],
     [''RWATER'', ''water''],
     [''RPLWAN'', ''playerWander'', ''groupWander''],
     [''RPHARM'', ''playerHarm''],
     [''RPPOIS'', ''playerPoison''],
     [''RPMPDR'', ''RPMPRD'', ''playerMPDrain''],
     [''RPBEFU'', ''playerBefuddle'', ''confusion''],
     [''RNOLEA'', ''noSummonOut'', ''noSummon''],
     [''RPLDGK'', ''pledge''],
     [''RRSCND'', ''rescind''],
     [''RNOPOT'', ''noPotion''],
     [''RPMEXT'', ''magicExtend'', ''pmagic''],
     [''RNOLOG'', ''noLog''],
     [''RELECT'', ''election''],
     [''RFORGE'', ''forge''],
     [''RSUVIV'', ''survival''],
     [''RFAMIL'', ''family''],
     [''RONFML'', ''onlyFamily'', ''familyOnly''],
     [''RBANK'', ''bank''],
     [''RMARRI'', ''marriage''],
     [''RONMAR'', ''onlyMarried'', ''marriedOnly''],
     [''RCAST'', ''cast''],
     [''RDEPOT'', ''depot'']]"

definition legacyExitFlagAliasGroups :: "string list list" where
  "legacyExitFlagAliasGroups =
    [[''XSECRT'', ''XSECRET'', ''secret''],
     [''XINVIS'', ''invisible''],
     [''XLOCKD'', ''XLOCKED'', ''locked''],
     [''XCLOSD'', ''XCLOSED'', ''closed''],
     [''XLOCKS'', ''lockable''],
     [''XCLOSS'', ''closable''],
     [''XUNPCK'', ''unpickable''],
     [''XNAKED'', ''naked''],
     [''XCLIMB'', ''climb''],
     [''XREPEL'', ''repel''],
     [''XDCLIM'', ''hardClimb'', ''difficultClimb''],
     [''XFLYSP'', ''fly''],
     [''XFEMAL'', ''femaleOnly''],
     [''XMALES'', ''maleOnly''],
     [''XPLDGK'', ''pledgeOnly''],
     [''XKNGDM'', ''kingdomSelector''],
     [''XNGHTO'', ''nightOnly''],
     [''XDAYON'', ''XDATON'', ''dayOnly''],
     [''XPGUAR'', ''guarded''],
     [''XNOSEE'', ''noSee''],
     [''XKNDM1'', ''kingdom1''],
     [''XKNDM2'', ''kingdom2'']]"

definition legacyObjectFlagAliasGroups :: "string list list" where
  "legacyObjectFlagAliasGroups =
    [[''OPERMT'', ''permanent''],
     [''OHIDDN'', ''hidden''],
     [''OINVIS'', ''invisible''],
     [''OSOMEA'', ''somePrefix''],
     [''ODROPS'', ''noPluralSuffix''],
     [''ONOPRE'', ''noPrefix''],
     [''OCONTN'', ''container''],
     [''OWTLES'', ''weightless''],
     [''OTEMPP'', ''temporaryPermanent'', ''tempPermanent''],
     [''OPERM2'', ''inventoryPermanent''],
     [''ONOMAG'', ''noMage''],
     [''OLIGHT'', ''lightSource''],
     [''OGOODO'', ''goodOnly''],
     [''OEVILO'', ''evilOnly''],
     [''OENCHA'', ''enchanted''],
     [''ONOFIX'', ''noRepair''],
     [''OCLIMB'', ''climbGear'', ''climbing''],
     [''ONOTAK'', ''noTake'', ''notTake''],
     [''OSCENE'', ''scenery'', ''scene''],
     [''OSIZE1'', ''sizeSmall''],
     [''OSIZE2'', ''sizeLarge''],
     [''ORENCH'', ''randomEnchantment'', ''randEnch''],
     [''OCURSE'', ''cursed''],
     [''OWEARS'', ''worn''],
     [''OUSEFL'', ''useFromFloor''],
     [''OCNDES'', ''containerDevours'', ''devours''],
     [''ONOMAL'', ''femaleOnly'', ''noMale''],
     [''ONOFEM'', ''maleOnly'', ''noFemale''],
     [''ODDICE'', ''damageDice''],
     [''OPLDGK'', ''pledgeOnly'', ''organization''],
     [''OKNGDM'', ''kingdomBound'', ''kngdm''],
     [''OCLSEL'', ''classSelective'', ''clsSel''],
     [''OASSNO'', ''classAssassin'', ''assassinUsable''],
     [''OBARBO'', ''classBarbarian'', ''barbarianUsable''],
     [''OCLERO'', ''classCleric'', ''clericUsable''],
     [''OFIGHO'', ''classFighter'', ''fighterUsable''],
     [''OMAGEO'', ''classMage'', ''mageUsable''],
     [''OPALAO'', ''classPaladin'', ''paladinUsable''],
     [''ORNGRO'', ''classRanger'', ''rangerUsable''],
     [''OTHIEO'', ''classThief'', ''thiefUsable''],
     [''OVBEFD'', ''stunLengthDice''],
     [''ONSHAT'', ''neverShatter''],
     [''OALCRT'', ''alwaysCritical''],
     [''OCNAME'', ''customName''],
     [''OSPECI'', ''specialItem''],
     [''OMARRI'', ''marriageOnly''],
     [''OEVENT'', ''eventItem'', ''event''],
     [''ONAMED'', ''named''],
     [''ONOBUN'', ''noBurn'', ''noburn''],
     [''OWHELD'', ''held'']]"

end
