(* ===== verification/Flags.thy ===== *)
theory Flags
  imports AliasTables
begin

text \<open>
  Flag names of \<^verbatim>\<open>internal/world/state/state.go\<close> and \<^verbatim>\<open>room.go\<close>: normalisation, expansion through
  the alias tables, tests for a flag on tags and properties, and the updates of tag lists.
  A set of targets (\<^verbatim>\<open>map[string]struct{}\<close>) is the list it is built from, tested by membership.
\<close>

subsection \<open>Normalisation and expansion\<close>

definition normalizeFlagName :: "string \<Rightarrow> string" where
  "normalizeFlagName flag =
     remove_byte CHR '' '' (remove_byte CHR ''_'' (remove_byte CHR ''-'' (toLower (trimSpace flag))))"

text \<open>The loop over one group in \<^verbatim>\<open>buildLegacyAliasIndex\<close>: normalise, skip blanks and repeats.\<close>

definition normalize_group :: "string list \<Rightarrow> string list" where
  "normalize_group g =
     foldl (\<lambda>ns name. let n = normalizeFlagName name in if n = [] \<or> n \<in> set ns then ns else ns @ [n]) [] g"

definition buildLegacyAliasIndex :: "string list list \<Rightarrow> (string \<rightharpoonup> string list)" where
  "buildLegacyAliasIndex groups =
     foldl (\<lambda>index g. let ns = normalize_group g in foldl (\<lambda>ix n. ix(n \<mapsto> ns)) index ns) Map.empty groups"

definition legacyCreatureFlagAliasIndex :: "string \<rightharpoonup> string list" where
  "legacyCreatureFlagAliasIndex = buildLegacyAliasIndex legacyCreatureFlagAliasGroups"

definition legacyRoomFlagAliasIndex :: "string \<rightharpoonup> string list" where
  "legacyRoomFlagAliasIndex = buildLegacyAliasIndex legacyRoomFlagAliasGroups"

definition legacyExitFlagAliasIndex :: "string \<rightharpoonup> string list" where
  "legacyExitFlagAliasIndex = buildLegacyAliasIndex legacyExitFlagAliasGroups"

definition legacyObjectFlagAliasIndex :: "string \<rightharpoonup> string list" where
  "legacyObjectFlagAliasIndex = buildLegacyAliasIndex legacyObjectFlagAliasGroups"

definition push_name :: "string list \<Rightarrow> string \<Rightarrow> string list" where
  "push_name result n = (if n \<in> set result then result else result @ [n])"

definition push_aliases :: "(string \<rightharpoonup> string list) \<Rightarrow> string \<Rightarrow> string list \<Rightarrow> string list" where
  "push_aliases table n result =
     (case table n of
        None \<Rightarrow> result
      | Some aliases \<Rightarrow> foldl (\<lambda>r alias. push_name r (normalizeFlagName alias)) result aliases)"

definition expand_name :: "string list \<Rightarrow> string \<Rightarrow> string list" where
  "expand_name result name =
     (let n = normalizeFlagName name
      in if n = [] then result
         else push_aliases legacyObjectFlagAliasIndex n
               (push_aliases legacyExitFlagAliasIndex n
                 (push_aliases legacyRoomFlagAliasIndex n
                   (push_aliases legacyCreatureFlagAliasIndex n
                     (push_aliases (map_of FlagAliasMap) n (push_name result n))))))"

definition ExpandFlagNames :: "string list \<Rightarrow> string list" where
  "ExpandFlagNames names = foldl expand_name [] names"

definition normalizedFlagSet :: "string list \<Rightarrow> string list" where
  "normalizedFlagSet names = ExpandFlagNames names"

subsection \<open>Evaluating names\<close>

text \<open>
  Code equations that spare the evaluator most of the normalisation of the tables: a name of ASCII
  letters is only made lower case, and a name that starts with another letter is not compared further.
\<close>

definition name_byte :: "char \<Rightarrow> bool" where
  "name_byte c \<longleftrightarrow>
     \<not> digit7 c \<and> (digit6 c \<and> (digit0 c \<or> digit1 c \<or> digit2 c \<or> digit3 c \<or> digit4 c)
                    \<and> \<not> (digit4 c \<and> digit3 c \<and> (digit2 c \<or> digit1 c \<and> digit0 c)))"

definition lower_letter :: "char \<Rightarrow> char" where
  "lower_letter c = Char (digit0 c) (digit1 c) (digit2 c) (digit3 c) (digit4 c) True (digit6 c) (digit7 c)"

lemma name_byte_code [code]:
  "name_byte (Char b0 b1 b2 b3 b4 b5 b6 b7) \<longleftrightarrow>
     \<not> b7 \<and> b6 \<and> (b0 \<or> b1 \<or> b2 \<or> b3 \<or> b4) \<and> \<not> (b4 \<and> b3 \<and> (b2 \<or> b1 \<and> b0))"
  by (simp add: name_byte_def)

lemma lower_letter_code [code]: "lower_letter (Char b0 b1 b2 b3 b4 b5 b6 b7) = Char b0 b1 b2 b3 b4 True b6 b7"
  by (simp add: lower_letter_def)

lemma lower_letter: "name_byte c \<Longrightarrow> lower_char c = lower_letter c"
  by (cases c) (auto simp: name_byte_def lower_letter_def lower_char_code)

lemma lower_letter_kept: "name_byte c \<Longrightarrow> lower_letter c \<notin> {CHR ''-'', CHR '' '', CHR ''_''}"
  by (auto simp: lower_letter_def name_byte_def)

lemma normalize_letters:
  assumes "list_all name_byte s"
  shows "normalizeFlagName s = map lower_letter s"
proof -
  have "trimSpace s = s"
    using assms by (cases "s = []") (auto intro!: trimSpace_plain simp: list_all_iff name_byte_def plain_byte_def)
  moreover have "toLower s = map lower_letter s"
    using assms by (auto simp: toLower_def lower_letter list_all_iff)
  moreover have "d \<notin> {CHR ''-'', CHR '' '', CHR ''_''}" if "d \<in> set (map lower_letter s)" for d
    using that assms lower_letter_kept by (auto simp: list_all_iff)
  ultimately show ?thesis
    by (auto simp: normalizeFlagName_def remove_byte_def filter_id_conv)
qed

lemma normalizeFlagName_code [code]:
  "normalizeFlagName s =
     (if list_all name_byte s then map lower_letter s
      else remove_byte CHR '' '' (remove_byte CHR ''_'' (remove_byte CHR ''-'' (toLower (trimSpace s)))))"
  using normalize_letters by (simp add: normalizeFlagName_def)

definition normal_is :: "string \<Rightarrow> string \<Rightarrow> bool" where
  "normal_is n s \<longleftrightarrow> normalizeFlagName s = n"

lemma normal_is_code [code]:
  "normal_is n s \<longleftrightarrow>
     (case (n, s) of (x # xs, c # cs) \<Rightarrow> if name_byte c \<and> lower_letter c \<noteq> x then False else normalizeFlagName s = n
      | _ \<Rightarrow> normalizeFlagName s = n)"
proof -
  have *: "\<exists>t. normalizeFlagName (c # cs) = lower_letter c # t" if "name_byte c" for c cs
  proof -
    have "plain_byte c"
      using that by (auto simp: name_byte_def plain_byte_def)
    then obtain s' where "trimSpace (c # cs) = c # s'"
      using trimSpace_Cons_plain by blast
    then show ?thesis
      using that lower_letter_kept [of c] by (auto simp: normalizeFlagName_def toLower_def remove_byte_def lower_letter)
  qed
  show ?thesis
    using * by (cases n; cases s) (auto simp: normal_is_def, metis list.inject)
qed

lemma set_normalize_group: "set (normalize_group g) = normalizeFlagName ` set g - {[]}"
proof -
  have "set (foldl (\<lambda>ns name. let n = normalizeFlagName name in if n = [] \<or> n \<in> set ns then ns else ns @ [n]) r g)
      = set r \<union> (normalizeFlagName ` set g - {[]})" for r
    by (induction g arbitrary: r) (auto simp: Let_def)
  from this [of "[]"] show ?thesis
    by (simp add: normalize_group_def)
qed

lemma foldl_upd: "foldl (\<lambda>ix n. ix(n \<mapsto> v)) m ns k = (if k \<in> set ns then Some v else m k)"
  by (induction ns arbitrary: m) auto

lemma in_normal_group: "n \<in> set (normalize_group g) \<longleftrightarrow> n \<noteq> [] \<and> list_ex (normal_is n) g"
  by (auto simp: set_normalize_group list_ex_iff normal_is_def)

lemma buildLegacyAliasIndex_code [code]:
  "buildLegacyAliasIndex groups n =
     (if n = [] then None
      else map_option normalize_group (find (\<lambda>g. list_ex (normal_is n) g) (rev groups)))"
proof -
  have "foldl (\<lambda>index g. let ns = normalize_group g in foldl (\<lambda>ix n. ix(n \<mapsto> ns)) index ns) m groups n =
      (case if n = [] then None else find (\<lambda>g. list_ex (normal_is n) g) (rev groups) of
         None \<Rightarrow> m n | Some g \<Rightarrow> Some (normalize_group g))" for m
  proof (induction groups arbitrary: m rule: rev_induct)
    case (snoc g groups)
    then show ?case
      by (simp add: foldl_upd in_normal_group Let_def del: fun_upd_apply)
  qed simp
  from this [of Map.empty] show ?thesis
    unfolding buildLegacyAliasIndex_def by (simp add: option.case_eq_if map_option_case del: fun_upd_apply)
qed

subsection \<open>Tests\<close>

definition hasAnyNormalizedFlag :: "string list \<Rightarrow> string list \<Rightarrow> bool" where
  "hasAnyNormalizedFlag flags names =
     (let targets = normalizedFlagSet names
      in list_ex (\<lambda>flag. normalizeFlagName flag \<in> set targets) flags)"

definition propertyFlagEnabled :: "string \<Rightarrow> bool" where
  "propertyFlagEnabled value =
     (toLower (trimSpace value) \<in> {[], ''1'', ''t'', ''true'', ''y'', ''yes'', ''on''})"

text \<open>\<^verbatim>\<open>strings.FieldsFunc\<close> for separators that are single bytes.\<close>

fun fields_by :: "(char \<Rightarrow> bool) \<Rightarrow> string \<Rightarrow> string \<Rightarrow> string list" where
  "fields_by sep acc [] = (if acc = [] then [] else [rev acc])"
| "fields_by sep acc (c # s) =
     (if sep c then (if acc = [] then fields_by sep [] s else rev acc # fields_by sep [] s)
      else fields_by sep (c # acc) s)"

definition flag_separator :: "char \<Rightarrow> bool" where
  "flag_separator c \<longleftrightarrow> c = CHR '','' \<or> c = CHR '';'' \<or> c = CHR ''|'' \<or> c = CHR '' ''"

definition propertyFlagValueHasAnyToken :: "string \<Rightarrow> string list \<Rightarrow> bool" where
  "propertyFlagValueHasAnyToken value targets =
     list_ex (\<lambda>token. normalizeFlagName token \<in> set targets) (fields_by flag_separator [] value)"

definition objectFlagContainerProperty :: "string \<Rightarrow> bool" where
  "objectFlagContainerProperty key = (normalizeFlagName key = ''flag'' \<or> normalizeFlagName key = ''flags'')"

definition objectHasAnyPropertyFlag :: "(string, string) fmap \<Rightarrow> string list \<Rightarrow> bool" where
  "objectHasAnyPropertyFlag properties names =
     (let targets = normalizedFlagSet names
      in mex (\<lambda>key value.
           (normalizeFlagName key \<in> set targets \<and> propertyFlagEnabled value)
           \<or> (objectFlagContainerProperty key \<and> propertyFlagValueHasAnyToken value targets)) properties)"

definition creatureHasAnyFlag :: "Creature \<Rightarrow> string list \<Rightarrow> bool" where
  "creatureHasAnyFlag creature names =
     (hasAnyNormalizedFlag (Meta_Tags (Creature_Metadata creature)) names
      \<or> (let targets = normalizedFlagSet names
         in mex (\<lambda>key value. value \<noteq> 0 \<and> normalizeFlagName key \<in> set targets) (Creature_Stats creature)
            \<or> mex (\<lambda>key value.
                 (normalizeFlagName key \<in> set targets \<and> propertyFlagEnabled value)
                 \<or> propertyFlagValueHasAnyToken value targets) (Creature_Properties creature)))"

definition creatureHasDMInvisibleFlag :: "Creature \<Rightarrow> bool" where
  "creatureHasDMInvisibleFlag creature =
     (let targets = normalizedFlagSet [''PDMINV'', ''dmInvisible'']
      in mex (\<lambda>key value. normalizeFlagName key \<in> set targets \<and> value \<noteq> 0) (Creature_Stats creature)
         \<or> creatureHasAnyFlag creature [''PDMINV'', ''dmInvisible''])"

definition exitHasAnyFlag :: "Exit \<Rightarrow> string list \<Rightarrow> bool" where
  "exitHasAnyFlag exit names = hasAnyNormalizedFlag (Exit_Flags exit) names"

text \<open>Bit \<open>bit\<close> of the raw legacy flag bytes.\<close>

definition metadataHasLegacyObjectFlag :: "Metadata \<Rightarrow> int \<Rightarrow> bool" where
  "metadataHasLegacyObjectFlag metadata b =
     (if b < 0 then False
      else let flags = mget [] (Meta_RawFields metadata) ''flags''; byteIndex = nat (b div 8)
           in if length flags \<le> byteIndex then False
              else bit (of_char (flags ! byteIndex) :: int) (nat (b mod 8)))"

subsection \<open>Updates of tag lists\<close>

definition addMetadataTags :: "string list \<Rightarrow> string list \<Rightarrow> string list" where
  "addMetadataTags tags add =
     fst (foldl (\<lambda>(out, seen) tag0.
            let tag = trimSpace tag0; n = normalizeFlagName tag
            in if tag = [] \<or> n = [] \<or> n \<in> set seen then (out, seen) else (out @ [tag], n # seen))
          (tags, filter (\<lambda>n. n \<noteq> []) (map normalizeFlagName tags)) add)"

definition removeMetadataTags :: "string list \<Rightarrow> string list \<Rightarrow> string list" where
  "removeMetadataTags tags remove =
     (if tags = [] \<or> remove = [] then tags
      else let targets = normalizedFlagSet remove
           in filter (\<lambda>tag. normalizeFlagName tag \<notin> set targets) tags)"

definition exitFlagSameKind :: "string \<Rightarrow> string \<Rightarrow> bool" where
  "exitFlagSameKind flag normalizedTarget =
     (normalizeFlagName flag \<in> set (ExpandFlagNames [normalizedTarget]))"

definition setExitFlag :: "string list \<Rightarrow> string \<Rightarrow> bool \<Rightarrow> string list" where
  "setExitFlag flags flag enabled =
     (let normalized = normalizeFlagName flag
      in if normalized = [] then flags
         else let out = filter (\<lambda>existing. \<not> exitFlagSameKind existing normalized) flags
              in if \<not> enabled then out
                 else if normalized \<in> {''closed'', ''xclosd'', ''xclosed''} then out @ [''closed'']
                 else if normalized \<in> {''locked'', ''xlockd'', ''xlocked''} then out @ [''locked'']
                 else out @ [flag])"

definition charmReferenceTags :: "Creature \<Rightarrow> string list" where
  "charmReferenceTags target =
     (let name = trimSpace (Creature_DisplayName target)
      in (if name \<noteq> [] then [''charm:'' @ name] else [])
         @ (if IsZero (Creature_ID target) then [] else [''charmID:'' @ Creature_ID target]))"

subsection \<open>What expansion collects\<close>

definition aliases_of :: "string \<Rightarrow> string set" where
  "aliases_of n =
     normalizeFlagName `
       (\<Union>table \<in> {map_of FlagAliasMap, legacyCreatureFlagAliasIndex, legacyRoomFlagAliasIndex,
                   legacyExitFlagAliasIndex, legacyObjectFlagAliasIndex}.
          case table n of None \<Rightarrow> {} | Some as \<Rightarrow> set as)"

lemma set_push_name [simp]: "set (push_name r n) = insert n (set r)"
  by (auto simp: push_name_def)

lemma distinct_push_name [simp]: "distinct (push_name r n) \<longleftrightarrow> distinct r"
  by (auto simp: push_name_def)

lemma set_foldl_push: "set (foldl (\<lambda>r a. push_name r (f a)) r as) = set r \<union> f ` set as"
  by (induction as arbitrary: r) auto

lemma distinct_foldl_push: "distinct (foldl (\<lambda>r a. push_name r (f a)) r as) \<longleftrightarrow> distinct r"
  by (induction as arbitrary: r) auto

lemma set_push_aliases:
  "set (push_aliases t n r) = set r \<union> normalizeFlagName ` (case t n of None \<Rightarrow> {} | Some as \<Rightarrow> set as)"
  by (simp add: push_aliases_def set_foldl_push split: option.split)

lemma distinct_push_aliases: "distinct (push_aliases t n r) \<longleftrightarrow> distinct r"
  by (simp add: push_aliases_def distinct_foldl_push split: option.split)

lemma set_expand_name:
  "set (expand_name r name) =
     (if normalizeFlagName name = [] then set r
      else set r \<union> insert (normalizeFlagName name) (aliases_of (normalizeFlagName name)))"
  by (auto simp: expand_name_def set_push_aliases aliases_of_def Let_def)

lemma set_foldl_expand:
  "set (foldl expand_name r names) =
     set r \<union> (\<Union>n \<in> {n \<in> normalizeFlagName ` set names. n \<noteq> []}. insert n (aliases_of n))"
  by (induction names arbitrary: r) (auto simp: set_expand_name split: if_splits)

lemma set_ExpandFlagNames:
  "set (ExpandFlagNames names) =
     (\<Union>n \<in> {n \<in> normalizeFlagName ` set names. n \<noteq> []}. insert n (aliases_of n))"
  by (simp add: ExpandFlagNames_def set_foldl_expand)

lemma distinct_ExpandFlagNames: "distinct (ExpandFlagNames names)"
proof -
  have "distinct r \<Longrightarrow> distinct (foldl expand_name r names)" for r
    by (induction names arbitrary: r) (simp_all add: expand_name_def distinct_push_aliases Let_def)
  then show ?thesis
    by (simp add: ExpandFlagNames_def)
qed

lemma normalize_in_Expand:
  "name \<in> set names \<Longrightarrow> normalizeFlagName name \<noteq> [] \<Longrightarrow> normalizeFlagName name \<in> set (ExpandFlagNames names)"
  by (auto simp: set_ExpandFlagNames)

lemma Expand_single_cong:
  "normalizeFlagName a = normalizeFlagName b \<Longrightarrow> ExpandFlagNames [a] = ExpandFlagNames [b]"
  by (simp add: ExpandFlagNames_def expand_name_def)

lemma hasAnyNormalizedFlag_append [simp]:
  "hasAnyNormalizedFlag (fs @ gs) names \<longleftrightarrow> hasAnyNormalizedFlag fs names \<or> hasAnyNormalizedFlag gs names"
  by (simp add: hasAnyNormalizedFlag_def Let_def)

lemma hasAnyNormalizedFlag_Nil [simp]: "\<not> hasAnyNormalizedFlag [] names"
  by (simp add: hasAnyNormalizedFlag_def Let_def)

lemma hasAnyNormalizedFlag_filter:
  "hasAnyNormalizedFlag (filter (\<lambda>f. normalizeFlagName f \<notin> set (ExpandFlagNames names)) fs) names = False"
  by (auto simp: hasAnyNormalizedFlag_def normalizedFlagSet_def list_ex_iff Let_def)

end
