(* ===== verification/World.thy ===== *)
theory World
  imports Flags "HOL-Library.Product_Lexorder"
begin

text \<open>
  The runtime state of \<^verbatim>\<open>internal/world/state.World\<close> and its smallest operations: dirty marks,
  typed reads of properties, and the legacy sort names.

  Every exported operation of the package takes all domain locks in one fixed order before it
  reads and holds them until it returns, so an operation is one atomic step from world to world.
  \<open>clock\<close> stands for what \<^verbatim>\<open>time.Now().Unix()\<close> returns during the step.
  A struct copied out of a Go map shares its inner maps with the stored value; the operations
  below store the changed copy back, so each is given as the update of the stored value.
\<close>

subsection \<open>State\<close>

record FamilyWarPair =
  War_First :: int
  War_Second :: int

record FamilyWarSnapshot =
  War_Active :: FamilyWarPair
  War_Pending :: FamilyWarPair

record TrapState =
  Trap_TriggeredCount :: int
  Trap_LastTriggered :: int
  Trap_DisarmedUntil :: int

text \<open>An entry of the file of locked-out addresses.\<close>

record LockoutEntry =
  Lockout_Address :: string
  Lockout_Password :: string

text \<open>The times of the last updates and the intervals between them, in seconds: fields of \<^verbatim>\<open>World\<close> in the code.\<close>

record Timers =
  shutdownLTime :: int
  shutdownInterval :: int
  lastShutdownUpdate :: int
  lastActiveUpdate :: int
  lastPlayerUpdate :: int
  lastRandomUpdate :: int
  lastTimeUpdate :: int
  lastExitUpdate :: int
  legacyTime :: int
  randomUpdateInterval :: int
  txInterval :: int

record World =
  rooms :: "(RoomID, Room) fmap"
  players :: "(PlayerID, Player) fmap"
  creatures :: "(CreatureID, Creature) fmap"
  families :: "(int, Family) fmap"
  banks :: "(BankID, BankAccount) fmap"
  objects :: "(ObjectInstanceID, ObjectInstance) fmap"
  prototypes :: "(PrototypeID, ObjectPrototype) fmap"
  marriageInvites :: "(SpecialID, string list) fmap"
  cooldowns :: "(CreatureID, (string, int) fmap) fmap"
  monsterDamage :: "(CreatureID, (CreatureID, int) fmap) fmap"
  familyWar :: FamilyWarSnapshot
  spies :: "(PlayerID, PlayerID) fmap"
  lockouts :: "LockoutEntry list"
  timers :: Timers
  dbRoot :: string
  enemies :: "(CreatureID, string list) fmap"
  effectExpirations :: "(CreatureID, (string, int) fmap) fmap"
  lightTimers :: "(CreatureID, (string, int) fmap) fmap"
  trapStates :: "(RoomID, TrapState) fmap"
  playerDirty :: "(PlayerID, int) fmap"
  bankDirty :: "(BankID, int) fmap"
  roomObjectDirty :: "(RoomID, int) fmap"
  boardDirty :: "(string, int) fmap"
  familyNewsDirty :: "(int, int) fmap"
  clock :: int

text \<open>The zero values that a read of a missing key gives.\<close>

definition zeroLocation :: ObjectLocation where
  "zeroLocation =
     \<lparr>Loc_RoomID = [], Loc_CreatureID = [], Loc_BankID = [], Loc_ContainerID = [], Loc_Slot = []\<rparr>"

definition zeroObject :: ObjectInstance where
  "zeroObject =
     \<lparr>Object_ID = [], Object_PrototypeID = [], Object_DisplayNameOverride = [], Object_Quantity = 0,
      Object_Location = zeroLocation, Object_Contents = \<lparr>ObjectIDs = []\<rparr>, Object_Properties = fmempty,
      Object_Metadata = noMetadata\<rparr>"

definition zeroRoom :: Room where
  "zeroRoom =
     \<lparr>Room_ID = [], Room_DisplayName = [], Room_ShortDescription = [], Room_LongDescription = [],
      Room_ObjectDescription = [], Room_Exits = [], Room_CreatureIDs = [], Room_PlayerIDs = [],
      Room_Objects = \<lparr>ObjectIDs = []\<rparr>, Room_Properties = fmempty, Room_Metadata = noMetadata\<rparr>"

definition zeroCreature :: Creature where
  "zeroCreature =
     \<lparr>Creature_ID = [], Creature_Kind = [], Creature_DisplayName = [], Creature_Description = [],
      Creature_Level = 0, Creature_RoomID = [], Creature_PlayerID = [],
      Creature_Inventory = \<lparr>ObjectIDs = []\<rparr>, Creature_Equipment = fmempty, Creature_Stats = fmempty,
      Creature_Properties = fmempty, Creature_Metadata = noMetadata\<rparr>"

definition zeroBank :: BankAccount where
  "zeroBank =
     \<lparr>Bank_ID = [], Bank_Kind = [], Bank_OwnerName = [], Bank_OwnerPlayerID = [],
      Bank_Objects = \<lparr>ObjectIDs = []\<rparr>, Bank_Metadata = noMetadata\<rparr>"

definition newTimers :: Timers where
  "newTimers =
     \<lparr>shutdownLTime = 0, shutdownInterval = 0, lastShutdownUpdate = 0, lastActiveUpdate = 0, lastPlayerUpdate = 0,
      lastRandomUpdate = 0, lastTimeUpdate = 0, lastExitUpdate = 0, legacyTime = 0, randomUpdateInterval = 20,
      txInterval = 3600\<rparr>"

text \<open>The runtime state \<^verbatim>\<open>NewWorld(nil)\<close> builds.\<close>

definition emptyWorld :: World where
  "emptyWorld =
     \<lparr>rooms = fmempty, players = fmempty, creatures = fmempty, families = fmempty, banks = fmempty,
      objects = fmempty, prototypes = fmempty, marriageInvites = fmempty, cooldowns = fmempty,
      monsterDamage = fmempty,
      familyWar = \<lparr>War_Active = \<lparr>War_First = 0, War_Second = 0\<rparr>, War_Pending = \<lparr>War_First = 0, War_Second = 0\<rparr>\<rparr>,
      spies = fmempty, lockouts = [], timers = newTimers, dbRoot = [],
      enemies = fmempty, effectExpirations = fmempty, lightTimers = fmempty, trapStates = fmempty,
      playerDirty = fmempty, bankDirty = fmempty, roomObjectDirty = fmempty,
      boardDirty = fmempty, familyNewsDirty = fmempty, clock = 0\<rparr>"

subsection \<open>Lookups by id\<close>

definition GetRoom :: "World \<Rightarrow> RoomID \<Rightarrow> Room option" where
  "GetRoom w i = fmlookup (rooms w) i"

definition GetPlayer :: "World \<Rightarrow> PlayerID \<Rightarrow> Player option" where
  "GetPlayer w i = fmlookup (players w) i"

definition GetCreature :: "World \<Rightarrow> CreatureID \<Rightarrow> Creature option" where
  "GetCreature w i = fmlookup (creatures w) i"

definition GetBank :: "World \<Rightarrow> BankID \<Rightarrow> BankAccount option" where
  "GetBank w i = fmlookup (banks w) i"

definition GetObject :: "World \<Rightarrow> ObjectInstanceID \<Rightarrow> ObjectInstance option" where
  "GetObject w i = fmlookup (objects w) i"

definition GetObjectPrototype :: "World \<Rightarrow> PrototypeID \<Rightarrow> ObjectPrototype option" where
  "GetObjectPrototype w i = fmlookup (prototypes w) i"

subsection \<open>Dirty marks\<close>

definition MarkPlayerDirty :: "PlayerID \<Rightarrow> World \<Rightarrow> World" where
  "MarkPlayerDirty pid w =
     (if IsZero pid then w else w\<lparr>playerDirty := fmupd pid (clock w) (playerDirty w)\<rparr>)"

definition MarkBankDirty :: "BankID \<Rightarrow> World \<Rightarrow> World" where
  "MarkBankDirty bid w = (if bid = [] then w else w\<lparr>bankDirty := fmupd bid (clock w) (bankDirty w)\<rparr>)"

definition MarkBoardDirty :: "string \<Rightarrow> World \<Rightarrow> World" where
  "MarkBoardDirty boardDir w =
     (if boardDir = [] then w else w\<lparr>boardDirty := fmupd boardDir (clock w) (boardDirty w)\<rparr>)"

definition MarkFamilyNewsDirty :: "int \<Rightarrow> World \<Rightarrow> World" where
  "MarkFamilyNewsDirty fid w =
     (if fid \<le> 0 then w else w\<lparr>familyNewsDirty := fmupd fid (clock w) (familyNewsDirty w)\<rparr>)"

definition MarkRoomObjectsDirty :: "RoomID \<Rightarrow> World \<Rightarrow> World" where
  "MarkRoomObjectsDirty rid w =
     (if IsZero rid then w else w\<lparr>roomObjectDirty := fmupd rid (clock w) (roomObjectDirty w)\<rparr>)"

lemma MarkPlayerDirty_frame [simp]:
  "rooms (MarkPlayerDirty p w) = rooms w" "players (MarkPlayerDirty p w) = players w"
  "creatures (MarkPlayerDirty p w) = creatures w" "objects (MarkPlayerDirty p w) = objects w"
  "banks (MarkPlayerDirty p w) = banks w" "prototypes (MarkPlayerDirty p w) = prototypes w"
  "familyWar (MarkPlayerDirty p w) = familyWar w" "bankDirty (MarkPlayerDirty p w) = bankDirty w"
  "roomObjectDirty (MarkPlayerDirty p w) = roomObjectDirty w" "clock (MarkPlayerDirty p w) = clock w"
  "cooldowns (MarkPlayerDirty p w) = cooldowns w" "monsterDamage (MarkPlayerDirty p w) = monsterDamage w"
  "families (MarkPlayerDirty p w) = families w" "enemies (MarkPlayerDirty p w) = enemies w"
  by (simp_all add: MarkPlayerDirty_def)

lemma MarkBankDirty_frame [simp]:
  "rooms (MarkBankDirty p w) = rooms w" "players (MarkBankDirty p w) = players w"
  "creatures (MarkBankDirty p w) = creatures w" "objects (MarkBankDirty p w) = objects w"
  "banks (MarkBankDirty p w) = banks w" "prototypes (MarkBankDirty p w) = prototypes w"
  "familyWar (MarkBankDirty p w) = familyWar w" "playerDirty (MarkBankDirty p w) = playerDirty w"
  "roomObjectDirty (MarkBankDirty p w) = roomObjectDirty w" "clock (MarkBankDirty p w) = clock w"
  by (simp_all add: MarkBankDirty_def)

lemma MarkRoomObjectsDirty_frame [simp]:
  "rooms (MarkRoomObjectsDirty p w) = rooms w" "players (MarkRoomObjectsDirty p w) = players w"
  "creatures (MarkRoomObjectsDirty p w) = creatures w" "objects (MarkRoomObjectsDirty p w) = objects w"
  "banks (MarkRoomObjectsDirty p w) = banks w" "prototypes (MarkRoomObjectsDirty p w) = prototypes w"
  "familyWar (MarkRoomObjectsDirty p w) = familyWar w"
  "playerDirty (MarkRoomObjectsDirty p w) = playerDirty w"
  "bankDirty (MarkRoomObjectsDirty p w) = bankDirty w" "clock (MarkRoomObjectsDirty p w) = clock w"
  by (simp_all add: MarkRoomObjectsDirty_def)

lemma playerDirty_Mark: "fmlookup (playerDirty (MarkPlayerDirty p w)) q =
    (if q = p \<and> p \<noteq> [] then Some (clock w) else fmlookup (playerDirty w) q)"
  by (simp add: MarkPlayerDirty_def)

lemma bankDirty_Mark: "fmlookup (bankDirty (MarkBankDirty p w)) q =
    (if q = p \<and> p \<noteq> [] then Some (clock w) else fmlookup (bankDirty w) q)"
  by (simp add: MarkBankDirty_def)

lemma roomObjectDirty_Mark: "fmlookup (roomObjectDirty (MarkRoomObjectsDirty p w)) q =
    (if q = p \<and> p \<noteq> [] then Some (clock w) else fmlookup (roomObjectDirty w) q)"
  by (simp add: MarkRoomObjectsDirty_def)

text \<open>The test most operations make after a change: mark the player a creature belongs to.\<close>

definition markCreaturePlayerDirty :: "Creature \<Rightarrow> World \<Rightarrow> World" where
  "markCreaturePlayerDirty c w =
     (if IsZero (Creature_PlayerID c) then w else MarkPlayerDirty (Creature_PlayerID c) w)"

lemma markCreaturePlayerDirty_eq: "markCreaturePlayerDirty c = MarkPlayerDirty (Creature_PlayerID c)"
  by (auto simp: markCreaturePlayerDirty_def MarkPlayerDirty_def)

lemma markCreaturePlayerDirty_frame [simp]:
  "rooms (markCreaturePlayerDirty c w) = rooms w" "players (markCreaturePlayerDirty c w) = players w"
  "creatures (markCreaturePlayerDirty c w) = creatures w" "objects (markCreaturePlayerDirty c w) = objects w"
  "banks (markCreaturePlayerDirty c w) = banks w" "prototypes (markCreaturePlayerDirty c w) = prototypes w"
  "familyWar (markCreaturePlayerDirty c w) = familyWar w" "clock (markCreaturePlayerDirty c w) = clock w"
  by (simp_all add: markCreaturePlayerDirty_def)

subsection \<open>Numbers in properties\<close>

definition parseStateInt :: "string \<Rightarrow> int option" where
  "parseStateInt value = atoi (trimSpace value)"

definition parseMoveObjectWeight :: "string \<Rightarrow> int option" where
  "parseMoveObjectWeight value = parseStateInt value"

definition objectIntProperty :: "World \<Rightarrow> ObjectInstance \<Rightarrow> string \<Rightarrow> int option" where
  "objectIntProperty w object key =
     (case parseStateInt (mget [] (Object_Properties object) key) of
        Some v \<Rightarrow> Some v
      | None \<Rightarrow>
          if IsZero (Object_PrototypeID object) then None
          else case fmlookup (prototypes w) (Object_PrototypeID object) of
            None \<Rightarrow> None
          | Some proto \<Rightarrow> parseStateInt (mget [] (Proto_Properties proto) key))"

fun objectIntPropertyAny :: "World \<Rightarrow> ObjectInstance \<Rightarrow> string list \<Rightarrow> int option" where
  "objectIntPropertyAny w object [] = None"
| "objectIntPropertyAny w object (key # keys) =
     (case objectIntProperty w object key of Some v \<Rightarrow> Some v | None \<Rightarrow> objectIntPropertyAny w object keys)"

definition objectKindIs :: "World \<Rightarrow> ObjectInstance \<Rightarrow> string \<Rightarrow> bool" where
  "objectKindIs w object kind =
     (if equalFold (trimSpace (mget [] (Object_Properties object) ''kind'')) kind then True
      else if IsZero (Object_PrototypeID object) then False
      else case fmlookup (prototypes w) (Object_PrototypeID object) of
        None \<Rightarrow> False
      | Some proto \<Rightarrow>
          Proto_Kind proto = kind
          \<or> equalFold (trimSpace (mget [] (Proto_Properties proto) ''kind'')) kind)"

definition objectIsMoney :: "World \<Rightarrow> ObjectInstance \<Rightarrow> bool" where
  "objectIsMoney w object =
     (if equalFold (trimSpace (mget [] (Object_Properties object) ''kind'')) ObjectKindMoney then True
      else if objectIntProperty w object ''type'' = Some 10 then True
      else if IsZero (Object_PrototypeID object) then False
      else case fmlookup (prototypes w) (Object_PrototypeID object) of
        None \<Rightarrow> False
      | Some proto \<Rightarrow>
          Proto_Kind proto = ObjectKindMoney
          \<or> equalFold (trimSpace (mget [] (Proto_Properties proto) ''kind'')) ObjectKindMoney)"

definition objectCountPropertyOrLen :: "World \<Rightarrow> ObjectInstance \<Rightarrow> string \<Rightarrow> int" where
  "objectCountPropertyOrLen w object key =
     (case objectIntProperty w object key of
        Some v \<Rightarrow> if 0 \<le> v then v else int (length (ObjectIDs (Object_Contents object)))
      | None \<Rightarrow> int (length (ObjectIDs (Object_Contents object))))"

definition objectHasAnyLegacyFlag :: "World \<Rightarrow> ObjectInstance \<Rightarrow> string list \<Rightarrow> bool" where
  "objectHasAnyLegacyFlag w object names =
     (if hasAnyNormalizedFlag (Meta_Tags (Object_Metadata object)) names
         \<or> objectHasAnyPropertyFlag (Object_Properties object) names then True
      else if IsZero (Object_PrototypeID object) then False
      else case fmlookup (prototypes w) (Object_PrototypeID object) of
        None \<Rightarrow> False
      | Some proto \<Rightarrow>
          hasAnyNormalizedFlag (Meta_Tags (Proto_Metadata proto)) names
          \<or> objectHasAnyPropertyFlag (Proto_Properties proto) names)"

lemma parseStateInt_itoa [simp]: "in_i64 i \<Longrightarrow> parseStateInt (itoa i) = Some i"
  by (simp add: parseStateInt_def trimSpace_itoa)

lemma parseStateInt_in_i64: "parseStateInt s = Some v \<Longrightarrow> in_i64 v"
  by (auto simp: parseStateInt_def dest: atoi_in_i64)

lemma objectIntProperty_cong:
  assumes "prototypes w = prototypes w'"
  shows "objectIntProperty w p k = objectIntProperty w' p k"
  unfolding objectIntProperty_def assms ..

lemma objectIntProperty_in_i64: "objectIntProperty w p k = Some v \<Longrightarrow> in_i64 v"
  by (auto simp: objectIntProperty_def dest: parseStateInt_in_i64 split: option.splits if_splits)

lemma objectIntPropertyAny_cong:
  "prototypes w = prototypes w' \<Longrightarrow> objectIntPropertyAny w p ks = objectIntPropertyAny w' p ks"
  by (induction ks) (simp_all add: objectIntProperty_cong [of w w'] split: option.split)

end
