(* ===== verification/RefLists.thy ===== *)
theory RefLists
  imports World
begin

text \<open>
  The id lists kept by holders and rooms: ordered insertion by the legacy sort name and removal.
  The code has three copies of the insertion (objects, creatures, players); what their clients
  rely on is stated once, as the locales \<open>ref_list\<close> and \<open>sorted_ref_list\<close>, and each copy is an
  interpretation.
\<close>

subsection \<open>The interface\<close>

locale ref_list =
  fixes ins :: "'a list \<Rightarrow> 'a \<Rightarrow> 'a list"
    and del :: "'a list \<Rightarrow> 'a \<Rightarrow> 'a list"
  assumes set_ins: "set (ins xs x) = insert x (set xs)"
    and distinct_ins: "distinct xs \<Longrightarrow> distinct (ins xs x)"
    and ins_present: "x \<in> set xs \<Longrightarrow> ins xs x = xs"
    and set_del: "set (del xs x) = set xs - {x}"
    and distinct_del: "distinct xs \<Longrightarrow> distinct (del xs x)"
    and del_ins: "del (ins xs x) x = del xs x"
    and del_absent: "x \<notin> set xs \<Longrightarrow> del xs x = xs"
begin

lemma member_ins: "y \<in> set (ins xs x) \<longleftrightarrow> y = x \<or> y \<in> set xs"
  by (simp add: set_ins)

lemma member_del: "y \<in> set (del xs x) \<longleftrightarrow> y \<noteq> x \<and> y \<in> set xs"
  by (auto simp: set_del)

lemma move_out_and_back: "distinct xs \<Longrightarrow> set (ins (del xs x) x) = insert x (set xs)"
  by (auto simp: set_ins set_del)

lemma length_ins: "distinct xs \<Longrightarrow> length (ins xs x) = (if x \<in> set xs then length xs else Suc (length xs))"
  using distinct_card [OF distinct_ins, of xs x] distinct_card [of xs]
  by (auto simp: set_ins card_insert_if ins_present)

lemma length_del: "distinct xs \<Longrightarrow> x \<in> set xs \<Longrightarrow> length (del xs x) = length xs - 1"
  using distinct_card [OF distinct_del, of xs x] distinct_card [of xs]
  by (simp add: set_del card_Diff_singleton)

end

locale sorted_ref_list = ref_list ins del
  for ins :: "'a list \<Rightarrow> 'a \<Rightarrow> 'a list" and del :: "'a list \<Rightarrow> 'a \<Rightarrow> 'a list" +
  fixes key :: "'a \<Rightarrow> 'k :: linorder"
  assumes sorted_ins: "sorted (map key xs) \<Longrightarrow> sorted (map key (ins xs x))"
    and sorted_del: "sorted (map key xs) \<Longrightarrow> sorted (map key (del xs x))"
begin

lemma sorted_move: "sorted (map key xs) \<Longrightarrow> sorted (map key (ins (del xs x) y))"
  by (intro sorted_ins sorted_del)

lemma sorted_build: "sorted (map key (foldl ins [] xs))"
proof -
  have "sorted (map key ys) \<Longrightarrow> sorted (map key (foldl ins ys xs))" for ys
    by (induction xs arbitrary: ys) (simp_all add: sorted_ins)
  then show ?thesis by simp
qed

lemma set_build: "set (foldl ins ys xs) = set ys \<union> set xs"
  by (induction xs arbitrary: ys) (auto simp: set_ins)

lemma distinct_build: "distinct (foldl ins [] xs)"
proof -
  have "distinct ys \<Longrightarrow> distinct (foldl ins ys xs)" for ys
    by (induction xs arbitrary: ys) (simp_all add: distinct_ins)
  then show ?thesis by simp
qed

end

subsection \<open>The loops of the code\<close>

definition removeID :: "'a list \<Rightarrow> 'a \<Rightarrow> 'a list" where
  "removeID ids i = filter (\<lambda>existing. existing \<noteq> i) ids"

fun insert_before :: "('a \<Rightarrow> 'a \<Rightarrow> bool) \<Rightarrow> 'a list \<Rightarrow> 'a \<Rightarrow> 'a list" where
  "insert_before lt [] x = [x]"
| "insert_before lt (y # ys) x = (if lt x y then x # y # ys else y # insert_before lt ys x)"

definition insert_once :: "('a \<Rightarrow> 'a \<Rightarrow> bool) \<Rightarrow> 'a list \<Rightarrow> 'a \<Rightarrow> 'a list" where
  "insert_once lt ids x = (if x \<in> set ids then ids else insert_before lt ids x)"

lemma set_insert_before: "set (insert_before lt xs x) = insert x (set xs)"
  by (induction xs) auto

lemma distinct_insert_before: "x \<notin> set xs \<Longrightarrow> distinct xs \<Longrightarrow> distinct (insert_before lt xs x)"
  by (induction xs) (auto simp: set_insert_before)

lemma filter_insert_before: "filter (\<lambda>y. y \<noteq> x) (insert_before lt xs x) = filter (\<lambda>y. y \<noteq> x) xs"
  by (induction xs) auto

lemma sorted_insert_before:
  "sorted (map key xs) \<Longrightarrow> sorted (map key (insert_before (\<lambda>a b. key a < (key b :: 'k :: linorder)) xs x))"
proof (induction xs)
  case (Cons y ys)
  show ?case
  proof (cases "key x < key y")
    case True
    with Cons.prems show ?thesis by auto
  next
    case False
    moreover from Cons have "sorted (map key (insert_before (\<lambda>a b. key a < key b) ys x))"
      by simp
    ultimately show ?thesis
      using Cons.prems by (auto simp: set_insert_before)
  qed
qed simp

lemma ref_list_insert_once: "ref_list (insert_once lt) removeID"
  by unfold_locales
     (auto simp: insert_once_def removeID_def set_insert_before distinct_insert_before filter_insert_before)

lemma sorted_ref_list_insert_once:
  "sorted_ref_list (insert_once (\<lambda>a b. key a < (key b :: 'k :: linorder))) removeID key"
proof -
  have rl: "ref_list (insert_once (\<lambda>a b. key a < key b)) removeID"
    by (rule ref_list_insert_once)
  show ?thesis
    by (intro sorted_ref_list.intro rl sorted_ref_list_axioms.intro)
       (auto simp: insert_once_def removeID_def sorted_insert_before sorted_filter)
qed

subsection \<open>Sort names\<close>

text \<open>The first of the keys whose property is not blank.\<close>

fun first_name :: "(string, string) fmap \<Rightarrow> string list \<Rightarrow> string" where
  "first_name props [] = []"
| "first_name props (k # ks) =
     (let name = trimSpace (mget [] props k) in if name \<noteq> [] then name else first_name props ks)"

definition firstStateObjectKeyName :: "(string, string) fmap \<Rightarrow> string" where
  "firstStateObjectKeyName props =
     first_name props [''key[0]'', ''key[1]'', ''key[2]'', ''key/1'', ''key/2'', ''key/3'']"

definition objectLegacySortNameFromObject :: "World \<Rightarrow> ObjectInstance \<Rightarrow> string" where
  "objectLegacySortNameFromObject w object =
     (if trimSpace (Object_DisplayNameOverride object) \<noteq> [] then trimSpace (Object_DisplayNameOverride object)
      else if trimSpace (mget [] (Object_Properties object) ''name'') \<noteq> []
      then trimSpace (mget [] (Object_Properties object) ''name'')
      else
        let from_proto =
          (if IsZero (Object_PrototypeID object) then []
           else case fmlookup (prototypes w) (Object_PrototypeID object) of
             None \<Rightarrow> []
           | Some proto \<Rightarrow>
               if trimSpace (mget [] (Proto_Properties proto) ''name'') \<noteq> []
               then trimSpace (mget [] (Proto_Properties proto) ''name'')
               else if trimSpace (Proto_DisplayName proto) \<noteq> [] then trimSpace (Proto_DisplayName proto)
               else firstStateObjectKeyName (Proto_Properties proto))
        in if from_proto \<noteq> [] then from_proto
           else if firstStateObjectKeyName (Object_Properties object) \<noteq> []
           then firstStateObjectKeyName (Object_Properties object)
           else Object_ID object)"

definition objectLegacySortName :: "World \<Rightarrow> ObjectInstanceID \<Rightarrow> string" where
  "objectLegacySortName w i =
     (case fmlookup (objects w) i of None \<Rightarrow> i | Some object \<Rightarrow> objectLegacySortNameFromObject w object)"

definition objectLegacyAdjustment :: "World \<Rightarrow> ObjectInstanceID \<Rightarrow> int" where
  "objectLegacyAdjustment w i =
     (case fmlookup (objects w) i of
        None \<Rightarrow> 0
      | Some object \<Rightarrow>
          (case objectIntPropertyAny w object [''adjustment'', ''adjust''] of None \<Rightarrow> 0 | Some v \<Rightarrow> v))"

definition objectIDLegacyLess :: "World \<Rightarrow> ObjectInstanceID \<Rightarrow> ObjectInstanceID \<Rightarrow> bool" where
  "objectIDLegacyLess w left right =
     (let leftName = objectLegacySortName w left; rightName = objectLegacySortName w right
      in if leftName \<noteq> rightName then leftName < rightName
         else objectLegacyAdjustment w left < objectLegacyAdjustment w right)"

definition objectPrototypeLegacySortName :: "World \<Rightarrow> PrototypeID \<Rightarrow> string" where
  "objectPrototypeLegacySortName w protoID =
     (case fmlookup (prototypes w) protoID of
        None \<Rightarrow> protoID
      | Some proto \<Rightarrow>
          if trimSpace (mget [] (Proto_Properties proto) ''name'') \<noteq> []
          then trimSpace (mget [] (Proto_Properties proto) ''name'')
          else if trimSpace (Proto_DisplayName proto) \<noteq> [] then trimSpace (Proto_DisplayName proto)
          else if firstStateObjectKeyName (Proto_Properties proto) \<noteq> []
          then firstStateObjectKeyName (Proto_Properties proto)
          else Proto_ID proto)"

definition creatureLegacySortNameOf :: "Creature \<Rightarrow> string" where
  "creatureLegacySortNameOf creature =
     (if trimSpace (Creature_DisplayName creature) \<noteq> [] then trimSpace (Creature_DisplayName creature)
      else first_name (Creature_Properties creature)
             [''name'', ''key[0]'', ''key[1]'', ''key[2]'', ''key/1'', ''key/2'', ''key/3''])"

definition creatureLegacySortName :: "World \<Rightarrow> CreatureID \<Rightarrow> string" where
  "creatureLegacySortName w i =
     (case fmlookup (creatures w) i of
        None \<Rightarrow> i
      | Some creature \<Rightarrow>
          if creatureLegacySortNameOf creature \<noteq> [] then creatureLegacySortNameOf creature
          else Creature_ID creature)"

definition creatureIDLegacyLess :: "World \<Rightarrow> CreatureID \<Rightarrow> CreatureID \<Rightarrow> bool" where
  "creatureIDLegacyLess w left right = (creatureLegacySortName w left < creatureLegacySortName w right)"

definition playerLegacySortName :: "World \<Rightarrow> PlayerID \<Rightarrow> string" where
  "playerLegacySortName w i =
     (case fmlookup (players w) i of
        None \<Rightarrow> i
      | Some player \<Rightarrow>
          let from_creature =
            (if IsZero (Player_CreatureID player) then []
             else case fmlookup (creatures w) (Player_CreatureID player) of
               None \<Rightarrow> []
             | Some creature \<Rightarrow> creatureLegacySortNameOf creature)
          in if from_creature \<noteq> [] then from_creature
             else if trimSpace (Player_DisplayName player) \<noteq> [] then trimSpace (Player_DisplayName player)
             else Player_ID player)"

definition playerIDLegacyLess :: "World \<Rightarrow> PlayerID \<Rightarrow> PlayerID \<Rightarrow> bool" where
  "playerIDLegacyLess w left right = (playerLegacySortName w left < playerLegacySortName w right)"

subsection \<open>The three insertions\<close>

definition insertObjectIDLegacySorted :: "World \<Rightarrow> ObjectInstanceID list \<Rightarrow> ObjectInstanceID \<Rightarrow> ObjectInstanceID list" where
  "insertObjectIDLegacySorted w ids i = insert_once (objectIDLegacyLess w) ids i"

definition insertCreatureIDLegacySorted :: "World \<Rightarrow> CreatureID list \<Rightarrow> CreatureID \<Rightarrow> CreatureID list" where
  "insertCreatureIDLegacySorted w ids i = insert_once (creatureIDLegacyLess w) ids i"

definition insertPlayerIDLegacySorted :: "World \<Rightarrow> PlayerID list \<Rightarrow> PlayerID \<Rightarrow> PlayerID list" where
  "insertPlayerIDLegacySorted w ids i = insert_once (playerIDLegacyLess w) ids i"

definition sortCreatureIDsLegacy :: "World \<Rightarrow> CreatureID list \<Rightarrow> CreatureID list" where
  "sortCreatureIDsLegacy w ids = foldl (insertCreatureIDLegacySorted w) [] ids"

definition sortPlayerIDsLegacy :: "World \<Rightarrow> PlayerID list \<Rightarrow> PlayerID list" where
  "sortPlayerIDsLegacy w ids = foldl (insertPlayerIDLegacySorted w) [] ids"

text \<open>The key the object order compares: name first, then adjustment.\<close>

definition objectLegacyKey :: "World \<Rightarrow> ObjectInstanceID \<Rightarrow> string \<times> int" where
  "objectLegacyKey w i = (objectLegacySortName w i, objectLegacyAdjustment w i)"

lemma objectIDLegacyLess_key: "objectIDLegacyLess w = (\<lambda>a b. objectLegacyKey w a < objectLegacyKey w b)"
  by (intro ext) (auto simp: objectIDLegacyLess_def objectLegacyKey_def less_prod_def Let_def)

interpretation objrefs: sorted_ref_list "insertObjectIDLegacySorted w" removeID "objectLegacyKey w" for w
  unfolding insertObjectIDLegacySorted_def objectIDLegacyLess_key
  by (rule sorted_ref_list_insert_once)

interpretation crtrefs: sorted_ref_list "insertCreatureIDLegacySorted w" removeID "creatureLegacySortName w" for w
  unfolding insertCreatureIDLegacySorted_def creatureIDLegacyLess_def
  by (rule sorted_ref_list_insert_once)

interpretation plyrefs: sorted_ref_list "insertPlayerIDLegacySorted w" removeID "playerLegacySortName w" for w
  unfolding insertPlayerIDLegacySorted_def playerIDLegacyLess_def
  by (rule sorted_ref_list_insert_once)

end
