(* ===== verification/Holders.thy ===== *)
theory Holders
  imports RefLists
begin

text \<open>
  Who holds an object (\<^verbatim>\<open>object.go\<close>, \<^verbatim>\<open>room.go\<close>): every object instance names its holder in its
  location and every holder lists the objects it holds. This theory models the operations that
  change both sides, the checks before a move, and \<^verbatim>\<open>MoveObject\<close>; it defines the invariant that
  the two sides agree and proves that a move keeps it.
\<close>

subsection \<open>The two sides\<close>

definition refs :: "World \<Rightarrow> Holder \<Rightarrow> ObjectInstanceID list" where
  "refs w h =
     (case h of
        InRoom r \<Rightarrow> (case fmlookup (rooms w) r of None \<Rightarrow> [] | Some x \<Rightarrow> ObjectIDs (Room_Objects x))
      | OnCreature c \<Rightarrow> (case fmlookup (creatures w) c of None \<Rightarrow> [] | Some x \<Rightarrow> ObjectIDs (Creature_Inventory x))
      | InBank b \<Rightarrow> (case fmlookup (banks w) b of None \<Rightarrow> [] | Some x \<Rightarrow> ObjectIDs (Bank_Objects x))
      | InObject k \<Rightarrow> (case fmlookup (objects w) k of None \<Rightarrow> [] | Some x \<Rightarrow> ObjectIDs (Object_Contents x))
      | Nowhere \<Rightarrow> [])"

definition holder_exists :: "World \<Rightarrow> Holder \<Rightarrow> bool" where
  "holder_exists w h =
     (case h of
        InRoom r \<Rightarrow> fmlookup (rooms w) r \<noteq> None
      | OnCreature c \<Rightarrow> fmlookup (creatures w) c \<noteq> None
      | InBank b \<Rightarrow> fmlookup (banks w) b \<noteq> None
      | InObject k \<Rightarrow> fmlookup (objects w) k \<noteq> None
      | Nowhere \<Rightarrow> False)"

definition where_is :: "World \<Rightarrow> ObjectInstanceID \<Rightarrow> Holder option" where
  "where_is w i = map_option (\<lambda>p. holderOf (Object_Location p)) (fmlookup (objects w) i)"

subsection \<open>Adding to and removing from a holder\<close>

definition addObjectToHolder :: "ObjectInstanceID \<Rightarrow> ObjectLocation \<Rightarrow> World \<Rightarrow> World" where
  "addObjectToHolder i l w =
     (if \<not> IsZero (Loc_RoomID l) then
        let room = mget zeroRoom (rooms w) (Loc_RoomID l);
            room' = room\<lparr>Room_Objects :=
              \<lparr>ObjectIDs = insertObjectIDLegacySorted w (ObjectIDs (Room_Objects room)) i\<rparr>\<rparr>
        in w\<lparr>rooms := fmupd (Loc_RoomID l) room' (rooms w)\<rparr>
      else if \<not> IsZero (Loc_CreatureID l) then
        let creature = mget zeroCreature (creatures w) (Loc_CreatureID l);
            creature' = creature\<lparr>Creature_Inventory :=
              \<lparr>ObjectIDs = insertObjectIDLegacySorted w (ObjectIDs (Creature_Inventory creature)) i\<rparr>\<rparr>;
            creature'' =
              (if Loc_Slot l \<noteq> [] \<and> Loc_Slot l \<noteq> ''inventory''
               then creature'\<lparr>Creature_Equipment := fmupd (Loc_Slot l) i (Creature_Equipment creature')\<rparr>
               else creature')
        in w\<lparr>creatures := fmupd (Loc_CreatureID l) creature'' (creatures w)\<rparr>
      else if \<not> IsZero (Loc_BankID l) then
        let account = mget zeroBank (banks w) (Loc_BankID l);
            account' = account\<lparr>Bank_Objects :=
              \<lparr>ObjectIDs = insertObjectIDLegacySorted w (ObjectIDs (Bank_Objects account)) i\<rparr>\<rparr>
        in w\<lparr>banks := fmupd (Loc_BankID l) account' (banks w)\<rparr>
      else if \<not> IsZero (Loc_ContainerID l) then
        let container = mget zeroObject (objects w) (Loc_ContainerID l);
            container' = container\<lparr>Object_Contents :=
              \<lparr>ObjectIDs = insertObjectIDLegacySorted w (ObjectIDs (Object_Contents container)) i\<rparr>\<rparr>
        in w\<lparr>objects := fmupd (Loc_ContainerID l) container' (objects w)\<rparr>
      else w)"

definition removeObjectFromHolder :: "ObjectInstanceID \<Rightarrow> ObjectLocation \<Rightarrow> World \<Rightarrow> World" where
  "removeObjectFromHolder i l w =
     (if \<not> IsZero (Loc_RoomID l) then
        (case fmlookup (rooms w) (Loc_RoomID l) of
           None \<Rightarrow> w
         | Some room \<Rightarrow>
             w\<lparr>rooms := fmupd (Loc_RoomID l)
               (room\<lparr>Room_Objects := \<lparr>ObjectIDs = removeID (ObjectIDs (Room_Objects room)) i\<rparr>\<rparr>) (rooms w)\<rparr>)
      else if \<not> IsZero (Loc_CreatureID l) then
        (case fmlookup (creatures w) (Loc_CreatureID l) of
           None \<Rightarrow> w
         | Some creature \<Rightarrow>
             w\<lparr>creatures := fmupd (Loc_CreatureID l)
               (creature\<lparr>Creature_Inventory := \<lparr>ObjectIDs = removeID (ObjectIDs (Creature_Inventory creature)) i\<rparr>,
                  Creature_Equipment :=
                    fmfilter (\<lambda>slot. fmlookup (Creature_Equipment creature) slot \<noteq> Some i)
                      (Creature_Equipment creature)\<rparr>) (creatures w)\<rparr>)
      else if \<not> IsZero (Loc_BankID l) then
        (case fmlookup (banks w) (Loc_BankID l) of
           None \<Rightarrow> w
         | Some account \<Rightarrow>
             w\<lparr>banks := fmupd (Loc_BankID l)
               (account\<lparr>Bank_Objects := \<lparr>ObjectIDs = removeID (ObjectIDs (Bank_Objects account)) i\<rparr>\<rparr>) (banks w)\<rparr>)
      else if \<not> IsZero (Loc_ContainerID l) then
        (case fmlookup (objects w) (Loc_ContainerID l) of
           None \<Rightarrow> w
         | Some container \<Rightarrow>
             w\<lparr>objects := fmupd (Loc_ContainerID l)
               (container\<lparr>Object_Contents := \<lparr>ObjectIDs = removeID (ObjectIDs (Object_Contents container)) i\<rparr>\<rparr>)
               (objects w)\<rparr>)
      else w)"

text \<open>Both change one list, that of the holder the location names, and no location.\<close>

lemma refs_add:
  "refs (addObjectToHolder i l w) h =
     (if h = holderOf l \<and> h \<noteq> Nowhere then insertObjectIDLegacySorted w (refs w h) i else refs w h)"
  by (cases h)
     (auto simp: addObjectToHolder_def refs_def holderOf_def mget_def Let_def zeroRoom_def zeroCreature_def
        zeroBank_def zeroObject_def split: option.splits)

lemma refs_remove:
  "refs (removeObjectFromHolder i l w) h =
     (if h = holderOf l then removeID (refs w h) i else refs w h)"
  by (cases h)
     (auto simp: removeObjectFromHolder_def refs_def holderOf_def Let_def removeID_def split: option.splits)

lemma where_is_add:
  "holder_exists w (holderOf l) \<Longrightarrow> where_is (addObjectToHolder i l w) j = where_is w j"
  by (auto simp: addObjectToHolder_def where_is_def holderOf_def holder_exists_def mget_def Let_def
        split: option.splits if_splits)

lemma where_is_remove [simp]: "where_is (removeObjectFromHolder i l w) j = where_is w j"
  by (auto simp: removeObjectFromHolder_def where_is_def Let_def split: option.splits)

lemma lookup_add_objects:
  "fmlookup (objects (addObjectToHolder i l w)) j =
     (if holderOf l = InObject j
      then Some ((mget zeroObject (objects w) j)\<lparr>Object_Contents :=
             \<lparr>ObjectIDs = insertObjectIDLegacySorted w (ObjectIDs (Object_Contents (mget zeroObject (objects w) j))) i\<rparr>\<rparr>)
      else fmlookup (objects w) j)"
  by (auto simp: addObjectToHolder_def holderOf_def Let_def)

lemma lookup_remove_objects:
  "fmlookup (objects (removeObjectFromHolder i l w)) j =
     (if holderOf l = InObject j
      then map_option (\<lambda>c. c\<lparr>Object_Contents := \<lparr>ObjectIDs = removeID (ObjectIDs (Object_Contents c)) i\<rparr>\<rparr>)
             (fmlookup (objects w) j)
      else fmlookup (objects w) j)"
  by (auto simp: removeObjectFromHolder_def holderOf_def split: option.splits)

lemma holder_exists_add [simp]: "holder_exists w h \<Longrightarrow> holder_exists (addObjectToHolder i l w) h"
  by (cases h) (auto simp: addObjectToHolder_def holder_exists_def Let_def)

lemma holder_exists_remove [simp]: "holder_exists (removeObjectFromHolder i l w) h = holder_exists w h"
  by (cases h) (auto simp: removeObjectFromHolder_def holder_exists_def Let_def split: option.splits)

lemma add_frame [simp]:
  "prototypes (addObjectToHolder i l w) = prototypes w" "players (addObjectToHolder i l w) = players w"
  "playerDirty (addObjectToHolder i l w) = playerDirty w" "bankDirty (addObjectToHolder i l w) = bankDirty w"
  "roomObjectDirty (addObjectToHolder i l w) = roomObjectDirty w" "clock (addObjectToHolder i l w) = clock w"
  "familyWar (addObjectToHolder i l w) = familyWar w"
  by (simp_all add: addObjectToHolder_def Let_def)

lemma remove_frame [simp]:
  "prototypes (removeObjectFromHolder i l w) = prototypes w" "players (removeObjectFromHolder i l w) = players w"
  "playerDirty (removeObjectFromHolder i l w) = playerDirty w" "bankDirty (removeObjectFromHolder i l w) = bankDirty w"
  "roomObjectDirty (removeObjectFromHolder i l w) = roomObjectDirty w" "clock (removeObjectFromHolder i l w) = clock w"
  "familyWar (removeObjectFromHolder i l w) = familyWar w"
  by (simp_all add: removeObjectFromHolder_def split: option.split)

subsection \<open>The container chain\<close>

text \<open>
  \<^verbatim>\<open>containsObjectAncestorLocked\<close> follows container ids from \<open>start\<close>. The ids seen so far are
  all different keys of the object map, which is finite, so the loop ends.
\<close>

function ancestor_loop :: "World \<Rightarrow> ObjectInstanceID \<Rightarrow> ObjectInstanceID list \<Rightarrow> ObjectInstanceID \<Rightarrow> bool" where
  "ancestor_loop w want seen i =
     (if IsZero i then False
      else if i = want then True
      else if i \<in> set seen then False
      else case fmlookup (objects w) i of
        None \<Rightarrow> False
      | Some object \<Rightarrow> ancestor_loop w want (i # seen) (Loc_ContainerID (Object_Location object)))"
  by pat_completeness auto
termination
proof (relation "measure (\<lambda>(w, want, seen, i). card (fmdom' (objects w) - set seen))")
  fix w want seen i object
  assume "i \<notin> set seen" and "fmlookup (objects w) i = Some object"
  then have "i \<in> fmdom' (objects w) - set seen"
    by (auto simp: fmlookup_dom'_iff)
  then have "card (fmdom' (objects w) - set seen - {i}) < card (fmdom' (objects w) - set seen)"
    by (intro card_Diff1_less) auto
  then show "((w, want, i # seen, Loc_ContainerID (Object_Location object)), w, want, seen, i)
      \<in> measure (\<lambda>(w, want, seen, i). card (fmdom' (objects w) - set seen))"
    by (simp add: Diff_insert2 [symmetric] insert_commute) (metis Diff_insert)
qed simp

declare ancestor_loop.simps [simp del]

definition containsObjectAncestor :: "World \<Rightarrow> ObjectInstanceID \<Rightarrow> ObjectInstanceID \<Rightarrow> bool" where
  "containsObjectAncestor w start want = ancestor_loop w want [] start"

text \<open>The container an object is in, when it exists and is in one.\<close>

definition container_of :: "World \<Rightarrow> ObjectInstanceID \<Rightarrow> ObjectInstanceID option" where
  "container_of w i =
     (case fmlookup (objects w) i of
        None \<Rightarrow> None
      | Some p \<Rightarrow> if Loc_ContainerID (Object_Location p) = [] then None else Some (Loc_ContainerID (Object_Location p)))"

inductive inside :: "World \<Rightarrow> ObjectInstanceID \<Rightarrow> ObjectInstanceID \<Rightarrow> bool" for w where
  inside_refl: "inside w i i"
| inside_step: "container_of w i = Some k \<Longrightarrow> inside w k j \<Longrightarrow> inside w i j"

lemma inside_trans: "inside w i j \<Longrightarrow> inside w j k \<Longrightarrow> inside w i k"
  by (induction rule: inside.induct) (auto intro: inside.intros)

lemma container_of_lookup:
  "container_of w i = Some k \<longleftrightarrow>
     (\<exists>p. fmlookup (objects w) i = Some p \<and> Loc_ContainerID (Object_Location p) = k \<and> k \<noteq> [])"
  by (auto simp: container_of_def split: option.splits)

text \<open>A path without repetition, the shape of the loop's run.\<close>

fun cpath :: "World \<Rightarrow> ObjectInstanceID \<Rightarrow> ObjectInstanceID list \<Rightarrow> ObjectInstanceID \<Rightarrow> bool" where
  "cpath w i [] j \<longleftrightarrow> i = j"
| "cpath w i (p # ps) j \<longleftrightarrow> p = i \<and> i \<noteq> j \<and> (\<exists>k. container_of w i = Some k \<and> cpath w k ps j)"

lemma cpath_suffix: "cpath w i ps j \<Longrightarrow> x \<in> set ps \<Longrightarrow> \<exists>qs. suffix qs ps \<and> cpath w x qs j"
proof (induction ps arbitrary: i)
  case (Cons p ps)
  show ?case
  proof (cases "x = p")
    case True
    with Cons.prems show ?thesis by (intro exI [of _ "p # ps"]) auto
  next
    case False
    with Cons.prems obtain k where "cpath w k ps j" and "x \<in> set ps" by auto
    with Cons.IH obtain qs where "suffix qs ps" and "cpath w x qs j" by blast
    then show ?thesis by (meson suffix_Cons)
  qed
qed simp

lemma inside_cpath: "inside w i j \<Longrightarrow> \<exists>ps. cpath w i ps j \<and> distinct ps"
proof (induction rule: inside.induct)
  case (inside_refl i)
  show ?case by (intro exI [of _ "[]"]) simp
next
  case (inside_step i k j)
  then obtain ps where ps: "cpath w k ps j" "distinct ps" by blast
  show ?case
  proof (cases "i = j \<or> i \<in> set ps")
    case True
    then consider "i = j" | "i \<in> set ps" by blast
    then show ?thesis
    proof cases
      case 1
      then show ?thesis by (intro exI [of _ "[]"]) simp
    next
      case 2
      with ps obtain qs where "suffix qs ps" and "cpath w i qs j" using cpath_suffix by blast
      with ps(2) show ?thesis by (meson distinct_suffix)
    qed
  next
    case False
    with inside_step.hyps(1) ps show ?thesis
      by (intro exI [of _ "i # ps"]) auto
  qed
qed

lemma ancestor_loop_sound: "ancestor_loop w want seen i \<Longrightarrow> inside w i want"
proof (induction w want seen i rule: ancestor_loop.induct)
  case (1 w want seen i)
  from "1.prems" consider "i = want"
    | p where "fmlookup (objects w) i = Some p" and "i \<notin> set seen" and "i \<noteq> want" and "i \<noteq> []"
        and "ancestor_loop w want (i # seen) (Loc_ContainerID (Object_Location p))"
    by (subst (asm) ancestor_loop.simps) (auto split: if_splits option.splits)
  then show ?case
  proof cases
    case (2 p)
    moreover from 2 have "Loc_ContainerID (Object_Location p) \<noteq> []"
      by (subst (asm) ancestor_loop.simps) (auto split: if_splits)
    ultimately show ?thesis
      using "1.IH" by (auto simp: container_of_lookup intro: inside_step)
  qed (auto intro: inside_refl)
qed

lemma ancestor_loop_complete:
  "cpath w i ps want \<Longrightarrow> distinct ps \<Longrightarrow> set ps \<inter> set seen = {} \<Longrightarrow> i \<noteq> [] \<Longrightarrow> want \<noteq> []
     \<Longrightarrow> ancestor_loop w want seen i"
proof (induction ps arbitrary: i seen)
  case Nil
  then show ?case by (subst ancestor_loop.simps) simp
next
  case (Cons p ps)
  then obtain k where k: "container_of w i = Some k" "cpath w k ps want" and "p = i" by auto
  moreover from k(1) have "k \<noteq> []" by (auto simp: container_of_lookup)
  ultimately have "ancestor_loop w want (i # seen) k"
    using Cons.prems by (intro Cons.IH) auto
  with k(1) Cons.prems show ?case
    by (subst ancestor_loop.simps) (auto simp: container_of_lookup)
qed

lemma containsObjectAncestor_iff:
  "containsObjectAncestor w start want \<longleftrightarrow> start \<noteq> [] \<and> want \<noteq> [] \<and> inside w start want"
proof
  assume a: "containsObjectAncestor w start want"
  then have "start \<noteq> []"
    unfolding containsObjectAncestor_def by (subst (asm) ancestor_loop.simps) (auto split: if_splits)
  moreover from a have i: "inside w start want"
    unfolding containsObjectAncestor_def by (rule ancestor_loop_sound)
  moreover have "want \<noteq> []"
    using i \<open>start \<noteq> []\<close> by (induction rule: inside.induct) (auto simp: container_of_lookup)
  ultimately show "start \<noteq> [] \<and> want \<noteq> [] \<and> inside w start want" by blast
next
  assume "start \<noteq> [] \<and> want \<noteq> [] \<and> inside w start want"
  then show "containsObjectAncestor w start want"
    unfolding containsObjectAncestor_def using inside_cpath ancestor_loop_complete
    by (metis inf_bot_right list.set(1))
qed

subsection \<open>Invariants\<close>

text \<open>
  Agreement: an id is on a holder's list exactly when the object it names is located there, and
  no list repeats an id. Acyclicity: no object is inside itself through its containers.
\<close>

definition holders_agree :: "World \<Rightarrow> bool" where
  "holders_agree w \<longleftrightarrow>
     (\<forall>h i. i \<in> set (refs w h) \<longleftrightarrow> where_is w i = Some h) \<and> (\<forall>h. distinct (refs w h))"

definition containers_acyclic :: "World \<Rightarrow> bool" where
  "containers_acyclic w \<longleftrightarrow> (\<forall>i k. container_of w i = Some k \<longrightarrow> \<not> inside w k i)"

lemma holders_agreeI:
  "(\<And>h i. i \<in> set (refs w h) \<longleftrightarrow> where_is w i = Some h) \<Longrightarrow> (\<And>h. distinct (refs w h)) \<Longrightarrow> holders_agree w"
  by (simp add: holders_agree_def)

lemma holders_agree_iff: "holders_agree w \<Longrightarrow> i \<in> set (refs w h) \<longleftrightarrow> where_is w i = Some h"
  by (simp add: holders_agree_def)

lemma holders_agree_distinct: "holders_agree w \<Longrightarrow> distinct (refs w h)"
  by (simp add: holders_agree_def)

lemma refs_not_exists: "\<not> holder_exists w h \<Longrightarrow> refs w h = []"
  by (cases h) (auto simp: refs_def holder_exists_def)

lemma holders_agree_exists:
  "holders_agree w \<Longrightarrow> where_is w i = Some h \<Longrightarrow> holder_exists w h"
  using refs_not_exists [of w h] holders_agree_iff [of w i h] by (metis empty_iff list.set(1))

lemma holders_agree_cong:
  assumes "\<And>h. refs w' h = refs w h" and "\<And>i. where_is w' i = where_is w i"
  shows "holders_agree w' = holders_agree w"
  by (simp add: holders_agree_def assms)

lemma refs_cong:
  "rooms w' = rooms w \<Longrightarrow> creatures w' = creatures w \<Longrightarrow> banks w' = banks w \<Longrightarrow> objects w' = objects w
     \<Longrightarrow> refs w' h = refs w h"
  by (cases h) (simp_all add: refs_def)

lemma where_is_cong: "objects w' = objects w \<Longrightarrow> where_is w' i = where_is w i"
  by (simp add: where_is_def)

lemma container_of_cong: "objects w' = objects w \<Longrightarrow> container_of w' i = container_of w i"
  by (simp add: container_of_def)

lemma inside_cong_container:
  assumes "\<And>i. container_of w' i = container_of w i"
  shows "inside w' i j = inside w i j"
proof
  show "inside w' i j \<Longrightarrow> inside w i j"
    by (induction rule: inside.induct) (auto simp: assms intro: inside.intros)
  show "inside w i j \<Longrightarrow> inside w' i j"
    by (induction rule: inside.induct) (auto simp: assms [symmetric] intro: inside.intros)
qed

lemma containers_acyclic_cong:
  assumes "\<And>i. container_of w' i = container_of w i"
  shows "containers_acyclic w' = containers_acyclic w"
  by (simp add: containers_acyclic_def assms inside_cong_container [OF assms])

lemma containers_acyclic_mono:
  assumes "containers_acyclic w" and "\<And>i k. container_of w' i = Some k \<Longrightarrow> container_of w i = Some k"
  shows "containers_acyclic w'"
proof -
  have "inside w i j" if "inside w' i j" for i j
    using that by (induction rule: inside.induct) (auto intro: inside.intros assms(2))
  then show ?thesis
    using assms unfolding containers_acyclic_def by blast
qed

text \<open>Marks change neither side.\<close>

lemma refs_marks [simp]:
  "refs (MarkPlayerDirty p w) h = refs w h" "refs (MarkBankDirty b w) h = refs w h"
  "refs (MarkRoomObjectsDirty r w) h = refs w h" "refs (markCreaturePlayerDirty c w) h = refs w h"
  by (rule refs_cong; simp)+

lemma where_is_marks [simp]:
  "where_is (MarkPlayerDirty p w) i = where_is w i" "where_is (MarkBankDirty b w) i = where_is w i"
  "where_is (MarkRoomObjectsDirty r w) i = where_is w i"
  "where_is (markCreaturePlayerDirty c w) i = where_is w i"
  by (rule where_is_cong; simp)+

lemma container_of_marks [simp]:
  "container_of (MarkPlayerDirty p w) i = container_of w i" "container_of (MarkBankDirty b w) i = container_of w i"
  "container_of (MarkRoomObjectsDirty r w) i = container_of w i"
  "container_of (markCreaturePlayerDirty c w) i = container_of w i"
  by (rule container_of_cong; simp)+

lemma holders_agree_marks [simp]:
  "holders_agree (MarkPlayerDirty p w) = holders_agree w" "holders_agree (MarkBankDirty b w) = holders_agree w"
  "holders_agree (MarkRoomObjectsDirty r w) = holders_agree w"
  "holders_agree (markCreaturePlayerDirty c w) = holders_agree w"
  by (simp_all add: holders_agree_def)

lemma containers_acyclic_marks [simp]:
  "containers_acyclic (MarkPlayerDirty p w) = containers_acyclic w"
  "containers_acyclic (MarkBankDirty b w) = containers_acyclic w"
  "containers_acyclic (MarkRoomObjectsDirty r w) = containers_acyclic w"
  "containers_acyclic (markCreaturePlayerDirty c w) = containers_acyclic w"
  by (rule containers_acyclic_cong; simp)+

end
