(* ===== verification/Moves.thy ===== *)
theory Moves
  imports Holders
begin

text \<open>
  Moving an object (\<^verbatim>\<open>room.go\<close>, \<^verbatim>\<open>creature.go\<close>, \<^verbatim>\<open>object.go\<close>): the checks before a move, \<^verbatim>\<open>MoveObject\<close>
  and its four siblings that share its three steps (remove from the old holder, write the new
  location, add to the new holder), and the deletion of a carried object. Every operation keeps
  the two sides of ownership in agreement and the container chains free of cycles; a move
  implements the update of a map from objects to holders.
\<close>

subsection \<open>Sort keys depend on names only\<close>

definition object_core :: "ObjectInstance \<Rightarrow> ObjectInstance" where
  "object_core p = p\<lparr>Object_Location := zeroLocation, Object_Contents := \<lparr>ObjectIDs = []\<rparr>\<rparr>"

lemma object_core_upd [simp]:
  "object_core (p\<lparr>Object_Location := l\<rparr>) = object_core p"
  "object_core (p\<lparr>Object_Contents := c\<rparr>) = object_core p"
  by (simp_all add: object_core_def)

lemma object_core_fields:
  "object_core p = object_core q \<Longrightarrow>
     Object_ID p = Object_ID q \<and> Object_PrototypeID p = Object_PrototypeID q
     \<and> Object_DisplayNameOverride p = Object_DisplayNameOverride q \<and> Object_Quantity p = Object_Quantity q
     \<and> Object_Properties p = Object_Properties q \<and> Object_Metadata p = Object_Metadata q"
  unfolding object_core_def
  by (cases p, cases q) simp

lemma objectIntProperty_core:
  assumes a: "prototypes w = prototypes w'" and "object_core p = object_core q"
  shows "objectIntProperty w p k = objectIntProperty w' q k"
  by (simp only: objectIntProperty_def a object_core_fields [OF assms(2)])

lemma objectIntPropertyAny_core:
  "prototypes w = prototypes w' \<Longrightarrow> object_core p = object_core q
     \<Longrightarrow> objectIntPropertyAny w p ks = objectIntPropertyAny w' q ks"
  by (induction ks) (simp_all add: objectIntProperty_core [of w w' p q] split: option.split)

lemma sortName_core:
  assumes a: "prototypes w = prototypes w'" and "object_core p = object_core q"
  shows "objectLegacySortNameFromObject w p = objectLegacySortNameFromObject w' q"
  by (simp only: objectLegacySortNameFromObject_def a object_core_fields [OF assms(2)])

definition same_cores :: "World \<Rightarrow> World \<Rightarrow> bool" where
  "same_cores w w' \<longleftrightarrow> prototypes w = prototypes w'
     \<and> (\<forall>j. map_option object_core (fmlookup (objects w) j) = map_option object_core (fmlookup (objects w') j))"

lemma objectLegacyKey_core:
  assumes "same_cores w w'"
  shows "objectLegacyKey w i = objectLegacyKey w' i"
proof (cases "fmlookup (objects w) i")
  case None
  moreover from assms have "map_option object_core (fmlookup (objects w) i) = map_option object_core (fmlookup (objects w') i)"
    unfolding same_cores_def by blast
  ultimately show ?thesis
    by (simp add: objectLegacyKey_def objectLegacySortName_def objectLegacyAdjustment_def)
next
  case (Some p)
  with assms obtain q where "fmlookup (objects w') i = Some q" and "object_core p = object_core q"
    unfolding same_cores_def by (metis map_option_eq_Some option.simps(9))
  moreover from assms have "prototypes w = prototypes w'"
    by (simp add: same_cores_def)
  ultimately show ?thesis
    using Some sortName_core [of w w' p q] objectIntPropertyAny_core [of w w' p q]
    by (simp only: objectLegacyKey_def objectLegacySortName_def objectLegacyAdjustment_def option.case)
qed

lemma insertObject_core: "same_cores w w' \<Longrightarrow> insertObjectIDLegacySorted w = insertObjectIDLegacySorted w'"
  using objectLegacyKey_core [of w w']
  by (intro ext) (simp add: insertObjectIDLegacySorted_def objectIDLegacyLess_key)

lemma same_cores_remove [simp]: "same_cores (removeObjectFromHolder i l w) w"
  by (auto simp: same_cores_def lookup_remove_objects option.map_comp o_def)

lemma same_cores_add: "holder_exists w (holderOf l) \<Longrightarrow> same_cores (addObjectToHolder i l w) w"
  by (auto simp: same_cores_def lookup_add_objects holder_exists_def mget_def split: option.splits)

lemma same_cores_trans: "same_cores a b \<Longrightarrow> same_cores b c \<Longrightarrow> same_cores a c"
  by (simp add: same_cores_def)

subsection \<open>The three steps of a move\<close>

definition relocate :: "ObjectInstanceID \<Rightarrow> ObjectInstance \<Rightarrow> ObjectLocation \<Rightarrow> World \<Rightarrow> World" where
  "relocate i object location w =
     (let w1 = removeObjectFromHolder i (Object_Location object) w;
          w2 = w1\<lparr>objects := fmupd i (object\<lparr>Object_Location := location\<rparr>) (objects w1)\<rparr>
      in addObjectToHolder i location w2)"

definition validateObjectDestination :: "World \<Rightarrow> ObjectInstanceID \<Rightarrow> ObjectLocation \<Rightarrow> go_error option" where
  "validateObjectDestination w i l =
     (if \<not> IsZero (Loc_RoomID l) then
        (if fmlookup (rooms w) (Loc_RoomID l) = None
         then Some (Errorf ''move object %q: target room %q not found'' [i, Loc_RoomID l]) else None)
      else if \<not> IsZero (Loc_CreatureID l) then
        (if fmlookup (creatures w) (Loc_CreatureID l) = None
         then Some (Errorf ''move object %q: target creature %q not found'' [i, Loc_CreatureID l]) else None)
      else if \<not> IsZero (Loc_BankID l) then
        (if fmlookup (banks w) (Loc_BankID l) = None
         then Some (Errorf ''move object %q: target bank %q not found'' [i, Loc_BankID l]) else None)
      else if \<not> IsZero (Loc_ContainerID l) then
        (if fmlookup (objects w) (Loc_ContainerID l) = None
         then Some (Errorf ''move object %q: target container %q not found'' [i, Loc_ContainerID l])
         else if Loc_ContainerID l = i
         then Some (Errorf ''move object %q: object cannot contain itself'' [i])
         else if containsObjectAncestor w (Loc_ContainerID l) i
         then Some (Errorf ''move object %q: object cannot move into descendant %q'' [i, Loc_ContainerID l])
         else None)
      else None)"

lemma validateObjectDestination_None:
  "ObjectLocation_Validate l = None \<Longrightarrow> i \<noteq> [] \<Longrightarrow>
     validateObjectDestination w i l = None \<longleftrightarrow>
       holder_exists w (holderOf l) \<and> (\<forall>k. holderOf l = InObject k \<longrightarrow> \<not> inside w k i)"
  by (auto simp: validateObjectDestination_def ObjectLocation_Validate_fields holder_fields_def holderOf_def
        holder_exists_def containsObjectAncestor_iff split: if_splits intro: inside_refl)

lemma validateObjectDestination_cong:
  assumes "rooms w' = rooms w" "creatures w' = creatures w" "banks w' = banks w" "objects w' = objects w"
  shows "validateObjectDestination w' i l = validateObjectDestination w i l"
proof -
  have "container_of w' j = container_of w j" for j
    using assms(4) by (rule container_of_cong)
  then show ?thesis
    using assms by (simp add: validateObjectDestination_def containsObjectAncestor_iff
      inside_cong_container [of w' w])
qed

lemma ObjectLocation_container:
  "ObjectLocation_Validate l = None \<Longrightarrow> holderOf l = InObject k \<longleftrightarrow> Loc_ContainerID l = k \<and> k \<noteq> []"
  by (auto simp: ObjectLocation_Validate_fields holder_fields_def holderOf_def split: if_splits)

lemma ObjectLocation_nowhere: "ObjectLocation_Validate l = None \<Longrightarrow> holderOf l \<noteq> Nowhere"
  by (auto simp: ObjectLocation_Validate_fields holder_fields_def holderOf_def split: if_splits)

text \<open>What a move changes: one location and the two lists it concerns.\<close>

lemma relocate_where_is:
  assumes "holder_exists w (holderOf l)"
  shows "where_is (relocate i p l w) j = (if j = i then Some (holderOf l) else where_is w j)"
proof -
  let ?w1 = "removeObjectFromHolder i (Object_Location p) w"
  let ?w2 = "?w1\<lparr>objects := fmupd i (p\<lparr>Object_Location := l\<rparr>) (objects ?w1)\<rparr>"
  from assms have "holder_exists ?w1 (holderOf l)" by simp
  then have "holder_exists ?w2 (holderOf l)"
    by (cases "holderOf l") (auto simp: holder_exists_def)
  then have "where_is (relocate i p l w) j = where_is ?w2 j"
    by (simp add: relocate_def Let_def where_is_add)
  also have "\<dots> = (if j = i then Some (holderOf l) else where_is ?w1 j)"
    by (simp add: where_is_def)
  finally show ?thesis by simp
qed

lemma relocate_same_cores:
  assumes "fmlookup (objects w) i = Some p" and "holder_exists w (holderOf l)"
  shows "same_cores (relocate i p l w) w"
proof -
  let ?w1 = "removeObjectFromHolder i (Object_Location p) w"
  let ?w2 = "?w1\<lparr>objects := fmupd i (p\<lparr>Object_Location := l\<rparr>) (objects ?w1)\<rparr>"
  have "holder_exists ?w2 (holderOf l)"
    using assms(2) holder_exists_remove [of i "Object_Location p" w "holderOf l"]
    by (cases "holderOf l") (auto simp: holder_exists_def simp del: holder_exists_remove)
  then have "same_cores (relocate i p l w) ?w2"
    by (simp add: relocate_def Let_def same_cores_add)
  also have "same_cores ?w2 w"
    using assms(1) by (auto simp: same_cores_def lookup_remove_objects option.map_comp o_def)
  finally (same_cores_trans) show ?thesis .
qed

lemma relocate_refs:
  assumes p: "fmlookup (objects w) i = Some p" and "holder_exists w (holderOf l)"
    and own: "holderOf (Object_Location p) \<noteq> InObject i"
  shows "refs (relocate i p l w) h =
     (let r = if h = holderOf (Object_Location p) then removeID (refs w h) i else refs w h
      in if h = holderOf l \<and> h \<noteq> Nowhere then insertObjectIDLegacySorted w r i else r)"
proof -
  let ?w1 = "removeObjectFromHolder i (Object_Location p) w"
  let ?w2 = "?w1\<lparr>objects := fmupd i (p\<lparr>Object_Location := l\<rparr>) (objects ?w1)\<rparr>"
  have "same_cores ?w2 w"
    using p by (auto simp: same_cores_def lookup_remove_objects option.map_comp o_def)
  then have ins: "insertObjectIDLegacySorted ?w2 = insertObjectIDLegacySorted w"
    by (rule insertObject_core)
  have "refs ?w2 h = refs ?w1 h"
    using p own by (cases h) (auto simp: refs_def lookup_remove_objects split: option.splits)
  then show ?thesis
    by (simp only: relocate_def Let_def refs_add refs_remove ins)
qed

lemma relocate_container_of:
  assumes "holder_exists w (holderOf l)"
  shows "container_of (relocate i p l w) j =
     (if j = i then if Loc_ContainerID l = [] then None else Some (Loc_ContainerID l) else container_of w j)"
proof -
  let ?w1 = "removeObjectFromHolder i (Object_Location p) w"
  let ?w2 = "?w1\<lparr>objects := fmupd i (p\<lparr>Object_Location := l\<rparr>) (objects ?w1)\<rparr>"
  have "holder_exists ?w2 (holderOf l)"
    using assms holder_exists_remove [of i "Object_Location p" w "holderOf l"]
    by (cases "holderOf l") (auto simp: holder_exists_def simp del: holder_exists_remove)
  then show ?thesis
    by (auto simp: relocate_def Let_def container_of_def lookup_add_objects lookup_remove_objects mget_def
          holder_exists_def zeroObject_def zeroLocation_def split: option.splits if_splits)
qed

lemma relocate_acyclic:
  assumes ac: "containers_acyclic w" and ex: "holder_exists w (holderOf l)"
    and no: "Loc_ContainerID l = [] \<or> \<not> inside w (Loc_ContainerID l) i"
  shows "containers_acyclic (relocate i p l w)"
proof -
  let ?w = "relocate i p l w" and ?k = "Loc_ContainerID l"
  have split: "inside w x y \<or> (?k \<noteq> [] \<and> inside w x i \<and> inside w ?k y)" if "inside ?w x y" for x y
    using that
  proof (induction rule: inside.induct)
    case (inside_step x m y)
    show ?case
    proof (cases "x = i")
      case True
      with inside_step.hyps(1) have "m = ?k" "?k \<noteq> []"
        by (auto simp: relocate_container_of [OF ex] split: if_splits)
      with inside_step.IH no True show ?thesis by (auto intro: inside_refl)
    next
      case False
      with inside_step.hyps(1) have "container_of w x = Some m"
        by (simp add: relocate_container_of [OF ex])
      with inside_step.IH show ?thesis by (auto intro: inside.inside_step)
    qed
  qed (auto intro: inside_refl)
  show ?thesis
    unfolding containers_acyclic_def
  proof (intro allI impI notI)
    fix j m
    assume c: "container_of ?w j = Some m" and "inside ?w m j"
    from split [OF this(2)] consider "inside w m j" | "?k \<noteq> []" "inside w m i" "inside w ?k j" by blast
    then show False
      using c ac no
      by cases (auto simp: relocate_container_of [OF ex] containers_acyclic_def split: if_splits
          intro: inside.inside_step dest: inside_trans)
  qed
qed

lemma relocate_agree:
  assumes ag: "holders_agree w" and p: "fmlookup (objects w) i = Some p"
    and ex: "holder_exists w (holderOf l)" and own: "holderOf (Object_Location p) \<noteq> InObject i"
  shows "holders_agree (relocate i p l w)"
proof (rule holders_agreeI)
  have wi: "where_is w i = Some (holderOf (Object_Location p))"
    using p by (simp add: where_is_def)
  have nowhere: "h \<noteq> Nowhere" if "holder_exists w h" for h
    using that by (auto simp: holder_exists_def)
  fix h j
  show "j \<in> set (refs (relocate i p l w) h) \<longleftrightarrow> where_is (relocate i p l w) j = Some h"
    using wi nowhere [OF ex] holders_agree_iff [OF ag]
    by (auto simp: relocate_refs [OF p ex own] relocate_where_is [OF ex] Let_def objrefs.set_ins objrefs.set_del)
next
  fix h
  show "distinct (refs (relocate i p l w) h)"
    using holders_agree_distinct [OF ag]
    by (auto simp: relocate_refs [OF p ex own] Let_def intro!: objrefs.distinct_ins objrefs.distinct_del)
qed

lemma relocate_frame [simp]:
  "prototypes (relocate i p l w) = prototypes w" "players (relocate i p l w) = players w"
  "playerDirty (relocate i p l w) = playerDirty w" "bankDirty (relocate i p l w) = bankDirty w"
  "roomObjectDirty (relocate i p l w) = roomObjectDirty w" "clock (relocate i p l w) = clock w"
  "familyWar (relocate i p l w) = familyWar w"
  by (simp_all add: relocate_def Let_def)

subsection \<open>The ownership invariant\<close>

definition locations_valid :: "World \<Rightarrow> bool" where
  "locations_valid w \<longleftrightarrow>
     (\<forall>i p. fmlookup (objects w) i = Some p \<longrightarrow> ObjectLocation_Validate (Object_Location p) = None)"

definition well_held :: "World \<Rightarrow> bool" where
  "well_held w \<longleftrightarrow> holders_agree w \<and> containers_acyclic w \<and> locations_valid w"

lemma well_heldD:
  "well_held w \<Longrightarrow> holders_agree w" "well_held w \<Longrightarrow> containers_acyclic w" "well_held w \<Longrightarrow> locations_valid w"
  by (simp_all add: well_held_def)

lemma well_held_location:
  "well_held w \<Longrightarrow> fmlookup (objects w) i = Some p \<Longrightarrow> ObjectLocation_Validate (Object_Location p) = None"
  by (auto simp: well_held_def locations_valid_def)

lemma well_held_container:
  "well_held w \<Longrightarrow> container_of w i = Some k \<longleftrightarrow> where_is w i = Some (InObject k)"
  by (auto simp: container_of_lookup where_is_def ObjectLocation_container dest: well_held_location)

lemma well_held_own:
  "well_held w \<Longrightarrow> fmlookup (objects w) i = Some p \<Longrightarrow> holderOf (Object_Location p) \<noteq> InObject i"
proof
  assume wh: "well_held w" and "fmlookup (objects w) i = Some p" and "holderOf (Object_Location p) = InObject i"
  then have "container_of w i = Some i"
    by (simp add: well_held_container where_is_def)
  with well_heldD(2) [OF wh] show False
    unfolding containers_acyclic_def using inside_refl [of w i] by blast
qed

lemma well_held_cong:
  assumes "rooms w' = rooms w" "creatures w' = creatures w" "banks w' = banks w" "objects w' = objects w"
  shows "well_held w' = well_held w"
proof -
  have "holders_agree w' = holders_agree w"
    by (rule holders_agree_cong; rule refs_cong where_is_cong; simp add: assms)
  moreover have "containers_acyclic w' = containers_acyclic w"
    by (rule containers_acyclic_cong) (rule container_of_cong, simp add: assms)
  ultimately show ?thesis
    by (simp add: well_held_def locations_valid_def assms)
qed

lemma well_held_marks [simp]:
  "well_held (MarkPlayerDirty p w) = well_held w" "well_held (MarkBankDirty b w) = well_held w"
  "well_held (MarkRoomObjectsDirty r w) = well_held w" "well_held (markCreaturePlayerDirty c w) = well_held w"
  by (rule well_held_cong; simp)+

lemma well_held_object_upd:
  assumes "fmlookup (objects w) k = Some c"
    and "Object_Location c' = Object_Location c" and "Object_Contents c' = Object_Contents c"
  shows "well_held (w\<lparr>objects := fmupd k c' (objects w)\<rparr>) = well_held w"
proof -
  let ?w = "w\<lparr>objects := fmupd k c' (objects w)\<rparr>"
  have r: "refs ?w h = refs w h" for h
    using assms by (cases h) (auto simp: refs_def)
  have l: "where_is ?w i = where_is w i" and c: "container_of ?w i = container_of w i" for i
    using assms by (auto simp: where_is_def container_of_def)
  from r l have "holders_agree ?w = holders_agree w"
    by (rule holders_agree_cong)
  moreover have "containers_acyclic ?w = containers_acyclic w"
    by (rule containers_acyclic_cong) (rule c)
  moreover have "locations_valid ?w = locations_valid w"
    using assms by (auto simp: locations_valid_def)
  ultimately show ?thesis
    by (simp add: well_held_def)
qed

lemma well_held_creature_upd:
  assumes "fmlookup (creatures w) k = Some c" and "Creature_Inventory c' = Creature_Inventory c"
  shows "well_held (w\<lparr>creatures := fmupd k c' (creatures w)\<rparr>) = well_held w"
proof -
  let ?w = "w\<lparr>creatures := fmupd k c' (creatures w)\<rparr>"
  have "refs ?w h = refs w h" for h
    using assms by (cases h) (auto simp: refs_def)
  then have "holders_agree ?w = holders_agree w"
    by (rule holders_agree_cong) (simp add: where_is_def)
  moreover have "containers_acyclic ?w = containers_acyclic w"
    by (rule containers_acyclic_cong) (rule container_of_cong, simp)
  ultimately show ?thesis
    by (simp add: well_held_def locations_valid_def)
qed

lemma relocate_lookup:
  "fmlookup (objects (relocate i p l w)) i =
     (if holderOf l = InObject i
      then Some (p\<lparr>Object_Location := l, Object_Contents :=
             \<lparr>ObjectIDs = insertObjectIDLegacySorted
                ((removeObjectFromHolder i (Object_Location p) w)\<lparr>objects :=
                   fmupd i (p\<lparr>Object_Location := l\<rparr>) (objects (removeObjectFromHolder i (Object_Location p) w))\<rparr>)
                (ObjectIDs (Object_Contents p)) i\<rparr>\<rparr>)
      else Some (p\<lparr>Object_Location := l\<rparr>))"
  by (simp add: relocate_def Let_def lookup_add_objects)

lemma relocate_lookup_other:
  "j \<noteq> i \<Longrightarrow> fmlookup (objects w) j = None \<Longrightarrow> holderOf l \<noteq> InObject j
     \<Longrightarrow> fmlookup (objects (relocate i p l w)) j = None"
  by (auto simp: relocate_def Let_def lookup_add_objects lookup_remove_objects)

lemma relocate_location:
  assumes "holder_exists w (holderOf l)"
  shows "map_option Object_Location (fmlookup (objects (relocate i p l w)) j) =
     (if j = i then Some l else map_option Object_Location (fmlookup (objects w) j))"
proof (cases "holderOf l = InObject j \<and> j \<noteq> i")
  case True
  with assms show ?thesis
    by (auto simp: relocate_def Let_def lookup_add_objects lookup_remove_objects mget_def holder_exists_def)
next
  case False
  then show ?thesis
    by (auto simp: relocate_def Let_def lookup_add_objects lookup_remove_objects option.map_comp o_def)
qed

lemma well_held_relocate:
  assumes wh: "well_held w" and p: "fmlookup (objects w) i = Some p" and i: "i \<noteq> []"
    and l: "ObjectLocation_Validate l = None" and d: "validateObjectDestination w i l = None"
  shows "well_held (relocate i p l w)"
    and "where_is (relocate i p l w) = (where_is w)(i \<mapsto> holderOf l)"
proof -
  from d l i have ex: "holder_exists w (holderOf l)"
    and no: "\<And>k. holderOf l = InObject k \<Longrightarrow> \<not> inside w k i"
    by (auto simp: validateObjectDestination_None)
  have "holders_agree (relocate i p l w)"
    using wh p ex well_held_own [OF wh p] by (intro relocate_agree) (auto dest: well_heldD)
  moreover have "containers_acyclic (relocate i p l w)"
    using wh ex no by (intro relocate_acyclic) (auto simp: ObjectLocation_container [OF l] dest: well_heldD)
  moreover have "locations_valid (relocate i p l w)"
    unfolding locations_valid_def
  proof (intro allI impI)
    fix j q
    assume "fmlookup (objects (relocate i p l w)) j = Some q"
    with relocate_location [OF ex, of i p j] l well_held_location [OF wh, of j]
    show "ObjectLocation_Validate (Object_Location q) = None"
      by (cases "fmlookup (objects w) j") (auto split: if_splits)
  qed
  ultimately show "well_held (relocate i p l w)"
    by (simp add: well_held_def)
  show "where_is (relocate i p l w) = (where_is w)(i \<mapsto> holderOf l)"
    using ex by (intro ext) (simp add: relocate_where_is)
qed

text \<open>An object without contents can be taken out, a fresh one put in.\<close>

definition drop_object :: "ObjectInstanceID \<Rightarrow> ObjectLocation \<Rightarrow> World \<Rightarrow> World" where
  "drop_object i l w =
     (let w1 = removeObjectFromHolder i l w in w1\<lparr>objects := fmdrop i (objects w1)\<rparr>)"

definition put_object :: "ObjectInstance \<Rightarrow> World \<Rightarrow> World" where
  "put_object p w =
     addObjectToHolder (Object_ID p) (Object_Location p) (w\<lparr>objects := fmupd (Object_ID p) p (objects w)\<rparr>)"

lemma drop_object_where_is: "where_is (drop_object i l w) = (where_is w)(i := None)"
proof (rule ext)
  fix j
  show "where_is (drop_object i l w) j = ((where_is w)(i := None)) j"
    using where_is_remove [of i l w j] by (auto simp: drop_object_def Let_def where_is_def)
qed

lemma drop_object_refs:
  "refs (drop_object i l w) h =
     (if h = InObject i then [] else if h = holderOf l then removeID (refs w h) i else refs w h)"
proof -
  have "refs (drop_object i l w) h = (if h = InObject i then [] else refs (removeObjectFromHolder i l w) h)"
    by (cases h) (auto simp: drop_object_def Let_def refs_def)
  then show ?thesis by (simp add: refs_remove)
qed

lemma drop_object_lookup:
  "fmlookup (objects (drop_object i l w)) j =
     (if j = i then None else fmlookup (objects (removeObjectFromHolder i l w)) j)"
  by (simp add: drop_object_def Let_def)

lemma well_held_drop:
  assumes wh: "well_held w" and p: "fmlookup (objects w) i = Some p"
    and leaf: "ObjectIDs (Object_Contents p) = []"
  shows "well_held (drop_object i (Object_Location p) w)"
proof -
  let ?w = "drop_object i (Object_Location p) w"
  note ag = well_heldD(1) [OF wh]
  have none: "where_is w j \<noteq> Some (InObject i)" for j
    using holders_agree_iff [OF ag, of j "InObject i"] p leaf by (auto simp: refs_def)
  have wi: "where_is w i = Some (holderOf (Object_Location p))"
    using p by (simp add: where_is_def)
  have "holders_agree ?w"
  proof (rule holders_agreeI)
    fix h j
    show "j \<in> set (refs ?w h) \<longleftrightarrow> where_is ?w j = Some h"
      using wi none [of j] by (auto simp: drop_object_refs drop_object_where_is objrefs.set_del holders_agree_iff [OF ag])
  next
    show "distinct (refs ?w h)" for h
      using holders_agree_distinct [OF ag] by (simp add: drop_object_refs objrefs.distinct_del)
  qed
  moreover have "containers_acyclic ?w"
    by (rule containers_acyclic_mono [OF well_heldD(2) [OF wh]])
       (auto simp: container_of_lookup drop_object_lookup lookup_remove_objects split: if_splits)
  moreover have "locations_valid ?w"
    using wh by (auto simp: locations_valid_def drop_object_lookup lookup_remove_objects
        dest: well_held_location split: if_splits)
  ultimately show ?thesis
    by (simp add: well_held_def)
qed

lemma well_held_no_children:
  assumes wh: "well_held w" and i: "fmlookup (objects w) i = None"
  shows "where_is w j \<noteq> Some (InObject i)" and "container_of w j \<noteq> Some i" and "i \<notin> set (refs w h)"
proof -
  show n: "where_is w j \<noteq> Some (InObject i)"
    using holders_agree_exists [OF well_heldD(1) [OF wh], of j "InObject i"] i by (auto simp: holder_exists_def)
  then show "container_of w j \<noteq> Some i"
    using well_held_container [OF wh] by simp
  show "i \<notin> set (refs w h)"
    using holders_agree_iff [OF well_heldD(1) [OF wh], of i h] i by (simp add: where_is_def)
qed

lemma put_object_where_is:
  assumes "holder_exists w (holderOf (Object_Location p))"
  shows "where_is (put_object p w) = (where_is w)(Object_ID p \<mapsto> holderOf (Object_Location p))"
proof (rule ext)
  fix j
  have "holder_exists (w\<lparr>objects := fmupd (Object_ID p) p (objects w)\<rparr>) (holderOf (Object_Location p))"
    using assms by (cases "holderOf (Object_Location p)") (auto simp: holder_exists_def)
  then show "where_is (put_object p w) j = ((where_is w)(Object_ID p \<mapsto> holderOf (Object_Location p))) j"
    by (simp add: put_object_def where_is_add) (simp add: where_is_def)
qed

lemma put_object_refs:
  assumes "fmlookup (objects w) (Object_ID p) = None" and "ObjectIDs (Object_Contents p) = []"
  shows "refs (put_object p w) h =
     (if h = holderOf (Object_Location p) \<and> h \<noteq> Nowhere
      then insertObjectIDLegacySorted (w\<lparr>objects := fmupd (Object_ID p) p (objects w)\<rparr>) (refs w h) (Object_ID p)
      else refs w h)"
proof -
  have "refs (w\<lparr>objects := fmupd (Object_ID p) p (objects w)\<rparr>) h = refs w h"
    using assms by (cases h) (auto simp: refs_def)
  then show ?thesis
    by (simp only: put_object_def refs_add)
qed

lemma put_object_location:
  assumes "holder_exists w (holderOf (Object_Location p))"
  shows "map_option Object_Location (fmlookup (objects (put_object p w)) j) =
     (if j = Object_ID p then Some (Object_Location p) else map_option Object_Location (fmlookup (objects w) j))"
  using assms by (auto simp: put_object_def lookup_add_objects mget_def holder_exists_def)

lemma put_object_container_of:
  assumes "holder_exists w (holderOf (Object_Location p))"
  shows "container_of (put_object p w) j =
     (if j = Object_ID p
      then (if Loc_ContainerID (Object_Location p) = [] then None else Some (Loc_ContainerID (Object_Location p)))
      else container_of w j)"
  using assms
  by (cases "fmlookup (objects w) j")
     (auto simp: container_of_def put_object_def lookup_add_objects mget_def holder_exists_def)

lemma well_held_put:
  assumes wh: "well_held w" and fresh: "fmlookup (objects w) (Object_ID p) = None"
    and empty: "ObjectIDs (Object_Contents p) = []"
    and loc: "ObjectLocation_Validate (Object_Location p) = None"
    and ex: "holder_exists w (holderOf (Object_Location p))"
  shows "well_held (put_object p w)"
proof -
  let ?w = "put_object p w" and ?i = "Object_ID p" and ?k = "Loc_ContainerID (Object_Location p)"
  note ag = well_heldD(1) [OF wh] and no = well_held_no_children [OF wh fresh]
  have "holders_agree ?w"
  proof (rule holders_agreeI)
    fix h j
    show "j \<in> set (refs ?w h) \<longleftrightarrow> where_is ?w j = Some h"
      using no ObjectLocation_nowhere [OF loc]
      by (auto simp: put_object_refs [OF fresh empty] put_object_where_is [OF ex] objrefs.set_ins
          holders_agree_iff [OF ag])
  next
    show "distinct (refs ?w h)" for h
      using holders_agree_distinct [OF ag]
      by (simp add: put_object_refs [OF fresh empty] objrefs.distinct_ins)
  qed
  moreover have "containers_acyclic ?w"
  proof -
    have k: "?k \<noteq> ?i" if "?k \<noteq> []"
      using ex fresh that ObjectLocation_container [OF loc, of ?k] by (auto simp: holder_exists_def)
    have i_end: "x = ?i" if "inside ?w x ?i" for x
      using that
    proof (induction x "?i" rule: inside.induct)
      case (inside_step x m)
      with k no(2) [of x] show ?case
        by (auto simp: put_object_container_of [OF ex] split: if_splits)
    qed simp
    have old: "inside w x y" if "inside ?w x y" and "x \<noteq> ?i" for x y
      using that
    proof (induction rule: inside.induct)
      case (inside_step x m y)
      then have "container_of w x = Some m" and "m \<noteq> ?i"
        using no(2) [of x] by (auto simp: put_object_container_of [OF ex])
      with inside_step.IH show ?case by (auto intro: inside.inside_step)
    qed (rule inside_refl)
    show ?thesis
      unfolding containers_acyclic_def
    proof (intro allI impI notI)
      fix j m
      assume c: "container_of ?w j = Some m" and m: "inside ?w m j"
      show False
      proof (cases "j = ?i")
        case True
        with i_end [of m] m c k show False
          by (auto simp: put_object_container_of [OF ex] split: if_splits)
      next
        case False
        with c have "container_of w j = Some m" by (simp add: put_object_container_of [OF ex])
        moreover from this no(2) [of j] have "m \<noteq> ?i" by auto
        ultimately show False
          using old [OF m] well_heldD(2) [OF wh] by (auto simp: containers_acyclic_def)
      qed
    qed
  qed
  moreover have "locations_valid ?w"
    unfolding locations_valid_def
  proof (intro allI impI)
    fix j q
    assume "fmlookup (objects ?w) j = Some q"
    with put_object_location [OF ex, of j] loc well_held_location [OF wh, of j]
    show "ObjectLocation_Validate (Object_Location q) = None"
      by (cases "fmlookup (objects w) j") (auto split: if_splits)
  qed
  ultimately show ?thesis
    by (simp add: well_held_def)
qed

end
