(* ===== verification/Transfers.thy ===== *)
theory Transfers
  imports Moves
begin

text \<open>
  The operations that move one object between holders or change one object
  (\<^verbatim>\<open>room.go\<close> \<^verbatim>\<open>MoveObject\<close>; \<^verbatim>\<open>creature.go\<close> steal, store, take, destroy, consume; \<^verbatim>\<open>object.go\<close>
  tags, display name, properties), with the ownership properties each keeps. An operation takes
  the world and gives its Go results (an error or the non-error values) with the world after it.
\<close>

subsection \<open>Moving\<close>

definition markCreatureIDDirty :: "CreatureID \<Rightarrow> World \<Rightarrow> World" where
  "markCreatureIDDirty cid w =
     (if IsZero cid then w
      else case fmlookup (creatures w) cid of None \<Rightarrow> w | Some c \<Rightarrow> markCreaturePlayerDirty c w)"

definition markMoved :: "ObjectLocation \<Rightarrow> ObjectLocation \<Rightarrow> World \<Rightarrow> World" where
  "markMoved old new w =
     (let w = markCreatureIDDirty (Loc_CreatureID old) w;
          w = markCreatureIDDirty (Loc_CreatureID new) w;
          w = (if IsZero (Loc_BankID old) then w else MarkBankDirty (Loc_BankID old) w);
          w = (if IsZero (Loc_BankID new) then w else MarkBankDirty (Loc_BankID new) w);
          w = (if IsZero (Loc_RoomID old) then w else MarkRoomObjectsDirty (Loc_RoomID old) w)
      in if IsZero (Loc_RoomID new) then w else MarkRoomObjectsDirty (Loc_RoomID new) w)"

definition MoveObject :: "ObjectInstanceID \<Rightarrow> ObjectLocation \<Rightarrow> World \<Rightarrow> go_error option \<times> World" where
  "MoveObject objectID location w =
     (if IsZero objectID then (Some (Errorf ''move object: object id is required'' []), w)
      else case ObjectLocation_Validate location of
        Some err \<Rightarrow> (Some (Wrapf ''move object %q: location: %w'' [objectID] err), w)
      | None \<Rightarrow>
        (case fmlookup (objects w) objectID of
           None \<Rightarrow> (Some (Errorf ''move object %q: object not found'' [objectID]), w)
         | Some object \<Rightarrow>
           (case validateObjectDestination w objectID location of
              Some err \<Rightarrow> (Some err, w)
            | None \<Rightarrow>
              (case ObjectInstance_Validate (object\<lparr>Object_Location := location\<rparr>) of
                 Some err \<Rightarrow> (Some (Wrapf ''move object %q: %w'' [objectID] err), w)
               | None \<Rightarrow>
                 (None, markMoved (Object_Location object) location (relocate objectID object location w))))))"

definition MoveObjectToCreatureInventory :: "ObjectInstanceID \<Rightarrow> CreatureID \<Rightarrow> World \<Rightarrow> go_error option \<times> World" where
  "MoveObjectToCreatureInventory objectID creatureID w = MoveObject objectID (inventoryLocation creatureID) w"

definition MoveObjectToRoom :: "ObjectInstanceID \<Rightarrow> RoomID \<Rightarrow> World \<Rightarrow> go_error option \<times> World" where
  "MoveObjectToRoom objectID roomID w = MoveObject objectID (roomLocation roomID) w"

text \<open>In the inventory proper, not worn or wielded.\<close>

definition in_inventory :: "ObjectInstance \<Rightarrow> CreatureID \<Rightarrow> bool" where
  "in_inventory object creatureID \<longleftrightarrow>
     Loc_CreatureID (Object_Location object) = creatureID
     \<and> (Loc_Slot (Object_Location object) = [] \<or> Loc_Slot (Object_Location object) = ''inventory'')"

definition StealCreatureInventoryObject ::
  "ObjectInstanceID \<Rightarrow> CreatureID \<Rightarrow> CreatureID \<Rightarrow> World \<Rightarrow> bool result \<times> World" where
  "StealCreatureInventoryObject objectID fromCreatureID toCreatureID w =
     (if IsZero objectID then (Inl (Errorf ''steal object: object id is required'' []), w)
      else if IsZero fromCreatureID
      then (Inl (Errorf ''steal object %q: source creature id is required'' [objectID]), w)
      else if IsZero toCreatureID
      then (Inl (Errorf ''steal object %q: target creature id is required'' [objectID]), w)
      else if fromCreatureID = toCreatureID then (Inr False, w)
      else case fmlookup (objects w) objectID of
        None \<Rightarrow> (Inl (Errorf ''steal object %q: object not found'' [objectID]), w)
      | Some object \<Rightarrow>
          if fmlookup (creatures w) fromCreatureID = None
          then (Inl (Errorf ''steal object %q: source creature %q not found'' [objectID, fromCreatureID]), w)
          else if fmlookup (creatures w) toCreatureID = None
          then (Inl (Errorf ''steal object %q: target creature %q not found'' [objectID, toCreatureID]), w)
          else if \<not> in_inventory object fromCreatureID then (Inr False, w)
          else
            let location = inventoryLocation toCreatureID in
            (case validateObjectDestination w objectID location of
               Some err \<Rightarrow> (Inl err, w)
             | None \<Rightarrow>
               (case ObjectInstance_Validate (object\<lparr>Object_Location := location\<rparr>) of
                  Some err \<Rightarrow> (Inl (Wrapf ''steal object %q: %w'' [objectID] err), w)
                | None \<Rightarrow> (Inr True, relocate objectID object location w))))"

definition setObjectCount :: "ObjectInstanceID \<Rightarrow> int \<Rightarrow> World \<Rightarrow> World" where
  "setObjectCount k n w =
     (let container = mget zeroObject (objects w) k
      in w\<lparr>objects := fmupd k (container\<lparr>Object_Properties :=
             fmupd ''shotsCurrent'' (itoa n) (Object_Properties container)\<rparr>) (objects w)\<rparr>)"

definition markContainerRoom :: "ObjectInstanceID \<Rightarrow> World \<Rightarrow> World" where
  "markContainerRoom k w =
     (let room = Loc_RoomID (Object_Location (mget zeroObject (objects w) k))
      in if IsZero room then w else MarkRoomObjectsDirty room w)"

text \<open>The values are \<^verbatim>\<open>newCount\<close>, \<^verbatim>\<open>stored\<close> and \<^verbatim>\<open>full\<close>.\<close>

definition StoreCreatureInventoryObjectInContainer ::
  "ObjectInstanceID \<Rightarrow> CreatureID \<Rightarrow> ObjectInstanceID \<Rightarrow> int \<Rightarrow> World \<Rightarrow> (int \<times> bool \<times> bool) result \<times> World" where
  "StoreCreatureInventoryObjectInContainer objectID creatureID containerID maxCount w =
     (if IsZero objectID
      then (Inl (Errorf ''store object in container %q: object id is required'' [containerID]), w)
      else if IsZero creatureID
      then (Inl (Errorf ''store object %q in container %q: creature id is required'' [objectID, containerID]), w)
      else if IsZero containerID
      then (Inl (Errorf ''store object %q: container id is required'' [objectID]), w)
      else case fmlookup (objects w) objectID of
        None \<Rightarrow> (Inl (Errorf ''store object %q: object not found'' [objectID]), w)
      | Some object \<Rightarrow>
          if fmlookup (creatures w) creatureID = None
          then (Inl (Errorf ''store object %q: creature %q not found'' [objectID, creatureID]), w)
          else case fmlookup (objects w) containerID of
            None \<Rightarrow> (Inl (Errorf ''store object %q: container %q not found'' [objectID, containerID]), w)
          | Some container \<Rightarrow>
              let current = objectCountPropertyOrLen w container ''shotsCurrent'' in
              if 0 < maxCount \<and> maxCount \<le> current then (Inr (current, False, True), w)
              else if \<not> in_inventory object creatureID then (Inr (current, False, False), w)
              else
                let location = containerLocation containerID in
                (case validateObjectDestination w objectID location of
                   Some err \<Rightarrow> (Inl err, w)
                 | None \<Rightarrow>
                   (case ObjectInstance_Validate (object\<lparr>Object_Location := location\<rparr>) of
                      Some err \<Rightarrow> (Inl (Wrapf ''store object %q: %w'' [objectID] err), w)
                    | None \<Rightarrow>
                      let newCount = i64 (current + 1);
                          w = setObjectCount containerID newCount (relocate objectID object location w)
                      in (Inr (newCount, True, False), markContainerRoom containerID w))))"

text \<open>The values are \<^verbatim>\<open>newCount\<close> and \<^verbatim>\<open>taken\<close>.\<close>

definition TakeContainerObjectToCreatureInventory ::
  "ObjectInstanceID \<Rightarrow> ObjectInstanceID \<Rightarrow> CreatureID \<Rightarrow> World \<Rightarrow> (int \<times> bool) result \<times> World" where
  "TakeContainerObjectToCreatureInventory objectID containerID creatureID w =
     (if IsZero objectID
      then (Inl (Errorf ''take object from container %q: object id is required'' [containerID]), w)
      else if IsZero containerID
      then (Inl (Errorf ''take object %q: container id is required'' [objectID]), w)
      else if IsZero creatureID
      then (Inl (Errorf ''take object %q from container %q: creature id is required'' [objectID, containerID]), w)
      else case fmlookup (objects w) objectID of
        None \<Rightarrow> (Inl (Errorf ''take object %q: object not found'' [objectID]), w)
      | Some object \<Rightarrow>
          (case fmlookup (objects w) containerID of
             None \<Rightarrow> (Inl (Errorf ''take object %q: container %q not found'' [objectID, containerID]), w)
           | Some container \<Rightarrow>
               if fmlookup (creatures w) creatureID = None
               then (Inl (Errorf ''take object %q: creature %q not found'' [objectID, creatureID]), w)
               else
                 let current = objectCountPropertyOrLen w container ''shotsCurrent'' in
                 if Loc_ContainerID (Object_Location object) \<noteq> containerID then (Inr (current, False), w)
                 else
                   let location = inventoryLocation creatureID in
                   (case validateObjectDestination w objectID location of
                      Some err \<Rightarrow> (Inl err, w)
                    | None \<Rightarrow>
                      (case ObjectInstance_Validate (object\<lparr>Object_Location := location\<rparr>) of
                         Some err \<Rightarrow> (Inl (Wrapf ''take object %q: %w'' [objectID] err), w)
                       | None \<Rightarrow>
                         let newCount = (if 0 < current then current - 1 else 0);
                             w = setObjectCount containerID newCount (relocate objectID object location w)
                         in (Inr (newCount, True), markContainerRoom containerID w)))))"

subsection \<open>Deleting and changing one object\<close>

definition DestroyCreatureInventoryObject ::
  "ObjectInstanceID \<Rightarrow> CreatureID \<Rightarrow> World \<Rightarrow> bool result \<times> World" where
  "DestroyCreatureInventoryObject objectID creatureID w =
     (if IsZero objectID then (Inl (Errorf ''destroy object: object id is required'' []), w)
      else if IsZero creatureID
      then (Inl (Errorf ''destroy object %q: creature id is required'' [objectID]), w)
      else case fmlookup (objects w) objectID of
        None \<Rightarrow> (Inl (Errorf ''destroy object %q: object not found'' [objectID]), w)
      | Some object \<Rightarrow>
          (case fmlookup (creatures w) creatureID of
             None \<Rightarrow> (Inl (Errorf ''destroy object %q: creature %q not found'' [objectID, creatureID]), w)
           | Some creature \<Rightarrow>
               if \<not> in_inventory object creatureID then (Inr False, w)
               else (Inr True, markCreaturePlayerDirty creature
                                 (drop_object objectID (Object_Location object) w))))"

text \<open>The values are the updated object, \<^verbatim>\<open>deleted\<close> and \<^verbatim>\<open>consumed\<close>.\<close>

definition ConsumeCreatureObjectCharge ::
  "ObjectInstanceID \<Rightarrow> CreatureID \<Rightarrow> bool \<Rightarrow> World \<Rightarrow> (ObjectInstance \<times> bool \<times> bool) result \<times> World" where
  "ConsumeCreatureObjectCharge objectID creatureID deleteAtZero w =
     (if IsZero objectID then (Inl (Errorf ''consume object: object id is required'' []), w)
      else if IsZero creatureID
      then (Inl (Errorf ''consume object %q: creature id is required'' [objectID]), w)
      else case fmlookup (objects w) objectID of
        None \<Rightarrow> (Inl (Errorf ''consume object %q: object not found'' [objectID]), w)
      | Some object \<Rightarrow>
          if fmlookup (creatures w) creatureID = None
          then (Inl (Errorf ''consume object %q: creature %q not found'' [objectID, creatureID]), w)
          else if Loc_CreatureID (Object_Location object) \<noteq> creatureID then (Inr (object, False, False), w)
          else case objectIntProperty w object ''shotsCurrent'' of
            None \<Rightarrow> (Inr (object, False, False), w)
          | Some charges \<Rightarrow>
              if charges < 1 then (Inr (object, False, False), w)
              else
                let charges = charges - 1;
                    object' = object\<lparr>Object_Properties :=
                      fmupd ''shotsCurrent'' (itoa charges) (Object_Properties object)\<rparr>
                in if deleteAtZero \<and> charges < 1
                   then (Inr (zeroObject, True, True), drop_object objectID (Object_Location object) w)
                   else (Inr (object', False, True), w\<lparr>objects := fmupd objectID object' (objects w)\<rparr>))"

definition UpdateObjectTags ::
  "ObjectInstanceID \<Rightarrow> string list \<Rightarrow> string list \<Rightarrow> World \<Rightarrow> ObjectInstance result \<times> World" where
  "UpdateObjectTags objectID add remove w =
     (if IsZero objectID then (Inl (Errorf ''update object tags: object id is required'' []), w)
      else case fmlookup (objects w) objectID of
        None \<Rightarrow> (Inl (Errorf ''update object %q tags: object not found'' [objectID]), w)
      | Some object \<Rightarrow>
          let meta = Object_Metadata object;
              object' = object\<lparr>Object_Metadata :=
                meta\<lparr>Meta_Tags := addMetadataTags (removeMetadataTags (Meta_Tags meta) remove) add\<rparr>\<rparr>
          in (Inr object', w\<lparr>objects := fmupd objectID object' (objects w)\<rparr>))"

definition SetObjectDisplayName :: "ObjectInstanceID \<Rightarrow> string \<Rightarrow> World \<Rightarrow> ObjectInstance result \<times> World" where
  "SetObjectDisplayName objectID name w =
     (if IsZero objectID then (Inl (Errorf ''set object display name: object id is required'' []), w)
      else case fmlookup (objects w) objectID of
        None \<Rightarrow> (Inl (Errorf ''set object %q display name: object not found'' [objectID]), w)
      | Some object \<Rightarrow>
          let object' = object\<lparr>Object_DisplayNameOverride := name\<rparr>
          in (Inr object', w\<lparr>objects := fmupd objectID object' (objects w)\<rparr>))"

definition SetObjectProperty ::
  "ObjectInstanceID \<Rightarrow> string \<Rightarrow> string \<Rightarrow> World \<Rightarrow> ObjectInstance result \<times> World" where
  "SetObjectProperty objectID key value w =
     (if IsZero objectID then (Inl (Errorf ''set object property %q: object id is required'' [key]), w)
      else let key = trimSpace key in
        if key = [] then (Inl (Errorf ''set object %q property: key is required'' [objectID]), w)
        else case fmlookup (objects w) objectID of
          None \<Rightarrow> (Inl (Errorf ''set object %q property %q: object not found'' [objectID, key]), w)
        | Some object \<Rightarrow>
            let props = Object_Properties object;
                object' = object\<lparr>Object_Properties :=
                  if value = [] then fmdrop key props else fmupd key value props\<rparr>
            in (Inr object', w\<lparr>objects := fmupd objectID object' (objects w)\<rparr>))"

definition UpdateObjectInstance :: "ObjectInstance \<Rightarrow> World \<Rightarrow> World" where
  "UpdateObjectInstance object w = w\<lparr>objects := fmupd (Object_ID object) object (objects w)\<rparr>"

subsection \<open>Frames\<close>

lemma where_is_markMoved [simp]: "where_is (markMoved old new w) = where_is w"
  by (rule ext) (simp add: markMoved_def markCreatureIDDirty_def Let_def split: option.split)

lemma well_held_markMoved [simp]: "well_held (markMoved old new w) = well_held w"
  by (simp add: markMoved_def markCreatureIDDirty_def Let_def split: option.split)

lemma objects_markMoved [simp]: "objects (markMoved old new w) = objects w"
  and prototypes_markMoved [simp]: "prototypes (markMoved old new w) = prototypes w"
  by (simp_all add: markMoved_def markCreatureIDDirty_def Let_def split: option.split)

lemma refs_markMoved [simp]: "refs (markMoved old new w) h = refs w h"
  by (simp add: markMoved_def markCreatureIDDirty_def Let_def split: option.split)

lemma where_is_markContainerRoom [simp]: "where_is (markContainerRoom k w) = where_is w"
  and well_held_markContainerRoom [simp]: "well_held (markContainerRoom k w) = well_held w"
  and objects_markContainerRoom [simp]: "objects (markContainerRoom k w) = objects w"
  by (simp_all add: markContainerRoom_def Let_def fun_eq_iff)

lemma well_held_setObjectCount:
  "fmlookup (objects w) k = Some c \<Longrightarrow> well_held (setObjectCount k n w) = well_held w"
  unfolding setObjectCount_def Let_def by (rule well_held_object_upd) (simp_all add: mget_def)

lemma where_is_setObjectCount:
  "fmlookup (objects w) k = Some c \<Longrightarrow> where_is (setObjectCount k n w) = where_is w"
  by (auto simp: setObjectCount_def Let_def where_is_def fun_eq_iff mget_def)

lemma objectCount_setObjectCount:
  "fmlookup (objects (setObjectCount k n w)) k =
     Some ((mget zeroObject (objects w) k)\<lparr>Object_Properties :=
             fmupd ''shotsCurrent'' (itoa n) (Object_Properties (mget zeroObject (objects w) k))\<rparr>)"
  by (simp add: setObjectCount_def Let_def)

lemma markCreatureIDDirty_playerDirty:
  "creatures (markCreatureIDDirty cid w) = creatures w" "clock (markCreatureIDDirty cid w) = clock w"
  "fmlookup (playerDirty (markCreatureIDDirty cid w)) q =
     (if cid \<noteq> [] \<and> q \<noteq> [] \<and> (\<exists>c. fmlookup (creatures w) cid = Some c \<and> Creature_PlayerID c = q)
      then Some (clock w) else fmlookup (playerDirty w) q)"
  by (auto simp: markCreatureIDDirty_def markCreaturePlayerDirty_eq playerDirty_Mark split: option.splits)

subsection \<open>The effect of a move\<close>

lemma MoveObject_cases:
  assumes "MoveObject i l w = (r, w')"
  obtains err where "r = Some err" and "w' = w"
  | p where "r = None" and "i \<noteq> []" and "ObjectLocation_Validate l = None"
      and "fmlookup (objects w) i = Some p" and "validateObjectDestination w i l = None"
      and "ObjectInstance_Validate (p\<lparr>Object_Location := l\<rparr>) = None"
      and "w' = markMoved (Object_Location p) l (relocate i p l w)"
proof (cases r)
  case None
  with assms that(2) show ?thesis
    by (auto simp: MoveObject_def split: if_splits option.splits)
next
  case (Some err)
  with assms have "w' = w"
    by (auto simp: MoveObject_def split: if_splits option.splits)
  with Some that(1) show ?thesis by blast
qed

text \<open>C3. A successful \<^verbatim>\<open>MoveObject\<close> implements the update of one entry in the map from objects to
  their holders, and keeps the ownership invariant: lists and locations agree, each object is
  on exactly one list, locations are valid and no container is inside itself.\<close>

theorem MoveObject_refines:
  assumes "well_held w" and "MoveObject i l w = (None, w')"
  shows "well_held w' \<and> where_is w' = (where_is w)(i \<mapsto> holderOf l)"
  using assms(2)
proof (cases rule: MoveObject_cases)
  case (2 p)
  with assms(1) well_held_relocate [of w i p l] show ?thesis by simp
qed simp

text \<open>C15. \<^verbatim>\<open>MoveObject\<close> succeeds exactly when the id is given, the location is valid, the object
  exists and stays valid there, its new holder exists, and that holder is not the object itself
  or something inside it; when it fails the world is unchanged.\<close>

theorem MoveObject_succeeds_iff:
  "(fst (MoveObject i l w) = None \<longleftrightarrow>
      i \<noteq> [] \<and> ObjectLocation_Validate l = None
      \<and> (\<exists>p. fmlookup (objects w) i = Some p \<and> ObjectInstance_Validate (p\<lparr>Object_Location := l\<rparr>) = None)
      \<and> holder_exists w (holderOf l) \<and> \<not> (\<exists>k. holderOf l = InObject k \<and> inside w k i))
   \<and> (fst (MoveObject i l w) = None \<or> snd (MoveObject i l w) = w)"
proof (cases "i \<noteq> [] \<and> ObjectLocation_Validate l = None")
  case True
  with validateObjectDestination_None [of l i w] show ?thesis
    by (auto simp: MoveObject_def split: option.splits)
next
  case False
  then show ?thesis
    by (auto simp: MoveObject_def split: option.splits)
qed

text \<open>A move keeps every holder's list ordered by name and adjustment, the order in which
  objects are shown and addressed by number.\<close>

theorem MoveObject_sorted:
  assumes "well_held w" and "MoveObject i l w = (r, w')"
    and "\<And>h. sorted (map (objectLegacyKey w) (refs w h))"
  shows "sorted (map (objectLegacyKey w') (refs w' h))"
  using assms(2)
proof (cases rule: MoveObject_cases)
  case (1 err)
  with assms(3) show ?thesis by simp
next
  case (2 p)
  then have ex: "holder_exists w (holderOf l)"
    by (simp add: validateObjectDestination_None)
  have "same_cores w' w"
    using relocate_same_cores [OF 2(4) ex] 2(7) by (simp add: same_cores_def)
  then have k: "objectLegacyKey w' = objectLegacyKey w"
    by (intro ext objectLegacyKey_core)
  have o: "holderOf (Object_Location p) \<noteq> InObject i"
    using assms(1) 2(4) by (rule well_held_own)
  define r where "r = (if h = holderOf (Object_Location p) then removeID (refs w h) i else refs w h)"
  have "refs w' h = (if h = holderOf l \<and> h \<noteq> Nowhere then insertObjectIDLegacySorted w r i else r)"
    by (simp only: 2(7) refs_markMoved relocate_refs [OF 2(4) ex o] Let_def r_def)
  moreover have "sorted (map (objectLegacyKey w) r)"
    using assms(3) by (simp add: r_def objrefs.sorted_del)
  ultimately show ?thesis
    by (simp add: k objrefs.sorted_ins)
qed

lemma relocate_owner:
  assumes "holder_exists w (holderOf l)"
  shows "map_option Creature_PlayerID (fmlookup (creatures (relocate i p l w)) c)
     = map_option Creature_PlayerID (fmlookup (creatures w) c)"
proof -
  have r: "map_option Creature_PlayerID (fmlookup (creatures (removeObjectFromHolder i m w)) c)
     = map_option Creature_PlayerID (fmlookup (creatures w) c)" for m
    by (auto simp: removeObjectFromHolder_def split: option.split)
  have a: "map_option Creature_PlayerID (fmlookup (creatures (addObjectToHolder i l v)) c)
     = map_option Creature_PlayerID (fmlookup (creatures v) c)" if "holder_exists v (holderOf l)" for v
    using that
    by (auto simp: addObjectToHolder_def Let_def holderOf_def holder_exists_def mget_def split: if_splits)
  have "holder_exists ((removeObjectFromHolder i m w)\<lparr>objects := fmupd i q (objects (removeObjectFromHolder i m w))\<rparr>) (holderOf l)"
    for m q
    using assms holder_exists_remove [of i m w "holderOf l"]
    by (cases "holderOf l") (auto simp: holder_exists_def simp del: holder_exists_remove)
  then show ?thesis
    by (simp add: relocate_def Let_def a r)
qed

lemma markMoved_marks:
  assumes "x \<in> {old, new}"
  shows "Loc_CreatureID x \<noteq> [] \<Longrightarrow> fmlookup (creatures w) (Loc_CreatureID x) = Some c \<Longrightarrow> Creature_PlayerID c \<noteq> []
       \<Longrightarrow> fmlookup (playerDirty (markMoved old new w)) (Creature_PlayerID c) = Some (clock w)"
    and "Loc_RoomID x \<noteq> [] \<Longrightarrow> fmlookup (roomObjectDirty (markMoved old new w)) (Loc_RoomID x) = Some (clock w)"
    and "Loc_BankID x \<noteq> [] \<Longrightarrow> fmlookup (bankDirty (markMoved old new w)) (Loc_BankID x) = Some (clock w)"
  using assms
  by (auto simp: markMoved_def Let_def markCreatureIDDirty_playerDirty roomObjectDirty_Mark bankDirty_Mark)

text \<open>After a move the player of the old and of the new holding creature are marked for
  saving at the current time, and so are the old and new room and the old and new bank.\<close>

theorem MoveObject_marks_dirty:
  assumes "MoveObject i l w = (None, w')" and "fmlookup (objects w) i = Some p"
    and "x \<in> {Object_Location p, l}"
  shows "(\<forall>c. Loc_CreatureID x \<noteq> [] \<and> fmlookup (creatures w) (Loc_CreatureID x) = Some c \<and> Creature_PlayerID c \<noteq> []
            \<longrightarrow> fmlookup (playerDirty w') (Creature_PlayerID c) = Some (clock w))
     \<and> (Loc_RoomID x \<noteq> [] \<longrightarrow> fmlookup (roomObjectDirty w') (Loc_RoomID x) = Some (clock w))
     \<and> (Loc_BankID x \<noteq> [] \<longrightarrow> fmlookup (bankDirty w') (Loc_BankID x) = Some (clock w))"
  using assms(1)
proof (cases rule: MoveObject_cases)
  case (2 q)
  with assms(2) have [simp]: "q = p" by simp
  from 2 have ex: "holder_exists w (holderOf l)"
    by (simp add: validateObjectDestination_None)
  let ?w = "relocate i p l w"
  show ?thesis
  proof (intro conjI allI impI)
    fix c
    assume c: "Loc_CreatureID x \<noteq> [] \<and> fmlookup (creatures w) (Loc_CreatureID x) = Some c \<and> Creature_PlayerID c \<noteq> []"
    with relocate_owner [OF ex, of i p "Loc_CreatureID x"]
    obtain d where "fmlookup (creatures ?w) (Loc_CreatureID x) = Some d" and "Creature_PlayerID d = Creature_PlayerID c"
      by auto
    with c markMoved_marks(1) [OF assms(3), of ?w d] 2(7)
    show "fmlookup (playerDirty w') (Creature_PlayerID c) = Some (clock w)" by simp
  qed (use markMoved_marks(2,3) [OF assms(3), of ?w] 2(7) in simp_all)
qed simp

subsection \<open>Stealing, storing and taking\<close>

lemma ObjectLocation_creature:
  "ObjectLocation_Validate l = None \<Longrightarrow> holderOf l = OnCreature c \<longleftrightarrow> Loc_CreatureID l = c \<and> c \<noteq> []"
  by (auto simp: ObjectLocation_Validate_fields holder_fields_def holderOf_def split: if_splits)

lemma where_is_creature:
  "well_held w \<Longrightarrow> fmlookup (objects w) i = Some p \<Longrightarrow> Loc_CreatureID (Object_Location p) = c \<Longrightarrow> c \<noteq> []
     \<Longrightarrow> where_is w i = Some (OnCreature c)"
  by (simp add: where_is_def ObjectLocation_creature well_held_location)

lemma where_is_container:
  "well_held w \<Longrightarrow> fmlookup (objects w) i = Some p \<Longrightarrow> Loc_ContainerID (Object_Location p) = k \<Longrightarrow> k \<noteq> []
     \<Longrightarrow> where_is w i = Some (InObject k)"
  by (simp add: where_is_def ObjectLocation_container well_held_location)

lemma Steal_cases:
  assumes "StealCreatureInventoryObject i a b w = (r, w')"
  shows "(r \<noteq> Inr True \<and> w' = w)
    \<or> (\<exists>p. r = Inr True \<and> i \<noteq> [] \<and> a \<noteq> [] \<and> b \<noteq> [] \<and> a \<noteq> b \<and> fmlookup (objects w) i = Some p
         \<and> in_inventory p a \<and> validateObjectDestination w i (inventoryLocation b) = None
         \<and> w' = relocate i p (inventoryLocation b) w)"
  using assms unfolding StealCreatureInventoryObject_def Let_def
  by (simp split: if_split_asm option.split_asm) blast+

text \<open>Stealing moves an object only if it is in the source creature's inventory at that moment,
  to the target creature, and keeps the ownership invariant; in every other case, errors
  included, the world is unchanged.\<close>

theorem Steal_refines:
  assumes "well_held w" and "StealCreatureInventoryObject i a b w = (r, w')"
  shows "if r = Inr True
         then well_held w' \<and> where_is w i = Some (OnCreature a) \<and> where_is w' = (where_is w)(i \<mapsto> OnCreature b)
         else w' = w"
  using Steal_cases [OF assms(2)]
proof (elim disjE exE conjE)
  fix p
  assume "r = Inr True" and "i \<noteq> []" and "a \<noteq> []" and "b \<noteq> []" and "fmlookup (objects w) i = Some p"
    and "in_inventory p a" and "validateObjectDestination w i (inventoryLocation b) = None"
    and "w' = relocate i p (inventoryLocation b) w"
  with assms(1) well_held_relocate [of w i p "inventoryLocation b"] where_is_creature [of w i p a] show ?thesis
    by (simp add: in_inventory_def)
qed simp

lemma Store_cases:
  assumes "StoreCreatureInventoryObjectInContainer i c k m w = (r, w')"
  shows "((\<forall>n. r \<noteq> Inr (n, True, False)) \<and> w' = w)
    \<or> (\<exists>p q. let n = objectCountPropertyOrLen w q ''shotsCurrent'' in
         r = Inr (i64 (n + 1), True, False)
         \<and> i \<noteq> [] \<and> c \<noteq> [] \<and> k \<noteq> [] \<and> fmlookup (objects w) i = Some p \<and> fmlookup (objects w) k = Some q
         \<and> in_inventory p c \<and> (0 < m \<longrightarrow> n < m)
         \<and> validateObjectDestination w i (containerLocation k) = None
         \<and> ObjectInstance_Validate (p\<lparr>Object_Location := containerLocation k\<rparr>) = None
         \<and> w' = markContainerRoom k (setObjectCount k (i64 (n + 1)) (relocate i p (containerLocation k) w)))"
  using assms unfolding StoreCreatureInventoryObjectInContainer_def Let_def
  by (simp split: if_split_asm option.split_asm) (auto simp: not_le not_less)

lemma relocate_exists:
  "fmlookup (objects w) j = Some q \<Longrightarrow> \<exists>q'. fmlookup (objects (relocate i p l w)) j = Some q'"
  by (auto simp: relocate_def Let_def lookup_add_objects lookup_remove_objects)

lemma relocate_holder_exists: "holder_exists w h \<Longrightarrow> holder_exists (relocate i p l w) h"
proof -
  assume "holder_exists w h"
  then have "holder_exists (removeObjectFromHolder i (Object_Location p) w) h" by simp
  then have "holder_exists ((removeObjectFromHolder i (Object_Location p) w)\<lparr>objects :=
      fmupd i (p\<lparr>Object_Location := l\<rparr>) (objects (removeObjectFromHolder i (Object_Location p) w))\<rparr>) h"
    by (cases h) (auto simp: holder_exists_def)
  then show ?thesis by (simp add: relocate_def Let_def)
qed

lemma holder_exists_count:
  "holder_exists w h \<Longrightarrow> holder_exists (markContainerRoom k (setObjectCount k n w)) h"
  by (cases h) (auto simp: holder_exists_def markContainerRoom_def setObjectCount_def Let_def)

lemma objectCountPropertyOrLen_nonneg: "0 \<le> objectCountPropertyOrLen w q k"
  by (simp add: objectCountPropertyOrLen_def split: option.split)

text \<open>Storing puts an object of the creature's inventory into the container, never into itself or
  something inside it and never beyond a positive limit, writes the new count on the container,
  and keeps the ownership invariant; in every other case the world is unchanged.\<close>

theorem Store_refines:
  assumes "well_held w" and "StoreCreatureInventoryObjectInContainer i c k m w = (r, w')"
  shows "if \<exists>n. r = Inr (n, True, False)
         then well_held w' \<and> where_is w i = Some (OnCreature c) \<and> \<not> inside w k i
              \<and> where_is w' = (where_is w)(i \<mapsto> InObject k)
              \<and> (\<exists>n q. r = Inr (n, True, False) \<and> (0 < m \<and> in_i64 m \<longrightarrow> n \<le> m) \<and> fmlookup (objects w') k = Some q
                     \<and> mget [] (Object_Properties q) ''shotsCurrent'' = itoa n)
         else w' = w"
  using Store_cases [OF assms(2)] unfolding Let_def
proof (elim disjE exE conjE)
  fix p q
  let ?n = "objectCountPropertyOrLen w q ''shotsCurrent''"
  assume r: "r = Inr (i64 (?n + 1), True, False)" and i: "i \<noteq> []" and c: "c \<noteq> []" and k: "k \<noteq> []"
    and p: "fmlookup (objects w) i = Some p" and q: "fmlookup (objects w) k = Some q" and inv: "in_inventory p c"
    and m: "0 < m \<longrightarrow> ?n < m" and d: "validateObjectDestination w i (containerLocation k) = None"
    and w': "w' = markContainerRoom k (setObjectCount k (i64 (?n + 1)) (relocate i p (containerLocation k) w))"
  have l: "ObjectLocation_Validate (containerLocation k) = None" using k by simp
  obtain q' where q': "fmlookup (objects (relocate i p (containerLocation k) w)) k = Some q'"
    using relocate_exists [OF q] by blast
  have "in_i64 (?n + 1)" if "0 < m" "in_i64 m"
    using m that objectCountPropertyOrLen_nonneg [of w q "''shotsCurrent''"] by (auto simp: in_i64_def)
  then have "0 < m \<and> in_i64 m \<longrightarrow> i64 (?n + 1) \<le> m" using m by auto
  moreover have "\<not> inside w k i" using d i l k by (simp add: validateObjectDestination_None)
  moreover have "where_is w i = Some (OnCreature c)"
    using assms(1) p c inv by (intro where_is_creature) (auto simp: in_inventory_def)
  ultimately show ?thesis
    using r w' k well_held_relocate [OF assms(1) p i l d]
    by (simp add: well_held_setObjectCount [OF q'] where_is_setObjectCount [OF q'] objectCount_setObjectCount)
qed simp

lemma Take_cases:
  assumes "TakeContainerObjectToCreatureInventory i k c w = (r, w')"
  shows "((\<forall>n. r \<noteq> Inr (n, True)) \<and> w' = w)
    \<or> (\<exists>p q. let n = objectCountPropertyOrLen w q ''shotsCurrent''; n' = (if 0 < n then n - 1 else 0) in
         r = Inr (n', True)
         \<and> i \<noteq> [] \<and> c \<noteq> [] \<and> k \<noteq> [] \<and> fmlookup (objects w) i = Some p \<and> fmlookup (objects w) k = Some q
         \<and> Loc_ContainerID (Object_Location p) = k
         \<and> validateObjectDestination w i (inventoryLocation c) = None
         \<and> w' = markContainerRoom k (setObjectCount k n' (relocate i p (inventoryLocation c) w)))"
  using assms unfolding TakeContainerObjectToCreatureInventory_def Let_def
  by (simp split: if_split_asm option.split_asm) auto

text \<open>Taking moves a direct child of the container into the creature's inventory and keeps the
  ownership invariant; in every other case the world is unchanged.\<close>

theorem Take_refines:
  assumes "well_held w" and "TakeContainerObjectToCreatureInventory i k c w = (r, w')"
  shows "if \<exists>n. r = Inr (n, True)
         then well_held w' \<and> where_is w i = Some (InObject k) \<and> where_is w' = (where_is w)(i \<mapsto> OnCreature c)
         else w' = w"
  using Take_cases [OF assms(2)] unfolding Let_def
proof (elim disjE exE conjE)
  fix p q
  let ?n = "objectCountPropertyOrLen w q ''shotsCurrent''" and ?l = "inventoryLocation c"
  assume r: "r = Inr (if 0 < ?n then ?n - 1 else 0, True)" and i: "i \<noteq> []" and c: "c \<noteq> []" and k: "k \<noteq> []"
    and p: "fmlookup (objects w) i = Some p" and q: "fmlookup (objects w) k = Some q"
    and inv: "Loc_ContainerID (Object_Location p) = k" and d: "validateObjectDestination w i ?l = None"
    and w': "w' = markContainerRoom k (setObjectCount k (if 0 < ?n then ?n - 1 else 0) (relocate i p ?l w))"
  obtain q' where q': "fmlookup (objects (relocate i p ?l w)) k = Some q'"
    using relocate_exists [OF q] by blast
  have "where_is w i = Some (InObject k)"
    using assms(1) p inv k by (rule where_is_container)
  then show ?thesis
    using r w' c well_held_relocate [OF assms(1) p i _ d]
    by (simp add: well_held_setObjectCount [OF q'] where_is_setObjectCount [OF q'])
qed simp

lemma setObjectCount_count:
  assumes "in_i64 n" and "0 \<le> n" and "fmlookup (objects w) k \<noteq> None"
  shows "\<exists>q. fmlookup (objects (markContainerRoom k (setObjectCount k n w))) k = Some q
     \<and> (\<forall>v. objectCountPropertyOrLen v q ''shotsCurrent'' = n)"
  using assms by (auto simp: setObjectCount_def Let_def objectCountPropertyOrLen_def objectIntProperty_def)

text \<open>C12. An object a creature carries can be stored in a container that is not inside it and not full, and taken out again.
  The store returns the count of the container plus one, and this is its count afterwards; the object is then in the
  container, and nothing else has moved.  Taking it out returns exactly the count before the store, and this is the
  count of the container again; the object is on the creature again, and nothing else has moved.  (The object is valid
  in the container, its id is not empty, and the count plus one fits the machine integer.)\<close>

theorem Store_Take_roundtrip:
  assumes wh: "well_held w" and p: "fmlookup (objects w) i = Some p" and q: "fmlookup (objects w) k = Some q"
    and ids: "i \<noteq> []" "c \<noteq> []" "k \<noteq> []" and inv: "in_inventory p c" and out: "\<not> inside w k i"
    and v: "ObjectInstance_Validate (p\<lparr>Object_Location := containerLocation k\<rparr>) = None"
    and n: "n = objectCountPropertyOrLen w q ''shotsCurrent''" and fits: "in_i64 (n + 1)" and full: "0 < m \<longrightarrow> n < m"
  shows "\<exists>w1 q1 w2 q2.
     StoreCreatureInventoryObjectInContainer i c k m w = (Inr (n + 1, True, False), w1)
     \<and> well_held w1 \<and> where_is w1 = (where_is w)(i \<mapsto> InObject k)
     \<and> fmlookup (objects w1) k = Some q1 \<and> objectCountPropertyOrLen w1 q1 ''shotsCurrent'' = n + 1
     \<and> TakeContainerObjectToCreatureInventory i k c w1 = (Inr (n, True), w2)
     \<and> well_held w2 \<and> where_is w2 = where_is w
     \<and> fmlookup (objects w2) k = Some q2 \<and> objectCountPropertyOrLen w2 q2 ''shotsCurrent'' = n"
proof -
  have at: "where_is w i = Some (OnCreature c)"
    using wh p inv ids by (intro where_is_creature) (auto simp: in_inventory_def)
  then have "holder_exists w (OnCreature c)"
    using holders_agree_exists [OF well_heldD(1) [OF wh]] by blast
  have d: "validateObjectDestination w i (containerLocation k) = None"
    using ids q out by (simp add: validateObjectDestination_None holder_exists_def)
  have l: "ObjectLocation_Validate (containerLocation k) = None" and ki: "k \<noteq> i"
    using ids out by (auto intro: inside_refl)
  have n0: "0 \<le> n"
    using n objectCountPropertyOrLen_nonneg by simp
  let ?w = "relocate i p (containerLocation k) w"
  define w1 where w1: "w1 = markContainerRoom k (setObjectCount k (n + 1) ?w)"
  obtain q' where q': "fmlookup (objects ?w) k = Some q'"
    using relocate_exists [OF q] by blast
  have s: "StoreCreatureInventoryObjectInContainer i c k m w = (Inr (n + 1, True, False), w1)"
    using ids p q inv d v n fits full \<open>holder_exists w (OnCreature c)\<close>
    by (auto simp: StoreCreatureInventoryObjectInContainer_def Let_def w1 holder_exists_def)
  have wh1: "well_held w1" and at1: "where_is w1 = (where_is w)(i \<mapsto> InObject k)"
    using w1 ids well_held_relocate [OF wh p _ l d]
    by (simp_all add: well_held_setObjectCount [OF q'] where_is_setObjectCount [OF q'])
  have li: "fmlookup (objects w1) i = Some (p\<lparr>Object_Location := containerLocation k\<rparr>)"
    using ki ids by (simp add: w1 setObjectCount_def Let_def relocate_lookup)
  obtain q1 where q1: "fmlookup (objects w1) k = Some q1" "objectCountPropertyOrLen w1 q1 ''shotsCurrent'' = n + 1"
    unfolding w1 using setObjectCount_count [OF fits, of ?w k] n0 q' by auto
  have ce: "holder_exists w1 (OnCreature c)"
    using \<open>holder_exists w (OnCreature c)\<close> by (simp add: w1 holder_exists_count relocate_holder_exists)
  have d2: "validateObjectDestination w1 i (inventoryLocation c) = None"
    using ce ids by (simp add: validateObjectDestination_None)
  have v2: "ObjectInstance_Validate (p\<lparr>Object_Location := inventoryLocation c\<rparr>) = None"
    using v ids by (simp add: ObjectInstance_Validate_None) (simp add: holder_fields_def location_defs)
  let ?w' = "relocate i (p\<lparr>Object_Location := containerLocation k\<rparr>) (inventoryLocation c) w1"
  define w2 where w2: "w2 = markContainerRoom k (setObjectCount k n ?w')"
  have t: "TakeContainerObjectToCreatureInventory i k c w1 = (Inr (n, True), w2)"
    using ids li q1 ce n0 d2 v2
    by (auto simp: TakeContainerObjectToCreatureInventory_def Let_def holder_exists_def location_defs w2)
  have "in_i64 n"
    using fits n0 by (simp add: in_i64_def)
  then obtain q2 where "fmlookup (objects w2) k = Some q2" "objectCountPropertyOrLen w2 q2 ''shotsCurrent'' = n"
    unfolding w2 using setObjectCount_count [of n ?w' k] n0 relocate_exists [OF q1(1)] by force
  with s wh1 at1 q1 t Take_refines [OF wh1 t] at show ?thesis
    by (auto simp: fun_upd_idem)
qed

text \<open>Destroying a carried object without contents removes it from the holder map and keeps the
  ownership invariant.\<close>

theorem Destroy_leaf:
  assumes "well_held w" and "DestroyCreatureInventoryObject i c w = (Inr True, w')"
    and "refs w (InObject i) = []"
  shows "well_held w' \<and> where_is w' = (where_is w)(i := None) \<and> fmlookup (objects w') i = None"
proof -
  from assms(2) obtain p q where p: "fmlookup (objects w) i = Some p"
    and w': "w' = markCreaturePlayerDirty q (drop_object i (Object_Location p) w)"
    by (auto simp: DestroyCreatureInventoryObject_def split: if_splits option.splits)
  moreover from p assms(3) have "ObjectIDs (Object_Contents p) = []"
    by (simp add: refs_def)
  ultimately show ?thesis
    using well_held_drop [OF assms(1) p] by (simp add: drop_object_where_is fun_eq_iff drop_object_lookup)
qed

text \<open>Destroying a carried object that has contents leaves each thing inside it located in an object
  that no longer exists, and on nobody's list: the ownership invariant is lost.\<close>

theorem Destroy_orphans_contents:
  assumes "well_held w" and "DestroyCreatureInventoryObject i c w = (Inr True, w')"
    and "j \<in> set (refs w (InObject i))"
  shows "where_is w' j = Some (InObject i) \<and> fmlookup (objects w') i = None \<and> (\<forall>h. j \<notin> set (refs w' h))
         \<and> \<not> well_held w'"
proof -
  from assms(2) obtain p q where p: "fmlookup (objects w) i = Some p"
    and w': "w' = markCreaturePlayerDirty q (drop_object i (Object_Location p) w)"
    by (auto simp: DestroyCreatureInventoryObject_def split: if_splits option.splits)
  note ag = holders_agree_iff [OF well_heldD(1) [OF assms(1)]]
  have j: "where_is w j = Some (InObject i)"
    using assms(3) ag by blast
  with p well_held_own [OF assms(1) p] have ji: "j \<noteq> i"
    by (auto simp: where_is_def)
  have at: "where_is w' j = Some (InObject i)" and none: "fmlookup (objects w') i = None"
    using j ji by (simp_all add: w' drop_object_where_is drop_object_lookup)
  moreover have "j \<notin> set (refs w' h)" for h
    using ag [of j h] j by (auto simp: w' drop_object_refs objrefs.set_del)
  moreover have "\<not> well_held w'"
    using well_held_no_children(1) [of w' i j] at none by blast
  ultimately show ?thesis by blast
qed

subsection \<open>A concrete world\<close>

text \<open>
  Two rooms, a player's creature, a monster, and on the creature a bag and a sword: the input on
  which the properties of this theory and of later ones are applied.
\<close>

lemma well_held_no_objects:
  assumes "objects w = fmempty" and "\<And>h. refs w h = []"
  shows "well_held w"
proof -
  have "where_is w i = None" and "container_of w i = None" for i
    using assms(1) by (simp_all add: where_is_def container_of_def)
  then show ?thesis
    using assms by (simp add: well_held_def holders_agree_def containers_acyclic_def locations_valid_def)
qed

definition demoBase :: World where
  "demoBase = emptyWorld
     \<lparr>rooms := fmap_of_list
        [(''r1'', zeroRoom\<lparr>Room_ID := ''r1'', Room_DisplayName := ''hall''\<rparr>),
         (''r2'', zeroRoom\<lparr>Room_ID := ''r2'', Room_DisplayName := ''yard''\<rparr>)],
      creatures := fmap_of_list
        [(''c1'', zeroCreature\<lparr>Creature_ID := ''c1'', Creature_Kind := ''player'', Creature_DisplayName := ''ann'',
             Creature_PlayerID := ''p1'', Creature_RoomID := ''r1'', Creature_Stats := fmap_of_list [(''gold'', 100)]\<rparr>),
         (''c2'', zeroCreature\<lparr>Creature_ID := ''c2'', Creature_Kind := ''monster'', Creature_DisplayName := ''rat'',
             Creature_RoomID := ''r1'', Creature_Stats := fmap_of_list [(''gold'', 7)]\<rparr>)],
      clock := 5\<rparr>"

definition demoBag :: ObjectInstance where
  "demoBag = zeroObject\<lparr>Object_ID := ''bag'', Object_PrototypeID := ''pb'', Object_DisplayNameOverride := ''bag'',
     Object_Quantity := 1, Object_Location := inventoryLocation ''c1''\<rparr>"

definition demoSword :: ObjectInstance where
  "demoSword = zeroObject\<lparr>Object_ID := ''sword'', Object_PrototypeID := ''ps'', Object_DisplayNameOverride := ''sword'',
     Object_Quantity := 1, Object_Location := inventoryLocation ''c1''\<rparr>"

definition demoWorld :: World where
  "demoWorld = put_object demoSword (put_object demoBag demoBase)"

lemma well_held_demoBase: "well_held demoBase"
proof (rule well_held_no_objects)
  show "objects demoBase = fmempty"
    by (simp add: demoBase_def emptyWorld_def)
  show "refs demoBase h = []" for h
    by (cases h) (auto simp: refs_def demoBase_def emptyWorld_def fmlookup_of_list zeroRoom_def zeroCreature_def
        split: option.splits if_splits)
qed

lemma well_held_demoWorld: "well_held demoWorld"
proof -
  have b: "well_held (put_object demoBag demoBase)"
    by (rule well_held_put [OF well_held_demoBase]; code_simp)
  show ?thesis
    unfolding demoWorld_def by (rule well_held_put [OF b]; code_simp)
qed

definition demoStored :: World where
  "demoStored = snd (StoreCreatureInventoryObjectInContainer ''sword'' ''c1'' ''bag'' 3 demoWorld)"

lemma demoStored_run:
  "StoreCreatureInventoryObjectInContainer ''sword'' ''c1'' ''bag'' 3 demoWorld = (Inr (1, True, False), demoStored)"
  unfolding demoStored_def by (rule run_eq) code_simp

lemma refs_demoWorld: "refs demoWorld h = (if h = OnCreature ''c1'' then [''bag'', ''sword''] else [])"
proof -
  have e: "refs demoBase h' = []" for h'
    by (cases h') (auto simp: refs_def demoBase_def emptyWorld_def fmlookup_of_list zeroRoom_def zeroCreature_def
        split: option.splits if_splits)
  have b: "refs (put_object demoBag demoBase) h' = (if h' = OnCreature ''c1'' then [''bag''] else [])" for h'
    by (subst put_object_refs; (code_simp | simp))
       (simp add: e demoBag_def insertObjectIDLegacySorted_def insert_once_def)
  have i: "insertObjectIDLegacySorted ((put_object demoBag demoBase)\<lparr>objects :=
      fmupd (Object_ID demoSword) demoSword (objects (put_object demoBag demoBase))\<rparr>) [''bag''] (Object_ID demoSword)
      = [''bag'', ''sword'']"
    by code_simp
  have f: "fmlookup (objects (put_object demoBag demoBase)) (Object_ID demoSword) = None"
    and g: "ObjectIDs (Object_Contents demoSword) = []"
    and l: "holderOf (Object_Location demoSword) = OnCreature ''c1''"
    by code_simp+
  show ?thesis
    unfolding demoWorld_def by (simp add: put_object_refs [OF f g] l b i)
qed

theorem MoveObject_refines_witness:
  "let w' = snd (MoveObject ''sword'' (containerLocation ''bag'') demoWorld)
   in well_held w' \<and> where_is w' = (where_is demoWorld)(''sword'' \<mapsto> holderOf (containerLocation ''bag''))"
  unfolding Let_def by (rule MoveObject_refines [OF well_held_demoWorld]) (rule run_eq, code_simp)

theorem MoveObject_sorted_witness:
  "let w' = snd (MoveObject ''sword'' (roomLocation ''r1'') demoWorld)
   in sorted (map (objectLegacyKey w') (refs w' (InRoom ''r1'')))"
  unfolding Let_def
proof (rule MoveObject_sorted [OF well_held_demoWorld])
  show "MoveObject ''sword'' (roomLocation ''r1'') demoWorld
      = (None, snd (MoveObject ''sword'' (roomLocation ''r1'') demoWorld))"
    by (rule run_eq) code_simp
  have "sorted (map (objectLegacyKey demoWorld) [''bag'', ''sword''])"
    by code_simp
  then show "sorted (map (objectLegacyKey demoWorld) (refs demoWorld h))" for h
    by (simp add: refs_demoWorld)
qed

theorem MoveObject_marks_dirty_witness:
  "let w' = snd (MoveObject ''sword'' (roomLocation ''r1'') demoWorld)
   in fmlookup (playerDirty w') ''p1'' = Some 5"
proof -
  have p: "fmlookup (objects demoWorld) ''sword'' = Some demoSword"
    by code_simp
  have "MoveObject ''sword'' (roomLocation ''r1'') demoWorld
      = (None, snd (MoveObject ''sword'' (roomLocation ''r1'') demoWorld))"
    by (rule run_eq) code_simp
  note m = MoveObject_marks_dirty [OF this p, of "Object_Location demoSword"]
  have "map_option Creature_PlayerID (fmlookup (creatures demoWorld) ''c1'') = Some ''p1''"
    by code_simp
  then obtain c where "fmlookup (creatures demoWorld) ''c1'' = Some c" and "Creature_PlayerID c = ''p1''"
    by auto
  moreover have "clock demoWorld = 5"
    by code_simp
  ultimately show ?thesis
    using m by (auto simp: Let_def demoSword_def location_defs)
qed

theorem Steal_refines_witness:
  "let w' = snd (StealCreatureInventoryObject ''sword'' ''c1'' ''c2'' demoWorld)
   in well_held w' \<and> where_is w' ''sword'' = Some (OnCreature ''c2'')"
proof -
  have "StealCreatureInventoryObject ''sword'' ''c1'' ''c2'' demoWorld
      = (Inr True, snd (StealCreatureInventoryObject ''sword'' ''c1'' ''c2'' demoWorld))"
    by (rule run_eq) code_simp
  from Steal_refines [OF well_held_demoWorld this] show ?thesis
    by (simp add: Let_def)
qed

theorem Store_refines_witness: "well_held demoStored \<and> where_is demoStored ''sword'' = Some (InObject ''bag'')"
  using Store_refines [OF well_held_demoWorld demoStored_run] by simp

definition demoFilled :: World where
  "demoFilled = put_object (demoSword\<lparr>Object_Location := containerLocation ''bag''\<rparr>) (put_object demoBag demoBase)"

lemma well_held_demoFilled: "well_held demoFilled"
proof -
  have b: "well_held (put_object demoBag demoBase)"
    by (rule well_held_put [OF well_held_demoBase]; code_simp)
  show ?thesis
    unfolding demoFilled_def by (rule well_held_put [OF b]; code_simp)
qed

theorem Take_refines_witness:
  "let w' = snd (TakeContainerObjectToCreatureInventory ''sword'' ''bag'' ''c2'' demoFilled)
   in well_held w' \<and> where_is w' ''sword'' = Some (OnCreature ''c2'')"
proof -
  have "TakeContainerObjectToCreatureInventory ''sword'' ''bag'' ''c2'' demoFilled
      = (Inr (0, True), snd (TakeContainerObjectToCreatureInventory ''sword'' ''bag'' ''c2'' demoFilled))"
    by (rule run_eq) code_simp
  from Take_refines [OF well_held_demoFilled this] show ?thesis
    by (simp add: Let_def)
qed

theorem Store_Take_roundtrip_witness:
  "\<exists>w1 w2. StoreCreatureInventoryObjectInContainer ''sword'' ''c1'' ''bag'' 1 demoWorld = (Inr (1, True, False), w1)
      \<and> TakeContainerObjectToCreatureInventory ''sword'' ''bag'' ''c1'' w1 = (Inr (0, True), w2) \<and> where_is w2 = where_is demoWorld"
proof -
  have facts: "fmlookup (objects demoWorld) ''sword'' = Some demoSword" "fmlookup (objects demoWorld) ''bag'' = Some demoBag"
    by (simp_all add: demoWorld_def put_object_def demoSword_def demoBag_def lookup_add_objects location_defs holderOf_def)
  have "validateObjectDestination demoWorld ''sword'' (containerLocation ''bag'') = None"
    by code_simp
  then have out: "\<not> inside demoWorld ''bag'' ''sword''"
    by (simp add: validateObjectDestination_None)
  have "in_inventory demoSword ''c1''" "ObjectInstance_Validate (demoSword\<lparr>Object_Location := containerLocation ''bag''\<rparr>) = None"
    "0 = objectCountPropertyOrLen demoWorld demoBag ''shotsCurrent''" "in_i64 (0 + 1)"
    by code_simp+
  from Store_Take_roundtrip [OF well_held_demoWorld facts _ _ _ this(1) out this(2-4), of 1] show ?thesis
    by auto
qed

theorem Destroy_leaf_witness:
  "let w' = snd (DestroyCreatureInventoryObject ''bag'' ''c1'' demoWorld)
   in well_held w' \<and> where_is w' = (where_is demoWorld)(''bag'' := None)"
proof -
  have "DestroyCreatureInventoryObject ''bag'' ''c1'' demoWorld
      = (Inr True, snd (DestroyCreatureInventoryObject ''bag'' ''c1'' demoWorld))"
    by (rule run_eq) code_simp
  from Destroy_leaf [OF well_held_demoWorld this] show ?thesis
    by (simp add: Let_def refs_demoWorld)
qed

theorem Destroy_orphans_contents_witness:
  "let w' = snd (DestroyCreatureInventoryObject ''bag'' ''c1'' demoFilled)
   in where_is w' ''sword'' = Some (InObject ''bag'') \<and> fmlookup (objects w') ''bag'' = None \<and> \<not> well_held w'"
proof -
  have "DestroyCreatureInventoryObject ''bag'' ''c1'' demoFilled
      = (Inr True, snd (DestroyCreatureInventoryObject ''bag'' ''c1'' demoFilled))"
    by (rule run_eq) code_simp
  moreover have "''sword'' \<in> set (refs demoFilled (InObject ''bag''))"
    by code_simp
  ultimately show ?thesis
    unfolding Let_def using Destroy_orphans_contents [OF well_held_demoFilled] by blast
qed

end
