(* ===== verification/Gold.thy ===== *)
theory Gold
  imports Transfers
begin

text \<open>
  Gold (\<^verbatim>\<open>creature.go\<close>): the \<^verbatim>\<open>gold\<close> stat of creatures and the \<^verbatim>\<open>value\<close> property of objects, and the
  operations that move amounts between them under the world lock. Amounts are Go's 64-bit
  integers: every sum is wrapped by \<open>i64\<close>, and the conservation theorems name the bound under
  which no wrap happens.
\<close>

subsection \<open>The gold stat\<close>

definition creatureGold :: "Creature \<Rightarrow> int" where
  "creatureGold c = mget 0 (Creature_Stats c) ''gold''"

definition withGold :: "int \<Rightarrow> Creature \<Rightarrow> Creature" where
  "withGold v c = c\<lparr>Creature_Stats := fmupd ''gold'' v (Creature_Stats c)\<rparr>"

definition putCreature :: "CreatureID \<Rightarrow> Creature \<Rightarrow> World \<Rightarrow> World" where
  "putCreature i c w = w\<lparr>creatures := fmupd i c (creatures w)\<rparr>"

definition putObjectRecord :: "ObjectInstanceID \<Rightarrow> ObjectInstance \<Rightarrow> World \<Rightarrow> World" where
  "putObjectRecord i p w = w\<lparr>objects := fmupd i p (objects w)\<rparr>"

text \<open>The gold a creature id has in a world; a missing creature has none.\<close>

definition goldOf :: "World \<Rightarrow> CreatureID \<Rightarrow> int" where
  "goldOf w i = (case fmlookup (creatures w) i of None \<Rightarrow> 0 | Some c \<Rightarrow> creatureGold c)"

definition totalGold :: "World \<Rightarrow> int" where
  "totalGold w = (\<Sum>i \<in> fmdom' (creatures w). goldOf w i)"

definition objectValue :: "World \<Rightarrow> ObjectInstanceID \<Rightarrow> int" where
  "objectValue w i =
     (case fmlookup (objects w) i of
        None \<Rightarrow> 0
      | Some p \<Rightarrow> (case objectIntProperty w p ''value'' of None \<Rightarrow> 0 | Some v \<Rightarrow> v))"

lemma creatureGold_with [simp]: "creatureGold (withGold v c) = v"
  and withGold_fields [simp]: "Creature_PlayerID (withGold v c) = Creature_PlayerID c"
    "Creature_Inventory (withGold v c) = Creature_Inventory c"
  by (simp_all add: creatureGold_def withGold_def)

lemma putCreature_lookup [simp]:
  "fmlookup (creatures (putCreature i c w)) j = (if j = i then Some c else fmlookup (creatures w) j)"
  and putCreature_frame [simp]: "objects (putCreature i c w) = objects w" "prototypes (putCreature i c w) = prototypes w"
    "rooms (putCreature i c w) = rooms w" "clock (putCreature i c w) = clock w" "banks (putCreature i c w) = banks w"
  by (auto simp: putCreature_def)

lemma putObjectRecord_lookup [simp]:
  "fmlookup (objects (putObjectRecord i p w)) j = (if j = i then Some p else fmlookup (objects w) j)"
  and putObjectRecord_frame [simp]: "creatures (putObjectRecord i p w) = creatures w"
    "prototypes (putObjectRecord i p w) = prototypes w" "rooms (putObjectRecord i p w) = rooms w"
    "banks (putObjectRecord i p w) = banks w"
  by (auto simp: putObjectRecord_def)

lemma goldOf_put [simp]: "goldOf (putCreature i c w) j = (if j = i then creatureGold c else goldOf w j)"
  by (simp add: goldOf_def)

lemma goldOf_cong: "creatures w' = creatures w \<Longrightarrow> goldOf w' i = goldOf w i"
  and totalGold_cong: "creatures w' = creatures w \<Longrightarrow> totalGold w' = totalGold w"
  by (simp_all add: goldOf_def totalGold_def)

lemma goldOf_marks [simp]:
  "goldOf (markCreaturePlayerDirty c w) i = goldOf w i" "totalGold (markCreaturePlayerDirty c w) = totalGold w"
  "goldOf (putObjectRecord k p w) i = goldOf w i" "totalGold (putObjectRecord k p w) = totalGold w"
  by (rule goldOf_cong totalGold_cong; simp)+

lemma totalGold_put:
  assumes "fmlookup (creatures w) i = Some c"
  shows "totalGold (putCreature i d w) = totalGold w - creatureGold c + creatureGold d"
proof -
  let ?D = "fmdom' (creatures w)"
  have i: "i \<in> ?D" and fin: "finite ?D"
    using assms by (auto simp: fmlookup_dom'_iff)
  have "fmdom' (creatures (putCreature i d w)) = ?D"
    using i by (auto simp: putCreature_def)
  then have "totalGold (putCreature i d w) = (\<Sum>j \<in> ?D. if j = i then creatureGold d else goldOf w j)"
    by (simp add: totalGold_def)
  also have "\<dots> = creatureGold d + (\<Sum>j \<in> ?D - {i}. goldOf w j)"
    using i fin by (subst sum.remove [of _ i]) (auto intro: sum.cong)
  also have "\<dots> = totalGold w - creatureGold c + creatureGold d"
    using i fin assms by (simp add: totalGold_def sum.remove [of ?D i] goldOf_def)
  finally show ?thesis .
qed

lemma well_held_putCreature:
  "fmlookup (creatures w) i = Some c \<Longrightarrow> Creature_Inventory d = Creature_Inventory c
     \<Longrightarrow> well_held (putCreature i d w) = well_held w"
  unfolding putCreature_def by (rule well_held_creature_upd)

lemma well_held_putObject:
  "fmlookup (objects w) i = Some p \<Longrightarrow> Object_Location q = Object_Location p
     \<Longrightarrow> Object_Contents q = Object_Contents p \<Longrightarrow> well_held (putObjectRecord i q w) = well_held w"
  unfolding putObjectRecord_def by (rule well_held_object_upd)

subsection \<open>Between creatures\<close>

text \<open>
  \<^verbatim>\<open>UpdateCreatureGold\<close> adds an amount of either sign. The values of \<^verbatim>\<open>TransferCreatureGold\<close> are
  \<^verbatim>\<open>fromGold\<close>, \<^verbatim>\<open>toGold\<close> and \<^verbatim>\<open>ok\<close>. Its local \<open>from\<close> and \<open>to\<close> are copies whose \<^verbatim>\<open>Stats\<close> maps are the
  maps of the world, so that for one creature in both roles the two writes go to one map and the
  second prevails.
\<close>

definition UpdateCreatureGold :: "CreatureID \<Rightarrow> int \<Rightarrow> World \<Rightarrow> Creature result \<times> World" where
  "UpdateCreatureGold creatureID amount w =
     (case fmlookup (creatures w) creatureID of
        None \<Rightarrow> (Inl (Errorf ''update gold: creature %q not found'' [creatureID]), w)
      | Some creature \<Rightarrow>
          let creature' = withGold (i64 (creatureGold creature + amount)) creature
          in (Inr creature', markCreaturePlayerDirty creature (putCreature creatureID creature' w)))"

definition SetCreatureStat :: "CreatureID \<Rightarrow> string \<Rightarrow> int \<Rightarrow> World \<Rightarrow> go_error option \<times> World" where
  "SetCreatureStat creatureID key value w =
     (if IsZero creatureID
      then (Some (Errorf ''set creature stat %q: creature id is required'' [key]), w)
      else let key = trimSpace key in
        if key = [] then (Some (Errorf ''set creature %q stat: key is required'' [creatureID]), w)
        else case fmlookup (creatures w) creatureID of
          None \<Rightarrow> (Some (Errorf ''set creature %q stat %q: creature not found'' [creatureID, key]), w)
        | Some creature \<Rightarrow>
            (None, markCreaturePlayerDirty creature
               (putCreature creatureID (creature\<lparr>Creature_Stats := fmupd key value (Creature_Stats creature)\<rparr>) w)))"

definition TransferCreatureGold ::
  "CreatureID \<Rightarrow> CreatureID \<Rightarrow> int \<Rightarrow> World \<Rightarrow> (int \<times> int \<times> bool) result \<times> World" where
  "TransferCreatureGold fromID toID amount w =
     (if IsZero fromID
      then (Inl (Errorf ''transfer gold to %q: source creature id is required'' [toID]), w)
      else if IsZero toID
      then (Inl (Errorf ''transfer gold from %q: target creature id is required'' [fromID]), w)
      else if amount < 1
      then (Inl (Errorf ''transfer gold from %q to %q: amount must be positive'' [fromID, toID]), w)
      else case fmlookup (creatures w) fromID of
        None \<Rightarrow> (Inl (Errorf ''transfer gold from %q: source creature not found'' [fromID]), w)
      | Some from \<Rightarrow>
          (case fmlookup (creatures w) toID of
             None \<Rightarrow> (Inl (Errorf ''transfer gold to %q: target creature not found'' [toID]), w)
           | Some to \<Rightarrow>
               let fromGold = creatureGold from; toGold = creatureGold to in
               if fromGold < amount then (Inr (fromGold, toGold, False), w)
               else
                 let fromGold = i64 (fromGold - amount); toGold = i64 (toGold + amount);
                     w = putCreature fromID (withGold fromGold from) w;
                     w = putCreature toID (withGold toGold to) w
                 in (Inr (fromGold, toGold, True),
                     markCreaturePlayerDirty to (markCreaturePlayerDirty from w))))"

subsection \<open>Shops\<close>

text \<open>The values are \<^verbatim>\<open>newGold\<close> and \<^verbatim>\<open>sold\<close>.\<close>

definition SellObjectFromCreatureInventory ::
  "ObjectInstanceID \<Rightarrow> CreatureID \<Rightarrow> int \<Rightarrow> World \<Rightarrow> (int \<times> bool) result \<times> World" where
  "SellObjectFromCreatureInventory objectID creatureID price w =
     (if IsZero objectID then (Inl (Errorf ''sell object: object id is required'' []), w)
      else if IsZero creatureID
      then (Inl (Errorf ''sell object %q: creature id is required'' [objectID]), w)
      else if price < 0
      then (Inl (Errorf ''sell object %q: price cannot be negative'' [objectID]), w)
      else case fmlookup (objects w) objectID of
        None \<Rightarrow> (Inl (Errorf ''sell object %q: object not found'' [objectID]), w)
      | Some object \<Rightarrow>
          (case fmlookup (creatures w) creatureID of
             None \<Rightarrow> (Inl (Errorf ''sell object %q: creature %q not found'' [objectID, creatureID]), w)
           | Some creature \<Rightarrow>
               if Loc_CreatureID (Object_Location object) \<noteq> creatureID
               then (Inr (creatureGold creature, False), w)
               else if ObjectIDs (Object_Contents object) \<noteq> []
               then (Inl (Errorf ''sell object %q: object has contents'' [objectID]), w)
               else
                 let newGold = i64 (creatureGold creature + price);
                     w = putCreature creatureID (withGold newGold creature) w;
                     w = markCreaturePlayerDirty creature w
                 in (Inr (newGold, True), drop_object objectID (Object_Location object) w)))"

text \<open>The values are \<^verbatim>\<open>newGold\<close>, \<^verbatim>\<open>repaired\<close> and \<^verbatim>\<open>affordable\<close>.\<close>

definition RepairCreatureInventoryObject ::
  "ObjectInstanceID \<Rightarrow> CreatureID \<Rightarrow> int \<Rightarrow> (string, string) fmap \<Rightarrow> string list \<Rightarrow> World
     \<Rightarrow> (int \<times> bool \<times> bool) result \<times> World" where
  "RepairCreatureInventoryObject objectID creatureID cost properties removeTags w =
     (if IsZero objectID then (Inl (Errorf ''repair object: object id is required'' []), w)
      else if IsZero creatureID
      then (Inl (Errorf ''repair object %q: creature id is required'' [objectID]), w)
      else if cost < 0
      then (Inl (Errorf ''repair object %q: cost cannot be negative'' [objectID]), w)
      else case fmlookup (objects w) objectID of
        None \<Rightarrow> (Inl (Errorf ''repair object %q: object not found'' [objectID]), w)
      | Some object \<Rightarrow>
          (case fmlookup (creatures w) creatureID of
             None \<Rightarrow> (Inl (Errorf ''repair object %q: creature %q not found'' [objectID, creatureID]), w)
           | Some creature \<Rightarrow>
               let gold = creatureGold creature in
               if \<not> in_inventory object creatureID then (Inr (gold, False, True), w)
               else if gold < cost then (Inr (gold, False, False), w)
               else
                 let newGold = i64 (gold - cost);
                     w = markCreaturePlayerDirty creature (putCreature creatureID (withGold newGold creature) w);
                     meta = Object_Metadata object;
                     object' = object\<lparr>Object_Properties := Object_Properties object ++\<^sub>f properties,
                       Object_Metadata := meta\<lparr>Meta_Tags := removeMetadataTags (Meta_Tags meta) removeTags\<rparr>\<rparr>
                 in (Inr (newGold, True, True), putObjectRecord objectID object' w)))"

subsection \<open>Money objects\<close>

definition objectLocationEqual :: "ObjectLocation \<Rightarrow> ObjectLocation \<Rightarrow> bool" where
  "objectLocationEqual a b \<longleftrightarrow>
     Loc_RoomID a = Loc_RoomID b \<and> Loc_CreatureID a = Loc_CreatureID b \<and> Loc_BankID a = Loc_BankID b
     \<and> Loc_ContainerID a = Loc_ContainerID b \<and> Loc_Slot a = Loc_Slot b"

text \<open>
  The container's count after a money object left it: the code reads the count when the object is
  already off the list, and writes the container under its own id.
\<close>

definition pickupContainerCount :: "ObjectInstanceID \<Rightarrow> World \<Rightarrow> World" where
  "pickupContainerCount k w =
     (if IsZero k then w
      else
        let container = mget zeroObject (objects w) k;
            current = objectCountPropertyOrLen w container ''shotsCurrent'';
            current = (if 0 < current then current - 1 else current);
            container = container\<lparr>Object_Properties :=
              fmupd ''shotsCurrent'' (itoa current) (Object_Properties container)\<rparr>
        in putObjectRecord (Object_ID container) container w)"

definition containerRoom :: "World \<Rightarrow> ObjectInstanceID \<Rightarrow> RoomID" where
  "containerRoom w k =
     (if IsZero k then []
      else case fmlookup (objects w) k of None \<Rightarrow> [] | Some c \<Rightarrow> Loc_RoomID (Object_Location c))"

text \<open>The values are \<^verbatim>\<open>newGold\<close>, \<^verbatim>\<open>amount\<close> and \<^verbatim>\<open>picked\<close>.\<close>

definition PickupMoneyObjectToCreatureGold ::
  "ObjectInstanceID \<Rightarrow> ObjectLocation \<Rightarrow> CreatureID \<Rightarrow> World \<Rightarrow> (int \<times> int \<times> bool) result \<times> World" where
  "PickupMoneyObjectToCreatureGold objectID from creatureID w =
     (if IsZero objectID then (Inl (Errorf ''pickup money object: object id is required'' []), w)
      else if IsZero creatureID
      then (Inl (Errorf ''pickup money object %q: creature id is required'' [objectID]), w)
      else case fmlookup (objects w) objectID of
        None \<Rightarrow> (Inl (Errorf ''pickup money object %q: object not found'' [objectID]), w)
      | Some object \<Rightarrow>
          (case fmlookup (creatures w) creatureID of
             None \<Rightarrow> (Inl (Errorf ''pickup money object %q: creature %q not found'' [objectID, creatureID]), w)
           | Some creature \<Rightarrow>
               if \<not> objectLocationEqual (Object_Location object) from \<or> \<not> objectIsMoney w object
               then (Inr (creatureGold creature, 0, False), w)
               else
                 let amount = (case objectIntProperty w object ''value'' of None \<Rightarrow> 0 | Some v \<Rightarrow> v) in
                 if amount < 1 then (Inr (creatureGold creature, 0, False), w)
                 else
                   let newGold = i64 (creatureGold creature + amount);
                       w = markCreaturePlayerDirty creature (putCreature creatureID (withGold newGold creature) w);
                       location = Object_Location object;
                       w = pickupContainerCount (Loc_ContainerID location) (removeObjectFromHolder objectID location w);
                       w = w\<lparr>objects := fmdrop objectID (objects w)\<rparr>;
                       inRoom = containerRoom w (Loc_ContainerID location);
                       roomToMark = (if IsZero (Loc_RoomID location) then inRoom else Loc_RoomID location);
                       w = (if IsZero roomToMark then w else MarkRoomObjectsDirty roomToMark w)
                   in (Inr (newGold, amount, True),
                       if IsZero inRoom then w else MarkRoomObjectsDirty inRoom w)))"

subsection \<open>Deposits\<close>

text \<open>The values are \<^verbatim>\<open>remainingGold\<close>, \<^verbatim>\<open>objectValue\<close>, \<^verbatim>\<open>ok\<close> and \<^verbatim>\<open>withinLimit\<close>.\<close>

definition withValue :: "int \<Rightarrow> ObjectInstance \<Rightarrow> ObjectInstance" where
  "withValue v p = p\<lparr>Object_Properties := fmupd ''value'' (itoa v) (Object_Properties p)\<rparr>"

definition valueProperty :: "World \<Rightarrow> ObjectInstance \<Rightarrow> int" where
  "valueProperty w object = (case objectIntProperty w object ''value'' of None \<Rightarrow> 0 | Some v \<Rightarrow> v)"

definition DepositCreatureGoldToObjectValueScaled ::
  "CreatureID \<Rightarrow> ObjectInstanceID \<Rightarrow> int \<Rightarrow> int \<Rightarrow> int \<Rightarrow> int \<Rightarrow> World
     \<Rightarrow> (int \<times> int \<times> bool \<times> bool) result \<times> World" where
  "DepositCreatureGoldToObjectValueScaled creatureID objectID goldAmount valueAmount limitAmount maxValue w =
     (if IsZero creatureID
      then (Inl (Errorf ''deposit gold to object %q: creature id is required'' [objectID]), w)
      else if IsZero objectID
      then (Inl (Errorf ''deposit gold from %q: object id is required'' [creatureID]), w)
      else if goldAmount < 0 \<or> valueAmount < 0 \<or> limitAmount < 0
      then (Inl (Errorf ''deposit gold from %q to object %q: amount cannot be negative'' [creatureID, objectID]), w)
      else case fmlookup (creatures w) creatureID of
        None \<Rightarrow> (Inl (Errorf ''deposit gold from %q: creature not found'' [creatureID]), w)
      | Some creature \<Rightarrow>
          (case fmlookup (objects w) objectID of
             None \<Rightarrow> (Inl (Errorf ''deposit gold to object %q: object not found'' [objectID]), w)
           | Some object \<Rightarrow>
               let gold = creatureGold creature; value = valueProperty w object in
               if gold < goldAmount then (Inr (gold, value, False, True), w)
               else if 0 < maxValue \<and> maxValue < i64 (value + limitAmount) then (Inr (gold, value, True, False), w)
               else
                 let remainingGold = i64 (gold - goldAmount);
                     objectValue = i64 (value + valueAmount);
                     w = putCreature creatureID (withGold remainingGold creature) w;
                     w = putObjectRecord objectID (withValue objectValue object) w
                 in (Inr (remainingGold, objectValue, True, True), markCreaturePlayerDirty creature w)))"

definition DepositCreatureGoldToObjectValue ::
  "CreatureID \<Rightarrow> ObjectInstanceID \<Rightarrow> int \<Rightarrow> int \<Rightarrow> World \<Rightarrow> (int \<times> int \<times> bool \<times> bool) result \<times> World" where
  "DepositCreatureGoldToObjectValue creatureID objectID amount maxValue w =
     DepositCreatureGoldToObjectValueScaled creatureID objectID amount amount amount maxValue w"

text \<open>The values are \<^verbatim>\<open>newGold\<close>, \<^verbatim>\<open>objectValue\<close> and \<^verbatim>\<open>ok\<close>.\<close>

definition WithdrawObjectValueToCreatureGoldScaled ::
  "ObjectInstanceID \<Rightarrow> CreatureID \<Rightarrow> int \<Rightarrow> int \<Rightarrow> World \<Rightarrow> (int \<times> int \<times> bool) result \<times> World" where
  "WithdrawObjectValueToCreatureGoldScaled objectID creatureID valueAmount goldAmount w =
     (if IsZero objectID
      then (Inl (Errorf ''withdraw gold to %q: object id is required'' [creatureID]), w)
      else if IsZero creatureID
      then (Inl (Errorf ''withdraw gold from object %q: creature id is required'' [objectID]), w)
      else if valueAmount < 0 \<or> goldAmount < 0
      then (Inl (Errorf ''withdraw gold from object %q to %q: amount cannot be negative'' [objectID, creatureID]), w)
      else case fmlookup (objects w) objectID of
        None \<Rightarrow> (Inl (Errorf ''withdraw gold from object %q: object not found'' [objectID]), w)
      | Some object \<Rightarrow>
          (case fmlookup (creatures w) creatureID of
             None \<Rightarrow> (Inl (Errorf ''withdraw gold to %q: creature not found'' [creatureID]), w)
           | Some creature \<Rightarrow>
               let value = valueProperty w object; gold = creatureGold creature in
               if value < valueAmount then (Inr (gold, value, False), w)
               else
                 let newGold = i64 (gold + goldAmount);
                     objectValue = i64 (value - valueAmount);
                     w = putCreature creatureID (withGold newGold creature) w;
                     w = putObjectRecord objectID (withValue objectValue object) w
                 in (Inr (newGold, objectValue, True), markCreaturePlayerDirty creature w)))"

definition WithdrawObjectValueToCreatureGold ::
  "ObjectInstanceID \<Rightarrow> CreatureID \<Rightarrow> int \<Rightarrow> World \<Rightarrow> (int \<times> int \<times> bool) result \<times> World" where
  "WithdrawObjectValueToCreatureGold objectID creatureID amount w =
     WithdrawObjectValueToCreatureGoldScaled objectID creatureID amount amount w"

subsection \<open>Conservation\<close>

lemma Transfer_cases:
  assumes "TransferCreatureGold a b n w = (r, w')"
  shows "((\<forall>x y. r \<noteq> Inr (x, y, True)) \<and> w' = w)
    \<or> (\<exists>c d. a \<noteq> [] \<and> b \<noteq> [] \<and> 1 \<le> n \<and> n \<le> creatureGold c
        \<and> fmlookup (creatures w) a = Some c \<and> fmlookup (creatures w) b = Some d
        \<and> r = Inr (i64 (creatureGold c - n), i64 (creatureGold d + n), True)
        \<and> w' = markCreaturePlayerDirty d (markCreaturePlayerDirty c
             (putCreature b (withGold (i64 (creatureGold d + n)) d)
               (putCreature a (withGold (i64 (creatureGold c - n)) c) w))))"
  using assms unfolding TransferCreatureGold_def Let_def
  by (simp split: if_split_asm option.split_asm) (auto simp: not_less)

lemma in_i64_diff: "in_i64 g \<Longrightarrow> 0 \<le> n \<Longrightarrow> n \<le> g \<Longrightarrow> in_i64 (g - n)"
  by (simp add: in_i64_def)

text \<open>C14. A gold transfer between two creatures takes the amount from one and gives it to the other,
  leaves every other creature's gold and the total unchanged, and never makes the giver's gold
  negative; a transfer that reports an error or too little gold changes nothing.  This is for two different creatures and
  amounts that stay in the range of the machine integer: the receiver's gold with the amount added fits it (the code
  adds without a check, so that otherwise the receiver's gold would wrap).\<close>

theorem Transfer_conserves_gold:
  assumes "TransferCreatureGold a b n w = (r, w')" and "a \<noteq> b"
    and "in_i64 (goldOf w a)" and "in_i64 (goldOf w b + n)"
  shows "if \<exists>x y. r = Inr (x, y, True)
         then 0 \<le> goldOf w' a \<and> totalGold w' = totalGold w
              \<and> goldOf w' = (goldOf w)(a := goldOf w a - n, b := goldOf w b + n)
         else w' = w"
  using Transfer_cases [OF assms(1)]
proof (elim disjE exE conjE)
  fix c d
  assume n: "1 \<le> n" "n \<le> creatureGold c"
    and c: "fmlookup (creatures w) a = Some c" and d: "fmlookup (creatures w) b = Some d"
    and r: "r = Inr (i64 (creatureGold c - n), i64 (creatureGold d + n), True)"
    and w': "w' = markCreaturePlayerDirty d (markCreaturePlayerDirty c
             (putCreature b (withGold (i64 (creatureGold d + n)) d)
               (putCreature a (withGold (i64 (creatureGold c - n)) c) w)))"
  have g: "goldOf w a = creatureGold c" "goldOf w b = creatureGold d"
    using c d by (simp_all add: goldOf_def)
  then have i: "i64 (creatureGold c - n) = creatureGold c - n" "i64 (creatureGold d + n) = creatureGold d + n"
    using assms(3,4) n in_i64_diff [of "creatureGold c" n] by simp_all
  let ?w = "putCreature a (withGold (creatureGold c - n) c) w"
  have "fmlookup (creatures ?w) b = Some d"
    using d assms(2) by simp
  then have "totalGold w' = totalGold w"
    using c by (simp add: w' i totalGold_put)
  then show ?thesis
    using r n assms(2) by (auto simp: w' i g)
qed simp

text \<open>A transfer from a creature to itself that the checks let through makes gold: the creature's
  gold and the total grow by the amount.\<close>

theorem Transfer_to_self_makes_gold:
  assumes "a \<noteq> []" and "1 \<le> n" and "n \<le> goldOf w a" and "in_i64 (goldOf w a + n)"
  shows "goldOf (snd (TransferCreatureGold a a n w)) a = goldOf w a + n
         \<and> totalGold (snd (TransferCreatureGold a a n w)) = totalGold w + n"
proof -
  obtain c where c: "fmlookup (creatures w) a = Some c" and g: "goldOf w a = creatureGold c"
    using assms(2,3) by (cases "fmlookup (creatures w) a") (auto simp: goldOf_def)
  let ?w = "putCreature a (withGold (i64 (creatureGold c - n)) c) w"
  have "fmlookup (creatures ?w) a = Some (withGold (i64 (creatureGold c - n)) c)" by simp
  then show ?thesis
    using assms c g by (simp add: TransferCreatureGold_def Let_def totalGold_put)
qed

lemma valueProperty_with [simp]:
  "in_i64 v \<Longrightarrow> valueProperty w (withValue v p) = v"
  by (simp add: valueProperty_def withValue_def objectIntProperty_def)

lemma valueProperty_in_i64: "in_i64 (valueProperty w p)"
  by (simp add: valueProperty_def split: option.split)
     (auto dest: objectIntProperty_in_i64 simp: in_i64_def)

lemma objectIntProperty_frame [simp]:
  "objectIntProperty (putCreature i c w) p k = objectIntProperty w p k"
  "objectIntProperty (putObjectRecord j q w) p k = objectIntProperty w p k"
  "objectIntProperty (markCreaturePlayerDirty d w) p k = objectIntProperty w p k"
  by (rule objectIntProperty_cong; simp)+

lemma objectValue_lookup: "fmlookup (objects w) i = Some p \<Longrightarrow> objectValue w i = valueProperty w p"
  by (simp add: objectValue_def valueProperty_def)

lemma valueProperty_frame [simp]:
  "valueProperty (putCreature i c w) p = valueProperty w p"
  "valueProperty (putObjectRecord j q w) p = valueProperty w p"
  "valueProperty (markCreaturePlayerDirty d w) p = valueProperty w p"
  by (simp_all add: valueProperty_def)

lemma Deposit_cases:
  assumes "DepositCreatureGoldToObjectValueScaled c i g v l m w = (r, w')"
  shows "((\<forall>x y. r \<noteq> Inr (x, y, True, True)) \<and> w' = w)
    \<or> (\<exists>cr ob. c \<noteq> [] \<and> i \<noteq> [] \<and> 0 \<le> g \<and> 0 \<le> v \<and> 0 \<le> l \<and> g \<le> creatureGold cr
        \<and> (0 < m \<longrightarrow> i64 (valueProperty w ob + l) \<le> m)
        \<and> fmlookup (creatures w) c = Some cr \<and> fmlookup (objects w) i = Some ob
        \<and> r = Inr (i64 (creatureGold cr - g), i64 (valueProperty w ob + v), True, True)
        \<and> w' = markCreaturePlayerDirty cr (putObjectRecord i (withValue (i64 (valueProperty w ob + v)) ob)
             (putCreature c (withGold (i64 (creatureGold cr - g)) cr) w)))"
  using assms unfolding DepositCreatureGoldToObjectValueScaled_def Let_def
  by (simp split: if_split_asm option.split_asm) (auto simp: not_less)

lemma Withdraw_cases:
  assumes "WithdrawObjectValueToCreatureGoldScaled i c v g w = (r, w')"
  shows "((\<forall>x y. r \<noteq> Inr (x, y, True)) \<and> w' = w)
    \<or> (\<exists>cr ob. c \<noteq> [] \<and> i \<noteq> [] \<and> 0 \<le> g \<and> 0 \<le> v \<and> v \<le> valueProperty w ob
        \<and> fmlookup (creatures w) c = Some cr \<and> fmlookup (objects w) i = Some ob
        \<and> r = Inr (i64 (creatureGold cr + g), i64 (valueProperty w ob - v), True)
        \<and> w' = markCreaturePlayerDirty cr (putObjectRecord i (withValue (i64 (valueProperty w ob - v)) ob)
             (putCreature c (withGold (i64 (creatureGold cr + g)) cr) w)))"
  using assms unfolding WithdrawObjectValueToCreatureGoldScaled_def Let_def
  by (simp split: if_split_asm option.split_asm) (auto simp: not_less)

text \<open>A deposit moves the amount from the creature's gold to the object's value, so that their sum
  and the ownership invariant are kept, the gold stays non-negative and the value within the
  limit; a refused deposit changes nothing.\<close>

theorem Deposit_conserves:
  assumes "DepositCreatureGoldToObjectValue c i n m w = (r, w')"
    and "in_i64 (goldOf w c)" and "in_i64 (objectValue w i + n)"
  shows "if \<exists>x y. r = Inr (x, y, True, True)
         then goldOf w' c = goldOf w c - n \<and> objectValue w' i = objectValue w i + n \<and> 0 \<le> goldOf w' c
              \<and> (0 < m \<longrightarrow> objectValue w' i \<le> m) \<and> well_held w' = well_held w
         else w' = w"
  using Deposit_cases [OF assms(1) [unfolded DepositCreatureGoldToObjectValue_def]]
proof (elim disjE exE conjE)
  fix cr ob
  assume n: "0 \<le> n" "n \<le> creatureGold cr" and m: "0 < m \<longrightarrow> i64 (valueProperty w ob + n) \<le> m"
    and c: "fmlookup (creatures w) c = Some cr" and i: "fmlookup (objects w) i = Some ob"
    and r: "r = Inr (i64 (creatureGold cr - n), i64 (valueProperty w ob + n), True, True)"
    and w': "w' = markCreaturePlayerDirty cr (putObjectRecord i (withValue (i64 (valueProperty w ob + n)) ob)
             (putCreature c (withGold (i64 (creatureGold cr - n)) cr) w))"
  have g: "goldOf w c = creatureGold cr" "objectValue w i = valueProperty w ob"
    using c i by (simp_all add: goldOf_def objectValue_lookup)
  then have e: "i64 (creatureGold cr - n) = creatureGold cr - n" "i64 (valueProperty w ob + n) = valueProperty w ob + n"
    using assms(2,3) n in_i64_diff [of "creatureGold cr" n] by simp_all
  have "objectValue w' i = valueProperty w (withValue (valueProperty w ob + n) ob)"
    by (subst objectValue_lookup [of w' i "withValue (valueProperty w ob + n) ob"]) (simp_all add: w' e)
  then have "objectValue w' i = valueProperty w ob + n"
    using assms(3) g by simp
  moreover have "well_held w' = well_held w"
    using i c by (simp add: w' well_held_putObject [of _ i ob] well_held_putCreature [of w c cr] withValue_def)
  ultimately show ?thesis
    using r n m by (simp add: w' e g)
qed simp

text \<open>Depositing and withdrawing the same amount restores the creature's gold and the object's value.\<close>

theorem Deposit_Withdraw_roundtrip:
  assumes d: "DepositCreatureGoldToObjectValue c i n m w = (Inr (x, y, True, True), w1)"
    and "in_i64 (goldOf w c)" and "in_i64 (objectValue w i + n)" and "0 \<le> objectValue w i"
  shows "\<exists>w2. WithdrawObjectValueToCreatureGold i c n w1 = (Inr (goldOf w c, objectValue w i, True), w2)
           \<and> goldOf w2 = goldOf w \<and> objectValue w2 i = objectValue w i"
  using Deposit_cases [OF d [unfolded DepositCreatureGoldToObjectValue_def]]
proof (elim disjE exE conjE)
  fix cr ob
  assume ids: "c \<noteq> []" "i \<noteq> []" and n: "0 \<le> n" "n \<le> creatureGold cr"
    and c: "fmlookup (creatures w) c = Some cr" and i: "fmlookup (objects w) i = Some ob"
    and w1: "w1 = markCreaturePlayerDirty cr (putObjectRecord i (withValue (i64 (valueProperty w ob + n)) ob)
             (putCreature c (withGold (i64 (creatureGold cr - n)) cr) w))"
  have g: "goldOf w c = creatureGold cr" "objectValue w i = valueProperty w ob"
    using c i by (simp_all add: goldOf_def objectValue_lookup)
  then have e: "i64 (creatureGold cr - n) = creatureGold cr - n" "i64 (valueProperty w ob + n) = valueProperty w ob + n"
    and ei: "in_i64 (valueProperty w ob + n)" "in_i64 (creatureGold cr)" "in_i64 (valueProperty w ob)"
    using assms(2,3) n in_i64_diff [of "creatureGold cr" n] valueProperty_in_i64 by simp_all
  define w2 where "w2 = snd (WithdrawObjectValueToCreatureGold i c n w1)"
  have t: "WithdrawObjectValueToCreatureGold i c n w1 = (Inr (creatureGold cr, valueProperty w ob, True), w2)"
    using ids n ei assms(4) g
    by (simp add: w2_def WithdrawObjectValueToCreatureGold_def WithdrawObjectValueToCreatureGoldScaled_def Let_def w1 e)
  have w2: "w2 = markCreaturePlayerDirty (withGold (creatureGold cr - n) cr)
      (putObjectRecord i (withValue (valueProperty w ob) (withValue (valueProperty w ob + n) ob))
        (putCreature c (withGold (creatureGold cr) (withGold (creatureGold cr - n) cr)) w1))"
    using ids n ei assms(4) g
    by (simp add: w2_def WithdrawObjectValueToCreatureGold_def WithdrawObjectValueToCreatureGoldScaled_def Let_def w1 e)
  have "objectValue w2 i = valueProperty w ob"
    using ei by (subst objectValue_lookup [of w2 i "withValue (valueProperty w ob) (withValue (valueProperty w ob + n) ob)"])
       (simp_all add: w2 w1)
  moreover have "goldOf w2 = goldOf w"
    using g by (intro ext) (simp add: w2 w1)
  ultimately show ?thesis
    using t g by simp
qed simp

lemma goldOf_drop [simp]:
  "goldOf (drop_object i l w) c = goldOf w c"
proof -
  have "map_option creatureGold (fmlookup (creatures (removeObjectFromHolder i l w)) c)
      = map_option creatureGold (fmlookup (creatures w) c)"
    by (auto simp: removeObjectFromHolder_def creatureGold_def split: option.split)
  then show ?thesis
    by (auto simp: goldOf_def drop_object_def Let_def split: option.splits)
qed

lemma objectIntProperty_drop [simp]: "objectIntProperty (drop_object i l w) p k = objectIntProperty w p k"
  by (rule objectIntProperty_cong) (simp add: drop_object_def Let_def)

lemma Sell_cases:
  assumes "SellObjectFromCreatureInventory i c n w = (r, w')"
  shows "((\<forall>x. r \<noteq> Inr (x, True)) \<and> w' = w)
    \<or> (\<exists>cr ob. c \<noteq> [] \<and> i \<noteq> [] \<and> 0 \<le> n
        \<and> fmlookup (creatures w) c = Some cr \<and> fmlookup (objects w) i = Some ob
        \<and> Loc_CreatureID (Object_Location ob) = c \<and> ObjectIDs (Object_Contents ob) = []
        \<and> r = Inr (i64 (creatureGold cr + n), True)
        \<and> w' = drop_object i (Object_Location ob)
             (markCreaturePlayerDirty cr (putCreature c (withGold (i64 (creatureGold cr + n)) cr) w)))"
  using assms unfolding SellObjectFromCreatureInventory_def Let_def
  by (simp split: if_split_asm option.split_asm) auto

text \<open>A sale credits exactly the price to the seller, removes exactly the sold object, which the
  seller held and which was empty, and keeps the ownership invariant; otherwise nothing changes.\<close>

theorem Sell_exchanges:
  assumes "well_held w" and "SellObjectFromCreatureInventory i c n w = (r, w')"
    and "in_i64 (goldOf w c + n)"
  shows "if \<exists>x. r = Inr (x, True)
         then well_held w' \<and> where_is w i = Some (OnCreature c) \<and> where_is w' = (where_is w)(i := None)
              \<and> goldOf w' = (goldOf w)(c := goldOf w c + n)
         else w' = w"
  using Sell_cases [OF assms(2)]
proof (elim disjE exE conjE)
  fix cr ob
  assume c: "c \<noteq> []" "fmlookup (creatures w) c = Some cr" and i: "fmlookup (objects w) i = Some ob"
    and l: "Loc_CreatureID (Object_Location ob) = c" and e: "ObjectIDs (Object_Contents ob) = []"
    and r: "r = Inr (i64 (creatureGold cr + n), True)"
    and w': "w' = drop_object i (Object_Location ob)
             (markCreaturePlayerDirty cr (putCreature c (withGold (i64 (creatureGold cr + n)) cr) w))"
  let ?w = "markCreaturePlayerDirty cr (putCreature c (withGold (i64 (creatureGold cr + n)) cr) w)"
  have g: "goldOf w c = creatureGold cr" using c by (simp add: goldOf_def)
  have wh: "well_held ?w"
    using assms(1) c(2) by (simp add: well_held_putCreature [of w c cr])
  have "where_is ?w = where_is w"
    by (rule ext) (simp add: where_is_def)
  moreover have "well_held w'"
    unfolding w' by (rule well_held_drop [OF wh _ e]) (simp add: i)
  moreover have "where_is w i = Some (OnCreature c)"
    using assms(1) i l c(1) by (rule where_is_creature)
  ultimately show ?thesis
    using r g assms(3) by (auto simp: w' drop_object_where_is)
qed simp

lemma Repair_cases:
  assumes "RepairCreatureInventoryObject i c n ps ts w = (r, w')"
  shows "((\<forall>x. r \<noteq> Inr (x, True, True)) \<and> w' = w)
    \<or> (\<exists>cr ob. c \<noteq> [] \<and> i \<noteq> [] \<and> 0 \<le> n \<and> n \<le> creatureGold cr
        \<and> fmlookup (creatures w) c = Some cr \<and> fmlookup (objects w) i = Some ob \<and> in_inventory ob c
        \<and> r = Inr (i64 (creatureGold cr - n), True, True)
        \<and> w' = putObjectRecord i (ob\<lparr>Object_Properties := Object_Properties ob ++\<^sub>f ps,
                 Object_Metadata := (Object_Metadata ob)\<lparr>Meta_Tags := removeMetadataTags (Meta_Tags (Object_Metadata ob)) ts\<rparr>\<rparr>)
             (markCreaturePlayerDirty cr (putCreature c (withGold (i64 (creatureGold cr - n)) cr) w)))"
  using assms unfolding RepairCreatureInventoryObject_def Let_def
  by (simp split: if_split_asm option.split_asm) (auto simp: not_less)

text \<open>A repair debits exactly its cost, never below zero, applies the given properties to the object
  (the last value of a key prevails, other keys stay), and keeps the ownership invariant.\<close>

theorem Repair_debits:
  assumes "RepairCreatureInventoryObject i c n ps ts w = (r, w')" and "in_i64 (goldOf w c)"
  shows "if \<exists>x. r = Inr (x, True, True)
         then goldOf w' = (goldOf w)(c := goldOf w c - n) \<and> 0 \<le> goldOf w' c \<and> well_held w' = well_held w
              \<and> (\<exists>p q. fmlookup (objects w) i = Some p \<and> fmlookup (objects w') i = Some q \<and> in_inventory p c
                    \<and> Object_Location q = Object_Location p
                    \<and> (\<forall>k. fmlookup (Object_Properties q) k
                          = (case fmlookup ps k of None \<Rightarrow> fmlookup (Object_Properties p) k | Some v \<Rightarrow> Some v)))
         else w' = w"
  using Repair_cases [OF assms(1)]
proof (elim disjE exE conjE)
  fix cr ob
  assume n: "0 \<le> n" "n \<le> creatureGold cr"
    and c: "fmlookup (creatures w) c = Some cr" and i: "fmlookup (objects w) i = Some ob" and inv: "in_inventory ob c"
    and r: "r = Inr (i64 (creatureGold cr - n), True, True)"
    and w': "w' = putObjectRecord i (ob\<lparr>Object_Properties := Object_Properties ob ++\<^sub>f ps,
                 Object_Metadata := (Object_Metadata ob)\<lparr>Meta_Tags := removeMetadataTags (Meta_Tags (Object_Metadata ob)) ts\<rparr>\<rparr>)
             (markCreaturePlayerDirty cr (putCreature c (withGold (i64 (creatureGold cr - n)) cr) w))"
  have g: "goldOf w c = creatureGold cr" using c by (simp add: goldOf_def)
  then have e: "i64 (creatureGold cr - n) = creatureGold cr - n"
    using assms(2) n in_i64_diff [of "creatureGold cr" n] by simp
  have "well_held w' = well_held w"
    using i c by (simp add: w' well_held_putObject [of _ i ob] well_held_putCreature [of w c cr])
  then show ?thesis
    using r n i inv by (auto simp: w' e g fun_eq_iff split: option.split)
qed simp

subsection \<open>Picking up money\<close>

definition object_ids :: "World \<Rightarrow> bool" where
  "object_ids w \<longleftrightarrow> (\<forall>i p. fmlookup (objects w) i = Some p \<longrightarrow> Object_ID p = i)"

lemma fmdrop_fmupd_commute: "i \<noteq> k \<Longrightarrow> fmdrop i (fmupd k v m) = fmupd k v (fmdrop i m)"
  by (rule fmap_ext) auto

lemma objectCountPropertyOrLen_cong:
  "prototypes w = prototypes w' \<Longrightarrow> objectCountPropertyOrLen w p k = objectCountPropertyOrLen w' p k"
  by (simp only: objectCountPropertyOrLen_def objectIntProperty_cong [of w w'])

lemma pickupContainerCount_drop:
  assumes "k \<noteq> i" and "Object_ID (mget zeroObject (objects w) k) \<noteq> i"
  shows "(pickupContainerCount k w)\<lparr>objects := fmdrop i (objects (pickupContainerCount k w))\<rparr>
       = pickupContainerCount k (w\<lparr>objects := fmdrop i (objects w)\<rparr>)"
proof -
  have "mget zeroObject (fmdrop i (objects w)) k = mget zeroObject (objects w) k"
    using assms(1) by (simp add: mget_def)
  moreover have "objectCountPropertyOrLen (w\<lparr>objects := m\<rparr>) p key = objectCountPropertyOrLen w p key" for m p key
    by (rule objectCountPropertyOrLen_cong) simp
  ultimately show ?thesis
    using assms by (simp add: pickupContainerCount_def Let_def putObjectRecord_def fmdrop_fmupd_commute)
qed

lemma pickupContainerCount_put:
  assumes "k \<noteq> []" and "fmlookup (objects w) k = Some c" and "Object_ID c = k"
  shows "\<exists>n. pickupContainerCount k w = putObjectRecord k (c\<lparr>Object_Properties :=
           fmupd ''shotsCurrent'' (itoa n) (Object_Properties c)\<rparr>) w"
  using assms by (auto simp: pickupContainerCount_def Let_def mget_def)

lemma well_held_pickupContainerCount:
  assumes "k \<noteq> [] \<Longrightarrow> \<exists>c. fmlookup (objects w) k = Some c \<and> Object_ID c = k"
  shows "well_held (pickupContainerCount k w) = well_held w"
    and "where_is (pickupContainerCount k w) = where_is w"
    and "creatures (pickupContainerCount k w) = creatures w"
proof -
  have "k = [] \<or> (\<exists>c n. fmlookup (objects w) k = Some c \<and> pickupContainerCount k w
      = putObjectRecord k (c\<lparr>Object_Properties := fmupd ''shotsCurrent'' (itoa n) (Object_Properties c)\<rparr>) w)"
    using assms pickupContainerCount_put by blast
  moreover have "pickupContainerCount [] w = w" by (simp add: pickupContainerCount_def)
  ultimately show "well_held (pickupContainerCount k w) = well_held w"
    and "where_is (pickupContainerCount k w) = where_is w"
    and "creatures (pickupContainerCount k w) = creatures w"
    by (auto simp: well_held_putObject where_is_def fun_eq_iff)
qed

lemma goldOf_MarkRoom [simp]: "goldOf (MarkRoomObjectsDirty r w) c = goldOf w c"
  by (rule goldOf_cong) simp

lemma where_is_MarkRoom [simp]: "where_is (MarkRoomObjectsDirty r w) = where_is w"
  by (rule ext) simp

lemma Pickup_cases:
  assumes "PickupMoneyObjectToCreatureGold i l c w = (r, w')"
  shows "((\<forall>x y. r \<noteq> Inr (x, y, True)) \<and> w' = w)
    \<or> (\<exists>cr ob w1 w2 w3. c \<noteq> [] \<and> i \<noteq> [] \<and> 1 \<le> valueProperty w ob
        \<and> fmlookup (creatures w) c = Some cr \<and> fmlookup (objects w) i = Some ob \<and> objectIsMoney w ob
        \<and> r = Inr (i64 (creatureGold cr + valueProperty w ob), valueProperty w ob, True)
        \<and> w1 = markCreaturePlayerDirty cr (putCreature c (withGold (i64 (creatureGold cr + valueProperty w ob)) cr) w)
        \<and> w2 = pickupContainerCount (Loc_ContainerID (Object_Location ob)) (removeObjectFromHolder i (Object_Location ob) w1)
        \<and> w3 = w2\<lparr>objects := fmdrop i (objects w2)\<rparr>
        \<and> (w' = w3 \<or> (\<exists>rm. w' = MarkRoomObjectsDirty rm w3) \<or> (\<exists>rm rm'. w' = MarkRoomObjectsDirty rm (MarkRoomObjectsDirty rm' w3))))"
  using assms unfolding PickupMoneyObjectToCreatureGold_def Let_def valueProperty_def [symmetric]
  by (simp split: if_split_asm option.split_asm) (auto simp: not_less)

text \<open>Picking up a money object credits exactly its value to the creature, removes exactly that object,
  and keeps the ownership invariant, wherever the object lies; otherwise nothing changes.\<close>

theorem Pickup_credits:
  assumes wh: "well_held w" and ids: "object_ids w" and p: "PickupMoneyObjectToCreatureGold i l c w = (r, w')"
    and leaf: "refs w (InObject i) = []" and bound: "in_i64 (goldOf w c + objectValue w i)"
  shows "if \<exists>x y. r = Inr (x, y, True)
         then goldOf w' = (goldOf w)(c := goldOf w c + objectValue w i)
              \<and> where_is w' = (where_is w)(i := None) \<and> well_held w'
         else w' = w"
proof -
  consider "\<forall>x y. r \<noteq> Inr (x, y, True)" "w' = w"
    | cr ob w1 w2 w3 where "1 \<le> valueProperty w ob"
        "fmlookup (creatures w) c = Some cr" "fmlookup (objects w) i = Some ob"
        "r = Inr (i64 (creatureGold cr + valueProperty w ob), valueProperty w ob, True)"
        "w1 = markCreaturePlayerDirty cr (putCreature c (withGold (i64 (creatureGold cr + valueProperty w ob)) cr) w)"
        "w2 = pickupContainerCount (Loc_ContainerID (Object_Location ob)) (removeObjectFromHolder i (Object_Location ob) w1)"
        "w3 = w2\<lparr>objects := fmdrop i (objects w2)\<rparr>"
        "w' = w3 \<or> (\<exists>rm. w' = MarkRoomObjectsDirty rm w3) \<or> (\<exists>rm rm'. w' = MarkRoomObjectsDirty rm (MarkRoomObjectsDirty rm' w3))"
    using Pickup_cases [OF p] by metis
  then show ?thesis
  proof cases
    case (2 cr ob w1 w2 w3)
    let ?l = "Object_Location ob" and ?k = "Loc_ContainerID (Object_Location ob)"
    let ?d = "drop_object i ?l w1"
    have g: "goldOf w c = creatureGold cr" "objectValue w i = valueProperty w ob"
      using 2(2,3) by (simp_all add: goldOf_def objectValue_lookup)
    have wh1: "well_held w1"
      using wh 2(2) by (simp add: 2(5) well_held_putCreature [of w c cr])
    have o1: "objects w1 = objects w" by (simp add: 2(5))
    have whd: "well_held ?d"
      using leaf 2(3) o1 by (intro well_held_drop [OF wh1]) (simp_all add: refs_def)
    have k: "\<exists>q. fmlookup (objects ?d) ?k = Some q \<and> Object_ID q = ?k" and ki: "?k \<noteq> i" if "?k \<noteq> []"
    proof -
      have at: "where_is w i = Some (InObject ?k)"
        using wh 2(3) that by (intro where_is_container) simp_all
      then show "?k \<noteq> i"
        using well_held_own [OF wh 2(3)] 2(3) by (auto simp: where_is_def)
      moreover obtain q where "fmlookup (objects w) ?k = Some q"
        using holders_agree_exists [OF well_heldD(1) [OF wh] at] by (auto simp: holder_exists_def)
      ultimately show "\<exists>q. fmlookup (objects ?d) ?k = Some q \<and> Object_ID q = ?k"
        using ids by (auto simp: drop_object_lookup lookup_remove_objects o1 object_ids_def)
    qed
    have "w3 = pickupContainerCount ?k ?d"
    proof (cases "?k = []")
      case True
      then show ?thesis by (simp add: 2(6,7) pickupContainerCount_def drop_object_def Let_def)
    next
      case False
      with k ki have "Object_ID (mget zeroObject (objects (removeObjectFromHolder i ?l w1)) ?k) \<noteq> i"
        by (auto simp: drop_object_lookup mget_def split: option.splits)
      with ki False show ?thesis
        by (simp add: 2(6,7) pickupContainerCount_drop drop_object_def Let_def)
    qed
    then have w3: "well_held w3" "where_is w3 = (where_is w1)(i := None)" "creatures w3 = creatures ?d"
      using k whd by (simp_all add: well_held_pickupContainerCount drop_object_where_is)
    have "where_is w1 = where_is w"
      by (rule ext) (simp add: where_is_def o1)
    moreover have "goldOf w3 = (goldOf w)(c := goldOf w c + objectValue w i)"
      using bound g by (intro ext) (simp add: goldOf_cong [OF w3(3)], simp add: 2(5))
    ultimately show ?thesis
      using w3 2(4,8) by (auto simp: fun_eq_iff)
  qed simp
qed

text \<open>The container's count is decremented once too often when it is not a property of the container
  but the length of its list: after the pickup of one of \<open>m \<ge> 2\<close> things, \<open>m - 1\<close> are left and the
  count written says \<open>m - 2\<close>.\<close>

theorem Pickup_miscounts_container:
  assumes "well_held w" and "object_ids w" and "where_is w i = Some (InObject k)"
    and "fmlookup (objects w) k = Some q" and "objectIntProperty w q ''shotsCurrent'' = None"
    and "2 \<le> length (refs w (InObject k))"
    and "PickupMoneyObjectToCreatureGold i l c w = (Inr (g, v, True), w')"
  shows "\<exists>q'. fmlookup (objects w') k = Some q'
     \<and> int (length (ObjectIDs (Object_Contents q'))) = int (length (refs w (InObject k))) - 1
     \<and> mget [] (Object_Properties q') ''shotsCurrent'' = itoa (int (length (refs w (InObject k))) - 2)"
proof -
  obtain cr ob w1 w2 w3 where ob: "fmlookup (objects w) i = Some ob"
    and w1: "w1 = markCreaturePlayerDirty cr (putCreature c (withGold (i64 (creatureGold cr + valueProperty w ob)) cr) w)"
    and w2: "w2 = pickupContainerCount (Loc_ContainerID (Object_Location ob)) (removeObjectFromHolder i (Object_Location ob) w1)"
    and w3: "w3 = w2\<lparr>objects := fmdrop i (objects w2)\<rparr>"
    and w': "w' = w3 \<or> (\<exists>rm. w' = MarkRoomObjectsDirty rm w3) \<or> (\<exists>rm rm'. w' = MarkRoomObjectsDirty rm (MarkRoomObjectsDirty rm' w3))"
    using Pickup_cases [OF assms(7)] by blast
  have h: "holderOf (Object_Location ob) = InObject k"
    using assms(3) ob by (simp add: where_is_def)
  then have lk: "Loc_ContainerID (Object_Location ob) = k" "k \<noteq> []"
    using ObjectLocation_container well_held_location [OF assms(1) ob] by simp_all
  have ki: "k \<noteq> i"
    using h well_held_own [OF assms(1) ob] by auto
  let ?r = "removeObjectFromHolder i (Object_Location ob) w1" and ?ids = "ObjectIDs (Object_Contents q)"
  let ?c = "q\<lparr>Object_Contents := \<lparr>ObjectIDs = removeID ?ids i\<rparr>\<rparr>"
  have r: "refs w (InObject k) = ?ids"
    using assms(4) by (simp add: refs_def)
  have "i \<in> set ?ids"
    using holders_agree_iff [OF well_heldD(1) [OF assms(1)], of i "InObject k"] assms(3) r by simp
  moreover have "distinct ?ids"
    using holders_agree_distinct [OF well_heldD(1) [OF assms(1)], of "InObject k"] r by simp
  ultimately have len: "length (removeID ?ids i) = length ?ids - 1"
    by (rule objrefs.length_del [rotated])
  have c: "fmlookup (objects ?r) k = Some ?c"
    using assms(4) h by (simp add: lookup_remove_objects w1)
  have "objectIntProperty ?r ?c ''shotsCurrent'' = objectIntProperty w q ''shotsCurrent''"
    by (rule objectIntProperty_core) (simp_all add: w1)
  then have "objectCountPropertyOrLen ?r ?c ''shotsCurrent'' = int (length ?ids) - 1"
    using assms(5,6) r len by (simp add: objectCountPropertyOrLen_def)
  moreover have "Object_ID ?c = k"
    using assms(2,4) by (simp add: object_ids_def)
  ultimately have "fmlookup (objects w3) k = Some (?c\<lparr>Object_Properties :=
      fmupd ''shotsCurrent'' (itoa (int (length ?ids) - 2)) (Object_Properties q)\<rparr>)"
    using c lk ki assms(6) r by (simp add: w3 w2 pickupContainerCount_def Let_def mget_def)
  moreover have "objects w' = objects w3"
    using w' by auto
  ultimately show ?thesis
    using len r assms(6) by simp
qed

subsection \<open>The properties on a concrete world\<close>

theorem Transfer_conserves_gold_witness:
  "let w' = snd (TransferCreatureGold ''c1'' ''c2'' 40 demoWorld)
   in goldOf w' ''c1'' = 60 \<and> goldOf w' ''c2'' = 47 \<and> totalGold w' = totalGold demoWorld"
proof -
  have t: "TransferCreatureGold ''c1'' ''c2'' 40 demoWorld
      = (Inr (60, 47, True), snd (TransferCreatureGold ''c1'' ''c2'' 40 demoWorld))"
    by (rule run_eq) code_simp
  have g: "goldOf demoWorld ''c1'' = 100" "goldOf demoWorld ''c2'' = 7"
    by code_simp+
  show ?thesis
    using Transfer_conserves_gold [OF t] by (simp add: g in_i64_def Let_def)
qed

theorem Transfer_to_self_makes_gold_witness:
  "goldOf (snd (TransferCreatureGold ''c1'' ''c1'' 40 demoWorld)) ''c1'' = 140
   \<and> totalGold (snd (TransferCreatureGold ''c1'' ''c1'' 40 demoWorld)) = totalGold demoWorld + 40"
proof -
  have g: "goldOf demoWorld ''c1'' = 100" by code_simp
  show ?thesis
    using Transfer_to_self_makes_gold [of "''c1''" 40 demoWorld] by (simp add: g in_i64_def)
qed

definition demoDeposited :: World where
  "demoDeposited = snd (DepositCreatureGoldToObjectValue ''c1'' ''bag'' 25 1000 demoWorld)"

lemma demoDeposited_run:
  "DepositCreatureGoldToObjectValue ''c1'' ''bag'' 25 1000 demoWorld = (Inr (75, 25, True, True), demoDeposited)"
  unfolding demoDeposited_def by (rule run_eq) code_simp

lemma demo_values: "goldOf demoWorld ''c1'' = 100" "objectValue demoWorld ''bag'' = 0"
  by code_simp+

theorem Deposit_conserves_witness:
  "goldOf demoDeposited ''c1'' = 75 \<and> objectValue demoDeposited ''bag'' = 25"
  using Deposit_conserves [OF demoDeposited_run] by (simp add: demo_values in_i64_def)

theorem Deposit_Withdraw_roundtrip_witness:
  "\<exists>w2. WithdrawObjectValueToCreatureGold ''bag'' ''c1'' 25 demoDeposited = (Inr (100, 0, True), w2)
      \<and> goldOf w2 = goldOf demoWorld"
  using Deposit_Withdraw_roundtrip [OF demoDeposited_run] by (auto simp: demo_values in_i64_def)

theorem Sell_exchanges_witness:
  "let w' = snd (SellObjectFromCreatureInventory ''sword'' ''c1'' 15 demoWorld)
   in well_held w' \<and> goldOf w' ''c1'' = 115 \<and> where_is w' ''sword'' = None"
proof -
  have "SellObjectFromCreatureInventory ''sword'' ''c1'' 15 demoWorld
      = (Inr (115, True), snd (SellObjectFromCreatureInventory ''sword'' ''c1'' 15 demoWorld))"
    by (rule run_eq) code_simp
  from Sell_exchanges [OF well_held_demoWorld this] show ?thesis
    by (simp add: demo_values in_i64_def Let_def)
qed

theorem Repair_debits_witness:
  "let w' = snd (RepairCreatureInventoryObject ''sword'' ''c1'' 30 (fmap_of_list [(''shotsCurrent'', ''9'')]) [] demoWorld)
   in goldOf w' ''c1'' = 70 \<and> well_held w'"
proof -
  let ?r = "RepairCreatureInventoryObject ''sword'' ''c1'' 30 (fmap_of_list [(''shotsCurrent'', ''9'')]) [] demoWorld"
  have "?r = (Inr (70, True, True), snd ?r)"
    by (rule run_eq) code_simp
  from Repair_debits [OF this] show ?thesis
    by (simp add: demo_values in_i64_def Let_def well_held_demoWorld)
qed

definition demoCoins :: ObjectInstance where
  "demoCoins = zeroObject\<lparr>Object_ID := ''coins'', Object_PrototypeID := ''pm'', Object_DisplayNameOverride := ''coins'',
     Object_Location := containerLocation ''bag'',
     Object_Properties := fmap_of_list [(''kind'', ''money''), (''value'', ''30'')]\<rparr>"

definition demoPurse :: World where
  "demoPurse = put_object demoCoins demoFilled"

lemma well_held_demoPurse: "well_held demoPurse"
  unfolding demoPurse_def by (rule well_held_put [OF well_held_demoFilled]; code_simp)

lemma object_ids_put:
  assumes "object_ids w" and "holder_exists w (holderOf (Object_Location p))"
  shows "object_ids (put_object p w)"
  using assms unfolding object_ids_def put_object_def
  by (auto simp: lookup_add_objects mget_def holder_exists_def split: if_splits option.splits)

lemma object_ids_demoPurse: "object_ids demoPurse"
proof -
  have "object_ids demoBase"
    by (simp add: object_ids_def demoBase_def emptyWorld_def)
  then have "object_ids (put_object demoBag demoBase)"
    by (rule object_ids_put) code_simp
  then have "object_ids demoFilled"
    unfolding demoFilled_def by (rule object_ids_put) code_simp
  then show ?thesis
    unfolding demoPurse_def by (rule object_ids_put) code_simp
qed

definition demoPicked :: World where
  "demoPicked = snd (PickupMoneyObjectToCreatureGold ''coins'' (containerLocation ''bag'') ''c1'' demoPurse)"

lemma demoPicked_run:
  "PickupMoneyObjectToCreatureGold ''coins'' (containerLocation ''bag'') ''c1'' demoPurse = (Inr (130, 30, True), demoPicked)"
  unfolding demoPicked_def by (rule run_eq) code_simp

theorem Pickup_credits_witness: "goldOf demoPicked ''c1'' = 130 \<and> where_is demoPicked ''coins'' = None \<and> well_held demoPicked"
proof -
  have "goldOf demoPurse ''c1'' = 100" "objectValue demoPurse ''coins'' = 30" "refs demoPurse (InObject ''coins'') = []"
    by code_simp+
  then show ?thesis
    using Pickup_credits [OF well_held_demoPurse object_ids_demoPurse demoPicked_run] by (simp add: in_i64_def)
qed

theorem Pickup_miscounts_container_witness:
  "\<exists>q. fmlookup (objects demoPicked) ''bag'' = Some q \<and> length (ObjectIDs (Object_Contents q)) = 1
     \<and> mget [] (Object_Properties q) ''shotsCurrent'' = ''0''"
proof -
  obtain q where q: "fmlookup (objects demoPurse) ''bag'' = Some q"
    by (cases "fmlookup (objects demoPurse) ''bag''") (use well_held_no_children(1) [OF well_held_demoPurse, of "''bag''" "''coins''"] in code_simp)
  have "map_option (\<lambda>q. objectIntProperty demoPurse q ''shotsCurrent'') (fmlookup (objects demoPurse) ''bag'') = Some None"
    by code_simp
  then have s: "objectIntProperty demoPurse q ''shotsCurrent'' = None"
    using q by simp
  have at: "where_is demoPurse ''coins'' = Some (InObject ''bag'')" and two: "length (refs demoPurse (InObject ''bag'')) = 2"
    and itoa0: "itoa 0 = ''0''"
    by code_simp+
  show ?thesis
    using Pickup_miscounts_container [OF well_held_demoPurse object_ids_demoPurse at q s _ demoPicked_run] two itoa0 by auto
qed

end
