(* ===== verification/FreshIDs.thy ===== *)
theory FreshIDs
  imports Gold
begin

text \<open>
  The searches for an unused id (\<^verbatim>\<open>nextObjectCloneIDLocked\<close> in \<^verbatim>\<open>object.go\<close>,
  \<^verbatim>\<open>nextCreatureCloneIDLocked\<close> in \<^verbatim>\<open>dm_support.go\<close>, the bank root searches in \<^verbatim>\<open>player.go\<close> and
  \<^verbatim>\<open>bank.go\<close>): endless loops in the code that count up until a candidate is no key of the map.
  They end because the candidates are different from each other and the map is finite. What their
  callers rely on is the locale \<open>fresh_search\<close>.
\<close>

subsection \<open>The interface\<close>

locale fresh_search =
  fixes candidate :: "nat \<Rightarrow> string" and first :: nat and search :: "(string, 'v) fmap \<Rightarrow> string"
  assumes search_least: "\<exists>j \<ge> first. search m = candidate j \<and> fmlookup m (candidate j) = None
            \<and> (\<forall>k. first \<le> k \<and> k < j \<longrightarrow> fmlookup m (candidate k) \<noteq> None)"
begin

lemma fresh: "fmlookup m (search m) = None"
  using search_least [of m] by auto

lemma is_candidate: "\<exists>j \<ge> first. search m = candidate j"
  using search_least [of m] by auto

lemma skips_no_free: "first \<le> k \<Longrightarrow> fmlookup m (candidate k) = None \<Longrightarrow> \<exists>j \<le> k. search m = candidate j"
  using search_least [of m] by (metis not_le)

end

subsection \<open>The loop\<close>

definition numbered :: "bool \<Rightarrow> string \<Rightarrow> nat \<Rightarrow> string" where
  "numbered pad base i = base @ (if pad then pad06 i else itoa (int i))"

lemma inj_numbered: "inj (numbered pad base)"
  using inj_pad06 inj_itoa_int by (cases pad) (simp_all add: inj_def numbered_def)

function fresh_loop :: "bool \<Rightarrow> string \<Rightarrow> (string, 'v) fmap \<Rightarrow> nat \<Rightarrow> string" where
  "fresh_loop pad base m i =
     (if fmlookup m (numbered pad base i) = None then numbered pad base i
      else fresh_loop pad base m (Suc i))"
  by pat_completeness auto
termination
proof (relation "measure (\<lambda>(pad, base, m, i). card {k \<in> fmdom' m. \<exists>j \<ge> i. k = numbered pad base j})")
  fix pad base and m :: "(string, 'v) fmap" and i
  assume "fmlookup m (numbered pad base i) \<noteq> None"
  let ?S = "\<lambda>i. {k \<in> fmdom' m. \<exists>j \<ge> i. k = numbered pad base j}"
  have "numbered pad base i \<in> ?S i"
    using \<open>fmlookup m (numbered pad base i) \<noteq> None\<close> by (auto simp: fmlookup_dom'_iff)
  moreover have "numbered pad base i \<notin> ?S (Suc i)"
    by (auto simp: inj_eq [OF inj_numbered])
  moreover have "?S (Suc i) \<subseteq> ?S i"
    using Suc_leD by blast
  ultimately have "?S (Suc i) \<subset> ?S i"
    by blast
  then show "((pad, base, m, Suc i), pad, base, m, i) \<in> measure (\<lambda>(pad, base, m, i). card (
      {k \<in> fmdom' m. \<exists>j \<ge> i. k = numbered pad base j}))"
    by (simp add: psubset_card_mono)
qed simp

declare fresh_loop.simps [simp del]

lemma fresh_loop_least:
  "\<exists>j \<ge> i. fresh_loop pad base m i = numbered pad base j \<and> fmlookup m (numbered pad base j) = None
     \<and> (\<forall>k. i \<le> k \<and> k < j \<longrightarrow> fmlookup m (numbered pad base k) \<noteq> None)"
proof (induction pad base m i rule: fresh_loop.induct)
  case (1 pad base m i)
  show ?case
  proof (cases "fmlookup m (numbered pad base i) = None")
    case True
    then show ?thesis by (subst fresh_loop.simps) auto
  next
    case False
    from "1.IH" [OF this] obtain j where j: "Suc i \<le> j"
      "fresh_loop pad base m (Suc i) = numbered pad base j" "fmlookup m (numbered pad base j) = None"
      "\<forall>k. Suc i \<le> k \<and> k < j \<longrightarrow> fmlookup m (numbered pad base k) \<noteq> None"
      by blast
    have "\<forall>k. i \<le> k \<and> k < j \<longrightarrow> fmlookup m (numbered pad base k) \<noteq> None"
      using False j(4) by (metis le_antisym not_less_eq_eq)
    moreover have "fresh_loop pad base m i = numbered pad base j"
      using False j(2) by (subst fresh_loop.simps) auto
    ultimately show ?thesis
      using j(1,3) by (meson Suc_leD)
  qed
qed

subsection \<open>The searches\<close>

definition clone_base :: "string \<Rightarrow> string \<Rightarrow> string" where
  "clone_base zero sourceID =
     (let base = trimSpace sourceID in if base = [] then zero else base) @ '':clone:''"

definition nextObjectCloneID :: "World \<Rightarrow> ObjectInstanceID \<Rightarrow> ObjectInstanceID" where
  "nextObjectCloneID w sourceID = fresh_loop True (clone_base ''object'' sourceID) (objects w) 1"

definition nextCreatureCloneID :: "World \<Rightarrow> CreatureID \<Rightarrow> CreatureID" where
  "nextCreatureCloneID w sourceID = fresh_loop True (clone_base ''creature'' sourceID) (creatures w) 1"

definition nextPlayerBankRootID :: "World \<Rightarrow> string \<Rightarrow> ObjectInstanceID" where
  "nextPlayerBankRootID w ownerName =
     (let base = ''object:bank-root:'' @ ownerName
      in if fmlookup (objects w) base = None then base else fresh_loop False (base @ '':'') (objects w) 2)"

definition nextFamilyBankRootID :: "World \<Rightarrow> string \<Rightarrow> ObjectInstanceID" where
  "nextFamilyBankRootID w ownerName =
     (let base = ''object:family-bank-root:'' @ ownerName
      in if fmlookup (objects w) base = None then base else fresh_loop False (base @ '':'') (objects w) 2)"

definition root_candidate :: "string \<Rightarrow> nat \<Rightarrow> string" where
  "root_candidate base j = (if j \<le> 1 then base else numbered False (base @ '':'') j)"

lemma root_search_least:
  "\<exists>j \<ge> 1. (if fmlookup m base = None then base else fresh_loop False (base @ '':'') m 2) = root_candidate base j
     \<and> fmlookup m (root_candidate base j) = None
     \<and> (\<forall>k. 1 \<le> k \<and> k < j \<longrightarrow> fmlookup m (root_candidate base k) \<noteq> None)"
proof (cases "fmlookup m base = None")
  case True
  then show ?thesis by (intro exI [of _ 1]) (simp add: root_candidate_def)
next
  case False
  from fresh_loop_least [of 2 False "base @ '':''" m] obtain j where "2 \<le> j"
    "fresh_loop False (base @ '':'') m 2 = numbered False (base @ '':'') j"
    "fmlookup m (numbered False (base @ '':'') j) = None"
    "\<forall>k. 2 \<le> k \<and> k < j \<longrightarrow> fmlookup m (numbered False (base @ '':'') k) \<noteq> None"
    by blast
  with False show ?thesis
    by (intro exI [of _ j]) (auto simp: root_candidate_def)
qed

interpretation objclone: fresh_search "numbered True (clone_base ''object'' sourceID)" 1
    "\<lambda>m. fresh_loop True (clone_base ''object'' sourceID) m 1" for sourceID
  by unfold_locales (rule fresh_loop_least)

interpretation crtclone: fresh_search "numbered True (clone_base ''creature'' sourceID)" 1
    "\<lambda>m. fresh_loop True (clone_base ''creature'' sourceID) m 1" for sourceID
  by unfold_locales (rule fresh_loop_least)

interpretation bankroot: fresh_search "root_candidate base" 1
    "\<lambda>m. if fmlookup m base = None then base else fresh_loop False (base @ '':'') m 2" for base
  by unfold_locales (rule root_search_least)

lemma nextObjectCloneID_fresh: "fmlookup (objects w) (nextObjectCloneID w src) = None"
  unfolding nextObjectCloneID_def by (rule objclone.fresh)

lemma nextCreatureCloneID_fresh: "fmlookup (creatures w) (nextCreatureCloneID w src) = None"
  unfolding nextCreatureCloneID_def by (rule crtclone.fresh)

lemma nextBankRootID_fresh:
  "fmlookup (objects w) (nextPlayerBankRootID w owner) = None"
  "fmlookup (objects w) (nextFamilyBankRootID w owner) = None"
  unfolding nextPlayerBankRootID_def nextFamilyBankRootID_def Let_def by (rule bankroot.fresh)+

lemma nextObjectCloneID_nonempty [simp]: "nextObjectCloneID w src \<noteq> []"
  using objclone.is_candidate [of src "objects w"]
  by (auto simp: nextObjectCloneID_def numbered_def clone_base_def)

text \<open>The clone id search returns, and returns the first unused id of the series
  \<^verbatim>\<open>base:clone:000001\<close>, \<^verbatim>\<open>base:clone:000002\<close>, and so on: an id no object has, with every
  earlier one taken.\<close>

theorem nextObjectCloneID_first_free:
  "\<exists>j \<ge> 1. nextObjectCloneID w src = clone_base ''object'' src @ pad06 j
      \<and> fmlookup (objects w) (nextObjectCloneID w src) = None
      \<and> {k. 1 \<le> k \<and> k < j} \<subseteq> {k. clone_base ''object'' src @ pad06 k \<in> fmdom' (objects w)}"
  using objclone.search_least [of src "objects w"]
  by (auto simp: nextObjectCloneID_def numbered_def fmlookup_dom'_iff)

end
