(* ===== verification/Trees.thy ===== *)
theory Trees
  imports FreshIDs
begin

text \<open>
  Deleting an object with everything inside it (\<^verbatim>\<open>object.go\<close> \<^verbatim>\<open>deleteObjectTreeLocked\<close>), and the
  dirty mark that goes to the outermost holder of an object. The recursion of the code threads a
  set of visited ids; here it carries fuel, one unit per level, and it is proved that more fuel
  than there are unvisited objects is always enough.
\<close>

subsection \<open>Marking the outermost holder\<close>

function mark_location :: "ObjectLocation \<Rightarrow> ObjectInstanceID list \<Rightarrow> World \<Rightarrow> World" where
  "mark_location l seen w =
     (if \<not> IsZero (Loc_RoomID l) then MarkRoomObjectsDirty (Loc_RoomID l) w
      else if \<not> IsZero (Loc_CreatureID l) then
        (case fmlookup (creatures w) (Loc_CreatureID l) of
           None \<Rightarrow> w | Some creature \<Rightarrow> markCreaturePlayerDirty creature w)
      else if \<not> IsZero (Loc_BankID l) then MarkBankDirty (Loc_BankID l) w
      else if \<not> IsZero (Loc_ContainerID l) then
        (if Loc_ContainerID l \<in> set seen then w
         else case fmlookup (objects w) (Loc_ContainerID l) of
           None \<Rightarrow> w
         | Some container \<Rightarrow> mark_location (Object_Location container) (Loc_ContainerID l # seen) w)
      else w)"
  by pat_completeness auto
termination
proof (relation "measure (\<lambda>(l, seen, w). card (fmdom' (objects w) - set seen))")
  fix l :: ObjectLocation and seen and w :: World and container
  assume "Loc_ContainerID l \<notin> set seen" and "fmlookup (objects w) (Loc_ContainerID l) = Some container"
  then have "Loc_ContainerID l \<in> fmdom' (objects w) - set seen"
    by (auto simp: fmlookup_dom'_iff)
  then have "card (fmdom' (objects w) - set seen - {Loc_ContainerID l}) < card (fmdom' (objects w) - set seen)"
    by (intro card_Diff1_less) auto
  then show "((Object_Location container, Loc_ContainerID l # seen, w), l, seen, w)
      \<in> measure (\<lambda>(l, seen, w). card (fmdom' (objects w) - set seen))"
    by (simp add: Diff_insert2 [symmetric] insert_commute) (metis Diff_insert)
qed simp

declare mark_location.simps [simp del]

definition markObjectLocationDirty :: "ObjectLocation \<Rightarrow> World \<Rightarrow> World" where
  "markObjectLocationDirty l w = mark_location l [] w"

lemma mark_location_frame:
  "rooms (mark_location l seen w) = rooms w \<and> creatures (mark_location l seen w) = creatures w
   \<and> banks (mark_location l seen w) = banks w \<and> objects (mark_location l seen w) = objects w
   \<and> prototypes (mark_location l seen w) = prototypes w \<and> clock (mark_location l seen w) = clock w"
proof (induction l seen w rule: mark_location.induct)
  case (1 l seen w)
  then show ?case
    by (subst (1 2 3 4 5 6) mark_location.simps) (auto split: option.splits)
qed

lemma markObjectLocationDirty_frame [simp]:
  "rooms (markObjectLocationDirty l w) = rooms w" "creatures (markObjectLocationDirty l w) = creatures w"
  "banks (markObjectLocationDirty l w) = banks w" "objects (markObjectLocationDirty l w) = objects w"
  "prototypes (markObjectLocationDirty l w) = prototypes w" "clock (markObjectLocationDirty l w) = clock w"
  using mark_location_frame by (simp_all add: markObjectLocationDirty_def)

lemma well_held_markObjectLocationDirty [simp]: "well_held (markObjectLocationDirty l w) = well_held w"
  by (rule well_held_cong) simp_all

lemma where_is_markObjectLocationDirty [simp]: "where_is (markObjectLocationDirty l w) = where_is w"
  by (rule ext, rule where_is_cong) simp

lemma refs_markObjectLocationDirty [simp]: "refs (markObjectLocationDirty l w) h = refs w h"
  by (rule refs_cong) simp_all

subsection \<open>Deletion\<close>

fun delete_tree :: "nat \<Rightarrow> ObjectInstanceID \<Rightarrow> ObjectInstanceID list \<Rightarrow> World \<Rightarrow> (ObjectInstanceID list \<times> World) option"
  and delete_children :: "nat \<Rightarrow> ObjectInstanceID list \<Rightarrow> ObjectInstanceID list \<Rightarrow> World \<Rightarrow> (ObjectInstanceID list \<times> World) option"
where
  "delete_tree 0 objectID seen w = None"
| "delete_tree (Suc fuel) objectID seen w =
     (if IsZero objectID then Some (seen, w)
      else if objectID \<in> set seen then Some (seen, w)
      else case fmlookup (objects w) objectID of
        None \<Rightarrow> Some (objectID # seen, w)
      | Some object \<Rightarrow>
          (case delete_children fuel (ObjectIDs (Object_Contents object)) (objectID # seen)
                  (markObjectLocationDirty (Object_Location object) w) of
             None \<Rightarrow> None
           | Some (seen, w) \<Rightarrow> Some (seen, drop_object objectID (Object_Location object) w)))"
| "delete_children fuel [] seen w = Some (seen, w)"
| "delete_children fuel (childID # rest) seen w =
     (case delete_tree fuel childID seen w of
        None \<Rightarrow> None
      | Some (seen, w) \<Rightarrow> delete_children fuel rest seen w)"

definition deleteObjectTree :: "ObjectInstanceID \<Rightarrow> World \<Rightarrow> World" where
  "deleteObjectTree objectID w =
     (case delete_tree (Suc (card (fmdom' (objects w)))) objectID [] w of None \<Rightarrow> w | Some (seen, w) \<Rightarrow> w)"

definition DestroyObject :: "ObjectInstanceID \<Rightarrow> World \<Rightarrow> World" where
  "DestroyObject objectID w = deleteObjectTree objectID w"

subsection \<open>Enough fuel\<close>

lemma drop_object_dom: "fmdom' (objects (drop_object i l w)) \<subseteq> fmdom' (objects w)"
  by (auto simp: fmlookup_dom'_iff drop_object_lookup lookup_remove_objects split: if_splits)

lemma delete_shrinks:
  "delete_tree n i seen w = Some (s, v) \<Longrightarrow> set seen \<subseteq> set s \<and> fmdom' (objects v) \<subseteq> fmdom' (objects w)"
  "delete_children n is seen w = Some (s, v) \<Longrightarrow> set seen \<subseteq> set s \<and> fmdom' (objects v) \<subseteq> fmdom' (objects w)"
proof (induction n i seen w and n "is" seen w arbitrary: s v and s v rule: delete_tree_delete_children.induct)
  case (2 fuel i seen w)
  from "2.prems" show ?case
  proof (cases "IsZero i \<or> i \<in> set seen \<or> fmlookup (objects w) i = None")
    case False
    then obtain p where p: "fmlookup (objects w) i = Some p" by auto
    with False "2.prems" obtain s' v' where
      d: "delete_children fuel (ObjectIDs (Object_Contents p)) (i # seen) (markObjectLocationDirty (Object_Location p) w) = Some (s', v')"
      and "s = s'" and "v = drop_object i (Object_Location p) v'"
      by (auto split: option.splits)
    with "2.IH" [OF _ _ p d] False drop_object_dom show ?thesis
      by fastforce
  qed (auto split: if_splits)
next
  case (4 fuel i "is" seen w)
  then show ?case by (fastforce split: option.splits)
qed auto

lemma card_shrink:
  assumes "set seen \<subseteq> set s" and "fmdom' (objects v) \<subseteq> fmdom' (objects w)"
  shows "card (fmdom' (objects v) - set s) \<le> card (fmdom' (objects w) - set seen)"
  using assms by (intro card_mono) auto

lemma delete_enough:
  "card (fmdom' (objects w) - set seen) < n \<Longrightarrow> \<exists>s v. delete_tree n i seen w = Some (s, v)"
  "card (fmdom' (objects w) - set seen) < n \<Longrightarrow> \<exists>s v. delete_children n is seen w = Some (s, v)"
proof (induction n i seen w and n "is" seen w rule: delete_tree_delete_children.induct)
  case (2 fuel i seen w)
  show ?case
  proof (cases "IsZero i \<or> i \<in> set seen \<or> fmlookup (objects w) i = None")
    case False
    then obtain p where p: "fmlookup (objects w) i = Some p" by auto
    have "i \<in> fmdom' (objects w) - set seen"
      using p False by (simp add: fmdom'I)
    then have "fmdom' (objects w) - set (i # seen) \<subset> fmdom' (objects w) - set seen"
      by auto
    then have "card (fmdom' (objects w) - set (i # seen)) < card (fmdom' (objects w) - set seen)"
      by (intro psubset_card_mono) auto
    with "2.prems" have lt: "card (fmdom' (objects (markObjectLocationDirty (Object_Location p) w)) - set (i # seen)) < fuel"
      by simp
    obtain s v where "delete_children fuel (ObjectIDs (Object_Contents p)) (i # seen)
        (markObjectLocationDirty (Object_Location p) w) = Some (s, v)"
      using "2.IH" [OF _ _ p lt] False by blast
    with False p show ?thesis by simp
  qed auto
next
  case (4 fuel i "is" seen w)
  then obtain s v where d: "delete_tree fuel i seen w = Some (s, v)" by blast
  with "4.prems" delete_shrinks(1) [OF d] card_shrink [of seen s v w]
  have "card (fmdom' (objects v) - set s) < fuel" by linarith
  with "4.IH"(2) [OF d] d show ?case by auto
qed auto

subsection \<open>What a deletion removes\<close>

definition loc :: "World \<Rightarrow> ObjectInstanceID \<Rightarrow> ObjectLocation option" where
  "loc w j = map_option Object_Location (fmlookup (objects w) j)"

lemma where_is_loc: "where_is w j = map_option holderOf (loc w j)"
  by (simp add: where_is_def loc_def option.map_comp o_def)

lemma loc_None: "loc w j = None \<longleftrightarrow> fmlookup (objects w) j = None"
  by (simp add: loc_def)

lemma container_of_loc:
  "container_of w j = (case loc w j of None \<Rightarrow> None | Some l \<Rightarrow> if Loc_ContainerID l = [] then None else Some (Loc_ContainerID l))"
  by (simp add: container_of_def loc_def split: option.split)

lemma loc_drop: "loc (drop_object i l w) j = (if j = i then None else loc w j)"
  by (simp add: loc_def drop_object_lookup lookup_remove_objects option.map_comp o_def)

lemma inside_linear: "inside w j a \<Longrightarrow> inside w j b \<Longrightarrow> inside w a b \<or> inside w b a"
proof (induction rule: inside.induct)
  case (inside_step i k j)
  from inside_step.prems show ?case
  proof (cases rule: inside.cases)
    case inside_refl
    with inside_step.hyps show ?thesis by (auto intro: inside.inside_step)
  next
    case (inside_step k')
    with inside_step.hyps inside_step.IH show ?thesis by simp
  qed
qed simp

lemma inside_last: "inside w j i \<Longrightarrow> j = i \<or> (\<exists>c. container_of w c = Some i \<and> inside w j c)"
  by (induction rule: inside.induct) (auto intro: inside.intros)

lemma inside_child: "container_of w c = Some i \<Longrightarrow> inside w j c \<Longrightarrow> inside w j i"
  by (rule inside_trans [OF _ inside_step [OF _ inside_refl]])

lemma acyclicD: "well_held w \<Longrightarrow> container_of w c = Some k \<Longrightarrow> \<not> inside w k c"
  by (auto simp: well_held_def containers_acyclic_def)

lemma siblings_apart:
  assumes "well_held w" and "container_of w c = Some k" and "container_of w d = Some k" and "c \<noteq> d"
    and "inside w j c"
  shows "\<not> inside w j d"
proof
  assume "inside w j d"
  with assms(5) have "inside w c d \<or> inside w d c" by (rule inside_linear)
  then show False
    using assms acyclicD by (auto elim: inside.cases)
qed

text \<open>A world from which the subtree of \<open>c\<close> is gone: the subtree of a sibling is as before.\<close>

lemma inside_after:
  assumes v: "\<And>j. loc v j = (if inside w j c then None else loc w j)"
    and cd: "\<And>j. inside w j d \<Longrightarrow> \<not> inside w j c"
  shows "inside v j d = inside w j d"
proof
  have sub: "container_of v x = Some y \<Longrightarrow> container_of w x = Some y" for x y
    by (auto simp: container_of_loc v split: if_splits)
  show "inside v j d \<Longrightarrow> inside w j d"
    by (induction rule: inside.induct) (auto intro: inside.intros sub)
next
  assume "inside w j d"
  then show "inside v j d"
    using cd
  proof (induction rule: inside.induct)
    case (inside_step i k d)
    then have "\<not> inside w i c"
      by (blast intro: inside.inside_step)
    with inside_step.hyps(1) have "container_of v i = Some k"
      by (simp add: container_of_loc v)
    with inside_step show ?case
      by (blast intro: inside.inside_step)
  qed (rule inside_refl)
qed

definition removed_tree :: "ObjectInstanceID \<Rightarrow> World \<Rightarrow> World \<Rightarrow> bool" where
  "removed_tree i w v \<longleftrightarrow> well_held v \<and> (\<forall>j. loc v j = (if inside w j i then None else loc w j))"

definition removed_trees :: "ObjectInstanceID list \<Rightarrow> World \<Rightarrow> World \<Rightarrow> bool" where
  "removed_trees is w v \<longleftrightarrow>
     well_held v \<and> (\<forall>j. loc v j = (if \<exists>c \<in> set is. inside w j c then None else loc w j))"

lemma removed_trees_Cons:
  assumes wh: "well_held w" and c: "removed_tree c w u" and cs: "removed_trees cs u v"
    and k: "\<And>d. d \<in> set (c # cs) \<Longrightarrow> container_of w d = Some k" and dist: "distinct (c # cs)"
  shows "removed_trees (c # cs) w v"
proof -
  have u: "loc u j = (if inside w j c then None else loc w j)" for j
    using c by (simp add: removed_tree_def)
  have "inside u j d = inside w j d" if "d \<in> set cs" for j d
  proof (rule inside_after [OF u])
    show "inside w j d \<Longrightarrow> \<not> inside w j c" for j
      using siblings_apart [OF wh, of d k c j] k that dist by auto
  qed
  then show ?thesis
    using cs u by (auto simp: removed_trees_def)
qed

lemma removed_tree_drop:
  assumes wh: "well_held w" and p: "fmlookup (objects w) i = Some p"
    and cs: "removed_trees (ObjectIDs (Object_Contents p)) w v"
  shows "removed_tree i w (drop_object i (Object_Location p) v)"
proof -
  let ?cs = "ObjectIDs (Object_Contents p)"
  have mem: "c \<in> set ?cs \<longleftrightarrow> container_of w c = Some i" for c
    using holders_agree_iff [OF well_heldD(1) [OF wh], of c "InObject i"] p
    by (simp add: refs_def well_held_container [OF wh])
  have v: "well_held v" "loc v j = (if \<exists>c \<in> set ?cs. inside w j c then None else loc w j)" for j
    using cs by (simp_all add: removed_trees_def)
  have ni: "\<not> inside w i c" if "c \<in> set ?cs" for c
    using acyclicD [OF wh] mem that by blast
  then have "loc v i = loc w i"
    using v(2) [of i] by auto
  then obtain p' where p': "fmlookup (objects v) i = Some p'" and l: "Object_Location p' = Object_Location p"
    using p by (auto simp: loc_def)
  have "ObjectIDs (Object_Contents p') = []"
  proof -
    have "c \<notin> set (ObjectIDs (Object_Contents p'))" for c
    proof
      assume "c \<in> set (ObjectIDs (Object_Contents p'))"
      then have "where_is v c = Some (InObject i)"
        using holders_agree_iff [OF well_heldD(1) [OF v(1)], of c "InObject i"] p' by (simp add: refs_def)
      then have "loc w c = loc v c" and "loc v c \<noteq> None" and "container_of v c = Some i"
        using v(2) [of c] well_held_container [OF v(1)] by (auto simp: where_is_loc split: if_splits)
      then have "c \<in> set ?cs"
        using mem by (simp add: container_of_loc)
      then have "\<exists>x \<in> set ?cs. inside w c x"
        using inside_refl by blast
      then show False
        using v(2) [of c] \<open>loc v c \<noteq> None\<close> by simp
    qed
    then show ?thesis
      by (metis list.set_intros(1) neq_Nil_conv)
  qed
  with p' have "well_held (drop_object i (Object_Location p') v)"
    by (intro well_held_drop [OF v(1)])
  moreover have "(j = i \<or> (\<exists>c \<in> set ?cs. inside w j c)) = inside w j i" for j
    using inside_last [of w j i] mem inside_child [of w _ i j] by (auto intro: inside_refl)
  ultimately show ?thesis
    using l v(2) by (auto simp: removed_tree_def loc_drop)
qed

text \<open>The visited set never hides an object that is still there.\<close>

definition unseen :: "World \<Rightarrow> ObjectInstanceID list \<Rightarrow> ObjectInstanceID \<Rightarrow> bool" where
  "unseen w seen i \<longleftrightarrow> (\<forall>j. inside w j i \<and> loc w j \<noteq> None \<longrightarrow> j \<notin> set seen)"

lemma delete_correct:
  "\<lbrakk>well_held w; loc w [] = None; loc w i \<noteq> None; unseen w seen i; delete_tree n i seen w = Some (s, v)\<rbrakk>
     \<Longrightarrow> removed_tree i w v \<and> set s \<subseteq> set seen \<union> {j. inside w j i}"
  "\<lbrakk>well_held w; loc w [] = None; distinct is; \<And>c. c \<in> set is \<Longrightarrow> container_of w c = Some k \<and> unseen w seen c;
    delete_children n is seen w = Some (s, v)\<rbrakk>
     \<Longrightarrow> removed_trees is w v \<and> set s \<subseteq> set seen \<union> {j. \<exists>c \<in> set is. inside w j c}"
proof (induction n i seen w and n "is" seen w arbitrary: s v and s v k rule: delete_tree_delete_children.induct)
  case (2 fuel i seen w)
  from "2.prems"(3) obtain p where p: "fmlookup (objects w) i = Some p"
    by (auto simp: loc_def)
  have i: "i \<noteq> []" "i \<notin> set seen"
    using "2.prems" by (auto simp: unseen_def intro: inside_refl)
  let ?cs = "ObjectIDs (Object_Contents p)" and ?w = "markObjectLocationDirty (Object_Location p) w"
  from "2.prems"(5) i p obtain s' v' where d: "delete_children fuel ?cs (i # seen) ?w = Some (s', v')"
    and s: "s = s'" and v: "v = drop_object i (Object_Location p) v'"
    by (auto split: option.splits)
  have same: "loc ?w j = loc w j" "container_of ?w j = container_of w j" "inside ?w j k = inside w j k" for j k
    by (simp_all add: loc_def container_of_def inside_cong_container [of ?w w])
  have mem: "c \<in> set ?cs \<longleftrightarrow> container_of w c = Some i" for c
    using holders_agree_iff [OF well_heldD(1) [OF "2.prems"(1)], of c "InObject i"] p
    by (simp add: refs_def well_held_container [OF "2.prems"(1)])
  have "distinct ?cs"
    using holders_agree_distinct [OF well_heldD(1) [OF "2.prems"(1)], of "InObject i"] p by (simp add: refs_def)
  moreover have "container_of ?w c = Some i \<and> unseen ?w (i # seen) c" if "c \<in> set ?cs" for c
  proof -
    have c: "container_of w c = Some i" using that mem by simp
    then have "inside w j i" if "inside w j c" for j
      using that inside_child [OF c] by blast
    moreover have "j \<noteq> i" if "inside w j c" for j
      using that acyclicD [OF "2.prems"(1) c] by blast
    ultimately show ?thesis
      using "2.prems"(4) c unfolding unseen_def same by auto
  qed
  ultimately have "removed_trees ?cs ?w v' \<and> set s' \<subseteq> set (i # seen) \<union> {j. \<exists>c \<in> set ?cs. inside ?w j c}"
    using "2.prems"(1,2) d by (intro "2.IH" [OF _ i(2) p]) (simp_all add: same i)
  moreover from this have "removed_trees ?cs w v'"
    by (simp add: removed_trees_def same)
  ultimately show ?case
    using removed_tree_drop [OF "2.prems"(1) p] mem inside_child [of w _ i]
    by (auto simp: v s same intro: inside_refl)
next
  case (4 fuel c cs seen w)
  from "4.prems"(5) obtain s' u where d: "delete_tree fuel c seen w = Some (s', u)"
    and r: "delete_children fuel cs s' u = Some (s, v)"
    by (auto split: option.splits)
  have kc: "container_of w d = Some k" if "d \<in> set (c # cs)" for d
    using "4.prems"(4) that by blast
  have "loc w c \<noteq> None"
    using kc [of c] by (auto simp: container_of_loc split: option.splits)
  then have u: "removed_tree c w u" and s': "set s' \<subseteq> set seen \<union> {j. inside w j c}"
    using "4.IH"(1) [OF "4.prems"(1,2) _ _ d] "4.prems"(4) by auto
  have lu: "loc u j = (if inside w j c then None else loc w j)" for j
    using u by (simp add: removed_tree_def)
  have apart: "inside w j d \<Longrightarrow> \<not> inside w j c" if "d \<in> set cs" for j d
    using siblings_apart [OF "4.prems"(1), of d k c j] kc that "4.prems"(3) by auto
  have iu: "inside u j d = inside w j d" if "d \<in> set cs" for j d
    using apart [OF that] by (rule inside_after [OF lu])
  have "container_of u d = Some k \<and> unseen u s' d" if "d \<in> set cs" for d
  proof
    have "\<not> inside w d c" using apart [OF that inside_refl] .
    then show "container_of u d = Some k"
      using kc [of d] that by (simp add: container_of_loc lu)
    show "unseen u s' d"
      using "4.prems"(4) [of d] that s' apart [OF that] by (auto simp: unseen_def iu lu split: if_splits)
  qed
  then have "removed_trees cs u v \<and> set s \<subseteq> set s' \<union> {j. \<exists>d \<in> set cs. inside u j d}"
    using u "4.prems"(2,3) by (intro "4.IH"(2) [OF d _ _ _ _ _ r]) (auto simp: removed_tree_def)
  moreover from this u kc "4.prems"(3) have "removed_trees (c # cs) w v"
    by (intro removed_trees_Cons [OF "4.prems"(1)]) auto
  ultimately show ?case
    using s' iu by auto
qed (auto simp: removed_trees_def)

lemma delete_mono:
  "delete_tree n i seen w = Some r \<Longrightarrow> n \<le> m \<Longrightarrow> delete_tree m i seen w = Some r"
  "delete_children n is seen w = Some r \<Longrightarrow> n \<le> m \<Longrightarrow> delete_children m is seen w = Some r"
proof (induction n i seen w and n "is" seen w arbitrary: m r and m r rule: delete_tree_delete_children.induct)
  case (2 fuel i seen w)
  then obtain m' where m: "m = Suc m'" and "fuel \<le> m'" by (cases m) auto
  show ?case
  proof (cases "IsZero i \<or> i \<in> set seen \<or> fmlookup (objects w) i = None")
    case True
    with "2.prems"(1) m show ?thesis by (auto split: if_splits)
  next
    case False
    then obtain p where p: "fmlookup (objects w) i = Some p" by auto
    with False "2.prems"(1) obtain q where q: "delete_children fuel (ObjectIDs (Object_Contents p)) (i # seen)
        (markObjectLocationDirty (Object_Location p) w) = Some q"
      by (auto split: option.splits)
    have "delete_children m' (ObjectIDs (Object_Contents p)) (i # seen)
        (markObjectLocationDirty (Object_Location p) w) = Some q"
      using "2.IH" [OF _ _ p q \<open>fuel \<le> m'\<close>] False by blast
    with "2.prems"(1) m p q False show ?thesis by simp
  qed
next
  case (4 fuel i "is" seen w)
  from "4.prems"(1) obtain s u where d: "delete_tree fuel i seen w = Some (s, u)"
    and r: "delete_children fuel is s u = Some r"
    by (auto split: option.splits)
  have "delete_tree m i seen w = Some (s, u)"
    using d "4.prems"(2) by (rule "4.IH"(1))
  moreover have "delete_children m is s u = Some r"
    using "4.IH"(2) [OF d refl r "4.prems"(2)] .
  ultimately show ?case by simp
qed auto

lemma deleteObjectTree_run:
  "\<exists>s. delete_tree (Suc (card (fmdom' (objects w)) + k)) i [] w = Some (s, deleteObjectTree i w)"
proof -
  obtain s v where d: "delete_tree (Suc (card (fmdom' (objects w)))) i [] w = Some (s, v)"
    using delete_enough(1) [of w "[]" "Suc (card (fmdom' (objects w)))" i] by auto
  with delete_mono(1) [OF d, of "Suc (card (fmdom' (objects w)) + k)"] show ?thesis
    by (simp add: deleteObjectTree_def)
qed

lemma deleteObjectTree_removes:
  assumes "well_held w" and "fmlookup (objects w) [] = None" and "fmlookup (objects w) i \<noteq> None"
  shows "removed_tree i w (deleteObjectTree i w)"
proof -
  obtain s where "delete_tree (Suc (card (fmdom' (objects w)) + 0)) i [] w = Some (s, deleteObjectTree i w)"
    using deleteObjectTree_run by blast
  with delete_correct(1) [OF assms(1) _ _ _ this] assms show ?thesis
    by (simp add: loc_None unseen_def)
qed

text \<open>The deletion of an object tree ends in every world, also when contents lists name missing
  objects or form a cycle: a depth of one more than the number of objects is enough, and more
  fuel gives the same world.\<close>

theorem deleteObjectTree_terminates:
  "\<exists>s. delete_tree (Suc (card (fmdom' (objects w)) + k)) i [] w = Some (s, DestroyObject i w)"
  unfolding DestroyObject_def by (rule deleteObjectTree_run)

text \<open>C5. Destroying an object removes exactly the object and everything inside it, at any depth, and
  keeps the ownership invariant: nothing is left located in a missing object.\<close>

theorem DestroyObject_removes_tree:
  assumes "well_held w" and "fmlookup (objects w) [] = None" and "fmlookup (objects w) i \<noteq> None"
  shows "well_held (DestroyObject i w)
         \<and> where_is (DestroyObject i w) = (\<lambda>j. if inside w j i then None else where_is w j)"
  using deleteObjectTree_removes [OF assms]
  by (simp add: DestroyObject_def removed_tree_def where_is_loc fun_eq_iff)

theorem DestroyObject_removes_tree_witness:
  "well_held (DestroyObject ''bag'' demoPurse)
   \<and> where_is (DestroyObject ''bag'' demoPurse) ''coins'' = None
   \<and> where_is (DestroyObject ''bag'' demoPurse) ''sword'' = None"
proof -
  have "fmlookup (objects demoPurse) [] = None" and "fmlookup (objects demoPurse) ''bag'' \<noteq> None"
    and "container_of demoPurse ''coins'' = Some ''bag''" and "container_of demoPurse ''sword'' = Some ''bag''"
    by code_simp+
  then show ?thesis
    using DestroyObject_removes_tree [OF well_held_demoPurse, of "''bag''"]
    by (auto intro: inside_refl inside_step)
qed

end
