(* ===== verification/Clones.thy ===== *)
theory Clones
  imports Trees
begin

text \<open>
  Making objects (\<^verbatim>\<open>object.go\<close>, \<^verbatim>\<open>combat.go\<close>, \<^verbatim>\<open>dm_support.go\<close>): copies of an object tree, instances of
  a prototype, and the random enchantment of a new object. The recursion over the tree carries
  fuel, one unit per level, and gives \<open>None\<close> without it; a depth above the number of objects
  below the source is enough. \<^verbatim>\<open>enchantRoll\<close> is the parameter \<open>roll\<close>, the number drawn for the
  object with the given new id.
\<close>

subsection \<open>Random enchantment\<close>

definition randomEnchantNames :: "string list" where
  "randomEnchantNames = [''ORENCH'', ''randomEnchantment'', ''randEnch'']"

definition legacyObjectRandomEnchantmentFlagBit :: int where
  "legacyObjectRandomEnchantmentFlagBit = 21"

definition objectHasRandomEnchant :: "World \<Rightarrow> ObjectInstance \<Rightarrow> bool" where
  "objectHasRandomEnchant w object =
     (if hasAnyNormalizedFlag (Meta_Tags (Object_Metadata object)) randomEnchantNames
         \<or> objectHasAnyPropertyFlag (Object_Properties object) randomEnchantNames
         \<or> metadataHasLegacyObjectFlag (Object_Metadata object) legacyObjectRandomEnchantmentFlagBit
      then True
      else if IsZero (Object_PrototypeID object) then False
      else case fmlookup (prototypes w) (Object_PrototypeID object) of
        None \<Rightarrow> False
      | Some proto \<Rightarrow>
          hasAnyNormalizedFlag (Meta_Tags (Proto_Metadata proto)) randomEnchantNames
          \<or> objectHasAnyPropertyFlag (Proto_Properties proto) randomEnchantNames
          \<or> metadataHasLegacyObjectFlag (Proto_Metadata proto) legacyObjectRandomEnchantmentFlagBit)"

definition legacyRandomEnchantAdjustment :: "int \<Rightarrow> int" where
  "legacyRandomEnchantAdjustment roll =
     (if 98 < roll then 4 else if 90 < roll then 3 else if 80 < roll then 2 else if 60 < roll then 1 else 0)"

definition applyLegacyRandomEnchantRoll :: "World \<Rightarrow> ObjectInstance \<Rightarrow> int \<Rightarrow> ObjectInstance" where
  "applyLegacyRandomEnchantRoll w object roll =
     (let adjustment = legacyRandomEnchantAdjustment roll;
          value0 = (\<lambda>v. case v of None \<Rightarrow> 0 | Some x \<Rightarrow> x);
          currentAdjustment = value0 (objectIntPropertyAny w object [''adjustment'', ''adjust'']);
          pDice = value0 (objectIntPropertyAny w object [''pDice'', ''pdice'']);
          tags = Meta_Tags (Object_Metadata object);
          tags = (if 0 < adjustment then addMetadataTags tags [''enchanted'', ''oencha''] else tags);
          pDice = (if 0 < adjustment then i64 (pDice + adjustment) else pDice);
          currentAdjustment = (if 0 < adjustment then adjustment else currentAdjustment);
          pDice = (if pDice < currentAdjustment then currentAdjustment else pDice);
          props = Object_Properties object;
          props = (if 0 < adjustment \<or> currentAdjustment \<noteq> 0
                   then fmupd ''adjustment'' (itoa currentAdjustment) props else props);
          props = (if pDice \<noteq> 0 \<or> currentAdjustment \<noteq> 0 then fmupd ''pDice'' (itoa pDice) props else props)
      in object\<lparr>Object_Properties := props, Object_Metadata := (Object_Metadata object)\<lparr>Meta_Tags := tags\<rparr>\<rparr>)"

definition applyRandomEnchantIfNeeded :: "(ObjectInstanceID \<Rightarrow> int) \<Rightarrow> World \<Rightarrow> ObjectInstance \<Rightarrow> ObjectInstance" where
  "applyRandomEnchantIfNeeded roll w object =
     (if \<not> objectHasRandomEnchant w object then object
      else applyLegacyRandomEnchantRoll w object (roll (Object_ID object)))"

lemma applyRandomEnchant_fields [simp]:
  "Object_ID (applyRandomEnchantIfNeeded roll w p) = Object_ID p"
  "Object_PrototypeID (applyRandomEnchantIfNeeded roll w p) = Object_PrototypeID p"
  "Object_Quantity (applyRandomEnchantIfNeeded roll w p) = Object_Quantity p"
  "Object_Location (applyRandomEnchantIfNeeded roll w p) = Object_Location p"
  "Object_Contents (applyRandomEnchantIfNeeded roll w p) = Object_Contents p"
  "Object_DisplayNameOverride (applyRandomEnchantIfNeeded roll w p) = Object_DisplayNameOverride p"
  by (simp_all add: applyRandomEnchantIfNeeded_def applyLegacyRandomEnchantRoll_def Let_def)

subsection \<open>Copying a tree\<close>

definition clone_of :: "(ObjectInstanceID \<Rightarrow> int) \<Rightarrow> bool \<Rightarrow> World \<Rightarrow> ObjectInstanceID \<Rightarrow> ObjectInstance \<Rightarrow> ObjectLocation \<Rightarrow> ObjectInstance" where
  "clone_of roll skipRandomEnchant w sourceID source location =
     (let clone = source\<lparr>Object_ID := nextObjectCloneID w sourceID, Object_Location := location,
            Object_Contents := \<lparr>ObjectIDs = []\<rparr>\<rparr>
      in if skipRandomEnchant then clone else applyRandomEnchantIfNeeded roll w clone)"

text \<open>
  The visited set of the code holds the ids on the path from the root: every return that lets the
  run go on removes the id again, so that the set is an argument here and no result.
\<close>

fun clone_tree :: "nat \<Rightarrow> (ObjectInstanceID \<Rightarrow> int) \<Rightarrow> bool \<Rightarrow> ObjectInstanceID \<Rightarrow> ObjectLocation
    \<Rightarrow> ObjectInstanceID list \<Rightarrow> World \<Rightarrow> (ObjectInstanceID result \<times> World) option"
  and clone_children :: "nat \<Rightarrow> (ObjectInstanceID \<Rightarrow> int) \<Rightarrow> bool \<Rightarrow> ObjectInstanceID list \<Rightarrow> ObjectInstanceID
    \<Rightarrow> ObjectInstanceID list \<Rightarrow> World \<Rightarrow> (ObjectInstanceID result \<times> World) option"
where
  "clone_tree 0 roll skip sourceID location seen w = None"
| "clone_tree (Suc fuel) roll skip sourceID location seen w =
     (if sourceID \<in> set seen then Some (Inl (Errorf ''object tree cycle at %q'' [sourceID]), w)
      else case fmlookup (objects w) sourceID of
        None \<Rightarrow> Some (Inl (Errorf ''source object not found'' []), w)
      | Some source \<Rightarrow>
          let clone = clone_of roll skip w sourceID source location in
          (case ObjectInstance_Validate clone of
             Some err \<Rightarrow> Some (Inl err, w)
           | None \<Rightarrow>
               clone_children fuel roll skip (ObjectIDs (Object_Contents source)) (Object_ID clone)
                 (sourceID # seen) (put_object clone w)))"
| "clone_children fuel roll skip [] cloneID seen w = Some (Inr cloneID, w)"
| "clone_children fuel roll skip (childID # rest) cloneID seen w =
     (case clone_tree fuel roll skip childID (containerLocation cloneID) seen w of
        None \<Rightarrow> None
      | Some (Inl err, w) \<Rightarrow> Some (Inl (Wrapf ''clone child %q: %w'' [childID] err), deleteObjectTree cloneID w)
      | Some (Inr _, w) \<Rightarrow> clone_children fuel roll skip rest cloneID seen w)"

subsection \<open>Instances of prototypes\<close>

definition legacyCarryNumberFromCloneSource :: "ObjectInstanceID \<Rightarrow> int option" where
  "legacyCarryNumberFromCloneSource sourceID =
     (let raw = trimSpace sourceID in
      if \<not> hasPrefix raw ''legacy-carry:'' then None
      else case after_last (CHR '':'') raw of
        None \<Rightarrow> None
      | Some tail \<Rightarrow>
          if tail = [] then None
          else case atoi tail of None \<Rightarrow> None | Some number \<Rightarrow> if 0 \<le> number then Some number else None)"

definition pad02 :: "int \<Rightarrow> string" where
  "pad02 n = (let s = itoa n in replicate (2 - length s) (CHR ''0'') @ s)"

definition legacyCarryObjectPrototypeID :: "int \<Rightarrow> PrototypeID" where
  "legacyCarryObjectPrototypeID number = ''object:o'' @ pad02 (number div 100) @ '':'' @ itoa (number mod 100)"

definition prototypeIDFromCloneSource :: "World \<Rightarrow> ObjectInstanceID \<Rightarrow> PrototypeID option" where
  "prototypeIDFromCloneSource w sourceID =
     (if fmlookup (prototypes w) sourceID \<noteq> None then Some sourceID
      else case legacyCarryNumberFromCloneSource sourceID of
        None \<Rightarrow> None
      | Some number \<Rightarrow>
          if fmlookup (prototypes w) (legacyCarryObjectPrototypeID number) \<noteq> None
          then Some (legacyCarryObjectPrototypeID number) else None)"

definition prototypeTemplateObjectID :: "World \<Rightarrow> ObjectPrototype \<Rightarrow> ObjectInstanceID option" where
  "prototypeTemplateObjectID w proto =
     (let own = (case fmlookup (objects w) (Proto_ID proto) of
                   None \<Rightarrow> None
                 | Some object \<Rightarrow>
                     if Object_PrototypeID object = Proto_ID proto then Some (Object_ID object) else None)
      in case Meta_PrototypeResolution (Proto_Metadata proto) of
        None \<Rightarrow> own
      | Some resolution \<Rightarrow>
          let templateID = PR_MaterializedFromObjectInstanceID resolution in
          if IsZero templateID then own
          else case fmlookup (objects w) templateID of
            None \<Rightarrow> own
          | Some object \<Rightarrow> if Object_PrototypeID object = Proto_ID proto then Some templateID else own)"

definition instance_of :: "World \<Rightarrow> PrototypeID \<Rightarrow> ObjectPrototype \<Rightarrow> ObjectLocation \<Rightarrow> ObjectInstance" where
  "instance_of w protoID proto location =
     zeroObject\<lparr>Object_ID := nextObjectCloneID w protoID, Object_PrototypeID := protoID, Object_Quantity := 1,
       Object_Location := location, Object_Properties := Proto_Properties proto,
       Object_Metadata := noMetadata\<lparr>Meta_Tags := Meta_Tags (Proto_Metadata proto)\<rparr>\<rparr>"

definition createObjectFromPrototype ::
  "nat \<Rightarrow> (ObjectInstanceID \<Rightarrow> int) \<Rightarrow> bool \<Rightarrow> PrototypeID \<Rightarrow> ObjectLocation \<Rightarrow> World
     \<Rightarrow> (ObjectInstanceID result \<times> World) option" where
  "createObjectFromPrototype fuel roll skip protoID location w =
     (case fmlookup (prototypes w) protoID of
        None \<Rightarrow> Some (Inl (Errorf ''prototype %q not found'' [protoID]), w)
      | Some proto \<Rightarrow>
          (case prototypeTemplateObjectID w proto of
             Some templateID \<Rightarrow> clone_tree fuel roll skip templateID location [] w
           | None \<Rightarrow>
               let object = instance_of w protoID proto location;
                   object = (if skip then object else applyRandomEnchantIfNeeded roll w object)
               in (case ObjectInstance_Validate object of
                     Some err \<Rightarrow> Some (Inl err, w)
                   | None \<Rightarrow> Some (Inr (Object_ID object), put_object object w))))"

definition cloneObjectSourceToLocation ::
  "nat \<Rightarrow> (ObjectInstanceID \<Rightarrow> int) \<Rightarrow> bool \<Rightarrow> ObjectInstanceID \<Rightarrow> ObjectLocation \<Rightarrow> World
     \<Rightarrow> (ObjectInstanceID result \<times> World) option" where
  "cloneObjectSourceToLocation fuel roll skip sourceID location w =
     (if fmlookup (objects w) sourceID \<noteq> None then clone_tree fuel roll skip sourceID location [] w
      else case prototypeIDFromCloneSource w sourceID of
        None \<Rightarrow> Some (Inl (Errorf ''source object or prototype not found'' []), w)
      | Some protoID \<Rightarrow> createObjectFromPrototype fuel roll skip protoID location w)"

subsection \<open>A copy adds one tree\<close>

text \<open>\<open>grown w v c l\<close>: the world \<open>v\<close> is \<open>w\<close> with a new tree of objects rooted in \<open>c\<close> at \<open>l\<close>.\<close>

definition grown :: "World \<Rightarrow> World \<Rightarrow> ObjectInstanceID \<Rightarrow> ObjectLocation \<Rightarrow> bool" where
  "grown w v c l \<longleftrightarrow> well_held v \<and> loc v [] = None \<and> loc w c = None \<and> loc v c = Some l
     \<and> (\<forall>j. inside v j c \<longrightarrow> loc w j = None) \<and> (\<forall>j. \<not> inside v j c \<longrightarrow> loc v j = loc w j)"

definition unmoved :: "World \<Rightarrow> World \<Rightarrow> bool" where
  "unmoved w v \<longleftrightarrow> well_held v \<and> (\<forall>j. loc v j = loc w j)"

definition copied :: "World \<Rightarrow> ObjectInstanceID result \<Rightarrow> World \<Rightarrow> ObjectLocation \<Rightarrow> bool" where
  "copied w r v l = (case r of Inl e \<Rightarrow> unmoved w v | Inr c \<Rightarrow> grown w v c l)"

definition keeps :: "World \<Rightarrow> World \<Rightarrow> bool" where
  "keeps w v \<longleftrightarrow> (\<forall>x. loc w x \<noteq> None \<longrightarrow> loc v x = loc w x)"

lemma grown_keeps: "grown w v c l \<Longrightarrow> keeps w v"
  by (auto simp: grown_def keeps_def)

lemma unmoved_keeps: "unmoved w v \<Longrightarrow> keeps w v"
  by (auto simp: unmoved_def keeps_def)

lemma keeps_container: "keeps w v \<Longrightarrow> container_of w j = Some k \<Longrightarrow> container_of v j = Some k"
  by (auto simp: keeps_def container_of_loc split: option.splits)

lemma keeps_inside: "inside w j k \<Longrightarrow> keeps w v \<Longrightarrow> inside v j k"
  by (induction rule: inside.induct) (auto intro: inside.intros keeps_container)

lemma container_exists:
  assumes "well_held w" and "container_of w j = Some k"
  shows "loc w k \<noteq> None"
proof -
  have "holder_exists w (InObject k)"
    using assms holders_agree_exists well_held_container well_heldD(1) by blast
  then show ?thesis
    by (auto simp: holder_exists_def loc_def)
qed

lemma keeps_inside_back:
  "inside v j k \<Longrightarrow> keeps w v \<Longrightarrow> well_held w \<Longrightarrow> loc w j \<noteq> None \<Longrightarrow> inside w j k"
proof (induction rule: inside.induct)
  case (inside_step i m k)
  then have "container_of w i = Some m"
    by (auto simp: keeps_def container_of_loc split: option.splits)
  with inside_step show ?case
    using container_exists inside.inside_step by blast
qed (auto intro: inside_refl)

lemma grown_trans:
  assumes a: "grown u w c l" and b: "grown w v d (containerLocation c)" and c: "c \<noteq> []"
  shows "grown u v c l"
proof -
  have k: "keeps w v" using b by (rule grown_keeps)
  have lc: "loc w c = Some l" "loc v c = Some l"
    using a k by (auto simp: grown_def keeps_def)
  have dc: "container_of v d = Some c"
    using b c by (simp add: grown_def container_of_loc location_defs)
  have in_d: "loc u j = None" if "inside v j d" for j
  proof -
    have "loc w j = None" using b that by (auto simp: grown_def)
    then show ?thesis
      using grown_keeps [OF a] by (auto simp: keeps_def)
  qed
  have into: "inside w j c" if "inside v j c" "\<not> inside v j d" for j
    using that
  proof (induction rule: inside.induct)
    case (inside_step i m c)
    then have "\<not> inside v m d" by (blast intro: inside.inside_step)
    moreover have "container_of w i = Some m"
      using inside_step b by (auto simp: grown_def container_of_loc)
    ultimately show ?case
      using inside_step by (blast intro: inside.inside_step)
  qed (rule inside_refl)
  have "loc u j = None" if "inside v j c" for j
    using that in_d [of j] into [OF that] a by (auto simp: grown_def)
  moreover have "loc v j = loc u j" if "\<not> inside v j c" for j
  proof -
    have "\<not> inside v j d" using that inside_child [OF dc] by blast
    then have "loc v j = loc w j" using b by (simp add: grown_def)
    moreover have "\<not> inside w j c" using that keeps_inside [OF _ k] by blast
    ultimately show ?thesis using a by (simp add: grown_def)
  qed
  ultimately show ?thesis
    using a b lc by (simp add: grown_def)
qed

lemma put_object_grown:
  assumes wh: "well_held w" and e: "loc w [] = None" and fresh: "loc w (Object_ID p) = None" and i: "Object_ID p \<noteq> []"
    and empty: "ObjectIDs (Object_Contents p) = []" and l: "ObjectLocation_Validate (Object_Location p) = None"
    and ex: "holder_exists w (holderOf (Object_Location p))"
  shows "grown w (put_object p w) (Object_ID p) (Object_Location p)"
proof -
  let ?v = "put_object p w" and ?i = "Object_ID p" and ?k = "Loc_ContainerID (Object_Location p)"
  have f: "fmlookup (objects w) ?i = None" using fresh by (simp add: loc_None)
  have wv: "well_held ?v" using wh f empty l ex by (rule well_held_put)
  have lv: "loc ?v j = (if j = ?i then Some (Object_Location p) else loc w j)" for j
    using put_object_location [OF ex, of j] by (simp add: loc_def)
  have "container_of ?v j \<noteq> Some ?i" for j
  proof
    assume "container_of ?v j = Some ?i"
    then show False
      using well_held_no_children(2) [OF wh f, of j] acyclicD [OF wv, of j ?i]
      by (auto simp: put_object_container_of [OF ex] split: if_splits intro: inside_refl)
  qed
  then have "inside ?v j ?i \<longleftrightarrow> j = ?i" for j
    using inside_last [of ?v j ?i] by (auto intro: inside_refl)
  then show ?thesis
    using wv e fresh i by (simp add: grown_def lv)
qed

definition below :: "World \<Rightarrow> ObjectInstanceID \<Rightarrow> ObjectInstanceID set" where
  "below w i = {j. inside w j i \<and> loc w j \<noteq> None}"

lemma finite_below: "finite (below w i)"
  by (rule finite_subset [of _ "fmdom' (objects w)"]) (auto simp: below_def loc_None fmlookup_dom'_iff)

definition ok_source :: "nat \<Rightarrow> ObjectInstanceID list \<Rightarrow> ObjectLocation \<Rightarrow> World \<Rightarrow> ObjectInstanceID \<Rightarrow> bool" where
  "ok_source n seen l w src \<longleftrightarrow> loc w src \<noteq> None \<and> below w src \<inter> set seen = {} \<and> card (below w src) \<le> n
     \<and> (\<forall>k. holderOf l = InObject k \<longrightarrow> \<not> inside w k src)"

lemma ok_source_child:
  assumes wh: "well_held w" and s: "ok_source (Suc n) seen l w src" and c: "container_of w c = Some src"
  shows "ok_source n (src # seen) l w c"
proof -
  have sub: "below w c \<subseteq> below w src - {src}"
    using inside_child [OF c] acyclicD [OF wh c] by (auto simp: below_def)
  have "src \<in> below w src"
    using s by (auto simp: ok_source_def below_def intro: inside_refl)
  then have "card (below w src - {src}) \<le> n"
    using s by (auto simp: ok_source_def card_Diff_singleton)
  moreover have "card (below w c) \<le> card (below w src - {src})"
    using sub finite_below by (intro card_mono) auto
  ultimately have "card (below w c) \<le> n" by linarith
  moreover have "loc w c \<noteq> None"
    using c by (auto simp: container_of_loc split: option.splits)
  moreover have "below w c \<inter> set (src # seen) = {}"
    using s sub by (auto simp: ok_source_def)
  moreover have "\<not> inside w k c" if "holderOf l = InObject k" for k
    using s that inside_child [OF c] by (auto simp: ok_source_def)
  ultimately show ?thesis
    by (simp add: ok_source_def)
qed

lemma ok_source_grown:
  assumes wh: "well_held w0" and g: "grown w0 w cid l" and s: "ok_source n seen l w0 c"
    and cid: "cid \<noteq> []" and l: "ObjectLocation_Validate l = None" and ex: "holder_exists w0 (holderOf l)"
  shows "ok_source n seen (containerLocation cid) w c"
proof -
  have k: "keeps w0 w" using g by (rule grown_keeps)
  have c0: "loc w0 c \<noteq> None" using s by (simp add: ok_source_def)
  have lc: "loc w c = loc w0 c" using k c0 by (simp add: keeps_def)
  have out: "\<not> inside w c cid" using g c0 by (auto simp: grown_def)
  have no: "\<not> inside w cid c"
  proof
    assume "inside w cid c"
    then show False
    proof (cases rule: inside.cases)
      case inside_refl
      with out show False by (auto intro: inside.inside_refl)
    next
      case (inside_step m)
      then have m: "holderOf l = InObject m" and "inside w m c"
        using g l by (auto simp: grown_def container_of_loc ObjectLocation_container split: if_splits)
      moreover have "loc w0 m \<noteq> None"
        using ex m by (auto simp: holder_exists_def loc_None)
      ultimately show False
        using s keeps_inside_back [OF _ k wh] by (auto simp: ok_source_def)
    qed
  qed
  have sub: "below w c \<subseteq> below w0 c"
  proof
    fix j
    assume "j \<in> below w c"
    then have j: "inside w j c" "loc w j \<noteq> None" by (simp_all add: below_def)
    then have "\<not> inside w j cid"
      using no out inside_linear by blast
    then have "loc w0 j = loc w j" using g by (simp add: grown_def)
    with j keeps_inside_back [OF j(1) k wh] show "j \<in> below w0 c"
      by (simp add: below_def)
  qed
  then have "card (below w c) \<le> card (below w0 c)"
    using finite_below by (intro card_mono)
  with s sub no lc cid show ?thesis
    by (auto simp: ok_source_def)
qed

lemma grown_exists:
  assumes "grown w0 w c l" and "c \<noteq> []"
  shows "holder_exists w (holderOf (containerLocation c))"
  using assms by (auto simp: grown_def holder_exists_def loc_def)

lemma rollback:
  assumes g: "grown w0 w cid l" and u: "unmoved w v"
  shows "unmoved w0 (deleteObjectTree cid v)"
proof -
  have v: "well_held v" "loc v j = loc w j" for j
    using u by (simp_all add: unmoved_def)
  then have iv: "inside v j k = inside w j k" for j k
    by (intro inside_cong_container) (simp add: container_of_loc)
  have "removed_tree cid v (deleteObjectTree cid v)"
  proof (rule deleteObjectTree_removes [OF v(1)])
    show "fmlookup (objects v) [] = None" using g v(2) [of "[]"] by (simp add: grown_def loc_None [symmetric])
    show "fmlookup (objects v) cid \<noteq> None" using g v(2) [of cid] by (auto simp: grown_def loc_None [symmetric])
  qed
  then show ?thesis
    using g v iv by (auto simp: removed_tree_def unmoved_def grown_def)
qed

lemma clone_of_fields [simp]:
  "Object_ID (clone_of roll skip w src p l) = nextObjectCloneID w src"
  "Object_Location (clone_of roll skip w src p l) = l"
  "ObjectIDs (Object_Contents (clone_of roll skip w src p l)) = []"
  "Object_PrototypeID (clone_of roll skip w src p l) = Object_PrototypeID p"
  "Object_Quantity (clone_of roll skip w src p l) = Object_Quantity p"
  by (simp_all add: clone_of_def Let_def)

lemma clone_correct:
  "\<lbrakk>well_held w; loc w [] = None; ObjectLocation_Validate l = None; holder_exists w (holderOf l);
    1 \<le> n; ok_source n seen l w src\<rbrakk>
     \<Longrightarrow> \<exists>r v. clone_tree n roll skip src l seen w = Some (r, v) \<and> copied w r v l"
  "\<lbrakk>well_held w0; grown w0 w cid l; cid \<noteq> []; ObjectLocation_Validate l = None; holder_exists w0 (holderOf l);
    \<And>c. c \<in> set cs \<Longrightarrow> 1 \<le> n \<and> ok_source n seen l w0 c\<rbrakk>
     \<Longrightarrow> \<exists>r v. clone_children n roll skip cs cid seen w = Some (r, v) \<and> copied w0 r v l"
proof (induction n roll skip src l seen w and n roll skip cs cid seen w arbitrary: and l w0
    rule: clone_tree_clone_children.induct)
  case (2 fuel roll skip src l seen w)
  from "2.prems"(6) obtain p where p: "fmlookup (objects w) src = Some p"
    by (auto simp: ok_source_def loc_def)
  have notin: "src \<notin> set seen"
    using "2.prems"(6) by (auto simp: ok_source_def below_def intro: inside_refl)
  let ?c = "clone_of roll skip w src p l"
  show ?case
  proof (cases "ObjectInstance_Validate ?c")
    case (Some e)
    with p notin "2.prems"(1) show ?thesis
      by (auto simp: Let_def copied_def unmoved_def)
  next
    case None
    have g: "grown w (put_object ?c w) (Object_ID ?c) l"
      using put_object_grown [OF "2.prems"(1,2), of ?c] "2.prems"(3,4) nextObjectCloneID_fresh
      by (simp add: loc_None)
    have mem: "c \<in> set (ObjectIDs (Object_Contents p)) \<Longrightarrow> container_of w c = Some src" for c
      using holders_agree_iff [OF well_heldD(1) [OF "2.prems"(1)], of c "InObject src"] p
      by (simp add: refs_def well_held_container [OF "2.prems"(1)])
    have "1 \<le> fuel \<and> ok_source fuel (src # seen) l w c" if "c \<in> set (ObjectIDs (Object_Contents p))" for c
    proof -
      have ok: "ok_source fuel (src # seen) l w c"
        using ok_source_child [OF "2.prems"(1,6) mem [OF that]] .
      moreover have "c \<in> below w c"
        using ok by (auto simp: ok_source_def below_def intro: inside_refl)
      then have "1 \<le> card (below w c)"
        using finite_below [of w c] by (metis One_nat_def Suc_leI card_gt_0_iff empty_iff)
      ultimately show ?thesis by (auto simp: ok_source_def)
    qed
    then have "\<exists>r v. clone_children fuel roll skip (ObjectIDs (Object_Contents p)) (Object_ID ?c)
        (src # seen) (put_object ?c w) = Some (r, v) \<and> copied w r v l"
      using "2.prems" g p notin None by (intro "2.IH") auto
    with p notin None show ?thesis by (simp add: Let_def)
  qed
next
  case (3 fuel roll skip cid seen w)
  then show ?case by (simp add: copied_def)
next
  case (4 fuel roll skip c cs cid seen w)
  have ok: "ok_source fuel seen (containerLocation cid) w c" and n: "1 \<le> fuel"
    using ok_source_grown [OF "4.prems"(1,2) _ "4.prems"(3,4,5)] "4.prems"(6) by auto
  have "well_held w" "loc w [] = None"
    using "4.prems"(2) by (simp_all add: grown_def)
  then obtain r v where r: "clone_tree fuel roll skip c (containerLocation cid) seen w = Some (r, v)"
    and cp: "copied w r v (containerLocation cid)"
    using "4.IH"(1) [OF _ _ _ grown_exists [OF "4.prems"(2,3)] n ok] "4.prems"(3) by auto
  show ?case
  proof (cases r)
    case (Inl e)
    with cp r rollback [OF "4.prems"(2)] show ?thesis
      by (simp add: copied_def)
  next
    case (Inr d)
    with cp have "grown w v d (containerLocation cid)" by (simp add: copied_def)
    then have "grown w0 v cid l"
      using grown_trans "4.prems"(2,3) by blast
    then have "\<exists>r v'. clone_children fuel roll skip cs cid seen v = Some (r, v') \<and> copied w0 r v' l"
      using "4.prems" Inr r by (intro "4.IH"(2) [of "(r, v)" r v d]) auto
    with r Inr show ?thesis by simp
  qed
qed simp

end
