(* ===== verification/Making.thy ===== *)
theory Making
  imports Clones
begin

text \<open>
  The operations that make objects: clone to an inventory, purchase, dropped gold, instances from
  prototypes, and the roots of banks (\<^verbatim>\<open>creature.go\<close>, \<^verbatim>\<open>room.go\<close>, \<^verbatim>\<open>dm_support.go\<close>, \<^verbatim>\<open>player.go\<close>,
  \<^verbatim>\<open>bank.go\<close>). Those that copy a tree take the fuel of the copy and give \<open>None\<close> without it; the
  theorems show that the number of objects is always enough.
\<close>

subsection \<open>Operations\<close>

definition CloneObjectToCreatureInventory ::
  "nat \<Rightarrow> (ObjectInstanceID \<Rightarrow> int) \<Rightarrow> ObjectInstanceID \<Rightarrow> CreatureID \<Rightarrow> World
     \<Rightarrow> (ObjectInstanceID result \<times> World) option" where
  "CloneObjectToCreatureInventory fuel roll sourceID creatureID w =
     (if IsZero sourceID then Some (Inl (Errorf ''clone object: source object id is required'' []), w)
      else if IsZero creatureID
      then Some (Inl (Errorf ''clone object %q: creature id is required'' [sourceID]), w)
      else if fmlookup (objects w) sourceID = None \<and> prototypeIDFromCloneSource w sourceID = None
      then Some (Inl (Errorf ''clone object %q: source object not found'' [sourceID]), w)
      else if fmlookup (creatures w) creatureID = None
      then Some (Inl (Errorf ''clone object %q: target creature %q not found'' [sourceID, creatureID]), w)
      else case cloneObjectSourceToLocation fuel roll False sourceID (inventoryLocation creatureID) w of
        None \<Rightarrow> None
      | Some (Inl err, w) \<Rightarrow> Some (Inl (Wrapf ''clone object %q: %w'' [sourceID] err), w)
      | Some (Inr cloneID, w) \<Rightarrow>
          Some (Inr cloneID, markCreaturePlayerDirty (mget zeroCreature (creatures w) creatureID) w))"

text \<open>The values are \<^verbatim>\<open>newID\<close>, \<^verbatim>\<open>remainingGold\<close> and \<^verbatim>\<open>affordable\<close>.\<close>

definition PurchaseObjectToCreatureInventory ::
  "nat \<Rightarrow> (ObjectInstanceID \<Rightarrow> int) \<Rightarrow> ObjectInstanceID \<Rightarrow> CreatureID \<Rightarrow> int \<Rightarrow> World
     \<Rightarrow> ((ObjectInstanceID \<times> int \<times> bool) result \<times> World) option" where
  "PurchaseObjectToCreatureInventory fuel roll sourceID creatureID price w =
     (if IsZero sourceID then Some (Inl (Errorf ''purchase object: source object id is required'' []), w)
      else if IsZero creatureID
      then Some (Inl (Errorf ''purchase object %q: creature id is required'' [sourceID]), w)
      else if price < 0
      then Some (Inl (Errorf ''purchase object %q: price cannot be negative'' [sourceID]), w)
      else if fmlookup (objects w) sourceID = None \<and> prototypeIDFromCloneSource w sourceID = None
      then Some (Inl (Errorf ''purchase object %q: source object not found'' [sourceID]), w)
      else case fmlookup (creatures w) creatureID of
        None \<Rightarrow> Some (Inl (Errorf ''purchase object %q: target creature %q not found'' [sourceID, creatureID]), w)
      | Some creature \<Rightarrow>
          let gold = creatureGold creature in
          if gold < price then Some (Inr ([], gold, False), w)
          else
            (case cloneObjectSourceToLocation fuel roll True sourceID (inventoryLocation creatureID) w of
               None \<Rightarrow> None
             | Some (Inl err, w) \<Rightarrow> Some (Inl (Wrapf ''purchase object %q: %w'' [sourceID] err), w)
             | Some (Inr newID, w) \<Rightarrow>
                 let creature = mget zeroCreature (creatures w) creatureID;
                     remainingGold = i64 (gold - price);
                     w = putCreature creatureID (withGold remainingGold creature) w
                 in Some (Inr (newID, remainingGold, True), markCreaturePlayerDirty creature w)))"

text \<open>The display names the code writes in Korean, as UTF-8.\<close>

definition utf8 :: "nat list \<Rightarrow> string" where
  "utf8 bs = map char_of bs"

definition moneyName :: string where "moneyName = utf8 [235, 143, 136]"
definition moneyUnit :: string where "moneyUnit = utf8 [235, 131, 165]"
definition bankRootName :: string where "bankRootName = utf8 [235, 179, 180, 234, 180, 128, 237, 149, 168]"
definition familyStoreName :: string where
  "familyStoreName = utf8 [237, 140, 168, 234, 177, 176, 235, 166, 172, 32, 236, 176, 189, 234, 179, 160]"
definition familySafeName :: string where
  "familySafeName = utf8 [237, 140, 168, 234, 177, 176, 235, 166, 172, 32, 234, 184, 136, 234, 179, 160]"

definition ensurePrototype :: "PrototypeID \<Rightarrow> string \<Rightarrow> string \<Rightarrow> (string, string) fmap \<Rightarrow> World \<Rightarrow> World" where
  "ensurePrototype protoID kind displayName props w =
     (if fmlookup (prototypes w) protoID \<noteq> None then w
      else w\<lparr>prototypes := fmupd protoID
        \<lparr>Proto_ID = protoID, Proto_Kind = kind, Proto_DisplayName = displayName, Proto_Description = [],
         Proto_Keywords = [], Proto_Properties = props, Proto_Metadata = noMetadata\<rparr>
        (prototypes w)\<rparr>)"

definition moneyObject :: "ObjectInstanceID \<Rightarrow> RoomID \<Rightarrow> int \<Rightarrow> ObjectInstance" where
  "moneyObject objectID roomID amount =
     zeroObject\<lparr>Object_ID := objectID, Object_PrototypeID := ''prototype:money'',
       Object_DisplayNameOverride := itoa amount @ moneyUnit, Object_Location := roomLocation roomID,
       Object_Properties := fmap_of_list [(''kind'', ObjectKindMoney), (''type'', ''10''), (''value'', itoa amount)]\<rparr>"

text \<open>The values are \<^verbatim>\<open>objectID\<close>, \<^verbatim>\<open>remainingGold\<close> and \<^verbatim>\<open>ok\<close>.\<close>

definition DropCreatureGoldToRoom ::
  "CreatureID \<Rightarrow> RoomID \<Rightarrow> int \<Rightarrow> World \<Rightarrow> (ObjectInstanceID \<times> int \<times> bool) result \<times> World" where
  "DropCreatureGoldToRoom creatureID roomID amount w =
     (if IsZero creatureID
      then (Inl (Errorf ''drop gold to room %q: creature id is required'' [roomID]), w)
      else if IsZero roomID
      then (Inl (Errorf ''drop gold from %q: room id is required'' [creatureID]), w)
      else if amount < 1
      then (Inl (Errorf ''drop gold from %q to room %q: amount must be positive'' [creatureID, roomID]), w)
      else case fmlookup (creatures w) creatureID of
        None \<Rightarrow> (Inl (Errorf ''drop gold from %q: creature not found'' [creatureID]), w)
      | Some creature \<Rightarrow>
          if fmlookup (rooms w) roomID = None
          then (Inl (Errorf ''drop gold to room %q: room not found'' [roomID]), w)
          else
            let gold = creatureGold creature in
            if gold < amount then (Inr ([], gold, False), w)
            else
              let remainingGold = i64 (gold - amount);
                  w = putCreature creatureID (withGold remainingGold creature) w;
                  w = markCreaturePlayerDirty creature w;
                  objectID = nextObjectCloneID w ''object:money'';
                  w = ensurePrototype ''prototype:money'' ObjectKindMoney moneyName fmempty w;
                  object = moneyObject objectID roomID amount
              in (case ObjectInstance_Validate object of
                    Some err \<Rightarrow> (Inl (Wrapf ''drop gold object %q: %w'' [objectID] err), w)
                  | None \<Rightarrow> (Inr (objectID, remainingGold, True), MarkRoomObjectsDirty roomID (put_object object w))))"

definition CreateObjectFromPrototype ::
  "PrototypeID \<Rightarrow> CreatureID \<Rightarrow> World \<Rightarrow> ObjectInstanceID result \<times> World" where
  "CreateObjectFromPrototype protoID creatureID w =
     (if IsZero protoID then (Inl (Errorf ''create object: prototype id is required'' []), w)
      else if IsZero creatureID
      then (Inl (Errorf ''create object %q: creature id is required'' [protoID]), w)
      else case fmlookup (prototypes w) protoID of
        None \<Rightarrow> (Inl (Errorf ''create object from prototype %q: prototype not found'' [protoID]), w)
      | Some proto \<Rightarrow>
          if fmlookup (creatures w) creatureID = None
          then (Inl (Errorf ''create object from prototype %q: creature %q not found'' [protoID, creatureID]), w)
          else
            let inst = zeroObject\<lparr>Object_ID := nextObjectCloneID w (''object:'' @ protoID), Object_PrototypeID := protoID,
                  Object_Location := inventoryLocation creatureID,
                  Object_DisplayNameOverride := Proto_DisplayName proto, Object_Properties := Proto_Properties proto,
                  Object_Metadata := noMetadata\<lparr>Meta_Tags := Meta_Tags (Proto_Metadata proto)\<rparr>\<rparr>
            in (case ObjectInstance_Validate inst of
                  Some err \<Rightarrow> (Inl (Wrapf ''create object from prototype %q: %w'' [protoID] err), w)
                | None \<Rightarrow> (Inr (Object_ID inst), put_object inst w)))"

definition CreateObjectInstanceFromPrototype ::
  "(ObjectInstanceID \<Rightarrow> int) \<Rightarrow> PrototypeID \<Rightarrow> CreatureID \<Rightarrow> World \<Rightarrow> ObjectInstance result \<times> World" where
  "CreateObjectInstanceFromPrototype roll protoID creatureID w =
     (if IsZero protoID then (Inl (Errorf ''create object: prototype id is required'' []), w)
      else if IsZero creatureID then (Inl (Errorf ''create object: creature id is required'' []), w)
      else case fmlookup (prototypes w) protoID of
        None \<Rightarrow> (Inl (Errorf ''prototype %q not found'' [protoID]), w)
      | Some proto \<Rightarrow>
          (case fmlookup (creatures w) creatureID of
             None \<Rightarrow> (Inl (Errorf ''creature %q not found'' [creatureID]), w)
           | Some creature \<Rightarrow>
               let inst = applyRandomEnchantIfNeeded roll w (instance_of w protoID proto (inventoryLocation creatureID))
               in (case ObjectInstance_Validate inst of
                     Some err \<Rightarrow> (Inl (Wrapf ''invalid object instance: %w'' [] err), w)
                   | None \<Rightarrow> (Inr inst, markCreaturePlayerDirty creature (put_object inst w)))))"

subsection \<open>Bank roots\<close>

text \<open>The first id of an account's list that names an object.\<close>

fun first_root :: "World \<Rightarrow> ObjectInstanceID list \<Rightarrow> ObjectInstance option" where
  "first_root w [] = None"
| "first_root w (i # is) =
     (if IsZero i then first_root w is
      else case fmlookup (objects w) i of None \<Rightarrow> first_root w is | Some root \<Rightarrow> Some root)"

fun first_nonblank :: "string list \<Rightarrow> string option" where
  "first_nonblank [] = None"
| "first_nonblank (c # cs) = (if trimSpace c \<noteq> [] then Some (trimSpace c) else first_nonblank cs)"

definition statePlayerBankOwnerName :: "Player \<Rightarrow> PlayerID \<Rightarrow> string" where
  "statePlayerBankOwnerName player fallback =
     (case first_nonblank [Player_ID player, trimSpace (Player_DisplayName player),
              trimSpace (Player_AccountName player), trimSpace (Meta_LegacyID (Player_Metadata player)), fallback] of
        Some name \<Rightarrow> name
      | None \<Rightarrow> fallback)"

text \<open>The families in the order in which the range over the map meets them.\<close>

fun first_family :: "(int, Family) fmap \<Rightarrow> int \<Rightarrow> int list \<Rightarrow> Family option" where
  "first_family m familyID [] = None"
| "first_family m familyID (k # ks) =
     (case fmlookup m k of
        None \<Rightarrow> first_family m familyID ks
      | Some family \<Rightarrow>
          if Family_ID family = familyID \<or> Family_Slot family = familyID then Some family
          else first_family m familyID ks)"

definition stateFamilyBankOwnerName :: "int list \<Rightarrow> World \<Rightarrow> int \<Rightarrow> int \<Rightarrow> string" where
  "stateFamilyBankOwnerName order w familyID special =
     (let base = (case first_family (families w) familyID order of
                    None \<Rightarrow> [] | Some family \<Rightarrow> trimSpace (Family_DisplayName family));
          base = (if base = [] then itoa familyID else base)
      in base @ ''_'' @ itoa special)"

definition bankRoot :: "ObjectInstanceID \<Rightarrow> PrototypeID \<Rightarrow> BankID \<Rightarrow> ObjectInstance" where
  "bankRoot rootID protoID bankID =
     zeroObject\<lparr>Object_ID := rootID, Object_PrototypeID := protoID, Object_Location := bankLocation bankID ''bank'',
       Object_Properties := fmap_of_list
         [(''value'', ''0''), (''shotsCurrent'', ''0''), (''shotsMax'', ''200''),
          (''kind'', ObjectKindContainer), (''OCONTN'', ''1'')]\<rparr>"

definition existingRoot :: "World \<Rightarrow> BankID \<Rightarrow> (BankAccount \<times> ObjectInstance) option" where
  "existingRoot w bankID =
     (case fmlookup (banks w) bankID of
        None \<Rightarrow> None
      | Some account \<Rightarrow> map_option (Pair account) (first_root w (ObjectIDs (Bank_Objects account))))"

definition containerProto :: "(string, string) fmap" where
  "containerProto = fmap_of_list [(''kind'', ObjectKindContainer), (''OCONTN'', ''1'')]"

definition openAccount :: "BankAccount \<Rightarrow> ObjectInstance \<Rightarrow> World \<Rightarrow> World" where
  "openAccount account root w =
     MarkBankDirty (Bank_ID account)
       (w\<lparr>objects := fmupd (Object_ID root) root (objects w), banks := fmupd (Bank_ID account) account (banks w)\<rparr>)"

definition EnsurePlayerBankRoot :: "PlayerID \<Rightarrow> World \<Rightarrow> (BankAccount \<times> ObjectInstance) result \<times> World" where
  "EnsurePlayerBankRoot playerID w =
     (if IsZero playerID then (Inl (Errorf ''ensure player bank root: player id is required'' []), w)
      else case fmlookup (players w) playerID of
        None \<Rightarrow> (Inl (Errorf ''ensure player bank root: player %q not found'' [playerID]), w)
      | Some player \<Rightarrow>
          let ownerName = statePlayerBankOwnerName player playerID; bankID = ''bank:player:'' @ ownerName in
          (case existingRoot w bankID of
             Some r \<Rightarrow> (Inr r, w)
           | None \<Rightarrow>
               let w = ensurePrototype ''proto:bank-root'' ObjectKindContainer bankRootName containerProto w;
                   root = bankRoot (nextPlayerBankRootID w ownerName) ''proto:bank-root'' bankID;
                   account = \<lparr>Bank_ID = bankID, Bank_Kind = ''player'', Bank_OwnerName = ownerName,
                     Bank_OwnerPlayerID = playerID, Bank_Objects = \<lparr>ObjectIDs = [Object_ID root]\<rparr>, Bank_Metadata = noMetadata\<rparr>
               in (Inr (account, root), openAccount account root w)))"

definition EnsureFamilyBankRoot :: "int list \<Rightarrow> int \<Rightarrow> int \<Rightarrow> World \<Rightarrow> (BankAccount \<times> ObjectInstance) result \<times> World" where
  "EnsureFamilyBankRoot order familyID special w =
     (if familyID \<le> 0 then (Inl (Errorf ''ensure family bank root: family id is required'' []), w)
      else
        let ownerName = stateFamilyBankOwnerName order w familyID special; bankID = ''bank:family:'' @ ownerName in
        (case existingRoot w bankID of
           Some r \<Rightarrow> (Inr r, w)
         | None \<Rightarrow>
             let displayName = (if special = 0 then familySafeName else familyStoreName);
                 w = ensurePrototype ''proto:family-bank-root'' ObjectKindContainer displayName containerProto w;
                 root = bankRoot (nextFamilyBankRootID w ownerName) ''proto:family-bank-root'' bankID;
                 account = \<lparr>Bank_ID = bankID, Bank_Kind = ''family'', Bank_OwnerName = ownerName,
                   Bank_OwnerPlayerID = [], Bank_Objects = \<lparr>ObjectIDs = [Object_ID root]\<rparr>, Bank_Metadata = noMetadata\<rparr>
             in (Inr (account, root), openAccount account root w)))"

subsection \<open>Copies\<close>

lemma card_below: "card (below w i) \<le> card (fmdom' (objects w))"
  by (rule card_mono) (auto simp: below_def loc_None fmlookup_dom'_iff)

lemma ok_source_root:
  assumes "fmlookup (objects w) src \<noteq> None" and "card (fmdom' (objects w)) \<le> fuel" and "\<And>k. holderOf l \<noteq> InObject k"
  shows "1 \<le> fuel" and "ok_source fuel [] l w src"
proof -
  have "src \<in> fmdom' (objects w)"
    using assms(1) by (auto simp: fmlookup_dom'_iff)
  then have "1 \<le> card (fmdom' (objects w))"
    by (metis One_nat_def Suc_leI card_gt_0_iff empty_iff finite_fmdom')
  then show "1 \<le> fuel" using assms(2) by simp
  show "ok_source fuel [] l w src"
    using assms card_below [of w src] by (simp add: ok_source_def loc_None)
qed

lemma prototypeTemplate_exists:
  "object_ids w \<Longrightarrow> prototypeTemplateObjectID w proto = Some i \<Longrightarrow> fmlookup (objects w) i \<noteq> None"
  by (auto simp: prototypeTemplateObjectID_def Let_def object_ids_def split: option.splits if_splits)

lemma createObject_correct:
  assumes wh: "well_held w" and e: "fmlookup (objects w) [] = None" and ids: "object_ids w"
    and fuel: "card (fmdom' (objects w)) \<le> fuel"
    and l: "ObjectLocation_Validate l = None" "\<And>k. holderOf l \<noteq> InObject k" and ex: "holder_exists w (holderOf l)"
  shows "\<exists>r v. createObjectFromPrototype fuel roll skip i l w = Some (r, v) \<and> copied w r v l"
    and "fmlookup (objects w) src \<noteq> None \<Longrightarrow> \<exists>r v. clone_tree fuel roll skip src l [] w = Some (r, v) \<and> copied w r v l"
proof -
  have tree: "\<exists>r v. clone_tree fuel roll skip i l [] w = Some (r, v) \<and> copied w r v l"
    if "fmlookup (objects w) i \<noteq> None" for i
    using that clone_correct(1) [OF wh _ l(1) ex] ok_source_root [OF that fuel l(2)] e by (simp add: loc_None)
  then show "fmlookup (objects w) src \<noteq> None \<Longrightarrow> \<exists>r v. clone_tree fuel roll skip src l [] w = Some (r, v) \<and> copied w r v l" .
  have made: "copied w (Inr (Object_ID p)) (put_object p w) l"
    if "Object_ID p = nextObjectCloneID w i" and "Object_Location p = l" and "ObjectIDs (Object_Contents p) = []" for p i
    using put_object_grown [OF wh, of p] that e l ex nextObjectCloneID_fresh by (simp add: copied_def loc_None)
  have inst: "Object_ID (instance_of w i pr l) = nextObjectCloneID w i" "Object_Location (instance_of w i pr l) = l"
    "ObjectIDs (Object_Contents (instance_of w i pr l)) = []" for i pr
    by (simp_all add: instance_of_def zeroObject_def)
  show "\<exists>r v. createObjectFromPrototype fuel roll skip i l w = Some (r, v) \<and> copied w r v l"
  proof (cases "fmlookup (prototypes w) i")
    case None
    then show ?thesis using wh by (simp add: createObjectFromPrototype_def copied_def unmoved_def)
  next
    case (Some pr)
    show ?thesis
    proof (cases "prototypeTemplateObjectID w pr")
      case None
      with Some made inst wh show ?thesis
        by (auto simp: createObjectFromPrototype_def Let_def copied_def unmoved_def split: option.split)
    next
      case (Some t)
      with \<open>fmlookup (prototypes w) i = Some pr\<close> tree [OF prototypeTemplate_exists [OF ids Some]] show ?thesis
        by (simp add: createObjectFromPrototype_def)
    qed
  qed
qed

lemma cloneObjectSource_correct:
  assumes wh: "well_held w" and e: "fmlookup (objects w) [] = None" and ids: "object_ids w"
    and fuel: "card (fmdom' (objects w)) \<le> fuel"
    and l: "ObjectLocation_Validate l = None" "\<And>k. holderOf l \<noteq> InObject k" and ex: "holder_exists w (holderOf l)"
  shows "\<exists>r v. cloneObjectSourceToLocation fuel roll skip src l w = Some (r, v) \<and> copied w r v l"
proof -
  have same: "copied w (Inl err) w l" for err
    using wh by (simp add: copied_def unmoved_def)
  show ?thesis
    using createObject_correct [OF assms] same by (auto simp: cloneObjectSourceToLocation_def split: option.split)
qed

lemma grown_mark [simp]: "grown w (markCreaturePlayerDirty c v) d l = grown w v d l"
  and unmoved_mark [simp]: "unmoved w (markCreaturePlayerDirty c v) = unmoved w v"
proof -
  have "loc (markCreaturePlayerDirty c v) = loc v"
    by (simp add: loc_def fun_eq_iff)
  moreover from this have "inside (markCreaturePlayerDirty c v) j k = inside v j k" for j k
    by (intro inside_cong_container) (simp add: container_of_loc)
  ultimately show "grown w (markCreaturePlayerDirty c v) d l = grown w v d l"
    and "unmoved w (markCreaturePlayerDirty c v) = unmoved w v"
    by (simp_all add: grown_def unmoved_def)
qed

lemma clone_to_inventory:
  assumes "well_held w" and "fmlookup (objects w) [] = None" and "object_ids w"
    and "card (fmdom' (objects w)) \<le> fuel" and "c \<noteq> []" and "fmlookup (creatures w) c \<noteq> None"
  shows "\<exists>r v. cloneObjectSourceToLocation fuel roll skip src (inventoryLocation c) w = Some (r, v)
           \<and> copied w r v (inventoryLocation c)"
proof -
  have "holder_exists w (holderOf (inventoryLocation c))"
    using assms(5,6) by (auto simp: holder_exists_def)
  then show ?thesis
    using cloneObjectSource_correct [OF assms(1-4), of "inventoryLocation c"] assms(5) by simp
qed

text \<open>C13. Cloning an object or prototype into an inventory always returns when the fuel is at least the
  number of objects; it either reports an error and leaves every object where it was, partial
  copies undone, or adds one new tree of objects with fresh ids, rooted in the returned id in the
  inventory, and moves nothing else; the ownership invariant is kept.\<close>

theorem Clone_adds_tree:
  assumes "well_held w" and "fmlookup (objects w) [] = None" and "object_ids w"
    and "card (fmdom' (objects w)) \<le> fuel"
  shows "\<exists>r v. CloneObjectToCreatureInventory fuel roll src c w = Some (r, v)
           \<and> (case r of Inl err \<Rightarrow> unmoved w v | Inr d \<Rightarrow> grown w v d (inventoryLocation c))"
proof (cases "src = [] \<or> c = [] \<or> fmlookup (creatures w) c = None
    \<or> (fmlookup (objects w) src = None \<and> prototypeIDFromCloneSource w src = None)")
  case True
  with assms(1) show ?thesis
    by (auto simp: CloneObjectToCreatureInventory_def unmoved_def)
next
  case False
  obtain r v where "cloneObjectSourceToLocation fuel roll False src (inventoryLocation c) w = Some (r, v)"
    and "copied w r v (inventoryLocation c)"
    using clone_to_inventory [OF assms] False by blast
  with False show ?thesis
    by (cases r) (auto simp: CloneObjectToCreatureInventory_def copied_def)
qed

text \<open>Copies and deletions leave gold alone.\<close>

lemma goldOf_put_object [simp]: "goldOf (put_object p w) c = goldOf w c"
  by (simp add: put_object_def addObjectToHolder_def Let_def goldOf_def creatureGold_def mget_def zeroCreature_def
      split: option.split)

lemma goldOf_markLocation [simp]: "goldOf (markObjectLocationDirty l w) c = goldOf w c"
  by (rule goldOf_cong) simp

lemma goldOf_delete_tree:
  "delete_tree n i seen w = Some (s, v) \<Longrightarrow> goldOf v c = goldOf w c"
  "delete_children n is seen w = Some (s, v) \<Longrightarrow> goldOf v c = goldOf w c"
proof (induction n i seen w and n "is" seen w arbitrary: s v and s v rule: delete_tree_delete_children.induct)
  case (2 fuel i seen w)
  then show ?case
    by (fastforce split: if_split_asm option.split_asm prod.split_asm)
next
  case (4 fuel i "is" seen w)
  from "4.prems" obtain s' u where "delete_tree fuel i seen w = Some (s', u)"
    and "delete_children fuel is s' u = Some (s, v)"
    by (auto split: option.splits)
  with "4.IH" show ?case by simp
qed auto

lemma goldOf_deleteObjectTree [simp]: "goldOf (deleteObjectTree i w) c = goldOf w c"
proof -
  obtain s where "delete_tree (Suc (card (fmdom' (objects w)) + 0)) i [] w = Some (s, deleteObjectTree i w)"
    using deleteObjectTree_run by blast
  then show ?thesis by (rule goldOf_delete_tree(1))
qed

lemma goldOf_clone_tree:
  "clone_tree n roll skip src l seen w = Some (r, v) \<Longrightarrow> goldOf v c = goldOf w c"
  "clone_children n roll skip cs cid seen w = Some (r, v) \<Longrightarrow> goldOf v c = goldOf w c"
proof (induction n roll skip src l seen w and n roll skip cs cid seen w arbitrary: r v and r v
    rule: clone_tree_clone_children.induct)
  case (2 fuel roll skip src l seen w)
  then show ?case
    by (fastforce simp: Let_def split: if_split_asm option.split_asm)
next
  case (4 fuel roll skip c' cs cid seen w)
  from "4.prems" obtain r' u where d: "clone_tree fuel roll skip c' (containerLocation cid) seen w = Some (r', u)"
    by (auto split: option.splits)
  show ?case
  proof (cases r')
    case (Inl e)
    with "4.prems" d "4.IH"(1) [OF d] show ?thesis by auto
  next
    case (Inr x)
    with "4.prems" d have "clone_children fuel roll skip cs cid seen u = Some (r, v)" by simp
    with "4.IH"(2) [of "(r', u)" r' u x r v] "4.IH"(1) [OF d] d Inr show ?thesis by simp
  qed
qed auto

lemma goldOf_cloneSource:
  "cloneObjectSourceToLocation fuel roll skip src l w = Some (r, v) \<Longrightarrow> goldOf v c = goldOf w c"
  by (auto simp: cloneObjectSourceToLocation_def createObjectFromPrototype_def Let_def
      dest: goldOf_clone_tree(1) split: if_split_asm option.split_asm)

text \<open>A purchase the buyer can pay for returns with enough fuel, debits exactly the price and adds one
  new tree in the buyer's inventory; one the buyer cannot pay for changes nothing; after an error no
  gold is taken and every object is where it was.\<close>

theorem Purchase_exchanges:
  assumes "well_held w" and "fmlookup (objects w) [] = None" and "object_ids w"
    and "card (fmdom' (objects w)) \<le> fuel" and "in_i64 (goldOf w c)"
  shows "\<exists>r v. PurchaseObjectToCreatureInventory fuel roll src c price w = Some (r, v)
           \<and> (case r of
                Inl err \<Rightarrow> unmoved w v \<and> goldOf v = goldOf w
              | Inr (d, g, ok) \<Rightarrow>
                  if ok then grown w v d (inventoryLocation c) \<and> goldOf v = (goldOf w)(c := goldOf w c - price)
                             \<and> 0 \<le> goldOf v c \<and> g = goldOf v c
                  else v = w \<and> goldOf w c < price)"
proof (cases "src = [] \<or> c = [] \<or> price < 0 \<or> fmlookup (creatures w) c = None
    \<or> (fmlookup (objects w) src = None \<and> prototypeIDFromCloneSource w src = None)")
  case True
  with assms(1) show ?thesis
    by (auto simp: PurchaseObjectToCreatureInventory_def unmoved_def)
next
  case False
  then obtain cr where cr: "fmlookup (creatures w) c = Some cr" by auto
  have g: "goldOf w c = creatureGold cr" using cr by (simp add: goldOf_def)
  show ?thesis
  proof (cases "creatureGold cr < price")
    case True
    with False cr g show ?thesis
      by (auto simp: PurchaseObjectToCreatureInventory_def Let_def)
  next
    case afford: False
    obtain r v where r: "cloneObjectSourceToLocation fuel roll True src (inventoryLocation c) w = Some (r, v)"
      and cp: "copied w r v (inventoryLocation c)"
      using clone_to_inventory [OF assms(1-4)] False by blast
    have gv: "goldOf v x = goldOf w x" for x using goldOf_cloneSource [OF r] .
    show ?thesis
    proof (cases r)
      case (Inl e)
      with r cp cr afford False gv show ?thesis
        by (auto simp: PurchaseObjectToCreatureInventory_def Let_def copied_def fun_eq_iff)
    next
      case (Inr d)
      with cp have gr: "grown w v d (inventoryLocation c)" by (simp add: copied_def)
      then have "where_is v d = Some (OnCreature c)" and wv: "well_held v"
        using False by (simp_all add: grown_def where_is_loc)
      then obtain cr' where cr': "fmlookup (creatures v) c = Some cr'"
        using holders_agree_exists [OF well_heldD(1) [OF wv], of d "OnCreature c"] by (auto simp: holder_exists_def)
      let ?u = "putCreature c (withGold (i64 (creatureGold cr - price)) cr') v"
      have "well_held ?u" using wv cr' by (simp add: well_held_putCreature [of v c cr'])
      moreover have "loc ?u = loc v" by (simp add: loc_def fun_eq_iff)
      moreover from this have "inside ?u j k = inside v j k" for j k
        by (intro inside_cong_container) (simp add: container_of_loc)
      ultimately have "grown w ?u d (inventoryLocation c)"
        using gr by (simp add: grown_def)
      moreover have "i64 (creatureGold cr - price) = creatureGold cr - price"
        using assms(5) g afford False in_i64_diff [of "creatureGold cr" price] by simp
      ultimately show ?thesis
        using r cr cr' Inr afford False gv g
        by (auto simp: PurchaseObjectToCreatureInventory_def Let_def mget_def fun_eq_iff)
    qed
  qed
qed

subsection \<open>Dropped gold\<close>

lemma ensurePrototype_frame [simp]:
  "objects (ensurePrototype i k n ps w) = objects w" "rooms (ensurePrototype i k n ps w) = rooms w"
  "creatures (ensurePrototype i k n ps w) = creatures w" "banks (ensurePrototype i k n ps w) = banks w"
  "players (ensurePrototype i k n ps w) = players w"
  by (simp_all add: ensurePrototype_def)

lemma well_held_ensurePrototype [simp]: "well_held (ensurePrototype i k n ps w) = well_held w"
  by (rule well_held_cong) simp_all

lemma moneyObject_fields [simp]:
  "Object_ID (moneyObject i r n) = i" "Object_Location (moneyObject i r n) = roomLocation r"
  "ObjectIDs (Object_Contents (moneyObject i r n)) = []" "Object_PrototypeID (moneyObject i r n) = ''prototype:money''"
  by (simp_all add: moneyObject_def zeroObject_def)

lemma moneyObject_valid: "i \<noteq> [] \<Longrightarrow> r \<noteq> [] \<Longrightarrow> ObjectInstance_Validate (moneyObject i r n) = None"
  by (simp add: ObjectInstance_Validate_None)
     (simp add: moneyObject_def zeroObject_def holder_fields_def location_defs)

lemma moneyObject_value: "in_i64 n \<Longrightarrow> objectIntProperty w (moneyObject i r n) ''value'' = Some n"
  by (simp add: objectIntProperty_def moneyObject_def mget_def fmlookup_of_list)

lemma moneyObject_money: "objectIsMoney w (moneyObject i r n)"
proof -
  have "mget [] (Object_Properties (moneyObject i r n)) ''kind'' = ObjectKindMoney"
    by (simp add: moneyObject_def mget_def fmlookup_of_list)
  moreover have "equalFold (trimSpace ObjectKindMoney) ObjectKindMoney"
    by code_simp
  ultimately show ?thesis
    by (simp add: objectIsMoney_def)
qed

lemma Drop_cases:
  assumes "DropCreatureGoldToRoom c rm n w = (r, w')"
  shows "((\<forall>i x. r \<noteq> Inr (i, x, True)) \<and> w' = w)
    \<or> (\<exists>cr w1 i. c \<noteq> [] \<and> rm \<noteq> [] \<and> 1 \<le> n \<and> n \<le> creatureGold cr
        \<and> fmlookup (creatures w) c = Some cr \<and> fmlookup (rooms w) rm \<noteq> None
        \<and> w1 = markCreaturePlayerDirty cr (putCreature c (withGold (i64 (creatureGold cr - n)) cr) w)
        \<and> i = nextObjectCloneID w1 ''object:money''
        \<and> r = Inr (i, i64 (creatureGold cr - n), True)
        \<and> w' = MarkRoomObjectsDirty rm (put_object (moneyObject i rm n)
             (ensurePrototype ''prototype:money'' ObjectKindMoney moneyName fmempty w1)))"
  using assms unfolding DropCreatureGoldToRoom_def Let_def
  by (simp add: moneyObject_valid not_less split: if_split_asm option.split_asm) auto

lemma creatures_put_money [simp]: "rm \<noteq> [] \<Longrightarrow> creatures (put_object (moneyObject i rm n) w) = creatures w"
  by (simp add: put_object_def addObjectToHolder_def location_defs Let_def)

lemma Drop_effect:
  assumes "well_held w" and "DropCreatureGoldToRoom c rm n w = (Inr (i, x, True), w')" and "in_i64 (goldOf w c)"
  shows "c \<noteq> [] \<and> rm \<noteq> [] \<and> fmlookup (creatures w') c \<noteq> None \<and> 1 \<le> n \<and> n \<le> goldOf w c \<and> x = goldOf w c - n \<and> where_is w i = None \<and> i \<noteq> []
     \<and> fmlookup (objects w') i = Some (moneyObject i rm n) \<and> objectValue w' i = n
     \<and> goldOf w' = (goldOf w)(c := goldOf w c - n) \<and> well_held w' \<and> where_is w' = (where_is w)(i \<mapsto> InRoom rm)"
  using Drop_cases [OF assms(2)]
proof (elim disjE exE conjE)
  fix cr w1 j
  assume cne: "c \<noteq> []" and rm: "rm \<noteq> []" and n: "1 \<le> n" "n \<le> creatureGold cr"
    and c: "fmlookup (creatures w) c = Some cr" and room: "fmlookup (rooms w) rm \<noteq> None"
    and w1: "w1 = markCreaturePlayerDirty cr (putCreature c (withGold (i64 (creatureGold cr - n)) cr) w)"
    and j: "j = nextObjectCloneID w1 ''object:money''"
    and r: "Inr (i, x, True) = Inr (j, i64 (creatureGold cr - n), True)"
    and w': "w' = MarkRoomObjectsDirty rm (put_object (moneyObject j rm n)
             (ensurePrototype ''prototype:money'' ObjectKindMoney moneyName fmempty w1))"
  have i: "i = nextObjectCloneID w1 ''object:money''" and [simp]: "j = i" using r j by simp_all
  let ?w = "ensurePrototype ''prototype:money'' ObjectKindMoney moneyName fmempty w1"
  have g: "goldOf w c = creatureGold cr" using c by (simp add: goldOf_def)
  then have e: "i64 (creatureGold cr - n) = creatureGold cr - n" and inn: "in_i64 n"
    using assms(3) n in_i64_diff [of "creatureGold cr" n] by (auto simp: in_i64_def)
  have o1: "objects w1 = objects w" by (simp add: w1)
  have fresh: "fmlookup (objects w) i = None"
    using nextObjectCloneID_fresh [of w1] by (simp add: i o1)
  have wh1: "well_held ?w"
    using assms(1) c by (simp add: w1 well_held_putCreature [of w c cr])
  have ex: "holder_exists ?w (holderOf (Object_Location (moneyObject i rm n)))"
    using rm room by (simp add: holder_exists_def w1)
  have "well_held (put_object (moneyObject i rm n) ?w)"
    using rm fresh o1 by (intro well_held_put [OF wh1 _ _ _ ex]) simp_all
  moreover have "where_is (put_object (moneyObject i rm n) ?w) = (where_is w)(i \<mapsto> InRoom rm)"
    using put_object_where_is [OF ex] rm by (simp add: fun_eq_iff where_is_def o1)
  moreover have "goldOf w' = (goldOf w)(c := goldOf w c - n)"
    by (intro ext) (simp add: w' goldOf_cong [of "ensurePrototype _ _ _ _ w1" w1], simp add: w1 g e)
  moreover have "fmlookup (objects w') i = Some (moneyObject i rm n)"
    using rm by (simp add: w' put_object_def lookup_add_objects)
  then have "objectValue w' i = n"
    using inn by (simp add: objectValue_lookup valueProperty_def moneyObject_value)
  moreover have "where_is w i = None" using fresh by (simp add: where_is_def)
  ultimately show ?thesis
    using r e n g cne rm i \<open>fmlookup (objects w') i = _\<close> by (simp add: w') (simp add: w1)
qed simp

text \<open>Dropped gold becomes a money object of exactly that value under a fresh id in the room: the
  creature's gold falls by the amount and stays non-negative, no other object moves, and the
  ownership invariant is kept; otherwise nothing changes.\<close>

theorem Drop_makes_money:
  assumes "well_held w" and "DropCreatureGoldToRoom c rm n w = (r, w')" and "in_i64 (goldOf w c)"
  shows "if \<exists>i x. r = Inr (i, x, True)
         then \<exists>i. r = Inr (i, goldOf w c - n, True) \<and> where_is w i = None \<and> objectValue w' i = n
              \<and> goldOf w' = (goldOf w)(c := goldOf w c - n) \<and> 0 \<le> goldOf w' c
              \<and> well_held w' \<and> where_is w' = (where_is w)(i \<mapsto> InRoom rm)
         else w' = w"
proof (cases "\<exists>i x. r = Inr (i, x, True)")
  case True
  then obtain i x where r: "r = Inr (i, x, True)" by blast
  then have d: "DropCreatureGoldToRoom c rm n w = (Inr (i, x, True), w')" using assms(2) by simp
  show ?thesis
    using Drop_effect [OF assms(1) d assms(3)] r by simp
next
  case False
  with Drop_cases [OF assms(2)] show ?thesis by auto
qed

lemma Pickup_run:
  assumes "i \<noteq> []" "c \<noteq> []" "fmlookup (objects w) i = Some ob" "fmlookup (creatures w) c = Some cr"
    and "objectIsMoney w ob" and "1 \<le> valueProperty w ob"
  shows "fst (PickupMoneyObjectToCreatureGold i (Object_Location ob) c w)
       = Inr (i64 (creatureGold cr + valueProperty w ob), valueProperty w ob, True)"
  using assms
  by (simp add: PickupMoneyObjectToCreatureGold_def objectLocationEqual_def Let_def valueProperty_def [symmetric])

text \<open>Picking up the gold one has dropped restores the gold and the ownership of every object.\<close>

theorem Drop_Pickup_roundtrip:
  assumes wh: "well_held w" and d: "DropCreatureGoldToRoom c rm n w = (Inr (i, x, True), w1)" and g: "in_i64 (goldOf w c)"
  shows "\<exists>w2. PickupMoneyObjectToCreatureGold i (roomLocation rm) c w1 = (Inr (goldOf w c, n, True), w2)
           \<and> goldOf w2 = goldOf w \<and> where_is w2 = where_is w"
proof -
  from Drop_effect [OF wh d g] have c: "c \<noteq> []" and rm: "rm \<noteq> []" and n: "1 \<le> n" "n \<le> goldOf w c" and i: "i \<noteq> []"
    and none: "where_is w i = None" and ob: "fmlookup (objects w1) i = Some (moneyObject i rm n)"
    and ov: "objectValue w1 i = n"
    and g1: "goldOf w1 = (goldOf w)(c := goldOf w c - n)" and at: "where_is w1 = (where_is w)(i \<mapsto> InRoom rm)"
    by blast+
  have v: "valueProperty w1 (moneyObject i rm n) = n"
    using ov objectValue_lookup [OF ob] by simp
  from Drop_effect [OF wh d g] obtain cr where cr: "fmlookup (creatures w1) c = Some cr"
    by blast
  then have "creatureGold cr = goldOf w1 c" by (simp add: goldOf_def)
  then have gc: "creatureGold cr = goldOf w c - n" by (simp add: g1)
  define w2 where "w2 = snd (PickupMoneyObjectToCreatureGold i (roomLocation rm) c w1)"
  have p: "PickupMoneyObjectToCreatureGold i (roomLocation rm) c w1 = (Inr (goldOf w c, n, True), w2)"
    unfolding w2_def
    using Pickup_run [OF i c ob cr moneyObject_money] v n gc g by (intro run_eq) simp
  let ?u = "markCreaturePlayerDirty cr (putCreature c (withGold (goldOf w c) cr) w1)"
  have lr: "Loc_ContainerID (roomLocation rm) = []" "Loc_RoomID (roomLocation rm) = rm" by (simp_all add: location_defs)
  have "w2 = MarkRoomObjectsDirty rm (drop_object i (roomLocation rm) ?u)"
    unfolding w2_def using i c ob cr v n gc g rm lr moneyObject_money [of w1 i rm n]
    by (simp add: PickupMoneyObjectToCreatureGold_def objectLocationEqual_def Let_def valueProperty_def [symmetric]
        pickupContainerCount_def containerRoom_def drop_object_def)
  moreover have "where_is (drop_object i (roomLocation rm) ?u) = where_is w"
    using at none by (auto simp: drop_object_where_is fun_eq_iff where_is_def)
  moreover have "goldOf (drop_object i (roomLocation rm) ?u) = goldOf w"
    using g1 by (auto simp: fun_eq_iff)
  ultimately show ?thesis
    using p by (auto simp: fun_eq_iff)
qed

subsection \<open>Bank roots\<close>

lemma bankRoot_fields [simp]:
  "Object_ID (bankRoot i pr b) = i" "Object_Location (bankRoot i pr b) = bankLocation b ''bank''"
  "ObjectIDs (Object_Contents (bankRoot i pr b)) = []"
  by (simp_all add: bankRoot_def zeroObject_def)

lemma first_root_None: "first_root w is = None \<longleftrightarrow> (\<forall>i \<in> set is. i = [] \<or> fmlookup (objects w) i = None)"
  by (induction "is") (auto split: option.split)

lemma first_root_cong: "objects w = objects w' \<Longrightarrow> first_root w is = first_root w' is"
  by (induction "is") (auto split: option.split)

lemma existingRoot_None_refs:
  assumes "well_held w" and "fmlookup (objects w) [] = None" and "existingRoot w b = None"
  shows "refs w (InBank b) = []"
proof -
  have "i \<notin> set (refs w (InBank b))" for i
  proof
    assume i: "i \<in> set (refs w (InBank b))"
    then have "where_is w i = Some (InBank b)"
      using holders_agree_iff [OF well_heldD(1) [OF assms(1)]] by blast
    then have "fmlookup (objects w) i \<noteq> None" by (auto simp: where_is_def)
    with i assms(2,3) show False
      by (auto simp: existingRoot_def refs_def first_root_None split: option.splits)
  qed
  then show ?thesis by (metis list.set_intros(1) neq_Nil_conv)
qed

lemma fmupd_twice [simp]: "fmupd k a (fmupd k b m) = fmupd k a m"
  by (rule fmap_ext) simp

lemma openAccount_put:
  assumes "Bank_ID a = b" and "b \<noteq> []" and "Bank_Objects a = \<lparr>ObjectIDs = [i]\<rparr>"
  shows "openAccount a (bankRoot i pr b) w
       = MarkBankDirty b (put_object (bankRoot i pr b) (w\<lparr>banks := fmupd b (a\<lparr>Bank_Objects := \<lparr>ObjectIDs = []\<rparr>\<rparr>) (banks w)\<rparr>))"
  using assms
  by (cases a) (simp add: openAccount_def put_object_def addObjectToHolder_def location_defs Let_def
      insertObjectIDLegacySorted_def insert_once_def)

lemma openAccount_effect:
  assumes wh: "well_held w" and none: "refs w (InBank b) = []" and fresh: "fmlookup (objects w) i = None"
    and a: "Bank_ID a = b" "b \<noteq> []" "Bank_Objects a = \<lparr>ObjectIDs = [i]\<rparr>"
  shows "well_held (openAccount a (bankRoot i pr b) w)
     \<and> where_is (openAccount a (bankRoot i pr b) w) = (where_is w)(i \<mapsto> InBank b)"
proof -
  let ?w = "w\<lparr>banks := fmupd b (a\<lparr>Bank_Objects := \<lparr>ObjectIDs = []\<rparr>\<rparr>) (banks w)\<rparr>"
  have "refs ?w h = refs w h" for h
    using none by (cases h) (auto simp: refs_def)
  then have "holders_agree ?w = holders_agree w"
    by (rule holders_agree_cong) (simp add: where_is_def)
  moreover have "containers_acyclic ?w = containers_acyclic w"
    by (rule containers_acyclic_cong) (rule container_of_cong, simp)
  ultimately have wh': "well_held ?w"
    using wh by (simp add: well_held_def locations_valid_def)
  have ex: "holder_exists ?w (holderOf (Object_Location (bankRoot i pr b)))"
    using a by (simp add: holder_exists_def)
  have "well_held (put_object (bankRoot i pr b) ?w)"
    using fresh a by (intro well_held_put [OF wh' _ _ _ ex]) simp_all
  then show ?thesis
    using put_object_where_is [OF ex] a by (auto simp: openAccount_put [OF a] fun_eq_iff where_is_def)
qed

lemma root_candidate_nonempty: "base \<noteq> [] \<Longrightarrow> root_candidate base j \<noteq> []"
  by (simp add: root_candidate_def numbered_def)

lemma nextPlayerBankRootID_nonempty: "nextPlayerBankRootID w owner \<noteq> []"
proof -
  obtain j where "nextPlayerBankRootID w owner = root_candidate (''object:bank-root:'' @ owner) j"
    using bankroot.is_candidate [of "objects w" "''object:bank-root:'' @ owner"]
    unfolding nextPlayerBankRootID_def Let_def by blast
  moreover have "''object:bank-root:'' @ owner \<noteq> []" by simp
  ultimately show ?thesis using root_candidate_nonempty by metis
qed

definition playerBankID :: "Player \<Rightarrow> PlayerID \<Rightarrow> BankID" where
  "playerBankID p pid = ''bank:player:'' @ statePlayerBankOwnerName p pid"

lemma playerBankID_nonempty [simp]: "playerBankID p pid \<noteq> []"
  by (simp add: playerBankID_def)

lemma EnsurePlayer_cases:
  assumes "EnsurePlayerBankRoot pid w = (Inr (a, root), w')"
  shows "\<exists>p. pid \<noteq> [] \<and> fmlookup (players w) pid = Some p
     \<and> (existingRoot w (playerBankID p pid) = Some (a, root) \<and> w' = w
        \<or> existingRoot w (playerBankID p pid) = None
          \<and> (\<exists>u i. u = ensurePrototype ''proto:bank-root'' ObjectKindContainer bankRootName containerProto w
               \<and> i = nextPlayerBankRootID u (statePlayerBankOwnerName p pid)
               \<and> root = bankRoot i ''proto:bank-root'' (playerBankID p pid)
               \<and> Bank_ID a = playerBankID p pid \<and> Bank_Objects a = \<lparr>ObjectIDs = [i]\<rparr>
               \<and> w' = openAccount a root u))"
  using assms unfolding EnsurePlayerBankRoot_def Let_def playerBankID_def [symmetric]
  by (auto split: if_split_asm option.split_asm)

text \<open>\<^verbatim>\<open>EnsurePlayerBankRoot\<close> is idempotent: after a successful call, a second one finds the same
  account and the same root and changes nothing.\<close>

theorem EnsurePlayerBankRoot_idempotent:
  assumes "EnsurePlayerBankRoot pid w = (Inr (a, root), w')"
  shows "EnsurePlayerBankRoot pid w' = (Inr (a, root), w')"
  using EnsurePlayer_cases [OF assms]
proof (elim exE conjE disjE)
  assume "w' = w"
  with assms show ?thesis by simp
next
  fix p u i
  assume p: "pid \<noteq> []" "fmlookup (players w) pid = Some p" and a: "Bank_ID a = playerBankID p pid"
    "Bank_Objects a = \<lparr>ObjectIDs = [i]\<rparr>" and root: "root = bankRoot i ''proto:bank-root'' (playerBankID p pid)"
    and u: "u = ensurePrototype ''proto:bank-root'' ObjectKindContainer bankRootName containerProto w"
    and i: "i = nextPlayerBankRootID u (statePlayerBankOwnerName p pid)" and w': "w' = openAccount a root u"
  have "i \<noteq> []" using i nextPlayerBankRootID_nonempty by simp
  then have "existingRoot w' (playerBankID p pid) = Some (a, root)"
    by (simp add: existingRoot_def openAccount_def w' a root)
  moreover have "players w' = players w"
    by (simp add: w' openAccount_def MarkBankDirty_def u)
  ultimately show ?thesis
    using p unfolding EnsurePlayerBankRoot_def Let_def playerBankID_def [symmetric] by simp
qed

lemma existingRoot_where:
  assumes "well_held w" and "object_ids w" and "existingRoot w b = Some (a, root)"
  shows "where_is w (Object_ID root) = Some (InBank b)"
proof -
  from assms(3) have a: "fmlookup (banks w) b = Some a" and r: "first_root w (ObjectIDs (Bank_Objects a)) = Some root"
    by (auto simp: existingRoot_def split: option.splits)
  have "first_root w is = Some root \<Longrightarrow> \<exists>i \<in> set is. fmlookup (objects w) i = Some root" for "is"
    by (induction "is") (auto split: option.splits if_splits)
  then have "Object_ID root \<in> set (ObjectIDs (Bank_Objects a))"
    using r assms(2) by (auto simp: object_ids_def)
  then have "Object_ID root \<in> set (refs w (InBank b))"
    using a by (simp add: refs_def)
  then show ?thesis
    using holders_agree_iff [OF well_heldD(1) [OF assms(1)]] by blast
qed

text \<open>The bank root a player gets lies in the player's account, and making it moves no other object
  and keeps the ownership invariant.\<close>

theorem EnsurePlayerBankRoot_holds_root:
  assumes "well_held w" and "fmlookup (objects w) [] = None" and "object_ids w"
    and "EnsurePlayerBankRoot pid w = (Inr (a, root), w')"
  shows "\<exists>p. fmlookup (players w) pid = Some p \<and> well_held w'
     \<and> where_is w' (Object_ID root) = Some (InBank (playerBankID p pid))
     \<and> {j. where_is w j \<noteq> None} \<subseteq> {j. where_is w' j = where_is w j}"
  using EnsurePlayer_cases [OF assms(4)]
proof (elim exE conjE disjE)
  fix p
  assume "fmlookup (players w) pid = Some p" and "existingRoot w (playerBankID p pid) = Some (a, root)" and "w' = w"
  with existingRoot_where [OF assms(1,3)] assms(1) show ?thesis by auto
next
  fix p u i
  assume p: "fmlookup (players w) pid = Some p" and none: "existingRoot w (playerBankID p pid) = None"
    and a: "Bank_ID a = playerBankID p pid" "Bank_Objects a = \<lparr>ObjectIDs = [i]\<rparr>"
    and root: "root = bankRoot i ''proto:bank-root'' (playerBankID p pid)"
    and u: "u = ensurePrototype ''proto:bank-root'' ObjectKindContainer bankRootName containerProto w"
    and i: "i = nextPlayerBankRootID u (statePlayerBankOwnerName p pid)" and w': "w' = openAccount a root u"
  have wu: "well_held u" "objects u = objects w" "where_is u = where_is w"
    using assms(1) by (simp_all add: u where_is_def fun_eq_iff)
  have "refs u (InBank (playerBankID p pid)) = []"
    using existingRoot_None_refs [OF assms(1,2) none] by (simp add: refs_def u)
  moreover have "fmlookup (objects u) i = None"
    using nextBankRootID_fresh(1) by (simp add: i)
  ultimately have "well_held w' \<and> where_is w' = (where_is u)(i \<mapsto> InBank (playerBankID p pid))"
    unfolding w' root by (intro openAccount_effect) (simp_all add: wu a)
  moreover have "where_is w i = None"
    using \<open>fmlookup (objects u) i = None\<close> by (simp add: where_is_def wu)
  ultimately show ?thesis
    using p by (auto simp: root wu)
qed

subsection \<open>The properties on concrete worlds\<close>

lemma demoPurse_facts:
  "fmlookup (objects demoPurse) [] = None" "card (fmdom' (objects demoPurse)) = 3" "goldOf demoPurse ''c1'' = 100"
  by code_simp+

theorem Clone_adds_tree_witness:
  "\<exists>r v. CloneObjectToCreatureInventory 3 (\<lambda>_. 99) ''bag'' ''c2'' demoPurse = Some (r, v)
     \<and> (case r of Inl err \<Rightarrow> unmoved demoPurse v | Inr d \<Rightarrow> grown demoPurse v d (inventoryLocation ''c2''))"
  by (rule Clone_adds_tree [OF well_held_demoPurse demoPurse_facts(1) object_ids_demoPurse])
     (simp add: demoPurse_facts(2))

theorem Purchase_exchanges_witness:
  "\<exists>r v. PurchaseObjectToCreatureInventory 3 (\<lambda>_. 99) ''bag'' ''c1'' 60 demoPurse = Some (r, v)
     \<and> (case r of Inl err \<Rightarrow> unmoved demoPurse v \<and> goldOf v = goldOf demoPurse
        | Inr (d, g, ok) \<Rightarrow>
            if ok then grown demoPurse v d (inventoryLocation ''c1'')
                       \<and> goldOf v = (goldOf demoPurse)(''c1'' := goldOf demoPurse ''c1'' - 60)
                       \<and> 0 \<le> goldOf v ''c1'' \<and> g = goldOf v ''c1''
            else v = demoPurse \<and> goldOf demoPurse ''c1'' < 60)"
  by (rule Purchase_exchanges [OF well_held_demoPurse demoPurse_facts(1) object_ids_demoPurse])
     (simp_all add: demoPurse_facts(2,3) in_i64_def)

definition demoDropped :: World where
  "demoDropped = snd (DropCreatureGoldToRoom ''c1'' ''r2'' 30 demoWorld)"

lemma demoDropped_run:
  "DropCreatureGoldToRoom ''c1'' ''r2'' 30 demoWorld = (Inr (''object:money:clone:000001'', 70, True), demoDropped)"
  unfolding demoDropped_def by (rule run_eq) code_simp

theorem Drop_makes_money_witness:
  "goldOf demoDropped ''c1'' = 70 \<and> well_held demoDropped
   \<and> where_is demoDropped ''object:money:clone:000001'' = Some (InRoom ''r2'')"
proof -
  have "in_i64 (goldOf demoWorld ''c1'')" by (simp add: demo_values in_i64_def)
  from Drop_makes_money [OF well_held_demoWorld demoDropped_run this] show ?thesis
    by (auto simp: demo_values)
qed

theorem Drop_Pickup_roundtrip_witness:
  "\<exists>w2. PickupMoneyObjectToCreatureGold ''object:money:clone:000001'' (roomLocation ''r2'') ''c1'' demoDropped
          = (Inr (100, 30, True), w2) \<and> goldOf w2 = goldOf demoWorld \<and> where_is w2 = where_is demoWorld"
proof -
  have "in_i64 (goldOf demoWorld ''c1'')" by (simp add: demo_values in_i64_def)
  from Drop_Pickup_roundtrip [OF well_held_demoWorld demoDropped_run this] show ?thesis
    by (simp add: demo_values)
qed

definition demoPlayers :: World where
  "demoPlayers = demoPurse\<lparr>players := fmap_of_list
     [(''p1'', \<lparr>Player_ID = ''p1'', Player_DisplayName = ''Ann'', Player_CreatureID = ''c1'', Player_RoomID = ''r1'',
        Player_AccountName = ''ann'', Player_Metadata = noMetadata\<rparr>)]\<rparr>"

lemma demoPlayers_facts:
  "well_held demoPlayers" "object_ids demoPlayers" "fmlookup (objects demoPlayers) [] = None"
proof -
  have "well_held demoPlayers = well_held demoPurse"
    unfolding demoPlayers_def by (rule well_held_cong) simp_all
  then show "well_held demoPlayers" using well_held_demoPurse by simp
  show "object_ids demoPlayers" using object_ids_demoPurse by (simp add: object_ids_def demoPlayers_def)
  show "fmlookup (objects demoPlayers) [] = None" using demoPurse_facts(1) by (simp add: demoPlayers_def)
qed

lemma demoEnsure_run:
  "\<exists>a root. EnsurePlayerBankRoot ''p1'' demoPlayers = (Inr (a, root), snd (EnsurePlayerBankRoot ''p1'' demoPlayers))
     \<and> Object_ID root = ''object:bank-root:p1''"
proof -
  have "map_sum (\<lambda>_. ()) (Object_ID \<circ> snd) (fst (EnsurePlayerBankRoot ''p1'' demoPlayers)) = Inr ''object:bank-root:p1''"
    by code_simp
  then show ?thesis
    by (cases "EnsurePlayerBankRoot ''p1'' demoPlayers"; cases "fst (EnsurePlayerBankRoot ''p1'' demoPlayers)") auto
qed

theorem EnsurePlayerBankRoot_idempotent_witness:
  "let w' = snd (EnsurePlayerBankRoot ''p1'' demoPlayers)
   in \<exists>a root. EnsurePlayerBankRoot ''p1'' w' = (Inr (a, root), w')"
  unfolding Let_def using demoEnsure_run EnsurePlayerBankRoot_idempotent by blast

theorem EnsurePlayerBankRoot_holds_root_witness:
  "let w' = snd (EnsurePlayerBankRoot ''p1'' demoPlayers)
   in well_held w' \<and> (\<exists>b. where_is w' ''object:bank-root:p1'' = Some (InBank b))"
proof -
  obtain a root where e: "EnsurePlayerBankRoot ''p1'' demoPlayers = (Inr (a, root), snd (EnsurePlayerBankRoot ''p1'' demoPlayers))"
    and "Object_ID root = ''object:bank-root:p1''"
    using demoEnsure_run by blast
  with EnsurePlayerBankRoot_holds_root [OF demoPlayers_facts(1,3,2) e] show ?thesis
    by (auto simp: Let_def)
qed

end
