(* ===== verification/FamilyWar.thy ===== *)
theory FamilyWar
  imports Making
begin

text \<open>
  Families (\<^verbatim>\<open>family.go\<close>, sentinels and pairs in \<^verbatim>\<open>state.go\<close>, invites also in \<^verbatim>\<open>room.go\<close>): the war
  between two families as a state machine on the world, with an abstract specification that the
  operations are proved to simulate, the guest lists of marriage rooms, and updates of families.
\<close>

subsection \<open>War operations\<close>

definition ErrFamilyWarInvalidFamily :: go_error where
  "ErrFamilyWarInvalidFamily = Sentinel ''family war: family id must be positive''"
definition ErrFamilyWarSelf :: go_error where
  "ErrFamilyWarSelf = Sentinel ''family war: family cannot declare war on itself''"
definition ErrFamilyWarActive :: go_error where
  "ErrFamilyWarActive = Sentinel ''family war: war is already active''"
definition ErrFamilyWarPending :: go_error where
  "ErrFamilyWarPending = Sentinel ''family war: another war request is pending''"
definition ErrFamilyWarNoPending :: go_error where
  "ErrFamilyWarNoPending = Sentinel ''family war: no pending war request''"
definition ErrFamilyWarNotRequester :: go_error where
  "ErrFamilyWarNotRequester = Sentinel ''family war: family did not request the pending war''"
definition ErrFamilyWarNotTarget :: go_error where
  "ErrFamilyWarNotTarget = Sentinel ''family war: family is not the target of the pending war''"

definition pair_IsZero :: "FamilyWarPair \<Rightarrow> bool" where
  "pair_IsZero p \<longleftrightarrow> War_First p = 0 \<and> War_Second p = 0"

definition noPair :: FamilyWarPair where
  "noPair = \<lparr>War_First = 0, War_Second = 0\<rparr>"

definition noWar :: FamilyWarSnapshot where
  "noWar = \<lparr>War_Active = noPair, War_Pending = noPair\<rparr>"

definition AtWar :: "FamilyWarSnapshot \<Rightarrow> bool" where
  "AtWar s \<longleftrightarrow> \<not> pair_IsZero (War_Active s)"

definition HasPending :: "FamilyWarSnapshot \<Rightarrow> bool" where
  "HasPending s \<longleftrightarrow> \<not> pair_IsZero (War_Pending s)"

definition LegacyValues :: "FamilyWarSnapshot \<Rightarrow> int \<times> int \<times> int" where
  "LegacyValues s =
     ((if \<not> pair_IsZero (War_Active s) then i64 (War_First (War_Active s) * 16 + War_Second (War_Active s)) else 0),
      (if \<not> pair_IsZero (War_Pending s) then War_First (War_Pending s) else 0),
      (if \<not> pair_IsZero (War_Pending s) then War_Second (War_Pending s) else 0))"

definition validateFamilyWarPair :: "int \<Rightarrow> int \<Rightarrow> go_error option" where
  "validateFamilyWarPair firstFamily secondFamily =
     (if firstFamily \<le> 0 \<or> secondFamily \<le> 0 then Some ErrFamilyWarInvalidFamily
      else if firstFamily = secondFamily then Some ErrFamilyWarSelf
      else None)"

text \<open>Each operation returns the snapshot beside its error, as the code does.\<close>

type_synonym war_result = "(go_error option \<times> FamilyWarSnapshot) \<times> World"

definition RequestFamilyWar :: "int \<Rightarrow> int \<Rightarrow> World \<Rightarrow> war_result" where
  "RequestFamilyWar callerFamily targetFamily w =
     (case validateFamilyWarPair callerFamily targetFamily of
        Some err \<Rightarrow> ((Some err, noWar), w)
      | None \<Rightarrow>
          if \<not> pair_IsZero (War_Active (familyWar w)) then ((Some ErrFamilyWarActive, familyWar w), w)
          else if \<not> pair_IsZero (War_Pending (familyWar w)) then ((Some ErrFamilyWarPending, familyWar w), w)
          else
            let s = (familyWar w)\<lparr>War_Pending := \<lparr>War_First = callerFamily, War_Second = targetFamily\<rparr>\<rparr>
            in ((None, s), w\<lparr>familyWar := s\<rparr>))"

definition AcceptFamilyWar :: "int \<Rightarrow> int \<Rightarrow> World \<Rightarrow> war_result" where
  "AcceptFamilyWar acceptingFamily callerFamily w =
     (case validateFamilyWarPair acceptingFamily callerFamily of
        Some err \<Rightarrow> ((Some err, noWar), w)
      | None \<Rightarrow>
          if \<not> pair_IsZero (War_Active (familyWar w)) then ((Some ErrFamilyWarActive, familyWar w), w)
          else if pair_IsZero (War_Pending (familyWar w)) then ((Some ErrFamilyWarNoPending, familyWar w), w)
          else if War_Second (War_Pending (familyWar w)) \<noteq> acceptingFamily
          then ((Some ErrFamilyWarNotTarget, familyWar w), w)
          else if War_First (War_Pending (familyWar w)) \<noteq> callerFamily
          then ((Some ErrFamilyWarPending, familyWar w), w)
          else
            let s = \<lparr>War_Active = \<lparr>War_First = acceptingFamily, War_Second = callerFamily\<rparr>, War_Pending = noPair\<rparr>
            in ((None, s), w\<lparr>familyWar := s\<rparr>))"

definition CancelFamilyWar :: "int \<Rightarrow> World \<Rightarrow> war_result" where
  "CancelFamilyWar callerFamily w =
     (if callerFamily \<le> 0 then ((Some ErrFamilyWarInvalidFamily, noWar), w)
      else if pair_IsZero (War_Pending (familyWar w)) then ((Some ErrFamilyWarNoPending, familyWar w), w)
      else if War_First (War_Pending (familyWar w)) \<noteq> callerFamily
      then ((Some ErrFamilyWarNotRequester, familyWar w), w)
      else
        let s = (familyWar w)\<lparr>War_Pending := noPair\<rparr>
        in ((None, s), w\<lparr>familyWar := s\<rparr>))"

definition ClearFamilyWar :: "World \<Rightarrow> FamilyWarSnapshot \<times> World" where
  "ClearFamilyWar w = (noWar, w\<lparr>familyWar := noWar\<rparr>)"

definition EndActiveFamilyWar :: "World \<Rightarrow> FamilyWarSnapshot \<times> World" where
  "EndActiveFamilyWar w =
     (if pair_IsZero (War_Active (familyWar w)) then (familyWar w, w)
      else (familyWar w, w\<lparr>familyWar := noWar\<rparr>))"

definition FamiliesAtWar :: "World \<Rightarrow> int \<Rightarrow> int \<Rightarrow> bool" where
  "FamiliesAtWar w firstFamily secondFamily =
     (if firstFamily \<le> 0 \<or> secondFamily \<le> 0 then False
      else let active = War_Active (familyWar w) in
        if pair_IsZero active then False
        else (firstFamily = War_First active \<and> secondFamily = War_Second active)
             \<or> (firstFamily = War_Second active \<and> secondFamily = War_First active))"

definition FamilyAtWar :: "World \<Rightarrow> int \<Rightarrow> bool" where
  "FamilyAtWar w family =
     (if family \<le> 0 then False
      else family = War_First (War_Active (familyWar w)) \<or> family = War_Second (War_Active (familyWar w)))"

subsection \<open>Reachable states\<close>

text \<open>What players and the server can do to the war state, in any order and number.\<close>

inductive war_step :: "World \<Rightarrow> World \<Rightarrow> bool" where
  war_request: "war_step w (snd (RequestFamilyWar caller target w))"
| war_accept: "war_step w (snd (AcceptFamilyWar target caller w))"
| war_cancel: "war_step w (snd (CancelFamilyWar caller w))"
| war_clear: "war_step w (snd (ClearFamilyWar w))"
| war_end: "war_step w (snd (EndActiveFamilyWar w))"

inductive war_reachable :: "World \<Rightarrow> bool" where
  war_init: "familyWar w = noWar \<Longrightarrow> war_reachable w"
| war_next: "war_reachable w \<Longrightarrow> war_step w w' \<Longrightarrow> war_reachable w'"

inductive_cases war_stepE: "war_step w w'"

text \<open>The abstract state.\<close>

datatype War = Peace | Called int int | Fighting int int

definition war_abs :: "FamilyWarSnapshot \<Rightarrow> War" where
  "war_abs s =
     (if \<not> pair_IsZero (War_Active s) then Fighting (War_First (War_Active s)) (War_Second (War_Active s))
      else if \<not> pair_IsZero (War_Pending s) then Called (War_First (War_Pending s)) (War_Second (War_Pending s))
      else Peace)"

definition proper_pair :: "FamilyWarPair \<Rightarrow> bool" where
  "proper_pair p \<longleftrightarrow> 0 < War_First p \<and> 0 < War_Second p \<and> War_First p \<noteq> War_Second p"

definition war_ok :: "FamilyWarSnapshot \<Rightarrow> bool" where
  "war_ok s \<longleftrightarrow>
     (pair_IsZero (War_Active s) \<or> proper_pair (War_Active s) \<and> pair_IsZero (War_Pending s))
     \<and> (pair_IsZero (War_Pending s) \<or> proper_pair (War_Pending s))"

lemmas war_defs = RequestFamilyWar_def AcceptFamilyWar_def CancelFamilyWar_def ClearFamilyWar_def
  EndActiveFamilyWar_def validateFamilyWarPair_def Let_def

lemma pair_IsZero_iff: "pair_IsZero p \<longleftrightarrow> p = noPair"
  by (cases p) (simp add: pair_IsZero_def noPair_def)

lemma noPair_fields [simp]: "pair_IsZero noPair" "War_First noPair = 0" "War_Second noPair = 0"
  by (simp_all add: pair_IsZero_def noPair_def)

lemma noWar_fields [simp]: "War_Active noWar = noPair" "War_Pending noWar = noPair" "war_ok noWar"
  by (simp_all add: noWar_def war_ok_def)

lemma war_step_ok: "war_step w w' \<Longrightarrow> war_ok (familyWar w) \<Longrightarrow> war_ok (familyWar w')"
  by (erule war_stepE) (auto simp: war_defs war_ok_def proper_pair_def pair_IsZero_def split: if_splits)

text \<open>C16. In every reachable world at most one of a war and a war request exists, and its two families
  are positive and different.\<close>

theorem war_reachable_ok:
  assumes "war_reachable w"
  shows "war_ok (familyWar w)"
  using assms by (induction rule: war_reachable.induct) (simp_all add: war_step_ok)

subsection \<open>The specification\<close>

definition spec_request :: "int \<Rightarrow> int \<Rightarrow> War \<Rightarrow> go_error option \<times> War" where
  "spec_request c t s =
     (case validateFamilyWarPair c t of
        Some e \<Rightarrow> (Some e, s)
      | None \<Rightarrow> (case s of Peace \<Rightarrow> (None, Called c t) | Called _ _ \<Rightarrow> (Some ErrFamilyWarPending, s)
                | Fighting _ _ \<Rightarrow> (Some ErrFamilyWarActive, s)))"

definition spec_accept :: "int \<Rightarrow> int \<Rightarrow> War \<Rightarrow> go_error option \<times> War" where
  "spec_accept t c s =
     (case validateFamilyWarPair t c of
        Some e \<Rightarrow> (Some e, s)
      | None \<Rightarrow> (case s of Peace \<Rightarrow> (Some ErrFamilyWarNoPending, s)
                | Called c' t' \<Rightarrow> if t' \<noteq> t then (Some ErrFamilyWarNotTarget, s)
                                 else if c' \<noteq> c then (Some ErrFamilyWarPending, s) else (None, Fighting t c)
                | Fighting _ _ \<Rightarrow> (Some ErrFamilyWarActive, s)))"

definition spec_cancel :: "int \<Rightarrow> War \<Rightarrow> go_error option \<times> War" where
  "spec_cancel c s =
     (if c \<le> 0 then (Some ErrFamilyWarInvalidFamily, s)
      else case s of
        Called c' t' \<Rightarrow> if c' \<noteq> c then (Some ErrFamilyWarNotRequester, s) else (None, Peace)
      | _ \<Rightarrow> (Some ErrFamilyWarNoPending, s))"

definition spec_end :: "War \<Rightarrow> War" where
  "spec_end s = (case s of Fighting _ _ \<Rightarrow> Peace | _ \<Rightarrow> s)"

definition war_of :: "World \<Rightarrow> War" where
  "war_of w = war_abs (familyWar w)"

lemma proper_nonzero: "proper_pair p \<Longrightarrow> \<not> pair_IsZero p"
  by (simp add: proper_pair_def pair_IsZero_def)

lemmas war_cases_simps = war_of_def war_abs_def war_defs war_ok_def proper_nonzero

lemma request_simulates: "war_ok (familyWar w) \<Longrightarrow>
    (fst (fst (RequestFamilyWar c t w)), war_of (snd (RequestFamilyWar c t w))) = spec_request c t (war_of w)"
  by (auto simp: war_cases_simps spec_request_def pair_IsZero_def)

lemma accept_simulates: "war_ok (familyWar w) \<Longrightarrow>
    (fst (fst (AcceptFamilyWar t c w)), war_of (snd (AcceptFamilyWar t c w))) = spec_accept t c (war_of w)"
  by (auto simp: war_cases_simps spec_accept_def pair_IsZero_def noPair_def)

lemma cancel_simulates: "war_ok (familyWar w) \<Longrightarrow>
    (fst (fst (CancelFamilyWar c w)), war_of (snd (CancelFamilyWar c w))) = spec_cancel c (war_of w)"
  by (auto simp: war_cases_simps spec_cancel_def)

lemma end_simulates:
  "war_of (snd (EndActiveFamilyWar w)) = spec_end (war_of w)" "war_of (snd (ClearFamilyWar w)) = Peace"
  by (auto simp: war_cases_simps spec_end_def)

text \<open>C4. On every reachable world the five operations, errors included, are the transitions of the
  three-state specification: a request is accepted only in peace, a war starts only when the
  called family accepts the caller, only the caller can withdraw, and an end brings peace.\<close>

theorem family_war_refines:
  assumes "war_reachable w"
  shows "(fst (fst (RequestFamilyWar c t w)), war_of (snd (RequestFamilyWar c t w))) = spec_request c t (war_of w)
     \<and> (fst (fst (AcceptFamilyWar t c w)), war_of (snd (AcceptFamilyWar t c w))) = spec_accept t c (war_of w)
     \<and> (fst (fst (CancelFamilyWar c w)), war_of (snd (CancelFamilyWar c w))) = spec_cancel c (war_of w)
     \<and> war_of (snd (EndActiveFamilyWar w)) = spec_end (war_of w)
     \<and> war_of (snd (ClearFamilyWar w)) = Peace"
proof -
  have "war_ok (familyWar w)"
    using assms by (induction rule: war_reachable.induct) (simp_all add: war_step_ok)
  then show ?thesis
    using request_simulates accept_simulates cancel_simulates end_simulates by blast
qed

text \<open>C17. Whatever happens in one step, a war of \<open>t\<close> and \<open>c\<close> after it was either under way before it or
  is the answer of \<open>t\<close> to a standing request of \<open>c\<close>: no family is drawn into a war it did not
  accept, and the accepting family is recorded first.\<close>

theorem war_needs_request:
  assumes "war_reachable w" and "war_step w w'" and "war_of w' = Fighting t c"
  shows "war_of w = Fighting t c \<or> war_of w = Called c t"
proof -
  have "war_ok (familyWar w)"
    using assms(1) by (induction rule: war_reachable.induct) (simp_all add: war_step_ok)
  then show ?thesis
    using assms(2,3)
    by (elim war_stepE) (auto simp: war_cases_simps pair_IsZero_def split: if_splits)
qed

text \<open>In reachable worlds two families are reported at war exactly when the war is theirs, in either
  order, and a family is reported at war exactly when it is with some other family.\<close>

theorem FamiliesAtWar_spec:
  assumes "war_reachable w"
  shows "FamiliesAtWar w a b = (war_of w = Fighting a b \<or> war_of w = Fighting b a)
     \<and> FamiliesAtWar w a b = FamiliesAtWar w b a \<and> \<not> FamiliesAtWar w a a
     \<and> FamilyAtWar w a = (\<exists>c. FamiliesAtWar w a c)"
proof -
  have "war_ok (familyWar w)"
    using assms by (induction rule: war_reachable.induct) (simp_all add: war_step_ok)
  then consider "pair_IsZero (War_Active (familyWar w))"
    | x y where "War_Active (familyWar w) = \<lparr>War_First = x, War_Second = y\<rparr>" "0 < x" "0 < y" "x \<noteq> y"
    unfolding war_ok_def proper_pair_def by (cases "War_Active (familyWar w)") auto
  then show ?thesis
  proof cases
    case 1
    then have n: "War_Active (familyWar w) = noPair" by (simp add: pair_IsZero_iff)
    then show ?thesis
      by (simp add: FamiliesAtWar_def FamilyAtWar_def war_of_def war_abs_def)
  next
    case (2 x y)
    then have "\<not> pair_IsZero (War_Active (familyWar w))" by (simp add: pair_IsZero_def)
    with 2 have "war_of w = Fighting x y"
      and f: "FamiliesAtWar w a b \<longleftrightarrow> a = x \<and> b = y \<or> a = y \<and> b = x" for a b
      by (auto simp: war_of_def war_abs_def FamiliesAtWar_def)
    moreover have "FamilyAtWar w a \<longleftrightarrow> a = x \<or> a = y"
      using 2 by (auto simp: FamilyAtWar_def)
    ultimately show ?thesis
      using 2 by auto
  qed
qed

text \<open>For family numbers below 16 the legacy value \<^verbatim>\<open>AT_WAR\<close> of a reachable world determines the two
  families at war.\<close>

theorem LegacyValues_decode:
  assumes "war_reachable w" and "LegacyValues (familyWar w) = (atWar, call1, call2)"
    and "War_First (War_Active (familyWar w)) < 16" and "War_Second (War_Active (familyWar w)) < 16"
  shows "atWar div 16 = War_First (War_Active (familyWar w)) \<and> atWar mod 16 = War_Second (War_Active (familyWar w))
     \<and> (atWar = 0 \<longleftrightarrow> \<not> AtWar (familyWar w))"
proof -
  let ?a = "War_Active (familyWar w)"
  have ok: "war_ok (familyWar w)"
    using assms(1) by (induction rule: war_reachable.induct) (simp_all add: war_step_ok)
  show ?thesis
  proof (cases "pair_IsZero ?a")
    case True
    with assms(2) show ?thesis by (auto simp: LegacyValues_def AtWar_def pair_IsZero_def)
  next
    case False
    with ok have b: "0 < War_First ?a" "0 < War_Second ?a" by (auto simp: war_ok_def proper_pair_def)
    then have "i64 (War_First ?a * 16 + War_Second ?a) = War_First ?a * 16 + War_Second ?a"
      using assms(3,4) by (intro i64_id) (simp add: in_i64_def)
    with assms(2) False have "atWar = War_First ?a * 16 + War_Second ?a"
      by (simp add: LegacyValues_def)
    then show ?thesis
      using b False assms(4) by (simp add: AtWar_def)
  qed
qed

text \<open>For larger numbers it does not: the wars of families 1 and 17 and of families 2 and 1 are both
  reachable and have the same \<^verbatim>\<open>AT_WAR\<close> value.\<close>

theorem LegacyValues_collide:
  "\<exists>w w'. war_reachable w \<and> war_reachable w' \<and> war_of w = Fighting 1 17 \<and> war_of w' = Fighting 2 1
     \<and> LegacyValues (familyWar w) = LegacyValues (familyWar w')"
proof -
  define run where "run = (\<lambda>t c. snd (AcceptFamilyWar t c (snd (RequestFamilyWar c t emptyWorld))))"
  have "familyWar emptyWorld = noWar"
    by (simp add: emptyWorld_def noWar_def noPair_def)
  then have r: "war_reachable (run t c)" for t c
    unfolding run_def by (intro war_next [OF war_next [OF war_init war_request] war_accept])
  have "war_of (run 1 17) = Fighting 1 17" and "war_of (run 2 1) = Fighting 2 1"
    and "LegacyValues (familyWar (run 1 17)) = LegacyValues (familyWar (run 2 1))"
    unfolding run_def by code_simp+
  with r show ?thesis by blast
qed

subsection \<open>The properties on a concrete run\<close>

definition warRun :: World where
  "warRun = snd (AcceptFamilyWar 3 5 (snd (RequestFamilyWar 5 3 emptyWorld)))"

lemma warRun_reachable:
  "war_reachable emptyWorld" "war_reachable (snd (RequestFamilyWar 5 3 emptyWorld))" "war_reachable warRun"
  "war_step (snd (RequestFamilyWar 5 3 emptyWorld)) warRun"
proof -
  show s: "war_step (snd (RequestFamilyWar 5 3 emptyWorld)) warRun"
    unfolding warRun_def by (rule war_accept)
  show i: "war_reachable emptyWorld"
    by (rule war_init) (simp add: emptyWorld_def noWar_def noPair_def)
  show r: "war_reachable (snd (RequestFamilyWar 5 3 emptyWorld))"
    by (rule war_next [OF i war_request])
  show "war_reachable warRun"
    by (rule war_next [OF r s])
qed

theorem war_reachable_ok_witness: "war_ok (familyWar warRun) \<and> war_of warRun = Fighting 3 5"
proof
  show "war_ok (familyWar warRun)" using war_reachable_ok [OF warRun_reachable(3)] .
  show "war_of warRun = Fighting 3 5" by code_simp
qed

theorem family_war_refines_witness:
  "(fst (fst (RequestFamilyWar 7 8 warRun)), war_of (snd (RequestFamilyWar 7 8 warRun))) = spec_request 7 8 (war_of warRun)"
  using family_war_refines [OF warRun_reachable(3)] by blast

theorem war_needs_request_witness:
  "war_of (snd (RequestFamilyWar 5 3 emptyWorld)) = Called 5 3"
proof -
  have "war_of warRun = Fighting 3 5" and "war_of (snd (RequestFamilyWar 5 3 emptyWorld)) \<noteq> Fighting 3 5"
    by code_simp+
  with war_needs_request [OF warRun_reachable(2,4), of 3 5] show ?thesis by blast
qed

theorem FamiliesAtWar_spec_witness: "FamiliesAtWar warRun 5 3 \<and> FamilyAtWar warRun 5"
proof -
  have "war_of warRun = Fighting 3 5" by code_simp
  with FamiliesAtWar_spec [OF warRun_reachable(3), of 5 3] show ?thesis by blast
qed

theorem LegacyValues_decode_witness: "(53::int) div 16 = War_First (War_Active (familyWar warRun))"
proof -
  have "LegacyValues (familyWar warRun) = (53, 0, 0)" "War_First (War_Active (familyWar warRun)) < 16"
    "War_Second (War_Active (familyWar warRun)) < 16"
    by code_simp+
  from LegacyValues_decode [OF warRun_reachable(3) this] show ?thesis by blast
qed

subsection \<open>Guest lists\<close>

definition movePlayerInviteNameMatches :: "Player \<Rightarrow> string \<Rightarrow> bool" where
  "movePlayerInviteNameMatches player invitedName =
     (let invitedName = trimSpace invitedName in
      if invitedName = [] then False
      else invitedName = trimSpace (Player_DisplayName player) \<or> invitedName = trimSpace (Player_ID player))"

definition hasMarriageInvite :: "World \<Rightarrow> Player \<Rightarrow> SpecialID \<Rightarrow> bool" where
  "hasMarriageInvite w player specialID =
     (if SpecialID_IsZero specialID then False
      else list_ex (movePlayerInviteNameMatches player) (mget [] (marriageInvites w) specialID))"

definition HasMarriageInvite :: "World \<Rightarrow> PlayerID \<Rightarrow> SpecialID \<Rightarrow> bool" where
  "HasMarriageInvite w playerID specialID =
     (if SpecialID_IsZero specialID then False
      else case fmlookup (players w) playerID of None \<Rightarrow> False | Some player \<Rightarrow> hasMarriageInvite w player specialID)"

definition MarriageInvites :: "World \<Rightarrow> SpecialID \<Rightarrow> string list" where
  "MarriageInvites w specialID = (if SpecialID_IsZero specialID then [] else mget [] (marriageInvites w) specialID)"

definition AddMarriageInvite :: "SpecialID \<Rightarrow> string \<Rightarrow> World \<Rightarrow> bool result \<times> World" where
  "AddMarriageInvite specialID name w =
     (if SpecialID_IsZero specialID then (Inl (Errorf ''add marriage invite: special id is required'' []), w)
      else let name = trimSpace name in
        if name = [] then (Inl (Errorf ''add marriage invite %q: name is required'' [itoa specialID]), w)
        else
          let invites = mget [] (marriageInvites w) specialID in
          if list_ex (\<lambda>existing. trimSpace existing = name) invites then (Inr False, w)
          else (Inr True, w\<lparr>marriageInvites := fmupd specialID (invites @ [name]) (marriageInvites w)\<rparr>))"

text \<open>The list without the last entry that satisfies \<open>P\<close>, or \<open>None\<close> when no entry does.\<close>

fun drop_last_match :: "('a \<Rightarrow> bool) \<Rightarrow> 'a list \<Rightarrow> 'a list option" where
  "drop_last_match P [] = None"
| "drop_last_match P (x # xs) =
     (case drop_last_match P xs of Some ys \<Rightarrow> Some (x # ys) | None \<Rightarrow> if P x then Some xs else None)"

definition RemoveMarriageInvite :: "SpecialID \<Rightarrow> string \<Rightarrow> World \<Rightarrow> bool result \<times> World" where
  "RemoveMarriageInvite specialID name w =
     (if SpecialID_IsZero specialID then (Inl (Errorf ''remove marriage invite: special id is required'' []), w)
      else let name = trimSpace name in
        if name = [] then (Inl (Errorf ''remove marriage invite %q: name is required'' [itoa specialID]), w)
        else case drop_last_match (\<lambda>existing. trimSpace existing = name) (mget [] (marriageInvites w) specialID) of
          None \<Rightarrow> (Inr False, w)
        | Some invites \<Rightarrow>
            (Inr True, w\<lparr>marriageInvites :=
               (if invites = [] then fmdrop specialID (marriageInvites w)
                else fmupd specialID invites (marriageInvites w))\<rparr>))"

lemma drop_last_match_snoc: "P x \<Longrightarrow> drop_last_match P (xs @ [x]) = Some xs"
  by (induction xs) auto

lemma drop_last_match_None: "drop_last_match P xs = None \<longleftrightarrow> \<not> list_ex P xs"
  by (induction xs) (auto split: option.split)

text \<open>Adding a name to a guest list invites the player of that name, and removing the name afterwards
  restores every guest list.\<close>

theorem invite_roundtrip:
  assumes "AddMarriageInvite s n w = (Inr True, w1)" and "fmlookup (players w) pid = Some p"
    and "trimSpace (Player_DisplayName p) = trimSpace n"
  shows "HasMarriageInvite w1 pid s
     \<and> (\<exists>w2. RemoveMarriageInvite s n w1 = (Inr True, w2) \<and> MarriageInvites w2 = MarriageInvites w)"
proof -
  let ?n = "trimSpace n" and ?l = "mget [] (marriageInvites w) s"
  have n: "?n \<noteq> []" and s: "\<not> SpecialID_IsZero s"
    and w1: "w1 = w\<lparr>marriageInvites := fmupd s (?l @ [?n]) (marriageInvites w)\<rparr>"
    using assms(1) by (auto simp: AddMarriageInvite_def Let_def split: if_splits)
  have "HasMarriageInvite w1 pid s"
    using n s assms(2,3)
    by (simp add: w1 HasMarriageInvite_def hasMarriageInvite_def movePlayerInviteNameMatches_def Let_def trimSpace_idem)
  moreover have "drop_last_match (\<lambda>x. trimSpace x = ?n) (?l @ [?n]) = Some ?l"
    by (rule drop_last_match_snoc) (simp add: trimSpace_idem)
  ultimately show ?thesis
    using n s by (auto simp: RemoveMarriageInvite_def Let_def w1 MarriageInvites_def fun_eq_iff mget_def)
qed

theorem invite_roundtrip_witness:
  "\<exists>w2. RemoveMarriageInvite 4 '' Ann'' (snd (AddMarriageInvite 4 '' Ann'' demoPlayers)) = (Inr True, w2)
     \<and> MarriageInvites w2 = MarriageInvites demoPlayers"
proof -
  have a: "AddMarriageInvite 4 '' Ann'' demoPlayers = (Inr True, snd (AddMarriageInvite 4 '' Ann'' demoPlayers))"
    by (rule run_eq) code_simp
  have "map_option Player_DisplayName (fmlookup (players demoPlayers) ''p1'') = Some ''Ann''"
    by code_simp
  then obtain p where p: "fmlookup (players demoPlayers) ''p1'' = Some p" "Player_DisplayName p = ''Ann''"
    by auto
  have "trimSpace ''Ann'' = trimSpace '' Ann''" by code_simp
  with p invite_roundtrip [OF a p(1)] show ?thesis by simp
qed

subsection \<open>Family records\<close>

text \<open>The family of a legacy number: by key, else the first with that slot in the order of the range.\<close>

fun family_by_slot :: "(int, Family) fmap \<Rightarrow> int \<Rightarrow> int list \<Rightarrow> (int \<times> Family) option" where
  "family_by_slot m familyID [] = None"
| "family_by_slot m familyID (k # ks) =
     (case fmlookup m k of
        None \<Rightarrow> family_by_slot m familyID ks
      | Some family \<Rightarrow> if Family_Slot family = familyID then Some (k, family) else family_by_slot m familyID ks)"

definition familyByLegacyNumber :: "int list \<Rightarrow> World \<Rightarrow> int \<Rightarrow> (int \<times> Family) option" where
  "familyByLegacyNumber order w familyID =
     (case fmlookup (families w) familyID of
        Some family \<Rightarrow> Some (familyID, family)
      | None \<Rightarrow> family_by_slot (families w) familyID order)"

definition UpdateFamilyMembers :: "int list \<Rightarrow> int \<Rightarrow> FamilyMember list \<Rightarrow> World \<Rightarrow> go_error option \<times> World" where
  "UpdateFamilyMembers order familyID members w =
     (case familyByLegacyNumber order w familyID of
        None \<Rightarrow> (Some (Errorf ''update family members: family %d not found'' [itoa familyID]), w)
      | Some (k, family) \<Rightarrow>
          (None, w\<lparr>families := fmupd k (family\<lparr>Family_Members := members\<rparr>) (families w)\<rparr>))"

definition UpdateFamily :: "Family \<Rightarrow> World \<Rightarrow> World" where
  "UpdateFamily family w = w\<lparr>families := fmupd (Family_ID family) family (families w)\<rparr>"

text \<open>The class of the first member of that name; a member loaded from a file also carries its line.\<close>

definition set_member_class :: "int \<Rightarrow> FamilyMember \<Rightarrow> FamilyMember" where
  "set_member_class class m =
     (let raw = Meta_RawFields (Member_Metadata m);
          raw = (if raw = fmempty then raw
                 else fmupd ''line'' (itoa class @ '' '' @ Member_DisplayName m) raw)
      in m\<lparr>Member_Class := class, Member_Metadata := (Member_Metadata m)\<lparr>Meta_RawFields := raw\<rparr>\<rparr>)"

fun update_member :: "string \<Rightarrow> int \<Rightarrow> FamilyMember list \<Rightarrow> FamilyMember list option" where
  "update_member name class [] = None"
| "update_member name class (m # ms) =
     (if trimSpace (Member_DisplayName m) = name then Some (set_member_class class m # ms)
      else map_option ((#) m) (update_member name class ms))"

definition UpdateFamilyMemberAfterClassChange :: "int list \<Rightarrow> string \<Rightarrow> int \<Rightarrow> int \<Rightarrow> World \<Rightarrow> World" where
  "UpdateFamilyMemberAfterClassChange order name class dailyExpndMax w =
     (let name = trimSpace name in
      if name = [] \<or> dailyExpndMax \<le> 0 then w
      else case familyByLegacyNumber order w dailyExpndMax of
        None \<Rightarrow> w
      | Some (k, family) \<Rightarrow>
          (case update_member name class (Family_Members family) of
             None \<Rightarrow> w
           | Some members \<Rightarrow> w\<lparr>families := fmupd k (family\<lparr>Family_Members := members\<rparr>) (families w)\<rparr>))"

end
