(* ===== verification/Exits.thy ===== *)
theory Exits
  imports FamilyWar "HOL-Library.Word"
begin

text \<open>
  The exits of rooms (\<^verbatim>\<open>room.go\<close>, \<^verbatim>\<open>dm_support.go\<close>): flags, keys, and the timers that close and lock an
  exit again.  A timer is a pair of raw legacy fields, each either a decimal number as text or a
  little-endian integer of two or four bytes (\<^verbatim>\<open>state.go\<close>).
\<close>

subsection \<open>Numbers in raw fields\<close>

definition rawASCIIInteger :: "string \<Rightarrow> string option" where
  "rawASCIIInteger raw =
     (let text = trimSpace raw;
          digits = (case text of [] \<Rightarrow> [] | c # t \<Rightarrow> if c = CHR ''-'' \<or> c = CHR ''+'' then t else text)
      in if digits = [] \<or> \<not> list_all is_digit digits then None else Some text)"

definition byte_at :: "string \<Rightarrow> nat \<Rightarrow> int" where
  "byte_at raw k = of_char (raw ! k)"

definition rawFieldInt64 :: "string \<Rightarrow> nat \<Rightarrow> int option" where
  "rawFieldInt64 raw width =
     (case (case rawASCIIInteger raw of None \<Rightarrow> None | Some text \<Rightarrow> atoi text) of
        Some value \<Rightarrow> Some value
      | None \<Rightarrow>
          if width = 2 \<and> 2 \<le> length raw
          then Some (sint (word_of_int (byte_at raw 0 + 256 * byte_at raw 1) :: 16 word))
          else if width = 4 \<and> 4 \<le> length raw
          then Some (sint (word_of_int (byte_at raw 0 + 256 * byte_at raw 1 + 256 ^ 2 * byte_at raw 2
                                         + 256 ^ 3 * byte_at raw 3) :: 32 word))
          else None)"

definition int32RawField :: "int \<Rightarrow> string" where
  "int32RawField value =
     (let v = uint (word_of_int value :: 32 word)
      in [char_of v, char_of (v div 256), char_of (v div 256 ^ 2), char_of (v div 256 ^ 3)])"

lemma int32RawField_code [code]:
  "int32RawField value =
     (let v = take_bit 32 value
      in [char_of v, char_of (v div 256), char_of (v div 256 ^ 2), char_of (v div 256 ^ 3)])"
  by (simp add: int32RawField_def uint_word_of_int take_bit_eq_mod)

lemma rawFieldInt64_code [code]:
  "rawFieldInt64 raw width =
     (case (case rawASCIIInteger raw of None \<Rightarrow> None | Some text \<Rightarrow> atoi text) of
        Some value \<Rightarrow> Some value
      | None \<Rightarrow>
          if width = 2 \<and> 2 \<le> length raw
          then Some (signed_take_bit 15 (byte_at raw 0 + 256 * byte_at raw 1))
          else if width = 4 \<and> 4 \<le> length raw
          then Some (signed_take_bit 31 (byte_at raw 0 + 256 * byte_at raw 1 + 256 ^ 2 * byte_at raw 2
                                         + 256 ^ 3 * byte_at raw 3))
          else None)"
  by (simp only: rawFieldInt64_def sint_sbintrunc') (simp cong: option.case_cong)

subsection \<open>Timers\<close>

definition exitLTimeIntervalRawField :: string where "exitLTimeIntervalRawField = ''ltime.interval''"
definition exitLTimeLTimeRawField :: string where "exitLTimeLTimeRawField = ''ltime.ltime''"

text \<open>A field that is missing or does not parse counts as zero; both missing is \<open>None\<close>.\<close>

definition timer_field :: "(string, string) fmap \<Rightarrow> string \<Rightarrow> string \<Rightarrow> int option" where
  "timer_field raw name legacy =
     (case rawFieldInt64 (mget [] raw name) 4 of
        Some v \<Rightarrow> Some v
      | None \<Rightarrow> rawFieldInt64 (mget [] raw legacy) 4)"

definition exitTimerValues :: "Exit \<Rightarrow> (int \<times> int) option" where
  "exitTimerValues exit =
     (let raw = Meta_RawFields (Exit_Metadata exit);
          interval = timer_field raw exitLTimeIntervalRawField ''interval'';
          ltime = timer_field raw exitLTimeLTimeRawField ''lasttime'';
          value = (\<lambda>v. case v of None \<Rightarrow> 0 | Some i \<Rightarrow> i)
      in if interval = None \<and> ltime = None then None else Some (value interval, value ltime))"

definition exitTimerExpired :: "Exit \<Rightarrow> int \<Rightarrow> bool" where
  "exitTimerExpired exit nowUnix =
     (case exitTimerValues exit of
        None \<Rightarrow> False
      | Some (interval, ltime) \<Rightarrow> i64 (ltime + interval) < nowUnix)"

definition setExitTimerLTime :: "Exit \<Rightarrow> int \<Rightarrow> Exit" where
  "setExitTimerLTime exit nowUnix =
     (let meta = Exit_Metadata exit
      in exit\<lparr>Exit_Metadata := meta\<lparr>Meta_RawFields :=
           fmupd exitLTimeLTimeRawField (int32RawField nowUnix) (Meta_RawFields meta)\<rparr>\<rparr>)"

subsection \<open>Finding and changing an exit\<close>

fun exit_index :: "Exit list \<Rightarrow> string \<Rightarrow> nat option" where
  "exit_index [] name = None"
| "exit_index (exit # exits) name =
     (if Exit_Name exit = name then Some 0 else map_option Suc (exit_index exits name))"

definition putExit :: "RoomID \<Rightarrow> Room \<Rightarrow> nat \<Rightarrow> Exit \<Rightarrow> World \<Rightarrow> World" where
  "putExit roomID room i exit w =
     w\<lparr>rooms := fmupd roomID (room\<lparr>Room_Exits := (Room_Exits room)[i := exit]\<rparr>) (rooms w)\<rparr>"

definition findExitForUpdate :: "World \<Rightarrow> RoomID \<Rightarrow> string \<Rightarrow> string \<Rightarrow> (Room \<times> nat) result" where
  "findExitForUpdate w roomID exitName action =
     (if IsZero roomID then Inl (Errorf ''%s exit %q: room id is required'' [action, exitName])
      else let exitName = trimSpace exitName in
        if exitName = [] then Inl (Errorf ''%s exit: exit name is required'' [action])
        else case fmlookup (rooms w) roomID of
          None \<Rightarrow> Inl (Errorf ''%s exit %q: room %q not found'' [action, exitName, roomID])
        | Some room \<Rightarrow>
            (case exit_index (Room_Exits room) exitName of
               None \<Rightarrow> Inl (Errorf ''%s exit %q: exit not found in room %q'' [action, exitName, roomID])
             | Some i \<Rightarrow> Inr (room, i)))"

definition SetExitFlag :: "RoomID \<Rightarrow> string \<Rightarrow> string \<Rightarrow> bool \<Rightarrow> World \<Rightarrow> Exit result \<times> World" where
  "SetExitFlag roomID exitName flag enabled w =
     (if IsZero roomID
      then (Inl (Errorf ''set exit %q flag %q: room id is required'' [exitName, flag]), w)
      else let exitName = trimSpace exitName in
        if exitName = [] then (Inl (Errorf ''set exit flag %q: exit name is required'' [flag]), w)
        else let flag = trimSpace flag in
          if flag = [] then (Inl (Errorf ''set exit %q flag: flag is required'' [exitName]), w)
          else case fmlookup (rooms w) roomID of
            None \<Rightarrow> (Inl (Errorf ''set exit %q flag %q: room %q not found'' [exitName, flag, roomID]), w)
          | Some room \<Rightarrow>
              (case exit_index (Room_Exits room) exitName of
                 None \<Rightarrow> (Inl (Errorf ''set exit %q flag %q: exit not found in room %q''
                                [exitName, flag, roomID]), w)
               | Some i \<Rightarrow>
                   let exit = Room_Exits room ! i;
                       exit = exit\<lparr>Exit_Flags := setExitFlag (Exit_Flags exit) flag enabled\<rparr>
                   in (Inr exit, putExit roomID room i exit w)))"

definition TouchExitTimer :: "RoomID \<Rightarrow> string \<Rightarrow> int \<Rightarrow> World \<Rightarrow> Exit result \<times> World" where
  "TouchExitTimer roomID exitName nowUnix w =
     (case findExitForUpdate w roomID exitName ''touch'' of
        Inl err \<Rightarrow> (Inl err, w)
      | Inr (room, i) \<Rightarrow>
          let exit = setExitTimerLTime (Room_Exits room ! i) nowUnix
          in (Inr exit, putExit roomID room i exit w))"

subsection \<open>Closing and locking by the clock\<close>

definition relock_exit :: "int \<Rightarrow> Exit \<Rightarrow> Exit" where
  "relock_exit nowUnix exit =
     (if \<not> exitTimerExpired exit nowUnix then exit
      else if exitHasAnyFlag exit [''lockable'', ''xlocks'']
      then exit\<lparr>Exit_Flags := setExitFlag (setExitFlag (Exit_Flags exit) ''locked'' True) ''closed'' True\<rparr>
      else if exitHasAnyFlag exit [''closable'', ''xcloss'']
      then exit\<lparr>Exit_Flags := setExitFlag (Exit_Flags exit) ''closed'' True\<rparr>
      else exit)"

text \<open>The code writes the room back only if an exit was changed; writing it unchanged is the same.\<close>

definition checkRoomExits :: "RoomID \<Rightarrow> int \<Rightarrow> World \<Rightarrow> World" where
  "checkRoomExits roomID nowUnix w =
     (case fmlookup (rooms w) roomID of
        None \<Rightarrow> w
      | Some room \<Rightarrow>
          w\<lparr>rooms := fmupd roomID (room\<lparr>Room_Exits := map (relock_exit nowUnix) (Room_Exits room)\<rparr>) (rooms w)\<rparr>)"

definition CheckRoomExits :: "RoomID \<Rightarrow> int \<Rightarrow> World \<Rightarrow> go_error option \<times> World" where
  "CheckRoomExits roomID nowUnix w =
     (if IsZero roomID then (Some (Errorf ''check exits: room id is required'' []), w)
      else if fmlookup (rooms w) roomID = None
      then (Some (Errorf ''check exits in room %q: room not found'' [roomID]), w)
      else (None, checkRoomExits roomID nowUnix w))"

subsection \<open>Keys\<close>

definition key_of_flag :: "string \<Rightarrow> int option" where
  "key_of_flag flag0 =
     (let flag = trimSpace flag0
      in if flag = [] then None
         else case cut_byte CHR '':'' flag of
           None \<Rightarrow> None
         | Some (key, raw) \<Rightarrow>
             if normalizeFlagName key \<noteq> ''key'' then None
             else case atoi (trimSpace raw) of
               None \<Rightarrow> None
             | Some value \<Rightarrow> if 0 < value then Some value else None)"

fun key_in_flags :: "string list \<Rightarrow> int option" where
  "key_in_flags [] = None"
| "key_in_flags (flag # flags) =
     (case key_of_flag flag of Some value \<Rightarrow> Some value | None \<Rightarrow> key_in_flags flags)"

definition exitKeyNumber :: "Exit \<Rightarrow> int option" where
  "exitKeyNumber exit =
     (case key_in_flags (Exit_Flags exit) of
        Some value \<Rightarrow> Some value
      | None \<Rightarrow>
          let raw = mget [] (Meta_RawFields (Exit_Metadata exit)) ''key''
          in if 0 < length raw \<and> 0 < byte_at raw 0 then Some (byte_at raw 0) else None)"

definition validateExitKey :: "World \<Rightarrow> ObjectInstanceID \<Rightarrow> Exit \<Rightarrow> ObjectInstance result" where
  "validateExitKey w keyID exit =
     (case fmlookup (objects w) keyID of
        None \<Rightarrow> Inl (Errorf ''exit key %q: object not found'' [keyID])
      | Some key \<Rightarrow>
          if \<not> objectKindIs w key ObjectKindKey
          then Inl (Errorf ''exit key %q: object is not a key'' [keyID])
          else case exitKeyNumber exit of
            None \<Rightarrow> Inl (Errorf ''exit %q: key number not found'' [Exit_Name exit])
          | Some keyNumber \<Rightarrow>
              if objectIntProperty w key ''nDice'' \<noteq> Some keyNumber
              then Inl (Errorf ''exit key %q: key does not match'' [keyID])
              else Inr key)"

definition keyCharges :: "World \<Rightarrow> ObjectInstance \<Rightarrow> int" where
  "keyCharges w key = (case objectIntProperty w key ''shotsCurrent'' of None \<Rightarrow> 0 | Some v \<Rightarrow> v)"

definition UnlockExitWithKey ::
  "RoomID \<Rightarrow> string \<Rightarrow> ObjectInstanceID \<Rightarrow> World \<Rightarrow> (Exit \<times> ObjectInstance) result \<times> World" where
  "UnlockExitWithKey roomID exitName keyID w =
     (if IsZero keyID then (Inl (Errorf ''unlock exit %q: key id is required'' [exitName]), w)
      else case findExitForUpdate w roomID exitName ''unlock'' of
        Inl err \<Rightarrow> (Inl err, w)
      | Inr (room, i) \<Rightarrow>
          let exit = Room_Exits room ! i in
          if \<not> exitHasAnyFlag exit [''locked'', ''xlockd'', ''xlocked'']
          then (Inl (Errorf ''unlock exit %q: exit is not locked'' [exitName]), w)
          else case validateExitKey w keyID exit of
            Inl err \<Rightarrow> (Inl err, w)
          | Inr key \<Rightarrow>
              let charges = keyCharges w key in
              if charges < 1 then (Inl (Errorf ''unlock exit %q: key %q is broken'' [exitName, keyID]), w)
              else
                let exit = exit\<lparr>Exit_Flags := setExitFlag (Exit_Flags exit) ''locked'' False\<rparr>;
                    exit = setExitTimerLTime exit (clock w);
                    w = putExit roomID room i exit w;
                    key = key\<lparr>Object_Properties :=
                      fmupd ''shotsCurrent'' (itoa (charges - 1)) (Object_Properties key)\<rparr>
                in (Inr (exit, key), w\<lparr>objects := fmupd (Object_ID key) key (objects w)\<rparr>))"

definition LockExitWithKey ::
  "RoomID \<Rightarrow> string \<Rightarrow> ObjectInstanceID \<Rightarrow> World \<Rightarrow> (Exit \<times> ObjectInstance) result \<times> World" where
  "LockExitWithKey roomID exitName keyID w =
     (if IsZero keyID then (Inl (Errorf ''lock exit %q: key id is required'' [exitName]), w)
      else case findExitForUpdate w roomID exitName ''lock'' of
        Inl err \<Rightarrow> (Inl err, w)
      | Inr (room, i) \<Rightarrow>
          let exit = Room_Exits room ! i in
          if exitHasAnyFlag exit [''locked'', ''xlockd'', ''xlocked'']
          then (Inl (Errorf ''lock exit %q: exit is already locked'' [exitName]), w)
          else if \<not> exitHasAnyFlag exit [''lockable'', ''xlocks'']
          then (Inl (Errorf ''lock exit %q: exit is not lockable'' [exitName]), w)
          else if \<not> exitHasAnyFlag exit [''closed'', ''xclosd'', ''xclosed'']
          then (Inl (Errorf ''lock exit %q: exit must be closed'' [exitName]), w)
          else case validateExitKey w keyID exit of
            Inl err \<Rightarrow> (Inl err, w)
          | Inr key \<Rightarrow>
              if keyCharges w key < 1
              then (Inl (Errorf ''lock exit %q: key %q is broken'' [exitName, keyID]), w)
              else
                let exit = exit\<lparr>Exit_Flags := setExitFlag (Exit_Flags exit) ''locked'' True\<rparr>
                in (Inr (exit, key), putExit roomID room i exit w))"

subsection \<open>Making and deleting exits\<close>

fun exit_index_fold :: "Exit list \<Rightarrow> string \<Rightarrow> nat option" where
  "exit_index_fold [] name = None"
| "exit_index_fold (exit # exits) name =
     (if equalFold (Exit_Name exit) name then Some 0 else map_option Suc (exit_index_fold exits name))"

definition link_exit :: "RoomID \<Rightarrow> RoomID \<Rightarrow> string \<Rightarrow> World \<Rightarrow> go_error option \<times> World" where
  "link_exit from to name w =
     (case fmlookup (rooms w) from of
        None \<Rightarrow> (Some (Errorf ''room %s not found'' [from]), w)
      | Some room \<Rightarrow>
          (None,
           case exit_index_fold (Room_Exits room) name of
             Some i \<Rightarrow> putExit from room i ((Room_Exits room ! i)\<lparr>Exit_ToRoomID := to\<rparr>) w
           | None \<Rightarrow>
               let exit = \<lparr>Exit_Name = name, Exit_ToRoomID = to, Exit_Flags = [], Exit_Metadata = noMetadata\<rparr>
               in w\<lparr>rooms := fmupd from (room\<lparr>Room_Exits := Room_Exits room @ [exit]\<rparr>) (rooms w)\<rparr>))"

definition LinkExits :: "RoomID \<Rightarrow> RoomID \<Rightarrow> string \<Rightarrow> string \<Rightarrow> bool \<Rightarrow> World \<Rightarrow> go_error option \<times> World" where
  "LinkExits fromRoomID toRoomID exitName oppositeName doubleWay w =
     (case link_exit fromRoomID toRoomID exitName w of
        (Some err, w) \<Rightarrow> (Some err, w)
      | (None, w) \<Rightarrow>
          if doubleWay \<and> oppositeName \<noteq> [] then link_exit toRoomID fromRoomID oppositeName w else (None, w))"

definition DeleteRoomExit :: "RoomID \<Rightarrow> string \<Rightarrow> World \<Rightarrow> go_error option \<times> World" where
  "DeleteRoomExit roomID exitName w =
     (case fmlookup (rooms w) roomID of
        None \<Rightarrow> (Some (Errorf ''room %s not found'' [roomID]), w)
      | Some room \<Rightarrow>
          let newExits = filter (\<lambda>exit. \<not> equalFold (Exit_Name exit) exitName) (Room_Exits room)
          in (None, w\<lparr>rooms := fmupd roomID (room\<lparr>Room_Exits := newExits\<rparr>) (rooms w)\<rparr>))"


subsection \<open>What only changes the exits or properties\<close>

lemma well_held_frame:
  assumes "\<And>h. refs w' h = refs w h"
    and "\<And>i. map_option Object_Location (fmlookup (objects w') i) = map_option Object_Location (fmlookup (objects w) i)"
  shows "well_held w' = well_held w" and "where_is w' = where_is w"
proof -
  have w: "where_is w' i = where_is w i" and c: "container_of w' i = container_of w i" for i
    using assms(2) [of i]
    by (cases "fmlookup (objects w) i"; cases "fmlookup (objects w') i"; simp add: where_is_def container_of_def)+
  show "where_is w' = where_is w"
    by (rule ext) (rule w)
  have "locations_valid v \<longleftrightarrow>
      (\<forall>i l. map_option Object_Location (fmlookup (objects v) i) = Some l \<longrightarrow> ObjectLocation_Validate l = None)" for v
    by (auto simp: locations_valid_def)
  then have "locations_valid w' = locations_valid w"
    by (simp only: assms(2))
  then show "well_held w' = well_held w"
    by (simp add: well_held_def holders_agree_cong [OF assms(1) w] containers_acyclic_cong [OF c])
qed

lemma refs_putExit [simp]: "fmlookup (rooms w) r = Some room \<Longrightarrow> refs (putExit r room i e w) h = refs w h"
  by (cases h) (auto simp: refs_def putExit_def)

lemma putExit_fields [simp]:
  "objects (putExit r room i e w) = objects w" "creatures (putExit r room i e w) = creatures w"
  "prototypes (putExit r room i e w) = prototypes w" "players (putExit r room i e w) = players w"
  "banks (putExit r room i e w) = banks w" "clock (putExit r room i e w) = clock w"
  by (simp_all add: putExit_def)

lemma refs_checkRoomExits [simp]: "refs (checkRoomExits r t w) h = refs w h"
  by (cases h) (auto simp: refs_def checkRoomExits_def split: option.split)

lemma checkRoomExits_fields [simp]:
  "objects (checkRoomExits r t w) = objects w" "creatures (checkRoomExits r t w) = creatures w"
  "prototypes (checkRoomExits r t w) = prototypes w" "players (checkRoomExits r t w) = players w"
  "banks (checkRoomExits r t w) = banks w" "clock (checkRoomExits r t w) = clock w"
  by (simp_all add: checkRoomExits_def split: option.split)

subsection \<open>The exit a name denotes\<close>

definition exitOf :: "World \<Rightarrow> RoomID \<Rightarrow> string \<Rightarrow> Exit option" where
  "exitOf w roomID exitName =
     (case fmlookup (rooms w) roomID of
        None \<Rightarrow> None
      | Some room \<Rightarrow> map_option (\<lambda>i. Room_Exits room ! i) (exit_index (Room_Exits room) (trimSpace exitName)))"

lemma exit_index_Some: "exit_index exits n = Some i \<Longrightarrow> i < length exits \<and> Exit_Name (exits ! i) = n"
  by (induction exits arbitrary: i) (auto split: if_splits)

lemma exit_index_cong: "map Exit_Name exits = map Exit_Name exits' \<Longrightarrow> exit_index exits n = exit_index exits' n"
proof (induction exits arbitrary: exits')
  case (Cons e exits)
  then show ?case by (cases exits') auto
qed simp

lemma exit_index_update:
  "Exit_Name e = Exit_Name (exits ! i) \<Longrightarrow> exit_index (exits[i := e]) n = exit_index exits n"
  by (rule exit_index_cong) (metis list_update_id map_update)

lemma exit_index_map: "(\<And>e. Exit_Name (f e) = Exit_Name e) \<Longrightarrow> exit_index (map f exits) n = exit_index exits n"
  by (rule exit_index_cong) (simp add: o_def)

lemma findExitForUpdate_Inr:
  "findExitForUpdate w r n action = Inr (room, i) \<longleftrightarrow>
     r \<noteq> [] \<and> trimSpace n \<noteq> [] \<and> fmlookup (rooms w) r = Some room
     \<and> exit_index (Room_Exits room) (trimSpace n) = Some i"
  by (auto simp: findExitForUpdate_def IsZero_def Let_def split: option.splits)

lemma findExitForUpdate_exitOf:
  "findExitForUpdate w r n action = Inr (room, i) \<Longrightarrow> exitOf w r n = Some (Room_Exits room ! i)"
  by (simp add: findExitForUpdate_Inr exitOf_def)

lemma exitOf_putExit:
  assumes "findExitForUpdate w r n action = Inr (room, i)" and "Exit_Name e = Exit_Name (Room_Exits room ! i)"
  shows "exitOf (putExit r room i e w) r n = Some e"
proof -
  have "i < length (Room_Exits room)"
    using assms(1) exit_index_Some by (auto simp: findExitForUpdate_Inr)
  then show ?thesis
    using assms by (simp add: exitOf_def putExit_def findExitForUpdate_Inr exit_index_update)
qed

lemma exitOf_objects [simp]: "exitOf (w\<lparr>objects := m\<rparr>) r n = exitOf w r n"
  by (simp add: exitOf_def)

lemma relock_exit_Name [simp]: "Exit_Name (relock_exit t e) = Exit_Name e"
  by (simp add: relock_exit_def)

lemma exitOf_checkRoomExits: "exitOf (checkRoomExits r t w) r n = map_option (relock_exit t) (exitOf w r n)"
proof (cases "fmlookup (rooms w) r")
  case (Some room)
  then show ?thesis
    by (auto simp: exitOf_def checkRoomExits_def exit_index_map option.map_comp o_def intro!: option.map_cong
        dest: exit_index_Some)
qed (simp add: exitOf_def checkRoomExits_def)

subsection \<open>The flags of a lock\<close>

lemma Expand_locked: "set (ExpandFlagNames [''locked'', ''xlockd'', ''xlocked'']) = {''locked'', ''xlockd'', ''xlocked''}"
  by code_simp

lemma Expand_closed: "set (ExpandFlagNames [''closed'', ''xclosd'', ''xclosed'']) = {''closed'', ''xclosd'', ''xclosed''}"
  by code_simp

lemma Expand_lockable: "set (ExpandFlagNames [''lockable'', ''xlocks'']) = {''lockable'', ''xlocks''}"
  by code_simp

lemma Expand_set_locked: "set (ExpandFlagNames [''locked'']) = {''locked'', ''xlockd'', ''xlocked''}"
  by code_simp

lemma Expand_set_closed: "set (ExpandFlagNames [''closed'']) = {''closed'', ''xclosd'', ''xclosed''}"
  by code_simp

lemma normalize_lock_names [simp]:
  "normalizeFlagName ''locked'' = ''locked''" "normalizeFlagName ''closed'' = ''closed''"
  by code_simp+

abbreviation is_locked :: "Exit \<Rightarrow> bool" where
  "is_locked e \<equiv> exitHasAnyFlag e [''locked'', ''xlockd'', ''xlocked'']"

abbreviation is_closed :: "Exit \<Rightarrow> bool" where
  "is_closed e \<equiv> exitHasAnyFlag e [''closed'', ''xclosd'', ''xclosed'']"

abbreviation is_lockable :: "Exit \<Rightarrow> bool" where
  "is_lockable e \<equiv> exitHasAnyFlag e [''lockable'', ''xlocks'']"

lemma lock_flag_iff [code_unfold]:
  "is_locked e \<longleftrightarrow> (\<exists>f \<in> set (Exit_Flags e). normalizeFlagName f \<in> {''locked'', ''xlockd'', ''xlocked''})"
  "is_closed e \<longleftrightarrow> (\<exists>f \<in> set (Exit_Flags e). normalizeFlagName f \<in> {''closed'', ''xclosd'', ''xclosed''})"
  "is_lockable e \<longleftrightarrow> (\<exists>f \<in> set (Exit_Flags e). normalizeFlagName f \<in> {''lockable'', ''xlocks''})"
  unfolding exitHasAnyFlag_def hasAnyNormalizedFlag_def normalizedFlagSet_def list_ex_iff Let_def
    Expand_locked Expand_closed Expand_lockable
  by (rule refl)+

lemma set_setExitFlag:
  "set (setExitFlag fs ''locked'' b) =
     {f \<in> set fs. normalizeFlagName f \<notin> {''locked'', ''xlockd'', ''xlocked''}} \<union> (if b then {''locked''} else {})"
  "set (setExitFlag fs ''closed'' b) =
     {f \<in> set fs. normalizeFlagName f \<notin> {''closed'', ''xclosd'', ''xclosed''}} \<union> (if b then {''closed''} else {})"
  by (auto simp: setExitFlag_def Let_def exitFlagSameKind_def Expand_set_locked Expand_set_closed)

lemma setExitFlag_lock_names [code_unfold]:
  "setExitFlag fs ''locked'' b =
     filter (\<lambda>f. normalizeFlagName f \<notin> {''locked'', ''xlockd'', ''xlocked''}) fs @ (if b then [''locked''] else [])"
  "setExitFlag fs ''closed'' b =
     filter (\<lambda>f. normalizeFlagName f \<notin> {''closed'', ''xclosd'', ''xclosed''}) fs @ (if b then [''closed''] else [])"
  by (auto simp: setExitFlag_def Let_def exitFlagSameKind_def Expand_set_locked Expand_set_closed)

lemma setExitFlag_tests [simp]:
  "is_locked (e\<lparr>Exit_Flags := setExitFlag fs ''locked'' b\<rparr>) \<longleftrightarrow> b"
  "is_closed (e\<lparr>Exit_Flags := setExitFlag fs ''closed'' b\<rparr>) \<longleftrightarrow> b"
  "is_closed (e\<lparr>Exit_Flags := setExitFlag fs ''locked'' b\<rparr>) \<longleftrightarrow> is_closed (e\<lparr>Exit_Flags := fs\<rparr>)"
  "is_locked (e\<lparr>Exit_Flags := setExitFlag fs ''closed'' b\<rparr>) \<longleftrightarrow> is_locked (e\<lparr>Exit_Flags := fs\<rparr>)"
  "is_lockable (e\<lparr>Exit_Flags := setExitFlag fs ''locked'' b\<rparr>) \<longleftrightarrow> is_lockable (e\<lparr>Exit_Flags := fs\<rparr>)"
  "is_lockable (e\<lparr>Exit_Flags := setExitFlag fs ''closed'' b\<rparr>) \<longleftrightarrow> is_lockable (e\<lparr>Exit_Flags := fs\<rparr>)"
  by (auto simp: lock_flag_iff set_setExitFlag)


subsection \<open>Reading a timer back\<close>

lemma int32_bytes:
  fixes v :: int
  defines "u \<equiv> uint (word_of_int v :: 32 word)"
  shows "byte_at (int32RawField v) 0 = u mod 256" and "byte_at (int32RawField v) 1 = u div 256 mod 256"
    and "byte_at (int32RawField v) 2 = u div 256 ^ 2 mod 256" and "byte_at (int32RawField v) 3 = u div 256 ^ 3 mod 256"
  by (simp_all add: byte_at_def int32RawField_def u_def Let_def)

lemma four_bytes:
  fixes v :: int
  assumes "0 \<le> v" and "v < 2 ^ 32"
  shows "v mod 256 + 256 * (v div 256 mod 256) + 256 ^ 2 * (v div 256 ^ 2 mod 256)
      + 256 ^ 3 * (v div 256 ^ 3 mod 256) = v"
proof -
  define a b c where "a = v div 256" and "b = a div 256" and "c = b div 256"
  have d: "v div 256 ^ 2 = b" "v div 256 ^ 3 = c"
    by (simp_all add: a_def b_def c_def flip: zdiv_zmult2_eq)
  have "c < 256" and "0 \<le> c"
    using assms unfolding d(2) [symmetric] by (simp_all add: div_int_pos_iff) 
  then have c: "c mod 256 = c"
    by simp
  have "256 * a + v mod 256 = v" "256 * b + a mod 256 = a" "256 * c + b mod 256 = b"
    unfolding a_def b_def c_def by (rule mult_div_mod_eq)+
  moreover have "r0 + 256 * r1 + 256 ^ 2 * r2 + 256 ^ 3 * c = v"
    if "256 * a + r0 = v" "256 * b + r1 = a" "256 * c + r2 = b" for r0 r1 r2
    using that by simp
  ultimately show ?thesis
    unfolding d c a_def [symmetric] by blast
qed

lemma sint_bytes:
  "sint (word_of_int (byte_at (int32RawField v) 0 + 256 * byte_at (int32RawField v) 1
     + 256 ^ 2 * byte_at (int32RawField v) 2 + 256 ^ 3 * byte_at (int32RawField v) 3) :: 32 word)
   = sint (word_of_int v :: 32 word)"
proof -
  have b: "0 \<le> uint (word_of_int v :: 32 word)" "uint (word_of_int v :: 32 word) < 2 ^ 32"
    using uint_lt2p [of "word_of_int v :: 32 word"] by simp_all
  show ?thesis
    using four_bytes [OF b]
    by (simp only: int32_bytes word_of_int_uint)
qed

text \<open>
  From November 2000, the last byte is above the digits, so that the four bytes are never taken for
  text; up to January 2038, the signed 32-bit number is the time.
\<close>

definition timer_time :: "int \<Rightarrow> bool" where
  "timer_time t \<longleftrightarrow> 973078528 \<le> t \<and> t < 2 ^ 31"

lemma rawASCIIInteger_high:
  assumes "58 \<le> b" and "b < (128 :: int)"
  shows "rawASCIIInteger (s @ [char_of b]) = None"
proof -
  have "list_all (\<lambda>b. plain_byte (char_of b) \<and> \<not> is_digit (char_of b)
      \<and> char_of b \<noteq> CHR ''-'' \<and> char_of b \<noteq> CHR ''+'') [58..127 :: int]"
    by code_simp
  moreover have "b \<in> set [58..127]"
    unfolding set_upto atLeastAtMost_iff using assms by simp
  ultimately have b: "plain_byte (char_of b)" "\<not> is_digit (char_of b)" "char_of b \<notin> {CHR ''-'', CHR ''+''}"
    unfolding list_all_iff by blast+
  from this(1) obtain s' where "trimSpace (s @ [char_of b]) = s' @ [char_of b]"
    using trimSpace_snoc_plain by blast
  then show ?thesis
    using b(2,3) by (cases s') (auto simp: rawASCIIInteger_def Let_def)
qed

lemma rawFieldInt64_int32:
  assumes "timer_time v"
  shows "rawFieldInt64 (int32RawField v) 4 = Some v"
proof -
  have v: "uint (word_of_int v :: 32 word) = v" "sint (word_of_int v :: 32 word) = v"
    using assms by (simp_all add: timer_time_def uint_word_of_int sint_sbintrunc' take_bit_int_eq_self
        signed_take_bit_int_eq_self)
  have "58 \<le> v div 256 ^ 3" and "v div 256 ^ 3 < 128"
    using assms by (auto simp: timer_time_def)
  then have "rawASCIIInteger (int32RawField v) = None"
    using rawASCIIInteger_high [of "v div 256 ^ 3" "[char_of v, char_of (v div 256), char_of (v div 256 ^ 2)]"]
    by (simp add: int32RawField_def v Let_def)
  then show ?thesis
    using sint_bytes [of v] v(2) by (simp add: rawFieldInt64_def, simp add: int32RawField_def Let_def)
qed

definition exit_interval :: "Exit \<Rightarrow> int" where
  "exit_interval e =
     (case timer_field (Meta_RawFields (Exit_Metadata e)) exitLTimeIntervalRawField ''interval'' of
        None \<Rightarrow> 0 | Some v \<Rightarrow> v)"

lemma timer_field_interval:
  "timer_field (fmupd exitLTimeLTimeRawField v m) exitLTimeIntervalRawField ''interval''
     = timer_field m exitLTimeIntervalRawField ''interval''"
  by (simp add: timer_field_def exitLTimeLTimeRawField_def exitLTimeIntervalRawField_def cong: option.case_cong)

lemma timer_field_ltime:
  "rawFieldInt64 v 4 = Some t \<Longrightarrow> timer_field (fmupd exitLTimeLTimeRawField v m) exitLTimeLTimeRawField k = Some t"
  by (simp add: timer_field_def)

lemma exitTimerValues_set:
  assumes "timer_time now"
  shows "exitTimerValues (setExitTimerLTime e now) = Some (exit_interval e, now)"
proof -
  show ?thesis
    by (simp add: exitTimerValues_def setExitTimerLTime_def exit_interval_def Let_def timer_field_interval
        timer_field_ltime rawFieldInt64_int32 [OF assms])
qed

lemma exitTimerExpired_set:
  "timer_time now \<Longrightarrow> exitTimerExpired (setExitTimerLTime e now) t \<longleftrightarrow> i64 (now + exit_interval e) < t"
  by (simp add: exitTimerExpired_def exitTimerValues_set)

lemma setExitTimerLTime_flags [simp]:
  "Exit_Flags (setExitTimerLTime e t) = Exit_Flags e" "Exit_Name (setExitTimerLTime e t) = Exit_Name e"
  "exitHasAnyFlag (setExitTimerLTime e t) names = exitHasAnyFlag e names"
  "exit_interval (e\<lparr>Exit_Flags := fs\<rparr>) = exit_interval e"
  by (simp_all add: setExitTimerLTime_def Let_def exitHasAnyFlag_def exit_interval_def)


subsection \<open>Unlocking and locking\<close>

lemma validateExitKey_Inr:
  "validateExitKey w k e = Inr key \<longleftrightarrow>
     fmlookup (objects w) k = Some key \<and> objectKindIs w key ObjectKindKey
     \<and> (\<exists>n. exitKeyNumber e = Some n \<and> objectIntProperty w key ''nDice'' = Some n)"
  by (auto simp: validateExitKey_def split: option.splits if_splits)

definition used_key :: "World \<Rightarrow> ObjectInstance \<Rightarrow> ObjectInstance" where
  "used_key w key =
     key\<lparr>Object_Properties := fmupd ''shotsCurrent'' (itoa (keyCharges w key - 1)) (Object_Properties key)\<rparr>"

definition unlocked :: "World \<Rightarrow> Exit \<Rightarrow> Exit" where
  "unlocked w e = setExitTimerLTime (e\<lparr>Exit_Flags := setExitFlag (Exit_Flags e) ''locked'' False\<rparr>) (clock w)"

lemma Unlock_cases:
  "(\<exists>err. UnlockExitWithKey r n k w = (Inl err, w)) \<or>
   (\<exists>room i key. findExitForUpdate w r n ''unlock'' = Inr (room, i) \<and> is_locked (Room_Exits room ! i)
      \<and> validateExitKey w k (Room_Exits room ! i) = Inr key \<and> 1 \<le> keyCharges w key
      \<and> UnlockExitWithKey r n k w = (Inr (unlocked w (Room_Exits room ! i), used_key w key),
          (putExit r room i (unlocked w (Room_Exits room ! i)) w)\<lparr>objects := fmupd (Object_ID key) (used_key w key) (objects w)\<rparr>))"
  unfolding UnlockExitWithKey_def Let_def unlocked_def used_key_def
  by (cases "findExitForUpdate w r n ''unlock''"; cases "IsZero k")
     (auto simp: not_le split: sum.split)

definition locked :: "Exit \<Rightarrow> Exit" where
  "locked e = e\<lparr>Exit_Flags := setExitFlag (Exit_Flags e) ''locked'' True\<rparr>"

lemma Lock_ok:
  assumes "findExitForUpdate w r n ''lock'' = Inr (room, i)" and "k \<noteq> []"
    and "\<not> is_locked (Room_Exits room ! i)" "is_lockable (Room_Exits room ! i)" "is_closed (Room_Exits room ! i)"
    and "validateExitKey w k (Room_Exits room ! i) = Inr key" and "1 \<le> keyCharges w key"
  shows "LockExitWithKey r n k w = (Inr (locked (Room_Exits room ! i), key), putExit r room i (locked (Room_Exits room ! i)) w)"
  using assms by (simp add: LockExitWithKey_def Let_def locked_def IsZero_def)

lemma unlocked_simps [simp]:
  "\<not> is_locked (unlocked w e)" "is_closed (unlocked w e) = is_closed e" "is_lockable (unlocked w e) = is_lockable e"
  "Exit_Name (unlocked w e) = Exit_Name e"
  by (simp_all add: unlocked_def)

lemma keyCharges_in_i64: "in_i64 (keyCharges w key)"
proof -
  have "in_i64 v" if "objectIntProperty w key p = Some v" for v p
    using that by (auto simp: objectIntProperty_def parseStateInt_def dest: atoi_in_i64 split: option.splits if_splits)
  then show ?thesis
    by (auto simp: keyCharges_def in_i64_def split: option.split)
qed

lemma keyCharges_used: "1 \<le> keyCharges w key \<Longrightarrow> keyCharges v (used_key w key) = keyCharges w key - 1"
proof -
  assume "1 \<le> keyCharges w key"
  then have "in_i64 (keyCharges w key - 1)"
    using keyCharges_in_i64 [of w key] by (simp add: in_i64_def)
  then show ?thesis
    by (simp add: keyCharges_def [of v] used_key_def objectIntProperty_def parseStateInt_def)
qed

lemma used_key_fields [simp]:
  "Object_ID (used_key w key) = Object_ID key" "Object_Location (used_key w key) = Object_Location key"
  "Object_Contents (used_key w key) = Object_Contents key"
  by (simp_all add: used_key_def)

lemma Unlock_world:
  assumes f: "findExitForUpdate w r n action = Inr (room, i)" and e: "Exit_Name e = Exit_Name (Room_Exits room ! i)"
    and key: "fmlookup (objects w) k = Some key" and key': "Object_Location key' = Object_Location key"
      "Object_Contents key' = Object_Contents key"
  defines "w' \<equiv> (putExit r room i e w)\<lparr>objects := fmupd k key' (objects w)\<rparr>"
  shows "exitOf w' r n = Some e" and "well_held w' = well_held w" and "where_is w' = where_is w"
proof -
  show "exitOf w' r n = Some e"
    using exitOf_putExit [OF f e] by (simp add: w'_def)
  have "refs w' h = refs w h" for h
    using f key key' by (cases h) (auto simp: w'_def refs_def putExit_def findExitForUpdate_Inr)
  moreover have "map_option Object_Location (fmlookup (objects w') j) = map_option Object_Location (fmlookup (objects w) j)" for j
    using key key' by (auto simp: w'_def)
  ultimately show "well_held w' = well_held w" and "where_is w' = where_is w"
    by (rule well_held_frame)+
qed

text \<open>Unlocking an exit either reports an error and changes nothing, or uses one charge of a key of the
  exit's number with a charge left: the exit is no longer locked, closed exactly if it was, no other object
  changes, and every object stays where it is.\<close>
theorem Unlock_spends_charge:
  assumes "object_ids w" and "UnlockExitWithKey roomID exitName keyID w = (result, w')"
  shows "case result of
      Inl err \<Rightarrow> w' = w
    | Inr (exit, key) \<Rightarrow> (\<exists>exit0 key0.
        exitOf w roomID exitName = Some exit0 \<and> fmlookup (objects w) keyID = Some key0
        \<and> is_locked exit0 \<and> exitKeyNumber exit0 = objectIntProperty w key0 ''nDice''
        \<and> exitOf w' roomID exitName = Some exit \<and> \<not> is_locked exit \<and> is_closed exit = is_closed exit0
        \<and> objects w' = fmupd keyID key (objects w)
        \<and> 1 \<le> keyCharges w key0 \<and> keyCharges w' key = keyCharges w key0 - 1
        \<and> where_is w' = where_is w \<and> well_held w' = well_held w)"
proof (cases result)
  case (Inr p)
  then obtain room i key where f: "findExitForUpdate w roomID exitName ''unlock'' = Inr (room, i)"
    and l: "is_locked (Room_Exits room ! i)" and v: "validateExitKey w keyID (Room_Exits room ! i) = Inr key"
    and c: "1 \<le> keyCharges w key"
    and r: "p = (unlocked w (Room_Exits room ! i), used_key w key)"
      "w' = (putExit roomID room i (unlocked w (Room_Exits room ! i)) w)
          \<lparr>objects := fmupd (Object_ID key) (used_key w key) (objects w)\<rparr>"
    using Unlock_cases [of roomID exitName keyID w] assms(2) by auto
  have key: "fmlookup (objects w) keyID = Some key" and id: "Object_ID key = keyID"
    using v assms(1) by (auto simp: validateExitKey_Inr object_ids_def)
  note Unlock_world [OF f _ key, where e = "unlocked w (Room_Exits room ! i)" and key' = "used_key w key"]
  then show ?thesis
    using Inr findExitForUpdate_exitOf [OF f] l v c key
    by (auto simp: r id keyCharges_used validateExitKey_Inr)
qed (use Unlock_cases [of roomID exitName keyID w] assms(2) in auto)

subsection \<open>The key number survives\<close>

lemma set_remove_byte: "set (remove_byte c s) = set s - {c}"
  by (auto simp: remove_byte_def)

lemma colon_normalize: "CHR '':'' \<in> set (trimSpace f) \<Longrightarrow> CHR '':'' \<in> set (normalizeFlagName f)"
proof -
  assume "CHR '':'' \<in> set (trimSpace f)"
  then have "lower_char CHR '':'' \<in> set (toLower (trimSpace f))"
    by (simp add: toLower_def)
  moreover have "lower_char CHR '':'' = CHR '':''"
    by code_simp
  ultimately show ?thesis
    by (simp add: normalizeFlagName_def set_remove_byte)
qed

lemma key_of_flag_colon: "key_of_flag f \<noteq> None \<Longrightarrow> CHR '':'' \<in> set (trimSpace f)"
  by (cases "cut_byte CHR '':'' (trimSpace f)") (auto simp: key_of_flag_def Let_def dest!: cut_byte_Some split: if_splits)

lemma key_in_flags_filter:
  "(\<And>f. key_of_flag f \<noteq> None \<Longrightarrow> P f) \<Longrightarrow> key_in_flags (filter P fs) = key_in_flags fs"
proof (induction fs)
  case (Cons f fs)
  then show ?case
    using Cons.prems [of f] by (cases "key_of_flag f") simp_all
qed simp

lemma exitKeyNumber_unlocked: "exitKeyNumber (unlocked w e) = exitKeyNumber e"
proof -
  have "\<not> exitFlagSameKind f ''locked''" if "key_of_flag f \<noteq> None" for f
  proof -
    have "CHR '':'' \<in> set (normalizeFlagName f)"
      by (rule colon_normalize [OF key_of_flag_colon [OF that]])
    then have "normalizeFlagName f \<notin> {''locked'', ''xlockd'', ''xlocked''}"
      by auto
    then show ?thesis
      by (simp only: exitFlagSameKind_def Expand_set_locked not_False_eq_True)
  qed
  from key_in_flags_filter [OF this]
  have "key_in_flags (setExitFlag (Exit_Flags e) ''locked'' False) = key_in_flags (Exit_Flags e)"
    by (simp add: setExitFlag_def Let_def)
  then show ?thesis
    by (simp add: exitKeyNumber_def unlocked_def setExitTimerLTime_def Let_def exitLTimeLTimeRawField_def
        cong: option.case_cong)
qed

lemma objectIntProperty_upd:
  "k \<noteq> p \<Longrightarrow> objectIntProperty w (o'\<lparr>Object_Properties := fmupd p v (Object_Properties o')\<rparr>) k = objectIntProperty w o' k"
  by (simp add: objectIntProperty_def cong: option.case_cong)

lemma objectKindIs_upd:
  "p \<noteq> ''kind'' \<Longrightarrow> objectKindIs w (o'\<lparr>Object_Properties := fmupd p v (Object_Properties o')\<rparr>) kind = objectKindIs w o' kind"
  by (simp add: objectKindIs_def)

lemma objectKindIs_cong: "prototypes v = prototypes w \<Longrightarrow> objectKindIs v p kind = objectKindIs w p kind"
  by (simp add: objectKindIs_def)

lemma validateExitKey_used:
  assumes "validateExitKey w k e = Inr key" and "prototypes v = prototypes w"
    and "fmlookup (objects v) k = Some (used_key w key)" and "exitKeyNumber e' = exitKeyNumber e"
  shows "validateExitKey v k e' = Inr (used_key w key)"
proof -
  have "objectIntProperty v (used_key w key) ''nDice'' = objectIntProperty w key ''nDice''"
    unfolding used_key_def objectIntProperty_cong [OF assms(2)] by (rule objectIntProperty_upd) simp
  moreover have "objectKindIs v (used_key w key) ObjectKindKey = objectKindIs w key ObjectKindKey"
    unfolding used_key_def objectKindIs_cong [OF assms(2)] by (rule objectKindIs_upd) simp
  ultimately show ?thesis
    using assms by (simp add: validateExitKey_Inr)
qed

text \<open>A closed exit that can be locked, once unlocked, can be locked again with the same key while the key
  has a second charge: the two operations use one charge, and the exit is closed and locked as before.\<close>
theorem Unlock_Lock_roundtrip:
  assumes "object_ids w" and "UnlockExitWithKey roomID exitName keyID w = (Inr (exit, key), w1)"
    and "is_lockable exit" and "is_closed exit" and "1 \<le> keyCharges w1 key"
  shows "\<exists>exit' w2. LockExitWithKey roomID exitName keyID w1 = (Inr (exit', key), w2)
    \<and> exitOf w2 roomID exitName = Some exit' \<and> is_locked exit' \<and> is_closed exit'
    \<and> objects w2 = objects w1 \<and> where_is w2 = where_is w"
proof -
  obtain room i key0 where f: "findExitForUpdate w roomID exitName ''unlock'' = Inr (room, i)"
    and v: "validateExitKey w keyID (Room_Exits room ! i) = Inr key0"
    and r: "exit = unlocked w (Room_Exits room ! i)" "key = used_key w key0"
      "w1 = (putExit roomID room i exit w)\<lparr>objects := fmupd (Object_ID key0) key (objects w)\<rparr>"
    using Unlock_cases [of roomID exitName keyID w] assms(2) by auto
  have key: "fmlookup (objects w) keyID = Some key0" and id: "Object_ID key0 = keyID"
    using v assms(1) by (auto simp: validateExitKey_Inr object_ids_def)
  let ?room = "room\<lparr>Room_Exits := (Room_Exits room)[i := exit]\<rparr>"
  have i: "i < length (Room_Exits room)"
    using f exit_index_Some by (auto simp: findExitForUpdate_Inr)
  have f1: "findExitForUpdate w1 roomID exitName ''lock'' = Inr (?room, i)"
    using f by (simp add: findExitForUpdate_Inr r putExit_def exit_index_update)
  have "k \<noteq> []" if "validateExitKey w k e = Inr y" "k = keyID" for k e y
    using assms(2) that by (auto simp: UnlockExitWithKey_def IsZero_def)
  then have "keyID \<noteq> []"
    using v by blast
  moreover have "validateExitKey w1 keyID exit = Inr key"
    unfolding r(2) by (rule validateExitKey_used [OF v]) (simp_all add: r id exitKeyNumber_unlocked)
  ultimately have "LockExitWithKey roomID exitName keyID w1 = (Inr (locked exit, key), putExit roomID ?room i (locked exit) w1)"
    using Lock_ok [OF f1, of keyID key] assms(3-5) i by (simp add: r)
  moreover have "exitOf (putExit roomID ?room i (locked exit) w1) roomID exitName = Some (locked exit)"
    using exitOf_putExit [OF f1, of "locked exit"] i by (simp add: locked_def)
  moreover have "where_is w1 = where_is w"
    using Unlock_world(3) [OF f _ key, of exit key] by (simp add: r id)
  moreover have "where_is (putExit roomID ?room i (locked exit) w1) = where_is w1"
    by (rule ext, rule where_is_cong) simp
  moreover have "is_locked (locked exit)" and "is_closed (locked exit)"
    using assms(4) by (simp_all add: locked_def)
  ultimately show ?thesis
    by (intro exI conjI) (assumption | simp)+
qed

text \<open>Checks of one room, one after the other.\<close>

definition check_room :: "RoomID \<Rightarrow> int list \<Rightarrow> World \<Rightarrow> World" where
  "check_room roomID nows w = foldl (\<lambda>w now. snd (CheckRoomExits roomID now w)) w nows"

lemma check_room_simps [simp]:
  "check_room r [] w = w" "check_room r (t # ts) w = check_room r ts (snd (CheckRoomExits r t w))"
  by (simp_all add: check_room_def)

lemma relock_lockable:
  assumes "is_lockable e"
  shows "is_lockable (relock_exit t e)" and "exitTimerExpired (relock_exit t e) = exitTimerExpired e"
    and "is_locked (relock_exit t e) \<longleftrightarrow> is_locked e \<or> exitTimerExpired e t"
    and "is_locked e \<longrightarrow> is_closed e \<Longrightarrow> is_locked (relock_exit t e) \<longrightarrow> is_closed (relock_exit t e)"
proof -
  have m: "Exit_Metadata (relock_exit t e) = Exit_Metadata e"
    by (simp add: relock_exit_def)
  show "exitTimerExpired (relock_exit t e) = exitTimerExpired e"
    by (simp add: fun_eq_iff exitTimerExpired_def exitTimerValues_def m)
qed (use assms in \<open>auto simp: relock_exit_def\<close>)

lemma check_room_exit:
  assumes "r \<noteq> []" and "exitOf w r n = Some e" and "is_lockable e" and "is_locked e \<longrightarrow> is_closed e"
  shows "\<exists>e'. exitOf (check_room r ts w) r n = Some e' \<and> (is_locked e' \<longleftrightarrow> is_locked e \<or> (\<exists>t \<in> set ts. exitTimerExpired e t))
     \<and> (is_locked e' \<longrightarrow> is_closed e') \<and> (\<forall>t. fst (CheckRoomExits r t (check_room r ts w)) = None)"
  using assms(2-4)
proof (induction ts arbitrary: w e)
  case Nil
  then have "fmlookup (rooms w) r \<noteq> None"
    by (auto simp: exitOf_def split: option.splits)
  with Nil assms(1) show ?case
    by (simp add: CheckRoomExits_def)
next
  case (Cons t ts)
  then have "fmlookup (rooms w) r \<noteq> None"
    by (auto simp: exitOf_def split: option.splits)
  then have "exitOf (snd (CheckRoomExits r t w)) r n = Some (relock_exit t e)"
    using assms(1) Cons.prems(1) exitOf_checkRoomExits [of r t w n] by (auto simp: CheckRoomExits_def)
  from Cons.IH [OF this relock_lockable(1) [OF Cons.prems(2)] relock_lockable(4) [OF Cons.prems(2,3)]] show ?case
    by (auto simp: relock_lockable [OF Cons.prems(2)])
qed

text \<open>C39. An unlocked exit that can be locked is left unlocked by all checks of its room up to the moment its interval has
  passed since it was unlocked, is closed and locked by the first check after that moment, and stays so through all
  later ones: after any sequence of checks it is locked exactly if one of them was after that moment.  This is for an
  exit unlocked between November 2000 and January 2038 (after which the 32 bits of the time wrap).\<close>
theorem Unlocked_exit_relocks:
  assumes "UnlockExitWithKey roomID exitName keyID w = (Inr (exit, key), w')" and "timer_time (clock w)"
    and "exitOf w roomID exitName = Some exit0" and "is_lockable exit0"
  shows "\<exists>exit'. exitOf (check_room roomID nows w') roomID exitName = Some exit'
    \<and> (is_locked exit' \<longleftrightarrow> (\<exists>now \<in> set nows. i64 (clock w + exit_interval exit0) < now))
    \<and> (is_locked exit' \<longrightarrow> is_closed exit')
    \<and> (\<forall>now. fst (CheckRoomExits roomID now (check_room roomID nows w')) = None)"
proof -
  obtain room i key where f: "findExitForUpdate w roomID exitName ''unlock'' = Inr (room, i)"
    and w': "w' = (putExit roomID room i (unlocked w (Room_Exits room ! i)) w)
          \<lparr>objects := fmupd (Object_ID key) (used_key w key) (objects w)\<rparr>"
    using Unlock_cases [of roomID exitName keyID w] assms(1) by auto
  have e0: "Room_Exits room ! i = exit0"
    using findExitForUpdate_exitOf [OF f] assms(3) by simp
  have e: "exitOf w' roomID exitName = Some (unlocked w exit0)"
    using exitOf_putExit [OF f, of "unlocked w exit0"] by (simp add: w' e0)
  have r: "roomID \<noteq> []"
    using f by (auto simp: findExitForUpdate_Inr)
  have "exitTimerExpired (unlocked w exit0) now \<longleftrightarrow> i64 (clock w + exit_interval exit0) < now" for now
    by (simp add: unlocked_def exitTimerExpired_set assms(2))
  with check_room_exit [OF r e, of nows] assms(4) show ?thesis
    by auto
qed

subsection \<open>Examples\<close>

definition demoGateExit :: Exit where
  "demoGateExit =
     \<lparr>Exit_Name = ''gate'', Exit_ToRoomID = ''r2'', Exit_Flags = [''closed'', ''Locked'', ''key: 7'', ''lockable''],
      Exit_Metadata = noMetadata\<lparr>Meta_RawFields := fmap_of_list [(''ltime.interval'', ''60'')]\<rparr>\<rparr>"

definition demoKey :: ObjectInstance where
  "demoKey = zeroObject\<lparr>Object_ID := ''key'', Object_PrototypeID := ''pk'', Object_Quantity := 1,
     Object_Location := inventoryLocation ''c1'',
     Object_Properties := fmap_of_list [(''kind'', ''key''), (''nDice'', ''7''), (''shotsCurrent'', ''3'')]\<rparr>"

definition demoGate :: World where
  "demoGate = (put_object demoKey demoBase)
     \<lparr>rooms := fmap_of_list
        [(''r1'', zeroRoom\<lparr>Room_ID := ''r1'', Room_DisplayName := ''hall'', Room_Exits := [demoGateExit]\<rparr>),
         (''r2'', zeroRoom\<lparr>Room_ID := ''r2'', Room_DisplayName := ''yard''\<rparr>)],
      clock := 1700000000\<rparr>"

definition demoUnlock :: "(Exit \<times> ObjectInstance) result \<times> World" where
  "demoUnlock = UnlockExitWithKey ''r1'' '' gate'' ''key'' demoGate"

lemma demoUnlock_Inr: "\<not> isl (fst demoUnlock)"
  by code_simp

lemma demoUnlock_eq:
  "UnlockExitWithKey ''r1'' '' gate'' ''key'' demoGate
     = (Inr (fst (projr (fst demoUnlock)), snd (projr (fst demoUnlock))), snd demoUnlock)"
  using demoUnlock_Inr unfolding demoUnlock_def
  by (cases "UnlockExitWithKey ''r1'' '' gate'' ''key'' demoGate") (auto split: sum.split simp: isl_def)

lemma demoGate_ids: "object_ids demoGate"
  by (auto simp: object_ids_def demoGate_def demoBase_def emptyWorld_def put_object_def addObjectToHolder_def
      demoKey_def inventoryLocation_def IsZero_def Let_def fmlookup_of_list split: if_splits)

theorem Unlock_spends_charge_witness:
  "\<exists>exit0. exitOf demoGate ''r1'' '' gate'' = Some exit0 \<and> is_locked exit0
     \<and> where_is (snd demoUnlock) = where_is demoGate"
  using Unlock_spends_charge [OF demoGate_ids demoUnlock_eq] by auto

lemma demoGate_exit: "exitOf demoGate ''r1'' '' gate'' = Some demoGateExit"
proof -
  have "trimSpace '' gate'' = ''gate''"
    by code_simp
  then show ?thesis
    by (simp add: exitOf_def demoGate_def demoGateExit_def fmlookup_of_list)
qed

theorem Unlocked_exit_relocks_witness:
  "\<exists>exit1 exit2. exitOf (check_room ''r1'' [1700000020, 1700000060] (snd demoUnlock)) ''r1'' '' gate'' = Some exit1 \<and> \<not> is_locked exit1
     \<and> exitOf (check_room ''r1'' [1700000020, 1700000061, 1700000065] (snd demoUnlock)) ''r1'' '' gate'' = Some exit2 \<and> is_locked exit2"
proof -
  have "timer_time (clock demoGate)" and "exitOf demoGate ''r1'' '' gate'' = Some demoGateExit"
    and "is_lockable demoGateExit" and i: "i64 (clock demoGate + exit_interval demoGateExit) = 1700000060"
    unfolding lock_flag_iff by (code_simp, rule demoGate_exit, code_simp, code_simp)
  note relocks = Unlocked_exit_relocks [OF demoUnlock_eq this(1-3)]
  from relocks [of "[1700000020, 1700000060]"] relocks [of "[1700000020, 1700000061, 1700000065]"] i show ?thesis
    by auto
qed

theorem Unlock_Lock_roundtrip_witness:
  "\<exists>exit' w2. LockExitWithKey ''r1'' '' gate'' ''key'' (snd demoUnlock) = (Inr (exit', snd (projr (fst demoUnlock))), w2)
     \<and> is_locked exit'"
proof -
  have "is_lockable (fst (projr (fst demoUnlock)))" and "is_closed (fst (projr (fst demoUnlock)))"
    and "1 \<le> keyCharges (snd demoUnlock) (snd (projr (fst demoUnlock)))"
    unfolding lock_flag_iff by code_simp+
  from Unlock_Lock_roundtrip [OF demoGate_ids demoUnlock_eq this] show ?thesis
    by blast
qed

text \<open>From January 2038 on the field wraps: an exit used then counts as used in 1901 and is expired.\<close>

lemma timer_wraps_2038: "rawFieldInt64 (int32RawField (2 ^ 31)) 4 = Some (- (2 ^ 31))"
  by code_simp

end
