(* ===== verification/CreatureState.thy ===== *)
theory CreatureState
  imports Exits
begin

text \<open>
  The numbers and flags of one creature, and the operations that set them (\<^verbatim>\<open>creature.go\<close>,
  \<^verbatim>\<open>player.go\<close>, \<^verbatim>\<open>combat.go\<close>, \<^verbatim>\<open>event.go\<close>): stats, properties, tags, family and marriage state,
  cooldowns and the other timers kept by creature.

  A stat is looked up under several spellings, at last by a range over the map.  Go does not fix the
  order of such a range: here it is the argument \<open>ord\<close>, which lists a finite set of keys, and
  \<open>key_order ord\<close> says that it lists each key once.
\<close>

definition key_order :: "(string fset \<Rightarrow> string list) \<Rightarrow> bool" where
  "key_order ord \<longleftrightarrow> (\<forall>S. set (ord S) = fset S \<and> distinct (ord S))"

lemma set_key_order: "key_order ord \<Longrightarrow> set (ord S) = fset S"
  by (simp add: key_order_def)

lemma distinct_key_order: "key_order ord \<Longrightarrow> distinct (ord S)"
  by (simp add: key_order_def)

text \<open>The first value a loop with an early return finds.\<close>

fun first_some :: "('a \<Rightarrow> 'b option) \<Rightarrow> 'a list \<Rightarrow> 'b option" where
  "first_some f [] = None"
| "first_some f (x # xs) = (case f x of Some y \<Rightarrow> Some y | None \<Rightarrow> first_some f xs)"

lemma first_some_None: "first_some f xs = None \<longleftrightarrow> (\<forall>x \<in> set xs. f x = None)"
  by (induction xs) (auto split: option.split)

lemma first_some_Some: "first_some f xs = Some y \<Longrightarrow> \<exists>x \<in> set xs. f x = Some y"
  by (induction xs) (auto split: option.splits)

text \<open>If all hits agree, the order does not matter.\<close>

lemma first_some_set:
  assumes "set xs = set ys" and "\<And>x z y y'. x \<in> set xs \<Longrightarrow> z \<in> set xs \<Longrightarrow> f x = Some y \<Longrightarrow> f z = Some y' \<Longrightarrow> y = y'"
  shows "first_some f xs = first_some f ys"
proof (cases "first_some f xs")
  case None
  then show ?thesis
    using assms(1) by (metis first_some_None)
next
  case (Some y)
  then obtain x where x: "x \<in> set xs" "f x = Some y"
    using first_some_Some by metis
  then obtain y' where y': "first_some f ys = Some y'"
    using assms(1) by (metis first_some_None not_None_eq option.distinct(1))
  then obtain z where "z \<in> set ys" "f z = Some y'"
    using first_some_Some by metis
  then show ?thesis
    using assms x Some y' by metis
qed

subsection \<open>Reading a number\<close>

definition stateCreatureIntValue :: "(string fset \<Rightarrow> string list) \<Rightarrow> Creature \<Rightarrow> string \<Rightarrow> int option" where
  "stateCreatureIntValue ord creature key =
     (let stats = Creature_Stats creature; props = Creature_Properties creature
      in case fmlookup stats key of
        Some value \<Rightarrow> Some value
      | None \<Rightarrow>
          (case (case fmlookup props key of None \<Rightarrow> None | Some raw \<Rightarrow> parseStateInt raw) of
             Some value \<Rightarrow> Some value
           | None \<Rightarrow>
               let target = normalizeFlagName key
               in if target = [] then None
                  else case first_some (\<lambda>k. if normalizeFlagName k = target then fmlookup stats k else None)
                              (ord (fmdom stats)) of
                    Some value \<Rightarrow> Some value
                  | None \<Rightarrow>
                      first_some (\<lambda>k. if normalizeFlagName k = target
                                      then case fmlookup props k of None \<Rightarrow> None | Some raw \<Rightarrow> parseStateInt raw
                                      else None) (ord (fmdom props))))"

definition creatureStateInt :: "(string fset \<Rightarrow> string list) \<Rightarrow> Creature \<Rightarrow> string \<Rightarrow> int" where
  "creatureStateInt ord creature key =
     (case stateCreatureIntValue ord creature key of None \<Rightarrow> 0 | Some value \<Rightarrow> value)"

definition creatureStateClass :: "(string fset \<Rightarrow> string list) \<Rightarrow> Creature \<Rightarrow> int" where
  "creatureStateClass ord creature = creatureStateInt ord creature ''class''"

definition creatureStateLevel :: "(string fset \<Rightarrow> string list) \<Rightarrow> Creature \<Rightarrow> int" where
  "creatureStateLevel ord creature =
     (case fmlookup (Creature_Stats creature) ''level'' of
        Some level \<Rightarrow> level
      | None \<Rightarrow>
          if Creature_Level creature \<noteq> 0 then Creature_Level creature
          else case stateCreatureIntValue ord creature ''level'' of Some level \<Rightarrow> level | None \<Rightarrow> 0)"

text \<open>One key of \<^verbatim>\<open>stateCreatureIndexedValue\<close>, and its four spellings of \<open>prefix\<close> and \<open>index\<close>.\<close>

definition indexed_keys :: "string \<Rightarrow> int \<Rightarrow> string list" where
  "indexed_keys pre index =
     [pre @ ''/'' @ itoa index, pre @ ''.'' @ itoa index, pre @ ''_'' @ itoa index, pre @ itoa index]"

definition stateCreatureIndexedValue :: "Creature \<Rightarrow> string \<Rightarrow> int \<Rightarrow> int" where
  "stateCreatureIndexedValue creature pre index =
     (case first_some (\<lambda>key.
         case fmlookup (Creature_Stats creature) key of
           Some value \<Rightarrow> Some value
         | None \<Rightarrow>
             (case fmlookup (Creature_Properties creature) key of
                Some raw \<Rightarrow> parseStateInt raw
              | None \<Rightarrow> None)) (indexed_keys pre index) of
        Some value \<Rightarrow> value
      | None \<Rightarrow> 0)"

definition stateCreatureRealm :: "Creature \<Rightarrow> int \<Rightarrow> int" where
  "stateCreatureRealm creature index =
     (let keys = [''realmEarth'', ''realmWind'', ''realmFire'', ''realmWater'']
      in case (if 0 \<le> index \<and> index < int (length keys) then fmlookup (Creature_Stats creature) (keys ! nat index)
               else None) of
           Some value \<Rightarrow> value
         | None \<Rightarrow> stateCreatureIndexedValue creature ''realm'' (index + 1))"

definition weaponProficiencyStatKeys :: "string list" where
  "weaponProficiencyStatKeys =
     [''proficiencySharp'', ''proficiencyThrust'', ''proficiencyBlunt'', ''proficiencyPole'', ''proficiencyMissile'']"

definition weaponProficiencyPropertyKeys :: "string list" where
  "weaponProficiencyPropertyKeys = [''sharp'', ''thrust'', ''blunt'', ''pole'', ''missile'']"

definition stateCreatureProficiencyValue :: "(string fset \<Rightarrow> string list) \<Rightarrow> Creature \<Rightarrow> int \<Rightarrow> int" where
  "stateCreatureProficiencyValue ord creature index =
     (case (if 0 \<le> index \<and> index < int (length weaponProficiencyStatKeys)
            then let part = weaponProficiencyPropertyKeys ! nat index
                 in first_some (stateCreatureIntValue ord creature)
                      [weaponProficiencyStatKeys ! nat index, ''proficiency/'' @ part, ''proficiency.'' @ part,
                       ''proficiency_'' @ part]
            else None) of
        Some value \<Rightarrow> value
      | None \<Rightarrow> stateCreatureIndexedValue creature ''proficiency'' index)"

subsection \<open>Setting numbers, properties and tags\<close>

definition storeCreature :: "CreatureID \<Rightarrow> Creature \<Rightarrow> World \<Rightarrow> World" where
  "storeCreature creatureID creature w = markCreaturePlayerDirty creature (putCreature creatureID creature w)"

definition SetCreatureProperty :: "CreatureID \<Rightarrow> string \<Rightarrow> string \<Rightarrow> World \<Rightarrow> Creature result \<times> World" where
  "SetCreatureProperty creatureID key value w =
     (if IsZero creatureID
      then (Inl (Errorf ''set creature property %q: creature id is required'' [key]), w)
      else let key = trimSpace key in
        if key = [] then (Inl (Errorf ''set creature %q property: key is required'' [creatureID]), w)
        else case fmlookup (creatures w) creatureID of
          None \<Rightarrow> (Inl (Errorf ''set creature %q property %q: creature not found'' [creatureID, key]), w)
        | Some creature \<Rightarrow>
            let props = Creature_Properties creature;
                creature = creature\<lparr>Creature_Properties :=
                  if value = [] then fmdrop key props else fmupd key value props\<rparr>
            in (Inr creature, storeCreature creatureID creature w))"

definition stateCreatureDescriptionProperty :: string where "stateCreatureDescriptionProperty = ''description''"
definition stateCreaturePasswordHashKey :: string where "stateCreaturePasswordHashKey = ''legacyPasswordHash''"
definition stateSuicidePendingTag :: string where "stateSuicidePendingTag = ''suicidePending''"
definition stateSuicideRequestedAtProperty :: string where "stateSuicideRequestedAtProperty = ''suicideRequestedAt''"

definition SetCreatureDescription :: "CreatureID \<Rightarrow> string \<Rightarrow> World \<Rightarrow> Creature result \<times> World" where
  "SetCreatureDescription creatureID description w =
     (if IsZero creatureID then (Inl (Errorf ''set creature description: creature id is required'' []), w)
      else case fmlookup (creatures w) creatureID of
        None \<Rightarrow> (Inl (Errorf ''set creature %q description: creature not found'' [creatureID]), w)
      | Some creature \<Rightarrow>
          let creature = creature\<lparr>Creature_Description := description,
                Creature_Properties := fmdrop stateCreatureDescriptionProperty (Creature_Properties creature)\<rparr>
          in (Inr creature, storeCreature creatureID creature w))"

definition SetCreaturePasswordHash :: "CreatureID \<Rightarrow> string \<Rightarrow> World \<Rightarrow> Creature result \<times> World" where
  "SetCreaturePasswordHash creatureID hash w =
     SetCreatureProperty creatureID stateCreaturePasswordHashKey (trimSpace hash) w"

definition SetCreatureLevel :: "CreatureID \<Rightarrow> int \<Rightarrow> World \<Rightarrow> Creature result \<times> World" where
  "SetCreatureLevel creatureID level w =
     (if IsZero creatureID then (Inl (Errorf ''set creature level: creature id is required'' []), w)
      else if level < 0
      then (Inl (Errorf ''set creature %q level: level must be non-negative'' [creatureID]), w)
      else case fmlookup (creatures w) creatureID of
        None \<Rightarrow> (Inl (Errorf ''set creature %q level: creature not found'' [creatureID]), w)
      | Some creature \<Rightarrow>
          let creature = creature\<lparr>Creature_Level := level,
                Creature_Stats := fmupd ''level'' level (Creature_Stats creature)\<rparr>
          in (Inr creature, putCreature creatureID creature w))"

definition UpdateCreature :: "Creature \<Rightarrow> World \<Rightarrow> World" where
  "UpdateCreature creature w = putCreature (Creature_ID creature) creature w"

definition UpdateCreatureTags :: "CreatureID \<Rightarrow> string list \<Rightarrow> string list \<Rightarrow> World \<Rightarrow> Creature result \<times> World" where
  "UpdateCreatureTags creatureID add remove w =
     (if IsZero creatureID then (Inl (Errorf ''update creature tags: creature id is required'' []), w)
      else case fmlookup (creatures w) creatureID of
        None \<Rightarrow> (Inl (Errorf ''update creature %q tags: creature not found'' [creatureID]), w)
      | Some creature \<Rightarrow>
          let meta = Creature_Metadata creature;
              creature = creature\<lparr>Creature_Metadata :=
                meta\<lparr>Meta_Tags := addMetadataTags (removeMetadataTags (Meta_Tags meta) remove) add\<rparr>\<rparr>
          in (Inr creature, putCreature creatureID creature w))"

definition UpdatePlayer :: "Player \<Rightarrow> World \<Rightarrow> World" where
  "UpdatePlayer player w = w\<lparr>players := fmupd (Player_ID player) player (players w)\<rparr>"

definition UpdatePlayerTags :: "PlayerID \<Rightarrow> string list \<Rightarrow> string list \<Rightarrow> World \<Rightarrow> Player result \<times> World" where
  "UpdatePlayerTags playerID add remove w =
     (if IsZero playerID then (Inl (Errorf ''update player tags: player id is required'' []), w)
      else case fmlookup (players w) playerID of
        None \<Rightarrow> (Inl (Errorf ''update player %q tags: player not found'' [playerID]), w)
      | Some player \<Rightarrow>
          let meta = Player_Metadata player;
              player = player\<lparr>Player_Metadata :=
                meta\<lparr>Meta_Tags := addMetadataTags (removeMetadataTags (Meta_Tags meta) remove) add\<rparr>\<rparr>
          in (Inr player, w\<lparr>players := fmupd playerID player (players w)\<rparr>))"

definition UpdateCreatureStat :: "CreatureID \<Rightarrow> string \<Rightarrow> int \<Rightarrow> World \<Rightarrow> go_error option \<times> World" where
  "UpdateCreatureStat creatureID key val w =
     (case fmlookup (creatures w) creatureID of
        None \<Rightarrow> (Some (Errorf ''creature %s not found'' [creatureID]), w)
      | Some c \<Rightarrow>
          let c = c\<lparr>Creature_Stats := fmupd key val (Creature_Stats c)\<rparr>;
              c = (if key = ''level'' then c\<lparr>Creature_Level := val\<rparr> else c)
          in (None, putCreature creatureID c w))"

definition UpdateCreatureProperty :: "CreatureID \<Rightarrow> string \<Rightarrow> string \<Rightarrow> World \<Rightarrow> go_error option \<times> World" where
  "UpdateCreatureProperty creatureID key val w =
     (case fmlookup (creatures w) creatureID of
        None \<Rightarrow> (Some (Errorf ''creature %s not found'' [creatureID]), w)
      | Some c \<Rightarrow>
          (None, putCreature creatureID (c\<lparr>Creature_Properties := fmupd key val (Creature_Properties c)\<rparr>) w))"

definition UpdateObjectProperty :: "ObjectInstanceID \<Rightarrow> string \<Rightarrow> string \<Rightarrow> World \<Rightarrow> go_error option \<times> World" where
  "UpdateObjectProperty objectID key val w =
     (case fmlookup (objects w) objectID of
        None \<Rightarrow> (Some (Errorf ''object %s not found'' [objectID]), w)
      | Some obj \<Rightarrow>
          (None, putObjectRecord objectID (obj\<lparr>Object_Properties := fmupd key val (Object_Properties obj)\<rparr>) w))"

definition UpdateRoomProperty :: "RoomID \<Rightarrow> string \<Rightarrow> string \<Rightarrow> World \<Rightarrow> go_error option \<times> World" where
  "UpdateRoomProperty roomID key val w =
     (case fmlookup (rooms w) roomID of
        None \<Rightarrow> (Some (Errorf ''room %s not found'' [roomID]), w)
      | Some room \<Rightarrow>
          let room = room\<lparr>Room_Properties := fmupd key val (Room_Properties room)\<rparr>
          in (None, MarkRoomObjectsDirty roomID (w\<lparr>rooms := fmupd roomID room (rooms w)\<rparr>)))"

definition UpdateRoomRandomCreature :: "RoomID \<Rightarrow> int \<Rightarrow> int \<Rightarrow> World \<Rightarrow> go_error option \<times> World" where
  "UpdateRoomRandomCreature roomID idx val w =
     (case fmlookup (rooms w) roomID of
        None \<Rightarrow> (Some (Errorf ''room %s not found'' [roomID]), w)
      | Some room \<Rightarrow>
          let room = room\<lparr>Room_Properties := fmupd (''random'' @ itoa idx) (itoa val) (Room_Properties room)\<rparr>
          in (None, w\<lparr>rooms := fmupd roomID room (rooms w)\<rparr>))"

definition PreparePlayerSuicide :: "PlayerID \<Rightarrow> int \<Rightarrow> World \<Rightarrow> (Player \<times> Creature) result \<times> World" where
  "PreparePlayerSuicide playerID requestedAt w =
     (if IsZero playerID then (Inl (Errorf ''prepare player suicide: player id is required'' []), w)
      else case fmlookup (players w) playerID of
        None \<Rightarrow> (Inl (Errorf ''prepare player %q suicide: player not found'' [playerID]), w)
      | Some player \<Rightarrow>
          if IsZero (Player_CreatureID player)
          then (Inl (Errorf ''prepare player %q suicide: creature id is required'' [playerID]), w)
          else case fmlookup (creatures w) (Player_CreatureID player) of
            None \<Rightarrow> (Inl (Errorf ''prepare player %q suicide: creature %q not found''
                          [playerID, Player_CreatureID player]), w)
          | Some creature \<Rightarrow>
              let pmeta = Player_Metadata player; cmeta = Creature_Metadata creature;
                  player = player\<lparr>Player_Metadata :=
                    pmeta\<lparr>Meta_Tags := addMetadataTags (Meta_Tags pmeta) [stateSuicidePendingTag]\<rparr>\<rparr>;
                  creature = creature\<lparr>Creature_Metadata :=
                    cmeta\<lparr>Meta_Tags := addMetadataTags (Meta_Tags cmeta) [stateSuicidePendingTag]\<rparr>,
                    Creature_Properties :=
                      fmupd stateSuicideRequestedAtProperty (itoa requestedAt) (Creature_Properties creature)\<rparr>;
                  w = w\<lparr>players := fmupd playerID player (players w)\<rparr>;
                  w = putCreature (Creature_ID creature) creature w
              in (Inr (player, creature), MarkPlayerDirty playerID w))"


subsection \<open>Family and marriage\<close>

definition boolInt :: "bool \<Rightarrow> int" where
  "boolInt value = (if value then 1 else 0)"

definition set_stats :: "string list \<Rightarrow> int \<Rightarrow> Creature \<Rightarrow> Creature" where
  "set_stats keys v creature =
     creature\<lparr>Creature_Stats := foldl (\<lambda>m key. fmupd key v m) (Creature_Stats creature) keys\<rparr>"

definition remove_properties :: "string list \<Rightarrow> Creature \<Rightarrow> Creature" where
  "remove_properties names creature =
     (let targets = normalizedFlagSet names
      in creature\<lparr>Creature_Properties :=
           fmfilter (\<lambda>key. normalizeFlagName key \<notin> set targets) (Creature_Properties creature)\<rparr>)"

definition replace_tags :: "string list \<Rightarrow> string list \<Rightarrow> Creature \<Rightarrow> Creature" where
  "replace_tags remove add creature =
     (let meta = Creature_Metadata creature
      in creature\<lparr>Creature_Metadata :=
           meta\<lparr>Meta_Tags := addMetadataTags (removeMetadataTags (Meta_Tags meta) remove) add\<rparr>\<rparr>)"

definition creatureFamilyStatePropertyNames :: "string list" where
  "creatureFamilyStatePropertyNames =
     [''familyFlag'', ''PFAMIL'', ''familyID'', ''dailyExpndMax'', ''legacyDailyExpndMax'', ''PRDFML'',
      ''PFMBOS'', ''familyBoss'', ''familyBossFlag'']"

definition creatureFamilyStateTagNames :: "string list" where
  "creatureFamilyStateTagNames =
     [''familyFlag'', ''PFAMIL'', ''PRDFML'', ''PFMBOS'', ''familyBoss'', ''familyBossFlag'']"

definition removeCreatureFamilyStateProperties :: "Creature \<Rightarrow> Creature" where
  "removeCreatureFamilyStateProperties creature = remove_properties creatureFamilyStatePropertyNames creature"

definition updateCreatureFamilyState :: "Creature \<Rightarrow> int \<Rightarrow> bool \<Rightarrow> bool \<Rightarrow> bool \<Rightarrow> Creature" where
  "updateCreatureFamilyState creature familyID member pending boss =
     (let activeFamilyID = (if member \<or> pending then familyID else 0);
          creature = set_stats [''familyFlag'', ''PFAMIL''] (boolInt member) creature;
          creature = set_stats [''familyID'', ''dailyExpndMax'', ''legacyDailyExpndMax''] activeFamilyID creature;
          creature = set_stats [''PRDFML''] (boolInt pending) creature;
          creature = set_stats [''PFMBOS'', ''familyBoss'', ''familyBossFlag''] (boolInt (member \<and> boss)) creature;
          creature = removeCreatureFamilyStateProperties creature
      in replace_tags creatureFamilyStateTagNames
           ((if member then [''PFAMIL''] else []) @ (if pending then [''PRDFML''] else [])
            @ (if member \<and> boss then [''PFMBOS''] else [])) creature)"

definition UpdateCreatureFamilyState ::
  "CreatureID \<Rightarrow> int \<Rightarrow> bool \<Rightarrow> bool \<Rightarrow> bool \<Rightarrow> World \<Rightarrow> Creature result \<times> World" where
  "UpdateCreatureFamilyState creatureID familyID member pending boss w =
     (if IsZero creatureID then (Inl (Errorf ''update creature family state: creature id is required'' []), w)
      else if familyID < 0
      then (Inl (Errorf ''update creature %q family state: family id cannot be negative'' [creatureID]), w)
      else if member \<and> pending
      then (Inl (Errorf ''update creature %q family state: member and pending are exclusive'' [creatureID]), w)
      else if (member \<or> pending) \<and> familyID \<le> 0
      then (Inl (Errorf ''update creature %q family state: active family id is required'' [creatureID]), w)
      else if boss \<and> \<not> member
      then (Inl (Errorf ''update creature %q family state: boss requires membership'' [creatureID]), w)
      else case fmlookup (creatures w) creatureID of
        None \<Rightarrow> (Inl (Errorf ''update creature %q family state: creature not found'' [creatureID]), w)
      | Some creature \<Rightarrow>
          let creature = updateCreatureFamilyState creature familyID member pending boss
          in (Inr creature, storeCreature creatureID creature w))"

definition creatureMarriageStatePropertyNames :: "string list" where
  "creatureMarriageStatePropertyNames =
     [''PMARRI'', ''married'', ''marriage'', ''marriageFlag'', ''marriageID'', ''dailyMarriageMax'',
      ''legacyDailyMarriageMax'', ''PRDMAR'', ''marriagePending'']"

definition creatureMarriageStateTagNames :: "string list" where
  "creatureMarriageStateTagNames =
     [''PMARRI'', ''married'', ''marriage'', ''marriageFlag'', ''PRDMAR'', ''marriagePending'']"

definition removeCreatureMarriageStateProperties :: "Creature \<Rightarrow> Creature" where
  "removeCreatureMarriageStateProperties creature = remove_properties creatureMarriageStatePropertyNames creature"

definition updateCreatureMarriageState :: "Creature \<Rightarrow> int \<Rightarrow> bool \<Rightarrow> bool \<Rightarrow> Creature" where
  "updateCreatureMarriageState creature marriageID married pending =
     (let creature = set_stats [''PMARRI'', ''married'', ''marriageFlag''] (boolInt married) creature;
          creature = set_stats [''marriageID'', ''dailyMarriageMax'', ''legacyDailyMarriageMax''] marriageID creature;
          creature = set_stats [''PRDMAR'', ''marriagePending''] (boolInt pending) creature;
          creature = removeCreatureMarriageStateProperties creature
      in replace_tags creatureMarriageStateTagNames
           ((if married then [''PMARRI'', ''married''] else []) @ (if pending then [''PRDMAR''] else [])) creature)"

definition UpdateCreatureMarriageState ::
  "CreatureID \<Rightarrow> int \<Rightarrow> bool \<Rightarrow> bool \<Rightarrow> World \<Rightarrow> Creature result \<times> World" where
  "UpdateCreatureMarriageState creatureID marriageID married pending w =
     (if IsZero creatureID then (Inl (Errorf ''update creature marriage state: creature id is required'' []), w)
      else if marriageID < 0
      then (Inl (Errorf ''update creature %q marriage state: marriage id cannot be negative'' [creatureID]), w)
      else if married \<and> pending
      then (Inl (Errorf ''update creature %q marriage state: married and pending are exclusive'' [creatureID]), w)
      else if married \<and> marriageID \<le> 0
      then (Inl (Errorf ''update creature %q marriage state: active marriage id is required'' [creatureID]), w)
      else let marriageID = (if married then marriageID else 0)
        in case fmlookup (creatures w) creatureID of
          None \<Rightarrow> (Inl (Errorf ''update creature %q marriage state: creature not found'' [creatureID]), w)
        | Some creature \<Rightarrow>
            let creature = updateCreatureMarriageState creature marriageID married pending
            in (Inr creature, putCreature creatureID creature w))"

subsection \<open>Cooldowns and other timers\<close>

definition creature_cooldowns :: "World \<Rightarrow> CreatureID \<Rightarrow> (string, int) fmap" where
  "creature_cooldowns w creatureID = mget fmempty (cooldowns w) creatureID"

definition put_cooldowns :: "CreatureID \<Rightarrow> (string, int) fmap \<Rightarrow> World \<Rightarrow> World" where
  "put_cooldowns creatureID m w = w\<lparr>cooldowns := fmupd creatureID m (cooldowns w)\<rparr>"

text \<open>The values are the remaining seconds and whether the cooldown was free.\<close>

definition UseCreatureCooldown :: "CreatureID \<Rightarrow> string \<Rightarrow> int \<Rightarrow> int \<Rightarrow> World \<Rightarrow> (int \<times> bool) result \<times> World" where
  "UseCreatureCooldown creatureID key nowUnix intervalSeconds w =
     (if IsZero creatureID
      then (Inl (Errorf ''use creature cooldown %q: creature id is required'' [key]), w)
      else let key = trimSpace key in
        if key = [] then (Inl (Errorf ''use creature %q cooldown: key is required'' [creatureID]), w)
        else if fmlookup (creatures w) creatureID = None
        then (Inl (Errorf ''use creature %q cooldown %q: creature not found'' [creatureID, key]), w)
        else
          let expiresByKey = creature_cooldowns w creatureID;
              w = put_cooldowns creatureID expiresByKey w;
              expires = mget 0 expiresByKey key
          in if nowUnix < expires then (Inr (i64 (expires - nowUnix), False), w)
             else if intervalSeconds \<le> 0 then (Inr (0, True), w)
             else (Inr (0, True),
                   put_cooldowns creatureID (fmupd key (i64 (nowUnix + intervalSeconds)) expiresByKey) w))"

definition SetCreatureCooldown :: "CreatureID \<Rightarrow> string \<Rightarrow> int \<Rightarrow> int \<Rightarrow> World \<Rightarrow> go_error option \<times> World" where
  "SetCreatureCooldown creatureID key nowUnix intervalSeconds w =
     (if IsZero creatureID
      then (Some (Errorf ''set creature cooldown %q: creature id is required'' [key]), w)
      else let key = trimSpace key in
        if key = [] then (Some (Errorf ''set creature %q cooldown: key is required'' [creatureID]), w)
        else if intervalSeconds \<le> 0 then (None, w)
        else if fmlookup (creatures w) creatureID = None
        then (Some (Errorf ''set creature %q cooldown %q: creature not found'' [creatureID, key]), w)
        else (None, put_cooldowns creatureID
                (fmupd key (i64 (nowUnix + intervalSeconds)) (creature_cooldowns w creatureID)) w))"

definition CreatureCooldownExpires :: "World \<Rightarrow> CreatureID \<Rightarrow> string \<Rightarrow> int option result" where
  "CreatureCooldownExpires w creatureID key =
     (if IsZero creatureID then Inl (Errorf ''get creature cooldown %q: creature id is required'' [key])
      else let key = trimSpace key in
        if key = [] then Inl (Errorf ''get creature %q cooldown: key is required'' [creatureID])
        else if fmlookup (creatures w) creatureID = None
        then Inl (Errorf ''get creature %q cooldown %q: creature not found'' [creatureID, key])
        else Inr (fmlookup (creature_cooldowns w creatureID) key))"

definition GetEffectExpiration :: "World \<Rightarrow> CreatureID \<Rightarrow> string \<Rightarrow> int option" where
  "GetEffectExpiration w creatureID tag =
     (case fmlookup (effectExpirations w) creatureID of None \<Rightarrow> None | Some m \<Rightarrow> fmlookup m tag)"

definition SetEffectExpiration :: "CreatureID \<Rightarrow> string \<Rightarrow> int \<Rightarrow> World \<Rightarrow> World" where
  "SetEffectExpiration creatureID tag expires w =
     w\<lparr>effectExpirations :=
         fmupd creatureID (fmupd tag expires (mget fmempty (effectExpirations w) creatureID)) (effectExpirations w)\<rparr>"

definition GetLightTimer :: "World \<Rightarrow> CreatureID \<Rightarrow> string \<Rightarrow> int option" where
  "GetLightTimer w creatureID key =
     (case fmlookup (lightTimers w) creatureID of None \<Rightarrow> None | Some m \<Rightarrow> fmlookup m key)"

definition SetLightTimer :: "CreatureID \<Rightarrow> string \<Rightarrow> int \<Rightarrow> World \<Rightarrow> World" where
  "SetLightTimer creatureID key expires w =
     w\<lparr>lightTimers := fmupd creatureID (fmupd key expires (mget fmempty (lightTimers w) creatureID)) (lightTimers w)\<rparr>"

definition GetTrapState :: "World \<Rightarrow> RoomID \<Rightarrow> TrapState" where
  "GetTrapState w roomID =
     mget \<lparr>Trap_TriggeredCount = 0, Trap_LastTriggered = 0, Trap_DisarmedUntil = 0\<rparr> (trapStates w) roomID"

definition SetTrapState :: "RoomID \<Rightarrow> TrapState \<Rightarrow> World \<Rightarrow> World" where
  "SetTrapState roomID st w = w\<lparr>trapStates := fmupd roomID st (trapStates w)\<rparr>"

text \<open>A cooldown started at a time is refused with exactly the seconds that are left until its interval has
  passed, and is free from then on; a refusal changes no expiry.\<close>
theorem Cooldown_blocks_until:
  assumes "UseCreatureCooldown creatureID key now interval w = (Inr (0, True), w1)" and "0 < interval"
    and "in_i64 (now + interval)" and "in_i64 (now + interval - later)"
  shows "if later < now + interval
    then UseCreatureCooldown creatureID key later interval' w1 = (Inr (now + interval - later, False), w1)
    else fst (UseCreatureCooldown creatureID key later interval' w1) = Inr (0, True)"
proof -
  have a: "creatureID \<noteq> []" "trimSpace key \<noteq> []" "fmlookup (creatures w) creatureID \<noteq> None"
    "\<not> now < mget 0 (creature_cooldowns w creatureID) (trimSpace key)"
    using assms(1) by (auto simp: UseCreatureCooldown_def IsZero_def Let_def split: if_splits)
  then have w1: "w1 = put_cooldowns creatureID
      (fmupd (trimSpace key) (now + interval) (creature_cooldowns w creatureID)) (put_cooldowns creatureID (creature_cooldowns w creatureID) w)"
    using assms by (auto simp: UseCreatureCooldown_def IsZero_def Let_def)
  then have "mget 0 (creature_cooldowns w1 creatureID) (trimSpace key) = now + interval"
    and "fmlookup (creatures w1) creatureID \<noteq> None"
    and "put_cooldowns creatureID (creature_cooldowns w1 creatureID) w1 = w1"
    using a by (auto simp: put_cooldowns_def creature_cooldowns_def)
  then show ?thesis
    using a assms(4) by (auto simp: UseCreatureCooldown_def IsZero_def Let_def)
qed

theorem Cooldown_blocks_until_witness:
  "\<exists>w1. UseCreatureCooldown ''c1'' ''steal'' 100 20 demoBase = (Inr (0, True), w1)
     \<and> UseCreatureCooldown ''c1'' ''steal'' 107 20 w1 = (Inr (13, False), w1)"
proof -
  have "fst (UseCreatureCooldown ''c1'' ''steal'' 100 20 demoBase) = Inr (0, True)"
    by code_simp
  note run_eq [OF this]
  from this Cooldown_blocks_until [OF this, of 107 20] show ?thesis
    by (simp add: in_i64_def) blast
qed

end
