(* ===== verification/Combat.thy ===== *)
theory Combat
  imports CreatureState
begin

text \<open>
  Armour class, hit roll and weapon proficiency (\<^verbatim>\<open>creature.go\<close>, \<^verbatim>\<open>state.go\<close>, \<^verbatim>\<open>model/class.go\<close>).  Division is
  Go's, towards zero: \<open>sdiv\<close>.  A read beyond the end of a table panics; the value of such a run is \<open>None\<close>.
\<close>

subsection \<open>Tables\<close>

definition ClassZoneMaker :: int where "ClassZoneMaker = 0"
definition ClassAssassin :: int where "ClassAssassin = 1"
definition ClassBarbarian :: int where "ClassBarbarian = 2"
definition ClassCleric :: int where "ClassCleric = 3"
definition ClassFighter :: int where "ClassFighter = 4"
definition ClassMage :: int where "ClassMage = 5"
definition ClassPaladin :: int where "ClassPaladin = 6"
definition ClassRanger :: int where "ClassRanger = 7"
definition ClassThief :: int where "ClassThief = 8"
definition ClassInvincible :: int where "ClassInvincible = 9"
definition ClassCaretaker :: int where "ClassCaretaker = 10"
definition ClassBulsa :: int where "ClassBulsa = 11"
definition ClassSubDM :: int where "ClassSubDM = 12"
definition ClassDM :: int where "ClassDM = 13"

lemmas class_defs = ClassZoneMaker_def ClassAssassin_def ClassBarbarian_def ClassCleric_def ClassFighter_def ClassMage_def ClassPaladin_def
  ClassRanger_def ClassThief_def ClassInvincible_def ClassCaretaker_def ClassBulsa_def ClassSubDM_def ClassDM_def

definition stateLegacyBonusTable :: "int list" where
  "stateLegacyBonusTable =
     [-4, -4, -4, -3, -3, -2, -2, -1, -1, -1,
      0, 0, 0, 0, 1, 1, 1, 2, 2, 2,
      3, 3, 3, 3, 4, 4, 4, 4, 4, 5,
      5, 5, 5, 5, 5, 6, 6, 6, 6, 6,
      6, 6, 6, 6, 7, 7, 7, 7, 7, 7,
      7, 7, 7, 7, 7, 7, 7, 8, 8, 8,
      8, 8, 8, 8, 8, 8, 8, 8, 8, 8,
      8, 8, 8, 8, 8, 8, 8, 8, 8, 8,
      8, 8, 8, 8, 8, 8, 8, 8, 8, 8,
      9, 9, 9, 9, 9, 9]"

definition stateLegacyTHACOList :: "int list list" where
  "stateLegacyTHACOList =
     [[20, 20, 20, 20, 20, 20, 20, 20, 20, 20, 20, 20, 20, 20, 20, 20, 20, 20, 20, 20],
      [18, 18, 18, 17, 17, 16, 16, 15, 15, 14, 14, 13, 13, 12, 12, 11, 10, 10, 9, 9],
      [20, 19, 18, 17, 16, 15, 14, 13, 12, 11, 10, 9, 8, 7, 6, 5, 4, 3, 3, 2],
      [20, 20, 19, 18, 18, 17, 16, 16, 15, 14, 14, 13, 13, 12, 12, 11, 10, 10, 9, 8],
      [20, 19, 18, 17, 16, 15, 14, 13, 12, 11, 10, 9, 8, 7, 6, 5, 4, 3, 3, 3],
      [20, 20, 19, 19, 18, 18, 18, 17, 17, 16, 16, 16, 15, 15, 14, 14, 14, 13, 13, 11],
      [19, 19, 18, 18, 17, 16, 16, 15, 15, 14, 14, 13, 13, 12, 11, 11, 10, 9, 8, 7],
      [19, 19, 18, 17, 16, 16, 15, 15, 14, 14, 13, 12, 12, 11, 11, 10, 9, 9, 8, 7],
      [20, 20, 19, 19, 18, 18, 17, 17, 16, 16, 15, 15, 14, 14, 13, 13, 12, 12, 11, 11],
      [15, 15, 14, 14, 13, 13, 12, 12, 11, 11, 10, 10, 9, 9, 8, 8, 7, 6, 5, 5],
      [12, 12, 11, 11, 10, 10, 9, 9, 8, 8, 7, 7, 6, 6, 5, 5, 4, 4, 3, 0],
      [1, 1, 1, 1, 1, 1, 1, 1, 1, 1, 1, 1, 1, 1, 1, 1, 1, 1, 1, 1],
      [1, 1, 1, 1, 1, 1, 1, 1, 1, 1, 1, 1, 1, 1, 1, 1, 1, 1, 1, 1],
      [1, 1, 1, 1, 1, 1, 1, 1, 1, 1, 1, 1, 1, 1, 1, 1, 1, 1, 1, 1],
      [1, 1, 1, 1, 1, 1, 1, 1, 1, 1, 1, 1, 1, 1, 1, 1, 1, 1, 1, 1]]"

definition clampInt :: "int \<Rightarrow> int \<Rightarrow> int \<Rightarrow> int" where
  "clampInt value minValue maxValue =
     (if value < minValue then minValue else if maxValue < value then maxValue else value)"

definition stateLegacyStatBonus :: "int \<Rightarrow> int" where
  "stateLegacyStatBonus stat =
     stateLegacyBonusTable ! nat (clampInt stat 0 (int (length stateLegacyBonusTable) - 1))"

text \<open>The thresholds of \<^verbatim>\<open>model/class.go\<close>, and the copies inside \<^verbatim>\<open>stateCreatureWeaponProficiency\<close> and
  \<^verbatim>\<open>stateCreatureMagicProficiency\<close>.\<close>

definition weaponProficiencyThresholds :: "int \<Rightarrow> int list" where
  "weaponProficiencyThresholds class =
     (if class \<in> {ClassFighter, ClassInvincible, ClassCaretaker, ClassBulsa, ClassSubDM, ClassDM}
      then [0, 768, 1024, 1440, 1910, 16000, 31214, 167000, 268488, 695000, 934808, 500000000]
      else if class \<in> {ClassBarbarian}
      then [0, 1536, 2048, 2880, 3820, 32000, 62428, 334000, 536976, 1390000, 1869616, 500000000]
      else if class \<in> {ClassThief, ClassRanger}
      then [0, 2304, 3072, 4320, 5730, 48000, 93642, 501000, 805464, 2085000, 2804424, 500000000]
      else if class \<in> {ClassCleric, ClassPaladin, ClassAssassin}
      then [0, 3072, 4096, 5076, 7640, 64000, 124856, 668000, 1073952, 2780000, 3939232, 500000000]
      else [0, 5376, 7168, 10080, 13370, 112000, 218498, 1169000, 1879416, 4865000, 6543656, 500000000])"

definition stateWeaponTable :: "int \<Rightarrow> int list" where
  "stateWeaponTable class =
     (if class \<in> {ClassFighter, ClassInvincible, ClassCaretaker, ClassBulsa, ClassSubDM, ClassDM}
      then [0, 768, 1024, 1440, 1910, 16000, 31214, 167000, 268488, 695000, 934808, 500000000]
      else if class \<in> {ClassBarbarian}
      then [0, 1536, 2048, 2880, 3820, 32000, 62428, 334000, 536976, 1390000, 1869616, 500000000]
      else if class \<in> {ClassThief, ClassRanger}
      then [0, 2304, 3072, 4320, 5730, 48000, 93642, 501000, 805464, 2085000, 2804424, 500000000]
      else if class \<in> {ClassCleric, ClassPaladin, ClassAssassin}
      then [0, 3072, 4096, 5076, 7640, 64000, 124856, 668000, 1073952, 2780000, 3939232, 500000000]
      else [0, 5376, 7168, 10080, 13370, 112000, 218498, 1169000, 1879416, 4865000, 6543656, 500000000])"

definition stateMagicTable :: "int \<Rightarrow> int list" where
  "stateMagicTable class =
     (if class \<in> {ClassMage, ClassInvincible, ClassCaretaker, ClassBulsa, ClassSubDM, ClassDM}
      then [0, 1024, 2048, 4096, 8192, 16384, 35768, 85536, 140000, 459410, 2073306, 500000000]
      else if class \<in> {ClassCleric}
      then [0, 1024, 4092, 8192, 16384, 32768, 70536, 119000, 226410, 709410, 2973307, 500000000]
      else if class \<in> {ClassPaladin, ClassRanger}
      then [0, 1024, 8192, 16384, 32768, 65536, 105000, 165410, 287306, 809410, 3538232, 500000000]
      else [0, 1024, 40000, 80000, 120000, 160000, 205000, 222000, 380000, 965410, 5495000, 500000000])"

subsection \<open>Proficiency ranks\<close>

text \<open>The first \<open>i < 11\<close> with \<open>value < table ! (i + 1)\<close>; after the loop \<open>i\<close> is 11.\<close>

definition rank_index :: "int \<Rightarrow> int list \<Rightarrow> nat" where
  "rank_index value table = (case find (\<lambda>i. value < table ! Suc i) [0..<11] of None \<Rightarrow> 11 | Some i \<Rightarrow> i)"

definition stateProficiencyRank :: "int \<Rightarrow> int list \<Rightarrow> int option" where
  "stateProficiencyRank value table =
     (let i = rank_index value table;
          rank = (if i < 11 then 10 * int i else 100)
      in if length table \<le> Suc i then None
         else if table ! i < table ! Suc i
         then Some (i64 (rank + i64 (i64 (value - table ! i) * 10) sdiv (table ! Suc i - table ! i)))
         else Some rank)"

definition WeaponProficiencyPercent :: "int \<Rightarrow> int \<Rightarrow> int option" where
  "WeaponProficiencyPercent class rawValue =
     (let table = weaponProficiencyThresholds class; i = rank_index rawValue table;
          rank = (if i < 11 then 10 * int i else 100)
      in if length table \<le> Suc i then None
         else if table ! i < table ! Suc i
         then Some (i64 (rank + i64 (i64 (rawValue - table ! i) * 10) sdiv (table ! Suc i - table ! i)))
         else Some rank)"

definition stateCreatureWeaponProficiency :: "(string fset \<Rightarrow> string list) \<Rightarrow> Creature \<Rightarrow> int \<Rightarrow> int option" where
  "stateCreatureWeaponProficiency ord creature index =
     stateProficiencyRank (stateCreatureProficiencyValue ord creature index)
       (stateWeaponTable (creatureStateClass ord creature))"

definition stateCreatureMagicProficiency :: "(string fset \<Rightarrow> string list) \<Rightarrow> Creature \<Rightarrow> int \<Rightarrow> int option" where
  "stateCreatureMagicProficiency ord creature index =
     (let value = (if index = 0 then stateCreatureProficiencyValue ord creature 4
                   else if 1 \<le> index \<and> index \<le> 4 then stateCreatureRealm creature (index - 1)
                   else 0)
      in stateProficiencyRank value (stateMagicTable (creatureStateClass ord creature)))"

subsection \<open>Armour class\<close>

definition sub64 :: "int \<Rightarrow> int \<Rightarrow> int" where
  "sub64 a b = i64 (a - b)"

definition worn_armor :: "World \<Rightarrow> ObjectInstanceID \<Rightarrow> int" where
  "worn_armor w objectID =
     (if IsZero objectID then 0
      else case fmlookup (objects w) objectID of
        None \<Rightarrow> 0
      | Some object \<Rightarrow> (case objectIntProperty w object ''armor'' of None \<Rightarrow> 0 | Some armor \<Rightarrow> armor))"

definition computeCreatureAC :: "(string fset \<Rightarrow> string list) \<Rightarrow> World \<Rightarrow> Creature \<Rightarrow> int" where
  "computeCreatureAC ord w creature =
     (let constitution = creatureStateInt ord creature ''constitution'';
          dexterity = creatureStateInt ord creature ''dexterity'';
          ac = 100 - (if 95 < constitution then 5 * stateLegacyStatBonus 90
                      else 5 * (stateLegacyStatBonus constitution + 4));
          ac = ac - (if 95 < dexterity then 2 * stateLegacyStatBonus 90
                     else 2 * (stateLegacyStatBonus dexterity + 4));
          ac = foldl (\<lambda>ac slot. sub64 ac (worn_armor w (mget [] (Creature_Equipment creature) slot))) ac
                 (ord (fmdom (Creature_Equipment creature)));
          ac = (if creatureHasAnyFlag creature [''PPROTE'', ''protect''] then sub64 ac 10 else ac);
          ac = (if creatureHasAnyFlag creature [''PREFLECT'', ''reflect'', ''reflection''] then sub64 ac 15 else ac);
          ac = (if creatureHasAnyFlag creature [''PSHADOW'', ''shadow'', ''shadowClone''] then sub64 ac 20 else ac);
          ac = (if creatureHasAnyFlag creature [''PABSORB'', ''absorb''] then sub64 ac 10 else ac);
          ac = (if creatureHasAnyFlag creature [''PCHOI'', ''choi''] then sub64 ac (- 20) else ac);
          ac = (if ClassBulsa \<le> creatureStateClass ord creature
                then let ac = sub64 ac 10 in if 45 < constitution then sub64 ac (constitution - 45) else ac
                else ac)
      in clampInt ac (- 127) 127)"

subsection \<open>Hit roll\<close>

definition creatureWieldedObject :: "World \<Rightarrow> Creature \<Rightarrow> ObjectInstance option" where
  "creatureWieldedObject w creature =
     first_some (\<lambda>slot. let objectID = mget [] (Creature_Equipment creature) slot
                        in if IsZero objectID then None else fmlookup (objects w) objectID)
       [''wield'', ''weapon'', ''mainHand'', ''right'']"

definition proficiency_divisor :: "int \<Rightarrow> int" where
  "proficiency_divisor class =
     (if class \<in> {ClassFighter, ClassBarbarian, ClassInvincible, ClassCaretaker} then 20
      else if class \<in> {ClassRanger, ClassPaladin} then 25
      else if class \<in> {ClassThief, ClassAssassin, ClassCleric} then 30
      else 40)"

definition wielded_type :: "World \<Rightarrow> Creature \<Rightarrow> int" where
  "wielded_type w creature =
     (case creatureWieldedObject w creature of
        None \<Rightarrow> 2
      | Some weapon \<Rightarrow>
          (case objectIntProperty w weapon ''type'' of
             None \<Rightarrow> 2
           | Some value \<Rightarrow> if 0 \<le> value \<and> value \<le> 4 then value else 2))"

definition creatureModifiedWeaponProficiency :: "(string fset \<Rightarrow> string list) \<Rightarrow> World \<Rightarrow> Creature \<Rightarrow> int option" where
  "creatureModifiedWeaponProficiency ord w creature =
     map_option (\<lambda>rank. rank sdiv proficiency_divisor (creatureStateClass ord creature))
       (stateCreatureWeaponProficiency ord creature (wielded_type w creature))"

fun sum_ranks :: "int option list \<Rightarrow> int option" where
  "sum_ranks [] = Some 0"
| "sum_ranks (r # rs) =
     (case r of None \<Rightarrow> None | Some rank \<Rightarrow> map_option (\<lambda>sum. rank + sum) (sum_ranks rs))"

definition thaco_index :: "int \<Rightarrow> int" where
  "thaco_index level =
     (let index = i64 (level + 3) sdiv 4
      in if 20 < index then 19 else if 0 < index then index - 1 else 0)"

definition thaco_base :: "int \<Rightarrow> int \<Rightarrow> int" where
  "thaco_base class level =
     (if 0 \<le> class \<and> class < int (length stateLegacyTHACOList)
      then stateLegacyTHACOList ! nat class ! nat (thaco_index level) else 20)"

text \<open>The additions wrap; as they form one sum, the wrap-around is applied to the sum.\<close>

definition computeCreatureTHACO :: "(string fset \<Rightarrow> string list) \<Rightarrow> World \<Rightarrow> Creature \<Rightarrow> int option" where
  "computeCreatureTHACO ord w creature =
     (let class = creatureStateClass ord creature;
          thaco = thaco_base class (creatureStateLevel ord creature);
          thaco = (case creatureWieldedObject w creature of
                     None \<Rightarrow> thaco
                   | Some weapon \<Rightarrow>
                       (case objectIntProperty w weapon ''adjustment'' of
                          None \<Rightarrow> thaco | Some adjustment \<Rightarrow> sub64 thaco adjustment))
      in case creatureModifiedWeaponProficiency ord w creature of
        None \<Rightarrow> None
      | Some proficiency \<Rightarrow>
          (case sum_ranks (map (stateCreatureWeaponProficiency ord creature) [0, 1, 2, 3]
                           @ map (stateCreatureMagicProficiency ord creature) [0, 1, 2, 3]) of
             None \<Rightarrow> None
           | Some proficiencySum \<Rightarrow>
               let thaco = thaco - proficiency - i64 proficiencySum sdiv 50;
                   thaco = thaco - (if creatureHasAnyFlag creature [''PBLESS'', ''bless''] then 3 else 0);
                   thaco = thaco - (if creatureHasAnyFlag creature [''PREFLECT'', ''reflect'', ''reflection''] then 1 else 0);
                   thaco = thaco - (if creatureHasAnyFlag creature [''PSHADOW'', ''shadow'', ''shadowClone''] then 3 else 0);
                   thaco = thaco - (if creatureHasAnyFlag creature [''PABSORB'', ''absorb''] then 2 else 0);
                   thaco = thaco + (if creatureHasAnyFlag creature [''PCHOI'', ''choi''] then 5 else 0);
                   thaco = thaco - (if creatureHasAnyFlag creature [''PSLAYE'', ''slaye'', ''accurate'', ''slayer''] then 3 else 0);
                   thaco = thaco - (if class = ClassDM then 60 else 0);
                   thaco = thaco - (if class = ClassBulsa then 14 else 0)
               in Some (i64 thaco)))"

definition recalculateCreatureCombatStats :: "(string fset \<Rightarrow> string list) \<Rightarrow> World \<Rightarrow> Creature \<Rightarrow> Creature option" where
  "recalculateCreatureCombatStats ord w creature =
     (let creature = creature\<lparr>Creature_Stats :=
            fmupd ''armor'' (computeCreatureAC ord w creature) (Creature_Stats creature)\<rparr>
      in map_option (\<lambda>thaco. creature\<lparr>Creature_Stats := fmupd ''thaco'' thaco (Creature_Stats creature)\<rparr>)
           (computeCreatureTHACO ord w creature))"

definition RecalculateCreatureAC ::
  "(string fset \<Rightarrow> string list) \<Rightarrow> CreatureID \<Rightarrow> World \<Rightarrow> Creature result \<times> World" where
  "RecalculateCreatureAC ord creatureID w =
     (if IsZero creatureID then (Inl (Errorf ''recalculate creature ac: creature id is required'' []), w)
      else case fmlookup (creatures w) creatureID of
        None \<Rightarrow> (Inl (Errorf ''recalculate creature %q ac: creature not found'' [creatureID]), w)
      | Some creature \<Rightarrow>
          let creature = creature\<lparr>Creature_Stats :=
                fmupd ''armor'' (computeCreatureAC ord w creature) (Creature_Stats creature)\<rparr>
          in (Inr creature, storeCreature creatureID creature w))"

definition RecalculateCreatureTHACO ::
  "(string fset \<Rightarrow> string list) \<Rightarrow> CreatureID \<Rightarrow> World \<Rightarrow> (Creature result \<times> World) option" where
  "RecalculateCreatureTHACO ord creatureID w =
     (if IsZero creatureID then Some (Inl (Errorf ''recalculate creature thaco: creature id is required'' []), w)
      else case fmlookup (creatures w) creatureID of
        None \<Rightarrow> Some (Inl (Errorf ''recalculate creature %q thaco: creature not found'' [creatureID]), w)
      | Some creature \<Rightarrow>
          map_option (\<lambda>thaco.
              let creature = creature\<lparr>Creature_Stats := fmupd ''thaco'' thaco (Creature_Stats creature)\<rparr>
              in (Inr creature, storeCreature creatureID creature w))
            (computeCreatureTHACO ord w creature))"

definition RecalculateCreatureCombatStats ::
  "(string fset \<Rightarrow> string list) \<Rightarrow> CreatureID \<Rightarrow> World \<Rightarrow> (Creature result \<times> World) option" where
  "RecalculateCreatureCombatStats ord creatureID w =
     (if IsZero creatureID then Some (Inl (Errorf ''recalculate creature combat stats: creature id is required'' []), w)
      else case fmlookup (creatures w) creatureID of
        None \<Rightarrow> Some (Inl (Errorf ''recalculate creature %q combat stats: creature not found'' [creatureID]), w)
      | Some creature \<Rightarrow>
          map_option (\<lambda>creature. (Inr creature, storeCreature creatureID creature w))
            (recalculateCreatureCombatStats ord w creature))"

definition SetCreatureClass ::
  "(string fset \<Rightarrow> string list) \<Rightarrow> CreatureID \<Rightarrow> int \<Rightarrow> World \<Rightarrow> (Creature result \<times> World) option" where
  "SetCreatureClass ord creatureID class w =
     (if IsZero creatureID then Some (Inl (Errorf ''set creature class: creature id is required'' []), w)
      else if class < 0
      then Some (Inl (Errorf ''set creature %q class: class must be non-negative'' [creatureID]), w)
      else case fmlookup (creatures w) creatureID of
        None \<Rightarrow> Some (Inl (Errorf ''set creature %q class: creature not found'' [creatureID]), w)
      | Some creature \<Rightarrow>
          let creature = creature\<lparr>Creature_Stats := fmupd ''class'' class (Creature_Stats creature)\<rparr>
          in map_option (\<lambda>creature. (Inr creature, storeCreature creatureID creature w))
               (recalculateCreatureCombatStats ord w creature))"


subsection \<open>What a rank is\<close>

definition threshold_table :: "int list \<Rightarrow> bool" where
  "threshold_table t \<longleftrightarrow> length t = 12 \<and> sorted_wrt (<) t \<and> t ! 0 = 0 \<and> t ! 11 = 500000000"

lemma threshold_tables [simp]:
  "threshold_table (weaponProficiencyThresholds class)" "threshold_table (stateWeaponTable class)"
  "threshold_table (stateMagicTable class)"
  by (simp_all add: threshold_table_def weaponProficiencyThresholds_def stateWeaponTable_def stateMagicTable_def)

lemma rank_index_high:
  assumes "threshold_table t"
  shows "rank_index v t = 11 \<longleftrightarrow> 500000000 \<le> v"
proof -
  have l: "length t = 12" and s: "\<And>i j. i < j \<Longrightarrow> j < 12 \<Longrightarrow> t ! i < t ! j" and m: "t ! 11 = 500000000"
    using assms by (auto simp: threshold_table_def sorted_wrt_iff_nth_less)
  show ?thesis
  proof
    assume "rank_index v t = 11"
    then have "find (\<lambda>i. v < t ! Suc i) [0..<11] = None"
      by (auto simp: rank_index_def find_Some_iff split: option.splits)
    then have "\<not> v < t ! Suc 10"
      unfolding find_None_iff by (metis atLeastLessThan_iff le0 set_upt Suc_numeral lessI semiring_norm(5) semiring_norm(8))
    then show "500000000 \<le> v"
      using m by simp
  next
    assume "500000000 \<le> v"
    then have "\<not> v < t ! Suc i" if "i < 11" for i
      using s [of "Suc i" 11] that m by (cases "i = 10") fastforce+
    then show "rank_index v t = 11"
      by (auto simp: rank_index_def find_Some_iff split: option.split)
  qed
qed

lemma rank_index_spec:
  assumes "threshold_table t" and "0 \<le> v" and "v < 500000000"
  shows "rank_index v t < 11 \<and> t ! rank_index v t \<le> v \<and> v < t ! Suc (rank_index v t)"
proof -
  have "rank_index v t \<noteq> 11"
    using rank_index_high [OF assms(1)] assms(3) by simp
  then obtain i where f: "find (\<lambda>i. v < t ! Suc i) [0..<11] = Some i"
    by (auto simp: rank_index_def split: option.splits)
  then have i: "i < 11" "v < t ! Suc i" "\<And>j. j < i \<Longrightarrow> \<not> v < t ! Suc j"
    by (auto simp: find_Some_iff)
  have "t ! i \<le> v"
  proof (cases i)
    case 0
    then show ?thesis using assms by (simp add: threshold_table_def)
  next
    case (Suc j)
    then show ?thesis using i(3) [of j] by simp
  qed
  then show ?thesis
    using f i by (simp add: rank_index_def)
qed

lemma tenths: "0 \<le> a \<Longrightarrow> a < d \<Longrightarrow> 0 \<le> a * 10 div d \<and> a * 10 div d \<le> (9 :: int)"
proof -
  assume a: "0 \<le> a" "a < d"
  then have "a * 10 div d \<le> (10 * d - 1) div d"
    by (intro zdiv_mono1) simp_all
  also have "10 * d - 1 = d * 9 + (d - 1)"
    by simp
  also have "(d * 9 + (d - 1)) div d = 9"
    using a by (simp only: div_mult_self4) (simp add: div_pos_pos_trivial)
  finally show ?thesis
    using a by (simp add: div_int_pos_iff)
qed

text \<open>Ten points for each threshold passed, and up to nine on the way to the next.\<close>

lemma stateProficiencyRank_eq:
  assumes "threshold_table t" and "0 \<le> v" and "v < 500000000"
  defines "i \<equiv> rank_index v t"
  shows "stateProficiencyRank v t = Some (10 * int i + (v - t ! i) * 10 div (t ! Suc i - t ! i))"
    and "0 \<le> (v - t ! i) * 10 div (t ! Suc i - t ! i)" and "(v - t ! i) * 10 div (t ! Suc i - t ! i) \<le> 9"
proof -
  have i: "i < 11" "t ! i \<le> v" "v < t ! Suc i"
    using rank_index_spec [OF assms(1-3)] by (simp_all add: i_def)
  let ?q = "(v - t ! i) * 10 div (t ! Suc i - t ! i)"
  show q: "0 \<le> ?q" "?q \<le> 9"
    using tenths [of "v - t ! i" "t ! Suc i - t ! i"] i by simp_all
  have ti: "0 \<le> t ! i"
  proof (cases "i = 0")
    case False
    then have "t ! 0 < t ! i"
      using assms(1) i(1) unfolding threshold_table_def by (intro sorted_wrt_nth_less [of "(<)" t]) simp_all
    then show ?thesis
      using assms(1) by (simp add: threshold_table_def)
  qed (use assms(1) in \<open>simp add: threshold_table_def\<close>)
  have "in_i64 (v - t ! i)" "in_i64 ((v - t ! i) * 10)"
    using i ti assms(3) by (auto simp: in_i64_def)
  moreover have "in_i64 (10 * int i + ?q)"
    using i q by (auto simp: in_i64_def)
  moreover have "((v - t ! i) * 10) sdiv (t ! Suc i - t ! i) = ?q"
    using i by (simp add: signed_divide_int_def sgn_if)
  moreover have "length t = 12"
    using assms(1) by (simp add: threshold_table_def)
  ultimately show "stateProficiencyRank v t = Some (10 * int i + ?q)"
    using i unfolding stateProficiencyRank_def by (simp add: Let_def flip: i_def)
qed

lemma WeaponProficiencyPercent_rank:
  "WeaponProficiencyPercent class raw = stateProficiencyRank raw (weaponProficiencyThresholds class)"
  by (simp only: WeaponProficiencyPercent_def stateProficiencyRank_def Let_def)

lemma stateProficiencyRank_None: "threshold_table t \<Longrightarrow> stateProficiencyRank v t = None \<longleftrightarrow> 500000000 \<le> v"
proof -
  assume t: "threshold_table t"
  have "rank_index v t \<le> 11"
    by (auto simp: rank_index_def find_Some_iff split: option.split)
  then have "length t \<le> Suc (rank_index v t) \<longleftrightarrow> rank_index v t = 11"
    using t by (auto simp: threshold_table_def)
  then show ?thesis
    using rank_index_high [OF t] by (auto simp: stateProficiencyRank_def Let_def)
qed

lemma stateProficiencyRank_mono:
  assumes "threshold_table t" and "0 \<le> v" and "v \<le> u" and "u < 500000000"
  shows "\<exists>r r'. stateProficiencyRank v t = Some r \<and> stateProficiencyRank u t = Some r'
    \<and> 0 \<le> r \<and> r \<le> r' \<and> r' \<le> 109"
proof -
  let ?i = "rank_index v t" and ?j = "rank_index u t"
  note v = stateProficiencyRank_eq [OF assms(1,2)] and u = stateProficiencyRank_eq [OF assms(1) _ assms(4)]
  have i: "?i < 11" "t ! ?i \<le> v" "v < t ! Suc ?i" and j: "?j < 11" "t ! ?j \<le> u" "u < t ! Suc ?j"
    using rank_index_spec [OF assms(1)] assms(2-4) by simp_all
  have ij: "?i \<le> ?j"
  proof (rule ccontr)
    assume "\<not> ?i \<le> ?j"
    then have "t ! Suc ?j \<le> t ! ?i"
      using assms(1) i(1) by (cases "Suc ?j = ?i") (auto simp: threshold_table_def sorted_wrt_iff_nth_less intro: less_imp_le)
    then show False
      using i j assms(3) by linarith
  qed
  show ?thesis
  proof (cases "?i = ?j")
    case True
    have "(v - t ! ?i) * 10 div (t ! Suc ?i - t ! ?i) \<le> (u - t ! ?i) * 10 div (t ! Suc ?i - t ! ?i)"
      using i assms(3) by (intro zdiv_mono1) auto
    then show ?thesis
      using v u assms True j(1) by simp
  next
    case False
    then show ?thesis
      using v u assms ij j(1) by simp
  qed
qed

text \<open>Below 500000000 the weapon proficiency of a class is defined and does not fall when the raw value grows;
  it lies between 0 and 109.\<close>
theorem Proficiency_monotone:
  assumes "0 \<le> raw" and "raw \<le> raw'" and "raw' < 500000000"
  shows "\<exists>r r'. WeaponProficiencyPercent class raw = Some r \<and> WeaponProficiencyPercent class raw' = Some r'
    \<and> 0 \<le> r \<and> r \<le> r' \<and> r' \<le> 109"
  unfolding WeaponProficiencyPercent_rank by (rule stateProficiencyRank_mono) (simp_all add: assms)

theorem Proficiency_monotone_witness:
  "\<exists>r r'. WeaponProficiencyPercent ClassFighter 800 = Some r \<and> WeaponProficiencyPercent ClassFighter 900 = Some r'
    \<and> 0 \<le> r \<and> r \<le> r' \<and> r' \<le> 109"
  using Proficiency_monotone [of 800 900 ClassFighter] by simp

text \<open>The two copies of the proficiency ranking agree: the one that the hit roll uses ranks a creature's raw
  value like the one of the model package does for its class.\<close>
theorem Weapon_ranks_agree:
  "stateCreatureWeaponProficiency ord creature index =
     WeaponProficiencyPercent (creatureStateClass ord creature) (stateCreatureProficiencyValue ord creature index)"
proof -
  have "stateWeaponTable = weaponProficiencyThresholds"
    by (simp add: fun_eq_iff stateWeaponTable_def weaponProficiencyThresholds_def)
  then show ?thesis
    by (simp add: stateCreatureWeaponProficiency_def WeaponProficiencyPercent_rank)
qed

text \<open>The percentage of the documentation can exceed 100.\<close>

lemma Proficiency_above_100: "WeaponProficiencyPercent ClassFighter 100000000 = Some 101"
  by code_simp

lemma computeCreatureTHACO_None:
  "computeCreatureTHACO ord w creature = None \<longleftrightarrow>
     (\<exists>i \<in> {0, 1, 2, 3, 4}. 500000000 \<le> stateCreatureProficiencyValue ord creature i)
     \<or> (\<exists>i \<in> {0, 1, 2}. 500000000 \<le> stateCreatureRealm creature i)"
proof -
  have s: "sum_ranks rs = None \<longleftrightarrow> None \<in> set rs" for rs
    by (induction rs) (auto split: option.split)
  have p: "stateCreatureWeaponProficiency ord creature i = None \<longleftrightarrow> 500000000 \<le> stateCreatureProficiencyValue ord creature i" for i
    by (simp add: stateCreatureWeaponProficiency_def stateProficiencyRank_None)
  have m: "stateCreatureMagicProficiency ord creature 0 = None \<longleftrightarrow> 500000000 \<le> stateCreatureProficiencyValue ord creature 4"
    "stateCreatureMagicProficiency ord creature 1 = None \<longleftrightarrow> 500000000 \<le> stateCreatureRealm creature 0"
    "stateCreatureMagicProficiency ord creature 2 = None \<longleftrightarrow> 500000000 \<le> stateCreatureRealm creature 1"
    "stateCreatureMagicProficiency ord creature 3 = None \<longleftrightarrow> 500000000 \<le> stateCreatureRealm creature 2"
    by (simp_all add: stateCreatureMagicProficiency_def stateProficiencyRank_None)
  have "wielded_type w creature \<in> {0, 1, 2, 3, 4}"
    by (auto simp: wielded_type_def split: option.split)
  then have "\<exists>i \<in> {0, 1, 2, 3, 4}. creatureModifiedWeaponProficiency ord w creature = None
      \<longleftrightarrow> 500000000 \<le> stateCreatureProficiencyValue ord creature i"
    unfolding creatureModifiedWeaponProficiency_def option.map_disc_iff p by blast
  moreover have "computeCreatureTHACO ord w creature = None \<longleftrightarrow>
      creatureModifiedWeaponProficiency ord w creature = None
      \<or> sum_ranks (map (stateCreatureWeaponProficiency ord creature) [0, 1, 2, 3]
           @ map (stateCreatureMagicProficiency ord creature) [0, 1, 2, 3]) = None"
    unfolding computeCreatureTHACO_def Let_def by (auto split: option.split)
  ultimately show ?thesis
    unfolding s set_append set_map image_iff by (simp add: p m eq_commute [of None]) blast
qed

text \<open>C40. The hit roll of a creature panics exactly when one of its five weapon proficiencies, or one of its first
  three realms, is 500000000 or more.\<close>

theorem THACO_panics:
  "computeCreatureTHACO ord w creature = None \<longleftrightarrow>
     (\<exists>i \<in> {0, 1, 2, 3, 4}. 500000000 \<le> stateCreatureProficiencyValue ord creature i)
     \<or> (\<exists>i \<in> {0, 1, 2}. 500000000 \<le> stateCreatureRealm creature i)"
  by (rule computeCreatureTHACO_None)


subsection \<open>The order of a range does not matter\<close>

text \<open>No two keys of one map are spellings of one name.\<close>

definition unambiguous :: "Creature \<Rightarrow> bool" where
  "unambiguous creature \<longleftrightarrow>
     inj_on normalizeFlagName (fset (fmdom (Creature_Stats creature)))
     \<and> inj_on normalizeFlagName (fset (fmdom (Creature_Properties creature)))"

lemma first_some_order:
  assumes "key_order ord" and "key_order ord'" and "inj_on normalizeFlagName (fset S)"
  shows "first_some (\<lambda>k. if normalizeFlagName k = n then f k else None) (ord S)
       = first_some (\<lambda>k. if normalizeFlagName k = n then f k else None) (ord' S)"
proof (rule first_some_set)
  show "set (ord S) = set (ord' S)"
    by (simp add: set_key_order assms)
  fix x z y y'
  assume "x \<in> set (ord S)" "z \<in> set (ord S)"
    and "(if normalizeFlagName x = n then f x else None) = Some y" "(if normalizeFlagName z = n then f z else None) = Some y'"
  then have "x = z" and "f x = Some y" and "f z = Some y'"
    using inj_onD [OF assms(3), of x z] by (simp_all add: set_key_order assms(1) split: if_splits)
  then show "y = y'"
    by simp
qed

lemma stateCreatureIntValue_order:
  assumes "key_order ord" and "key_order ord'" and "unambiguous creature"
  shows "stateCreatureIntValue ord creature key = stateCreatureIntValue ord' creature key"
proof -
  have i: "inj_on normalizeFlagName (fset (fmdom (Creature_Stats creature)))"
    "inj_on normalizeFlagName (fset (fmdom (Creature_Properties creature)))"
    using assms(3) by (simp_all add: unambiguous_def)
  show ?thesis
    unfolding stateCreatureIntValue_def Let_def
      first_some_order [OF assms(1,2) i(1)] first_some_order [OF assms(1,2) i(2)] ..
qed

lemma creatureStateInt_order:
  "key_order ord \<Longrightarrow> key_order ord' \<Longrightarrow> unambiguous creature \<Longrightarrow> creatureStateInt ord creature key = creatureStateInt ord' creature key"
  by (simp only: creatureStateInt_def stateCreatureIntValue_order [of ord ord'])

lemma foldl_sub64:
  "foldl (\<lambda>a x. sub64 a (f x)) a xs = (if xs = [] then a else i64 (a - sum_list (map f xs)))"
proof (induction xs arbitrary: a)
  case (Cons x xs)
  have "i64 (i64 (a - f x) - s) = i64 (a - (f x + s))" for s
    using i64_add_left [of "a - f x" "- s"] by (simp add: algebra_simps)
  then show ?case
    using Cons [of "sub64 a (f x)"] by (simp add: sub64_def)
qed simp

lemma foldl_sub64_order:
  assumes "key_order ord" and "key_order ord'"
  shows "foldl (\<lambda>a x. sub64 a (f x)) a (ord S) = foldl (\<lambda>a x. sub64 a (f x)) a (ord' S)"
proof -
  have "sum_list (map f (o' S)) = sum f (fset S)" if "key_order o'" for o' :: "string fset \<Rightarrow> string list"
    using that by (simp add: sum_list_distinct_conv_sum_set distinct_key_order set_key_order)
  moreover have "ord S = [] \<longleftrightarrow> ord' S = []"
    by (metis assms set_empty set_key_order)
  ultimately show ?thesis
    by (simp add: foldl_sub64 assms)
qed

definition between :: "int \<Rightarrow> bool" where
  "between ac \<longleftrightarrow> - 127 \<le> ac \<and> ac \<le> 127"

lemma between_clamp: "between (clampInt ac (- 127) 127)"
  by (simp add: between_def clampInt_def)

lemma between_Let: "(\<And>x. between (f x)) \<Longrightarrow> between (Let a f)"
  by (simp add: Let_def)

text \<open>The armour class lies between -127 and 127 and is well defined: for a creature no two of whose keys are
  spellings of one name, it does not depend on the orders in which Go ranges over its maps.\<close>
theorem AC_well_defined:
  assumes "key_order ord" and "key_order ord'" and "unambiguous creature"
  shows "computeCreatureAC ord w creature = computeCreatureAC ord' w creature
    \<and> - 127 \<le> computeCreatureAC ord w creature \<and> computeCreatureAC ord w creature \<le> 127"
proof
  show "computeCreatureAC ord w creature = computeCreatureAC ord' w creature"
    unfolding computeCreatureAC_def creatureStateClass_def
      creatureStateInt_order [OF assms] foldl_sub64_order [OF assms(1,2)] ..
  have "between (computeCreatureAC ord w creature)"
    unfolding computeCreatureAC_def by (rule between_Let)+ (rule between_clamp)
  then show "- 127 \<le> computeCreatureAC ord w creature \<and> computeCreatureAC ord w creature \<le> 127"
    by (simp add: between_def)
qed

lemma key_order_sorted: "key_order sorted_list_of_fset"
  by (simp add: key_order_def sorted_list_of_fset.rep_eq)

definition demoFighter :: Creature where
  "demoFighter = zeroCreature\<lparr>Creature_ID := ''c9'',
     Creature_Stats := fmap_of_list [(''dexterity'', 20), (''constitution'', 96), (''class'', 4)]\<rparr>"

lemma unambiguous_demoFighter: "unambiguous demoFighter"
proof -
  have "distinct (map normalizeFlagName [''dexterity'', ''constitution'', ''class''])"
    by code_simp
  then have "inj_on normalizeFlagName (set [''dexterity'', ''constitution'', ''class''])"
    by (simp only: distinct_map)
  moreover have "fset (fmdom (Creature_Stats demoFighter)) = set [''dexterity'', ''constitution'', ''class'']"
    and "fset (fmdom (Creature_Properties demoFighter)) = {}"
    by (simp_all only: demoFighter_def zeroCreature_def Creature.select_convs Creature.update_convs fmdom_fmap_of_list
        fset_of_list.rep_eq list.map fst_conv fmdom_empty bot_fset.rep_eq)
  ultimately show ?thesis
    by (simp only: unambiguous_def inj_on_empty)
qed

theorem AC_well_defined_witness:
  "computeCreatureAC sorted_list_of_fset demoBase demoFighter \<le> 127"
  using AC_well_defined [OF key_order_sorted key_order_sorted unambiguous_demoFighter] by blast

text \<open>A constitution of 96 gives a worse armour class than one of 95: the bonus 4 is not added.\<close>

lemma AC_high_constitution: "5 * stateLegacyStatBonus 90 = 45" "5 * (stateLegacyStatBonus 95 + 4) = 65"
  by code_simp+

end
