(* ===== verification/Damage.thy ===== *)
theory Damage
  imports Combat
begin

text \<open>
  Damage and the death of a monster (\<^verbatim>\<open>creature.go\<close>): the hit points a blow takes, the ledger of who
  dealt how much, the rewards paid from it, and the removal of the dead monster, whose belongings and
  gold stay on the floor of its room.
\<close>

subsection \<open>Damage and the ledger\<close>

text \<open>The values are the creature after the blow, the damage it took and whether it is dead.\<close>

definition ApplyCreatureDamage ::
  "CreatureID \<Rightarrow> int \<Rightarrow> World \<Rightarrow> (Creature \<times> int \<times> bool) result \<times> World" where
  "ApplyCreatureDamage creatureID damage w =
     (if IsZero creatureID then (Inl (Errorf ''damage creature: creature id is required'' []), w)
      else if damage < 0
      then (Inl (Errorf ''damage creature %q: damage cannot be negative'' [creatureID]), w)
      else case fmlookup (creatures w) creatureID of
        None \<Rightarrow> (Inl (Errorf ''damage creature %q: creature not found'' [creatureID]), w)
      | Some creature \<Rightarrow>
          (case fmlookup (Creature_Stats creature) ''hpCurrent'' of
             None \<Rightarrow> (Inl (Errorf ''damage creature %q: hpCurrent stat not found'' [creatureID]), w)
           | Some hp \<Rightarrow>
               let current = (if hp < 0 then 0 else hp);
                   actual = (if current < damage then current else damage);
                   remaining = current - actual;
                   next = creature\<lparr>Creature_Stats := fmupd ''hpCurrent'' remaining (Creature_Stats creature)\<rparr>
               in (Inr (next, actual, remaining \<le> 0),
                   markCreaturePlayerDirty next
                     (w\<lparr>creatures := fmupd (Creature_ID next) next (creatures w)\<rparr>))))"

definition RecordCreatureDamage ::
  "CreatureID \<Rightarrow> CreatureID \<Rightarrow> int \<Rightarrow> World \<Rightarrow> go_error option \<times> World" where
  "RecordCreatureDamage victimID attackerID damage w =
     (if IsZero victimID then (Some (Errorf ''record creature damage: victim id is required'' []), w)
      else if IsZero attackerID
      then (Some (Errorf ''record creature damage %q: attacker id is required'' [victimID]), w)
      else if damage < 0
      then (Some (Errorf ''record creature damage %q from %q: damage cannot be negative'' [victimID, attackerID]), w)
      else if damage = 0 then (None, w)
      else if fmlookup (creatures w) victimID = None
      then (Some (Errorf ''record creature damage %q: victim not found'' [victimID]), w)
      else if fmlookup (creatures w) attackerID = None
      then (Some (Errorf ''record creature damage %q from %q: attacker not found'' [victimID, attackerID]), w)
      else
        let ledger = mget fmempty (monsterDamage w) victimID;
            ledger = fmupd attackerID (i64 (mget 0 ledger attackerID + damage)) ledger;
            w = w\<lparr>monsterDamage := fmupd victimID ledger (monsterDamage w)\<rparr>;
            name = (case fmlookup (creatures w) attackerID of
                      Some c \<Rightarrow> Creature_DisplayName c
                    | None \<Rightarrow> (case fmlookup (players w) attackerID of
                                Some p \<Rightarrow> Player_DisplayName p | None \<Rightarrow> attackerID));
            known = mget [] (enemies w) victimID;
            w = (if name \<noteq> [] \<and> name \<notin> set known
                 then w\<lparr>enemies := fmupd victimID (known @ [name]) (enemies w)\<rparr> else w)
        in (None,
            case fmlookup (creatures w) victimID of
              None \<Rightarrow> w
            | Some c \<Rightarrow>
                let tags = Meta_Tags (Creature_Metadata c)
                in if \<exists>tag \<in> set tags. equalFold tag ''was_attacked'' then w
                   else w\<lparr>creatures := fmupd victimID
                     (c\<lparr>Creature_Metadata := (Creature_Metadata c)\<lparr>Meta_Tags := tags @ [''was_attacked'']\<rparr>\<rparr>)
                     (creatures w)\<rparr>))"

subsection \<open>Rewards\<close>

record MonsterDeathRewardGroup =
  Reward_LeaderID :: CreatureID
  Reward_FollowerIDs :: "CreatureID list"

record FinalizeMonsterDeathOptions =
  Options_RewardGroup :: MonsterDeathRewardGroup

definition creatureIsPlayerRewardRecipient :: "World \<Rightarrow> Creature \<Rightarrow> bool" where
  "creatureIsPlayerRewardRecipient w creature =
     (if IsZero (Creature_PlayerID creature) then False
      else case fmlookup (players w) (Creature_PlayerID creature) of
        None \<Rightarrow> False
      | Some player \<Rightarrow>
          if Player_CreatureID player \<noteq> Creature_ID creature then False
          else Creature_Kind creature = CreatureKindPlayer \<or> \<not> IsZero (Creature_PlayerID creature))"

definition objectWeaponProficiencyStatKey :: "World \<Rightarrow> ObjectInstanceID \<Rightarrow> string option" where
  "objectWeaponProficiencyStatKey w objectID =
     (if IsZero objectID then None
      else case fmlookup (objects w) objectID of
        None \<Rightarrow> None
      | Some object \<Rightarrow>
          (case objectIntProperty w object ''type'' of
             None \<Rightarrow> None
           | Some weaponType \<Rightarrow>
               if weaponType < 0 \<or> int (length weaponProficiencyStatKeys) \<le> weaponType then None
               else Some (weaponProficiencyStatKeys ! nat weaponType)))"

text \<open>The loop over the other slots: a key found once is the key, found twice it is ambiguous.\<close>

fun sole_key :: "('a \<Rightarrow> string option) \<Rightarrow> string \<Rightarrow> 'a list \<Rightarrow> string option" where
  "sole_key f foundKey [] = (if foundKey \<noteq> [] then Some foundKey else None)"
| "sole_key f foundKey (objectID # rest) =
     (case f objectID of
        None \<Rightarrow> sole_key f foundKey rest
      | Some key \<Rightarrow> if foundKey \<noteq> [] then None else sole_key f key rest)"

definition equipment_in :: "(string fset \<Rightarrow> string list) \<Rightarrow> Creature \<Rightarrow> ObjectInstanceID list" where
  "equipment_in ord creature =
     map (mget [] (Creature_Equipment creature)) (ord (fmdom (Creature_Equipment creature)))"

definition creatureWeaponProficiencyStatKey ::
  "(string fset \<Rightarrow> string list) \<Rightarrow> World \<Rightarrow> Creature \<Rightarrow> string option" where
  "creatureWeaponProficiencyStatKey ord w creature =
     (if fmdom (Creature_Equipment creature) = {||} then None
      else case first_some (\<lambda>slot. objectWeaponProficiencyStatKey w (mget [] (Creature_Equipment creature) slot))
                  [''wield'', ''weapon'', ''mainHand'', ''right''] of
        Some key \<Rightarrow> Some key
      | None \<Rightarrow> sole_key (objectWeaponProficiencyStatKey w) [] (equipment_in ord creature))"

text \<open>The number of visible followers, and whether the recipient is one.\<close>

fun follower_count ::
  "World \<Rightarrow> CreatureID \<Rightarrow> CreatureID \<Rightarrow> CreatureID list \<Rightarrow> CreatureID list \<Rightarrow> int \<times> bool" where
  "follower_count w leader recipientID seen [] = (0, False)"
| "follower_count w leader recipientID seen (followerID # rest) =
     (if IsZero followerID \<or> followerID = leader then follower_count w leader recipientID seen rest
      else if followerID \<in> set seen then follower_count w leader recipientID seen rest
      else
        let (count, found) = follower_count w leader recipientID (followerID # seen) rest
        in (case fmlookup (creatures w) followerID of
              None \<Rightarrow> (count, found)
            | Some follower \<Rightarrow>
                if creatureHasDMInvisibleFlag follower then (count, found)
                else (count + 1, found \<or> followerID = recipientID)))"

definition monsterDeathGroupFollowerCount ::
  "World \<Rightarrow> MonsterDeathRewardGroup \<Rightarrow> CreatureID \<Rightarrow> int \<times> bool" where
  "monsterDeathGroupFollowerCount w rewardGroup recipientID =
     follower_count w (Reward_LeaderID rewardGroup) recipientID [] (Reward_FollowerIDs rewardGroup)"

definition monsterDeathGroupBonus ::
  "World \<Rightarrow> MonsterDeathRewardGroup \<Rightarrow> CreatureID \<Rightarrow> int \<Rightarrow> int \<Rightarrow> int" where
  "monsterDeathGroupBonus w rewardGroup recipientID monsterExp expGain =
     (if IsZero (Reward_LeaderID rewardGroup) \<or> IsZero recipientID \<or> expGain \<le> 0 \<or> expGain = monsterExp then 0
      else
        let (followerCount, recipientIsFollower) = monsterDeathGroupFollowerCount w rewardGroup recipientID
        in if followerCount \<le> 0 then 0
           else if recipientID = Reward_LeaderID rewardGroup then
             (if i64 (expGain + i64 ((expGain sdiv 2) * followerCount)) > i64 (monsterExp * 2) then expGain
              else i64 ((expGain sdiv 5) * (followerCount + 1)))
           else if recipientIsFollower then
             (if i64 (expGain + i64 ((expGain sdiv 3) * followerCount)) > i64 (monsterExp * 2) then expGain
              else i64 ((expGain sdiv 4) * followerCount))
           else 0)"

text \<open>The body of the loop over the ledger.\<close>

definition add_stat :: "string \<Rightarrow> int \<Rightarrow> Creature \<Rightarrow> Creature" where
  "add_stat key n c = c\<lparr>Creature_Stats := fmupd key (i64 (mget 0 (Creature_Stats c) key + n)) (Creature_Stats c)\<rparr>"

definition paid_attacker ::
  "(string fset \<Rightarrow> string list) \<Rightarrow> FinalizeMonsterDeathOptions \<Rightarrow> Creature \<Rightarrow> int \<Rightarrow> World \<Rightarrow> Creature \<Rightarrow> Creature" where
  "paid_attacker ord options monster damage w attacker =
     (let monsterExp = mget 0 (Creature_Stats monster) ''experience'';
          hpMax = mget 0 (Creature_Stats monster) ''hpMax'';
          hpMax = (if hpMax < 1 then 1 else hpMax);
          expGain = i64 (monsterExp * damage) sdiv hpMax;
          expGain = (if monsterExp < expGain then monsterExp else expGain)
      in if expGain > 0
         then
           let bonus = monsterDeathGroupBonus w (Options_RewardGroup options) (Creature_ID attacker) monsterExp expGain;
               paid = add_stat ''experience'' (i64 (expGain + bonus)) attacker
           in (case creatureWeaponProficiencyStatKey ord w paid of
                 None \<Rightarrow> paid
               | Some proficiencyKey \<Rightarrow> add_stat proficiencyKey expGain paid)
         else attacker)"

definition shift_alignment :: "Creature \<Rightarrow> Creature \<Rightarrow> Creature" where
  "shift_alignment monster attacker =
     (let monsterAlignment = mget 0 (Creature_Stats monster) ''alignment'';
          alignment = clampInt (i64 (mget 0 (Creature_Stats attacker) ''alignment'' - monsterAlignment sdiv 5)) (-1000) 1000
      in attacker\<lparr>Creature_Stats := fmupd ''alignment'' alignment (Creature_Stats attacker)\<rparr>)"

definition reward_attacker ::
  "(string fset \<Rightarrow> string list) \<Rightarrow> FinalizeMonsterDeathOptions \<Rightarrow> Creature \<Rightarrow> CreatureID \<Rightarrow> int \<Rightarrow> World \<Rightarrow> World" where
  "reward_attacker ord options monster attackerID damage w =
     (if damage \<le> 0 then w
      else case fmlookup (creatures w) attackerID of
        None \<Rightarrow> w
      | Some attacker \<Rightarrow>
          if \<not> creatureIsPlayerRewardRecipient w attacker then w
          else w\<lparr>creatures := fmupd attackerID
                 (shift_alignment monster (paid_attacker ord options monster damage w attacker)) (creatures w)\<rparr>)"

definition awardMonsterDeathRewards ::
  "(string fset \<Rightarrow> string list) \<Rightarrow> Creature \<Rightarrow> FinalizeMonsterDeathOptions \<Rightarrow> World \<Rightarrow> World" where
  "awardMonsterDeathRewards ord monster options w =
     (let ledger = mget fmempty (monsterDamage w) (Creature_ID monster)
      in foldl (\<lambda>w attackerID. reward_attacker ord options monster attackerID (mget 0 ledger attackerID) w)
           w (ord (fmdom ledger)))"

subsection \<open>The death of a monster\<close>

definition carriedCreatureObjectIDs :: "(string fset \<Rightarrow> string list) \<Rightarrow> Creature \<Rightarrow> ObjectInstanceID list" where
  "carriedCreatureObjectIDs ord creature =
     ObjectIDs (Creature_Inventory creature) @ equipment_in ord creature"

text \<open>The charm tags that name the dead creature go from every creature and player.\<close>

definition prune_creature :: "string list \<Rightarrow> CreatureID \<Rightarrow> World \<Rightarrow> World" where
  "prune_creature remove i w =
     (case fmlookup (creatures w) i of
        None \<Rightarrow> w
      | Some creature \<Rightarrow>
          let tags = Meta_Tags (Creature_Metadata creature); nextTags = removeMetadataTags tags remove
          in if nextTags = tags then w
             else markCreaturePlayerDirty creature
               (w\<lparr>creatures := fmupd i
                 (creature\<lparr>Creature_Metadata := (Creature_Metadata creature)\<lparr>Meta_Tags := nextTags\<rparr>\<rparr>)
                 (creatures w)\<rparr>))"

definition prune_player :: "string list \<Rightarrow> PlayerID \<Rightarrow> World \<Rightarrow> World" where
  "prune_player remove i w =
     (case fmlookup (players w) i of
        None \<Rightarrow> w
      | Some player \<Rightarrow>
          let tags = Meta_Tags (Player_Metadata player); nextTags = removeMetadataTags tags remove
          in if nextTags = tags then w
             else MarkPlayerDirty i
               (w\<lparr>players := fmupd i
                 (player\<lparr>Player_Metadata := (Player_Metadata player)\<lparr>Meta_Tags := nextTags\<rparr>\<rparr>)
                 (players w)\<rparr>))"

definition pruneCharmReferences :: "(string fset \<Rightarrow> string list) \<Rightarrow> Creature \<Rightarrow> World \<Rightarrow> World" where
  "pruneCharmReferences ord target w =
     (let remove = charmReferenceTags target
      in if remove = [] then w
         else
           let w = foldl (\<lambda>w i. prune_creature remove i w) w (ord (fmdom (creatures w)))
           in foldl (\<lambda>w i. prune_player remove i w) w (ord (fmdom (players w))))"

text \<open>The loop that drops what the monster carried.\<close>

fun drop_carried :: "CreatureID \<Rightarrow> RoomID \<Rightarrow> ObjectInstanceID list \<Rightarrow> ObjectInstanceID list \<Rightarrow> World \<Rightarrow> World" where
  "drop_carried creatureID roomID seenDrops [] w = w"
| "drop_carried creatureID roomID seenDrops (objectID # rest) w =
     (if IsZero objectID then drop_carried creatureID roomID seenDrops rest w
      else if objectID \<in> set seenDrops then drop_carried creatureID roomID seenDrops rest w
      else case fmlookup (objects w) objectID of
        None \<Rightarrow> drop_carried creatureID roomID (objectID # seenDrops) rest w
      | Some object \<Rightarrow>
          if Loc_CreatureID (Object_Location object) \<noteq> creatureID
          then drop_carried creatureID roomID (objectID # seenDrops) rest w
          else drop_carried creatureID roomID (objectID # seenDrops) rest
                 (relocate objectID object (roomLocation roomID) w))"

definition leave_behind :: "bool \<Rightarrow> CreatureID \<Rightarrow> RoomID \<Rightarrow> ObjectInstanceID list \<Rightarrow> World \<Rightarrow> World" where
  "leave_behind trader c r drops w =
     (if trader then foldl (\<lambda>w i. deleteObjectTree i w) w drops else drop_carried c r [] drops w)"

definition drop_gold :: "CreatureID \<Rightarrow> RoomID \<Rightarrow> int \<Rightarrow> World \<Rightarrow> (go_error option \<times> World)" where
  "drop_gold creatureID roomID gold w =
     (if 0 < gold then
        let moneyID = nextObjectCloneID w ''object:money'';
            w = ensurePrototype ''prototype:money'' ObjectKindMoney moneyName fmempty w;
            money = moneyObject moneyID roomID gold
        in (case ObjectInstance_Validate money of
              Some err \<Rightarrow> (Some (Wrapf ''finalize monster death %q: money object: %w'' [creatureID] err), w)
            | None \<Rightarrow> (None, put_object money w))
      else (None, w))"

definition remove_monster :: "(string fset \<Rightarrow> string list) \<Rightarrow> Creature \<Rightarrow> RoomID \<Rightarrow> World \<Rightarrow> World" where
  "remove_monster ord creature roomID w =
     (let room = mget zeroRoom (rooms w) roomID;
          room = room\<lparr>Room_CreatureIDs := removeID (Room_CreatureIDs room) (Creature_ID creature)\<rparr>;
          w = w\<lparr>rooms := fmupd (Room_ID room) room (rooms w),
                creatures := fmdrop (Creature_ID creature) (creatures w),
                monsterDamage := fmdrop (Creature_ID creature) (monsterDamage w)\<rparr>;
          w = pruneCharmReferences ord creature w
      in w\<lparr>enemies := fmmap (filter (\<lambda>n. n \<noteq> Creature_DisplayName creature))
             (fmdrop (Creature_ID creature) (enemies w))\<rparr>)"

definition bury_monster ::
  "(string fset \<Rightarrow> string list) \<Rightarrow> Creature \<Rightarrow> RoomID \<Rightarrow> bool \<Rightarrow> int \<Rightarrow> World \<Rightarrow> bool result \<times> World" where
  "bury_monster ord creature roomID itemsDroppedToFloor gold w =
     (let (err, w) = drop_gold (Creature_ID creature) roomID gold w
      in case err of
           Some err \<Rightarrow> (Inl err, w)
         | None \<Rightarrow>
             let w = (if itemsDroppedToFloor \<or> 0 < gold then MarkRoomObjectsDirty roomID w else w)
             in (Inr True, remove_monster ord creature roomID w))"

definition FinalizeMonsterDeathWithOptions ::
  "(string fset \<Rightarrow> string list) \<Rightarrow> CreatureID \<Rightarrow> FinalizeMonsterDeathOptions \<Rightarrow> World \<Rightarrow> bool result \<times> World" where
  "FinalizeMonsterDeathWithOptions ord creatureID options w =
     (if IsZero creatureID then (Inl (Errorf ''finalize monster death: creature id is required'' []), w)
      else case fmlookup (creatures w) creatureID of
        None \<Rightarrow> (Inl (Errorf ''finalize monster death %q: creature not found'' [creatureID]), w)
      | Some creature \<Rightarrow>
          if Creature_Kind creature = CreatureKindPlayer \<or> \<not> IsZero (Creature_PlayerID creature)
          then (Inl (Errorf ''finalize monster death %q: creature is a player'' [creatureID]), w)
          else if (case fmlookup (Creature_Stats creature) ''hpCurrent'' of None \<Rightarrow> False | Some hp \<Rightarrow> 0 < hp)
          then (Inr False, w)
          else if IsZero (Creature_RoomID creature)
          then (Inl (Errorf ''finalize monster death %q: creature has no room'' [creatureID]), w)
          else (case fmlookup (rooms w) (Creature_RoomID creature) of
             None \<Rightarrow> (Inl (Errorf ''finalize monster death %q: room %q not found''
                            [creatureID, Creature_RoomID creature]), w)
           | Some room \<Rightarrow>
               let w = awardMonsterDeathRewards ord creature options w;
                   drops = carriedCreatureObjectIDs ord creature;
                   isTradeItems = creatureHasAnyFlag creature [''tradeItems'', ''MTRADE''];
                   w = leave_behind isTradeItems (Creature_ID creature) (Room_ID room) drops w;
                   gold = mget 0 (Creature_Stats creature) ''gold''
               in bury_monster ord creature (Room_ID room) (\<not> isTradeItems \<and> drops \<noteq> []) gold w))"

definition FinalizeMonsterDeath ::
  "(string fset \<Rightarrow> string list) \<Rightarrow> CreatureID \<Rightarrow> World \<Rightarrow> bool result \<times> World" where
  "FinalizeMonsterDeath ord creatureID w =
     FinalizeMonsterDeathWithOptions ord creatureID
       \<lparr>Options_RewardGroup = \<lparr>Reward_LeaderID = [], Reward_FollowerIDs = []\<rparr>\<rparr> w"

definition leave_room :: "RoomID \<Rightarrow> CreatureID \<Rightarrow> World \<Rightarrow> World" where
  "leave_room roomID creatureID w =
     (if IsZero roomID then w
      else case fmlookup (rooms w) roomID of
        None \<Rightarrow> w
      | Some room \<Rightarrow>
          w\<lparr>rooms := fmupd roomID (room\<lparr>Room_CreatureIDs := removeID (Room_CreatureIDs room) creatureID\<rparr>) (rooms w)\<rparr>)"

definition DestroyCreature :: "(string fset \<Rightarrow> string list) \<Rightarrow> CreatureID \<Rightarrow> World \<Rightarrow> World" where
  "DestroyCreature ord creatureID w =
     (case fmlookup (creatures w) creatureID of
        None \<Rightarrow> w
      | Some creature \<Rightarrow>
          let w = foldl (\<lambda>w i. deleteObjectTree i w) w (carriedCreatureObjectIDs ord creature);
              w = leave_room (Creature_RoomID creature) creatureID w;
              w = pruneCharmReferences ord creature w
          in w\<lparr>creatures := fmdrop creatureID (creatures w), monsterDamage := fmdrop creatureID (monsterDamage w)\<rparr>)"

subsection \<open>Blows add up\<close>

text \<open>Two blows are one: damage \<open>a\<close> and then \<open>b\<close> leaves the creature, the world and the report
  of death as damage \<open>a + b\<close> does, and the damage taken is the sum; it never exceeds the hit points, and
  the creature is dead exactly when the damage reaches them.\<close>

theorem Damage_composes:
  assumes "fmlookup (creatures w) c = Some m" and "Creature_ID m = c" and "c \<noteq> []"
    and "fmlookup (Creature_Stats m) ''hpCurrent'' = Some hp" and "0 \<le> a" and "0 \<le> b"
  shows "\<exists>m1 x w1 m2 y w2. ApplyCreatureDamage c a w = (Inr (m1, x, hp \<le> a), w1)
     \<and> ApplyCreatureDamage c b w1 = (Inr (m2, y, hp \<le> a + b), w2)
     \<and> ApplyCreatureDamage c (a + b) w = (Inr (m2, x + y, hp \<le> a + b), w2)
     \<and> 0 \<le> x \<and> 0 \<le> y \<and> x + y \<le> max 0 hp"
proof -
  have run: "ApplyCreatureDamage c d v =
      (Inr (m'\<lparr>Creature_Stats := fmupd ''hpCurrent'' (max 0 h - min d (max 0 h)) (Creature_Stats m')\<rparr>,
            min d (max 0 h), h \<le> d),
       markCreaturePlayerDirty m' (v\<lparr>creatures := fmupd c
         (m'\<lparr>Creature_Stats := fmupd ''hpCurrent'' (max 0 h - min d (max 0 h)) (Creature_Stats m')\<rparr>) (creatures v)\<rparr>))"
    if "fmlookup (creatures v) c = Some m'" "Creature_ID m' = c" "0 \<le> d"
      and "fmlookup (Creature_Stats m') ''hpCurrent'' = Some h" for d v m' h
    using that assms(3) unfolding ApplyCreatureDamage_def Let_def
    by (auto simp: markCreaturePlayerDirty_def min_def max_def)
  let ?h = "max 0 hp - min a (max 0 hp)"
  let ?m = "m\<lparr>Creature_Stats := fmupd ''hpCurrent'' ?h (Creature_Stats m)\<rparr>"
  have twice: "MarkPlayerDirty p ((MarkPlayerDirty p (v\<lparr>creatures := x\<rparr>))\<lparr>creatures := y\<rparr>) = MarkPlayerDirty p (v\<lparr>creatures := y\<rparr>)"
    for p v x y
    by (simp add: MarkPlayerDirty_def)
  have e: "?h - min b ?h = max 0 hp - min (a + b) (max 0 hp)" "max 0 ?h = ?h"
    "min a (max 0 hp) + min b ?h = min (a + b) (max 0 hp)" "?h \<le> b \<longleftrightarrow> hp \<le> a + b"
    using assms(5,6) by linarith+
  have "ApplyCreatureDamage c b (markCreaturePlayerDirty m (w\<lparr>creatures := fmupd c ?m (creatures w)\<rparr>)) =
      (Inr (m\<lparr>Creature_Stats := fmupd ''hpCurrent'' (max 0 hp - min (a + b) (max 0 hp)) (Creature_Stats m)\<rparr>,
          min b ?h, hp \<le> a + b),
       markCreaturePlayerDirty m (w\<lparr>creatures := fmupd c
         (m\<lparr>Creature_Stats := fmupd ''hpCurrent'' (max 0 hp - min (a + b) (max 0 hp)) (Creature_Stats m)\<rparr>) (creatures w)\<rparr>))"
    using assms by (subst run [of _ ?m _ ?h]) (simp_all only: e, simp_all add: markCreaturePlayerDirty_eq twice)
  then show ?thesis
    using run [OF assms(1,2,5,4)] run [OF assms(1,2) _ assms(4), of "a + b"] assms(5,6) e(3)
    by (intro exI conjI) (assumption | simp | linarith)+
qed

subsection \<open>What a death leaves untouched\<close>

lemma foldl_preserves: "P w \<Longrightarrow> (\<And>w x. x \<in> set xs \<Longrightarrow> P w \<Longrightarrow> P (f w x)) \<Longrightarrow> P (foldl f w xs)"
  by (induction xs arbitrary: w) simp_all

text \<open>Rewards and the removal of charms change stats and tags: no list of objects, no location.\<close>

definition same_holdings :: "World \<Rightarrow> World \<Rightarrow> bool" where
  "same_holdings w w' \<longleftrightarrow>
     objects w' = objects w \<and> rooms w' = rooms w \<and> banks w' = banks w \<and> prototypes w' = prototypes w
     \<and> (\<forall>i. map_option Creature_Inventory (fmlookup (creatures w') i)
            = map_option Creature_Inventory (fmlookup (creatures w) i))"

lemma same_holdings_refl [simp]: "same_holdings w w"
  by (simp add: same_holdings_def)

lemma same_holdings_trans: "same_holdings u v \<Longrightarrow> same_holdings v w \<Longrightarrow> same_holdings u w"
  by (simp add: same_holdings_def)

lemma same_holdings_refs: "same_holdings w w' \<Longrightarrow> refs w' h = refs w h"
proof (cases h)
  case (OnCreature c)
  assume "same_holdings w w'"
  then have "map_option Creature_Inventory (fmlookup (creatures w') c) = map_option Creature_Inventory (fmlookup (creatures w) c)"
    unfolding same_holdings_def by blast
  with OnCreature show ?thesis
    by (cases "fmlookup (creatures w) c"; cases "fmlookup (creatures w') c") (simp_all add: refs_def)
qed (simp_all add: refs_def same_holdings_def)

lemma same_holdings_well_held:
  assumes "same_holdings w w'"
  shows "well_held w' = well_held w" and "where_is w' = where_is w"
proof -
  have "refs w' h = refs w h" for h
    using assms by (rule same_holdings_refs)
  moreover have "map_option Object_Location (fmlookup (objects w') i) = map_option Object_Location (fmlookup (objects w) i)" for i
    using assms by (simp add: same_holdings_def)
  ultimately show "well_held w' = well_held w" and "where_is w' = where_is w"
    by (rule well_held_frame)+
qed

lemma same_holdings_creature: "same_holdings w w' \<Longrightarrow> fmlookup (creatures w') i = None \<longleftrightarrow> fmlookup (creatures w) i = None"
  unfolding same_holdings_def by (metis option.map_disc_iff)

lemma same_holdings_put:
  "fmlookup (creatures w) i = Some c \<Longrightarrow> Creature_Inventory c' = Creature_Inventory c
     \<Longrightarrow> same_holdings w (w\<lparr>creatures := fmupd i c' (creatures w)\<rparr>)"
  by (simp add: same_holdings_def)

lemma same_holdings_mark: "same_holdings w (MarkPlayerDirty p w)"
  by (simp add: same_holdings_def)

lemma add_stat_fields [simp]:
  "Creature_Inventory (add_stat k n c) = Creature_Inventory c" "Creature_PlayerID (add_stat k n c) = Creature_PlayerID c"
  "Creature_Equipment (add_stat k n c) = Creature_Equipment c" "Creature_ID (add_stat k n c) = Creature_ID c"
  by (simp_all add: add_stat_def)

lemma paid_attacker_inventory [simp]:
  "Creature_Inventory (paid_attacker ord options m d w a) = Creature_Inventory a"
  by (simp add: paid_attacker_def Let_def split: option.split)

lemma shift_alignment_inventory [simp]: "Creature_Inventory (shift_alignment m a) = Creature_Inventory a"
  by (simp add: shift_alignment_def Let_def)

lemma reward_attacker_holdings: "same_holdings w (reward_attacker ord options m i d w)"
  by (simp add: reward_attacker_def same_holdings_put split: option.split)

lemma reward_holdings: "same_holdings w (awardMonsterDeathRewards ord m options w)"
  unfolding awardMonsterDeathRewards_def Let_def
  by (rule foldl_preserves) (simp, erule same_holdings_trans, rule reward_attacker_holdings)

lemma prune_creature_holdings: "same_holdings w (prune_creature remove i w)"
proof (cases "fmlookup (creatures w) i")
  case (Some c)
  let ?c = "c\<lparr>Creature_Metadata := (Creature_Metadata c)\<lparr>Meta_Tags := removeMetadataTags (Meta_Tags (Creature_Metadata c)) remove\<rparr>\<rparr>"
  have "same_holdings w (MarkPlayerDirty (Creature_PlayerID c) (w\<lparr>creatures := fmupd i ?c (creatures w)\<rparr>))"
    using Some by (intro same_holdings_trans [OF same_holdings_put same_holdings_mark]) simp_all
  with Some show ?thesis
    by (simp add: prune_creature_def Let_def markCreaturePlayerDirty_eq)
qed (simp add: prune_creature_def)

lemma prune_player_holdings: "same_holdings w (prune_player remove i w)"
  by (simp add: prune_player_def Let_def same_holdings_def split: option.split)

lemma prune_holdings: "same_holdings w (pruneCharmReferences ord m w)"
proof -
  have c: "same_holdings w (foldl (\<lambda>v i. prune_creature remove i v) w is)" for remove "is"
    by (rule foldl_preserves) (simp, erule same_holdings_trans, rule prune_creature_holdings)
  have p: "same_holdings v (foldl (\<lambda>v i. prune_player remove i v) v is)" for remove "is" v
    by (rule foldl_preserves) (simp, erule same_holdings_trans, rule prune_player_holdings)
  show ?thesis
    by (cases "charmReferenceTags m = []") (simp_all add: pruneCharmReferences_def Let_def same_holdings_trans [OF c p])
qed

lemma prune_creature_exists:
  "fmlookup (creatures (pruneCharmReferences ord m w)) i = None \<longleftrightarrow> fmlookup (creatures w) i = None"
  by (rule same_holdings_creature) (rule prune_holdings)

lemma roomLocation_simps [simp]:
  "Loc_CreatureID (roomLocation r) = []" "Loc_ContainerID (roomLocation r) = []" "Loc_RoomID (roomLocation r) = r"
  by (simp_all add: location_defs)

subsection \<open>Moving objects changes only who holds what\<close>

definition room_outline :: "Room \<Rightarrow> Room" where
  "room_outline r = r\<lparr>Room_Objects := \<lparr>ObjectIDs = []\<rparr>\<rparr>"

definition creature_outline :: "Creature \<Rightarrow> Creature" where
  "creature_outline c = c\<lparr>Creature_Inventory := \<lparr>ObjectIDs = []\<rparr>, Creature_Equipment := fmempty\<rparr>"

definition same_outline :: "World \<Rightarrow> World \<Rightarrow> bool" where
  "same_outline w w' \<longleftrightarrow>
     (\<forall>r. map_option room_outline (fmlookup (rooms w') r) = map_option room_outline (fmlookup (rooms w) r))
     \<and> (\<forall>c. map_option creature_outline (fmlookup (creatures w') c) = map_option creature_outline (fmlookup (creatures w) c))
     \<and> players w' = players w"

lemma same_outline_refl [simp]: "same_outline w w"
  by (simp add: same_outline_def)

lemma same_outline_trans: "same_outline u v \<Longrightarrow> same_outline v w \<Longrightarrow> same_outline u w"
  by (simp add: same_outline_def)

lemma same_outline_cong:
  "rooms w' = rooms w \<Longrightarrow> creatures w' = creatures w \<Longrightarrow> players w' = players w \<Longrightarrow> same_outline w w'"
  by (simp add: same_outline_def)

lemma same_outline_remove: "same_outline w (removeObjectFromHolder i l w)"
  by (auto simp: same_outline_def removeObjectFromHolder_def room_outline_def creature_outline_def split: option.split)

lemma same_outline_add: "holder_exists w (holderOf l) \<Longrightarrow> same_outline w (addObjectToHolder i l w)"
  by (auto simp: same_outline_def addObjectToHolder_def room_outline_def creature_outline_def holder_exists_def holderOf_def
      mget_def Let_def split: option.splits if_splits)

lemma same_outline_relocate: "holder_exists w (holderOf l) \<Longrightarrow> same_outline w (relocate i p l w)"
proof -
  let ?w1 = "removeObjectFromHolder i (Object_Location p) w"
  let ?w2 = "?w1\<lparr>objects := fmupd i (p\<lparr>Object_Location := l\<rparr>) (objects ?w1)\<rparr>"
  assume "holder_exists w (holderOf l)"
  then have "holder_exists ?w2 (holderOf l)"
    using holder_exists_remove [of i "Object_Location p" w "holderOf l"]
    by (cases "holderOf l") (auto simp: holder_exists_def simp del: holder_exists_remove)
  then have "same_outline ?w2 (relocate i p l w)"
    by (simp add: relocate_def Let_def same_outline_add)
  moreover have "same_outline ?w1 ?w2"
    by (rule same_outline_cong) simp_all
  ultimately show ?thesis
    by (blast intro: same_outline_trans same_outline_remove)
qed

lemma same_outline_drop: "same_outline w (drop_object i l w)"
  by (rule same_outline_trans [OF same_outline_remove [of w i l]]) (simp add: drop_object_def Let_def same_outline_cong)

lemma same_outline_put: "holder_exists w (holderOf (Object_Location p)) \<Longrightarrow> same_outline w (put_object p w)"
proof -
  let ?w = "w\<lparr>objects := fmupd (Object_ID p) p (objects w)\<rparr>"
  assume "holder_exists w (holderOf (Object_Location p))"
  then have "holder_exists ?w (holderOf (Object_Location p))"
    by (cases "holderOf (Object_Location p)") (auto simp: holder_exists_def)
  then have "same_outline ?w (put_object p w)"
    by (simp add: put_object_def same_outline_add)
  moreover have "same_outline w ?w"
    by (rule same_outline_cong) simp_all
  ultimately show ?thesis
    by (rule same_outline_trans [rotated])
qed

lemma mark_location_players: "players (mark_location l seen w) = players w"
proof (induction l seen w rule: mark_location.induct)
  case (1 l seen w)
  then show ?case
    by (subst mark_location.simps) (auto split: option.splits)
qed

lemma same_outline_mark: "same_outline w (markObjectLocationDirty l w)"
  by (rule same_outline_cong) (simp_all add: markObjectLocationDirty_def mark_location_players mark_location_frame)

lemma same_outline_delete_tree:
  "delete_tree n i seen w = Some (s, v) \<Longrightarrow> same_outline w v"
  "delete_children n is seen w = Some (s, v) \<Longrightarrow> same_outline w v"
proof (induction n i seen w and n "is" seen w arbitrary: s v and s v rule: delete_tree_delete_children.induct)
  case (2 fuel i seen w)
  then show ?case
    by (fastforce split: if_split_asm option.split_asm prod.split_asm
        intro: same_outline_trans [OF same_outline_trans [OF same_outline_mark] same_outline_drop])
next
  case (4 fuel i "is" seen w)
  from "4.prems" obtain s' u where "delete_tree fuel i seen w = Some (s', u)"
    and "delete_children fuel is s' u = Some (s, v)"
    by (auto split: option.splits)
  with "4.IH" show ?case
    by (blast intro: same_outline_trans)
qed auto

lemma same_outline_deleteObjectTree: "same_outline w (deleteObjectTree i w)"
proof -
  obtain s where "delete_tree (Suc (card (fmdom' (objects w)) + 0)) i [] w = Some (s, deleteObjectTree i w)"
    using deleteObjectTree_run by blast
  then show ?thesis by (rule same_outline_delete_tree(1))
qed

lemma same_outline_room:
  assumes "same_outline w w'" and "fmlookup (rooms w) r = Some room"
  shows "\<exists>room'. fmlookup (rooms w') r = Some room' \<and> room_outline room' = room_outline room"
proof -
  have "map_option room_outline (fmlookup (rooms w') r) = map_option room_outline (fmlookup (rooms w) r)"
    using assms(1) unfolding same_outline_def by blast
  with assms(2) show ?thesis by auto
qed

lemma room_outline_fields:
  "room_outline a = room_outline b \<Longrightarrow> Room_ID a = Room_ID b \<and> Room_CreatureIDs a = Room_CreatureIDs b
     \<and> Room_PlayerIDs a = Room_PlayerIDs b \<and> Room_Exits a = Room_Exits b \<and> Room_Properties a = Room_Properties b"
  by (cases a; cases b; simp add: room_outline_def)

lemma same_outline_drop_carried:
  assumes "r \<noteq> []" and "fmlookup (rooms w) r \<noteq> None"
  shows "same_outline w (drop_carried c r seen is w)"
  using assms(2)
proof (induction "is" arbitrary: w seen)
  case (Cons i "is")
  have r: "same_outline w (relocate i p (roomLocation r) w)" for p
    using Cons.prems assms(1) by (intro same_outline_relocate) (simp add: holder_exists_def)
  have "same_outline (relocate i p (roomLocation r) w) (drop_carried c r s is (relocate i p (roomLocation r) w))" for p s
    using same_outline_room [OF r] Cons.prems by (intro Cons.IH) fastforce
  then have "same_outline w (drop_carried c r s is (relocate i p (roomLocation r) w))" for p s
    using r same_outline_trans by blast
  with Cons show ?case
    by (simp split: option.split)
qed simp

subsection \<open>Where the belongings go\<close>

lemma relocate_to_room:
  assumes "well_held w" and "fmlookup (objects w) i = Some p" and "i \<noteq> []" and "r \<noteq> []"
    and "fmlookup (rooms w) r \<noteq> None"
  shows "well_held (relocate i p (roomLocation r) w)"
    and "where_is (relocate i p (roomLocation r) w) = (where_is w)(i \<mapsto> InRoom r)"
proof -
  have d: "validateObjectDestination w i (roomLocation r) = None"
    using assms by (simp add: validateObjectDestination_def)
  note m = well_held_relocate [OF assms(1,2,3) ObjectLocation_Validate_location(1) [OF assms(4)] d]
  show "well_held (relocate i p (roomLocation r) w)" by (rule m(1))
  show "where_is (relocate i p (roomLocation r) w) = (where_is w)(i \<mapsto> InRoom r)"
    using m(2) assms(4) by simp
qed

lemma drop_carried_moves:
  assumes "well_held w" and "c \<noteq> []" and "r \<noteq> []" and "fmlookup (rooms w) r \<noteq> None"
    and "\<And>i. i \<in> set seen \<Longrightarrow> where_is w i \<noteq> Some (OnCreature c)"
  shows "well_held (drop_carried c r seen is w)
     \<and> where_is (drop_carried c r seen is w)
       = (\<lambda>i. if i \<in> set is \<and> i \<noteq> [] \<and> where_is w i = Some (OnCreature c) then Some (InRoom r) else where_is w i)"
  using assms
proof (induction "is" arbitrary: w seen)
  case (Cons i "is")
  show ?case
  proof (cases "i = [] \<or> i \<in> set seen \<or> where_is w i \<noteq> Some (OnCreature c)")
    case True
    define seen' where "seen' = (if i = [] \<or> i \<in> set seen then seen else i # seen)"
    have e: "drop_carried c r seen (i # is) w = drop_carried c r seen' is w"
      using True Cons.prems(1,2) by (auto simp: seen'_def where_is_creature split: option.split)
    have "where_is w j \<noteq> Some (OnCreature c)" if "j \<in> set seen'" for j
      using that True Cons.prems(5) by (auto simp: seen'_def split: if_splits)
    with e Cons.IH [of w seen'] Cons.prems True show ?thesis
      by (auto simp: fun_eq_iff)
  next
    case False
    then obtain p where p: "fmlookup (objects w) i = Some p" "holderOf (Object_Location p) = OnCreature c"
      by (auto simp: where_is_def)
    then have l: "Loc_CreatureID (Object_Location p) = c"
      using ObjectLocation_creature well_held_location Cons.prems(1) by blast
    let ?v = "relocate i p (roomLocation r) w"
    note m = relocate_to_room [OF Cons.prems(1) p(1) _ Cons.prems(3,4)]
    have "fmlookup (rooms ?v) r \<noteq> None"
      using Cons.prems(3) by (simp add: relocate_def Let_def addObjectToHolder_def)
    then have "well_held (drop_carried c r (i # seen) is ?v)
       \<and> where_is (drop_carried c r (i # seen) is ?v)
       = (\<lambda>i. if i \<in> set is \<and> i \<noteq> [] \<and> where_is ?v i = Some (OnCreature c) then Some (InRoom r) else where_is ?v i)"
      using Cons.prems m False by (intro Cons.IH) auto
    with m False p l show ?thesis
      by (auto simp: fun_eq_iff)
  qed
qed (simp_all add: fun_eq_iff)

text \<open>A trader's goods are deleted with their contents.  Two things on a creature are not inside each other.\<close>

lemma missing_inside: "well_held w \<Longrightarrow> loc w i = None \<Longrightarrow> inside w j i \<Longrightarrow> j = i"
  using inside_last [of w j i] well_held_no_children(2) [of w i] by (auto simp: loc_None)

lemma carried_apart:
  assumes "where_is w x = Some (OnCreature c)" and "where_is w y = Some (OnCreature c)" and "well_held w" and "x \<noteq> y"
    and "inside w j x"
  shows "\<not> inside w j y"
proof
  assume "inside w j y"
  with assms(5) have "inside w x y \<or> inside w y x" by (rule inside_linear)
  moreover have "container_of w x = None" "container_of w y = None"
    using assms(1-3) well_held_container [OF assms(3)] by (auto simp: option.the_def intro: ccontr split: option.splits)
  ultimately show False
    using assms(4) by (auto elim: inside.cases)
qed

lemma delete_carried:
  assumes "well_held w" and "fmlookup (objects w) [] = None"
    and "\<And>i. i \<in> set is \<Longrightarrow> where_is w i = None \<or> where_is w i = Some (OnCreature c)"
  shows "removed_trees is w (foldl (\<lambda>w i. deleteObjectTree i w) w is)"
  using assms
proof (induction "is" arbitrary: w)
  case (Cons i "is")
  let ?u = "deleteObjectTree i w"
  show ?case
  proof (cases "loc w i")
    case None
    then have "?u = w"
      by (simp add: deleteObjectTree_def loc_None)
    with Cons.IH [of w] Cons.prems missing_inside [OF Cons.prems(1) None] None show ?thesis
      by (auto simp: removed_trees_def)
  next
    case (Some l)
    then have r: "removed_tree i w ?u"
      using Cons.prems by (intro deleteObjectTree_removes) (simp_all add: loc_None [symmetric])
    then have u: "well_held ?u" and lu: "loc ?u j = (if inside w j i then None else loc w j)" for j
      by (simp_all add: removed_tree_def)
    have ci: "where_is w i = Some (OnCreature c)"
      using Cons.prems(3) [of i] Some by (simp add: where_is_loc)
    have same: "inside ?u j x = inside w j x" if "x \<in> set is" "where_is w x = Some (OnCreature c)" "x \<noteq> i" for x j
      using carried_apart [OF that(2) ci Cons.prems(1) that(3)] by (intro inside_after [OF lu]) auto
    have gone: "j = x" if "loc ?u x = None" "inside ?u j x" for x j
      using missing_inside [OF u that] .
    have "removed_trees is ?u (foldl (\<lambda>w i. deleteObjectTree i w) ?u is)"
      using Cons.prems u lu by (intro Cons.IH) (auto simp: where_is_loc loc_None [symmetric] split: if_splits)
    then have v: "well_held (foldl (\<lambda>w i. deleteObjectTree i w) ?u is)"
      and lv: "loc (foldl (\<lambda>w i. deleteObjectTree i w) ?u is) j
        = (if \<exists>x \<in> set is. inside ?u j x then None else loc ?u j)" for j
      by (simp_all add: removed_trees_def)
    have "(if \<exists>x \<in> set is. inside ?u j x then None else loc ?u j)
        = (if \<exists>x \<in> set (i # is). inside w j x then None else loc w j)" for j
    proof (cases "inside w j i \<or> loc w j = None")
      case False
      have "inside ?u j x = inside w j x" if "x \<in> set is" for x
      proof (cases "where_is w x = Some (OnCreature c) \<and> x \<noteq> i")
        case True
        with that same show ?thesis by simp
      next
        case nx: False
        then have "loc ?u x = None" and "inside w j x \<Longrightarrow> j = x"
          using Cons.prems(3) [of x] that lu [of x] missing_inside [OF Cons.prems(1), of x j] False
          by (auto simp: where_is_loc inside_refl)
        with gone [of x j] False lu [of j] show ?thesis
          by (auto intro: inside_refl)
      qed
      with False lu show ?thesis by auto
    qed (auto simp: lu)
    with v lv show ?thesis
      by (simp add: removed_trees_def)
  qed
qed (simp add: removed_trees_def)

text \<open>Where each object is after the monster \<open>c\<close> has died in room \<open>r\<close>, its gold aside.\<close>

definition after_death :: "bool \<Rightarrow> CreatureID \<Rightarrow> RoomID \<Rightarrow> World \<Rightarrow> ObjectInstanceID \<Rightarrow> Holder option" where
  "after_death trader c r w i =
     (if trader then (if \<exists>x. where_is w x = Some (OnCreature c) \<and> inside w i x then None else where_is w i)
      else if where_is w i = Some (OnCreature c) then Some (InRoom r) else where_is w i)"

lemma drop_gold_effect:
  assumes "well_held w" and "r \<noteq> []" and "fmlookup (rooms w) r \<noteq> None" and "0 < gold"
  shows "\<exists>k v. drop_gold c r gold w = (None, v) \<and> well_held v \<and> where_is w k = None
     \<and> where_is v = (where_is w)(k \<mapsto> InRoom r) \<and> fmlookup (objects v) k = Some (moneyObject k r gold)
     \<and> same_outline w v"
proof -
  let ?k = "nextObjectCloneID w ''object:money''"
  let ?u = "ensurePrototype ''prototype:money'' ObjectKindMoney moneyName fmempty w"
  have k: "?k \<noteq> []"
    by (rule nextObjectCloneID_nonempty)
  have fresh: "fmlookup (objects ?u) (Object_ID (moneyObject ?k r gold)) = None"
    by (simp add: nextObjectCloneID_fresh)
  have ex: "holder_exists ?u (holderOf (Object_Location (moneyObject ?k r gold)))"
    using assms(2,3) by (simp add: holder_exists_def)
  have "well_held (put_object (moneyObject ?k r gold) ?u)"
    using assms(1,2) fresh ex by (intro well_held_put) simp_all
  moreover have "where_is (put_object (moneyObject ?k r gold) ?u) = (where_is w)(?k \<mapsto> InRoom r)"
    using put_object_where_is [OF ex] assms(2) by (simp add: fun_eq_iff where_is_def)
  moreover have "fmlookup (objects (put_object (moneyObject ?k r gold) ?u)) ?k = Some (moneyObject ?k r gold)"
    using assms(2) by (simp add: put_object_def lookup_add_objects)
  moreover have "where_is w ?k = None"
    by (simp add: where_is_def nextObjectCloneID_fresh)
  moreover have "same_outline w (put_object (moneyObject ?k r gold) ?u)"
    by (rule same_outline_trans [OF same_outline_cong same_outline_put [OF ex]]) simp_all
  moreover have "drop_gold c r gold w = (None, put_object (moneyObject ?k r gold) ?u)"
    using assms(2,4) k by (simp add: drop_gold_def Let_def moneyObject_valid)
  ultimately show ?thesis by blast
qed

lemma remove_monster_holdings:
  assumes "well_held w" and "refs w (OnCreature (Creature_ID m)) = []" and "fmlookup (rooms w) r = Some room"
    and "Room_ID room = r"
  shows "well_held (remove_monster ord m r w)" and "where_is (remove_monster ord m r w) = where_is w"
    and "objects (remove_monster ord m r w) = objects w" and "prototypes (remove_monster ord m r w) = prototypes w"
    and "fmlookup (creatures (remove_monster ord m r w)) (Creature_ID m) = None"
proof -
  define u where "u = w\<lparr>rooms := fmupd r (room\<lparr>Room_CreatureIDs := removeID (Room_CreatureIDs room) (Creature_ID m)\<rparr>) (rooms w),
     creatures := fmdrop (Creature_ID m) (creatures w), monsterDamage := fmdrop (Creature_ID m) (monsterDamage w)\<rparr>"
  define v where "v = pruneCharmReferences ord m u"
  have e: "remove_monster ord m r w = v\<lparr>enemies := fmmap (filter (\<lambda>n. n \<noteq> Creature_DisplayName m))
      (fmdrop (Creature_ID m) (enemies v))\<rparr>"
    using assms(3,4) by (simp add: remove_monster_def Let_def v_def u_def mget_def)
  have uv: "same_holdings u v"
    unfolding v_def by (rule prune_holdings)
  have "refs u h = refs w h" for h
    using assms by (cases h) (auto simp: u_def refs_def)
  then have u: "well_held u = well_held w" "where_is u = where_is w"
    by (rule well_held_frame; simp add: u_def)+
  have "same_holdings u (remove_monster ord m r w)"
    using uv by (simp add: e same_holdings_def)
  note f = this same_holdings_well_held [OF this]
  show "well_held (remove_monster ord m r w)" "where_is (remove_monster ord m r w) = where_is w"
    using f u assms(1) by simp_all
  show "objects (remove_monster ord m r w) = objects w" "prototypes (remove_monster ord m r w) = prototypes w"
    using f(1) by (simp_all add: same_holdings_def u_def)
  show "fmlookup (creatures (remove_monster ord m r w)) (Creature_ID m) = None"
    using same_holdings_creature [OF f(1)] by (simp add: u_def)
qed

lemma same_outline_leave_behind:
  "r \<noteq> [] \<Longrightarrow> fmlookup (rooms w) r \<noteq> None \<Longrightarrow> same_outline w (leave_behind trader c r drops w)"
proof (cases trader)
  case True
  have "same_outline w (foldl (\<lambda>w i. deleteObjectTree i w) w drops)"
    by (rule foldl_preserves) (simp, erule same_outline_trans, rule same_outline_deleteObjectTree)
  with True show ?thesis by (simp add: leave_behind_def)
qed (simp add: leave_behind_def same_outline_drop_carried)

lemma leave_behind_moves:
  assumes "well_held w" and "fmlookup (objects w) [] = None" and "c \<noteq> []"
    and room: "trader \<or> r \<noteq> [] \<and> fmlookup (rooms w) r \<noteq> None" and drops: "set drops = set (refs w (OnCreature c))"
  shows "well_held (leave_behind trader c r drops w) \<and> where_is (leave_behind trader c r drops w) = after_death trader c r w"
proof -
  have on: "i \<in> set drops \<longleftrightarrow> where_is w i = Some (OnCreature c)" for i
    using holders_agree_iff [OF well_heldD(1) [OF assms(1)]] drops by simp
  show ?thesis
  proof (cases trader)
    case True
    have "removed_trees drops w (foldl (\<lambda>w i. deleteObjectTree i w) w drops)"
      using assms(1,2) on by (intro delete_carried) simp_all
    then have d: "well_held (foldl (\<lambda>w i. deleteObjectTree i w) w drops)"
      and l: "loc (foldl (\<lambda>w i. deleteObjectTree i w) w drops) j = (if \<exists>x \<in> set drops. inside w j x then None else loc w j)" for j
      by (simp_all add: removed_trees_def)
    have "where_is (foldl (\<lambda>w i. deleteObjectTree i w) w drops) j = after_death True c r w j" for j
      unfolding where_is_loc [of _ j] l after_death_def on [symmetric] by auto
    with d True show ?thesis
      by (simp add: leave_behind_def fun_eq_iff)
  next
    case False
    have "i \<noteq> []" if "i \<in> set drops" for i
      using that on [of i] assms(2) by (auto simp: where_is_def)
    then have "(i \<in> set drops \<and> i \<noteq> [] \<and> where_is w i = Some (OnCreature c)) = (where_is w i = Some (OnCreature c))" for i
      using on by blast
    with False room drop_carried_moves [OF assms(1,3), of r "[]" drops] show ?thesis
      by (simp add: leave_behind_def after_death_def fun_eq_iff)
  qed
qed

lemma after_death_cong:
  assumes "objects w' = objects w"
  shows "after_death t c r w' = after_death t c r w"
proof
  fix i
  have "container_of w' x = container_of w x" and "where_is w' x = where_is w x" for x
    using assms by (rule container_of_cong, rule where_is_cong)
  then show "after_death t c r w' i = after_death t c r w i"
    by (auto simp: after_death_def inside_cong_container [of w' w])
qed

lemma after_death_nothing: "after_death t c r w i \<noteq> Some (OnCreature c)"
  by (auto simp: after_death_def intro: inside_refl)

lemma bury_monster_effect:
  assumes "well_held v" and "Creature_ID m = c" and "\<And>i. where_is v i \<noteq> Some (OnCreature c)" and "r \<noteq> []"
    and "fmlookup (rooms v) r = Some room" and "Room_ID room = r" and "in_i64 gold"
  shows "\<exists>w'. bury_monster ord m r dropped gold v = (Inr True, w') \<and> well_held w'
     \<and> fmlookup (creatures w') c = None
     \<and> (if gold \<le> 0 then where_is w' = where_is v
        else \<exists>k. where_is v k = None \<and> where_is w' = (where_is v)(k \<mapsto> InRoom r) \<and> objectValue w' k = gold)"
proof -
  have ends: "well_held (remove_monster ord m r x') \<and> where_is (remove_monster ord m r x') = where_is x
      \<and> objects (remove_monster ord m r x') = objects x \<and> prototypes (remove_monster ord m r x') = prototypes x
      \<and> fmlookup (creatures (remove_monster ord m r x')) c = None"
    if x': "x' = (if b then MarkRoomObjectsDirty r x else x)" and wh: "well_held x" and none: "\<And>i. where_is x i \<noteq> Some (OnCreature c)"
      and room: "fmlookup (rooms x) r = Some room'" "Room_ID room' = r" for x x' b room'
  proof -
    have w': "well_held x'" "where_is x' = where_is x" "rooms x' = rooms x" "objects x' = objects x"
      "prototypes x' = prototypes x"
      using wh by (simp_all add: x' where_is_MarkRoom)
    have "refs x' (OnCreature c) = []"
      using holders_agree_iff [OF well_heldD(1) [OF w'(1)], of _ "OnCreature c"] none w'(2)
      by (metis list.set_intros(1) neq_Nil_conv)
    with remove_monster_holdings [OF w'(1), of m r room' ord] assms(2) room w' show ?thesis
      by simp
  qed
  show ?thesis
  proof (cases "0 < gold")
    case False
    with ends [OF refl assms(1,3,5,6), of dropped] show ?thesis
      by (simp add: bury_monster_def drop_gold_def)
  next
    case True
    then obtain k x where d: "drop_gold c r gold v = (None, x)" and x: "well_held x" "where_is v k = None"
      "where_is x = (where_is v)(k \<mapsto> InRoom r)" "fmlookup (objects x) k = Some (moneyObject k r gold)" "same_outline v x"
      using drop_gold_effect [OF assms(1,4) _ True, of c] assms(5) by blast
    obtain room' where room': "fmlookup (rooms x) r = Some room'" "Room_ID room' = r"
      using same_outline_room [OF x(5) assms(5)] room_outline_fields assms(6) by metis
    have "where_is x i \<noteq> Some (OnCreature c)" for i
      using x(3) assms(3) by simp
    note e = ends [OF refl x(1) this room', of True]
    have "objectValue (remove_monster ord m r (MarkRoomObjectsDirty r x)) k = gold"
      using e x(4) assms(7) by (simp add: objectValue_lookup valueProperty_def moneyObject_value)
    with e True d x assms(2) show ?thesis
      by (simp add: bury_monster_def) blast
  qed
qed

text \<open>What the death does to the objects: what the monster carried lies in its room (or, for a trader, is deleted with its
  contents), its gold is one new money object of that value there, no other object moves, and the ownership invariant is
  kept.  The steps are those of the operation up to the removal of the monster.\<close>

lemma Death_holdings:
  assumes wh: "well_held w" and "fmlookup (objects w) [] = None" and "c \<noteq> []"
    and m: "fmlookup (creatures w) c = Some m" and "Creature_ID m = c" and "Creature_Kind m \<noteq> CreatureKindPlayer"
    and "Creature_PlayerID m = []" and "Creature_RoomID m = r" and "r \<noteq> []"
    and hp: "case fmlookup (Creature_Stats m) ''hpCurrent'' of None \<Rightarrow> True | Some hp \<Rightarrow> hp \<le> 0"
    and room: "fmlookup (rooms w) r = Some room" and "Room_ID room = r"
    and worn: "set (equipment_in ord m) \<subseteq> set (ObjectIDs (Creature_Inventory m))"
    and gold: "mget 0 (Creature_Stats m) ''gold'' = gold" and "in_i64 gold"
  shows "\<exists>w'. FinalizeMonsterDeathWithOptions ord c options w = (Inr True, w') \<and> well_held w'
     \<and> fmlookup (creatures w') c = None
     \<and> (let after = after_death (creatureHasAnyFlag m [''tradeItems'', ''MTRADE'']) c r w in
        if gold \<le> 0 then where_is w' = after
        else \<exists>k. after k = None \<and> where_is w' = after(k \<mapsto> InRoom r) \<and> objectValue w' k = gold)"
proof -
  define trader where "trader = creatureHasAnyFlag m [''tradeItems'', ''MTRADE'']"
  define u where "u = awardMonsterDeathRewards ord m options w"
  define drops where "drops = carriedCreatureObjectIDs ord m"
  define v where "v = leave_behind trader c r drops u"
  have uw: "same_holdings w u"
    unfolding u_def by (rule reward_holdings)
  have u: "well_held u" "objects u = objects w" "rooms u = rooms w"
    using same_holdings_well_held(1) [OF uw] wh uw by (simp_all add: same_holdings_def)
  have drops: "set drops = set (refs u (OnCreature c))"
    using worn m by (auto simp: drops_def carriedCreatureObjectIDs_def same_holdings_refs [OF uw]) (auto simp: refs_def)
  have v: "well_held v" "where_is v = after_death trader c r w"
    using leave_behind_moves [OF u(1) _ \<open>c \<noteq> []\<close> _ drops, of trader r] room assms(2) \<open>r \<noteq> []\<close> after_death_cong [OF u(2)]
    unfolding v_def using u by simp_all
  have "same_outline u v"
    unfolding v_def using room assms(9) u(3) by (intro same_outline_leave_behind) simp_all
  then obtain room1 where room1: "fmlookup (rooms v) r = Some room1" "Room_ID room1 = r"
    using same_outline_room [of u v r room] u(3) room room_outline_fields assms(12) by metis
  have "FinalizeMonsterDeathWithOptions ord c options w = bury_monster ord m r (\<not> trader \<and> drops \<noteq> []) gold v"
    using assms(3-13) gold hp
    by (simp add: FinalizeMonsterDeathWithOptions_def Let_def trader_def [symmetric] u_def [symmetric] drops_def [symmetric]
        v_def [symmetric] split: option.splits)
  then show ?thesis
    using bury_monster_effect [OF v(1) assms(5) _ assms(9) room1 assms(15), of ord "\<not> trader \<and> drops \<noteq> []"]
      after_death_nothing [of trader c r w]
    unfolding Let_def trader_def [symmetric] v(2) by simp
qed

lemma well_held_leave_room:
  "well_held (leave_room r c w) = well_held w" "where_is (leave_room r c w) = where_is w"
  "refs (leave_room r c w) h = refs w h" "objects (leave_room r c w) = objects w"
  "creatures (leave_room r c w) = creatures w"
proof -
  have r: "refs (leave_room r c w) h = refs w h" for h
    by (cases h) (auto simp: leave_room_def refs_def split: option.split)
  show o: "objects (leave_room r c w) = objects w" and "creatures (leave_room r c w) = creatures w"
    by (simp_all add: leave_room_def split: option.split)
  show "well_held (leave_room r c w) = well_held w" "where_is (leave_room r c w) = where_is w"
    by (rule well_held_frame; simp add: r o)+
  show "refs (leave_room r c w) h = refs w h"
    by (rule r)
qed

lemma DestroyCreature_effect:
  assumes wh: "well_held w" and "fmlookup (objects w) [] = None" and "c \<noteq> []"
    and m: "fmlookup (creatures w) c = Some m"
    and worn: "set (equipment_in ord m) \<subseteq> set (ObjectIDs (Creature_Inventory m))"
  shows "well_held (DestroyCreature ord c w) \<and> fmlookup (creatures (DestroyCreature ord c w)) c = None
     \<and> where_is (DestroyCreature ord c w)
       = (\<lambda>i. if \<exists>x. where_is w x = Some (OnCreature c) \<and> inside w i x then None else where_is w i)"
proof -
  let ?drops = "carriedCreatureObjectIDs ord m"
  define u where "u = leave_behind True c [] ?drops w"
  define v where "v = pruneCharmReferences ord m (leave_room (Creature_RoomID m) c u)"
  have e: "DestroyCreature ord c w = v\<lparr>creatures := fmdrop c (creatures v), monsterDamage := fmdrop c (monsterDamage v)\<rparr>"
    using m by (simp add: DestroyCreature_def Let_def v_def u_def leave_behind_def)
  have "set ?drops = set (refs w (OnCreature c))"
    using worn m by (auto simp: carriedCreatureObjectIDs_def refs_def)
  then have u: "well_held u" "where_is u = after_death True c [] w"
    using leave_behind_moves [OF assms(1-3), of True "[]" ?drops] by (simp_all add: u_def)
  have "same_holdings (leave_room (Creature_RoomID m) c u) v"
    unfolding v_def by (rule prune_holdings)
  note h = this same_holdings_well_held [OF this, unfolded well_held_leave_room]
  have "refs v (OnCreature c) = []"
    using holders_agree_iff [OF well_heldD(1), of v _ "OnCreature c"] h u after_death_nothing [of True c "[]" w]
    by (metis list.set_intros(1) neq_Nil_conv)
  then have "refs (DestroyCreature ord c w) k = refs v k" for k
    unfolding e by (cases k) (auto simp: refs_def)
  then have "well_held (DestroyCreature ord c w) = well_held v" "where_is (DestroyCreature ord c w) = where_is v"
    by (rule well_held_frame; simp add: e)+
  with h u show ?thesis
    by (simp add: e after_death_def fun_eq_iff)
qed

text \<open>Destroying a creature deletes it with everything it carries, at any depth, and nothing else:
  every other object stays where it is, and the ownership invariant is kept.\<close>

theorem DestroyCreature_removes:
  assumes wh: "well_held w" and "fmlookup (objects w) [] = None" and "c \<noteq> []"
    and m: "fmlookup (creatures w) c = Some m"
    and worn: "set (equipment_in ord m) \<subseteq> set (ObjectIDs (Creature_Inventory m))"
  shows "well_held (DestroyCreature ord c w) \<and> fmlookup (creatures (DestroyCreature ord c w)) c = None
     \<and> where_is (DestroyCreature ord c w)
       = (\<lambda>i. if \<exists>x. where_is w x = Some (OnCreature c) \<and> inside w i x then None else where_is w i)"
  using assms by (rule DestroyCreature_effect)

end
