(* ===== verification/Rewards.thy ===== *)
theory Rewards
  imports Damage "HOL-Library.Multiset"
begin

text \<open>
  The rewards for a dead monster (\<^verbatim>\<open>creature.go\<close> \<^verbatim>\<open>awardMonsterDeathRewardsLocked\<close>).  The source pays
  the attackers in the order in which Go ranges over the damage ledger, and finds the weapon of an
  attacker by a range over the equipment.  Neither order matters: a payment reads nothing that another
  payment changes.
\<close>

subsection \<open>What a payment changes\<close>

definition paid_stats :: "string list" where
  "paid_stats = [''experience'', ''alignment''] @ weaponProficiencyStatKeys"

lemma paid_stats_no_flag: "k \<in> set paid_stats \<Longrightarrow> normalizeFlagName k \<notin> set (normalizedFlagSet [''PDMINV'', ''dmInvisible''])"
proof -
  have "list_all (\<lambda>k. normalizeFlagName k \<notin> set (normalizedFlagSet [''PDMINV'', ''dmInvisible''])) paid_stats"
    by code_simp
  then show "k \<in> set paid_stats \<Longrightarrow> ?thesis"
    by (simp add: list_all_iff)
qed

lemma mex_upd_other: "(\<And>v. \<not> P k v) \<Longrightarrow> mex P (fmupd k v m) = mex P m"
  unfolding mex_iff fmupd_lookup by (metis option.inject)

lemma dm_flag_stat:
  assumes "k \<in> set paid_stats"
  shows "creatureHasDMInvisibleFlag (c\<lparr>Creature_Stats := fmupd k v (Creature_Stats c)\<rparr>) = creatureHasDMInvisibleFlag c"
  using paid_stats_no_flag [OF assms]
  by (simp add: creatureHasDMInvisibleFlag_def creatureHasAnyFlag_def Let_def mex_upd_other)

lemma dm_flag_add_stat: "k \<in> set paid_stats \<Longrightarrow> creatureHasDMInvisibleFlag (add_stat k n c) = creatureHasDMInvisibleFlag c"
  by (simp add: add_stat_def dm_flag_stat)

lemma objectWeaponProficiencyStatKey_in:
  "objectWeaponProficiencyStatKey w i = Some k \<Longrightarrow> k \<in> set weaponProficiencyStatKeys"
  by (auto simp: objectWeaponProficiencyStatKey_def split: if_splits option.splits intro!: nth_mem)

lemma sole_key_in: "sole_key f found xs = Some k \<Longrightarrow> k = found \<and> found \<noteq> [] \<or> (\<exists>x \<in> set xs. f x = Some k)"
  by (induction xs arbitrary: found) (auto split: if_splits option.splits)

lemma creatureWeaponProficiencyStatKey_in:
  "creatureWeaponProficiencyStatKey ord w c = Some k \<Longrightarrow> k \<in> set weaponProficiencyStatKeys"
  unfolding creatureWeaponProficiencyStatKey_def
  by (auto split: if_splits option.splits dest!: sole_key_in first_some_Some dest: objectWeaponProficiencyStatKey_in)

subsection \<open>One payment\<close>

text \<open>The record that the payment to \<open>i\<close> stores, when it stores one.\<close>

definition payment ::
  "(string fset \<Rightarrow> string list) \<Rightarrow> FinalizeMonsterDeathOptions \<Rightarrow> Creature \<Rightarrow> CreatureID \<Rightarrow> int \<Rightarrow> World \<Rightarrow> Creature option" where
  "payment ord options monster i d w =
     (case fmlookup (creatures w) i of
        None \<Rightarrow> None
      | Some a \<Rightarrow> if d \<le> 0 \<or> \<not> creatureIsPlayerRewardRecipient w a then None
                else Some (shift_alignment monster (paid_attacker ord options monster d w a)))"

lemma reward_attacker_payment:
  "reward_attacker ord options monster i d w =
     (case payment ord options monster i d w of None \<Rightarrow> w | Some a \<Rightarrow> w\<lparr>creatures := fmupd i a (creatures w)\<rparr>)"
  by (simp add: reward_attacker_def payment_def split: option.split)

text \<open>A world in which other creatures were paid: the same things, players and flags.\<close>

definition same_view :: "CreatureID \<Rightarrow> World \<Rightarrow> World \<Rightarrow> bool" where
  "same_view i w w' \<longleftrightarrow> objects w' = objects w \<and> prototypes w' = prototypes w \<and> players w' = players w
     \<and> fmlookup (creatures w') i = fmlookup (creatures w) i
     \<and> (\<forall>j. map_option creatureHasDMInvisibleFlag (fmlookup (creatures w') j)
            = map_option creatureHasDMInvisibleFlag (fmlookup (creatures w) j))"

lemma follower_count_view:
  assumes "same_view i w w'"
  shows "follower_count w' l r seen fs = follower_count w l r seen fs"
proof (induction fs arbitrary: seen)
  case (Cons f fs)
  have "map_option creatureHasDMInvisibleFlag (fmlookup (creatures w') f)
      = map_option creatureHasDMInvisibleFlag (fmlookup (creatures w) f)"
    using assms unfolding same_view_def by blast
  with Cons.IH show ?case
    by (cases "fmlookup (creatures w) f"; cases "fmlookup (creatures w') f") (simp_all add: Let_def)
qed simp

lemma weapon_key_view:
  assumes "same_view i w w'"
  shows "creatureWeaponProficiencyStatKey ord w' c = creatureWeaponProficiencyStatKey ord w c"
proof -
  have "objectIntProperty w' p k = objectIntProperty w p k" for p k
    using assms by (intro objectIntProperty_cong) (simp add: same_view_def)
  then have "objectWeaponProficiencyStatKey w' = objectWeaponProficiencyStatKey w"
    using assms by (auto simp: fun_eq_iff same_view_def objectWeaponProficiencyStatKey_def split: option.split)
  then show ?thesis
    by (simp only: creatureWeaponProficiencyStatKey_def)
qed

lemma payment_view:
  assumes "same_view i w w'"
  shows "payment ord options m i d w' = payment ord options m i d w"
proof -
  have "monsterDeathGroupBonus w' g r e x = monsterDeathGroupBonus w g r e x" for g r e x
    by (simp add: monsterDeathGroupBonus_def monsterDeathGroupFollowerCount_def follower_count_view [OF assms])
  then have "paid_attacker ord options m d w' a = paid_attacker ord options m d w a" for a
    by (simp add: paid_attacker_def Let_def weapon_key_view [OF assms])
  moreover have "creatureIsPlayerRewardRecipient w' a = creatureIsPlayerRewardRecipient w a" for a
    using assms by (simp add: creatureIsPlayerRewardRecipient_def same_view_def)
  moreover have "fmlookup (creatures w') i = fmlookup (creatures w) i"
    using assms by (simp add: same_view_def)
  ultimately show ?thesis
    by (simp add: payment_def split: option.split)
qed

lemma dm_flag_payment:
  assumes "fmlookup (creatures w) i = Some a" and "payment ord options m i d w = Some a'"
  shows "creatureHasDMInvisibleFlag a' = creatureHasDMInvisibleFlag a"
proof -
  have "creatureHasDMInvisibleFlag (shift_alignment m c) = creatureHasDMInvisibleFlag c" for c
    by (simp add: shift_alignment_def Let_def dm_flag_stat paid_stats_def)
  moreover have "creatureHasDMInvisibleFlag (paid_attacker ord options m d w c) = creatureHasDMInvisibleFlag c" for c
    by (auto simp: paid_attacker_def Let_def dm_flag_add_stat paid_stats_def split: option.split
        dest!: creatureWeaponProficiencyStatKey_in)
  ultimately show ?thesis
    using assms by (auto simp: payment_def split: if_splits)
qed

lemma payment_exists: "payment ord options m i d w = Some a' \<Longrightarrow> \<exists>a. fmlookup (creatures w) i = Some a"
  by (auto simp: payment_def split: option.splits)

lemma reward_view: "i \<noteq> j \<Longrightarrow> same_view i w (reward_attacker ord options m j d w)"
proof (cases "payment ord options m j d w")
  case (Some a')
  assume "i \<noteq> j"
  with Some payment_exists [OF Some] dm_flag_payment [OF _ Some] show ?thesis
    by (auto simp: reward_attacker_payment same_view_def)
qed (simp add: reward_attacker_payment same_view_def)

lemma reward_commute:
  assumes "i \<noteq> j"
  shows "reward_attacker ord options m i d (reward_attacker ord options m j e w)
       = reward_attacker ord options m j e (reward_attacker ord options m i d w)"
proof -
  have p: "payment ord options m i d (reward_attacker ord options m j e w) = payment ord options m i d w"
    and q: "payment ord options m j e (reward_attacker ord options m i d w) = payment ord options m j e w"
    using payment_view reward_view assms by metis+
  have swap: "fmupd i x (fmupd j y c) = fmupd j y (fmupd i x c)" for x y and c :: "(CreatureID, Creature) fmap"
    using assms by (rule fmupd_reorder_neq)
  show ?thesis
    using p q
    by (cases "payment ord options m i d w"; cases "payment ord options m j e w")
       (simp_all add: reward_attacker_payment [of ord options m i d] reward_attacker_payment [of ord options m j e] swap)
qed

subsection \<open>The order of the payments\<close>

lemma mset_key_order: "key_order ord \<Longrightarrow> key_order ord' \<Longrightarrow> mset (ord S) = mset (ord' S)"
  by (metis distinct_key_order set_eq_iff_mset_eq_distinct set_key_order)

text \<open>A key that occurs once is found in every order.\<close>

lemma sole_key_filter:
  assumes "\<And>x k. f x = Some k \<Longrightarrow> k \<noteq> []"
  shows "sole_key f found xs =
     (let hits = filter (\<lambda>x. f x \<noteq> None) xs
      in if found \<noteq> [] then if hits = [] then Some found else None
         else if length hits = 1 then f (hd hits) else None)"
proof (induction xs arbitrary: found)
  case (Cons x xs)
  then show ?case
    using assms by (cases "f x") (auto simp: Let_def)
qed (simp add: Let_def)

lemma sole_key_order:
  assumes "mset xs = mset ys" and "\<And>x k. f x = Some k \<Longrightarrow> k \<noteq> []"
  shows "sole_key f [] xs = sole_key f [] ys"
proof -
  have e: "mset (filter (\<lambda>x. f x \<noteq> None) xs) = mset (filter (\<lambda>x. f x \<noteq> None) ys)"
    using assms(1) by (simp add: mset_filter)
  then have "length (filter (\<lambda>x. f x \<noteq> None) xs) = length (filter (\<lambda>x. f x \<noteq> None) ys)"
    by (rule mset_eq_length)
  moreover have "hd (filter (\<lambda>x. f x \<noteq> None) xs) = hd (filter (\<lambda>x. f x \<noteq> None) ys)"
    if "length (filter (\<lambda>x. f x \<noteq> None) xs) = 1"
  proof -
    from that obtain x where x: "filter (\<lambda>x. f x \<noteq> None) xs = [x]"
      by (auto simp: length_Suc_conv)
    with e have "mset (filter (\<lambda>x. f x \<noteq> None) ys) = mset [x]"
      by metis
    then have "filter (\<lambda>x. f x \<noteq> None) ys = [x]"
      by (simp only: mset.simps mset_single_iff)
    with x show ?thesis by simp
  qed
  moreover have "sole_key f [] zs = (if length (filter (\<lambda>x. f x \<noteq> None) zs) = 1
      then f (hd (filter (\<lambda>x. f x \<noteq> None) zs)) else None)" for zs
    using sole_key_filter [of f "[]" zs] assms(2) by (simp add: Let_def)
  ultimately show ?thesis
    by simp
qed

lemma weapon_key_order:
  assumes "key_order ord" and "key_order ord'"
  shows "creatureWeaponProficiencyStatKey ord w c = creatureWeaponProficiencyStatKey ord' w c"
proof -
  have "mset (equipment_in ord c) = mset (equipment_in ord' c)"
    using mset_key_order [OF assms] by (simp add: equipment_in_def)
  moreover have "k \<noteq> []" if "objectWeaponProficiencyStatKey w i = Some k" for i k
    using objectWeaponProficiencyStatKey_in [OF that] by (auto simp: weaponProficiencyStatKeys_def)
  ultimately have "sole_key (objectWeaponProficiencyStatKey w) [] (equipment_in ord c)
      = sole_key (objectWeaponProficiencyStatKey w) [] (equipment_in ord' c)"
    by (rule sole_key_order)
  then show ?thesis
    by (simp only: creatureWeaponProficiencyStatKey_def)
qed

text \<open>The rewards for a dead monster do not depend on the order in which the damage ledger and
  the equipment of the attackers are ranged over: every order pays every attacker the same.\<close>

theorem Rewards_order_free:
  assumes "key_order ord" and "key_order ord'"
  shows "awardMonsterDeathRewards ord m options w = awardMonsterDeathRewards ord' m options w"
proof -
  let ?l = "mget fmempty (monsterDamage w) (Creature_ID m)"
  have "paid_attacker ord options m d v a = paid_attacker ord' options m d v a" for d v a
    by (simp add: paid_attacker_def Let_def weapon_key_order [OF assms])
  then have one: "reward_attacker ord options m i d v = reward_attacker ord' options m i d v" for i d v
    by (simp add: reward_attacker_def split: option.split)
  have "fold (\<lambda>i v. reward_attacker ord' options m i (mget 0 ?l i) v) (ord (fmdom ?l)) w
      = fold (\<lambda>i v. reward_attacker ord' options m i (mget 0 ?l i) v) (ord' (fmdom ?l)) w"
    by (rule fold_permuted_eq [where P = "\<lambda>_. True"])
       (simp_all add: mset_key_order [OF assms], metis reward_commute)
  then show ?thesis
    by (simp add: awardMonsterDeathRewards_def Let_def foldl_conv_fold one)
qed

subsection \<open>The size of a payment\<close>

lemma sdiv_pos: "0 \<le> e \<Longrightarrow> 0 < k \<Longrightarrow> e sdiv k = e div (k::int)"
  by (cases "e = 0") (simp_all add: signed_divide_int_def)

lemma sdiv_bounds: "0 \<le> e \<Longrightarrow> 0 < k \<Longrightarrow> 0 \<le> e sdiv k \<and> e sdiv k \<le> (e::int)"
  using zdiv_mono2 [of e 1 k] by (simp add: sdiv_pos pos_imp_zdiv_nonneg_iff)

lemma follower_count_bounds: "0 \<le> fst (follower_count w l r seen fs) \<and> fst (follower_count w l r seen fs) \<le> int (length fs)"
proof (induction fs arbitrary: seen)
  case (Cons f fs)
  from Cons [of seen] Cons [of "f # seen"] show ?case
    by (auto simp: Let_def split: prod.split option.split)
qed simp

lemma group_bonus_bounds:
  assumes "0 \<le> e" and "e \<le> x" and "x < 2 ^ 31" and "length (Reward_FollowerIDs g) < 2 ^ 31"
  shows "0 \<le> monsterDeathGroupBonus w g r x e \<and> monsterDeathGroupBonus w g r x e \<le> 2 * x"
proof -
  obtain n found where f: "monsterDeathGroupFollowerCount w g r = (n, found)"
    by fastforce
  then have n: "0 \<le> n" "n < 2 ^ 31"
    using follower_count_bounds [of w "Reward_LeaderID g" r "[]" "Reward_FollowerIDs g"] assms(4)
    by (simp_all add: monsterDeathGroupFollowerCount_def)
  have s: "0 \<le> (e sdiv k) * m \<and> (e sdiv k) * m \<le> e * m \<and> (e sdiv k) * m \<le> 2 ^ 31 * 2 ^ 31" if "0 < k" "0 \<le> m" "m \<le> 2 ^ 31" for k m
    using sdiv_bounds [OF assms(1) that(1)] that assms(2,3) mult_mono [of "e sdiv k" "2 ^ 31" m "2 ^ 31"]
    by (auto intro!: mult_nonneg_nonneg mult_right_mono)
  have i: "i64 (e + (e sdiv k) * m) = e + (e sdiv k) * m" "i64 ((e sdiv k) * m) = (e sdiv k) * m"
    if "0 < k" "0 \<le> m" "m \<le> 2 ^ 31" for k m
    using s [OF that] assms by (simp_all add: i64_id in_i64_def)
  have x2: "i64 (x * 2) = x * 2"
    using assms by (intro i64_id) (simp add: in_i64_def)
  have le: "(e sdiv k) * m \<le> (e sdiv l) * n + e" if "0 < l" "l < k" "m \<le> n + 1" "0 \<le> m" for k l m
  proof -
    have "(e sdiv k) * m \<le> (e sdiv k) * (n + 1)"
      using that sdiv_bounds [OF assms(1), of k] by (intro mult_left_mono) auto
    also have "\<dots> \<le> (e sdiv k) * n + e"
      using that sdiv_bounds [OF assms(1), of k] by (simp add: algebra_simps)
    also have "(e sdiv k) * n \<le> (e sdiv l) * n"
      using that n(1) assms(1) zdiv_mono2 [of e l k] by (intro mult_right_mono) (simp_all add: sdiv_pos)
    finally show ?thesis by simp
  qed
  show ?thesis
    using assms n s [of 5 "n + 1"] s [of 4 n] le [of 2 5 "n + 1"] le [of 3 4 n]
    by (auto simp: monsterDeathGroupBonus_def f i x2 not_less)
qed

text \<open>A payment is in proportion and bounded: with numbers below two to the 31st, an attacker
  gains no experience at all or at most three times that of the monster, whatever the group, and never
  loses any; the alignment of an attacker who is paid stays between -1000 and 1000.\<close>

theorem Reward_bounded:
  assumes a: "fmlookup (creatures w) i = Some a" and "creatureIsPlayerRewardRecipient w a"
    and x: "mget 0 (Creature_Stats m) ''experience'' = x" "0 \<le> x" "x < 2 ^ 31"
    and d: "0 < d" "d < 2 ^ 31"
    and "length (Reward_FollowerIDs (Options_RewardGroup options)) < 2 ^ 31"
    and e: "mget 0 (Creature_Stats a) ''experience'' = e" "0 \<le> e" "e < 2 ^ 62"
  shows "\<exists>a'. fmlookup (creatures (reward_attacker ord options m i d w)) i = Some a'
     \<and> e \<le> mget 0 (Creature_Stats a') ''experience'' \<and> mget 0 (Creature_Stats a') ''experience'' \<le> e + 3 * x
     \<and> - 1000 \<le> mget 0 (Creature_Stats a') ''alignment'' \<and> mget 0 (Creature_Stats a') ''alignment'' \<le> 1000"
proof -
  let ?p = "paid_attacker ord options m d w a"
  have keep: "mget 0 (Creature_Stats (add_stat k n c)) ''experience'' = mget 0 (Creature_Stats c) ''experience''"
    if "k \<in> set weaponProficiencyStatKeys" for k n c
    using that by (auto simp: add_stat_def weaponProficiencyStatKeys_def)
  have "e \<le> mget 0 (Creature_Stats ?p) ''experience'' \<and> mget 0 (Creature_Stats ?p) ''experience'' \<le> e + 3 * x"
  proof -
    define hp where "hp = (let hp = mget 0 (Creature_Stats m) ''hpMax'' in if hp < 1 then 1 else hp)"
    define g where "g = (let g = i64 (x * d) sdiv hp in if x < g then x else g)"
    let ?b = "monsterDeathGroupBonus w (Options_RewardGroup options) (Creature_ID a) x g"
    let ?paid = "add_stat ''experience'' (i64 (g + ?b)) a"
    have "x * d \<le> 2 ^ 31 * 2 ^ 31" and "0 \<le> x * d"
      using x d mult_mono [of x "2 ^ 31" d "2 ^ 31"] by simp_all
    then have "i64 (x * d) = x * d"
      by (intro i64_id) (simp add: in_i64_def)
    moreover have "0 < hp"
      by (simp add: hp_def Let_def)
    ultimately have g: "0 \<le> g" "g \<le> x"
      using sdiv_bounds [of "x * d" hp] \<open>0 \<le> x * d\<close> x(2) by (auto simp: g_def Let_def)
    note b = group_bonus_bounds [OF g x(3) assms(8), of w "Creature_ID a"]
    then have "i64 (e + i64 (g + ?b)) = e + (g + ?b)"
      using g x e by (simp add: i64_id in_i64_def)
    then have "mget 0 (Creature_Stats ?paid) ''experience'' = e + (g + ?b)"
      using e(1) by (simp add: add_stat_def)
    moreover have "mget 0 (Creature_Stats ?p) ''experience'' = mget 0 (Creature_Stats (if 0 < g then ?paid else a)) ''experience''"
      by (auto simp: paid_attacker_def Let_def x(1) g_def hp_def keep split: option.split dest!: creatureWeaponProficiencyStatKey_in)
    ultimately show ?thesis
      using b g e(1) x(2) by simp
  qed
  moreover have "mget 0 (Creature_Stats (shift_alignment m ?p)) ''experience'' = mget 0 (Creature_Stats ?p) ''experience''"
    and "- 1000 \<le> mget 0 (Creature_Stats (shift_alignment m ?p)) ''alignment''"
    and "mget 0 (Creature_Stats (shift_alignment m ?p)) ''alignment'' \<le> 1000"
    by (simp_all add: shift_alignment_def Let_def clampInt_def)
  ultimately show ?thesis
    using assms(1,2) d(1) by (simp add: reward_attacker_def)
qed

subsection \<open>Witnesses\<close>

definition demoOrc :: Creature where
  "demoOrc = zeroCreature\<lparr>Creature_ID := ''m1'', Creature_Kind := CreatureKindMonster, Creature_DisplayName := ''orc'',
     Creature_RoomID := ''r1'',
     Creature_Stats := fmap_of_list [(''hpCurrent'', 0), (''hpMax'', 40), (''experience'', 900), (''alignment'', -100), (''gold'', 30)]\<rparr>"

definition demoHero :: Creature where
  "demoHero = zeroCreature\<lparr>Creature_ID := ''c9'', Creature_Kind := CreatureKindPlayer, Creature_DisplayName := ''Ann'',
     Creature_PlayerID := ''p9'', Creature_RoomID := ''r1'', Creature_Stats := fmap_of_list [(''hpCurrent'', 25), (''experience'', 100)]\<rparr>"

definition demoArena :: World where
  "demoArena = emptyWorld
     \<lparr>rooms := fmap_of_list [(''r1'', zeroRoom\<lparr>Room_ID := ''r1'', Room_CreatureIDs := [''c9'', ''m1'']\<rparr>)],
      players := fmap_of_list
        [(''p9'', \<lparr>Player_ID = ''p9'', Player_DisplayName = ''Ann'', Player_CreatureID = ''c9'', Player_RoomID = ''r1'',
            Player_AccountName = ''ann'', Player_Metadata = noMetadata\<rparr>)],
      creatures := fmap_of_list [(''c9'', demoHero), (''m1'', demoOrc)],
      monsterDamage := fmap_of_list [(''m1'', fmap_of_list [(''c9'', 12)])]\<rparr>"

definition demoClub :: ObjectInstance where
  "demoClub = zeroObject\<lparr>Object_ID := ''club'', Object_DisplayNameOverride := ''club'', Object_Quantity := 1,
     Object_Location := inventoryLocation ''m1''\<rparr>"

definition demoBattle :: World where
  "demoBattle = put_object demoClub demoArena"

lemma well_held_demoArena: "well_held demoArena"
proof (rule well_held_no_objects)
  show "objects demoArena = fmempty"
    by (simp add: demoArena_def emptyWorld_def)
  show "refs demoArena h = []" for h
    by (cases h) (auto simp: refs_def demoArena_def emptyWorld_def fmlookup_of_list zeroRoom_def zeroCreature_def
        demoHero_def demoOrc_def split: option.splits if_splits)
qed

lemma well_held_demoBattle: "well_held demoBattle"
  unfolding demoBattle_def by (rule well_held_put [OF well_held_demoArena]; code_simp)

theorem Damage_composes_witness:
  "\<exists>m1 x w1 m2 y w2. ApplyCreatureDamage ''c9'' 10 demoBattle = (Inr (m1, x, False), w1)
     \<and> ApplyCreatureDamage ''c9'' 20 w1 = (Inr (m2, y, True), w2)
     \<and> ApplyCreatureDamage ''c9'' 30 demoBattle = (Inr (m2, x + y, True), w2) \<and> 0 \<le> x \<and> 0 \<le> y \<and> x + y \<le> 25"
proof -
  have "fmlookup (creatures demoBattle) ''c9'' = Some demoHero" and "Creature_ID demoHero = ''c9''"
    and "fmlookup (Creature_Stats demoHero) ''hpCurrent'' = Some 25"
    by code_simp+
  from Damage_composes [OF this(1,2) _ this(3), of 10 20] show ?thesis by simp
qed

lemma key_order_rev: "key_order ord \<Longrightarrow> key_order (\<lambda>S. rev (ord S))"
  by (simp add: key_order_def)

theorem Rewards_order_free_witness:
  "awardMonsterDeathRewards sorted_list_of_fset demoOrc \<lparr>Options_RewardGroup = \<lparr>Reward_LeaderID = [], Reward_FollowerIDs = []\<rparr>\<rparr> demoBattle
   = awardMonsterDeathRewards (\<lambda>S. rev (sorted_list_of_fset S)) demoOrc
       \<lparr>Options_RewardGroup = \<lparr>Reward_LeaderID = [], Reward_FollowerIDs = []\<rparr>\<rparr> demoBattle"
  by (rule Rewards_order_free [OF key_order_sorted key_order_rev [OF key_order_sorted]])

theorem Reward_bounded_witness:
  "\<exists>a'. fmlookup (creatures (reward_attacker sorted_list_of_fset
         \<lparr>Options_RewardGroup = \<lparr>Reward_LeaderID = [], Reward_FollowerIDs = []\<rparr>\<rparr> demoOrc ''c9'' 12 demoBattle)) ''c9'' = Some a'
     \<and> 100 \<le> mget 0 (Creature_Stats a') ''experience'' \<and> mget 0 (Creature_Stats a') ''experience'' \<le> 100 + 3 * 900"
proof -
  have "fmlookup (creatures demoBattle) ''c9'' = Some demoHero" and "creatureIsPlayerRewardRecipient demoBattle demoHero"
    and "mget 0 (Creature_Stats demoOrc) ''experience'' = 900" and "mget 0 (Creature_Stats demoHero) ''experience'' = 100"
    by code_simp+
  from Reward_bounded [OF this(1,2,3) _ _ _ _ _ this(4), of 12
      "\<lparr>Options_RewardGroup = \<lparr>Reward_LeaderID = [], Reward_FollowerIDs = []\<rparr>\<rparr>" sorted_list_of_fset]
  show ?thesis by simp blast
qed

theorem DestroyCreature_removes_witness:
  "where_is (DestroyCreature sorted_list_of_fset ''m1'' demoBattle) ''club'' = None
   \<and> well_held (DestroyCreature sorted_list_of_fset ''m1'' demoBattle)"
proof -
  have "where_is demoBattle ''club'' = Some (OnCreature ''m1'')"
    by code_simp
  moreover have "well_held (DestroyCreature sorted_list_of_fset ''m1'' demoBattle)
     \<and> fmlookup (creatures (DestroyCreature sorted_list_of_fset ''m1'' demoBattle)) ''m1'' = None
     \<and> where_is (DestroyCreature sorted_list_of_fset ''m1'' demoBattle)
       = (\<lambda>i. if \<exists>x. where_is demoBattle x = Some (OnCreature ''m1'') \<and> inside demoBattle i x then None else where_is demoBattle i)"
    by (rule DestroyCreature_removes [OF well_held_demoBattle, where m = "the (fmlookup (creatures demoBattle) ''m1'')"]; code_simp)
  ultimately show ?thesis
    using inside_refl [of demoBattle "''club''"] by auto
qed

end
