(* ===== verification/Penalties.thy ===== *)
theory Penalties
  imports Rewards
begin

text \<open>
  What a death costs (\<^verbatim>\<open>death.go\<close>): the experience a level needs, the level an experience earns, the loss of
  experience and of proficiency, and the levels taken back.
\<close>

subsection \<open>Experience and levels\<close>

definition legacyMaxAutoLevel :: int where
  "legacyMaxAutoLevel = 128"

definition legacyNeededExperience :: "int list" where
  "legacyNeededExperience =
     [128, 256, 384, 512, 640, 768, 896, 1024,
      1280, 1536, 1792, 2048, 2560, 3072, 3584, 4096,
      5120, 6144, 7168, 8192, 10240, 12288, 14336, 16384,
      20480, 24576, 28672, 32768, 40960, 49152, 57344, 65536,
      74152, 82768, 91384, 100000, 111602, 123205, 134807, 146410,
      161647, 176885, 192122, 207360, 234062, 260765, 287468, 314171,
      350876, 387581, 424286, 460992, 510275, 559558, 608841, 658125,
      715469, 772814, 830159, 887504, 966331, 1045159, 1123987, 1202815,
      1327015, 1451215, 1575415, 1699616, 1825576, 1951536, 2077496, 2203457,
      2352342, 2501228, 2650114, 2799000, 2975534, 3152069, 3328604, 3505139,
      3745134, 3985129, 4225124, 4465120, 4797005, 5128890, 5460775, 5792661,
      6224263, 6655866, 7087469, 7519072, 7957897, 8396723, 8835549, 9274375,
      9605781, 9937187, 10768593, 11384959, 12295756, 13279416, 14341769, 15489111,
      16728240, 18066499, 19511819, 21072765, 22758586, 24579273, 26545614, 28669264,
      30962805, 33439829, 36115015, 37920766, 41333635, 45053662, 49108492, 53528256,
      58345799, 63596921, 69320644, 75559502, 82359857, 90000000, 100000000, 190000000]"

text \<open>The loop over the table, which starts at level 1 and stops at the first entry above \<open>exp\<close>, and at level 128.\<close>

function level_from :: "int \<Rightarrow> int \<Rightarrow> int" where
  "level_from exp level =
     (if level < legacyMaxAutoLevel \<and> level - 1 < int (length legacyNeededExperience)
         \<and> legacyNeededExperience ! nat (level - 1) \<le> exp
      then level_from exp (level + 1) else level)"
  by pat_completeness auto
termination by (relation "measure (\<lambda>(exp, level). nat (legacyMaxAutoLevel - level))") (auto simp: legacyMaxAutoLevel_def)

declare level_from.simps [simp del]

definition expToLev :: "int \<Rightarrow> int" where
  "expToLev exp =
     (let level = level_from exp 1;
          level = (if legacyMaxAutoLevel \<le> level
                   then (exp - legacyNeededExperience ! nat (legacyMaxAutoLevel - 2)) sdiv 5000000 + legacyMaxAutoLevel
                   else level)
      in if level < 1 then 1 else level)"

text \<open>The experience after a death that costs experience, from the experience, class and level before.\<close>

definition experience_lost :: "int \<Rightarrow> int \<Rightarrow> int" where
  "experience_lost experience class =
     (if 200000 < experience sdiv 15 then experience - 200000
      else if 9 < class then i64 (experience - 500000)
      else experience - experience sdiv 15)"

definition level_floor :: "int \<Rightarrow> int" where
  "level_floor level =
     (if level < legacyMaxAutoLevel + 2
      then let idx = level - 3
           in if 0 \<le> idx \<and> idx < int (length legacyNeededExperience) then legacyNeededExperience ! nat idx else 0
      else i64 (legacyNeededExperience ! nat (legacyMaxAutoLevel - 2) + i64 ((level - legacyMaxAutoLevel - 1) * 5000000)))"

definition experience_after :: "int \<Rightarrow> int \<Rightarrow> int \<Rightarrow> int" where
  "experience_after experience class level =
     (let experience =
            (if level < 20 then experience - experience sdiv 20
             else let experience = experience_lost experience class;
                      n = i64 (level + 3) sdiv 4 - expToLev experience
                  in if 1 < n then level_floor level else experience)
      in if experience < 0 then 0 else experience)"

subsection \<open>Proficiency\<close>

text \<open>
  One pass of the loop over the five proficiencies and the four realms, as one list: the part of the value \<open>n\<close> is
  the loss that is left divided by \<open>9 - n\<close>, the number of values from there on; what a value cannot bear goes to the
  next ones.
\<close>

fun lower_pass :: "int list \<Rightarrow> int \<Rightarrow> nat \<Rightarrow> int list \<times> int \<times> nat" where
  "lower_pass [] profLoss belowZero = ([], profLoss, belowZero)"
| "lower_pass (v # vs) profLoss belowZero =
     (let part = profLoss sdiv int (length (v # vs)); profLoss = i64 (profLoss - part); v = i64 (v - part)
      in if v < 0
         then case lower_pass vs (i64 (profLoss - v)) (Suc belowZero) of (vs, r) \<Rightarrow> (0 # vs, r)
         else case lower_pass vs profLoss belowZero of (vs, r) \<Rightarrow> (v # vs, r))"

text \<open>The passes go on until at most nine points are left to lose or nothing is left to lose them from.\<close>

partial_function (option) lower_passes :: "int list \<Rightarrow> int \<Rightarrow> nat \<Rightarrow> int list option" where
  "lower_passes vs profLoss belowZero =
     (if 9 < profLoss \<and> belowZero < 9
      then let r = lower_pass vs profLoss 0 in lower_passes (fst r) (fst (snd r)) (snd (snd r))
      else Some vs)"

definition best_index :: "int list \<Rightarrow> nat" where
  "best_index proficiency = foldl (\<lambda>best i. if proficiency ! best < proficiency ! i then i else best) 0 [1..<length proficiency]"

definition keep_best :: "int list \<Rightarrow> int list" where
  "keep_best proficiency =
     (let best = best_index proficiency
      in if proficiency ! best < 1024 then proficiency[best := 1024] else proficiency)"

definition playerDeathLowerProficiency :: "int list \<Rightarrow> int list \<Rightarrow> int \<Rightarrow> (int list \<times> int list) option" where
  "playerDeathLowerProficiency proficiency realms experience =
     (let total = i64 (sum_list (proficiency @ realms));
          profLoss = i64 (total - experience - 1024);
          profLoss = (if profLoss < 0 then 0 else profLoss)
      in map_option (\<lambda>vs. (keep_best (take 5 vs), drop 5 vs)) (lower_passes (proficiency @ realms) profLoss 0))"

subsection \<open>The level an experience earns\<close>

text \<open>What it takes to rise above level \<open>l\<close>: the table up to level 127, and five million a level from there on.\<close>

definition level_threshold :: "int \<Rightarrow> int" where
  "level_threshold l =
     (if l < 128 then legacyNeededExperience ! nat (l - 1) else 100000000 + (l - 127) * 5000000)"

lemma needed_strict: "sorted_wrt (<) legacyNeededExperience"
proof -
  have "successively (<) legacyNeededExperience"
    by (simp add: legacyNeededExperience_def)
  then show ?thesis
    by (simp add: successively_conv_sorted_wrt transp_on_def)
qed

lemma needed_facts:
  "length legacyNeededExperience = 128" "sorted legacyNeededExperience" "distinct legacyNeededExperience"
  "legacyNeededExperience ! 126 = 100000000" "legacyNeededExperience ! 0 = 128"
proof -
  show "length legacyNeededExperience = 128" "legacyNeededExperience ! 126 = 100000000" "legacyNeededExperience ! 0 = 128"
    by (simp_all add: legacyNeededExperience_def)
  show "sorted legacyNeededExperience" "distinct legacyNeededExperience"
    using needed_strict by (simp_all add: strict_sorted_iff)
qed

lemma threshold_mono: "1 \<le> k \<Longrightarrow> k \<le> l \<Longrightarrow> level_threshold k \<le> level_threshold l"
proof -
  assume k: "1 \<le> k" "k \<le> l"
  have t: "legacyNeededExperience ! nat (i - 1) \<le> legacyNeededExperience ! nat (j - 1)" if "1 \<le> i" "i \<le> j" "j \<le> 128" for i j
    using that by (intro sorted_nth_mono needed_facts) (auto simp: needed_facts(1))
  have "legacyNeededExperience ! nat (k - 1) \<le> 100000000" if "k < 128"
    using t [of k 127] that k needed_facts(4) by simp
  then show ?thesis
    using k t [of k l] by (auto simp: level_threshold_def)
qed

lemma threshold_strict: "1 \<le> k \<Longrightarrow> k < l \<Longrightarrow> level_threshold k < level_threshold l"
proof -
  assume k: "1 \<le> k" "k < l"
  have "level_threshold k < level_threshold (k + 1)"
  proof (cases "k + 1 < 128")
    case True
    then have "legacyNeededExperience ! nat (k - 1) \<noteq> legacyNeededExperience ! nat k"
      using k by (subst nth_eq_iff_index_eq [OF needed_facts(3)]) (auto simp: needed_facts(1))
    with True threshold_mono [of k "k + 1"] k show ?thesis
      by (simp add: level_threshold_def)
  next
    case False
    then consider "k = 127" | "128 \<le> k" by linarith
    then show ?thesis
      by cases (simp_all add: level_threshold_def needed_facts(4))
  qed
  also have "\<dots> \<le> level_threshold l"
    using k by (intro threshold_mono) auto
  finally show ?thesis .
qed

lemma level_from_above:
  assumes "1 \<le> k" and "k \<le> 128"
  shows "k \<le> level_from exp k \<and> level_from exp k \<le> 128
     \<and> (\<forall>l. k \<le> l \<longrightarrow> (l < level_from exp k \<longleftrightarrow> l < 128 \<and> level_threshold l \<le> exp))"
  using assms
proof (induction exp k rule: level_from.induct)
  case (1 exp k)
  have t: "legacyNeededExperience ! nat (k - 1) = level_threshold k" if "k < 128"
    using that by (simp add: level_threshold_def)
  show ?case
  proof (cases "k < 128 \<and> level_threshold k \<le> exp")
    case True
    then have s: "level_from exp (k + 1) = level_from exp k"
      using t by (subst (2) level_from.simps) (simp add: legacyMaxAutoLevel_def needed_facts(1))
    have keep_above: "k \<le> m \<and> m \<le> 128 \<and> (\<forall>l. k \<le> l \<longrightarrow> (l < m \<longleftrightarrow> Q l))"
      if "k + 1 \<le> m \<and> m \<le> 128 \<and> (\<forall>l. k + 1 \<le> l \<longrightarrow> (l < m \<longleftrightarrow> Q l))" "Q k" for m Q
    proof -
      have "l < m \<longleftrightarrow> Q l" if "k \<le> l" for l
        using that \<open>k + 1 \<le> m \<and> _\<close> \<open>Q k\<close> by (cases "l = k") auto
      with that show ?thesis by simp
    qed
    have "k + 1 \<le> level_from exp (k + 1) \<and> level_from exp (k + 1) \<le> 128
       \<and> (\<forall>l. k + 1 \<le> l \<longrightarrow> (l < level_from exp (k + 1) \<longleftrightarrow> l < 128 \<and> level_threshold l \<le> exp))"
      using True t 1 by (intro "1.IH") (auto simp: legacyMaxAutoLevel_def needed_facts(1))
    then show ?thesis
      unfolding s by (rule keep_above) (use True in simp)
  next
    case False
    then have "level_from exp k = k"
      using t by (subst level_from.simps) (auto simp: legacyMaxAutoLevel_def needed_facts(1))
    moreover have "\<not> (l < 128 \<and> level_threshold l \<le> exp)" if "k \<le> l" for l
      using False threshold_mono [OF "1.prems"(1) that] that by auto
    ultimately show ?thesis
      using "1.prems" by auto
  qed
qed

lemma expToLev_ge_1: "1 \<le> expToLev exp"
  by (simp add: expToLev_def Let_def)

lemma expToLev_iff:
  assumes "1 \<le> l"
  shows "l < expToLev exp \<longleftrightarrow> level_threshold l \<le> exp"
proof -
  let ?k = "level_from exp 1"
  have k: "1 \<le> ?k" "?k \<le> 128" and above: "\<And>l. 1 \<le> l \<Longrightarrow> l < ?k \<longleftrightarrow> l < 128 \<and> level_threshold l \<le> exp"
    using level_from_above [of 1 exp] by auto
  show ?thesis
  proof (cases "?k = 128")
    case True
    then have e: "100000000 \<le> exp"
      using above [of 127] by (simp add: level_threshold_def needed_facts(4))
    then have lev: "expToLev exp = (exp - 100000000) div 5000000 + 128"
      using True by (simp add: expToLev_def Let_def legacyMaxAutoLevel_def needed_facts(4) sdiv_pos pos_imp_zdiv_nonneg_iff)
    have "level_threshold l \<le> exp" if "l < 128"
      using that above [OF assms] True by simp
    then show ?thesis
      using e unfolding lev by (auto simp: level_threshold_def)
  next
    case False
    with k have lev: "expToLev exp = ?k"
      by (simp add: expToLev_def legacyMaxAutoLevel_def)
    have "\<not> level_threshold 127 \<le> exp"
      using above [of 127] False k by auto
    then have "\<not> level_threshold l \<le> exp" if "128 \<le> l"
      using threshold_mono [of 127 l] that by auto
    with above [OF assms] show ?thesis
      unfolding lev by auto
  qed
qed

lemma expToLev_mono: "exp \<le> exp' \<Longrightarrow> expToLev exp \<le> expToLev exp'"
  using expToLev_iff [of "expToLev exp'" exp] expToLev_iff [of "expToLev exp'" exp'] expToLev_ge_1 [of exp'] by fastforce

lemma expToLev_threshold: "1 \<le> l \<Longrightarrow> expToLev (level_threshold l) = l + 1"
  using expToLev_iff [of l "level_threshold l"] expToLev_iff [of "l + 1" "level_threshold l"] threshold_strict [of l "l + 1"]
  by auto

text \<open>A level is above \<open>l\<close> exactly when the experience reaches the threshold of \<open>l\<close>; so the level grows with the
  experience, and the experience at a threshold is worth one level more.\<close>

theorem Level_of_experience:
  assumes "1 \<le> l"
  shows "(l < expToLev exp \<longleftrightarrow> level_threshold l \<le> exp) \<and> expToLev (level_threshold l) = l + 1 \<and> 1 \<le> expToLev exp
     \<and> (\<forall>exp'. exp \<le> exp' \<longrightarrow> expToLev exp \<le> expToLev exp')"
  using expToLev_iff [OF assms] expToLev_threshold [OF assms] expToLev_ge_1 expToLev_mono by blast

subsection \<open>The loss of experience\<close>

lemma level_floor_threshold:
  assumes "20 \<le> level" and "level < 2 ^ 32"
  shows "level_floor level = level_threshold (level - 2)"
proof (cases "level < 130")
  case True
  then have "nat (level - 3) = nat (level - 2 - 1)" and i: "0 \<le> level - 3" "level - 3 < 128"
    using assms by simp_all
  then show ?thesis
    using True by (simp add: level_floor_def Let_def legacyMaxAutoLevel_def needed_facts(1) level_threshold_def)
next
  case False
  then have "in_i64 ((level - 129) * 5000000)" "in_i64 (100000000 + (level - 129) * 5000000)"
    using assms by (auto simp: in_i64_def)
  with False show ?thesis
    by (simp add: level_floor_def legacyMaxAutoLevel_def needed_facts(4) level_threshold_def)
qed

lemma experience_lost_less: "0 \<le> e \<Longrightarrow> e < 2 ^ 52 \<Longrightarrow> experience_lost e class \<le> e \<and> - 500000 \<le> experience_lost e class"
  using zdiv_mono2 [of e 1 15] by (auto simp: experience_lost_def sdiv_pos i64_id in_i64_def pos_imp_zdiv_nonneg_iff)

lemma expToLev_bound: "1 \<le> l \<Longrightarrow> exp < level_threshold l \<Longrightarrow> expToLev exp \<le> l"
  using expToLev_iff [of l exp] by auto

text \<open>Below level 20 a twentieth is lost, which keeps the level above the bound.\<close>

lemma low_level_loss:
  assumes "0 \<le> e" and "level = expToLev e" and "level < 20"
  shows "(level + 3) div 4 - 1 \<le> expToLev (e - e div 20)"
proof (cases "level \<le> 8")
  case True
  then have "(level + 3) div 4 - 1 \<le> 1" by simp
  with expToLev_ge_1 show ?thesis by (rule order_trans [rotated])
next
  case False
  then have "level_threshold 8 \<le> e"
    using expToLev_iff [of 8 e] assms(2) by simp
  moreover have "level_threshold 8 = 1024" "level_threshold 3 = 384"
    by (simp_all add: level_threshold_def legacyNeededExperience_def)
  ultimately have "level_threshold 3 \<le> e - e div 20"
    by linarith
  then have "3 < expToLev (e - e div 20)"
    by (simp add: expToLev_iff)
  with assms(3) show ?thesis by linarith
qed

lemma level_range:
  assumes "e < 2 ^ 52" and "level = expToLev e"
  shows "1 \<le> level" and "level < 2 ^ 32"
proof -
  show "1 \<le> level"
    by (simp add: assms(2) expToLev_ge_1)
  have "expToLev e \<le> 2 ^ 31"
    using assms(1) by (intro expToLev_bound) (simp_all add: level_threshold_def)
  then show "level < 2 ^ 32"
    using assms(2) by simp
qed

text \<open>C38. When a player whose level is the one its experience earns loses experience by dying, the experience does not
  grow and does not become negative, and the level it is worth afterwards is at least \<open>(level + 3) div 4 - 1\<close>, so not more
  than one below a quarter of the level before, rounded up.  From level 20 on, when the loss alone would take it below this
  bound, the player is set back by exactly one level instead.  This is for an experience that is not negative and is
  below \<open>2 ^ 52\<close>, which keeps the arithmetic of the code from wrapping.\<close>

theorem Death_experience:
  assumes "0 \<le> e" and "e < 2 ^ 52" and "level = expToLev e"
  shows "0 \<le> experience_after e class level \<and> experience_after e class level \<le> e
     \<and> (level + 3) div 4 - 1 \<le> expToLev (experience_after e class level)
     \<and> (20 \<le> level \<and> expToLev (experience_lost e class) < (level + 3) div 4 - 1
          \<longrightarrow> expToLev (experience_after e class level) = level - 1)"
proof -
  note lev = level_range [OF assms(2,3)]
  have q: "i64 (level + 3) sdiv 4 = (level + 3) div 4"
    using lev by (simp add: sdiv_pos in_i64_def)
  have earned: "level_threshold l \<le> e" if "1 \<le> l" "l < level" for l
    using expToLev_iff [OF that(1), of e] that(2) assms(3) by simp
  show ?thesis
  proof (cases "level < 20")
    case True
    then have after: "experience_after e class level = e - e div 20"
      using assms(1) zdiv_mono2 [of e 1 20] by (auto simp: experience_after_def Let_def sdiv_pos)
    have "(level + 3) div 4 - 1 \<le> expToLev (e - e div 20)"
      using low_level_loss [OF assms(1,3) True] .
    with assms(1) True show ?thesis
      unfolding after using zdiv_mono2 [of e 1 20] by (auto simp: pos_imp_zdiv_nonneg_iff)
  next
    case False
    let ?x = "experience_lost e class"
    have x: "?x \<le> e"
      using experience_lost_less assms by blast
    show ?thesis
    proof (cases "1 < (level + 3) div 4 - expToLev ?x")
      case True
      have t: "level_threshold (level - 2) \<le> e" "0 \<le> level_threshold (level - 2)"
        using earned [of "level - 2"] threshold_mono [of 1 "level - 2"] False
        by (auto simp: level_threshold_def [of 1] needed_facts(5))
      have "experience_after e class level = level_threshold (level - 2)"
        using True False t(2) level_floor_threshold [OF _ lev(2)] by (simp add: experience_after_def Let_def q)
      moreover have "expToLev (level_threshold (level - 2)) = level - 1"
        using expToLev_threshold [of "level - 2"] False by simp
      moreover have "(level + 3) div 4 - 1 \<le> level - 1"
        using False by simp
      ultimately show ?thesis
        using t by simp
    next
      case few: False
      then have after: "experience_after e class level = max 0 ?x"
        using False by (simp add: experience_after_def Let_def q max_def)
      have "expToLev ?x \<le> expToLev (max 0 ?x)"
        by (intro expToLev_mono) simp
      then show ?thesis
        unfolding after using few x assms(1) by auto
    qed
  qed
qed

theorem Level_of_experience_witness:
  "expToLev 256 = 3"
  using Level_of_experience [of 2 256] by (simp add: level_threshold_def legacyNeededExperience_def)

theorem Death_experience_witness:
  "0 \<le> experience_after 1024 4 9 \<and> experience_after 1024 4 9 \<le> 1024 \<and> 2 \<le> expToLev (experience_after 1024 4 9)"
proof -
  have "expToLev 1024 = 9"
    using expToLev_threshold [of 8] by (simp add: level_threshold_def legacyNeededExperience_def)
  with Death_experience [of 1024 9 4] show ?thesis by simp
qed

subsection \<open>The loss of proficiency\<close>

lemma sdiv_part:
  assumes "0 \<le> loss" and "0 < (n :: int)"
  shows "0 \<le> loss sdiv n" "loss sdiv n \<le> loss" "n \<le> loss \<Longrightarrow> 1 \<le> loss sdiv n" "n \<le> loss \<Longrightarrow> n - 1 \<le> loss - loss sdiv n"
proof -
  have d: "loss sdiv n = loss div n"
    using assms by (simp add: sdiv_pos)
  have "n * (loss div n) \<le> loss"
    unfolding minus_mod_eq_mult_div [of loss n, symmetric] using assms by simp
  moreover show one: "1 \<le> loss sdiv n" if "n \<le> loss"
    using pos_imp_zdiv_pos_iff [OF assms(2), of loss] that by (simp add: d)
  moreover have "n - 1 \<le> (n - 1) * (loss div n)" if "n \<le> loss"
    using one [OF that] assms mult_left_mono [of 1 "loss div n" "n - 1"] by (simp add: d)
  ultimately show "n \<le> loss \<Longrightarrow> n - 1 \<le> loss - loss sdiv n"
    by (simp add: d algebra_simps)
  show "0 \<le> loss sdiv n" "loss sdiv n \<le> loss"
    using sdiv_bounds assms by auto
qed

definition proper_values :: "int list \<Rightarrow> bool" where
  "proper_values vs \<longleftrightarrow> (\<forall>v \<in> set vs. 0 \<le> v \<and> in_i64 v)"

lemma lower_pass_effect:
  assumes "lower_pass vs loss b = (vs', loss', b')" and "proper_values vs" and "0 \<le> loss" and "in_i64 loss"
  shows "list_all2 (\<lambda>v' v. 0 \<le> v' \<and> v' \<le> v) vs' vs \<and> 0 \<le> loss' \<and> loss' \<le> loss
     \<and> sum_list vs' - loss' = sum_list vs - loss \<and> b' \<le> b + length vs
     \<and> (b' = b + length vs \<longrightarrow> (\<forall>v \<in> set vs'. v = 0))
     \<and> (int (length vs) \<le> loss \<and> b' < b + length vs \<longrightarrow> sum_list vs' < sum_list vs)"
  using assms
proof (induction vs arbitrary: loss b vs' loss' b')
  case Nil
  then show ?case by simp
next
  case (Cons v vs)
  let ?n = "int (length (v # vs))"
  let ?part = "loss sdiv ?n"
  have p: "0 \<le> ?part" "?part \<le> loss" and p1: "?n \<le> loss \<Longrightarrow> 1 \<le> ?part" "?n \<le> loss \<Longrightarrow> int (length vs) \<le> loss - ?part"
    using sdiv_part [of loss ?n] Cons.prems(3) by simp_all
  have v: "0 \<le> v" "in_i64 v" and vs: "proper_values vs"
    using Cons.prems(2) by (simp_all add: proper_values_def)
  have w: "i64 (loss - ?part) = loss - ?part" "i64 (v - ?part) = v - ?part"
    using p v Cons.prems(4) by (auto simp: in_i64_def)
  have "\<exists>rest b1. loss - ?part \<le> rest \<and> rest \<le> loss \<and> vs' = max 0 (v - ?part) # tl vs' \<and> lower_pass vs rest b1 = (tl vs', loss', b')
     \<and> rest = loss - ?part + max 0 (?part - v) \<and> (b1 = b \<and> 0 \<le> v - ?part \<or> b1 = Suc b \<and> v - ?part < 0)"
  proof (cases "v - ?part < 0")
    case True
    then have "i64 (loss - ?part - (v - ?part)) = loss - v"
      using p v Cons.prems(4) by (auto simp: in_i64_def)
    then show ?thesis
      using True Cons.prems(1) w v p by (intro exI [of _ "loss - v"] exI [of _ "Suc b"]) (auto simp: Let_def split: prod.splits)
  next
    case False
    then show ?thesis
      using Cons.prems(1) w v p by (intro exI [of _ "loss - ?part"] exI [of _ b]) (auto simp: Let_def split: prod.splits)
  qed
  then obtain rest b1 where r: "loss - ?part \<le> rest" "rest \<le> loss" and vs': "vs' = max 0 (v - ?part) # tl vs'"
    and run: "lower_pass vs rest b1 = (tl vs', loss', b')" and rest: "rest = loss - ?part + max 0 (?part - v)"
    and b1: "b1 = b \<and> 0 \<le> v - ?part \<or> b1 = Suc b \<and> v - ?part < 0"
    by blast
  have r0: "0 \<le> rest" "in_i64 rest"
    using r p Cons.prems(3,4) by (auto simp: in_i64_def)
  note IH = Cons.IH [OF run vs r0]
  have sums: "sum_list vs' = max 0 (v - ?part) + sum_list (tl vs')"
    by (subst vs') simp
  have less: "sum_list vs' < sum_list (v # vs)" if long: "?n \<le> loss" and few: "b' < b + length (v # vs)"
  proof (cases "v - ?part < 0")
    case True
    with b1 few have "b' < b1 + length vs" by auto
    moreover have "int (length vs) \<le> rest"
      using p1(2) [OF long] r by simp
    ultimately show ?thesis
      using IH sums v True by simp
  next
    case False
    moreover have "sum_list (tl vs') \<le> sum_list vs"
      using IH r by linarith
    ultimately show ?thesis
      using p1(1) [OF long] sums by simp
  qed
  have "list_all2 (\<lambda>v' v. 0 \<le> v' \<and> v' \<le> v) vs' (v # vs)"
    using IH v p by (subst vs') simp
  moreover have "\<forall>v \<in> set vs'. v = 0" if "b' = b + length (v # vs)"
  proof -
    have "b1 = Suc b" "v - ?part < 0"
      using IH b1 that by auto
    then show ?thesis
      using IH that by (subst vs') simp
  qed
  ultimately show ?case
    using IH r rest sums less b1 by (auto simp: max_def)
qed

lemma list_all2_bounds_trans:
  fixes us vs ws :: "int list"
  shows "list_all2 (\<lambda>v' v. 0 \<le> v' \<and> v' \<le> v) us vs \<Longrightarrow> list_all2 (\<lambda>v' v. 0 \<le> v' \<and> v' \<le> v) vs ws
     \<Longrightarrow> list_all2 (\<lambda>v' v. 0 \<le> v' \<and> v' \<le> v) us ws"
  by (auto simp: list_all2_conv_all_nth) (metis order_trans)

lemma list_all2_bounds_refl: "proper_values vs \<Longrightarrow> list_all2 (\<lambda>v' v. 0 \<le> v' \<and> v' \<le> v) vs vs"
  by (auto simp: proper_values_def intro: list.rel_refl_strong)

lemma proper_values_lower:
  assumes "list_all2 (\<lambda>v' v. 0 \<le> v' \<and> v' \<le> v) us vs" and "proper_values vs"
  shows "proper_values us"
  unfolding proper_values_def
proof
  fix u assume "u \<in> set us"
  then obtain i where i: "i < length us" "u = us ! i"
    by (auto simp: in_set_conv_nth)
  then have "0 \<le> u" "u \<le> vs ! i" "vs ! i \<in> set vs"
    using assms(1) by (auto simp: list_all2_conv_all_nth)
  moreover from this assms(2) have "in_i64 (vs ! i)"
    unfolding proper_values_def by blast
  ultimately show "0 \<le> u \<and> in_i64 u"
    by (simp add: in_i64_def)
qed

lemma proper_sum: "proper_values vs \<Longrightarrow> 0 \<le> sum_list vs"
  by (intro sum_list_nonneg) (simp add: proper_values_def)

text \<open>The passes end, since each one that does not end the loop makes the sum of the values smaller.\<close>

lemma lower_passes_effect:
  assumes "proper_values vs" and "length vs = 9" and "0 \<le> loss" and "in_i64 loss" and "b = 9 \<Longrightarrow> \<forall>v \<in> set vs. v = 0"
    and "b \<le> 9"
  shows "\<exists>vs' rest. lower_passes vs loss b = Some vs' \<and> list_all2 (\<lambda>v' v. 0 \<le> v' \<and> v' \<le> v) vs' vs
     \<and> sum_list vs' - rest = sum_list vs - loss \<and> 0 \<le> rest \<and> (rest \<le> 9 \<or> sum_list vs' = 0)
     \<and> (loss \<le> 9 \<longrightarrow> vs' = vs)"
  using assms
proof (induction "nat (sum_list vs) + (if b < 9 then 1 else 0)" arbitrary: vs loss b rule: less_induct)
  case less
  show ?case
  proof (cases "9 < loss \<and> b < 9")
    case False
    have "sum_list vs = 0" if "b = 9"
      using less.prems(5) [OF that] by (induction vs) auto
    moreover have "loss \<le> 9 \<or> b = 9"
      using False less.prems(6) by auto
    ultimately show ?thesis
      using False less.prems list_all2_bounds_refl by (subst lower_passes.simps) auto
  next
    case True
    obtain us loss1 b1 where p: "lower_pass vs loss 0 = (us, loss1, b1)"
      using prod_cases3 by blast
    note e = lower_pass_effect [OF p less.prems(1,3,4)]
    have le: "list_all2 (\<lambda>v' v. 0 \<le> v' \<and> v' \<le> v) us vs"
      using e by blast
    have us: "proper_values us" "length us = 9"
      using proper_values_lower [OF le less.prems(1)] list_all2_lengthD [OF le] less.prems(2) by simp_all
    have l1: "in_i64 loss1"
      using e less.prems(4) by (auto simp: in_i64_def)
    have down: "sum_list us < sum_list vs" if "b1 < 9"
      using e that True less.prems(2) by simp
    have "sum_list us \<le> sum_list vs"
      using e by linarith
    then have "nat (sum_list us) + (if b1 < 9 then 1 else 0) < nat (sum_list vs) + (if b < 9 then 1 else 0)"
      using down proper_sum [OF us(1)] proper_sum [OF less.prems(1)] True by auto
    then have "\<exists>vs' rest. lower_passes us loss1 b1 = Some vs' \<and> list_all2 (\<lambda>v' v. 0 \<le> v' \<and> v' \<le> v) vs' us
       \<and> sum_list vs' - rest = sum_list us - loss1 \<and> 0 \<le> rest \<and> (rest \<le> 9 \<or> sum_list vs' = 0)
       \<and> (loss1 \<le> 9 \<longrightarrow> vs' = us)"
      using e us l1 less.prems(2) by (intro less.hyps) auto
    then obtain vs' rest where r: "lower_passes us loss1 b1 = Some vs'" "list_all2 (\<lambda>v' v. 0 \<le> v' \<and> v' \<le> v) vs' us"
      "sum_list vs' - rest = sum_list us - loss1" "0 \<le> rest" "rest \<le> 9 \<or> sum_list vs' = 0"
      by blast
    have "lower_passes vs loss b = Some vs'"
      using True r(1) by (subst lower_passes.simps) (simp add: p)
    moreover have "sum_list vs' - rest = sum_list vs - loss"
      using r(3) e by simp
    ultimately show ?thesis
      using r(2,4,5) list_all2_bounds_trans [OF r(2) le] True by auto
  qed
qed

lemma best_index_fold:
  "best < length ps \<Longrightarrow> (\<forall>j \<in> A. ps ! j \<le> ps ! best) \<Longrightarrow> \<forall>i \<in> set is. i < length ps \<Longrightarrow>
     (let k = foldl (\<lambda>best i. if ps ! best < (ps ! i :: int) then i else best) best is
      in k < length ps \<and> (\<forall>j \<in> A \<union> set is. ps ! j \<le> ps ! k))"
proof (induction "is" arbitrary: best A)
  case (Cons i "is")
  let ?b = "if ps ! best < ps ! i then i else best"
  have "\<forall>j \<in> insert i A. ps ! j \<le> ps ! ?b"
    using Cons.prems(2) by auto
  moreover have "?b < length ps" "\<forall>i \<in> set is. i < length ps"
    using Cons.prems by auto
  ultimately show ?case
    using Cons.IH [of ?b "insert i A"] by (simp add: Let_def)
qed simp

lemma best_index: "ps \<noteq> [] \<Longrightarrow> best_index ps < length ps \<and> (\<forall>j < length ps. ps ! j \<le> ps ! best_index ps)"
proof -
  assume "ps \<noteq> []"
  then have all: "{0} \<union> set [1..<length ps] = {j. j < length ps}" and pos: "0 < length ps"
    by auto
  have "let k = foldl (\<lambda>best i. if ps ! best < ps ! i then i else best) 0 [1..<length ps]
        in k < length ps \<and> (\<forall>j \<in> {0} \<union> set [1..<length ps]. ps ! j \<le> ps ! k)"
    using pos by (intro best_index_fold) auto
  then show ?thesis
    unfolding all by (simp add: best_index_def Let_def)
qed

text \<open>A death ends its search for points to take away, and takes them from the five proficiencies and four realms
  without making one of them larger or negative: when they exceed the experience and 1024 by more than nine, what is left
  exceeds these by at most nine, and otherwise nothing is lost.  Then the best proficiency is raised to 1024.\<close>

theorem Proficiency_loss:
  assumes "length ps = 5" and "length rs = 4" and "proper_values (ps @ rs)" and "sum_list (ps @ rs) < 2 ^ 63"
    and "0 \<le> exp" and "exp < 2 ^ 62"
  shows "\<exists>vs best. playerDeathLowerProficiency ps rs exp = Some ((take 5 vs)[best := max 1024 (vs ! best)], drop 5 vs)
     \<and> best < 5 \<and> (\<forall>i < 5. vs ! i \<le> vs ! best) \<and> list_all2 (\<lambda>v' v. 0 \<le> v' \<and> v' \<le> v) vs (ps @ rs)
     \<and> (if sum_list (ps @ rs) \<le> exp + 1033 then vs = ps @ rs else exp + 1024 \<le> sum_list vs \<and> sum_list vs \<le> exp + 1033)"
proof -
  let ?vs = "ps @ rs" and ?T = "sum_list (ps @ rs)"
  have T: "0 \<le> ?T"
    using assms(3) by (rule proper_sum)
  have loss: "i64 (i64 ?T - exp - 1024) = ?T - exp - 1024"
    using T assms by (simp add: in_i64_def)
  let ?loss = "max 0 (?T - exp - 1024)"
  have "0 \<le> ?loss" "in_i64 ?loss" "length ?vs = 9"
    using T assms by (auto simp: in_i64_def)
  from lower_passes_effect [OF assms(3) this(3,1,2), of 0]
  obtain vs rest where run: "lower_passes ?vs ?loss 0 = Some vs" and le: "list_all2 (\<lambda>v' v. 0 \<le> v' \<and> v' \<le> v) vs ?vs"
    and rest: "sum_list vs - rest = ?T - ?loss" "0 \<le> rest" "rest \<le> 9 \<or> sum_list vs = 0" "?loss \<le> 9 \<longrightarrow> vs = ?vs"
    by auto
  have len: "length vs = 9"
    using list_all2_lengthD [OF le] assms by simp
  let ?b = "best_index (take 5 vs)"
  have "take 5 vs \<noteq> []" "length (take 5 vs) = 5"
    using len by auto
  with best_index [of "take 5 vs"] have b: "?b < 5" "\<forall>i < 5. vs ! i \<le> vs ! ?b"
    by (simp_all only: nth_take cong: conj_cong) (metis nth_take)+
  have "keep_best (take 5 vs) = (take 5 vs)[?b := max 1024 (vs ! ?b)]"
    using b(1) len list_update_id [of "take 5 vs" ?b] by (auto simp: keep_best_def Let_def max_def simp del: list_update_id)
  moreover have "playerDeathLowerProficiency ps rs exp = Some (keep_best (take 5 vs), drop 5 vs)"
    using run loss by (simp add: playerDeathLowerProficiency_def Let_def max_def del: sum_list_append split: if_splits)
  moreover have "if ?T \<le> exp + 1033 then vs = ?vs else exp + 1024 \<le> sum_list vs \<and> sum_list vs \<le> exp + 1033"
    using rest assms(5) by (auto simp: max_def split: if_splits)
  ultimately show ?thesis
    using b le by (intro exI [of _ vs] exI [of _ ?b] conjI) simp_all
qed

theorem Proficiency_loss_witness:
  "\<exists>vs. playerDeathLowerProficiency [2000, 100, 0, 0, 0] [50, 0, 0, 0] 500 = Some ((take 5 vs)[0 := max 1024 (vs ! 0)], drop 5 vs)
     \<and> 1524 \<le> sum_list vs \<and> sum_list vs \<le> 1533"
proof -
  have "proper_values ([2000, 100, 0, 0, 0] @ [50, 0, 0, 0])"
    by (simp add: proper_values_def in_i64_def)
  with Proficiency_loss [of "[2000, 100, 0, 0, 0]" "[50, 0, 0, 0]" 500]
  obtain vs best where v: "playerDeathLowerProficiency [2000, 100, 0, 0, 0] [50, 0, 0, 0] 500
      = Some ((take 5 vs)[best := max 1024 (vs ! best)], drop 5 vs)" "best < 5" "\<forall>i < 5. vs ! i \<le> vs ! best"
    "list_all2 (\<lambda>v' v. 0 \<le> v' \<and> v' \<le> v) vs [2000, 100, 0, 0, 0, 50, 0, 0, 0]" "1524 \<le> sum_list vs" "sum_list vs \<le> 1533"
    by auto
  have "best = 0"
  proof (rule ccontr)
    assume "best \<noteq> 0"
    with v(2) have "best \<in> {1, 2, 3, 4}" by auto
    moreover have "vs ! i \<le> [2000, 100, 0, 0, 0, 50, 0, 0, 0] ! i" if "i < 9" for i
      using v(4) that by (auto simp: list_all2_conv_all_nth)
    from this [of 1] this [of 2] this [of 3] this [of 4] this [of 5] this [of 6] this [of 7] this [of 8]
    have le: "vs ! 1 \<le> 100" "vs ! 2 \<le> 0" "vs ! 3 \<le> 0" "vs ! 4 \<le> 0" "vs ! 5 \<le> 50" "vs ! 6 \<le> 0" "vs ! 7 \<le> 0" "vs ! 8 \<le> 0"
      by (simp_all add: eval_nat_numeral)
    have "length vs = 9"
      using list_all2_lengthD [OF v(4)] by simp
    then have "sum_list vs = vs ! 0 + vs ! 1 + vs ! 2 + vs ! 3 + vs ! 4 + vs ! 5 + vs ! 6 + vs ! 7 + vs ! 8"
      by (simp add: sum_list_sum_nth eval_nat_numeral)
    with le v(5) have "1000 < vs ! 0" by simp
    moreover have "vs ! 0 \<le> vs ! best" using v(3) by simp
    ultimately show False using le \<open>best \<in> _\<close> by auto
  qed
  with v show ?thesis by blast
qed

end
