(* ===== verification/Spawns.thy ===== *)
theory Spawns
  imports Rewards
begin

text \<open>
  New creatures and the permanent inhabitants of rooms (\<^verbatim>\<open>dm_support.go\<close> \<^verbatim>\<open>spawnCreatureLocked\<close>,
  \<^verbatim>\<open>room.go\<close> \<^verbatim>\<open>refreshRoomPermanentSpawnsLocked\<close>): a spawned creature is a copy of a prototype creature
  under a fresh id, with up to three things made from the numbers in its \<^verbatim>\<open>carry\<close> stats; a room lists the
  creatures and objects that have to be there, each with the time when it is due.

  Random numbers are an argument: \<open>dice t n\<close> is what the \<open>t\<close>-th call of \<^verbatim>\<open>rand.Intn\<close> returns for the
  bound \<open>n\<close>, and each operation hands on the number of calls made so far.
\<close>

subsection \<open>Spawning a creature\<close>

definition hasCreatureFlag :: "Creature \<Rightarrow> string \<Rightarrow> bool" where
  "hasCreatureFlag creature name =
     (let targets = ExpandFlagNames [name]
      in if targets = [] then False
         else (\<exists>tag \<in> set (Meta_Tags (Creature_Metadata creature)). normalizeFlagName tag \<in> set targets)
           \<or> mex (\<lambda>k v. normalizeFlagName k \<in> set targets \<and> (v = ''true'' \<or> v = ''1'' \<or> toLower v = ''yes''))
                (Creature_Properties creature)
           \<or> mex (\<lambda>k v. normalizeFlagName k \<in> set targets \<and> v \<noteq> 0) (Creature_Stats creature))"

text \<open>The price of a carried thing varies by a tenth.\<close>

definition vary_value :: "(nat \<Rightarrow> int \<Rightarrow> int) \<Rightarrow> nat \<Rightarrow> ObjectInstance \<Rightarrow> ObjectInstance \<times> nat" where
  "vary_value dice t inst =
     (let val = (case fmlookup (Object_Properties inst) ''value'' of
                   None \<Rightarrow> 0
                 | Some v \<Rightarrow> (case atoi v of None \<Rightarrow> 0 | Some parsed \<Rightarrow> parsed))
      in if val \<le> 0 then (inst, t)
         else
           let minVal = i64 (val * 9) sdiv 10; maxVal = i64 (val * 11) sdiv 10;
               (randVal, t) = (if minVal < maxVal then (i64 (dice t (maxVal - minVal + 1) + minVal), Suc t) else (minVal, t))
           in (inst\<lparr>Object_Properties := fmupd ''value'' (itoa randVal) (Object_Properties inst)\<rparr>, t))"

definition carried_instance ::
  "(ObjectInstanceID \<Rightarrow> int) \<Rightarrow> World \<Rightarrow> CreatureID \<Rightarrow> PrototypeID \<Rightarrow> ObjectPrototype \<Rightarrow> ObjectInstance" where
  "carried_instance roll w cloneID carryProtoID protoObj =
     applyRandomEnchantIfNeeded roll w
       (zeroObject\<lparr>Object_ID := nextObjectCloneID w carryProtoID, Object_PrototypeID := carryProtoID,
          Object_Location := inventoryLocation cloneID, Object_Quantity := 1,
          Object_Properties := Proto_Properties protoObj,
          Object_Metadata := noMetadata\<lparr>Meta_Tags := Meta_Tags (Proto_Metadata protoObj)\<rparr>\<rparr>)"

text \<open>One thing is made and put into the inventory of the new creature, which is not yet in the world.\<close>

definition carry_thing ::
  "(nat \<Rightarrow> int \<Rightarrow> int) \<Rightarrow> (ObjectInstanceID \<Rightarrow> int) \<Rightarrow> int \<Rightarrow> nat \<Rightarrow> Creature \<Rightarrow> World \<Rightarrow> Creature \<times> World \<times> nat" where
  "carry_thing dice roll carryNum t clone w =
     (if carryNum \<le> 0 then (clone, w, t)
      else
        let carryProtoID = legacyCarryObjectPrototypeID carryNum
        in case fmlookup (prototypes w) carryProtoID of
             None \<Rightarrow> (clone, w, t)
           | Some protoObj \<Rightarrow>
               let (inst, t) = vary_value dice t (carried_instance roll w (Creature_ID clone) carryProtoID protoObj)
               in if ObjectInstance_Validate inst \<noteq> None then (clone, w, t)
                  else
                    let w = w\<lparr>objects := fmupd (Object_ID inst) inst (objects w)\<rparr>;
                        ids = insertObjectIDLegacySorted w (ObjectIDs (Creature_Inventory clone)) (Object_ID inst)
                    in (clone\<lparr>Creature_Inventory := \<lparr>ObjectIDs = ids\<rparr>\<rparr>, w, t))"

fun carry_things ::
  "(nat \<Rightarrow> int \<Rightarrow> int) \<Rightarrow> (ObjectInstanceID \<Rightarrow> int) \<Rightarrow> nat \<Rightarrow> nat \<Rightarrow> Creature \<Rightarrow> World \<Rightarrow> Creature \<times> World \<times> nat" where
  "carry_things dice roll 0 t clone w = (clone, w, t)"
| "carry_things dice roll (Suc k) t clone w =
     (let noGold = hasCreatureFlag clone ''MNRGLD'';
          (mIndex, t) = (if noGold then (dice (Suc t) 50, Suc (Suc t)) else (dice t 10, Suc t))
      in if noGold \<and> 9 < mIndex then carry_things dice roll k t clone w
         else
           let carryNum = mget 0 (Creature_Stats clone) (''carry['' @ itoa mIndex @ '']'');
               (clone, w, t) = carry_thing dice roll carryNum t clone w
           in carry_things dice roll k t clone w)"

definition vary_gold :: "(nat \<Rightarrow> int \<Rightarrow> int) \<Rightarrow> nat \<Rightarrow> Creature \<Rightarrow> Creature \<times> nat" where
  "vary_gold dice t clone =
     (let gold = mget 0 (Creature_Stats clone) ''gold''
      in if hasCreatureFlag clone ''MNRGLD'' \<or> gold \<le> 0 then (clone, t)
         else
           let minGold = gold sdiv 10;
               (randGold, t) = (if minGold < gold then (dice t (gold - minGold + 1) + minGold, Suc t) else (minGold, t))
           in (clone\<lparr>Creature_Stats := fmupd ''gold'' randGold (Creature_Stats clone)\<rparr>, t))"

definition clone_creature :: "World \<Rightarrow> CreatureID \<Rightarrow> Creature \<Rightarrow> RoomID \<Rightarrow> string list \<Rightarrow> Creature" where
  "clone_creature w protoID proto roomID addTags =
     (let clone = proto\<lparr>Creature_ID := nextCreatureCloneID w protoID, Creature_RoomID := roomID,
            Creature_Inventory := \<lparr>ObjectIDs = []\<rparr>, Creature_Equipment := fmempty,
            Creature_Metadata := (if addTags = [] then Creature_Metadata proto
              else (Creature_Metadata proto)\<lparr>Meta_Tags := addMetadataTags (Meta_Tags (Creature_Metadata proto)) addTags\<rparr>)\<rparr>;
          interval = (if mget 0 (Creature_Stats clone) ''dexterity'' < 20 then 3 else 2)
      in clone\<lparr>Creature_Stats := fmupd ''attackInterval'' interval (Creature_Stats clone)\<rparr>)"

definition number_of_things :: "int \<Rightarrow> nat" where
  "number_of_things jVal = (if jVal < 90 then 1 else if jVal < 96 then 2 else 3)"

text \<open>The new creature with its things and its gold, and the world with these things.\<close>

definition hatched ::
  "(nat \<Rightarrow> int \<Rightarrow> int) \<Rightarrow> (ObjectInstanceID \<Rightarrow> int) \<Rightarrow> nat \<Rightarrow> bool \<Rightarrow> Creature \<Rightarrow> World \<Rightarrow> Creature \<times> World \<times> nat" where
  "hatched dice roll t carryItems clone w =
     (let (clone, w, t) = (if carryItems then carry_things dice roll (number_of_things (dice t 100 + 1)) (Suc t) clone w
                           else (clone, w, t));
          (clone, t) = vary_gold dice t clone
      in (clone, w, t))"

definition spawnCreature ::
  "(nat \<Rightarrow> int \<Rightarrow> int) \<Rightarrow> (ObjectInstanceID \<Rightarrow> int) \<Rightarrow> nat \<Rightarrow> CreatureID \<Rightarrow> RoomID \<Rightarrow> bool \<Rightarrow> string list \<Rightarrow> World
     \<Rightarrow> CreatureID result \<times> World \<times> nat" where
  "spawnCreature dice roll t protoID roomID carryItems addTags w =
     (case fmlookup (creatures w) protoID of
        None \<Rightarrow> (Inl (Errorf ''prototype creature %q not found'' [protoID]), w, t)
      | Some proto \<Rightarrow>
          let clone = clone_creature w protoID proto roomID addTags;
              cloneID = Creature_ID clone;
              w = put_cooldowns cloneID
                    (fmupd ''wander'' (clock w) (fmupd ''scavenge'' (clock w) (fmupd ''attack'' (clock w)
                      (creature_cooldowns w cloneID)))) w;
              (clone, w, t) = hatched dice roll t carryItems clone w;
              w = w\<lparr>creatures := fmupd cloneID clone (creatures w)\<rparr>
          in (case fmlookup (rooms w) roomID of
                None \<Rightarrow> (Inl (Errorf ''room %q not found'' [roomID]), w, t)
              | Some room \<Rightarrow>
                  (Inr cloneID,
                   w\<lparr>rooms := fmupd roomID
                       (room\<lparr>Room_CreatureIDs := insertCreatureIDLegacySorted w (Room_CreatureIDs room) cloneID\<rparr>) (rooms w)\<rparr>,
                   t)))"

definition SpawnCreature ::
  "(nat \<Rightarrow> int \<Rightarrow> int) \<Rightarrow> (ObjectInstanceID \<Rightarrow> int) \<Rightarrow> CreatureID \<Rightarrow> RoomID \<Rightarrow> bool \<Rightarrow> World \<Rightarrow> CreatureID result \<times> World" where
  "SpawnCreature dice roll protoID roomID carryItems w =
     (if IsZero protoID then (Inl (Errorf ''spawn creature: prototype id is required'' []), w)
      else let (r, w, t) = spawnCreature dice roll 0 protoID roomID carryItems [] w in (r, w))"

subsection \<open>The permanent inhabitants of a room\<close>

record roomPermanentSlot =
  Slot_index :: nat
  Slot_misc :: int
  Slot_ltime :: int
  Slot_interval :: int

record roomPermanentGroup =
  Group_misc :: int
  Group_count :: nat

definition roomPermanentSlotInt :: "(string, string) fmap \<Rightarrow> string \<Rightarrow> nat \<Rightarrow> string \<Rightarrow> int option" where
  "roomPermanentSlotInt properties px i field =
     first_some (\<lambda>key. parseStateInt (mget [] properties key))
       [px @ ''.'' @ itoa (int i) @ ''.'' @ field,
        px @ ''['' @ itoa (int i) @ ''].'' @ field,
        px @ ''.'' @ pad02 (int i) @ ''.'' @ field,
        px @ ''['' @ pad02 (int i) @ ''].'' @ field]"

text \<open>The slot \<open>i\<close>, under the first prefix that gives it a number.\<close>

definition permanent_slot :: "(string, string) fmap \<Rightarrow> nat \<Rightarrow> string \<Rightarrow> roomPermanentSlot option" where
  "permanent_slot properties i px =
     (case roomPermanentSlotInt properties px i ''misc'' of
        None \<Rightarrow> None
      | Some misc \<Rightarrow>
          if misc = 0 then None
          else Some \<lparr>Slot_index = i, Slot_misc = misc,
                 Slot_ltime = (case roomPermanentSlotInt properties px i ''ltime'' of None \<Rightarrow> 0 | Some v \<Rightarrow> v),
                 Slot_interval = (case roomPermanentSlotInt properties px i ''interval'' of None \<Rightarrow> 0 | Some v \<Rightarrow> v)\<rparr>)"

definition roomPermanentSlots :: "Room \<Rightarrow> string list \<Rightarrow> roomPermanentSlot list" where
  "roomPermanentSlots room names =
     concat (map (\<lambda>i. case first_some (permanent_slot (Room_Properties room) i) names of None \<Rightarrow> [] | Some s \<Rightarrow> [s]) [0..<10])"

text \<open>
  Slots of the same number that are due form one group.  The loop of the source marks the slots it
  has counted; here they are taken out of the rest of the list.
\<close>

definition slot_due :: "roomPermanentSlot \<Rightarrow> int" where
  "slot_due s = i64 (Slot_ltime s + Slot_interval s)"

definition joins :: "int \<Rightarrow> roomPermanentSlot \<Rightarrow> roomPermanentSlot \<Rightarrow> bool" where
  "joins nowUnix slot other \<longleftrightarrow> Slot_misc other = Slot_misc slot \<and> \<not> nowUnix \<le> slot_due other"

function roomPermanentDueGroups :: "roomPermanentSlot list \<Rightarrow> int \<Rightarrow> roomPermanentGroup list" where
  "roomPermanentDueGroups [] nowUnix = []"
| "roomPermanentDueGroups (slot # slots) nowUnix =
     (if Slot_misc slot = 0 \<or> nowUnix < slot_due slot then roomPermanentDueGroups slots nowUnix
      else \<lparr>Group_misc = Slot_misc slot, Group_count = Suc (length (filter (joins nowUnix slot) slots))\<rparr>
           # roomPermanentDueGroups (filter (\<lambda>s. \<not> joins nowUnix slot s) slots) nowUnix)"
  by pat_completeness auto
termination
  by (relation "measure (\<lambda>(slots, nowUnix). length slots)") (auto simp: le_imp_less_Suc)

text \<open>The number of creatures of that name in the room that carry the mark of a permanent one.\<close>

definition is_permanent :: "World \<Rightarrow> string \<Rightarrow> CreatureID \<Rightarrow> bool" where
  "is_permanent w name creatureID =
     (case fmlookup (creatures w) creatureID of
        None \<Rightarrow> False
      | Some creature \<Rightarrow>
          creatureHasAnyFlag creature [''MPERMT'', ''permanent'']
          \<and> (let existingName = creatureLegacySortNameOf creature
             in existingName = name \<or> (existingName = [] \<and> Creature_ID creature = name)))"

definition permanent_count :: "World \<Rightarrow> RoomID \<Rightarrow> string \<Rightarrow> nat" where
  "permanent_count w roomID name =
     (case fmlookup (rooms w) roomID of
        None \<Rightarrow> 0
      | Some room \<Rightarrow> length (filter (is_permanent w name) (Room_CreatureIDs room)))"

fun spawn_times ::
  "(nat \<Rightarrow> int \<Rightarrow> int) \<Rightarrow> (ObjectInstanceID \<Rightarrow> int) \<Rightarrow> CreatureID \<Rightarrow> RoomID \<Rightarrow> nat \<Rightarrow> nat \<Rightarrow> World \<Rightarrow> World \<times> nat" where
  "spawn_times dice roll protoID roomID 0 t w = (w, t)"
| "spawn_times dice roll protoID roomID (Suc n) t w =
     (let (r, w, t) = spawnCreature dice roll t protoID roomID True [''MPERMT'', ''permanent''] w
      in spawn_times dice roll protoID roomID n t w)"

definition permanent_proto :: "int \<Rightarrow> CreatureID" where
  "permanent_proto misc = ''creature:m'' @ pad02 (misc sdiv 100) @ '':'' @ itoa (misc smod 100)"

definition spawnRoomPermanentCreatureGroup ::
  "(nat \<Rightarrow> int \<Rightarrow> int) \<Rightarrow> (ObjectInstanceID \<Rightarrow> int) \<Rightarrow> RoomID \<Rightarrow> int \<Rightarrow> nat \<Rightarrow> nat \<Rightarrow> World \<Rightarrow> World \<times> nat" where
  "spawnRoomPermanentCreatureGroup dice roll roomID misc wanted t w =
     (if misc \<le> 0 \<or> wanted = 0 then (w, t)
      else let protoID = permanent_proto misc
        in case fmlookup (creatures w) protoID of
             None \<Rightarrow> (w, t)
           | Some proto \<Rightarrow>
               let name = creatureLegacySortNameOf proto;
                   name = (if name = [] then Creature_ID proto else name)
               in spawn_times dice roll protoID roomID (wanted - permanent_count w roomID name) t w)"

definition permanent_object_count :: "World \<Rightarrow> RoomID \<Rightarrow> string \<Rightarrow> nat" where
  "permanent_object_count w roomID name =
     (case fmlookup (rooms w) roomID of
        None \<Rightarrow> 0
      | Some room \<Rightarrow>
          length (filter (\<lambda>objectID. case fmlookup (objects w) objectID of
                            None \<Rightarrow> False
                          | Some object \<Rightarrow> objectHasAnyLegacyFlag w object [''OPERMT'', ''roomPermanent'', ''permanent'']
                                           \<and> objectLegacySortNameFromObject w object = name)
                    (ObjectIDs (Room_Objects room))))"

text \<open>The fuel for the copy of a template is the number of objects (\<open>Clones\<close> shows that it suffices).\<close>

definition create_permanent ::
  "(ObjectInstanceID \<Rightarrow> int) \<Rightarrow> PrototypeID \<Rightarrow> RoomID \<Rightarrow> World \<Rightarrow> World" where
  "create_permanent roll protoID roomID w =
     (case createObjectFromPrototype (card (fmdom' (objects w))) roll False protoID (roomLocation roomID) w of
        Some (Inr objectID, w) \<Rightarrow>
          let object = mget zeroObject (objects w) objectID;
              object = object\<lparr>Object_Metadata := (Object_Metadata object)\<lparr>Meta_Tags :=
                addMetadataTags (Meta_Tags (Object_Metadata object)) [''OPERMT'', ''roomPermanent'', ''permanent'']\<rparr>\<rparr>
          in MarkRoomObjectsDirty roomID (w\<lparr>objects := fmupd objectID object (objects w)\<rparr>)
      | Some (Inl err, w) \<Rightarrow> w
      | None \<Rightarrow> w)"

definition spawnRoomPermanentObjectGroup ::
  "(ObjectInstanceID \<Rightarrow> int) \<Rightarrow> RoomID \<Rightarrow> int \<Rightarrow> nat \<Rightarrow> World \<Rightarrow> World" where
  "spawnRoomPermanentObjectGroup roll roomID misc wanted w =
     (if misc \<le> 0 \<or> wanted = 0 then w
      else let protoID = legacyCarryObjectPrototypeID misc
        in if fmlookup (prototypes w) protoID = None then w
           else let name = objectPrototypeLegacySortName w protoID
             in (create_permanent roll protoID roomID ^^ (wanted - permanent_object_count w roomID name)) w)"

definition refreshRoomPermanentSpawns ::
  "(nat \<Rightarrow> int \<Rightarrow> int) \<Rightarrow> (ObjectInstanceID \<Rightarrow> int) \<Rightarrow> RoomID \<Rightarrow> int \<Rightarrow> World \<Rightarrow> World" where
  "refreshRoomPermanentSpawns dice roll roomID nowUnix w =
     (case fmlookup (rooms w) roomID of
        None \<Rightarrow> w
      | Some room \<Rightarrow>
          let (w, t) = foldl (\<lambda>(w, t) g. spawnRoomPermanentCreatureGroup dice roll roomID (Group_misc g) (Group_count g) t w)
                (w, 0) (roomPermanentDueGroups (roomPermanentSlots room [''perm_mon'', ''permMon'', ''permanentCreature'']) nowUnix);
              room = mget zeroRoom (rooms w) roomID
          in foldl (\<lambda>w g. spawnRoomPermanentObjectGroup roll roomID (Group_misc g) (Group_count g) w) w
               (roomPermanentDueGroups (roomPermanentSlots room [''perm_obj'', ''permObj'', ''permanentObject'']) nowUnix))"

subsection \<open>What a spawn changes\<close>

lemma nextCreatureCloneID_nonempty [simp]: "nextCreatureCloneID w p \<noteq> []"
  using crtclone.is_candidate [of p "creatures w"]
  by (auto simp: nextCreatureCloneID_def numbered_def clone_base_def)

lemma clone_creature_fields [simp]:
  "Creature_ID (clone_creature w p pr r tags) = nextCreatureCloneID w p"
  "Creature_RoomID (clone_creature w p pr r tags) = r"
  "Creature_DisplayName (clone_creature w p pr r tags) = Creature_DisplayName pr"
  "Creature_Properties (clone_creature w p pr r tags) = Creature_Properties pr"
  "Creature_Inventory (clone_creature w p pr r tags) = \<lparr>ObjectIDs = []\<rparr>"
  by (simp_all add: clone_creature_def Let_def)

lemma vary_value_fields:
  "vary_value dice t p = (q, t') \<Longrightarrow> Object_ID q = Object_ID p \<and> Object_Location q = Object_Location p
     \<and> Object_Contents q = Object_Contents p"
  by (auto simp: vary_value_def Let_def split: if_splits prod.splits)

lemma carried_instance_fields [simp]:
  "Object_ID (carried_instance roll w c i pr) = nextObjectCloneID w i"
  "Object_Location (carried_instance roll w c i pr) = inventoryLocation c"
  "ObjectIDs (Object_Contents (carried_instance roll w c i pr)) = []"
  by (simp_all add: carried_instance_def zeroObject_def)

text \<open>The world in which the creature that is being equipped were already present.\<close>

definition with_creature :: "Creature \<Rightarrow> World \<Rightarrow> World" where
  "with_creature c w = w\<lparr>creatures := fmupd (Creature_ID c) c (creatures w)\<rparr>"

text \<open>What an equipping step leaves alone, and what it makes.\<close>

definition equips :: "Creature \<Rightarrow> World \<Rightarrow> Creature \<Rightarrow> World \<Rightarrow> bool" where
  "equips c w c' w' \<longleftrightarrow>
     well_held (with_creature c' w') \<and> (\<exists>ids. c' = c\<lparr>Creature_Inventory := \<lparr>ObjectIDs = ids\<rparr>\<rparr>)
     \<and> rooms w' = rooms w \<and> creatures w' = creatures w \<and> players w' = players w \<and> banks w' = banks w
     \<and> prototypes w' = prototypes w
     \<and> (\<forall>i. where_is w' i = where_is w i \<or> (where_is w i = None \<and> where_is w' i = Some (OnCreature (Creature_ID c))))"

lemma equips_refl: "well_held (with_creature c w) \<Longrightarrow> equips c w c w"
  by (auto simp: equips_def intro: exI [of _ "ObjectIDs (Creature_Inventory c)"])

lemma equips_trans:
  assumes a: "equips c w c' w'" and b: "equips c' w' c'' w''"
  shows "equips c w c'' w''"
proof -
  have id: "Creature_ID c' = Creature_ID c"
    using a by (auto simp: equips_def)
  have "where_is w'' i = where_is w i \<or> where_is w i = None \<and> where_is w'' i = Some (OnCreature (Creature_ID c))" for i
  proof -
    from b have "where_is w'' i = where_is w' i \<or> where_is w' i = None \<and> where_is w'' i = Some (OnCreature (Creature_ID c'))"
      unfolding equips_def by blast
    moreover from a have "where_is w' i = where_is w i \<or> where_is w i = None \<and> where_is w' i = Some (OnCreature (Creature_ID c))"
      unfolding equips_def by blast
    ultimately show ?thesis
      unfolding id by auto
  qed
  moreover have "\<exists>ids. c'' = c\<lparr>Creature_Inventory := \<lparr>ObjectIDs = ids\<rparr>\<rparr>"
    using a b by (auto simp: equips_def)
  ultimately show ?thesis
    using a b by (simp add: equips_def)
qed

lemma put_inventory:
  assumes "Object_Location p = inventoryLocation (Creature_ID c)" and "Creature_ID c \<noteq> []"
  shows "put_object p (with_creature c w) =
     (let w' = w\<lparr>objects := fmupd (Object_ID p) p (objects w)\<rparr>
      in with_creature (c\<lparr>Creature_Inventory :=
           \<lparr>ObjectIDs = insertObjectIDLegacySorted w' (ObjectIDs (Creature_Inventory c)) (Object_ID p)\<rparr>\<rparr>) w')"
proof -
  have "same_cores ((with_creature c w)\<lparr>objects := fmupd (Object_ID p) p (objects (with_creature c w))\<rparr>)
      (w\<lparr>objects := fmupd (Object_ID p) p (objects w)\<rparr>)"
    by (simp add: same_cores_def with_creature_def)
  note i = insertObject_core [OF this]
  show ?thesis
    using assms(2) by (simp add: put_object_def addObjectToHolder_def assms(1) location_defs i Let_def)
       (simp add: with_creature_def)
qed

lemma carry_thing_equips:
  assumes wh: "well_held (with_creature c w)" and id: "Creature_ID c \<noteq> []"
    and r: "carry_thing dice roll n t c w = (c', w', t')"
  shows "equips c w c' w'"
proof (cases "(c', w') = (c, w)")
  case True
  with wh show ?thesis by (simp add: equips_refl)
next
  case False
  then have n: "\<not> n \<le> 0"
    using r by (auto simp: carry_thing_def)
  with False r obtain pr where pr: "fmlookup (prototypes w) (legacyCarryObjectPrototypeID n) = Some pr"
    by (cases "fmlookup (prototypes w) (legacyCarryObjectPrototypeID n)") (auto simp: carry_thing_def Let_def)
  obtain inst t1 where p: "vary_value dice t (carried_instance roll w (Creature_ID c) (legacyCarryObjectPrototypeID n) pr) = (inst, t1)"
    by fastforce
  have v: "ObjectInstance_Validate inst = None"
    using False r n by (rule_tac ccontr) (simp add: carry_thing_def Let_def pr p)
  have w': "w' = w\<lparr>objects := fmupd (Object_ID inst) inst (objects w)\<rparr>"
    and c': "c' = c\<lparr>Creature_Inventory := \<lparr>ObjectIDs = insertObjectIDLegacySorted w' (ObjectIDs (Creature_Inventory c)) (Object_ID inst)\<rparr>\<rparr>"
    using r n v by (auto simp: carry_thing_def Let_def pr p)
  have inst: "Object_Location inst = inventoryLocation (Creature_ID c)" "ObjectIDs (Object_Contents inst) = []"
    "Object_ID inst = nextObjectCloneID w (legacyCarryObjectPrototypeID n)"
    using vary_value_fields [OF p] by simp_all
  then have fresh: "fmlookup (objects w) (Object_ID inst) = None"
    by (simp add: nextObjectCloneID_fresh)
  have ex: "holder_exists (with_creature c w) (holderOf (Object_Location inst))"
    using inst(1) id by (simp add: holder_exists_def with_creature_def)
  have put: "put_object inst (with_creature c w) = with_creature c' w'"
    using put_inventory [OF inst(1) id, of w] by (simp add: Let_def c' w')
  have "well_held (put_object inst (with_creature c w))"
    using fresh inst id ex by (intro well_held_put [OF wh]) (simp_all add: with_creature_def)
  moreover have "where_is w' i = (if i = Object_ID inst then Some (OnCreature (Creature_ID c)) else where_is w i)" for i
    using inst(1) id by (simp add: w' where_is_def)
  moreover have "where_is w (Object_ID inst) = None"
    using fresh by (simp add: where_is_def)
  ultimately show ?thesis
    unfolding equips_def put by (auto simp: c' w')
qed

lemma carry_things_equips:
  "well_held (with_creature c w) \<Longrightarrow> Creature_ID c \<noteq> [] \<Longrightarrow> carry_things dice roll k t c w = (c', w', t')
     \<Longrightarrow> equips c w c' w'"
proof (induction k arbitrary: t c w)
  case 0
  then show ?case by (simp add: equips_refl)
next
  case (Suc k)
  obtain m t1 where m: "(if hasCreatureFlag c ''MNRGLD'' then (dice (Suc t) 50, Suc (Suc t)) else (dice t 10, Suc t)) = (m, t1)"
    by fastforce
  show ?case
  proof (cases "hasCreatureFlag c ''MNRGLD'' \<and> 9 < m")
    case True
    with Suc m show ?thesis by (simp add: Let_def)
  next
    case False
    obtain c1 w1 t2 where s: "carry_thing dice roll (mget 0 (Creature_Stats c) (''carry['' @ itoa m @ '']'')) t1 c w = (c1, w1, t2)"
      using prod_cases3 by blast
    have "carry_things dice roll k t2 c1 w1 = (c', w', t')"
      using Suc.prems(3) False m s by (simp add: Let_def del: de_Morgan_conj)
    moreover have e: "equips c w c1 w1"
      using Suc.prems(1,2) s by (rule carry_thing_equips)
    ultimately have "equips c1 w1 c' w'"
      using Suc.prems(2) by (intro Suc.IH [of c1 w1 t2]) (auto simp: equips_def)
    with e show ?thesis by (rule equips_trans)
  qed
qed

lemma vary_gold_fields:
  "vary_gold dice t c = (c', t') \<Longrightarrow> \<exists>s. c' = c\<lparr>Creature_Stats := s\<rparr>"
  by (rule exI [of _ "Creature_Stats c'"]) (auto simp: vary_gold_def Let_def split: if_splits prod.splits)

lemma well_held_new_creature:
  assumes "well_held w" and "fmlookup (creatures w) (Creature_ID c) = None" and "ObjectIDs (Creature_Inventory c) = []"
  shows "well_held (with_creature c w)"
proof -
  have "refs (with_creature c w) h = refs w h" for h
    using assms(2,3) by (cases h) (auto simp: refs_def with_creature_def)
  then have "well_held (with_creature c w) = well_held w"
    by (rule well_held_frame) (simp add: with_creature_def)
  with assms(1) show ?thesis by simp
qed

lemma hatched_effect:
  assumes "well_held w" and "fmlookup (creatures w) (Creature_ID c) = None" and "Creature_ID c \<noteq> []"
    and "ObjectIDs (Creature_Inventory c) = []" and h: "hatched dice roll t b c w = (c', w', t')"
  shows "well_held (with_creature c' w')" and "\<exists>ids s. c' = c\<lparr>Creature_Inventory := \<lparr>ObjectIDs = ids\<rparr>, Creature_Stats := s\<rparr>"
    and "rooms w' = rooms w" "creatures w' = creatures w" "players w' = players w" "banks w' = banks w" "prototypes w' = prototypes w"
    and "where_is w' i = where_is w i \<or> (where_is w i = None \<and> where_is w' i = Some (OnCreature (Creature_ID c)))"
proof -
  obtain c1 w1 t1 where s: "(if b then carry_things dice roll (number_of_things (dice t 100 + 1)) (Suc t) c w else (c, w, t)) = (c1, w1, t1)"
    using prod_cases3 by blast
  have g: "vary_gold dice t1 c1 = (c', t')" and w1: "w1 = w'"
    using h s by (auto simp: hatched_def Let_def split: prod.splits)
  have n: "well_held (with_creature c w)"
    using assms(1,2,4) by (rule well_held_new_creature)
  have e: "equips c w c1 w'"
    using s carry_things_equips [OF n assms(3)] equips_refl [OF n] w1 by (auto split: if_splits)
  obtain st where c': "c' = c1\<lparr>Creature_Stats := st\<rparr>"
    using vary_gold_fields [OF g] by blast
  obtain ids where c1: "c1 = c\<lparr>Creature_Inventory := \<lparr>ObjectIDs = ids\<rparr>\<rparr>"
    using e by (auto simp: equips_def)
  have "with_creature c' w' = (with_creature c1 w')\<lparr>creatures := fmupd (Creature_ID c1) c' (creatures (with_creature c1 w'))\<rparr>"
    by (simp add: with_creature_def c')
  moreover have "well_held (with_creature c1 w')"
    using e by (simp add: equips_def)
  ultimately show "well_held (with_creature c' w')"
    using well_held_creature_upd [of "with_creature c1 w'" "Creature_ID c1" c1 c'] by (simp add: c') (simp add: with_creature_def)
  show "\<exists>ids s. c' = c\<lparr>Creature_Inventory := \<lparr>ObjectIDs = ids\<rparr>, Creature_Stats := s\<rparr>"
    by (intro exI [of _ ids] exI [of _ st]) (simp add: c' c1)
  show "rooms w' = rooms w" "creatures w' = creatures w" "players w' = players w" "banks w' = banks w" "prototypes w' = prototypes w"
    using e by (simp_all add: equips_def)
  show "where_is w' i = where_is w i \<or> (where_is w i = None \<and> where_is w' i = Some (OnCreature (Creature_ID c)))"
    using e unfolding equips_def by blast
qed

lemma spawnCreature_effect:
  assumes wh: "well_held w" and pr: "fmlookup (creatures w) p = Some pr"
  defines "c \<equiv> nextCreatureCloneID w p"
  shows "\<exists>c' u w' t' ids s. spawnCreature dice roll t p r b tags w
        = (if fmlookup (rooms w) r = None then Inl (Errorf ''room %q not found'' [r]) else Inr c, w', t')
     \<and> c' = (clone_creature w p pr r tags)\<lparr>Creature_Inventory := \<lparr>ObjectIDs = ids\<rparr>, Creature_Stats := s\<rparr>
     \<and> creatures w' = fmupd c c' (creatures w) \<and> well_held w'
     \<and> rooms w' = (case fmlookup (rooms w) r of None \<Rightarrow> rooms w
          | Some room \<Rightarrow> fmupd r (room\<lparr>Room_CreatureIDs := insertCreatureIDLegacySorted u (Room_CreatureIDs room) c\<rparr>) (rooms w))
     \<and> players w' = players w \<and> banks w' = banks w \<and> prototypes w' = prototypes w
     \<and> (\<forall>i. where_is w' i = where_is w i \<or> (where_is w i = None \<and> where_is w' i = Some (OnCreature c)))"
proof -
  define k where "k = clone_creature w p pr r tags"
  define w1 where "w1 = put_cooldowns c (fmupd ''wander'' (clock w) (fmupd ''scavenge'' (clock w) (fmupd ''attack'' (clock w)
      (creature_cooldowns w c)))) w"
  have w1: "rooms w1 = rooms w" "creatures w1 = creatures w" "players w1 = players w" "banks w1 = banks w"
    "prototypes w1 = prototypes w" "objects w1 = objects w"
    by (simp_all add: w1_def put_cooldowns_def)
  have wh1: "well_held w1" and at1: "where_is w1 = where_is w"
    using wh w1 well_held_cong [of w1 w] by (auto intro: where_is_cong)
  have k: "Creature_ID k = c" "Creature_ID k \<noteq> []" "ObjectIDs (Creature_Inventory k) = []"
    by (simp_all add: k_def c_def)
  obtain c' w2 t2 where h: "hatched dice roll t b k w1 = (c', w2, t2)"
    using prod_cases3 by blast
  have fresh: "fmlookup (creatures w1) (Creature_ID k) = None"
    by (simp add: w1 k c_def nextCreatureCloneID_fresh)
  note e = hatched_effect [OF wh1 fresh k(2,3) h]
  obtain ids s where c': "c' = k\<lparr>Creature_Inventory := \<lparr>ObjectIDs = ids\<rparr>, Creature_Stats := s\<rparr>"
    using e(2) by blast
  define u where "u = w2\<lparr>creatures := fmupd c c' (creatures w2)\<rparr>"
  have u: "u = with_creature c' w2"
    by (simp add: u_def with_creature_def c' k)
  define w' where "w' = (case fmlookup (rooms w) r of None \<Rightarrow> u
     | Some room \<Rightarrow> u\<lparr>rooms := fmupd r (room\<lparr>Room_CreatureIDs := insertCreatureIDLegacySorted u (Room_CreatureIDs room) c\<rparr>) (rooms u)\<rparr>)"
  have "refs w' h = refs u h" for h
    by (cases h) (auto simp: w'_def refs_def u_def e(3) w1(1) split: option.split)
  moreover have o: "objects w' = objects u" "creatures w' = creatures u" "players w' = players u" "banks w' = banks u" "prototypes w' = prototypes u"
    by (simp_all add: w'_def split: option.split)
  ultimately have w': "well_held w' = well_held u" "where_is w' = where_is u"
    using well_held_frame [of w' u] by simp_all
  have "where_is w' = where_is w2"
    unfolding w' by (intro ext where_is_cong) (simp add: u_def)
  then have "where_is w' i = where_is w i \<or> (where_is w i = None \<and> where_is w' i = Some (OnCreature c))" for i
    using e(8) [of i] by (simp add: at1 k)
  moreover have "spawnCreature dice roll t p r b tags w
        = (if fmlookup (rooms w) r = None then Inl (Errorf ''room %q not found'' [r]) else Inr c, w', t2)"
    using h pr by (simp add: spawnCreature_def Let_def k_def [symmetric] c_def [symmetric] k(1) w1_def [symmetric] w'_def u_def
        e(3) w1(1) split: option.split)
  moreover have "well_held w'"
    using e(1) w'(1) u by simp
  moreover have "rooms w' = (case fmlookup (rooms w) r of None \<Rightarrow> rooms w
          | Some room \<Rightarrow> fmupd r (room\<lparr>Room_CreatureIDs := insertCreatureIDLegacySorted u (Room_CreatureIDs room) c\<rparr>) (rooms w))"
    by (simp add: w'_def u_def e(3) w1(1) split: option.split)
  moreover have "creatures w' = fmupd c c' (creatures w)" "players w' = players w" "banks w' = banks w" "prototypes w' = prototypes w"
    using e o by (simp_all add: u_def w1)
  ultimately show ?thesis
    using c' unfolding k_def by blast
qed

text \<open>C19. A spawned creature is new: it has an id no creature had, the name of its prototype, a place
  on the list of its room; no other creature changes, every thing that was in the world stays where it was,
  what is made is carried by the new creature, and the ownership invariant is kept.\<close>

theorem Spawn_adds_creature:
  assumes "well_held w" and "fmlookup (creatures w) p = Some pr" and "p \<noteq> []" and "fmlookup (rooms w) r = Some room"
  shows "\<exists>c c' w'. SpawnCreature dice roll p r b w = (Inr c, w') \<and> fmlookup (creatures w) c = None
     \<and> creatures w' = fmupd c c' (creatures w) \<and> Creature_ID c' = c \<and> Creature_RoomID c' = r
     \<and> Creature_DisplayName c' = Creature_DisplayName pr
     \<and> set (Room_CreatureIDs (mget zeroRoom (rooms w') r)) = insert c (set (Room_CreatureIDs room))
     \<and> well_held w'
     \<and> (\<forall>i. where_is w' i = where_is w i \<or> (where_is w i = None \<and> where_is w' i = Some (OnCreature c)))"
proof -
  let ?c = "nextCreatureCloneID w p"
  obtain c' u w' t' ids s where e: "spawnCreature dice roll 0 p r b [] w = (Inr ?c, w', t')"
    "c' = (clone_creature w p pr r [])\<lparr>Creature_Inventory := \<lparr>ObjectIDs = ids\<rparr>, Creature_Stats := s\<rparr>"
    "creatures w' = fmupd ?c c' (creatures w)" "well_held w'"
    "rooms w' = fmupd r (room\<lparr>Room_CreatureIDs := insertCreatureIDLegacySorted u (Room_CreatureIDs room) ?c\<rparr>) (rooms w)"
    "\<forall>i. where_is w' i = where_is w i \<or> (where_is w i = None \<and> where_is w' i = Some (OnCreature ?c))"
    using spawnCreature_effect [OF assms(1,2), of dice roll 0 r b "[]"] assms(4) by auto
  have "SpawnCreature dice roll p r b w = (Inr ?c, w')"
    using assms(3) e(1) by (simp add: SpawnCreature_def)
  moreover have "fmlookup (creatures w) ?c = None"
    by (rule nextCreatureCloneID_fresh)
  ultimately show ?thesis
    using e(2-6) by (intro exI [of _ ?c] exI [of _ c'] exI [of _ w']) (simp add: crtrefs.set_ins)
qed

text \<open>Spawning into a room that does not exist reports an error and leaves the new creature in the
  world all the same, on no room's list and with a room id that names nothing.\<close>

theorem Spawn_missing_room_leaks:
  assumes "well_held w" and "fmlookup (creatures w) p = Some pr" and "p \<noteq> []" and "fmlookup (rooms w) r = None"
  shows "\<exists>c c' w'. SpawnCreature dice roll p r b w = (Inl (Errorf ''room %q not found'' [r]), w')
     \<and> fmlookup (creatures w) c = None \<and> fmlookup (creatures w') c = Some c' \<and> Creature_RoomID c' = r \<and> rooms w' = rooms w"
proof -
  let ?c = "nextCreatureCloneID w p"
  obtain c' w' t' ids s where e: "spawnCreature dice roll 0 p r b [] w = (Inl (Errorf ''room %q not found'' [r]), w', t')"
    "c' = (clone_creature w p pr r [])\<lparr>Creature_Inventory := \<lparr>ObjectIDs = ids\<rparr>, Creature_Stats := s\<rparr>"
    "creatures w' = fmupd ?c c' (creatures w)" "rooms w' = rooms w"
    using spawnCreature_effect [OF assms(1,2), of dice roll 0 r b "[]"] assms(4) by auto
  have "SpawnCreature dice roll p r b w = (Inl (Errorf ''room %q not found'' [r]), w')"
    using assms(3) e(1) by (simp add: SpawnCreature_def)
  moreover have "fmlookup (creatures w) ?c = None"
    by (rule nextCreatureCloneID_fresh)
  ultimately show ?thesis
    using e(2-4) by (intro exI [of _ ?c] exI [of _ c'] exI [of _ w']) simp
qed

subsection \<open>Permanent creatures\<close>

lemma addMetadataTags_has:
  assumes "t \<in> set add" and "normalizeFlagName t \<noteq> []"
  shows "\<exists>x \<in> set (addMetadataTags tags add). normalizeFlagName x = normalizeFlagName t"
proof -
  let ?f = "\<lambda>(out, seen) tag0. let tag = trimSpace tag0; n = normalizeFlagName tag
            in if tag = [] \<or> n = [] \<or> n \<in> set seen then (out, seen) else (out @ [tag], n # seen)"
  have n: "normalizeFlagName (trimSpace x) = normalizeFlagName x" for x
    by (simp add: normalizeFlagName_def)
  have ne: "trimSpace x \<noteq> []" if "normalizeFlagName x \<noteq> []" for x
    using that by (auto simp: normalizeFlagName_def toLower_def remove_byte_def)
  have inv: "(\<forall>m \<in> set (snd a). \<exists>x \<in> set (fst a). normalizeFlagName x = m) \<Longrightarrow>
      (\<forall>m \<in> set (snd (foldl ?f a xs)). \<exists>x \<in> set (fst (foldl ?f a xs)). normalizeFlagName x = m)
      \<and> set (snd a) \<subseteq> set (snd (foldl ?f a xs))
      \<and> (\<forall>x \<in> set xs. normalizeFlagName x \<noteq> [] \<longrightarrow> normalizeFlagName x \<in> set (snd (foldl ?f a xs)))" for a xs
  proof (induction xs arbitrary: a)
    case (Cons y ys)
    obtain out seen where a: "a = (out, seen)" by fastforce
    let ?b = "?f a y"
    have b: "\<forall>m \<in> set (snd ?b). \<exists>x \<in> set (fst ?b). normalizeFlagName x = m"
      using Cons.prems by (auto simp: a Let_def)
    have "set (snd a) \<subseteq> set (snd ?b)" and "normalizeFlagName y \<noteq> [] \<longrightarrow> normalizeFlagName y \<in> set (snd ?b)"
      using ne [of y] by (auto simp: a Let_def n)
    with Cons.IH [OF b] show ?case
      by auto
  qed simp
  have "\<forall>m \<in> set (filter (\<lambda>n. n \<noteq> []) (map normalizeFlagName tags)). \<exists>x \<in> set tags. normalizeFlagName x = m"
    by auto
  with inv [of "(tags, filter (\<lambda>n. n \<noteq> []) (map normalizeFlagName tags))" add] assms show ?thesis
    unfolding addMetadataTags_def by fastforce
qed

lemma normalize_MPERMT: "normalizeFlagName ''MPERMT'' \<noteq> []"
  by code_simp

lemma permanent_clone:
  assumes "Creature_Metadata c = Creature_Metadata (clone_creature w p pr r [''MPERMT'', ''permanent''])"
  shows "creatureHasAnyFlag c [''MPERMT'', ''permanent'']"
proof -
  obtain x where "x \<in> set (Meta_Tags (Creature_Metadata c))" and "normalizeFlagName x = normalizeFlagName ''MPERMT''"
    using addMetadataTags_has [of "''MPERMT''" "[''MPERMT'', ''permanent'']"] normalize_MPERMT assms
    by (auto simp: clone_creature_def Let_def)
  moreover have "normalizeFlagName ''MPERMT'' \<in> set (ExpandFlagNames [''MPERMT'', ''permanent''])"
    using normalize_MPERMT by (intro normalize_in_Expand) simp_all
  ultimately have "hasAnyNormalizedFlag (Meta_Tags (Creature_Metadata c)) [''MPERMT'', ''permanent'']"
    unfolding hasAnyNormalizedFlag_def normalizedFlagSet_def list_ex_iff Let_def by metis
  then show ?thesis
    by (simp add: creatureHasAnyFlag_def)
qed

lemma length_filter_insert_once:
  assumes "distinct xs" and "P x" and "\<not> Q x" and "\<And>y. y \<noteq> x \<Longrightarrow> P y = Q y"
  shows "length (filter P (insert_once lt xs x)) = Suc (length (filter Q xs))"
proof -
  have same: "filter P ys = filter Q ys" if "x \<notin> set ys" for ys
    using that assms(4) by (intro filter_cong) metis+
  have before: "length (filter P (insert_before lt ys x)) = Suc (length (filter P ys))" for ys
    using assms(2) by (induction ys) auto
  show ?thesis
  proof (cases "x \<in> set xs")
    case True
    then obtain as bs where xs: "xs = as @ x # bs"
      by (meson split_list)
    with assms(1) have "x \<notin> set as" "x \<notin> set bs" by auto
    with xs True assms(2,3) same show ?thesis
      by (simp add: insert_once_def)
  next
    case False
    then show ?thesis
      using before [of xs] same [OF False] by (simp add: insert_once_def)
  qed
qed

text \<open>One permanent creature more.\<close>

lemma spawn_permanent:
  assumes wh: "well_held w" and pr: "fmlookup (creatures w) p = Some pr" and name: "creatureLegacySortNameOf pr \<noteq> []"
    and room: "fmlookup (rooms w) r = Some room" and d: "distinct (Room_CreatureIDs room)"
  shows "\<exists>res w' t' room'. spawnCreature dice roll t p r True [''MPERMT'', ''permanent''] w = (res, w', t')
     \<and> well_held w' \<and> fmlookup (creatures w') p = Some pr \<and> fmlookup (rooms w') r = Some room' \<and> distinct (Room_CreatureIDs room')
     \<and> permanent_count w' r (creatureLegacySortNameOf pr) = Suc (permanent_count w r (creatureLegacySortNameOf pr))"
proof -
  let ?c = "nextCreatureCloneID w p" and ?n = "creatureLegacySortNameOf pr"
  obtain c' u w' t' ids s where e: "spawnCreature dice roll t p r True [''MPERMT'', ''permanent''] w = (Inr ?c, w', t')"
    "c' = (clone_creature w p pr r [''MPERMT'', ''permanent''])\<lparr>Creature_Inventory := \<lparr>ObjectIDs = ids\<rparr>, Creature_Stats := s\<rparr>"
    "creatures w' = fmupd ?c c' (creatures w)" "well_held w'"
    "rooms w' = fmupd r (room\<lparr>Room_CreatureIDs := insertCreatureIDLegacySorted u (Room_CreatureIDs room) ?c\<rparr>) (rooms w)"
    using spawnCreature_effect [OF wh pr, of dice roll t r True "[''MPERMT'', ''permanent'']"] room by auto
  have fresh: "fmlookup (creatures w) ?c = None"
    by (rule nextCreatureCloneID_fresh)
  then have "p \<noteq> ?c"
    using pr by auto
  have "creatureHasAnyFlag c' [''MPERMT'', ''permanent'']"
    by (rule permanent_clone) (simp add: e(2))
  moreover have "creatureLegacySortNameOf c' = ?n"
    by (simp add: e(2) creatureLegacySortNameOf_def)
  ultimately have new: "is_permanent w' ?n ?c"
    by (simp add: is_permanent_def e(3))
  have "\<not> is_permanent w ?n ?c"
    using fresh by (simp add: is_permanent_def)
  moreover have "is_permanent w' ?n y = is_permanent w ?n y" if "y \<noteq> ?c" for y
    using that by (simp add: is_permanent_def e(3))
  ultimately have "permanent_count w' r ?n = Suc (permanent_count w r ?n)"
    using length_filter_insert_once [where P = "is_permanent w' ?n" and Q = "is_permanent w ?n" and x = ?c, OF d new]
    by (simp add: permanent_count_def room e(5) insertCreatureIDLegacySorted_def)
  moreover have "distinct (insertCreatureIDLegacySorted u (Room_CreatureIDs room) ?c)"
    using d by (rule crtrefs.distinct_ins)
  ultimately show ?thesis
    using e pr \<open>p \<noteq> ?c\<close> by auto
qed

lemma spawn_times_count:
  assumes "well_held w" and "fmlookup (creatures w) p = Some pr" and "creatureLegacySortNameOf pr \<noteq> []"
    and "fmlookup (rooms w) r = Some room" and "distinct (Room_CreatureIDs room)"
    and "spawn_times dice roll p r n t w = (w', t')"
  shows "well_held w' \<and> fmlookup (creatures w') p = Some pr
     \<and> permanent_count w' r (creatureLegacySortNameOf pr) = permanent_count w r (creatureLegacySortNameOf pr) + n"
  using assms
proof (induction n arbitrary: t w room)
  case (Suc n)
  obtain res v t1 room' where s: "spawnCreature dice roll t p r True [''MPERMT'', ''permanent''] w = (res, v, t1)"
    and v: "well_held v" "fmlookup (creatures v) p = Some pr" "fmlookup (rooms v) r = Some room'" "distinct (Room_CreatureIDs room')"
    "permanent_count v r (creatureLegacySortNameOf pr) = Suc (permanent_count w r (creatureLegacySortNameOf pr))"
    using spawn_permanent [OF Suc.prems(1-5)] by blast
  have "spawn_times dice roll p r n t1 v = (w', t')"
    using Suc.prems(6) by (simp add: s)
  from Suc.IH [OF v(1,2) Suc.prems(3) v(3,4) this] v(5) show ?case
    by simp
qed simp

text \<open>Refreshing a group of permanent creatures brings their number up to what the room wants and
  never above it: afterwards there are that many, or as many as there already were; and a second refresh
  changes nothing.\<close>

theorem Permanent_group_fills:
  assumes "well_held w" and "0 < misc" and "0 < wanted"
    and pr: "fmlookup (creatures w) (permanent_proto misc) = Some pr" and "creatureLegacySortNameOf pr \<noteq> []"
    and "fmlookup (rooms w) r = Some room" and "distinct (Room_CreatureIDs room)"
    and s: "spawnRoomPermanentCreatureGroup dice roll r misc wanted t w = (w', t')"
  shows "permanent_count w' r (creatureLegacySortNameOf pr) = max wanted (permanent_count w r (creatureLegacySortNameOf pr))
     \<and> well_held w' \<and> spawnRoomPermanentCreatureGroup dice' roll' r misc wanted t'' w' = (w', t'')"
proof -
  let ?n = "creatureLegacySortNameOf pr"
  have run: "spawnRoomPermanentCreatureGroup d f r misc wanted q v
      = spawn_times d f (permanent_proto misc) r (wanted - permanent_count v r ?n) q v"
    if "fmlookup (creatures v) (permanent_proto misc) = Some pr" for d f q v
    using that assms(2,3,5) by (simp add: spawnRoomPermanentCreatureGroup_def Let_def)
  have "spawn_times dice roll (permanent_proto misc) r (wanted - permanent_count w r ?n) t w = (w', t')"
    using s run [OF pr] by simp
  note c = spawn_times_count [OF assms(1,4,5,6,7) this]
  then have "permanent_count w' r ?n = max wanted (permanent_count w r ?n)"
    by linarith
  moreover have "spawnRoomPermanentCreatureGroup dice' roll' r misc wanted t'' w' = (w', t'')"
    using run [of w'] c by simp
  ultimately show ?thesis
    using c by simp
qed

subsection \<open>Witnesses\<close>

definition demoTroll :: Creature where
  "demoTroll = demoOrc\<lparr>Creature_ID := ''creature:m00:5'', Creature_DisplayName := ''troll'', Creature_RoomID := []\<rparr>"

definition demoLair :: World where
  "demoLair = with_creature demoTroll demoArena"

lemma well_held_demoLair: "well_held demoLair"
  unfolding demoLair_def by (rule well_held_new_creature [OF well_held_demoArena]) code_simp+

lemma demoLair_facts:
  "fmlookup (creatures demoLair) (permanent_proto 5) = Some demoTroll"
  "fmlookup (creatures demoLair) ''creature:m00:5'' = Some demoTroll"
  "fmlookup (rooms demoLair) ''r1'' = Some (zeroRoom\<lparr>Room_ID := ''r1'', Room_CreatureIDs := [''c9'', ''m1'']\<rparr>)"
  "fmlookup (rooms demoLair) ''r7'' = None"
  "creatureLegacySortNameOf demoTroll = ''troll''" "permanent_count demoLair ''r1'' ''troll'' = 0"
  by code_simp+

theorem Spawn_adds_creature_witness:
  "\<exists>c c' w'. SpawnCreature (\<lambda>t n. 0) (\<lambda>i. 50) ''creature:m00:5'' ''r1'' True demoLair = (Inr c, w')
     \<and> fmlookup (creatures w') c = Some c' \<and> Creature_DisplayName c' = ''troll'' \<and> well_held w'
     \<and> set (Room_CreatureIDs (mget zeroRoom (rooms w') ''r1'')) = {c, ''c9'', ''m1''}"
proof -
  have "Creature_DisplayName demoTroll = ''troll''"
    by (simp add: demoTroll_def)
  with Spawn_adds_creature [OF well_held_demoLair demoLair_facts(2) _ demoLair_facts(3), of "\<lambda>t n. 0" "\<lambda>i. 50" True]
  show ?thesis by fastforce
qed

theorem Spawn_missing_room_leaks_witness:
  "\<exists>c c' w'. SpawnCreature (\<lambda>t n. 0) (\<lambda>i. 50) ''creature:m00:5'' ''r7'' True demoLair = (Inl (Errorf ''room %q not found'' [''r7'']), w')
     \<and> fmlookup (creatures demoLair) c = None \<and> fmlookup (creatures w') c = Some c' \<and> Creature_RoomID c' = ''r7''
     \<and> rooms w' = rooms demoLair"
  by (rule Spawn_missing_room_leaks [OF well_held_demoLair demoLair_facts(2) _ demoLair_facts(4)]) simp

theorem Permanent_group_fills_witness:
  "let w' = fst (spawnRoomPermanentCreatureGroup (\<lambda>t n. 0) (\<lambda>i. 50) ''r1'' 5 2 0 demoLair)
   in permanent_count w' ''r1'' ''troll'' = 2
      \<and> spawnRoomPermanentCreatureGroup (\<lambda>t n. 1) (\<lambda>i. 50) ''r1'' 5 2 7 w' = (w', 7)"
proof -
  have "spawnRoomPermanentCreatureGroup (\<lambda>t n. 0) (\<lambda>i. 50) ''r1'' 5 2 0 demoLair
      = (fst (spawnRoomPermanentCreatureGroup (\<lambda>t n. 0) (\<lambda>i. 50) ''r1'' 5 2 0 demoLair),
         snd (spawnRoomPermanentCreatureGroup (\<lambda>t n. 0) (\<lambda>i. 50) ''r1'' 5 2 0 demoLair))"
    by simp
  from Permanent_group_fills [OF well_held_demoLair _ _ demoLair_facts(1) _ demoLair_facts(3) _ this, of "\<lambda>t n. 1" "\<lambda>i. 50" 7]
  show ?thesis
    by (simp add: Let_def demoLair_facts)
qed

end
