(* ===== verification/Outlines.thy ===== *)
theory Outlines
  imports Spawns
begin

text \<open>
  Making and deleting objects leaves rooms, creatures and players as they are but for the lists of
  what they hold (\<open>same_outline\<close>), and keeps every object under its own id (\<open>object_ids\<close>).  What the
  operations on rooms and their occupants need to know of the operations on objects.
\<close>

subsection \<open>Outlines\<close>

lemma same_outline_put_any:
  assumes "(\<exists>k. holderOf (Object_Location p) = InObject k) \<or> holder_exists w (holderOf (Object_Location p))"
  shows "same_outline w (put_object p w)"
proof (cases "\<exists>k. holderOf (Object_Location p) = InObject k")
  case True
  then have l: "Loc_RoomID (Object_Location p) = []" "Loc_CreatureID (Object_Location p) = []"
    by (auto simp: holderOf_def split: if_splits)
  show ?thesis
    by (rule same_outline_cong) (simp_all add: put_object_def addObjectToHolder_def l Let_def)
qed (use assms in \<open>simp add: same_outline_put\<close>)

lemma clone_of_location [simp]: "Object_Location (clone_of roll skip w i p l) = l"
  by (simp add: clone_of_def Let_def)

lemma containerLocation_in: "holderOf (containerLocation k) = InObject k \<or> holderOf (containerLocation k) = Nowhere"
  by (simp add: location_defs holderOf_def)

lemma same_outline_put_container: "Object_Location p = containerLocation k \<Longrightarrow> same_outline w (put_object p w)"
proof (cases "k = []")
  case True
  assume "Object_Location p = containerLocation k"
  with True show ?thesis
    by (intro same_outline_cong) (simp_all add: put_object_def addObjectToHolder_def location_defs)
next
  case False
  assume "Object_Location p = containerLocation k"
  with False show ?thesis
    by (intro same_outline_put_any) (simp add: location_defs holderOf_def)
qed

lemma same_outline_clone_tree:
  "clone_tree n roll skip src l seen w = Some (r, v) \<Longrightarrow> holder_exists w (holderOf l) \<or> (\<exists>k. l = containerLocation k)
     \<Longrightarrow> same_outline w v"
  "clone_children n roll skip cs cid seen w = Some (r, v) \<Longrightarrow> same_outline w v"
proof (induction n roll skip src l seen w and n roll skip cs cid seen w arbitrary: r v and r v
    rule: clone_tree_clone_children.induct)
  case (2 fuel roll skip src l seen w)
  have put: "same_outline w (put_object (clone_of roll skip w src p l) w)" for p
    using "2.prems"(2) same_outline_put_container same_outline_put by auto
  from "2.prems"(1) show ?case
    using "2.IH" put same_outline_trans
    by (fastforce simp: Let_def split: if_split_asm option.split_asm)
next
  case (4 fuel roll skip c' cs cid seen w)
  from "4.prems" obtain r' u where d: "clone_tree fuel roll skip c' (containerLocation cid) seen w = Some (r', u)"
    by (auto split: option.splits)
  then have wu: "same_outline w u"
    by (rule "4.IH"(1)) blast
  show ?case
  proof (cases r')
    case (Inl e)
    with "4.prems" d have "v = deleteObjectTree cid u" by auto
    with wu same_outline_deleteObjectTree same_outline_trans show ?thesis by blast
  next
    case (Inr x)
    with "4.prems" d have "clone_children fuel roll skip cs cid seen u = Some (r, v)" by simp
    with "4.IH"(2) [of "(r', u)" r' u x r v] d Inr have "same_outline u v" by simp
    with wu show ?thesis by (rule same_outline_trans)
  qed
qed auto

lemma same_outline_createObject:
  assumes "createObjectFromPrototype n roll skip p l w = Some (r, v)" and "holder_exists w (holderOf l)"
  shows "same_outline w v"
proof -
  have put: "same_outline w (put_object q w)" if "Object_Location q = l" for q
    using that assms(2) by (simp add: same_outline_put)
  have i: "Object_Location (instance_of w p pr l) = l" for pr
    by (simp add: instance_of_def)
  show ?thesis
    using assms(1) same_outline_clone_tree(1) [OF _ disjI1 [OF assms(2)]]
    by (auto simp: createObjectFromPrototype_def Let_def i intro!: put split: option.split_asm if_split_asm)
qed

subsection \<open>Ids\<close>

lemma object_ids_put_any:
  assumes "object_ids w" and "\<And>k. holderOf (Object_Location p) = InObject k \<Longrightarrow> k \<noteq> Object_ID p \<Longrightarrow> fmlookup (objects w) k \<noteq> None"
  shows "object_ids (put_object p w)"
  using assms unfolding object_ids_def put_object_def
  by (auto simp: lookup_add_objects mget_def split: if_splits option.splits)

lemma object_ids_drop: "object_ids w \<Longrightarrow> object_ids (drop_object i l w)"
  by (auto simp: object_ids_def drop_object_lookup lookup_remove_objects split: if_splits)

lemma object_ids_cong: "objects w' = objects w \<Longrightarrow> object_ids w' = object_ids w"
  by (simp add: object_ids_def)

lemma object_ids_delete_tree:
  "delete_tree n i seen w = Some (s, v) \<Longrightarrow> object_ids w \<Longrightarrow> object_ids v"
  "delete_children n is seen w = Some (s, v) \<Longrightarrow> object_ids w \<Longrightarrow> object_ids v"
proof (induction n i seen w and n "is" seen w arbitrary: s v and s v rule: delete_tree_delete_children.induct)
  case (2 fuel i seen w)
  show ?case
  proof (cases "IsZero i \<or> i \<in> set seen \<or> fmlookup (objects w) i = None")
    case False
    then obtain p where p: "fmlookup (objects w) i = Some p" by auto
    with False "2.prems"(1) obtain s' v' where
      d: "delete_children fuel (ObjectIDs (Object_Contents p)) (i # seen) (markObjectLocationDirty (Object_Location p) w) = Some (s', v')"
      and v: "v = drop_object i (Object_Location p) v'"
      by (auto split: option.splits)
    have "object_ids (markObjectLocationDirty (Object_Location p) w)"
      using "2.prems"(2) by (rule object_ids_cong [THEN iffD2, rotated]) simp
    then have "object_ids v'"
      using False by (intro "2.IH" [OF _ _ p d]) simp_all
    with v show ?thesis by (simp add: object_ids_drop)
  next
    case True
    with "2.prems" show ?thesis by (auto split: if_split_asm)
  qed
next
  case (4 fuel i "is" seen w)
  from "4.prems"(1) obtain s' u where "delete_tree fuel i seen w = Some (s', u)"
    and "delete_children fuel is s' u = Some (s, v)"
    by (auto split: option.splits)
  with "4.IH" "4.prems"(2) show ?case by blast
qed auto

lemma object_ids_deleteObjectTree: "object_ids w \<Longrightarrow> object_ids (deleteObjectTree i w)"
proof -
  obtain s where "delete_tree (Suc (card (fmdom' (objects w)) + 0)) i [] w = Some (s, deleteObjectTree i w)"
    using deleteObjectTree_run by blast
  then show "object_ids w \<Longrightarrow> object_ids (deleteObjectTree i w)"
    by (rule object_ids_delete_tree(1))
qed

lemma put_object_dom: "fmlookup (objects w) k \<noteq> None \<Longrightarrow> fmlookup (objects (put_object p w)) k \<noteq> None"
  "fmlookup (objects (put_object p w)) (Object_ID p) \<noteq> None"
  by (simp_all add: put_object_def lookup_add_objects)

lemma object_ids_clone_tree:
  "clone_tree n roll skip src l seen w = Some (r, v) \<Longrightarrow> object_ids w
     \<Longrightarrow> (\<And>k. holderOf l = InObject k \<Longrightarrow> fmlookup (objects w) k \<noteq> None)
     \<Longrightarrow> object_ids v \<and> (\<forall>d k. r = Inr d \<longrightarrow> fmlookup (objects w) k \<noteq> None \<longrightarrow> fmlookup (objects v) k \<noteq> None)"
  "clone_children n roll skip cs cid seen w = Some (r, v) \<Longrightarrow> object_ids w \<Longrightarrow> fmlookup (objects w) cid \<noteq> None
     \<Longrightarrow> object_ids v \<and> (\<forall>d k. r = Inr d \<longrightarrow> fmlookup (objects w) k \<noteq> None \<longrightarrow> fmlookup (objects v) k \<noteq> None)"
proof (induction n roll skip src l seen w and n roll skip cs cid seen w arbitrary: r v and r v
    rule: clone_tree_clone_children.induct)
  case (2 fuel roll skip src l seen w)
  show ?case
  proof (cases "src \<in> set seen \<or> fmlookup (objects w) src = None
      \<or> ObjectInstance_Validate (clone_of roll skip w src (mget zeroObject (objects w) src) l) \<noteq> None")
    case True
    with "2.prems"(1,2) show ?thesis
      by (auto simp: Let_def mget_def split: if_split_asm option.split_asm)
  next
    case False
    then obtain p where p: "fmlookup (objects w) src = Some p" by auto
    let ?c = "clone_of roll skip w src p l"
    have v: "ObjectInstance_Validate ?c = None"
      using False p by (simp add: mget_def)
    have "clone_children fuel roll skip (ObjectIDs (Object_Contents p)) (Object_ID ?c) (src # seen) (put_object ?c w) = Some (r, v)"
      using "2.prems"(1) False p v by (simp add: Let_def)
    moreover have "object_ids (put_object ?c w)"
      using "2.prems"(2,3) by (intro object_ids_put_any) auto
    ultimately have "object_ids v \<and> (\<forall>d k. r = Inr d \<longrightarrow> fmlookup (objects (put_object ?c w)) k \<noteq> None \<longrightarrow> fmlookup (objects v) k \<noteq> None)"
      using False put_object_dom(2) [of ?c w] by (intro "2.IH" [OF _ p refl v]) simp_all
    then show ?thesis
      using put_object_dom(1) by blast
  qed
next
  case (4 fuel roll skip c' cs cid seen w)
  from "4.prems"(1) obtain r' u where d: "clone_tree fuel roll skip c' (containerLocation cid) seen w = Some (r', u)"
    by (auto split: option.splits)
  have u: "object_ids u \<and> (\<forall>d k. r' = Inr d \<longrightarrow> fmlookup (objects w) k \<noteq> None \<longrightarrow> fmlookup (objects u) k \<noteq> None)"
    using "4.prems"(2,3) containerLocation_in [of cid] by (intro "4.IH"(1) [OF d]) auto
  show ?case
  proof (cases r')
    case (Inl e)
    with "4.prems"(1) d have "v = deleteObjectTree cid u" "\<exists>e. r = Inl e" by auto
    with u object_ids_deleteObjectTree show ?thesis by auto
  next
    case (Inr x)
    with "4.prems"(1) d have "clone_children fuel roll skip cs cid seen u = Some (r, v)" by simp
    with "4.IH"(2) [of "(r', u)" r' u x r v] d Inr u "4.prems"(3) show ?thesis by simp
  qed
qed auto

end
