(* ===== verification/Movement.thy ===== *)
theory Movement
  imports Outlines
begin

text \<open>
  Who may go where (\<^verbatim>\<open>player.go\<close>, \<^verbatim>\<open>room.go\<close>): the exits of a room, its level limits, its limit on
  players, the rooms kept for families and couples, and the exits one passes only without a load, for
  which the things a creature carries are weighed (\<^verbatim>\<open>object.go\<close>, \<^verbatim>\<open>creature.go\<close>).

  The restrictions of a room are read from its properties by ranges over a map; \<open>ord\<close> gives their order.
  A linked creature is \<open>Creature option\<close>: \<open>None\<close> when \<open>hasCreature\<close> is false.
\<close>

subsection \<open>Exits and flags of rooms\<close>

definition findExit :: "Room \<Rightarrow> string \<Rightarrow> Exit option" where
  "findExit room name = find (\<lambda>exit. Exit_Name exit = name) (Room_Exits room)"

definition blockedMoveExitFlag :: "Exit \<Rightarrow> string option" where
  "blockedMoveExitFlag exit =
     find (\<lambda>flag. normalizeFlagName flag \<in>
         {''closed'', ''xclosd'', ''xclosed'', ''locked'', ''xlockd'', ''xlocked'', ''nosee'', ''xnosee''})
       (Exit_Flags exit)"

definition moveRestrictionTokens :: "string \<Rightarrow> string list" where
  "moveRestrictionTokens value = fields_by flag_separator [] value"

definition roomHasAnyFlag :: "Room \<Rightarrow> string list \<Rightarrow> bool" where
  "roomHasAnyFlag room names =
     (hasAnyNormalizedFlag (Meta_Tags (Room_Metadata room)) names
      \<or> (let targets = normalizedFlagSet names
         in mex (\<lambda>key value.
              (normalizeFlagName key \<in> set targets \<and> propertyFlagEnabled value)
              \<or> list_ex (\<lambda>token. normalizeFlagName token \<in> set targets) (moveRestrictionTokens value))
            (Room_Properties room)))"

subsection \<open>Numbers of rooms\<close>

definition parseMoveIntValue :: "string \<Rightarrow> int option" where
  "parseMoveIntValue value = atoi (trimSpace value)"

definition roomSpecialValue :: "(string fset \<Rightarrow> string list) \<Rightarrow> Room \<Rightarrow> int option" where
  "roomSpecialValue ord room =
     (case fmlookup (Room_Properties room) ''special'' of
        Some raw \<Rightarrow> parseMoveIntValue raw
      | None \<Rightarrow>
          (case find (\<lambda>key. normalizeFlagName key = ''special'') (ord (fmdom (Room_Properties room))) of
             Some key \<Rightarrow> parseMoveIntValue (mget [] (Room_Properties room) key)
           | None \<Rightarrow> None))"

definition parseMoveLevelValue :: "string \<Rightarrow> int option" where
  "parseMoveLevelValue value =
     (case parseStateInt value of None \<Rightarrow> None | Some level \<Rightarrow> if level < 0 then None else Some level)"

definition cut_key :: "char \<Rightarrow> string \<Rightarrow> string \<Rightarrow> string option" where
  "cut_key sep value target =
     (case cut_byte sep value of
        None \<Rightarrow> None
      | Some (key, rawLevel) \<Rightarrow> if normalizeFlagName key = target then Some rawLevel else None)"

definition parseNamedMoveLevelLimit :: "string \<Rightarrow> string \<Rightarrow> int option" where
  "parseNamedMoveLevelLimit value target =
     (let value = trimSpace value
      in if value = [] then None
         else case first_some (\<lambda>sep. cut_key sep value target) [CHR '':'', CHR ''=''] of
           Some rawLevel \<Rightarrow> parseMoveLevelValue rawLevel
         | None \<Rightarrow>
             let normalized = normalizeFlagName value
             in if \<not> hasPrefix normalized target \<or> length normalized = length target then None
                else parseMoveLevelValue (drop (length target) normalized))"

definition appendNamedMoveLevelLimits :: "int list \<Rightarrow> string \<Rightarrow> string \<Rightarrow> int list" where
  "appendNamedMoveLevelLimits levels value target =
     levels @ List.map_filter (\<lambda>token. parseNamedMoveLevelLimit token target) (value # moveRestrictionTokens value)"

definition property_limits :: "string \<Rightarrow> int list \<Rightarrow> string \<times> string \<Rightarrow> int list" where
  "property_limits target levels kv =
     (case kv of (key, value) \<Rightarrow>
        appendNamedMoveLevelLimits
          (levels @ (if normalizeFlagName key = target
                     then case parseMoveLevelValue value of None \<Rightarrow> [] | Some level \<Rightarrow> [level] else []))
          value target)"

definition roomLevelLimits :: "(string fset \<Rightarrow> string list) \<Rightarrow> Room \<Rightarrow> string \<Rightarrow> int list" where
  "roomLevelLimits ord room name =
     (let target = normalizeFlagName name; props = Room_Properties room;
          levels = foldl (property_limits target) [] (map (\<lambda>key. (key, mget [] props key)) (ord (fmdom props)))
      in foldl (\<lambda>levels tag. appendNamedMoveLevelLimits levels tag target) levels (Meta_Tags (Room_Metadata room)))"

definition roomMinLevel :: "(string fset \<Rightarrow> string list) \<Rightarrow> Room \<Rightarrow> int option" where
  "roomMinLevel ord room =
     (case roomLevelLimits ord room ''minLevel'' of
        [] \<Rightarrow> None
      | level # levels \<Rightarrow> Some (foldl (\<lambda>minLevel level. if level > minLevel then level else minLevel) level levels))"

definition roomMaxLevel :: "(string fset \<Rightarrow> string list) \<Rightarrow> Room \<Rightarrow> int option" where
  "roomMaxLevel ord room =
     (case roomLevelLimits ord room ''maxLevel'' of
        [] \<Rightarrow> None
      | level # levels \<Rightarrow> Some (foldl (\<lambda>maxLevel level. if level < maxLevel then level else maxLevel) level levels))"

definition roomPlayerLimit :: "Room \<Rightarrow> int \<times> string" where
  "roomPlayerLimit room =
     foldl (\<lambda>(limit, name) (optionName, optionLimit).
          if roomHasAnyFlag room [optionName] \<and> (limit = 0 \<or> optionLimit < limit)
          then (optionLimit, optionName) else (limit, name))
       (0, []) [(''onePlayer'', 1), (''twoPlayers'', 2), (''threePlayers'', 3)]"

subsection \<open>Who is in a room\<close>

definition playerHasDMInvisibleFlag :: "World \<Rightarrow> Player \<Rightarrow> bool" where
  "playerHasDMInvisibleFlag w player =
     (if hasAnyNormalizedFlag (Meta_Tags (Player_Metadata player)) [''PDMINV'', ''dmInvisible''] then True
      else if IsZero (Player_CreatureID player) then False
      else case fmlookup (creatures w) (Player_CreatureID player) of
        None \<Rightarrow> False
      | Some creature \<Rightarrow> creatureHasDMInvisibleFlag creature)"

definition counted_player :: "World \<Rightarrow> PlayerID \<Rightarrow> bool" where
  "counted_player w playerID =
     (\<not> IsZero playerID
      \<and> (case fmlookup (players w) playerID of None \<Rightarrow> True | Some player \<Rightarrow> \<not> playerHasDMInvisibleFlag w player))"

definition counted_creature :: "World \<Rightarrow> PlayerID list \<Rightarrow> CreatureID \<Rightarrow> bool" where
  "counted_creature w seen creatureID =
     (case fmlookup (creatures w) creatureID of
        None \<Rightarrow> False
      | Some creature \<Rightarrow>
          \<not> IsZero (Creature_PlayerID creature) \<and> Creature_PlayerID creature \<notin> set seen
          \<and> \<not> creatureHasDMInvisibleFlag creature)"

definition roomVisiblePlayerCount :: "World \<Rightarrow> Room \<Rightarrow> int" where
  "roomVisiblePlayerCount w room =
     (let seen = filter (\<lambda>i. \<not> IsZero i) (Room_PlayerIDs room)
      in int (length (filter (counted_player w) (Room_PlayerIDs room))
              + length (filter (counted_creature w seen) (Room_CreatureIDs room))))"

subsection \<open>What a creature carries\<close>

definition objectOwnWeight :: "World \<Rightarrow> ObjectInstance \<Rightarrow> int" where
  "objectOwnWeight w object =
     (case parseMoveObjectWeight (mget [] (Object_Properties object) ''weight'') of
        Some weight \<Rightarrow> weight
      | None \<Rightarrow>
          if IsZero (Object_PrototypeID object) then 0
          else case fmlookup (prototypes w) (Object_PrototypeID object) of
            None \<Rightarrow> 0
          | Some proto \<Rightarrow>
              (case parseMoveObjectWeight (mget [] (Proto_Properties proto) ''weight'') of Some weight \<Rightarrow> weight | None \<Rightarrow> 0))"

definition objectWeightless :: "World \<Rightarrow> ObjectInstance \<Rightarrow> bool" where
  "objectWeightless w object =
     (if hasAnyNormalizedFlag (Meta_Tags (Object_Metadata object)) [''weightless'', ''owtles''] then True
      else if objectHasAnyPropertyFlag (Object_Properties object) [''weightless'', ''owtles''] then True
      else if IsZero (Object_PrototypeID object) then False
      else case fmlookup (prototypes w) (Object_PrototypeID object) of
        None \<Rightarrow> False
      | Some proto \<Rightarrow>
          hasAnyNormalizedFlag (Meta_Tags (Proto_Metadata proto)) [''weightless'', ''owtles'']
          \<or> objectHasAnyPropertyFlag (Proto_Properties proto) [''weightless'', ''owtles''])"

text \<open>
  The recursion of \<^verbatim>\<open>carriedObjectWeightLocked\<close> with its shared set of visited ids, and the loops that
  call it, as one loop over the list of what is still to be weighed: the contents of an object are
  weighed before what is left.  The first component is \<^verbatim>\<open>skipWeightless\<close>; sums wrap like \<^verbatim>\<open>int\<close>.
\<close>

function carriedObjectWeight :: "World \<Rightarrow> (bool \<times> ObjectInstanceID) list \<Rightarrow> ObjectInstanceID list \<Rightarrow> int \<Rightarrow> int" where
  "carriedObjectWeight w [] seen weight = weight"
| "carriedObjectWeight w ((skipWeightless, i) # rest) seen weight =
     (if IsZero i \<or> i \<in> set seen then carriedObjectWeight w rest seen weight
      else case fmlookup (objects w) i of
        None \<Rightarrow> carriedObjectWeight w rest (i # seen) weight
      | Some object \<Rightarrow>
          if skipWeightless \<and> objectWeightless w object then carriedObjectWeight w rest (i # seen) weight
          else carriedObjectWeight w (map (Pair True) (ObjectIDs (Object_Contents object)) @ rest) (i # seen)
                 (i64 (weight + objectOwnWeight w object)))"
  by pat_completeness auto
termination
proof (relation "measures [\<lambda>(w, todo, seen, weight). card (fmdom' (objects w) - set seen),
    \<lambda>(w, todo, seen, weight). length todo]")
  have fewer: "card (fmdom' (objects w) - insert i S) < card (fmdom' (objects w) - S)
      \<or> card (fmdom' (objects w) - insert i S) = card (fmdom' (objects w) - S)" for w :: World and i S
  proof -
    have "card (fmdom' (objects w) - insert i S) \<le> card (fmdom' (objects w) - S)"
      by (intro card_mono) auto
    then show ?thesis by linarith
  qed
  show "((w, rest, i # seen, weight), (w, (s, i) # rest, seen, weight))
      \<in> measures [\<lambda>(w, todo, seen, weight). card (fmdom' (objects w) - set seen), \<lambda>(w, todo, seen, weight). length todo]"
    for w :: World and s :: bool and i rest seen and weight :: int
    using fewer by auto
  then show "((w, rest, i # seen, weight), (w, (s, i) # rest, seen, weight))
      \<in> measures [\<lambda>(w, todo, seen, weight). card (fmdom' (objects w) - set seen), \<lambda>(w, todo, seen, weight). length todo]"
    for w :: World and s :: bool and i rest seen and weight :: int .
  fix w :: World and s :: bool and i rest seen object and weight :: int
  assume "\<not> (IsZero i \<or> i \<in> set seen)" "fmlookup (objects w) i = Some object"
  then have "i \<in> fmdom' (objects w) - set seen"
    by (simp add: fmdom'I)
  then have "card (fmdom' (objects w) - insert i (set seen)) < card (fmdom' (objects w) - set seen)"
    by (intro psubset_card_mono) auto
  then show "((w, map (Pair True) (ObjectIDs (Object_Contents object)) @ rest, i # seen,
        i64 (weight + objectOwnWeight w object)), (w, (s, i) # rest, seen, weight))
      \<in> measures [\<lambda>(w, todo, seen, weight). card (fmdom' (objects w) - set seen), \<lambda>(w, todo, seen, weight). length todo]"
    by simp
qed simp_all

definition creatureCarriedWeight :: "(string fset \<Rightarrow> string list) \<Rightarrow> World \<Rightarrow> Creature \<Rightarrow> int" where
  "creatureCarriedWeight ord w creature =
     carriedObjectWeight w
       (map (Pair True) (ObjectIDs (Creature_Inventory creature)) @ map (Pair False) (equipment_in ord creature)) [] 0"

subsection \<open>The restrictions of a move\<close>

definition movePlayerDMClass :: int where "movePlayerDMClass = 13"

definition movePlayerLevel :: "(string fset \<Rightarrow> string list) \<Rightarrow> Creature option \<Rightarrow> int" where
  "movePlayerLevel ord creature =
     (case creature of
        None \<Rightarrow> 0
      | Some creature \<Rightarrow>
          case fmlookup (Creature_Stats creature) ''level'' of
            Some level \<Rightarrow> level
          | None \<Rightarrow>
              if Creature_Level creature \<noteq> 0 then Creature_Level creature
              else (case stateCreatureIntValue ord creature ''level'' of Some level \<Rightarrow> level | None \<Rightarrow> 0))"

definition movePlayerClass :: "(string fset \<Rightarrow> string list) \<Rightarrow> Creature option \<Rightarrow> int" where
  "movePlayerClass ord creature =
     (case creature of None \<Rightarrow> 0 | Some creature \<Rightarrow> creatureStateClass ord creature)"

definition movePlayerCreatureHasFamilyFlag :: "Creature option \<Rightarrow> bool" where
  "movePlayerCreatureHasFamilyFlag creature =
     (case creature of
        None \<Rightarrow> False
      | Some creature \<Rightarrow>
          let targets = normalizedFlagSet [''familyFlag'', ''PFAMIL'']
          in mex (\<lambda>key value. normalizeFlagName key \<in> set targets \<and> value \<noteq> 0) (Creature_Stats creature)
             \<or> mex (\<lambda>key value. normalizeFlagName key \<in> set targets
                   \<and> (propertyFlagEnabled value
                      \<or> (case parseMoveIntValue value of None \<Rightarrow> False | Some parsed \<Rightarrow> parsed \<noteq> 0)))
                 (Creature_Properties creature))"

definition movePlayerCreatureHasIntValue :: "Creature option \<Rightarrow> int \<Rightarrow> string list \<Rightarrow> bool" where
  "movePlayerCreatureHasIntValue creature want names =
     (case creature of
        None \<Rightarrow> False
      | Some creature \<Rightarrow>
          let targets = normalizedFlagSet names
          in mex (\<lambda>key value. normalizeFlagName key \<in> set targets \<and> value = want) (Creature_Stats creature)
             \<or> mex (\<lambda>key value. normalizeFlagName key \<in> set targets \<and> parseMoveIntValue value = Some want)
                 (Creature_Properties creature))"

definition validateMovePlayerFamilyRestrictions ::
  "(string fset \<Rightarrow> string list) \<Rightarrow> World \<Rightarrow> Player \<Rightarrow> Room \<Rightarrow> Creature option \<Rightarrow> go_error option" where
  "validateMovePlayerFamilyRestrictions ord w player room creature =
     (if roomHasAnyFlag room [''family''] \<and> \<not> movePlayerCreatureHasFamilyFlag creature
      then Some (Errorf ''move player %q: target room %q family restriction: linked creature missing family flag''
                   [Player_ID player, Room_ID room])
      else
        let playerClass = movePlayerClass ord creature; roomSpecial = roomSpecialValue ord room;
            has = (\<lambda>names. case roomSpecial of
                     None \<Rightarrow> False | Some special \<Rightarrow> movePlayerCreatureHasIntValue creature special names)
        in if roomHasAnyFlag room [''onlyFamily'', ''familyOnly'', ''ronfml''] \<and> playerClass < movePlayerDMClass
              \<and> \<not> has [''familyID'', ''dailyExpndMax'', ''legacyDailyExpndMax'']
           then Some (Errorf ''move player %q: target room %q onlyFamily restriction: linked creature family does not match room special''
                        [Player_ID player, Room_ID room])
           else if roomHasAnyFlag room [''onlyMarried'', ''marriedOnly'', ''ronmar''] \<and> playerClass < movePlayerDMClass
              \<and> \<not> has [''marriageID'', ''dailyMarriageMax'', ''legacyDailyMarriageMax'']
              \<and> (case roomSpecial of None \<Rightarrow> True | Some special \<Rightarrow> \<not> hasMarriageInvite w player special)
           then Some (Errorf ''move player %q: target room %q onlyMarried restriction: linked creature marriage does not match room special''
                        [Player_ID player, Room_ID room])
           else None)"

definition validateMovePlayerRestrictions ::
  "(string fset \<Rightarrow> string list) \<Rightarrow> World \<Rightarrow> Player \<Rightarrow> string \<Rightarrow> Exit \<Rightarrow> Room \<Rightarrow> Creature option \<Rightarrow> go_error option" where
  "validateMovePlayerRestrictions ord w player exitName exit toRoom creature =
     (let level = movePlayerLevel ord creature; playerCount = roomVisiblePlayerCount w toRoom;
          (limit, name) = roomPlayerLimit toRoom;
          weight = (case creature of None \<Rightarrow> 0 | Some creature \<Rightarrow> creatureCarriedWeight ord w creature)
      in case (case roomMinLevel ord toRoom of None \<Rightarrow> None | Some minLevel \<Rightarrow> if level < minLevel then Some minLevel else None) of
        Some minLevel \<Rightarrow>
          Some (Errorf ''move player %q: target room %q minLevel restriction: player level %d below %d''
                  [Player_ID player, Room_ID toRoom, itoa level, itoa minLevel])
      | None \<Rightarrow>
      (case (case roomMaxLevel ord toRoom of None \<Rightarrow> None | Some maxLevel \<Rightarrow> if level > maxLevel then Some maxLevel else None) of
        Some maxLevel \<Rightarrow>
          Some (Errorf ''move player %q: target room %q maxLevel restriction: player level %d above %d''
                  [Player_ID player, Room_ID toRoom, itoa level, itoa maxLevel])
      | None \<Rightarrow>
         if limit > 0 \<and> playerCount \<ge> limit
         then Some (Errorf ''move player %q: target room %q %s restriction: player count %d at limit %d''
                      [Player_ID player, Room_ID toRoom, name, itoa playerCount, itoa limit])
         else case validateMovePlayerFamilyRestrictions ord w player toRoom creature of
           Some err \<Rightarrow> Some err
         | None \<Rightarrow>
             if exitHasAnyFlag exit [''naked'', ''xnaked''] \<and> weight \<noteq> 0
             then Some (Errorf ''move player %q: exit %q naked restriction: linked creature %q carried weight %d''
                          [Player_ID player, exitName, (case creature of None \<Rightarrow> [] | Some c \<Rightarrow> Creature_ID c), itoa weight])
             else None))"

subsection \<open>Level limits without the loops\<close>

text \<open>The numbers a property or a tag sets as limit \<open>target\<close>.\<close>

definition named_limits :: "string \<Rightarrow> string \<Rightarrow> int set" where
  "named_limits target value =
     {level. \<exists>token \<in> set (value # moveRestrictionTokens value). parseNamedMoveLevelLimit token target = Some level}"

definition level_limits :: "Room \<Rightarrow> string \<Rightarrow> int set" where
  "level_limits room name =
     (let target = normalizeFlagName name in
      {level. \<exists>key value. fmlookup (Room_Properties room) key = Some value
         \<and> (normalizeFlagName key = target \<and> parseMoveLevelValue value = Some level \<or> level \<in> named_limits target value)}
      \<union> (\<Union>tag \<in> set (Meta_Tags (Room_Metadata room)). named_limits target tag))"

lemma set_map_filter: "set (List.map_filter f xs) = {y. \<exists>x \<in> set xs. f x = Some y}"
  by (induction xs) (auto simp: List.map_filter_simps split: option.split)

lemma set_appendNamed: "set (appendNamedMoveLevelLimits levels value target) = set levels \<union> named_limits target value"
  unfolding appendNamedMoveLevelLimits_def named_limits_def set_append set_map_filter ..

lemma set_property_limits:
  "set (property_limits target levels (key, value)) = set levels
     \<union> {level. normalizeFlagName key = target \<and> parseMoveLevelValue value = Some level} \<union> named_limits target value"
  unfolding property_limits_def prod.case set_appendNamed set_append
  by (cases "normalizeFlagName key = target"; cases "parseMoveLevelValue value"; simp)

lemma set_foldl_un: "(\<And>acc x. set (f acc x) = set acc \<union> g x) \<Longrightarrow> set (foldl f acc xs) = set acc \<union> (\<Union>x \<in> set xs. g x)"
  by (induction xs arbitrary: acc) auto

lemma set_roomLevelLimits: "key_order ord \<Longrightarrow> set (roomLevelLimits ord room name) = level_limits room name"
proof -
  assume ord: "key_order ord"
  define t where "t = normalizeFlagName name"
  have "set (foldl (property_limits t) [] xs)
      = (\<Union>kv \<in> set xs. {level. normalizeFlagName (fst kv) = t \<and> parseMoveLevelValue (snd kv) = Some level}
           \<union> named_limits t (snd kv))" for xs
    by (subst set_foldl_un) (auto simp: set_property_limits)
  then have *: "set (roomLevelLimits ord room name)
      = (\<Union>kv \<in> set (map (\<lambda>key. (key, mget [] (Room_Properties room) key)) (ord (fmdom (Room_Properties room)))).
           {level. normalizeFlagName (fst kv) = t \<and> parseMoveLevelValue (snd kv) = Some level} \<union> named_limits t (snd kv))
        \<union> (\<Union>tag \<in> set (Meta_Tags (Room_Metadata room)). named_limits t tag)"
    unfolding roomLevelLimits_def Let_def t_def [symmetric] by (simp add: set_foldl_un [OF set_appendNamed])
  have kv: "set (map (\<lambda>key. (key, mget [] (Room_Properties room) key)) (ord (fmdom (Room_Properties room))))
      = {(k, v). fmlookup (Room_Properties room) k = Some v}"
    using set_key_order [OF ord] by (auto simp: mget_def image_iff fmdomI fmlookup_dom_iff)
  show ?thesis
    unfolding * kv level_limits_def Let_def t_def [symmetric] by fastforce
qed

lemma foldl_upper:
  fixes m :: int
  shows "level < foldl (\<lambda>m l. if l > m then l else m) m ls \<longleftrightarrow> level < m \<or> (\<exists>l \<in> set ls. level < l)"
  by (induction ls arbitrary: m) auto

lemma foldl_lower:
  fixes m :: int
  shows "level > foldl (\<lambda>m l. if l < m then l else m) m ls \<longleftrightarrow> level > m \<or> (\<exists>l \<in> set ls. level > l)"
  by (induction ls arbitrary: m) auto

lemma roomMinLevel_below:
  "key_order ord \<Longrightarrow> (case roomMinLevel ord room of None \<Rightarrow> None | Some m \<Rightarrow> if level < m then Some m else None) = None
     \<longleftrightarrow> (\<forall>l \<in> level_limits room ''minLevel''. l \<le> level)"
  unfolding set_roomLevelLimits [symmetric] roomMinLevel_def
  by (cases "roomLevelLimits ord room ''minLevel''") (simp_all add: foldl_upper, meson not_le)

lemma roomMaxLevel_above:
  "key_order ord \<Longrightarrow> (case roomMaxLevel ord room of None \<Rightarrow> None | Some m \<Rightarrow> if level > m then Some m else None) = None
     \<longleftrightarrow> (\<forall>l \<in> level_limits room ''maxLevel''. level \<le> l)"
  unfolding set_roomLevelLimits [symmetric] roomMaxLevel_def
  by (cases "roomLevelLimits ord room ''maxLevel''") (simp_all add: foldl_lower, meson not_le)

lemma roomPlayerLimit_reached:
  "(case roomPlayerLimit room of (limit, name) \<Rightarrow> 0 < limit \<and> limit \<le> n)
     \<longleftrightarrow> (roomHasAnyFlag room [''onePlayer''] \<and> 1 \<le> n \<or> roomHasAnyFlag room [''twoPlayers''] \<and> 2 \<le> n
          \<or> roomHasAnyFlag room [''threePlayers''] \<and> 3 \<le> n)"
  by (auto simp: roomPlayerLimit_def)

lemma restrictions_None:
  "(case a of Some m \<Rightarrow> Some (f m)
    | None \<Rightarrow>
        (case b of Some m \<Rightarrow> Some (g m)
         | None \<Rightarrow>
             if c then Some e
             else case v of Some err \<Rightarrow> Some err | None \<Rightarrow> if d then Some e' else None)) = None
     \<longleftrightarrow> a = None \<and> b = None \<and> \<not> c \<and> v = None \<and> \<not> d"
  by (simp split: option.split)

lemma move_allowed_iff:
  assumes "key_order ord"
  shows "validateMovePlayerRestrictions ord w player exitName exit room creature = None
     \<longleftrightarrow> (\<forall>l \<in> level_limits room ''minLevel''. l \<le> movePlayerLevel ord creature)
       \<and> (\<forall>l \<in> level_limits room ''maxLevel''. movePlayerLevel ord creature \<le> l)
       \<and> (roomHasAnyFlag room [''onePlayer''] \<longrightarrow> roomVisiblePlayerCount w room < 1)
       \<and> (roomHasAnyFlag room [''twoPlayers''] \<longrightarrow> roomVisiblePlayerCount w room < 2)
       \<and> (roomHasAnyFlag room [''threePlayers''] \<longrightarrow> roomVisiblePlayerCount w room < 3)
       \<and> (roomHasAnyFlag room [''family''] \<longrightarrow> movePlayerCreatureHasFamilyFlag creature)
       \<and> (roomHasAnyFlag room [''onlyFamily'', ''familyOnly'', ''ronfml''] \<and> movePlayerClass ord creature < 13
          \<longrightarrow> (\<exists>special. roomSpecialValue ord room = Some special
                \<and> movePlayerCreatureHasIntValue creature special [''familyID'', ''dailyExpndMax'', ''legacyDailyExpndMax'']))
       \<and> (roomHasAnyFlag room [''onlyMarried'', ''marriedOnly'', ''ronmar''] \<and> movePlayerClass ord creature < 13
          \<longrightarrow> (\<exists>special. roomSpecialValue ord room = Some special
                \<and> (movePlayerCreatureHasIntValue creature special [''marriageID'', ''dailyMarriageMax'', ''legacyDailyMarriageMax'']
                   \<or> hasMarriageInvite w player special)))
       \<and> (exitHasAnyFlag exit [''naked'', ''xnaked''] \<longrightarrow> (\<forall>c. creature = Some c \<longrightarrow> creatureCarriedWeight ord w c = 0))"
    (is "?v = None \<longleftrightarrow> ?lo \<and> ?hi \<and> ?one \<and> ?two \<and> ?three \<and> ?rest")
proof -
  let ?n = "roomVisiblePlayerCount w room"
  obtain limit name where l: "roomPlayerLimit room = (limit, name)" by fastforce
  have limit: "\<not> (0 < limit \<and> limit \<le> ?n) \<longleftrightarrow> ?one \<and> ?two \<and> ?three"
    using roomPlayerLimit_reached [of ?n room] by (auto simp: l not_le)
  have families: "validateMovePlayerFamilyRestrictions ord w player room creature = None \<and> \<not> (exitHasAnyFlag exit [''naked'', ''xnaked'']
        \<and> (case creature of None \<Rightarrow> 0 | Some c \<Rightarrow> creatureCarriedWeight ord w c) \<noteq> 0) \<longleftrightarrow> ?rest"
    by (cases "roomSpecialValue ord room"; cases creature)
      (auto simp: validateMovePlayerFamilyRestrictions_def movePlayerDMClass_def Let_def)
  show ?thesis
    unfolding validateMovePlayerRestrictions_def Let_def l prod.case restrictions_None
      roomMinLevel_below [OF assms] roomMaxLevel_above [OF assms] limit families conj_assoc ..
qed

text \<open>A move is allowed exactly when the player's level is within every limit the target room's properties
  and tags set, the room has space for one more, its family and marriage rules admit the player's creature, and the
  creature carries no weight through an exit for the naked.\<close>

theorem Move_allowed:
  assumes "key_order ord"
  shows "validateMovePlayerRestrictions ord w player exitName exit room creature = None
     \<longleftrightarrow> (\<forall>l \<in> level_limits room ''minLevel''. l \<le> movePlayerLevel ord creature)
       \<and> (\<forall>l \<in> level_limits room ''maxLevel''. movePlayerLevel ord creature \<le> l)
       \<and> (roomHasAnyFlag room [''onePlayer''] \<longrightarrow> roomVisiblePlayerCount w room < 1)
       \<and> (roomHasAnyFlag room [''twoPlayers''] \<longrightarrow> roomVisiblePlayerCount w room < 2)
       \<and> (roomHasAnyFlag room [''threePlayers''] \<longrightarrow> roomVisiblePlayerCount w room < 3)
       \<and> (roomHasAnyFlag room [''family''] \<longrightarrow> movePlayerCreatureHasFamilyFlag creature)
       \<and> (roomHasAnyFlag room [''onlyFamily'', ''familyOnly'', ''ronfml''] \<and> movePlayerClass ord creature < 13
          \<longrightarrow> (\<exists>special. roomSpecialValue ord room = Some special
                \<and> movePlayerCreatureHasIntValue creature special [''familyID'', ''dailyExpndMax'', ''legacyDailyExpndMax'']))
       \<and> (roomHasAnyFlag room [''onlyMarried'', ''marriedOnly'', ''ronmar''] \<and> movePlayerClass ord creature < 13
          \<longrightarrow> (\<exists>special. roomSpecialValue ord room = Some special
                \<and> (movePlayerCreatureHasIntValue creature special [''marriageID'', ''dailyMarriageMax'', ''legacyDailyMarriageMax'']
                   \<or> hasMarriageInvite w player special)))
       \<and> (exitHasAnyFlag exit [''naked'', ''xnaked''] \<longrightarrow> (\<forall>c. creature = Some c \<longrightarrow> creatureCarriedWeight ord w c = 0))"
  using assms by (rule move_allowed_iff)

subsection \<open>The load of a creature\<close>

text \<open>
  What is weighed when \<open>i\<close> is: \<open>i\<close> and, as long as no object is without weight, what is in it.
\<close>

definition heavy :: "World \<Rightarrow> ObjectInstanceID \<Rightarrow> bool" where
  "heavy w i \<longleftrightarrow> (case fmlookup (objects w) i of None \<Rightarrow> False | Some object \<Rightarrow> \<not> objectWeightless w object)"

inductive laden :: "World \<Rightarrow> ObjectInstanceID \<Rightarrow> ObjectInstanceID \<Rightarrow> bool" for w where
  laden_self: "laden w i i"
| laden_in: "laden w i k \<Longrightarrow> container_of w j = Some k \<Longrightarrow> heavy w j \<Longrightarrow> laden w i j"

definition weighed :: "World \<Rightarrow> (bool \<times> ObjectInstanceID) list \<Rightarrow> ObjectInstanceID set" where
  "weighed w todo = {j. \<exists>s i. (s, i) \<in> set todo \<and> fmlookup (objects w) i \<noteq> None \<and> (s \<longrightarrow> heavy w i) \<and> laden w i j}"

definition weight_of :: "World \<Rightarrow> ObjectInstanceID \<Rightarrow> int" where
  "weight_of w i = objectOwnWeight w (mget zeroObject (objects w) i)"

lemma laden_inside: "laden w i j \<Longrightarrow> inside w j i"
  by (induction rule: laden.induct) (auto intro: inside.intros)

lemma laden_first: "laden w i j \<longleftrightarrow> j = i \<or> (\<exists>c. container_of w c = Some i \<and> heavy w c \<and> laden w c j)"
proof
  show "laden w i j \<Longrightarrow> j = i \<or> (\<exists>c. container_of w c = Some i \<and> heavy w c \<and> laden w c j)"
    by (induction rule: laden.induct) (auto intro: laden.intros)
next
  have "laden w c j \<Longrightarrow> container_of w c = Some i \<Longrightarrow> heavy w c \<Longrightarrow> laden w i j" for c
    by (induction rule: laden.induct) (blast intro: laden.intros)+
  then show "j = i \<or> (\<exists>c. container_of w c = Some i \<and> heavy w c \<and> laden w c j) \<Longrightarrow> laden w i j"
    by (auto intro: laden.intros)
qed

text \<open>The trees that are still to be weighed do not overlap and nothing in them has been visited.\<close>

definition apart :: "World \<Rightarrow> ObjectInstanceID list \<Rightarrow> ObjectInstanceID list \<Rightarrow> bool" where
  "apart w is seen \<longleftrightarrow> distinct is \<and> (\<forall>i \<in> set is. \<forall>j \<in> set is. inside w i j \<longrightarrow> i = j)
     \<and> (\<forall>i \<in> set is. \<forall>x \<in> set seen. \<not> inside w x i)"

lemma weighed_Nil [simp]: "weighed w [] = {}"
  by (simp add: weighed_def)

lemma weighed_append: "weighed w (xs @ ys) = weighed w xs \<union> weighed w ys"
  unfolding weighed_def set_append by blast

lemma weighed_skip: "fmlookup (objects w) i = None \<or> s \<and> \<not> heavy w i \<Longrightarrow> weighed w ((s, i) # rest) = weighed w rest"
  by (auto simp: weighed_def)

lemma weighed_open:
  assumes "fmlookup (objects w) i = Some p" and "\<not> (s \<and> \<not> heavy w i)"
    and mem: "\<And>c. c \<in> set (ObjectIDs (Object_Contents p)) \<longleftrightarrow> container_of w c = Some i"
  shows "weighed w ((s, i) # rest) = insert i (weighed w (map (Pair True) (ObjectIDs (Object_Contents p)) @ rest))"
proof -
  have "weighed w [(s, i)] = {j. laden w i j}"
    using assms(1,2) by (auto simp: weighed_def)
  also have "\<dots> = insert i (weighed w (map (Pair True) (ObjectIDs (Object_Contents p))))"
    using laden_first [of w i] mem by (fastforce simp: weighed_def image_iff container_of_lookup)
  finally show ?thesis
    using weighed_append [of w "[(s, i)]" rest] weighed_append [of w "map (Pair True) (ObjectIDs (Object_Contents p))" rest]
    by simp
qed

lemma weighed_fresh:
  assumes "apart w (map snd todo) (i # seen)"
  shows "i \<notin> weighed w todo"
proof
  assume "i \<in> weighed w todo"
  then obtain s c where "(s, c) \<in> set todo" and "laden w c i"
    by (auto simp: weighed_def)
  then have "c \<in> set (map snd todo)" and "inside w i c"
    using laden_inside by (force, blast)
  with assms show False
    unfolding apart_def by (meson list.set_intros(1))
qed

lemma finite_weighed: "finite (weighed w todo)"
proof (rule finite_subset)
  show "weighed w todo \<subseteq> fmdom' (objects w)"
  proof
    fix j
    assume "j \<in> weighed w todo"
    then obtain i where "fmlookup (objects w) i \<noteq> None" and "laden w i j"
      by (auto simp: weighed_def)
    then have "fmlookup (objects w) j \<noteq> None"
      by (cases rule: laden.cases [OF \<open>laden w i j\<close>]) (auto simp: container_of_lookup)
    then show "j \<in> fmdom' (objects w)" by (auto intro: fmdom'I)
  qed
qed simp

text \<open>Once something is weighed or passed over, the trees below it and beside it are still apart.\<close>

lemma apart_rest: "apart w (i # is) seen \<Longrightarrow> apart w is (i # seen)"
  by (auto simp: apart_def)

lemma apart_open:
  assumes wh: "well_held w" and cs: "distinct cs" "\<And>c. c \<in> set cs \<Longrightarrow> container_of w c = Some i"
    and a: "apart w (i # is) seen"
  shows "apart w (cs @ is) (i # seen)"
proof -
  have up: "inside w c j \<Longrightarrow> c \<noteq> j \<Longrightarrow> inside w i j" if "c \<in> set cs" for c j
    using cs(2) [OF that] by (auto elim: inside.cases)
  have down: "inside w x c \<Longrightarrow> inside w x i" if "c \<in> set cs" for c x
    using cs(2) [OF that] inside_child by blast
  have no: "\<not> inside w i c" if "c \<in> set cs" for c
    using acyclicD [OF wh cs(2) [OF that]] .
  have ai: "\<not> inside w i j" "\<not> inside w j i" if "j \<in> set is" for j
    using a that by (auto simp: apart_def)
  have "c \<notin> set is" if "c \<in> set cs" for c
    using down [OF that inside_refl] ai(2) by blast
  then have "distinct (cs @ is)"
    using cs(1) a by (auto simp: apart_def)
  moreover have "x = y" if "x \<in> set (cs @ is)" "y \<in> set (cs @ is)" "inside w x y" for x y
    using that up [of x y] down [of y x] no ai a by (auto simp: apart_def)
  moreover have "\<not> inside w x y" if "y \<in> set (cs @ is)" "x \<in> set (i # seen)" for x y
    using that no ai down [of y x] a by (auto simp: apart_def)
  ultimately show ?thesis
    by (simp add: apart_def)
qed

lemma weigh_sum:
  "well_held w \<Longrightarrow> fmlookup (objects w) [] = None \<Longrightarrow> apart w (map snd todo) seen \<Longrightarrow> in_i64 weight
     \<Longrightarrow> carriedObjectWeight w todo seen weight = i64 (weight + (\<Sum>j \<in> weighed w todo. weight_of w j))"
proof (induction w todo seen weight rule: carriedObjectWeight.induct)
  case (2 w s i rest seen weight)
  note a = "2.prems"(3)
  have i: "i \<notin> set seen"
    using a inside_refl [of w i] by (auto simp: apart_def)
  have rest: "apart w (map snd rest) (i # seen)" "apart w (map snd rest) seen"
    using a apart_rest [of w i "map snd rest" seen] by (simp_all add: apart_def)
  show ?case
  proof (cases "fmlookup (objects w) i = None \<or> s \<and> \<not> heavy w i")
    case True
    have "carriedObjectWeight w ((s, i) # rest) seen weight = i64 (weight + (\<Sum>j \<in> weighed w rest. weight_of w j))"
      using True "2.IH"(1,2,3) "2.prems" rest i by (auto simp: heavy_def split: option.split)
    with weighed_skip [OF True] show ?thesis by simp
  next
    case False
    then obtain p where p: "fmlookup (objects w) i = Some p" and s: "\<not> (s \<and> objectWeightless w p)"
      by (auto simp: heavy_def)
    have ni: "\<not> (IsZero i \<or> i \<in> set seen)"
      using p "2.prems"(2) i by auto
    let ?cs = "ObjectIDs (Object_Contents p)"
    have mem: "c \<in> set ?cs \<longleftrightarrow> container_of w c = Some i" for c
      using holders_agree_iff [OF well_heldD(1) [OF "2.prems"(1)], of c "InObject i"] p
      by (simp add: refs_def well_held_container [OF "2.prems"(1)])
    have "distinct ?cs"
      using holders_agree_distinct [OF well_heldD(1) [OF "2.prems"(1)], of "InObject i"] p by (simp add: refs_def)
    then have "apart w (?cs @ map snd rest) (i # seen)"
      using mem a by (intro apart_open [OF "2.prems"(1)]) simp_all
    then have ap: "apart w (map snd (map (Pair True) ?cs @ rest)) (i # seen)"
      by (simp add: o_def)
    let ?W = "weighed w (map (Pair True) ?cs @ rest)"
    have "carriedObjectWeight w ((s, i) # rest) seen weight
        = carriedObjectWeight w (map (Pair True) ?cs @ rest) (i # seen) (i64 (weight + objectOwnWeight w p))"
      using ni p s by auto
    also have "\<dots> = i64 (i64 (weight + objectOwnWeight w p) + (\<Sum>j \<in> ?W. weight_of w j))"
      by (rule "2.IH"(4) [OF ni p s "2.prems"(1,2) ap in_i64_i64])
    also have "\<dots> = i64 (weight + (weight_of w i + (\<Sum>j \<in> ?W. weight_of w j)))"
      using p by (simp add: i64_add_left weight_of_def mget_def add.assoc)
    also have "weight_of w i + (\<Sum>j \<in> ?W. weight_of w j) = (\<Sum>j \<in> insert i ?W. weight_of w j)"
      using weighed_fresh [OF ap] by (simp add: finite_weighed)
    also have "insert i ?W = weighed w ((s, i) # rest)"
      using weighed_open [OF p] s p mem by (simp add: heavy_def)
    finally show ?thesis .
  qed
qed simp

text \<open>What has been visited adds nothing.\<close>

lemma weigh_seen: "list_all (\<lambda>(s, i). i = [] \<or> i \<in> set seen) worn \<Longrightarrow> carriedObjectWeight w worn seen weight = weight"
  by (induction worn) auto

lemma weigh_worn:
  "list_all (\<lambda>(s, i). i = [] \<or> i \<in> set seen \<union> snd ` set todo) worn
     \<Longrightarrow> carriedObjectWeight w (todo @ worn) seen weight = carriedObjectWeight w todo seen weight"
proof (induction w todo seen weight rule: carriedObjectWeight.induct)
  case (1 w seen weight)
  then show ?case by (simp add: weigh_seen)
next
  case (2 w s i rest seen weight)
  have worn: "list_all (\<lambda>(s, i). i = [] \<or> i \<in> set (i' # seen) \<union> snd ` set (more @ rest)) worn" if "i' = i" for i' more
    using "2.prems" that by (auto simp: list_all_iff)
  have skipped: "list_all (\<lambda>(s, i). i = [] \<or> i \<in> set seen \<union> snd ` set rest) worn" if "IsZero i \<or> i \<in> set seen"
    using "2.prems" that by (auto simp: list_all_iff)
  show ?case
  proof (cases "IsZero i \<or> i \<in> set seen")
    case True
    with "2.IH"(1) [OF True skipped [OF True]] show ?thesis by simp
  next
    case False
    show ?thesis
    proof (cases "fmlookup (objects w) i")
      case None
      with False "2.IH"(2) [OF False None] worn [OF refl, of "[]"] show ?thesis by simp
    next
      case (Some p)
      show ?thesis
      proof (cases "s \<and> objectWeightless w p")
        case True
        with False Some "2.IH"(3) [OF False Some True] worn [OF refl, of "[]"] show ?thesis by simp
      next
        case light: False
        with False Some "2.IH"(4) [OF False Some light] worn [OF refl, of "map (Pair True) (ObjectIDs (Object_Contents p))"]
        show ?thesis by auto
      qed
    qed
  qed
qed

text \<open>The walk with its set of visited ids weighs every object a creature carries once: the result is the sum,
  in 64 bits, of the weights of its inventory and of what lies in it, down to objects without weight.  Worn things are
  on the inventory list too, so the second loop, which means to count even the weightless ones, finds all of them
  visited and adds nothing.\<close>

theorem Carried_weight_sums:
  assumes "well_held w" and "fmlookup (creatures w) c = Some cr" and "fmlookup (objects w) [] = None" and "key_order ord"
    and "\<And>slot i. fmlookup (Creature_Equipment cr) slot = Some i \<Longrightarrow> i = [] \<or> i \<in> set (ObjectIDs (Creature_Inventory cr))"
  shows "creatureCarriedWeight ord w cr
     = i64 (\<Sum>j \<in> {j. \<exists>i \<in> set (ObjectIDs (Creature_Inventory cr)). heavy w i \<and> laden w i j}. weight_of w j)"
proof -
  let ?inv = "ObjectIDs (Creature_Inventory cr)"
  have inv: "i \<in> set ?inv \<longleftrightarrow> where_is w i = Some (OnCreature c)" for i
    using holders_agree_iff [OF well_heldD(1) [OF assms(1)], of i "OnCreature c"] assms(2) by (simp add: refs_def)
  have "distinct ?inv"
    using holders_agree_distinct [OF well_heldD(1) [OF assms(1)], of "OnCreature c"] assms(2) by (simp add: refs_def)
  moreover have "x = y" if "x \<in> set ?inv" "y \<in> set ?inv" "inside w x y" for x y
    using carried_apart [of w x c y x] that inv assms(1) inside_refl by blast
  ultimately have apart: "apart w (map snd (map (Pair True) ?inv)) []"
    by (simp add: apart_def o_def)
  have "list_all (\<lambda>(s, i). i = [] \<or> i \<in> set [] \<union> snd ` set (map (Pair True) ?inv)) (map (Pair False) (equipment_in ord cr))"
    using assms(5) set_key_order [OF assms(4)]
    by (fastforce simp: list_all_iff equipment_in_def image_iff mget_def fmlookup_dom_iff split: option.split)
  then have "creatureCarriedWeight ord w cr = carriedObjectWeight w (map (Pair True) ?inv) [] 0"
    unfolding creatureCarriedWeight_def by (rule weigh_worn)
  also have "\<dots> = i64 (0 + (\<Sum>j \<in> weighed w (map (Pair True) ?inv). weight_of w j))"
    by (rule weigh_sum [OF assms(1,3) apart]) (simp add: in_i64_def)
  also have "weighed w (map (Pair True) ?inv) = {j. \<exists>i \<in> set ?inv. heavy w i \<and> laden w i j}"
    by (auto simp: weighed_def heavy_def split: option.splits)
  finally show ?thesis by simp
qed

subsection \<open>Witnesses\<close>

definition demoCloak :: ObjectInstance where
  "demoCloak = zeroObject\<lparr>Object_ID := ''cloak'', Object_Location := zeroLocation\<lparr>Loc_CreatureID := ''c9'', Loc_Slot := ''body''\<rparr>,
     Object_Properties := fmap_of_list [(''weight'', ''5'')], Object_Metadata := noMetadata\<lparr>Meta_Tags := [''weightless'']\<rparr>\<rparr>"

definition demoBag :: ObjectInstance where
  "demoBag = zeroObject\<lparr>Object_ID := ''bag'', Object_Location := zeroLocation\<lparr>Loc_CreatureID := ''c9'', Loc_Slot := ''inventory''\<rparr>,
     Object_Properties := fmap_of_list [(''weight'', ''3'')]\<rparr>"

definition demoStone :: ObjectInstance where
  "demoStone = zeroObject\<lparr>Object_ID := ''stone'', Object_Location := zeroLocation\<lparr>Loc_ContainerID := ''bag''\<rparr>,
     Object_Properties := fmap_of_list [(''weight'', ''9'')]\<rparr>"

definition demoLoad :: World where
  "demoLoad = put_object demoStone (put_object demoBag (put_object demoCloak demoArena))"

lemma well_held_demoLoad: "well_held demoLoad"
  unfolding demoLoad_def
  by (rule well_held_put [OF well_held_put [OF well_held_put [OF well_held_demoArena]]]; code_simp)

definition demoCarrier :: Creature where
  "demoCarrier = mget zeroCreature (creatures demoLoad) ''c9''"

lemma demoCarrier:
  "fmlookup (creatures demoLoad) ''c9'' = Some demoCarrier" "fmlookup (objects demoLoad) [] = None"
  "fmlookup (Creature_Equipment demoCarrier) slot = Some i \<Longrightarrow> i \<in> set (ObjectIDs (Creature_Inventory demoCarrier))"
proof -
  have "fmlookup (creatures demoLoad) ''c9'' \<noteq> None"
    by code_simp
  then show "fmlookup (creatures demoLoad) ''c9'' = Some demoCarrier"
    by (auto simp: demoCarrier_def mget_def)
  show "fmlookup (objects demoLoad) [] = None"
    by code_simp
  have "Creature_Equipment demoCarrier = fmap_of_list [(''body'', ''cloak'')]"
    "ObjectIDs (Creature_Inventory demoCarrier) = [''bag'', ''cloak'']"
    by code_simp+
  then show "fmlookup (Creature_Equipment demoCarrier) slot = Some i \<Longrightarrow> i \<in> set (ObjectIDs (Creature_Inventory demoCarrier))"
    by (simp split: if_splits)
qed

text \<open>The bag and the stone weigh, the cloak, though worn, does not.\<close>

theorem Carried_weight_sums_witness:
  "i64 (\<Sum>j \<in> {j. \<exists>i \<in> {''bag'', ''cloak''}. heavy demoLoad i \<and> laden demoLoad i j}. weight_of demoLoad j) = 12
     \<and> creatureCarriedWeight sorted_list_of_fset demoLoad demoCarrier = 12"
proof -
  have inv: "set (ObjectIDs (Creature_Inventory demoCarrier)) = {''bag'', ''cloak''}"
    by code_simp
  have "creatureCarriedWeight sorted_list_of_fset demoLoad demoCarrier = 12"
    by code_simp
  moreover have "creatureCarriedWeight sorted_list_of_fset demoLoad demoCarrier = i64 (\<Sum>j \<in> {j. \<exists>i \<in> {''bag'', ''cloak''}.
      heavy demoLoad i \<and> laden demoLoad i j}. weight_of demoLoad j)"
    unfolding inv [symmetric]
    by (rule Carried_weight_sums [OF well_held_demoLoad demoCarrier(1,2) key_order_sorted]) (simp add: demoCarrier(3))
  ultimately show ?thesis by simp
qed

theorem Move_allowed_witness:
  "\<exists>p. fmlookup (players demoLoad) ''p9'' = Some p
     \<and> validateMovePlayerRestrictions sorted_list_of_fset demoLoad p ''north''
         \<lparr>Exit_Name = ''north'', Exit_ToRoomID = ''r1'', Exit_Flags = [''xnaked''], Exit_Metadata = noMetadata\<rparr>
         (zeroRoom\<lparr>Room_ID := ''r1''\<rparr>) (Some demoCarrier) \<noteq> None"
proof -
  let ?e = "\<lparr>Exit_Name = ''north'', Exit_ToRoomID = ''r1'', Exit_Flags = [''xnaked''], Exit_Metadata = noMetadata\<rparr>"
  have "hasAnyNormalizedFlag [''xnaked''] [''naked'', ''xnaked'']"
    by code_simp
  moreover have "creatureCarriedWeight sorted_list_of_fset demoLoad demoCarrier = 12"
    by code_simp
  ultimately have naked: "exitHasAnyFlag ?e [''naked'', ''xnaked'']" "creatureCarriedWeight sorted_list_of_fset demoLoad demoCarrier \<noteq> 0"
    by (simp_all add: exitHasAnyFlag_def)
  have stopped: "validateMovePlayerRestrictions sorted_list_of_fset w p name e room (Some c) \<noteq> None"
    if "exitHasAnyFlag e [''naked'', ''xnaked'']" "creatureCarriedWeight sorted_list_of_fset w c \<noteq> 0" for w p name e room c
    using that unfolding Move_allowed [OF key_order_sorted] by simp
  have "fmlookup (players demoLoad) ''p9'' \<noteq> None"
    by code_simp
  moreover have "validateMovePlayerRestrictions sorted_list_of_fset demoLoad p ''north'' ?e (zeroRoom\<lparr>Room_ID := ''r1''\<rparr>)
      (Some demoCarrier) \<noteq> None" for p
    using stopped [OF naked] .
  ultimately show ?thesis by blast
qed

end
