(* ===== verification/Occupancy.thy ===== *)
theory Occupancy
  imports Movement
begin

text \<open>
  Rooms and their occupants (\<^verbatim>\<open>player.go\<close>, \<^verbatim>\<open>room.go\<close>): players and creatures name the room they are in,
  and every room lists who is in it.  \<open>seated\<close> says that the two agree, and that a player and the linked creature
  are in one room; loading establishes it, and moves, arrivals, spawns and deaths keep it.
\<close>

subsection \<open>The lists of a loaded world\<close>

text \<open>The loop of the two filters: each id once, without those that are elsewhere.\<close>

fun filter_once :: "('a \<Rightarrow> bool) \<Rightarrow> 'a list \<Rightarrow> 'a list \<Rightarrow> 'a list" where
  "filter_once P seen [] = []"
| "filter_once P seen (i # is) =
     (if i \<in> set seen \<or> \<not> P i then filter_once P seen is else i # filter_once P (i # seen) is)"

definition filterRoomPlayerIDs :: "RoomID \<Rightarrow> PlayerID list \<Rightarrow> (PlayerID, Player) fmap \<Rightarrow> PlayerID list" where
  "filterRoomPlayerIDs roomID ids ps =
     filter_once (\<lambda>i. \<not> IsZero i
       \<and> (case fmlookup ps i of None \<Rightarrow> True | Some player \<Rightarrow> Player_RoomID player = roomID)) [] ids"

definition filterRoomCreatureIDs :: "RoomID \<Rightarrow> CreatureID list \<Rightarrow> (CreatureID, Creature) fmap \<Rightarrow> CreatureID list" where
  "filterRoomCreatureIDs roomID ids cs =
     filter_once (\<lambda>i. \<not> IsZero i
       \<and> (case fmlookup cs i of None \<Rightarrow> True | Some creature \<Rightarrow> Creature_RoomID creature = roomID)) [] ids"

definition seat_player :: "World \<Rightarrow> PlayerID \<Rightarrow> World" where
  "seat_player w i =
     (let player = the (fmlookup (players w) i)
      in if IsZero (Player_RoomID player) then w
         else case fmlookup (rooms w) (Player_RoomID player) of
           None \<Rightarrow> w
         | Some room \<Rightarrow>
             w\<lparr>rooms := fmupd (Player_RoomID player)
                 (room\<lparr>Room_PlayerIDs := insertPlayerIDLegacySorted w (Room_PlayerIDs room) (Player_ID player)\<rparr>) (rooms w)\<rparr>)"

definition seat_creature :: "World \<Rightarrow> CreatureID \<Rightarrow> World" where
  "seat_creature w i =
     (let creature = the (fmlookup (creatures w) i)
      in if IsZero (Creature_RoomID creature) then w
         else case fmlookup (rooms w) (Creature_RoomID creature) of
           None \<Rightarrow> w
         | Some room \<Rightarrow>
             w\<lparr>rooms := fmupd (Creature_RoomID creature)
                 (room\<lparr>Room_CreatureIDs := insertCreatureIDLegacySorted w (Room_CreatureIDs room) (Creature_ID creature)\<rparr>)
                 (rooms w)\<rparr>)"

definition reconcileRoomOccupants :: "World \<Rightarrow> World" where
  "reconcileRoomOccupants w =
     (let w = w\<lparr>rooms := fmmap_keys (\<lambda>i room.
            room\<lparr>Room_PlayerIDs := sortPlayerIDsLegacy w (filterRoomPlayerIDs i (Room_PlayerIDs room) (players w)),
                 Room_CreatureIDs := sortCreatureIDsLegacy w (filterRoomCreatureIDs i (Room_CreatureIDs room) (creatures w))\<rparr>)
            (rooms w)\<rparr>;
          w = foldl seat_player w (sorted_list_of_fset (fmdom (players w)))
      in foldl seat_creature w (sorted_list_of_fset (fmdom (creatures w))))"

subsection \<open>Moves\<close>

text \<open>The linked creature of a player, \<open>None\<close> when there is no link, or the error of a bad link.\<close>

definition linked_creature :: "string \<Rightarrow> string list \<Rightarrow> World \<Rightarrow> Player \<Rightarrow> Creature option result" where
  "linked_creature what ids w player =
     (if IsZero (Player_CreatureID player) then Inr None
      else case fmlookup (creatures w) (Player_CreatureID player) of
        None \<Rightarrow> Inl (Errorf (what @ '': linked creature %q not found'') (ids @ [Player_CreatureID player]))
      | Some creature \<Rightarrow>
          if \<not> IsZero (Creature_PlayerID creature) \<and> Creature_PlayerID creature \<noteq> Player_ID player
          then Inl (Errorf (what @ '': linked creature %q belongs to player %q'')
                      (ids @ [Creature_ID creature, Creature_PlayerID creature]))
          else Inr (Some creature))"

definition put_player :: "Player \<Rightarrow> World \<Rightarrow> World" where
  "put_player player w = w\<lparr>players := fmupd (Player_ID player) player (players w)\<rparr>"

definition relocate_creature :: "Creature option \<Rightarrow> RoomID \<Rightarrow> World \<Rightarrow> World" where
  "relocate_creature creature roomID w =
     (case creature of
        None \<Rightarrow> w
      | Some creature \<Rightarrow>
          w\<lparr>creatures := fmupd (Creature_ID creature) (creature\<lparr>Creature_RoomID := roomID\<rparr>) (creatures w)\<rparr>)"

definition without :: "PlayerID \<Rightarrow> Creature option \<Rightarrow> Room \<Rightarrow> Room" where
  "without playerID creature room =
     room\<lparr>Room_PlayerIDs := removeID (Room_PlayerIDs room) playerID,
          Room_CreatureIDs := (case creature of
             None \<Rightarrow> Room_CreatureIDs room
           | Some creature \<Rightarrow> removeID (Room_CreatureIDs room) (Creature_ID creature))\<rparr>"

definition enter_room :: "PlayerID \<Rightarrow> Creature option \<Rightarrow> RoomID \<Rightarrow> World \<Rightarrow> World" where
  "enter_room playerID creature roomID w =
     (let room = mget zeroRoom (rooms w) roomID;
          room = room\<lparr>Room_PlayerIDs := insertPlayerIDLegacySorted w (Room_PlayerIDs room) playerID\<rparr>;
          room = (case creature of
                    None \<Rightarrow> room
                  | Some creature \<Rightarrow>
                      room\<lparr>Room_CreatureIDs := insertCreatureIDLegacySorted w (Room_CreatureIDs room) (Creature_ID creature)\<rparr>)
      in w\<lparr>rooms := fmupd (Room_ID room) room (rooms w)\<rparr>)"

text \<open>\<open>dice\<close> and \<open>roll\<close> are the random numbers of the spawns a move may trigger.\<close>

definition MovePlayer ::
  "(string fset \<Rightarrow> string list) \<Rightarrow> (nat \<Rightarrow> int \<Rightarrow> int) \<Rightarrow> (ObjectInstanceID \<Rightarrow> int) \<Rightarrow> PlayerID \<Rightarrow> string \<Rightarrow> World
     \<Rightarrow> go_error option \<times> World" where
  "MovePlayer ord dice roll playerID exitName w =
     (case fmlookup (players w) playerID of
        None \<Rightarrow> (Some (Errorf ''move player %q: player not found'' [playerID]), w)
      | Some player \<Rightarrow>
      if IsZero (Player_RoomID player) then (Some (Errorf ''move player %q: player has no room'' [playerID]), w)
      else case fmlookup (rooms w) (Player_RoomID player) of
        None \<Rightarrow> (Some (Errorf ''move player %q: current room %q not found'' [playerID, Player_RoomID player]), w)
      | Some fromRoom \<Rightarrow>
      (case findExit fromRoom exitName of
        None \<Rightarrow> (Some (Errorf ''move player %q: exit %q not found in room %q'' [playerID, exitName, Room_ID fromRoom]), w)
      | Some exit \<Rightarrow>
      (case blockedMoveExitFlag exit of
        Some flag \<Rightarrow> (Some (Errorf ''move player %q: exit %q blocked by flag %q'' [playerID, exitName, flag]), w)
      | None \<Rightarrow>
      (case fmlookup (rooms w) (Exit_ToRoomID exit) of
        None \<Rightarrow> (Some (Errorf ''move player %q: target room %q not found'' [playerID, Exit_ToRoomID exit]), w)
      | Some toRoom \<Rightarrow>
      (case linked_creature ''move player %q'' [playerID] w player of
        Inl err \<Rightarrow> (Some err, w)
      | Inr creature \<Rightarrow>
      (case validateMovePlayerRestrictions ord w player exitName exit toRoom creature of
        Some err \<Rightarrow> (Some err, w)
      | None \<Rightarrow>
          let w = put_player (player\<lparr>Player_RoomID := Exit_ToRoomID exit\<rparr>) w;
              w = relocate_creature creature (Exit_ToRoomID exit) w;
              w = w\<lparr>rooms := fmupd (Room_ID fromRoom) (without (Player_ID player) creature fromRoom) (rooms w)\<rparr>;
              toID = Room_ID (mget zeroRoom (rooms w) (Exit_ToRoomID exit));
              w = enter_room (Player_ID player) creature (Exit_ToRoomID exit) w;
              nowUnix = clock w;
              w = refreshRoomPermanentSpawns dice roll toID nowUnix w
          in (None, checkRoomExits toID nowUnix w)))))))"

definition MovePlayerToRoom ::
  "(nat \<Rightarrow> int \<Rightarrow> int) \<Rightarrow> (ObjectInstanceID \<Rightarrow> int) \<Rightarrow> PlayerID \<Rightarrow> RoomID \<Rightarrow> World \<Rightarrow> go_error option \<times> World" where
  "MovePlayerToRoom dice roll playerID roomID w =
     (if IsZero playerID then (Some (Errorf ''move player to room %q: player id is required'' [roomID]), w)
      else if IsZero roomID then (Some (Errorf ''move player %q to room: room id is required'' [playerID]), w)
      else case fmlookup (players w) playerID of
        None \<Rightarrow> (Some (Errorf ''move player %q to room %q: player not found'' [playerID, roomID]), w)
      | Some player \<Rightarrow>
      (case fmlookup (rooms w) roomID of
        None \<Rightarrow> (Some (Errorf ''move player %q to room %q: target room not found'' [playerID, roomID]), w)
      | Some toRoom \<Rightarrow>
      (case linked_creature ''move player %q to room %q'' [playerID, roomID] w player of
        Inl err \<Rightarrow> (Some err, w)
      | Inr creature \<Rightarrow>
          let w = put_player (player\<lparr>Player_RoomID := roomID\<rparr>) w;
              w = relocate_creature creature roomID w;
              w = w\<lparr>rooms := fmmap (without (Player_ID player) creature) (rooms w)\<rparr>;
              toID = Room_ID (mget zeroRoom (rooms w) (Room_ID toRoom));
              w = enter_room (Player_ID player) creature (Room_ID toRoom) w;
              nowUnix = clock w;
              w = refreshRoomPermanentSpawns dice roll toID nowUnix w
          in (None, checkRoomExits toID nowUnix w))))"

definition MoveCreatureToRoom :: "CreatureID \<Rightarrow> RoomID \<Rightarrow> World \<Rightarrow> go_error option \<times> World" where
  "MoveCreatureToRoom creatureID roomID w =
     (if IsZero creatureID then (Some (Errorf ''move creature to room %q: creature id is required'' [roomID]), w)
      else if IsZero roomID then (Some (Errorf ''move creature %q to room: room id is required'' [creatureID]), w)
      else case fmlookup (creatures w) creatureID of
        None \<Rightarrow> (Some (Errorf ''move creature %q to room %q: creature not found'' [creatureID, roomID]), w)
      | Some creature \<Rightarrow>
      (case fmlookup (rooms w) roomID of
        None \<Rightarrow> (Some (Errorf ''move creature %q to room %q: target room not found'' [creatureID, roomID]), w)
      | Some toRoom \<Rightarrow>
          let playerID = Creature_PlayerID creature;
              w = (if IsZero playerID then w
                   else case fmlookup (players w) playerID of
                     None \<Rightarrow> w
                   | Some player \<Rightarrow> put_player (player\<lparr>Player_RoomID := roomID\<rparr>) w);
              w = relocate_creature (Some creature) roomID w;
              w = w\<lparr>rooms := fmmap (\<lambda>room. room
                    \<lparr>Room_PlayerIDs := (if IsZero playerID then Room_PlayerIDs room else removeID (Room_PlayerIDs room) playerID),
                     Room_CreatureIDs := removeID (Room_CreatureIDs room) (Creature_ID creature)\<rparr>) (rooms w)\<rparr>;
              room = mget zeroRoom (rooms w) (Room_ID toRoom);
              room = (if IsZero playerID then room
                      else room\<lparr>Room_PlayerIDs := insertPlayerIDLegacySorted w (Room_PlayerIDs room) playerID\<rparr>);
              room = room\<lparr>Room_CreatureIDs := insertCreatureIDLegacySorted w (Room_CreatureIDs room) (Creature_ID creature)\<rparr>
          in (None, w\<lparr>rooms := fmupd (Room_ID room) room (rooms w)\<rparr>)))"

subsection \<open>Arrival of a new player\<close>

text \<open>What \<^verbatim>\<open>CreatePlayerCharacter\<close> fills in, and what it refuses, before it looks at the world.\<close>

definition completed :: "Player \<Rightarrow> Creature \<Rightarrow> Player \<times> Creature" where
  "completed player creature =
     (let player = (if IsZero (Player_CreatureID player) then player\<lparr>Player_CreatureID := Creature_ID creature\<rparr> else player);
          creature = (if IsZero (Creature_PlayerID creature) then creature\<lparr>Creature_PlayerID := Player_ID player\<rparr> else creature);
          creature = (if Creature_Kind creature = [] then creature\<lparr>Creature_Kind := CreatureKindPlayer\<rparr> else creature);
          player = (if IsZero (Player_RoomID player) then player\<lparr>Player_RoomID := Creature_RoomID creature\<rparr> else player);
          creature = (if IsZero (Creature_RoomID creature) then creature\<lparr>Creature_RoomID := Player_RoomID player\<rparr> else creature)
      in (player, creature))"

definition refuse_character :: "Player \<Rightarrow> Creature \<Rightarrow> go_error option" where
  "refuse_character player creature =
     (let playerID = Player_ID player in
      if IsZero playerID then Some (Errorf ''create player character: player id is required'' [])
      else if IsZero (Creature_ID creature)
      then Some (Errorf ''create player character %q: creature id is required'' [playerID])
      else if Player_CreatureID player \<noteq> Creature_ID creature
      then Some (Errorf ''create player character %q: player creature %q does not match %q''
                   [playerID, Player_CreatureID player, Creature_ID creature])
      else if Creature_PlayerID creature \<noteq> playerID
      then Some (Errorf ''create player character %q: creature owner %q does not match'' [playerID, Creature_PlayerID creature])
      else if Creature_Kind creature \<noteq> CreatureKindPlayer
      then Some (Errorf ''create player character %q: creature kind must be player'' [playerID])
      else if IsZero (Player_RoomID player) \<or> IsZero (Creature_RoomID creature) \<or> Player_RoomID player \<noteq> Creature_RoomID creature
      then Some (Errorf ''create player character %q: player and creature must share a starting room'' [playerID])
      else case Player_Validate player of
        Some err \<Rightarrow> Some (Wrapf ''create player character %q: %w'' [playerID] err)
      | None \<Rightarrow>
          (case Creature_Validate creature of
             Some err \<Rightarrow> Some (Wrapf ''create player character %q: %w'' [playerID] err)
           | None \<Rightarrow> None))"

text \<open>\<open>None\<close>: the combat statistics of a class outside the tables panic (\<open>Combat\<close>).\<close>

definition CreatePlayerCharacter ::
  "(string fset \<Rightarrow> string list) \<Rightarrow> Player \<Rightarrow> Creature \<Rightarrow> World \<Rightarrow> (go_error option \<times> World) option" where
  "CreatePlayerCharacter ord player creature w =
     (let (player, creature) = completed player creature; playerID = Player_ID player
      in case refuse_character player creature of
        Some err \<Rightarrow> Some (Some err, w)
      | None \<Rightarrow>
      if fmlookup (players w) playerID \<noteq> None
      then Some (Some (Errorf ''create player character %q: player already exists'' [playerID]), w)
      else if fmlookup (creatures w) (Creature_ID creature) \<noteq> None
      then Some (Some (Errorf ''create player character %q: creature %q already exists'' [playerID, Creature_ID creature]), w)
      else case fmlookup (rooms w) (Player_RoomID player) of
        None \<Rightarrow> Some (Some (Errorf ''create player character %q: starting room %q not found'' [playerID, Player_RoomID player]), w)
      | Some room \<Rightarrow>
          map_option (\<lambda>creature.
            let w = put_player player w;
                w = w\<lparr>creatures := fmupd (Creature_ID creature) creature (creatures w)\<rparr>;
                room = room\<lparr>Room_PlayerIDs := insertPlayerIDLegacySorted w (Room_PlayerIDs room) playerID,
                            Room_CreatureIDs := insertCreatureIDLegacySorted w (Room_CreatureIDs room) (Creature_ID creature)\<rparr>;
                w = w\<lparr>rooms := fmupd (Room_ID room) room (rooms w)\<rparr>
            in (None, MarkPlayerDirty playerID w))
          (recalculateCreatureCombatStats ord w creature))"

subsection \<open>Emptying a room\<close>

definition stays :: "World \<Rightarrow> CreatureID \<Rightarrow> bool" where
  "stays w i =
     (case fmlookup (creatures w) i of
        None \<Rightarrow> False
      | Some creature \<Rightarrow> Creature_Kind creature = CreatureKindPlayer \<or> \<not> IsZero (Creature_PlayerID creature))"

definition purge_creature :: "World \<Rightarrow> CreatureID \<Rightarrow> World" where
  "purge_creature w i =
     (if fmlookup (creatures w) i = None \<or> stays w i then w
      else w\<lparr>creatures := fmdrop i (creatures w), monsterDamage := fmdrop i (monsterDamage w)\<rparr>)"

text \<open>The loop keeps \<open>seen\<close> through all calls, as \<open>delete_children\<close> does; the fuel suffices for it (\<open>Trees\<close>).\<close>

definition PurgeRoom :: "RoomID \<Rightarrow> World \<Rightarrow> go_error option \<times> World" where
  "PurgeRoom roomID w =
     (case fmlookup (rooms w) roomID of
        None \<Rightarrow> (Some (Errorf ''purge room %q: room not found'' [roomID]), w)
      | Some room \<Rightarrow>
          let remaining = filter (stays w) (Room_CreatureIDs room);
              w = foldl purge_creature w (Room_CreatureIDs room);
              ids = ObjectIDs (Room_Objects room);
              w = snd (the (delete_children (Suc (card (fmdom' (objects w)))) ids [] w));
              w = MarkRoomObjectsDirty roomID w;
              updatedRoom = (mget zeroRoom (rooms w) roomID)\<lparr>Room_CreatureIDs := remaining\<rparr>
          in (None, w\<lparr>rooms := fmupd roomID updatedRoom (rooms w)\<rparr>))"

end
