(* ===== verification/Paths.thy ===== *)
theory Paths
  imports GoStrings
begin

text \<open>
  File names: the runes of a string as Go's \<^verbatim>\<open>range\<close> sees them, the functions of \<^verbatim>\<open>path/filepath\<close> on
  a system with \<open>/\<close> as separator, and \<^verbatim>\<open>safeSidecarStem\<close> (\<^verbatim>\<open>player_save.go\<close>), which keeps the
  name of a save file inside its directory.
\<close>

subsection \<open>Runes\<close>

text \<open>The first rune of a nonempty byte string and its width; a byte that starts no valid encoding is U+FFFD.\<close>

definition tail_byte :: "int \<Rightarrow> bool" where
  "tail_byte b \<longleftrightarrow> 128 \<le> b \<and> b \<le> 191"

definition rune2 :: "int \<Rightarrow> int \<Rightarrow> int" where
  "rune2 a b = (a mod 32) * 64 + b mod 64"

definition rune3 :: "int \<Rightarrow> int \<Rightarrow> int \<Rightarrow> int" where
  "rune3 a b c = (a mod 16) * 4096 + (b mod 64) * 64 + c mod 64"

definition rune4 :: "int \<Rightarrow> int \<Rightarrow> int \<Rightarrow> int \<Rightarrow> int" where
  "rune4 a b c d = (a mod 8) * 262144 + (b mod 64) * 4096 + (c mod 64) * 64 + d mod 64"

fun first_rune :: "int list \<Rightarrow> int \<times> nat" where
  "first_rune [] = (65533, 1)"
| "first_rune (a # s) =
     (if a < 128 then (a, 1)
      else case s of
        [] \<Rightarrow> (65533, 1)
      | b # s \<Rightarrow>
          if 194 \<le> a \<and> a \<le> 223 \<and> tail_byte b then (rune2 a b, 2)
          else (case s of
            [] \<Rightarrow> (65533, 1)
          | c # s \<Rightarrow>
              if 224 \<le> a \<and> a \<le> 239 \<and> tail_byte b \<and> tail_byte c \<and> (a = 224 \<longrightarrow> 160 \<le> b) \<and> (a = 237 \<longrightarrow> b \<le> 159)
              then (rune3 a b c, 3)
              else (case s of
                [] \<Rightarrow> (65533, 1)
              | d # s \<Rightarrow>
                  if 240 \<le> a \<and> a \<le> 244 \<and> tail_byte b \<and> tail_byte c \<and> tail_byte d
                     \<and> (a = 240 \<longrightarrow> 144 \<le> b) \<and> (a = 244 \<longrightarrow> b \<le> 143)
                  then (rune4 a b c d, 4)
                  else (65533, 1))))"

function runes_of :: "int list \<Rightarrow> int list" where
  "runes_of [] = []"
| "runes_of (a # s) = (case first_rune (a # s) of (r, n) \<Rightarrow> r # runes_of (drop (n - 1) s))"
  by pat_completeness auto
termination by (relation "measure length") auto

definition runes :: "string \<Rightarrow> int list" where
  "runes s = runes_of (map of_char s)"

subsection \<open>Paths\<close>

definition slash :: char where
  "slash = CHR ''/''"

text \<open>\<^verbatim>\<open>strings.Split\<close> at one byte, and \<^verbatim>\<open>strings.Join\<close>.\<close>

fun split_at :: "char \<Rightarrow> string \<Rightarrow> string list" where
  "split_at c [] = [[]]"
| "split_at c (x # xs) =
     (if x = c then [] # split_at c xs
      else case split_at c xs of [] \<Rightarrow> [[x]] | f # fs \<Rightarrow> (x # f) # fs)"

fun join_with :: "string \<Rightarrow> string list \<Rightarrow> string" where
  "join_with sep [] = []"
| "join_with sep [x] = x"
| "join_with sep (x # y # ys) = x @ sep @ join_with sep (y # ys)"

text \<open>\<^verbatim>\<open>filepath.Clean\<close>: the elements so far are a stack, the last one first.\<close>

definition clean_step :: "bool \<Rightarrow> string list \<Rightarrow> string \<Rightarrow> string list" where
  "clean_step rooted out c =
     (if c = [] \<or> c = ''.'' then out
      else if c = ''..''
      then (case out of
              [] \<Rightarrow> if rooted then [] else [''..'']
            | e # rest \<Rightarrow> if e = ''..'' then ''..'' # out else rest)
      else c # out)"

definition path_elements :: "string \<Rightarrow> string list" where
  "path_elements path = rev (foldl (clean_step (hasPrefix path [slash])) [] (split_at slash path))"

definition Clean :: "string \<Rightarrow> string" where
  "Clean path =
     (let elements = path_elements path
      in if hasPrefix path [slash] then slash # join_with [slash] elements
         else if elements = [] then ''.'' else join_with [slash] elements)"

definition Join :: "string list \<Rightarrow> string" where
  "Join elems =
     (case dropWhile (\<lambda>e. e = []) elems of [] \<Rightarrow> [] | elems \<Rightarrow> Clean (join_with [slash] elems))"

definition IsAbs :: "string \<Rightarrow> bool" where
  "IsAbs path = hasPrefix path [slash]"

definition trimPrefix :: "string \<Rightarrow> string \<Rightarrow> string" where
  "trimPrefix s p = (if hasPrefix s p then drop (length p) s else s)"

subsection \<open>Names of save files\<close>

definition safeSidecarStemMaxRunes :: nat where
  "safeSidecarStemMaxRunes = 64"

definition control_rune :: "int \<Rightarrow> bool" where
  "control_rune r \<longleftrightarrow> r < 32 \<or> r = 127 \<or> (128 \<le> r \<and> r \<le> 159)"

definition slash_like :: "int list" where
  "slash_like = [8260, 8725, 10741, 65128, 65295, 65340]"

definition safeSidecarStem :: "string \<Rightarrow> string \<Rightarrow> string result" where
  "safeSidecarStem kind name =
     (if name = [] then Inl (Errorf ''%s sidecar name is empty'' [kind])
      else if safeSidecarStemMaxRunes < length (runes name)
      then Inl (Errorf ''%s sidecar name %q exceeds %d runes'' [kind, name, itoa (int safeSidecarStemMaxRunes)])
      else if list_ex control_rune (runes name)
      then Inl (Errorf ''%s sidecar name %q contains control character'' [kind, name])
      else if IsAbs name \<or> name = ''.'' \<or> name = ''..'' \<or> list_ex (\<lambda>c. c = slash \<or> c = CHR 0x5C) name
              \<or> list_ex (\<lambda>r. r \<in> set slash_like) (runes name) \<or> Clean name \<noteq> name
      then Inl (Errorf ''%s sidecar name %q is unsafe'' [kind, name])
      else Inr name)"

subsection \<open>A safe name stays in its directory\<close>

lemma split_at_not_Nil [simp]: "split_at c s \<noteq> []"
  by (cases s) (auto split: list.split)

lemma split_at_append: "split_at c (xs @ c # ys) = split_at c xs @ split_at c ys"
  by (induction xs) (auto split: list.split)

lemma split_at_none: "c \<notin> set xs \<Longrightarrow> split_at c xs = [xs]"
  by (induction xs) auto

lemma split_at_join: "xs \<noteq> [] \<Longrightarrow> split_at c (join_with [c] xs) = concat (map (split_at c) xs)"
  by (induction "[c]" xs rule: join_with.induct) (simp_all add: split_at_append)

lemma join_with_snoc: "xs \<noteq> [] \<Longrightarrow> join_with sep (xs @ [f]) = join_with sep xs @ sep @ f"
  by (induction sep xs rule: join_with.induct) auto

definition file_name :: "string \<Rightarrow> bool" where
  "file_name f \<longleftrightarrow> slash \<notin> set f \<and> f \<notin> {[], ''.'', ''..''}"

lemma clean_file_name: "file_name f \<Longrightarrow> clean_step rooted out f = f # out"
  by (simp add: file_name_def clean_step_def)

lemma clean_file_names: "list_all file_name fs \<Longrightarrow> foldl (clean_step rooted) out fs = rev fs @ out"
  by (induction fs arbitrary: out) (simp_all add: clean_file_name)

lemma concat_split_names: "list_all file_name fs \<Longrightarrow> concat (map (split_at slash) fs) = fs"
  by (induction fs) (simp_all add: split_at_none file_name_def)

lemma hasPrefix_append: "s \<noteq> [] \<Longrightarrow> hasPrefix (s @ t) [c] = hasPrefix s [c]"
  by (cases s) (simp_all add: hasPrefix_def)

lemma join_with_Cons: "xs \<noteq> [] \<Longrightarrow> join_with sep (x # xs) = x @ sep @ join_with sep xs"
  by (cases xs) simp_all

lemma elements_Join:
  assumes "root \<noteq> []" and "fs \<noteq> []" and "list_all file_name fs"
  shows "path_elements (join_with [slash] (root # fs)) = path_elements root @ fs"
proof -
  have "hasPrefix (join_with [slash] (root # fs)) [slash] = hasPrefix root [slash]"
    using assms by (simp add: join_with_Cons hasPrefix_append)
  then show ?thesis
    using assms concat_split_names clean_file_names [OF assms(3)] by (simp add: path_elements_def split_at_join)
qed

definition directory :: "string \<Rightarrow> string list \<Rightarrow> string" where
  "directory root dirs =
     (if hasPrefix root [slash] then [slash] else [])
       @ (let elements = path_elements root @ dirs in if elements = [] then [] else join_with [slash] elements @ [slash])"

lemma Join_file:
  assumes "root \<noteq> []" and "list_all file_name dirs" and "file_name f"
  shows "Join (root # dirs @ [f]) = directory root dirs @ f"
proof -
  let ?p = "join_with [slash] (root # dirs @ [f])" and ?es = "path_elements root @ dirs"
  have e: "path_elements ?p = ?es @ [f]"
    using assms by (subst elements_Join) auto
  have "hasPrefix ?p [slash] = hasPrefix root [slash]"
    using assms by (simp add: join_with_Cons hasPrefix_append)
  moreover have "join_with [slash] (?es @ [f]) = (if ?es = [] then [] else join_with [slash] ?es @ [slash]) @ f"
    by (cases "?es = []") (simp_all add: join_with_snoc del: append_assoc append_is_Nil_conv)
  ultimately show ?thesis
    using assms(1) e by (simp add: Join_def Clean_def Let_def directory_def del: append_assoc)
qed

lemma Clean_file_name: "file_name f \<Longrightarrow> Clean f = f"
proof -
  assume f: "file_name f"
  then have "\<not> hasPrefix f [slash]"
    by (cases f) (auto simp: file_name_def hasPrefix_def)
  with f show ?thesis
    by (simp add: Clean_def path_elements_def split_at_none file_name_def clean_step_def)
qed

lemma safe_stem:
  assumes "safeSidecarStem kind name = Inr stem"
  shows "stem = name" "file_name name" "length (runes name) \<le> safeSidecarStemMaxRunes" "\<not> list_ex control_rune (runes name)"
  using assms by (auto simp: safeSidecarStem_def file_name_def list_ex_iff split: if_splits)

lemma file_name_ext: "file_name f \<Longrightarrow> ext \<noteq> [] \<Longrightarrow> slash \<notin> set ext \<Longrightarrow> ext \<noteq> ''.'' \<Longrightarrow> file_name (f @ ext)"
  by (cases f; cases ext) (auto simp: file_name_def append_eq_Cons_conv)

text \<open>C25. A name the program takes for a save file names a file of the directory itself: the path of the file is the
  directory, the name and the extension, whatever the name is; so two names give two files, and no name leads out of the
  directory.\<close>

theorem Safe_name_stays:
  assumes "safeSidecarStem kind name = Inr stem" and "root \<noteq> []" and "list_all file_name dirs"
  shows "Join (root # dirs @ [stem @ ''.json'']) = directory root dirs @ name @ ''.json''
     \<and> slash \<notin> set (name @ ''.json'') \<and> (\<forall>r \<in> set (runes name). 32 \<le> r \<and> r \<noteq> 127)"
proof -
  note s = safe_stem [OF assms(1)]
  have "file_name (name @ ''.json'')"
    using s(2) by (intro file_name_ext) (simp_all add: slash_def)
  with Join_file [OF assms(2,3)] show ?thesis
    using s by (auto simp: list_ex_iff control_rune_def not_less file_name_def)
qed

theorem Safe_name_stays_witness:
  "Join [''/srv'', ''player'', ''json'', ''Ann.json''] = directory ''/srv'' [''player'', ''json''] @ ''Ann.json''"
proof -
  have "safeSidecarStem ''player'' ''Ann'' = Inr ''Ann''"
    by code_simp
  from Safe_name_stays [OF this, of "''/srv''" "[''player'', ''json'']"] show ?thesis
    by (simp add: file_name_def slash_def)
qed

text \<open>A name with a slash, a parent directory or a fullwidth solidus is refused.\<close>

lemma unsafe_names:
  "safeSidecarStem kind ''../etc'' \<noteq> Inr stem" "safeSidecarStem kind ''..'' \<noteq> Inr stem"
  "safeSidecarStem kind [CHR ''a'', CHR 0xEF, CHR 0xBC, CHR 0x8F, CHR ''b''] \<noteq> Inr stem"
proof -
  show "safeSidecarStem kind ''../etc'' \<noteq> Inr stem" "safeSidecarStem kind ''..'' \<noteq> Inr stem"
    using safe_stem(2) [of kind "''../etc''" stem] safe_stem(2) [of kind "''..''" stem] by (auto simp: file_name_def slash_def)
  have "list_ex (\<lambda>r. r \<in> set slash_like) (runes [CHR ''a'', CHR 0xEF, CHR 0xBC, CHR 0x8F, CHR ''b''])"
    by code_simp
  then show "safeSidecarStem kind [CHR ''a'', CHR 0xEF, CHR 0xBC, CHR 0x8F, CHR ''b''] \<noteq> Inr stem"
    by (simp add: safeSidecarStem_def)
qed

end
