(* ===== verification/Sidecars.thy ===== *)
theory Sidecars
  imports Occupancy Paths
begin

text \<open>
  The save files of players, banks, rooms and family news (\<^verbatim>\<open>player_save.go\<close>, \<^verbatim>\<open>dm_support.go\<close>): what is
  collected from the world, the file it goes to, the versions of the format, and the merge of a loaded file into
  a world.

  The disk maps paths to contents of a type \<open>'f\<close>; \<open>enc\<close> and \<open>dec\<close> stand for \<^verbatim>\<open>encoding/json\<close> on the type
  at hand.  A disk also says which writes fail, before or after the new file is in place, and which files cannot
  be read: what the operating system does is not modelled further.
\<close>

subsection \<open>Files\<close>

record 'f disk =
  disk_files :: "(string, 'f) fmap"
  disk_fault :: "string \<Rightarrow> (bool \<times> go_error) option"
  disk_unreadable :: "string \<Rightarrow> go_error option"
  disk_mkdir :: "string \<Rightarrow> go_error option"

text \<open>
  A write goes to a temporary file which then takes the name of the target, so the target holds the old or the new
  contents.  Only the last step, the synchronisation of the directory, can fail after the renaming: the first
  component of \<open>disk_fault\<close>.
\<close>

definition writeAtomically :: "string \<Rightarrow> 'f \<Rightarrow> 'f disk \<Rightarrow> go_error option \<times> 'f disk" where
  "writeAtomically path content disk =
     (if path = [] then (Some (Sentinel ''jsonstore: empty output path''), disk)
      else let written = disk\<lparr>disk_files := fmupd path content (disk_files disk)\<rparr>
           in case disk_fault disk path of
                None \<Rightarrow> (None, written)
              | Some (renamed, err) \<Rightarrow> (Some err, if renamed then written else disk))"

definition WriteJSON :: "('d \<Rightarrow> 'f) \<Rightarrow> string \<Rightarrow> 'd \<Rightarrow> 'f disk \<Rightarrow> go_error option \<times> 'f disk" where
  "WriteJSON enc path v disk = writeAtomically path (enc v) disk"

text \<open>\<open>Inr None\<close> when the file does not exist.\<close>

definition ReadFile :: "string \<Rightarrow> 'f disk \<Rightarrow> 'f option result" where
  "ReadFile path disk =
     (case disk_unreadable disk path of Some err \<Rightarrow> Inl err | None \<Rightarrow> Inr (fmlookup (disk_files disk) path))"

subsection \<open>The contents of the save files and their versions\<close>

definition CurrentSaveSchemaVersion :: int where
  "CurrentSaveSchemaVersion = 2"

record PlayerSaveData =
  PSave_SchemaVersion :: int
  PSave_Player :: Player
  PSave_Creature :: "Creature option"
  PSave_Objects :: "ObjectInstance list"

record BankSaveBundle =
  BSave_SchemaVersion :: int
  BSave_BankAccount :: BankAccount
  BSave_Objects :: "ObjectInstance list"

record RoomObjectsSave =
  RSave_SchemaVersion :: int
  RSave_RoomID :: RoomID
  RSave_Properties :: "(string, string) fmap"
  RSave_Objects :: "ObjectInstance list"

record FamilyNewsSave =
  NSave_SchemaVersion :: int
  NSave_FamilyID :: int
  NSave_Content :: string
  NSave_UpdatedAt :: int

definition migrateVersionIfNeeded :: "int \<Rightarrow> (int \<times> bool) result" where
  "migrateVersionIfNeeded ver =
     (if ver = CurrentSaveSchemaVersion then Inr (ver, False)
      else if ver = 0 then Inr (CurrentSaveSchemaVersion, True)
      else if ver < CurrentSaveSchemaVersion then Inr (CurrentSaveSchemaVersion, True)
      else Inl (Errorf ''unsupported future schema version %d > current %d'' [itoa ver, itoa CurrentSaveSchemaVersion]))"

definition MigratePlayerSaveData :: "PlayerSaveData \<Rightarrow> (PlayerSaveData \<times> bool) result" where
  "MigratePlayerSaveData save =
     (case migrateVersionIfNeeded (PSave_SchemaVersion save) of
        Inl err \<Rightarrow> Inl err
      | Inr (newVer, did) \<Rightarrow> Inr (save\<lparr>PSave_SchemaVersion := newVer\<rparr>, did))"

definition MigrateBankSaveBundle :: "BankSaveBundle \<Rightarrow> (BankSaveBundle \<times> bool) result" where
  "MigrateBankSaveBundle bundle =
     (case migrateVersionIfNeeded (BSave_SchemaVersion bundle) of
        Inl err \<Rightarrow> Inl err
      | Inr (newVer, did) \<Rightarrow> Inr (bundle\<lparr>BSave_SchemaVersion := newVer\<rparr>, did))"

definition MigrateRoomObjectsSave :: "RoomObjectsSave \<Rightarrow> (RoomObjectsSave \<times> bool) result" where
  "MigrateRoomObjectsSave save =
     (case migrateVersionIfNeeded (RSave_SchemaVersion save) of
        Inl err \<Rightarrow> Inl err
      | Inr (newVer, did) \<Rightarrow> Inr (save\<lparr>RSave_SchemaVersion := newVer\<rparr>, did))"

definition MigrateFamilyNewsSave :: "FamilyNewsSave \<Rightarrow> (FamilyNewsSave \<times> bool) result" where
  "MigrateFamilyNewsSave save =
     (case migrateVersionIfNeeded (NSave_SchemaVersion save) of
        Inl err \<Rightarrow> Inl err
      | Inr (newVer, did) \<Rightarrow> Inr (save\<lparr>NSave_SchemaVersion := newVer\<rparr>, did))"

text \<open>\<open>load\<close>: the shared last part of the four loaders: read the file, parse it, bring it to the current version.\<close>

definition load_file ::
  "('f \<Rightarrow> 'd result) \<Rightarrow> ('d \<Rightarrow> ('d \<times> bool) result) \<Rightarrow> string \<Rightarrow> string \<Rightarrow> string \<Rightarrow> 'f disk \<Rightarrow> 'd option result" where
  "load_file dec migrate what i path disk =
     (case ReadFile path disk of
        Inl err \<Rightarrow> Inl err
      | Inr None \<Rightarrow> Inr None
      | Inr (Some data) \<Rightarrow>
          (case dec data of
             Inl err \<Rightarrow> Inl (Wrapf (''parse '' @ what @ '' %s: %w'') [i] err)
           | Inr save \<Rightarrow>
               (case migrate save of
                  Inl err \<Rightarrow> Inl (Wrapf (''migrate '' @ what @ '' %s: %w'') [i] err)
                | Inr (save, did) \<Rightarrow> Inr (Some save))))"

subsection \<open>What is collected\<close>

text \<open>
  The objects reached from a list of ids through the contents of objects, each once.  \<open>order\<close> joins what is left
  to do and the contents of the object just found: at the end for a queue, in front for the recursion of
  \<^verbatim>\<open>SaveBank\<close>; \<open>skip\<close> are the ids it passes over.
\<close>

function collect ::
  "(ObjectInstanceID list \<Rightarrow> ObjectInstanceID list \<Rightarrow> ObjectInstanceID list) \<Rightarrow> (ObjectInstanceID \<Rightarrow> bool) \<Rightarrow> World
     \<Rightarrow> ObjectInstanceID list \<Rightarrow> ObjectInstanceID list \<Rightarrow> ObjectInstance list \<Rightarrow> ObjectInstance list" where
  "collect order skip w [] visited found = found"
| "collect order skip w (i # todo) visited found =
     (if skip i \<or> i \<in> set visited then collect order skip w todo visited found
      else case fmlookup (objects w) i of
        None \<Rightarrow> collect order skip w todo (i # visited) found
      | Some object \<Rightarrow>
          collect order skip w (order todo (ObjectIDs (Object_Contents object))) (i # visited) (found @ [object]))"
  by pat_completeness auto
termination
proof (relation "measures [\<lambda>(order, skip, w, todo, visited, found). card (fmdom' (objects w) - set visited),
    \<lambda>(order, skip, w, todo, visited, found). length todo]")
  let ?R = "measures [\<lambda>(order, skip, w, todo, visited, found). card (fmdom' (objects w) - set visited),
    \<lambda>(order, skip, w, todo, visited, found). length todo]"
  fix order :: "ObjectInstanceID list \<Rightarrow> ObjectInstanceID list \<Rightarrow> ObjectInstanceID list" and skip :: "ObjectInstanceID \<Rightarrow> bool"
    and w :: World and i :: ObjectInstanceID and todo visited and found :: "ObjectInstance list"
  have "card (fmdom' (objects w) - insert i (set visited)) \<le> card (fmdom' (objects w) - set visited)"
    by (intro card_mono) auto
  then have "card (fmdom' (objects w) - insert i (set visited)) < card (fmdom' (objects w) - set visited)
      \<or> card (fmdom' (objects w) - insert i (set visited)) = card (fmdom' (objects w) - set visited)"
    by linarith
  then show "((order, skip, w, todo, i # visited, found), (order, skip, w, i # todo, visited, found)) \<in> ?R"
    by auto
  fix object
  assume "\<not> (skip i \<or> i \<in> set visited)" "fmlookup (objects w) i = Some object"
  then have "i \<in> fmdom' (objects w) - set visited"
    by (simp add: fmdom'I)
  then have "card (fmdom' (objects w) - insert i (set visited)) < card (fmdom' (objects w) - set visited)"
    by (intro psubset_card_mono) auto
  then show "((order, skip, w, order todo (ObjectIDs (Object_Contents object)), i # visited, found @ [object]),
      (order, skip, w, i # todo, visited, found)) \<in> ?R"
    by simp
qed simp_all

definition collect_queue :: "World \<Rightarrow> ObjectInstanceID list \<Rightarrow> ObjectInstance list" where
  "collect_queue w ids = collect (\<lambda>todo contents. todo @ contents) (\<lambda>i. False) w ids [] []"

definition collect_depth :: "World \<Rightarrow> ObjectInstanceID list \<Rightarrow> ObjectInstance list" where
  "collect_depth w ids = collect (\<lambda>todo contents. contents @ todo) IsZero w ids [] []"

subsection \<open>Players\<close>

definition equipped :: "(string fset \<Rightarrow> string list) \<Rightarrow> Creature \<Rightarrow> ObjectInstanceID list" where
  "equipped ord creature = map (mget [] (Creature_Equipment creature)) (ord (fmdom (Creature_Equipment creature)))"

definition player_data :: "(string fset \<Rightarrow> string list) \<Rightarrow> World \<Rightarrow> Player \<Rightarrow> PlayerSaveData" where
  "player_data ord w player =
     (let creature = (if IsZero (Player_CreatureID player) then None else fmlookup (creatures w) (Player_CreatureID player));
          found = (case creature of
                     None \<Rightarrow> []
                   | Some c \<Rightarrow> collect_queue w (ObjectIDs (Creature_Inventory c) @ equipped ord c))
      in \<lparr>PSave_SchemaVersion = CurrentSaveSchemaVersion, PSave_Player = player, PSave_Creature = creature,
          PSave_Objects = sort_key Object_ID found\<rparr>)"

definition player_stem :: "PlayerID \<Rightarrow> string" where
  "player_stem playerID = trimPrefix playerID ''player:''"

definition player_path :: "string \<Rightarrow> string \<Rightarrow> string" where
  "player_path root name = Join [root, ''player'', ''json'', name @ ''.json'']"

text \<open>\<open>harness\<close>: the test harness has switched saving off.\<close>

definition SavePlayer ::
  "(PlayerSaveData \<Rightarrow> 'f) \<Rightarrow> bool \<Rightarrow> (string fset \<Rightarrow> string list) \<Rightarrow> PlayerID \<Rightarrow> World \<Rightarrow> 'f disk \<Rightarrow> go_error option \<times> 'f disk" where
  "SavePlayer enc harness ord playerID w disk =
     (case fmlookup (players w) playerID of
        None \<Rightarrow> (Some (Errorf ''save player %s: player not found'' [playerID]), disk)
      | Some player \<Rightarrow>
      if dbRoot w = []
      then (if harness then None else Some (Errorf ''save player %s: dbRoot is not set'' [playerID]), disk)
      else let name = player_stem (Player_ID player)
      in if name = []
         then (Some (Errorf ''save player: extracted player name is empty for ID %s'' [playerID]), disk)
         else case safeSidecarStem ''player'' name of
           Inl err \<Rightarrow> (Some err, disk)
         | Inr name \<Rightarrow>
             (case WriteJSON enc (player_path (dbRoot w) name) (player_data ord w player) disk of
                (Some err, disk) \<Rightarrow> (Some (Wrapf ''save player %s: %w'' [playerID] err), disk)
              | (None, disk) \<Rightarrow> (None, disk)))"

definition LoadPlayer ::
  "('f \<Rightarrow> PlayerSaveData result) \<Rightarrow> string \<Rightarrow> PlayerID \<Rightarrow> 'f disk \<Rightarrow> PlayerSaveData option result" where
  "LoadPlayer dec root playerID disk =
     (let name = player_stem playerID
      in if name = [] then Inl (Errorf ''invalid player id for load'' [])
         else case safeSidecarStem ''player'' name of
           Inl err \<Rightarrow> Inl err
         | Inr name \<Rightarrow> load_file dec MigratePlayerSaveData ''saved player'' playerID (player_path root name) disk)"

definition put_objects :: "ObjectInstance list \<Rightarrow> World \<Rightarrow> World" where
  "put_objects objs w = foldl (\<lambda>w obj. w\<lparr>objects := fmupd (Object_ID obj) obj (objects w)\<rparr>) w objs"

definition MergePlayerSaveIntoWorld :: "PlayerSaveData \<Rightarrow> World \<Rightarrow> World" where
  "MergePlayerSaveIntoWorld save w =
     (if Player_ID (PSave_Player save) = [] then w
      else let w = w\<lparr>players := fmupd (Player_ID (PSave_Player save)) (PSave_Player save) (players w)\<rparr>;
               w = (case PSave_Creature save of
                      None \<Rightarrow> w
                    | Some c \<Rightarrow> w\<lparr>creatures := fmupd (Creature_ID c) c (creatures w)\<rparr>)
           in put_objects (PSave_Objects save) w)"

subsection \<open>Banks\<close>

definition bank_stem :: "BankID \<Rightarrow> string" where
  "bank_stem bankID =
     (let parts = split_at CHR '':'' bankID
      in if 3 \<le> length parts then join_with '':'' (drop 2 parts) else bankID)"

definition bank_path :: "string \<Rightarrow> string \<Rightarrow> string" where
  "bank_path root name = Join [root, ''player'', ''bank'', ''json'', name @ ''.json'']"

definition bank_data :: "World \<Rightarrow> BankAccount \<Rightarrow> BankSaveBundle" where
  "bank_data w bank =
     \<lparr>BSave_SchemaVersion = CurrentSaveSchemaVersion, BSave_BankAccount = bank,
      BSave_Objects = collect_depth w (ObjectIDs (Bank_Objects bank))\<rparr>"

definition SaveBank :: "(BankSaveBundle \<Rightarrow> 'f) \<Rightarrow> BankID \<Rightarrow> World \<Rightarrow> 'f disk \<Rightarrow> go_error option \<times> 'f disk" where
  "SaveBank enc bankID w disk =
     (case fmlookup (banks w) bankID of
        None \<Rightarrow> (Some (Errorf ''save bank: bank account %q not found'' [bankID]), disk)
      | Some bank \<Rightarrow>
      if dbRoot w = [] then (Some (Errorf ''save bank %q: dbRoot is not set'' [bankID]), disk)
      else let name = (if Bank_OwnerName bank = [] then bank_stem bankID else Bank_OwnerName bank)
      in case safeSidecarStem ''bank'' name of
           Inl err \<Rightarrow> (Some err, disk)
         | Inr name \<Rightarrow>
             (case WriteJSON enc (bank_path (dbRoot w) name) (bank_data w bank) disk of
                (Some err, disk) \<Rightarrow> (Some (Wrapf ''save bank to JSON %q: %w'' [bank_path (dbRoot w) name] err), disk)
              | (None, disk) \<Rightarrow> (None, disk)))"

definition LoadBank :: "('f \<Rightarrow> BankSaveBundle result) \<Rightarrow> BankID \<Rightarrow> World \<Rightarrow> 'f disk \<Rightarrow> BankSaveBundle option result" where
  "LoadBank dec bankID w disk =
     (if dbRoot w = [] then Inl (Errorf ''load bank: dbRoot not set'' [])
      else case safeSidecarStem ''bank'' (bank_stem bankID) of
        Inl err \<Rightarrow> Inl err
      | Inr name \<Rightarrow> load_file dec MigrateBankSaveBundle ''bank JSON'' bankID (bank_path (dbRoot w) name) disk)"

definition MergeBankSave :: "BankSaveBundle \<Rightarrow> World \<Rightarrow> World" where
  "MergeBankSave bundle w =
     (let account = BSave_BankAccount bundle
      in if Bank_ID account = [] then w
         else put_objects (BSave_Objects bundle) (w\<lparr>banks := fmupd (Bank_ID account) account (banks w)\<rparr>))"

subsection \<open>Objects on the floor of a room\<close>

definition room_stem :: "string \<Rightarrow> string" where
  "room_stem name = map (\<lambda>c. if c \<in> {CHR ''/'', CHR '':'', CHR 0x5C} then CHR ''_'' else c) name"

definition room_path :: "string \<Rightarrow> string \<Rightarrow> string" where
  "room_path root name = Join [root, ''room'', ''json'', name @ ''.objects.json'']"

definition on_floor :: "(string fset \<Rightarrow> string list) \<Rightarrow> World \<Rightarrow> RoomID \<Rightarrow> ObjectInstanceID list" where
  "on_floor ord w roomID =
     filter (\<lambda>i. case fmlookup (objects w) i of None \<Rightarrow> False | Some obj \<Rightarrow> Loc_RoomID (Object_Location obj) = roomID)
       (ord (fmdom (objects w)))"

definition room_data :: "(string fset \<Rightarrow> string list) \<Rightarrow> World \<Rightarrow> RoomID \<Rightarrow> Room \<Rightarrow> RoomObjectsSave" where
  "room_data ord w roomID room =
     \<lparr>RSave_SchemaVersion = CurrentSaveSchemaVersion, RSave_RoomID = roomID, RSave_Properties = Room_Properties room,
      RSave_Objects = sort_key Object_ID (collect_queue w (on_floor ord w roomID))\<rparr>"

definition SaveRoomObjects ::
  "(RoomObjectsSave \<Rightarrow> 'f) \<Rightarrow> (string fset \<Rightarrow> string list) \<Rightarrow> RoomID \<Rightarrow> World \<Rightarrow> 'f disk \<Rightarrow> go_error option \<times> 'f disk" where
  "SaveRoomObjects enc ord roomID w disk =
     (if IsZero roomID then (Some (Errorf ''save room objects: room id required'' []), disk)
      else case fmlookup (rooms w) roomID of
        None \<Rightarrow> (Some (Errorf ''save room objects %s: room not found'' [roomID]), disk)
      | Some room \<Rightarrow>
      if dbRoot w = [] then (Some (Errorf ''save room objects %s: dbRoot not set'' [roomID]), disk)
      else let name = trimPrefix roomID ''room:''; name = (if name = [] then ''unknown'' else name)
      in case safeSidecarStem ''room object'' (room_stem name) of
           Inl err \<Rightarrow> (Some err, disk)
         | Inr name \<Rightarrow>
             (case WriteJSON enc (room_path (dbRoot w) name) (room_data ord w roomID room) disk of
                (Some err, disk) \<Rightarrow> (Some (Wrapf ''save room objects %s: %w'' [roomID] err), disk)
              | (None, disk) \<Rightarrow> (None, disk)))"

definition LoadRoomObjects ::
  "('f \<Rightarrow> RoomObjectsSave result) \<Rightarrow> string \<Rightarrow> RoomID \<Rightarrow> 'f disk \<Rightarrow> RoomObjectsSave option result" where
  "LoadRoomObjects dec root roomID disk =
     (let name = trimPrefix roomID ''room:''
      in if name = [] then Inl (Errorf ''invalid room id for load'' [])
         else case safeSidecarStem ''room object'' (room_stem name) of
           Inl err \<Rightarrow> Inl err
         | Inr name \<Rightarrow> load_file dec MigrateRoomObjectsSave ''saved room objects'' roomID (room_path root name) disk)"

text \<open>One object of a loaded file: it leaves the place it has in the world when the file has another one for it.\<close>

definition merge_floor_object :: "World \<Rightarrow> ObjectInstance \<Rightarrow> World" where
  "merge_floor_object w obj =
     (let i = Object_ID obj;
          w = (case fmlookup (objects w) i of
                 None \<Rightarrow> w
               | Some existing \<Rightarrow>
                   if Object_Location existing \<noteq> Object_Location obj
                   then removeObjectFromHolder i (Object_Location existing) w else w);
          w = w\<lparr>objects := fmupd i obj (objects w)\<rparr>;
          w = addObjectToHolder i (Object_Location obj) w
      in foldl (\<lambda>w childID.
           case fmlookup (objects w) childID of
             None \<Rightarrow> w
           | Some child \<Rightarrow> addObjectToHolder childID (Object_Location child) w) w (ObjectIDs (Object_Contents obj)))"

fun first_of_each :: "ObjectInstanceID list \<Rightarrow> ObjectInstance list \<Rightarrow> ObjectInstance list" where
  "first_of_each seen [] = []"
| "first_of_each seen (obj # objs) =
     (if IsZero (Object_ID obj) \<or> Object_ID obj \<in> set seen then first_of_each seen objs
      else obj # first_of_each (Object_ID obj # seen) objs)"

definition MergeRoomObjectsSaveIntoWorld :: "RoomObjectsSave \<Rightarrow> World \<Rightarrow> go_error option \<times> World" where
  "MergeRoomObjectsSaveIntoWorld save w =
     (let roomID = RSave_RoomID save
      in if IsZero roomID then (None, w)
         else if RSave_Objects save = [] \<and> RSave_Properties save = fmempty then (None, w)
         else case fmlookup (rooms w) roomID of
           None \<Rightarrow> (Some (Errorf ''merge room objects %s: room not in world'' [roomID]), w)
         | Some room \<Rightarrow>
             let w = (if RSave_Properties save = fmempty then w
                      else w\<lparr>rooms := fmupd roomID (room\<lparr>Room_Properties := fmadd (Room_Properties room) (RSave_Properties save)\<rparr>)
                               (rooms w)\<rparr>)
             in (None, foldl merge_floor_object w (first_of_each [] (RSave_Objects save))))"

subsection \<open>Family news\<close>

definition news_dir :: "string \<Rightarrow> string" where
  "news_dir root = Join [root, ''player'', ''family'', ''json'']"

definition news_path :: "string \<Rightarrow> int \<Rightarrow> string" where
  "news_path root familyID = Join [root, ''player'', ''family'', ''json'', ''family_news_'' @ itoa familyID @ ''.json'']"

definition SaveFamilyNews ::
  "(FamilyNewsSave \<Rightarrow> 'f) \<Rightarrow> int \<Rightarrow> string \<Rightarrow> World \<Rightarrow> 'f disk \<Rightarrow> go_error option \<times> World \<times> 'f disk" where
  "SaveFamilyNews enc familyID content w disk =
     (if familyID \<le> 0 then (Some (Errorf ''save family news: familyID required'' []), w, disk)
      else if dbRoot w = [] then (Some (Errorf ''save family news %d: dbRoot not set'' [itoa familyID]), w, disk)
      else case disk_mkdir disk (news_dir (dbRoot w)) of
        Some err \<Rightarrow> (Some (Wrapf ''mkdir family json dir: %w'' [] err), w, disk)
      | None \<Rightarrow>
          (case WriteJSON enc (news_path (dbRoot w) familyID)
                  \<lparr>NSave_SchemaVersion = CurrentSaveSchemaVersion, NSave_FamilyID = familyID, NSave_Content = content,
                   NSave_UpdatedAt = clock w\<rparr> disk of
             (Some err, disk) \<Rightarrow> (Some (Wrapf ''save family news %d: %w'' [itoa familyID] err), w, disk)
           | (None, disk) \<Rightarrow> (None, w\<lparr>familyNewsDirty := fmdrop familyID (familyNewsDirty w)\<rparr>, disk)))"

definition LoadFamilyNews ::
  "('f \<Rightarrow> FamilyNewsSave result) \<Rightarrow> string \<Rightarrow> int \<Rightarrow> 'f disk \<Rightarrow> FamilyNewsSave option result" where
  "LoadFamilyNews dec root familyID disk =
     (if root = [] \<or> familyID \<le> 0 then Inl (Errorf ''invalid args for load family news'' [])
      else load_file dec MigrateFamilyNewsSave ''family news sidecar'' (itoa familyID) (news_path root familyID) disk)"

subsection \<open>Saving what is marked\<close>

text \<open>The loop of the flushes: every key is saved, the first error is kept, and the keys saved without error are listed.\<close>

fun save_each :: "('k \<Rightarrow> 'd \<Rightarrow> go_error option \<times> 'd) \<Rightarrow> 'k list \<Rightarrow> 'd \<Rightarrow> go_error option \<times> 'k list \<times> 'd" where
  "save_each save [] d = (None, [], d)"
| "save_each save (k # ks) d =
     (case save k d of (err, d) \<Rightarrow>
        case save_each save ks d of (firstErr, saved, d) \<Rightarrow>
          (case err of None \<Rightarrow> (firstErr, k # saved, d) | Some e \<Rightarrow> (Some e, saved, d)))"

definition first_error :: "go_error option \<Rightarrow> go_error option \<Rightarrow> go_error option" where
  "first_error a b = (case a of None \<Rightarrow> b | Some e \<Rightarrow> Some e)"

definition marked_since :: "('k fset \<Rightarrow> 'k list) \<Rightarrow> int \<Rightarrow> ('k, int) fmap \<Rightarrow> 'k list" where
  "marked_since ord since marks = filter (\<lambda>k. since \<le> mget 0 marks k) (ord (fmdom marks))"

definition unmark :: "'k list \<Rightarrow> ('k, int) fmap \<Rightarrow> ('k, int) fmap" where
  "unmark ks marks = foldl (\<lambda>m k. fmdrop k m) marks ks"

text \<open>
  The three phases of \<^verbatim>\<open>FlushDirtyPlayersAndBanks\<close>: which marks are old enough, the saves, and the removal of the
  marks of what was saved.  The code holds no lock from one phase to the next nor from one save to the next, so each
  reads a world of its own: \<open>marked\<close> is the world whose marks are read, \<open>atPlayer p\<close> and \<open>atBank b\<close> the worlds in which
  the player \<open>p\<close> and the bank \<open>b\<close> are saved (each is saved once), and \<open>after\<close> the world whose marks are removed.
\<close>

definition save_marked ::
  "(PlayerSaveData \<Rightarrow> 'f) \<Rightarrow> (BankSaveBundle \<Rightarrow> 'f) \<Rightarrow> bool \<Rightarrow> (string fset \<Rightarrow> string list) \<Rightarrow> PlayerID list \<Rightarrow> BankID list
     \<Rightarrow> (PlayerID \<Rightarrow> World) \<Rightarrow> (BankID \<Rightarrow> World) \<Rightarrow> 'f disk \<Rightarrow> go_error option \<times> PlayerID list \<times> BankID list \<times> 'f disk" where
  "save_marked encp encb harness ord dirtyPlayers dirtyBanks atPlayer atBank disk =
     (case save_each (\<lambda>pid. SavePlayer encp harness ord pid (atPlayer pid)) dirtyPlayers disk of (errP, savedPlayers, disk) \<Rightarrow>
      case save_each (\<lambda>bid. SaveBank encb bid (atBank bid)) dirtyBanks disk of (errB, savedBanks, disk) \<Rightarrow>
        (first_error errP errB, savedPlayers, savedBanks, disk))"

definition unmark_saved :: "PlayerID list \<Rightarrow> BankID list \<Rightarrow> World \<Rightarrow> World" where
  "unmark_saved savedPlayers savedBanks w =
     w\<lparr>playerDirty := unmark savedPlayers (playerDirty w), bankDirty := unmark savedBanks (bankDirty w)\<rparr>"

definition FlushDirtyPlayersAndBanks ::
  "(PlayerSaveData \<Rightarrow> 'f) \<Rightarrow> (BankSaveBundle \<Rightarrow> 'f) \<Rightarrow> bool \<Rightarrow> (string fset \<Rightarrow> string list) \<Rightarrow> int
     \<Rightarrow> World \<Rightarrow> (PlayerID \<Rightarrow> World) \<Rightarrow> (BankID \<Rightarrow> World) \<Rightarrow> World \<Rightarrow> 'f disk \<Rightarrow> go_error option \<times> World \<times> 'f disk" where
  "FlushDirtyPlayersAndBanks encp encb harness ord since marked atPlayer atBank after disk =
     (case save_marked encp encb harness ord (marked_since ord since (playerDirty marked)) (marked_since ord since (bankDirty marked))
             atPlayer atBank disk of
        (err, savedPlayers, savedBanks, disk) \<Rightarrow> (err, unmark_saved savedPlayers savedBanks after, disk))"

definition FlushDirtyRoomObjects ::
  "(RoomObjectsSave \<Rightarrow> 'f) \<Rightarrow> (string fset \<Rightarrow> string list) \<Rightarrow> int \<Rightarrow> World \<Rightarrow> (RoomID \<Rightarrow> World) \<Rightarrow> World \<Rightarrow> 'f disk
     \<Rightarrow> go_error option \<times> World \<times> 'f disk" where
  "FlushDirtyRoomObjects enc ord since marked atRoom after disk =
     (case save_each (\<lambda>rid. SaveRoomObjects enc ord rid (atRoom rid)) (marked_since ord since (roomObjectDirty marked)) disk of
        (err, saved, disk) \<Rightarrow> (err, after\<lparr>roomObjectDirty := unmark saved (roomObjectDirty after)\<rparr>, disk))"

text \<open>
  Everything, at shutdown: a player and then its bank, the banks of families, and the floors of rooms.  The players and
  banks are listed in \<open>listed\<close>, the rooms in \<open>floors\<close>, and each is saved in a world of its own, as above.
\<close>

definition save_player_and_bank ::
  "(PlayerSaveData \<Rightarrow> 'f) \<Rightarrow> (BankSaveBundle \<Rightarrow> 'f) \<Rightarrow> bool \<Rightarrow> (string fset \<Rightarrow> string list) \<Rightarrow> (PlayerID \<Rightarrow> World) \<Rightarrow> (BankID \<Rightarrow> World)
     \<Rightarrow> PlayerID \<Rightarrow> 'f disk \<Rightarrow> go_error option \<times> 'f disk" where
  "save_player_and_bank encp encb harness ord atPlayer atBank pid disk =
     (case SavePlayer encp harness ord pid (atPlayer pid) disk of (err, disk) \<Rightarrow>
        let bankID = ''bank:player:'' @ pid
        in if fmlookup (banks (atBank bankID)) bankID = None then (err, disk)
           else case SaveBank encb bankID (atBank bankID) disk of (errB, disk) \<Rightarrow> (first_error err errB, disk))"

definition FlushActivePlayersAndBanks ::
  "(PlayerSaveData \<Rightarrow> 'f) \<Rightarrow> (BankSaveBundle \<Rightarrow> 'f) \<Rightarrow> (RoomObjectsSave \<Rightarrow> 'f) \<Rightarrow> bool \<Rightarrow> (string fset \<Rightarrow> string list)
     \<Rightarrow> World \<Rightarrow> (PlayerID \<Rightarrow> World) \<Rightarrow> (BankID \<Rightarrow> World) \<Rightarrow> World \<Rightarrow> (RoomID \<Rightarrow> World)
     \<Rightarrow> World \<Rightarrow> (RoomID \<Rightarrow> World) \<Rightarrow> World \<Rightarrow> 'f disk \<Rightarrow> go_error option \<times> World \<times> 'f disk" where
  "FlushActivePlayersAndBanks encp encb encr harness ord listed atPlayer atBank floors atFloor marked atRoom after disk =
     (case save_each (save_player_and_bank encp encb harness ord atPlayer atBank) (ord (fmdom (players listed))) disk of (errP, _, disk) \<Rightarrow>
      case save_each (\<lambda>bid. SaveBank encb bid (atBank bid))
             (filter (\<lambda>bid. hasPrefix bid ''bank:family:'') (ord (fmdom (banks listed)))) disk of
        (errB, _, disk) \<Rightarrow>
      case save_each (\<lambda>rid. SaveRoomObjects encr ord rid (atFloor rid))
             (filter (\<lambda>rid. ObjectIDs (Room_Objects (mget zeroRoom (rooms floors) rid)) \<noteq> []) (ord (fmdom (rooms floors)))) disk of
        (errR, _, disk) \<Rightarrow>
      case FlushDirtyRoomObjects encr ord 0 marked atRoom after disk of (errD, w, disk) \<Rightarrow>
        (first_error (first_error (first_error errP errB) errR) errD, w, disk))"

subsection \<open>Validation\<close>

definition wrong_version :: "int \<Rightarrow> string list" where
  "wrong_version ver =
     (if ver \<noteq> CurrentSaveSchemaVersion
      then [''schemaVersion='' @ itoa ver @ '' (expected '' @ itoa CurrentSaveSchemaVersion @ '')''] else [])"

definition ValidatePlayerSaveData :: "PlayerSaveData \<Rightarrow> bool \<times> string list" where
  "ValidatePlayerSaveData save =
     (let issues = wrong_version (PSave_SchemaVersion save)
            @ (if Player_ID (PSave_Player save) = [] then [''player.ID is empty''] else [])
            @ (case PSave_Creature save of
                 None \<Rightarrow> [] | Some c \<Rightarrow> if Creature_ID c = [] then [''creature present but ID empty''] else [])
      in (issues = [], issues))"

definition ValidateRoomObjectsSave :: "RoomObjectsSave \<Rightarrow> bool \<times> string list" where
  "ValidateRoomObjectsSave save =
     (let issues = wrong_version (RSave_SchemaVersion save) @ (if RSave_RoomID save = [] then [''roomId empty''] else [])
      in (issues = [], issues))"

definition ValidateFamilyNewsSave :: "FamilyNewsSave \<Rightarrow> bool \<times> string list" where
  "ValidateFamilyNewsSave save =
     (let issues = wrong_version (NSave_SchemaVersion save) @ (if NSave_FamilyID save \<le> 0 then [''invalid familyId''] else [])
      in (issues = [], issues))"

definition ValidateBankSaveBundle :: "BankSaveBundle \<Rightarrow> bool \<times> string list" where
  "ValidateBankSaveBundle bundle =
     (let issues = wrong_version (BSave_SchemaVersion bundle)
            @ (if Bank_ID (BSave_BankAccount bundle) = [] then [''bankAccount.ID empty''] else [])
      in (issues = [], issues))"

end
