(* ===== verification/Seating.thy ===== *)
theory Seating
  imports Occupancy
begin

text \<open>
  The invariant of rooms and occupants.  \<open>seated\<close>: every id in the three maps is the id of its value, a room lists
  without repetition exactly the players and creatures whose room it is, and the creature of a player is the
  player's and in the player's room.  With the ownership of objects (\<open>sound_objects\<close>) it is what the spawns,
  moves, arrivals and deaths need and keep.
\<close>

subsection \<open>Sound objects\<close>

definition sound_objects :: "World \<Rightarrow> bool" where
  "sound_objects w \<longleftrightarrow> well_held w \<and> object_ids w \<and> fmlookup (objects w) [] = None"

definition ids_ok :: "World \<Rightarrow> bool" where
  "ids_ok w \<longleftrightarrow> object_ids w \<and> fmlookup (objects w) [] = None"

lemma sound_objects_alt: "sound_objects w \<longleftrightarrow> well_held w \<and> ids_ok w"
  by (simp add: sound_objects_def ids_ok_def)

lemma ids_ok_cong: "objects w' = objects w \<Longrightarrow> ids_ok w' = ids_ok w"
  by (simp add: ids_ok_def object_ids_def)

lemma ids_ok_upd: "ids_ok w \<Longrightarrow> Object_ID p \<noteq> [] \<Longrightarrow> ids_ok (w\<lparr>objects := fmupd (Object_ID p) p (objects w)\<rparr>)"
  by (simp add: ids_ok_def object_ids_def)

lemma ids_ok_carry_thing:
  assumes "carry_thing dice roll n t c w = (c', w', t')" and "ids_ok w"
  shows "ids_ok w'"
proof (cases "n \<le> 0 \<or> fmlookup (prototypes w) (legacyCarryObjectPrototypeID n) = None")
  case True
  with assms show ?thesis
    by (cases "n \<le> 0") (simp_all add: carry_thing_def Let_def)
next
  case False
  then obtain pr where pr: "fmlookup (prototypes w) (legacyCarryObjectPrototypeID n) = Some pr" by auto
  obtain inst t1 where p: "vary_value dice t (carried_instance roll w (Creature_ID c) (legacyCarryObjectPrototypeID n) pr) = (inst, t1)"
    by fastforce
  then have "Object_ID inst = nextObjectCloneID w (legacyCarryObjectPrototypeID n)"
    using vary_value_fields by fastforce
  then have "Object_ID inst \<noteq> []"
    by simp
  with assms False pr p ids_ok_upd show ?thesis
    by (auto simp: carry_thing_def Let_def split: if_split_asm)
qed

lemma ids_ok_carry_things: "carry_things dice roll k t c w = (c', w', t') \<Longrightarrow> ids_ok w \<Longrightarrow> ids_ok w'"
proof (induction k arbitrary: t c w)
  case (Suc k)
  obtain m t1 where m: "(if hasCreatureFlag c ''MNRGLD'' then (dice (Suc t) 50, Suc (Suc t)) else (dice t 10, Suc t)) = (m, t1)"
    by fastforce
  show ?case
  proof (cases "hasCreatureFlag c ''MNRGLD'' \<and> 9 < m")
    case True
    with Suc m show ?thesis by (simp add: Let_def)
  next
    case False
    obtain c1 w1 t2 where s: "carry_thing dice roll (mget 0 (Creature_Stats c) (''carry['' @ itoa m @ '']'')) t1 c w = (c1, w1, t2)"
      using prod_cases3 by blast
    have "carry_things dice roll k t2 c1 w1 = (c', w', t')"
      using Suc.prems(1) False m s by (simp add: Let_def del: de_Morgan_conj)
    with ids_ok_carry_thing [OF s Suc.prems(2)] show ?thesis
      by (rule Suc.IH [rotated])
  qed
qed simp

lemma ids_ok_hatched: "hatched dice roll t b c w = (c', w', t') \<Longrightarrow> ids_ok w \<Longrightarrow> ids_ok w'"
  by (auto simp: hatched_def Let_def dest: ids_ok_carry_things split: prod.splits if_splits)

lemma ids_ok_spawn: "spawnCreature dice roll t p r b tags w = (res, w', t') \<Longrightarrow> ids_ok w \<Longrightarrow> ids_ok w'"
proof -
  assume s: "spawnCreature dice roll t p r b tags w = (res, w', t')" and ok: "ids_ok w"
  show "ids_ok w'"
  proof (cases "fmlookup (creatures w) p")
    case None
    with s ok show ?thesis by (simp add: spawnCreature_def)
  next
    case (Some pr)
    let ?k = "clone_creature w p pr r tags"
    let ?c = "Creature_ID ?k"
    define w1 where "w1 = put_cooldowns ?c (fmupd ''wander'' (clock w) (fmupd ''scavenge'' (clock w) (fmupd ''attack'' (clock w)
      (creature_cooldowns w ?c)))) w"
    obtain c' w2 t2 where h: "hatched dice roll t b ?k w1 = (c', w2, t2)"
      using prod_cases3 by blast
    have "objects w1 = objects w"
      by (simp add: w1_def put_cooldowns_def)
    then have "ids_ok w1"
      using ids_ok_cong [of w1 w] ok by simp
    then have "ids_ok w2"
      by (rule ids_ok_hatched [OF h])
    moreover have "objects w' = objects w2"
      using s h unfolding w1_def by (auto simp: spawnCreature_def Some Let_def split: option.splits)
    ultimately show ?thesis
      using ids_ok_cong by blast
  qed
qed

lemma object_ids_createObject:
  assumes c: "createObjectFromPrototype n roll skip i l w = Some (r, v)" and ids: "object_ids w"
    and l: "\<And>k. holderOf l \<noteq> InObject k"
  shows "object_ids v"
proof -
  have put: "object_ids (put_object p w)" if "Object_Location p = l" for p
    using ids l that by (intro object_ids_put_any) simp_all
  have t: "clone_tree n roll skip s l [] w = Some (r, v) \<Longrightarrow> object_ids v" for s
    using object_ids_clone_tree(1) ids l by blast
  have i: "Object_Location (instance_of w i pr l) = l" for pr
    by (simp add: instance_of_def)
  show ?thesis
    using c ids t by (auto simp: createObjectFromPrototype_def Let_def i intro!: put split: option.split_asm if_split_asm)
qed

lemma object_ids_mark [simp]: "object_ids (MarkRoomObjectsDirty r w) = object_ids w"
  by (rule object_ids_cong) simp

lemma sound_create_permanent:
  assumes s: "sound_objects w" and r: "r \<noteq> []" "fmlookup (rooms w) r \<noteq> None"
  shows "sound_objects (create_permanent roll i r w) \<and> same_outline w (create_permanent roll i r w)"
proof -
  have l: "ObjectLocation_Validate (roomLocation r) = None" "\<And>k. holderOf (roomLocation r) \<noteq> InObject k"
    and ex: "holder_exists w (holderOf (roomLocation r))"
    using r by (simp_all add: holder_exists_def)
  from s have wh: "well_held w" and ids: "object_ids w" and e: "fmlookup (objects w) [] = None"
    by (simp_all add: sound_objects_def)
  obtain res v where c: "createObjectFromPrototype (card (fmdom' (objects w))) roll False i (roomLocation r) w = Some (res, v)"
    and cp: "copied w res v (roomLocation r)"
    using createObject_correct(1) [OF wh e ids order_refl l ex] by blast
  have v: "well_held v" "loc v [] = None" and ids_v: "object_ids v"
    using cp e object_ids_createObject [OF c ids l(2)]
    by (auto simp: copied_def grown_def unmoved_def loc_None split: sum.splits) (simp add: loc_None [symmetric])
  have out: "same_outline w v"
    using c ex by (rule same_outline_createObject)
  show ?thesis
  proof (cases res)
    case (Inl err)
    with c v ids_v out show ?thesis
      by (simp add: create_permanent_def sound_objects_def loc_None)
  next
    case (Inr oid)
    with cp have "loc v oid \<noteq> None"
      by (simp add: copied_def grown_def)
    then obtain p where p: "fmlookup (objects v) oid = Some p"
      by (auto simp: loc_None)
    define q where "q = p\<lparr>Object_Metadata := (Object_Metadata p)\<lparr>Meta_Tags :=
      addMetadataTags (Meta_Tags (Object_Metadata p)) [''OPERMT'', ''roomPermanent'', ''permanent'']\<rparr>\<rparr>"
    have eq: "create_permanent roll i r w = MarkRoomObjectsDirty r (v\<lparr>objects := fmupd oid q (objects v)\<rparr>)"
      using c Inr p by (simp add: create_permanent_def mget_def q_def Let_def)
    have "well_held (v\<lparr>objects := fmupd oid q (objects v)\<rparr>)"
      using v(1) well_held_object_upd [OF p, of q] by (simp add: q_def)
    moreover have "object_ids (v\<lparr>objects := fmupd oid q (objects v)\<rparr>)"
      using ids_v p by (simp add: object_ids_def q_def)
    moreover have "oid \<noteq> []"
      using p v(2) by (auto simp: loc_None)
    moreover have "same_outline v (create_permanent roll i r w)"
      unfolding eq by (rule same_outline_cong) simp_all
    ultimately show ?thesis
      using v(2) out same_outline_trans
      by (auto simp: eq sound_objects_def loc_None)
  qed
qed

subsection \<open>Everyone in one room\<close>

definition keyed :: "World \<Rightarrow> bool" where
  "keyed w \<longleftrightarrow>
     (\<forall>i p. fmlookup (players w) i = Some p \<longrightarrow> i \<noteq> [] \<and> Player_ID p = i)
     \<and> (\<forall>k c. fmlookup (creatures w) k = Some c \<longrightarrow> k \<noteq> [] \<and> Creature_ID c = k)
     \<and> (\<forall>r room. fmlookup (rooms w) r = Some room \<longrightarrow> r \<noteq> [] \<and> Room_ID room = r)"

definition players_listed :: "World \<Rightarrow> bool" where
  "players_listed w \<longleftrightarrow> (\<forall>r room. fmlookup (rooms w) r = Some room \<longrightarrow>
     distinct (Room_PlayerIDs room)
     \<and> (\<forall>i. i \<in> set (Room_PlayerIDs room) \<longleftrightarrow> (\<exists>p. fmlookup (players w) i = Some p \<and> Player_RoomID p = r)))"

definition creatures_listed :: "World \<Rightarrow> bool" where
  "creatures_listed w \<longleftrightarrow> (\<forall>r room. fmlookup (rooms w) r = Some room \<longrightarrow>
     distinct (Room_CreatureIDs room)
     \<and> (\<forall>k. k \<in> set (Room_CreatureIDs room) \<longleftrightarrow> (\<exists>c. fmlookup (creatures w) k = Some c \<and> Creature_RoomID c = r)))"

definition linked :: "World \<Rightarrow> bool" where
  "linked w \<longleftrightarrow> (\<forall>i p. fmlookup (players w) i = Some p \<longrightarrow> Player_CreatureID p \<noteq> [] \<longrightarrow>
     (\<exists>c. fmlookup (creatures w) (Player_CreatureID p) = Some c \<and> Creature_PlayerID c = i \<and> Creature_RoomID c = Player_RoomID p))"

definition seated :: "World \<Rightarrow> bool" where
  "seated w \<longleftrightarrow> keyed w \<and> players_listed w \<and> creatures_listed w \<and> linked w"

lemma seatedD:
  "seated w \<Longrightarrow> keyed w" "seated w \<Longrightarrow> players_listed w" "seated w \<Longrightarrow> creatures_listed w" "seated w \<Longrightarrow> linked w"
  by (simp_all add: seated_def)

lemma keyedD:
  "keyed w \<Longrightarrow> fmlookup (players w) i = Some p \<Longrightarrow> i \<noteq> [] \<and> Player_ID p = i"
  "keyed w \<Longrightarrow> fmlookup (creatures w) k = Some c \<Longrightarrow> k \<noteq> [] \<and> Creature_ID c = k"
  "keyed w \<Longrightarrow> fmlookup (rooms w) r = Some room \<Longrightarrow> r \<noteq> [] \<and> Room_ID room = r"
  by (simp_all add: keyed_def)

lemma players_listedD:
  "players_listed w \<Longrightarrow> fmlookup (rooms w) r = Some room \<Longrightarrow> distinct (Room_PlayerIDs room)"
  "players_listed w \<Longrightarrow> fmlookup (rooms w) r = Some room
     \<Longrightarrow> i \<in> set (Room_PlayerIDs room) \<longleftrightarrow> (\<exists>p. fmlookup (players w) i = Some p \<and> Player_RoomID p = r)"
  unfolding players_listed_def by blast+

lemma creatures_listedD:
  "creatures_listed w \<Longrightarrow> fmlookup (rooms w) r = Some room \<Longrightarrow> distinct (Room_CreatureIDs room)"
  "creatures_listed w \<Longrightarrow> fmlookup (rooms w) r = Some room
     \<Longrightarrow> k \<in> set (Room_CreatureIDs room) \<longleftrightarrow> (\<exists>c. fmlookup (creatures w) k = Some c \<and> Creature_RoomID c = r)"
  unfolding creatures_listed_def by blast+

lemma linkedD:
  "linked w \<Longrightarrow> fmlookup (players w) i = Some p \<Longrightarrow> Player_CreatureID p \<noteq> []
     \<Longrightarrow> \<exists>c. fmlookup (creatures w) (Player_CreatureID p) = Some c \<and> Creature_PlayerID c = i \<and> Creature_RoomID c = Player_RoomID p"
  unfolding linked_def by blast

text \<open>What the invariant reads of the world.\<close>

definition roster :: "World \<Rightarrow> RoomID \<Rightarrow> (RoomID \<times> PlayerID list \<times> CreatureID list) option" where
  "roster w r = map_option (\<lambda>room. (Room_ID room, Room_PlayerIDs room, Room_CreatureIDs room)) (fmlookup (rooms w) r)"

definition player_place :: "World \<Rightarrow> PlayerID \<Rightarrow> (PlayerID \<times> RoomID \<times> CreatureID) option" where
  "player_place w i = map_option (\<lambda>p. (Player_ID p, Player_RoomID p, Player_CreatureID p)) (fmlookup (players w) i)"

definition creature_place :: "World \<Rightarrow> CreatureID \<Rightarrow> (CreatureID \<times> RoomID \<times> PlayerID) option" where
  "creature_place w k = map_option (\<lambda>c. (Creature_ID c, Creature_RoomID c, Creature_PlayerID c)) (fmlookup (creatures w) k)"

lemmas place_defs = roster_def player_place_def creature_place_def

lemma all_player_place:
  "(\<forall>i q r k. player_place w i = Some (q, r, k) \<longrightarrow> P i q r k)
     \<longleftrightarrow> (\<forall>i p. fmlookup (players w) i = Some p \<longrightarrow> P i (Player_ID p) (Player_RoomID p) (Player_CreatureID p))"
  by (auto simp: player_place_def)

lemma all_roster:
  "(\<forall>r q ps cs. roster w r = Some (q, ps, cs) \<longrightarrow> P r q ps cs)
     \<longleftrightarrow> (\<forall>r room. fmlookup (rooms w) r = Some room \<longrightarrow> P r (Room_ID room) (Room_PlayerIDs room) (Room_CreatureIDs room))"
  by (auto simp: roster_def)

lemma seated_places:
  "seated w \<longleftrightarrow>
     (\<forall>i q r k. player_place w i = Some (q, r, k) \<longrightarrow> i \<noteq> [] \<and> q = i \<and> (k \<noteq> [] \<longrightarrow> (\<exists>q'. creature_place w k = Some (q', r, i))))
     \<and> (\<forall>k q r i. creature_place w k = Some (q, r, i) \<longrightarrow> k \<noteq> [] \<and> q = k)
     \<and> (\<forall>r q ps cs. roster w r = Some (q, ps, cs) \<longrightarrow> r \<noteq> [] \<and> q = r \<and> distinct ps \<and> distinct cs
          \<and> (\<forall>i. i \<in> set ps \<longleftrightarrow> (\<exists>q' k. player_place w i = Some (q', r, k)))
          \<and> (\<forall>k. k \<in> set cs \<longleftrightarrow> (\<exists>q' i. creature_place w k = Some (q', r, i))))"
  (is "?l \<longleftrightarrow> ?p \<and> ?c \<and> ?r")
proof -
  have p: "?p \<longleftrightarrow> (\<forall>i p. fmlookup (players w) i = Some p \<longrightarrow> i \<noteq> [] \<and> Player_ID p = i) \<and> linked w"
  proof -
    have cp: "(\<exists>q'. creature_place w k = Some (q', r, i))
        \<longleftrightarrow> (\<exists>c. fmlookup (creatures w) k = Some c \<and> Creature_PlayerID c = i \<and> Creature_RoomID c = r)" for k r i
      by (auto simp: creature_place_def)
    have "?p \<longleftrightarrow> (\<forall>i p. fmlookup (players w) i = Some p \<longrightarrow> i \<noteq> [] \<and> Player_ID p = i
        \<and> (Player_CreatureID p \<noteq> [] \<longrightarrow> (\<exists>q'. creature_place w (Player_CreatureID p) = Some (q', Player_RoomID p, i))))"
      by (rule all_player_place)
    then show ?thesis
      unfolding cp linked_def by blast
  qed
  have c: "?c \<longleftrightarrow> (\<forall>k c. fmlookup (creatures w) k = Some c \<longrightarrow> k \<noteq> [] \<and> Creature_ID c = k)"
    by (auto simp: place_defs)
  have pl: "(\<exists>q' k. player_place w i = Some (q', r, k)) \<longleftrightarrow> (\<exists>p. fmlookup (players w) i = Some p \<and> Player_RoomID p = r)" for i r
    by (auto simp: place_defs)
  have cr: "(\<exists>q' i. creature_place w k = Some (q', r, i)) \<longleftrightarrow> (\<exists>c. fmlookup (creatures w) k = Some c \<and> Creature_RoomID c = r)" for k r
    by (auto simp: place_defs)
  have "?r \<longleftrightarrow> (\<forall>r room. fmlookup (rooms w) r = Some room \<longrightarrow> r \<noteq> [] \<and> Room_ID room = r) \<and> players_listed w \<and> creatures_listed w"
    unfolding pl cr players_listed_def creatures_listed_def all_roster by blast
  then show ?thesis
    unfolding p c seated_def keyed_def by blast
qed

lemma seated_cong:
  assumes "roster w' = roster w" and "player_place w' = player_place w" and "creature_place w' = creature_place w"
  shows "seated w' = seated w"
  unfolding seated_places assms ..

lemma seated_outline:
  assumes "same_outline w w'"
  shows "seated w' = seated w" and "roster w' = roster w" and "creature_place w' = creature_place w"
proof -
  have r: "map_option room_outline (fmlookup (rooms w') r) = map_option room_outline (fmlookup (rooms w) r)" for r
    using assms by (simp add: same_outline_def)
  have c: "map_option creature_outline (fmlookup (creatures w') k) = map_option creature_outline (fmlookup (creatures w) k)" for k
    using assms by (simp add: same_outline_def)
  have cf: "creature_outline a = creature_outline b \<Longrightarrow> Creature_ID a = Creature_ID b \<and> Creature_RoomID a = Creature_RoomID b
      \<and> Creature_PlayerID a = Creature_PlayerID b" for a b
    by (cases a; cases b; simp add: creature_outline_def)
  have "roster w' r = roster w r" for r
    using r [of r] by (cases "fmlookup (rooms w) r"; cases "fmlookup (rooms w') r")
      (auto simp: roster_def dest: room_outline_fields)
  moreover have "creature_place w' k = creature_place w k" for k
    using c [of k] by (cases "fmlookup (creatures w) k"; cases "fmlookup (creatures w') k")
      (auto simp: creature_place_def dest: cf)
  ultimately show "roster w' = roster w" and "creature_place w' = creature_place w"
    by auto
  moreover have "player_place w' = player_place w"
    using assms by (auto simp: player_place_def same_outline_def)
  ultimately show "seated w' = seated w"
    by (intro seated_cong)
qed

subsection \<open>Spawns\<close>

text \<open>New creatures and objects may come; who was there stays where they were.\<close>

definition populated :: "World \<Rightarrow> World \<Rightarrow> bool" where
  "populated w w' \<longleftrightarrow> players w' = players w
     \<and> (\<forall>k x. map_option creature_outline (fmlookup (creatures w) k) = Some x
          \<longrightarrow> map_option creature_outline (fmlookup (creatures w') k) = Some x)
     \<and> (\<forall>r. map_option (\<lambda>(q, ps, cs). (q, ps)) (roster w' r) = map_option (\<lambda>(q, ps, cs). (q, ps)) (roster w r))"

lemma populated_refl [simp]: "populated w w"
  by (simp add: populated_def)

lemma populated_trans: "populated u v \<Longrightarrow> populated v w \<Longrightarrow> populated u w"
  by (simp add: populated_def)

lemma creature_outline_eq:
  "creature_outline c = creature_outline c' \<Longrightarrow> Creature_ID c = Creature_ID c' \<and> Creature_RoomID c = Creature_RoomID c'
     \<and> Creature_PlayerID c = Creature_PlayerID c' \<and> Creature_Stats c = Creature_Stats c' \<and> Creature_Metadata c = Creature_Metadata c'
     \<and> Creature_Properties c = Creature_Properties c' \<and> Creature_Level c = Creature_Level c'"
  by (cases c; cases c') (simp add: creature_outline_def)

lemma populated_place:
  assumes "populated w w'" and "creature_place w k = Some x"
  shows "creature_place w' k = Some x"
proof -
  obtain c where c: "fmlookup (creatures w) k = Some c" and x: "x = (Creature_ID c, Creature_RoomID c, Creature_PlayerID c)"
    using assms(2) by (auto simp: creature_place_def)
  then have "map_option creature_outline (fmlookup (creatures w') k) = Some (creature_outline c)"
    using assms(1) by (simp add: populated_def)
  then obtain c' where "fmlookup (creatures w') k = Some c'" "creature_outline c' = creature_outline c"
    by auto
  with creature_outline_eq [OF this(2)] x show ?thesis
    by (simp add: creature_place_def)
qed

definition in_order :: "World \<Rightarrow> bool" where
  "in_order w \<longleftrightarrow> sound_objects w \<and> seated w"

lemma seated_room_lists:
  assumes "seated w" and "roster w r = Some (q, ps, cs)"
  shows "r \<noteq> []" "q = r" "distinct ps" "distinct cs"
    "i \<in> set ps \<longleftrightarrow> (\<exists>q' k. player_place w i = Some (q', r, k))"
    "k \<in> set cs \<longleftrightarrow> (\<exists>q' i. creature_place w k = Some (q', r, i))"
  using assms unfolding seated_places by blast+

lemma seated_new_creature:
  assumes s: "seated w" and new: "creature_place w c = None" "c \<noteq> []"
    and cr: "creature_place w' = (creature_place w)(c := Some (c, r, o'))"
    and pl: "player_place w' = player_place w"
    and ro: "\<And>x. roster w' x = (if x = r then map_option (\<lambda>(q, ps, cs). (q, ps, insertCreatureIDLegacySorted u cs c)) (roster w x) else roster w x)"
  shows "seated w'"
proof -
  have p: "i \<noteq> [] \<and> q = i \<and> (k \<noteq> [] \<longrightarrow> (\<exists>q'. creature_place w' k = Some (q', x, i)))"
    if "player_place w' i = Some (q, x, k)" for i q x k
  proof -
    from that s have "i \<noteq> [] \<and> q = i \<and> (k \<noteq> [] \<longrightarrow> (\<exists>q'. creature_place w k = Some (q', x, i)))"
      unfolding pl seated_places by blast
    with new(1) cr show ?thesis by auto
  qed
  have c: "k \<noteq> [] \<and> q = k" if "creature_place w' k = Some (q, x, i)" for k q x i
    using that s new(2) unfolding cr seated_places by (auto split: if_splits)
  have l: "x \<noteq> [] \<and> q = x \<and> distinct ps \<and> distinct cs
      \<and> (\<forall>i. i \<in> set ps \<longleftrightarrow> (\<exists>q' k. player_place w' i = Some (q', x, k)))
      \<and> (\<forall>k. k \<in> set cs \<longleftrightarrow> (\<exists>q' i. creature_place w' k = Some (q', x, i)))"
    if w': "roster w' x = Some (q, ps, cs)" for x q ps cs
  proof (cases "x = r")
    case True
    with w' ro obtain cs0 where r: "roster w x = Some (q, ps, cs0)" and cs: "cs = insertCreatureIDLegacySorted u cs0 c"
      by auto
    note b = seated_room_lists [OF s r]
    have "distinct cs"
      unfolding cs by (rule crtrefs.distinct_ins) (rule b(4))
    moreover have "k \<in> set cs \<longleftrightarrow> (\<exists>q' i. creature_place w' k = Some (q', x, i))" for k
      unfolding cs cr using True b(6) [of k] by (simp add: crtrefs.member_ins)
    ultimately show ?thesis
      unfolding pl using b by blast
  next
    case False
    with w' ro have r: "roster w x = Some (q, ps, cs)" by simp
    note b = seated_room_lists [OF s r]
    have "creature_place w c \<noteq> Some (q', x, i)" for q' i
      using new(1) by simp
    then have "(\<exists>q' i. creature_place w' k = Some (q', x, i)) \<longleftrightarrow> (\<exists>q' i. creature_place w k = Some (q', x, i))" for k
      using False by (simp add: cr)
    with b show ?thesis
      unfolding pl by blast
  qed
  show ?thesis
    unfolding seated_places using p c l by blast
qed

lemma in_order_spawn:
  assumes ok: "in_order w" and sp: "spawnCreature dice roll t p r b tags w = (res, w', t')"
  shows "in_order w' \<and> populated w w'"
proof (cases "fmlookup (creatures w) p")
  case None
  with ok sp show ?thesis by (simp add: spawnCreature_def)
next
  case (Some pr)
  let ?c = "nextCreatureCloneID w p"
  have wh: "well_held w" and ids: "ids_ok w" and s: "seated w"
    using ok by (simp_all add: in_order_def sound_objects_alt)
  obtain c' u ids s' where c': "c' = (clone_creature w p pr r tags)\<lparr>Creature_Inventory := \<lparr>ObjectIDs = ids\<rparr>, Creature_Stats := s'\<rparr>"
    and cr: "creatures w' = fmupd ?c c' (creatures w)" and wh': "well_held w'"
    and ro: "rooms w' = (case fmlookup (rooms w) r of None \<Rightarrow> rooms w
          | Some room \<Rightarrow> fmupd r (room\<lparr>Room_CreatureIDs := insertCreatureIDLegacySorted u (Room_CreatureIDs room) ?c\<rparr>) (rooms w))"
    and pl: "players w' = players w"
    using spawnCreature_effect [OF wh Some, of dice roll t r b tags] sp by auto
  have new: "creature_place w ?c = None"
    by (simp add: creature_place_def nextCreatureCloneID_fresh)
  have cp: "creature_place w' = (creature_place w)(?c := Some (?c, r, Creature_PlayerID c'))"
    by (rule ext) (simp add: creature_place_def cr c')
  have pp: "player_place w' = player_place w"
    by (rule ext) (simp add: player_place_def pl)
  have rp: "roster w' x = (if x = r then map_option (\<lambda>(q, ps, cs). (q, ps, insertCreatureIDLegacySorted u cs ?c)) (roster w x) else roster w x)" for x
    by (cases "fmlookup (rooms w) r") (auto simp: roster_def ro)
  have "seated w'"
    by (rule seated_new_creature [OF s new _ cp pp rp]) simp
  moreover have "populated w w'"
    using nextCreatureCloneID_fresh [of w p] by (cases "roster w r") (auto simp: populated_def pl cr rp)
  moreover have "ids_ok w'"
    using sp ids by (rule ids_ok_spawn)
  ultimately show ?thesis
    using wh' by (simp add: in_order_def sound_objects_alt)
qed

lemma in_order_spawn_times:
  "in_order w \<Longrightarrow> spawn_times dice roll p r n t w = (w', t') \<Longrightarrow> in_order w' \<and> populated w w'"
proof (induction n arbitrary: t w)
  case (Suc n)
  obtain res v t1 where s: "spawnCreature dice roll t p r True [''MPERMT'', ''permanent''] w = (res, v, t1)"
    using prod_cases3 by blast
  with Suc.prems(2) have "spawn_times dice roll p r n t1 v = (w', t')" by simp
  with in_order_spawn [OF Suc.prems(1) s] Suc.IH populated_trans show ?case by blast
qed simp

lemma in_order_creature_group:
  assumes "in_order w" and "spawnRoomPermanentCreatureGroup dice roll r m n t w = (w', t')"
  shows "in_order w' \<and> populated w w'"
  using assms in_order_spawn_times by (auto simp: spawnRoomPermanentCreatureGroup_def Let_def split: if_split_asm option.split_asm)

lemma populated_outline: "same_outline w w' \<Longrightarrow> populated w w'"
  using seated_outline [of w w'] by (simp add: populated_def same_outline_def)

lemma in_order_create_permanent:
  assumes "in_order w" and "fmlookup (rooms w) r \<noteq> None"
  shows "in_order (create_permanent roll i r w) \<and> populated w (create_permanent roll i r w)"
proof -
  have "r \<noteq> []"
    using assms by (auto simp: in_order_def seated_def keyed_def)
  with sound_create_permanent [of w r roll i] assms
  have "sound_objects (create_permanent roll i r w)" and o: "same_outline w (create_permanent roll i r w)"
    by (simp_all add: in_order_def)
  with assms(1) show ?thesis
    by (simp add: in_order_def seated_outline(1) [OF o] populated_outline)
qed

lemma populated_room: "populated w w' \<Longrightarrow> fmlookup (rooms w') r = None \<longleftrightarrow> fmlookup (rooms w) r = None"
proof -
  assume "populated w w'"
  then have "map_option (\<lambda>(q, ps, cs). (q, ps)) (roster w' r) = map_option (\<lambda>(q, ps, cs). (q, ps)) (roster w r)"
    by (simp add: populated_def)
  then show ?thesis
    by (cases "fmlookup (rooms w) r"; cases "fmlookup (rooms w') r") (simp_all add: roster_def)
qed

lemma in_order_object_group:
  assumes "in_order w" and "fmlookup (rooms w) r \<noteq> None"
  shows "in_order (spawnRoomPermanentObjectGroup roll r m n w) \<and> populated w (spawnRoomPermanentObjectGroup roll r m n w)"
proof -
  have "in_order ((create_permanent roll i r ^^ k) w) \<and> populated w ((create_permanent roll i r ^^ k) w)" for i k
  proof (induction k)
    case (Suc k)
    let ?v = "(create_permanent roll i r ^^ k) w"
    have "fmlookup (rooms ?v) r \<noteq> None"
      using Suc assms(2) populated_room [of w ?v r] by simp
    then have "in_order (create_permanent roll i r ?v) \<and> populated ?v (create_permanent roll i r ?v)"
      using Suc by (intro in_order_create_permanent) auto
    with Suc populated_trans show ?case
      unfolding funpow.simps(2) o_apply by blast
  qed (simp add: assms)
  then show ?thesis
    using assms(1) by (simp add: spawnRoomPermanentObjectGroup_def Let_def)
qed

lemma in_order_refresh:
  assumes "in_order w"
  shows "in_order (refreshRoomPermanentSpawns dice roll r now w) \<and> populated w (refreshRoomPermanentSpawns dice roll r now w)"
proof (cases "fmlookup (rooms w) r")
  case None
  with assms show ?thesis by (simp add: refreshRoomPermanentSpawns_def)
next
  case (Some room)
  let ?f = "\<lambda>(v, t) g. spawnRoomPermanentCreatureGroup dice roll r (Group_misc g) (Group_count g) t v"
  have c: "in_order (fst (foldl ?f (v, t) gs)) \<and> populated w (fst (foldl ?f (v, t) gs))"
    if "in_order v \<and> populated w v" for v t gs
    using that
  proof (induction gs arbitrary: v t)
    case (Cons g gs)
    obtain v' t' where s: "spawnRoomPermanentCreatureGroup dice roll r (Group_misc g) (Group_count g) t v = (v', t')"
      by fastforce
    with in_order_creature_group [OF _ s] Cons.prems populated_trans have "in_order v' \<and> populated w v'"
      by blast
    then show ?case
      using Cons.IH s by simp
  qed simp
  let ?groups = "roomPermanentDueGroups (roomPermanentSlots room [''perm_mon'', ''permMon'', ''permanentCreature'']) now"
  obtain v t where v: "foldl ?f (w, 0) ?groups = (v, t)"
    by fastforce
  then have ok: "in_order v \<and> populated w v"
    using c [of w 0 ?groups] assms by simp
  have "in_order (foldl (\<lambda>u g. spawnRoomPermanentObjectGroup roll r (Group_misc g) (Group_count g) u) v hs)
      \<and> populated w (foldl (\<lambda>u g. spawnRoomPermanentObjectGroup roll r (Group_misc g) (Group_count g) u) v hs)" for hs
  proof (rule foldl_preserves)
    fix u g
    assume u: "in_order u \<and> populated w u"
    then have "fmlookup (rooms u) r \<noteq> None"
      using Some populated_room [of w u r] by simp
    with u in_order_object_group populated_trans
    show "in_order (spawnRoomPermanentObjectGroup roll r (Group_misc g) (Group_count g) u)
        \<and> populated w (spawnRoomPermanentObjectGroup roll r (Group_misc g) (Group_count g) u)"
      by blast
  qed (rule ok)
  then show ?thesis
    by (simp add: refreshRoomPermanentSpawns_def Some v Let_def)
qed

lemma sound_frame:
  assumes "\<And>h. refs w' h = refs w h" and "objects w' = objects w"
  shows "sound_objects w' = sound_objects w"
proof -
  have "well_held w' = well_held w"
    using assms by (intro well_held_frame) simp_all
  with assms(2) show ?thesis
    by (simp add: sound_objects_def object_ids_def)
qed

lemma in_order_exits:
  assumes "in_order w"
  shows "in_order (checkRoomExits r now w) \<and> populated w (checkRoomExits r now w)"
proof -
  let ?w = "checkRoomExits r now w"
  have f: "objects ?w = objects w" "players ?w = players w" "creatures ?w = creatures w" "banks ?w = banks w"
    by (simp_all add: checkRoomExits_def split: option.split)
  have "refs ?w h = refs w h" for h
    using f by (cases h) (auto simp: refs_def checkRoomExits_def split: option.split)
  then have "sound_objects ?w"
    using assms sound_frame [of ?w w] f by (simp add: in_order_def)
  moreover have r: "roster ?w = roster w"
    by (rule ext) (auto simp: roster_def checkRoomExits_def split: option.split)
  moreover have p: "player_place ?w = player_place w" and c: "creature_place ?w = creature_place w"
    by (rule ext, simp add: place_defs f)+
  ultimately show ?thesis
    using assms seated_cong [OF r p c] by (simp add: in_order_def populated_def f)
qed

end
