(* ===== verification/Arrivals.thy ===== *)
theory Arrivals
  imports Seating
begin

text \<open>
  Moves of players and creatures, new players and the loading of a world keep everyone seated; the walk through an
  exit is the direct move to its target.
\<close>

subsection \<open>Taking some to another room\<close>

text \<open>The players \<open>I\<close> and the creatures \<open>K\<close> are now in room \<open>to\<close>, and the lists say so.\<close>

definition taken :: "PlayerID set \<Rightarrow> CreatureID set \<Rightarrow> RoomID \<Rightarrow> World \<Rightarrow> World \<Rightarrow> bool" where
  "taken I K to w w' \<longleftrightarrow>
     (\<forall>i. player_place w' i = map_option (\<lambda>(q, r, k). (q, if i \<in> I then to else r, k)) (player_place w i))
     \<and> (\<forall>k. creature_place w' k = map_option (\<lambda>(q, r, i). (q, if k \<in> K then to else r, i)) (creature_place w k))
     \<and> (\<forall>x q ps' cs'. roster w' x = Some (q, ps', cs') \<longrightarrow>
          (\<exists>ps cs. roster w x = Some (q, ps, cs)
             \<and> (distinct ps \<longrightarrow> distinct ps' \<and> set ps' = (if x = to then set ps \<union> I else set ps - I))
             \<and> (distinct cs \<longrightarrow> distinct cs' \<and> set cs' = (if x = to then set cs \<union> K else set cs - K))))"

lemma seated_taken:
  assumes s: "seated w" and t: "taken I K to w w'"
    and ex: "\<And>i. i \<in> I \<Longrightarrow> player_place w i \<noteq> None" "\<And>k. k \<in> K \<Longrightarrow> creature_place w k \<noteq> None"
    and link: "\<And>i q r k. player_place w i = Some (q, r, k) \<Longrightarrow> k \<noteq> [] \<Longrightarrow> i \<in> I \<longleftrightarrow> k \<in> K"
  shows "seated w'"
proof -
  have pp: "player_place w' i = map_option (\<lambda>(q, r, k). (q, if i \<in> I then to else r, k)) (player_place w i)" for i
    using t by (simp add: taken_def)
  have cp: "creature_place w' k = map_option (\<lambda>(q, r, i). (q, if k \<in> K then to else r, i)) (creature_place w k)" for k
    using t by (simp add: taken_def)
  have p: "i \<noteq> [] \<and> q = i \<and> (k \<noteq> [] \<longrightarrow> (\<exists>q'. creature_place w' k = Some (q', x, i)))"
    if w': "player_place w' i = Some (q, x, k)" for i q x k
  proof -
    from w' pp obtain r where r: "player_place w i = Some (q, r, k)" and x: "x = (if i \<in> I then to else r)"
      by auto
    with s have i: "i \<noteq> [] \<and> q = i \<and> (k \<noteq> [] \<longrightarrow> (\<exists>q'. creature_place w k = Some (q', r, i)))"
      unfolding seated_places by blast
    then show ?thesis
      using link [OF r] by (auto simp: cp x)
  qed
  have c: "k \<noteq> [] \<and> q = k" if w': "creature_place w' k = Some (q, x, i)" for k q x i
  proof -
    from w' cp obtain r where "creature_place w k = Some (q, r, i)" by auto
    with s show ?thesis unfolding seated_places by blast
  qed
  have l: "x \<noteq> [] \<and> q = x \<and> distinct ps' \<and> distinct cs'
      \<and> (\<forall>i. i \<in> set ps' \<longleftrightarrow> (\<exists>q' k. player_place w' i = Some (q', x, k)))
      \<and> (\<forall>k. k \<in> set cs' \<longleftrightarrow> (\<exists>q' i. creature_place w' k = Some (q', x, i)))"
    if w': "roster w' x = Some (q, ps', cs')" for x q ps' cs'
  proof -
    from t w' obtain ps cs where r: "roster w x = Some (q, ps, cs)"
      and ps: "distinct ps \<longrightarrow> distinct ps' \<and> set ps' = (if x = to then set ps \<union> I else set ps - I)"
      and cs: "distinct cs \<longrightarrow> distinct cs' \<and> set cs' = (if x = to then set cs \<union> K else set cs - K)"
      unfolding taken_def by blast
    note b = seated_room_lists [OF s r]
    have "i \<in> set ps' \<longleftrightarrow> (\<exists>q' k. player_place w' i = Some (q', x, k))" for i
      using ps b(3) b(5) [of i] ex(1) [of i] by (cases "player_place w i"; cases "i \<in> I") (auto simp: pp)
    moreover have "k \<in> set cs' \<longleftrightarrow> (\<exists>q' i. creature_place w' k = Some (q', x, i))" for k
      using cs b(4) b(6) [of k] ex(2) [of k] by (cases "creature_place w k"; cases "k \<in> K") (auto simp: cp)
    ultimately show ?thesis
      using b ps cs by blast
  qed
  show ?thesis
    unfolding seated_places using p c l by blast
qed

lemma sound_taken:
  assumes "sound_objects w" and "objects w' = objects w" and "banks w' = banks w"
    and "\<And>r. map_option Room_Objects (fmlookup (rooms w') r) = map_option Room_Objects (fmlookup (rooms w) r)"
    and "\<And>k. map_option Creature_Inventory (fmlookup (creatures w') k) = map_option Creature_Inventory (fmlookup (creatures w) k)"
  shows "sound_objects w'"
proof -
  have "refs w' h = refs w h" for h
  proof (cases h)
    case (InRoom r)
    with assms(4) [of r] show ?thesis
      by (cases "fmlookup (rooms w) r"; cases "fmlookup (rooms w') r") (simp_all add: refs_def)
  next
    case (OnCreature k)
    with assms(5) [of k] show ?thesis
      by (cases "fmlookup (creatures w) k"; cases "fmlookup (creatures w') k") (simp_all add: refs_def)
  qed (simp_all add: refs_def assms(2,3))
  with assms(1,2) sound_frame show ?thesis by blast
qed

subsection \<open>The two moves of a player\<close>

definition moved :: "Player \<Rightarrow> Creature option \<Rightarrow> RoomID \<Rightarrow> World \<Rightarrow> World" where
  "moved player creature roomID w =
     enter_room (Player_ID player) creature roomID
       ((relocate_creature creature roomID (put_player (player\<lparr>Player_RoomID := roomID\<rparr>) w))
          \<lparr>rooms := fmmap (without (Player_ID player) creature) (rooms w)\<rparr>)"

definition arrival :: "(nat \<Rightarrow> int \<Rightarrow> int) \<Rightarrow> (ObjectInstanceID \<Rightarrow> int) \<Rightarrow> Player \<Rightarrow> Creature option \<Rightarrow> RoomID \<Rightarrow> World \<Rightarrow> World" where
  "arrival dice roll player creature roomID w =
     checkRoomExits roomID (clock w)
       (refreshRoomPermanentSpawns dice roll roomID (clock w) (moved player creature roomID w))"

lemma frame_moves [simp]:
  "rooms (put_player p w) = rooms w" "creatures (put_player p w) = creatures w" "objects (put_player p w) = objects w"
  "banks (put_player p w) = banks w" "clock (put_player p w) = clock w"
  "rooms (relocate_creature c r w) = rooms w" "players (relocate_creature c r w) = players w"
  "objects (relocate_creature c r w) = objects w" "banks (relocate_creature c r w) = banks w" "clock (relocate_creature c r w) = clock w"
  "players (enter_room i c r w) = players w" "creatures (enter_room i c r w) = creatures w"
  "objects (enter_room i c r w) = objects w" "banks (enter_room i c r w) = banks w" "clock (enter_room i c r w) = clock w"
  by (simp_all add: put_player_def relocate_creature_def enter_room_def Let_def split: option.split)

lemma without_id [simp]: "Room_ID (without i c room) = Room_ID room"
  by (simp add: without_def)

lemma MovePlayerToRoom_eq:
  assumes "keyed w" and p: "fmlookup (players w) pid = Some player" and r: "fmlookup (rooms w) roomID = Some room"
  shows "MovePlayerToRoom dice roll pid roomID w
     = (case linked_creature ''move player %q to room %q'' [pid, roomID] w player of
          Inl err \<Rightarrow> (Some err, w)
        | Inr creature \<Rightarrow> (None, arrival dice roll player creature roomID w))"
proof -
  have "pid \<noteq> []" "roomID \<noteq> []" "Room_ID room = roomID"
    using keyedD(1) [OF assms(1) p] keyedD(3) [OF assms(1) r] by simp_all
  then show ?thesis
    by (simp add: MovePlayerToRoom_def p r arrival_def moved_def mget_def Let_def split: sum.split)
qed

definition creature_of :: "World \<Rightarrow> Player \<Rightarrow> Creature option" where
  "creature_of w player =
     (if Player_CreatureID player = [] then None else fmlookup (creatures w) (Player_CreatureID player))"

lemma linked_ok:
  assumes "seated w" and "fmlookup (players w) pid = Some player"
  shows "linked_creature what ids w player
     = Inr (creature_of w player)"
proof (cases "Player_CreatureID player = []")
  case False
  then obtain c where "fmlookup (creatures w) (Player_CreatureID player) = Some c" and "Creature_PlayerID c = pid"
    using linkedD [OF seatedD(4) [OF assms(1)] assms(2)] by blast
  with False keyedD(1) [OF seatedD(1) [OF assms(1)] assms(2)] show ?thesis
    by (simp add: linked_creature_def creature_of_def)
qed (simp add: linked_creature_def creature_of_def)

lemma removeID_absent: "x \<notin> set xs \<Longrightarrow> removeID xs x = xs"
  by (auto simp: removeID_def filter_id_conv)

lemma without_absent:
  "i \<notin> set (Room_PlayerIDs room) \<Longrightarrow> (\<And>c. creature = Some c \<Longrightarrow> Creature_ID c \<notin> set (Room_CreatureIDs room))
     \<Longrightarrow> without i creature room = room"
  by (cases creature) (simp_all add: without_def removeID_absent)

text \<open>In a seated world only the room a player leaves lists the player and the creature.\<close>

lemma without_everywhere:
  assumes s: "seated w" and p: "fmlookup (players w) pid = Some player" and from_room: "fmlookup (rooms w) (Player_RoomID player) = Some room"
  shows "fmmap (without pid (creature_of w player)) (rooms w)
     = fmupd (Player_RoomID player) (without pid (creature_of w player) room) (rooms w)"
proof (rule fmap_ext)
  fix r
  have "without pid (creature_of w player) x = x" if x: "fmlookup (rooms w) r = Some x" and r: "r \<noteq> Player_RoomID player" for x
  proof (rule without_absent)
    show "pid \<notin> set (Room_PlayerIDs x)"
      using players_listedD(2) [OF seatedD(2) [OF s] x] p r by simp
    fix c
    assume "creature_of w player = Some c"
    then have "Player_CreatureID player \<noteq> []" and c: "fmlookup (creatures w) (Player_CreatureID player) = Some c"
      by (auto simp: creature_of_def split: if_splits)
    then have "Creature_RoomID c = Player_RoomID player"
      using linkedD [OF seatedD(4) [OF s] p] by auto
    then show "Creature_ID c \<notin> set (Room_CreatureIDs x)"
      using creatures_listedD(2) [OF seatedD(3) [OF s] x] keyedD(2) [OF seatedD(1) [OF s] c] c r by simp
  qed
  then show "fmlookup (fmmap (without pid (creature_of w player)) (rooms w)) r
      = fmlookup (fmupd (Player_RoomID player) (without pid (creature_of w player) room) (rooms w)) r"
    using from_room by (cases "fmlookup (rooms w) r") auto
qed

text \<open>The lists of a room after the move: an id is taken out everywhere and put in at the target.\<close>

lemma list_out: "distinct xs \<Longrightarrow> distinct (removeID xs x) \<and> set (removeID xs x) = set xs - {x}"
  by (auto simp: removeID_def)

lemma list_in: "distinct xs \<Longrightarrow> distinct (insert_once lt xs x) \<and> set (insert_once lt xs x) = insert x (set xs)"
  by (simp add: insert_once_def distinct_insert_before set_insert_before insert_absorb)

lemma creature_ofD:
  assumes "seated w" and "fmlookup (players w) pid = Some player" and "creature_of w player = Some c"
  shows "fmlookup (creatures w) (Creature_ID c) = Some c" "Player_CreatureID player = Creature_ID c" "Creature_ID c \<noteq> []"
    "Creature_PlayerID c = pid" "Creature_RoomID c = Player_RoomID player"
proof -
  have n: "Player_CreatureID player \<noteq> []" and c: "fmlookup (creatures w) (Player_CreatureID player) = Some c"
    using assms(3) by (auto simp: creature_of_def split: if_splits)
  then show "Player_CreatureID player = Creature_ID c" "fmlookup (creatures w) (Creature_ID c) = Some c" "Creature_ID c \<noteq> []"
    using keyedD(2) [OF seatedD(1) [OF assms(1)] c] by simp_all
  show "Creature_PlayerID c = pid" "Creature_RoomID c = Player_RoomID player"
    using linkedD [OF seatedD(4) [OF assms(1)] assms(2) n] c by auto
qed

definition creature_ids :: "Creature option \<Rightarrow> CreatureID set" where
  "creature_ids creature = Creature_ID ` set_option creature"

lemma rooms_moved:
  assumes "keyed w" and "fmlookup (rooms w) r = Some room"
  shows "\<exists>u. rooms (moved player creature r w) = fmupd r
     ((without (Player_ID player) creature room)
       \<lparr>Room_PlayerIDs := insertPlayerIDLegacySorted u (removeID (Room_PlayerIDs room) (Player_ID player)) (Player_ID player),
        Room_CreatureIDs := (case creature of None \<Rightarrow> Room_CreatureIDs room
           | Some c \<Rightarrow> insertCreatureIDLegacySorted u (removeID (Room_CreatureIDs room) (Creature_ID c)) (Creature_ID c))\<rparr>)
     (fmmap (without (Player_ID player) creature) (rooms w))"
  using keyedD(3) [OF assms] assms(2)
  by (intro exI [of _ "(relocate_creature creature r (put_player (player\<lparr>Player_RoomID := r\<rparr>) w))
          \<lparr>rooms := fmmap (without (Player_ID player) creature) (rooms w)\<rparr>"])
    (auto simp: moved_def enter_room_def mget_def without_def Let_def split: option.split)

definition relisted :: "('a list \<Rightarrow> 'a \<Rightarrow> 'a list) \<Rightarrow> bool \<Rightarrow> 'a option \<Rightarrow> 'a list \<Rightarrow> 'a list" where
  "relisted ins here x xs = (case x of None \<Rightarrow> xs | Some x \<Rightarrow> if here then ins (removeID xs x) x else removeID xs x)"

lemma relisted:
  assumes "distinct xs"
  shows "distinct (relisted (insert_once lt) here x xs)
     \<and> set (relisted (insert_once lt) here x xs) = (if here then set xs \<union> set_option x else set xs - set_option x)"
proof (cases x)
  case (Some a)
  from list_out [OF assms, of a] list_in [of "removeID xs a" lt a] show ?thesis
    by (auto simp: relisted_def Some)
qed (simp add: relisted_def assms)

lemma insert_lists:
  "insertPlayerIDLegacySorted u = insert_once (playerIDLegacyLess u)"
  "insertCreatureIDLegacySorted u = insert_once (creatureIDLegacyLess u)"
  by (intro ext; simp add: insertPlayerIDLegacySorted_def insertCreatureIDLegacySorted_def)+

lemma roster_moved:
  assumes "keyed w" and "fmlookup (rooms w) r = Some room"
  shows "\<exists>u. roster (moved player creature r w) = (\<lambda>x. map_option (\<lambda>(q, ps, cs).
       (q, relisted (insertPlayerIDLegacySorted u) (x = r) (Some (Player_ID player)) ps,
        relisted (insertCreatureIDLegacySorted u) (x = r) (map_option Creature_ID creature) cs)) (roster w x))"
proof -
  obtain u where u: "rooms (moved player creature r w) = fmupd r
     ((without (Player_ID player) creature room)
       \<lparr>Room_PlayerIDs := insertPlayerIDLegacySorted u (removeID (Room_PlayerIDs room) (Player_ID player)) (Player_ID player),
        Room_CreatureIDs := (case creature of None \<Rightarrow> Room_CreatureIDs room
           | Some c \<Rightarrow> insertCreatureIDLegacySorted u (removeID (Room_CreatureIDs room) (Creature_ID c)) (Creature_ID c))\<rparr>)
     (fmmap (without (Player_ID player) creature) (rooms w))"
    using rooms_moved [OF assms] by blast
  show ?thesis
    by (intro exI [of _ u] ext)
      (auto simp: roster_def u without_def relisted_def assms(2) option.map_comp o_def split: option.split)
qed

lemma players_moved: "players (moved player creature r w) = fmupd (Player_ID player) (player\<lparr>Player_RoomID := r\<rparr>) (players w)"
  by (simp add: moved_def put_player_def)

lemma creatures_moved:
  "creatures (moved player creature r w) = (case creature of None \<Rightarrow> creatures w
     | Some c \<Rightarrow> fmupd (Creature_ID c) (c\<lparr>Creature_RoomID := r\<rparr>) (creatures w))"
  by (simp add: moved_def relocate_creature_def split: option.split)

lemma moved_taken:
  assumes s: "seated w" and p: "fmlookup (players w) pid = Some player" and r: "fmlookup (rooms w) r = Some room"
  shows "taken {pid} (creature_ids (creature_of w player)) r w (moved player (creature_of w player) r w)"
proof -
  let ?c = "creature_of w player"
  have id: "Player_ID player = pid"
    using keyedD(1) [OF seatedD(1) [OF s] p] by simp
  obtain u where u: "roster (moved player ?c r w) = (\<lambda>x. map_option (\<lambda>(q, ps, cs).
       (q, relisted (insertPlayerIDLegacySorted u) (x = r) (Some (Player_ID player)) ps,
        relisted (insertCreatureIDLegacySorted u) (x = r) (map_option Creature_ID ?c) cs)) (roster w x))"
    using roster_moved [OF seatedD(1) [OF s] r] by blast
  have "player_place (moved player ?c r w) i
      = map_option (\<lambda>(q, x, k). (q, if i \<in> {pid} then r else x, k)) (player_place w i)" for i
    by (cases "fmlookup (players w) i") (use p in \<open>auto simp: player_place_def players_moved id\<close>)
  moreover have "creature_place (moved player ?c r w) k
      = map_option (\<lambda>(q, x, i). (q, if k \<in> creature_ids ?c then r else x, i)) (creature_place w k)" for k
  proof (cases ?c)
    case (Some c)
    note cd = creature_ofD [OF s p Some]
    show ?thesis
      by (cases "fmlookup (creatures w) k") (use Some cd in \<open>auto simp: creature_place_def creatures_moved creature_ids_def\<close>)
  qed (simp add: creature_place_def creatures_moved creature_ids_def option.map_id0 option.map_comp o_def)
  moreover have "\<exists>ps cs. roster w x = Some (q, ps, cs)
             \<and> (distinct ps \<longrightarrow> distinct ps' \<and> set ps' = (if x = r then set ps \<union> {pid} else set ps - {pid}))
             \<and> (distinct cs \<longrightarrow> distinct cs' \<and> set cs' = (if x = r then set cs \<union> creature_ids ?c else set cs - creature_ids ?c))"
    if "roster (moved player ?c r w) x = Some (q, ps', cs')" for x q ps' cs'
  proof -
    from that obtain ps cs where x: "roster w x = Some (q, ps, cs)"
      and ps': "ps' = relisted (insert_once (playerIDLegacyLess u)) (x = r) (Some pid) ps"
      and cs': "cs' = relisted (insert_once (creatureIDLegacyLess u)) (x = r) (map_option Creature_ID ?c) cs"
      by (auto simp: u id insert_lists)
    show ?thesis
      using x relisted [of ps "playerIDLegacyLess u" "x = r" "Some pid"]
        relisted [of cs "creatureIDLegacyLess u" "x = r" "map_option Creature_ID ?c"]
      unfolding ps' cs' creature_ids_def by (simp add: option.set_map)
  qed
  ultimately show ?thesis
    unfolding taken_def by blast
qed

lemma in_order_moved:
  assumes ok: "in_order w" and p: "fmlookup (players w) pid = Some player" and r: "fmlookup (rooms w) r = Some room"
  shows "in_order (moved player (creature_of w player) r w)"
proof -
  let ?c = "creature_of w player"
  have s: "seated w" and so: "sound_objects w"
    using ok by (simp_all add: in_order_def)
  have "seated (moved player ?c r w)"
  proof (rule seated_taken [OF s moved_taken [OF s p r]])
    show "player_place w i \<noteq> None" if "i \<in> {pid}" for i
      using that p by (simp add: player_place_def)
    show "creature_place w k \<noteq> None" if "k \<in> creature_ids ?c" for k
      using that creature_ofD(1) [OF s p] by (cases ?c) (auto simp: creature_ids_def creature_place_def)
    show "i \<in> {pid} \<longleftrightarrow> k \<in> creature_ids ?c" if i: "player_place w i = Some (q, x, k)" and k: "k \<noteq> []" for i q x k
    proof -
      obtain p' where p': "fmlookup (players w) i = Some p'" "Player_CreatureID p' = k"
        using i by (auto simp: player_place_def)
      then obtain c' where c': "fmlookup (creatures w) k = Some c'" "Creature_PlayerID c' = i"
        using linkedD [OF seatedD(4) [OF s] p'(1)] k by auto
      show ?thesis
      proof (cases ?c)
        case None
        have "i \<noteq> pid"
        proof
          assume "i = pid"
          with p p'(1) have "p' = player" by simp
          with p'(2) c'(1) k None show False by (simp add: creature_of_def)
        qed
        with None show ?thesis by (simp add: creature_ids_def)
      next
        case (Some c)
        note cd = creature_ofD [OF s p Some]
        have "i = pid \<longleftrightarrow> k = Creature_ID c"
        proof
          assume "i = pid"
          with p p' cd(2) show "k = Creature_ID c" by simp
        next
          assume "k = Creature_ID c"
          with cd(1,4) c' show "i = pid" by simp
        qed
        with Some show ?thesis by (simp add: creature_ids_def)
      qed
    qed
  qed
  moreover have "sound_objects (moved player ?c r w)"
  proof (rule sound_taken [OF so])
    obtain u where u: "rooms (moved player ?c r w) = fmupd r
       ((without (Player_ID player) ?c room)
         \<lparr>Room_PlayerIDs := insertPlayerIDLegacySorted u (removeID (Room_PlayerIDs room) (Player_ID player)) (Player_ID player),
          Room_CreatureIDs := (case ?c of None \<Rightarrow> Room_CreatureIDs room
             | Some c \<Rightarrow> insertCreatureIDLegacySorted u (removeID (Room_CreatureIDs room) (Creature_ID c)) (Creature_ID c))\<rparr>)
       (fmmap (without (Player_ID player) ?c) (rooms w))"
      using rooms_moved [OF seatedD(1) [OF s] r] by blast
    show "map_option Room_Objects (fmlookup (rooms (moved player ?c r w)) x) = map_option Room_Objects (fmlookup (rooms w) x)" for x
      using r by (auto simp: u without_def option.map_comp o_def)
    show "map_option Creature_Inventory (fmlookup (creatures (moved player ?c r w)) k)
        = map_option Creature_Inventory (fmlookup (creatures w) k)" for k
      using creature_ofD(1) [OF s p] by (auto simp: creatures_moved split: option.split)
  qed (simp_all add: moved_def)
  ultimately show ?thesis
    by (simp add: in_order_def)
qed

lemma arrival_effect:
  fixes dice roll
  assumes ok: "in_order w" and p: "fmlookup (players w) pid = Some player" and r: "fmlookup (rooms w) r = Some room"
  defines "w' \<equiv> arrival dice roll player (creature_of w player) r w"
  shows "in_order w'" and "players w' = fmupd pid (player\<lparr>Player_RoomID := r\<rparr>) (players w)"
    and "creature_place w k = Some (q, x, i)
      \<Longrightarrow> creature_place w' k = Some (q, if k \<in> creature_ids (creature_of w player) then r else x, i)"
proof -
  let ?m = "moved player (creature_of w player) r w"
  let ?f = "refreshRoomPermanentSpawns dice roll r (clock w) ?m"
  have m: "in_order ?m"
    using ok p r by (rule in_order_moved)
  have f: "in_order ?f \<and> populated ?m ?f"
    using m by (rule in_order_refresh)
  have e: "in_order w' \<and> populated ?f w'"
    unfolding w'_def arrival_def using f in_order_exits by blast
  then show "in_order w'" by blast
  have pop: "populated ?m w'"
    using e f populated_trans by blast
  have "Player_ID player = pid"
    using ok p by (simp add: in_order_def seated_def keyed_def)
  with pop show "players w' = fmupd pid (player\<lparr>Player_RoomID := r\<rparr>) (players w)"
    by (simp add: populated_def players_moved)
  have s: "seated w"
    using ok by (simp add: in_order_def)
  assume "creature_place w k = Some (q, x, i)"
  then have "creature_place ?m k = Some (q, if k \<in> creature_ids (creature_of w player) then r else x, i)"
    using moved_taken [OF s p r] by (simp add: taken_def)
  from pop this show "creature_place w' k = Some (q, if k \<in> creature_ids (creature_of w player) then r else x, i)"
    by (rule populated_place)
qed

lemma MovePlayer_eq:
  assumes s: "seated w" and ok: "MovePlayer ord dice roll pid name w = (None, w')"
  obtains p from_room exit toRoom where "fmlookup (players w) pid = Some p" "fmlookup (rooms w) (Player_RoomID p) = Some from_room"
    "findExit from_room name = Some exit" "blockedMoveExitFlag exit = None" "fmlookup (rooms w) (Exit_ToRoomID exit) = Some toRoom"
    "validateMovePlayerRestrictions ord w p name exit toRoom (creature_of w p) = None"
    "w' = arrival dice roll p (creature_of w p) (Exit_ToRoomID exit) w"
proof -
  obtain p where p: "fmlookup (players w) pid = Some p"
    using ok by (auto simp: MovePlayer_def split: option.splits)
  note l = linked_ok [OF s p, of "''move player %q''" "[pid]"]
  obtain fr exit toRoom where w: "fmlookup (rooms w) (Player_RoomID p) = Some fr" "findExit fr name = Some exit"
    "blockedMoveExitFlag exit = None" "fmlookup (rooms w) (Exit_ToRoomID exit) = Some toRoom"
    "validateMovePlayerRestrictions ord w p name exit toRoom (creature_of w p) = None" "\<not> IsZero (Player_RoomID p)"
    using ok p l by (auto simp: MovePlayer_def split: option.splits if_splits)
  have id: "Player_ID p = pid" "Room_ID fr = Player_RoomID p" "Room_ID toRoom = Exit_ToRoomID exit"
    using seatedD(1) [OF s] p w by (auto simp: keyed_def)
  have "w' = arrival dice roll p (creature_of w p) (Exit_ToRoomID exit) w"
    using ok w(4) id without_everywhere [OF s p w(1)]
    by (auto simp: MovePlayer_def p l w Let_def arrival_def moved_def mget_def split: if_splits)
  with p w that show ?thesis by blast
qed

text \<open>The walk through an exit, when it is let through, is the direct move to the exit's target: although the one
  only takes the player off the list of the room it leaves, and the other searches every room, both end in the same world,
  spawns and closing exits included.\<close>

theorem Walk_is_direct_move:
  assumes "seated w" and "MovePlayer ord dice roll pid name w = (None, w')"
  shows "\<exists>p room exit. fmlookup (players w) pid = Some p \<and> fmlookup (rooms w) (Player_RoomID p) = Some room
     \<and> findExit room name = Some exit \<and> MovePlayerToRoom dice roll pid (Exit_ToRoomID exit) w = (None, w')"
proof -
  obtain p room exit toRoom where p: "fmlookup (players w) pid = Some p" "fmlookup (rooms w) (Player_RoomID p) = Some room"
    "findExit room name = Some exit" "fmlookup (rooms w) (Exit_ToRoomID exit) = Some toRoom"
    and w': "w' = arrival dice roll p (creature_of w p) (Exit_ToRoomID exit) w"
    using MovePlayer_eq [OF assms] by metis
  have "MovePlayerToRoom dice roll pid (Exit_ToRoomID exit) w = (None, w')"
    unfolding MovePlayerToRoom_eq [OF seatedD(1) [OF assms(1)] p(1,4)] by (simp add: linked_ok [OF assms(1) p(1)] w')
  with p show ?thesis by blast
qed

text \<open>In a world in order a direct move of an existing player to an existing room always succeeds and keeps the world
  in order: the player and the player's creature are in the new room, and every other player and creature is where
  it was.\<close>

theorem Direct_move_keeps_order:
  assumes ok: "in_order w" and p: "fmlookup (players w) pid = Some p" and r: "fmlookup (rooms w) r = Some room"
  shows "\<exists>w'. MovePlayerToRoom dice roll pid r w = (None, w') \<and> in_order w'
     \<and> players w' = fmupd pid (p\<lparr>Player_RoomID := r\<rparr>) (players w)
     \<and> (\<forall>k c. fmlookup (creatures w) k = Some c \<longrightarrow> (\<exists>c'. fmlookup (creatures w') k = Some c'
          \<and> Creature_RoomID c' = (if k = Player_CreatureID p then r else Creature_RoomID c)
          \<and> Creature_PlayerID c' = Creature_PlayerID c))"
proof -
  let ?w = "arrival dice roll p (creature_of w p) r w"
  have s: "seated w"
    using ok by (simp add: in_order_def)
  note e = arrival_effect [OF ok p r, where dice = dice and roll = roll]
  have "MovePlayerToRoom dice roll pid r w = (None, ?w)"
    unfolding MovePlayerToRoom_eq [OF seatedD(1) [OF s] p r] by (simp add: linked_ok [OF s p])
  moreover have "\<exists>c'. fmlookup (creatures ?w) k = Some c'
          \<and> Creature_RoomID c' = (if k = Player_CreatureID p then r else Creature_RoomID c)
          \<and> Creature_PlayerID c' = Creature_PlayerID c" if k: "fmlookup (creatures w) k = Some c" for k c
  proof -
    have "k \<noteq> []" and "Creature_ID c = k"
      using seatedD(1) [OF s] k by (auto simp: keyed_def)
    then have "k \<in> creature_ids (creature_of w p) \<longleftrightarrow> k = Player_CreatureID p"
      using creature_ofD(2) [OF s p] k by (cases "creature_of w p") (auto simp: creature_ids_def creature_of_def split: if_splits)
    with e(3) [of k "Creature_ID c" "Creature_RoomID c" "Creature_PlayerID c"] k show ?thesis
      by (auto simp: creature_place_def)
  qed
  ultimately show ?thesis
    using e(1,2) by blast
qed

subsection \<open>Moves of creatures\<close>

text \<open>A creature is moved with its player only when the link is the player's own.\<close>

definition proper_link :: "World \<Rightarrow> Creature \<Rightarrow> bool" where
  "proper_link w c \<longleftrightarrow> Creature_PlayerID c = []
     \<or> (\<exists>p. fmlookup (players w) (Creature_PlayerID c) = Some p \<and> Player_CreatureID p = Creature_ID c)"

definition owner :: "Creature \<Rightarrow> PlayerID option" where
  "owner c = (if Creature_PlayerID c = [] then None else Some (Creature_PlayerID c))"

lemma MoveCreature_effect:
  assumes key: "keyed w" and c: "fmlookup (creatures w) k = Some c" and r: "fmlookup (rooms w) r = Some room"
    and l: "proper_link w c"
  shows "\<exists>u w'. MoveCreatureToRoom k r w = (None, w')
     \<and> players w' = (case owner c of None \<Rightarrow> players w
          | Some i \<Rightarrow> fmupd i ((the (fmlookup (players w) i))\<lparr>Player_RoomID := r\<rparr>) (players w))
     \<and> creatures w' = fmupd k (c\<lparr>Creature_RoomID := r\<rparr>) (creatures w) \<and> objects w' = objects w \<and> banks w' = banks w
     \<and> roster w' = (\<lambda>x. map_option (\<lambda>(q, ps, cs).
         (q, relisted (insertPlayerIDLegacySorted u) (x = r) (owner c) ps,
          relisted (insertCreatureIDLegacySorted u) (x = r) (Some k) cs)) (roster w x))
     \<and> (\<forall>x. map_option Room_Objects (fmlookup (rooms w') x) = map_option Room_Objects (fmlookup (rooms w) x))"
proof -
  let ?i = "Creature_PlayerID c"
  have id: "k \<noteq> []" "Creature_ID c = k" "r \<noteq> []" "Room_ID room = r"
    using key c r by (auto simp: keyed_def)
  define w1 where "w1 = (if ?i = [] then w else put_player ((the (fmlookup (players w) ?i))\<lparr>Player_RoomID := r\<rparr>) w)"
  define out where "out = (\<lambda>x :: Room. x\<lparr>Room_PlayerIDs := (if ?i = [] then Room_PlayerIDs x else removeID (Room_PlayerIDs x) ?i),
      Room_CreatureIDs := removeID (Room_CreatureIDs x) k\<rparr>)"
  define u where "u = (relocate_creature (Some c) r w1)\<lparr>rooms := fmmap out (rooms w)\<rparr>"
  define room' where "room' = (out room)\<lparr>Room_PlayerIDs := (if ?i = [] then Room_PlayerIDs (out room)
        else insertPlayerIDLegacySorted u (Room_PlayerIDs (out room)) ?i),
      Room_CreatureIDs := insertCreatureIDLegacySorted u (Room_CreatureIDs (out room)) k\<rparr>"
  have pl: "?i \<noteq> [] \<Longrightarrow> fmlookup (players w) ?i = Some (the (fmlookup (players w) ?i)) \<and> Player_ID (the (fmlookup (players w) ?i)) = ?i"
    using l key by (auto simp: proper_link_def keyed_def)
  have w1: "rooms w1 = rooms w" "creatures w1 = creatures w" "objects w1 = objects w" "banks w1 = banks w"
    by (simp_all add: w1_def)
  have "MoveCreatureToRoom k r w = (None, u\<lparr>rooms := fmupd r room' (rooms u)\<rparr>)"
  proof (cases "?i = []")
    case True
    then show ?thesis
      using id by (simp add: MoveCreatureToRoom_def c r Let_def u_def w1_def room'_def out_def mget_def)
  next
    case False
    then obtain p where "fmlookup (players w) ?i = Some p"
      using pl by blast
    then show ?thesis
      using id False by (simp add: MoveCreatureToRoom_def c r Let_def u_def w1_def room'_def out_def mget_def)
  qed
  moreover have "players u = (case owner c of None \<Rightarrow> players w
          | Some i \<Rightarrow> fmupd i ((the (fmlookup (players w) i))\<lparr>Player_RoomID := r\<rparr>) (players w))"
    using pl by (simp add: u_def w1_def owner_def put_player_def)
  moreover have "creatures u = fmupd k (c\<lparr>Creature_RoomID := r\<rparr>) (creatures w)" "objects u = objects w" "banks u = banks w"
    by (simp_all add: u_def w1 relocate_creature_def id)
  moreover have "roster (u\<lparr>rooms := fmupd r room' (rooms u)\<rparr>) = (\<lambda>x. map_option (\<lambda>(q, ps, cs).
         (q, relisted (insertPlayerIDLegacySorted u) (x = r) (owner c) ps,
          relisted (insertCreatureIDLegacySorted u) (x = r) (Some k) cs)) (roster w x))"
    using r by (intro ext) (auto simp: roster_def u_def room'_def out_def relisted_def owner_def option.map_comp o_def)
  moreover have "map_option Room_Objects (fmlookup (rooms (u\<lparr>rooms := fmupd r room' (rooms u)\<rparr>)) x)
      = map_option Room_Objects (fmlookup (rooms w) x)" for x
    using r by (auto simp: u_def room'_def out_def option.map_comp o_def)
  ultimately show ?thesis
    by (intro exI [of _ u] exI [of _ "u\<lparr>rooms := fmupd r room' (rooms u)\<rparr>"]) simp
qed

lemma in_order_move_creature:
  assumes ok: "in_order w" and c: "fmlookup (creatures w) k = Some c" and l: "proper_link w c"
    and m: "MoveCreatureToRoom k r w = (e, w')"
  shows "in_order w'"
proof (cases "fmlookup (rooms w) r")
  case None
  with m c ok show ?thesis
    by (auto simp: MoveCreatureToRoom_def split: if_splits)
next
  case (Some room)
  have s: "seated w" and so: "sound_objects w" and key: "keyed w"
    using ok by (simp_all add: in_order_def seated_def)
  have id: "Creature_ID c = k"
    using key c by (auto simp: keyed_def)
  obtain u where pl: "players w' = (case owner c of None \<Rightarrow> players w
          | Some i \<Rightarrow> fmupd i ((the (fmlookup (players w) i))\<lparr>Player_RoomID := r\<rparr>) (players w))"
    and cr: "creatures w' = fmupd k (c\<lparr>Creature_RoomID := r\<rparr>) (creatures w)" and ob: "objects w' = objects w" "banks w' = banks w"
    and ro: "roster w' = (\<lambda>x. map_option (\<lambda>(q, ps, cs).
         (q, relisted (insertPlayerIDLegacySorted u) (x = r) (owner c) ps,
          relisted (insertCreatureIDLegacySorted u) (x = r) (Some k) cs)) (roster w x))"
    and rb: "\<And>x. map_option Room_Objects (fmlookup (rooms w') x) = map_option Room_Objects (fmlookup (rooms w) x)"
    using MoveCreature_effect [OF key c Some l] m by auto
  have ow: "\<exists>p. fmlookup (players w) i = Some p \<and> Player_CreatureID p = k" if "owner c = Some i" for i
    using that l id by (auto simp: owner_def proper_link_def split: if_splits)
  have t: "taken (set_option (owner c)) {k} r w w'"
    unfolding taken_def
  proof (intro conjI allI impI)
    show "player_place w' i = map_option (\<lambda>(q, x, k). (q, if i \<in> set_option (owner c) then r else x, k)) (player_place w i)" for i
    proof (cases "owner c")
      case None
      then show ?thesis
        by (cases "fmlookup (players w) i") (simp_all add: player_place_def pl)
    next
      case (Some j)
      then obtain p where "fmlookup (players w) j = Some p" using ow by blast
      with Some show ?thesis
        by (cases "fmlookup (players w) i") (auto simp: player_place_def pl)
    qed
    show "creature_place w' x = map_option (\<lambda>(q, y, i). (q, if x \<in> {k} then r else y, i)) (creature_place w x)" for x
      by (cases "fmlookup (creatures w) x") (use c in \<open>auto simp: creature_place_def cr\<close>)
    fix x q ps' cs'
    assume "roster w' x = Some (q, ps', cs')"
    then obtain ps cs where x: "roster w x = Some (q, ps, cs)"
      and ps': "ps' = relisted (insert_once (playerIDLegacyLess u)) (x = r) (owner c) ps"
      and cs': "cs' = relisted (insert_once (creatureIDLegacyLess u)) (x = r) (Some k) cs"
      by (auto simp: ro insert_lists)
    show "\<exists>ps cs. roster w x = Some (q, ps, cs)
             \<and> (distinct ps \<longrightarrow> distinct ps' \<and> set ps' = (if x = r then set ps \<union> set_option (owner c) else set ps - set_option (owner c)))
             \<and> (distinct cs \<longrightarrow> distinct cs' \<and> set cs' = (if x = r then set cs \<union> {k} else set cs - {k}))"
      using x relisted [of ps "playerIDLegacyLess u" "x = r" "owner c"]
        relisted [of cs "creatureIDLegacyLess u" "x = r" "Some k"]
      unfolding ps' cs' by simp
  qed
  have "seated w'"
  proof (rule seated_taken [OF s t])
    show "player_place w i \<noteq> None" if "i \<in> set_option (owner c)" for i
      using that ow by (auto simp: player_place_def)
    show "creature_place w x \<noteq> None" if "x \<in> {k}" for x
      using that c by (simp add: creature_place_def)
    show "i \<in> set_option (owner c) \<longleftrightarrow> x \<in> {k}" if i: "player_place w i = Some (q, y, x)" and x: "x \<noteq> []" for i q y x
    proof -
      obtain p' where p': "fmlookup (players w) i = Some p'" "Player_CreatureID p' = x"
        using i by (auto simp: player_place_def)
      have "i \<noteq> []"
        using key p'(1) by (auto simp: keyed_def)
      obtain c' where c': "fmlookup (creatures w) x = Some c'" "Creature_PlayerID c' = i"
        using linkedD [OF seatedD(4) [OF s] p'(1)] p'(2) x by auto
      show ?thesis
      proof
        assume "i \<in> set_option (owner c)"
        with ow [of i] p' show "x \<in> {k}" by auto
      next
        assume "x \<in> {k}"
        with c c' \<open>i \<noteq> []\<close> show "i \<in> set_option (owner c)" by (simp add: owner_def)
      qed
    qed
  qed
  moreover have "map_option Creature_Inventory (fmlookup (creatures w') x)
        = map_option Creature_Inventory (fmlookup (creatures w) x)" for x
    using c by (auto simp: cr)
  then have "sound_objects w'"
    by (rule sound_taken [OF so ob rb])
  ultimately show ?thesis
    by (simp add: in_order_def)
qed

subsection \<open>New players\<close>

lemma recalculated_fields:
  "recalculateCreatureCombatStats ord w c = Some c' \<Longrightarrow> \<exists>s. c' = c\<lparr>Creature_Stats := s\<rparr>"
  by (auto simp: recalculateCreatureCombatStats_def Let_def intro: exI [of _ "Creature_Stats c'"])

lemma Create_effect:
  assumes "CreatePlayerCharacter ord p0 c0 w = Some (e, w')" and "completed p0 c0 = (p, c)"
  shows "e \<noteq> None \<and> w' = w \<or> (e = None \<and> (\<exists>room s u. refuse_character p c = None
      \<and> fmlookup (players w) (Player_ID p) = None \<and> fmlookup (creatures w) (Creature_ID c) = None
      \<and> fmlookup (rooms w) (Player_RoomID p) = Some room
      \<and> players w' = fmupd (Player_ID p) p (players w)
      \<and> creatures w' = fmupd (Creature_ID c) (c\<lparr>Creature_Stats := s\<rparr>) (creatures w)
      \<and> rooms w' = fmupd (Room_ID room) (room\<lparr>Room_PlayerIDs := insertPlayerIDLegacySorted u (Room_PlayerIDs room) (Player_ID p),
            Room_CreatureIDs := insertCreatureIDLegacySorted u (Room_CreatureIDs room) (Creature_ID c)\<rparr>) (rooms w)
      \<and> objects w' = objects w \<and> banks w' = banks w
      \<and> fmlookup (playerDirty w') (Player_ID p) = Some (clock w)))"
proof (cases "refuse_character p c")
  case (Some err)
  with assms show ?thesis by (auto simp: CreatePlayerCharacter_def Let_def)
next
  case None
  show ?thesis
  proof (cases "fmlookup (players w) (Player_ID p) = None \<and> fmlookup (creatures w) (Creature_ID c) = None
      \<and> fmlookup (rooms w) (Player_RoomID p) \<noteq> None")
    case False
    with assms None show ?thesis
      by (auto simp: CreatePlayerCharacter_def Let_def split: if_splits)
  next
    case True
    then obtain room where room: "fmlookup (rooms w) (Player_RoomID p) = Some room" by auto
    with assms None True obtain c' where r: "recalculateCreatureCombatStats ord w c = Some c'"
      by (cases "recalculateCreatureCombatStats ord w c") (auto simp: CreatePlayerCharacter_def Let_def)
    obtain s where c': "c' = c\<lparr>Creature_Stats := s\<rparr>"
      using recalculated_fields [OF r] by blast
    have "Player_ID p \<noteq> []"
      using None by (auto simp: refuse_character_def Let_def split: if_splits)
    let ?u = "(put_player p w)\<lparr>creatures := fmupd (Creature_ID c) c' (creatures w)\<rparr>"
    have "e = None \<and> w' = MarkPlayerDirty (Player_ID p) (?u\<lparr>rooms := fmupd (Room_ID room)
        (room\<lparr>Room_PlayerIDs := insertPlayerIDLegacySorted ?u (Room_PlayerIDs room) (Player_ID p),
              Room_CreatureIDs := insertCreatureIDLegacySorted ?u (Room_CreatureIDs room) (Creature_ID c)\<rparr>) (rooms w)\<rparr>)"
      using assms None True r room by (simp add: CreatePlayerCharacter_def Let_def c')
    then show ?thesis
      using None True room \<open>Player_ID p \<noteq> []\<close>
      by (intro disjI2 conjI exI [of _ room] exI [of _ s] exI [of _ ?u])
        (simp_all add: c' playerDirty_Mark put_player_def)
  qed
qed

lemma refuse_None:
  "refuse_character p c = None \<Longrightarrow> Player_ID p \<noteq> [] \<and> Creature_ID c \<noteq> [] \<and> Player_CreatureID p = Creature_ID c
     \<and> Creature_PlayerID c = Player_ID p \<and> Creature_RoomID c = Player_RoomID p"
  by (auto simp: refuse_character_def Let_def split: if_splits)

lemma seated_new_player:
  assumes s: "seated w" and new: "player_place w i = None" "creature_place w k = None" "i \<noteq> []" "k \<noteq> []"
    and pl: "player_place w' = (player_place w)(i := Some (i, r, k))"
    and cr: "creature_place w' = (creature_place w)(k := Some (k, r, i))"
    and ro: "\<And>x. roster w' x = (if x = r then map_option (\<lambda>(q, ps, cs).
        (q, insert_once lt ps i, insert_once lt' cs k)) (roster w x) else roster w x)"
  shows "seated w'"
proof -
  have p: "j \<noteq> [] \<and> q = j \<and> (l \<noteq> [] \<longrightarrow> (\<exists>q'. creature_place w' l = Some (q', x, j)))"
    if j: "player_place w' j = Some (q, x, l)" for j q x l
  proof (cases "j = i")
    case True
    with j new show ?thesis by (auto simp: pl cr)
  next
    case False
    with j have "player_place w j = Some (q, x, l)" by (simp add: pl)
    with s have "j \<noteq> [] \<and> q = j \<and> (l \<noteq> [] \<longrightarrow> (\<exists>q'. creature_place w l = Some (q', x, j)))"
      unfolding seated_places by blast
    with new(2) show ?thesis by (auto simp: cr)
  qed
  have c: "l \<noteq> [] \<and> q = l" if l: "creature_place w' l = Some (q, x, j)" for l q x j
  proof (cases "l = k")
    case True
    with l new show ?thesis by (simp add: cr)
  next
    case False
    with l have "creature_place w l = Some (q, x, j)" by (simp add: cr)
    with s show ?thesis unfolding seated_places by blast
  qed
  have l: "x \<noteq> [] \<and> q = x \<and> distinct ps' \<and> distinct cs'
      \<and> (\<forall>j. j \<in> set ps' \<longleftrightarrow> (\<exists>q' l. player_place w' j = Some (q', x, l)))
      \<and> (\<forall>l. l \<in> set cs' \<longleftrightarrow> (\<exists>q' j. creature_place w' l = Some (q', x, j)))"
    if w': "roster w' x = Some (q, ps', cs')" for x q ps' cs'
  proof -
    from w' ro obtain ps cs where x: "roster w x = Some (q, ps, cs)"
      and ps': "ps' = (if x = r then insert_once lt ps i else ps)" and cs': "cs' = (if x = r then insert_once lt' cs k else cs)"
      by (cases "x = r") auto
    note b = seated_room_lists [OF s x]
    have "j \<in> set ps' \<longleftrightarrow> (\<exists>q' l. player_place w' j = Some (q', x, l))" for j
      using b(5) [of j] list_in [OF b(3)] new(1) by (cases "j = i") (auto simp: pl ps')
    moreover have "l \<in> set cs' \<longleftrightarrow> (\<exists>q' j. creature_place w' l = Some (q', x, j))" for l
      using b(6) [of l] list_in [OF b(4)] new(2) by (cases "l = k") (auto simp: cr cs')
    moreover have "distinct ps'" "distinct cs'"
      using list_in [OF b(3)] list_in [OF b(4)] b by (auto simp: ps' cs')
    ultimately show ?thesis
      using b(1,2) by blast
  qed
  show ?thesis
    unfolding seated_places using p c l by blast
qed

lemma completed_inventory: "completed p0 c0 = (p, c) \<Longrightarrow> Creature_Inventory c = Creature_Inventory c0"
  by (auto simp: completed_def Let_def)

lemma in_order_create:
  assumes ok: "in_order w" and empty: "ObjectIDs (Creature_Inventory c0) = []"
    and m: "CreatePlayerCharacter ord p0 c0 w = Some (e, w')"
  shows "in_order w'"
proof -
  obtain p c where pc: "completed p0 c0 = (p, c)" by fastforce
  show ?thesis
  proof (cases "e = None")
    case False
    with Create_effect [OF m pc] ok show ?thesis by blast
  next
    case True
    then obtain room s u where rf: "refuse_character p c = None"
      and new: "fmlookup (players w) (Player_ID p) = None" "fmlookup (creatures w) (Creature_ID c) = None"
      and room: "fmlookup (rooms w) (Player_RoomID p) = Some room"
      and pl: "players w' = fmupd (Player_ID p) p (players w)"
      and cr: "creatures w' = fmupd (Creature_ID c) (c\<lparr>Creature_Stats := s\<rparr>) (creatures w)"
      and ro: "rooms w' = fmupd (Room_ID room) (room\<lparr>Room_PlayerIDs := insertPlayerIDLegacySorted u (Room_PlayerIDs room) (Player_ID p),
            Room_CreatureIDs := insertCreatureIDLegacySorted u (Room_CreatureIDs room) (Creature_ID c)\<rparr>) (rooms w)"
      and ob: "objects w' = objects w" "banks w' = banks w"
      using Create_effect [OF m pc] by blast
    have s: "seated w" and so: "sound_objects w"
      using ok by (simp_all add: in_order_def)
    note r = refuse_None [OF rf]
    have id: "Room_ID room = Player_RoomID p"
      using seatedD(1) [OF s] room by (simp add: keyed_def)
    have "seated w'"
    proof (rule seated_new_player [OF s, where i = "Player_ID p" and k = "Creature_ID c" and r = "Player_RoomID p"])
      show "player_place w' = (player_place w)(Player_ID p := Some (Player_ID p, Player_RoomID p, Creature_ID c))"
        using r by (intro ext) (simp add: player_place_def pl)
      show "creature_place w' = (creature_place w)(Creature_ID c := Some (Creature_ID c, Player_RoomID p, Player_ID p))"
        using r by (intro ext) (simp add: creature_place_def cr)
      show "roster w' x = (if x = Player_RoomID p then map_option (\<lambda>(q, ps, cs). (q, insert_once (playerIDLegacyLess u) ps (Player_ID p),
          insert_once (creatureIDLegacyLess u) cs (Creature_ID c))) (roster w x) else roster w x)" for x
        using room by (simp add: roster_def ro id insert_lists)
    qed (use new r in \<open>simp_all add: player_place_def creature_place_def\<close>)
    moreover have "sound_objects w'"
    proof -
      have "refs w' h = refs w h" for h
        using room new(2) empty completed_inventory [OF pc]
        by (cases h) (auto simp: refs_def ro cr ob id)
      with so ob(1) show ?thesis
        using sound_frame by blast
    qed
    ultimately show ?thesis
      by (simp add: in_order_def)
  qed
qed

text \<open>A new player arrives whole or not at all: on an error nothing has changed; otherwise player and creature are
  new, linked to each other, listed in the starting room, marked for saving, and the world stays in order.\<close>

theorem Newcomer_is_seated:
  assumes "in_order w" and "ObjectIDs (Creature_Inventory c0) = []" and "CreatePlayerCharacter ord p0 c0 w = Some (e, w')"
  shows "in_order w' \<and> (case e of Some err \<Rightarrow> w' = w
     | None \<Rightarrow> \<exists>p c room. Player_ID p = Player_ID p0 \<and> fmlookup (players w) (Player_ID p0) = None \<and> fmlookup (creatures w) (Creature_ID c0) = None
         \<and> players w' = fmupd (Player_ID p0) p (players w) \<and> Player_CreatureID p = Creature_ID c0
         \<and> creatures w' = fmupd (Creature_ID c0) c (creatures w) \<and> Creature_PlayerID c = Player_ID p0
         \<and> fmlookup (rooms w') (Player_RoomID p) = Some room \<and> Creature_RoomID c = Player_RoomID p
         \<and> Player_ID p0 \<in> set (Room_PlayerIDs room) \<and> Creature_ID c0 \<in> set (Room_CreatureIDs room)
         \<and> fmlookup (playerDirty w') (Player_ID p0) = Some (clock w))"
proof -
  have ok: "in_order w'"
    using assms by (rule in_order_create)
  obtain p c where pc: "completed p0 c0 = (p, c)" by fastforce
  have id: "Player_ID p = Player_ID p0" "Creature_ID c = Creature_ID c0"
    using pc by (auto simp: completed_def Let_def)
  show ?thesis
  proof (cases e)
    case (Some err)
    with Create_effect [OF assms(3) pc] ok show ?thesis by simp
  next
    case None
    with Create_effect [OF assms(3) pc] obtain room s u where rf: "refuse_character p c = None"
      and new: "fmlookup (players w) (Player_ID p) = None" "fmlookup (creatures w) (Creature_ID c) = None"
      and room: "fmlookup (rooms w) (Player_RoomID p) = Some room"
      and pl: "players w' = fmupd (Player_ID p) p (players w)"
      and cr: "creatures w' = fmupd (Creature_ID c) (c\<lparr>Creature_Stats := s\<rparr>) (creatures w)"
      and ro: "rooms w' = fmupd (Room_ID room) (room\<lparr>Room_PlayerIDs := insertPlayerIDLegacySorted u (Room_PlayerIDs room) (Player_ID p),
            Room_CreatureIDs := insertCreatureIDLegacySorted u (Room_CreatureIDs room) (Creature_ID c)\<rparr>) (rooms w)"
      and dirty: "fmlookup (playerDirty w') (Player_ID p) = Some (clock w)"
      by blast
    note r = refuse_None [OF rf]
    have "Room_ID room = Player_RoomID p"
      using assms(1) room by (simp add: in_order_def seated_def keyed_def)
    then have "fmlookup (rooms w') (Player_RoomID p) = Some (room\<lparr>Room_PlayerIDs := insertPlayerIDLegacySorted u (Room_PlayerIDs room) (Player_ID p),
            Room_CreatureIDs := insertCreatureIDLegacySorted u (Room_CreatureIDs room) (Creature_ID c)\<rparr>)"
      by (simp add: ro)
    moreover have "Player_ID p \<in> set (insertPlayerIDLegacySorted u (Room_PlayerIDs room) (Player_ID p))"
      "Creature_ID c \<in> set (insertCreatureIDLegacySorted u (Room_CreatureIDs room) (Creature_ID c))"
      by (simp_all add: insert_lists insert_once_def set_insert_before)
    ultimately show ?thesis
      using None ok new pl cr dirty r id by fastforce
  qed
qed

end
