(* ===== verification/Loading.thy ===== *)
theory Loading
  imports Arrivals
begin

text \<open>
  What \<^verbatim>\<open>reconcileRoomOccupants\<close> makes of the lists of a loaded world, whatever they were: every player and
  creature listed once, in the order of the names, in the room it names.
\<close>

lemma set_filter_once: "set (filter_once P seen is) = {i \<in> set is. P i \<and> i \<notin> set seen}"
  by (induction P seen "is" rule: filter_once.induct) auto

lemma insert_cong:
  assumes "players w' = players w" and "creatures w' = creatures w"
  shows "insertPlayerIDLegacySorted w' = insertPlayerIDLegacySorted w"
    and "insertCreatureIDLegacySorted w' = insertCreatureIDLegacySorted w"
proof -
  have "playerLegacySortName w' = playerLegacySortName w" "creatureLegacySortName w' = creatureLegacySortName w"
    unfolding playerLegacySortName_def [abs_def] creatureLegacySortName_def [abs_def] assms by simp_all
  then have "playerIDLegacyLess w' = playerIDLegacyLess w" "creatureIDLegacyLess w' = creatureIDLegacyLess w"
    by (intro ext; simp add: playerIDLegacyLess_def creatureIDLegacyLess_def)+
  then show "insertPlayerIDLegacySorted w' = insertPlayerIDLegacySorted w"
    and "insertCreatureIDLegacySorted w' = insertCreatureIDLegacySorted w"
    by (simp_all add: insert_lists)
qed

text \<open>Only the lists differ.\<close>

definition no_lists :: "Room \<Rightarrow> Room" where
  "no_lists room = room\<lparr>Room_PlayerIDs := [], Room_CreatureIDs := []\<rparr>"

definition same_but_lists :: "World \<Rightarrow> World \<Rightarrow> bool" where
  "same_but_lists w w' \<longleftrightarrow> w' = w\<lparr>rooms := rooms w'\<rparr>
     \<and> (\<forall>r. map_option no_lists (fmlookup (rooms w') r) = map_option no_lists (fmlookup (rooms w) r))"

lemma no_lists_upd [simp]:
  "no_lists (room\<lparr>Room_PlayerIDs := ps\<rparr>) = no_lists room" "no_lists (room\<lparr>Room_CreatureIDs := cs\<rparr>) = no_lists room"
  "Room_ID (no_lists room) = Room_ID room"
  by (simp_all add: no_lists_def)

lemma same_but_lists_refl [simp]: "same_but_lists w w"
  by (simp add: same_but_lists_def)

lemma same_but_lists_trans: "same_but_lists u v \<Longrightarrow> same_but_lists v w \<Longrightarrow> same_but_lists u w"
proof -
  assume a: "same_but_lists u v" and b: "same_but_lists v w"
  then have "v = u\<lparr>rooms := rooms v\<rparr>" "w = v\<lparr>rooms := rooms w\<rparr>"
    unfolding same_but_lists_def by blast+
  then have "w = u\<lparr>rooms := rooms w\<rparr>"
    by (cases u; cases v; cases w) simp
  with a b show ?thesis
    by (simp add: same_but_lists_def)
qed

lemma same_but_lists_fields:
  assumes "same_but_lists w w'"
  shows "players w' = players w \<and> creatures w' = creatures w"
proof -
  have "w' = w\<lparr>rooms := rooms w'\<rparr>"
    using assms unfolding same_but_lists_def by blast
  then show ?thesis
    by (cases w; cases w') simp
qed

definition player_in :: "World \<Rightarrow> RoomID \<Rightarrow> PlayerID \<Rightarrow> bool" where
  "player_in w r i \<longleftrightarrow> (\<exists>p. fmlookup (players w) i = Some p \<and> Player_RoomID p = r)"

definition creature_in :: "World \<Rightarrow> RoomID \<Rightarrow> CreatureID \<Rightarrow> bool" where
  "creature_in w r k \<longleftrightarrow> (\<exists>c. fmlookup (creatures w) k = Some c \<and> Creature_RoomID c = r)"

lemma in_cong: "same_but_lists w w' \<Longrightarrow> player_in w' = player_in w" "same_but_lists w w' \<Longrightarrow> creature_in w' = creature_in w"
  by (auto simp: player_in_def creature_in_def fun_eq_iff dest: same_but_lists_fields)

lemma keyed_no_room: "keyed w \<Longrightarrow> fmlookup (rooms w) [] = None"
  unfolding keyed_def by (metis not_None_eq)

lemma seat_player_effect:
  assumes "keyed w" and "fmlookup (players w) i = Some p"
  shows "same_but_lists w (seat_player w i)"
    and "roster (seat_player w i) r = map_option (\<lambda>(q, ps, cs).
       (q, if player_in w r i then insertPlayerIDLegacySorted w ps i else ps, cs)) (roster w r)"
proof -
  have "Player_ID p = i" and e: "fmlookup (rooms w) [] = None"
    using assms keyed_no_room by (auto simp: keyed_def)
  then show "same_but_lists w (seat_player w i)"
    using assms by (auto simp: seat_player_def same_but_lists_def Let_def split: option.split)
  show "roster (seat_player w i) r = map_option (\<lambda>(q, ps, cs).
       (q, if player_in w r i then insertPlayerIDLegacySorted w ps i else ps, cs)) (roster w r)"
    using assms \<open>Player_ID p = i\<close> e
    by (cases "fmlookup (rooms w) r") (auto simp: roster_def seat_player_def player_in_def Let_def split: option.split)
qed

lemma seat_creature_effect:
  assumes "keyed w" and "fmlookup (creatures w) k = Some c"
  shows "same_but_lists w (seat_creature w k)"
    and "roster (seat_creature w k) r = map_option (\<lambda>(q, ps, cs).
       (q, ps, if creature_in w r k then insertCreatureIDLegacySorted w cs k else cs)) (roster w r)"
proof -
  have "Creature_ID c = k" and e: "fmlookup (rooms w) [] = None"
    using assms keyed_no_room by (auto simp: keyed_def)
  then show "same_but_lists w (seat_creature w k)"
    using assms by (auto simp: seat_creature_def same_but_lists_def Let_def split: option.split)
  show "roster (seat_creature w k) r = map_option (\<lambda>(q, ps, cs).
       (q, ps, if creature_in w r k then insertCreatureIDLegacySorted w cs k else cs)) (roster w r)"
    using assms \<open>Creature_ID c = k\<close> e
    by (cases "fmlookup (rooms w) r") (auto simp: roster_def seat_creature_def creature_in_def Let_def split: option.split)
qed

lemma keyed_same_but_lists:
  assumes "same_but_lists w w'"
  shows "keyed w' = keyed w"
proof -
  have id: "map_option Room_ID (fmlookup (rooms v) r) = map_option Room_ID (map_option no_lists (fmlookup (rooms v) r))" for v r
    by (simp add: option.map_comp o_def)
  have "map_option no_lists (fmlookup (rooms w') r) = map_option no_lists (fmlookup (rooms w) r)" for r
    using assms unfolding same_but_lists_def by blast
  then have ro: "map_option Room_ID (fmlookup (rooms w') r) = map_option Room_ID (fmlookup (rooms w) r)" for r
    by (simp only: id)
  have x: "(\<forall>x. fmlookup (rooms v) r = Some x \<longrightarrow> r \<noteq> [] \<and> Room_ID x = r)
      \<longleftrightarrow> (\<forall>q. map_option Room_ID (fmlookup (rooms v) r) = Some q \<longrightarrow> r \<noteq> [] \<and> q = r)" for v r
    by auto
  have "(\<forall>x. fmlookup (rooms w') r = Some x \<longrightarrow> r \<noteq> [] \<and> Room_ID x = r)
      \<longleftrightarrow> (\<forall>x. fmlookup (rooms w) r = Some x \<longrightarrow> r \<noteq> [] \<and> Room_ID x = r)" for r
    unfolding x ro ..
  then show ?thesis
    using same_but_lists_fields [OF assms] by (simp add: keyed_def)
qed

lemma seat_players_effect:
  assumes "keyed w" and "\<And>i. i \<in> set is \<Longrightarrow> fmlookup (players w) i \<noteq> None"
  shows "same_but_lists w (foldl seat_player w is)
     \<and> roster (foldl seat_player w is) r = map_option (\<lambda>(q, ps, cs).
         (q, foldl (insertPlayerIDLegacySorted w) ps (filter (player_in w r) is), cs)) (roster w r)"
  using assms(2)
proof (induction "is" rule: rev_induct)
  case Nil
  show ?case by (simp add: case_prod_beta option.map_ident)
next
  case (snoc i "is")
  let ?v = "foldl seat_player w is"
  have v: "same_but_lists w ?v" and rv: "roster ?v r = map_option (\<lambda>(q, ps, cs).
         (q, foldl (insertPlayerIDLegacySorted w) ps (filter (player_in w r) is), cs)) (roster w r)"
    using snoc by auto
  obtain p where "fmlookup (players w) i = Some p"
    using snoc.prems by fastforce
  then have p: "fmlookup (players ?v) i = Some p"
    using same_but_lists_fields [OF v] by simp
  have k: "keyed ?v"
    using keyed_same_but_lists [OF v] assms(1) by simp
  have ins: "insertPlayerIDLegacySorted ?v = insertPlayerIDLegacySorted w"
    using same_but_lists_fields [OF v] insert_cong by blast
  show ?case
    using same_but_lists_trans [OF v seat_player_effect(1) [OF k p]] seat_player_effect(2) [OF k p, of r]
    by (cases "roster w r") (auto simp: rv ins in_cong(1) [OF v])
qed

lemma seat_creatures_effect:
  assumes "keyed w" and "\<And>k. k \<in> set ks \<Longrightarrow> fmlookup (creatures w) k \<noteq> None"
  shows "same_but_lists w (foldl seat_creature w ks)
     \<and> roster (foldl seat_creature w ks) r = map_option (\<lambda>(q, ps, cs).
         (q, ps, foldl (insertCreatureIDLegacySorted w) cs (filter (creature_in w r) ks))) (roster w r)"
  using assms(2)
proof (induction ks rule: rev_induct)
  case Nil
  show ?case by (simp add: case_prod_beta option.map_ident)
next
  case (snoc k ks)
  let ?v = "foldl seat_creature w ks"
  have v: "same_but_lists w ?v" and rv: "roster ?v r = map_option (\<lambda>(q, ps, cs).
         (q, ps, foldl (insertCreatureIDLegacySorted w) cs (filter (creature_in w r) ks))) (roster w r)"
    using snoc by auto
  obtain c where "fmlookup (creatures w) k = Some c"
    using snoc.prems by fastforce
  then have c: "fmlookup (creatures ?v) k = Some c"
    using same_but_lists_fields [OF v] by simp
  have k: "keyed ?v"
    using keyed_same_but_lists [OF v] assms(1) by simp
  have ins: "insertCreatureIDLegacySorted ?v = insertCreatureIDLegacySorted w"
    using same_but_lists_fields [OF v] insert_cong by blast
  show ?case
    using same_but_lists_trans [OF v seat_creature_effect(1) [OF k c]] seat_creature_effect(2) [OF k c, of r]
    by (cases "roster w r") (auto simp: rv ins in_cong(2) [OF v])
qed

text \<open>The two lists the loops build, from the list that was there and from everyone there is.\<close>

definition seated_players :: "World \<Rightarrow> RoomID \<Rightarrow> PlayerID list \<Rightarrow> PlayerID list" where
  "seated_players w r ps = foldl (insertPlayerIDLegacySorted w) []
     (filterRoomPlayerIDs r ps (players w) @ filter (player_in w r) (sorted_list_of_fset (fmdom (players w))))"

definition seated_creatures :: "World \<Rightarrow> RoomID \<Rightarrow> CreatureID list \<Rightarrow> CreatureID list" where
  "seated_creatures w r cs = foldl (insertCreatureIDLegacySorted w) []
     (filterRoomCreatureIDs r cs (creatures w) @ filter (creature_in w r) (sorted_list_of_fset (fmdom (creatures w))))"

lemma reconcile_effect:
  assumes k: "keyed w"
  shows "same_but_lists w (reconcileRoomOccupants w)"
    and "roster (reconcileRoomOccupants w) r
       = map_option (\<lambda>(q, ps, cs). (q, seated_players w r ps, seated_creatures w r cs)) (roster w r)"
proof -
  define w1 where "w1 = w\<lparr>rooms := fmmap_keys (\<lambda>i room.
            room\<lparr>Room_PlayerIDs := sortPlayerIDsLegacy w (filterRoomPlayerIDs i (Room_PlayerIDs room) (players w)),
                 Room_CreatureIDs := sortCreatureIDsLegacy w (filterRoomCreatureIDs i (Room_CreatureIDs room) (creatures w))\<rparr>)
            (rooms w)\<rparr>"
  define w2 where "w2 = foldl seat_player w1 (sorted_list_of_fset (fmdom (players w1)))"
  have s1: "same_but_lists w w1"
    by (auto simp: w1_def same_but_lists_def option.map_comp o_def)
  have k1: "keyed w1"
    using keyed_same_but_lists [OF s1] k by simp
  have r1: "roster w1 r = map_option (\<lambda>(q, ps, cs). (q, sortPlayerIDsLegacy w (filterRoomPlayerIDs r ps (players w)),
      sortCreatureIDsLegacy w (filterRoomCreatureIDs r cs (creatures w)))) (roster w r)"
    by (simp add: roster_def w1_def option.map_comp o_def)
  have i1: "insertPlayerIDLegacySorted w1 = insertPlayerIDLegacySorted w"
    "insertCreatureIDLegacySorted w1 = insertCreatureIDLegacySorted w"
    by (rule insert_cong; simp add: w1_def)+
  have m: "i \<in> set (sorted_list_of_fset (fmdom m)) \<Longrightarrow> fmlookup m i \<noteq> None" for i and m :: "(string, 'v) fmap"
    by (simp add: sorted_list_of_fset.rep_eq fmlookup_dom_iff)
  have e2: "same_but_lists w1 w2 \<and> roster w2 r = map_option (\<lambda>(q, ps, cs). (q, foldl (insertPlayerIDLegacySorted w1) ps
      (filter (player_in w1 r) (sorted_list_of_fset (fmdom (players w1)))), cs)) (roster w1 r)"
    unfolding w2_def by (rule seat_players_effect [OF k1]) (rule m)
  have s2: "same_but_lists w1 w2"
    using e2 by simp
  have k2: "keyed w2"
    using keyed_same_but_lists [OF s2] k1 by simp
  have i2: "insertCreatureIDLegacySorted w2 = insertCreatureIDLegacySorted w"
    using insert_cong(2) [of w2 w1] same_but_lists_fields [OF s2] i1 by simp
  have e3: "same_but_lists w2 (reconcileRoomOccupants w)
     \<and> roster (reconcileRoomOccupants w) r = map_option (\<lambda>(q, ps, cs).
         (q, ps, foldl (insertCreatureIDLegacySorted w2) cs (filter (creature_in w2 r) (sorted_list_of_fset (fmdom (creatures w2))))))
           (roster w2 r)"
    unfolding reconcileRoomOccupants_def Let_def w1_def [symmetric] w2_def [symmetric]
    by (rule seat_creatures_effect [OF k2]) (rule m)
  show "same_but_lists w (reconcileRoomOccupants w)"
    using s1 s2 e3 same_but_lists_trans by blast
  have f: "players w1 = players w" "creatures w2 = creatures w"
    using same_but_lists_fields [OF s1] same_but_lists_fields [OF s2] by simp_all
  show "roster (reconcileRoomOccupants w) r
       = map_option (\<lambda>(q, ps, cs). (q, seated_players w r ps, seated_creatures w r cs)) (roster w r)"
    using e2 e3
    by (cases "roster w r")
      (auto simp: r1 i1 i2 f in_cong [OF s1] in_cong(2) [OF s2] seated_players_def seated_creatures_def
        sortPlayerIDsLegacy_def sortCreatureIDsLegacy_def)
qed

lemma in_filter_players:
  "i \<in> set (filterRoomPlayerIDs r ps (players w))
     \<longleftrightarrow> i \<in> set ps \<and> i \<noteq> [] \<and> (fmlookup (players w) i = None \<or> player_in w r i)"
  by (auto simp: filterRoomPlayerIDs_def set_filter_once player_in_def split: option.split)

lemma in_filter_creatures:
  "k \<in> set (filterRoomCreatureIDs r cs (creatures w))
     \<longleftrightarrow> k \<in> set cs \<and> k \<noteq> [] \<and> (fmlookup (creatures w) k = None \<or> creature_in w r k)"
  by (auto simp: filterRoomCreatureIDs_def set_filter_once creature_in_def split: option.split)

lemma set_seated_players:
  assumes "keyed w"
  shows "set (seated_players w r ps) = {i. player_in w r i} \<union> {i \<in> set ps. i \<noteq> [] \<and> fmlookup (players w) i = None}"
  using assms by (auto simp: seated_players_def plyrefs.set_build in_filter_players player_in_def
      sorted_list_of_fset.rep_eq fmlookup_dom_iff keyed_def)

lemma set_seated_creatures:
  assumes "keyed w"
  shows "set (seated_creatures w r cs) = {k. creature_in w r k} \<union> {k \<in> set cs. k \<noteq> [] \<and> fmlookup (creatures w) k = None}"
  using assms by (auto simp: seated_creatures_def crtrefs.set_build in_filter_creatures creature_in_def
      sorted_list_of_fset.rep_eq fmlookup_dom_iff keyed_def)

lemma distinct_seated: "distinct (seated_players w r ps)" "distinct (seated_creatures w r cs)"
  unfolding seated_players_def seated_creatures_def by (rule plyrefs.distinct_build crtrefs.distinct_build)+

text \<open>C23. Loading seats everyone: whatever the room lists of the files say, afterwards a room lists, in the order of
  their names and each once, exactly the players and creatures whose room it is, next to the ids of its list that name
  nobody; nothing else of the world has changed.\<close>

theorem Loading_seats_everyone:
  assumes "keyed w" and r: "fmlookup (rooms w) r = Some room"
  defines "w' \<equiv> reconcileRoomOccupants w"
  shows "players w' = players w \<and> creatures w' = creatures w \<and> objects w' = objects w
     \<and> (\<exists>ps cs. fmlookup (rooms w') r = Some (room\<lparr>Room_PlayerIDs := ps, Room_CreatureIDs := cs\<rparr>)
          \<and> distinct ps \<and> sorted (map (playerLegacySortName w) ps) \<and> distinct cs \<and> sorted (map (creatureLegacySortName w) cs)
          \<and> set ps = {i. \<exists>p. fmlookup (players w) i = Some p \<and> Player_RoomID p = r}
                     \<union> {i \<in> set (Room_PlayerIDs room). i \<noteq> [] \<and> fmlookup (players w) i = None}
          \<and> set cs = {k. \<exists>c. fmlookup (creatures w) k = Some c \<and> Creature_RoomID c = r}
                     \<union> {k \<in> set (Room_CreatureIDs room). k \<noteq> [] \<and> fmlookup (creatures w) k = None})"
proof -
  note e = reconcile_effect [OF assms(1)]
  have w': "w' = w\<lparr>rooms := rooms w'\<rparr>"
    and n: "map_option no_lists (fmlookup (rooms w') r) = map_option no_lists (fmlookup (rooms w) r)"
    using e(1) unfolding w'_def same_but_lists_def by blast+
  have "objects w' = objects w"
    by (subst w') simp
  moreover obtain room' where room': "fmlookup (rooms w') r = Some room'" and out: "no_lists room' = no_lists room"
    using n r by auto
  let ?ps = "seated_players w r (Room_PlayerIDs room)" and ?cs = "seated_creatures w r (Room_CreatureIDs room)"
  have "roster w' r = Some (Room_ID room, ?ps, ?cs)"
    using e(2) [of r] r by (simp add: w'_def roster_def)
  then have "Room_PlayerIDs room' = ?ps" "Room_CreatureIDs room' = ?cs"
    using room' by (simp_all add: roster_def)
  with out have "room' = room\<lparr>Room_PlayerIDs := ?ps, Room_CreatureIDs := ?cs\<rparr>"
    by (cases room; cases room') (simp add: no_lists_def)
  moreover have "distinct ?ps" "sorted (map (playerLegacySortName w) ?ps)" "distinct ?cs" "sorted (map (creatureLegacySortName w) ?cs)"
    unfolding seated_players_def seated_creatures_def
    by (rule plyrefs.distinct_build plyrefs.sorted_build crtrefs.distinct_build crtrefs.sorted_build)+
  ultimately show ?thesis
    using room' same_but_lists_fields [OF e(1)]
    by (intro conjI exI [of _ ?ps] exI [of _ ?cs])
      (simp_all add: w'_def set_seated_players [OF assms(1)] set_seated_creatures [OF assms(1)] player_in_def creature_in_def)
qed

subsection \<open>The destruction of a creature\<close>

lemma seated_without:
  assumes s: "seated w" and k: "creature_place w k = Some (q0, r, [])"
    and cr: "creature_place w' = (creature_place w)(k := None)" and pl: "player_place w' = player_place w"
    and ro: "\<And>x. roster w' x = map_option (\<lambda>(q, ps, cs). (q, ps, if x = r then removeID cs k else cs)) (roster w x)"
  shows "seated w'"
proof -
  have p: "i \<noteq> [] \<and> q = i \<and> (l \<noteq> [] \<longrightarrow> (\<exists>q'. creature_place w' l = Some (q', x, i)))"
    if "player_place w' i = Some (q, x, l)" for i q x l
  proof -
    have "i \<noteq> [] \<and> q = i \<and> (l \<noteq> [] \<longrightarrow> (\<exists>q'. creature_place w l = Some (q', x, i)))"
      using that s unfolding pl seated_places by blast
    with k show ?thesis by (auto simp: cr)
  qed
  have c: "l \<noteq> [] \<and> q = l" if "creature_place w' l = Some (q, x, i)" for l q x i
  proof -
    from that have "creature_place w l = Some (q, x, i)" by (simp add: cr split: if_splits)
    with s show ?thesis unfolding seated_places by blast
  qed
  have l: "x \<noteq> [] \<and> q = x \<and> distinct ps \<and> distinct cs
      \<and> (\<forall>i. i \<in> set ps \<longleftrightarrow> (\<exists>q' l. player_place w' i = Some (q', x, l)))
      \<and> (\<forall>l. l \<in> set cs \<longleftrightarrow> (\<exists>q' i. creature_place w' l = Some (q', x, i)))"
    if w': "roster w' x = Some (q, ps, cs)" for x q ps cs
  proof -
    from w' ro obtain cs0 where r: "roster w x = Some (q, ps, cs0)" and cs: "cs = (if x = r then removeID cs0 k else cs0)"
      by auto
    note b = seated_room_lists [OF s r]
    have "distinct cs"
      using list_out [OF b(4)] b(4) by (simp add: cs)
    moreover have "l \<in> set cs \<longleftrightarrow> (\<exists>q' i. creature_place w' l = Some (q', x, i))" for l
      using list_out [OF b(4), of k] b(6) [of l] k by (cases "l = k") (auto simp: cs cr)
    ultimately show ?thesis
      unfolding pl using b by blast
  qed
  show ?thesis
    unfolding seated_places using p c l by blast
qed

definition same_places :: "World \<Rightarrow> World \<Rightarrow> bool" where
  "same_places w w' \<longleftrightarrow> roster w' = roster w \<and> player_place w' = player_place w \<and> creature_place w' = creature_place w
     \<and> objects w' = objects w"

lemma same_places_refl [simp]: "same_places w w"
  by (simp add: same_places_def)

lemma same_places_trans: "same_places u v \<Longrightarrow> same_places v w \<Longrightarrow> same_places u w"
  by (simp add: same_places_def)

lemma same_places_prune_creature: "same_places w (prune_creature remove i w)"
  by (auto simp: same_places_def prune_creature_def place_defs fun_eq_iff Let_def split: option.split)

lemma same_places_prune_player: "same_places w (prune_player remove i w)"
  by (auto simp: same_places_def prune_player_def place_defs fun_eq_iff Let_def split: option.split)

lemma same_places_prune: "same_places w (pruneCharmReferences ord m w)"
proof -
  have c: "same_places w (foldl (\<lambda>w i. prune_creature remove i w) w is)" for remove "is" and w :: World
    by (rule foldl_preserves) (auto intro: same_places_trans same_places_prune_creature)
  have p: "same_places w (foldl (\<lambda>w i. prune_player remove i w) w is)" for remove "is" and w :: World
    by (rule foldl_preserves) (auto intro: same_places_trans same_places_prune_player)
  show ?thesis
    unfolding pruneCharmReferences_def Let_def using same_places_trans [OF c p] by simp
qed

lemma ids_ok_delete: "ids_ok w \<Longrightarrow> ids_ok (deleteObjectTree i w)"
proof -
  assume ok: "ids_ok w"
  obtain s where "delete_tree (Suc (card (fmdom' (objects w)) + 0)) i [] w = Some (s, deleteObjectTree i w)"
    using deleteObjectTree_run by blast
  then have "fmdom' (objects (deleteObjectTree i w)) \<subseteq> fmdom' (objects w)"
    using delete_shrinks(1) by blast
  then have "fmlookup (objects (deleteObjectTree i w)) [] = None"
    using ok by (auto simp: ids_ok_def dest: fmdom'_notI intro: fmdom'_notD)
  with ok object_ids_deleteObjectTree show ?thesis
    by (simp add: ids_ok_def)
qed

lemma in_order_destroy:
  assumes ok: "in_order w" and m: "fmlookup (creatures w) k = Some m" and monster: "Creature_PlayerID m = []"
    and worn: "set (equipment_in ord m) \<subseteq> set (ObjectIDs (Creature_Inventory m))"
  shows "in_order (DestroyCreature ord k w)"
proof -
  have wh: "well_held w" and ids: "ids_ok w" and s: "seated w"
    using ok by (simp_all add: in_order_def sound_objects_alt)
  have k: "k \<noteq> []" "Creature_ID m = k"
    using seatedD(1) [OF s] m by (auto simp: keyed_def)
  let ?del = "\<lambda>w i. deleteObjectTree i w" and ?drops = "carriedCreatureObjectIDs ord m" and ?r = "Creature_RoomID m"
  define u where "u = foldl ?del w ?drops"
  define v where "v = leave_room ?r k u"
  define z where "z = pruneCharmReferences ord m v"
  have e: "DestroyCreature ord k w = z\<lparr>creatures := fmdrop k (creatures z), monsterDamage := fmdrop k (monsterDamage z)\<rparr>"
    using m by (simp add: DestroyCreature_def Let_def u_def v_def z_def)
  have ou: "same_outline w u" and iu: "ids_ok u"
    unfolding u_def using ids
    by (rule_tac [!] foldl_preserves) (auto intro: same_outline_trans same_outline_deleteObjectTree ids_ok_delete)
  note pu = seated_outline [OF ou]
  have pz: "same_places v z"
    unfolding z_def by (rule same_places_prune)
  have ov: "objects v = objects u" "creatures v = creatures u" "players v = players u"
    by (simp_all add: v_def leave_room_def split: option.split)
  have "ids_ok (DestroyCreature ord k w)"
    using iu pz ov by (simp add: e ids_ok_def object_ids_def same_places_def)
  moreover have "well_held (DestroyCreature ord k w)"
    using DestroyCreature_effect [OF wh _ k(1) m worn] ids by (simp add: ids_ok_def)
  moreover have "seated (DestroyCreature ord k w)"
  proof (rule seated_without [OF s])
    show "creature_place w k = Some (k, ?r, [])"
      using m k monster by (simp add: creature_place_def)
    have "creature_place z = creature_place w"
      using pz pu(3) ov by (simp add: same_places_def creature_place_def [abs_def])
    then show "creature_place (DestroyCreature ord k w) = (creature_place w)(k := None)"
      by (auto simp: fun_eq_iff e creature_place_def)
    have "player_place z = player_place w"
      using pz ov ou by (simp add: same_places_def player_place_def [abs_def] same_outline_def)
    then show "player_place (DestroyCreature ord k w) = player_place w"
      by (simp add: e player_place_def [abs_def])
    have "roster (DestroyCreature ord k w) = roster v"
      using pz by (simp add: e roster_def [abs_def] same_places_def)
    moreover have "roster v x = map_option (\<lambda>(q, ps, cs). (q, ps, if x = ?r then removeID cs k else cs)) (roster u x)" for x
      using seatedD(1) [OF s] pu(1) s keyed_no_room [of u] seatedD(1) [of u]
      by (cases "fmlookup (rooms u) x") (auto simp: v_def leave_room_def roster_def split: option.split)
    ultimately show "roster (DestroyCreature ord k w) x
        = map_option (\<lambda>(q, ps, cs). (q, ps, if x = ?r then removeID cs k else cs)) (roster w x)" for x
      using pu(2) by simp
  qed
  ultimately show ?thesis
    by (simp add: in_order_def sound_objects_alt)
qed

subsection \<open>Every reachable world is in order\<close>

definition no_ghosts :: "World \<Rightarrow> bool" where
  "no_ghosts w \<longleftrightarrow> (\<forall>r room. fmlookup (rooms w) r = Some room \<longrightarrow>
     (\<forall>i \<in> set (Room_PlayerIDs room). fmlookup (players w) i \<noteq> None)
     \<and> (\<forall>k \<in> set (Room_CreatureIDs room). fmlookup (creatures w) k \<noteq> None))"

lemma in_order_reconcile:
  assumes k: "keyed w" and l: "linked w" and so: "sound_objects w" and g: "no_ghosts w"
  shows "in_order (reconcileRoomOccupants w)"
proof -
  let ?w = "reconcileRoomOccupants w"
  note e = reconcile_effect [OF k]
  note f = same_but_lists_fields [OF e(1)]
  have n: "map_option no_lists (fmlookup (rooms ?w) r) = map_option no_lists (fmlookup (rooms w) r)" for r
    using e(1) unfolding same_but_lists_def by blast
  have ob: "objects ?w = objects w" "banks ?w = banks w"
    using e(1) unfolding same_but_lists_def by (metis World.ext_inject World.surjective World.update_convs(1))+
  have obj: "map_option Room_Objects (fmlookup (rooms v) r) = map_option Room_Objects (map_option no_lists (fmlookup (rooms v) r))" for v r
    by (simp add: no_lists_def option.map_comp o_def)
  have "sound_objects ?w"
  proof (rule sound_taken [OF so ob])
    show "map_option Room_Objects (fmlookup (rooms ?w) r) = map_option Room_Objects (fmlookup (rooms w) r)" for r
      unfolding obj n ..
  qed (simp add: f)
  moreover have "keyed ?w"
    using keyed_same_but_lists [OF e(1)] k by simp
  moreover have "linked ?w"
    using l f by (simp add: linked_def)
  moreover have "players_listed ?w \<and> creatures_listed ?w"
  proof -
    have lists: "distinct (Room_PlayerIDs room) \<and> distinct (Room_CreatureIDs room)
        \<and> (\<forall>i. i \<in> set (Room_PlayerIDs room) \<longleftrightarrow> player_in w r i) \<and> (\<forall>x. x \<in> set (Room_CreatureIDs room) \<longleftrightarrow> creature_in w r x)"
      if room: "fmlookup (rooms ?w) r = Some room" for r room
    proof -
      obtain room0 where r0: "fmlookup (rooms w) r = Some room0"
        using n [of r] room by (cases "fmlookup (rooms w) r") auto
      have ids: "Room_PlayerIDs room = seated_players w r (Room_PlayerIDs room0)"
        "Room_CreatureIDs room = seated_creatures w r (Room_CreatureIDs room0)"
        using e(2) [of r] r0 room by (simp_all add: roster_def)
      have none: "{i \<in> set (Room_PlayerIDs room0). i \<noteq> [] \<and> fmlookup (players w) i = None} = {}"
        "{i \<in> set (Room_CreatureIDs room0). i \<noteq> [] \<and> fmlookup (creatures w) i = None} = {}"
        using g r0 unfolding no_ghosts_def by blast+
      show ?thesis
        unfolding ids set_seated_players [OF k] set_seated_creatures [OF k] none by (simp add: distinct_seated)
    qed
    then show ?thesis
      unfolding players_listed_def creatures_listed_def f player_in_def [symmetric] creature_in_def [symmetric]
      using f by (simp add: player_in_def creature_in_def)
  qed
  ultimately show ?thesis
    by (simp add: in_order_def seated_def)
qed

inductive occupancy_step :: "World \<Rightarrow> World \<Rightarrow> bool" where
  walk: "MovePlayer ord dice roll pid name w = (e, w') \<Longrightarrow> occupancy_step w w'"
| recall: "MovePlayerToRoom dice roll pid r w = (e, w') \<Longrightarrow> occupancy_step w w'"
| drag: "fmlookup (creatures w) k = Some c \<Longrightarrow> proper_link w c \<Longrightarrow> MoveCreatureToRoom k r w = (e, w') \<Longrightarrow> occupancy_step w w'"
| arrive: "ObjectIDs (Creature_Inventory c) = [] \<Longrightarrow> CreatePlayerCharacter ord p c w = Some (e, w') \<Longrightarrow> occupancy_step w w'"
| spawn: "SpawnCreature dice roll k r b w = (res, w') \<Longrightarrow> occupancy_step w w'"
| destroy: "fmlookup (creatures w) k = Some m \<Longrightarrow> Creature_PlayerID m = []
     \<Longrightarrow> set (equipment_in ord m) \<subseteq> set (ObjectIDs (Creature_Inventory m)) \<Longrightarrow> occupancy_step w (DestroyCreature ord k w)"
| close: "CheckRoomExits r now w = (e, w') \<Longrightarrow> occupancy_step w w'"

inductive_cases occupancy_stepE: "occupancy_step w w'"

lemma in_order_direct:
  assumes ok: "in_order w" and m: "MovePlayerToRoom dice roll pid r w = (e, w')"
  shows "in_order w'"
proof (cases "fmlookup (players w) pid = None \<or> fmlookup (rooms w) r = None")
  case True
  with m ok show ?thesis
    by (auto simp: MovePlayerToRoom_def split: if_splits option.splits)
next
  case False
  then obtain p room where p: "fmlookup (players w) pid = Some p" and room: "fmlookup (rooms w) r = Some room" by auto
  have s: "seated w"
    using ok by (simp add: in_order_def)
  have "w' = arrival dice roll p (creature_of w p) r w"
    using m unfolding MovePlayerToRoom_eq [OF seatedD(1) [OF s] p room] by (simp add: linked_ok [OF s p])
  with arrival_effect(1) [OF ok p room] show ?thesis by simp
qed

lemma MovePlayer_error: "MovePlayer ord dice roll pid name w = (Some err, w') \<Longrightarrow> w' = w"
  by (auto simp: MovePlayer_def Let_def split: option.splits sum.splits if_splits)

lemma in_order_step: "occupancy_step w w' \<Longrightarrow> in_order w \<Longrightarrow> in_order w'"
proof (induction rule: occupancy_step.induct)
  case (walk ord dice roll pid name w e w')
  show ?case
  proof (cases e)
    case None
    with walk have "seated w" and m: "MovePlayer ord dice roll pid name w = (None, w')"
      by (simp_all add: in_order_def)
    then show ?thesis
    proof (rule MovePlayer_eq)
      fix p exit toRoom
      assume "fmlookup (players w) pid = Some p" "fmlookup (rooms w) (Exit_ToRoomID exit) = Some toRoom"
        and "w' = arrival dice roll p (creature_of w p) (Exit_ToRoomID exit) w"
      with arrival_effect(1) [OF walk(2)] show "in_order w'" by blast
    qed
  next
    case (Some err)
    with walk MovePlayer_error show ?thesis by blast
  qed
next
  case (recall dice roll pid r w e w')
  then show ?case using in_order_direct by blast
next
  case (drag w k c r e w')
  then show ?case using in_order_move_creature by blast
next
  case (arrive c ord p w e w')
  then show ?case using in_order_create by blast
next
  case (spawn dice roll k r b w res w')
  obtain res' v t where v: "spawnCreature dice roll 0 k r b [] w = (res', v, t)"
    using prod_cases3 by blast
  with spawn(1) have "w' = w \<or> w' = v"
    by (auto simp: SpawnCreature_def split: if_splits)
  with in_order_spawn [OF spawn(2) v] spawn(2) show ?case by blast
next
  case (destroy w k m ord)
  then show ?case using in_order_destroy by blast
next
  case (close r now w e w')
  then have "w' = w \<or> w' = checkRoomExits r now w"
    by (auto simp: CheckRoomExits_def split: if_splits option.splits)
  with in_order_exits [OF close(2)] close(2) show ?case by blast
qed

text \<open>C22. Take loaded files that fit together: every record has the id of its key, a player and its creature name each
  other and one room, the objects are in order, and no list of a room names a player or creature that does not exist
  (the program warns of such files, and loads them).  Then from loading on, through any sequence of walks, recalls,
  dragged creatures, new players, spawns, destroyed monsters and closing exits, failed ones included, the world stays in
  order; so at every moment a player or creature stands on the list of the room it names, once, and on no other.  A new
  player comes with no things, a dragged creature is a monster or linked with its player, and a destroyed one is a monster
  that wears only what is on its list of things.\<close>

theorem Reachable_worlds_in_order:
  assumes "keyed w" and "linked w" and "sound_objects w" and "no_ghosts w"
    and steps: "occupancy_step\<^sup>*\<^sup>* (reconcileRoomOccupants w) w'"
  shows "in_order w'
     \<and> (\<forall>r room i. fmlookup (rooms w') r = Some room \<longrightarrow>
          count_list (Room_PlayerIDs room) i = (if \<exists>p. fmlookup (players w') i = Some p \<and> Player_RoomID p = r then 1 else 0))
     \<and> (\<forall>r room k. fmlookup (rooms w') r = Some room \<longrightarrow>
          count_list (Room_CreatureIDs room) k = (if \<exists>c. fmlookup (creatures w') k = Some c \<and> Creature_RoomID c = r then 1 else 0))"
proof -
  have ok: "in_order w'"
    using steps by (induction rule: rtranclp_induct) (use assms in_order_reconcile in_order_step in blast)+
  have c: "distinct xs \<Longrightarrow> count_list xs x = (if x \<in> set xs then 1 else 0)" for xs and x :: string
    by (induction xs) auto
  have s: "seated w'"
    using ok by (simp add: in_order_def)
  note pl = players_listedD [OF seatedD(2) [OF s]] and cl = creatures_listedD [OF seatedD(3) [OF s]]
  show ?thesis
    using ok c [OF pl(1)] pl(2) c [OF cl(1)] cl(2) by simp
qed

subsection \<open>Witnesses\<close>

definition demoStreet :: Room where
  "demoStreet = zeroRoom\<lparr>Room_ID := ''r1'', Room_PlayerIDs := [''p9''], Room_CreatureIDs := [''c9'', ''m1''],
     Room_Exits := [\<lparr>Exit_Name = ''north'', Exit_ToRoomID = ''r2'', Exit_Flags = [], Exit_Metadata = noMetadata\<rparr>]\<rparr>"

definition demoAnn :: Player where
  "demoAnn = \<lparr>Player_ID = ''p9'', Player_DisplayName = ''Ann'', Player_CreatureID = ''c9'', Player_RoomID = ''r1'',
            Player_AccountName = ''ann'', Player_Metadata = noMetadata\<rparr>"

definition demoTown :: World where
  "demoTown = emptyWorld
     \<lparr>rooms := fmap_of_list [(''r1'', demoStreet), (''r2'', zeroRoom\<lparr>Room_ID := ''r2''\<rparr>)],
      players := fmap_of_list [(''p9'', demoAnn)], creatures := fmap_of_list [(''c9'', demoHero), (''m1'', demoOrc)]\<rparr>"

lemmas demoTown_defs = demoTown_def demoStreet_def demoAnn_def demoHero_def demoOrc_def emptyWorld_def zeroRoom_def zeroCreature_def

lemma demoTown_maps:
  "fmlookup (rooms demoTown) r = (if r = ''r1'' then Some demoStreet else if r = ''r2'' then Some (zeroRoom\<lparr>Room_ID := ''r2''\<rparr>) else None)"
  "fmlookup (players demoTown) i = (if i = ''p9'' then Some demoAnn else None)"
  "fmlookup (creatures demoTown) k = (if k = ''c9'' then Some demoHero else if k = ''m1'' then Some demoOrc else None)"
  "objects demoTown = fmempty" "banks demoTown = fmempty"
  by (auto simp: demoTown_def emptyWorld_def fmlookup_of_list)

lemma in_order_demoTown: "in_order demoTown"
proof -
  have "refs demoTown h = []" for h
    by (cases h) (auto simp: refs_def demoTown_maps demoTown_defs split: option.splits if_splits)
  then have "well_held demoTown"
    by (intro well_held_no_objects demoTown_maps(4))
  then have "sound_objects demoTown"
    by (simp add: sound_objects_def object_ids_def demoTown_maps)
  moreover have "keyed demoTown" "linked demoTown"
    by (auto simp: keyed_def linked_def demoTown_maps demoTown_defs split: if_splits)
  moreover have "players_listed demoTown" "creatures_listed demoTown"
    by (auto simp: players_listed_def creatures_listed_def demoTown_maps demoTown_defs split: if_splits)
  ultimately show ?thesis
    by (simp add: in_order_def seated_def)
qed

definition demoWalked :: World where
  "demoWalked = snd (MovePlayer sorted_list_of_fset (\<lambda>t n. 0) (\<lambda>i. 50) ''p9'' ''north'' demoTown)"

lemma plain_target: "roomHasAnyFlag (zeroRoom\<lparr>Room_ID := r\<rparr>) names = False" "level_limits (zeroRoom\<lparr>Room_ID := r\<rparr>) name = {}"
  by (simp_all add: roomHasAnyFlag_def level_limits_def zeroRoom_def noMetadata_def hasAnyNormalizedFlag_def Let_def mex_def)

lemma plain_exit: "Exit_Flags exit = [] \<Longrightarrow> exitHasAnyFlag exit names = False"
  by (simp add: exitHasAnyFlag_def hasAnyNormalizedFlag_def)

lemma demoWalk: "MovePlayer sorted_list_of_fset (\<lambda>t n. 0) (\<lambda>i. 50) ''p9'' ''north'' demoTown = (None, demoWalked)"
proof -
  let ?e = "\<lparr>Exit_Name = ''north'', Exit_ToRoomID = ''r2'', Exit_Flags = [], Exit_Metadata = noMetadata\<rparr>"
  have "validateMovePlayerRestrictions sorted_list_of_fset demoTown demoAnn ''north'' ?e (zeroRoom\<lparr>Room_ID := ''r2''\<rparr>) (Some demoHero) = None"
    unfolding move_allowed_iff [OF key_order_sorted] by (simp add: plain_target plain_exit)
  moreover have "findExit demoStreet ''north'' = Some ?e"
    by (simp add: findExit_def demoStreet_def)
  moreover have "blockedMoveExitFlag ?e = None"
    by code_simp
  moreover have "linked_creature ''move player %q'' [''p9''] demoTown demoAnn = Inr (Some demoHero)"
    by code_simp
  moreover have "Player_RoomID demoAnn = ''r1''"
    by (simp add: demoAnn_def)
  ultimately have "fst (MovePlayer sorted_list_of_fset (\<lambda>t n. 0) (\<lambda>i. 50) ''p9'' ''north'' demoTown) = None"
    by (simp add: MovePlayer_def demoTown_maps Let_def)
  then show ?thesis
    by (simp add: demoWalked_def prod_eq_iff)
qed

theorem Walk_is_direct_move_witness:
  "MovePlayerToRoom (\<lambda>t n. 0) (\<lambda>i. 50) ''p9'' ''r2'' demoTown = (None, demoWalked)"
proof -
  have "seated demoTown"
    using in_order_demoTown by (simp add: in_order_def)
  then obtain p room exit where p: "fmlookup (players demoTown) ''p9'' = Some p" and r: "fmlookup (rooms demoTown) (Player_RoomID p) = Some room"
    and x: "findExit room ''north'' = Some exit"
    and m: "MovePlayerToRoom (\<lambda>t n. 0) (\<lambda>i. 50) ''p9'' (Exit_ToRoomID exit) demoTown = (None, demoWalked)"
    using Walk_is_direct_move [OF _ demoWalk] by blast
  have "p = demoAnn"
    using p by (simp add: demoTown_maps)
  with r have "room = demoStreet"
    by (simp add: demoTown_maps demoAnn_def)
  with x have "Exit_ToRoomID exit = ''r2''"
    by (auto simp: findExit_def demoStreet_def)
  with m show ?thesis by simp
qed

theorem Direct_move_keeps_order_witness:
  "\<exists>w' c. MovePlayerToRoom (\<lambda>t n. 0) (\<lambda>i. 50) ''p9'' ''r2'' demoTown = (None, w') \<and> in_order w'
     \<and> fmlookup (creatures w') ''c9'' = Some c \<and> Creature_RoomID c = ''r2''"
proof -
  have "fmlookup (players demoTown) ''p9'' = Some demoAnn" "fmlookup (rooms demoTown) ''r2'' = Some (zeroRoom\<lparr>Room_ID := ''r2''\<rparr>)"
    "fmlookup (creatures demoTown) ''c9'' = Some demoHero" "Player_CreatureID demoAnn = ''c9''"
    by (simp_all add: demoTown_maps demoAnn_def)
  with Direct_move_keeps_order [OF in_order_demoTown this(1,2), of "\<lambda>t n. 0" "\<lambda>i. 50"] show ?thesis
    by metis
qed

definition demoNewcomer :: Player where
  "demoNewcomer = \<lparr>Player_ID = ''p2'', Player_DisplayName = ''Bo'', Player_CreatureID = [], Player_RoomID = [],
            Player_AccountName = ''bo'', Player_Metadata = noMetadata\<rparr>"

definition demoBody :: Creature where
  "demoBody = zeroCreature\<lparr>Creature_ID := ''c2'', Creature_DisplayName := ''Bo'', Creature_RoomID := ''r2'',
     Creature_Stats := fmap_of_list [(''class'', 4)]\<rparr>"

definition demoBorn :: "int \<Rightarrow> Creature" where
  "demoBorn ac = zeroCreature\<lparr>Creature_ID := ''c2'', Creature_DisplayName := ''Bo'', Creature_RoomID := ''r2'',
     Creature_PlayerID := ''p2'', Creature_Kind := CreatureKindPlayer,
     Creature_Stats := fmupd ''armor'' ac (fmap_of_list [(''class'', 4)])\<rparr>"

lemma demoBorn_fits: "computeCreatureTHACO sorted_list_of_fset demoTown (demoBorn ac) \<noteq> None"
proof -
  have "stateCreatureProficiencyValue sorted_list_of_fset (demoBorn ac) 0 = 0"
    by code_simp
  moreover have "stateCreatureProficiencyValue sorted_list_of_fset (demoBorn ac) 1 = 0"
    by code_simp
  moreover have "stateCreatureProficiencyValue sorted_list_of_fset (demoBorn ac) 2 = 0"
    by code_simp
  moreover have "stateCreatureProficiencyValue sorted_list_of_fset (demoBorn ac) 3 = 0"
    by code_simp
  moreover have "stateCreatureProficiencyValue sorted_list_of_fset (demoBorn ac) 4 = 0"
    by code_simp
  moreover have "stateCreatureRealm (demoBorn ac) 0 = 0"
    by code_simp
  moreover have "stateCreatureRealm (demoBorn ac) 1 = 0"
    by code_simp
  moreover have "stateCreatureRealm (demoBorn ac) 2 = 0"
    by code_simp
  ultimately show ?thesis
    unfolding computeCreatureTHACO_None by simp
qed

theorem Newcomer_is_seated_witness:
  "\<exists>w' p room. CreatePlayerCharacter sorted_list_of_fset demoNewcomer demoBody demoTown = Some (None, w') \<and> in_order w'
     \<and> fmlookup (players w') ''p2'' = Some p \<and> Player_CreatureID p = ''c2''
     \<and> fmlookup (rooms w') (Player_RoomID p) = Some room \<and> ''p2'' \<in> set (Room_PlayerIDs room)"
proof -
  let ?p = "fst (completed demoNewcomer demoBody)" and ?b = "snd (completed demoNewcomer demoBody)"
  have b: "?b\<lparr>Creature_Stats := fmupd ''armor'' ac (Creature_Stats ?b)\<rparr> = demoBorn ac" for ac
    by (simp add: completed_def demoBody_def demoBorn_def demoNewcomer_def zeroCreature_def)
  have "recalculateCreatureCombatStats sorted_list_of_fset demoTown ?b \<noteq> None"
    using demoBorn_fits unfolding recalculateCreatureCombatStats_def Let_def option.map_disc_iff b .
  moreover have "refuse_character ?p ?b = None"
    by code_simp
  moreover have "Player_ID ?p = ''p2''" "Creature_ID ?b = ''c2''" "Player_RoomID ?p = ''r2''"
    by (simp_all add: completed_def demoNewcomer_def demoBody_def zeroCreature_def)
  ultimately have "map_option fst (CreatePlayerCharacter sorted_list_of_fset demoNewcomer demoBody demoTown) = Some None"
    by (auto simp: CreatePlayerCharacter_def case_prod_beta Let_def demoTown_maps)
  then obtain w' where c: "CreatePlayerCharacter sorted_list_of_fset demoNewcomer demoBody demoTown = Some (None, w')"
    by auto
  have "ObjectIDs (Creature_Inventory demoBody) = []" "Player_ID demoNewcomer = ''p2''" "Creature_ID demoBody = ''c2''"
    by (simp_all add: demoBody_def zeroCreature_def demoNewcomer_def)
  with Newcomer_is_seated [OF in_order_demoTown this(1) c] c show ?thesis
    by auto
qed

theorem Loading_seats_everyone_witness:
  "\<exists>ps cs. fmlookup (rooms (reconcileRoomOccupants (demoTown\<lparr>rooms := fmupd ''r1'' (demoStreet\<lparr>Room_PlayerIDs := [''px''], Room_CreatureIDs := []\<rparr>)
      (rooms demoTown)\<rparr>))) ''r1'' = Some (demoStreet\<lparr>Room_PlayerIDs := ps, Room_CreatureIDs := cs\<rparr>)
     \<and> set ps = {''p9'', ''px''} \<and> set cs = {''c9'', ''m1''}"
proof -
  let ?s = "demoStreet\<lparr>Room_PlayerIDs := [''px''], Room_CreatureIDs := []\<rparr>"
  let ?w = "demoTown\<lparr>rooms := fmupd ''r1'' ?s (rooms demoTown)\<rparr>"
  have "keyed ?w"
    by (auto simp: keyed_def demoTown_maps demoTown_defs split: if_splits)
  moreover have "fmlookup (rooms ?w) ''r1'' = Some ?s"
    by simp
  ultimately obtain ps cs where "fmlookup (rooms (reconcileRoomOccupants ?w)) ''r1'' = Some (?s\<lparr>Room_PlayerIDs := ps, Room_CreatureIDs := cs\<rparr>)"
    and "set ps = {i. \<exists>p. fmlookup (players ?w) i = Some p \<and> Player_RoomID p = ''r1''}
                     \<union> {i \<in> set (Room_PlayerIDs ?s). i \<noteq> [] \<and> fmlookup (players ?w) i = None}"
    and "set cs = {k. \<exists>c. fmlookup (creatures ?w) k = Some c \<and> Creature_RoomID c = ''r1''}
                     \<union> {k \<in> set (Room_CreatureIDs ?s). k \<noteq> [] \<and> fmlookup (creatures ?w) k = None}"
    using Loading_seats_everyone [of ?w "''r1''" ?s] by blast
  moreover have "{i. \<exists>p. fmlookup (players ?w) i = Some p \<and> Player_RoomID p = ''r1''} = {''p9''}"
    "{k. \<exists>c. fmlookup (creatures ?w) k = Some c \<and> Creature_RoomID c = ''r1''} = {''c9'', ''m1''}"
    by (auto simp: demoTown_maps demoAnn_def demoHero_def demoOrc_def)
  moreover have "{i \<in> set (Room_PlayerIDs ?s). i \<noteq> [] \<and> fmlookup (players ?w) i = None} = {''px''}"
    "{k \<in> set (Room_CreatureIDs ?s). k \<noteq> [] \<and> fmlookup (creatures ?w) k = None} = {}"
    by (auto simp: demoTown_maps)
  ultimately have "set ps = {''p9''} \<union> {''px''}" "set cs = {''c9'', ''m1''} \<union> {}"
      "fmlookup (rooms (reconcileRoomOccupants ?w)) ''r1'' = Some (?s\<lparr>Room_PlayerIDs := ps, Room_CreatureIDs := cs\<rparr>)"
    by (simp_all only:)
  moreover have "?s\<lparr>Room_PlayerIDs := ps, Room_CreatureIDs := cs\<rparr> = demoStreet\<lparr>Room_PlayerIDs := ps, Room_CreatureIDs := cs\<rparr>"
    by simp
  ultimately show ?thesis
    unfolding insert_is_Un [of "''p9''" "{''px''}"] Un_empty_right by metis
qed

theorem Reachable_worlds_in_order_witness:
  "in_order (snd (MovePlayer sorted_list_of_fset (\<lambda>t n. 0) (\<lambda>i. 50) ''p9'' ''north'' (reconcileRoomOccupants demoTown)))"
proof -
  have "keyed demoTown" "linked demoTown" "sound_objects demoTown"
    using in_order_demoTown by (simp_all add: in_order_def seated_def)
  moreover have "no_ghosts demoTown"
    by (auto simp: no_ghosts_def demoTown_maps demoTown_defs split: if_splits)
  moreover have "occupancy_step (reconcileRoomOccupants demoTown)
      (snd (MovePlayer sorted_list_of_fset (\<lambda>t n. 0) (\<lambda>i. 50) ''p9'' ''north'' (reconcileRoomOccupants demoTown)))"
    by (rule walk) (rule prod.collapse [symmetric])
  ultimately show ?thesis
    using Reachable_worlds_in_order by blast
qed

text \<open>Emptying a room deletes its monsters but not what they carry: the club of the orc remains, held by no one.\<close>

lemma Purge_orphans:
  "fst (PurgeRoom ''r1'' demoBattle) = None"
  "fmlookup (creatures (snd (PurgeRoom ''r1'' demoBattle))) ''m1'' = None"
  "where_is (snd (PurgeRoom ''r1'' demoBattle)) ''club'' = Some (OnCreature ''m1'')"
  "\<not> well_held (snd (PurgeRoom ''r1'' demoBattle))"
proof -
  show "fst (PurgeRoom ''r1'' demoBattle) = None"
    by code_simp
  show m: "fmlookup (creatures (snd (PurgeRoom ''r1'' demoBattle))) ''m1'' = None"
    by code_simp
  show c: "where_is (snd (PurgeRoom ''r1'' demoBattle)) ''club'' = Some (OnCreature ''m1'')"
    by code_simp
  show "\<not> well_held (snd (PurgeRoom ''r1'' demoBattle))"
    using holders_agree_exists [OF well_heldD(1) c] m by (auto simp: holder_exists_def)
qed

end
