(* ===== verification/Runes.thy ===== *)
theory Runes
  imports Paths
begin

text \<open>
  UTF-8: the encoding of a rune (\<^verbatim>\<open>utf8.EncodeRune\<close>), valid strings (\<^verbatim>\<open>utf8.ValidString\<close>), and whether
  a byte sequence begins with a full rune (\<^verbatim>\<open>utf8.FullRune\<close>). The encoding is proved to be undone by
  \<open>first_rune\<close>, and a valid string to be the encoding of its runes.
\<close>

definition scalar :: "int \<Rightarrow> bool" where
  "scalar r \<longleftrightarrow> 0 \<le> r \<and> r \<le> 1114111 \<and> \<not> (55296 \<le> r \<and> r \<le> 57343)"

definition encode_rune :: "int \<Rightarrow> int list" where
  "encode_rune r =
     (if \<not> scalar r then [239, 191, 189]
      else if r < 128 then [r]
      else if r < 2048 then [192 + r div 64, 128 + r mod 64]
      else if r < 65536 then [224 + r div 4096, 128 + r div 64 mod 64, 128 + r mod 64]
      else [240 + r div 262144, 128 + r div 4096 mod 64, 128 + r div 64 mod 64, 128 + r mod 64])"

function valid_bytes :: "int list \<Rightarrow> bool" where
  "valid_bytes [] \<longleftrightarrow> True"
| "valid_bytes (a # s) \<longleftrightarrow>
     (case first_rune (a # s) of (r, n) \<Rightarrow> (r, n) \<noteq> (65533, 1) \<and> valid_bytes (drop (n - 1) s))"
  by pat_completeness auto
termination by (relation "measure length") auto

definition ValidString :: "string \<Rightarrow> bool" where
  "ValidString s = valid_bytes (map of_char s)"

definition string_of_runes :: "int list \<Rightarrow> string" where
  "string_of_runes rs = map char_of (concat (map encode_rune rs))"

definition full_rune :: "int list \<Rightarrow> bool" where
  "full_rune s \<longleftrightarrow>
     (case s of
        [] \<Rightarrow> False
      | [a] \<Rightarrow> \<not> (194 \<le> a \<and> a \<le> 244)
      | [a, b] \<Rightarrow> \<not> (224 \<le> a \<and> a \<le> 244 \<and> tail_byte b \<and> (a = 224 \<longrightarrow> 160 \<le> b) \<and> (a = 237 \<longrightarrow> b \<le> 159)
                     \<and> (a = 240 \<longrightarrow> 144 \<le> b) \<and> (a = 244 \<longrightarrow> b \<le> 143))
      | [a, b, c] \<Rightarrow> \<not> (240 \<le> a \<and> a \<le> 244 \<and> tail_byte b \<and> (a = 240 \<longrightarrow> 144 \<le> b) \<and> (a = 244 \<longrightarrow> b \<le> 143)
                        \<and> tail_byte c)
      | _ \<Rightarrow> True)"

text \<open>The encoding of a scalar value is read back, whatever follows it.\<close>

lemma length_encode_rune: "1 \<le> length (encode_rune r)" "length (encode_rune r) \<le> 4"
  by (simp_all add: encode_rune_def)

lemma rune2_join: "0 \<le> a \<Longrightarrow> a < 32 \<Longrightarrow> 0 \<le> b \<Longrightarrow> b < 64 \<Longrightarrow> rune2 (192 + a) (128 + b) = 64 * a + b"
  by (simp add: rune2_def mod_add_eq [of 192 32 a, symmetric] mod_add_eq [of 128 64 b, symmetric])

lemma rune3_join:
  "0 \<le> a \<Longrightarrow> a < 16 \<Longrightarrow> 0 \<le> b \<Longrightarrow> b < 64 \<Longrightarrow> 0 \<le> c \<Longrightarrow> c < 64 \<Longrightarrow>
   rune3 (224 + a) (128 + b) (128 + c) = 64 * (64 * a + b) + c"
  by (simp add: rune3_def mod_add_eq [of 224 16 a, symmetric] mod_add_eq [of 128 64 b, symmetric]
      mod_add_eq [of 128 64 c, symmetric])

lemma rune4_join:
  "0 \<le> a \<Longrightarrow> a < 8 \<Longrightarrow> 0 \<le> b \<Longrightarrow> b < 64 \<Longrightarrow> 0 \<le> c \<Longrightarrow> c < 64 \<Longrightarrow> 0 \<le> d \<Longrightarrow> d < 64 \<Longrightarrow>
   rune4 (240 + a) (128 + b) (128 + c) (128 + d) = 64 * (64 * (64 * a + b) + c) + d"
  by (simp add: rune4_def mod_add_eq [of 240 8 a, symmetric] mod_add_eq [of 128 64 b, symmetric]
      mod_add_eq [of 128 64 c, symmetric] mod_add_eq [of 128 64 d, symmetric])

text \<open>The groups of six bits of a rune.\<close>

lemma six_bits:
  fixes q m :: int
  assumes "0 \<le> m" and "m < 64"
  shows "(64 * q + m) mod 64 = m" and "(64 * q + m) div 64 = q"
    and "(64 * q + m) div 4096 = q div 64" and "(64 * q + m) div 262144 = q div 4096"
proof -
  show "(64 * q + m) mod 64 = m" using assms by simp
  show d: "(64 * q + m) div 64 = q" using assms by simp
  show "(64 * q + m) div 4096 = q div 64"
    using zdiv_zmult2_eq [of 64 "64 * q + m" 64] d by simp
  show "(64 * q + m) div 262144 = q div 4096"
    using zdiv_zmult2_eq [of 4096 "64 * q + m" 64] d by simp
qed

lemma six_split:
  fixes r :: int
  obtains q m where "r = 64 * q + m" and "0 \<le> m" and "m < 64"
  by (rule that [of "r div 64" "r mod 64"]) simp_all

lemma first_rune_encode:
  assumes "scalar r"
  shows "first_rune (encode_rune r @ s) = (r, length (encode_rune r))"
proof -
  consider "r < 128" | "128 \<le> r" "r < 2048" | "2048 \<le> r" "r < 65536" | "65536 \<le> r"
    by linarith
  then show ?thesis
  proof cases
    case 1
    with assms show ?thesis by (simp add: encode_rune_def)
  next
    case 2
    obtain q m where r: "r = 64 * q + m" "0 \<le> m" "m < 64" by (rule six_split)
    with 2 have q: "2 \<le> q" "q < 32" by linarith+
    have "encode_rune r = [192 + q, 128 + m]"
      using 2 assms r by (simp add: encode_rune_def six_bits)
    with r q show ?thesis
      by (simp add: tail_byte_def rune2_join)
  next
    case 3
    obtain q' m where r: "r = 64 * q' + m" "0 \<le> m" "m < 64" by (rule six_split)
    obtain q k where q': "q' = 64 * q + k" "0 \<le> k" "k < 64" by (rule six_split)
    have q: "0 \<le> q" "q < 16" "q = 0 \<Longrightarrow> 32 \<le> k" "q = 13 \<Longrightarrow> k < 32"
      using 3 assms r q' unfolding scalar_def by linarith+
    have "r div 4096 = q" "r div 64 mod 64 = k" "r mod 64 = m"
      unfolding r(1) six_bits [OF r(2,3)] unfolding q'(1) six_bits [OF q'(2,3)] by (rule refl)+
    with 3 assms have e: "encode_rune r = [224 + q, 128 + k, 128 + m]"
      by (simp add: encode_rune_def)
    have "first_rune (encode_rune r @ s) = (64 * (64 * q + k) + m, 3)"
      unfolding e using q q'(2,3) r(2,3) by (auto simp: tail_byte_def rune3_join simp del: distrib_left_numeral)
    moreover have "64 * (64 * q + k) + m = r"
      using r(1) q'(1) by simp
    ultimately show ?thesis
      by (simp only: e) simp
  next
    case 4
    obtain q'' m where r: "r = 64 * q'' + m" "0 \<le> m" "m < 64" by (rule six_split)
    obtain q' k where q'': "q'' = 64 * q' + k" "0 \<le> k" "k < 64" by (rule six_split)
    obtain q l where q': "q' = 64 * q + l" "0 \<le> l" "l < 64" by (rule six_split)
    have q: "0 \<le> q" "q < 5" "q = 0 \<Longrightarrow> 16 \<le> l" "q = 4 \<Longrightarrow> l < 16"
      using 4 assms r q' q'' unfolding scalar_def by linarith+
    have "r div 262144 = q" "r div 4096 mod 64 = l" "r div 64 mod 64 = k" "r mod 64 = m"
      unfolding r(1) six_bits [OF r(2,3)] unfolding q''(1) six_bits [OF q''(2,3)] unfolding q'(1) six_bits [OF q'(2,3)]
      by (rule refl)+
    with 4 assms have e: "encode_rune r = [240 + q, 128 + l, 128 + k, 128 + m]"
      by (simp add: encode_rune_def)
    have "first_rune (encode_rune r @ s) = (64 * (64 * (64 * q + l) + k) + m, 4)"
      unfolding e using q q'(2,3) q''(2,3) r(2,3) by (auto simp: tail_byte_def rune4_join simp del: distrib_left_numeral)
    moreover have "64 * (64 * (64 * q + l) + k) + m = r"
      using r(1) q''(1) q'(1) by simp
    ultimately show ?thesis
      by (simp only: e) simp
  qed
qed

text \<open>What is read without an error is the encoding of what it is read as.\<close>

definition starts2 :: "int \<Rightarrow> int \<Rightarrow> bool" where
  "starts2 a b \<longleftrightarrow> 194 \<le> a \<and> a \<le> 223 \<and> tail_byte b"

definition starts3 :: "int \<Rightarrow> int \<Rightarrow> int \<Rightarrow> bool" where
  "starts3 a b c \<longleftrightarrow>
     224 \<le> a \<and> a \<le> 239 \<and> tail_byte b \<and> tail_byte c \<and> (a = 224 \<longrightarrow> 160 \<le> b) \<and> (a = 237 \<longrightarrow> b \<le> 159)"

definition starts4 :: "int \<Rightarrow> int \<Rightarrow> int \<Rightarrow> int \<Rightarrow> bool" where
  "starts4 a b c d \<longleftrightarrow>
     240 \<le> a \<and> a \<le> 244 \<and> tail_byte b \<and> tail_byte c \<and> tail_byte d
     \<and> (a = 240 \<longrightarrow> 144 \<le> b) \<and> (a = 244 \<longrightarrow> b \<le> 143)"

lemma encode_rune2: "starts2 a b \<Longrightarrow> scalar (rune2 a b) \<and> encode_rune (rune2 a b) = [a, b]"
proof -
  assume "starts2 a b"
  note that = this [unfolded starts2_def]
  define p q where "p = a - 192" and "q = b - 128"
  then have eq: "a = 192 + p" "b = 128 + q" by simp_all
  have "2 \<le> p" "p < 32" "0 \<le> q" "q < 64"
    using that by (auto simp: tail_byte_def p_def q_def)
  then show ?thesis
    by (simp add: eq rune2_join encode_rune_def scalar_def six_bits)
qed

lemma encode_rune3: "starts3 a b c \<Longrightarrow> scalar (rune3 a b c) \<and> encode_rune (rune3 a b c) = [a, b, c]"
proof -
  assume "starts3 a b c"
  note that = this [unfolded starts3_def]
  define p q s where "p = a - 224" and "q = b - 128" and "s = c - 128"
  then have eq: "a = 224 + p" "b = 128 + q" "c = 128 + s" by simp_all
  have r: "0 \<le> p" "p < 16" "0 \<le> q" "q < 64" "0 \<le> s" "s < 64" "p = 0 \<Longrightarrow> 32 \<le> q" "p = 13 \<Longrightarrow> q < 32"
    using that by (auto simp: tail_byte_def p_def q_def s_def)
  have "2048 \<le> 64 * (64 * p + q) + s"
    using r by (cases "p = 0") auto
  moreover have "64 * (64 * p + q) + s < 65536"
    using r(1-6) by simp
  moreover have "64 * (64 * p + q) + s < 55296 \<or> 57343 < 64 * (64 * p + q) + s"
    using r by (cases "p = 13") auto
  ultimately have "scalar (64 * (64 * p + q) + s)" "\<not> 64 * (64 * p + q) + s < 2048" "64 * (64 * p + q) + s < 65536"
    by (auto simp: scalar_def)
  moreover have "rune3 a b c = 64 * (64 * p + q) + s"
    using r by (simp add: eq rune3_join)
  ultimately show ?thesis
    using r six_bits [OF r(5,6), of "64 * p + q"] six_bits [OF r(3,4), of p]
    by (simp add: encode_rune_def eq del: distrib_left_numeral)
qed

lemma encode_rune4: "starts4 a b c d \<Longrightarrow> scalar (rune4 a b c d) \<and> encode_rune (rune4 a b c d) = [a, b, c, d]"
proof -
  assume "starts4 a b c d"
  note that = this [unfolded starts4_def]
  define p q s t where "p = a - 240" and "q = b - 128" and "s = c - 128" and "t = d - 128"
  then have eq: "a = 240 + p" "b = 128 + q" "c = 128 + s" "d = 128 + t" by simp_all
  have r: "0 \<le> p" "p < 5" "0 \<le> q" "q < 64" "0 \<le> s" "s < 64" "0 \<le> t" "t < 64" "p = 0 \<Longrightarrow> 16 \<le> q" "p = 4 \<Longrightarrow> q < 16"
    using that by (auto simp: tail_byte_def p_def q_def s_def t_def)
  have "65536 \<le> 64 * (64 * (64 * p + q) + s) + t"
    using r by (cases "p = 0") auto
  moreover have "64 * (64 * (64 * p + q) + s) + t \<le> 1114111"
    using r by (cases "p = 4") auto
  moreover define v where "v = 64 * (64 * (64 * p + q) + s) + t"
  ultimately have "scalar v" "\<not> v < 65536"
    by (auto simp: scalar_def)
  moreover have "rune4 a b c d = v"
    using r by (simp add: eq rune4_join v_def)
  moreover have "v div 262144 = p" "v div 4096 mod 64 = q" "v div 64 mod 64 = s" "v mod 64 = t"
    unfolding v_def six_bits [OF r(7,8)] unfolding six_bits [OF r(5,6)] unfolding six_bits [OF r(3,4)] by (rule refl)+
  ultimately show ?thesis
    by (simp add: encode_rune_def eq)
qed

lemma first_rune_cases:
  assumes "first_rune (a # s) = (r, n)" and "(r, n) \<noteq> (65533, 1)"
  obtains "a < 128" "r = a" "n = 1"
    | b s' where "s = b # s'" "starts2 a b" "r = rune2 a b" "n = 2"
    | b c s' where "s = b # c # s'" "starts3 a b c" "r = rune3 a b c" "n = 3"
    | b c d s' where "s = b # c # d # s'" "starts4 a b c d" "r = rune4 a b c d" "n = 4"
proof (cases "a < 128")
  case True
  with assms(1) show thesis by (intro that(1)) simp_all
next
  case a: False
  then obtain b s1 where b: "s = b # s1"
    using assms by (cases s) auto
  show thesis
  proof (cases "starts2 a b")
    case True
    then have "r = rune2 a b" "n = 2"
      using assms(1) a by (simp_all add: b starts2_def)
    with b True show thesis by (rule that(2))
  next
    case n2: False
    then obtain c s2 where c: "s1 = c # s2"
      using assms a b by (cases s1) (auto simp: starts2_def)
    show thesis
    proof (cases "starts3 a b c")
      case True
      then have "r = rune3 a b c" "n = 3"
        using assms(1) a by (simp_all add: b c starts3_def)
      with True b c show thesis by (intro that(3)) simp_all
    next
      case n3: False
      have r: "first_rune (a # s) =
          (case s2 of [] \<Rightarrow> (65533, 1) | d # s3 \<Rightarrow> if starts4 a b c d then (rune4 a b c d, 4) else (65533, 1))"
        unfolding b c first_rune.simps list.case starts4_def
        using a n2 n3 unfolding starts2_def starts3_def by (simp only: if_False simp_thms)
      then obtain d s3 where d: "s2 = d # s3"
        using assms by (cases s2) auto
      with r assms have "starts4 a b c d" "r = rune4 a b c d" "n = 4"
        by (simp_all split: if_splits)
      with b c d show thesis by (intro that(4)) simp_all
    qed
  qed
qed

lemma encode_first_rune:
  assumes "first_rune (a # s) = (r, n)" and "(r, n) \<noteq> (65533, 1)" and "0 \<le> a"
  shows "scalar r \<and> encode_rune r = take n (a # s) \<and> length (encode_rune r) = n"
  using assms(1,2)
proof (cases rule: first_rune_cases)
  case 1
  with assms(3) show ?thesis by (simp add: encode_rune_def scalar_def)
qed (simp_all add: encode_rune2 encode_rune3 encode_rune4)

subsection \<open>Strings and their runes\<close>

lemma runes_of_encode:
  "list_all scalar rs \<Longrightarrow> runes_of (concat (map encode_rune rs) @ t) = rs @ runes_of t"
proof (induction rs)
  case (Cons r rs)
  then obtain a e where e: "encode_rune r = a # e"
    using length_encode_rune(1) [of r] by (cases "encode_rune r") auto
  have "first_rune (a # e @ concat (map encode_rune rs) @ t) = (r, Suc (length e))"
    using first_rune_encode [of r "concat (map encode_rune rs) @ t"] Cons.prems e by simp
  with Cons e show ?case by simp
qed simp

lemma valid_bytes_encode:
  "valid_bytes s \<Longrightarrow> list_all (\<lambda>b. 0 \<le> b) s \<Longrightarrow>
   concat (map encode_rune (runes_of s)) = s \<and> list_all scalar (runes_of s)"
proof (induction s rule: valid_bytes.induct)
  case (2 a s)
  obtain r n where rn: "first_rune (a # s) = (r, n)" by fastforce
  with 2 have "scalar r \<and> encode_rune r = take n (a # s) \<and> length (encode_rune r) = n"
    by (intro encode_first_rune) auto
  moreover from this have "1 \<le> n"
    using length_encode_rune by metis
  moreover have "list_all (\<lambda>b. 0 \<le> b) (drop (n - 1) s)"
    using 2 by (auto simp: list_all_iff dest: in_set_dropD)
  ultimately show ?case
    using 2 rn by (cases n) auto
qed simp

lemma of_char_nonneg: "0 \<le> (of_char c :: int)"
  by (metis of_char_of of_nat_0_le_iff of_nat_of_char)

lemma bytes_nonneg [simp]: "list_all (\<lambda>b. 0 \<le> b) (map (of_char :: char \<Rightarrow> int) s)"
  by (auto simp: list_all_iff of_char_nonneg)

lemma valid_runes:
  assumes "ValidString s"
  shows "concat (map encode_rune (runes s)) = map of_char s" and "list_all scalar (runes s)"
  using valid_bytes_encode [of "map of_char s"] assms by (simp_all add: ValidString_def runes_def)

lemma string_of_runes_runes: "ValidString s \<Longrightarrow> string_of_runes (runes s) = s"
  by (simp add: string_of_runes_def valid_runes comp_def)

lemma byte_range: "0 \<le> b \<Longrightarrow> b < 256 \<Longrightarrow> (of_char (char_of b :: char) :: int) = b"
  by (simp add: of_char_of)

lemma encode_rune_bytes: "b \<in> set (encode_rune r) \<Longrightarrow> 0 \<le> b \<and> b < 256"
proof -
  assume b: "b \<in> set (encode_rune r)"
  consider "\<not> scalar r" | "scalar r" "r < 128" | "scalar r" "128 \<le> r" "r < 2048" | "scalar r" "2048 \<le> r" "r < 65536"
    | "scalar r" "65536 \<le> r"
    by linarith
  then show ?thesis
    by cases (use b in \<open>auto simp: encode_rune_def scalar_def\<close>)
qed

lemma bytes_of_runes: "map of_char (string_of_runes rs) = concat (map encode_rune rs)"
proof -
  have "map (\<lambda>b. of_char (char_of b :: char)) (concat (map encode_rune rs)) = concat (map encode_rune rs)"
    by (rule map_idI) (auto simp: byte_range dest: encode_rune_bytes)
  then show ?thesis
    by (simp add: string_of_runes_def comp_def)
qed

lemma runes_string_of_runes: "list_all scalar rs \<Longrightarrow> runes (string_of_runes rs) = rs"
  using runes_of_encode [of rs "[]"] by (simp add: runes_def bytes_of_runes)

lemma valid_bytes_of_runes: "list_all scalar rs \<Longrightarrow> valid_bytes (concat (map encode_rune rs))"
proof (induction rs)
  case (Cons r rs)
  then obtain a e where e: "encode_rune r = a # e"
    using length_encode_rune(1) [of r] by (cases "encode_rune r") auto
  have "first_rune (a # e @ concat (map encode_rune rs)) = (r, Suc (length e))"
    using first_rune_encode [of r "concat (map encode_rune rs)"] Cons.prems e by simp
  moreover have "(r, Suc (length e)) \<noteq> (65533, 1)"
    using e by (auto simp: encode_rune_def scalar_def)
  ultimately show ?case
    using Cons e by simp
qed simp

lemma ValidString_of_runes: "list_all scalar rs \<Longrightarrow> ValidString (string_of_runes rs)"
  by (simp add: ValidString_def bytes_of_runes valid_bytes_of_runes)

text \<open>For valid strings a prefix of runes is a prefix of bytes.\<close>

lemma prefix_runes_iff:
  assumes "ValidString s" and "ValidString p"
  shows "prefix (runes p) (runes s) \<longleftrightarrow> prefix p s"
proof
  assume "prefix (runes p) (runes s)"
  then obtain rs where "runes s = runes p @ rs" by (auto elim: prefixE)
  then have "map of_char s = map of_char p @ concat (map encode_rune rs)"
    using valid_runes(1) assms by (metis concat_append map_append)
  then have "prefix (map (of_char :: char \<Rightarrow> int) p) (map of_char s)" by simp
  then show "prefix p s"
    by (metis append_eq_conv_conj map_eq_append_conv prefixE prefixI take_map inj_map_eq_map inj_of_char)
next
  assume "prefix p s"
  then obtain t where "s = p @ t" by (auto elim: prefixE)
  then have "runes s = runes p @ runes t"
    using runes_of_encode [OF valid_runes(2) [OF assms(2)]] valid_runes(1) [OF assms(2)]
    by (simp add: runes_def)
  then show "prefix (runes p) (runes s)" by simp
qed
end
