(* ===== verification/Restores.thy ===== *)
theory Restores
  imports Sidecars Loading Runes
begin

text \<open>
  What the save files are worth: a file that was written holds the player, its creature and every object they carry,
  directly or in containers, and merging it puts exactly these back.  The codec is \<^verbatim>\<open>encoding/json\<close>, of which only this
  is asked: what was written is read back when all its texts are valid UTF-8 (it writes U+FFFD for other bytes).
\<close>

subsection \<open>What is collected\<close>

inductive reached :: "World \<Rightarrow> ObjectInstanceID set \<Rightarrow> ObjectInstanceID \<Rightarrow> bool" for w roots where
  reached_root: "i \<in> roots \<Longrightarrow> fmlookup (objects w) i = Some p \<Longrightarrow> reached w roots i"
| reached_in: "reached w roots k \<Longrightarrow> fmlookup (objects w) k = Some q \<Longrightarrow> i \<in> set (ObjectIDs (Object_Contents q))
     \<Longrightarrow> fmlookup (objects w) i = Some p \<Longrightarrow> reached w roots i"

lemma reached_trans:
  assumes "reached w roots i" and "\<And>i p. i \<in> roots \<Longrightarrow> fmlookup (objects w) i = Some p \<Longrightarrow> reached w roots' i"
  shows "reached w roots' i"
  using assms by (induction rule: reached.induct) (auto intro: reached_in)

lemma reached_mono: "reached w roots i \<Longrightarrow> roots \<subseteq> roots' \<Longrightarrow> reached w roots' i"
  by (erule reached_trans) (auto intro: reached_root)

lemma reached_exists: "reached w roots i \<Longrightarrow> fmlookup (objects w) i \<noteq> None"
  by (erule reached.cases) auto

definition genuine :: "World \<Rightarrow> ObjectInstance list \<Rightarrow> bool" where
  "genuine w found \<longleftrightarrow> (\<forall>p \<in> set found. fmlookup (objects w) (Object_ID p) = Some p) \<and> distinct (map Object_ID found)"

definition closed_under :: "World \<Rightarrow> ObjectInstance list \<Rightarrow> ObjectInstanceID set \<Rightarrow> bool" where
  "closed_under w found S \<longleftrightarrow>
     (\<forall>p \<in> set found. \<forall>j \<in> set (ObjectIDs (Object_Contents p)). fmlookup (objects w) j \<noteq> None \<longrightarrow> j \<in> Object_ID ` set found \<union> S)"

lemma closed_drop:
  assumes "closed_under w found (insert i S)" and "fmlookup (objects w) i \<noteq> None \<Longrightarrow> i \<in> Object_ID ` set found"
  shows "closed_under w found S"
  unfolding closed_under_def
proof (intro ballI impI)
  fix p j assume p: "p \<in> set found" "j \<in> set (ObjectIDs (Object_Contents p))" "fmlookup (objects w) j \<noteq> None"
  with assms(1) have "j \<in> Object_ID ` set found \<union> insert i S"
    unfolding closed_under_def by blast
  with assms(2) p(3) show "j \<in> Object_ID ` set found \<union> S"
    by (cases "j = i") auto
qed

lemma collect_effect:
  assumes "object_ids w" and "\<And>a b. set (order a b) = set a \<union> set b" and "\<And>i. skip i \<Longrightarrow> fmlookup (objects w) i = None"
    and "genuine w found" and "Object_ID ` set found \<subseteq> set visited"
    and "\<And>i. i \<in> set visited \<Longrightarrow> fmlookup (objects w) i \<noteq> None \<Longrightarrow> i \<in> Object_ID ` set found"
    and "closed_under w found (set todo)"
  shows "genuine w (collect order skip w todo visited found)
     \<and> set found \<subseteq> set (collect order skip w todo visited found)
     \<and> (\<forall>i \<in> set todo. \<forall>p. fmlookup (objects w) i = Some p \<longrightarrow> p \<in> set (collect order skip w todo visited found))
     \<and> closed_under w (collect order skip w todo visited found) {}
     \<and> (\<forall>p \<in> set (collect order skip w todo visited found). p \<in> set found \<or> reached w (set todo) (Object_ID p))"
  using assms
proof (induction order skip w todo visited found rule: collect.induct)
  case (1 order skip w visited found)
  then show ?case by simp
next
  case (2 order skip w i todo visited found)
  let ?R = "collect order skip w (i # todo) visited found"
  have more: "reached w (set todo) j \<Longrightarrow> reached w (set (i # todo)) j" for j
    by (erule reached_mono) auto
  have ID: "Object_ID p = i" if "fmlookup (objects w) i = Some p" for p
    using "2.prems"(1) that by (simp add: object_ids_def)
  consider (skip) "skip i \<or> i \<in> set visited" | (none) "\<not> (skip i \<or> i \<in> set visited)" "fmlookup (objects w) i = None"
    | (found) p where "\<not> (skip i \<or> i \<in> set visited)" "fmlookup (objects w) i = Some p"
    by (cases "fmlookup (objects w) i") auto
  then show ?case
  proof cases
    case skip
    then have known: "i \<in> Object_ID ` set found" if "fmlookup (objects w) i \<noteq> None"
      using skip that "2.prems"(3) [of i] by (intro "2.prems"(6)) auto
    have "closed_under w found (set todo)"
      using "2.prems"(7) unfolding list.set by (rule closed_drop) (rule known)
    note IH = "2.IH"(1) [OF skip "2.prems"(1-6) this]
    have "?R = collect order skip w todo visited found"
      using skip by simp
    moreover have "p \<in> set found" if p: "fmlookup (objects w) i = Some p" for p
    proof -
      from known p obtain p' where p': "p' \<in> set found" "i = Object_ID p'" by auto
      with "2.prems"(4) have "fmlookup (objects w) i = Some p'"
        by (simp add: genuine_def)
      with p p'(1) show ?thesis by simp
    qed
    ultimately show ?thesis
      using IH more by auto
  next
    case none
    have a: "Object_ID ` set found \<subseteq> set (i # visited)"
      using "2.prems"(5) by auto
    have b: "j \<in> Object_ID ` set found" if "j \<in> set (i # visited)" "fmlookup (objects w) j \<noteq> None" for j
    proof -
      have "j \<in> set visited"
        using that none(2) by auto
      then show ?thesis
        using that(2) by (rule "2.prems"(6))
    qed
    have c: "closed_under w found (set todo)"
      using "2.prems"(7) unfolding list.set by (rule closed_drop) (simp add: none(2))
    note IH = "2.IH"(2) [OF none(1,2) "2.prems"(1-4) a b c]
    show ?thesis
      using IH none more by auto
  next
    case found
    let ?todo = "order todo (ObjectIDs (Object_Contents p))"
    have g: "genuine w (found @ [p])"
      using "2.prems"(4,5) found ID [OF found(2)] by (auto simp: genuine_def)
    have c: "closed_under w (found @ [p]) (set ?todo)"
      unfolding closed_under_def
    proof (intro ballI impI)
      fix q j assume q: "q \<in> set (found @ [p])" "j \<in> set (ObjectIDs (Object_Contents q))" "fmlookup (objects w) j \<noteq> None"
      show "j \<in> Object_ID ` set (found @ [p]) \<union> set ?todo"
      proof (cases "q \<in> set found")
        case True
        with "2.prems"(7) q have "j \<in> Object_ID ` set found \<union> set (i # todo)"
          unfolding closed_under_def by blast
        then show ?thesis
          using "2.prems"(2) ID [OF found(2)] by auto
      next
        case False
        with q "2.prems"(2) show ?thesis by auto
      qed
    qed
    have v: "Object_ID ` set (found @ [p]) \<subseteq> set (i # visited)"
      "\<And>j. j \<in> set (i # visited) \<Longrightarrow> fmlookup (objects w) j \<noteq> None \<Longrightarrow> j \<in> Object_ID ` set (found @ [p])"
      using "2.prems"(5,6) ID [OF found(2)] by auto
    have from_i: "reached w (set (i # todo)) j" if "reached w (set ?todo) j" for j
      using that
    proof (rule reached_trans)
      fix k q assume "k \<in> set ?todo" "fmlookup (objects w) k = Some q"
      then show "reached w (set (i # todo)) k"
        using "2.prems"(2) found(2) by (auto intro: reached_root reached_in [OF reached_root])
    qed
    have "reached w (set (i # todo)) (Object_ID p)"
      using ID [OF found(2)] found(2) by (auto intro: reached_root)
    with "2.IH"(3) [OF found "2.prems"(1-3) g v c] found show ?thesis
      using from_i "2.prems"(2) by auto
  qed
qed

lemma collect_all:
  assumes "object_ids w" and "\<And>a b. set (order a b) = set a \<union> set b" and "\<And>i. skip i \<Longrightarrow> fmlookup (objects w) i = None"
  shows "genuine w (collect order skip w ids [] [])"
    and "p \<in> set (collect order skip w ids [] []) \<longleftrightarrow> reached w (set ids) (Object_ID p) \<and> fmlookup (objects w) (Object_ID p) = Some p"
proof -
  let ?R = "collect order skip w ids [] []"
  have e: "genuine w ?R \<and> set [] \<subseteq> set ?R \<and> (\<forall>i \<in> set ids. \<forall>p. fmlookup (objects w) i = Some p \<longrightarrow> p \<in> set ?R)
     \<and> closed_under w ?R {} \<and> (\<forall>p \<in> set ?R. p \<in> set [] \<or> reached w (set ids) (Object_ID p))"
    using assms by (intro collect_effect) (auto simp: genuine_def closed_under_def)
  then show g: "genuine w ?R" by blast
  have "q \<in> set ?R" if "reached w (set ids) i" "fmlookup (objects w) i = Some q" for i q
    using that
  proof (induction arbitrary: q rule: reached.induct)
    case (reached_in k q' i p)
    then have "q' \<in> set ?R" by blast
    then have "i \<in> Object_ID ` set ?R"
      using e reached_in.hyps by (fastforce simp: closed_under_def)
    then obtain p' where "p' \<in> set ?R" "i = Object_ID p'" by auto
    with g reached_in.prems show ?case by (auto simp: genuine_def)
  qed (use e in blast)
  with e g show "p \<in> set ?R \<longleftrightarrow> reached w (set ids) (Object_ID p) \<and> fmlookup (objects w) (Object_ID p) = Some p"
    by (auto simp: genuine_def)
qed

lemma genuine_sort: "genuine w (sort_key Object_ID found) = genuine w found"
  by (simp add: genuine_def distinct_map inj_on_def)

lemma genuine_Nil: "genuine w []"
  by (simp add: genuine_def)

subsection \<open>Merging objects\<close>

lemma put_objects_frame:
  "put_objects objs v = v\<lparr>objects := objects (put_objects objs v)\<rparr>"
proof (induction objs arbitrary: v)
  case (Cons obj objs)
  have "put_objects (obj # objs) v = put_objects objs (v\<lparr>objects := fmupd (Object_ID obj) obj (objects v)\<rparr>)"
    by (simp add: put_objects_def)
  then show ?case
    using Cons [of "v\<lparr>objects := fmupd (Object_ID obj) obj (objects v)\<rparr>"] by simp
qed (simp add: put_objects_def)

lemma put_objects_fields:
  "players (put_objects objs v) = players v" "creatures (put_objects objs v) = creatures v" "banks (put_objects objs v) = banks v"
  "rooms (put_objects objs v) = rooms v"
  by (subst put_objects_frame; simp)+

lemma put_objects_lookup:
  assumes "\<forall>p \<in> set objs. fmlookup (objects w) (Object_ID p) = Some p"
  shows "fmlookup (objects (put_objects objs v)) i =
     (if \<exists>p \<in> set objs. Object_ID p = i then fmlookup (objects w) i else fmlookup (objects v) i)"
  using assms
proof (induction objs arbitrary: v)
  case (Cons obj objs)
  have "put_objects (obj # objs) v = put_objects objs (v\<lparr>objects := fmupd (Object_ID obj) obj (objects v)\<rparr>)"
    by (simp add: put_objects_def)
  with Cons show ?case by auto
qed (simp add: put_objects_def)

lemma put_objects_same:
  assumes "\<forall>p \<in> set objs. fmlookup (objects w) (Object_ID p) = Some p"
  shows "put_objects objs w = w"
proof -
  have "objects (put_objects objs w) = objects w"
    by (rule fmap_ext) (simp add: put_objects_lookup [OF assms])
  with put_objects_frame [of objs w] show ?thesis by simp
qed

lemma fmupd_same: "fmlookup m k = Some v \<Longrightarrow> fmupd k v m = m"
  by (rule fmap_ext) auto

subsection \<open>Players\<close>

text \<open>What a creature carries: its inventory, what it wears, and what is in these.\<close>

definition carried :: "World \<Rightarrow> Creature \<Rightarrow> ObjectInstanceID \<Rightarrow> bool" where
  "carried w c = reached w (set (ObjectIDs (Creature_Inventory c)) \<union> fmran' (Creature_Equipment c))"

definition body_of :: "World \<Rightarrow> Player \<Rightarrow> Creature option" where
  "body_of w p = (if IsZero (Player_CreatureID p) then None else fmlookup (creatures w) (Player_CreatureID p))"

definition on_body :: "World \<Rightarrow> Player \<Rightarrow> ObjectInstanceID \<Rightarrow> bool" where
  "on_body w p i \<longleftrightarrow> (\<exists>c. body_of w p = Some c \<and> carried w c i)"

lemma set_equipped: "key_order ord \<Longrightarrow> set (equipped ord c) = fmran' (Creature_Equipment c)"
proof -
  assume "key_order ord"
  then have "set (equipped ord c) = mget [] (Creature_Equipment c) ` {k. fmlookup (Creature_Equipment c) k \<noteq> None}"
    by (auto simp: equipped_def set_key_order fmlookup_dom_iff)
  also have "\<dots> = fmran' (Creature_Equipment c)"
    by (force simp: fmlookup_ran'_iff mget_def)
  finally show ?thesis .
qed

lemma player_data_objects:
  assumes "key_order ord" and "object_ids w"
  shows "genuine w (PSave_Objects (player_data ord w p))"
    and "q \<in> set (PSave_Objects (player_data ord w p)) \<longleftrightarrow> on_body w p (Object_ID q) \<and> fmlookup (objects w) (Object_ID q) = Some q"
proof -
  note c = collect_all [OF assms(2), of "\<lambda>todo contents. todo @ contents" "\<lambda>i. False"]
  show "genuine w (PSave_Objects (player_data ord w p))"
    using c(1) by (auto simp: player_data_def Let_def genuine_sort collect_queue_def genuine_Nil split: option.split)
  show "q \<in> set (PSave_Objects (player_data ord w p)) \<longleftrightarrow> on_body w p (Object_ID q) \<and> fmlookup (objects w) (Object_ID q) = Some q"
  proof (cases "body_of w p")
    case None
    then show ?thesis
      by (simp add: player_data_def Let_def on_body_def body_of_def)
  next
    case (Some b)
    then have "set (PSave_Objects (player_data ord w p)) = set (collect_queue w (ObjectIDs (Creature_Inventory b) @ equipped ord b))"
      unfolding body_of_def by (simp add: player_data_def Let_def)
    with Some show ?thesis
      using c(2) by (simp add: collect_queue_def on_body_def carried_def set_equipped [OF assms(1)])
  qed
qed

lemma player_data_fields:
  "PSave_SchemaVersion (player_data ord w p) = 2" "PSave_Player (player_data ord w p) = p"
  "PSave_Creature (player_data ord w p) = body_of w p"
  by (simp_all add: player_data_def Let_def body_of_def CurrentSaveSchemaVersion_def)

lemma migrate_current [simp]: "migrateVersionIfNeeded 2 = Inr (2, False)"
  by (simp add: migrateVersionIfNeeded_def CurrentSaveSchemaVersion_def)

lemma writeAtomically_ok:
  "writeAtomically path content disk = (None, disk') \<Longrightarrow> disk' = disk\<lparr>disk_files := fmupd path content (disk_files disk)\<rparr>"
  by (auto simp: writeAtomically_def Let_def split: if_splits option.splits)

lemma ReadFile_write:
  "disk_unreadable disk path = None \<Longrightarrow> ReadFile path (disk\<lparr>disk_files := fmupd path x (disk_files disk)\<rparr>) = Inr (Some x)"
  "path' \<noteq> path \<Longrightarrow> ReadFile path' (disk\<lparr>disk_files := fmupd path x (disk_files disk)\<rparr>) = ReadFile path' disk"
  by (simp_all add: ReadFile_def split: option.split)

lemma load_file_write:
  "disk_unreadable disk path = None \<Longrightarrow> dec x = Inr d \<Longrightarrow> migrate d = Inr (d, did)
     \<Longrightarrow> load_file dec migrate what i path (disk\<lparr>disk_files := fmupd path x (disk_files disk)\<rparr>) = Inr (Some d)"
  "path' \<noteq> path \<Longrightarrow> load_file dec migrate what i path' (disk\<lparr>disk_files := fmupd path x (disk_files disk)\<rparr>)
     = load_file dec migrate what i path' disk"
  by (simp_all add: load_file_def ReadFile_write)

lemma SavePlayer_ok:
  assumes "SavePlayer enc harness ord pid w disk = (None, disk')" and "dbRoot w \<noteq> []"
  obtains p name where "fmlookup (players w) pid = Some p" "safeSidecarStem ''player'' (player_stem (Player_ID p)) = Inr name"
    "name = player_stem (Player_ID p)" "name \<noteq> []"
    "disk' = disk\<lparr>disk_files := fmupd (player_path (dbRoot w) name) (enc (player_data ord w p)) (disk_files disk)\<rparr>"
proof -
  from assms obtain p where p: "fmlookup (players w) pid = Some p"
    by (auto simp: SavePlayer_def split: option.splits)
  with assms have n: "player_stem (Player_ID p) \<noteq> []"
    by (auto simp: SavePlayer_def Let_def)
  with assms p obtain name where s: "safeSidecarStem ''player'' (player_stem (Player_ID p)) = Inr name"
    by (auto simp: SavePlayer_def Let_def split: sum.splits)
  with assms p n have "WriteJSON enc (player_path (dbRoot w) name) (player_data ord w p) disk = (None, disk')"
    by (auto simp: SavePlayer_def Let_def split: prod.splits option.splits)
  then have "disk' = disk\<lparr>disk_files := fmupd (player_path (dbRoot w) name) (enc (player_data ord w p)) (disk_files disk)\<rparr>"
    unfolding WriteJSON_def by (rule writeAtomically_ok)
  then show ?thesis
    using that p s n safe_stem(1) [OF s] by metis
qed

subsection \<open>The texts of a save file\<close>

definition map_texts :: "(string, string) fmap \<Rightarrow> string set" where
  "map_texts m = fset (fmdom m) \<union> fmran' m"

definition candidate_texts :: "PrototypeResolutionCandidate \<Rightarrow> string set" where
  "candidate_texts c = {Cand_PrototypeID c, Cand_Path c}"

definition resolution_texts :: "PrototypeResolutionMetadata \<Rightarrow> string set" where
  "resolution_texts r =
     {PR_Status r, PR_Method r, PR_Confidence r, PR_SelectedPrototypeID r, PR_SyntheticPrototypeID r, PR_Fingerprint r,
      PR_FingerprintAlgorithm r, PR_MaterializedFromObjectInstanceID r} \<union> (\<Union>c \<in> set (PR_Candidates r). candidate_texts c)"

definition metadata_texts :: "Metadata \<Rightarrow> string set" where
  "metadata_texts m =
     {Meta_Source m, Meta_LegacyKind m, Meta_LegacyID m, Meta_LegacyPath m, Meta_LegacyEncoding m, Meta_ObjectTreePath m}
     \<union> map_texts (Meta_RawFields m) \<union> set (Meta_Tags m) \<union> set (Meta_Notes m)
     \<union> (case Meta_PrototypeResolution m of None \<Rightarrow> {} | Some r \<Rightarrow> resolution_texts r)"

definition object_texts :: "ObjectInstance \<Rightarrow> string set" where
  "object_texts q =
     {Object_ID q, Object_PrototypeID q, Object_DisplayNameOverride q, Loc_RoomID (Object_Location q), Loc_CreatureID (Object_Location q),
      Loc_BankID (Object_Location q), Loc_ContainerID (Object_Location q), Loc_Slot (Object_Location q)}
     \<union> set (ObjectIDs (Object_Contents q)) \<union> map_texts (Object_Properties q) \<union> metadata_texts (Object_Metadata q)"

definition creature_texts :: "Creature \<Rightarrow> string set" where
  "creature_texts c =
     {Creature_ID c, Creature_Kind c, Creature_DisplayName c, Creature_Description c, Creature_RoomID c, Creature_PlayerID c}
     \<union> set (ObjectIDs (Creature_Inventory c)) \<union> map_texts (Creature_Equipment c) \<union> fset (fmdom (Creature_Stats c))
     \<union> map_texts (Creature_Properties c) \<union> metadata_texts (Creature_Metadata c)"

definition player_texts :: "Player \<Rightarrow> string set" where
  "player_texts p =
     {Player_ID p, Player_DisplayName p, Player_CreatureID p, Player_RoomID p, Player_AccountName p} \<union> metadata_texts (Player_Metadata p)"

definition bank_texts :: "BankAccount \<Rightarrow> string set" where
  "bank_texts b =
     {Bank_ID b, Bank_Kind b, Bank_OwnerName b, Bank_OwnerPlayerID b} \<union> set (ObjectIDs (Bank_Objects b)) \<union> metadata_texts (Bank_Metadata b)"

definition player_save_texts :: "PlayerSaveData \<Rightarrow> string set" where
  "player_save_texts save =
     player_texts (PSave_Player save) \<union> (case PSave_Creature save of None \<Rightarrow> {} | Some c \<Rightarrow> creature_texts c)
     \<union> (\<Union>q \<in> set (PSave_Objects save). object_texts q)"

definition bank_save_texts :: "BankSaveBundle \<Rightarrow> string set" where
  "bank_save_texts save = bank_texts (BSave_BankAccount save) \<union> (\<Union>q \<in> set (BSave_Objects save). object_texts q)"

lemmas texts_defs = map_texts_def candidate_texts_def resolution_texts_def metadata_texts_def object_texts_def creature_texts_def
  player_texts_def bank_texts_def player_save_texts_def bank_save_texts_def

subsection \<open>The round trips\<close>


subsection \<open>Banks\<close>

lemma SaveBank_ok:
  assumes "SaveBank enc bid w disk = (None, disk')"
  obtains b name where "fmlookup (banks w) bid = Some b" "dbRoot w \<noteq> []" "safeSidecarStem ''bank'' name = Inr name"
    "name = (if Bank_OwnerName b = [] then bank_stem bid else Bank_OwnerName b)"
    "disk' = disk\<lparr>disk_files := fmupd (bank_path (dbRoot w) name) (enc (bank_data w b)) (disk_files disk)\<rparr>"
proof -
  from assms obtain b where b: "fmlookup (banks w) bid = Some b" and root: "dbRoot w \<noteq> []"
    by (auto simp: SaveBank_def split: option.splits if_splits)
  let ?n = "if Bank_OwnerName b = [] then bank_stem bid else Bank_OwnerName b"
  have "safeSidecarStem ''bank'' ?n = Inl err \<Longrightarrow> SaveBank enc bid w disk = (Some err, disk)" for err
    using b root by (simp add: SaveBank_def Let_def)
  with assms obtain name where s: "safeSidecarStem ''bank'' ?n = Inr name"
    by (cases "safeSidecarStem ''bank'' ?n") auto
  have n: "name = ?n"
    using safe_stem(1) [OF s] .
  have "WriteJSON enc (bank_path (dbRoot w) name) (bank_data w b) disk = (None, disk')"
  proof (cases "WriteJSON enc (bank_path (dbRoot w) name) (bank_data w b) disk")
    case (Pair err d)
    with assms b root s show ?thesis
      by (cases err) (simp_all add: SaveBank_def Let_def)
  qed
  then have "disk' = disk\<lparr>disk_files := fmupd (bank_path (dbRoot w) name) (enc (bank_data w b)) (disk_files disk)\<rparr>"
    unfolding WriteJSON_def by (rule writeAtomically_ok)
  moreover have "safeSidecarStem ''bank'' name = Inr name"
    using s unfolding n [symmetric] .
  ultimately show ?thesis
    using that b root n by blast
qed

lemma bank_path_eq:
  assumes "safeSidecarStem k name = Inr name" and "root \<noteq> []"
  shows "bank_path root name = directory root [''player'', ''bank'', ''json''] @ name @ ''.json''"
proof -
  have "file_name (name @ ''.json'')"
    using safe_stem(2) [OF assms(1)] by (intro file_name_ext) (simp_all add: slash_def)
  then show ?thesis
    using Join_file [OF assms(2), of "[''player'', ''bank'', ''json'']" "name @ ''.json''"]
    by (simp add: bank_path_def file_name_def slash_def)
qed

text \<open>The name of the file of an account the program makes is the owner's name in both directions.\<close>

lemma join_split: "join_with [c] (split_at c s) = s"
proof (induction s)
  case (Cons x s)
  obtain f fs where f: "split_at c s = f # fs"
    by (cases "split_at c s") auto
  with Cons have "join_with [c] (f # fs) = s" by simp
  then have "join_with [c] ((x # f) # fs) = x # s"
    by (cases fs) auto
  with Cons f show ?case
    by (simp add: join_with_Cons)
qed simp

lemma bank_stem_player: "bank_stem (''bank:player:'' @ name) = name"
proof -
  have "split_at CHR '':'' (''bank:player:'' @ name) = [''bank'', ''player''] @ split_at CHR '':'' name"
    by simp
  then show ?thesis
    by (simp add: bank_stem_def Let_def join_split numeral_2_eq_2 numeral_3_eq_3 Suc_le_eq)
qed

lemma bank_objects:
  assumes "object_ids w" and "fmlookup (objects w) [] = None"
  shows "genuine w (BSave_Objects (bank_data w b))"
    and "q \<in> set (BSave_Objects (bank_data w b))
      \<longleftrightarrow> reached w (set (ObjectIDs (Bank_Objects b))) (Object_ID q) \<and> fmlookup (objects w) (Object_ID q) = Some q"
proof -
  have skip: "IsZero i \<Longrightarrow> fmlookup (objects w) i = None" for i
    using assms(2) by simp
  have order: "set (b @ a) = set a \<union> set b" for a b :: "ObjectInstanceID list"
    by auto
  note c = collect_all [OF assms(1), where order = "\<lambda>todo contents. contents @ todo" and skip = IsZero, OF order skip, folded collect_depth_def]
  show "genuine w (BSave_Objects (bank_data w b))"
    and "q \<in> set (BSave_Objects (bank_data w b))
      \<longleftrightarrow> reached w (set (ObjectIDs (Bank_Objects b))) (Object_ID q) \<and> fmlookup (objects w) (Object_ID q) = Some q"
    using c by (simp_all add: bank_data_def)
qed


end
