(* ===== verification/Deaths.thy ===== *)
theory Deaths
  imports Penalties Restores
begin

text \<open>
  The death of a player (\<^verbatim>\<open>death.go\<close>): what falls off, the loss of proficiency and of levels, the recovery and
  the move to the room of the dead, and the save at the end.
\<close>

subsection \<open>Class tables\<close>

record playerDeathClassStatBonusEntry =
  bonus_hpStart :: int
  bonus_mpStart :: int
  bonus_hp :: int
  bonus_mp :: int
  bonus_nDice :: int
  bonus_sDice :: int
  bonus_pDice :: int

definition bonus_entry :: "int \<Rightarrow> int \<Rightarrow> int \<Rightarrow> int \<Rightarrow> int \<Rightarrow> int \<Rightarrow> int \<Rightarrow> playerDeathClassStatBonusEntry" where
  "bonus_entry hpStart mpStart hp mp nDice sDice pDice =
     \<lparr>bonus_hpStart = hpStart, bonus_mpStart = mpStart, bonus_hp = hp, bonus_mp = mp, bonus_nDice = nDice,
      bonus_sDice = sDice, bonus_pDice = pDice\<rparr>"

definition playerDeathClassStatBonuses :: "(int \<times> playerDeathClassStatBonusEntry) list" where
  "playerDeathClassStatBonuses =
     [(ClassAssassin, bonus_entry 55 40 5 2 1 6 0),
      (ClassBarbarian, bonus_entry 57 40 7 1 2 3 1),
      (ClassCleric, bonus_entry 54 50 4 3 1 4 0),
      (ClassFighter, bonus_entry 56 50 6 1 1 5 0),
      (ClassMage, bonus_entry 54 50 4 3 1 3 0),
      (ClassPaladin, bonus_entry 55 50 5 2 1 4 0),
      (ClassRanger, bonus_entry 56 40 6 2 2 2 0),
      (ClassThief, bonus_entry 55 50 5 2 2 2 1),
      (ClassInvincible, bonus_entry 400 250 4 4 2 4 0),
      (ClassCaretaker, bonus_entry 50 50 5 5 5 5 5),
      (ClassBulsa, bonus_entry 50 50 5 5 5 5 5),
      (ClassSubDM, bonus_entry 50 50 5 5 5 5 5),
      (ClassDM, bonus_entry 50 50 7 4 5 5 5),
      (0, bonus_entry 1 1 1 1 1 1 1)]"

definition playerDeathClassStatBonusesFor :: "int \<Rightarrow> playerDeathClassStatBonusEntry" where
  "playerDeathClassStatBonusesFor class =
     (case map_of playerDeathClassStatBonuses class of Some bonuses \<Rightarrow> bonuses | None \<Rightarrow> bonus_entry 1 1 1 1 1 1 1)"

datatype legacy_stat = StatNone | StatSTR | StatDEX | StatCON | StatINT | StatPTY

definition playerDeathLevelCycleTable :: "(int \<times> legacy_stat list) list" where
  "playerDeathLevelCycleTable =
     (let last = [StatSTR, StatDEX, StatINT, StatCON, StatPTY, StatSTR, StatDEX, StatINT, StatCON, StatPTY]
      in [(0, replicate 10 StatNone),
          (ClassAssassin, [StatCON, StatPTY, StatSTR, StatINT, StatDEX, StatINT, StatDEX, StatPTY, StatSTR, StatDEX]),
          (ClassBarbarian, [StatINT, StatDEX, StatPTY, StatCON, StatSTR, StatCON, StatDEX, StatSTR, StatPTY, StatSTR]),
          (ClassCleric, [StatSTR, StatDEX, StatCON, StatPTY, StatINT, StatPTY, StatINT, StatDEX, StatCON, StatINT]),
          (ClassFighter, [StatPTY, StatINT, StatDEX, StatCON, StatSTR, StatCON, StatINT, StatSTR, StatDEX, StatSTR]),
          (ClassMage, [StatSTR, StatDEX, StatPTY, StatCON, StatINT, StatCON, StatINT, StatDEX, StatPTY, StatINT]),
          (ClassPaladin, [StatDEX, StatINT, StatCON, StatSTR, StatPTY, StatSTR, StatINT, StatPTY, StatCON, StatPTY]),
          (ClassRanger, [StatPTY, StatSTR, StatINT, StatCON, StatDEX, StatCON, StatDEX, StatSTR, StatINT, StatDEX]),
          (ClassThief, [StatINT, StatCON, StatPTY, StatSTR, StatDEX, StatSTR, StatCON, StatDEX, StatPTY, StatDEX]),
          (ClassInvincible, last), (ClassCaretaker, last), (ClassBulsa, last), (ClassSubDM, last), (ClassDM, last)])"

definition playerDeathLevelCycleFor :: "int \<Rightarrow> legacy_stat list" where
  "playerDeathLevelCycleFor class =
     (case map_of playerDeathLevelCycleTable class of Some cycle \<Rightarrow> cycle | None \<Rightarrow> replicate 10 StatNone)"

definition playerDeathLegacyStatName :: "legacy_stat \<Rightarrow> string" where
  "playerDeathLegacyStatName i =
     (case i of StatSTR \<Rightarrow> ''strength'' | StatDEX \<Rightarrow> ''dexterity'' | StatCON \<Rightarrow> ''constitution'' | StatINT \<Rightarrow> ''intelligence''
              | StatPTY \<Rightarrow> ''piety'' | StatNone \<Rightarrow> [])"

subsection \<open>What falls off\<close>

definition playerDeathIsWieldSlot :: "string \<Rightarrow> bool" where
  "playerDeathIsWieldSlot slot \<longleftrightarrow> normalizeFlagName slot \<in> {''wield'', ''weapon'', ''mainhand'', ''right''}"

definition playerDeathPropertiesInt :: "(string fset \<Rightarrow> string list) \<Rightarrow> (string, string) fmap \<Rightarrow> string list \<Rightarrow> int option" where
  "playerDeathPropertiesInt ord properties names =
     (case find (\<lambda>key. normalizeFlagName key \<in> set (normalizedFlagSet names)) (ord (fmdom properties)) of
        None \<Rightarrow> None | Some key \<Rightarrow> parseStateInt (mget [] properties key))"

definition playerDeathObjectInt :: "(string fset \<Rightarrow> string list) \<Rightarrow> World \<Rightarrow> ObjectInstance \<Rightarrow> string list \<Rightarrow> int" where
  "playerDeathObjectInt ord w object names =
     (case playerDeathPropertiesInt ord (Object_Properties object) names of
        Some value \<Rightarrow> value
      | None \<Rightarrow>
      if IsZero (Object_PrototypeID object) then 0
      else case fmlookup (prototypes w) (Object_PrototypeID object) of
        None \<Rightarrow> 0
      | Some proto \<Rightarrow>
          (case playerDeathPropertiesInt ord (Proto_Properties proto) names of Some value \<Rightarrow> value | None \<Rightarrow> 0))"

definition playerDeathPropertiesFlag :: "(string, string) fmap \<Rightarrow> string list \<Rightarrow> bool" where
  "playerDeathPropertiesFlag properties names =
     (let targets = set (normalizedFlagSet names)
      in list_ex (\<lambda>key. normalizeFlagName key \<in> targets \<and> propertyFlagEnabled (mget [] properties key)
             \<or> list_ex (\<lambda>token. normalizeFlagName token \<in> targets) (fields_by flag_separator [] (mget [] properties key)))
           (sorted_list_of_fset (fmdom properties)))"

definition playerDeathObjectHasAnyFlag :: "World \<Rightarrow> ObjectInstance \<Rightarrow> string list \<Rightarrow> bool" where
  "playerDeathObjectHasAnyFlag w object names \<longleftrightarrow>
     hasAnyNormalizedFlag (Meta_Tags (Object_Metadata object)) names \<or> playerDeathPropertiesFlag (Object_Properties object) names
     \<or> \<not> IsZero (Object_PrototypeID object)
       \<and> (case fmlookup (prototypes w) (Object_PrototypeID object) of
            None \<Rightarrow> False
          | Some proto \<Rightarrow> hasAnyNormalizedFlag (Meta_Tags (Proto_Metadata proto)) names
                        \<or> playerDeathPropertiesFlag (Proto_Properties proto) names)"

definition playerDeathReadyObjectDrops :: "(string fset \<Rightarrow> string list) \<Rightarrow> World \<Rightarrow> ObjectInstance \<Rightarrow> bool \<Rightarrow> bool" where
  "playerDeathReadyObjectDrops ord w object wield =
     (if playerDeathObjectInt ord w object [''questNumber'', ''questnum'', ''quest''] \<noteq> 0 then False
      else if playerDeathObjectHasAnyFlag w object [''OEVENT'', ''event''] then False
      else if playerDeathObjectHasAnyFlag w object [''OCURSE'', ''curse'', ''cursed''] then False
      else if wield \<and> (objectKindIs w object ObjectKindContainer
                      \<or> playerDeathObjectHasAnyFlag w object [''CONTAINER'', ''container'', ''OCONTN'']) then False
      else True)"

text \<open>
  The recursion that marks an object and its contents as temporary, as a worklist: the contents of an object come
  before what was left.  It has no list of visited objects, so it does not end on a container inside itself.
\<close>

partial_function (option) playerDeathMarkTempPerm :: "ObjectInstanceID list \<Rightarrow> World \<Rightarrow> World option" where
  "playerDeathMarkTempPerm todo w =
     (case todo of
        [] \<Rightarrow> Some w
      | i # todo \<Rightarrow>
          (case fmlookup (objects w) i of
             None \<Rightarrow> playerDeathMarkTempPerm todo w
           | Some object \<Rightarrow>
               playerDeathMarkTempPerm (ObjectIDs (Object_Contents object) @ todo)
                 (w\<lparr>objects := fmupd i (object\<lparr>Object_Metadata := (Object_Metadata object)
                      \<lparr>Meta_Tags := addMetadataTags (Meta_Tags (Object_Metadata object)) [''OPERM2'', ''OTEMPP'']\<rparr>\<rparr>) (objects w)\<rparr>)))"

definition appendIDOnce :: "'a list \<Rightarrow> 'a \<Rightarrow> 'a list" where
  "appendIDOnce ids i = (if i \<in> set ids then ids else ids @ [i])"

text \<open>
  One worn object: it stays on, or falls to the floor, or goes to the inventory.  The creature is the copy
  \<^verbatim>\<open>PlayerDeath\<close> works on, which is stored later.
\<close>

definition shed_slot ::
  "(string fset \<Rightarrow> string list) \<Rightarrow> RoomID \<Rightarrow> bool \<Rightarrow> string \<Rightarrow> Creature \<times> World \<Rightarrow> (Creature \<times> World) option" where
  "shed_slot ord roomID attackerIsPlayer slot = (\<lambda>(creature, w).
     (let objectID = mget [] (Creature_Equipment creature) slot
      in if IsZero objectID then Some (creature, w)
         else case fmlookup (objects w) objectID of
           None \<Rightarrow> Some (creature, w)
         | Some object \<Rightarrow>
             let wield = playerDeathIsWieldSlot slot
             in if \<not> playerDeathReadyObjectDrops ord w object wield then Some (creature, w)
                else let creature = creature\<lparr>Creature_Equipment := fmdrop slot (Creature_Equipment creature),
                           Creature_Inventory := \<lparr>ObjectIDs = removeID (ObjectIDs (Creature_Inventory creature)) objectID\<rparr>\<rparr>
                in if wield \<or> attackerIsPlayer
                   then let w = w\<lparr>objects := fmupd objectID (object\<lparr>Object_Location := roomLocation roomID\<rparr>) (objects w)\<rparr>;
                            room = mget zeroRoom (rooms w) roomID;
                            room = room\<lparr>Room_Objects := \<lparr>ObjectIDs = appendIDOnce (ObjectIDs (Room_Objects room)) objectID\<rparr>\<rparr>;
                            w = w\<lparr>rooms := fmupd roomID room (rooms w)\<rparr>
                        in map_option (\<lambda>w. (creature, MarkRoomObjectsDirty roomID w))
                             (if wield then playerDeathMarkTempPerm [objectID] w else Some w)
                   else Some (creature\<lparr>Creature_Inventory :=
                                \<lparr>ObjectIDs = appendIDOnce (ObjectIDs (Creature_Inventory creature)) objectID\<rparr>\<rparr>,
                              w\<lparr>objects := fmupd objectID (object\<lparr>Object_Location := inventoryLocation (Creature_ID creature)\<rparr>)
                                  (objects w)\<rparr>)))"

definition worn_slots :: "Creature \<Rightarrow> string list" where
  "worn_slots creature =
     filter (\<lambda>slot. trimSpace slot \<noteq> [] \<and> \<not> IsZero (mget [] (Creature_Equipment creature) slot))
       (sorted_list_of_fset (fmdom (Creature_Equipment creature)))"

fun shed_slots ::
  "(string fset \<Rightarrow> string list) \<Rightarrow> RoomID \<Rightarrow> bool \<Rightarrow> string list \<Rightarrow> Creature \<times> World \<Rightarrow> (Creature \<times> World) option" where
  "shed_slots ord roomID attackerIsPlayer [] cw = Some cw"
| "shed_slots ord roomID attackerIsPlayer (slot # slots) cw =
     Option.bind (shed_slot ord roomID attackerIsPlayer slot cw) (shed_slots ord roomID attackerIsPlayer slots)"

definition playerDeathProcessReadyObjects ::
  "(string fset \<Rightarrow> string list) \<Rightarrow> Creature \<Rightarrow> RoomID \<Rightarrow> bool \<Rightarrow> World \<Rightarrow> (Creature \<times> World) option" where
  "playerDeathProcessReadyObjects ord creature roomID attackerIsPlayer w =
     shed_slots ord roomID attackerIsPlayer (worn_slots creature) (creature, w)"

subsection \<open>Proficiency\<close>

definition playerDeathProficiencyKeys :: "int \<Rightarrow> string list" where
  "playerDeathProficiencyKeys idx =
     (if idx < 0 \<or> int (length weaponProficiencyStatKeys) \<le> idx then [''proficiency/'' @ itoa idx]
      else let part = weaponProficiencyPropertyKeys ! nat idx
           in [weaponProficiencyStatKeys ! nat idx, ''proficiency/'' @ part, ''proficiency.'' @ part, ''proficiency_'' @ part]
              @ indexed_keys ''proficiency'' idx)"

definition playerDeathRealmKeys :: "int \<Rightarrow> string list" where
  "playerDeathRealmKeys idx =
     (let keys = [''realmEarth'', ''realmWind'', ''realmFire'', ''realmWater'']
      in if 0 \<le> idx \<and> idx < int (length keys) then keys ! nat idx # indexed_keys ''realm'' (idx + 1)
         else [''realm/'' @ itoa (idx + 1)])"

definition playerDeathWriteLoweredValue :: "string list \<Rightarrow> string \<Rightarrow> int \<Rightarrow> Creature \<Rightarrow> Creature" where
  "playerDeathWriteLoweredValue keys defaultStatKey v creature =
     (if keys = [] then creature
      else let wrote = list_ex (\<lambda>key. key |\<in>| fmdom (Creature_Stats creature) \<or> key |\<in>| fmdom (Creature_Properties creature)) keys;
               creature = creature
                 \<lparr>Creature_Stats := fmmap_keys (\<lambda>key old. if key \<in> set keys then v else old) (Creature_Stats creature),
                  Creature_Properties := fmmap_keys (\<lambda>key old. if key \<in> set keys then itoa v else old) (Creature_Properties creature)\<rparr>
           in if wrote then creature
              else creature\<lparr>Creature_Stats := fmupd defaultStatKey v (Creature_Stats creature)\<rparr>)"

definition write_lowered :: "(int \<Rightarrow> string list) \<Rightarrow> int list \<Rightarrow> Creature \<Rightarrow> Creature" where
  "write_lowered keys vs creature =
     foldl (\<lambda>creature (i, v). playerDeathWriteLoweredValue (keys (int i)) (hd (keys (int i))) v creature) creature (enumerate 0 vs)"

text \<open>\<open>None\<close> when the loop of the loss never ends.\<close>

definition playerDeathApplyProficiencyLoss :: "(string fset \<Rightarrow> string list) \<Rightarrow> Creature \<Rightarrow> Creature option" where
  "playerDeathApplyProficiencyLoss ord creature =
     map_option (\<lambda>(proficiency, realms).
         write_lowered playerDeathRealmKeys realms (write_lowered playerDeathProficiencyKeys proficiency creature))
       (playerDeathLowerProficiency (map (stateCreatureProficiencyValue ord creature) [0, 1, 2, 3, 4])
          (map (stateCreatureRealm creature) [0, 1, 2, 3]) (creatureStateInt ord creature ''experience''))"

subsection \<open>Levels\<close>

definition up_damage_flags :: "string list" where
  "up_damage_flags = [''PUPDMG'', ''upDamage'', ''upDmg'']"

definition playerDeathHasUpDamage :: "Player \<Rightarrow> Creature \<Rightarrow> bool" where
  "playerDeathHasUpDamage player creature \<longleftrightarrow>
     creatureHasAnyFlag creature up_damage_flags \<or> hasAnyNormalizedFlag (Meta_Tags (Player_Metadata player)) up_damage_flags"

definition playerDeathClearUpDamage :: "Player \<Rightarrow> Creature \<Rightarrow> Player \<times> Creature" where
  "playerDeathClearUpDamage player creature =
     (player\<lparr>Player_Metadata := (Player_Metadata player)
        \<lparr>Meta_Tags := removeMetadataTags (Meta_Tags (Player_Metadata player)) up_damage_flags\<rparr>\<rparr>,
      creature\<lparr>Creature_Metadata := (Creature_Metadata creature)
          \<lparr>Meta_Tags := removeMetadataTags (Meta_Tags (Creature_Metadata creature)) up_damage_flags\<rparr>,
        Creature_Stats := fmmap_keys (\<lambda>key old. if key \<in> set up_damage_flags then 0 else old) (Creature_Stats creature),
        Creature_Properties := fmmap_keys (\<lambda>key old. if key \<in> set up_damage_flags then ''0'' else old) (Creature_Properties creature)\<rparr>)"

text \<open>What the loop over the levels carries, and one level lost: \<open>level\<close> is the level already reduced.\<close>

record fallen =
  fallen_player :: Player
  fallen_creature :: Creature
  fallen_hpMax :: int
  fallen_mpMax :: int
  fallen_pDice :: int
  fallen_cleared :: bool

definition down_level :: "(string fset \<Rightarrow> string list) \<Rightarrow> int \<Rightarrow> int \<Rightarrow> fallen \<Rightarrow> fallen" where
  "down_level ord class level f =
     (let f = (if \<not> fallen_cleared f \<and> playerDeathHasUpDamage (fallen_player f) (fallen_creature f)
               then let (player, creature) = playerDeathClearUpDamage (fallen_player f) (fallen_creature f);
                        points = (if class < ClassInvincible then 50 else 100);
                        dice = (if class < ClassInvincible then 2 else 3)
                    in \<lparr>fallen_player = player, fallen_creature = creature, fallen_hpMax = i64 (fallen_hpMax f - points),
                        fallen_mpMax = i64 (fallen_mpMax f - points), fallen_pDice = i64 (fallen_pDice f - dice),
                        fallen_cleared = True\<rparr>
               else f);
          bonuses = playerDeathClassStatBonusesFor class;
          f = (if (level - 1) mod 2 \<noteq> 0 then f\<lparr>fallen_hpMax := i64 (fallen_hpMax f - bonus_hp bonuses)\<rparr>
               else f\<lparr>fallen_mpMax := i64 (fallen_mpMax f - bonus_mp bonuses)\<rparr>);
          statName = playerDeathLegacyStatName (playerDeathLevelCycleFor class ! nat ((level - 1) mod 10));
          creature = fallen_creature f
      in if (level + 1) mod 4 = 0 \<and> statName \<noteq> []
         then f\<lparr>fallen_creature := creature\<lparr>Creature_Stats :=
                fmupd statName (i64 (creatureStateInt ord creature statName - 1)) (Creature_Stats creature)\<rparr>\<rparr>
         else f)"

function down_levels :: "(string fset \<Rightarrow> string list) \<Rightarrow> int \<Rightarrow> int \<Rightarrow> int \<Rightarrow> fallen \<Rightarrow> fallen" where
  "down_levels ord class targetLevel level f =
     (if targetLevel < level then down_levels ord class targetLevel (level - 1) (down_level ord class (level - 1) f) else f)"
  by pat_completeness auto
termination by (relation "measure (\<lambda>(ord, class, targetLevel, level, f). nat (level - targetLevel))") auto

declare down_levels.simps [simp del]

definition playerDeathApplyLegacyDownLevels ::
  "(string fset \<Rightarrow> string list) \<Rightarrow> Player \<Rightarrow> Creature \<Rightarrow> int \<Rightarrow> Player \<times> Creature" where
  "playerDeathApplyLegacyDownLevels ord player creature targetLevel =
     (let level = creatureStateLevel ord creature; targetLevel = (if targetLevel < 1 then 1 else targetLevel)
      in if level \<le> targetLevel then (player, creature)
         else let f = down_levels ord (creatureStateClass ord creature) targetLevel level
                    \<lparr>fallen_player = player, fallen_creature = creature, fallen_hpMax = creatureStateInt ord creature ''hpMax'',
                     fallen_mpMax = creatureStateInt ord creature ''mpMax'', fallen_pDice = creatureStateInt ord creature ''pDice'',
                     fallen_cleared = False\<rparr>;
                  creature = fallen_creature f
              in (fallen_player f, creature\<lparr>Creature_Level := targetLevel, Creature_Stats :=
                    foldl (\<lambda>stats (key, v). fmupd key v stats) (Creature_Stats creature)
                      [(''level'', targetLevel), (''hpMax'', fallen_hpMax f), (''mpMax'', fallen_mpMax f),
                       (''hpCurrent'', fallen_hpMax f), (''mpCurrent'', fallen_mpMax f), (''pDice'', fallen_pDice f)]\<rparr>))"

subsection \<open>The death of a player\<close>

definition playerDeathCreatureIntValue :: "(string fset \<Rightarrow> string list) \<Rightarrow> Creature \<Rightarrow> string list \<Rightarrow> int option" where
  "playerDeathCreatureIntValue ord creature names =
     (let named = (\<lambda>key. normalizeFlagName key \<in> set (normalizedFlagSet names))
      in case find named (ord (fmdom (Creature_Stats creature))) of
           Some key \<Rightarrow> fmlookup (Creature_Stats creature) key
         | None \<Rightarrow>
             (case find named (ord (fmdom (Creature_Properties creature))) of
                Some key \<Rightarrow> parseStateInt (mget [] (Creature_Properties creature) key)
              | None \<Rightarrow> None))"

definition playerDeathCreatureFamilyID :: "(string fset \<Rightarrow> string list) \<Rightarrow> Creature \<Rightarrow> int" where
  "playerDeathCreatureFamilyID ord creature =
     (case playerDeathCreatureIntValue ord creature [''familyID'', ''dailyExpndMax'', ''legacyDailyExpndMax''] of
        Some v \<Rightarrow> v | None \<Rightarrow> 0)"

definition playerDeathCheckWarReturnsOne ::
  "(string fset \<Rightarrow> string list) \<Rightarrow> World \<Rightarrow> Creature option \<Rightarrow> Creature \<Rightarrow> bool" where
  "playerDeathCheckWarReturnsOne ord w attacker dead =
     (let firstFamily = (case attacker of None \<Rightarrow> 0 | Some attacker \<Rightarrow> playerDeathCreatureFamilyID ord attacker);
          secondFamily = playerDeathCreatureFamilyID ord dead;
          active = War_Active (familyWar w)
      in if firstFamily = 0 \<or> secondFamily = 0 then True
         else if pair_IsZero active then True
         else \<not> (firstFamily = War_First active \<and> secondFamily = War_Second active
                  \<or> firstFamily = War_Second active \<and> secondFamily = War_First active))"

definition pay_experience :: "(string fset \<Rightarrow> string list) \<Rightarrow> Creature \<Rightarrow> Creature" where
  "pay_experience ord creature =
     creature\<lparr>Creature_Stats := fmupd ''experience''
        (experience_after (creatureStateInt ord creature ''experience'') (creatureStateClass ord creature)
           (creatureStateLevel ord creature)) (Creature_Stats creature)\<rparr>"

definition fall_to_level :: "(string fset \<Rightarrow> string list) \<Rightarrow> Player \<Rightarrow> Creature \<Rightarrow> Player \<times> Creature" where
  "fall_to_level ord player creature =
     (let level = creatureStateLevel ord creature; newLevel = expToLev (creatureStateInt ord creature ''experience'')
      in if 0 < level \<and> newLevel < level then playerDeathApplyLegacyDownLevels ord player creature newLevel
         else (player, creature))"

definition sickness_flags :: "string list" where
  "sickness_flags = [''PPOISN'', ''poison'', ''PDISEA'', ''disease'']"

text \<open>Hit points and magic points come back, sickness and the title go.\<close>

definition revive :: "(string fset \<Rightarrow> string list) \<Rightarrow> bool \<Rightarrow> Player \<Rightarrow> Creature \<Rightarrow> Player \<times> Creature" where
  "revive ord attackerIsPlayer player creature =
     (let hpMax = creatureStateInt ord creature ''hpMax'';
          creature = creature\<lparr>Creature_Stats := fmupd ''hpCurrent'' (if hpMax < 1 then 1 else hpMax) (Creature_Stats creature)\<rparr>;
          mpMax = creatureStateInt ord creature ''mpMax'';
          mpMax = (if mpMax < 0 then 0 else mpMax);
          mpCur = creatureStateInt ord creature ''mpCurrent'';
          newMp = (if attackerIsPlayer then (if mpCur < mpMax sdiv 10 then mpMax sdiv 10 else mpCur) else mpMax)
      in (player\<lparr>Player_Metadata := (Player_Metadata player)
            \<lparr>Meta_Tags := removeMetadataTags (Meta_Tags (Player_Metadata player)) sickness_flags\<rparr>\<rparr>,
          creature\<lparr>Creature_Stats := fmupd ''mpCurrent'' newMp (Creature_Stats creature),
            Creature_Metadata := (Creature_Metadata creature)
              \<lparr>Meta_Tags := removeMetadataTags (Meta_Tags (Creature_Metadata creature)) sickness_flags\<rparr>,
            Creature_Properties := fmdrop ''legacyTitle'' (Creature_Properties creature)\<rparr>))"

text \<open>
  The penalties and the recovery, in the order of the code.  \<open>None\<close> when a part does not return: the loop of the
  loss, or the combat statistics, which are computed last; or a write into the statistics of a creature that has none,
  which are nil in Go (a file without statistics is loaded so) and make the write panic.
\<close>

definition penalised ::
  "(string fset \<Rightarrow> string list) \<Rightarrow> bool \<Rightarrow> bool \<Rightarrow> bool \<Rightarrow> Player \<Rightarrow> Creature \<Rightarrow> (Player \<times> Creature) option" where
  "penalised ord penalty pays attackerIsPlayer player creature =
     (if pays \<and> Creature_Stats creature = fmempty then None
      else let creature = (if pays then pay_experience ord creature else creature)
      in Option.bind (if penalty then playerDeathApplyProficiencyLoss ord creature else Some creature) (\<lambda>creature.
           let (player, creature) = fall_to_level ord player creature
           in if Creature_Stats creature = fmempty then None else Some (revive ord attackerIsPlayer player creature)))"

definition chastened ::
  "(string fset \<Rightarrow> string list) \<Rightarrow> bool \<Rightarrow> bool \<Rightarrow> bool \<Rightarrow> World \<Rightarrow> Player \<Rightarrow> Creature \<Rightarrow> (Player \<times> Creature) option" where
  "chastened ord penalty pays attackerIsPlayer w player creature =
     Option.bind (penalised ord penalty pays attackerIsPlayer player creature)
       (\<lambda>(player, creature). map_option (\<lambda>creature. (player, creature)) (recalculateCreatureCombatStats ord w creature))"

definition death_room :: "World \<Rightarrow> RoomID" where
  "death_room w =
     (if fmlookup (rooms w) ''room:1008'' = None \<and> fmlookup (rooms w) ''1008'' \<noteq> None then ''1008'' else ''room:1008'')"

text \<open>The dead player arrives in the room of the dead.\<close>

definition send_to ::
  "(nat \<Rightarrow> int \<Rightarrow> int) \<Rightarrow> (ObjectInstanceID \<Rightarrow> int) \<Rightarrow> RoomID \<Rightarrow> Player \<Rightarrow> Creature \<Rightarrow> World \<Rightarrow> World" where
  "send_to dice roll targetRoomID player creature w =
     (let player = player\<lparr>Player_RoomID := targetRoomID\<rparr>;
          creature = creature\<lparr>Creature_RoomID := targetRoomID\<rparr>;
          w = w\<lparr>players := fmupd (Player_ID player) player (players w)\<rparr>;
          w = w\<lparr>creatures := fmupd (Creature_ID creature) creature (creatures w)\<rparr>;
          w = w\<lparr>rooms := fmmap (\<lambda>room. room\<lparr>Room_PlayerIDs := removeID (Room_PlayerIDs room) (Player_ID player),
                 Room_CreatureIDs := removeID (Room_CreatureIDs room) (Creature_ID creature)\<rparr>) (rooms w)\<rparr>;
          w = (case fmlookup (rooms w) targetRoomID of
                 None \<Rightarrow> w
               | Some toRoom \<Rightarrow>
                   w\<lparr>rooms := fmupd targetRoomID
                       (toRoom\<lparr>Room_PlayerIDs := insertPlayerIDLegacySorted w (Room_PlayerIDs toRoom) (Player_ID player),
                          Room_CreatureIDs := insertCreatureIDLegacySorted w (Room_CreatureIDs toRoom) (Creature_ID creature)\<rparr>)
                       (rooms w)\<rparr>);
          nowUnix = clock w;
          w = refreshRoomPermanentSpawns dice roll targetRoomID nowUnix w
      in checkRoomExits targetRoomID nowUnix w)"

text \<open>
  From the circumstances of the death on: whether it costs things and proficiency, whether it costs experience, and
  whether the killer is a player.  The locks are released before the save, which reads the world it finds then:
  \<open>later\<close> is what other operations make of the world in between.
\<close>

definition die ::
  "(PlayerSaveData \<Rightarrow> 'f) \<Rightarrow> bool \<Rightarrow> (string fset \<Rightarrow> string list) \<Rightarrow> (nat \<Rightarrow> int \<Rightarrow> int) \<Rightarrow> (ObjectInstanceID \<Rightarrow> int)
     \<Rightarrow> (World \<Rightarrow> World) \<Rightarrow> bool \<Rightarrow> bool \<Rightarrow> bool \<Rightarrow> PlayerID \<Rightarrow> RoomID \<Rightarrow> Player \<Rightarrow> Creature \<Rightarrow> World \<Rightarrow> 'f disk
     \<Rightarrow> (go_error option \<times> World \<times> 'f disk) option" where
  "die enc harness ord dice roll later penalty pays attackerIsPlayer playerID playerRoomID player creature w disk =
     Option.bind (if penalty then playerDeathProcessReadyObjects ord creature playerRoomID attackerIsPlayer w
                  else Some (creature, w)) (\<lambda>(creature, w).
       map_option (\<lambda>(player, creature).
           let w = send_to dice roll (death_room w) player creature w;
               w = MarkPlayerDirty playerID w;
               (err, disk) = SavePlayer enc harness ord playerID (later w) disk
           in (err, w, disk))
         (chastened ord penalty pays attackerIsPlayer w player creature))"

definition survival_room :: "World \<Rightarrow> RoomID \<Rightarrow> bool" where
  "survival_room w roomID =
     (case fmlookup (rooms w) roomID of None \<Rightarrow> False | Some room \<Rightarrow> roomHasAnyFlag room [''RSUVIV'', ''survival''])"

definition is_player :: "Creature option \<Rightarrow> bool" where
  "is_player attacker =
     (case attacker of None \<Rightarrow> False | Some att \<Rightarrow> Creature_Kind att = CreatureKindPlayer \<or> \<not> IsZero (Creature_PlayerID att))"

text \<open>The world of the result is the one at the release of the locks.\<close>

definition PlayerDeath ::
  "(PlayerSaveData \<Rightarrow> 'f) \<Rightarrow> bool \<Rightarrow> (string fset \<Rightarrow> string list) \<Rightarrow> (nat \<Rightarrow> int \<Rightarrow> int) \<Rightarrow> (ObjectInstanceID \<Rightarrow> int)
     \<Rightarrow> (World \<Rightarrow> World) \<Rightarrow> PlayerID \<Rightarrow> CreatureID \<Rightarrow> World \<Rightarrow> 'f disk \<Rightarrow> (go_error option \<times> World \<times> 'f disk) option" where
  "PlayerDeath enc harness ord dice roll later playerID attackerID w disk =
     (case fmlookup (players w) playerID of
        None \<Rightarrow> Some (Some (Errorf ''player %s not found'' [playerID]), w, disk)
      | Some player \<Rightarrow>
      if IsZero (Player_CreatureID player) then Some (Some (Errorf ''player %s has no creature'' [playerID]), w, disk)
      else case fmlookup (creatures w) (Player_CreatureID player) of
        None \<Rightarrow> Some (Some (Errorf ''creature %s for player %s not found'' [Player_CreatureID player, playerID]), w, disk)
      | Some creature \<Rightarrow>
      let playerRoomID = (if IsZero (Player_RoomID player) then Creature_RoomID creature else Player_RoomID player)
      in if IsZero playerRoomID then Some (Some (Errorf ''player %s is not in any room'' [playerID]), w, disk)
      else let attacker = (if IsZero attackerID then None else fmlookup (creatures w) attackerID);
               attackerIsPlayer = is_player attacker;
               deathPenaltyApplies = (\<not> survival_room w playerRoomID \<and> playerDeathCheckWarReturnsOne ord w attacker creature);
               pays = (\<not> attackerIsPlayer \<or> attackerID = Creature_ID creature)
           in die enc harness ord dice roll later deathPenaltyApplies pays attackerIsPlayer playerID playerRoomID player creature w disk)"

end
