(* ===== verification/Burials.thy ===== *)
theory Burials
  imports Deaths
begin

text \<open>
  What the death of a player does: where its things go, that the penalties and the recovery keep the world in
  order, and what the save at the end holds.
\<close>

subsection \<open>Marks on an object and its contents\<close>

definition temp_perm :: "ObjectInstance \<Rightarrow> ObjectInstance" where
  "temp_perm object = object\<lparr>Object_Metadata := (Object_Metadata object)
     \<lparr>Meta_Tags := addMetadataTags (Meta_Tags (Object_Metadata object)) [''OPERM2'', ''OTEMPP'']\<rparr>\<rparr>"

definition marked :: "ObjectInstanceID set \<Rightarrow> World \<Rightarrow> World" where
  "marked S w = w\<lparr>objects := fmmap_keys (\<lambda>i object. if i \<in> S then temp_perm object else object) (objects w)\<rparr>"

lemma temp_perm_twice [simp]: "temp_perm (temp_perm object) = temp_perm object"
proof -
  have n: "trimSpace ''OPERM2'' = ''OPERM2''" "trimSpace ''OTEMPP'' = ''OTEMPP''"
    "normalizeFlagName ''OPERM2'' = ''operm2''" "normalizeFlagName ''OTEMPP'' = ''otempp''"
    by code_simp+
  have "addMetadataTags (addMetadataTags tags [''OPERM2'', ''OTEMPP'']) [''OPERM2'', ''OTEMPP'']
      = addMetadataTags tags [''OPERM2'', ''OTEMPP'']" for tags
    by (simp add: addMetadataTags_def n Let_def)
  then show ?thesis
    by (simp add: temp_perm_def)
qed

lemma temp_perm_fields [simp]:
  "Object_Location (temp_perm object) = Object_Location object" "Object_Contents (temp_perm object) = Object_Contents object"
  "Object_ID (temp_perm object) = Object_ID object" "Object_Properties (temp_perm object) = Object_Properties object"
  by (simp_all add: temp_perm_def)

lemma lookup_marked: "fmlookup (objects (marked S w)) i
     = map_option (\<lambda>object. if i \<in> S then temp_perm object else object) (fmlookup (objects w) i)"
  by (simp add: marked_def)

lemma marked_frame [simp]: "rooms (marked S w) = rooms w" "creatures (marked S w) = creatures w" "banks (marked S w) = banks w"
  "players (marked S w) = players w" "prototypes (marked S w) = prototypes w" "clock (marked S w) = clock w"
  by (simp_all add: marked_def)

lemma marked_empty [simp]: "marked {} w = w"
proof -
  have "objects (marked {} w) = objects w"
    by (rule fmap_ext) (simp add: lookup_marked option.map_ident)
  then show ?thesis
    by (simp add: marked_def)
qed

lemma marked_insert:
  assumes "fmlookup (objects w) i = Some object"
  shows "(marked S w)\<lparr>objects := fmupd i (temp_perm (if i \<in> S then temp_perm object else object)) (objects (marked S w))\<rparr>
     = marked (insert i S) w"
proof -
  have "fmupd i (temp_perm (if i \<in> S then temp_perm object else object)) (objects (marked S w)) = objects (marked (insert i S) w)"
    by (rule fmap_ext) (auto simp: lookup_marked assms)
  then show ?thesis
    by (simp add: marked_def)
qed

lemma below_marked: "below w i = insert i (\<Union>c \<in> {c. container_of w c = Some i}. below w c)"
  if "fmlookup (objects w) i = Some object"
proof
  show "below w i \<subseteq> insert i (\<Union>c \<in> {c. container_of w c = Some i}. below w c)"
  proof
    fix j
    assume "j \<in> below w i"
    then have "inside w j i" and l: "loc w j \<noteq> None"
      by (simp_all add: below_def)
    from inside_last [OF this(1)] l show "j \<in> insert i (\<Union>c \<in> {c. container_of w c = Some i}. below w c)"
      unfolding below_def by blast
  qed
  show "insert i (\<Union>c \<in> {c. container_of w c = Some i}. below w c) \<subseteq> below w i"
    using that inside_child by (auto simp: below_def loc_None intro: inside_refl)
qed

lemma wf_contents: "well_held w \<Longrightarrow> wf {(c, i). container_of w c = Some i}"
proof (rule finite_acyclic_wf)
  have "{(c, i). container_of w c = Some i} \<subseteq> (\<lambda>c. (c, the (container_of w c))) ` fmdom' (objects w)"
  proof
    fix x
    assume "x \<in> {(c, i). container_of w c = Some i}"
    then obtain c i where x: "x = (c, i)" "container_of w c = Some i" by blast
    then have "c \<in> fmdom' (objects w)"
      unfolding container_of_lookup by (blast intro: fmdom'I)
    with x show "x \<in> (\<lambda>c. (c, the (container_of w c))) ` fmdom' (objects w)"
      by force
  qed
  then show "finite {(c, i). container_of w c = Some i}"
    by (rule finite_subset) simp
  assume wh: "well_held w"
  have "\<exists>k. container_of w i = Some k \<and> (k, j) \<in> {(c, i). container_of w c = Some i}\<^sup>*"
    if "(i, j) \<in> {(c, i). container_of w c = Some i}\<^sup>+" for i j
    using that by (auto dest: tranclD)
  moreover have "inside w i j" if "(i, j) \<in> {(c, i). container_of w c = Some i}\<^sup>*" for i j
    using that
  proof (induction rule: rtrancl_induct)
    case (step y z)
    then have "inside w y z"
      by (auto intro: inside_step inside_refl)
    with step.IH show ?case
      by (rule inside_trans)
  qed (rule inside_refl)
  ultimately show "acyclic {(c, i). container_of w c = Some i}"
    using acyclicD [OF wh] by (force simp: acyclic_def)
qed

lemma contents_iff:
  assumes "well_held w" and "fmlookup (objects w) i = Some object"
  shows "c \<in> set (ObjectIDs (Object_Contents object)) \<longleftrightarrow> container_of w c = Some i"
  using holders_agree_iff [OF well_heldD(1) [OF assms(1)], of c "InObject i"] assms
  by (simp add: refs_def well_held_container)

lemma mark_tree:
  assumes "well_held v" and v: "objects v = objects w"
  shows "playerDeathMarkTempPerm (i # todo) (marked S w) = playerDeathMarkTempPerm todo (marked (S \<union> below w i) w)"
proof -
  have cw: "container_of w = container_of v"
    by (rule ext) (simp add: container_of_def v)
  have wf: "wf {(c, i). container_of w c = Some i}"
    using wf_contents [OF assms(1)] by (simp add: cw)
  have contents: "c \<in> set (ObjectIDs (Object_Contents object)) \<longleftrightarrow> container_of w c = Some i"
    if "fmlookup (objects w) i = Some object" for c i object
    using contents_iff [OF assms(1)] that by (simp add: cw v)
  have held: "container_of w c \<noteq> Some i" if "fmlookup (objects w) i = None" for c i
  proof
    assume "container_of w c = Some i"
    then have "where_is v c = Some (InObject i)"
      by (simp add: well_held_container [OF assms(1)] cw)
    from holders_agree_exists [OF well_heldD(1) [OF assms(1)] this] that show False
      by (simp add: holder_exists_def v)
  qed
  show ?thesis
    using wf
  proof (induction i arbitrary: todo S rule: wf_induct_rule)
    case (less i)
    show ?case
    proof (cases "fmlookup (objects w) i")
      case None
      then have "j = i" if "inside w j i" for j
        using inside_last [OF that] held by blast
      then have "below w i = {}"
        using None by (auto simp: below_def loc_None)
      with None show ?thesis
        by (subst playerDeathMarkTempPerm.simps) (simp add: lookup_marked)
    next
      case (Some object)
      let ?cs = "ObjectIDs (Object_Contents object)"
      have list: "playerDeathMarkTempPerm (cs @ todo) (marked T w)
          = playerDeathMarkTempPerm todo (marked (T \<union> (\<Union>c \<in> set cs. below w c)) w)" if "set cs \<subseteq> set ?cs" for cs T
        using that
      proof (induction cs arbitrary: T)
        case (Cons c cs)
        have "(c, i) \<in> {(c, i). container_of w c = Some i}"
          using contents [OF Some] Cons.prems by simp
        from less.IH [OF this, of "cs @ todo" T] Cons.IH [of "T \<union> below w c"] Cons.prems show ?case
          by (simp add: Un_assoc)
      qed simp
      have "set ?cs = {c. container_of w c = Some i}"
        using contents [OF Some] by blast
      then have b: "insert i S \<union> (\<Union>c \<in> set ?cs. below w c) = S \<union> below w i"
        by (simp add: below_marked [OF Some])
      have m: "fmlookup (objects (marked S w)) i = Some (if i \<in> S then temp_perm object else object)"
        by (simp add: lookup_marked Some)
      have "playerDeathMarkTempPerm (i # todo) (marked S w)
          = playerDeathMarkTempPerm (?cs @ todo) ((marked S w)\<lparr>objects :=
              fmupd i (temp_perm (if i \<in> S then temp_perm object else object)) (objects (marked S w))\<rparr>)"
        by (subst playerDeathMarkTempPerm.simps) (simp add: m flip: temp_perm_def)
      then show ?thesis
        using list [of ?cs "insert i S"] unfolding marked_insert [OF Some] b by simp
    qed
qed
qed

lemma mark_returns:
  "well_held v \<Longrightarrow> objects v = objects w \<Longrightarrow> playerDeathMarkTempPerm [i] w = Some (marked (below w i) w)"
  using mark_tree [of v w i "[]" "{}"]
  by (simp add: playerDeathMarkTempPerm.simps [of "[]"])

subsection \<open>One worn object\<close>

text \<open>The world as it is once the creature the code works on is stored.\<close>

definition stored :: "Creature \<Rightarrow> World \<Rightarrow> World" where
  "stored creature w = w\<lparr>creatures := fmupd (Creature_ID creature) creature (creatures w)\<rparr>"

lemma stored_frame [simp]: "rooms (stored c w) = rooms w" "objects (stored c w) = objects w" "banks (stored c w) = banks w"
  "players (stored c w) = players w" "prototypes (stored c w) = prototypes w" "clock (stored c w) = clock w"
  by (simp_all add: stored_def)

lemma where_is_stored [simp]: "where_is (stored c w) i = where_is w i"
  by (simp add: where_is_def)

lemma container_of_stored [simp]: "container_of (stored c w) i = container_of w i"
  by (simp add: container_of_def)

lemma well_held_shift:
  assumes wh: "well_held w" and wi: "\<And>j. where_is w' j = (if j = i then Some h else where_is w j)"
    and r: "\<And>h' j. j \<in> set (refs w' h') \<longleftrightarrow> (if j = i then h' = h else j \<in> set (refs w h'))"
    and d: "\<And>h'. distinct (refs w' h')" and c: "\<And>j k. container_of w' j = Some k \<Longrightarrow> container_of w j = Some k"
    and l: "locations_valid w'"
  shows "well_held w'"
proof -
  have "holders_agree w'"
    using r d wi holders_agree_iff [OF well_heldD(1) [OF wh]] by (intro holders_agreeI) auto
  moreover have "containers_acyclic w'"
    using well_heldD(2) [OF wh] c by (rule containers_acyclic_mono)
  ultimately show ?thesis
    using l by (simp add: well_held_def)
qed

lemma append_once: "distinct xs \<Longrightarrow> distinct (appendIDOnce xs x) \<and> set (appendIDOnce xs x) = insert x (set xs)"
  by (auto simp: appendIDOnce_def)

definition worn :: "Creature \<Rightarrow> string \<Rightarrow> ObjectInstanceID" where
  "worn creature slot = mget [] (Creature_Equipment creature) slot"

definition shed :: "string \<Rightarrow> Creature \<Rightarrow> Creature" where
  "shed slot creature = creature\<lparr>Creature_Equipment := fmdrop slot (Creature_Equipment creature),
     Creature_Inventory := \<lparr>ObjectIDs = removeID (ObjectIDs (Creature_Inventory creature)) (worn creature slot)\<rparr>\<rparr>"

definition on_the_floor :: "RoomID \<Rightarrow> ObjectInstanceID \<Rightarrow> ObjectInstance \<Rightarrow> World \<Rightarrow> World" where
  "on_the_floor roomID i object w =
     w\<lparr>objects := fmupd i (object\<lparr>Object_Location := roomLocation roomID\<rparr>) (objects w),
       rooms := fmupd roomID ((mget zeroRoom (rooms w) roomID)
         \<lparr>Room_Objects := \<lparr>ObjectIDs = appendIDOnce (ObjectIDs (Room_Objects (mget zeroRoom (rooms w) roomID))) i\<rparr>\<rparr>) (rooms w)\<rparr>"

definition in_the_bag :: "CreatureID \<Rightarrow> ObjectInstanceID \<Rightarrow> ObjectInstance \<Rightarrow> World \<Rightarrow> World" where
  "in_the_bag c i object w = w\<lparr>objects := fmupd i (object\<lparr>Object_Location := inventoryLocation c\<rparr>) (objects w)\<rparr>"

definition bagged :: "ObjectInstanceID \<Rightarrow> Creature \<Rightarrow> Creature" where
  "bagged i creature = creature\<lparr>Creature_Inventory := \<lparr>ObjectIDs = appendIDOnce (ObjectIDs (Creature_Inventory creature)) i\<rparr>\<rparr>"

lemma Creature_ID_shed [simp]: "Creature_ID (shed slot c) = Creature_ID c" "Creature_ID (bagged i c) = Creature_ID c"
  by (simp_all add: shed_def bagged_def)

lemma shed_slot_eq:
  "shed_slot ord roomID pk slot (c, w) =
     (case fmlookup (objects w) (worn c slot) of
        None \<Rightarrow> Some (c, w)
      | Some object \<Rightarrow>
          if worn c slot = [] \<or> \<not> playerDeathReadyObjectDrops ord w object (playerDeathIsWieldSlot slot) then Some (c, w)
          else if playerDeathIsWieldSlot slot
          then map_option (\<lambda>w. (shed slot c, MarkRoomObjectsDirty roomID w))
                 (playerDeathMarkTempPerm [worn c slot] (on_the_floor roomID (worn c slot) object w))
          else if pk then Some (shed slot c, MarkRoomObjectsDirty roomID (on_the_floor roomID (worn c slot) object w))
          else Some (bagged (worn c slot) (shed slot c), in_the_bag (Creature_ID c) (worn c slot) object w))"
  by (simp add: shed_slot_def worn_def Let_def shed_def bagged_def on_the_floor_def in_the_bag_def split: option.split)

lemma refs_stored: "refs (stored c w) h = (if h = OnCreature (Creature_ID c) then ObjectIDs (Creature_Inventory c) else refs w h)"
  by (cases h) (auto simp: refs_def stored_def)

lemma well_held_shed_floor:
  assumes wh: "well_held (stored c w)" and o': "fmlookup (objects w) (worn c slot) = Some object"
    and at: "where_is w (worn c slot) = Some (OnCreature (Creature_ID c))" and r: "roomID \<noteq> []" "fmlookup (rooms w) roomID = Some room"
  shows "well_held (stored (shed slot c) (on_the_floor roomID (worn c slot) object w))"
    and "where_is (on_the_floor roomID (worn c slot) object w) j = (if j = worn c slot then Some (InRoom roomID) else where_is w j)"
proof -
  let ?i = "worn c slot" and ?v = "on_the_floor roomID (worn c slot) object w"
  have wi: "where_is ?v j = (if j = ?i then Some (InRoom roomID) else where_is w j)" for j
    using r by (simp add: where_is_def on_the_floor_def)
  then show "where_is ?v j = (if j = ?i then Some (InRoom roomID) else where_is w j)" .
  note agree = holders_agree_iff [OF well_heldD(1) [OF wh]] holders_agree_distinct [OF well_heldD(1) [OF wh]]
  have refs: "refs (stored (shed slot c) ?v) h
      = (if h = InRoom roomID then appendIDOnce (refs (stored c w) h) ?i
         else if h = OnCreature (Creature_ID c) then removeID (refs (stored c w) h) ?i else refs (stored c w) h)" for h
    by (cases h) (auto simp: stored_def refs_def on_the_floor_def shed_def r mget_def o')
  show "well_held (stored (shed slot c) ?v)"
  proof (rule well_held_shift [OF wh, of _ ?i "InRoom roomID"])
    show "where_is (stored (shed slot c) ?v) j = (if j = ?i then Some (InRoom roomID) else where_is (stored c w) j)" for j
      by (simp add: wi)
    show "distinct (refs (stored (shed slot c) ?v) h)" for h
      by (simp add: refs append_once list_out agree(2))
    show "j \<in> set (refs (stored (shed slot c) ?v) h) \<longleftrightarrow> (if j = ?i then h = InRoom roomID else j \<in> set (refs (stored c w) h))" for h j
      using agree(1) [of ?i h] at by (auto simp: refs append_once list_out agree(2))
    show "container_of (stored c w) j = Some k" if "container_of (stored (shed slot c) ?v) j = Some k" for j k
      using that by (auto simp: container_of_def on_the_floor_def roomLocation_def split: if_splits option.splits)
    show "locations_valid (stored (shed slot c) ?v)"
      using well_heldD(3) [OF wh] r by (auto simp: locations_valid_def on_the_floor_def)
  qed
qed

lemma well_held_shed_bag:
  assumes wh: "well_held (stored c w)" and o': "fmlookup (objects w) (worn c slot) = Some object"
    and at: "where_is w (worn c slot) = Some (OnCreature (Creature_ID c))" and c: "Creature_ID c \<noteq> []"
  shows "well_held (stored (bagged (worn c slot) (shed slot c)) (in_the_bag (Creature_ID c) (worn c slot) object w))"
    and "where_is (in_the_bag (Creature_ID c) (worn c slot) object w) j = where_is w j"
proof -
  let ?i = "worn c slot" and ?v = "in_the_bag (Creature_ID c) (worn c slot) object w" and ?c = "bagged (worn c slot) (shed slot c)"
  have wi: "where_is ?v j = where_is w j" for j
    using c at by (auto simp: where_is_def in_the_bag_def)
  then show "where_is ?v j = where_is w j" .
  note agree = holders_agree_iff [OF well_heldD(1) [OF wh]] holders_agree_distinct [OF well_heldD(1) [OF wh]]
  have refs: "refs (stored ?c ?v) h
      = (if h = OnCreature (Creature_ID c) then appendIDOnce (removeID (refs (stored c w) h) ?i) ?i else refs (stored c w) h)" for h
    by (cases h) (auto simp: stored_def refs_def in_the_bag_def shed_def bagged_def o')
  show "well_held (stored ?c ?v)"
  proof (rule well_held_shift [OF wh, of _ ?i "OnCreature (Creature_ID c)"])
    show "where_is (stored ?c ?v) j = (if j = ?i then Some (OnCreature (Creature_ID c)) else where_is (stored c w) j)" for j
      using at by (simp add: wi)
    show "distinct (refs (stored ?c ?v) h)" for h
      by (simp add: refs append_once list_out agree(2))
    show "j \<in> set (refs (stored ?c ?v) h) \<longleftrightarrow> (if j = ?i then h = OnCreature (Creature_ID c) else j \<in> set (refs (stored c w) h))" for h j
      using agree(1) [of ?i h] at by (auto simp: refs append_once list_out agree(2))
    show "container_of (stored c w) j = Some k" if "container_of (stored ?c ?v) j = Some k" for j k
      using that by (auto simp: container_of_def in_the_bag_def inventoryLocation_def split: if_splits option.splits)
    show "locations_valid (stored ?c ?v)"
      using well_heldD(3) [OF wh] c by (auto simp: locations_valid_def in_the_bag_def)
  qed
qed

subsection \<open>All that is worn\<close>

text \<open>What is worn is held by the creature, and nothing is worn twice.\<close>

definition wears :: "Creature \<Rightarrow> World \<Rightarrow> bool" where
  "wears c w \<longleftrightarrow>
     (\<forall>slot i. fmlookup (Creature_Equipment c) slot = Some i \<and> fmlookup (objects w) i \<noteq> None
        \<longrightarrow> where_is w i = Some (OnCreature (Creature_ID c)))
     \<and> (\<forall>s t i. fmlookup (Creature_Equipment c) s = Some i \<and> fmlookup (Creature_Equipment c) t = Some i \<and> i \<noteq> [] \<longrightarrow> s = t)"

definition shed_ready :: "RoomID \<Rightarrow> Creature \<Rightarrow> World \<Rightarrow> bool" where
  "shed_ready roomID c w \<longleftrightarrow> Creature_ID c \<noteq> [] \<and> roomID \<noteq> [] \<and> fmlookup (rooms w) roomID \<noteq> None
     \<and> well_held (stored c w) \<and> wears c w"

text \<open>The object of a slot comes off, and where it goes.\<close>

definition falls :: "(string fset \<Rightarrow> string list) \<Rightarrow> World \<Rightarrow> Creature \<Rightarrow> string \<Rightarrow> bool" where
  "falls ord w c slot \<longleftrightarrow> worn c slot \<noteq> []
     \<and> (case fmlookup (objects w) (worn c slot) of
          None \<Rightarrow> False | Some object \<Rightarrow> playerDeathReadyObjectDrops ord w object (playerDeathIsWieldSlot slot))"

definition fate :: "RoomID \<Rightarrow> bool \<Rightarrow> Creature \<Rightarrow> string \<Rightarrow> Holder" where
  "fate roomID pk c slot = (if playerDeathIsWieldSlot slot \<or> pk then InRoom roomID else OnCreature (Creature_ID c))"

text \<open>What one slot or several change besides: the lists of the room, and locations and tags of objects.\<close>

definition shed_frame :: "World \<Rightarrow> World \<Rightarrow> bool" where
  "shed_frame w w' \<longleftrightarrow> w' = w\<lparr>objects := objects w', rooms := rooms w', roomObjectDirty := roomObjectDirty w'\<rparr>
     \<and> (\<forall>j. map_option (\<lambda>object. object\<lparr>Object_Location := zeroLocation, Object_Metadata := noMetadata\<rparr>) (fmlookup (objects w') j)
          = map_option (\<lambda>object. object\<lparr>Object_Location := zeroLocation, Object_Metadata := noMetadata\<rparr>) (fmlookup (objects w) j))
     \<and> (\<forall>r. map_option (\<lambda>room. room\<lparr>Room_Objects := \<lparr>ObjectIDs = []\<rparr>\<rparr>) (fmlookup (rooms w') r)
          = map_option (\<lambda>room. room\<lparr>Room_Objects := \<lparr>ObjectIDs = []\<rparr>\<rparr>) (fmlookup (rooms w) r))"

definition undressed :: "Creature \<Rightarrow> Creature \<Rightarrow> bool" where
  "undressed c c' \<longleftrightarrow> c' = c\<lparr>Creature_Inventory := Creature_Inventory c', Creature_Equipment := Creature_Equipment c'\<rparr>"

definition shed_effect ::
  "(string fset \<Rightarrow> string list) \<Rightarrow> RoomID \<Rightarrow> bool \<Rightarrow> string set \<Rightarrow> Creature \<Rightarrow> World \<Rightarrow> Creature \<Rightarrow> World \<Rightarrow> bool" where
  "shed_effect ord roomID pk slots c w c' w' \<longleftrightarrow> shed_ready roomID c' w' \<and> shed_frame w w' \<and> undressed c c'
     \<and> Creature_Equipment c' = fmfilter (\<lambda>s. \<not> (s \<in> slots \<and> falls ord w c s)) (Creature_Equipment c)
     \<and> (\<forall>s \<in> slots. falls ord w c s \<longrightarrow> where_is w' (worn c s) = Some (fate roomID pk c s))
     \<and> (\<forall>j. (\<forall>s \<in> slots. falls ord w c s \<longrightarrow> worn c s \<noteq> j) \<longrightarrow> where_is w' j = where_is w j)
     \<and> (\<forall>s j. fmlookup (Creature_Equipment c') s = Some j \<longrightarrow> fmlookup (objects w') j = fmlookup (objects w) j)"

lemma drops_cong:
  assumes "prototypes w' = prototypes w"
  shows "playerDeathReadyObjectDrops ord w' object wield = playerDeathReadyObjectDrops ord w object wield"
  unfolding playerDeathReadyObjectDrops_def playerDeathObjectInt_def playerDeathObjectHasAnyFlag_def objectKindIs_cong [OF assms] assms ..

lemma shed_frame_refl [simp]: "shed_frame w w"
  by (simp add: shed_frame_def)

lemma shed_frame_trans:
  assumes "shed_frame u v" and "shed_frame v w"
  shows "shed_frame u w"
proof -
  have u: "v = u\<lparr>objects := objects v, rooms := rooms v, roomObjectDirty := roomObjectDirty v\<rparr>"
    using assms(1) unfolding shed_frame_def by blast
  have v: "w = v\<lparr>objects := objects w, rooms := rooms w, roomObjectDirty := roomObjectDirty w\<rparr>"
    using assms(2) unfolding shed_frame_def by blast
  have "w = u\<lparr>objects := objects w, rooms := rooms w, roomObjectDirty := roomObjectDirty w\<rparr>"
    by (subst v, subst u) simp
  with assms show ?thesis
    unfolding shed_frame_def by simp
qed

lemma shed_frame_prototypes: "shed_frame w w' \<Longrightarrow> prototypes w' = prototypes w"
proof -
  assume "shed_frame w w'"
  then have "w' = w\<lparr>objects := objects w', rooms := rooms w', roomObjectDirty := roomObjectDirty w'\<rparr>"
    unfolding shed_frame_def by blast
  then have "prototypes w' = prototypes (w\<lparr>objects := objects w', rooms := rooms w', roomObjectDirty := roomObjectDirty w'\<rparr>)"
    by (rule arg_cong)
  then show ?thesis by simp
qed

lemma undressed_trans: "undressed a b \<Longrightarrow> undressed b c \<Longrightarrow> undressed a c"
  unfolding undressed_def by (cases a, cases b, cases c) simp

lemma worn_lookup: "worn c s \<noteq> [] \<Longrightarrow> fmlookup (Creature_Equipment c) s = Some (worn c s)"
  by (simp add: worn_def mget_def split: option.splits)

lemma shed_effect_none: "shed_ready roomID c w \<Longrightarrow> (\<And>s. s \<in> slots \<Longrightarrow> \<not> falls ord w c s) \<Longrightarrow> shed_effect ord roomID pk slots c w c w"
  by (auto simp: shed_effect_def undressed_def intro!: fmap_ext)

lemma shed_frame_floor: "fmlookup (objects w) i = Some object \<Longrightarrow> fmlookup (rooms w) r \<noteq> None \<Longrightarrow> shed_frame w (on_the_floor r i object w)"
  by (auto simp: shed_frame_def on_the_floor_def mget_def)

lemma shed_frame_bag: "fmlookup (objects w) i = Some object \<Longrightarrow> shed_frame w (in_the_bag c i object w)"
  by (auto simp: shed_frame_def in_the_bag_def)

lemma shed_frame_mark: "shed_frame w (MarkRoomObjectsDirty r w)"
  by (simp add: shed_frame_def MarkRoomObjectsDirty_def)

lemma shed_frame_marked: "shed_frame w (marked S w)"
  by (auto simp: shed_frame_def lookup_marked marked_def temp_perm_def option.map_comp o_def intro!: option.map_cong)

text \<open>Nothing else that is worn lies inside the object that falls.\<close>

lemma below_not_held:
  assumes "well_held w" and "where_is w j = Some (OnCreature c)" and "j \<noteq> i"
  shows "j \<notin> below w i"
proof
  assume "j \<in> below w i"
  then have "inside w j i"
    by (simp add: below_def)
  then obtain k where "container_of w j = Some k"
    using assms(3) by (cases rule: inside.cases) auto
  with assms(1,2) show False
    by (simp add: well_held_container)
qed

lemma well_held_marked: "well_held (marked S w) = well_held w" "where_is (marked S w) = where_is w"
proof -
  have r: "refs (marked S w) h = refs w h" for h
    by (cases h) (auto simp: refs_def lookup_marked split: option.split)
  have l: "map_option Object_Location (fmlookup (objects (marked S w)) i) = map_option Object_Location (fmlookup (objects w) i)" for i
    by (auto simp: lookup_marked option.map_comp o_def intro!: option.map_cong)
  show "well_held (marked S w) = well_held w" "where_is (marked S w) = where_is w"
    using r l by (rule well_held_frame)+
qed

lemma stored_marked: "stored c (marked S w) = marked S (stored c w)"
  by (simp add: stored_def marked_def)

lemma stored_mark_room: "stored c (MarkRoomObjectsDirty r w) = MarkRoomObjectsDirty r (stored c w)"
  by (simp add: stored_def MarkRoomObjectsDirty_def)

lemma wearsD:
  assumes "wears c w"
  shows "fmlookup (Creature_Equipment c) slot = Some i \<Longrightarrow> fmlookup (objects w) i \<noteq> None \<Longrightarrow> where_is w i = Some (OnCreature (Creature_ID c))"
    and "fmlookup (Creature_Equipment c) s = Some i \<Longrightarrow> fmlookup (Creature_Equipment c) t = Some i \<Longrightarrow> i \<noteq> [] \<Longrightarrow> s = t"
  using assms unfolding wears_def by blast+

lemma shed_readyD:
  assumes "shed_ready roomID c w"
  shows "Creature_ID c \<noteq> []" "roomID \<noteq> []" "fmlookup (rooms w) roomID \<noteq> None" "well_held (stored c w)" "wears c w"
  using assms unfolding shed_ready_def by blast+

lemma fallsD:
  assumes "falls ord w c slot"
  obtains object where "fmlookup (objects w) (worn c slot) = Some object" "worn c slot \<noteq> []"
    "playerDeathReadyObjectDrops ord w object (playerDeathIsWieldSlot slot)"
  using assms unfolding falls_def by (auto split: option.splits)

text \<open>The parts of the effect of one slot that follow from where the objects are afterwards.\<close>

lemma shed_effect_one:
  assumes ready: "shed_ready roomID c w" and f: "falls ord w c slot" and id: "Creature_ID c' = Creature_ID c"
    and eq: "Creature_Equipment c' = fmdrop slot (Creature_Equipment c)" and u: "undressed c c'" and fr: "shed_frame w w'"
    and wh: "well_held (stored c' w')"
    and wi: "\<And>j. where_is w' j = (if j = worn c slot then Some (fate roomID pk c slot) else where_is w j)"
    and same: "\<And>j. j \<noteq> worn c slot \<Longrightarrow> where_is w j \<in> {None, Some (OnCreature (Creature_ID c))} \<Longrightarrow> fmlookup (objects w') j = fmlookup (objects w) j"
  shows "shed_effect ord roomID pk {slot} c w c' w'"
proof -
  note r = shed_readyD [OF ready]
  obtain object where o': "fmlookup (objects w) (worn c slot) = Some object" and ne: "worn c slot \<noteq> []"
    using f by (rule fallsD)
  have other: "j \<noteq> worn c slot" if "fmlookup (Creature_Equipment c') s = Some j" for s j
  proof
    assume "j = worn c slot"
    with that eq have "fmlookup (Creature_Equipment c) s = Some (worn c slot)" "s \<noteq> slot"
      by (simp_all split: if_splits)
    with wearsD(2) [OF r(5) _ worn_lookup [OF ne] ne] show False
      by blast
  qed
  have sub: "fmlookup (Creature_Equipment c') s = Some j \<Longrightarrow> fmlookup (Creature_Equipment c) s = Some j" for s j
    by (simp add: eq split: if_splits)
  have at: "where_is w j \<in> {None, Some (OnCreature (Creature_ID c))}" if "fmlookup (Creature_Equipment c) s = Some j" for s j
    using wearsD(1) [OF r(5) that] by (cases "fmlookup (objects w) j") (simp_all add: where_is_def)
  have keep: "fmlookup (objects w') j = fmlookup (objects w) j" if "fmlookup (Creature_Equipment c') s = Some j" for s j
    using same [OF other [OF that] at [OF sub [OF that]]] .
  have "wears c' w'"
    unfolding wears_def
  proof (intro conjI allI impI; elim conjE)
    fix s i
    assume s: "fmlookup (Creature_Equipment c') s = Some i" and "fmlookup (objects w') i \<noteq> None"
    then have "where_is w i = Some (OnCreature (Creature_ID c))"
      using wearsD(1) [OF r(5) sub [OF s]] keep [OF s] by simp
    then show "where_is w' i = Some (OnCreature (Creature_ID c'))"
      using other [OF s] by (simp add: wi id)
  next
    fix s t i
    assume "fmlookup (Creature_Equipment c') s = Some i" "fmlookup (Creature_Equipment c') t = Some i" "i \<noteq> []"
    then show "s = t"
      using wearsD(2) [OF r(5)] sub by blast
  qed
  moreover have "fmlookup (rooms w') roomID \<noteq> None"
  proof -
    have "map_option (\<lambda>room. room\<lparr>Room_Objects := \<lparr>ObjectIDs = []\<rparr>\<rparr>) (fmlookup (rooms w') roomID)
        = map_option (\<lambda>room. room\<lparr>Room_Objects := \<lparr>ObjectIDs = []\<rparr>\<rparr>) (fmlookup (rooms w) roomID)"
      using fr unfolding shed_frame_def by blast
    with r(3) show ?thesis
      by (cases "fmlookup (rooms w') roomID") auto
  qed
  ultimately have "shed_ready roomID c' w'"
    using r wh id by (simp add: shed_ready_def)
  moreover have "Creature_Equipment c' = fmfilter (\<lambda>s. \<not> (s \<in> {slot} \<and> falls ord w c s)) (Creature_Equipment c)"
    using f by (intro fmap_ext) (auto simp: eq)
  ultimately show ?thesis
    using fr u f wi keep by (auto simp: shed_effect_def)
qed

lemma shed_slot_step:
  assumes ready: "shed_ready roomID c w"
  shows "\<exists>c' w'. shed_slot ord roomID pk slot (c, w) = Some (c', w') \<and> shed_effect ord roomID pk {slot} c w c' w'"
proof (cases "falls ord w c slot")
  case False
  then have "shed_slot ord roomID pk slot (c, w) = Some (c, w)"
    by (auto simp: shed_slot_eq falls_def split: option.split)
  with shed_effect_none [OF ready, of "{slot}"] False show ?thesis
    by blast
next
  case True
  note r = shed_readyD [OF ready]
  let ?i = "worn c slot" and ?k = "playerDeathIsWieldSlot slot"
  obtain object where o': "fmlookup (objects w) ?i = Some object" and ne: "?i \<noteq> []"
    and d: "playerDeathReadyObjectDrops ord w object ?k"
    using True by (rule fallsD)
  have at: "where_is w ?i = Some (OnCreature (Creature_ID c))"
    using wearsD(1) [OF r(5) worn_lookup [OF ne]] o' by simp
  have eq: "Creature_Equipment (shed slot c) = fmdrop slot (Creature_Equipment c)"
    "Creature_Equipment (bagged ?i (shed slot c)) = fmdrop slot (Creature_Equipment c)"
    and un: "undressed c (shed slot c)" "undressed c (bagged ?i (shed slot c))"
    by (simp_all add: shed_def bagged_def undressed_def)
  show ?thesis
  proof (cases "?k \<or> pk")
    case floor: True
    let ?v = "on_the_floor roomID ?i object w"
    obtain room where room: "fmlookup (rooms w) roomID = Some room"
      using r(3) by blast
    note f = well_held_shed_floor [OF r(4) o' at r(2) room]
    let ?S = "if ?k then below ?v ?i else {}"
    let ?w = "MarkRoomObjectsDirty roomID (marked ?S ?v)"
    have run: "shed_slot ord roomID pk slot (c, w) = Some (shed slot c, ?w)"
      using floor ne d o' mark_returns [OF f(1), of ?v ?i] by (auto simp: shed_slot_eq)
    have "shed_effect ord roomID pk {slot} c w (shed slot c) ?w"
    proof (rule shed_effect_one [OF ready True _ eq(1) un(1)])
      show "shed_frame w ?w"
        using shed_frame_floor [OF o' r(3)] shed_frame_marked shed_frame_mark shed_frame_trans by blast
      show "well_held (stored (shed slot c) ?w)"
        using f(1) by (simp only: stored_mark_room well_held_marks stored_marked well_held_marked)
      show "where_is ?w j = (if j = ?i then Some (fate roomID pk c slot) else where_is w j)" for j
        using f(2) floor by (simp add: well_held_marked fate_def)
      show "fmlookup (objects ?w) j = fmlookup (objects w) j"
        if "j \<noteq> ?i" and j: "where_is w j \<in> {None, Some (OnCreature (Creature_ID c))}" for j
      proof (cases "fmlookup (objects w) j")
        case None
        with that show ?thesis by (simp add: lookup_marked on_the_floor_def)
      next
        case (Some p)
        with that have "where_is ?v j = Some (OnCreature (Creature_ID c))"
          using f(2) [of j] by (simp add: where_is_def)
        then have "j \<notin> below (stored (shed slot c) ?v) ?i"
          by (intro below_not_held [OF f(1)]) (simp_all add: that(1))
        moreover have "below (stored (shed slot c) ?v) ?i = below ?v ?i"
          using inside_cong_container [of "stored (shed slot c) ?v" ?v] by (simp add: below_def loc_def)
        ultimately show ?thesis
          using that(1) Some by (simp add: lookup_marked on_the_floor_def)
      qed
    qed simp
    with run show ?thesis by blast
  next
    case bag: False
    let ?v = "in_the_bag (Creature_ID c) ?i object w" and ?c = "bagged ?i (shed slot c)"
    note f = well_held_shed_bag [OF r(4) o' at r(1)]
    have run: "shed_slot ord roomID pk slot (c, w) = Some (?c, ?v)"
      using bag ne d o' by (simp add: shed_slot_eq)
    have "shed_effect ord roomID pk {slot} c w ?c ?v"
    proof (rule shed_effect_one [OF ready True _ eq(2) un(2) shed_frame_bag [OF o'] f(1)])
      show "where_is ?v j = (if j = ?i then Some (fate roomID pk c slot) else where_is w j)" for j
        using f(2) [of j] bag at by (simp add: fate_def)
    qed (simp_all add: in_the_bag_def)
    with run show ?thesis by blast
  qed
qed

lemma falls_after:
  assumes e: "shed_effect ord roomID pk {slot} c w c' w'" and "s \<noteq> slot"
  shows "falls ord w' c' s \<longleftrightarrow> falls ord w c s" "worn c' s = worn c s" "fate roomID pk c' s = fate roomID pk c s"
proof -
  have eq: "fmlookup (Creature_Equipment c') s = fmlookup (Creature_Equipment c) s"
    using e assms(2) by (simp add: shed_effect_def)
  then show w: "worn c' s = worn c s"
    by (simp add: worn_def mget_def)
  have "undressed c c'" and pr: "prototypes w' = prototypes w"
    using e shed_frame_prototypes by (simp_all add: shed_effect_def)
  then have "Creature_ID c' = Creature_ID c"
    unfolding undressed_def by (cases c, cases c') simp
  then show "fate roomID pk c' s = fate roomID pk c s"
    by (simp add: fate_def)
  show "falls ord w' c' s \<longleftrightarrow> falls ord w c s"
  proof (cases "worn c s = []")
    case False
    then have "fmlookup (Creature_Equipment c') s = Some (worn c s)"
      using eq worn_lookup by simp
    then have "fmlookup (objects w') (worn c s) = fmlookup (objects w) (worn c s)"
      using e unfolding shed_effect_def by blast
    then show ?thesis
      unfolding falls_def w drops_cong [OF pr] by simp
  qed (simp add: falls_def w)
qed

lemma shed_slots_run:
  assumes "distinct slots" and "shed_ready roomID c w"
  shows "\<exists>c' w'. shed_slots ord roomID pk slots (c, w) = Some (c', w') \<and> shed_effect ord roomID pk (set slots) c w c' w'"
  using assms
proof (induction slots arbitrary: c w)
  case Nil
  then show ?case
    using shed_effect_none [of roomID c w "{}"] by simp
next
  case (Cons slot slots)
  obtain c1 w1 where s: "shed_slot ord roomID pk slot (c, w) = Some (c1, w1)"
    and e: "shed_effect ord roomID pk {slot} c w c1 w1"
    using shed_slot_step [OF Cons.prems(2)] by blast
  have "shed_ready roomID c1 w1"
    using e by (simp add: shed_effect_def)
  then obtain c' w' where r: "shed_slots ord roomID pk slots (c1, w1) = Some (c', w')"
    and e': "shed_effect ord roomID pk (set slots) c1 w1 c' w'"
    using Cons by (meson distinct.simps(2))
  have later: "falls ord w1 c1 x \<longleftrightarrow> falls ord w c x" "worn c1 x = worn c x" "fate roomID pk c1 x = fate roomID pk c x"
    if "x \<in> set slots" for x
    using falls_after [OF e, of x] that Cons.prems(1) by auto
  have own: "worn c slot \<noteq> worn c x" if "falls ord w c slot" "x \<in> set slots" "falls ord w c x" for x
  proof
    assume same: "worn c slot = worn c x"
    have ne: "worn c slot \<noteq> []" "worn c x \<noteq> []"
      using that(1,3) by (simp_all add: falls_def)
    then have "fmlookup (Creature_Equipment c) x = Some (worn c slot)"
      using worn_lookup [of c x] same by simp
    then have "slot = x"
      using wearsD(2) [OF shed_readyD(5) [OF Cons.prems(2)] worn_lookup [OF ne(1)]] ne(1) by blast
    with that(2) Cons.prems(1) show False
      by simp
  qed
  have "shed_effect ord roomID pk (set (slot # slots)) c w c' w'"
    unfolding shed_effect_def
  proof (intro conjI)
    show "shed_ready roomID c' w'"
      using e' by (simp add: shed_effect_def)
    show "shed_frame w w'"
      using e e' shed_frame_trans unfolding shed_effect_def by blast
    show "undressed c c'"
      using e e' undressed_trans unfolding shed_effect_def by blast
    have eq: "Creature_Equipment c' = fmfilter (\<lambda>s. \<not> (s \<in> set slots \<and> falls ord w1 c1 s)) (Creature_Equipment c1)"
      "Creature_Equipment c1 = fmfilter (\<lambda>s. \<not> (s \<in> {slot} \<and> falls ord w c s)) (Creature_Equipment c)"
      using e e' unfolding shed_effect_def by blast+
    show "Creature_Equipment c' = fmfilter (\<lambda>s. \<not> (s \<in> set (slot # slots) \<and> falls ord w c s)) (Creature_Equipment c)"
      unfolding eq using later(1) by (intro fmap_ext) auto
    have keep1: "fmlookup (Creature_Equipment c1) s = Some j \<Longrightarrow> fmlookup (objects w1) j = fmlookup (objects w) j" for s j
      using e unfolding shed_effect_def by blast
    have keep': "fmlookup (Creature_Equipment c') s = Some j \<Longrightarrow> fmlookup (objects w') j = fmlookup (objects w1) j" for s j
      using e' unfolding shed_effect_def by blast
    show "\<forall>s j. fmlookup (Creature_Equipment c') s = Some j \<longrightarrow> fmlookup (objects w') j = fmlookup (objects w) j"
    proof (intro allI impI)
      fix s j
      assume s: "fmlookup (Creature_Equipment c') s = Some j"
      then have "fmlookup (Creature_Equipment c1) s = Some j"
        by (simp add: eq(1) split: if_splits)
      with s show "fmlookup (objects w') j = fmlookup (objects w) j"
        using keep1 keep' by simp
    qed
    have first: "falls ord w c slot \<Longrightarrow> where_is w1 (worn c slot) = Some (fate roomID pk c slot)"
      and still1: "\<And>j. (falls ord w c slot \<Longrightarrow> worn c slot \<noteq> j) \<Longrightarrow> where_is w1 j = where_is w j"
      using e unfolding shed_effect_def by blast+
    have rest: "\<And>s. s \<in> set slots \<Longrightarrow> falls ord w1 c1 s \<Longrightarrow> where_is w' (worn c1 s) = Some (fate roomID pk c1 s)"
      and still': "\<And>j. (\<And>s. s \<in> set slots \<Longrightarrow> falls ord w1 c1 s \<Longrightarrow> worn c1 s \<noteq> j) \<Longrightarrow> where_is w' j = where_is w1 j"
      using e' unfolding shed_effect_def by blast+
    show "\<forall>j. (\<forall>s \<in> set (slot # slots). falls ord w c s \<longrightarrow> worn c s \<noteq> j) \<longrightarrow> where_is w' j = where_is w j"
    proof (intro allI impI)
      fix j
      assume j: "\<forall>s \<in> set (slot # slots). falls ord w c s \<longrightarrow> worn c s \<noteq> j"
      then have "where_is w' j = where_is w1 j"
        by (intro still') (simp add: later)
      also have "\<dots> = where_is w j"
        using j by (intro still1) simp
      finally show "where_is w' j = where_is w j" .
    qed
    show "\<forall>s \<in> set (slot # slots). falls ord w c s \<longrightarrow> where_is w' (worn c s) = Some (fate roomID pk c s)"
    proof (intro ballI impI)
      fix s
      assume s: "s \<in> set (slot # slots)" and f: "falls ord w c s"
      show "where_is w' (worn c s) = Some (fate roomID pk c s)"
      proof (cases "s \<in> set slots")
        case True
        with rest [OF True] f show ?thesis by (simp add: later)
      next
        case False
        with s have [simp]: "s = slot" by simp
        have "where_is w' (worn c slot) = where_is w1 (worn c slot)"
          by (rule still') (use own [symmetric] f in \<open>simp add: later\<close>)
        with first f show ?thesis by simp
      qed
    qed
  qed
  with s r show ?case
    by (auto simp: bind_eq_Some_conv)
qed

lemma distinct_worn_slots: "distinct (worn_slots c)"
  using key_order_sorted by (simp add: worn_slots_def key_order_def)

text \<open>C21. What a dying player sheds: the worn objects that may fall come off, a wielded one, or any one when the killer
  is a player, to the floor of the room, the others into the inventory; nothing else moves, no object is lost or doubled,
  every object stays on exactly the list its location names, and the marking of the fallen objects and of what is in them
  ends.\<close>

theorem Death_sheds:
  assumes "well_held w" and "fmlookup (creatures w) k = Some c" and "Creature_ID c = k" and "k \<noteq> []"
    and "fmlookup (rooms w) roomID = Some room" and "roomID \<noteq> []" and "wears c w"
  shows "\<exists>c' w'. playerDeathProcessReadyObjects ord c roomID pk w = Some (c', w')
     \<and> well_held (w'\<lparr>creatures := fmupd k c' (creatures w')\<rparr>) \<and> fmdom (objects w') = fmdom (objects w)
     \<and> Creature_Equipment c' = fmfilter (\<lambda>s. \<not> (s \<in> set (worn_slots c) \<and> falls ord w c s)) (Creature_Equipment c)
     \<and> (\<forall>i. where_is w' i =
          (case find (\<lambda>s. falls ord w c s \<and> worn c s = i) (worn_slots c) of
             Some s \<Rightarrow> Some (if playerDeathIsWieldSlot s \<or> pk then InRoom roomID else OnCreature k)
           | None \<Rightarrow> where_is w i))"
proof -
  have "stored c w = w"
    using assms(2,3) by (simp add: stored_def fmupd_same)
  with assms have "shed_ready roomID c w"
    by (simp add: shed_ready_def)
  then obtain c' w' where run: "playerDeathProcessReadyObjects ord c roomID pk w = Some (c', w')"
    and e: "shed_effect ord roomID pk (set (worn_slots c)) c w c' w'"
    using shed_slots_run [OF distinct_worn_slots] unfolding playerDeathProcessReadyObjects_def by blast
  have id: "Creature_ID c' = k"
    using e assms(3) unfolding shed_effect_def undressed_def by (cases c, cases c') simp
  have wh: "well_held (stored c' w')"
    using e by (simp add: shed_effect_def shed_ready_def)
  have dom: "fmdom (objects w') = fmdom (objects w)"
  proof (rule fset_eqI)
    fix i
    have "map_option (\<lambda>object. object\<lparr>Object_Location := zeroLocation, Object_Metadata := noMetadata\<rparr>) (fmlookup (objects w') i)
        = map_option (\<lambda>object. object\<lparr>Object_Location := zeroLocation, Object_Metadata := noMetadata\<rparr>) (fmlookup (objects w) i)"
      using e unfolding shed_effect_def shed_frame_def by blast
    then show "i |\<in>| fmdom (objects w') \<longleftrightarrow> i |\<in>| fmdom (objects w)"
      by (cases "fmlookup (objects w') i"; cases "fmlookup (objects w) i") (auto simp: fmdomI fmdom_notI)
  qed
  have wi: "where_is w' i = (case find (\<lambda>s. falls ord w c s \<and> worn c s = i) (worn_slots c) of
             Some s \<Rightarrow> Some (fate roomID pk c s) | None \<Rightarrow> where_is w i)" for i
  proof (cases "find (\<lambda>s. falls ord w c s \<and> worn c s = i) (worn_slots c)")
    case None
    then have "\<forall>s \<in> set (worn_slots c). falls ord w c s \<longrightarrow> worn c s \<noteq> i"
      by (auto simp: find_None_iff)
    with e None show ?thesis
      by (simp add: shed_effect_def)
  next
    case (Some s)
    then have "s \<in> set (worn_slots c)" "falls ord w c s" "worn c s = i"
      by (auto simp: find_Some_iff)
    with e Some show ?thesis
      by (auto simp: shed_effect_def)
  qed
  have "well_held (w'\<lparr>creatures := fmupd k c' (creatures w')\<rparr>)"
    using wh by (simp add: stored_def id)
  moreover have "Creature_Equipment c' = fmfilter (\<lambda>s. \<not> (s \<in> set (worn_slots c) \<and> falls ord w c s)) (Creature_Equipment c)"
    using e unfolding shed_effect_def by blast
  moreover note dom wi [unfolded fate_def assms(3)]
  ultimately show ?thesis
    using run by blast
qed

theorem Death_sheds_witness:
  "\<exists>c' w'. playerDeathProcessReadyObjects sorted_list_of_fset demoCarrier ''r1'' True demoLoad = Some (c', w')
     \<and> where_is w' ''cloak'' = Some (InRoom ''r1'')"
proof -
  have id: "Creature_ID demoCarrier = ''c9''"
    by code_simp
  have room: "fmlookup (rooms demoLoad) ''r1'' \<noteq> None"
    by code_simp
  then obtain room where room: "fmlookup (rooms demoLoad) ''r1'' = Some room" by blast
  have slots: "worn_slots demoCarrier = [''body'']"
    by code_simp
  have falls: "falls sorted_list_of_fset demoLoad demoCarrier ''body''" "worn demoCarrier ''body'' = ''cloak''"
    by code_simp+
  have "Creature_Equipment demoCarrier = fmap_of_list [(''body'', ''cloak'')]"
    by code_simp
  moreover have "where_is demoLoad ''cloak'' = Some (OnCreature ''c9'')"
    by code_simp
  ultimately have "wears demoCarrier demoLoad"
    by (auto simp: wears_def id fmlookup_of_list split: if_splits)
  from Death_sheds [OF well_held_demoLoad demoCarrier(1) id _ room _ this, of sorted_list_of_fset True] show ?thesis
    by (auto simp: slots falls)
qed

end
