(* ===== verification/Flushes.thy ===== *)
theory Flushes
  imports Restores
begin

text \<open>
  The flushes of \<^verbatim>\<open>player_save.go\<close>: what a save of many keys promises, as a locale over one save, its instances
  for players, banks and rooms, and what this gives for the marks that ask for saving.
\<close>

subsection \<open>Saving many keys\<close>

locale flushing =
  fixes save :: "'k \<Rightarrow> 'd \<Rightarrow> go_error option \<times> 'd" and stored :: "'k \<Rightarrow> 'd \<Rightarrow> bool"
  assumes saved: "save k d = (None, d') \<Longrightarrow> stored k d'"
    and kept: "stored j d \<Longrightarrow> save k d = (e, d') \<Longrightarrow> stored j d'"
begin

lemma save_each_kept: "stored j d \<Longrightarrow> save_each save ks d = (e, s, d') \<Longrightarrow> stored j d'"
proof (induction ks arbitrary: d e s d')
  case (Cons k ks)
  obtain e1 d1 where 1: "save k d = (e1, d1)" by fastforce
  obtain e2 s2 d2 where 2: "save_each save ks d1 = (e2, s2, d2)" by (rule prod_cases3)
  have "d' = d2"
    using Cons.prems(2) 1 2 by (cases e1) simp_all
  then show ?case
    using Cons.IH [OF kept [OF Cons.prems(1) 1] 2] by simp
qed simp

lemma save_each_saved:
  "save_each save ks d = (e, s, d') \<Longrightarrow> set s \<subseteq> set ks \<and> (\<forall>k \<in> set s. stored k d') \<and> (e = None \<longrightarrow> s = ks)"
proof (induction ks arbitrary: d e s d')
  case (Cons k ks)
  obtain e1 d1 where 1: "save k d = (e1, d1)" by fastforce
  obtain e2 s2 d2 where 2: "save_each save ks d1 = (e2, s2, d2)" by (rule prod_cases3)
  have IH: "set s2 \<subseteq> set ks \<and> (\<forall>k \<in> set s2. stored k d2) \<and> (e2 = None \<longrightarrow> s2 = ks)"
    using Cons.IH [OF 2] .
  show ?case
  proof (cases e1)
    case None
    with Cons.prems 1 2 have "e = e2" "s = k # s2" "d' = d2" by simp_all
    moreover from None have "stored k d2"
      using save_each_kept [OF saved 2] 1 by simp
    ultimately show ?thesis
      using IH by auto
  next
    case (Some err)
    with Cons.prems 1 2 have "e = Some err" "s = s2" "d' = d2" by simp_all
    with IH show ?thesis by auto
  qed
qed simp

end

subsection \<open>Players\<close>

text \<open>
  The file of player \<open>p\<close> holds what the world of its save says of a player with this file.  \<open>snap p\<close> is the world in
  which \<open>p\<close> is saved; the directory is set once, at the start, so all have the same.
\<close>

definition player_stored ::
  "(PlayerSaveData \<Rightarrow> 'f) \<Rightarrow> (string fset \<Rightarrow> string list) \<Rightarrow> string \<Rightarrow> (PlayerID \<Rightarrow> World) \<Rightarrow> PlayerID \<Rightarrow> 'f disk \<Rightarrow> bool" where
  "player_stored enc ord root snap p disk \<longleftrightarrow> root = [] \<or> (\<exists>r. dbRoot (snap r) \<noteq> root) \<or>
     (\<exists>pl q ql. fmlookup (players (snap p)) p = Some pl \<and> fmlookup (players (snap q)) q = Some ql
        \<and> player_stem (Player_ID ql) = player_stem (Player_ID pl)
        \<and> (\<exists>k. safeSidecarStem k (player_stem (Player_ID pl)) = Inr (player_stem (Player_ID pl)))
        \<and> fmlookup (disk_files disk) (player_path root (player_stem (Player_ID pl))) = Some (enc (player_data ord (snap q) ql)))"

lemma player_path_eq:
  assumes "safeSidecarStem k name = Inr name" and "root \<noteq> []"
  shows "player_path root name = directory root [''player'', ''json''] @ name @ ''.json''"
proof -
  have "file_name (name @ ''.json'')"
    using safe_stem(2) [OF assms(1)] by (intro file_name_ext) (simp_all add: slash_def)
  then show ?thesis
    using Join_file [OF assms(2), of "[''player'', ''json'']" "name @ ''.json''"]
    by (simp add: player_path_def file_name_def slash_def)
qed

lemma writeAtomically_cases:
  "writeAtomically path content disk = (e, disk') \<Longrightarrow>
     disk' = disk \<or> disk' = disk\<lparr>disk_files := fmupd path content (disk_files disk)\<rparr>"
  by (auto simp: writeAtomically_def Let_def split: if_splits option.splits)

lemma SavePlayer_cases:
  assumes "SavePlayer enc harness ord pid w disk = (e, disk')"
  shows "disk' = disk \<or> (\<exists>pl. fmlookup (players w) pid = Some pl \<and> dbRoot w \<noteq> []
     \<and> safeSidecarStem ''player'' (player_stem (Player_ID pl)) = Inr (player_stem (Player_ID pl))
     \<and> disk' = disk\<lparr>disk_files := fmupd (player_path (dbRoot w) (player_stem (Player_ID pl))) (enc (player_data ord w pl)) (disk_files disk)\<rparr>)"
proof (cases "fmlookup (players w) pid")
  case None
  with assms show ?thesis by (simp add: SavePlayer_def)
next
  case (Some pl)
  let ?n = "player_stem (Player_ID pl)"
  show ?thesis
  proof (cases "safeSidecarStem ''player'' ?n")
    case (Inl err)
    with assms Some show ?thesis by (simp add: SavePlayer_def Let_def split: if_splits)
  next
    case (Inr name)
    then have "name = ?n" by (rule safe_stem(1))
    obtain e1 d1 where w: "WriteJSON enc (player_path (dbRoot w) ?n) (player_data ord w pl) disk = (e1, d1)" by fastforce
    have "dbRoot w = [] \<or> ?n = [] \<or> d1 = disk'"
      using assms Some Inr w \<open>name = ?n\<close> by (cases e1; cases "dbRoot w = []"; cases "?n = []") (simp_all add: SavePlayer_def Let_def)
    moreover have "disk' = disk" if "dbRoot w = [] \<or> ?n = []"
      using assms Some that by (auto simp: SavePlayer_def Let_def split: if_splits)
    ultimately show ?thesis
      using writeAtomically_cases [OF w [unfolded WriteJSON_def]] Some Inr \<open>name = ?n\<close> by auto
  qed
qed

interpretation players_flush: flushing "\<lambda>p. SavePlayer enc harness ord p (snap p)" "player_stored enc ord root snap"
  for enc harness ord root snap
proof
  fix p disk disk' assume s: "SavePlayer enc harness ord p (snap p) disk = (None, disk')"
  show "player_stored enc ord root snap p disk'"
  proof (cases "root = [] \<or> (\<exists>r. dbRoot (snap r) \<noteq> root)")
    case False
    then have "dbRoot (snap p) \<noteq> []" "dbRoot (snap p) = root" by auto
    from s this(1) show ?thesis
      by (rule SavePlayer_ok) (auto simp: player_stored_def \<open>dbRoot (snap p) = root\<close>)
  qed (use player_stored_def in blast)
next
  fix j disk k e disk'
  assume j: "player_stored enc ord root snap j disk" and s: "SavePlayer enc harness ord k (snap k) disk = (e, disk')"
  show "player_stored enc ord root snap j disk'"
  proof (cases "root = [] \<or> (\<exists>r. dbRoot (snap r) \<noteq> root)")
    case False
    then have root: "root \<noteq> []" "dbRoot (snap k) = root" by auto
    from SavePlayer_cases [OF s] consider "disk' = disk"
      | pk where "fmlookup (players (snap k)) k = Some pk"
          "safeSidecarStem ''player'' (player_stem (Player_ID pk)) = Inr (player_stem (Player_ID pk))"
          "disk' = disk\<lparr>disk_files := fmupd (player_path root (player_stem (Player_ID pk))) (enc (player_data ord (snap k) pk)) (disk_files disk)\<rparr>"
      unfolding root(2) by blast
    then show ?thesis
    proof cases
      case 2
      with j False obtain pl q ql c where pl: "fmlookup (players (snap j)) j = Some pl" "fmlookup (players (snap q)) q = Some ql"
        "player_stem (Player_ID ql) = player_stem (Player_ID pl)" "safeSidecarStem c (player_stem (Player_ID pl)) = Inr (player_stem (Player_ID pl))"
        "fmlookup (disk_files disk) (player_path root (player_stem (Player_ID pl))) = Some (enc (player_data ord (snap q) ql))"
        by (auto simp: player_stored_def)
      show ?thesis
      proof (cases "player_stem (Player_ID pk) = player_stem (Player_ID pl)")
        case True
        then have "fmlookup (disk_files disk') (player_path root (player_stem (Player_ID pl))) = Some (enc (player_data ord (snap k) pk))"
          using 2(3) by simp
        with True pl(1,4) 2(1) show ?thesis
          unfolding player_stored_def by blast
      next
        case False
        then have "player_path root (player_stem (Player_ID pk)) \<noteq> player_path root (player_stem (Player_ID pl))"
          using player_path_eq [OF 2(2) root(1)] player_path_eq [OF pl(4) root(1)] by simp
        then have "fmlookup (disk_files disk') (player_path root (player_stem (Player_ID pl))) = Some (enc (player_data ord (snap q) ql))"
          using 2(3) pl(5) by simp
        with pl show ?thesis
          unfolding player_stored_def by blast
      qed
    qed (use j in simp)
  qed (use player_stored_def in blast)
qed

subsection \<open>Banks\<close>

definition bank_name :: "BankAccount \<Rightarrow> BankID \<Rightarrow> string" where
  "bank_name b bid = (if Bank_OwnerName b = [] then bank_stem bid else Bank_OwnerName b)"

definition bank_stored :: "(BankSaveBundle \<Rightarrow> 'f) \<Rightarrow> string \<Rightarrow> (BankID \<Rightarrow> World) \<Rightarrow> BankID \<Rightarrow> 'f disk \<Rightarrow> bool" where
  "bank_stored enc root snap bid disk \<longleftrightarrow> root = [] \<or> (\<exists>r. dbRoot (snap r) \<noteq> root) \<or>
     (\<exists>b q c. fmlookup (banks (snap bid)) bid = Some b \<and> fmlookup (banks (snap q)) q = Some c \<and> bank_name c q = bank_name b bid
        \<and> (\<exists>k. safeSidecarStem k (bank_name b bid) = Inr (bank_name b bid))
        \<and> fmlookup (disk_files disk) (bank_path root (bank_name b bid)) = Some (enc (bank_data (snap q) c)))"

lemma SaveBank_cases:
  assumes "SaveBank enc bid w disk = (e, disk')"
  shows "disk' = disk \<or> (\<exists>b. fmlookup (banks w) bid = Some b \<and> dbRoot w \<noteq> []
     \<and> safeSidecarStem ''bank'' (bank_name b bid) = Inr (bank_name b bid)
     \<and> disk' = disk\<lparr>disk_files := fmupd (bank_path (dbRoot w) (bank_name b bid)) (enc (bank_data w b)) (disk_files disk)\<rparr>)"
proof (cases "fmlookup (banks w) bid")
  case None
  with assms show ?thesis by (simp add: SaveBank_def)
next
  case (Some b)
  let ?n = "bank_name b bid"
  have run: "SaveBank enc bid w disk =
     (if dbRoot w = [] then (Some (Errorf ''save bank %q: dbRoot is not set'' [bid]), disk)
      else case safeSidecarStem ''bank'' ?n of
           Inl err \<Rightarrow> (Some err, disk)
         | Inr name \<Rightarrow>
             (case WriteJSON enc (bank_path (dbRoot w) name) (bank_data w b) disk of
                (Some err, disk) \<Rightarrow> (Some (Wrapf ''save bank to JSON %q: %w'' [bank_path (dbRoot w) name] err), disk)
              | (None, disk) \<Rightarrow> (None, disk)))"
    using Some by (simp add: SaveBank_def Let_def bank_name_def)
  show ?thesis
  proof (cases "safeSidecarStem ''bank'' ?n")
    case (Inl err)
    with assms run show ?thesis by (simp split: if_splits)
  next
    case (Inr name)
    then have n: "name = ?n" by (rule safe_stem(1))
    obtain e1 d1 where w: "WriteJSON enc (bank_path (dbRoot w) ?n) (bank_data w b) disk = (e1, d1)" by fastforce
    have "dbRoot w \<noteq> [] \<Longrightarrow> d1 = disk'" "dbRoot w = [] \<Longrightarrow> disk' = disk"
      using assms run Inr w n by (cases e1; simp)+
    then show ?thesis
      using writeAtomically_cases [OF w [unfolded WriteJSON_def]] Some Inr n by auto
  qed
qed

interpretation banks_flush: flushing "\<lambda>bid. SaveBank enc bid (snap bid)" "bank_stored enc root snap" for enc root snap
proof
  fix bid disk disk' assume s: "SaveBank enc bid (snap bid) disk = (None, disk')"
  show "bank_stored enc root snap bid disk'"
  proof (cases "\<exists>r. dbRoot (snap r) \<noteq> root")
    case False
    then have root: "dbRoot (snap bid) = root" by auto
    from s show ?thesis
    proof (rule SaveBank_ok)
      fix b name
      assume b: "fmlookup (banks (snap bid)) bid = Some b" "safeSidecarStem ''bank'' name = Inr name"
        "name = (if Bank_OwnerName b = [] then bank_stem bid else Bank_OwnerName b)"
        "disk' = disk\<lparr>disk_files := fmupd (bank_path (dbRoot (snap bid)) name) (enc (bank_data (snap bid) b)) (disk_files disk)\<rparr>"
      have n: "name = bank_name b bid"
        using b(3) by (simp add: bank_name_def)
      have "fmlookup (disk_files disk') (bank_path root (bank_name b bid)) = Some (enc (bank_data (snap bid) b))"
        using b(4) n root by simp
      with b(1,2) n show ?thesis
        unfolding bank_stored_def by blast
    qed
  qed (use bank_stored_def in blast)
next
  fix j disk k e disk' assume j: "bank_stored enc root snap j disk" and s: "SaveBank enc k (snap k) disk = (e, disk')"
  show "bank_stored enc root snap j disk'"
  proof (cases "root = [] \<or> (\<exists>r. dbRoot (snap r) \<noteq> root)")
    case False
    then have root: "root \<noteq> []" "dbRoot (snap k) = root" by auto
    from SaveBank_cases [OF s] consider "disk' = disk"
      | b where "fmlookup (banks (snap k)) k = Some b" "safeSidecarStem ''bank'' (bank_name b k) = Inr (bank_name b k)"
          "disk' = disk\<lparr>disk_files := fmupd (bank_path root (bank_name b k)) (enc (bank_data (snap k) b)) (disk_files disk)\<rparr>"
      unfolding root(2) by blast
    then show ?thesis
    proof cases
      case 2
      from j False obtain a q c kind where a: "fmlookup (banks (snap j)) j = Some a" "fmlookup (banks (snap q)) q = Some c"
        "bank_name c q = bank_name a j" "safeSidecarStem kind (bank_name a j) = Inr (bank_name a j)"
        "fmlookup (disk_files disk) (bank_path root (bank_name a j)) = Some (enc (bank_data (snap q) c))"
        unfolding bank_stored_def by blast
      show ?thesis
      proof (cases "bank_name b k = bank_name a j")
        case True
        then have "fmlookup (disk_files disk') (bank_path root (bank_name a j)) = Some (enc (bank_data (snap k) b))"
          using 2(3) by simp
        with True a(1,4) 2(1) show ?thesis
          unfolding bank_stored_def by blast
      next
        case False
        then have "bank_path root (bank_name b k) \<noteq> bank_path root (bank_name a j)"
          using bank_path_eq [OF 2(2) root(1)] bank_path_eq [OF a(4) root(1)] by simp
        then have "fmlookup (disk_files disk') (bank_path root (bank_name a j)) = Some (enc (bank_data (snap q) c))"
          using 2(3) a(5) by simp
        with a show ?thesis
          unfolding bank_stored_def by blast
      qed
    qed (use j in simp)
  qed (use bank_stored_def in blast)
qed

subsection \<open>Different directories\<close>

lemma directory_snoc:
  "directory root (ds @ [d]) = directory root ds @ d @ [slash]"
  by (cases "path_elements root @ ds = []") (simp_all add: directory_def Let_def join_with_snoc append_assoc [symmetric] del: append_assoc)

lemma player_not_bank:
  assumes "safeSidecarStem k n = Inr n" and "safeSidecarStem k' m = Inr m" and "root \<noteq> []"
  shows "player_path root n \<noteq> bank_path root m"
proof -
  have "directory root [''player'', ''json''] = directory root [''player''] @ ''json/''"
    using directory_snoc [of root "[''player'']" "''json''"] by (simp add: slash_def)
  moreover have "directory root [''player'', ''bank'', ''json''] = directory root [''player''] @ ''bank/'' @ ''json/''"
    using directory_snoc [of root "[''player'', ''bank'']" "''json''"] directory_snoc [of root "[''player'']" "''bank''"]
    by (simp add: slash_def)
  ultimately show ?thesis
    by (simp add: player_path_eq [OF assms(1,3)] bank_path_eq [OF assms(2,3)])
qed

lemma player_stored_SaveBank:
  assumes "player_stored enc ord root snap p disk" and "SaveBank encb bid w disk = (e, disk')" and "dbRoot w = root"
  shows "player_stored enc ord root snap p disk'"
proof (cases "root = [] \<or> (\<exists>r. dbRoot (snap r) \<noteq> root)")
  case False
  from SaveBank_cases [OF assms(2)] consider "disk' = disk"
    | b where "safeSidecarStem ''bank'' (bank_name b bid) = Inr (bank_name b bid)"
        "disk' = disk\<lparr>disk_files := fmupd (bank_path root (bank_name b bid)) (encb (bank_data w b)) (disk_files disk)\<rparr>"
    unfolding assms(3) by blast
  then show ?thesis
  proof cases
    case 2
    from assms(1) False obtain pl q ql k where pl: "fmlookup (players (snap p)) p = Some pl" "fmlookup (players (snap q)) q = Some ql"
      "player_stem (Player_ID ql) = player_stem (Player_ID pl)" "safeSidecarStem k (player_stem (Player_ID pl)) = Inr (player_stem (Player_ID pl))"
      "fmlookup (disk_files disk) (player_path root (player_stem (Player_ID pl))) = Some (enc (player_data ord (snap q) ql))"
      by (auto simp: player_stored_def)
    have "fmlookup (disk_files disk') (player_path root (player_stem (Player_ID pl))) = Some (enc (player_data ord (snap q) ql))"
      using pl(5) False player_not_bank [OF pl(4) 2(1), of root] by (auto simp: 2(2))
    with pl show ?thesis
      unfolding player_stored_def by blast
  qed (use assms(1) in simp)
qed (use player_stored_def in blast)

lemma player_stored_SaveBanks:
  "player_stored enc ord root snap p disk \<Longrightarrow> save_each (\<lambda>bid. SaveBank encb bid (snapb bid)) bids disk = (e, s, disk')
     \<Longrightarrow> (\<And>b. dbRoot (snapb b) = root) \<Longrightarrow> player_stored enc ord root snap p disk'"
proof (induction bids arbitrary: disk e s)
  case (Cons bid bids)
  obtain e1 d1 where 1: "SaveBank encb bid (snapb bid) disk = (e1, d1)" by fastforce
  obtain e2 s2 d2 where 2: "save_each (\<lambda>bid. SaveBank encb bid (snapb bid)) bids d1 = (e2, s2, d2)" by (rule prod_cases3)
  have "d2 = disk'"
    using Cons.prems(2) 1 2 by (cases e1) simp_all
  with 2 Cons.IH [OF player_stored_SaveBank [OF Cons.prems(1) 1 Cons.prems(3)] _ Cons.prems(3)] show ?case by simp
qed simp

subsection \<open>Marks\<close>

lemma unmark_lookup: "fmlookup (unmark ks m) k = (if k \<in> set ks then None else fmlookup m k)"
  unfolding unmark_def by (induction ks arbitrary: m) auto

lemma marked_since_iff: "key_order ord \<Longrightarrow> k \<in> set (marked_since ord since m) \<longleftrightarrow> (\<exists>t. fmlookup m k = Some t \<and> since \<le> t)"
  by (auto simp: marked_since_def set_key_order mget_def split: option.splits intro: fmdomI)

lemma FlushDirty_run:
  assumes "FlushDirtyPlayersAndBanks encp encb harness ord since marked atPlayer atBank after disk = (err, w', disk')"
  obtains errP savedP d1 errB savedB
  where "save_each (\<lambda>p. SavePlayer encp harness ord p (atPlayer p)) (marked_since ord since (playerDirty marked)) disk = (errP, savedP, d1)"
    "save_each (\<lambda>bid. SaveBank encb bid (atBank bid)) (marked_since ord since (bankDirty marked)) d1 = (errB, savedB, disk')"
    "err = first_error errP errB" "w' = unmark_saved savedP savedB after"
proof -
  obtain errP savedP d1 where 1: "save_each (\<lambda>p. SavePlayer encp harness ord p (atPlayer p)) (marked_since ord since (playerDirty marked)) disk
      = (errP, savedP, d1)" by (rule prod_cases3)
  obtain errB savedB d2 where 2: "save_each (\<lambda>bid. SaveBank encb bid (atBank bid)) (marked_since ord since (bankDirty marked)) d1
      = (errB, savedB, d2)" by (rule prod_cases3)
  have "err = first_error errP errB" "w' = unmark_saved savedP savedB after" "d2 = disk'"
    using assms by (simp_all add: FlushDirtyPlayersAndBanks_def save_marked_def 1 2)
  with 1 2 that show ?thesis by blast
qed

lemma player_stored_keyed:
  assumes "player_stored enc ord root snap p disk" and "root \<noteq> []" and "\<forall>q. dbRoot (snap q) = root" and "\<forall>q. keyed (snap q)"
    and "\<forall>q r. fmlookup (players (snap q)) q \<noteq> None \<longrightarrow> fmlookup (players (snap r)) r \<noteq> None \<longrightarrow> player_stem q = player_stem r \<longrightarrow> q = r"
  shows "\<exists>pl. fmlookup (players (snap p)) p = Some pl
     \<and> fmlookup (disk_files disk) (player_path root (player_stem p)) = Some (enc (player_data ord (snap p) pl))"
proof -
  obtain pl q ql where pl: "fmlookup (players (snap p)) p = Some pl" "fmlookup (players (snap q)) q = Some ql"
    "player_stem (Player_ID ql) = player_stem (Player_ID pl)"
    "fmlookup (disk_files disk) (player_path root (player_stem (Player_ID pl))) = Some (enc (player_data ord (snap q) ql))"
    using assms(1-3) by (auto simp: player_stored_def)
  have "Player_ID pl = p" "Player_ID ql = q"
    using keyedD(1) [OF assms(4) [rule_format]] pl(1,2) by auto
  moreover from this have "q = p"
    using assms(5) pl(1-3) by auto
  ultimately show ?thesis
    using pl by auto
qed

lemma bank_stored_named:
  assumes "bank_stored enc root snap bid disk" and "root \<noteq> []" and "\<forall>q. dbRoot (snap q) = root"
    and "\<forall>bid b q c. fmlookup (banks (snap bid)) bid = Some b \<longrightarrow> fmlookup (banks (snap q)) q = Some c
        \<longrightarrow> bank_name c q = bank_name b bid \<longrightarrow> q = bid"
  shows "\<exists>b. fmlookup (banks (snap bid)) bid = Some b
     \<and> fmlookup (disk_files disk) (bank_path root (bank_name b bid)) = Some (enc (bank_data (snap bid) b))"
proof -
  obtain b q c where b: "fmlookup (banks (snap bid)) bid = Some b" "fmlookup (banks (snap q)) q = Some c" "bank_name c q = bank_name b bid"
    "fmlookup (disk_files disk) (bank_path root (bank_name b bid)) = Some (enc (bank_data (snap q) c))"
    using assms(1-3) unfolding bank_stored_def by blast
  moreover have "q = bid"
    using assms(4) b(1-3) by blast
  ultimately show ?thesis by auto
qed

text \<open>C1. A flush of the marked players and banks reads the marks, saves, and removes the marks of what was saved, and
  other operations may run between any two of these steps (but none that writes files).  A mark is removed only when it
  was there when the marks were read, was as young as asked for (its time at least \<open>since\<close>), and the file of the player
  or bank holds, after the flush, what the world said of it when it was saved; an older mark, and the mark of a failed
  save, is left as it is; nothing else of the world is changed.  Without an error no mark that was read and as young as
  asked for is left.  This has the limit that it is by key and not by time: a mark set again between the save and the
  removal is removed too, and the file then holds the state at the save.  (One directory; no two players and no two banks
  with one file name.)\<close>

theorem Flush_clears_only_saved:
  assumes flush: "FlushDirtyPlayersAndBanks encp encb harness ord since marked atPlayer atBank after disk = (err, w', disk')"
    and ord: "key_order ord" and root: "root \<noteq> []" "\<forall>p. dbRoot (atPlayer p) = root" "\<forall>b. dbRoot (atBank b) = root"
    and keyed: "\<forall>p. keyed (atPlayer p)"
    and stems: "\<forall>p q. fmlookup (players (atPlayer p)) p \<noteq> None \<longrightarrow> fmlookup (players (atPlayer q)) q \<noteq> None
        \<longrightarrow> player_stem p = player_stem q \<longrightarrow> p = q"
    and names: "\<forall>bid b q c. fmlookup (banks (atBank bid)) bid = Some b \<longrightarrow> fmlookup (banks (atBank q)) q = Some c
        \<longrightarrow> bank_name c q = bank_name b bid \<longrightarrow> q = bid"
  shows "(\<forall>p. fmlookup (playerDirty w') p = fmlookup (playerDirty after) p
            \<or> (fmlookup (playerDirty w') p = None
               \<and> (\<exists>t pl. fmlookup (playerDirty marked) p = Some t \<and> since \<le> t \<and> fmlookup (players (atPlayer p)) p = Some pl
                    \<and> fmlookup (disk_files disk') (player_path root (player_stem p)) = Some (encp (player_data ord (atPlayer p) pl)))))
     \<and> (\<forall>bid. fmlookup (bankDirty w') bid = fmlookup (bankDirty after) bid
            \<or> (fmlookup (bankDirty w') bid = None
               \<and> (\<exists>t b. fmlookup (bankDirty marked) bid = Some t \<and> since \<le> t \<and> fmlookup (banks (atBank bid)) bid = Some b
                    \<and> fmlookup (disk_files disk') (bank_path root (bank_name b bid)) = Some (encb (bank_data (atBank bid) b)))))
     \<and> (err = None \<longrightarrow>
          (\<forall>p t. fmlookup (playerDirty marked) p = Some t \<longrightarrow> since \<le> t \<longrightarrow> fmlookup (playerDirty w') p = None)
          \<and> (\<forall>bid t. fmlookup (bankDirty marked) bid = Some t \<longrightarrow> since \<le> t \<longrightarrow> fmlookup (bankDirty w') bid = None))
     \<and> w' = after\<lparr>playerDirty := playerDirty w', bankDirty := bankDirty w'\<rparr>"
proof -
  obtain errP savedP d1 errB savedB
    where P: "save_each (\<lambda>p. SavePlayer encp harness ord p (atPlayer p)) (marked_since ord since (playerDirty marked)) disk = (errP, savedP, d1)"
      and B: "save_each (\<lambda>bid. SaveBank encb bid (atBank bid)) (marked_since ord since (bankDirty marked)) d1 = (errB, savedB, disk')"
      and err: "err = first_error errP errB" and w': "w' = unmark_saved savedP savedB after"
    using flush by (rule FlushDirty_run)
  note p = players_flush.save_each_saved [OF P, where root = root] and b = banks_flush.save_each_saved [OF B, where root = root]
  have marks: "fmlookup (playerDirty w') k = (if k \<in> set savedP then None else fmlookup (playerDirty after) k)"
    "fmlookup (bankDirty w') k' = (if k' \<in> set savedB then None else fmlookup (bankDirty after) k')" for k k'
    by (simp_all add: w' unmark_saved_def unmark_lookup)
  have player: "\<exists>pl. fmlookup (players (atPlayer k)) k = Some pl
      \<and> fmlookup (disk_files disk') (player_path root (player_stem k)) = Some (encp (player_data ord (atPlayer k) pl))"
    if k: "k \<in> set savedP" for k
  proof (rule player_stored_keyed [OF _ root(1,2) keyed stems])
    show "player_stored encp ord root atPlayer k disk'"
      using p k player_stored_SaveBanks [OF _ B root(3) [rule_format]] by blast
  qed
  have bank: "\<exists>a. fmlookup (banks (atBank k)) k = Some a
      \<and> fmlookup (disk_files disk') (bank_path root (bank_name a k)) = Some (encb (bank_data (atBank k) a))"
    if k: "k \<in> set savedB" for k
  proof (rule bank_stored_named [OF _ root(1,3) names])
    show "bank_stored encb root atBank k disk'"
      using b k by blast
  qed
  have old: "k \<in> set savedP \<Longrightarrow> \<exists>t. fmlookup (playerDirty marked) k = Some t \<and> since \<le> t"
    "k' \<in> set savedB \<Longrightarrow> \<exists>t. fmlookup (bankDirty marked) k' = Some t \<and> since \<le> t" for k k'
    using p b marked_since_iff [OF ord] by blast+
  have "(\<forall>p t. fmlookup (playerDirty marked) p = Some t \<longrightarrow> since \<le> t \<longrightarrow> fmlookup (playerDirty w') p = None)
      \<and> (\<forall>bid t. fmlookup (bankDirty marked) bid = Some t \<longrightarrow> since \<le> t \<longrightarrow> fmlookup (bankDirty w') bid = None)"
    if "err = None"
  proof -
    have "errP = None" "errB = None"
      using that err by (auto simp: first_error_def split: option.splits)
    then have s: "savedP = marked_since ord since (playerDirty marked)" "savedB = marked_since ord since (bankDirty marked)"
      using p b by simp_all
    show ?thesis
      unfolding marks s by (simp add: marked_since_iff [OF ord])
  qed
  moreover have "w' = after\<lparr>playerDirty := playerDirty w', bankDirty := bankDirty w'\<rparr>"
    by (simp add: w' unmark_saved_def)
  ultimately show ?thesis
    unfolding marks using player bank old by auto
qed

text \<open>The limit is real: a player that is marked again after its save loses the new mark.\<close>

lemma Flush_race:
  assumes "SavePlayer encp harness ord pid (atPlayer pid) disk = (None, disk')" and "pid \<noteq> []"
  shows "save_marked encp encb harness ord [pid] [] atPlayer atBank disk = (None, [pid], [], disk')"
    and "fmlookup (playerDirty (unmark_saved [pid] [] (MarkPlayerDirty pid changed))) pid = None"
  using assms by (simp_all add: save_marked_def first_error_def unmark_saved_def unmark_lookup)

subsection \<open>Witnesses\<close>

definition demoDisk :: "'f disk" where
  "demoDisk = \<lparr>disk_files = fmempty, disk_fault = \<lambda>path. None, disk_unreadable = \<lambda>path. None, disk_mkdir = \<lambda>path. None\<rparr>"

text \<open>A player that carries a bag with a gem in it and wears a sword, and its account that holds a chest with a coin in it.\<close>

definition demoThing :: "ObjectInstanceID \<Rightarrow> ObjectInstanceID list \<Rightarrow> ObjectLocation \<Rightarrow> ObjectInstance" where
  "demoThing i cs l = zeroObject\<lparr>Object_ID := i, Object_Contents := \<lparr>ObjectIDs = cs\<rparr>, Object_Location := l,
     Object_Properties := fmap_of_list [(''name'', i)]\<rparr>"

definition demoAccount :: BankAccount where
  "demoAccount = zeroBank\<lparr>Bank_ID := ''bank:player:p9'', Bank_OwnerName := ''p9'', Bank_Objects := \<lparr>ObjectIDs = [''chest'']\<rparr>\<rparr>"

definition demoBearer :: Creature where
  "demoBearer = demoHero\<lparr>Creature_Inventory := \<lparr>ObjectIDs = [''bag'']\<rparr>, Creature_Equipment := fmap_of_list [(''wield'', ''sword'')]\<rparr>"

definition demoList :: "ObjectInstance list" where
  "demoList = [demoThing ''bag'' [''gem''] (inventoryLocation ''c9''), demoThing ''gem'' [] (containerLocation ''bag''),
     demoThing ''sword'' [] ((inventoryLocation ''c9'')\<lparr>Loc_Slot := ''wield''\<rparr>),
     demoThing ''chest'' [''coin''] (bankLocation ''bank:player:p9'' ''bank''), demoThing ''coin'' [] (containerLocation ''chest'')]"

definition demoThings :: "(ObjectInstanceID, ObjectInstance) fmap" where
  "demoThings = fmap_of_list (map (\<lambda>q. (Object_ID q, q)) demoList)"

definition demoCity :: World where
  "demoCity = demoTown\<lparr>dbRoot := ''/srv'', playerDirty := fmap_of_list [(''p9'', 5)],
     creatures := fmupd ''c9'' demoBearer (creatures demoTown), objects := demoThings,
     banks := fmap_of_list [(''bank:player:p9'', demoAccount)]\<rparr>"

lemma demoCity_fields:
  "players demoCity = players demoTown" "rooms demoCity = rooms demoTown"
  "fmlookup (creatures demoCity) k = (if k = ''c9'' then Some demoBearer else fmlookup (creatures demoTown) k)"
  "objects demoCity = demoThings" "dbRoot demoCity = ''/srv''" "bankDirty demoCity = fmempty"
  "fmlookup (playerDirty demoCity) p = (if p = ''p9'' then Some 5 else None)"
  "fmlookup (banks demoCity) b = (if b = ''bank:player:p9'' then Some demoAccount else None)"
  by (simp_all add: demoCity_def demoTown_def emptyWorld_def fmlookup_of_list)

lemma demoThing_fields:
  "Object_ID (demoThing i cs l) = i" "ObjectIDs (Object_Contents (demoThing i cs l)) = cs" "Object_Location (demoThing i cs l) = l"
  by (simp_all add: demoThing_def)

lemma demoThings_lookup:
  "fmlookup demoThings ''bag'' = Some (demoThing ''bag'' [''gem''] (inventoryLocation ''c9''))"
  "fmlookup demoThings ''gem'' = Some (demoThing ''gem'' [] (containerLocation ''bag''))"
  "fmlookup demoThings ''sword'' = Some (demoThing ''sword'' [] ((inventoryLocation ''c9'')\<lparr>Loc_Slot := ''wield''\<rparr>))"
  "fmlookup demoThings ''chest'' = Some (demoThing ''chest'' [''coin''] (bankLocation ''bank:player:p9'' ''bank''))"
  "fmlookup demoThings ''coin'' = Some (demoThing ''coin'' [] (containerLocation ''chest''))"
  "fmlookup demoThings [] = None"
  by (simp_all add: demoThings_def demoList_def demoThing_fields fmlookup_of_list)

lemma demoCity_ok: "keyed demoCity" "object_ids demoCity"
proof -
  have "Creature_ID demoBearer = ''c9''"
    by (simp add: demoBearer_def demoHero_def)
  then show "keyed demoCity"
    using in_order_demoTown by (auto simp: in_order_def seated_def keyed_def demoCity_fields)
  show "object_ids demoCity"
    by (auto simp: object_ids_def demoCity_fields demoThings_def fmlookup_of_list dest: map_of_SomeD)
qed

text \<open>All texts of the example are valid; its codec refuses a record with other texts.\<close>

definition demoDec :: "('d \<Rightarrow> string set) \<Rightarrow> 'd \<Rightarrow> 'd result" where
  "demoDec texts d = (if \<forall>t \<in> texts d. ValidString t then Inr d else Inl (Sentinel ''invalid''))"

lemma demo_valid: "\<forall>t \<in> set [[], ''bag'', ''gem'', ''sword'', ''chest'', ''coin'', ''c9'', ''p9'', ''Ann'', ''ann'', ''r1'', ''bank:player:p9'', ''bank'',
   ''inventory'', ''wield'', ''name'', CreatureKindPlayer, ''hpCurrent'', ''experience'']. ValidString t"
  by code_simp

lemma fmran_single: "fmran' (fmupd a b fmempty) = {b}"
  by (auto simp: fmran'_def split: if_splits)

lemma demoThing_texts:
  "object_texts (demoThing i cs l) \<subseteq>
     {i, [], ''name'', Loc_RoomID l, Loc_CreatureID l, Loc_BankID l, Loc_ContainerID l, Loc_Slot l} \<union> set cs"
  by (auto simp: demoThing_def texts_defs zeroObject_def noMetadata_def fmran_single)

lemma demoList_texts: "q \<in> set demoList \<Longrightarrow> object_texts q \<subseteq> {[], ''bag'', ''gem'', ''sword'', ''chest'', ''coin'', ''c9'',
    ''bank:player:p9'', ''bank'', ''inventory'', ''wield'', ''name''}"
  unfolding demoList_def inventoryLocation_def containerLocation_def bankLocation_def
  by (auto dest!: demoThing_texts [THEN subsetD])

lemma demoThings_valid: "fmlookup demoThings i = Some q \<Longrightarrow> \<forall>t \<in> object_texts q. ValidString t"
proof -
  assume "fmlookup demoThings i = Some q"
  then have "q \<in> set demoList"
    by (auto simp: demoThings_def fmlookup_of_list dest: map_of_SomeD)
  with demo_valid show ?thesis
    by (auto dest!: demoList_texts [THEN subsetD])
qed

lemma demo_player_texts: "\<forall>t \<in> player_save_texts (player_data sorted_list_of_fset demoCity demoAnn). ValidString t"
proof -
  let ?save = "player_data sorted_list_of_fset demoCity demoAnn"
  have "\<forall>t \<in> object_texts q. ValidString t" if "q \<in> set (PSave_Objects ?save)" for q
    using that player_data_objects(2) [OF key_order_sorted demoCity_ok(2)] demoThings_valid demoCity_fields(4) by metis
  moreover have "PSave_Player ?save = demoAnn" "PSave_Creature ?save = Some demoBearer"
    by (simp_all add: player_data_fields body_of_def demoAnn_def demoCity_fields)
  moreover have "\<forall>t \<in> player_texts demoAnn. ValidString t"
    using demo_valid by (auto simp: texts_defs demoAnn_def noMetadata_def)
  moreover have "\<forall>t \<in> creature_texts demoBearer. ValidString t"
    using demo_valid by (auto simp: texts_defs demoBearer_def demoHero_def zeroCreature_def noMetadata_def fmran_single)
  ultimately show ?thesis
    by (auto simp: player_save_texts_def)
qed

lemma demo_bank_texts: "\<forall>t \<in> bank_save_texts (bank_data demoCity demoAccount). ValidString t"
proof -
  have "fmlookup (objects demoCity) [] = None"
    by (simp add: demoCity_fields demoThings_lookup)
  then have "\<forall>t \<in> object_texts q. ValidString t" if "q \<in> set (BSave_Objects (bank_data demoCity demoAccount))" for q
    using that bank_objects(2) [OF demoCity_ok(2)] demoThings_valid demoCity_fields(4) by metis
  moreover have "\<forall>t \<in> bank_texts demoAccount. ValidString t"
    using demo_valid by (auto simp: texts_defs demoAccount_def zeroBank_def noMetadata_def)
  ultimately show ?thesis
    by (auto simp: bank_save_texts_def bank_data_def)
qed

lemma demo_names: "safeSidecarStem ''player'' ''p9'' = Inr ''p9''" "safeSidecarStem ''bank'' ''p9'' = Inr ''p9''" "player_stem ''p9'' = ''p9''"
proof -
  show "safeSidecarStem ''player'' ''p9'' = Inr ''p9''"
    by code_simp
  show "safeSidecarStem ''bank'' ''p9'' = Inr ''p9''"
    by code_simp
  show "player_stem ''p9'' = ''p9''"
    by code_simp
qed

lemma demoSave:
  "\<exists>disk'. SavePlayer enc False sorted_list_of_fset ''p9'' demoCity demoDisk = (None, disk')"
proof -
  have "fmlookup (players demoCity) ''p9'' = Some demoAnn" "Player_ID demoAnn = ''p9''"
    by (simp_all add: demoCity_fields demoTown_maps demoAnn_def)
  moreover have "player_path ''/srv'' ''p9'' \<noteq> []"
    by (simp add: player_path_eq [OF demo_names(1)])
  ultimately show ?thesis
    by (simp add: SavePlayer_def demoCity_fields Let_def demo_names WriteJSON_def writeAtomically_def demoDisk_def)
qed

lemma demoDisk_readable: "disk_unreadable demoDisk path = None"
  by (simp add: demoDisk_def)



text \<open>The player is marked again, at 9, after its save: this mark is lost.\<close>

theorem Flush_clears_only_saved_witness:
  "\<exists>w' disk'. FlushDirtyPlayersAndBanks Inl Inr False sorted_list_of_fset 0 demoCity (\<lambda>p. demoCity) (\<lambda>b. demoCity)
        (demoCity\<lparr>playerDirty := fmap_of_list [(''p9'', 9)]\<rparr>) demoDisk = (None, w', disk')
     \<and> fmlookup (playerDirty w') ''p9'' = None
     \<and> fmlookup (disk_files disk') (player_path ''/srv'' ''p9'') = Some (Inl (player_data sorted_list_of_fset demoCity demoAnn))"
proof -
  let ?after = "demoCity\<lparr>playerDirty := fmap_of_list [(''p9'', 9)]\<rparr>"
  obtain d1 :: "(PlayerSaveData + BankSaveBundle) disk"
    where s: "SavePlayer Inl False sorted_list_of_fset ''p9'' demoCity demoDisk = (None, d1)"
    using demoSave by blast
  have "marked_since sorted_list_of_fset 0 (playerDirty demoCity) = [''p9'']"
    "marked_since sorted_list_of_fset 0 (bankDirty demoCity) = []"
    by (simp_all add: demoCity_fields) (simp_all add: demoCity_def marked_since_def mget_def sorted_list_of_fset.rep_eq)
  then have f: "FlushDirtyPlayersAndBanks Inl Inr False sorted_list_of_fset 0 demoCity (\<lambda>p. demoCity) (\<lambda>b. demoCity) ?after demoDisk
      = (None, unmark_saved [''p9''] [] ?after, d1)"
    by (simp add: FlushDirtyPlayersAndBanks_def save_marked_def s first_error_def)
  have one: "\<forall>bid b q c. fmlookup (banks demoCity) bid = Some b \<longrightarrow> fmlookup (banks demoCity) q = Some c
      \<longrightarrow> bank_name c q = bank_name b bid \<longrightarrow> q = bid"
    by (simp add: demoCity_fields)
  have only: "\<forall>p q. fmlookup (players demoCity) p \<noteq> None \<longrightarrow> fmlookup (players demoCity) q \<noteq> None \<longrightarrow> player_stem p = player_stem q \<longrightarrow> p = q"
    by (simp add: demoCity_fields demoTown_maps)
  have root: "''/srv'' \<noteq> []" "\<forall>k. dbRoot demoCity = ''/srv''" and keyed: "\<forall>k. keyed demoCity" and ann: "fmlookup (players demoCity) ''p9'' = Some demoAnn"
    by (simp_all add: demoCity_fields demoTown_maps demoCity_ok)
  note C = Flush_clears_only_saved [OF f key_order_sorted root(1,2,2) keyed only one]
  have u: "fmlookup (playerDirty (unmark_saved [''p9''] [] ?after)) ''p9'' = None"
    by (simp add: unmark_saved_def unmark_lookup)
  have "fmlookup (playerDirty ?after) ''p9'' = Some 9"
    by simp
  then have "\<exists>pl. fmlookup (players demoCity) ''p9'' = Some pl
      \<and> fmlookup (disk_files d1) (player_path ''/srv'' (player_stem ''p9'')) = Some (Inl (player_data sorted_list_of_fset demoCity pl))"
    using C [THEN conjunct1, THEN spec, of "''p9''"] unfolding u by auto
  with ann have "fmlookup (disk_files d1) (player_path ''/srv'' ''p9'') = Some (Inl (player_data sorted_list_of_fset demoCity demoAnn))"
    by (simp add: demo_names)
  with f u show ?thesis by blast
qed

end
