(* ===== verification/Dying.thy ===== *)
theory Dying
  imports Burials Flushes
begin

text \<open>
  The death of a player as a whole: it returns unless a rank table is read out of its range, it leaves a world in
  order with the player alive in the room of the dead, and the file it writes holds that state.
\<close>

subsection \<open>What the penalties and the recovery change\<close>

definition same_body :: "Creature \<Rightarrow> Creature \<Rightarrow> bool" where
  "same_body c c' \<longleftrightarrow> c' = c\<lparr>Creature_Stats := Creature_Stats c', Creature_Properties := Creature_Properties c',
     Creature_Metadata := Creature_Metadata c', Creature_Level := Creature_Level c'\<rparr>"

definition same_player :: "Player \<Rightarrow> Player \<Rightarrow> bool" where
  "same_player p p' \<longleftrightarrow> p' = p\<lparr>Player_Metadata := Player_Metadata p'\<rparr>"

lemma same_body_refl [simp]: "same_body c c" "same_player p p"
  by (simp_all add: same_body_def same_player_def)

lemma same_body_trans: "same_body a b \<Longrightarrow> same_body b c \<Longrightarrow> same_body a c"
  by (cases a; cases b; cases c) (simp add: same_body_def)

lemma same_player_trans: "same_player a b \<Longrightarrow> same_player b c \<Longrightarrow> same_player a c"
  by (cases a; cases b; cases c) (simp add: same_player_def)

lemma same_body_fields:
  "same_body c c' \<Longrightarrow> Creature_ID c' = Creature_ID c \<and> Creature_RoomID c' = Creature_RoomID c \<and> Creature_PlayerID c' = Creature_PlayerID c
     \<and> Creature_Inventory c' = Creature_Inventory c \<and> Creature_Equipment c' = Creature_Equipment c"
  by (cases c; cases c') (simp add: same_body_def)

lemma same_player_fields:
  "same_player p p' \<Longrightarrow> Player_ID p' = Player_ID p \<and> Player_RoomID p' = Player_RoomID p \<and> Player_CreatureID p' = Player_CreatureID p"
  by (cases p; cases p') (simp add: same_player_def)

lemma same_body_write_lowered: "same_body c (write_lowered keys vs c)"
proof -
  have "same_body c (playerDeathWriteLoweredValue ks k v c)" for ks k v c
    by (cases c) (simp add: same_body_def playerDeathWriteLoweredValue_def Let_def)
  then have step: "same_body c d \<Longrightarrow> same_body c (case x of (i, v) \<Rightarrow> playerDeathWriteLoweredValue (keys (int i)) (hd (keys (int i))) v d)" for d x
    by (auto split: prod.split intro: same_body_trans)
  show ?thesis
    unfolding write_lowered_def by (rule foldl_preserves) (simp_all add: step)
qed

lemma same_body_loss: "playerDeathApplyProficiencyLoss ord c = Some c' \<Longrightarrow> same_body c c'"
  unfolding playerDeathApplyProficiencyLoss_def
  by (auto intro!: same_body_trans [OF same_body_write_lowered same_body_write_lowered])

lemma same_down_level: "same_body (fallen_creature f) (fallen_creature (down_level ord class level f))"
  "same_player (fallen_player f) (fallen_player (down_level ord class level f))"
  by (cases "fallen_creature f"; cases "fallen_player f";
      simp add: down_level_def Let_def playerDeathClearUpDamage_def same_body_def same_player_def split: prod.split)+

lemma same_down_levels: "same_body (fallen_creature f) (fallen_creature (down_levels ord cls target level f))
    \<and> same_player (fallen_player f) (fallen_player (down_levels ord cls target level f))"
proof (induction ord cls target level f rule: down_levels.induct)
  case (1 ord cls target level f)
  show ?case
  proof (cases "target < level")
    case True
    then have "down_levels ord cls target level f = down_levels ord cls target (level - 1) (down_level ord cls (level - 1) f)"
      by (simp add: down_levels.simps)
    with 1 [OF True] same_down_level [of f ord cls "level - 1"] show ?thesis
      by (auto intro: same_body_trans same_player_trans)
  next
    case False
    then show ?thesis
      by (simp add: down_levels.simps)
  qed
qed

lemma same_fall:
  assumes "fall_to_level ord p c = (p', c')"
  shows "same_body c c' \<and> same_player p p'"
proof -
  let ?level = "creatureStateLevel ord c" and ?new = "expToLev (creatureStateInt ord c ''experience'')"
  let ?target = "if ?new < 1 then 1 else ?new"
  let ?g = "\<lparr>fallen_player = p, fallen_creature = c, fallen_hpMax = creatureStateInt ord c ''hpMax'',
       fallen_mpMax = creatureStateInt ord c ''mpMax'', fallen_pDice = creatureStateInt ord c ''pDice'', fallen_cleared = False\<rparr>"
  let ?f = "down_levels ord (creatureStateClass ord c) ?target ?level ?g"
  have f: "same_body c (fallen_creature ?f)" "same_player p (fallen_player ?f)"
    using same_down_levels [of ?g ord "creatureStateClass ord c" ?target ?level] by simp_all
  show ?thesis
  proof (cases "0 < ?level \<and> ?new < ?level \<and> ?target < ?level")
    case True
    then obtain s where c': "c' = (fallen_creature ?f)\<lparr>Creature_Level := ?target, Creature_Stats := s\<rparr>" and p': "p' = fallen_player ?f"
      using assms unfolding fall_to_level_def playerDeathApplyLegacyDownLevels_def Let_def by (auto simp del: foldl_Cons split: if_split_asm)
    have "same_body (fallen_creature ?f) c'"
      unfolding c' by (simp add: same_body_def)
    with f p' show ?thesis
      using same_body_trans by blast
  next
    case False
    then have "(p', c') = (p, c)"
      using assms unfolding fall_to_level_def playerDeathApplyLegacyDownLevels_def Let_def by (auto split: if_split_asm)
    then show ?thesis by simp
  qed
qed

lemma same_revive:
  assumes "revive ord pk p c = (p', c')"
  shows "same_body c c' \<and> same_player p p'"
  using assms by (cases c; cases p) (auto simp: revive_def Let_def same_body_def same_player_def)

lemma removed_tags: "normalizedFlagSet names \<noteq> [] \<Longrightarrow> names \<noteq> [] \<Longrightarrow> \<not> hasAnyNormalizedFlag (removeMetadataTags tags names) names"
  by (auto simp: hasAnyNormalizedFlag_def removeMetadataTags_def Let_def list_ex_iff)

definition restored :: "Player \<Rightarrow> Creature \<Rightarrow> bool" where
  "restored p c \<longleftrightarrow>
     (\<exists>hp. fmlookup (Creature_Stats c) ''hpCurrent'' = Some hp \<and> 1 \<le> hp
        \<and> (\<forall>m. fmlookup (Creature_Stats c) ''hpMax'' = Some m \<longrightarrow> hp = max 1 m))
     \<and> \<not> hasAnyNormalizedFlag (Meta_Tags (Creature_Metadata c)) sickness_flags
     \<and> \<not> hasAnyNormalizedFlag (Meta_Tags (Player_Metadata p)) sickness_flags
     \<and> fmlookup (Creature_Properties c) ''legacyTitle'' = None"

lemma revive_restored:
  assumes "revive ord pk p c = (p', c')"
  shows "restored p' c'"
proof -
  have n: "normalizedFlagSet sickness_flags \<noteq> []" "sickness_flags \<noteq> []"
    by code_simp+
  let ?hp = "creatureStateInt ord c ''hpMax''"
  have st: "\<exists>mp. Creature_Stats c' = fmupd ''mpCurrent'' mp (fmupd ''hpCurrent'' (if ?hp < 1 then 1 else ?hp) (Creature_Stats c))"
    and tags: "Meta_Tags (Creature_Metadata c') = removeMetadataTags (Meta_Tags (Creature_Metadata c)) sickness_flags"
      "Meta_Tags (Player_Metadata p') = removeMetadataTags (Meta_Tags (Player_Metadata p)) sickness_flags"
    and title: "fmlookup (Creature_Properties c') ''legacyTitle'' = None"
    using assms by (auto simp: revive_def Let_def)
  have m: "?hp = m" if "fmlookup (Creature_Stats c) ''hpMax'' = Some m" for m
    using that by (simp add: creatureStateInt_def stateCreatureIntValue_def)
  show ?thesis
    using st tags title removed_tags [OF n] m by (auto simp: restored_def)
qed

lemma same_penalised:
  assumes "penalised ord penalty pays pk p c = Some (p', c')"
  shows "same_body c c' \<and> same_player p p' \<and> restored p' c'"
proof -
  let ?c = "if pays then pay_experience ord c else c"
  have 0: "same_body c ?c"
    by (cases c) (simp add: pay_experience_def same_body_def)
  have "Option.bind (if penalty then playerDeathApplyProficiencyLoss ord ?c else Some ?c) (\<lambda>creature.
      case fall_to_level ord p creature of (player, creature) \<Rightarrow>
        if Creature_Stats creature = fmempty then None else Some (revive ord pk player creature)) = Some (p', c')"
    using assms unfolding penalised_def Let_def by (simp only: split: if_split_asm) simp
  then obtain c1 where c1: "(if penalty then playerDeathApplyProficiencyLoss ord ?c else Some ?c) = Some c1"
    and r: "(case fall_to_level ord p c1 of (player, creature) \<Rightarrow>
        if Creature_Stats creature = fmempty then None else Some (revive ord pk player creature)) = Some (p', c')"
    unfolding bind_eq_Some_conv by blast
  have 1: "same_body ?c c1"
    using c1 same_body_loss by (auto split: if_splits)
  obtain p2 c2 where f: "fall_to_level ord p c1 = (p2, c2)"
    by fastforce
  with r have v: "revive ord pk p2 c2 = (p', c')"
    by (simp split: if_split_asm)
  from same_fall [OF f] same_revive [OF v] revive_restored [OF v] 0 1 show ?thesis
    using same_body_trans same_player_trans by blast
qed

lemma same_chastened:
  assumes "chastened ord penalty pays pk w p c = Some (p', c')"
  shows "same_body c c' \<and> same_player p p' \<and> restored p' c'"
proof -
  obtain c1 where c1: "penalised ord penalty pays pk p c = Some (p', c1)"
    and r: "recalculateCreatureCombatStats ord w c1 = Some c'"
    using assms by (auto simp: chastened_def bind_eq_Some_conv)
  obtain thaco where c': "c' = c1\<lparr>Creature_Stats := fmupd ''thaco'' thaco (fmupd ''armor'' (computeCreatureAC ord w c1) (Creature_Stats c1))\<rparr>"
    using r by (auto simp: recalculateCreatureCombatStats_def Let_def)
  have "same_body c1 c'"
    by (simp add: c' same_body_def)
  moreover have "restored p' c1 \<Longrightarrow> restored p' c'"
    by (simp add: c' restored_def)
  ultimately show ?thesis
    using same_penalised [OF c1] same_body_trans by blast
qed

subsection \<open>The arrival in the room of the dead\<close>

definition put_in :: "Player \<Rightarrow> Creature \<Rightarrow> World \<Rightarrow> World" where
  "put_in p c w = w\<lparr>players := fmupd (Player_ID p) p (players w), creatures := fmupd (Creature_ID c) c (creatures w)\<rparr>"

lemma send_to_arrival:
  assumes "fmlookup (rooms w) r = Some room" and "Room_ID room = r"
  shows "send_to dice roll r p c w = arrival dice roll p (Some c) r (put_in p c w)"
  using assms
  by (simp add: send_to_def arrival_def moved_def enter_room_def relocate_creature_def put_player_def put_in_def mget_def
      without_def [abs_def] Let_def)

lemma arrival_outline:
  fixes dice roll
  assumes ok: "in_order w" and p: "fmlookup (players w) pid = Some player" and r: "fmlookup (rooms w) r = Some room"
    and c: "creature_of w player = Some c"
  shows "map_option creature_outline (fmlookup (creatures (arrival dice roll player (Some c) r w)) (Creature_ID c))
     = Some (creature_outline (c\<lparr>Creature_RoomID := r\<rparr>))"
proof -
  let ?m = "moved player (Some c) r w"
  let ?f = "refreshRoomPermanentSpawns dice roll r (clock w) ?m"
  have m: "in_order ?m"
    using in_order_moved [OF ok p r] by (simp add: c)
  have f: "in_order ?f \<and> populated ?m ?f"
    using m by (rule in_order_refresh)
  have "populated ?f (arrival dice roll player (Some c) r w)"
    unfolding arrival_def using f in_order_exits by blast
  with f have "populated ?m (arrival dice roll player (Some c) r w)"
    using populated_trans by blast
  moreover have "fmlookup (creatures ?m) (Creature_ID c) = Some (c\<lparr>Creature_RoomID := r\<rparr>)"
    by (simp add: creatures_moved)
  ultimately show ?thesis
    by (simp add: populated_def)
qed

text \<open>What dies is put back in order before it is moved.\<close>

lemma shed_frame_objects: "shed_frame w w' \<Longrightarrow> object_ids w \<Longrightarrow> fmlookup (objects w) [] = None
    \<Longrightarrow> object_ids w' \<and> fmlookup (objects w') [] = None"
proof -
  assume f: "shed_frame w w'" and ids: "object_ids w" and z: "fmlookup (objects w) [] = None"
  have e: "map_option (\<lambda>object. object\<lparr>Object_Location := zeroLocation, Object_Metadata := noMetadata\<rparr>) (fmlookup (objects w') j)
      = map_option (\<lambda>object. object\<lparr>Object_Location := zeroLocation, Object_Metadata := noMetadata\<rparr>) (fmlookup (objects w) j)" for j
    using f unfolding shed_frame_def by blast
  have "Object_ID o' = j" if "fmlookup (objects w') j = Some o'" for j o'
  proof -
    from e [of j] that obtain p where p: "fmlookup (objects w) j = Some p"
      and q: "o'\<lparr>Object_Location := zeroLocation, Object_Metadata := noMetadata\<rparr> = p\<lparr>Object_Location := zeroLocation, Object_Metadata := noMetadata\<rparr>"
      by (cases "fmlookup (objects w) j") simp_all
    from q have "Object_ID o' = Object_ID p"
      by (cases o'; cases p) simp
    with ids p show ?thesis
      by (simp add: object_ids_def)
  qed
  with e [of "[]"] z show ?thesis
    by (simp add: object_ids_def)
qed

lemma shed_frame_places:
  assumes "shed_frame w w'"
  shows "roster w' = roster w" "players w' = players w" "creatures w' = creatures w"
proof -
  have "w' = w\<lparr>objects := objects w', rooms := rooms w', roomObjectDirty := roomObjectDirty w'\<rparr>"
    using assms unfolding shed_frame_def by blast
  then show "players w' = players w" "creatures w' = creatures w"
    by (metis World.select_convs World.surjective World.update_convs)+
  show "roster w' = roster w"
  proof
    fix r
    have "map_option (\<lambda>room. room\<lparr>Room_Objects := \<lparr>ObjectIDs = []\<rparr>\<rparr>) (fmlookup (rooms w') r)
        = map_option (\<lambda>room. room\<lparr>Room_Objects := \<lparr>ObjectIDs = []\<rparr>\<rparr>) (fmlookup (rooms w) r)"
      using assms unfolding shed_frame_def by blast
    moreover have "a\<lparr>Room_Objects := \<lparr>ObjectIDs = []\<rparr>\<rparr> = b\<lparr>Room_Objects := \<lparr>ObjectIDs = []\<rparr>\<rparr>
        \<Longrightarrow> Room_ID a = Room_ID b \<and> Room_PlayerIDs a = Room_PlayerIDs b \<and> Room_CreatureIDs a = Room_CreatureIDs b" for a b
      by (cases a; cases b) simp
    ultimately show "roster w' r = roster w r"
      by (cases "fmlookup (rooms w') r"; cases "fmlookup (rooms w) r") (auto simp: roster_def)
  qed
qed

lemma in_order_put_in:
  assumes ok: "in_order w" and p: "fmlookup (players w) pid = Some p" and c: "creature_of w p = Some c"
    and f: "shed_frame w w1" and u: "undressed c c1" and wh: "well_held (stored c1 w1)" and b: "same_body c1 c2" and q: "same_player p p2"
  shows "in_order (put_in p2 c2 w1)" and "fmlookup (players (put_in p2 c2 w1)) pid = Some p2" and "creature_of (put_in p2 c2 w1) p2 = Some c2"
    and "Player_ID p2 = pid" and "Creature_ID c2 = Creature_ID c" and "rooms (put_in p2 c2 w1) = rooms w1"
proof -
  let ?w = "put_in p2 c2 w1"
  have s: "seated w" and so: "well_held w" "object_ids w" "fmlookup (objects w) [] = None"
    using ok by (simp_all add: in_order_def sound_objects_def)
  note cd = creature_ofD [OF s p c]
  note pl = shed_frame_places [OF f]
  have c1: "Creature_ID c1 = Creature_ID c \<and> Creature_RoomID c1 = Creature_RoomID c \<and> Creature_PlayerID c1 = Creature_PlayerID c"
    using u by (cases c; cases c1) (simp add: undressed_def)
  note c2 = same_body_fields [OF b] and p2 = same_player_fields [OF q]
  show id: "Player_ID p2 = pid" and cid: "Creature_ID c2 = Creature_ID c"
    using keyedD(1) [OF seatedD(1) [OF s] p] p2 c1 c2 by simp_all
  show "fmlookup (players ?w) pid = Some p2"
    by (simp add: put_in_def id)
  show "creature_of ?w p2 = Some c2"
    using p2 cd(2,3) cid by (simp add: creature_of_def put_in_def)
  show "rooms ?w = rooms w1"
    by (simp add: put_in_def)
  have "seated ?w = seated w"
  proof (rule seated_cong)
    show "roster ?w = roster w"
      using pl(1) by (auto simp: roster_def put_in_def fun_eq_iff)
    show "player_place ?w = player_place w"
      using p p2 id by (auto simp: player_place_def put_in_def pl fun_eq_iff)
    show "creature_place ?w = creature_place w"
      using cd c1 c2 by (auto simp: creature_place_def put_in_def pl fun_eq_iff)
  qed
  moreover have "well_held ?w"
  proof -
    have "well_held ((stored c1 w1)\<lparr>creatures := fmupd (Creature_ID c1) c2 (creatures (stored c1 w1))\<rparr>) = well_held (stored c1 w1)"
      by (rule well_held_creature_upd [of _ _ c1]) (simp_all add: stored_def c2)
    moreover have "well_held ?w = well_held ((stored c1 w1)\<lparr>creatures := fmupd (Creature_ID c1) c2 (creatures (stored c1 w1))\<rparr>)"
      by (rule well_held_cong) (simp_all add: put_in_def stored_def c2 fmupd_idem)
    ultimately show ?thesis
      using wh by simp
  qed
  moreover have "object_ids ?w \<and> fmlookup (objects ?w) [] = None"
    using shed_frame_objects [OF f so(2,3)] by (simp add: put_in_def object_ids_def)
  ultimately show "in_order ?w"
    using s by (simp add: in_order_def sound_objects_def)
qed

lemma in_order_mark [simp]: "in_order (MarkPlayerDirty p w) = in_order w"
proof -
  have "seated (MarkPlayerDirty p w) = seated w"
    by (rule seated_cong; rule ext; simp add: place_defs MarkPlayerDirty_def)
  then show ?thesis
    by (simp add: in_order_def sound_objects_def object_ids_def)
qed

lemma PlayerDeath_die:
  assumes "fmlookup (players w) pid = Some p" and "fmlookup (creatures w) (Player_CreatureID p) = Some c"
    and "Player_CreatureID p \<noteq> []" "Player_RoomID p \<noteq> []"
  shows "\<exists>penalty pays pk. PlayerDeath enc harness ord dice roll later pid att w disk
     = die enc harness ord dice roll later penalty pays pk pid (Player_RoomID p) p c w disk"
  unfolding PlayerDeath_def assms option.case IsZero_def Let_def using assms(3,4) by auto

lemma die_run:
  assumes "die enc harness ord dice roll later penalty pays pk pid r p c w disk = Some (err, w', disk')"
  obtains c1 w1 p2 c2 where
    "(if penalty then playerDeathProcessReadyObjects ord c r pk w else Some (c, w)) = Some (c1, w1)"
    "chastened ord penalty pays pk w1 p c1 = Some (p2, c2)"
    "w' = MarkPlayerDirty pid (send_to dice roll (death_room w1) p2 c2 w1)"
    "SavePlayer enc harness ord pid (later w') disk = (err, disk')"
proof -
  obtain c1 w1 p2 c2 where 1: "(if penalty then playerDeathProcessReadyObjects ord c r pk w else Some (c, w)) = Some (c1, w1)"
    and 2: "chastened ord penalty pays pk w1 p c1 = Some (p2, c2)"
    and 3: "(case SavePlayer enc harness ord pid (later (MarkPlayerDirty pid (send_to dice roll (death_room w1) p2 c2 w1))) disk of
        (err, disk) \<Rightarrow> (err, MarkPlayerDirty pid (send_to dice roll (death_room w1) p2 c2 w1), disk)) = (err, w', disk')"
    using assms unfolding die_def bind_eq_Some_conv Let_def by (auto simp: map_option_eq_Some)
  from 3 have "w' = MarkPlayerDirty pid (send_to dice roll (death_room w1) p2 c2 w1)" "SavePlayer enc harness ord pid (later w') disk = (err, disk')"
    by (cases "SavePlayer enc harness ord pid (later (MarkPlayerDirty pid (send_to dice roll (death_room w1) p2 c2 w1))) disk"; simp; blast)+
  with 1 2 that show ?thesis by blast
qed

text \<open>C20. The death of a player in a world in order: the world is in order afterwards, the player and its creature are in
  the room of the dead, with all hit points and at least one, without the title and without the tags PPOISN, poison, PDISEA
  and disease (the tag poisoned and a poison that drinking wrote into the statistics are not cleared); no other player has changed; the player is marked
  dirty.  This is the world when the locks are released.  The save after it reads the world of that moment, and when it
  reported no error the file of the player holds the player, the creature and its things as they are there; when nothing
  came in between, as they are after the death.  (When it returns: the code panics on a creature without statistics.)\<close>

theorem Death_revives:
  assumes "PlayerDeath enc harness ord dice roll later pid att w disk = Some (err, w', disk')" and "in_order w"
    and "fmlookup (players w) pid = Some p" and "Player_CreatureID p = k" and "k \<noteq> []" and "fmlookup (creatures w) k = Some c"
    and "wears c w" and "fmlookup (rooms w) (Player_RoomID p) \<noteq> None" and "fmlookup (rooms w) (death_room w) \<noteq> None"
  shows "in_order w' \<and> fmlookup (playerDirty w') pid = Some (clock w')
     \<and> (\<forall>q. q \<noteq> pid \<longrightarrow> fmlookup (players w') q = fmlookup (players w) q)
     \<and> (\<exists>p' c'. fmlookup (players w') pid = Some p' \<and> Player_RoomID p' = death_room w
          \<and> fmlookup (creatures w') k = Some c' \<and> Creature_RoomID c' = death_room w \<and> restored p' c'
          \<and> (later w' = w' \<and> err = None \<and> dbRoot w' \<noteq> [] \<longrightarrow>
               fmlookup (disk_files disk') (player_path (dbRoot w') (player_stem pid)) = Some (enc (player_data ord w' p'))))
     \<and> (err = None \<and> keyed (later w') \<and> dbRoot (later w') \<noteq> [] \<longrightarrow>
          (\<exists>p2. fmlookup (players (later w')) pid = Some p2
             \<and> fmlookup (disk_files disk') (player_path (dbRoot (later w')) (player_stem pid)) = Some (enc (player_data ord (later w') p2))))"
proof -
  have s: "seated w"
    using assms(2) by (simp add: in_order_def)
  have ne: "Player_RoomID p \<noteq> []"
    using assms(8) keyedD(3) [OF seatedD(1) [OF s]] by blast
  have cof: "creature_of w p = Some c"
    using assms(4-6) by (simp add: creature_of_def)
  obtain penalty pays pk c1 w1 p2 c2 where
    run: "(if penalty then playerDeathProcessReadyObjects ord c (Player_RoomID p) pk w else Some (c, w)) = Some (c1, w1)"
    and ch: "chastened ord penalty pays pk w1 p c1 = Some (p2, c2)"
    and w': "w' = MarkPlayerDirty pid (send_to dice roll (death_room w1) p2 c2 w1)"
    and save: "SavePlayer enc harness ord pid (later w') disk = (err, disk')"
    using PlayerDeath_die [of w pid p c enc harness ord dice roll later att disk] assms(1,3-6) ne die_run by metis
  have ready: "shed_ready (Player_RoomID p) c w" and st: "stored c w = w"
    using assms(2,6-8) keyedD(2) [OF seatedD(1) [OF s] assms(6)] ne
    by (auto simp: shed_ready_def in_order_def sound_objects_def stored_def fmupd_same)
  have f: "shed_frame w w1" and u: "undressed c c1" and wh: "well_held (stored c1 w1)"
  proof -
    have "shed_frame w w1 \<and> undressed c c1 \<and> well_held (stored c1 w1)"
    proof (cases penalty)
      case True
      obtain c' v where "playerDeathProcessReadyObjects ord c (Player_RoomID p) pk w = Some (c', v)"
        "shed_effect ord (Player_RoomID p) pk (set (worn_slots c)) c w c' v"
        using shed_slots_run [OF distinct_worn_slots ready] unfolding playerDeathProcessReadyObjects_def by blast
      with run True show ?thesis
        by (simp add: shed_effect_def shed_ready_def)
    next
      case False
      with run ready st show ?thesis
        by (simp add: undressed_def shed_ready_def)
    qed
    then show "shed_frame w w1" "undressed c c1" "well_held (stored c1 w1)" by blast+
  qed
  have b: "same_body c1 c2" and q: "same_player p p2" and re: "restored p2 c2"
    using same_chastened [OF ch] by blast+
  note W = in_order_put_in [OF assms(2,3) cof f u wh b q]
  have rooms: "fmlookup (rooms w1) r = None \<longleftrightarrow> fmlookup (rooms w) r = None" for r
    using fun_cong [OF shed_frame_places(1) [OF f], of r]
    by (cases "fmlookup (rooms w) r"; cases "fmlookup (rooms w1) r") (simp_all add: roster_def)
  have dr: "death_room w1 = death_room w"
    by (simp add: death_room_def rooms)
  obtain room where room: "fmlookup (rooms w1) (death_room w) = Some room"
    using assms(9) rooms [of "death_room w"] by (cases "fmlookup (rooms w1) (death_room w)") simp_all
  have "seated (put_in p2 c2 w1)"
    using W(1) by (simp add: in_order_def)
  then have "Room_ID room = death_room w"
    using keyedD(3) [OF seatedD(1), of "put_in p2 c2 w1" "death_room w" room] room W(6) by simp
  then have arr: "w' = MarkPlayerDirty pid (arrival dice roll p2 (Some c2) (death_room w) (put_in p2 c2 w1))"
    using w' send_to_arrival [OF room] by (simp add: dr)
  let ?a = "arrival dice roll p2 (Some c2) (death_room w) (put_in p2 c2 w1)"
  have room': "fmlookup (rooms (put_in p2 c2 w1)) (death_room w) = Some room"
    using room W(6) by simp
  have "in_order ?a" and pl: "players ?a = fmupd pid (p2\<lparr>Player_RoomID := death_room w\<rparr>) (players (put_in p2 c2 w1))"
    using arrival_effect(1,2) [OF W(1,2) room', of dice roll] W(3) by simp_all
  then have io: "in_order w'"
    by (simp add: arr in_order_mark)
  have p': "fmlookup (players w') pid = Some (p2\<lparr>Player_RoomID := death_room w\<rparr>)"
    by (simp add: arr pl)
  have others: "fmlookup (players w') q = fmlookup (players w) q" if "q \<noteq> pid" for q
  proof -
    have "players (put_in p2 c2 w1) = fmupd pid p2 (players w)"
      using shed_frame_places(2) [OF f] W(4) by (simp add: put_in_def)
    with that show ?thesis
      by (simp add: arr pl)
  qed
  have ck: "Creature_ID c2 = k"
    using W(5) keyedD(2) [OF seatedD(1) [OF s] assms(6)] by simp
  obtain c' where c': "fmlookup (creatures w') k = Some c'" and o': "creature_outline c' = creature_outline (c2\<lparr>Creature_RoomID := death_room w\<rparr>)"
    using arrival_outline [OF W(1,2) room' W(3), of dice roll] by (auto simp: arr ck)
  have "Creature_RoomID c' = death_room w" and "restored (p2\<lparr>Player_RoomID := death_room w\<rparr>) c'"
    using creature_outline_eq [OF o'] re by (simp_all add: restored_def)
  moreover have onDisk: "\<exists>pq. fmlookup (players (later w')) pid = Some pq
      \<and> fmlookup (disk_files disk') (player_path (dbRoot (later w')) (player_stem pid)) = Some (enc (player_data ord (later w') pq))"
    if "err = None" "keyed (later w')" "dbRoot (later w') \<noteq> []"
  proof -
    from that save have ok: "SavePlayer enc harness ord pid (later w') disk = (None, disk')" and root: "dbRoot (later w') \<noteq> []"
      by simp_all
    obtain pl name where pl: "fmlookup (players (later w')) pid = Some pl" "name = player_stem (Player_ID pl)"
      "disk' = disk\<lparr>disk_files := fmupd (player_path (dbRoot (later w')) name) (enc (player_data ord (later w') pl)) (disk_files disk)\<rparr>"
      using ok root by (rule SavePlayer_ok)
    moreover have "Player_ID pl = pid"
      using keyedD(1) [OF that(2) pl(1)] by simp
    ultimately show ?thesis by auto
  qed
  moreover have "fmlookup (disk_files disk') (player_path (dbRoot w') (player_stem pid))
      = Some (enc (player_data ord w' (p2\<lparr>Player_RoomID := death_room w\<rparr>)))" if "later w' = w'" "err = None" "dbRoot w' \<noteq> []"
    using onDisk that p' io by (simp add: in_order_def seated_def)
  moreover have "fmlookup (playerDirty w') pid = Some (clock w')"
    using keyedD(1) [OF seatedD(1) [OF s] assms(3)] by (simp add: arr MarkPlayerDirty_def)
  ultimately show ?thesis
    using io others p' c' by auto
qed

subsection \<open>Witnesses\<close>

definition demoGraves :: World where
  "demoGraves = demoTown\<lparr>rooms := fmap_of_list [(''r1'', demoStreet), (''room:1008'', zeroRoom\<lparr>Room_ID := ''room:1008''\<rparr>)], dbRoot := ''/srv''\<rparr>"

lemma demoGraves_maps:
  "fmlookup (rooms demoGraves) r = (if r = ''r1'' then Some demoStreet else if r = ''room:1008'' then Some (zeroRoom\<lparr>Room_ID := ''room:1008''\<rparr>) else None)"
  "players demoGraves = players demoTown" "creatures demoGraves = creatures demoTown" "objects demoGraves = fmempty" "banks demoGraves = fmempty"
  by (auto simp: demoGraves_def demoTown_maps fmlookup_of_list)

lemma in_order_demoGraves: "in_order demoGraves"
proof -
  have "refs demoGraves h = []" for h
    by (cases h) (auto simp: refs_def demoGraves_maps demoTown_maps demoTown_defs split: option.splits if_splits)
  then have "well_held demoGraves"
    by (intro well_held_no_objects demoGraves_maps(4))
  then have "sound_objects demoGraves"
    by (simp add: sound_objects_def object_ids_def demoGraves_maps)
  moreover have "keyed demoGraves" "linked demoGraves"
    by (auto simp: keyed_def linked_def demoGraves_maps demoTown_maps demoTown_defs split: if_splits)
  moreover have "players_listed demoGraves" "creatures_listed demoGraves"
    by (auto simp: players_listed_def creatures_listed_def demoGraves_maps demoTown_maps demoTown_defs split: if_splits)
  ultimately show ?thesis
    by (simp add: in_order_def seated_def)
qed

lemma demoLoss:
  "playerDeathApplyProficiencyLoss sorted_list_of_fset (pay_experience sorted_list_of_fset demoHero)
     = Some (write_lowered playerDeathRealmKeys [0, 0, 0, 0]
         (write_lowered playerDeathProficiencyKeys [1024, 0, 0, 0, 0] (pay_experience sorted_list_of_fset demoHero)))"
proof -
  let ?c = "pay_experience sorted_list_of_fset demoHero"
  have "map (stateCreatureProficiencyValue sorted_list_of_fset ?c) [0, 1, 2, 3, 4] = [0, 0, 0, 0, 0]"
    by code_simp
  moreover have "map (stateCreatureRealm ?c) [0, 1, 2, 3] = [0, 0, 0, 0]"
    by code_simp
  moreover have "creatureStateInt sorted_list_of_fset ?c ''experience'' = 95"
    by code_simp
  moreover have "playerDeathLowerProficiency [0, 0, 0, 0, 0] [0, 0, 0, 0] 95 = Some ([1024, 0, 0, 0, 0], [0, 0, 0, 0])"
    by (simp add: playerDeathLowerProficiency_def lower_passes.simps [of _ 0] i64_def keep_best_def best_index_def)
  ultimately show ?thesis
    unfolding playerDeathApplyProficiencyLoss_def by simp
qed

lemma demoChastened: "chastened sorted_list_of_fset True True False demoGraves demoAnn demoHero \<noteq> None"
proof -
  let ?c = "write_lowered playerDeathRealmKeys [0, 0, 0, 0]
         (write_lowered playerDeathProficiencyKeys [1024, 0, 0, 0, 0] (pay_experience sorted_list_of_fset demoHero))"
  have "creatureStateLevel sorted_list_of_fset ?c = 0"
    by code_simp
  then have f: "fall_to_level sorted_list_of_fset demoAnn ?c = (demoAnn, ?c)"
    by (simp add: fall_to_level_def Let_def)
  obtain p c where r: "revive sorted_list_of_fset False demoAnn ?c = (p, c)"
    by fastforce
  have st: "fmlookup (Creature_Stats c) key = fmlookup (Creature_Stats ?c) key" if "key \<noteq> ''hpCurrent''" "key \<noteq> ''mpCurrent''" for key
    using r that by (auto simp: revive_def Let_def)
  have ne: "Creature_Stats demoHero \<noteq> fmempty" "Creature_Stats ?c \<noteq> fmempty"
  proof -
    have "fmlookup (Creature_Stats demoHero) ''hpCurrent'' \<noteq> None" "fmlookup (Creature_Stats ?c) ''proficiencySharp'' \<noteq> None"
      by code_simp+
    then show "Creature_Stats demoHero \<noteq> fmempty" "Creature_Stats ?c \<noteq> fmempty"
      by auto
  qed
  have "map (fmlookup (Creature_Stats ?c)) [''proficiencySharp'', ''proficiencyThrust'', ''proficiencyBlunt'', ''proficiencyPole'',
      ''proficiencyMissile'', ''realmEarth'', ''realmWind'', ''realmFire''] = [Some 1024, Some 0, Some 0, Some 0, Some 0, Some 0, Some 0, Some 0]"
    by code_simp
  then have "computeCreatureTHACO sorted_list_of_fset demoGraves (c\<lparr>Creature_Stats := fmupd ''armor'' a (Creature_Stats c)\<rparr>) \<noteq> None" for a
    unfolding computeCreatureTHACO_None
    by (simp add: stateCreatureProficiencyValue_def stateCreatureRealm_def weaponProficiencyStatKeys_def
        weaponProficiencyPropertyKeys_def stateCreatureIntValue_def st)
  then show ?thesis
    by (auto simp: chastened_def penalised_def demoLoss f r ne recalculateCreatureCombatStats_def Let_def)
qed

theorem Death_revives_witness:
  "\<exists>err w' disk' p'. PlayerDeath id False sorted_list_of_fset (\<lambda>t n. 0) (\<lambda>i. 50) id ''p9'' [] demoGraves demoDisk = Some (err, w', disk')
     \<and> in_order w' \<and> fmlookup (players w') ''p9'' = Some p' \<and> Player_RoomID p' = ''room:1008''"
proof -
  have maps: "fmlookup (players demoGraves) ''p9'' = Some demoAnn" "fmlookup (creatures demoGraves) ''c9'' = Some demoHero"
    and ann: "Player_CreatureID demoAnn = ''c9''" "Player_RoomID demoAnn = ''r1''"
    by (simp_all add: demoGraves_maps demoTown_maps demoAnn_def)
  have "worn_slots demoHero = []"
    by (simp add: worn_slots_def demoHero_def zeroCreature_def sorted_list_of_fset.rep_eq)
  then have s: "playerDeathProcessReadyObjects ord demoHero r pk demoGraves = Some (demoHero, demoGraves)" for ord r pk
    by (simp add: playerDeathProcessReadyObjects_def)
  have "survival_room demoGraves ''r1'' = False"
    by code_simp
  moreover have "playerDeathCheckWarReturnsOne sorted_list_of_fset demoGraves None demoHero"
    by code_simp
  moreover obtain p c where "chastened sorted_list_of_fset True True False demoGraves demoAnn demoHero = Some (p, c)"
    using demoChastened by (cases "chastened sorted_list_of_fset True True False demoGraves demoAnn demoHero") auto
  ultimately obtain err w' and disk' :: "PlayerSaveData disk"
    where d: "PlayerDeath id False sorted_list_of_fset (\<lambda>t n. 0) (\<lambda>i. 50) id ''p9'' [] demoGraves demoDisk = Some (err, w', disk')"
    by (cases "SavePlayer id False sorted_list_of_fset ''p9''
          (MarkPlayerDirty ''p9'' (send_to (\<lambda>t n. 0) (\<lambda>i. 50) (death_room demoGraves) p c demoGraves)) demoDisk")
       (simp add: PlayerDeath_def maps ann is_player_def die_def s Let_def)
  have dr: "death_room demoGraves = ''room:1008''"
    by (simp add: death_room_def demoGraves_maps)
  have "wears demoHero demoGraves"
    by (simp add: wears_def demoGraves_maps demoHero_def zeroCreature_def)
  from Death_revives [OF d in_order_demoGraves maps(1) ann(1) _ maps(2) this] show ?thesis
    using d by (auto simp: dr ann demoGraves_maps)
qed

end
