(* ===== verification/Slain.thy ===== *)
theory Slain
  imports Loading
begin

text \<open>
  The death of a monster as a whole (\<^verbatim>\<open>FinalizeMonsterDeathWithOptions\<close> in \<^verbatim>\<open>creature.go\<close>): besides what becomes of the
  things it carried, which \<open>Damage\<close> has, who is left in the world, and where.
\<close>

subsection \<open>Nobody else moves\<close>

lemma paid_attacker_place [simp]:
  "Creature_ID (paid_attacker ord options m d w a) = Creature_ID a" "Creature_PlayerID (paid_attacker ord options m d w a) = Creature_PlayerID a"
  "Creature_RoomID (paid_attacker ord options m d w a) = Creature_RoomID a"
  by (simp_all add: paid_attacker_def Let_def add_stat_def split: option.split)

lemma shift_alignment_place [simp]:
  "Creature_ID (shift_alignment m a) = Creature_ID a" "Creature_PlayerID (shift_alignment m a) = Creature_PlayerID a"
  "Creature_RoomID (shift_alignment m a) = Creature_RoomID a"
  by (simp_all add: shift_alignment_def Let_def)

lemma same_places_reward: "same_places w (awardMonsterDeathRewards ord m options w)"
proof -
  have "same_places v (reward_attacker ord options m i d v)" for v i d
    by (auto simp: same_places_def reward_attacker_def place_defs fun_eq_iff split: option.split)
  then show ?thesis
    unfolding awardMonsterDeathRewards_def Let_def
    by (rule_tac foldl_preserves) (simp, erule same_places_trans, simp)
qed

lemma outline_places:
  "same_outline w w' \<Longrightarrow> roster w' = roster w \<and> creature_place w' = creature_place w \<and> player_place w' = player_place w"
proof -
  assume o: "same_outline w w'"
  then have "players w' = players w"
    by (simp add: same_outline_def)
  then have "player_place w' = player_place w"
    by (simp add: player_place_def fun_eq_iff)
  with seated_outline(2,3) [OF o] show ?thesis by simp
qed

text \<open>The removal of the monster takes it off the list of its room, and out of the tables of the fights.\<close>

definition gone :: "CreatureID \<Rightarrow> RoomID \<Rightarrow> World \<Rightarrow> World \<Rightarrow> bool" where
  "gone c r w w' \<longleftrightarrow>
     (\<forall>x. roster w' x = map_option (\<lambda>(q, ps, cs). (q, ps, if x = r then filter (\<lambda>k. k \<noteq> c) cs else cs)) (roster w x))
     \<and> creature_place w' = (creature_place w)(c := None) \<and> player_place w' = player_place w"

lemma prune_fights: "monsterDamage (pruneCharmReferences ord m w) = monsterDamage w" "enemies (pruneCharmReferences ord m w) = enemies w"
proof -
  have c: "monsterDamage (prune_creature remove i w) = monsterDamage w \<and> enemies (prune_creature remove i w) = enemies w"
    and p: "monsterDamage (prune_player remove i w) = monsterDamage w \<and> enemies (prune_player remove i w) = enemies w" for remove i and w :: World
    by (auto simp: prune_creature_def prune_player_def Let_def markCreaturePlayerDirty_eq split: option.split)
  have "monsterDamage (foldl (\<lambda>v i. f i v) w is) = monsterDamage w \<and> enemies (foldl (\<lambda>v i. f i v) w is) = enemies w"
    if "\<And>i v. monsterDamage (f i v) = monsterDamage v \<and> enemies (f i v) = enemies v" for f :: "string \<Rightarrow> World \<Rightarrow> World" and w "is"
    using that by (induction "is" arbitrary: w) simp_all
  note this [of "prune_creature (charmReferenceTags m)", OF c] this [of "prune_player (charmReferenceTags m)", OF p]
  then show "monsterDamage (pruneCharmReferences ord m w) = monsterDamage w" "enemies (pruneCharmReferences ord m w) = enemies w"
    by (simp_all add: pruneCharmReferences_def Let_def)
qed

lemma remove_monster_gone:
  assumes "fmlookup (rooms w) r = Some room" and "Room_ID room = r" and "Creature_ID m = c"
  shows "gone c r w (remove_monster ord m r w)" and "fmlookup (monsterDamage (remove_monster ord m r w)) c = None"
    and "fmlookup (enemies (remove_monster ord m r w)) c = None"
    and "fmlookup (enemies (remove_monster ord m r w)) k = Some names \<Longrightarrow> Creature_DisplayName m \<notin> set names"
proof -
  define u where "u = w\<lparr>rooms := fmupd r (room\<lparr>Room_CreatureIDs := removeID (Room_CreatureIDs room) c\<rparr>) (rooms w),
     creatures := fmdrop c (creatures w), monsterDamage := fmdrop c (monsterDamage w)\<rparr>"
  define v where "v = pruneCharmReferences ord m u"
  have e: "remove_monster ord m r w = v\<lparr>enemies := fmmap (filter (\<lambda>n. n \<noteq> Creature_DisplayName m)) (fmdrop c (enemies v))\<rparr>"
    using assms by (simp add: remove_monster_def Let_def v_def u_def mget_def)
  have uv: "same_places u v"
    unfolding v_def by (rule same_places_prune)
  have "gone c r w u"
    using assms(1,2) by (auto simp: gone_def u_def place_defs fun_eq_iff removeID_def option.map_comp intro!: option.map_cong)
  with uv show "gone c r w (remove_monster ord m r w)"
    by (simp add: e gone_def same_places_def place_defs [abs_def])
  show "fmlookup (monsterDamage (remove_monster ord m r w)) c = None"
    by (simp add: e v_def prune_fights u_def)
  show "fmlookup (enemies (remove_monster ord m r w)) c = None"
    and "fmlookup (enemies (remove_monster ord m r w)) k = Some names \<Longrightarrow> Creature_DisplayName m \<notin> set names"
    by (auto simp: e)
qed

lemma bury_monster_gone:
  assumes "bury_monster ord m r dropped gold v = (Inr True, w')" and "well_held v" and "Creature_ID m = c" and "r \<noteq> []"
    and "fmlookup (rooms v) r = Some room" and "Room_ID room = r"
  shows "gone c r v w' \<and> fmlookup (monsterDamage w') c = None \<and> fmlookup (enemies w') c = None
     \<and> (\<forall>k names. fmlookup (enemies w') k = Some names \<longrightarrow> Creature_DisplayName m \<notin> set names)"
proof -
  obtain x where d: "drop_gold c r gold v = (None, x)" and o: "same_outline v x"
  proof (cases "0 < gold")
    case False
    then show ?thesis
      using that [of v] by (simp add: drop_gold_def)
  next
    case True
    then show ?thesis
      using drop_gold_effect [OF assms(2,4) _ True, of c] assms(5) that by blast
  qed
  obtain room' where room': "fmlookup (rooms x) r = Some room'" "Room_ID room' = r"
    using same_outline_room [OF o assms(5)] room_outline_fields assms(6) by metis
  define y where "y = (if dropped \<or> 0 < gold then MarkRoomObjectsDirty r x else x)"
  have y: "rooms y = rooms x" "creatures y = creatures x" "players y = players x"
    by (simp_all add: y_def)
  have w': "w' = remove_monster ord m r y"
    using assms(1) d by (simp add: bury_monster_def assms(3) y_def)
  have "roster y = roster v" "creature_place y = creature_place v" "player_place y = player_place v"
    using outline_places [OF o] y by (simp_all add: place_defs [abs_def])
  then have "gone c r v w'" if "gone c r y w'"
    using that by (simp add: gone_def)
  with remove_monster_gone [of y r room' m c ord] room' assms(3) show ?thesis
    unfolding w' y(1) by blast
qed

lemma gone_seated:
  assumes "gone c r w w'" and "seated w" and "fmlookup (creatures w) c = Some m" and "Creature_RoomID m = r" and "Creature_PlayerID m = []"
  shows "seated w'"
proof (rule seated_without [OF assms(2)])
  show "creature_place w c = Some (Creature_ID m, r, [])"
    using assms(3-5) by (simp add: creature_place_def)
qed (use assms(1) in \<open>simp_all add: gone_def removeID_def cong: if_cong\<close>)

text \<open>C18. A dead monster leaves the world and the rest stays in order.  The death is reported; the monster is no creature any
  more, stands on no list of its room, has no ledger of damage and no enemies, and nobody has it, by its name, for an enemy;
  every other creature and every player is where it was, and the lists of all rooms are else what they were, in the same
  order.  What the monster carried lies in its room (or, for a trader, is deleted with its contents), its gold is one new
  money object of that value there, no other object moves, and the ownership invariant is kept.  This is for a monster
  that does not live any more, with what it wears on its list of things, in an existing room; that the death is reported
  needs no more than this.\<close>

theorem Death_drops_everything:
  assumes wh: "well_held w" and "fmlookup (objects w) [] = None" and "c \<noteq> []"
    and m: "fmlookup (creatures w) c = Some m" and "Creature_ID m = c" and "Creature_Kind m \<noteq> CreatureKindPlayer"
    and "Creature_PlayerID m = []" and "Creature_RoomID m = r" and "r \<noteq> []"
    and hp: "case fmlookup (Creature_Stats m) ''hpCurrent'' of None \<Rightarrow> True | Some hp \<Rightarrow> hp \<le> 0"
    and room: "fmlookup (rooms w) r = Some room" and "Room_ID room = r"
    and worn: "set (equipment_in ord m) \<subseteq> set (ObjectIDs (Creature_Inventory m))"
    and gold: "mget 0 (Creature_Stats m) ''gold'' = gold" and "in_i64 gold"
  shows "\<exists>w'. FinalizeMonsterDeathWithOptions ord c options w = (Inr True, w') \<and> well_held w'
     \<and> fmlookup (creatures w') c = None \<and> gone c r w w' \<and> (seated w \<longrightarrow> seated w')
     \<and> fmlookup (monsterDamage w') c = None \<and> fmlookup (enemies w') c = None
     \<and> (\<forall>k names. fmlookup (enemies w') k = Some names \<longrightarrow> Creature_DisplayName m \<notin> set names)
     \<and> (let after = after_death (creatureHasAnyFlag m [''tradeItems'', ''MTRADE'']) c r w in
        if gold \<le> 0 then where_is w' = after
        else \<exists>k. after k = None \<and> where_is w' = after(k \<mapsto> InRoom r) \<and> objectValue w' k = gold)"
proof -
  define trader where "trader = creatureHasAnyFlag m [''tradeItems'', ''MTRADE'']"
  define u where "u = awardMonsterDeathRewards ord m options w"
  define drops where "drops = carriedCreatureObjectIDs ord m"
  define v where "v = leave_behind trader c r drops u"
  obtain w' where w': "FinalizeMonsterDeathWithOptions ord c options w = (Inr True, w')" and rest: "well_held w'"
    "fmlookup (creatures w') c = None"
    "let after = after_death trader c r w in
        if gold \<le> 0 then where_is w' = after
        else \<exists>k. after k = None \<and> where_is w' = after(k \<mapsto> InRoom r) \<and> objectValue w' k = gold"
    using Death_holdings [OF assms, of options] unfolding trader_def by blast
  have run: "FinalizeMonsterDeathWithOptions ord c options w = bury_monster ord m r (\<not> trader \<and> drops \<noteq> []) gold v"
    using assms(3-13) gold hp
    by (simp add: FinalizeMonsterDeathWithOptions_def Let_def trader_def [symmetric] u_def [symmetric] drops_def [symmetric]
        v_def [symmetric] split: option.splits)
  have uw: "same_holdings w u" "same_places w u"
    unfolding u_def by (rule reward_holdings, rule same_places_reward)
  then have u: "well_held u" "rooms u = rooms w" "objects u = objects w"
    using same_holdings_well_held(1) [OF uw(1)] wh by (simp_all add: same_holdings_def)
  have drops: "set drops = set (refs u (OnCreature c))"
    using worn m by (auto simp: drops_def carriedCreatureObjectIDs_def same_holdings_refs [OF uw(1)]) (auto simp: refs_def)
  have v: "well_held v"
    using leave_behind_moves [OF u(1) _ \<open>c \<noteq> []\<close> _ drops, of trader r] room assms(2) \<open>r \<noteq> []\<close>
    unfolding v_def using u by simp_all
  have o: "same_outline u v"
    unfolding v_def using room assms(9) u(2) by (intro same_outline_leave_behind) simp_all
  then obtain room1 where room1: "fmlookup (rooms v) r = Some room1" "Room_ID room1 = r"
    using same_outline_room [of u v r room] u(2) room room_outline_fields assms(12) by metis
  have g: "gone c r v w' \<and> fmlookup (monsterDamage w') c = None \<and> fmlookup (enemies w') c = None
     \<and> (\<forall>k names. fmlookup (enemies w') k = Some names \<longrightarrow> Creature_DisplayName m \<notin> set names)"
    using w' unfolding run by (rule bury_monster_gone [OF _ v assms(5,9) room1])
  moreover have "gone c r w w'"
    using g uw(2) outline_places [OF o] by (simp add: gone_def same_places_def)
  ultimately show ?thesis
    using w' rest gone_seated [OF _ _ m assms(8,7)] unfolding trader_def by blast
qed

theorem Death_drops_everything_witness:
  "\<exists>w' ps cs. FinalizeMonsterDeathWithOptions sorted_list_of_fset ''m1'' \<lparr>Options_RewardGroup = \<lparr>Reward_LeaderID = [], Reward_FollowerIDs = []\<rparr>\<rparr>
         demoBattle = (Inr True, w')
     \<and> well_held w' \<and> fmlookup (creatures w') ''m1'' = None \<and> roster w' ''r1'' = Some (''r1'', ps, cs) \<and> ''m1'' \<notin> set cs
     \<and> where_is w' ''club'' = Some (InRoom ''r1'') \<and> (\<exists>k. where_is w' k = Some (InRoom ''r1'') \<and> objectValue w' k = 30)"
proof -
  let ?m = "the (fmlookup (creatures demoBattle) ''m1'')"
  let ?after = "after_death (creatureHasAnyFlag ?m [''tradeItems'', ''MTRADE'']) ''m1'' ''r1'' demoBattle"
  have "\<not> creatureHasAnyFlag ?m [''tradeItems'', ''MTRADE'']" and "where_is demoBattle ''club'' = Some (OnCreature ''m1'')"
    by code_simp+
  then have a: "?after ''club'' = Some (InRoom ''r1'')"
    by (simp add: after_death_def)
  have "fst (the (roster demoBattle ''r1'')) = ''r1''" "roster demoBattle ''r1'' \<noteq> None"
    by code_simp+
  then obtain ps cs where r: "roster demoBattle ''r1'' = Some (''r1'', ps, cs)"
    by auto
  have "\<exists>w'. FinalizeMonsterDeathWithOptions sorted_list_of_fset ''m1'' \<lparr>Options_RewardGroup = \<lparr>Reward_LeaderID = [], Reward_FollowerIDs = []\<rparr>\<rparr>
         demoBattle = (Inr True, w') \<and> well_held w' \<and> fmlookup (creatures w') ''m1'' = None
     \<and> gone ''m1'' ''r1'' demoBattle w' \<and> (seated demoBattle \<longrightarrow> seated w')
     \<and> fmlookup (monsterDamage w') ''m1'' = None \<and> fmlookup (enemies w') ''m1'' = None
     \<and> (\<forall>k names. fmlookup (enemies w') k = Some names \<longrightarrow> Creature_DisplayName ?m \<notin> set names)
     \<and> (let after = ?after in if (30::int) \<le> 0 then where_is w' = after
        else \<exists>k. after k = None \<and> where_is w' = after(k \<mapsto> InRoom ''r1'') \<and> objectValue w' k = 30)"
    by (rule Death_drops_everything [OF well_held_demoBattle, where room = "the (fmlookup (rooms demoBattle) ''r1'')"]; code_simp)
  then obtain w' k where w': "FinalizeMonsterDeathWithOptions sorted_list_of_fset ''m1'' \<lparr>Options_RewardGroup = \<lparr>Reward_LeaderID = [], Reward_FollowerIDs = []\<rparr>\<rparr>
         demoBattle = (Inr True, w')" "well_held w'" "fmlookup (creatures w') ''m1'' = None"
    and g: "gone ''m1'' ''r1'' demoBattle w'"
    and k: "?after k = None" "where_is w' = ?after(k \<mapsto> InRoom ''r1'')" "objectValue w' k = 30"
    by (auto simp: Let_def)
  from g have "roster w' ''r1'' = Some (''r1'', ps, filter (\<lambda>k. k \<noteq> ''m1'') cs)"
    by (simp add: gone_def r)
  moreover have "where_is w' ''club'' = Some (InRoom ''r1'')" "where_is w' k = Some (InRoom ''r1'')"
    using k(1,2) a by auto
  ultimately show ?thesis
    using w' k(3) by auto
qed

end
