(* ===== verification/Commands.thy ===== *)
theory Commands
  imports Runes Making
begin

text \<open>
  The command line: \<^verbatim>\<open>internal/commandparse\<close> (a line becomes slots of words and ordinals), the command
  table of \<^verbatim>\<open>internal/commandspec\<close>, and the resolution of a line in
  \<^verbatim>\<open>internal/engine/command/pipeline.go\<close>.
\<close>

subsection \<open>Slots\<close>

definition CommandMax :: nat where
  "CommandMax = 7"

definition DefaultVerb :: string where
  "DefaultVerb = utf8 [235, 167, 144]"

record Command =
  Command_Num :: nat
  Command_Str :: "string list"
  Command_Val :: "int list"

definition emptyCommand :: Command where
  "emptyCommand = \<lparr>Command_Num = 0, Command_Str = replicate CommandMax [], Command_Val = replicate CommandMax 0\<rparr>"

text \<open>Both separators are ASCII, so splitting at runes is splitting at bytes.\<close>

definition is_separator :: "char \<Rightarrow> bool" where
  "is_separator c \<longleftrightarrow> c = CHR '' '' \<or> c = CHR ''#''"

function fields_func :: "(char \<Rightarrow> bool) \<Rightarrow> string \<Rightarrow> string list" where
  "fields_func sep [] = []"
| "fields_func sep (c # s) =
     (if sep c then fields_func sep s
      else (c # takeWhile (\<lambda>d. \<not> sep d) s) # fields_func sep (dropWhile (\<lambda>d. \<not> sep d) s))"
  by pat_completeness auto
termination by (relation "measure (\<lambda>(sep, s). length s)") (auto simp: less_Suc_eq_le length_dropWhile_le)

definition splitTokens :: "string \<Rightarrow> string list" where
  "splitTokens input = fields_func is_separator input"

text \<open>The last rune is one of these ASCII characters exactly when the last byte is.\<close>

definition hasDefaultVerb :: "string \<Rightarrow> bool" where
  "hasDefaultVerb input \<longleftrightarrow> input \<noteq> [] \<and> last input \<in> {CHR '' '', CHR ''.'', CHR ''!'', CHR ''?''}"

definition parseNumberToken :: "string \<Rightarrow> int option" where
  "parseNumberToken token =
     (if token = [] then None
      else if hd token = CHR ''-'' \<and> length token = 1 then None
      else if \<not> list_all is_digit (if hd token = CHR ''-'' then tl token else token) then None
      else atoi token)"

definition setString :: "string list \<Rightarrow> nat \<Rightarrow> string \<Rightarrow> nat \<times> string list" where
  "setString slots n s = (if length slots \<le> n then (n, slots) else (n + 1, slots[n := s]))"

text \<open>The loops of the two parsers; \<open>n\<close> words and \<open>m\<close> ordinals are set.\<close>

fun parse_args :: "string list \<Rightarrow> nat \<Rightarrow> nat \<Rightarrow> string list \<Rightarrow> int list \<Rightarrow> nat \<times> nat \<times> string list \<times> int list" where
  "parse_args [] n m strs vals = (n, m, strs, vals)"
| "parse_args (token # args) n m strs vals =
     (if n = m
      then (case setString strs n token of
              (n, strs) \<Rightarrow> parse_args args n m strs (if m < CommandMax then vals[m := 1] else vals))
      else case parseNumberToken token of
        Some v \<Rightarrow>
          if CommandMax \<le> m then (n, m, strs, vals) else parse_args args n (m + 1) strs (vals[m := v])
      | None \<Rightarrow>
          (case setString strs n token of
             (n, strs) \<Rightarrow>
               if CommandMax \<le> m then (n, m, strs, vals) else parse_args args n (m + 1) strs (vals[m := 1])))"

fun parse_args_first :: "string list \<Rightarrow> nat \<Rightarrow> nat \<Rightarrow> string list \<Rightarrow> int list \<Rightarrow> nat \<times> nat \<times> string list \<times> int list" where
  "parse_args_first [] n m strs vals = (n, m, strs, vals)"
| "parse_args_first (token # args) n m strs vals =
     (case parseNumberToken token of
        Some v \<Rightarrow>
          if CommandMax \<le> m then (n, m, strs, vals) else parse_args_first args n (m + 1) strs (vals[m := v])
      | None \<Rightarrow>
          (case setString strs n token of
             (n, strs) \<Rightarrow>
               if CommandMax \<le> m then (n, m, strs, vals) else parse_args_first args n (m + 1) strs (vals[m := 1])))"

definition filled :: "nat \<times> nat \<times> string list \<times> int list \<Rightarrow> Command" where
  "filled r =
     (case r of (n, m, strs, vals) \<Rightarrow>
        \<lparr>Command_Num = n, Command_Str = strs,
         Command_Val = (if m < n \<and> m < CommandMax then vals[m := 1] else vals)\<rparr>)"

definition verb_and_args :: "string \<Rightarrow> (string \<times> string list) option" where
  "verb_and_args input =
     (let tokens = splitTokens input
      in if hasDefaultVerb input then Some (DefaultVerb, tokens)
         else if tokens \<noteq> [] then Some (last tokens, butlast tokens)
         else None)"

definition Parse :: "string \<Rightarrow> Command" where
  "Parse input =
     (if input = [] then emptyCommand
      else case verb_and_args input of
        None \<Rightarrow> emptyCommand
      | Some (verb, args) \<Rightarrow>
          (case setString (Command_Str emptyCommand) 0 verb of
             (n, strs) \<Rightarrow> filled (parse_args args n 0 strs ((Command_Val emptyCommand)[0 := 1]))))"

definition ParseCommandFirst :: "string \<Rightarrow> Command" where
  "ParseCommandFirst input =
     (case splitTokens input of
        [] \<Rightarrow> emptyCommand
      | token # args \<Rightarrow>
          (case setString (Command_Str emptyCommand) 0 token of
             (n, strs) \<Rightarrow> filled (parse_args_first args n 0 strs ((Command_Val emptyCommand)[0 := 1]))))"

subsection \<open>The command table\<close>

record CommandSpec =
  Spec_Name :: string
  Spec_Number :: int
  Spec_Handler :: string
  Spec_Privileged :: bool
  Spec_Special :: bool

record Match =
  Match_Command :: CommandSpec
  Match_Index :: nat
  Match_Exact :: bool

fun bad_spec :: "nat \<Rightarrow> CommandSpec list \<Rightarrow> go_error option" where
  "bad_spec i [] = None"
| "bad_spec i (spec # specs) =
     (if Spec_Name spec = [] then Some (Errorf ''command %d has empty name'' [itoa (int i)])
      else if \<not> ValidString (Spec_Name spec) then Some (Errorf ''command %d name is not valid UTF-8'' [itoa (int i)])
      else bad_spec (i + 1) specs)"

definition NewRegistry :: "CommandSpec list \<Rightarrow> CommandSpec list result" where
  "NewRegistry specs = (case bad_spec 0 specs of Some e \<Rightarrow> Inl e | None \<Rightarrow> Inr specs)"

definition hasRunePrefix :: "string \<Rightarrow> string \<Rightarrow> bool" where
  "hasRunePrefix s p \<longleftrightarrow>
     ValidString s \<and> ValidString p \<and> length (runes p) \<le> length (runes s)
     \<and> (\<forall>i < length (runes p). runes s ! i = runes p ! i)"

fun first_index :: "(CommandSpec \<Rightarrow> bool) \<Rightarrow> nat \<Rightarrow> CommandSpec list \<Rightarrow> (CommandSpec \<times> nat) option" where
  "first_index P i [] = None"
| "first_index P i (c # cs) = (if P c then Some (c, i) else first_index P (i + 1) cs)"

definition Resolve :: "CommandSpec list \<Rightarrow> string \<Rightarrow> Match option" where
  "Resolve commands input =
     (if input = [] \<or> \<not> ValidString input then None
      else case first_index (\<lambda>c. Spec_Name c = input) 0 commands of
        Some (c, i) \<Rightarrow> Some \<lparr>Match_Command = c, Match_Index = i, Match_Exact = True\<rparr>
      | None \<Rightarrow>
          (case first_index (\<lambda>c. hasRunePrefix (Spec_Name c) input) 0 commands of
             Some (c, i) \<Rightarrow> Some \<lparr>Match_Command = c, Match_Index = i, Match_Exact = False\<rparr>
           | None \<Rightarrow> None))"

subsection \<open>Resolution of a line\<close>

datatype ErrorCode = CodeEmptyCommand | CodeUnknownCommand | CodePrivilegedCommand

record ResolveError =
  RE_Code :: ErrorCode
  RE_Input :: string
  RE_Command :: string

record ResolvedCommand =
  RC_Input :: string
  RC_Parsed :: Command
  RC_Spec :: CommandSpec
  RC_MatchIndex :: nat
  RC_Exact :: bool
  RC_Args :: "string list"
  RC_Values :: "int list"
  RC_CmdName :: string

definition commandName :: "ResolvedCommand \<Rightarrow> string" where
  "commandName c = Command_Str (RC_Parsed c) ! 0"

definition Privileged :: "ResolvedCommand \<Rightarrow> bool" where
  "Privileged c \<longleftrightarrow> Spec_Privileged (RC_Spec c) \<or> hasPrefix (Spec_Name (RC_Spec c)) ''*'' \<or> hasPrefix (commandName c) ''*''"

definition legacyLowerASCII :: "string \<Rightarrow> string" where
  "legacyLowerASCII s = map lower_char s"

definition legacyLowerASCIICommand :: "Command \<Rightarrow> Command" where
  "legacyLowerASCIICommand parsed = parsed\<lparr>Command_Str := map legacyLowerASCII (Command_Str parsed)\<rparr>"

definition commandArgs :: "Command \<Rightarrow> string list" where
  "commandArgs parsed =
     (if Command_Num parsed \<le> 1 then [] else drop 1 (take (Command_Num parsed) (Command_Str parsed)))"

definition commandValues :: "Command \<Rightarrow> int list" where
  "commandValues parsed =
     (if Command_Num parsed \<le> 1 then [] else drop 1 (take (Command_Num parsed) (Command_Val parsed)))"

definition resolve_parsed :: "CommandSpec list \<Rightarrow> string \<Rightarrow> Command \<Rightarrow> (Command \<times> Match) option" where
  "resolve_parsed registry input parsed =
     (case Resolve registry (Command_Str parsed ! 0) of
        Some found \<Rightarrow> Some (parsed, found)
      | None \<Rightarrow>
          (let first = legacyLowerASCIICommand (ParseCommandFirst input)
           in if 0 < Command_Num first \<and> Command_Str first ! 0 \<noteq> Command_Str parsed ! 0
              then map_option (Pair first) (Resolve registry (Command_Str first ! 0))
              else None))"

definition ParseAndResolveWithOptions ::
  "string \<Rightarrow> CommandSpec list \<Rightarrow> (ResolvedCommand \<Rightarrow> bool) option \<Rightarrow> ResolveError + ResolvedCommand" where
  "ParseAndResolveWithOptions input registry policy =
     (let parsed = Parse input
      in if Command_Num parsed = 0 \<or> Command_Str parsed ! 0 = []
         then Inl \<lparr>RE_Code = CodeEmptyCommand, RE_Input = input, RE_Command = []\<rparr>
         else
           let parsed = legacyLowerASCIICommand parsed
           in case resolve_parsed registry input parsed of
                None \<Rightarrow> Inl \<lparr>RE_Code = CodeUnknownCommand, RE_Input = input, RE_Command = Command_Str parsed ! 0\<rparr>
              | Some (parsed, found) \<Rightarrow>
                  let resolved = \<lparr>RC_Input = input, RC_Parsed = parsed, RC_Spec = Match_Command found,
                        RC_MatchIndex = Match_Index found, RC_Exact = Match_Exact found,
                        RC_Args = commandArgs parsed, RC_Values = commandValues parsed,
                        RC_CmdName = Spec_Name (Match_Command found)\<rparr>
                  in if Privileged resolved \<and> (case policy of None \<Rightarrow> False | Some allow \<Rightarrow> \<not> allow resolved)
                     then Inl \<lparr>RE_Code = CodePrivilegedCommand, RE_Input = input, RE_Command = Command_Str parsed ! 0\<rparr>
                     else Inr resolved)"

subsection \<open>The items of a line\<close>

text \<open>
  A line names a verb and objects, each followed by an optional ordinal. The parser fills the words
  and the ordinals in two arrays of seven slots with two counters; what it is meant to compute is
  this list of items.
\<close>

fun items :: "string \<Rightarrow> string list \<Rightarrow> (string \<times> int) list" where
  "items s [] = [(s, 1)]"
| "items s (t # ts) =
     (case parseNumberToken t of
        Some v \<Rightarrow> (s, v) # (case ts of [] \<Rightarrow> [] | u # us \<Rightarrow> items u us)
      | None \<Rightarrow> (s, 1) # items t ts)"

definition next_items :: "string list \<Rightarrow> (string \<times> int) list" where
  "next_items ts = (case ts of [] \<Rightarrow> [] | u # us \<Rightarrow> items u us)"

definition line_items :: "string \<Rightarrow> (string \<times> int) list" where
  "line_items input =
     (if input = [] then [] else case verb_and_args input of None \<Rightarrow> [] | Some (verb, args) \<Rightarrow> items verb args)"

definition laid_out :: "(string \<times> int) list \<Rightarrow> Command" where
  "laid_out its =
     (let its = take CommandMax its; free = CommandMax - length its
      in \<lparr>Command_Num = length its, Command_Str = map fst its @ replicate free [],
          Command_Val = map snd its @ replicate free 0\<rparr>)"

lemma laid_out_full: "length d = CommandMax \<Longrightarrow> laid_out (d @ xs) = laid_out d"
  by (simp add: laid_out_def)

lemma items_Cons: "\<exists>v ts'. items s ts = (s, v) # ts'"
  by (cases ts) (auto split: option.split)

lemma update_slot: "length xs = k \<Longrightarrow> (xs @ y # zs)[k := z] = xs @ z # zs"
  by (simp add: list_update_append)

lemma parse_args_items:
  "length d < CommandMax \<Longrightarrow>
   filled (parse_args args (Suc (length d)) (length d) (map fst d @ s # replicate (6 - length d) [])
     (map snd d @ x # replicate (6 - length d) 0)) = laid_out (d @ items s args)"
  "length d \<le> CommandMax \<Longrightarrow>
   filled (parse_args args (length d) (length d) (map fst d @ replicate (CommandMax - length d) [])
     (map snd d @ replicate (CommandMax - length d) 0)) = laid_out (d @ next_items args)"
proof (induction args arbitrary: d s x)
  case Nil
  {
    case 1
    then show ?case
      by (simp add: filled_def laid_out_def update_slot Let_def) (simp add: CommandMax_def)
  next
    case 2
    then show ?case
      by (simp add: filled_def laid_out_def next_items_def Let_def)
  }
next
  case (Cons t args)
  {
    case 1
    then have slot: "(map snd d @ x # replicate (6 - length d) 0)[length d := v]
        = map snd (d @ [(s, v)]) @ replicate (CommandMax - length (d @ [(s, v)])) 0"
      and strs: "map fst d @ s # replicate (6 - length d) []
        = map fst (d @ [(s, v)]) @ replicate (CommandMax - length (d @ [(s, v)])) []" for v
      by (simp_all add: update_slot) (simp_all add: CommandMax_def)
    show ?case
    proof (cases "parseNumberToken t")
      case (Some v)
      have "length (d @ [(s, v)]) \<le> CommandMax"
        using 1 by simp
      from Cons.IH(2) [OF this] Some 1 show ?thesis
        unfolding slot [of v, symmetric] strs [of v, symmetric] by (simp add: next_items_def)
    next
      case None
      show ?thesis
      proof (cases "length d = 6")
        case True
        have "length (d @ [(s, 1)]) \<le> CommandMax"
          using 1 by simp
        moreover have "laid_out ((d @ [(s, 1)]) @ next_items args) = laid_out (d @ items s (t # args))"
          using True None laid_out_full [of "d @ [(s, 1)]" "next_items args"] laid_out_full [of "d @ [(s, 1)]" "items t args"]
          by (simp add: CommandMax_def)
        ultimately show ?thesis
          using Cons.IH(2) [of "d @ [(s, 1)]"] None True 1
          unfolding slot [of 1, symmetric] strs [of 1, symmetric]
          by (simp add: setString_def CommandMax_def)
      next
        case False
        with 1 have l: "length (d @ [(s, 1)]) < CommandMax" "0 < 6 - length d"
          by (simp_all add: CommandMax_def)
        define r where "r = 6 - Suc (length d)"
        with l have r: "6 - length d = Suc r" "6 - length (d @ [(s, 1)]) = r"
          by simp_all
        have "setString (map fst d @ s # replicate (6 - length d) []) (Suc (length d)) t
            = (Suc (Suc (length d)), map fst (d @ [(s, 1)]) @ t # replicate r [])"
          using r by (simp add: setString_def list_update_append)
        moreover have "(map snd d @ x # replicate (6 - length d) 0)[length d := 1]
            = map snd (d @ [(s, 1)]) @ 0 # replicate r 0"
          using r by (simp add: update_slot)
        ultimately show ?thesis
          using Cons.IH(1) [OF l(1), of t 0] None 1 r by (simp add: CommandMax_def)
      qed
    qed
  next
    case 2
    show ?case
    proof (cases "length d = CommandMax")
      case True
      then show ?thesis
        using Cons.IH(2) [of d] laid_out_full [of d] by (simp add: setString_def)
    next
      case False
      with 2 have l: "length d < CommandMax" "CommandMax - length d = Suc (6 - length d)"
        by (simp_all add: CommandMax_def)
      then show ?thesis
        using Cons.IH(1) [OF l(1), of t 1]
        by (simp add: setString_def update_slot next_items_def)
    qed
  }
qed

lemma Parse_laid_out: "Parse input = laid_out (line_items input)"
proof (cases "input = [] \<or> verb_and_args input = None")
  case True
  then show ?thesis
    by (auto simp: Parse_def line_items_def laid_out_def emptyCommand_def)
next
  case False
  then obtain verb args where v: "input \<noteq> []" "verb_and_args input = Some (verb, args)"
    by auto
  have "setString (Command_Str emptyCommand) 0 verb = (Suc 0, verb # replicate 6 [])"
    and "(Command_Val emptyCommand)[0 := 1] = 1 # replicate 6 0"
    by (simp_all add: setString_def emptyCommand_def CommandMax_def numeral_eq_Suc)
  then show ?thesis
    using parse_args_items(1) [of "[]" args verb 1] v
    by (simp add: Parse_def line_items_def CommandMax_def)
qed

text \<open>C6. For every line the two counters and arrays of the verb-final parser hold exactly the first
  seven items of the line (a word and its ordinal, 1 where none is given), and the slots after them
  are empty.\<close>

theorem Parse_items: "Parse input = laid_out (line_items input)"
  by (rule Parse_laid_out)

subsection \<open>Printing a line\<close>

definition print_line :: "(string \<times> int) list \<Rightarrow> string" where
  "print_line its =
     (case its of
        [] \<Rightarrow> []
      | (verb, k) # args \<Rightarrow> join_with '' '' (itoa k # concat (map (\<lambda>(s, v). [s, itoa v]) args) @ [verb]))"

definition is_word :: "string \<Rightarrow> bool" where
  "is_word s \<longleftrightarrow> s \<noteq> [] \<and> \<not> list_ex is_separator s"

definition is_verb :: "string \<Rightarrow> bool" where
  "is_verb s \<longleftrightarrow> is_word s \<and> last s \<notin> {CHR ''.'', CHR ''!'', CHR ''?''}"

lemma digit_not_separator: "is_digit c \<Longrightarrow> \<not> is_separator c"
  by (auto simp: is_digit_def is_separator_def)

lemma itoa_word: "is_word (itoa k)"
  using list_all_is_digit_nat_digits [of "nat k"] list_all_is_digit_nat_digits [of "nat (- k)"]
  by (auto simp: is_word_def itoa_def list_all_iff list_ex_iff dest: digit_not_separator)
     (simp_all add: is_separator_def)

lemma parseNumberToken_itoa: "in_i64 k \<Longrightarrow> parseNumberToken (itoa k) = Some k"
proof -
  assume "in_i64 k"
  moreover obtain c t where "nat_digits (nat k) = c # t"
    by (cases "nat_digits (nat k)") auto
  moreover have "list_all is_digit (c # t)"
    using list_all_is_digit_nat_digits [of "nat k"] calculation(2) by simp
  ultimately show ?thesis
    using nat_digits_head [of "nat k" c t] atoi_itoa [of k]
    by (auto simp: parseNumberToken_def) (auto simp: itoa_def split: if_splits)
qed

lemma splitTokens_word:
  "is_word w \<Longrightarrow> splitTokens (w @ CHR '' '' # s) = w # splitTokens s"
  "is_word w \<Longrightarrow> splitTokens w = [w]"
proof -
  have t: "takeWhile (\<lambda>d. \<not> is_separator d) (w @ CHR '' '' # s) = w"
    "dropWhile (\<lambda>d. \<not> is_separator d) (w @ CHR '' '' # s) = CHR '' '' # s"
    "takeWhile (\<lambda>d. \<not> is_separator d) w = w" "dropWhile (\<lambda>d. \<not> is_separator d) w = []"
    if "\<not> list_ex is_separator w" for w
    using that by (induction w) (auto simp: is_separator_def)
  show "is_word w \<Longrightarrow> splitTokens (w @ CHR '' '' # s) = w # splitTokens s"
    using t(1,2) [of "tl w"] by (cases w) (auto simp: is_word_def splitTokens_def is_separator_def)
  show "is_word w \<Longrightarrow> splitTokens w = [w]"
    using t(3,4) [of "tl w"] by (cases w) (simp_all add: is_word_def splitTokens_def del: dropWhile_eq_Nil_conv)
qed

lemma splitTokens_join: "list_all is_word ws \<Longrightarrow> splitTokens (join_with '' '' ws) = ws"
  by (induction "'' ''" ws rule: join_with.induct) (simp_all add: splitTokens_word splitTokens_def [of "[]"])

lemma last_join: "ws \<noteq> [] \<Longrightarrow> last ws \<noteq> [] \<Longrightarrow> last (join_with sep ws) = last (last ws) \<and> join_with sep ws \<noteq> []"
  by (induction sep ws rule: join_with.induct) auto

lemma items_print:
  assumes "in_i64 k" and "list_all (\<lambda>(s, v). in_i64 v) args"
  shows "items verb (itoa k # concat (map (\<lambda>(s, v). [s, itoa v]) args)) = (verb, k) # args"
  using assms by (induction args arbitrary: verb k) (auto simp: parseNumberToken_itoa)

text \<open>C7. A line that is printed from at most seven items is parsed to these items: each word with its
  ordinal, the verb first, whatever the words look like (numbers included), provided no word is empty
  or has a space or \<open>#\<close>, and the verb does not end with a mark that stands for the default verb.\<close>

theorem Parse_print_roundtrip:
  assumes "its = (verb, k) # args" and "length its \<le> CommandMax" and "is_verb verb"
    and "list_all (\<lambda>(s, v). is_word s \<and> in_i64 v) args" and "in_i64 k"
  shows "Parse (print_line its) =
     \<lparr>Command_Num = length its, Command_Str = map fst its @ replicate (CommandMax - length its) [],
      Command_Val = map snd its @ replicate (CommandMax - length its) 0\<rparr>"
proof -
  define ws where "ws = itoa k # concat (map (\<lambda>(s, v). [s, itoa v]) args)"
  have w: "is_word verb"
    using assms(3) by (simp add: is_verb_def)
  have "list_all is_word (ws @ [verb])"
    using assms(4) w by (auto simp: ws_def list_all_iff itoa_word)
  then have t: "splitTokens (print_line its) = ws @ [verb]"
    using splitTokens_join by (simp add: print_line_def assms(1) ws_def)
  have l: "last (print_line its) = last verb \<and> print_line its \<noteq> []"
    using last_join [of "ws @ [verb]" "'' ''"] w by (simp add: print_line_def assms(1) ws_def is_word_def)
  moreover have "last verb \<noteq> CHR '' ''"
    using w last_in_set [of verb] by (auto simp: is_word_def list_ex_iff is_separator_def)
  ultimately have "\<not> hasDefaultVerb (print_line its)"
    using assms(3) by (auto simp: hasDefaultVerb_def is_verb_def)
  then have "line_items (print_line its) = its"
    using l t items_print [of k args verb] assms
    by (auto simp: line_items_def verb_and_args_def ws_def list_all_iff Let_def)
  then have "Parse (print_line its) = laid_out its"
    using Parse_laid_out by simp
  then show ?thesis
    using assms(2) by (simp add: laid_out_def Let_def)
qed

theorem Parse_print_roundtrip_witness:
  "Parse (print_line [(''get'', 1), (''sword'', 2), (''3'', 4)]) =
     \<lparr>Command_Num = 3, Command_Str = [''get'', ''sword'', ''3'', [], [], [], []],
      Command_Val = [1, 2, 4, 0, 0, 0, 0]\<rparr>
   \<and> print_line [(''get'', 1), (''sword'', 2), (''3'', 4)] = ''1 sword 2 3 4 get''"
  using Parse_print_roundtrip [of "[(''get'', 1), (''sword'', 2), (''3'', 4)]" "''get''" 1 "[(''sword'', 2), (''3'', 4)]"]
  by (simp add: CommandMax_def is_verb_def is_word_def is_separator_def in_i64_def numeral_eq_Suc) code_simp

subsection \<open>Precedence in the command table\<close>

lemma first_index_Some:
  "first_index P k cs = Some (c, i) \<longleftrightarrow>
     k \<le> i \<and> i - k < length cs \<and> cs ! (i - k) = c \<and> P c \<and> (\<forall>j < i - k. \<not> P (cs ! j))"
proof (induction cs arbitrary: k)
  case (Cons x xs)
  show ?case
  proof (cases "P x")
    case True
    then show ?thesis
      by (cases "i = k") (auto simp: nth_Cons' dest: spec [of _ 0])
  next
    case False
    have "(\<forall>j < i - k. \<not> P ((x # xs) ! j)) \<longleftrightarrow> (\<forall>j < i - Suc k. \<not> P (xs ! j))" if "Suc k \<le> i"
      using that False by (auto simp: All_less_Suc2 Suc_diff_Suc [symmetric] Suc_le_eq)
    moreover have "(x # xs) ! (i - k) = xs ! (i - Suc k)" if "Suc k \<le> i"
      using that by (simp add: nth_Cons')
    ultimately show ?thesis
      using False Cons.IH [of "Suc k"] by (cases "i = k") (auto simp: Suc_le_eq nth_Cons')
  qed
qed simp

lemma first_index_None: "first_index P k cs = None \<longleftrightarrow> (\<forall>c \<in> set cs. \<not> P c)"
  by (induction cs arbitrary: k) auto

lemma bad_spec_None: "bad_spec i cs = None \<Longrightarrow> c \<in> set cs \<Longrightarrow> Spec_Name c \<noteq> [] \<and> ValidString (Spec_Name c)"
  by (induction i cs rule: bad_spec.induct) (auto split: if_splits)

lemma hasRunePrefix_prefix: "hasRunePrefix s p \<longleftrightarrow> ValidString s \<and> ValidString p \<and> prefix p s"
proof (cases "ValidString s \<and> ValidString p")
  case True
  have "prefix (runes p) (runes s) \<longleftrightarrow>
      length (runes p) \<le> length (runes s) \<and> (\<forall>i < length (runes p). runes s ! i = runes p ! i)"
    by (auto simp: prefix_def nth_append list_eq_iff_nth_eq intro!: exI [of _ "drop (length (runes p)) (runes s)"])
  then show ?thesis
    using True prefix_runes_iff [of s p] by (simp add: hasRunePrefix_def)
qed (auto simp: hasRunePrefix_def)

text \<open>C8. In a registry that was accepted, a word resolves to the first command of exactly that name, and
  only when no command has the name to the first command the word is a prefix of; the empty word and
  a word that is not valid UTF-8 resolve to nothing. The comparison of runes is one of bytes.\<close>

theorem Resolve_precedence:
  assumes "NewRegistry specs = Inr cs"
  shows "Resolve cs input = Some found \<longleftrightarrow>
    input \<noteq> [] \<and> ValidString input \<and> Match_Index found < length specs
    \<and> Match_Command found = specs ! Match_Index found
    \<and> (if Match_Exact found
       then Spec_Name (Match_Command found) = input \<and> (\<forall>j < Match_Index found. Spec_Name (specs ! j) \<noteq> input)
       else (\<forall>c \<in> set specs. Spec_Name c \<noteq> input) \<and> prefix input (Spec_Name (Match_Command found))
            \<and> (\<forall>j < Match_Index found. \<not> prefix input (Spec_Name (specs ! j))))"
proof (cases "input \<noteq> [] \<and> ValidString input")
  case False
  then show ?thesis
    by (auto simp: Resolve_def)
next
  case input: True
  have cs: "cs = specs" "bad_spec 0 specs = None"
    using assms by (auto simp: NewRegistry_def split: option.splits)
  have valid: "ValidString (Spec_Name c)" if "c \<in> set specs" for c
    using bad_spec_None [OF cs(2) that] by simp
  obtain c i e where found: "found = \<lparr>Match_Command = c, Match_Index = i, Match_Exact = e\<rparr>"
    by (cases found) auto
  show ?thesis
  proof (cases "first_index (\<lambda>c. Spec_Name c = input) 0 specs")
    case (Some ci)
    then obtain c' i' where ci: "first_index (\<lambda>c. Spec_Name c = input) 0 specs = Some (c', i')"
      by (cases ci) auto
    have "c' \<in> set specs \<and> Spec_Name c' = input"
      using ci [unfolded first_index_Some] by (auto dest: nth_mem)
    then have some: "\<not> (\<forall>c \<in> set specs. Spec_Name c \<noteq> input)"
      by blast
    have "Resolve cs input = Some found \<longleftrightarrow> e \<and> first_index (\<lambda>c. Spec_Name c = input) 0 specs = Some (c, i)"
      using ci input by (auto simp: Resolve_def cs(1) found)
    then show ?thesis
      using input some unfolding first_index_Some by (cases e) (auto simp: found)
  next
    case None
    then have none: "\<forall>c \<in> set specs. Spec_Name c \<noteq> input"
      by (simp add: first_index_None)
    have "Resolve cs input = Some found \<longleftrightarrow>
        \<not> e \<and> first_index (\<lambda>c. hasRunePrefix (Spec_Name c) input) 0 specs = Some (c, i)"
      using None input by (auto simp: Resolve_def cs found split: option.split)
    also have "\<dots> \<longleftrightarrow> \<not> e \<and> i < length specs \<and> specs ! i = c \<and> prefix input (Spec_Name c)
        \<and> (\<forall>j < i. \<not> prefix input (Spec_Name (specs ! j)))"
    proof -
      have "(i < length specs \<and> specs ! i = c \<and> hasRunePrefix (Spec_Name c) input \<and> (\<forall>j < i. \<not> hasRunePrefix (Spec_Name (specs ! j)) input))
          = (i < length specs \<and> specs ! i = c \<and> prefix input (Spec_Name c) \<and> (\<forall>j < i. \<not> prefix input (Spec_Name (specs ! j))))"
        using input valid [OF nth_mem] by (auto simp: hasRunePrefix_prefix)
      then show ?thesis
        unfolding first_index_Some by simp
    qed
    finally show ?thesis
      using input none by (auto simp: found)
  qed
qed

definition demoTable :: "CommandSpec list" where
  "demoTable = map (\<lambda>n. \<lparr>Spec_Name = n, Spec_Number = 1, Spec_Handler = n, Spec_Privileged = False, Spec_Special = False\<rparr>)
     [''goto'', ''get'', ''go'', ''*kill'']"

theorem Resolve_precedence_witness:
  "Resolve demoTable ''g'' = Some \<lparr>Match_Command = demoTable ! 0, Match_Index = 0, Match_Exact = False\<rparr>
   \<and> Resolve demoTable ''go'' = Some \<lparr>Match_Command = demoTable ! 2, Match_Index = 2, Match_Exact = True\<rparr>"
proof -
  have t: "NewRegistry demoTable = Inr demoTable"
    by code_simp
  have v: "ValidString ''g''" "ValidString ''go''"
    by code_simp+
  have l: "\<forall>j < (2::nat). Spec_Name (demoTable ! j) \<noteq> ''go''"
    by (simp add: demoTable_def numeral_eq_Suc less_Suc_eq)
  show ?thesis
    unfolding Resolve_precedence [OF t] using v l by (simp add: demoTable_def)
qed
end
