(* ===== verification/Dispatch.thy ===== *)
theory Dispatch
  imports Commands Sidecars
begin

text \<open>
  The dispatcher of \<^verbatim>\<open>internal/engine/command/dispatch.go\<close>: a line is resolved and handed to a handler, after
  the aliases of the player are expanded, once; and the alias files of \<^verbatim>\<open>account_commands.go\<close>. The
  handlers are parameters: a function of the context, whose last component stands for everything
  else a handler reaches. The counter of the metrics package is left out.
\<close>

subsection \<open>Truncation by the width of the legacy encoding\<close>

text \<open>\<open>euckr\<close> is the encoder of \<^verbatim>\<open>golang.org/x/text/encoding/korean\<close>; \<open>None\<close> is its error.\<close>

definition rune_width :: "(string \<Rightarrow> string option) \<Rightarrow> int \<Rightarrow> nat" where
  "rune_width euckr r =
     (case euckr (string_of_runes [r]) of Some e \<Rightarrow> length e | None \<Rightarrow> length (string_of_runes [r]))"

fun truncate_runes :: "(int \<Rightarrow> nat) \<Rightarrow> nat \<Rightarrow> nat \<Rightarrow> int list \<Rightarrow> int list" where
  "truncate_runes width limit used [] = []"
| "truncate_runes width limit used (r # rs) =
     (if limit < used + width r then [] else r # truncate_runes width limit (used + width r) rs)"

definition legacyTruncateBytes :: "(string \<Rightarrow> string option) \<Rightarrow> string \<Rightarrow> int \<Rightarrow> string" where
  "legacyTruncateBytes euckr s limit =
     (if limit \<le> 0 then []
      else string_of_runes (truncate_runes (rune_width euckr) (nat limit) 0 (runes s)))"

subsection \<open>Aliases\<close>

record PlayerAlias =
  Alias_Alias :: string
  Alias_Process :: string

definition legacyAliasExpandedCommandMaxBytes :: int where
  "legacyAliasExpandedCommandMaxBytes = 255"

definition legacyAliasMaxExpandedCommands :: nat where
  "legacyAliasMaxExpandedCommands = 64"

definition legacyAliasMaxCount :: nat where
  "legacyAliasMaxCount = 100"

definition legacyAliasInputBeforeCommand :: "string \<Rightarrow> string" where
  "legacyAliasInputBeforeCommand fullstr =
     (let s = trimSpace fullstr
      in if CHR '' '' \<in> set s then rev (tl (dropWhile (\<lambda>c. c \<noteq> CHR '' '') (rev s))) else [])"

definition legacyAliasCommandArgs :: "string \<Rightarrow> string list" where
  "legacyAliasCommandArgs s = take 16 (fields_func (\<lambda>c. c = CHR '' '') s)"

definition wrapped_number :: "string \<Rightarrow> int" where
  "wrapped_number ds = foldl (\<lambda>v c. i64 (v * 10 + int (digit_val c))) 0 ds"

function substitute :: "string \<Rightarrow> string list \<Rightarrow> string \<Rightarrow> string" where
  "substitute whole args [] = []"
| "substitute whole args (c # s) =
     (if c \<noteq> CHR ''$'' then c # substitute whole args s
      else case s of
        [] \<Rightarrow> []
      | d # s' \<Rightarrow>
          if d = CHR ''*'' then whole @ substitute whole args s'
          else let num = wrapped_number (takeWhile is_digit s)
               in (if num \<le> 0 \<or> int (length args) < num then [] else args ! nat (num - 1))
                  @ substitute whole args (dropWhile is_digit s))"
  by pat_completeness auto
termination
  by (relation "measure (\<lambda>(w, a, s). length s)") (auto simp: less_Suc_eq_le simp del: dropWhile.simps intro: order_trans [OF length_dropWhile_le])

definition legacySplitAliasCommands :: "string \<Rightarrow> string list" where
  "legacySplitAliasCommands expanded =
     take legacyAliasMaxExpandedCommands (filter (\<lambda>p. trimSpace p \<noteq> []) (split_at CHR '';'' expanded))"

definition legacyExpandAliasCommands :: "(string \<Rightarrow> string option) \<Rightarrow> string \<Rightarrow> string \<Rightarrow> string list" where
  "legacyExpandAliasCommands euckr process fullstr =
     (let whole = legacyAliasInputBeforeCommand fullstr; args = legacyAliasCommandArgs whole
      in legacySplitAliasCommands
           (legacyTruncateBytes euckr (substitute whole args process) legacyAliasExpandedCommandMaxBytes))"

subsection \<open>The dispatcher\<close>

type_synonym Status = int

definition StatusDefault :: Status where
  "StatusDefault = 0"

record 'w Context =
  Ctx_SessionID :: string
  Ctx_ActorID :: string
  Ctx_Output :: "string list"
  Ctx_Rest :: 'w

datatype dispatch_error =
    NotResolved ResolveError
  | ErrUnhandledCommand ResolvedCommand
  | HandlerError go_error

type_synonym 'w outcome = "(Status \<times> dispatch_error option) \<times> 'w Context"
type_synonym 'w Handler = "'w Context \<Rightarrow> ResolvedCommand \<Rightarrow> 'w outcome"

record 'w Dispatcher =
  D_Registry :: "CommandSpec list"
  D_Handlers :: "string \<Rightarrow> 'w Handler option"
  D_NumberHandlers :: "int \<Rightarrow> 'w Handler option"
  D_Special :: "(int \<Rightarrow> 'w Handler) option"
  D_Privilege :: "(ResolvedCommand \<Rightarrow> bool) option"
  D_AliasStore :: "('w \<Rightarrow> PlayerID \<Rightarrow> PlayerAlias list result) option"

definition WriteString :: "string \<Rightarrow> 'w Context \<Rightarrow> 'w Context" where
  "WriteString s ctx = (if s = [] then ctx else ctx\<lparr>Ctx_Output := Ctx_Output ctx @ [s]\<rparr>)"

definition DispatchResolved :: "'w Dispatcher \<Rightarrow> 'w Context \<Rightarrow> ResolvedCommand \<Rightarrow> 'w outcome" where
  "DispatchResolved d ctx resolved =
     (let unhandled = ((StatusDefault, Some (ErrUnhandledCommand resolved)), ctx)
      in if Spec_Special (RC_Spec resolved)
         then (case D_Special d of
                 None \<Rightarrow> unhandled
               | Some special \<Rightarrow> special (Spec_Number (RC_Spec resolved)) ctx resolved)
         else case (if Spec_Handler (RC_Spec resolved) \<noteq> [] then D_Handlers d (Spec_Handler (RC_Spec resolved)) else None) of
           Some handler \<Rightarrow> handler ctx resolved
         | None \<Rightarrow>
             (case D_NumberHandlers d (Spec_Number (RC_Spec resolved)) of
                Some handler \<Rightarrow> handler ctx resolved
              | None \<Rightarrow> unhandled))"

definition expandAliasLine ::
  "(string \<Rightarrow> string option) \<Rightarrow> 'w Dispatcher \<Rightarrow> 'w Context \<Rightarrow> string \<Rightarrow> bool \<Rightarrow> string list option result" where
  "expandAliasLine euckr d ctx line allowAlias =
     (case D_AliasStore d of
        None \<Rightarrow> Inr None
      | Some listAliases \<Rightarrow>
          if \<not> allowAlias \<or> Ctx_ActorID ctx = [] then Inr None
          else let parsed = Parse line
               in if Command_Num parsed = 0 \<or> Command_Str parsed ! 0 = [] then Inr None
                  else let aliasName = legacyLowerASCII (Command_Str parsed ! 0)
                       in case listAliases (Ctx_Rest ctx) (Ctx_ActorID ctx) of
                            Inl err \<Rightarrow> Inl err
                          | Inr aliases \<Rightarrow>
                              Inr (map_option (\<lambda>a. legacyExpandAliasCommands euckr (Alias_Process a) line)
                                     (find (\<lambda>a. Alias_Alias a = aliasName) aliases)))"

text \<open>
  \<^verbatim>\<open>dispatchLine\<close> calls itself on the expanded lines with \<^verbatim>\<open>allowAlias\<close> false, where it expands nothing:
  \<open>dispatch_plain\<close> is its part after the expansion, and \<open>dispatch_each\<close> its loop over the expanded lines.
\<close>

definition dispatch_plain :: "'w Dispatcher \<Rightarrow> 'w Context \<Rightarrow> string \<Rightarrow> 'w outcome" where
  "dispatch_plain d ctx line =
     (case ParseAndResolveWithOptions line (D_Registry d) (D_Privilege d) of
        Inl err \<Rightarrow> ((StatusDefault, Some (NotResolved err)), ctx)
      | Inr resolved \<Rightarrow> DispatchResolved d ctx resolved)"

fun dispatch_each :: "('w Context \<Rightarrow> string \<Rightarrow> 'w outcome) \<Rightarrow> Status \<Rightarrow> 'w Context \<Rightarrow> string list \<Rightarrow> 'w outcome" where
  "dispatch_each dispatch status ctx [] = ((status, None), ctx)"
| "dispatch_each dispatch status ctx (line # rest) =
     (case dispatch (WriteString [CHR 0x0A] ctx) line of
        ((status, err), ctx) \<Rightarrow>
          if err \<noteq> None \<or> status \<noteq> StatusDefault then ((status, err), ctx)
          else dispatch_each dispatch status ctx rest)"

definition dispatchLine ::
  "(string \<Rightarrow> string option) \<Rightarrow> 'w Dispatcher \<Rightarrow> 'w Context \<Rightarrow> string \<Rightarrow> bool \<Rightarrow> 'w outcome" where
  "dispatchLine euckr d ctx line allowAlias =
     (case expandAliasLine euckr d ctx line allowAlias of
        Inl err \<Rightarrow> ((StatusDefault, Some (HandlerError err)), ctx)
      | Inr (Some expanded) \<Rightarrow> dispatch_each (dispatch_plain d) StatusDefault ctx expanded
      | Inr None \<Rightarrow> dispatch_plain d ctx line)"

definition DispatchLine :: "(string \<Rightarrow> string option) \<Rightarrow> 'w Dispatcher \<Rightarrow> 'w Context \<Rightarrow> string \<Rightarrow> 'w outcome" where
  "DispatchLine euckr d ctx line = dispatchLine euckr d ctx line True"

text \<open>The equation of the source: the recursive calls have the aliases switched off.\<close>

lemma expand_none [simp]: "expandAliasLine euckr d ctx line False = Inr None"
  by (simp add: expandAliasLine_def split: option.split)

lemma dispatchLine_plain [simp]: "dispatchLine euckr d ctx line False = dispatch_plain d ctx line"
  by (simp add: dispatchLine_def)

lemma dispatchLine_rec:
  "dispatchLine euckr d ctx line allowAlias =
     (case expandAliasLine euckr d ctx line allowAlias of
        Inl err \<Rightarrow> ((StatusDefault, Some (HandlerError err)), ctx)
      | Inr (Some expanded) \<Rightarrow>
          dispatch_each (\<lambda>ctx line. dispatchLine euckr d ctx line False) StatusDefault ctx expanded
      | Inr None \<Rightarrow> dispatch_plain d ctx line)"
  unfolding dispatchLine_plain by (rule dispatchLine_def)

subsection \<open>Refused commands\<close>

definition refused :: "'w Dispatcher \<Rightarrow> ResolvedCommand \<Rightarrow> bool" where
  "refused d r \<longleftrightarrow> Privileged r \<and> (case D_Privilege d of None \<Rightarrow> False | Some allow \<Rightarrow> \<not> allow r)"

lemma resolved_not_refused:
  "ParseAndResolveWithOptions line (D_Registry d) (D_Privilege d) = Inr r \<Longrightarrow> \<not> refused d r"
  by (auto simp: ParseAndResolveWithOptions_def refused_def Let_def split: if_splits option.splits)

text \<open>C9. No handler is ever run on a command the privilege policy refuses, not even through an alias: two
  dispatchers that share table, policy and alias store, and differ only in what their handlers do on
  refused commands, treat every line alike.\<close>

theorem Refused_never_run:
  assumes "D_Registry d' = D_Registry d" and "D_Privilege d' = D_Privilege d" and "D_AliasStore d' = D_AliasStore d"
    and "\<And>ctx r. \<not> refused d r \<Longrightarrow> DispatchResolved d' ctx r = DispatchResolved d ctx r"
  shows "DispatchLine euckr d' ctx line = DispatchLine euckr d ctx line"
proof -
  have "dispatch_plain d' ctx line = dispatch_plain d ctx line" for ctx line
    using assms(1,2,4) resolved_not_refused [of line d] by (auto simp: dispatch_plain_def split: sum.split)
  then have plain: "dispatch_plain d' = dispatch_plain d"
    by blast
  have same: "expandAliasLine euckr d' ctx line True = expandAliasLine euckr d ctx line True"
    unfolding expandAliasLine_def assms(3) ..
  show ?thesis
    unfolding DispatchLine_def dispatchLine_def plain same ..
qed

definition demoHandler :: "string \<Rightarrow> nat Handler" where
  "demoHandler s ctx r = ((StatusDefault, None), WriteString s ctx\<lparr>Ctx_Rest := Ctx_Rest ctx + 1\<rparr>)"

definition demoDispatcher :: "string \<Rightarrow> nat Dispatcher" where
  "demoDispatcher killed =
     \<lparr>D_Registry = demoTable,
      D_Handlers = (\<lambda>h. if h = ''*kill'' then Some (\<lambda>ctx r. demoHandler (if Privileged r then killed else h) ctx r)
                    else Some (demoHandler h)),
      D_NumberHandlers = (\<lambda>n. None), D_Special = None, D_Privilege = Some (\<lambda>r. False),
      D_AliasStore = Some (\<lambda>w p. Inr [\<lparr>Alias_Alias = ''k'', Alias_Process = ''go;$1 *kill;get''\<rparr>])\<rparr>"

definition demoContext :: "nat Context" where
  "demoContext = \<lparr>Ctx_SessionID = ''s1'', Ctx_ActorID = ''player:a'', Ctx_Output = [], Ctx_Rest = 0\<rparr>"

definition ascii_only :: "string \<Rightarrow> string option" where
  "ascii_only s = Some s"

theorem Refused_never_run_witness:
  "DispatchLine ascii_only (demoDispatcher ''dead'') demoContext ''bob k''
     = DispatchLine ascii_only (demoDispatcher ''alive'') demoContext ''bob k''
   \<and> Ctx_Output (snd (DispatchLine ascii_only (demoDispatcher ''alive'') demoContext ''bob k'')) = [[CHR 0x0A], ''go'', [CHR 0x0A]]"
proof
  show "DispatchLine ascii_only (demoDispatcher ''dead'') demoContext ''bob k''
     = DispatchLine ascii_only (demoDispatcher ''alive'') demoContext ''bob k''"
  proof (rule Refused_never_run)
    fix ctx and r :: ResolvedCommand
    assume "\<not> refused (demoDispatcher ''alive'') r"
    then have "\<not> Privileged r"
      by (simp add: refused_def demoDispatcher_def)
    then show "DispatchResolved (demoDispatcher ''dead'') ctx r = DispatchResolved (demoDispatcher ''alive'') ctx r"
      by (cases "Spec_Special (RC_Spec r)"; cases "Spec_Handler (RC_Spec r) = []"; cases "Spec_Handler (RC_Spec r) = ''*kill''")
         (simp_all add: DispatchResolved_def demoDispatcher_def Let_def)
  qed (simp_all add: demoDispatcher_def)
  show "Ctx_Output (snd (DispatchLine ascii_only (demoDispatcher ''alive'') demoContext ''bob k'')) = [[CHR 0x0A], ''go'', [CHR 0x0A]]"
    by code_simp
qed

subsection \<open>What truncation keeps\<close>

lemma truncate_runes_prefix: "prefix (truncate_runes width limit used rs) rs"
  by (induction width limit used rs rule: truncate_runes.induct) auto

lemma truncate_runes_width:
  "used \<le> limit \<Longrightarrow> used + sum_list (map width (truncate_runes width limit used rs)) \<le> limit"
  by (induction width limit used rs rule: truncate_runes.induct) auto

lemma truncate_runes_longest:
  "prefix p rs \<Longrightarrow> used + sum_list (map width p) \<le> limit \<Longrightarrow> prefix p (truncate_runes width limit used rs)"
proof (induction width limit used rs arbitrary: p rule: truncate_runes.induct)
  case (2 width limit used r rs)
  then show ?case
    by (cases p) (auto simp: add.assoc)
qed simp

definition legacy_width :: "(string \<Rightarrow> string option) \<Rightarrow> string \<Rightarrow> nat" where
  "legacy_width euckr s = sum_list (map (rune_width euckr) (runes s))"

text \<open>Truncation of a valid text to a width of the legacy encoding keeps a valid text: a part of the text
  from its start that is not wider than the limit, and the longest such part, whatever the encoder
  does.\<close>

theorem Truncation_longest:
  assumes "ValidString s" and "0 < limit"
    and "kept = legacyTruncateBytes euckr s limit"
  shows "ValidString kept \<and> prefix kept s \<and>
    (\<forall>p. ValidString p \<and> prefix p s \<longrightarrow> (int (legacy_width euckr p) \<le> limit \<longleftrightarrow> prefix p kept))"
proof -
  define rs where "rs = truncate_runes (rune_width euckr) (nat limit) 0 (runes s)"
  have rs: "prefix rs (runes s)"
    unfolding rs_def by (rule truncate_runes_prefix)
  then have sc: "list_all scalar rs"
    using valid_runes(2) [OF assms(1)] by (auto simp: prefix_def)
  have kept: "kept = string_of_runes rs"
    using assms(2) by (simp add: assms(3) legacyTruncateBytes_def rs_def)
  then have runes: "runes kept = rs" and valid: "ValidString kept"
    using sc by (simp_all add: runes_string_of_runes ValidString_of_runes)
  have "prefix kept s"
    using prefix_runes_iff [OF assms(1) valid] rs runes by simp
  moreover have "int (legacy_width euckr p) \<le> limit \<longleftrightarrow> prefix p kept" if p: "ValidString p" "prefix p s" for p
  proof
    assume "int (legacy_width euckr p) \<le> limit"
    then have "0 + sum_list (map (rune_width euckr) (runes p)) \<le> nat limit"
      by (simp add: legacy_width_def le_nat_iff)
    then have "prefix (runes p) rs"
      unfolding rs_def using prefix_runes_iff [OF assms(1) p(1)] p(2) by (intro truncate_runes_longest) auto
    then show "prefix p kept"
      using prefix_runes_iff [OF valid p(1)] runes by simp
  next
    assume "prefix p kept"
    then obtain t where "rs = runes p @ t"
      using prefix_runes_iff [OF valid p(1)] runes by (auto elim: prefixE)
    moreover have "0 + sum_list (map (rune_width euckr) rs) \<le> nat limit"
      unfolding rs_def by (rule truncate_runes_width) simp
    ultimately show "int (legacy_width euckr p) \<le> limit"
      using assms(2) by (simp add: legacy_width_def)
  qed
  ultimately show ?thesis
    using valid by blast
qed

theorem Truncation_longest_witness:
  "prefix ''ab'' (legacyTruncateBytes ascii_only ''abcde'' 3) \<and> \<not> prefix ''abcd'' (legacyTruncateBytes ascii_only ''abcde'' 3)"
proof -
  have v: "ValidString ''abcde''" "ValidString ''ab''" "ValidString ''abcd''"
    by code_simp+
  have w: "legacy_width ascii_only ''ab'' = 2" "legacy_width ascii_only ''abcd'' = 4"
    by code_simp+
  from Truncation_longest [of "''abcde''" 3 _ ascii_only, OF _ _ refl] v w show ?thesis
    by (auto dest: spec [of _ "''ab''"] spec [of _ "''abcd''"])
qed

subsection \<open>The alias file\<close>

record fileAliasRecord =
  Far_Aliases :: "PlayerAlias list"
  Far_Title :: string

definition newline :: char where
  "newline = CHR 0x0A"

definition alias_end :: string where
  "alias_end = ''~!''"

fun replace_crlf :: "string \<Rightarrow> string" where
  "replace_crlf (c # d # s) =
     (if c = CHR 0x0D \<and> d = newline then newline # replace_crlf s else c # replace_crlf (d # s))"
| "replace_crlf s = s"

definition trim_cr :: "string \<Rightarrow> string" where
  "trim_cr s = rev (dropWhile (\<lambda>c. c = CHR 0x0D) (rev s))"

text \<open>The loop over the lines; its second result is the rest of the lines, where the title is.\<close>

fun parse_aliases :: "string list \<Rightarrow> PlayerAlias list \<Rightarrow> PlayerAlias list \<times> string list" where
  "parse_aliases [] acc = (acc, [])"
| "parse_aliases [line] acc = (acc, [])"
| "parse_aliases (line # line' # rest) acc =
     (let name = trim_cr line; process = trim_cr line'
      in if name = [] \<or> name = alias_end then (acc, line' # rest)
         else if process = alias_end then (acc, rest)
         else parse_aliases rest
           (if length acc < legacyAliasMaxCount then acc @ [\<lparr>Alias_Alias = name, Alias_Process = process\<rparr>] else acc))"

definition parseFileAliasRecord :: "string \<Rightarrow> fileAliasRecord" where
  "parseFileAliasRecord s =
     (case parse_aliases (split_at newline (replace_crlf s)) [] of
        (aliases, rest) \<Rightarrow>
          let title = (case rest of [] \<Rightarrow> [] | line # _ \<Rightarrow> trim_cr line)
          in \<lparr>Far_Aliases = aliases, Far_Title = (if title = alias_end then [] else title)\<rparr>)"

definition print_aliases :: "fileAliasRecord \<Rightarrow> string" where
  "print_aliases r =
     concat (map (\<lambda>a. Alias_Alias a @ [newline] @ Alias_Process a @ [newline]) (Far_Aliases r))
     @ alias_end @ [newline]
     @ (if Far_Title r = [] then [] else Far_Title r @ [newline])
     @ alias_end @ [newline]"

text \<open>
  \<open>decode\<close> is the decoder of \<^verbatim>\<open>legacykr\<close> for contents that are not valid UTF-8. The empty path, which
  \<^verbatim>\<open>path\<close> gives for a name that would leave the directory, is a file that does not exist.
\<close>

definition alias_read :: "(string \<Rightarrow> string result) \<Rightarrow> string \<Rightarrow> string disk \<Rightarrow> fileAliasRecord result" where
  "alias_read decode path disk =
     (case ReadFile path disk of
        Inl err \<Rightarrow> Inl err
      | Inr None \<Rightarrow> Inr \<lparr>Far_Aliases = [], Far_Title = []\<rparr>
      | Inr (Some data) \<Rightarrow>
          (case (if ValidString data then Inr data else decode data) of
             Inl err \<Rightarrow> Inl err
           | Inr s \<Rightarrow> Inr (parseFileAliasRecord s)))"

definition Dir :: "string \<Rightarrow> string" where
  "Dir path = Clean (rev (dropWhile (\<lambda>c. c \<noteq> slash) (rev path)))"

text \<open>\<^verbatim>\<open>os.WriteFile\<close> truncates the file first: after a failed write it holds whatever was written, \<open>left\<close>.\<close>

definition WriteFile :: "string \<Rightarrow> string \<Rightarrow> string \<Rightarrow> string disk \<Rightarrow> go_error option \<times> string disk" where
  "WriteFile left path content disk =
     (if path = [] then (Some (Sentinel ''open : no such file or directory''), disk)
      else case disk_fault disk path of
        None \<Rightarrow> (None, disk\<lparr>disk_files := fmupd path content (disk_files disk)\<rparr>)
      | Some (opened, err) \<Rightarrow>
          (Some err, if opened then disk\<lparr>disk_files := fmupd path left (disk_files disk)\<rparr> else disk))"

definition alias_write :: "string \<Rightarrow> string \<Rightarrow> fileAliasRecord \<Rightarrow> string disk \<Rightarrow> go_error option \<times> string disk" where
  "alias_write left path r disk =
     (case disk_mkdir disk (Dir path) of
        Some err \<Rightarrow> (Some err, disk)
      | None \<Rightarrow> WriteFile left path (print_aliases r) disk)"

definition FileAliasStore_ListAliases :: "(string \<Rightarrow> string result) \<Rightarrow> string \<Rightarrow> string disk \<Rightarrow> PlayerAlias list result" where
  "FileAliasStore_ListAliases decode path disk = map_sum id Far_Aliases (alias_read decode path disk)"

definition FileAliasStore_SaveAliases ::
  "(string \<Rightarrow> string result) \<Rightarrow> string \<Rightarrow> string \<Rightarrow> PlayerAlias list \<Rightarrow> string disk \<Rightarrow> go_error option \<times> string disk" where
  "FileAliasStore_SaveAliases decode left path aliases disk =
     (case alias_read decode path disk of
        Inl err \<Rightarrow> (Some err, disk)
      | Inr r \<Rightarrow> alias_write left path (r\<lparr>Far_Aliases := aliases\<rparr>) disk)"

subsection \<open>Saving and listing\<close>

text \<open>What can be stored: the words of a line of the file.\<close>

definition is_field :: "string \<Rightarrow> bool" where
  "is_field s \<longleftrightarrow> newline \<notin> set s \<and> (s = [] \<or> last s \<noteq> CHR 0x0D) \<and> s \<noteq> alias_end"

definition storable :: "PlayerAlias list \<Rightarrow> bool" where
  "storable aliases \<longleftrightarrow>
     length aliases \<le> legacyAliasMaxCount
     \<and> list_all (\<lambda>a. Alias_Alias a \<noteq> [] \<and> is_field (Alias_Alias a) \<and> is_field (Alias_Process a)) aliases"

lemma trim_cr_field: "is_field s \<Longrightarrow> trim_cr s = s"
  by (cases s rule: rev_cases) (auto simp: is_field_def trim_cr_def)

lemma replace_crlf_line:
  assumes "newline \<notin> set s" and "s = [] \<or> last s \<noteq> CHR 0x0D"
  shows "replace_crlf (s @ newline # t) = s @ newline # replace_crlf t"
  using assms
  apply (induction s rule: replace_crlf.induct)
  subgoal by (auto simp: newline_def split: if_splits)
  subgoal by (cases t) (auto simp: newline_def)
  subgoal by (cases t) (auto simp: newline_def)
  done

lemma lines_cons:
  assumes "is_field s \<or> s = alias_end"
  shows "split_at newline (replace_crlf (s @ newline # t)) = s # split_at newline (replace_crlf t)"
proof -
  have "newline \<notin> set s" "s = [] \<or> last s \<noteq> CHR 0x0D"
    using assms by (auto simp: is_field_def alias_end_def newline_def)
  then show ?thesis
    by (simp add: replace_crlf_line split_at_append split_at_none)
qed

lemma parse_printed:
  assumes "list_all (\<lambda>a. Alias_Alias a \<noteq> [] \<and> is_field (Alias_Alias a) \<and> is_field (Alias_Process a)) aliases"
    and "length acc + length aliases \<le> legacyAliasMaxCount"
  shows "parse_aliases (split_at newline (replace_crlf
      (concat (map (\<lambda>a. Alias_Alias a @ [newline] @ Alias_Process a @ [newline]) aliases) @ t))) acc
    = parse_aliases (split_at newline (replace_crlf t)) (acc @ aliases)"
  using assms
proof (induction aliases arbitrary: acc)
  case (Cons a aliases)
  obtain n q where a: "a = \<lparr>Alias_Alias = n, Alias_Process = q\<rparr>"
    by (cases a)
  have f: "n \<noteq> []" "is_field n" "is_field q"
    using Cons.prems(1) by (auto simp: a)
  then have "n \<noteq> alias_end" "q \<noteq> alias_end"
    by (auto simp: is_field_def)
  then show ?case
    using f Cons.IH [of "acc @ [a]"] Cons.prems
    by (simp add: a lines_cons trim_cr_field)
qed simp

lemma parse_print_aliases:
  assumes "storable (Far_Aliases r)" and "is_field (Far_Title r)"
  shows "parseFileAliasRecord (print_aliases r) = r"
proof -
  have e: "trim_cr alias_end = alias_end"
    by code_simp
  have "parse_aliases (split_at newline (replace_crlf (print_aliases r))) []
      = (Far_Aliases r, split_at newline (replace_crlf ((if Far_Title r = [] then [] else Far_Title r @ [newline]) @ alias_end @ [newline])))"
  proof -
    define u where "u = (if Far_Title r = [] then [] else Far_Title r @ [newline]) @ alias_end @ [newline]"
    have "parse_aliases (split_at newline (replace_crlf (print_aliases r))) []
        = parse_aliases (split_at newline (replace_crlf (alias_end @ newline # u))) (Far_Aliases r)"
      using parse_printed [of "Far_Aliases r" "[]"] assms(1) by (simp add: storable_def print_aliases_def u_def)
    also have "\<dots> = (Far_Aliases r, split_at newline (replace_crlf u))"
      using e by (cases "split_at newline (replace_crlf u)") (auto simp: lines_cons)
    finally show ?thesis unfolding u_def .
  qed
  then show ?thesis
    using assms(2) e by (auto simp: parseFileAliasRecord_def lines_cons trim_cr_field is_field_def [of "[]"] alias_end_def [symmetric] Let_def is_field_def [of "Far_Title r"])
qed

text \<open>C10. Aliases that are saved are the ones listed afterwards, in the same order, and the title that shares
  the file with them is kept, provided the file could be read and written.  This is for at most
  100 aliases (the file has room for no more), whose names are not empty and whose names and expansions have no
  line break and no carriage return at the end and are not the end mark \<open>~!\<close>, for a title that is such a text too, and
  for a file text that is valid UTF-8 (other bytes are read in the legacy encoding).\<close>

theorem Alias_store_roundtrip:
  assumes "alias_read decode path disk = Inr r" and "FileAliasStore_SaveAliases decode left path aliases disk = (None, disk')"
    and "storable aliases" and "is_field (Far_Title r)" and "ValidString (print_aliases (r\<lparr>Far_Aliases := aliases\<rparr>))"
  shows "alias_read decode path disk' = Inr (r\<lparr>Far_Aliases := aliases\<rparr>)
    \<and> FileAliasStore_ListAliases decode path disk' = Inr aliases"
proof -
  have w: "alias_write left path (r\<lparr>Far_Aliases := aliases\<rparr>) disk = (None, disk')"
    using assms(1,2) by (simp add: FileAliasStore_SaveAliases_def)
  then have d: "disk' = disk\<lparr>disk_files := fmupd path (print_aliases (r\<lparr>Far_Aliases := aliases\<rparr>)) (disk_files disk)\<rparr>"
    by (auto simp: alias_write_def WriteFile_def split: option.splits if_splits)
  have "disk_unreadable disk path = None"
    using assms(1) by (auto simp: alias_read_def ReadFile_def split: option.splits)
  then have "alias_read decode path disk' = Inr (parseFileAliasRecord (print_aliases (r\<lparr>Far_Aliases := aliases\<rparr>)))"
    using assms(5) by (simp add: d alias_read_def ReadFile_def)
  then show ?thesis
    using parse_print_aliases [of "r\<lparr>Far_Aliases := aliases\<rparr>"] assms(3,4)
    by (simp add: FileAliasStore_ListAliases_def)
qed

definition demoAliases :: "PlayerAlias list" where
  "demoAliases = [\<lparr>Alias_Alias = ''k'', Alias_Process = ''get $1;kill $1''\<rparr>, \<lparr>Alias_Alias = ''n'', Alias_Process = []\<rparr>]"

definition demoAliasDisk :: "string disk" where
  "demoAliasDisk =
     \<lparr>disk_files = fmupd ''bob'' (''~!'' @ [newline] @ ''The Bold'' @ [newline] @ ''~!'') fmempty, disk_fault = (\<lambda>p. None),
      disk_unreadable = (\<lambda>p. None), disk_mkdir = (\<lambda>p. None)\<rparr>"

theorem Alias_store_roundtrip_witness:
  "FileAliasStore_ListAliases Inr ''bob'' (snd (FileAliasStore_SaveAliases Inr [] ''bob'' demoAliases demoAliasDisk)) = Inr demoAliases
   \<and> Far_Title (projr (alias_read Inr ''bob'' demoAliasDisk)) = ''The Bold''"
proof -
  define r where "r = \<lparr>Far_Aliases = [], Far_Title = ''The Bold''\<rparr>"
  have r: "alias_read Inr ''bob'' demoAliasDisk = Inr r"
    unfolding r_def by code_simp
  moreover have "fst (FileAliasStore_SaveAliases Inr [] ''bob'' demoAliases demoAliasDisk) = None"
    by code_simp
  moreover have "storable demoAliases" "is_field (Far_Title r)" "ValidString (print_aliases (r\<lparr>Far_Aliases := demoAliases\<rparr>))"
    unfolding r_def by code_simp+
  ultimately show ?thesis
    using Alias_store_roundtrip [of Inr "''bob''" demoAliasDisk r "[]" demoAliases
        "snd (FileAliasStore_SaveAliases Inr [] ''bob'' demoAliases demoAliasDisk)"]
    by (simp add: prod_eq_iff r_def)
qed

text \<open>The condition on the expansion is needed: the handler that defines an alias refuses the name \<open>~!\<close>, but not
  the expansion, and such an alias ends the list when the file is read, and its successor becomes the title.\<close>

lemma alias_end_as_process:
  "parseFileAliasRecord (print_aliases
     \<lparr>Far_Aliases = [\<lparr>Alias_Alias = ''a'', Alias_Process = ''~!''\<rparr>, \<lparr>Alias_Alias = ''b'', Alias_Process = ''c''\<rparr>],
      Far_Title = ''The Bold''\<rparr>) = \<lparr>Far_Aliases = [], Far_Title = ''b''\<rparr>"
  by code_simp
end
