(* ===== verification/Terminal.thy ===== *)
theory Terminal
  imports Runes
begin

text \<open>
  The terminal side of a session: \<^verbatim>\<open>internal/protocol\<close> (the line discipline, the output buffer and the
  state of a session). Bytes are numbers from 0 to 255.
\<close>

subsection \<open>The line discipline\<close>

definition DefaultInputLimit :: int where
  "DefaultInputLimit = 1024"

record LineDiscipline =
  LD_limit :: int
  LD_buffer :: "int list"
  LD_bufferBytes :: int
  LD_pendingUTF8 :: "int list"
  LD_pendingIAC :: bool
  LD_skipTelnet :: nat
  LD_sawCR :: bool
  LD_invalid :: nat

definition NewLineDiscipline :: "int option \<Rightarrow> LineDiscipline" where
  "NewLineDiscipline withInputLimit =
     (let limit = (case withInputLimit of None \<Rightarrow> DefaultInputLimit | Some n \<Rightarrow> n)
      in \<lparr>LD_limit = (if limit \<le> 0 then DefaultInputLimit else limit), LD_buffer = [], LD_bufferBytes = 0,
          LD_pendingUTF8 = [], LD_pendingIAC = False, LD_skipTelnet = 0, LD_sawCR = False, LD_invalid = 0\<rparr>)"

text \<open>\<^verbatim>\<open>utf8.RuneLen\<close>, or the length of U+FFFD for what is no scalar value.\<close>

definition runeLen :: "int \<Rightarrow> int" where
  "runeLen r = int (length (encode_rune r))"

definition isTelnetOptionCommand :: "int \<Rightarrow> bool" where
  "isTelnetOptionCommand b \<longleftrightarrow> b = 251 \<or> b = 252 \<or> b = 253 \<or> b = 254"

definition resetLine :: "LineDiscipline \<Rightarrow> LineDiscipline" where
  "resetLine l = l\<lparr>LD_buffer := [], LD_bufferBytes := 0, LD_pendingUTF8 := []\<rparr>"

definition backspace :: "LineDiscipline \<Rightarrow> LineDiscipline" where
  "backspace l =
     (if LD_buffer l = [] then l
      else let n = LD_bufferBytes l - runeLen (last (LD_buffer l))
           in l\<lparr>LD_buffer := butlast (LD_buffer l), LD_bufferBytes := (if n < 0 then 0 else n)\<rparr>)"

fun make_room :: "int \<Rightarrow> int \<Rightarrow> int list \<Rightarrow> int \<Rightarrow> int list \<times> int" where
  "make_room limit n [] used = ([], used)"
| "make_room limit n (r # rs) used =
     (if used + n > limit then make_room limit n rs (used - runeLen r) else (r # rs, used))"

definition appendRune :: "int \<Rightarrow> LineDiscipline \<Rightarrow> LineDiscipline" where
  "appendRune r l =
     (let n = runeLen r
      in case make_room (LD_limit l) n (LD_buffer l) (LD_bufferBytes l) of
           (buffer, used) \<Rightarrow>
             if n > LD_limit l then l\<lparr>LD_buffer := buffer, LD_bufferBytes := used\<rparr>
             else l\<lparr>LD_buffer := buffer @ [r], LD_bufferBytes := used + n\<rparr>)"

definition acceptUTF8Byte :: "int \<Rightarrow> LineDiscipline \<Rightarrow> LineDiscipline" where
  "acceptUTF8Byte b l =
     (let pending = LD_pendingUTF8 l @ [b]
      in if \<not> full_rune pending then l\<lparr>LD_pendingUTF8 := pending\<rparr>
         else case first_rune pending of
           (r, n) \<Rightarrow>
             if r = 65533 \<and> n = 1 then l\<lparr>LD_invalid := LD_invalid l + 1, LD_pendingUTF8 := drop 1 pending\<rparr>
             else (appendRune r l)\<lparr>LD_pendingUTF8 := drop n pending\<rparr>)"

text \<open>The \<^verbatim>\<open>switch\<close> on one byte of the text; a completed line is the first result.\<close>

definition feed_byte :: "int \<Rightarrow> LineDiscipline \<Rightarrow> string list \<times> LineDiscipline" where
  "feed_byte b l =
     (if b = 13 \<or> b = 10
      then if b = 10 \<and> LD_sawCR l then ([], l\<lparr>LD_sawCR := False\<rparr>)
           else ([string_of_runes (LD_buffer l)], (resetLine l)\<lparr>LD_sawCR := (b = 13)\<rparr>)
      else if b = 8 \<or> b = 127
      then ([], backspace (l\<lparr>LD_sawCR := False, LD_pendingUTF8 := []\<rparr>))
      else if b < 32 \<or> b = 155 \<and> LD_pendingUTF8 l = []
      then ([], l\<lparr>LD_sawCR := False\<rparr>)
      else ([], acceptUTF8Byte b (l\<lparr>LD_sawCR := False\<rparr>)))"

fun Feed :: "LineDiscipline \<Rightarrow> int list \<Rightarrow> string list \<times> LineDiscipline" where
  "Feed l [] = ([], l)"
| "Feed l (b # data) =
     (if 0 < LD_skipTelnet l then Feed (l\<lparr>LD_skipTelnet := LD_skipTelnet l - 1\<rparr>) data
      else if LD_pendingIAC l
      then if isTelnetOptionCommand b
           then (case data of
                   [] \<Rightarrow> ([], l\<lparr>LD_pendingIAC := False, LD_skipTelnet := 1\<rparr>)
                 | c # data' \<Rightarrow> Feed (l\<lparr>LD_pendingIAC := False\<rparr>) data')
           else Feed (l\<lparr>LD_pendingIAC := False\<rparr>) data
      else if b = 255
      then (case data of
              [] \<Rightarrow> ([], l\<lparr>LD_pendingIAC := True\<rparr>)
            | c # data' \<Rightarrow>
                if isTelnetOptionCommand c
                then (case data' of
                        [] \<Rightarrow> ([], l\<lparr>LD_skipTelnet := 1\<rparr>)
                      | d # data'' \<Rightarrow> Feed l data'')
                else Feed l data)
      else case feed_byte b l of
        (done_lines, l) \<Rightarrow> (case Feed l data of (lines, l) \<Rightarrow> (done_lines @ lines, l)))"

definition Buffered :: "LineDiscipline \<Rightarrow> string" where
  "Buffered l = string_of_runes (LD_buffer l)"

subsection \<open>What holds of the buffer\<close>

definition printable :: "int \<Rightarrow> bool" where
  "printable r \<longleftrightarrow> scalar r \<and> 32 \<le> r \<and> r \<noteq> 127"

definition printable_byte :: "int \<Rightarrow> bool" where
  "printable_byte b \<longleftrightarrow> 32 \<le> b \<and> b \<noteq> 127 \<and> b < 256"

definition line_ok :: "LineDiscipline \<Rightarrow> bool" where
  "line_ok l \<longleftrightarrow>
     0 < LD_limit l \<and> LD_bufferBytes l = sum_list (map runeLen (LD_buffer l)) \<and> LD_bufferBytes l \<le> LD_limit l
     \<and> list_all printable (LD_buffer l) \<and> length (LD_pendingUTF8 l) \<le> 3
     \<and> list_all printable_byte (LD_pendingUTF8 l)"

lemma runeLen_pos: "1 \<le> runeLen r"
  using length_encode_rune(1) [of r] by (simp add: runeLen_def)

lemma sum_runeLen_nonneg: "0 \<le> sum_list (map runeLen rs)"
  using runeLen_pos by (induction rs) (auto intro: add_nonneg_nonneg order_trans [OF zero_le_one])

lemma make_room_ok:
  assumes "make_room limit n rs (sum_list (map runeLen rs)) = (rs', used)"
  shows "used = sum_list (map runeLen rs') \<and> suffix rs' rs \<and> (rs' \<noteq> [] \<longrightarrow> used + n \<le> limit)"
  using assms
proof (induction rs)
  case (Cons r rs)
  then show ?case
    by (auto split: if_splits intro: suffix_ConsI)
qed auto

lemma appendRune_ok:
  assumes "line_ok l" and "printable r"
  shows "line_ok (appendRune r l)"
proof -
  obtain rs used where m: "make_room (LD_limit l) (runeLen r) (LD_buffer l) (LD_bufferBytes l) = (rs, used)"
    by fastforce
  with assms(1) have "used = sum_list (map runeLen rs) \<and> suffix rs (LD_buffer l) \<and> (rs \<noteq> [] \<longrightarrow> used + runeLen r \<le> LD_limit l)"
    by (intro make_room_ok) (simp add: line_ok_def)
  moreover from this have "list_all printable rs" "rs = [] \<Longrightarrow> used = 0"
    using assms(1) by (auto simp: line_ok_def suffix_def)
  moreover have "used \<le> LD_limit l"
    using calculation runeLen_pos [of r] assms(1) by (cases "rs = []") (auto simp: line_ok_def)
  ultimately show ?thesis
    using assms m by (auto simp: appendRune_def Let_def line_ok_def)
qed

lemma encode_single: "printable_byte a \<Longrightarrow> a < 128 \<Longrightarrow> printable a"
  by (simp add: printable_def printable_byte_def scalar_def)

lemma first_rune_printable:
  assumes "first_rune (a # s) = (r, n)" and "(r, n) \<noteq> (65533, 1)" and "printable_byte a"
  shows "printable r" and "1 \<le> n"
proof -
  have e: "scalar r \<and> encode_rune r = take n (a # s) \<and> length (encode_rune r) = n"
    using assms by (intro encode_first_rune) (auto simp: printable_byte_def)
  then show "1 \<le> n"
    using length_encode_rune(1) [of r] by simp
  then have h: "hd (encode_rune r) = a"
    using e by (cases n) auto
  have "encode_rune r = [r]" if "r < 128"
    using e that by (simp add: encode_rune_def)
  then have "r < 128 \<Longrightarrow> r = a"
    using h by simp
  then show "printable r"
    using e assms(3) by (cases "r < 128") (auto simp: printable_def printable_byte_def)
qed

lemma full_rune_long: "4 \<le> length s \<Longrightarrow> full_rune s"
  by (auto simp: full_rune_def numeral_eq_Suc Suc_le_length_iff split: list.split)

lemma acceptUTF8Byte_ok:
  assumes "line_ok l" and "printable_byte b"
  shows "line_ok (acceptUTF8Byte b l)"
proof -
  define p where "p = LD_pendingUTF8 l @ [b]"
  have p: "length p \<le> 4" "list_all printable_byte p"
    using assms by (auto simp: p_def line_ok_def)
  obtain a s where as: "p = a # s"
    by (cases p) (auto simp: p_def)
  obtain r n where f: "first_rune p = (r, n)"
    by fastforce
  show ?thesis
  proof (cases "full_rune p")
    case False
    then have "length p \<le> 3"
      using full_rune_long [of p] by linarith
    with False p assms show ?thesis
      by (auto simp: acceptUTF8Byte_def p_def [symmetric] line_ok_def)
  next
    case full: True
    show ?thesis
    proof (cases "(r, n) = (65533, 1)")
      case True
      with full f p assms show ?thesis
        by (auto simp: acceptUTF8Byte_def p_def [symmetric] line_ok_def list_all_iff dest: in_set_dropD)
    next
      case False
      then have r: "printable r" "1 \<le> n"
        using first_rune_printable [of a s r n] f as p by auto
      with appendRune_ok [OF assms(1), of r] have "line_ok (appendRune r l)"
        by simp
      moreover have "length (drop n p) \<le> 3" "list_all printable_byte (drop n p)"
        using p r by (auto simp: list_all_iff dest: in_set_dropD)
      moreover have "acceptUTF8Byte b l = (appendRune r l)\<lparr>LD_pendingUTF8 := drop n p\<rparr>"
        using full f False by (auto simp: acceptUTF8Byte_def p_def [symmetric])
      ultimately show ?thesis
        by (simp add: line_ok_def)
    qed
  qed
qed

lemma backspace_ok: "line_ok l \<Longrightarrow> line_ok (backspace l)"
proof (cases "LD_buffer l" rule: rev_cases)
  case (snoc rs r)
  assume "line_ok l"
  moreover have "0 \<le> sum_list (map runeLen rs)"
    by (rule sum_runeLen_nonneg)
  ultimately show ?thesis
    using snoc runeLen_pos [of r] by (auto simp: backspace_def line_ok_def Let_def)
qed (simp add: backspace_def)

lemma buffer_line:
  assumes "line_ok l"
  shows "ValidString (string_of_runes (LD_buffer l)) \<and> int (length (string_of_runes (LD_buffer l))) \<le> LD_limit l
    \<and> list_all printable (runes (string_of_runes (LD_buffer l)))"
proof -
  have sc: "list_all scalar (LD_buffer l)"
    using assms by (auto simp: line_ok_def list_all_iff printable_def)
  have "int (length (string_of_runes rs)) = sum_list (map runeLen rs)" for rs
    by (induction rs) (auto simp: string_of_runes_def runeLen_def)
  then show ?thesis
    using assms sc by (simp add: line_ok_def runes_string_of_runes ValidString_of_runes)
qed

lemma limit_kept [simp]:
  "LD_limit (backspace l) = LD_limit l" "LD_limit (appendRune r l) = LD_limit l"
  "LD_limit (acceptUTF8Byte b l) = LD_limit l" "LD_limit (resetLine l) = LD_limit l"
  by (auto simp: backspace_def appendRune_def acceptUTF8Byte_def resetLine_def Let_def split: prod.split)

lemma feed_byte_limit: "LD_limit (snd (feed_byte b l)) = LD_limit l"
  by (simp add: feed_byte_def)

lemma line_ok_flags [simp]:
  "line_ok (l\<lparr>LD_sawCR := f\<rparr>) = line_ok l" "line_ok (l\<lparr>LD_skipTelnet := n\<rparr>) = line_ok l"
  "line_ok (l\<lparr>LD_pendingIAC := f\<rparr>) = line_ok l" "line_ok l \<Longrightarrow> line_ok (l\<lparr>LD_pendingUTF8 := []\<rparr>)"
  "line_ok l \<Longrightarrow> line_ok (resetLine l)"
  by (auto simp: line_ok_def resetLine_def)

definition line_fits :: "int \<Rightarrow> string \<Rightarrow> bool" where
  "line_fits limit line \<longleftrightarrow> ValidString line \<and> int (length line) \<le> limit \<and> list_all printable (runes line)"

lemma feed_byte_ok:
  assumes "line_ok l" and "b < 255"
  shows "line_ok (snd (feed_byte b l)) \<and> list_all (line_fits (LD_limit l)) (fst (feed_byte b l))"
proof -
  have "line_ok (l\<lparr>LD_sawCR := False, LD_pendingUTF8 := []\<rparr>)"
    using assms(1) by simp
  moreover have "line_ok (acceptUTF8Byte b (l\<lparr>LD_sawCR := False\<rparr>))" if "\<not> b < 32" "b \<noteq> 127"
    using assms that by (intro acceptUTF8Byte_ok) (auto simp: printable_byte_def)
  ultimately show ?thesis
    using buffer_line [OF assms(1)] assms(1)
    by (simp add: feed_byte_def backspace_ok line_fits_def)
qed

lemma Feed_ok:
  "line_ok l \<Longrightarrow> list_all (\<lambda>b. b < 256) data \<Longrightarrow>
   line_ok (snd (Feed l data)) \<and> list_all (line_fits (LD_limit l)) (fst (Feed l data)) \<and> LD_limit (snd (Feed l data)) = LD_limit l"
proof (induction l data rule: Feed.induct)
  case (2 l b data)
  consider "0 < LD_skipTelnet l" | "LD_skipTelnet l = 0" "LD_pendingIAC l"
    | "LD_skipTelnet l = 0" "\<not> LD_pendingIAC l" "b = 255" | "LD_skipTelnet l = 0" "\<not> LD_pendingIAC l" "b \<noteq> 255"
    by auto
  then show ?case
  proof cases
    case 1
    with "2.IH"(1) "2.prems" show ?thesis by simp
  next
    case 2
    with "2.IH"(2,3) "2.prems" show ?thesis
      by (cases data) (simp_all del: Feed.simps(2) add: Feed.simps(2) [of l b])
  next
    case 3
    with "2.IH"(4,5) "2.prems" show ?thesis
      by (cases data; cases "tl data") (simp_all del: Feed.simps(2) add: Feed.simps(2) [of l 255])
  next
    case 4
    obtain ls l' where f: "feed_byte b l = (ls, l')"
      by fastforce
    have ok: "line_ok l'" "list_all (line_fits (LD_limit l)) ls" "LD_limit l' = LD_limit l"
      using feed_byte_ok [of l b] feed_byte_limit [of b l] 4 "2.prems" f by auto
    with "2.IH"(6) [OF _ _ _ f [symmetric]] 4 "2.prems" f show ?thesis
      by (auto split: prod.split)
  qed
qed simp

lemma new_line_ok: "line_ok (NewLineDiscipline opt)"
  by (simp add: NewLineDiscipline_def line_ok_def Let_def DefaultInputLimit_def split: option.split)

text \<open>C11. Whatever bytes arrive, and in whatever chunks, every line handed to the game is valid UTF-8, not
  longer than the limit, and free of the ASCII control characters (those below 32, and DEL; the control characters from
  U+0080 to U+009F are let through), and the buffer and the pending bytes
  stay within their bounds, with the counted length of the buffer exact.\<close>

theorem Feed_safe:
  assumes "list_all (list_all (\<lambda>b. b < 256)) chunks"
    and "foldl (\<lambda>(lines, l) chunk. case Feed l chunk of (ls, l') \<Rightarrow> (lines @ ls, l')) ([], NewLineDiscipline opt) chunks = (lines, l)"
  shows "line_ok l \<and> list_all (line_fits (LD_limit l)) lines"
proof -
  have "line_ok l' \<and> list_all (line_fits (LD_limit l')) lines'"
    if "line_ok l0" "list_all (line_fits (LD_limit l0)) lines0"
      "foldl (\<lambda>(lines, l) chunk. case Feed l chunk of (ls, l') \<Rightarrow> (lines @ ls, l')) (lines0, l0) chunks = (lines', l')"
      "list_all (list_all (\<lambda>b. b < 256)) chunks"
    for l0 lines0 chunks l' lines'
    using that
  proof (induction chunks arbitrary: l0 lines0)
    case (Cons c cs)
    obtain ls l1 where f: "Feed l0 c = (ls, l1)"
      by fastforce
    have "line_ok l1 \<and> list_all (line_fits (LD_limit l0)) ls \<and> LD_limit l1 = LD_limit l0"
      using Feed_ok [of l0 c] Cons.prems f by simp
    with Cons.IH [of l1 "lines0 @ ls"] Cons.prems f show ?case
      by simp
  qed simp
  from this [OF new_line_ok _ assms(2,1)] show ?thesis
    by simp
qed

theorem Feed_safe_witness:
  "line_fits 4 ''bcde'' \<and>
   foldl (\<lambda>(lines, l) chunk. case Feed l chunk of (ls, l') \<Rightarrow> (lines @ ls, l')) ([], NewLineDiscipline (Some 4))
     [[97, 1, 98, 99], [100, 255, 251, 1, 101, 13], [10]] = ([''bcde''], NewLineDiscipline (Some 4))"
proof -
  have f: "foldl (\<lambda>(lines, l) chunk. case Feed l chunk of (ls, l') \<Rightarrow> (lines @ ls, l')) ([], NewLineDiscipline (Some 4))
     [[97, 1, 98, 99], [100, 255, 251, 1, 101, 13], [10]] = ([''bcde''], NewLineDiscipline (Some 4))"
    by code_simp
  then show ?thesis
    using Feed_safe [OF _ f] by (simp add: NewLineDiscipline_def)
qed

subsection \<open>Chunks\<close>

lemma keep_IAC: "\<not> LD_pendingIAC l \<Longrightarrow> l\<lparr>LD_pendingIAC := False\<rparr> = l"
  by (cases l) simp

lemma keep_skip: "LD_skipTelnet l = 0 \<Longrightarrow> l\<lparr>LD_skipTelnet := 0\<rparr> = l"
  by (cases l) simp

definition then_feed :: "string list \<times> LineDiscipline \<Rightarrow> int list \<Rightarrow> string list \<times> LineDiscipline" where
  "then_feed r data = (case r of (lines, l) \<Rightarrow> case Feed l data of (lines', l') \<Rightarrow> (lines @ lines', l'))"

lemma then_feed_Nil [simp]: "then_feed r [] = r"
  by (simp add: then_feed_def split: prod.split)

lemma then_feed_none [simp]: "then_feed ([], l) data = Feed l data"
  by (simp add: then_feed_def split: prod.split)

lemma Feed_append:
  assumes "\<not> (LD_pendingIAC (snd (Feed l xs)) \<and> ys \<noteq> [] \<and> \<not> isTelnetOptionCommand (hd ys))"
  shows "Feed l (xs @ ys) = then_feed (Feed l xs) ys"
  using assms
proof (induction l xs rule: Feed.induct)
  case (2 l b data)
  consider "0 < LD_skipTelnet l" | "LD_skipTelnet l = 0" "LD_pendingIAC l"
    | "LD_skipTelnet l = 0" "\<not> LD_pendingIAC l" "b = 255" | "LD_skipTelnet l = 0" "\<not> LD_pendingIAC l" "b \<noteq> 255"
    by auto
  then show ?case
  proof cases
    case 1
    with "2.IH"(1) "2.prems" show ?thesis by simp
  next
    case 2
    show ?thesis
    proof (cases "isTelnetOptionCommand b")
      case True
      show ?thesis
      proof (cases data)
        case Nil
        then show ?thesis
          using 2 True by (cases ys) (simp_all add: keep_skip)
      next
        case (Cons c data')
        with 2 True "2.IH"(2) [OF _ _ True Cons] "2.prems" show ?thesis
          by simp
      qed
    next
      case False
      with 2 "2.IH"(3) "2.prems" show ?thesis by simp
    qed
  next
    case 3
    show ?thesis
    proof (cases data)
      case Nil
      show ?thesis
      proof (cases ys)
        case ys: (Cons c ys')
        with 3 Nil "2.prems" have "isTelnetOptionCommand c"
          by simp
        with 3 Nil ys show ?thesis
          by (cases ys') (simp_all add: keep_IAC)
      qed simp
    next
      case c: (Cons c data')
      show ?thesis
      proof (cases "isTelnetOptionCommand c")
        case True
        show ?thesis
        proof (cases data')
          case Nil
          with 3 c True show ?thesis
            by (cases ys) (simp_all add: keep_skip)
        next
          case (Cons d data'')
          with 3 c True "2.IH"(4) [OF _ _ _ c True Cons] "2.prems" show ?thesis
            by simp
        qed
      next
        case False
        with 3 c "2.IH"(5) [OF _ _ _ c False] "2.prems" show ?thesis
          by (simp del: Feed.simps(2) add: Feed.simps(2) [of l 255])
      qed
    qed
  next
    case 4
    obtain ls l' where f: "feed_byte b l = (ls, l')"
      by fastforce
    have "LD_pendingIAC (snd (Feed l' data)) = LD_pendingIAC (snd (Feed l (b # data)))"
      using 4 f by (simp split: prod.split)
    with "2.IH"(6) [OF _ _ _ f [symmetric]] "2.prems" 4 have "Feed l' (data @ ys) = then_feed (Feed l' data) ys"
      by simp
    then show ?thesis
      using 4 f by (simp add: then_feed_def split: prod.split)
  qed
qed simp

text \<open>C26. The boundaries of the chunks in which bytes arrive do not matter: feeding two chunks one after the
  other gives the lines and the state of feeding them as one, with one exception, a chunk that ends
  between the byte that announces a Telnet command and a byte that is no option command.\<close>

theorem Feed_chunks:
  assumes "LD_pendingIAC (snd (Feed l xs)) \<longrightarrow> ys = [] \<or> isTelnetOptionCommand (hd ys)"
  shows "Feed l (xs @ ys) =
    (fst (Feed l xs) @ fst (Feed (snd (Feed l xs)) ys), snd (Feed (snd (Feed l xs)) ys))"
  using Feed_append [of l xs ys] assms by (auto simp: then_feed_def split: prod.splits)

theorem Feed_chunks_witness:
  "Feed (NewLineDiscipline None) ([236, 149] @ [136, 10]) =
     (fst (Feed (NewLineDiscipline None) [236, 149]) @ fst (Feed (snd (Feed (NewLineDiscipline None) [236, 149])) [136, 10]),
      snd (Feed (snd (Feed (NewLineDiscipline None) [236, 149])) [136, 10]))
   \<and> fst (Feed (NewLineDiscipline None) ([236, 149] @ [136, 10])) = [string_of_runes [50504]]"
proof
  have "\<not> LD_pendingIAC (snd (Feed (NewLineDiscipline None) [236, 149]))"
    by code_simp
  then show "Feed (NewLineDiscipline None) ([236, 149] @ [136, 10]) =
     (fst (Feed (NewLineDiscipline None) [236, 149]) @ fst (Feed (snd (Feed (NewLineDiscipline None) [236, 149])) [136, 10]),
      snd (Feed (snd (Feed (NewLineDiscipline None) [236, 149])) [136, 10]))"
    by (intro Feed_chunks) blast
  show "fst (Feed (NewLineDiscipline None) ([236, 149] @ [136, 10])) = [string_of_runes [50504]]"
    by code_simp
qed

text \<open>The exception is real: after a lone 255 the next byte is text in one chunk, and is dropped in two.\<close>

lemma chunk_after_IAC:
  "fst (Feed (NewLineDiscipline None) [255, 97, 98, 10]) = [''ab'']"
  "fst (Feed (snd (Feed (NewLineDiscipline None) [255])) [97, 98, 10]) = [''b'']"
  by code_simp+

text \<open>After a byte that starts no character the text lags one byte behind, and the end of the line loses it.\<close>

lemma lost_last_byte: "fst (Feed (NewLineDiscipline None) [227, 97, 98, 10]) = [''a'']"
  by code_simp

subsection \<open>A line of text\<close>

lemma not_full_before:
  assumes "scalar r" and "128 \<le> r" and "encode_rune r = xs @ b # ys"
  shows "(full_rune (xs @ [b]) \<longleftrightarrow> ys = []) \<and> 128 \<le> b \<and> b < 245 \<and> (b < 192 \<longrightarrow> xs \<noteq> [])"
proof -
  obtain a s where e: "encode_rune r = a # s"
    using length_encode_rune(1) [of r] by (cases "encode_rune r") auto
  have f: "first_rune (a # s) = (r, Suc (length s))" "(r, Suc (length s)) \<noteq> (65533, 1)"
    using first_rune_encode [OF assms(1), of "[]"] e assms(2) by (auto simp: encode_rune_def scalar_def split: if_splits)
  from f show ?thesis
  proof (cases rule: first_rune_cases)
    case 1
    with assms(2) show ?thesis by simp
  next
    case (2 c s')
    then have "[a, c] = xs @ b # ys"
      using e assms(3) by simp
    with 2 show ?thesis
      by (auto simp: full_rune_def tail_byte_def starts2_def Cons_eq_append_conv)
  next
    case (3 c d s')
    then have "[a, c, d] = xs @ b # ys"
      using e assms(3) by simp
    with 3 show ?thesis
      by (auto simp: full_rune_def tail_byte_def starts3_def Cons_eq_append_conv)
  next
    case (4 c d k s')
    then have "[a, c, d, k] = xs @ b # ys"
      using e assms(3) by simp
    with 4 show ?thesis
      by (auto simp: full_rune_def tail_byte_def starts4_def Cons_eq_append_conv)
  qed
qed

definition between_lines :: "LineDiscipline \<Rightarrow> bool" where
  "between_lines l \<longleftrightarrow> LD_pendingUTF8 l = [] \<and> \<not> LD_pendingIAC l \<and> LD_skipTelnet l = 0 \<and> \<not> LD_sawCR l"

lemma make_room_fits:
  "used + n \<le> limit \<Longrightarrow> make_room limit n rs used = (rs, used) \<or> rs = []"
  by (cases rs) auto

definition with_rune :: "int \<Rightarrow> LineDiscipline \<Rightarrow> LineDiscipline" where
  "with_rune r l = l\<lparr>LD_buffer := LD_buffer l @ [r], LD_bufferBytes := LD_bufferBytes l + runeLen r\<rparr>"

lemma appendRune_fits:
  assumes "LD_bufferBytes l = sum_list (map runeLen (LD_buffer l))" and "LD_bufferBytes l + runeLen r \<le> LD_limit l"
  shows "appendRune r l = with_rune r l"
proof -
  have "runeLen r \<le> LD_limit l"
    using assms sum_runeLen_nonneg [of "LD_buffer l"] by simp
  then show ?thesis
    using make_room_fits [OF assms(2), of "LD_buffer l"] assms(1)
    by (auto simp: appendRune_def with_rune_def Let_def)
qed

lemma pending_bytes:
  assumes "printable r" and "encode_rune r = xs @ ys" and "ys \<noteq> []" and "between_lines l"
    and "line_ok l" and "LD_bufferBytes l + runeLen r \<le> LD_limit l"
  shows "Feed (l\<lparr>LD_pendingUTF8 := xs\<rparr>) (ys @ data) = Feed (with_rune r l) data"
  using assms(2,3)
proof (induction ys arbitrary: xs)
  case (Cons b ys)
  have sc: "scalar r" "32 \<le> r" "r \<noteq> 127"
    using assms(1) by (auto simp: printable_def)
  have small: "r < 128 \<Longrightarrow> b = r \<and> xs = [] \<and> ys = []"
    using Cons.prems(1) sc by (auto simp: encode_rune_def Cons_eq_append_conv)
  have large: "128 \<le> r \<Longrightarrow> (full_rune (xs @ [b]) \<longleftrightarrow> ys = []) \<and> 128 \<le> b \<and> b < 245 \<and> (b < 192 \<longrightarrow> xs \<noteq> [])"
    using not_full_before [OF sc(1) _ Cons.prems(1)] by simp
  have full: "full_rune (xs @ [b]) \<longleftrightarrow> ys = []"
    using small large by (cases "r < 128") (auto simp: full_rune_def)
  have bytes: "32 \<le> b" "b < 245" "b \<noteq> 127" "b = 155 \<longrightarrow> xs \<noteq> []"
    using small large sc by (cases "r < 128"; force)+
  have l: "l\<lparr>LD_pendingUTF8 := xs, LD_sawCR := False\<rparr> = l\<lparr>LD_pendingUTF8 := xs\<rparr>"
    using assms(4) by (cases l) (simp add: between_lines_def)
  have "feed_byte b (l\<lparr>LD_pendingUTF8 := xs\<rparr>) = ([], acceptUTF8Byte b (l\<lparr>LD_pendingUTF8 := xs\<rparr>))"
    using bytes l by (auto simp: feed_byte_def)
  then have step: "Feed (l\<lparr>LD_pendingUTF8 := xs\<rparr>) (b # ys @ data) = Feed (acceptUTF8Byte b (l\<lparr>LD_pendingUTF8 := xs\<rparr>)) (ys @ data)"
    using bytes assms(4) by (simp add: between_lines_def split: prod.split)
  show ?case
  proof (cases "ys = []")
    case True
    have fr: "first_rune (xs @ [b]) = (r, length (xs @ [b]))"
      using first_rune_encode [OF sc(1), of "[]"] Cons.prems(1) True by simp
    have err: "\<not> (r = 65533 \<and> length (xs @ [b]) = 1)"
      using Cons.prems(1) True by (auto simp: encode_rune_def scalar_def)
    have "appendRune r (l\<lparr>LD_pendingUTF8 := xs\<rparr>) = with_rune r (l\<lparr>LD_pendingUTF8 := xs\<rparr>)"
      using assms(5,6) by (intro appendRune_fits) (simp_all add: line_ok_def)
    moreover have "(with_rune r (l\<lparr>LD_pendingUTF8 := xs\<rparr>))\<lparr>LD_pendingUTF8 := []\<rparr> = with_rune r l"
      using assms(4) by (cases l) (simp add: with_rune_def between_lines_def)
    ultimately have "acceptUTF8Byte b (l\<lparr>LD_pendingUTF8 := xs\<rparr>) = with_rune r l"
      using full True fr err by (auto simp: acceptUTF8Byte_def Let_def)
    with step True show ?thesis by simp
  next
    case False
    then have "acceptUTF8Byte b (l\<lparr>LD_pendingUTF8 := xs\<rparr>) = l\<lparr>LD_pendingUTF8 := xs @ [b]\<rparr>"
      using full by (simp add: acceptUTF8Byte_def Let_def)
    with step Cons.IH [of "xs @ [b]"] Cons.prems(1) False show ?thesis by simp
  qed
qed simp

lemma Feed_runes:
  assumes "list_all printable rs" and "between_lines l" and "line_ok l"
    and "LD_bufferBytes l + sum_list (map runeLen rs) \<le> LD_limit l"
  shows "Feed l (concat (map encode_rune rs) @ data) =
    Feed (l\<lparr>LD_buffer := LD_buffer l @ rs, LD_bufferBytes := LD_bufferBytes l + sum_list (map runeLen rs)\<rparr>) data"
  using assms
proof (induction rs arbitrary: l)
  case (Cons r rs)
  have fits: "LD_bufferBytes l + runeLen r \<le> LD_limit l"
    using Cons.prems(4) sum_runeLen_nonneg [of rs] by simp
  have "l\<lparr>LD_pendingUTF8 := []\<rparr> = l"
    using Cons.prems(2) by (cases l) (simp add: between_lines_def)
  then have "Feed l (encode_rune r @ concat (map encode_rune rs) @ data) = Feed (with_rune r l) (concat (map encode_rune rs) @ data)"
    using pending_bytes [of r "[]" "encode_rune r" l] Cons.prems fits length_encode_rune(1) [of r]
    by (cases "encode_rune r") auto
  also have "\<dots> = Feed ((with_rune r l)\<lparr>LD_buffer := LD_buffer (with_rune r l) @ rs,
      LD_bufferBytes := LD_bufferBytes (with_rune r l) + sum_list (map runeLen rs)\<rparr>) data"
    using Cons.prems fits by (intro Cons.IH) (auto simp: with_rune_def between_lines_def line_ok_def)
  finally show ?case
    by (simp add: with_rune_def add.assoc)
qed (cases l, simp)

text \<open>A text of printable characters, of at most the limit in bytes and ended by a line feed, is
  delivered as exactly that line, whatever its script, and the discipline is ready for the next one.\<close>

theorem Feed_line:
  assumes "ValidString s" and "list_all printable (runes s)" and "int (length s) \<le> LD_limit l"
    and "line_ok l" and "between_lines l" and "LD_buffer l = []"
  shows "Feed l (map of_char s @ [10]) = ([s], l)"
proof -
  have len: "sum_list (map runeLen (runes s)) = int (length s)"
  proof -
    have "sum_list (map runeLen rs) = int (length (concat (map encode_rune rs)))" for rs
      by (induction rs) (auto simp: runeLen_def)
    then show ?thesis
      using valid_runes(1) [OF assms(1)] by simp
  qed
  have b: "LD_bufferBytes l = 0"
    using assms(4,6) by (simp add: line_ok_def)
  have "Feed l (map of_char s @ [10]) = Feed (l\<lparr>LD_buffer := runes s, LD_bufferBytes := int (length s)\<rparr>) [10]"
    using Feed_runes [of "runes s" l "[10]"] assms len b by (simp add: valid_runes(1) [OF assms(1)])
  moreover have "resetLine (l\<lparr>LD_buffer := runes s, LD_bufferBytes := int (length s)\<rparr>)\<lparr>LD_sawCR := False\<rparr> = l"
    using assms(5,6) b by (cases l) (simp add: resetLine_def between_lines_def)
  ultimately show ?thesis
    using assms(1,5) by (simp add: feed_byte_def between_lines_def string_of_runes_runes)
qed

theorem Feed_line_witness:
  "Feed (NewLineDiscipline None) (map of_char ''look 2'' @ [10]) = ([''look 2''], NewLineDiscipline None)"
proof (rule Feed_line)
  show "ValidString ''look 2''" "list_all printable (runes ''look 2'')" "between_lines (NewLineDiscipline None)"
    by code_simp+
qed (simp_all add: new_line_ok, simp_all add: NewLineDiscipline_def DefaultInputLimit_def)

subsection \<open>The output buffer\<close>

definition DefaultOutputLimit :: int where
  "DefaultOutputLimit = 8192"

record OutputBuffer =
  OB_limit :: int
  OB_buf :: string

definition NewOutputBuffer :: "int option \<Rightarrow> OutputBuffer" where
  "NewOutputBuffer withOutputLimit =
     (let limit = (case withOutputLimit of None \<Rightarrow> DefaultOutputLimit | Some n \<Rightarrow> n)
      in \<lparr>OB_limit = (if limit \<le> 0 then DefaultOutputLimit else limit), OB_buf = []\<rparr>)"

definition appendByte :: "char \<Rightarrow> OutputBuffer \<Rightarrow> OutputBuffer" where
  "appendByte v b =
     (if OB_limit b \<le> 0 then b
      else if int (length (OB_buf b)) = OB_limit b then b\<lparr>OB_buf := drop 1 (OB_buf b) @ [v]\<rparr>
      else b\<lparr>OB_buf := OB_buf b @ [v]\<rparr>)"

fun AppendString :: "string \<Rightarrow> OutputBuffer \<Rightarrow> nat \<times> OutputBuffer" where
  "AppendString [] b = (0, b)"
| "AppendString (c # s) b =
     (if c = CHR 0x0A
      then (case AppendString s (appendByte c (appendByte (CHR 0x0D) b)) of (n, b) \<Rightarrow> (n + 2, b))
      else (case AppendString s (appendByte c b) of (n, b) \<Rightarrow> (n + 1, b)))"

definition HighWater :: "OutputBuffer \<Rightarrow> bool" where
  "HighWater b \<longleftrightarrow> int (length (OB_buf b)) > (OB_limit b * 3) div 4"

definition Drain :: "int \<Rightarrow> OutputBuffer \<Rightarrow> string \<times> OutputBuffer" where
  "Drain n b =
     (if n \<le> 0 \<or> OB_buf b = [] then ([], b)
      else let n = (if int (length (OB_buf b)) < n then length (OB_buf b) else nat n)
           in (take n (OB_buf b), b\<lparr>OB_buf := drop n (OB_buf b)\<rparr>))"

definition DrainAll :: "OutputBuffer \<Rightarrow> string \<times> OutputBuffer" where
  "DrainAll b = (if OB_buf b = [] then ([], b) else Drain (int (length (OB_buf b))) b)"

text \<open>What is to be sent: every line feed with a carriage return before it.\<close>

definition crlf :: "string \<Rightarrow> string" where
  "crlf s = concat (map (\<lambda>c. if c = CHR 0x0A then [CHR 0x0D, c] else [c]) s)"

definition last_bytes :: "nat \<Rightarrow> string \<Rightarrow> string" where
  "last_bytes n s = drop (length s - n) s"

lemma appendByte_last:
  assumes "0 < OB_limit b" and "OB_buf b = last_bytes (nat (OB_limit b)) sent"
  shows "appendByte v b = b\<lparr>OB_buf := last_bytes (nat (OB_limit b)) (sent @ [v])\<rparr>"
  using assms by (auto simp: appendByte_def last_bytes_def Suc_diff_le nat_eq_iff)

text \<open>A text is queued with a carriage return before each line feed, the result is the number of bytes
  produced, and when the buffer overflows the oldest bytes are the ones lost: it holds the last bytes
  of everything that was appended, at most as many as its limit.\<close>

theorem Output_keeps_last:
  assumes "0 < OB_limit b" and "OB_buf b = last_bytes (nat (OB_limit b)) sent"
  shows "AppendString s b =
    (length (crlf s), b\<lparr>OB_buf := last_bytes (nat (OB_limit b)) (sent @ crlf s)\<rparr>)"
  using assms
proof (induction s b arbitrary: sent rule: AppendString.induct)
  case (2 c s b)
  show ?case
  proof (cases "c = CHR 0x0A")
    case True
    have r: "appendByte (CHR 0x0D) b = b\<lparr>OB_buf := last_bytes (nat (OB_limit b)) (sent @ [CHR 0x0D])\<rparr>"
      using 2 by (intro appendByte_last)
    have n: "appendByte c (appendByte (CHR 0x0D) b) = b\<lparr>OB_buf := last_bytes (nat (OB_limit b)) (sent @ [CHR 0x0D, c])\<rparr>"
      unfolding r using 2 appendByte_last [of "b\<lparr>OB_buf := last_bytes (nat (OB_limit b)) (sent @ [CHR 0x0D])\<rparr>" "sent @ [CHR 0x0D]" c] by simp
    show ?thesis
      using "2.IH"(1) [OF True, of "sent @ [CHR 0x0D, c]"] "2.prems" True n by (simp add: crlf_def)
  next
    case False
    have n: "appendByte c b = b\<lparr>OB_buf := last_bytes (nat (OB_limit b)) (sent @ [c])\<rparr>"
      using 2 by (intro appendByte_last)
    show ?thesis
      using "2.IH"(2) [OF False, of "sent @ [c]"] "2.prems" False n by (simp add: crlf_def)
  qed
qed (simp add: crlf_def)

theorem Output_keeps_last_witness:
  "AppendString [CHR ''a'', CHR 0x0A, CHR ''b''] (NewOutputBuffer (Some 3)) =
     (4, \<lparr>OB_limit = 3, OB_buf = [CHR 0x0D, CHR 0x0A, CHR ''b'']\<rparr>)"
proof -
  have "AppendString [CHR ''a'', CHR 0x0A, CHR ''b''] (NewOutputBuffer (Some 3)) =
      (length (crlf [CHR ''a'', CHR 0x0A, CHR ''b'']),
       (NewOutputBuffer (Some 3))\<lparr>OB_buf := last_bytes (nat (OB_limit (NewOutputBuffer (Some 3)))) ([] @ crlf [CHR ''a'', CHR 0x0A, CHR ''b''])\<rparr>)"
    by (rule Output_keeps_last) (simp_all add: NewOutputBuffer_def last_bytes_def)
  then show ?thesis
    by (simp add: NewOutputBuffer_def last_bytes_def crlf_def)
qed
end
