(* ===== verification/Sessions.thy ===== *)
theory Sessions
  imports Terminal Making
begin

text \<open>
  A session: its protocol state (\<^verbatim>\<open>internal/protocol/sessionstate.go\<close>), the rate limiter of
  \<^verbatim>\<open>internal/session/ratelimit.go\<close>, and what \<^verbatim>\<open>internal/session/session.go\<close> does with a chunk that was read and
  with a command of the game. The connection and the two channels are left out: what is written to the
  connection and what is sent as events are results. Times are nanoseconds.
\<close>

subsection \<open>The protocol state\<close>

record CallbackMode =
  CM_Name :: string
  CM_Param :: int

record SessionState =
  SS_input :: LineDiscipline
  SS_output :: OutputBuffer
  SS_lines :: "string list"
  SS_closed :: bool
  SS_interrupt :: bool
  SS_callback :: CallbackMode

definition NewSessionState :: SessionState where
  "NewSessionState =
     \<lparr>SS_input = NewLineDiscipline None, SS_output = NewOutputBuffer None, SS_lines = [], SS_closed = False,
      SS_interrupt = False, SS_callback = \<lparr>CM_Name = [], CM_Param = 0\<rparr>\<rparr>"

definition FeedInput :: "int list \<Rightarrow> SessionState \<Rightarrow> string list \<times> SessionState" where
  "FeedInput data s =
     (if SS_closed s then ([], s)
      else case Feed (SS_input s) data of
        (lines, input) \<Rightarrow>
          (lines,
           if lines \<noteq> [] then s\<lparr>SS_input := input, SS_lines := SS_lines s @ lines, SS_interrupt := True\<rparr>
           else s\<lparr>SS_input := input, SS_interrupt := False\<rparr>))"

definition NextLine :: "SessionState \<Rightarrow> string option \<times> SessionState" where
  "NextLine s = (case SS_lines s of [] \<Rightarrow> (None, s) | line # rest \<Rightarrow> (Some line, s\<lparr>SS_lines := rest\<rparr>))"

definition AppendOutput :: "string \<Rightarrow> SessionState \<Rightarrow> nat \<times> SessionState" where
  "AppendOutput t s =
     (if SS_closed s then (0, s)
      else case AppendString t (SS_output s) of (n, out) \<Rightarrow> (n, s\<lparr>SS_output := out\<rparr>))"

definition ShouldFlush :: "SessionState \<Rightarrow> bool" where
  "ShouldFlush s \<longleftrightarrow> SS_interrupt s \<or> HighWater (SS_output s)"

definition DrainOutput :: "int \<Rightarrow> SessionState \<Rightarrow> string \<times> SessionState" where
  "DrainOutput n s = (case Drain n (SS_output s) of (bytes, out) \<Rightarrow> (bytes, s\<lparr>SS_output := out\<rparr>))"

definition DrainAllOutput :: "SessionState \<Rightarrow> string \<times> SessionState" where
  "DrainAllOutput s = (case DrainAll (SS_output s) of (bytes, out) \<Rightarrow> (bytes, s\<lparr>SS_output := out\<rparr>))"

definition SetCallback :: "CallbackMode \<Rightarrow> SessionState \<Rightarrow> SessionState" where
  "SetCallback c s = s\<lparr>SS_callback := c\<rparr>"

definition CloseState :: "SessionState \<Rightarrow> SessionState" where
  "CloseState s = s\<lparr>SS_closed := True\<rparr>"

subsection \<open>The rate limiter\<close>

definition DefaultBurstRate :: int where "DefaultBurstRate = 10"
definition DefaultSustainRate :: int where "DefaultSustainRate = 30"
definition DefaultRateWindow :: int where "DefaultRateWindow = 1000000000"

record rateLimiter =
  RL_burst :: int
  RL_sustain :: int
  RL_window :: int
  RL_stamps :: "int list"

definition newRateLimiter :: "int \<Rightarrow> int \<Rightarrow> int \<Rightarrow> rateLimiter" where
  "newRateLimiter burst sustain window =
     \<lparr>RL_burst = (if burst \<le> 0 then DefaultBurstRate else burst),
      RL_sustain = (if sustain \<le> 0 then DefaultSustainRate else sustain),
      RL_window = (if window \<le> 0 then DefaultRateWindow else window), RL_stamps = []\<rparr>"

text \<open>Go's division truncates towards zero.\<close>

definition maxInWindow :: "rateLimiter \<Rightarrow> int" where
  "maxInWindow r =
     (let p = i64 (RL_sustain r * RL_window r);
          n = (if 0 \<le> p then p div 1000000000 else - ((- p) div 1000000000))
      in if n \<le> 0 then RL_sustain r else n)"

definition allow :: "int \<Rightarrow> rateLimiter \<Rightarrow> bool \<times> rateLimiter" where
  "allow now r =
     (let cutoff = i64 (now - RL_window r);
          r = r\<lparr>RL_stamps := dropWhile (\<lambda>t. t \<le> cutoff) (RL_stamps r)\<rparr>
      in if RL_burst r \<le> int (length (RL_stamps r)) then (False, r)
         else if maxInWindow r \<le> int (length (RL_stamps r)) then (False, r)
         else (True, r\<lparr>RL_stamps := RL_stamps r @ [now]\<rparr>))"

subsection \<open>The session\<close>

definition MaxInputLineBytes :: nat where
  "MaxInputLineBytes = 4096"

definition rune_start :: "char \<Rightarrow> bool" where
  "rune_start c \<longleftrightarrow> \<not> tail_byte (of_char c)"

fun cut_back :: "string \<Rightarrow> nat \<Rightarrow> nat" where
  "cut_back s 0 = 0"
| "cut_back s (Suc n) = (if \<not> rune_start (s ! Suc n) then cut_back s n else Suc n)"

definition truncateUTF8 :: "string \<Rightarrow> nat \<Rightarrow> string" where
  "truncateUTF8 s maxBytes = (if length s \<le> maxBytes then s else take (cut_back s maxBytes) s)"

definition ThrottleMessage :: string where
  "ThrottleMessage = utf8 ([13, 10, 235, 132, 136, 235, 172, 180, 32, 235, 185, 160, 235, 166, 133, 235, 139, 136, 235, 139, 164, 46, 32]
     @ [236, 158, 160, 236, 139, 156, 32, 234, 184, 176, 235, 139, 164, 235, 166, 172, 236, 132, 184, 236, 154, 148, 46, 13, 10])"

datatype EventKind = EventLine string | EventClosed | EventError go_error

datatype effect = Write string | Emit EventKind

record Session =
  S_state :: SessionState
  S_limiter :: rateLimiter
  S_closedEvent :: bool

text \<open>
  The loop over the lines of a chunk, and whether reading goes on.  \<open>reading n\<close> is the reading of the clock for line \<open>n\<close> of
  the chunk, and \<open>sent n\<close> says whether its event could be sent: when the context is cancelled it cannot, and the loop
  returns, with the lines after it dropped.
\<close>

fun take_lines :: "(nat \<Rightarrow> int) \<Rightarrow> (nat \<Rightarrow> bool) \<Rightarrow> nat \<Rightarrow> string list \<Rightarrow> rateLimiter \<Rightarrow> effect list \<times> rateLimiter \<times> bool" where
  "take_lines reading sent n [] r = ([], r, True)"
| "take_lines reading sent n (line # lines) r =
     (case allow (reading n) r of
        (accepted, r) \<Rightarrow>
          if \<not> accepted
          then (case take_lines reading sent (Suc n) lines r of (effects, r, goesOn) \<Rightarrow> (Write ThrottleMessage # effects, r, goesOn))
          else if \<not> sent n then ([], r, False)
          else (case take_lines reading sent (Suc n) lines r of
                  (effects, r, goesOn) \<Rightarrow> (Emit (EventLine (truncateUTF8 line MaxInputLineBytes)) # effects, r, goesOn)))"

definition read_chunk :: "int list \<Rightarrow> (nat \<Rightarrow> int) \<Rightarrow> (nat \<Rightarrow> bool) \<Rightarrow> Session \<Rightarrow> effect list \<times> Session \<times> bool" where
  "read_chunk data reading sent s =
     (case FeedInput data (S_state s) of
        (lines, state) \<Rightarrow>
          (case take_lines reading sent 0 lines (S_limiter s) of
             (effects, limiter, goesOn) \<Rightarrow> (effects, s\<lparr>S_state := state, S_limiter := limiter\<rparr>, goesOn)))"

definition emitClosed :: "Session \<Rightarrow> effect list \<times> Session" where
  "emitClosed s = (if S_closedEvent s then ([], s) else ([Emit EventClosed], s\<lparr>S_closedEvent := True\<rparr>))"

record SessionCommand =
  Cmd_Write :: string
  Cmd_Prompt :: string
  Cmd_Close :: bool
  Cmd_SetCallback :: "CallbackMode option"

definition applyCommand :: "SessionCommand \<Rightarrow> Session \<Rightarrow> effect list \<times> Session" where
  "applyCommand cmd s =
     (let state = S_state s;
          state = (case Cmd_SetCallback cmd of Some c \<Rightarrow> SetCallback c state | None \<Rightarrow> state);
          state = (if Cmd_Write cmd \<noteq> [] then snd (AppendOutput (Cmd_Write cmd) state) else state);
          state = (if Cmd_Prompt cmd \<noteq> [] then snd (AppendOutput (Cmd_Prompt cmd) state) else state)
      in case DrainAllOutput state of
           (out, state) \<Rightarrow>
             let state = (if Cmd_Close cmd then CloseState state else state);
                 s = s\<lparr>S_state := state\<rparr>;
                 written = (if out = [] then [] else [Write out])
             in if Cmd_Close cmd then (case emitClosed s of (effects, s) \<Rightarrow> (written @ effects, s))
                else (written, s))"

text \<open>An I/O error; \<open>expected\<close> tells the errors that come with a closed connection.\<close>

definition handleIOError :: "bool \<Rightarrow> go_error \<Rightarrow> Session \<Rightarrow> effect list \<times> Session" where
  "handleIOError expected err s =
     (let s = s\<lparr>S_state := CloseState (S_state s)\<rparr>
      in if expected then emitClosed s
         else case emitClosed s of (effects, s) \<Rightarrow> (Emit (EventError err) # effects, s))"

subsection \<open>What the limiter guarantees\<close>

text \<open>The clocks that are accepted of a sequence of requests.\<close>

fun accepted_of :: "int list \<Rightarrow> rateLimiter \<Rightarrow> int list" where
  "accepted_of [] r = []"
| "accepted_of (t # ts) r = (case allow t r of (ok, r) \<Rightarrow> (if ok then [t] else []) @ accepted_of ts r)"

definition in_window :: "int \<Rightarrow> int \<Rightarrow> int list \<Rightarrow> nat" where
  "in_window w t xs = length (filter (\<lambda>x. t - w < x \<and> x \<le> t) xs)"

definition window_bound :: "rateLimiter \<Rightarrow> int" where
  "window_bound r = min (RL_burst r) (maxInWindow r)"

lemma in_window_append: "in_window w t (xs @ ys) = in_window w t xs + in_window w t ys"
  by (simp add: in_window_def)

lemma in_window_le: "in_window w t xs \<le> length xs"
  by (simp add: in_window_def)

lemma in_window_none: "(\<And>x. x \<in> set xs \<Longrightarrow> x \<le> t - w) \<Longrightarrow> in_window w t xs = 0"
  by (fastforce simp: in_window_def filter_empty_conv)

lemma window_bound_stamps [simp]: "window_bound (r\<lparr>RL_stamps := xs\<rparr>) = window_bound r"
  by (simp add: window_bound_def maxInWindow_def Let_def)

lemma allow_eq:
  assumes "in_i64 (t - RL_window r)"
  defines "live \<equiv> dropWhile (\<lambda>x. x \<le> t - RL_window r) (RL_stamps r)"
  shows "allow t r =
    (if int (length live) < window_bound r then (True, r\<lparr>RL_stamps := live @ [t]\<rparr>) else (False, r\<lparr>RL_stamps := live\<rparr>))"
  using assms(1) by (auto simp: allow_def live_def window_bound_def maxInWindow_def Let_def)

lemma sorted_dropWhile_gt: "sorted xs \<Longrightarrow> x \<in> set (dropWhile (\<lambda>x. x \<le> c) xs) \<Longrightarrow> c < (x :: int)"
  by (induction xs) (auto split: if_splits)

lemma accepted_bounded:
  assumes "sorted (T # ts)" and "\<And>t. t \<in> set ts \<Longrightarrow> in_i64 (t - RL_window r)" and "0 < RL_window r"
    and "\<And>x. x \<in> set old \<Longrightarrow> x \<le> T - RL_window r" and "\<And>x. x \<in> set (RL_stamps r) \<Longrightarrow> x \<le> T"
    and "\<And>u. int (in_window (RL_window r) u (old @ RL_stamps r)) \<le> window_bound r"
  shows "int (in_window (RL_window r) u (old @ RL_stamps r @ accepted_of ts r)) \<le> window_bound r"
  using assms
proof (induction ts arbitrary: T r old)
  case (Cons t ts)
  define w where "w = RL_window r"
  define live where "live = dropWhile (\<lambda>x. x \<le> t - w) (RL_stamps r)"
  define old' where "old' = old @ takeWhile (\<lambda>x. x \<le> t - w) (RL_stamps r)"
  have split: "old' @ live = old @ RL_stamps r"
    by (simp add: old'_def live_def)
  have T: "T \<le> t"
    using Cons.prems(1) by simp
  have old': "x \<le> t - w" if "x \<in> set old'" for x
    using that Cons.prems(4) T by (fastforce simp: old'_def w_def dest: set_takeWhileD)
  have live: "x \<le> t" if "x \<in> set live" for x
    using that Cons.prems(5) T by (fastforce simp: live_def dest: set_dropWhileD)
  have step: "allow t r = (if int (length live) < window_bound r then (True, r\<lparr>RL_stamps := live @ [t]\<rparr>)
      else (False, r\<lparr>RL_stamps := live\<rparr>))"
    using allow_eq [of t r] Cons.prems(2) by (simp add: live_def w_def)
  show ?case
  proof (cases "int (length live) < window_bound r")
    case True
    have bound: "int (in_window w u (old' @ live @ [t])) \<le> window_bound r" for u
    proof (cases "u < t")
      case True
      then have "in_window w u (old' @ live @ [t]) = in_window w u (old @ RL_stamps r)"
        unfolding split [symmetric] by (simp add: in_window_append) (simp add: in_window_def)
      then show ?thesis
        using Cons.prems(6) [of u] by (simp add: w_def)
    next
      case False
      then have "in_window w u old' = 0"
        using old' by (intro in_window_none) fastforce
      then have "in_window w u (old' @ live @ [t]) \<le> length (live @ [t])"
        using in_window_le [of w u "live @ [t]"] by (simp add: in_window_append)
      then show ?thesis
        using True by simp
    qed
    have "int (in_window (RL_window (r\<lparr>RL_stamps := live @ [t]\<rparr>)) u
        (old' @ RL_stamps (r\<lparr>RL_stamps := live @ [t]\<rparr>) @ accepted_of ts (r\<lparr>RL_stamps := live @ [t]\<rparr>)))
        \<le> window_bound (r\<lparr>RL_stamps := live @ [t]\<rparr>)"
      by (rule Cons.IH [of t]) (use Cons.prems old' live bound in \<open>auto simp: w_def\<close>)
    moreover have "(old' @ live) @ t # accepted_of ts (r\<lparr>RL_stamps := live @ [t]\<rparr>) = (old @ RL_stamps r) @ accepted_of (t # ts) r"
      unfolding split using step True by simp
    ultimately show ?thesis
      by simp
  next
    case False
    have "int (in_window (RL_window (r\<lparr>RL_stamps := live\<rparr>)) u
        (old' @ RL_stamps (r\<lparr>RL_stamps := live\<rparr>) @ accepted_of ts (r\<lparr>RL_stamps := live\<rparr>)))
        \<le> window_bound (r\<lparr>RL_stamps := live\<rparr>)"
      by (rule Cons.IH [of t]) (use Cons.prems old' live split in \<open>auto simp: w_def\<close>)
    then show ?thesis
      using step False split by (simp add: w_def flip: append_assoc)
  qed
qed simp

lemma le_div: "0 < d \<Longrightarrow> n \<le> p div d \<longleftrightarrow> n * d \<le> (p :: int)"
proof
  assume d: "0 < d"
  show "n * d \<le> p" if "n \<le> p div d"
  proof -
    have "n * d \<le> p div d * d"
      using that d by simp
    also have "\<dots> \<le> p"
      using d pos_mod_sign [of d p] div_mult_mod_eq [of p d] by linarith
    finally show ?thesis .
  qed
  show "n \<le> p div d" if "n * d \<le> p"
    using zdiv_mono1 [OF that d] d by simp
qed

lemma in_window_sorted:
  "sorted xs \<Longrightarrow> \<forall>x \<in> set xs. x \<le> t \<Longrightarrow> in_window w t xs = length (dropWhile (\<lambda>x. x \<le> t - w) xs)"
proof (induction xs)
  case (Cons x xs)
  show ?case
  proof (cases "x \<le> t - w")
    case True
    with Cons show ?thesis
      by (simp add: in_window_def)
  next
    case False
    with Cons.prems have "filter (\<lambda>y. t - w < y \<and> y \<le> t) (x # xs) = x # xs"
      by (intro filter_True) auto
    with False show ?thesis
      by (simp add: in_window_def)
  qed
qed (simp add: in_window_def)

text \<open>What the limiter remembers: of the accepted clocks those that may still be in the window.\<close>

definition after_requests :: "int list \<Rightarrow> rateLimiter \<Rightarrow> rateLimiter" where
  "after_requests ts r = foldl (\<lambda>r t. snd (allow t r)) r ts"

lemma limiter_memory:
  assumes "sorted (T # ts)" and "\<And>t. t \<in> set ts \<Longrightarrow> in_i64 (t - RL_window r)" and "0 < RL_window r"
    and "sorted (RL_stamps r)" and "\<And>x. x \<in> set (RL_stamps r) \<Longrightarrow> x \<le> T"
  shows "\<exists>old. RL_stamps r @ accepted_of ts r = old @ RL_stamps (after_requests ts r)
     \<and> (\<forall>x \<in> set old. x \<le> last (T # ts) - RL_window r)
     \<and> sorted (RL_stamps (after_requests ts r)) \<and> (\<forall>x \<in> set (RL_stamps (after_requests ts r)). x \<le> last (T # ts))
     \<and> window_bound (after_requests ts r) = window_bound r \<and> RL_window (after_requests ts r) = RL_window r"
  using assms
proof (induction ts arbitrary: T r)
  case Nil
  then show ?case by (simp add: after_requests_def)
next
  case (Cons t ts)
  define w where "w = RL_window r"
  define live where "live = dropWhile (\<lambda>x. x \<le> t - w) (RL_stamps r)"
  define gone where "gone = takeWhile (\<lambda>x. x \<le> t - w) (RL_stamps r)"
  define r' where "r' = snd (allow t r)"
  have step: "allow t r = (if int (length live) < window_bound r then (True, r\<lparr>RL_stamps := live @ [t]\<rparr>)
      else (False, r\<lparr>RL_stamps := live\<rparr>))"
    using allow_eq [of t r] Cons.prems(2) by (simp add: live_def w_def)
  have split: "gone @ live = RL_stamps r"
    by (simp add: gone_def live_def)
  have srt: "sorted live"
    using Cons.prems(4) split [symmetric] by (simp add: sorted_append)
  have le: "x \<le> t" if "x \<in> set live" for x
    using that Cons.prems(1,5) by (fastforce simp: live_def dest: set_dropWhileD)
  have IH: "\<exists>old. RL_stamps r' @ accepted_of ts r' = old @ RL_stamps (after_requests ts r')
     \<and> (\<forall>x \<in> set old. x \<le> last (t # ts) - RL_window r')
     \<and> sorted (RL_stamps (after_requests ts r')) \<and> (\<forall>x \<in> set (RL_stamps (after_requests ts r')). x \<le> last (t # ts))
     \<and> window_bound (after_requests ts r') = window_bound r' \<and> RL_window (after_requests ts r') = RL_window r'"
    by (rule Cons.IH) (use Cons.prems(1-3) srt le in \<open>auto simp: r'_def step sorted_append split: if_splits\<close>)
  have same: "window_bound r' = window_bound r" "RL_window r' = RL_window r" "after_requests (t # ts) r = after_requests ts r'"
    by (simp_all add: r'_def step after_requests_def)
  have acc: "RL_stamps r @ accepted_of (t # ts) r = gone @ RL_stamps r' @ accepted_of ts r'"
    unfolding split [symmetric] by (simp add: r'_def step)
  have gone: "x \<le> last (t # ts) - RL_window r" if "x \<in> set gone" for x
  proof -
    have "t \<le> last (t # ts)"
      using Cons.prems(1) by auto
    moreover have "x \<le> t - w"
      using that by (auto simp: gone_def dest: set_takeWhileD)
    ultimately show ?thesis
      by (simp add: w_def)
  qed
  obtain old where old: "RL_stamps r' @ accepted_of ts r' = old @ RL_stamps (after_requests ts r')"
    "\<forall>x \<in> set old. x \<le> last (t # ts) - RL_window r"
    using IH same(2) by auto
  have "RL_stamps r @ accepted_of (t # ts) r = (gone @ old) @ RL_stamps (after_requests (t # ts) r)"
    unfolding acc same(3) using old(1) by simp
  moreover have "\<forall>x \<in> set (gone @ old). x \<le> last (T # t # ts) - RL_window r"
    using gone old(2) by auto
  moreover have "last (T # t # ts) = last (t # ts)"
    by simp
  ultimately show ?case
    using IH unfolding same by (intro exI [of _ "gone @ old"]) auto
qed

lemma limiter_refuses:
  assumes "sorted (ts @ [t])" and "\<And>t'. t' \<in> set (ts @ [t]) \<Longrightarrow> in_i64 (t' - RL_window r)" and "0 < RL_window r" and "RL_stamps r = []"
  shows "fst (allow t (after_requests ts r)) \<longleftrightarrow> int (in_window (RL_window r) t (accepted_of ts r)) < window_bound r"
proof -
  let ?T = "case ts of [] \<Rightarrow> t | t0 # _ \<Rightarrow> t0"
  obtain old where old: "accepted_of ts r = old @ RL_stamps (after_requests ts r)" "\<forall>x \<in> set old. x \<le> last (?T # ts) - RL_window r"
    and st: "sorted (RL_stamps (after_requests ts r))" "\<forall>x \<in> set (RL_stamps (after_requests ts r)). x \<le> last (?T # ts)"
    and b: "window_bound (after_requests ts r) = window_bound r" "RL_window (after_requests ts r) = RL_window r"
    using limiter_memory [of ?T ts r] assms by (cases ts) (auto simp: sorted_append)
  have l: "last (?T # ts) \<le> t"
    using assms(1) by (cases ts) (auto simp: sorted_append)
  have "in_window (RL_window r) t old = 0"
    using old(2) l by (intro in_window_none) fastforce
  moreover have "in_window (RL_window r) t (RL_stamps (after_requests ts r))
      = length (dropWhile (\<lambda>x. x \<le> t - RL_window r) (RL_stamps (after_requests ts r)))"
    using st l by (intro in_window_sorted) fastforce+
  ultimately show ?thesis
    using allow_eq [of t "after_requests ts r"] assms(2) b old(1) st by (simp add: in_window_append)
qed

text \<open>C27. As long as the clock does not run backwards, in every span of time as long as the window of the
  limiter at most its burst of commands is accepted; and at most what its sustained rate gives for a window, when this
  is one command or more, and else (for a window too short for one command) at most the number that the rate gives for
  a whole second.  A command is refused only when as many have been accepted in the window up to it.  (The numbers are
  those given, or the defaults of 10, of 30 a second and of one second; rate times window fits the machine integer.)\<close>

theorem Limiter_bounds_window:
  assumes "sorted ts" and "\<And>t. t \<in> set ts \<Longrightarrow> in_i64 (t - RL_window r)" and "r = newRateLimiter burst sustain window"
  defines "B \<equiv> if burst \<le> 0 then 10 else burst" and "S \<equiv> if sustain \<le> 0 then 30 else sustain"
    and "W \<equiv> if window \<le> 0 then 1000000000 else window"
  assumes fits: "in_i64 (S * W)"
  defines "within \<equiv> \<lambda>n :: nat. int n \<le> B \<and> (if 1000000000 \<le> S * W then int n * 1000000000 \<le> S * W else int n \<le> S)"
  shows "(\<forall>u. within (in_window W u (accepted_of ts r)))
     \<and> (\<forall>before t rest. ts = before @ t # rest \<longrightarrow>
          (fst (allow t (after_requests before r)) \<longleftrightarrow> within (Suc (in_window W t (accepted_of before r)))))"
proof -
  have r: "RL_burst r = B" "RL_sustain r = S" "RL_window r = W" "RL_stamps r = []" and SW: "0 < B" "0 < S" "0 < W"
    using assms(3) by (auto simp: newRateLimiter_def B_def S_def W_def DefaultBurstRate_def DefaultSustainRate_def DefaultRateWindow_def)
  have m: "maxInWindow r = (if 1000000000 \<le> S * W then S * W div 1000000000 else S)"
    using fits SW by (auto simp: maxInWindow_def r Let_def pos_imp_zdiv_pos_iff div_pos_pos_trivial)
  have within: "within n \<longleftrightarrow> int n \<le> window_bound r" for n
    by (auto simp: within_def window_bound_def r m le_div)
  have "int (in_window (RL_window r) u ([] @ RL_stamps r @ accepted_of ts r)) \<le> window_bound r" for u
  proof (cases ts)
    case (Cons t ts')
    show ?thesis
      by (rule accepted_bounded [of t]) (use assms(1,2) r SW m Cons in \<open>auto simp: in_window_def window_bound_def pos_imp_zdiv_nonneg_iff\<close>)
  qed (use r SW m in \<open>simp add: in_window_def window_bound_def pos_imp_zdiv_nonneg_iff\<close>)
  moreover have "fst (allow t (after_requests before r)) \<longleftrightarrow> within (Suc (in_window W t (accepted_of before r)))"
    if "ts = before @ t # rest" for before t rest
  proof -
    have "\<And>t'. t' \<in> set (before @ [t]) \<Longrightarrow> in_i64 (t' - RL_window r)" and "sorted (before @ [t])"
      using assms(1,2) that by (auto simp: sorted_append)
    from limiter_refuses [OF this(2,1)] r SW show ?thesis
      unfolding within by auto
  qed
  ultimately show ?thesis
    unfolding within using r by simp
qed

theorem Limiter_bounds_window_witness:
  "accepted_of [0, 1, 2, 900000000, 1000000001, 1000000002] (newRateLimiter 3 0 0) = [0, 1, 2, 1000000001, 1000000002]
   \<and> in_window 1000000000 1000000001 (accepted_of [0, 1, 2, 900000000, 1000000001, 1000000002] (newRateLimiter 3 0 0)) \<le> 3"
proof
  show "accepted_of [0, 1, 2, 900000000, 1000000001, 1000000002] (newRateLimiter 3 0 0) = [0, 1, 2, 1000000001, 1000000002]"
    by (simp add: newRateLimiter_def allow_def maxInWindow_def DefaultSustainRate_def DefaultRateWindow_def i64_def Let_def)
  have "in_i64 (t - RL_window (newRateLimiter 3 0 0))" if "t \<in> set [0, 1, 2, 900000000, 1000000001, 1000000002]" for t
    using that by (auto simp: newRateLimiter_def in_i64_def DefaultRateWindow_def)
  then have "\<forall>u. int (in_window 1000000000 u (accepted_of [0, 1, 2, 900000000, 1000000001, 1000000002] (newRateLimiter 3 0 0))) \<le> 3"
    using Limiter_bounds_window [OF _ _ refl, of "[0, 1, 2, 900000000, 1000000001, 1000000002]" 3 0 0]
    by (simp add: in_i64_def del: accepted_of.simps)
  then show "in_window 1000000000 1000000001 (accepted_of [0, 1, 2, 900000000, 1000000001, 1000000002] (newRateLimiter 3 0 0)) \<le> 3"
    by (simp del: accepted_of.simps)
qed

subsection \<open>Cutting a line\<close>

lemma cut_back_le: "cut_back s n \<le> n"
  by (induction n) (auto simp: le_SucI)

text \<open>The lines of the discipline are shorter than the cut of the session, so each accepted one is delivered whole.\<close>

lemma truncateUTF8_short: "length s \<le> n \<Longrightarrow> truncateUTF8 s n = s"
  by (simp add: truncateUTF8_def)

fun deliveries :: "(nat \<Rightarrow> int) \<Rightarrow> nat \<Rightarrow> string list \<Rightarrow> rateLimiter \<Rightarrow> effect list" where
  "deliveries reading n [] r = []"
| "deliveries reading n (line # lines) r =
     (if fst (allow (reading n) r) then Emit (EventLine line) else Write ThrottleMessage) # deliveries reading (Suc n) lines (snd (allow (reading n) r))"

lemma length_deliveries: "length (deliveries reading n lines r) = length lines"
  by (induction lines arbitrary: n r) simp_all

text \<open>The effects up to the first line whose event cannot be sent.\<close>

fun until_failed :: "(nat \<Rightarrow> bool) \<Rightarrow> nat \<Rightarrow> effect list \<Rightarrow> nat" where
  "until_failed sent n [] = 0"
| "until_failed sent n (x # xs) = (if x = Write ThrottleMessage \<or> sent n then Suc (until_failed sent (Suc n) xs) else 0)"

lemma take_lines_deliveries:
  assumes "list_all (\<lambda>l. length l \<le> MaxInputLineBytes) lines"
  shows "fst (take_lines reading sent n lines r)
        = take (until_failed sent n (deliveries reading n lines r)) (deliveries reading n lines r)
     \<and> (snd (snd (take_lines reading sent n lines r)) \<longleftrightarrow> until_failed sent n (deliveries reading n lines r) = length lines)"
  using assms
proof (induction lines arbitrary: n r)
  case (Cons line lines)
  obtain ok r1 where a: "allow (reading n) r = (ok, r1)" by fastforce
  obtain e r2 m where t: "take_lines reading sent (Suc n) lines r1 = (e, r2, m)" by (rule prod_cases3)
  from Cons.IH [of "Suc n" r1] Cons.prems show ?case
    by (simp add: a t truncateUTF8_short)
qed simp

lemma until_failed_iff:
  "until_failed sent n xs = k \<longleftrightarrow> k \<le> length xs \<and> (\<forall>j < k. xs ! j = Write ThrottleMessage \<or> sent (n + j))
     \<and> (k < length xs \<longrightarrow> xs ! k \<noteq> Write ThrottleMessage \<and> \<not> sent (n + k))"
proof (induction xs arbitrary: n k)
  case (Cons x xs)
  show ?case
  proof (cases k)
    case 0
    then show ?thesis by auto
  next
    case (Suc l)
    then show ?thesis
      using Cons.IH [of "Suc n" l] by (auto simp: less_Suc_eq_0_disj)
  qed
qed auto

definition session_ok :: "Session \<Rightarrow> bool" where
  "session_ok s \<longleftrightarrow> line_ok (SS_input (S_state s)) \<and> LD_limit (SS_input (S_state s)) \<le> int MaxInputLineBytes"

text \<open>C28. A session that is not closed passes every line its discipline completes to the game, in order and
  uncut, save those the limiter refuses, each of which is answered by the throttle message; a closed
  session passes none; and the input stays well-formed.  This goes on up to the first line whose event cannot be sent
  because the session is being ended: this line and all after it are dropped, and reading stops; without such a line
  reading goes on.\<close>

theorem Session_delivers:
  assumes "session_ok s" and "list_all (\<lambda>b. b < 256) data"
    and due_def: "due = (if SS_closed (S_state s) then [] else deliveries reading 0 (fst (Feed (SS_input (S_state s)) data)) (S_limiter s))"
  shows "\<exists>effects s' goesOn k. read_chunk data reading sent s = (effects, s', goesOn) \<and> session_ok s'
     \<and> effects = take k due \<and> k \<le> length due \<and> (goesOn \<longleftrightarrow> k = length due)
     \<and> (\<forall>j < k. due ! j = Write ThrottleMessage \<or> sent j)
     \<and> (k < length due \<longrightarrow> due ! k \<noteq> Write ThrottleMessage \<and> \<not> sent k)"
proof (cases "SS_closed (S_state s)")
  case True
  then show ?thesis
    using assms(1) by (auto simp: read_chunk_def FeedInput_def session_ok_def due_def intro: exI [of _ True])
next
  case False
  obtain lines input where f: "Feed (SS_input (S_state s)) data = (lines, input)"
    by fastforce
  have ok: "line_ok input" "list_all (line_fits (LD_limit (SS_input (S_state s)))) lines"
      "LD_limit input = LD_limit (SS_input (S_state s))"
    using Feed_ok [of "SS_input (S_state s)" data] assms(1,2) f by (auto simp: session_ok_def)
  then have short: "list_all (\<lambda>l. length l \<le> MaxInputLineBytes) lines"
    using assms(1) by (auto simp: list_all_iff line_fits_def session_ok_def)
  obtain effects limiter goesOn where t: "take_lines reading sent 0 lines (S_limiter s) = (effects, limiter, goesOn)"
    by (rule prod_cases3)
  obtain state where st: "FeedInput data (S_state s) = (lines, state)" "SS_input state = input"
    using False f by (auto simp: FeedInput_def)
  have due: "due = deliveries reading 0 lines (S_limiter s)" "length due = length lines"
    using False f by (simp_all add: due_def length_deliveries)
  define k where "k = until_failed sent 0 due"
  have "effects = take k due" "goesOn \<longleftrightarrow> k = length due"
    using take_lines_deliveries [OF short, of reading sent 0 "S_limiter s"] t by (simp_all add: k_def due length_deliveries)
  moreover have "k \<le> length due \<and> (\<forall>j < k. due ! j = Write ThrottleMessage \<or> sent j)
      \<and> (k < length due \<longrightarrow> due ! k \<noteq> Write ThrottleMessage \<and> \<not> sent k)"
    using until_failed_iff [of sent 0 due k] by (simp add: k_def)
  ultimately show ?thesis
    using st t ok assms(1) by (auto simp: read_chunk_def session_ok_def)
qed

definition demoSession :: Session where
  "demoSession = \<lparr>S_state = NewSessionState, S_limiter = newRateLimiter 1 0 0, S_closedEvent = False\<rparr>"

theorem Session_delivers_witness:
  "fst (read_chunk [97, 10, 98, 13, 10] (\<lambda>n. 5 + int n) (\<lambda>n. True) demoSession) = [Emit (EventLine ''a''), Write ThrottleMessage]
   \<and> fst (read_chunk [97, 10, 98, 13, 10] (\<lambda>n. 5 + int n) (\<lambda>n. False) demoSession) = []"
proof -
  let ?due = "[Emit (EventLine ''a''), Write ThrottleMessage]"
  have ok: "session_ok demoSession" "\<not> SS_closed (S_state demoSession)"
    using new_line_ok [of None]
    by (simp_all add: session_ok_def demoSession_def NewSessionState_def MaxInputLineBytes_def)
       (simp add: NewLineDiscipline_def DefaultInputLimit_def)
  have "fst (Feed (SS_input (S_state demoSession)) [97, 10, 98, 13, 10]) = [''a'', ''b'']"
    by code_simp
  then have due: "deliveries (\<lambda>n. 5 + int n) 0 (fst (Feed (SS_input (S_state demoSession)) [97, 10, 98, 13, 10])) (S_limiter demoSession) = ?due"
    by (simp add: demoSession_def newRateLimiter_def allow_def maxInWindow_def DefaultSustainRate_def
        DefaultRateWindow_def i64_def Let_def)
  have d: "?due = (if SS_closed (S_state demoSession) then []
      else deliveries (\<lambda>n. 5 + int n) 0 (fst (Feed (SS_input (S_state demoSession)) [97, 10, 98, 13, 10])) (S_limiter demoSession))"
    unfolding due using ok(2) by simp
  note S = Session_delivers [OF ok(1) _ d]
  obtain k where "fst (read_chunk [97, 10, 98, 13, 10] (\<lambda>n. 5 + int n) (\<lambda>n. True) demoSession) = take k ?due" "k \<le> 2" "k < 2 \<longrightarrow> False"
    using S [where sent = "\<lambda>n. True"] by fastforce
  moreover obtain l where "fst (read_chunk [97, 10, 98, 13, 10] (\<lambda>n. 5 + int n) (\<lambda>n. False) demoSession) = take l ?due" "0 < l \<longrightarrow> False"
    using S [where sent = "\<lambda>n. False"] by fastforce
  ultimately show ?thesis by simp
qed
end
