(* ===== verification/KoreanText.thy ===== *)
theory KoreanText
  imports Runes
begin

text \<open>
  Korean text (\<^verbatim>\<open>internal/krtext\<close>: syllables, particles, name buckets) and its rendering
  (\<^verbatim>\<open>internal/textfmt\<close>: legacy colours, escape sequences, the format verbs).
\<close>

subsection \<open>Syllables and particles\<close>

definition hangulBase :: int where "hangulBase = 44032"
definition hangulLast :: int where "hangulLast = 55203"
definition jongseongN :: int where "jongseongN = 28"
definition choseongN :: nat where "choseongN = 19"
definition choseongGap :: int where "choseongGap = 21 * jongseongN"
definition LegacyNameMaxSyllables :: nat where "LegacyNameMaxSyllables = 6"

definition initialBuckets :: "string list" where
  "initialBuckets =
     map (\<lambda>r. string_of_runes [r])
       [44032, 44032, 45208, 45796, 45796, 46972, 47560, 48148, 48148, 49324, 49324, 50500, 51088, 51088, 52264,
        52852, 53440, 54028, 54616]"

definition particles :: "(string \<times> string) list" where
  "particles =
     map (\<lambda>(a, b). (string_of_runes a, string_of_runes b))
       [([51008], [45716]), ([51060], [44032]), ([44284], [50752]), ([51012], [47484]), ([51004, 47196], [47196])]"

definition IsHangulSyllable :: "int \<Rightarrow> bool" where
  "IsHangulSyllable r \<longleftrightarrow> hangulBase \<le> r \<and> r \<le> hangulLast"

definition IsAllHangulSyllables :: "string \<Rightarrow> bool" where
  "IsAllHangulSyllables s \<longleftrightarrow> list_all IsHangulSyllable (runes s)"

definition IsLegacyName :: "string \<Rightarrow> bool" where
  "IsLegacyName s \<longleftrightarrow>
     list_all IsHangulSyllable (runes s) \<and> 0 < length (runes s) \<and> length (runes s) \<le> LegacyNameMaxSyllables"

text \<open>The last rune, or the last one before a parenthesis that closes the text.\<close>

fun before_open :: "int list \<Rightarrow> int list option" where
  "before_open [] = None"
| "before_open (r # rs) = (if r = 40 then Some rs else before_open rs)"

definition targetFinalRune :: "string \<Rightarrow> int option" where
  "targetFinalRune s =
     (case rev (runes s) of
        [] \<Rightarrow> None
      | r # rs \<Rightarrow>
          let rest = (if r = 41 then (case before_open rs of Some rest \<Rightarrow> rest | None \<Rightarrow> r # rs) else r # rs)
          in case rest of [] \<Rightarrow> None | q # _ \<Rightarrow> Some q)"

definition HasFinalConsonant :: "bool \<Rightarrow> string \<Rightarrow> bool" where
  "HasFinalConsonant inTeachCommand s =
     (case targetFinalRune s of
        None \<Rightarrow> False
      | Some r \<Rightarrow>
          if \<not> IsHangulSyllable r then equalFold s ''Bob'' \<and> inTeachCommand
          else (r - hangulBase) mod jongseongN \<noteq> 0)"

definition FirstHangulBucket :: "string \<Rightarrow> string" where
  "FirstHangulBucket s =
     (case runes s of
        [] \<Rightarrow> ''temp''
      | r # _ \<Rightarrow>
          if \<not> IsHangulSyllable r then ''temp''
          else let initial = (r - hangulBase) div choseongGap
               in if initial < 0 \<or> int choseongN \<le> initial then ''temp'' else initialBuckets ! nat initial)"

definition Particle :: "bool \<Rightarrow> string \<Rightarrow> char \<Rightarrow> string" where
  "Particle inTeachCommand s kind =
     (if (of_char kind :: nat) < 48 \<or> 52 < (of_char kind :: nat) then []
      else let forms = particles ! (of_char kind - 48)
           in if HasFinalConsonant inTeachCommand s then fst forms else snd forms)"

text \<open>The syllable of an initial, a vowel and a final consonant, the latter 0 for none.\<close>

definition syllable :: "nat \<Rightarrow> nat \<Rightarrow> nat \<Rightarrow> int" where
  "syllable l v t = hangulBase + (int l * 21 + int v) * 28 + int t"

lemma syllable_scalar: "l < 19 \<Longrightarrow> v < 21 \<Longrightarrow> t < 28 \<Longrightarrow> scalar (syllable l v t) \<and> IsHangulSyllable (syllable l v t)"
  by (simp add: syllable_def hangulBase_def hangulLast_def scalar_def IsHangulSyllable_def)

lemma runes_append:
  "ValidString p \<Longrightarrow> runes (p @ q) = runes p @ runes q"
  using runes_of_encode [OF valid_runes(2) [of p], of "map of_char q"] valid_runes(1) [of p]
  by (simp add: runes_def)

lemma Particle_last:
  assumes "l < 19" and "v < 21" and "t < 28" and "k < 5" and "ValidString s"
  shows "Particle teach (s @ string_of_runes [syllable l v t]) (digit_char k)
      = (if t = 0 then snd (particles ! k) else fst (particles ! k))"
proof -
  define r where "r = syllable l v t"
  have r: "scalar r" "IsHangulSyllable r"
    using syllable_scalar [of l v t] assms by (auto simp: r_def)
  then have "runes (s @ string_of_runes [r]) = runes s @ [r]"
    using assms(5) by (simp add: runes_append runes_string_of_runes)
  then have "targetFinalRune (s @ string_of_runes [r]) = Some r"
    using r(2) by (simp add: targetFinalRune_def IsHangulSyllable_def hangulBase_def)
  moreover have "(r - hangulBase) mod jongseongN = int t"
  proof -
    have "r - hangulBase = int t + 28 * (int l * 21 + int v)"
      by (simp add: r_def syllable_def)
    then show ?thesis
      using assms(3) by (simp only: jongseongN_def mod_mult_self2) simp
  qed
  ultimately have "HasFinalConsonant teach (s @ string_of_runes [r]) \<longleftrightarrow> t \<noteq> 0"
    using r(2) by (simp add: HasFinalConsonant_def)
  then show "Particle teach (s @ string_of_runes [syllable l v t]) (digit_char k)
      = (if t = 0 then snd (particles ! k) else fst (particles ! k))"
    using assms(4) by (simp add: Particle_def of_char_digit_char Let_def flip: r_def)
qed

text \<open>C36. For a word that begins with one syllable and ends with another, the particle is the form after a
  consonant exactly when the last syllable has a final consonant, and the bucket of its name is the
  one of the initial of the first syllable: all 11,172 syllables are treated by their composition.\<close>

theorem Particle_by_composition:
  assumes "l < 19" and "v < 21" and "t < 28" and "l' < 19" and "v' < 21" and "t' < 28" and "k < 5"
    and "ValidString s"
  shows "Particle teach (s @ string_of_runes [syllable l v t]) (digit_char k)
      = (if t = 0 then snd (particles ! k) else fst (particles ! k))
    \<and> FirstHangulBucket (string_of_runes [syllable l' v' t'] @ s) = initialBuckets ! l'"
proof
  show "Particle teach (s @ string_of_runes [syllable l v t]) (digit_char k)
      = (if t = 0 then snd (particles ! k) else fst (particles ! k))"
    using assms by (intro Particle_last)
next
  define r where "r = syllable l' v' t'"
  have r: "scalar r" "IsHangulSyllable r"
    using syllable_scalar [of l' v' t'] assms by (auto simp: r_def)
  have i: "(r - hangulBase) div choseongGap = int l'"
  proof -
    have "r - hangulBase = choseongGap * int l' + (int v' * 28 + int t')"
      by (simp add: r_def syllable_def choseongGap_def jongseongN_def)
    moreover have "0 \<le> int v' * 28 + int t'" "int v' * 28 + int t' < choseongGap"
      using assms by (auto simp: choseongGap_def jongseongN_def)
    ultimately show ?thesis
      by (simp add: div_mult_self4)
  qed
  have "runes (string_of_runes [r] @ s) = r # runes s"
    using r(1) by (simp add: runes_append runes_string_of_runes ValidString_of_runes)
  then show "FirstHangulBucket (string_of_runes [syllable l' v' t'] @ s) = initialBuckets ! l'"
    using r(2) i assms(4) by (simp add: FirstHangulBucket_def choseongN_def flip: r_def)
qed

theorem Particle_by_composition_witness:
  "syllable 0 8 4 = 44260 \<and> Particle False (string_of_runes [44032, 44260]) CHR ''0'' = string_of_runes [51008]
   \<and> FirstHangulBucket (string_of_runes [44260]) = string_of_runes [44032]"
proof -
  have v: "ValidString (string_of_runes [44032])" "ValidString []"
    by code_simp+
  have s: "syllable 0 8 4 = 44260"
    by (simp add: syllable_def hangulBase_def)
  have d: "digit_char 0 = CHR ''0''"
    by code_simp
  have j: "string_of_runes [44032] @ string_of_runes [44260] = string_of_runes [44032, 44260]"
    by (simp add: string_of_runes_def)
  from Particle_by_composition [of 0 8 4 0 8 4 0 "string_of_runes [44032]" False]
       Particle_by_composition [of 0 8 4 0 8 4 0 "[]" False] v s d j
  show ?thesis
    by (simp add: particles_def initialBuckets_def)
qed

subsection \<open>Escape sequences\<close>

record Options =
  ANSI :: bool
  Bright :: bool

definition escape :: char where
  "escape = CHR 0x1B"

definition legacyColorCodes :: "(string \<times> string) list" where
  "legacyColorCodes =
     map (\<lambda>(r, code). (string_of_runes [r], code))
       [(44160, ''30''), (48744, ''31''), (52488, ''32''), (45433, ''32''), (45432, ''33''), (54028, ''34''),
        (48372, ''35''), (52397, ''36''), (54616, ''36''), (55152, ''37'')]"

text \<open>The range over the map has no order, but at most one name fits (lemma \<open>color_order_free\<close>).\<close>

definition legacyColorCodeAt :: "string \<Rightarrow> (string \<times> nat) option" where
  "legacyColorCodeAt s =
     (case find (\<lambda>(token, code). hasPrefix s token) legacyColorCodes of
        Some (token, code) \<Rightarrow> Some (code, length token)
      | None \<Rightarrow> None)"

definition leadingColorCode :: "string \<Rightarrow> int" where
  "leadingColorCode s =
     (let ds = takeWhile is_digit s
      in if ds = [] then -1 else case atoi ds of Some n \<Rightarrow> n | None \<Rightarrow> -1)"

definition ansiSequence :: "Options \<Rightarrow> string \<Rightarrow> string" where
  "ansiSequence opts value =
     (if \<not> ANSI opts \<or> value = [] then []
      else let color = (if atoi value \<noteq> None then value @ ''m'' else value);
               bright = (if Bright opts \<and> leadingColorCode color \<noteq> 37 then 1 else 0)
           in escape # ''['' @ itoa bright @ '';'' @ color)"

definition ansiResetSequence :: "Options \<Rightarrow> string \<Rightarrow> string" where
  "ansiResetSequence opts value =
     (if \<not> ANSI opts then [] else ansiSequence opts (if value = [] then ''0'' else value))"

function render_from :: "Options \<Rightarrow> bool \<Rightarrow> string \<Rightarrow> string" where
  "render_from opts changed [] = []"
| "render_from opts changed (c # s) =
     (case (if c = CHR ''{'' then legacyColorCodeAt s else None) of
        Some (code, n) \<Rightarrow> ansiSequence opts code @ render_from opts True (drop n s)
      | None \<Rightarrow>
          if c = CHR ''}'' \<and> changed then ansiResetSequence opts ''37'' @ render_from opts changed s
          else c # render_from opts changed s)"
  by pat_completeness auto
termination by (relation "measure (\<lambda>(opts, changed, s). length s)") (auto simp: less_Suc_eq_le)

definition RenderLegacyColors :: "Options \<Rightarrow> string \<Rightarrow> string" where
  "RenderLegacyColors opts s = (if CHR ''{'' \<notin> set s \<and> CHR ''}'' \<notin> set s then s else render_from opts False s)"

text \<open>The length of the escape sequence that starts a text; the first byte is the escape.\<close>

fun osc_end :: "string \<Rightarrow> nat" where
  "osc_end [] = 0"
| "osc_end (c # s) =
     (if c = CHR 0x07 then 1 else if c = escape \<and> s \<noteq> [] \<and> hd s = CHR 0x5C then 2 else Suc (osc_end s))"

fun csi_end :: "string \<Rightarrow> nat" where
  "csi_end [] = 0"
| "csi_end (c # s) = (if 64 \<le> (of_char c :: nat) \<and> (of_char c :: nat) \<le> 126 then 1 else Suc (csi_end s))"

definition ansiEscapeEnd :: "string \<Rightarrow> nat option" where
  "ansiEscapeEnd s =
     (case s of
        _ # c # rest \<Rightarrow>
          if c = CHR ''['' then Some (2 + csi_end rest)
          else if c = CHR '']'' then Some (2 + osc_end rest)
          else if 64 \<le> (of_char c :: nat) \<and> (of_char c :: nat) \<le> 95 then Some 2 else None
      | _ \<Rightarrow> None)"

function stripANSISequences :: "string \<Rightarrow> string" where
  "stripANSISequences [] = []"
| "stripANSISequences (c # s) =
     (case (if c = escape then ansiEscapeEnd (c # s) else None) of
        Some n \<Rightarrow> stripANSISequences (drop (n - 1) s)
      | None \<Rightarrow> c # stripANSISequences s)"
  by pat_completeness auto
termination by (relation "measure length") (auto simp: less_Suc_eq_le)

lemma find_SomeD: "find P xs = Some x \<Longrightarrow> x \<in> set xs \<and> P x"
  by (auto simp: find_Some_iff)

lemma color_order_free:
  assumes "set cs = set legacyColorCodes" and "find (\<lambda>(token, code). hasPrefix s token) cs = Some (token, code)"
  shows "legacyColorCodeAt s = Some (code, length token)"
proof -
  have one: "x = y" if "x \<in> set legacyColorCodes" "y \<in> set legacyColorCodes" "hasPrefix s (fst x)" "hasPrefix s (fst y)" for x y
  proof -
    have "length (fst x) = 3" "length (fst y) = 3"
    proof -
      have "list_all (\<lambda>x. length (fst x) = 3) legacyColorCodes" by code_simp
      then show "length (fst x) = 3" "length (fst y) = 3" using that by (auto simp: list_all_iff)
    qed
    then have "fst x = fst y"
      using that by (auto simp: hasPrefix_def prefix_def append_eq_append_conv)
    moreover have "distinct (map fst legacyColorCodes)" by code_simp
    ultimately show ?thesis
      using that by (metis eq_key_imp_eq_value prod.collapse)
  qed
  have m: "(token, code) \<in> set legacyColorCodes" "hasPrefix s token"
    using assms find_SomeD [OF assms(2)] by auto
  then obtain y where y: "find (\<lambda>(token, code). hasPrefix s token) legacyColorCodes = Some y"
    by (cases "find (\<lambda>(token, code). hasPrefix s token) legacyColorCodes") (auto simp: find_None_iff)
  then have "y \<in> set legacyColorCodes" "hasPrefix s (fst y)"
    using find_SomeD [OF y] by (auto split: prod.splits)
  with m one [of y "(token, code)"] y show ?thesis
    by (simp add: legacyColorCodeAt_def)
qed

lemma strip_plain: "escape \<notin> set s \<Longrightarrow> stripANSISequences s = s"
  by (induction s) auto

text \<open>An inserted sequence is removed whole.\<close>

lemma strip_sequence:
  assumes "ANSI opts" and "value \<in> set (''37'' # map snd legacyColorCodes)"
  shows "stripANSISequences (ansiSequence opts value @ s) = stripANSISequences s"
proof -
  have "value \<in> {''30'', ''31'', ''32'', ''33'', ''34'', ''35'', ''36'', ''37''}"
    using assms(2) by (auto simp: legacyColorCodes_def)
  then obtain d where d: "value = [CHR ''3'', d]" "d \<in> set ''01234567''"
    by auto
  have "list_all (\<lambda>d. atoi [CHR ''3'', d] \<noteq> None) ''01234567''"
    by code_simp
  then have "atoi [CHR ''3'', d] \<noteq> None"
    using d(2) unfolding list_all_iff by blast
  then obtain b where "ansiSequence opts value = escape # ''['' @ itoa b @ '';3'' @ [d] @ ''m''" and b: "b = 0 \<or> b = 1"
    using assms(1) by (auto simp: ansiSequence_def d(1) Let_def)
  moreover have "itoa 0 = ''0''" "itoa 1 = ''1''"
    by code_simp+
  ultimately show ?thesis
    using d(2) by (auto simp: ansiEscapeEnd_def escape_def)
qed

lemma color_code_known: "legacyColorCodeAt s = Some (code, n) \<Longrightarrow> code \<in> snd ` set legacyColorCodes"
  by (auto simp: legacyColorCodeAt_def split: option.splits prod.splits dest!: find_SomeD intro: rev_image_eqI)

lemma strip_render:
  "ANSI opts \<Longrightarrow> escape \<notin> set s \<Longrightarrow>
   stripANSISequences (render_from opts changed s) = render_from (opts\<lparr>ANSI := False\<rparr>) changed s"
proof (induction opts changed s rule: render_from.induct)
  case (2 opts changed c s)
  have plain: "ansiSequence (opts\<lparr>ANSI := False\<rparr>) v = []" for v
    by (simp add: ansiSequence_def)
  show ?case
  proof (cases "if c = CHR ''{'' then legacyColorCodeAt s else None")
    case (Some x)
    then obtain code n where x: "(if c = CHR ''{'' then legacyColorCodeAt s else None) = Some (code, n)"
      by (cases x) auto
    then have "code \<in> set (''37'' # map snd legacyColorCodes)"
      using color_code_known by (auto split: if_splits)
    moreover have "escape \<notin> set (drop n s)"
      using "2.prems" by (auto dest: in_set_dropD)
    ultimately show ?thesis
      using "2.IH"(3) [OF x refl] "2.prems" x plain by (simp add: strip_sequence)
  next
    case None
    show ?thesis
    proof (cases "c = CHR ''}'' \<and> changed")
      case True
      with None "2.IH"(1) [OF None True] "2.prems" plain show ?thesis
        by (simp add: ansiResetSequence_def strip_sequence)
    next
      case False
      with None "2.IH"(2) [OF None False] "2.prems" show ?thesis
        by auto
    qed
  qed
qed simp

text \<open>For a text without escape bytes, removing the escape sequences from its coloured rendering gives its
  plain rendering: colours change nothing but the sequences themselves.\<close>

theorem Colours_strip_off:
  assumes "ANSI opts" and "escape \<notin> set s"
  shows "stripANSISequences (RenderLegacyColors opts s) = RenderLegacyColors (opts\<lparr>ANSI := False\<rparr>) s"
proof -
  have "stripANSISequences s = s"
    using assms(2) by (rule strip_plain)
  then show ?thesis
    using strip_render [OF assms] by (simp add: RenderLegacyColors_def)
qed

theorem Colours_strip_off_witness:
  "stripANSISequences (RenderLegacyColors \<lparr>ANSI = True, Bright = True\<rparr> (''a{'' @ string_of_runes [48744] @ ''b}c'')) = ''abc''
   \<and> RenderLegacyColors \<lparr>ANSI = True, Bright = True\<rparr> (''a{'' @ string_of_runes [48744] @ ''b}c'') \<noteq> ''abc''"
proof
  have "RenderLegacyColors \<lparr>ANSI = False, Bright = True\<rparr> (''a{'' @ string_of_runes [48744] @ ''b}c'') = ''abc''"
    by code_simp
  moreover have "escape \<notin> set (''a{'' @ string_of_runes [48744] @ ''b}c'')"
    by code_simp
  ultimately show "stripANSISequences (RenderLegacyColors \<lparr>ANSI = True, Bright = True\<rparr> (''a{'' @ string_of_runes [48744] @ ''b}c'')) = ''abc''"
    using Colours_strip_off [of "\<lparr>ANSI = True, Bright = True\<rparr>"] by simp
  show "RenderLegacyColors \<lparr>ANSI = True, Bright = True\<rparr> (''a{'' @ string_of_runes [48744] @ ''b}c'') \<noteq> ''abc''"
    by code_simp
qed

subsection \<open>The text a particle refers to\<close>

definition space_rune :: "int \<Rightarrow> bool" where
  "space_rune r \<longleftrightarrow>
     9 \<le> r \<and> r \<le> 13 \<or> r \<in> {32, 133, 160, 5760, 8232, 8233, 8239, 8287, 12288} \<or> 8192 \<le> r \<and> r \<le> 8202"

text \<open>\<^verbatim>\<open>utf8.DecodeLastRune\<close>.\<close>

definition last_rune :: "int list \<Rightarrow> int \<times> nat" where
  "last_rune p =
     (let n = length p
      in if p = [] then (65533, 0)
         else if last p < 128 then (last p, 1)
         else case find (\<lambda>k. k \<le> n \<and> \<not> tail_byte (p ! (n - k))) [2, 3, 4] of
           None \<Rightarrow> (65533, 1)
         | Some k \<Rightarrow> (case first_rune (drop (n - k) p) of (r, m) \<Rightarrow> if m = k then (r, k) else (65533, 1)))"

lemma last_rune_width: "p \<noteq> [] \<Longrightarrow> 1 \<le> snd (last_rune p)"
  by (auto simp: last_rune_def Let_def split: option.split prod.split dest!: find_Some_iff [THEN iffD1])

lemma last_rune_shorter: "p \<noteq> [] \<Longrightarrow> length p - snd (last_rune p) < length p"
  using last_rune_width [of p] by (cases p) auto

function trim_right :: "(int \<Rightarrow> bool) \<Rightarrow> int list \<Rightarrow> int list" where
  "trim_right f p =
     (if p = [] \<or> \<not> f (fst (last_rune p)) then p else trim_right f (take (length p - snd (last_rune p)) p))"
  by pat_completeness auto
termination
  by (relation "measure (\<lambda>(f, p). length p)") (auto simp: min_def dest: last_rune_shorter)

declare trim_right.simps [simp del]

definition isClosingPairRune :: "int \<Rightarrow> bool" where
  "isClosingPairRune r \<longleftrightarrow> r \<in> {41, 93, 125, 65289, 65341, 65373}"

definition pairs :: "(int \<times> int) list" where
  "pairs = [(40, 41), (91, 93), (123, 125), (65288, 65289), (65339, 65341), (65371, 65373)]"

text \<open>The position of the opening rune that matches the end of the text, scanning backwards.\<close>

function matching_open :: "int \<Rightarrow> int \<Rightarrow> nat \<Rightarrow> int list \<Rightarrow> nat option" where
  "matching_open opening closing depth p =
     (if p = [] then None
      else let (r, n) = last_rune p; p = take (length p - n) p
           in if r = closing then matching_open opening closing (depth + 1) p
              else if r = opening then (if depth = 1 then Some (length p) else matching_open opening closing (depth - 1) p)
              else matching_open opening closing depth p)"
  by pat_completeness auto
termination
  by (relation "measure (\<lambda>(x, y, d, p). length p)") (auto simp: min_def prod_eq_iff dest: last_rune_shorter)

declare matching_open.simps [simp del]

fun trim_pair :: "(int \<times> int) list \<Rightarrow> int list \<Rightarrow> int list option" where
  "trim_pair [] p = None"
| "trim_pair ((opening, closing) # ps) p =
     (if \<not> suffix (encode_rune closing) p then trim_pair ps p
      else case matching_open opening closing 0 p of
        None \<Rightarrow> None
      | Some start \<Rightarrow> Some (trim_right space_rune (take start p)))"

lemma trim_right_length: "length (trim_right f p) \<le> length p"
  by (induction f p rule: trim_right.induct) (subst trim_right.simps, auto)

lemma matching_open_less: "matching_open x y d p = Some i \<Longrightarrow> i < length p"
proof (induction x y d p rule: matching_open.induct)
  case (1 x y d p)
  obtain r n where rn: "last_rune p = (r, n)" by fastforce
  define q where "q = take (length p - n) p"
  show ?case
  proof (cases "p = []")
    case False
    then have q: "length q < length p"
      using last_rune_shorter [of p] rn by (simp add: q_def)
    have eq: "matching_open x y d p =
        (if r = y then matching_open x y (d + 1) q
         else if r = x then (if d = 1 then Some (length q) else matching_open x y (d - 1) q)
         else matching_open x y d q)"
      using False rn by (subst matching_open.simps) (simp add: q_def Let_def)
    consider "r = y" | "r \<noteq> y" "r = x" "d = 1" | "r \<noteq> y" "r = x" "d \<noteq> 1" | "r \<noteq> y" "r \<noteq> x"
      by blast
    then have "i \<le> length q"
    proof cases
      case 1
      then show ?thesis
        using "1.IH"(1) [OF False refl rn [symmetric] q_def 1] "1.prems" eq by simp
    next
      case 2
      then show ?thesis
        using "1.prems" eq by simp
    next
      case 3
      then show ?thesis
        using "1.IH"(2) [OF False refl rn [symmetric] q_def 3] "1.prems" eq by simp
    next
      case 4
      then show ?thesis
        using "1.IH"(3) [OF False refl rn [symmetric] q_def 4] "1.prems" eq by simp
    qed
    with q show ?thesis by simp
  qed (use "1.prems" in \<open>simp add: matching_open.simps\<close>)
qed

lemma trim_pair_less: "trim_pair ps p = Some q \<Longrightarrow> length q < length p"
  by (induction ps p rule: trim_pair.induct)
     (auto split: if_splits option.splits dest!: matching_open_less intro: le_less_trans [OF trim_right_length])

text \<open>One round of the loop: \<open>Inr\<close> when it is over. \<open>is_punct\<close> is \<^verbatim>\<open>unicode.IsPunct\<close>.\<close>

definition reference_round :: "(int \<Rightarrow> bool) \<Rightarrow> int list \<Rightarrow> int list + int list" where
  "reference_round is_punct p =
     (let s = trim_right space_rune p;
          s = trim_right (\<lambda>r. is_punct r \<and> \<not> isClosingPairRune r) s
      in case trim_pair pairs s of
           Some trimmed \<Rightarrow> Inl trimmed
         | None \<Rightarrow>
             let s = trim_right (\<lambda>r. space_rune r \<or> is_punct r) s
             in if s = p then Inr s else Inl s)"

lemma trim_right_shorter: "trim_right f p \<noteq> p \<Longrightarrow> length (trim_right f p) < length p"
proof -
  assume n: "trim_right f p \<noteq> p"
  have "\<not> (p \<noteq> [] \<and> f (fst (last_rune p))) \<Longrightarrow> trim_right f p = p"
    by (subst trim_right.simps) auto
  with n have p: "p \<noteq> []" "f (fst (last_rune p))"
    by blast+
  then have "length (trim_right f p) \<le> length (take (length p - snd (last_rune p)) p)"
    by (subst trim_right.simps) (simp add: trim_right_length del: length_take)
  with last_rune_shorter [OF p(1)] show ?thesis
    by simp
qed

lemma reference_round_less: "reference_round is_punct p = Inl q \<Longrightarrow> length q < length p"
proof -
  assume r: "reference_round is_punct p = Inl q"
  define s t u where "s = trim_right space_rune p" and "t = trim_right (\<lambda>r. is_punct r \<and> \<not> isClosingPairRune r) s"
    and "u = trim_right (\<lambda>r. space_rune r \<or> is_punct r) t"
  have len: "length u \<le> length t" "length t \<le> length s" "length s \<le> length p"
    unfolding s_def t_def u_def by (rule trim_right_length)+
  show ?thesis
  proof (cases "trim_pair pairs t")
    case (Some v)
    with r len trim_pair_less [OF Some] show ?thesis
      by (simp add: reference_round_def flip: s_def t_def u_def)
  next
    case None
    with r have "q = u" "u \<noteq> p"
      by (auto simp: reference_round_def Let_def simp flip: s_def t_def u_def split: if_splits)
    moreover have "length u = length p \<Longrightarrow> u = p"
      using len trim_right_shorter [of space_rune p] trim_right_shorter [of "\<lambda>r. is_punct r \<and> \<not> isClosingPairRune r" s]
        trim_right_shorter [of "\<lambda>r. space_rune r \<or> is_punct r" t]
      by (fold s_def t_def u_def) force
    ultimately show ?thesis
      using len by (cases "length u = length p") auto
  qed
qed

function reference_loop :: "(int \<Rightarrow> bool) \<Rightarrow> int list \<Rightarrow> int list" where
  "reference_loop is_punct p =
     (case reference_round is_punct p of Inr s \<Rightarrow> s | Inl q \<Rightarrow> reference_loop is_punct q)"
  by pat_completeness auto
termination
  by (relation "measure (\<lambda>(f, p). length p)") (auto dest: reference_round_less)

declare reference_loop.simps [simp del]

definition particleReferenceText :: "(int \<Rightarrow> bool) \<Rightarrow> string \<Rightarrow> string" where
  "particleReferenceText is_punct s =
     map char_of (reference_loop is_punct (map of_char (stripANSISequences s)))"

lemma reference_round_Inr: "reference_round is_punct p = Inr s \<Longrightarrow> s = p"
  by (auto simp: reference_round_def Let_def split: option.splits if_splits)

subsection \<open>Formats\<close>

text \<open>
  The values a format is applied to; the last two constructors carry what \<^verbatim>\<open>String\<close> and \<^verbatim>\<open>fmt.Sprint\<close>
  give for other types, and the name of the type. \<open>sprintf\<close> is \<^verbatim>\<open>fmt.Fprintf\<close> on one specifier.
\<close>

datatype arg =
    ANil
  | AString string
  | ABytes string
  | AByte int
  | ARune int
  | AInt int
  | AStringer string string
  | AOther string string

fun stringify :: "arg \<Rightarrow> string" where
  "stringify ANil = []"
| "stringify (AString s) = s"
| "stringify (ABytes s) = s"
| "stringify (AByte v) = itoa v"
| "stringify (ARune v) = itoa v"
| "stringify (AInt v) = itoa v"
| "stringify (AStringer s t) = s"
| "stringify (AOther s t) = s"

fun type_name :: "arg \<Rightarrow> string" where
  "type_name ANil = ''<nil>''"
| "type_name (AString s) = ''string''"
| "type_name (ABytes s) = ''[]uint8''"
| "type_name (AByte v) = ''uint8''"
| "type_name (ARune v) = ''int32''"
| "type_name (AInt v) = ''int''"
| "type_name (AStringer s t) = t"
| "type_name (AOther s t) = t"

definition consumeArg :: "char \<Rightarrow> nat \<Rightarrow> arg list \<Rightarrow> (arg \<times> arg list) result" where
  "consumeArg verb pos args =
     (case args of
        [] \<Rightarrow> Inl (Errorf ''%%%c at byte %d missing argument'' [[verb], itoa (int pos)])
      | value # rest \<Rightarrow> Inr (value, rest))"

definition particle_kind :: "arg \<Rightarrow> char option" where
  "particle_kind value =
     (let from_int = (\<lambda>v. if 0 \<le> v \<and> v \<le> 4 then Some (char_of (48 + v)) else if 0 \<le> v \<and> v \<le> 255 then Some (char_of v) else None);
          from_string = (\<lambda>s. case s of [] \<Rightarrow> None | c # _ \<Rightarrow> Some c)
      in case value of
           AByte v \<Rightarrow> from_int v
         | ARune v \<Rightarrow> from_int v
         | AInt v \<Rightarrow> from_int v
         | AString s \<Rightarrow> from_string s
         | AStringer s _ \<Rightarrow> from_string s
         | _ \<Rightarrow> None)"

definition consumeParticleKind :: "nat \<Rightarrow> arg list \<Rightarrow> (char \<times> arg list) result" where
  "consumeParticleKind pos args =
     (case consumeArg (CHR ''j'') pos args of
        Inl err \<Rightarrow> Inl err
      | Inr (value, rest) \<Rightarrow>
          (case particle_kind value of
             Some kind \<Rightarrow> Inr (kind, rest)
           | None \<Rightarrow> Inl (Errorf ''%%j particle kind must be byte-like, got %T'' [type_name value])))"

definition isCustomVerb :: "char \<Rightarrow> bool" where
  "isCustomVerb c \<longleftrightarrow> c \<in> set ''SjCDmMiI''"

text \<open>The verbs of the text after a percent sign, with what follows them.\<close>

definition customVerb :: "string \<Rightarrow> (char \<times> int \<times> string) option" where
  "customVerb s =
     (case dropWhile is_digit s of
        [] \<Rightarrow> None
      | c # rest \<Rightarrow>
          if isCustomVerb c
          then Some (c, foldl (\<lambda>v d. i64 (v * 10 + int (digit_val d))) 0 (takeWhile is_digit s), rest)
          else None)"

definition star_or_digits :: "string \<Rightarrow> string \<times> string \<times> nat" where
  "star_or_digits s =
     (if s \<noteq> [] \<and> hd s = CHR ''*'' then (''*'', tl s, 1) else (takeWhile is_digit s, dropWhile is_digit s, 0))"

definition standardSpec :: "nat \<Rightarrow> string \<Rightarrow> (string \<times> string \<times> nat) result" where
  "standardSpec start s =
     (let flag = (\<lambda>c. c \<in> set ''#0+- ''); len = (\<lambda>c. c \<in> set ''hlLztj'');
          (width, s2, k) = star_or_digits (dropWhile flag s);
          (precision, s3, k') =
            (if s2 \<noteq> [] \<and> hd s2 = CHR ''.''
             then (case star_or_digits (tl s2) of (d, rest, n) \<Rightarrow> (''.'' @ d, rest, n)) else ([], s2, 0))
      in case dropWhile len s3 of
           [] \<Rightarrow> Inl (Errorf ''unterminated format specifier at byte %d'' [itoa (int start)])
         | verb # rest \<Rightarrow>
             Inr (''%'' @ takeWhile flag s @ width @ precision @ takeWhile len s3 @ [verb], rest, k + k'))"

definition goSpec :: "string \<Rightarrow> string" where
  "goSpec spec =
     (if length spec < 2 then spec
      else let verb = last spec; body = rev (dropWhile (\<lambda>c. c \<in> set ''hlLztj'') (rev (butlast (tl spec))))
           in ''%'' @ body @ [if verb = CHR ''u'' then CHR ''d'' else verb])"

fun consume_many :: "nat \<Rightarrow> nat \<Rightarrow> arg list \<Rightarrow> (arg list \<times> arg list) result" where
  "consume_many pos 0 args = Inr ([], args)"
| "consume_many pos (Suc n) args =
     (case consumeArg (CHR ''*'') pos args of
        Inl err \<Rightarrow> Inl err
      | Inr (value, args) \<Rightarrow>
          (case consume_many pos n args of Inl err \<Rightarrow> Inl err | Inr (values, args) \<Rightarrow> Inr (value # values, args)))"

type_synonym resolver = "char \<Rightarrow> arg \<Rightarrow> int \<Rightarrow> string result"

record Renderer =
  R_Options :: Options
  R_Resolver :: "resolver option"

text \<open>The text of a custom verb that takes a value, and whether it becomes the last rendered text.\<close>

definition render_verb :: "Renderer \<Rightarrow> nat \<Rightarrow> char \<Rightarrow> int \<Rightarrow> arg \<Rightarrow> (string \<times> bool) result" where
  "render_verb r pos verb count value =
     (if verb = CHR ''S'' then Inr (stringify value, True)
      else if verb = CHR ''C'' then Inr (ansiSequence (R_Options r) (stringify value), False)
      else if verb = CHR ''D'' then Inr (ansiResetSequence (R_Options r) (stringify value), False)
      else case R_Resolver r of
        None \<Rightarrow> Inl (Errorf ''%%%c at byte %d requires a Resolver'' [[verb], itoa (int pos)])
      | Some resolve \<Rightarrow> map_sum id (\<lambda>t. (t, True)) (resolve verb value count))"

lemma customVerb_shorter: "customVerb s = Some (c, n, rest) \<Longrightarrow> length rest < length s"
  by (auto simp: customVerb_def split: list.splits if_splits
      dest!: arg_cong [where f = length] intro: less_le_trans [OF _ length_dropWhile_le [of is_digit]])

lemma star_or_digits_shorter: "star_or_digits s = (d, rest, n) \<Longrightarrow> length rest \<le> length s"
  by (auto simp: star_or_digits_def length_dropWhile_le split: if_splits)

lemma standardSpec_shorter:
  assumes "standardSpec start s = Inr (spec, rest, n)"
  shows "length rest < length s"
proof -
  obtain width s2 k where w: "star_or_digits (dropWhile (\<lambda>c. c \<in> set ''#0+- '') s) = (width, s2, k)"
    by (metis prod.exhaust)
  obtain d u m where d: "star_or_digits (tl s2) = (d, u, m)"
    by (metis prod.exhaust)
  define s3 where "s3 = (if s2 \<noteq> [] \<and> hd s2 = CHR ''.'' then u else s2)"
  have "length s2 \<le> length s"
    using star_or_digits_shorter [OF w] length_dropWhile_le [of "\<lambda>c. c \<in> set ''#0+- ''" s] by linarith
  then have "length s3 \<le> length s"
    using star_or_digits_shorter [OF d] by (auto simp: s3_def)
  moreover have "dropWhile (\<lambda>c. c \<in> set ''hlLztj'') s3 = last spec # rest"
    using assms w d by (auto simp: standardSpec_def s3_def Let_def split: list.splits if_splits)
  then have "length rest < length s3"
    using length_dropWhile_le [of "\<lambda>c. c \<in> set ''hlLztj''" s3] by simp
  ultimately show ?thesis
    by linarith
qed

text \<open>The loop of \<^verbatim>\<open>Format\<close> over the rest of the format; \<open>shown\<close> is the last rendered text.\<close>

function format_from ::
  "(int \<Rightarrow> bool) \<Rightarrow> (string \<Rightarrow> arg list \<Rightarrow> string) \<Rightarrow> bool \<Rightarrow> Renderer \<Rightarrow> nat \<Rightarrow> string option \<Rightarrow> arg list \<Rightarrow> string \<Rightarrow> string result" where
  "format_from is_punct sprintf teach r pos shown args [] = Inr []"
| "format_from is_punct sprintf teach r pos shown args (c # s) =
     (if c \<noteq> CHR ''%'' then map_sum id (Cons c) (format_from is_punct sprintf teach r (pos + 1) shown args s)
      else if s = [] then Inl (Errorf ''dangling %% at byte %d'' [itoa (int pos)])
      else if hd s = CHR ''%'' then map_sum id (Cons c) (format_from is_punct sprintf teach r (pos + 2) shown args (tl s))
      else case customVerb s of
        Some (verb, count, rest) \<Rightarrow>
          (let next_pos = pos + 1 + (length s - length rest)
           in if verb = CHR ''j''
              then (case consumeParticleKind pos args of
                      Inl err \<Rightarrow> Inl err
                    | Inr (kind, args) \<Rightarrow>
                        (case shown of
                           None \<Rightarrow> Inl (Errorf ''%%j at byte %d has no previous rendered text'' [itoa (int pos)])
                         | Some t \<Rightarrow>
                             map_sum id (append (Particle teach (particleReferenceText is_punct t) kind))
                               (format_from is_punct sprintf teach r next_pos shown args rest)))
              else (case consumeArg verb pos args of
                      Inl err \<Rightarrow> Inl err
                    | Inr (value, args) \<Rightarrow>
                        (case render_verb r pos verb count value of
                           Inl err \<Rightarrow> Inl err
                         | Inr (t, remember) \<Rightarrow>
                             map_sum id (append t)
                               (format_from is_punct sprintf teach r next_pos (if remember then Some t else shown) args rest))))
      | None \<Rightarrow>
          (case standardSpec pos s of
             Inl err \<Rightarrow> Inl err
           | Inr (spec, rest, starArgs) \<Rightarrow>
               (case consume_many pos starArgs args of
                  Inl err \<Rightarrow> Inl err
                | Inr (stars, args) \<Rightarrow>
                    (case consumeArg (last spec) pos args of
                       Inl err \<Rightarrow> Inl err
                     | Inr (value, args) \<Rightarrow>
                         map_sum id (append (sprintf (goSpec spec) (stars @ [value])))
                           (format_from is_punct sprintf teach r (pos + 1 + (length s - length rest)) shown args rest)))))"
  by pat_completeness auto
termination
  by (relation "measure (\<lambda>(f, g, t, r, p, sh, a, s). length s)")
     (auto simp: less_Suc_eq_le dest: customVerb_shorter standardSpec_shorter intro: less_imp_le)

declare format_from.simps(2) [simp del]

definition Format :: "(int \<Rightarrow> bool) \<Rightarrow> (string \<Rightarrow> arg list \<Rightarrow> string) \<Rightarrow> bool \<Rightarrow> Renderer \<Rightarrow> string \<Rightarrow> arg list \<Rightarrow> string result" where
  "Format is_punct sprintf teach r format args = format_from is_punct sprintf teach r 0 None args format"

subsection \<open>A name and its particle\<close>

lemma syllable_bytes:
  assumes "IsHangulSyllable r"
  obtains a b c where "encode_rune r = [a, b, c]" and "234 \<le> a" and "a \<le> 237" and "tail_byte b" and "tail_byte c"
    and "scalar r"
proof -
  have r: "scalar r" "44032 \<le> r" "r \<le> 55203"
    using assms by (auto simp: IsHangulSyllable_def hangulBase_def hangulLast_def scalar_def)
  then have "encode_rune r = [224 + r div 4096, 128 + r div 64 mod 64, 128 + r mod 64]"
    by (simp add: encode_rune_def)
  moreover have "234 \<le> 224 + r div 4096" "224 + r div 4096 \<le> 237" "tail_byte (128 + r div 64 mod 64)" "tail_byte (128 + r mod 64)"
    using r by (auto simp: tail_byte_def)
  ultimately show ?thesis
    using that r(1) by blast
qed

lemma last_rune_syllable:
  assumes "IsHangulSyllable r"
  shows "last_rune (p @ encode_rune r) = (r, 3)"
proof -
  obtain a b c where e: "encode_rune r = [a, b, c]" "234 \<le> a" "a \<le> 237" "tail_byte b" "tail_byte c" "scalar r"
    using syllable_bytes [OF assms] by blast
  have f: "first_rune [a, b, c] = (r, 3)"
    using first_rune_encode [OF e(6), of "[]"] e(1) by simp
  have n: "(p @ [a, b, c]) ! (length p + 1) = b" "(p @ [a, b, c]) ! length p = a" "drop (length p) (p @ [a, b, c]) = [a, b, c]"
    by (simp_all add: nth_append)
  have "find (\<lambda>k. k \<le> length (p @ [a, b, c]) \<and> \<not> tail_byte ((p @ [a, b, c]) ! (length (p @ [a, b, c]) - k))) [2, 3, 4] = Some 3"
    using e n by (simp add: tail_byte_def [of a])
  moreover have "\<not> c < 128"
    using e(5) by (simp add: tail_byte_def)
  ultimately show ?thesis
    unfolding e(1) last_rune_def Let_def using f n by simp
qed

lemma trim_right_syllable: "IsHangulSyllable r \<Longrightarrow> \<not> f r \<Longrightarrow> trim_right f (p @ encode_rune r) = p @ encode_rune r"
  by (subst trim_right.simps) (simp add: last_rune_syllable)

lemma trim_pair_syllable:
  assumes "IsHangulSyllable r"
  shows "trim_pair pairs (p @ encode_rune r) = None"
proof -
  obtain a b c where e: "encode_rune r = [a, b, c]" "234 \<le> a" "a \<le> 237" "tail_byte b" "tail_byte c" "scalar r"
    using syllable_bytes [OF assms] by blast
  have "\<not> suffix (encode_rune q) (p @ [a, b, c])" if "q \<in> {41, 93, 125, 65289, 65341, 65373}" for q
  proof -
    have "encode_rune 41 = [41]" "encode_rune 93 = [93]" "encode_rune 125 = [125]"
      "encode_rune 65289 = [239, 188, 137]" "encode_rune 65341 = [239, 188, 189]" "encode_rune 65373 = [239, 189, 157]"
      by (simp_all add: encode_rune_def scalar_def)
    then have q: "(\<exists>x. encode_rune q = [x] \<and> x < 128) \<or> (\<exists>y z. encode_rune q = [239, y, z])"
      using that by auto
    show ?thesis
    proof
      assume "suffix (encode_rune q) (p @ [a, b, c])"
      then obtain zs where z: "p @ [a, b, c] = zs @ encode_rune q"
        by (auto simp: suffix_def)
      from q show False
      proof
        assume "\<exists>x. encode_rune q = [x] \<and> x < 128"
        then obtain x where "encode_rune q = [x]" "x < 128" by blast
        with z arg_cong [OF z, of last] e(5) show False
          by (simp add: tail_byte_def)
      next
        assume "\<exists>y z. encode_rune q = [239, y, z]"
        then obtain y w where "encode_rune q = [239, y, w]" by blast
        with z have "p @ [a, b, c] = zs @ [239, y, w]" by simp
        then have "a = 239"
          using append_eq_append_conv [of "[a, b, c]" "[239, y, w]" p zs] by simp
        with e(3) show False by simp
      qed
    qed
  qed
  then show ?thesis
    by (simp add: e(1) pairs_def)
qed

lemma reference_of_name:
  assumes "IsHangulSyllable r" and "\<not> is_punct r" and "escape \<notin> set s"
  shows "particleReferenceText is_punct (s @ string_of_runes [r]) = s @ string_of_runes [r]"
proof -
  obtain a b c where e: "encode_rune r = [a, b, c]" "234 \<le> a" "a \<le> 237" "tail_byte b" "tail_byte c" "scalar r"
    using syllable_bytes [OF assms(1)] by blast
  have "\<not> space_rune r"
    using assms(1) by (auto simp: space_rune_def IsHangulSyllable_def hangulBase_def hangulLast_def)
  then have "reference_round is_punct (p @ encode_rune r) = Inr (p @ encode_rune r)" for p
    using assms(2) by (simp add: reference_round_def trim_right_syllable [OF assms(1)] trim_pair_syllable [OF assms(1)] Let_def)
  then have loop: "reference_loop is_punct (p @ encode_rune r) = p @ encode_rune r" for p
    by (subst reference_loop.simps) simp
  have bytes: "map of_char (string_of_runes [r]) = encode_rune r"
    by (simp add: bytes_of_runes)
  have "(of_char escape :: int) \<notin> set (encode_rune r)"
    using e by (auto simp: escape_def tail_byte_def)
  then have "escape \<notin> set (string_of_runes [r])"
    unfolding bytes [symmetric] by (metis image_eqI list.set_map)
  then have "stripANSISequences (s @ string_of_runes [r]) = s @ string_of_runes [r]"
    using assms(3) by (intro strip_plain) simp
  moreover have "map char_of (map of_char s @ encode_rune r) = s @ string_of_runes [r]"
    by (simp add: string_of_runes_def comp_def)
  ultimately show ?thesis
    by (simp add: particleReferenceText_def bytes loop)
qed

lemma format_char:
  "c \<noteq> CHR ''%'' \<Longrightarrow>
   format_from is_punct sprintf teach r pos shown args (c # s)
     = map_sum id (Cons c) (format_from is_punct sprintf teach r (pos + 1) shown args s)"
  by (simp add: format_from.simps(2))

lemma format_literal:
  "CHR ''%'' \<notin> set t \<Longrightarrow>
   format_from is_punct sprintf teach r pos shown args (t @ s)
     = map_sum id (append t) (format_from is_punct sprintf teach r (pos + length t) shown args s)"
proof (induction t arbitrary: pos)
  case Nil
  show ?case
    by (cases "format_from is_punct sprintf teach r pos shown args s") simp_all
next
  case (Cons c t)
  have "c \<noteq> CHR ''%''" and t: "CHR ''%'' \<notin> set t"
    using Cons.prems by auto
  then have "format_from is_punct sprintf teach r pos shown args ((c # t) @ s)
      = map_sum id (Cons c) (map_sum id (append t) (format_from is_punct sprintf teach r (pos + 1 + length t) shown args s))"
    using Cons.IH [OF t, of "pos + 1"] by (simp only: append_Cons format_char simp_thms)
  then show ?case
    by (cases "format_from is_punct sprintf teach r (pos + 1 + length t) shown args s") simp_all
qed

text \<open>The format \<open>%S%j\<close>, after any text without a percent sign, gives the text, the name, and the particle
  of the name: the form after a consonant exactly when the last syllable of the name has a final
  consonant; the particle is asked for by its number, from 0 to 4.\<close>

theorem Format_name_with_particle:
  assumes "l < 19" and "v < 21" and "t < 28" and "k < 5"
    and "ValidString s" and "escape \<notin> set s" and "\<not> is_punct (syllable l v t)" and "CHR ''%'' \<notin> set before"
  shows "Format is_punct sprintf teach r (before @ ''%S%j'') [AString (s @ string_of_runes [syllable l v t]), AInt (int k)]
    = Inr (before @ s @ string_of_runes [syllable l v t] @ (if t = 0 then snd (particles ! k) else fst (particles ! k)))"
proof -
  define name where "name = s @ string_of_runes [syllable l v t]"
  have ref: "particleReferenceText is_punct name = name"
    unfolding name_def using syllable_scalar [of l v t] assms by (intro reference_of_name) auto
  have "Particle teach name (digit_char k) = (if t = 0 then snd (particles ! k) else fst (particles ! k))"
    using Particle_last [of l v t k s teach] assms by (simp add: name_def)
  moreover have "digit_char k = char_of (48 + int k)"
  proof -
    have "list_all (\<lambda>k. digit_char k = char_of (48 + int k)) [0..<5]"
      by code_simp
    then show ?thesis
      using assms(4) by (simp add: list_all_iff)
  qed
  moreover have "customVerb ''S%j'' = Some (CHR ''S'', 0, ''%j'')" "customVerb ''j'' = Some (CHR ''j'', 0, [])"
    by code_simp+
  ultimately have "format_from is_punct sprintf teach r n None [AString name, AInt (int k)] ''%S%j''
      = Inr (name @ (if t = 0 then snd (particles ! k) else fst (particles ! k)))" for n
    using assms(4) ref
    by (simp add: format_from.simps(2) [of _ _ _ _ _ _ _ "CHR ''%''"] render_verb_def consumeArg_def consumeParticleKind_def particle_kind_def Let_def)
  then show ?thesis
    using format_literal [OF assms(8)] by (simp add: Format_def name_def)
qed

theorem Format_name_with_particle_witness:
  "Format (\<lambda>r. False) (\<lambda>s vs. []) False \<lparr>R_Options = \<lparr>ANSI = False, Bright = False\<rparr>, R_Resolver = None\<rparr>
     (''> '' @ ''%S%j'') [AString ([] @ string_of_runes [syllable 0 8 4]), AInt (int 0)]
   = Inr (''> '' @ string_of_runes [44260] @ string_of_runes [51008])"
proof -
  have s: "syllable 0 8 4 = 44260"
    by (simp add: syllable_def hangulBase_def)
  have v: "ValidString []"
    by code_simp
  from Format_name_with_particle [of 0 8 4 0 "[]" "\<lambda>r. False" "''> ''"] v s show ?thesis
    by (simp add: particles_def)
qed
end
