(* ===== verification/Reference.thy ===== *)
theory Reference
  imports KoreanText
begin

text \<open>
  What \<^verbatim>\<open>particleReferenceText\<close> (\<^verbatim>\<open>internal/textfmt/format.go\<close>) makes of a text: its loop over the bytes is
  compared with a description by runes, of the notes in brackets that end a text and of the marks and
  spaces behind them.
\<close>

subsection \<open>Notes at the end of a text\<close>

definition brackets :: "(int \<times> int) set" where
  "brackets = {(0x28, 0x29), (0x5B, 0x5D), (0x7B, 0x7D), (0xFF08, 0xFF09), (0xFF3B, 0xFF3D), (0xFF5B, 0xFF5D)}"

text \<open>An opening mark with the closing mark that matches it.\<close>

definition bracketed :: "int list \<Rightarrow> bool" where
  "bracketed par \<longleftrightarrow>
     (\<exists>(opening, closing) \<in> brackets. \<exists>ys. par = opening # ys @ [closing] \<and> count_list ys opening = count_list ys closing
        \<and> (\<forall>zs. suffix zs ys \<longrightarrow> count_list zs opening \<le> count_list zs closing))"

text \<open>The text \<open>rs\<close> is \<open>xs\<close> with a note behind it, which marks and then spaces may follow.\<close>

definition noted :: "(int \<Rightarrow> bool) \<Rightarrow> int list \<Rightarrow> int list \<Rightarrow> bool" where
  "noted is_punct xs rs \<longleftrightarrow>
     (\<exists>par marks spaces. rs = xs @ par @ marks @ spaces \<and> bracketed par
        \<and> list_all (\<lambda>r. is_punct r \<and> r \<notin> snd ` brackets) marks \<and> list_all space_rune spaces)"

definition without_end :: "(int \<Rightarrow> bool) \<Rightarrow> int list \<Rightarrow> int list" where
  "without_end f rs = rev (dropWhile f (rev rs))"

subsection \<open>The loop on runes\<close>

abbreviation enc :: "int list \<Rightarrow> int list" where
  "enc rs \<equiv> concat (map encode_rune rs)"

lemma encode_rune_shape:
  assumes "scalar r"
  shows "(encode_rune r = [r] \<and> r < 128)
    \<or> (\<exists>a ts. encode_rune r = a # ts \<and> \<not> tail_byte a \<and> list_all tail_byte ts \<and> ts \<noteq> [] \<and> length ts \<le> 3)"
  using assms by (auto simp: encode_rune_def tail_byte_def scalar_def div_pos_pos_trivial)

lemma last_rune_encode:
  assumes "scalar r"
  shows "last_rune (p @ encode_rune r) = (r, length (encode_rune r))"
  using encode_rune_shape [OF assms]
proof (elim disjE exE conjE)
  assume "encode_rune r = [r]" "r < 128"
  then show ?thesis
    by (simp add: last_rune_def Let_def)
next
  fix a ts assume e: "encode_rune r = a # ts" "\<not> tail_byte a" "list_all tail_byte ts" "ts \<noteq> []" "length ts \<le> 3"
  let ?q = "p @ a # ts"
  have f: "first_rune (a # ts) = (r, Suc (length ts))"
    using first_rune_encode [OF assms, of "[]"] e(1) by simp
  have l: "\<not> last ?q < 128"
    using bspec [OF e(3) [unfolded list_all_iff] last_in_set [OF e(4)]] e(4) by (simp add: tail_byte_def)
  have at: "?q ! (length ?q - k) = (a # ts) ! (Suc (length ts) - k)" if "k \<le> Suc (length ts)" for k
  proof -
    have "length ?q - k = length p + (Suc (length ts) - k)"
      using that by simp
    then show ?thesis by (simp only: nth_append_length_plus)
  qed
  have tail: "tail_byte ((a # ts) ! (Suc (length ts) - k))" if "2 \<le> k" "k \<le> length ts" for k
    using that e(3) by (simp add: list_all_length Suc_diff_le)
  have "find (\<lambda>k. k \<le> length ?q \<and> \<not> tail_byte (?q ! (length ?q - k))) [2, 3, 4] = Some (Suc (length ts))"
  proof -
    consider "length ts = 1" | "length ts = 2" | "length ts = 3"
      using e(4,5) by (cases ts) (auto simp: le_Suc_eq numeral_3_eq_3)
    then show ?thesis
    proof cases
      case 1 then show ?thesis using at [of 2] e(2) by simp
    next
      case 2 then show ?thesis using at [of 2] at [of 3] tail [of 2] e(2) by simp
    next
      case 3 then show ?thesis using at [of 2] at [of 3] at [of 4] tail [of 2] tail [of 3] e(2) by simp
    qed
  qed
  with f l show ?thesis
    unfolding e(1) last_rune_def Let_def by simp
qed

lemma without_end_simps [simp]:
  "without_end f [] = []" "without_end f (rs @ [r]) = (if f r then without_end f rs else rs @ [r])"
  by (simp_all add: without_end_def)

lemma without_end_split: "\<exists>ss. rs = without_end f rs @ ss \<and> list_all f ss"
proof -
  have "rev rs = takeWhile f (rev rs) @ dropWhile f (rev rs)" by simp
  then have "rs = rev (dropWhile f (rev rs)) @ rev (takeWhile f (rev rs))"
    by (metis rev_append rev_rev_ident)
  moreover have "list_all f (rev (takeWhile f (rev rs)))"
    by (auto simp: list_all_iff dest: set_takeWhileD)
  ultimately show ?thesis
    by (auto simp: without_end_def)
qed

lemma without_end_keeps: "ss \<noteq> [] \<Longrightarrow> \<not> f (last ss) \<Longrightarrow> without_end f (rs @ ss) = rs @ ss"
  by (cases ss rule: rev_cases) (simp_all add: append_assoc [symmetric] del: append_assoc)

lemma without_end_drops: "list_all f ss \<Longrightarrow> without_end f (rs @ ss) = without_end f rs"
  by (induction ss rule: rev_induct) (simp_all add: append_assoc [symmetric] del: append_assoc)

lemma without_end_last: "without_end f rs \<noteq> [] \<Longrightarrow> \<not> f (last (without_end f rs))"
  by (induction rs rule: rev_induct) auto

lemma without_end_part: "list_all P rs \<Longrightarrow> list_all P (without_end f rs)"
  using without_end_split [of rs f] by (metis list_all_append)

lemma without_end_weaker: "(\<And>r. f r \<Longrightarrow> g r) \<Longrightarrow> without_end g (without_end f rs) = without_end g rs"
  by (induction rs rule: rev_induct) auto

lemma trim_right_enc: "list_all scalar rs \<Longrightarrow> trim_right f (enc rs) = enc (without_end f rs)"
proof (induction rs rule: rev_induct)
  case (snoc r rs)
  moreover have "encode_rune r \<noteq> []"
    using length_encode_rune(1) [of r] by auto
  ultimately show ?case
    by (subst trim_right.simps) (simp add: last_rune_encode)
qed (simp add: trim_right.simps)

text \<open>The scan for the opening mark, from a place where \<open>d\<close> closing marks are open.\<close>

lemma suffix_snoc_iff: "(\<forall>zs. suffix zs (ys @ [r]) \<longrightarrow> P zs) \<longleftrightarrow> P [] \<and> (\<forall>zs. suffix zs ys \<longrightarrow> P (zs @ [r]))"
  by (auto simp: suffix_snoc)

lemma matching_open_step:
  assumes "scalar r"
  shows "matching_open x y d (enc (rs @ [r])) =
     (if r = y then matching_open x y (d + 1) (enc rs)
      else if r = x then (if d = 1 then Some (length (enc rs)) else matching_open x y (d - 1) (enc rs))
      else matching_open x y d (enc rs))"
proof -
  have "encode_rune r \<noteq> []"
    using length_encode_rune(1) [of r] by auto
  then have "p @ encode_rune r \<noteq> []" for p by simp
  then have "matching_open x y d (p @ encode_rune r) =
     (if r = y then matching_open x y (d + 1) p
      else if r = x then (if d = 1 then Some (length p) else matching_open x y (d - 1) p)
      else matching_open x y d p)" for p
    by (subst matching_open.simps) (simp only: last_rune_encode [OF assms], simp)
  then show ?thesis by simp
qed

definition opens :: "int \<Rightarrow> int \<Rightarrow> nat \<Rightarrow> int list \<Rightarrow> bool" where
  "opens x y d ys \<longleftrightarrow> d + count_list ys y = count_list ys x + 1
     \<and> (\<forall>zs. suffix zs ys \<longrightarrow> count_list zs x < d + count_list zs y)"

lemma opens_Nil: "opens x y d [] \<longleftrightarrow> d = 1"
  by (auto simp: opens_def)

lemma opens_snoc:
  assumes "x \<noteq> y"
  shows "opens x y d (ys @ [r]) \<longleftrightarrow>
    0 < d \<and> (if r = y then opens x y (d + 1) ys else if r = x then 1 < d \<and> opens x y (d - 1) ys else opens x y d ys)"
proof -
  have "opens x y d (ys @ [r]) \<longleftrightarrow> d + count_list (ys @ [r]) y = count_list (ys @ [r]) x + 1 \<and> 0 < d
      \<and> (\<forall>zs. suffix zs ys \<longrightarrow> count_list (zs @ [r]) x < d + count_list (zs @ [r]) y)"
    unfolding opens_def suffix_snoc_iff by simp
  moreover have "\<forall>zs. suffix zs ys \<longrightarrow> count_list (zs @ [x]) x < d + count_list (zs @ [x]) y \<Longrightarrow> 1 < d"
    using assms by (auto dest: spec [of _ "[]"])
  ultimately show ?thesis
    using assms by (auto simp: opens_def less_diff_conv)
qed

lemma matching_open_enc:
  assumes "x \<noteq> y" and "list_all scalar rs" and "0 < d"
  shows "matching_open x y d (enc rs) = Some i \<longleftrightarrow> (\<exists>xs ys. rs = xs @ x # ys \<and> i = length (enc xs) \<and> opens x y d ys)"
  using assms(2,3)
proof (induction rs arbitrary: d rule: rev_induct)
  case (snoc r rs)
  have r: "scalar r" and rs: "list_all scalar rs"
    using snoc.prems by auto
  have split: "(\<exists>xs ys. rs @ [r] = xs @ x # ys \<and> i = length (enc xs) \<and> opens x y d ys)
      \<longleftrightarrow> (r = x \<and> d = 1 \<and> i = length (enc rs)) \<or> (\<exists>xs ys. rs = xs @ x # ys \<and> i = length (enc xs) \<and> opens x y d (ys @ [r]))"
    (is "?l \<longleftrightarrow> ?r")
  proof
    assume ?l
    then obtain xs ys where l: "rs @ [r] = xs @ x # ys" "i = length (enc xs)" "opens x y d ys" by blast
    then show ?r
      by (cases ys rule: rev_cases) (auto simp: opens_Nil)
  next
    assume ?r then show ?l
      by (auto simp: opens_Nil intro: exI [of _ rs] exI [of _ "[]"] exI)
         (metis append.assoc append_Cons)
  qed
  have not1: "r = x \<Longrightarrow> d = 1 \<Longrightarrow> \<not> opens x y d (ys @ [r])" for ys
    using assms(1) by (simp add: opens_snoc)
  show ?case
    unfolding split matching_open_step [OF r]
    using snoc.IH [OF rs] snoc.prems(2) assms(1) not1 by (auto simp: opens_snoc)
qed (simp add: matching_open.simps)

text \<open>The closing mark at the end of a text is found in its bytes.\<close>

lemma encode_inj: "scalar c \<Longrightarrow> scalar r \<Longrightarrow> suffix (encode_rune c) (p @ encode_rune r) \<Longrightarrow> c = r"
  using last_rune_encode [of r p] last_rune_encode [of c] by (auto simp: suffix_def)

lemma suffix_enc:
  assumes "scalar c" and "list_all scalar rs"
  shows "suffix (encode_rune c) (enc rs) \<longleftrightarrow> rs \<noteq> [] \<and> last rs = c"
proof (cases rs rule: rev_cases)
  case Nil
  then show ?thesis
    using length_encode_rune(1) [of c] by auto
next
  case (snoc qs r)
  with assms encode_inj [of c r "enc qs"] show ?thesis
    by (auto simp: suffix_def)
qed

lemma bracket_facts:
  assumes "(x, y) \<in> brackets"
  shows "scalar x" "scalar y" "x \<noteq> y" "\<not> space_rune y" "isClosingPairRune y"
  using assms by (auto simp: brackets_def scalar_def space_rune_def isClosingPairRune_def)

lemma closing_iff: "isClosingPairRune r \<longleftrightarrow> r \<in> snd ` brackets"
  by (simp add: isClosingPairRune_def brackets_def)

lemma bracketed_iff:
  "bracketed par \<longleftrightarrow> (\<exists>x y ys. (x, y) \<in> brackets \<and> par = x # ys @ [y] \<and> opens x y 1 ys)"
  by (fastforce simp: bracketed_def opens_def less_Suc_eq_le)

lemma matching_open_closing:
  assumes "x \<noteq> y" and "list_all scalar (rs @ [y])"
  shows "matching_open x y 0 (enc (rs @ [y])) = matching_open x y 1 (enc rs)"
  using assms(2) matching_open_step [of y x y 0 rs] by simp

lemma trim_pair_some:
  assumes "list_all scalar (xs @ x # ys @ [y])" and "(x, y) \<in> set ps" and "set ps \<subseteq> brackets" and "opens x y 1 ys"
    and "distinct (map snd ps)"
  shows "trim_pair ps (enc (xs @ x # ys @ [y])) = Some (enc (without_end space_rune xs))"
  using assms(2,3,5)
proof (induction ps)
  case (Cons p ps)
  obtain a b where p: "p = (a, b)" by fastforce
  have b: "(a, b) \<in> brackets" "scalar b"
    using Cons.prems p bracket_facts by auto
  show ?case
  proof (cases "b = y")
    case True
    then have a: "a = x"
      using Cons.prems p by (auto intro: rev_image_eqI)
    have o: "x \<noteq> y" "list_all scalar (xs @ x # ys)"
      using bracket_facts(3) [OF b(1)] a True assms(1) by auto
    have "matching_open x y 0 (enc (xs @ x # ys @ [y])) = Some (length (enc xs))"
      using matching_open_closing [OF o(1), of "xs @ x # ys"] matching_open_enc [OF o(1,2), of 1 "length (enc xs)"] assms(1,4)
      by auto
    moreover have "take (length (enc xs)) (enc (xs @ x # ys @ [y])) = enc xs" by simp
    moreover have "suffix (encode_rune y) (enc (xs @ x # ys @ [y]))"
      using suffix_enc [OF _ assms(1)] b(2) True by simp
    ultimately show ?thesis
      using p a True trim_right_enc [of xs] o(2) by simp
  next
    case False
    moreover have "\<not> suffix (encode_rune b) (enc (xs @ x # ys @ [y]))"
      using suffix_enc [OF b(2) assms(1)] False by simp
    ultimately show ?thesis
      using Cons p by auto
  qed
qed simp

lemma trim_pair_none:
  assumes "list_all scalar rs" and "set ps \<subseteq> brackets" and "\<And>xs par. rs = xs @ par \<Longrightarrow> \<not> bracketed par"
  shows "trim_pair ps (enc rs) = None"
  using assms(2)
proof (induction ps)
  case (Cons p ps)
  obtain x y where p: "p = (x, y)" by fastforce
  have b: "(x, y) \<in> brackets"
    using Cons.prems p by simp
  note f = bracket_facts [OF b]
  have "matching_open x y 0 (enc rs) = None" if "suffix (encode_rune y) (enc rs)"
  proof -
    have "rs \<noteq> []" "last rs = y"
      using that unfolding suffix_enc [OF f(2) assms(1)] by blast+
    then obtain qs where q: "rs = qs @ [y]"
      by (cases rs rule: rev_cases) simp_all
    then have "list_all scalar qs"
      using assms(1) by simp
    have "matching_open x y 1 (enc qs) \<noteq> Some i" for i
    proof
      assume "matching_open x y 1 (enc qs) = Some i"
      then obtain xs ys where m: "qs = xs @ x # ys" "opens x y 1 ys"
        using matching_open_enc [OF f(3) \<open>list_all scalar qs\<close>, of 1 i] by auto
      then have "bracketed (x # ys @ [y])"
        using b by (auto simp: bracketed_iff)
      moreover have "rs = xs @ x # ys @ [y]"
        using q m(1) by simp
      ultimately show False
        using assms(3) by blast
    qed
    then show ?thesis
      using matching_open_closing [OF f(3), of qs] assms(1) unfolding q by (cases "matching_open x y 1 (enc qs)") auto
  qed
  then show ?case
    using Cons p by simp
qed simp

subsection \<open>The reference of a text\<close>

lemma pairs_brackets: "set pairs = brackets" "distinct (map snd pairs)"
  by (auto simp: pairs_def brackets_def)

text \<open>A round after the other.\<close>

lemma reference_round_enc:
  fixes is_punct :: "int \<Rightarrow> bool" and rs :: "int list"
  assumes "list_all scalar rs"
  defines "t \<equiv> without_end (\<lambda>r. is_punct r \<and> r \<notin> snd ` brackets) (without_end space_rune rs)"
  shows "reference_round is_punct (enc rs) =
     (case trim_pair pairs (enc t) of
        Some q \<Rightarrow> Inl q
      | None \<Rightarrow> let u = enc (without_end (\<lambda>r. space_rune r \<or> is_punct r) t) in if u = enc rs then Inr u else Inl u)"
  using assms(1)
  by (simp add: reference_round_def closing_iff trim_right_enc without_end_part t_def Let_def split: option.split)

lemma reference_loop_spaces:
  assumes "list_all scalar rs"
  shows "reference_loop is_punct (enc (without_end space_rune rs)) = reference_loop is_punct (enc rs)"
proof -
  define f t where "f = (\<lambda>r. is_punct r \<and> r \<notin> snd ` brackets)" and "t = without_end f (without_end space_rune rs)"
  let ?s = "without_end space_rune rs"
  have s: "list_all scalar ?s" "without_end space_rune ?s = ?s"
    using assms without_end_weaker [of space_rune space_rune rs] by (simp_all add: without_end_part)
  note a = reference_round_enc [OF assms, of is_punct] and b = reference_round_enc [OF s(1), of is_punct]
  show ?thesis
  proof (cases "trim_pair pairs (enc t)")
    case (Some q)
    then show ?thesis
      using a b s(2) by (simp add: reference_loop.simps [of _ "enc rs"] reference_loop.simps [of _ "enc ?s"] f_def t_def)
  next
    case None
    define u where "u = enc (without_end (\<lambda>r. space_rune r \<or> is_punct r) t)"
    have "reference_loop is_punct (enc rs) = (if u = enc rs then u else reference_loop is_punct u)"
      "reference_loop is_punct (enc ?s) = (if u = enc ?s then u else reference_loop is_punct u)"
      using a b s(2) None by (simp_all add: reference_loop.simps [of _ "enc rs"] reference_loop.simps [of _ "enc ?s"] f_def t_def u_def Let_def)
    moreover have "u = enc rs \<Longrightarrow> enc ?s = enc rs"
    proof -
      have part: "\<exists>zs. enc v = enc (without_end g v) @ zs" for g v
        using without_end_split [of v g] by (metis concat_append map_append)
      obtain z1 z2 z3 where "enc rs = enc ?s @ z1" "enc ?s = enc t @ z2" "enc t = u @ z3"
        using part [of rs space_rune] part [of ?s f] part [of t] unfolding t_def u_def by metis
      then show "u = enc rs \<Longrightarrow> enc ?s = enc rs" by simp
    qed
    ultimately show ?thesis by auto
  qed
qed

lemma reference_loop_noted:
  assumes "list_all scalar rs" and "noted is_punct xs rs"
  shows "reference_loop is_punct (enc rs) = reference_loop is_punct (enc xs)"
proof -
  obtain par marks spaces where n: "rs = xs @ par @ marks @ spaces" "bracketed par"
      "list_all (\<lambda>r. is_punct r \<and> r \<notin> snd ` brackets) marks" "list_all space_rune spaces"
    using assms(2) by (auto simp: noted_def)
  obtain x y ys where par: "(x, y) \<in> brackets" "par = x # ys @ [y]" "opens x y 1 ys"
    using n(2) by (auto simp: bracketed_iff)
  note y = bracket_facts [OF par(1)]
  define f where "f = (\<lambda>r. is_punct r \<and> r \<notin> snd ` brackets)"
  have ny: "\<not> f y"
    using par(1) by (auto simp: f_def intro: rev_image_eqI)
  have keep: "\<exists>ms. without_end space_rune (qs @ [y] @ ms') = qs @ [y] @ ms \<and> list_all f ms" if "list_all f ms'" for qs ms'
    using that y(4)
  proof (induction ms' rule: rev_induct)
    case (snoc m ms)
    have "without_end space_rune (qs @ [y] @ ms @ [m]) =
        (if space_rune m then without_end space_rune (qs @ [y] @ ms) else qs @ [y] @ ms @ [m])"
      using without_end_simps(2) [of space_rune "qs @ [y] @ ms" m] by simp
    with snoc show ?case by auto
  qed (auto simp: without_end_keeps)
  have "rs = (xs @ x # ys @ [y] @ marks) @ spaces"
    using n(1) par(2) by simp
  then obtain ms where ms: "without_end space_rune rs = xs @ x # ys @ [y] @ ms" "list_all f ms"
    using keep [of marks "xs @ x # ys"] n(3) without_end_drops [OF n(4), of "xs @ x # ys @ [y] @ marks"] by (auto simp: f_def)
  have "without_end f (without_end space_rune rs) = xs @ x # ys @ [y]"
    using without_end_drops [OF ms(2), of "xs @ x # ys @ [y]"] without_end_keeps [of "[y]" f "xs @ x # ys"] ny
    unfolding ms(1) by simp
  moreover have "list_all scalar (xs @ x # ys @ [y])"
    using assms(1) n(1) par(2) by simp
  moreover have "list_all scalar xs"
    using assms(1) n(1) by simp
  ultimately show ?thesis
    using reference_round_enc [OF assms(1), of is_punct] trim_pair_some [of xs x ys y pairs] par pairs_brackets
      reference_loop_spaces [of xs is_punct]
    by (simp add: reference_loop.simps [of _ "enc rs"] flip: f_def)
qed

lemma reference_loop_plain:
  assumes "list_all scalar rs" and "\<And>xs. \<not> noted is_punct xs rs" and "\<And>x y. (x, y) \<in> brackets \<Longrightarrow> is_punct y"
  shows "reference_loop is_punct (enc rs) = enc (without_end (\<lambda>r. space_rune r \<or> is_punct r) rs)"
proof -
  define f g where "f = (\<lambda>r. is_punct r \<and> r \<notin> snd ` brackets)" and "g = (\<lambda>r. space_rune r \<or> is_punct r)"
  define t where "t = without_end f (without_end space_rune rs)"
  have parts: "list_all scalar t" "list_all scalar (without_end g rs)"
    using assms(1) by (simp_all add: t_def without_end_part)
  have g: "without_end g t = without_end g rs"
    unfolding t_def using without_end_weaker [of f g] without_end_weaker [of space_rune g] by (simp add: f_def g_def)
  have "\<not> bracketed par" if "t = xs @ par" for xs par
  proof
    assume "bracketed par"
    obtain ss ms where "rs = without_end space_rune rs @ ss" "list_all space_rune ss" "without_end space_rune rs = t @ ms" "list_all f ms"
      using without_end_split [of rs space_rune] without_end_split [of "without_end space_rune rs" f] unfolding t_def by metis
    then have "noted is_punct xs rs"
      using \<open>bracketed par\<close> that unfolding noted_def f_def by (metis append.assoc)
    with assms(2) show False by blast
  qed
  then have none: "trim_pair pairs (enc t) = None"
    using trim_pair_none [OF parts(1)] pairs_brackets by blast
  have stay: "reference_round is_punct (enc (without_end g rs)) = Inr (enc (without_end g rs))"
  proof -
    let ?u = "without_end g rs"
    have l: "?u = [] \<or> \<not> g (last ?u)"
      using without_end_last by blast
    then have u: "without_end h ?u = ?u" if "\<And>r. h r \<Longrightarrow> g r" for h
      using that without_end_keeps [of ?u h "[]"] by (cases "?u = []") auto
    have "\<not> bracketed par" if "?u = xs @ par" for xs par
      using that l assms(3) by (auto simp: bracketed_iff g_def)
    then have "trim_pair pairs (enc ?u) = None"
      using trim_pair_none [OF parts(2)] pairs_brackets by blast
    then show ?thesis
      using reference_round_enc [OF parts(2), of is_punct] u [of space_rune] u [of f] u [of g]
      by (simp add: f_def g_def)
  qed
  show ?thesis
    using reference_round_enc [OF assms(1), of is_punct] none g stay
    by (simp add: reference_loop.simps [of _ "enc rs"] reference_loop.simps [of _ "enc (without_end g rs)"] Let_def
        flip: f_def g_def t_def)
qed

text \<open>C37. For a text without escapes, the text its particle refers to, whatever the marks are, as long as the closing
  brackets are among them.  A note in brackets at the end of the text, from an opening bracket to the one
  that matches it, is left out, with the marks and then the spaces behind it: the reference is that of the text before
  it, so the notes before this one are left out in turn.  In a text that does not end so, what is left out is exactly the marks and the
  spaces at its end.  The two rules determine the reference of every text.\<close>

theorem Reference_of_text:
  assumes "\<And>opening closing. (opening, closing) \<in> brackets \<Longrightarrow> is_punct closing" and "list_all scalar rs" and "27 \<notin> set rs"
  shows "(\<forall>xs. noted is_punct xs rs \<longrightarrow>
        particleReferenceText is_punct (string_of_runes rs) = particleReferenceText is_punct (string_of_runes xs))
     \<and> ((\<nexists>xs. noted is_punct xs rs) \<longrightarrow>
        particleReferenceText is_punct (string_of_runes rs) = string_of_runes (without_end (\<lambda>r. space_rune r \<or> is_punct r) rs))"
proof -
  have plain: "particleReferenceText is_punct (string_of_runes qs) = map char_of (reference_loop is_punct (enc qs))"
    if "list_all scalar qs" "27 \<notin> set qs" for qs
  proof -
    have "27 \<notin> set (encode_rune r)" if "scalar r" "r \<noteq> 27" for r
      using encode_rune_shape [OF that(1)] that(2) by (auto simp: list_all_iff tail_byte_def encode_rune_def split: if_splits)
    then have "27 \<notin> set (enc qs)"
      using that by (induction qs) auto
    then have "escape \<notin> set (string_of_runes qs)"
      unfolding bytes_of_runes [symmetric] by (force simp: escape_def)
    then have "stripANSISequences (string_of_runes qs) = string_of_runes qs"
      using strip_plain by blast
    then show ?thesis
      by (simp add: particleReferenceText_def bytes_of_runes)
  qed
  have "particleReferenceText is_punct (string_of_runes rs) = particleReferenceText is_punct (string_of_runes xs)"
    if n: "noted is_punct xs rs" for xs
  proof -
    have "list_all scalar xs" "27 \<notin> set xs"
      using n assms(2,3) by (auto simp: noted_def)
    then show ?thesis
      using reference_loop_noted [OF assms(2) n] plain [OF assms(2,3)] plain by simp
  qed
  moreover have "particleReferenceText is_punct (string_of_runes rs) = string_of_runes (without_end (\<lambda>r. space_rune r \<or> is_punct r) rs)"
    if "\<nexists>xs. noted is_punct xs rs"
    using reference_loop_plain [OF assms(2)] that assms(1) plain [OF assms(2,3)] by (simp add: string_of_runes_def)
  ultimately show ?thesis by blast
qed

text \<open>A name with two notes.\<close>

definition ascii_punct :: "int \<Rightarrow> bool" where
  "ascii_punct r \<longleftrightarrow> r \<in> {33, 40, 41, 44, 46, 91, 93, 123, 125} \<or> r \<in> {65288, 65289, 65339, 65341, 65371, 65373}"

theorem Reference_of_text_witness:
  "particleReferenceText ascii_punct (string_of_runes [44160, 32, 40, 97, 40, 98, 41, 41, 91, 99, 93, 33, 32])
     = string_of_runes [44160]"
proof -
  let ?rs = "[44160, 32, 40, 97, 40, 98, 41, 41, 91, 99, 93, 33, 32] :: int list"
    and ?qs = "[44160, 32, 40, 97, 40, 98, 41, 41] :: int list"
  have p: "(x, y) \<in> brackets \<Longrightarrow> ascii_punct y" for x y
    by (auto simp: brackets_def ascii_punct_def)
  have "bracketed [91, 99, 93]"
    unfolding bracketed_def by (rule bexI [of _ "(91, 93)"]) (auto simp: brackets_def suffix_Cons)
  then have first: "noted ascii_punct ?qs ?rs"
    unfolding noted_def
    by (intro exI [of _ "[91, 99, 93]"] exI [of _ "[33]"] exI [of _ "[32]"]) (auto simp: ascii_punct_def brackets_def space_rune_def)
  have "bracketed [40, 97, 40, 98, 41, 41]"
    unfolding bracketed_def by (rule bexI [of _ "(40, 41)"]) (auto simp: brackets_def suffix_Cons)
  then have second: "noted ascii_punct [44160, 32] ?qs"
    unfolding noted_def by (intro exI [of _ "[40, 97, 40, 98, 41, 41]"] exI [of _ "[]"]) simp
  have none: "\<nexists>xs. noted ascii_punct xs [44160, 32]"
  proof
    assume "\<exists>xs. noted ascii_punct xs [44160, 32]"
    then obtain x y where "(x, y) \<in> brackets" "x \<in> set [44160, 32]"
      by (auto simp: noted_def bracketed_iff Cons_eq_append_conv)
    then show False by (auto simp: brackets_def)
  qed
  have "particleReferenceText ascii_punct (string_of_runes ?rs) = particleReferenceText ascii_punct (string_of_runes ?qs)"
    using Reference_of_text [of ascii_punct ?rs] p first by (simp add: scalar_def)
  also have "\<dots> = particleReferenceText ascii_punct (string_of_runes [44160, 32])"
    using Reference_of_text [of ascii_punct ?qs] p second by (simp add: scalar_def)
  also have "\<dots> = string_of_runes [44160]"
    using Reference_of_text [of ascii_punct "[44160, 32]"] p none
    by (simp add: scalar_def space_rune_def without_end_def ascii_punct_def)
  finally show ?thesis .
qed

text \<open>Spaces between a note and the marks behind it hide the note: its bracket goes as a mark, the rest of it stays.\<close>

lemma Reference_hidden_note:
  "particleReferenceText ascii_punct (string_of_runes [44160, 32, 40, 97, 41, 32, 33]) = string_of_runes [44160, 32, 40, 97]"
  by code_simp

end
