(* ===== verification/Cheats.thy ===== *)
theory Cheats
  imports Trees Damage
begin

text \<open>
  The check of what a creature carries (\<^verbatim>\<open>cheat_check.go\<close>): every object whose numbers exceed the limits
  is destroyed with its contents. What is written to the log of the masters is a result. The scan is
  recursive; it carries fuel, and in a world whose containers are not cyclic the number of objects is
  enough of it.
\<close>

subsection \<open>The numbers of an object\<close>

fun first_property :: "World \<Rightarrow> ObjectInstance \<Rightarrow> string list \<Rightarrow> int" where
  "first_property w object [] = 0"
| "first_property w object (key # keys) =
     (case objectIntProperty w object key of Some val \<Rightarrow> val | None \<Rightarrow> first_property w object keys)"

definition getObjectArmor :: "World \<Rightarrow> ObjectInstance \<Rightarrow> int" where
  "getObjectArmor w object = first_property w object [''armor'', ''Armor'']"

definition getObjectNDice :: "World \<Rightarrow> ObjectInstance \<Rightarrow> int" where
  "getObjectNDice w object = first_property w object [''nDice'', ''ndice'']"

definition getObjectSDice :: "World \<Rightarrow> ObjectInstance \<Rightarrow> int" where
  "getObjectSDice w object = first_property w object [''sDice'', ''sdice'']"

definition getObjectPDice :: "World \<Rightarrow> ObjectInstance \<Rightarrow> int" where
  "getObjectPDice w object = first_property w object [''pDice'', ''pdice'']"

definition getObjectShotsMax :: "World \<Rightarrow> ObjectInstance \<Rightarrow> int" where
  "getObjectShotsMax w object = first_property w object [''shotsMax'', ''shotsmax'']"

definition getObjectShotsCur :: "World \<Rightarrow> ObjectInstance \<Rightarrow> int" where
  "getObjectShotsCur w object = first_property w object [''shotsCurrent'', ''shotscur'', ''shotsCur'']"

definition proto_of :: "World \<Rightarrow> ObjectInstance \<Rightarrow> ObjectPrototype option" where
  "proto_of w object =
     (if IsZero (Object_PrototypeID object) then None else fmlookup (prototypes w) (Object_PrototypeID object))"

definition flagged :: "string list \<Rightarrow> World \<Rightarrow> ObjectInstance \<Rightarrow> bool" where
  "flagged names w object \<longleftrightarrow>
     (case proto_of w object of
        None \<Rightarrow> False
      | Some proto \<Rightarrow>
          hasAnyNormalizedFlag (Meta_Tags (Proto_Metadata proto)) names \<or> objectHasAnyPropertyFlag (Proto_Properties proto) names)
     \<or> hasAnyNormalizedFlag (Meta_Tags (Object_Metadata object)) names
     \<or> objectHasAnyPropertyFlag (Object_Properties object) names"

definition of_kind :: "string \<Rightarrow> World \<Rightarrow> ObjectInstance \<Rightarrow> bool" where
  "of_kind kind w object \<longleftrightarrow> (case proto_of w object of None \<Rightarrow> False | Some proto \<Rightarrow> Proto_Kind proto = kind)"

definition isContainer :: "World \<Rightarrow> ObjectInstance \<Rightarrow> bool" where
  "isContainer w object \<longleftrightarrow> of_kind ObjectKindContainer w object \<or> flagged [''OCONTN'', ''container'', ''cont''] w object"

definition isSpecialItem :: "World \<Rightarrow> ObjectInstance \<Rightarrow> bool" where
  "isSpecialItem w object \<longleftrightarrow> flagged [''OSPECI'', ''specialItem'', ''special item''] w object"

definition isPotion :: "World \<Rightarrow> ObjectInstance \<Rightarrow> bool" where
  "isPotion w object \<longleftrightarrow>
     of_kind ''potion'' w object
     \<or> (case proto_of w object of
          None \<Rightarrow> False | Some proto \<Rightarrow> list_ex (\<lambda>tag. toLower tag = ''potion'') (Meta_Tags (Proto_Metadata proto)))
     \<or> list_ex (\<lambda>tag. toLower tag = ''potion'') (Meta_Tags (Object_Metadata object))
     \<or> objectIntProperty w object ''type'' = Some 6"

text \<open>Why an object is bad, with the number that is logged.\<close>

datatype offence =
    Armour int
  | Attack int
  | Bag int
  | Strange int
  | Charges int
  | MaxCharges int

definition isBadItem :: "World \<Rightarrow> ObjectInstance \<Rightarrow> offence option" where
  "isBadItem w object =
     (let armor = getObjectArmor w object;
          attack = i64 (i64 (getObjectNDice w object * getObjectSDice w object) + getObjectPDice w object);
          shotsmax = getObjectShotsMax w object; shotscur = getObjectShotsCur w object; pdice = getObjectPDice w object
      in if armor > 50 then Some (Armour armor)
         else if attack > 100 then Some (Attack attack)
         else if isContainer w object \<and> shotsmax > 20 then Some (Bag shotsmax)
         else if isSpecialItem w object \<and> pdice = 4 then Some (Strange pdice)
         else if isPotion w object \<and> shotscur > 50 then Some (Charges shotscur)
         else if shotscur \<ge> 1000 then Some (Charges shotscur)
         else if shotsmax \<ge> 1000 then Some (MaxCharges shotsmax)
         else None)"

definition shown_name :: "World \<Rightarrow> ObjectInstance \<Rightarrow> string" where
  "shown_name w object =
     (let name = (if Object_DisplayNameOverride object \<noteq> [] then Object_DisplayNameOverride object
                  else case fmlookup (prototypes w) (Object_PrototypeID object) of
                    None \<Rightarrow> [] | Some proto \<Rightarrow> Proto_DisplayName proto)
      in if name = [] then ''?????'' else name)"

type_synonym log_entry = "string \<times> string \<times> offence"

subsection \<open>The scan\<close>

fun scanAndDestroyBadItems ::
    "nat \<Rightarrow> string \<Rightarrow> ObjectInstanceID \<Rightarrow> World \<Rightarrow> (log_entry list \<times> World) option"
  and scan_all :: "nat \<Rightarrow> string \<Rightarrow> ObjectInstanceID list \<Rightarrow> World \<Rightarrow> (log_entry list \<times> World) option"
where
  "scanAndDestroyBadItems 0 parentName objectID w = None"
| "scanAndDestroyBadItems (Suc fuel) parentName objectID w =
     (if IsZero objectID then Some ([], w)
      else case fmlookup (objects w) objectID of
        None \<Rightarrow> Some ([], w)
      | Some object \<Rightarrow>
          (case isBadItem w object of
             Some reason \<Rightarrow> Some ([(parentName, shown_name w object, reason)], deleteObjectTree objectID w)
           | None \<Rightarrow> scan_all fuel parentName (ObjectIDs (Object_Contents object)) w))"
| "scan_all fuel parentName [] w = Some ([], w)"
| "scan_all fuel parentName (childID # rest) w =
     (case scanAndDestroyBadItems fuel parentName childID w of
        None \<Rightarrow> None
      | Some (entries, w) \<Rightarrow> map_option (\<lambda>(more, w). (entries @ more, w)) (scan_all fuel parentName rest w))"

definition carried_ids :: "(string fset \<Rightarrow> string list) \<Rightarrow> Creature \<Rightarrow> ObjectInstanceID list" where
  "carried_ids ord creature = equipment_in ord creature @ ObjectIDs (Creature_Inventory creature)"

definition CheckCreatureItems ::
  "(string fset \<Rightarrow> string list) \<Rightarrow> CreatureID \<Rightarrow> World \<Rightarrow> (log_entry list \<times> World) option" where
  "CheckCreatureItems ord creatureID w =
     (case fmlookup (creatures w) creatureID of
        None \<Rightarrow> Some ([], w)
      | Some creature \<Rightarrow>
          let parentName = (if Creature_DisplayName creature = [] then ''??????'' else Creature_DisplayName creature)
          in scan_all (Suc (card (fmdom' (objects w)))) parentName (carried_ids ord creature) w)"

subsection \<open>What a deletion keeps of the other objects\<close>

text \<open>The objects that are left are as they were, but for their contents.\<close>

definition only_contents :: "World \<Rightarrow> World \<Rightarrow> bool" where
  "only_contents w v \<longleftrightarrow>
     prototypes v = prototypes w \<and>
     (\<forall>j p'. fmlookup (objects v) j = Some p' \<longrightarrow>
        (\<exists>p. fmlookup (objects w) j = Some p \<and> p' = p\<lparr>Object_Contents := Object_Contents p'\<rparr>))"

lemma only_contents_refl [simp]: "only_contents w w"
  by (auto simp: only_contents_def)

lemma only_contents_trans: "only_contents u v \<Longrightarrow> only_contents v w \<Longrightarrow> only_contents u w"
proof -
  assume a: "only_contents u v" and b: "only_contents v w"
  have "\<exists>p. fmlookup (objects u) j = Some p \<and> r = p\<lparr>Object_Contents := Object_Contents r\<rparr>"
    if r: "fmlookup (objects w) j = Some r" for j r
  proof -
    obtain q where q: "fmlookup (objects v) j = Some q" "r = q\<lparr>Object_Contents := Object_Contents r\<rparr>"
      using b r by (auto simp: only_contents_def)
    obtain p where p: "fmlookup (objects u) j = Some p" "q = p\<lparr>Object_Contents := Object_Contents q\<rparr>"
      using a q(1) by (auto simp: only_contents_def)
    have "r = p\<lparr>Object_Contents := Object_Contents r\<rparr>"
      by (subst q(2), subst p(2)) simp
    with p(1) show ?thesis by blast
  qed
  with a b show ?thesis
    by (simp add: only_contents_def)
qed

lemma only_contents_mark: "only_contents w (markObjectLocationDirty l w)"
  by (auto simp: only_contents_def)

lemma only_contents_drop: "only_contents w (drop_object i l w)"
proof -
  have "prototypes (drop_object i l w) = prototypes w"
    by (simp add: drop_object_def Let_def removeObjectFromHolder_def split: option.splits)
  moreover have "\<exists>p. fmlookup (objects w) j = Some p \<and> p' = p\<lparr>Object_Contents := Object_Contents p'\<rparr>"
    if "fmlookup (objects (drop_object i l w)) j = Some p'" for j p'
    using that by (auto simp: drop_object_def Let_def lookup_remove_objects split: if_splits)
  ultimately show ?thesis
    by (simp add: only_contents_def)
qed

lemma delete_only_contents:
  "delete_tree n i seen w = Some (s, v) \<Longrightarrow> only_contents w v"
  "delete_children n is seen w = Some (s, v) \<Longrightarrow> only_contents w v"
proof (induction n i seen w and n "is" seen w arbitrary: s v and s v rule: delete_tree_delete_children.induct)
  case (2 fuel i seen w)
  show ?case
  proof (cases "i \<in> set seen \<or> i = [] \<or> fmlookup (objects w) i = None")
    case True
    with "2.prems" show ?thesis by (auto split: if_splits)
  next
    case False
    then obtain p where p: "fmlookup (objects w) i = Some p" by auto
    with "2.prems" False obtain s' u where d: "delete_children fuel (ObjectIDs (Object_Contents p)) (i # seen)
        (markObjectLocationDirty (Object_Location p) w) = Some (s', u)" and v: "v = drop_object i (Object_Location p) u"
      by (auto split: option.splits)
    have "only_contents (markObjectLocationDirty (Object_Location p) w) u"
      using "2.IH" [OF _ _ p d] False by simp
    with only_contents_mark only_contents_drop show ?thesis
      unfolding v by (blast intro: only_contents_trans)
  qed
next
  case (4 fuel c cs seen w)
  then obtain s' u where "delete_tree fuel c seen w = Some (s', u)" "delete_children fuel cs s' u = Some (s, v)"
    by (auto split: option.splits)
  with "4.IH" show ?case
    by (blast intro: only_contents_trans)
qed auto

lemma deleteObjectTree_only_contents: "only_contents w (deleteObjectTree i w)"
  by (auto simp: deleteObjectTree_def simp del: delete_tree.simps dest: delete_only_contents(1) split: option.splits)

subsection \<open>What the scan removes\<close>

definition is_bad :: "World \<Rightarrow> ObjectInstanceID \<Rightarrow> bool" where
  "is_bad w k \<longleftrightarrow> (case fmlookup (objects w) k of None \<Rightarrow> False | Some p \<Rightarrow> isBadItem w p \<noteq> None)"

lemmas badness_defs = isBadItem_def getObjectArmor_def getObjectNDice_def getObjectSDice_def getObjectPDice_def
    getObjectShotsMax_def getObjectShotsCur_def isContainer_def isSpecialItem_def isPotion_def flagged_def of_kind_def proto_of_def

lemma kept_fields:
  "Object_PrototypeID (p\<lparr>Object_Contents := c\<rparr>) = Object_PrototypeID p"
  "Object_Properties (p\<lparr>Object_Contents := c\<rparr>) = Object_Properties p"
  "Object_Metadata (p\<lparr>Object_Contents := c\<rparr>) = Object_Metadata p"
  by simp_all

lemma objectIntProperty_contents:
  "objectIntProperty w (p\<lparr>Object_Contents := c\<rparr>) key = objectIntProperty w p key"
  unfolding objectIntProperty_def kept_fields by (rule refl)

lemma first_property_contents: "first_property w (p\<lparr>Object_Contents := c\<rparr>) keys = first_property w p keys"
proof (induction keys)
  case (Cons key keys)
  show ?case
    unfolding first_property.simps objectIntProperty_contents Cons.IH by (rule refl)
qed simp

lemma isBadItem_contents: "isBadItem w (p\<lparr>Object_Contents := c\<rparr>) = isBadItem w p"
  unfolding badness_defs first_property_contents objectIntProperty_contents kept_fields by (rule refl)

lemma first_property_cong:
  assumes "prototypes v = prototypes w"
  shows "first_property v p keys = first_property w p keys"
proof (induction keys)
  case (Cons key keys)
  show ?case
    unfolding first_property.simps objectIntProperty_cong [OF assms] Cons.IH by (rule refl)
qed simp

lemma isBadItem_cong:
  assumes "prototypes v = prototypes w"
  shows "isBadItem v p = isBadItem w p"
  unfolding badness_defs first_property_cong [OF assms] objectIntProperty_cong [OF assms] assms by (rule refl)

lemma is_bad_kept:
  assumes "only_contents w v" and "fmlookup (objects v) k \<noteq> None"
  shows "is_bad v k = is_bad w k"
proof -
  obtain p' p where p: "fmlookup (objects v) k = Some p'" "fmlookup (objects w) k = Some p"
      "p' = p\<lparr>Object_Contents := Object_Contents p'\<rparr>" and proto: "prototypes v = prototypes w"
    using assms unfolding only_contents_def by blast
  have "isBadItem v p' = isBadItem w p"
    by (subst p(3)) (simp only: isBadItem_cong [OF proto] isBadItem_contents)
  with p show ?thesis
    by (simp add: is_bad_def)
qed

text \<open>The bad objects among what hangs on the ids of a set, and everything in them, are gone.\<close>

definition condemned :: "World \<Rightarrow> ObjectInstanceID set \<Rightarrow> ObjectInstanceID \<Rightarrow> bool" where
  "condemned w S j \<longleftrightarrow> (\<exists>k. inside w j k \<and> is_bad w k \<and> (\<exists>i \<in> S. inside w k i))"

definition purged :: "ObjectInstanceID set \<Rightarrow> World \<Rightarrow> World \<Rightarrow> bool" where
  "purged S w v \<longleftrightarrow>
     well_held v \<and> only_contents w v \<and> (\<forall>j. loc v j = (if condemned w S j then None else loc w j))"

lemma condemned_below: "inside w j k \<Longrightarrow> condemned w S k \<Longrightarrow> condemned w S j"
  by (auto simp: condemned_def intro: inside_trans)

lemma inside_after_removed:
  assumes u: "\<And>j. loc u j = (if R j then None else loc w j)" and R: "\<And>j k. inside w j k \<Longrightarrow> R k \<Longrightarrow> R j" and "\<not> R j"
  shows "inside u j k = inside w j k"
proof
  have sub: "container_of u x = Some y \<Longrightarrow> container_of w x = Some y" for x y
    by (auto simp: container_of_loc u split: if_splits)
  show "inside u j k \<Longrightarrow> inside w j k"
    by (induction rule: inside.induct) (auto intro: inside.intros sub)
next
  assume "inside w j k"
  then show "inside u j k"
    using assms(3)
  proof (induction rule: inside.induct)
    case (inside_step i k j)
    then have "container_of u i = Some k"
      by (simp add: container_of_loc u)
    moreover have "\<not> R k"
      using inside_step.hyps(1) inside_step.prems R inside_refl by (blast intro: inside.inside_step)
    ultimately show ?case
      using inside_step.IH by (blast intro: inside.inside_step)
  qed (rule inside_refl)
qed

lemma purged_trans:
  assumes "purged S w u" and "purged T u v"
  shows "purged (S \<union> T) w v"
proof -
  let ?R = "condemned w S"
  have u: "loc u j = (if ?R j then None else loc w j)" for j
    using assms(1) by (simp add: purged_def)
  have ins: "inside u j k = inside w j k" if "\<not> ?R j" for j k
    by (rule inside_after_removed [OF u condemned_below that])
  have bad: "is_bad u k = is_bad w k" if "\<not> ?R k" for k
  proof (cases "fmlookup (objects u) k = None")
    case True
    then have "loc u k = None"
      by (simp add: loc_None)
    then have "loc w k = None"
      using u [of k] that by simp
    with True show ?thesis
      by (simp add: is_bad_def loc_None)
  next
    case False
    with assms(1) show ?thesis
      by (intro is_bad_kept) (auto simp: purged_def)
  qed
  have "condemned u T j = condemned w T j" if nj: "\<not> ?R j" for j
  proof -
    have "(inside u j k \<and> is_bad u k \<and> (\<exists>i \<in> T. inside u k i)) = (inside w j k \<and> is_bad w k \<and> (\<exists>i \<in> T. inside w k i))" for k
    proof (cases "inside w j k")
      case True
      then have nk: "\<not> ?R k"
        using condemned_below [OF True] nj by blast
      show ?thesis
        by (simp only: ins [OF nj] ins [OF nk] bad [OF nk])
    next
      case False
      then show ?thesis
        by (simp only: ins [OF nj] simp_thms)
    qed
    then show ?thesis
      by (simp only: condemned_def)
  qed
  moreover have "condemned w (S \<union> T) j = (?R j \<or> condemned w T j)" for j
    by (auto simp: condemned_def)
  moreover have "loc v j = (if condemned u T j then None else loc u j)" for j
    using assms(2) by (simp add: purged_def)
  ultimately have "loc v j = (if condemned w (S \<union> T) j then None else loc w j)" for j
    using u [of j] by (cases "?R j") simp_all
  moreover have "well_held v" "only_contents w u" "only_contents u v"
    using assms by (simp_all add: purged_def)
  ultimately show ?thesis
    unfolding purged_def using only_contents_trans by blast
qed

lemma purged_none: "well_held w \<Longrightarrow> (\<And>i. i \<in> S \<Longrightarrow> \<forall>k. inside w k i \<longrightarrow> \<not> is_bad w k) \<Longrightarrow> purged S w w"
  by (auto simp: purged_def condemned_def)

definition contained :: "World \<Rightarrow> ObjectInstanceID \<Rightarrow> ObjectInstanceID set" where
  "contained w i = {j \<in> fmdom' (objects w). inside w j i}"

lemma finite_contained [simp]: "finite (contained w i)"
  by (simp add: contained_def)

lemma missing_holds_nothing:
  assumes "well_held w" and "fmlookup (objects w) i = None" and "inside w k i"
  shows "k = i"
proof (rule ccontr)
  assume "k \<noteq> i"
  then obtain c where "container_of w c = Some i"
    using inside_last [OF assms(3)] by blast
  then have "c \<in> set (refs w (InObject i))"
    using holders_agree_iff [OF well_heldD(1) [OF assms(1)], of c "InObject i"] well_held_container [OF assms(1)] by simp
  with assms(2) show False
    by (simp add: refs_def)
qed

lemma purged_below: "purged S w u \<Longrightarrow> contained u i \<subseteq> contained w i"
proof -
  assume p: "purged S w u"
  have u: "loc u j = (if condemned w S j then None else loc w j)" for j
    using p by (simp add: purged_def)
  show ?thesis
  proof
    fix j assume j: "j \<in> contained u i"
    then have "loc u j \<noteq> None"
      by (simp add: contained_def loc_None fmlookup_dom'_iff)
    then have n: "\<not> condemned w S j" "loc w j \<noteq> None"
      using u [of j] by (auto split: if_splits)
    have "inside w j i"
      using inside_after_removed [OF u condemned_below n(1)] j by (simp add: contained_def)
    with n show "j \<in> contained w i"
      by (simp add: contained_def loc_None fmlookup_dom'_iff)
  qed
qed

lemma scan_correct:
  "\<lbrakk>well_held w; loc w [] = None; card (contained w i) < n\<rbrakk>
     \<Longrightarrow> \<exists>entries v. scanAndDestroyBadItems n name i w = Some (entries, v) \<and> purged {i} w v"
  "\<lbrakk>well_held w; loc w [] = None; \<forall>c \<in> set is. card (contained w c) < n\<rbrakk>
     \<Longrightarrow> \<exists>entries v. scan_all n name is w = Some (entries, v) \<and> purged (set is) w v"
proof (induction n name i w and n name "is" w rule: scanAndDestroyBadItems_scan_all.induct)
  case (2 fuel name i w)
  show ?case
  proof (cases "i = [] \<or> fmlookup (objects w) i = None")
    case True
    then have m: "fmlookup (objects w) i = None"
      using "2.prems"(2) by (auto simp: loc_None)
    have "purged {i} w w"
    proof (rule purged_none [OF "2.prems"(1)], intro allI impI)
      fix j k assume "j \<in> {i}" and "inside w k j"
      then have "k = i"
        using missing_holds_nothing [OF "2.prems"(1) m] by simp
      with m show "\<not> is_bad w k"
        by (simp add: is_bad_def)
    qed
    with True m show ?thesis
      by auto
  next
    case False
    then obtain p where p: "i \<noteq> []" "fmlookup (objects w) i = Some p"
      by auto
    show ?thesis
    proof (cases "isBadItem w p")
      case (Some reason)
      then have bad: "is_bad w i"
        using p by (simp add: is_bad_def)
      have "removed_tree i w (deleteObjectTree i w)"
        using "2.prems" p by (intro deleteObjectTree_removes) (auto simp: loc_None)
      moreover have "condemned w {i} j = inside w j i" for j
        using bad by (auto simp: condemned_def intro: inside_trans inside_refl)
      ultimately have "purged {i} w (deleteObjectTree i w)"
        using deleteObjectTree_only_contents by (simp add: purged_def removed_tree_def)
      with p Some show ?thesis
        by simp
    next
      case None
      let ?cs = "ObjectIDs (Object_Contents p)"
      have mem: "c \<in> set ?cs \<longleftrightarrow> container_of w c = Some i" for c
        using holders_agree_iff [OF well_heldD(1) [OF "2.prems"(1)], of c "InObject i"] p
        by (simp add: refs_def well_held_container [OF "2.prems"(1)])
      have "card (contained w c) < fuel" if "c \<in> set ?cs" for c
      proof -
        have c: "container_of w c = Some i"
          using mem that by blast
        have "contained w c \<subset> contained w i"
        proof
          show "contained w c \<subseteq> contained w i"
            using inside_child [OF c] by (auto simp: contained_def)
          have "i \<in> contained w i" "i \<notin> contained w c"
            using p acyclicD [OF "2.prems"(1) c] by (auto simp: contained_def fmlookup_dom'_iff intro: inside_refl)
          then show "contained w c \<noteq> contained w i"
            by blast
        qed
        then have "card (contained w c) < card (contained w i)"
          by (intro psubset_card_mono) simp_all
        with "2.prems"(3) show ?thesis
          by simp
      qed
      then obtain entries v where v: "scan_all fuel name ?cs w = Some (entries, v)" "purged (set ?cs) w v"
        using "2.IH" [OF _ p(2) None] "2.prems"(1,2) p(1) by auto
      have "\<not> is_bad w i"
        using None p by (simp add: is_bad_def)
      then have "condemned w {i} j = condemned w (set ?cs) j" for j
        using inside_last [of w _ i] inside_child [of w _ i] mem
        by (fastforce simp: condemned_def)
      then have "purged {i} w v"
        using v(2) by (simp add: purged_def)
      with v(1) p None show ?thesis
        by simp
    qed
  qed
next
  case (3 fuel name w)
  then show ?case
    by (auto intro: purged_none)
next
  case (4 fuel name c cs w)
  obtain e u where u: "scanAndDestroyBadItems fuel name c w = Some (e, u)" "purged {c} w u"
    using "4.IH"(1) "4.prems" by auto
  have "well_held u" "loc u [] = None"
    using u(2) "4.prems"(2) by (simp_all add: purged_def)
  moreover have "\<forall>d \<in> set cs. card (contained u d) < fuel"
  proof
    fix d assume "d \<in> set cs"
    with "4.prems"(3) have "card (contained w d) < fuel"
      by simp
    with card_mono [OF finite_contained purged_below [OF u(2), of d]] show "card (contained u d) < fuel"
      by linarith
  qed
  ultimately obtain e' v where v: "scan_all fuel name cs u = Some (e', v)" "purged (set cs) u v"
    using "4.IH"(2) [OF u(1) refl] by blast
  have "purged (set (c # cs)) w v"
    using purged_trans [OF u(2) v(2)] by simp
  with u(1) v(1) show ?case
    by simp
qed simp

text \<open>C33. The check of a creature's things always ends, and destroys exactly the bad objects among what the
  creature wears or carries, at any depth, with everything inside them: all others stay where they
  are, and the ownership invariant holds.\<close>

theorem Cheat_check_purges:
  assumes "well_held w" and "fmlookup (objects w) [] = None" and "fmlookup (creatures w) c = Some creature"
    and "key_order ord"
  shows "\<exists>entries v. CheckCreatureItems ord c w = Some (entries, v) \<and> well_held v \<and>
    where_is v = (\<lambda>j. if \<exists>k i. inside w j k \<and> is_bad w k \<and> inside w k i \<and>
                           (i \<in> fmran' (Creature_Equipment creature) \<or> i \<in> set (ObjectIDs (Creature_Inventory creature)))
                     then None else where_is w j)"
proof -
  have s: "set (carried_ids ord creature) = fmran' (Creature_Equipment creature) \<union> set (ObjectIDs (Creature_Inventory creature))"
    using set_key_order [OF assms(4), of "fmdom (Creature_Equipment creature)"]
    by (force simp: carried_ids_def equipment_in_def fmlookup_dom_iff fmlookup_ran'_iff mget_def image_iff)
  have "card (contained w i) \<le> card (fmdom' (objects w))" for i
    by (intro card_mono) (auto simp: contained_def)
  then obtain entries v where v: "scan_all (Suc (card (fmdom' (objects w))))
      (if Creature_DisplayName creature = [] then ''??????'' else Creature_DisplayName creature) (carried_ids ord creature) w
      = Some (entries, v)" "purged (set (carried_ids ord creature)) w v"
    using scan_correct(2) [OF assms(1)] assms(2) by (meson less_Suc_eq_le loc_None)
  moreover have "where_is v j = (if \<exists>k i. inside w j k \<and> is_bad w k \<and> inside w k i \<and>
                           (i \<in> fmran' (Creature_Equipment creature) \<or> i \<in> set (ObjectIDs (Creature_Inventory creature)))
                     then None else where_is w j)" for j
    using v(2) by (auto simp: purged_def where_is_loc condemned_def s)
  ultimately show ?thesis
    using assms(3) by (auto simp: CheckCreatureItems_def purged_def)
qed

text \<open>A bag with a blade whose dice give more than a hundred.\<close>

definition demoBlade :: ObjectInstance where
  "demoBlade = zeroObject\<lparr>Object_ID := ''blade'', Object_Location := containerLocation ''bag'',
     Object_Properties := fmap_of_list [(''nDice'', ''20''), (''sDice'', ''6'')]\<rparr>"

definition demoHoard :: World where
  "demoHoard = put_object demoBlade demoPurse"

lemma well_held_demoHoard: "well_held demoHoard"
  unfolding demoHoard_def by (rule well_held_put [OF well_held_demoPurse]; code_simp)

theorem Cheat_check_purges_witness:
  "\<exists>entries v. CheckCreatureItems sorted_list_of_fset ''c1'' demoHoard = Some (entries, v) \<and> well_held v
     \<and> where_is v ''blade'' = None"
proof -
  have f: "fmlookup (objects demoHoard) [] = None" "is_bad demoHoard ''blade''"
    "container_of demoHoard ''blade'' = Some ''bag''"
    by code_simp+
  obtain creature where c: "fmlookup (creatures demoHoard) ''c1'' = Some creature" "''bag'' \<in> set (ObjectIDs (Creature_Inventory creature))"
  proof -
    have "case fmlookup (creatures demoHoard) ''c1'' of None \<Rightarrow> False | Some c \<Rightarrow> ''bag'' \<in> set (ObjectIDs (Creature_Inventory c))"
      by code_simp
    then show ?thesis
      using that by (auto split: option.splits)
  qed
  have "inside demoHoard ''blade'' ''blade''" "inside demoHoard ''blade'' ''bag''"
    using f(3) by (auto intro: inside_refl inside_step)
  with Cheat_check_purges [OF well_held_demoHoard f(1) c(1) key_order_sorted] f(2) c(2) show ?thesis
    by fastforce
qed
end
