(* ===== verification/Ticks.thy ===== *)
theory Ticks
  imports World Making
begin

text \<open>
  The clock of the world (\<^verbatim>\<open>tick.go\<close>, \<^verbatim>\<open>event.go\<close>, the shutdown and board marks of \<^verbatim>\<open>dm_support.go\<close> and
  \<^verbatim>\<open>board.go\<close>): every tick runs the updates that are due. The updates themselves are functions the game
  installs in the world; here they are parameters over a state that holds the world, the messages sent
  to all sessions, the exits of the process, and whatever else the updates change (\<open>Sim_Rest\<close>).
\<close>

record 'x Sim =
  Sim_World :: World
  Sim_Broadcasts :: "(string \<times> int list) list"
  Sim_Exits :: "int list"
  Sim_Rest :: 'x

type_synonym 'x update = "int \<Rightarrow> 'x Sim \<Rightarrow> go_error option \<times> 'x Sim"

record 'x Hooks =
  UpdateActiveMonstersFunc :: "'x update option"
  UpdatePlayerStatusesFunc :: "'x update option"
  UpdateRandomSpawnsFunc :: "'x update option"
  UpdateTimeClockFunc :: "'x update option"
  UpdateTimedExitsFunc :: "'x update option"
  UpdateShutdownFunc :: "'x update option"

definition run_hook :: "'x update option \<Rightarrow> 'x update" where
  "run_hook fn t s = (case fn of None \<Rightarrow> (None, s) | Some f \<Rightarrow> f t s)"

definition UpdateActiveMonsters :: "'x Hooks \<Rightarrow> 'x update" where
  "UpdateActiveMonsters h = run_hook (UpdateActiveMonstersFunc h)"

definition UpdatePlayerStatuses :: "'x Hooks \<Rightarrow> 'x update" where
  "UpdatePlayerStatuses h = run_hook (UpdatePlayerStatusesFunc h)"

definition UpdateRandomSpawns :: "'x Hooks \<Rightarrow> 'x update" where
  "UpdateRandomSpawns h = run_hook (UpdateRandomSpawnsFunc h)"

definition UpdateTimeClock :: "'x Hooks \<Rightarrow> 'x update" where
  "UpdateTimeClock h = run_hook (UpdateTimeClockFunc h)"

definition UpdateTimedExits :: "'x Hooks \<Rightarrow> 'x update" where
  "UpdateTimedExits h = run_hook (UpdateTimedExitsFunc h)"

subsection \<open>The shutdown\<close>

text \<open>The three messages, with the numbers that are formatted into them.\<close>

definition minutesLeft :: string where
  "minutesLeft =
     utf8 [10] @ ''### %d'' @ utf8 [235, 182, 132] @ '' %02d'' @ utf8 [236, 180, 136] @ '' '' @ utf8 [237, 155, 132, 236, 151, 144]
      @ '' '' @ utf8 [235, 168, 184, 235, 147, 156, 235, 165, 188] @ '' ''
      @ utf8 [236, 162, 133, 235, 163, 140, 237, 149, 169, 235, 139, 136, 235, 139, 164] @ ''.''"

definition secondsLeft :: string where
  "secondsLeft =
     utf8 [10] @ ''### %d'' @ utf8 [236, 180, 136] @ '' '' @ utf8 [237, 155, 132, 236, 151, 144] @ '' ''
      @ utf8 [235, 168, 184, 235, 147, 156, 235, 165, 188] @ '' ''
      @ utf8 [236, 162, 133, 235, 163, 140, 237, 149, 169, 235, 139, 136, 235, 139, 164] @ ''. '' @ utf8 [235, 170, 168, 235, 145, 144]
      @ '' '' @ utf8 [235, 130, 152, 234, 176, 128] @ '' '' @ utf8 [236, 163, 188, 236, 139, 173, 236, 139, 156, 236, 154, 148] @ ''.''"

definition shutdownNow :: string where
  "shutdownNow =
     utf8 [10] @ ''### '' @ utf8 [235, 168, 184, 235, 147, 156, 235, 165, 188] @ '' ''
      @ utf8 [236, 162, 133, 235, 163, 140, 237, 149, 169, 235, 139, 136, 235, 139, 164] @ ''.''"

definition SetShutdown :: "int \<Rightarrow> bool \<Rightarrow> World \<Rightarrow> World" where
  "SetShutdown seconds now w =
     w\<lparr>timers := (timers w)\<lparr>shutdownLTime := clock w, shutdownInterval := (if now then 1 else seconds)\<rparr>\<rparr>"

definition ShutdownTimeRemaining :: "World \<Rightarrow> int" where
  "ShutdownTimeRemaining w =
     (if shutdownLTime (timers w) = 0 then 0
      else let rem = i64 (i64 (shutdownLTime (timers w) + shutdownInterval (timers w)) - clock w)
           in if rem < 0 then 0 else rem)"

definition ShutdownSchedule :: "World \<Rightarrow> int \<times> int" where
  "ShutdownSchedule w = (shutdownLTime (timers w), shutdownInterval (timers w))"

definition UpdateShutdown :: "'x Hooks \<Rightarrow> 'x update" where
  "UpdateShutdown h t s =
     (case UpdateShutdownFunc h of
        Some f \<Rightarrow> f t s
      | None \<Rightarrow>
          let tm = timers (Sim_World s)
          in if shutdownLTime tm = 0 then (None, s)
             else let target = i64 (shutdownLTime tm + shutdownInterval tm)
                  in if target > t
                     then let diff = i64 (target - t)
                          in (None, s\<lparr>Sim_Broadcasts := Sim_Broadcasts s @
                                [if diff > 60 then (minutesLeft, [diff div 60, diff mod 60]) else (secondsLeft, [diff])]\<rparr>)
                     else (None, s\<lparr>Sim_Broadcasts := Sim_Broadcasts s @ [(shutdownNow, [])], Sim_Exits := Sim_Exits s @ [t]\<rparr>))"

subsection \<open>A tick\<close>

definition set_timers :: "(Timers \<Rightarrow> Timers) \<Rightarrow> 'x Sim \<Rightarrow> 'x Sim" where
  "set_timers f s = s\<lparr>Sim_World := (Sim_World s)\<lparr>timers := f (timers (Sim_World s))\<rparr>\<rparr>"

definition timers_of :: "'x Sim \<Rightarrow> Timers" where
  "timers_of s = timers (Sim_World s)"

definition RandomUpdateInterval :: "Timers \<Rightarrow> int" where
  "RandomUpdateInterval tm = (if randomUpdateInterval tm = 0 then 20 else randomUpdateInterval tm)"

definition TXInterval :: "Timers \<Rightarrow> int" where
  "TXInterval tm = (if txInterval tm = 0 then 3600 else txInterval tm)"

text \<open>The six blocks of \<^verbatim>\<open>TickWorld\<close>; the errors of the updates are dropped.\<close>

definition tick_active :: "'x Hooks \<Rightarrow> int \<Rightarrow> 'x Sim \<Rightarrow> 'x Sim" where
  "tick_active h t s =
     (if t \<noteq> lastActiveUpdate (timers_of s)
      then snd (UpdateActiveMonsters h t (set_timers (lastActiveUpdate_update (\<lambda>_. t)) s)) else s)"

definition tick_players :: "'x Hooks \<Rightarrow> int \<Rightarrow> 'x Sim \<Rightarrow> 'x Sim" where
  "tick_players h t s =
     (if i64 (t - lastPlayerUpdate (timers_of s)) \<ge> 20
      then snd (UpdatePlayerStatuses h t (set_timers (lastPlayerUpdate_update (\<lambda>_. t)) s)) else s)"

definition tick_random :: "'x Hooks \<Rightarrow> int \<Rightarrow> 'x Sim \<Rightarrow> 'x Sim" where
  "tick_random h t s =
     (if i64 (t - lastRandomUpdate (timers_of s)) \<ge> RandomUpdateInterval (timers_of s)
      then snd (UpdateRandomSpawns h t (set_timers (lastRandomUpdate_update (\<lambda>_. t)) s)) else s)"

definition tick_clock :: "'x Hooks \<Rightarrow> int \<Rightarrow> 'x Sim \<Rightarrow> 'x Sim" where
  "tick_clock h t s =
     (if i64 (t - lastTimeUpdate (timers_of s)) \<ge> 150
      then snd (UpdateTimeClock h t (set_timers (lastTimeUpdate_update (\<lambda>_. t)) s)) else s)"

definition tick_exits :: "'x Hooks \<Rightarrow> int \<Rightarrow> 'x Sim \<Rightarrow> 'x Sim" where
  "tick_exits h t s =
     (if i64 (t - lastExitUpdate (timers_of s)) \<ge> TXInterval (timers_of s)
      then snd (UpdateTimedExits h t (set_timers (lastExitUpdate_update (\<lambda>_. t)) s)) else s)"

definition tick_shutdown :: "'x Hooks \<Rightarrow> int \<Rightarrow> 'x Sim \<Rightarrow> 'x Sim" where
  "tick_shutdown h t s =
     (if shutdownLTime (timers_of s) \<noteq> 0 \<and> i64 (t - lastShutdownUpdate (timers_of s)) \<ge> 30
      then snd (UpdateShutdown h t (set_timers (lastShutdownUpdate_update (\<lambda>_. t)) s)) else s)"

definition TickWorld :: "'x Hooks \<Rightarrow> int \<Rightarrow> 'x Sim \<Rightarrow> 'x Sim" where
  "TickWorld h t s =
     tick_shutdown h t (tick_exits h t (tick_clock h t (tick_random h t (tick_players h t (tick_active h t s)))))"

definition ticks :: "'x Hooks \<Rightarrow> int list \<Rightarrow> 'x Sim \<Rightarrow> 'x Sim" where
  "ticks h ts s = foldl (\<lambda>s t. TickWorld h t s) s ts"

subsection \<open>The shutdown of the game loop\<close>

text \<open>
  The hook that the game loop installs for the shutdown (\<^verbatim>\<open>engine/game/update_shutdown.go\<close>, \<^verbatim>\<open>loop.go\<close>).  \<open>finish\<close> is the
  full flush and the closing of the sessions, on the world and the rest.  The numbers of a message are those that are
  formatted into it.
\<close>

definition game_UpdateShutdown :: "('x Sim \<Rightarrow> 'x Sim) \<Rightarrow> 'x update" where
  "game_UpdateShutdown finish t s =
     (case ShutdownSchedule (Sim_World s) of
        (ltime, interval) \<Rightarrow>
          if ltime = 0 then (None, s)
          else if i64 (t - lastShutdownUpdate (timers_of s)) < 30 then (None, s)
          else let i = i64 (ltime + interval) in
            if i > i64 (t + 500) then (None, s)
            else let s = set_timers (lastShutdownUpdate_update (\<lambda>_. t)) s in
              if i > t
              then let remaining = i64 (i - t)
                   in (None, s\<lparr>Sim_Broadcasts := Sim_Broadcasts s @
                        [if remaining > 60 then (minutesLeft, [remaining div 60, remaining mod 60]) else (secondsLeft, [remaining])]\<rparr>)
              else let s = finish (s\<lparr>Sim_Broadcasts := Sim_Broadcasts s @ [(shutdownNow, [])]\<rparr>)
                   in (None, s\<lparr>Sim_Exits := Sim_Exits s @ [t]\<rparr>))"

subsection \<open>Fields of the schedule\<close>

definition SetRandomUpdateInterval :: "int \<Rightarrow> World \<Rightarrow> World" where
  "SetRandomUpdateInterval val w = w\<lparr>timers := (timers w)\<lparr>randomUpdateInterval := val\<rparr>\<rparr>"

definition SetTXInterval :: "int \<Rightarrow> World \<Rightarrow> World" where
  "SetTXInterval val w = w\<lparr>timers := (timers w)\<lparr>txInterval := val\<rparr>\<rparr>"

definition SetLastActiveUpdate :: "int \<Rightarrow> World \<Rightarrow> World" where
  "SetLastActiveUpdate val w = w\<lparr>timers := (timers w)\<lparr>lastActiveUpdate := val\<rparr>\<rparr>"

definition SetLastPlayerUpdate :: "int \<Rightarrow> World \<Rightarrow> World" where
  "SetLastPlayerUpdate val w = w\<lparr>timers := (timers w)\<lparr>lastPlayerUpdate := val\<rparr>\<rparr>"

definition SetLastRandomUpdate :: "int \<Rightarrow> World \<Rightarrow> World" where
  "SetLastRandomUpdate val w = w\<lparr>timers := (timers w)\<lparr>lastRandomUpdate := val\<rparr>\<rparr>"

definition SetLastTimeUpdate :: "int \<Rightarrow> World \<Rightarrow> World" where
  "SetLastTimeUpdate val w = w\<lparr>timers := (timers w)\<lparr>lastTimeUpdate := val\<rparr>\<rparr>"

definition SetLastExitUpdate :: "int \<Rightarrow> World \<Rightarrow> World" where
  "SetLastExitUpdate val w = w\<lparr>timers := (timers w)\<lparr>lastExitUpdate := val\<rparr>\<rparr>"

definition SetLastShutdownUpdate :: "int \<Rightarrow> World \<Rightarrow> World" where
  "SetLastShutdownUpdate val w = w\<lparr>timers := (timers w)\<lparr>lastShutdownUpdate := val\<rparr>\<rparr>"

definition SetLegacyTime :: "int \<Rightarrow> World \<Rightarrow> World" where
  "SetLegacyTime val w = w\<lparr>timers := (timers w)\<lparr>legacyTime := val\<rparr>\<rparr>"

definition IncrementTime :: "World \<Rightarrow> int \<times> World" where
  "IncrementTime w =
     (let n = i64 (legacyTime (timers w) + 1) in (n, w\<lparr>timers := (timers w)\<lparr>legacyTime := n\<rparr>\<rparr>))"

subsection \<open>When updates run\<close>

text \<open>The times at which something that is due every \<open>n\<close> seconds runs, for a sequence of ticks.\<close>

fun due_times :: "int \<Rightarrow> int \<Rightarrow> int list \<Rightarrow> int list" where
  "due_times n prev [] = []"
| "due_times n prev (t # ts) = (if n \<le> t - prev then t # due_times n t ts else due_times n prev ts)"

text \<open>An update that leaves alone what \<open>view\<close> shows, and an update that notes its time in it.\<close>

definition leaves :: "('x Sim \<Rightarrow> 'y) \<Rightarrow> 'x update option \<Rightarrow> bool" where
  "leaves view fn \<longleftrightarrow> (\<forall>f t s. fn = Some f \<longrightarrow> view (snd (f t s)) = view s)"

definition counts :: "('x Sim \<Rightarrow> int list) \<Rightarrow> 'x update \<Rightarrow> bool" where
  "counts runs f \<longleftrightarrow>
     (\<forall>t s. lastPlayerUpdate (timers_of (snd (f t s))) = lastPlayerUpdate (timers_of s) \<and> runs (snd (f t s)) = runs s @ [t])"

lemma due_times_subset: "set (due_times n prev ts) \<subseteq> set ts"
  by (induction ts arbitrary: prev) auto

lemma due_times_after:
  assumes "sorted ts" and "0 \<le> n" and "t \<in> set (due_times n prev ts)"
  shows "n \<le> t - prev"
  using assms(1,3)
proof (induction ts arbitrary: prev)
  case (Cons x xs)
  show ?case
  proof (cases "n \<le> x - prev")
    case True
    have "x \<le> t"
      using Cons.prems due_times_subset [of n x xs] True by auto
    with True show ?thesis
      by simp
  next
    case False
    with Cons.IH [of prev] Cons.prems show ?thesis
      by simp
  qed
qed simp

lemma due_times_spaced:
  assumes "sorted ts" and "0 \<le> n"
  shows "sorted_wrt (\<lambda>a b. n \<le> b - a) (due_times n prev ts)"
  using assms(1)
proof (induction ts arbitrary: prev)
  case (Cons x xs)
  then have s: "sorted xs"
    by simp
  show ?case
    using Cons.IH [OF s, of x] Cons.IH [OF s, of prev] due_times_after [OF s assms(2), of _ x] by simp
qed simp

lemma due_times_fresh:
  assumes "ts \<noteq> []" and "sorted ts" and "0 < n"
  shows "last ts - (if due_times n t0 ts = [] then t0 else last (due_times n t0 ts)) < n"
  using assms(1,2)
proof (induction ts arbitrary: t0)
  case (Cons x xs)
  show ?case
  proof (cases "xs = []")
    case True
    then show ?thesis
      using assms(3) by simp
  next
    case False
    with Cons.prems Cons.IH [of x] Cons.IH [of t0] show ?thesis
      by auto
  qed
qed simp

lemma timers_of_set [simp]: "timers_of (set_timers f s) = f (timers_of s)"
  "Sim_Exits (set_timers f s) = Sim_Exits s" "Sim_Rest (set_timers f s) = Sim_Rest s"
  by (simp_all add: timers_of_def set_timers_def)

lemma run_hook_leaves: "leaves view fn \<Longrightarrow> view (snd (run_hook fn t s)) = view s"
  by (auto simp: run_hook_def leaves_def split: option.split)

lemmas tick_defs = tick_active_def tick_players_def tick_random_def tick_clock_def tick_exits_def
  UpdateActiveMonsters_def UpdatePlayerStatuses_def UpdateRandomSpawns_def UpdateTimeClock_def UpdateTimedExits_def

definition in_time :: "int \<Rightarrow> bool" where
  "in_time t \<longleftrightarrow> 0 \<le> t \<and> t < 2 ^ 62"

lemma in_time_diff: "in_time a \<Longrightarrow> in_time b \<Longrightarrow> i64 (a - b) = a - b"
  by (intro i64_id in_i64_small) (auto simp: in_time_def)

subsection \<open>The update of the players\<close>

text \<open>What the update of the players depends on: the time of its last run, and the runs that were noted.\<close>

definition player_view :: "('x Sim \<Rightarrow> int list) \<Rightarrow> 'x Sim \<Rightarrow> int \<times> int list" where
  "player_view runs s = (lastPlayerUpdate (timers_of s), runs s)"

definition others_leave_players :: "('x Sim \<Rightarrow> int list) \<Rightarrow> 'x Hooks \<Rightarrow> bool" where
  "others_leave_players runs h \<longleftrightarrow>
     (\<forall>f s. runs (set_timers f s) = runs s)
     \<and> (\<forall>b x s. runs (s\<lparr>Sim_Broadcasts := b\<rparr>) = runs s \<and> runs (s\<lparr>Sim_Broadcasts := b, Sim_Exits := x\<rparr>) = runs s)
     \<and> leaves (player_view runs) (UpdateActiveMonstersFunc h) \<and> leaves (player_view runs) (UpdateRandomSpawnsFunc h)
     \<and> leaves (player_view runs) (UpdateTimeClockFunc h) \<and> leaves (player_view runs) (UpdateTimedExitsFunc h)
     \<and> leaves (player_view runs) (UpdateShutdownFunc h)"

lemma player_view_set:
  assumes "others_leave_players runs h"
  shows "player_view runs (set_timers (lastActiveUpdate_update v) s) = player_view runs s"
    "player_view runs (set_timers (lastRandomUpdate_update v) s) = player_view runs s"
    "player_view runs (set_timers (lastTimeUpdate_update v) s) = player_view runs s"
    "player_view runs (set_timers (lastExitUpdate_update v) s) = player_view runs s"
    "player_view runs (set_timers (lastShutdownUpdate_update v) s) = player_view runs s"
  using assms by (simp_all add: player_view_def others_leave_players_def)

lemma player_blocks:
  assumes "others_leave_players runs h"
  shows "player_view runs (tick_active h t s) = player_view runs s" "player_view runs (tick_random h t s) = player_view runs s"
    "player_view runs (tick_clock h t s) = player_view runs s" "player_view runs (tick_exits h t s) = player_view runs s"
    "player_view runs (tick_shutdown h t s) = player_view runs s"
proof -
  note o = assms [unfolded others_leave_players_def] and v = player_view_set [OF assms]
  show "player_view runs (tick_active h t s) = player_view runs s" "player_view runs (tick_random h t s) = player_view runs s"
    "player_view runs (tick_clock h t s) = player_view runs s" "player_view runs (tick_exits h t s) = player_view runs s"
    using o v by (simp_all add: tick_defs run_hook_leaves)
  have "player_view runs (snd (UpdateShutdown h t u)) = player_view runs u" for u
    using o by (cases "UpdateShutdownFunc h")
      (auto simp: UpdateShutdown_def leaves_def Let_def player_view_def timers_of_def)
  then show "player_view runs (tick_shutdown h t s) = player_view runs s"
    using v by (simp add: tick_shutdown_def)
qed

lemma tick_player_log:
  assumes o: "others_leave_players runs h" and "UpdatePlayerStatusesFunc h = Some f" and "counts runs f"
    and "in_time t" and "in_time (lastPlayerUpdate (timers_of s))"
  shows "runs (TickWorld h t s) = runs s @ (if 20 \<le> t - lastPlayerUpdate (timers_of s) then [t] else [])
    \<and> lastPlayerUpdate (timers_of (TickWorld h t s))
      = (if 20 \<le> t - lastPlayerUpdate (timers_of s) then t else lastPlayerUpdate (timers_of s))"
proof -
  define u where "u = tick_active h t s"
  have u: "runs u = runs s" "lastPlayerUpdate (timers_of u) = lastPlayerUpdate (timers_of s)"
    using player_blocks(1) [OF o, of t s] by (simp_all add: u_def player_view_def)
  have r: "runs (set_timers g x) = runs x" for g x
    using o by (simp add: others_leave_players_def)
  have p: "runs (tick_players h t u) = runs s @ (if 20 \<le> t - lastPlayerUpdate (timers_of s) then [t] else [])
    \<and> lastPlayerUpdate (timers_of (tick_players h t u)) = (if 20 \<le> t - lastPlayerUpdate (timers_of s) then t else lastPlayerUpdate (timers_of s))"
    using assms(2-5) u by (simp add: tick_players_def UpdatePlayerStatuses_def run_hook_def counts_def in_time_diff r)
  have "player_view runs (TickWorld h t s) = player_view runs (tick_players h t u)"
    unfolding TickWorld_def u_def [symmetric] by (simp add: player_blocks(2-5) [OF o])
  with p show ?thesis
    by (simp add: player_view_def)
qed

lemma ticks_player_log:
  assumes "others_leave_players runs h" and "UpdatePlayerStatusesFunc h = Some f" and "counts runs f"
    and "list_all in_time ts" and "in_time (lastPlayerUpdate (timers_of s))"
  shows "runs (ticks h ts s) = runs s @ due_times 20 (lastPlayerUpdate (timers_of s)) ts"
  using assms(4,5)
proof (induction ts arbitrary: s)
  case (Cons t ts)
  have t: "in_time t"
    using Cons.prems(1) by simp
  note step = tick_player_log [OF assms(1-3) t Cons.prems(2)]
  then have "in_time (lastPlayerUpdate (timers_of (TickWorld h t s)))"
    using t Cons.prems(2) by auto
  then show ?case
    using Cons.IH [of "TickWorld h t s"] Cons.prems(1) step by (simp add: ticks_def)
qed (simp add: ticks_def)

text \<open>C34. The players' update runs exactly at the ticks at which twenty seconds have passed since it last ran:
  two runs are never closer than that, and after any tick the last run is less than twenty seconds old,
  however irregular the ticks are.  Of all other updates, whatever hooks are installed, nothing is asked but that they
  do not write the time of the last run of the players' update (nor the list in which it notes its runs).\<close>

theorem Players_updated_in_time:
  assumes "others_leave_players noted h" and "UpdatePlayerStatusesFunc h = Some f" and "counts noted f"
    and "list_all in_time ts" and "in_time (lastPlayerUpdate (timers_of s))" and "sorted ts" and "ts \<noteq> []"
    and "runs = due_times 20 (lastPlayerUpdate (timers_of s)) ts"
  shows "noted (ticks h ts s) = noted s @ runs
    \<and> sorted_wrt (\<lambda>a b. 20 \<le> b - a) (lastPlayerUpdate (timers_of s) # runs)
    \<and> last ts - last (lastPlayerUpdate (timers_of s) # runs) < 20"
proof -
  have "sorted_wrt (\<lambda>a b. 20 \<le> b - a) (lastPlayerUpdate (timers_of s) # runs)"
    using due_times_spaced [OF assms(6), of 20] due_times_after [OF assms(6), of 20] assms(8) by simp
  then show ?thesis
    using ticks_player_log [OF assms(1-5)] due_times_fresh [OF assms(7,6), of 20 "lastPlayerUpdate (timers_of s)"] assms(8)
    by auto
qed

subsection \<open>The end of the process\<close>

text \<open>What the shutdown depends on: its schedule, and the exits of the process.\<close>

definition shutdown_view :: "'x Sim \<Rightarrow> int \<times> int \<times> int \<times> int list" where
  "shutdown_view s =
     (shutdownLTime (timers_of s), shutdownInterval (timers_of s), lastShutdownUpdate (timers_of s), Sim_Exits s)"

definition others_leave_shutdown :: "'x Hooks \<Rightarrow> bool" where
  "others_leave_shutdown h \<longleftrightarrow>
     leaves shutdown_view (UpdateActiveMonstersFunc h) \<and> leaves shutdown_view (UpdatePlayerStatusesFunc h)
     \<and> leaves shutdown_view (UpdateRandomSpawnsFunc h) \<and> leaves shutdown_view (UpdateTimeClockFunc h)
     \<and> leaves shutdown_view (UpdateTimedExitsFunc h)"

lemma shutdown_view_set:
  "shutdown_view (set_timers (lastActiveUpdate_update v) s) = shutdown_view s"
  "shutdown_view (set_timers (lastPlayerUpdate_update v) s) = shutdown_view s"
  "shutdown_view (set_timers (lastRandomUpdate_update v) s) = shutdown_view s"
  "shutdown_view (set_timers (lastTimeUpdate_update v) s) = shutdown_view s"
  "shutdown_view (set_timers (lastExitUpdate_update v) s) = shutdown_view s"
  by (simp_all add: shutdown_view_def)

lemma shutdown_blocks:
  assumes "others_leave_shutdown h"
  shows "shutdown_view (tick_exits h t (tick_clock h t (tick_random h t (tick_players h t (tick_active h t s))))) = shutdown_view s"
proof -
  have "shutdown_view (tick_active h t x) = shutdown_view x" "shutdown_view (tick_players h t x) = shutdown_view x"
    "shutdown_view (tick_random h t x) = shutdown_view x" "shutdown_view (tick_clock h t x) = shutdown_view x"
    "shutdown_view (tick_exits h t x) = shutdown_view x" for x
    using assms by (simp_all add: others_leave_shutdown_def tick_defs run_hook_leaves shutdown_view_set)
  then show ?thesis by simp
qed

lemma tick_shutdown_plain:
  assumes o: "others_leave_shutdown h" and none: "UpdateShutdownFunc h = None"
    and "in_time t" and "in_time (lastShutdownUpdate (timers_of s))" and "shutdownLTime (timers_of s) \<noteq> 0"
    and "in_i64 (shutdownLTime (timers_of s) + shutdownInterval (timers_of s))"
  shows "shutdown_view (TickWorld h t s) =
     (shutdownLTime (timers_of s), shutdownInterval (timers_of s),
      (if 30 \<le> t - lastShutdownUpdate (timers_of s) then t else lastShutdownUpdate (timers_of s)),
      Sim_Exits s @ (if 30 \<le> t - lastShutdownUpdate (timers_of s) \<and> shutdownLTime (timers_of s) + shutdownInterval (timers_of s) \<le> t
                     then [t] else []))"
proof -
  define u where "u = tick_exits h t (tick_clock h t (tick_random h t (tick_players h t (tick_active h t s))))"
  have "shutdown_view u = shutdown_view s"
    using shutdown_blocks [OF o] by (simp add: u_def)
  then have u: "shutdownLTime (timers_of u) = shutdownLTime (timers_of s)" "shutdownInterval (timers_of u) = shutdownInterval (timers_of s)"
    "lastShutdownUpdate (timers_of u) = lastShutdownUpdate (timers_of s)" "Sim_Exits u = Sim_Exits s"
    by (simp_all add: shutdown_view_def)
  show ?thesis
    unfolding TickWorld_def u_def [symmetric] using u assms(2-6)
    by (auto simp: tick_shutdown_def in_time_diff UpdateShutdown_def Let_def timers_of_def set_timers_def shutdown_view_def)
qed

text \<open>The hook of the game loop finds the time of its last check just written by the tick that calls it.\<close>

lemma tick_shutdown_loop:
  assumes o: "others_leave_shutdown h" and hook: "UpdateShutdownFunc h = Some (game_UpdateShutdown finish)"
  shows "Sim_Exits (TickWorld h t s) = Sim_Exits s"
proof -
  define u where "u = tick_exits h t (tick_clock h t (tick_random h t (tick_players h t (tick_active h t s))))"
  have "shutdown_view u = shutdown_view s"
    using shutdown_blocks [OF o] by (simp add: u_def)
  then have u: "Sim_Exits u = Sim_Exits s"
    by (simp add: shutdown_view_def)
  have "i64 (t - t) = 0"
    by (simp add: i64_def)
  then show ?thesis
    unfolding TickWorld_def u_def [symmetric] using u hook
    by (simp add: tick_shutdown_def UpdateShutdown_def game_UpdateShutdown_def split: prod.split)
qed

text \<open>C35. Once a shutdown is scheduled, and as long as no other update changes its schedule, this is when the ticks end the
  process.  In a world without a hook for the shutdown it is ended exactly at those of the checks, thirty seconds or
  more apart, that come at or after the end of the interval: never before it, and at the first check from then on.  With
  the hook that the game loop installs it is never ended, however long the ticks go on: the tick writes the time of its
  check before it calls the hook, and the hook returns when this time is less than thirty seconds old.\<close>

theorem Shutdown_on_time:
  assumes "others_leave_shutdown h" and "list_all in_time ts"
    and "in_time (lastShutdownUpdate (timers_of s))" and "shutdownLTime (timers_of s) \<noteq> 0"
    and "target = shutdownLTime (timers_of s) + shutdownInterval (timers_of s)" and "in_i64 target"
  shows "(UpdateShutdownFunc h = None \<longrightarrow>
        Sim_Exits (ticks h ts s) = Sim_Exits s @ filter (\<lambda>t. target \<le> t) (due_times 30 (lastShutdownUpdate (timers_of s)) ts))
     \<and> (\<forall>finish. UpdateShutdownFunc h = Some (game_UpdateShutdown finish) \<longrightarrow> Sim_Exits (ticks h ts s) = Sim_Exits s)"
proof (intro conjI impI allI)
  assume none: "UpdateShutdownFunc h = None"
  show "Sim_Exits (ticks h ts s) = Sim_Exits s @ filter (\<lambda>t. target \<le> t) (due_times 30 (lastShutdownUpdate (timers_of s)) ts)"
    using assms(2-6)
  proof (induction ts arbitrary: s)
    case (Cons t ts)
    have t: "in_time t"
      using Cons.prems(1) by simp
    note step = tick_shutdown_plain [OF assms(1) none t Cons.prems(2,3) Cons.prems(5) [unfolded Cons.prems(4)]]
    then have "in_time (lastShutdownUpdate (timers_of (TickWorld h t s)))"
      using t Cons.prems(2) by (simp add: shutdown_view_def)
    then show ?case
      using Cons.IH [of "TickWorld h t s"] Cons.prems step by (simp add: ticks_def shutdown_view_def)
  qed (simp add: ticks_def)
next
  fix finish assume hook: "UpdateShutdownFunc h = Some (game_UpdateShutdown finish)"
  show "Sim_Exits (ticks h ts s) = Sim_Exits s"
    by (induction ts arbitrary: s) (simp_all add: ticks_def tick_shutdown_loop [OF assms(1) hook])
qed

text \<open>Called on its own, with its last check thirty seconds old, the hook ends the process when the interval is over.\<close>

lemma game_UpdateShutdown_alone:
  assumes "shutdownLTime (timers_of s) \<noteq> 0" and "in_time t" and "in_time (lastShutdownUpdate (timers_of s))"
    and "30 \<le> t - lastShutdownUpdate (timers_of s)"
    and "in_i64 (shutdownLTime (timers_of s) + shutdownInterval (timers_of s))" and "shutdownLTime (timers_of s) + shutdownInterval (timers_of s) \<le> t"
    and "\<And>x. Sim_Exits (finish x) = Sim_Exits x"
  shows "Sim_Exits (snd (game_UpdateShutdown finish t s)) = Sim_Exits s @ [t]"
proof -
  have "i64 (t + 500) = t + 500"
    using assms(2) by (intro i64_id) (simp add: in_time_def in_i64_def)
  then show ?thesis
    using assms by (simp add: game_UpdateShutdown_def ShutdownSchedule_def timers_of_def in_time_diff Let_def set_timers_def)
qed

subsection \<open>Witnesses\<close>

text \<open>The hooks of a small game: the players' update notes its runs, the clock goes on, and the shutdown is that of the loop.\<close>

definition countingHooks :: "int list Hooks" where
  "countingHooks = \<lparr>UpdateActiveMonstersFunc = None, UpdatePlayerStatusesFunc = Some (\<lambda>t s. (None, s\<lparr>Sim_Rest := Sim_Rest s @ [t]\<rparr>)),
     UpdateRandomSpawnsFunc = None,
     UpdateTimeClockFunc = Some (\<lambda>t s. (None, s\<lparr>Sim_World := snd (IncrementTime (Sim_World s))\<rparr>)), UpdateTimedExitsFunc = None,
     UpdateShutdownFunc = Some (game_UpdateShutdown id)\<rparr>"

definition demoSim :: "int \<Rightarrow> int list Sim" where
  "demoSim n = \<lparr>Sim_World = SetShutdown n False (emptyWorld\<lparr>clock := 100\<rparr>), Sim_Broadcasts = [], Sim_Exits = [], Sim_Rest = []\<rparr>"

lemma demoSim_fields:
  "lastPlayerUpdate (timers_of (demoSim n)) = 0" "Sim_Rest (demoSim n) = []" "lastShutdownUpdate (timers_of (demoSim n)) = 0"
  "shutdownLTime (timers_of (demoSim n)) = 100" "shutdownInterval (timers_of (demoSim n)) = n" "Sim_Exits (demoSim n) = []"
  by (simp_all add: demoSim_def timers_of_def SetShutdown_def emptyWorld_def newTimers_def)

lemma counting_leaves:
  "others_leave_players Sim_Rest countingHooks" "counts Sim_Rest (\<lambda>t s. (None, s\<lparr>Sim_Rest := Sim_Rest s @ [t]\<rparr>))"
  "others_leave_shutdown countingHooks" "others_leave_shutdown (countingHooks\<lparr>UpdateShutdownFunc := None\<rparr>)"
  by (auto simp: others_leave_players_def others_leave_shutdown_def countingHooks_def leaves_def player_view_def shutdown_view_def
      counts_def timers_of_def IncrementTime_def game_UpdateShutdown_def set_timers_def Let_def split: prod.split)

theorem Players_updated_in_time_witness:
  "Sim_Rest (ticks countingHooks [100, 119, 121, 140, 141] (demoSim 60)) = [100, 121, 141]"
proof -
  have i: "list_all in_time [100, 119, 121, 140, 141]" "in_time 0"
    by (simp_all add: in_time_def)
  show ?thesis
    using Players_updated_in_time [OF counting_leaves(1) _ counting_leaves(2) i(1), of "demoSim 60"] i(2)
    by (simp add: countingHooks_def demoSim_fields)
qed

theorem Shutdown_on_time_witness:
  "Sim_Exits (ticks (countingHooks\<lparr>UpdateShutdownFunc := None\<rparr>) [100, 129, 131, 140, 160, 161] (demoSim 60)) = [161]
   \<and> Sim_Exits (ticks countingHooks [100, 129, 131, 140, 160, 161] (demoSim 60)) = []"
proof -
  have i: "list_all in_time [100, 129, 131, 140, 160, 161]" "in_time 0" "in_i64 160"
    by (simp_all add: in_time_def in_i64_def)
  have "UpdateShutdownFunc countingHooks = Some (game_UpdateShutdown id)"
    by (simp add: countingHooks_def)
  then have never: "Sim_Exits (ticks countingHooks [100, 129, 131, 140, 160, 161] (demoSim 60)) = []"
    using Shutdown_on_time [OF counting_leaves(3) i(1), of "demoSim 60" 160, THEN conjunct2, THEN spec, of id] i(2,3)
    by (simp add: demoSim_fields)
  have "Sim_Exits (ticks (countingHooks\<lparr>UpdateShutdownFunc := None\<rparr>) [100, 129, 131, 140, 160, 161] (demoSim 60)) = [161]"
    using Shutdown_on_time [OF counting_leaves(4) i(1), of "demoSim 60" 160] i(2,3) by (simp add: demoSim_fields)
  with never show ?thesis
    by simp
qed

end
