(* ===== verification/LegacyText.thy ===== *)
theory LegacyText
  imports Runes "HOL-Library.Word"
begin

text \<open>
  Text of the C server (\<^verbatim>\<open>internal/persist/legacykr\<close>): byte strings in EUC-KR or CP949, from which terminal
  controls are removed before they are decoded.  The tables of the codec are those of another package:
  decoder and encoder are parameters.
\<close>

type_synonym byte = "8 word"

text \<open>The bytes of a string are its characters here.\<close>

definition string_of_bytes :: "byte list \<Rightarrow> string" where
  "string_of_bytes b = map (\<lambda>c. char_of (unat c)) b"

definition bytes_of_string :: "string \<Rightarrow> byte list" where
  "bytes_of_string s = map (\<lambda>c. word_of_nat (of_char c)) s"

record LegacyContext =
  LC_Path :: string
  LC_Field :: string

record ConversionError =
  CE_Op :: string
  CE_Path :: string
  CE_Field :: string
  CE_Offset :: int
  CE_Sample :: "byte list"
  CE_Err :: go_error

definition TrimCString :: "byte list \<Rightarrow> byte list" where
  "TrimCString b = takeWhile (\<lambda>c. c \<noteq> 0) b"

subsection \<open>Terminal controls\<close>

text \<open>\<^verbatim>\<open>csiEnd\<close> gives an index; here it is the rest of the bytes from that index on.\<close>

fun csiEnd :: "byte list \<Rightarrow> byte list option" where
  "csiEnd [] = None"
| "csiEnd (c # b) = (if 0x40 \<le> c \<and> c \<le> 0x7e then Some b else csiEnd b)"

lemma csiEnd_shorter: "csiEnd b = Some rest \<Longrightarrow> length rest < length b"
  by (induction b) (auto split: if_splits)

function StripTerminalControls :: "byte list \<Rightarrow> byte list" where
  "StripTerminalControls [] = []"
| "StripTerminalControls (c # b) =
     (if c = 0x1b \<and> b \<noteq> [] \<and> hd b = 0x5b
      then (case csiEnd (tl b) of
              Some rest \<Rightarrow> StripTerminalControls rest
            | None \<Rightarrow> c # StripTerminalControls b)
      else c # StripTerminalControls b)"
  by pat_completeness auto
termination
  by (relation "measure length") (auto dest!: csiEnd_shorter simp: neq_Nil_conv)

subsection \<open>The shape of CP949\<close>

definition isCP949Trail :: "byte \<Rightarrow> bool" where
  "isCP949Trail b \<longleftrightarrow> 0x41 \<le> b \<and> b \<le> 0x5a \<or> 0x61 \<le> b \<and> b \<le> 0x7a \<or> 0x81 \<le> b \<and> b \<le> 0xfe"

fun invalid_from :: "nat \<Rightarrow> byte list \<Rightarrow> nat option" where
  "invalid_from i [] = None"
| "invalid_from i (c # b) =
     (if c \<le> 0x7f then invalid_from (i + 1) b
      else if c = 0x80 \<or> c = 0xff then Some i
      else case b of
        [] \<Rightarrow> Some i
      | t # b' \<Rightarrow> if \<not> isCP949Trail t then Some (i + 1) else invalid_from (i + 2) b')"

definition firstInvalidCP949Byte :: "byte list \<Rightarrow> nat option" where
  "firstInvalidCP949Byte b = invalid_from 0 b"

function rune_error_from :: "nat \<Rightarrow> int list \<Rightarrow> nat option" where
  "rune_error_from off [] = None"
| "rune_error_from off (a # s) =
     (case first_rune (a # s) of
        (r, n) \<Rightarrow> if r = 65533 then Some off else rune_error_from (off + n) (drop (n - 1) s))"
  by pat_completeness auto
termination by (relation "measure (\<lambda>(off, s). length s)") auto

definition firstRuneErrorOffset :: "string \<Rightarrow> nat option" where
  "firstRuneErrorOffset s = rune_error_from 0 (map of_char s)"

subsection \<open>Decoding and encoding\<close>

definition sampleAround :: "byte list \<Rightarrow> int \<Rightarrow> byte list" where
  "sampleAround input offset =
     (if input = [] then []
      else let offset = (if offset < 0 \<or> int (length input) \<le> offset then 0 else offset);
               start = (if offset - 4 < 0 then 0 else offset - 4);
               stop = (if int (length input) < offset + 8 then int (length input) else offset + 8)
           in take (nat (stop - start)) (drop (nat start) input))"

definition conversionError :: "LegacyContext \<Rightarrow> string \<Rightarrow> int \<Rightarrow> byte list \<Rightarrow> go_error \<Rightarrow> ConversionError" where
  "conversionError ctx op offset input err =
     \<lparr>CE_Op = op, CE_Path = LC_Path ctx, CE_Field = LC_Field ctx, CE_Offset = offset,
      CE_Sample = sampleAround input offset, CE_Err = err\<rparr>"

type_synonym decoder = "byte list \<Rightarrow> string result"
type_synonym encoder = "string \<Rightarrow> byte list result"

definition DecodeEUCKRContext :: "decoder \<Rightarrow> LegacyContext \<Rightarrow> byte list \<Rightarrow> ConversionError + string" where
  "DecodeEUCKRContext euckr ctx b =
     (let b = StripTerminalControls b
      in case firstInvalidCP949Byte b of
           Some off \<Rightarrow> Inl (conversionError ctx ''decode'' (int off) b (Errorf ''malformed CP949 byte sequence'' []))
         | None \<Rightarrow>
             (case euckr b of
                Inl err \<Rightarrow> Inl (conversionError ctx ''decode'' (- 1) b err)
              | Inr out \<Rightarrow>
                  (case firstRuneErrorOffset out of
                     Some off \<Rightarrow> Inl (conversionError ctx ''decode'' (int off) b (Errorf ''decoder emitted replacement rune'' []))
                   | None \<Rightarrow> Inr out)))"

definition noContext :: LegacyContext where
  "noContext = \<lparr>LC_Path = [], LC_Field = []\<rparr>"

definition DecodeEUCKR :: "decoder \<Rightarrow> byte list \<Rightarrow> ConversionError + string" where
  "DecodeEUCKR euckr b = DecodeEUCKRContext euckr noContext b"

definition DecodePathBytes :: "decoder \<Rightarrow> byte list \<Rightarrow> ConversionError + string" where
  "DecodePathBytes euckr path =
     DecodeEUCKRContext euckr \<lparr>LC_Path = string_of_bytes path, LC_Field = ''path''\<rparr> path"

definition EncodeEUCKRContext :: "encoder \<Rightarrow> LegacyContext \<Rightarrow> string \<Rightarrow> ConversionError + byte list" where
  "EncodeEUCKRContext encode ctx s =
     (if \<not> ValidString s
      then Inl (conversionError ctx ''encode'' (- 1) (bytes_of_string s) (Errorf ''input is not valid UTF-8'' []))
      else case encode s of
             Inl err \<Rightarrow> Inl (conversionError ctx ''encode'' (- 1) (bytes_of_string s) err)
           | Inr out \<Rightarrow> Inr out)"

definition EncodeEUCKR :: "encoder \<Rightarrow> string \<Rightarrow> ConversionError + byte list" where
  "EncodeEUCKR encode s = EncodeEUCKRContext encode noContext s"

definition ValidUTF8OrDecodeContext :: "decoder \<Rightarrow> LegacyContext \<Rightarrow> byte list \<Rightarrow> ConversionError + string" where
  "ValidUTF8OrDecodeContext euckr ctx b =
     (if ValidString (string_of_bytes b) then Inr (string_of_bytes b) else DecodeEUCKRContext euckr ctx b)"

definition ValidUTF8OrDecode :: "decoder \<Rightarrow> byte list \<Rightarrow> ConversionError + string" where
  "ValidUTF8OrDecode euckr b = ValidUTF8OrDecodeContext euckr noContext b"

definition DecodeCStringEUCKRContext :: "decoder \<Rightarrow> LegacyContext \<Rightarrow> byte list \<Rightarrow> ConversionError + string" where
  "DecodeCStringEUCKRContext euckr ctx b = DecodeEUCKRContext euckr ctx (TrimCString b)"

definition DecodeCStringEUCKR :: "decoder \<Rightarrow> byte list \<Rightarrow> ConversionError + string" where
  "DecodeCStringEUCKR euckr b = DecodeEUCKR euckr (TrimCString b)"

subsection \<open>What is decoded\<close>

text \<open>The byte strings of CP949: ASCII bytes, and pairs of a lead and a trail byte, by the ranges of the standard.\<close>

definition cp949_lead :: "byte \<Rightarrow> bool" where
  "cp949_lead c \<longleftrightarrow> unat c \<in> {129..254}"

definition cp949_trail :: "byte \<Rightarrow> bool" where
  "cp949_trail c \<longleftrightarrow> unat c \<in> {65..90} \<union> {97..122} \<union> {129..254}"

inductive cp949 :: "byte list \<Rightarrow> bool" where
  cp949_Nil: "cp949 []"
| cp949_ascii: "unat c < 128 \<Longrightarrow> cp949 b \<Longrightarrow> cp949 (c # b)"
| cp949_pair: "cp949_lead c \<Longrightarrow> cp949_trail t \<Longrightarrow> cp949 b \<Longrightarrow> cp949 (c # t # b)"

inductive_simps cp949_Cons: "cp949 (c # b)"

text \<open>
  Where such a string goes wrong: after a well-formed start there is a byte that is neither ASCII nor a lead byte, or a
  lead byte at the very end; or a lead byte with something else than a trail byte, which is then the wrong one.
\<close>

definition malformed_at :: "byte list \<Rightarrow> nat \<Rightarrow> bool" where
  "malformed_at b i \<longleftrightarrow>
     (\<exists>p c q. b = p @ c # q \<and> cp949 p \<and> i = length p \<and> (unat c \<in> {128, 255} \<or> cp949_lead c \<and> q = []))
     \<or> (\<exists>p c t q. b = p @ c # t # q \<and> cp949 p \<and> i = Suc (length p) \<and> cp949_lead c \<and> \<not> cp949_trail t)"

lemma trail_iff: "isCP949Trail t \<longleftrightarrow> cp949_trail t"
  by (auto simp: isCP949Trail_def cp949_trail_def word_le_nat_alt)

lemma byte_cases: "c \<le> 0x7f \<longleftrightarrow> unat c < 128" "c = 0x80 \<or> c = 0xff \<longleftrightarrow> unat c \<in> {128, 255}" for c :: byte
  by (auto simp: word_le_nat_alt word_unat_eq_iff)

lemma lead_byte: "\<not> unat c < 128 \<Longrightarrow> unat c \<notin> {128, 255} \<Longrightarrow> cp949_lead c" for c :: byte
  using unsigned_less [where 'a = nat, of c] by (auto simp: cp949_lead_def)

lemma lead_facts: "cp949_lead c \<Longrightarrow> \<not> unat c < 128" "cp949_lead c \<Longrightarrow> unat c \<notin> {128, 255}"
  by (auto simp: cp949_lead_def)

lemma invalid_from_None: "invalid_from i b = None \<longleftrightarrow> cp949 b"
proof (induction i b rule: invalid_from.induct)
  case (1 i)
  then show ?case by (simp add: cp949_Nil)
next
  case (2 i c b)
  consider "unat c < 128" | "unat c \<in> {128, 255}" | "cp949_lead c"
    using lead_byte by blast
  then show ?case
  proof cases
    case 1
    then have "\<not> cp949_lead c"
      using lead_facts(1) by blast
    with 1 2(1) show ?thesis
      by (simp add: byte_cases cp949_Cons [of c])
  next
    case here: 2
    then have "\<not> unat c < 128" "\<not> cp949_lead c"
      using lead_facts(2) by auto
    with here show ?thesis
      by (simp add: byte_cases cp949_Cons [of c])
  next
    case 3
    note lead = lead_facts [OF 3]
    show ?thesis
    proof (cases b)
      case Nil
      with lead show ?thesis
        by (simp add: byte_cases cp949_Cons [of c])
    next
      case (Cons t b')
      with 2(2) lead 3 show ?thesis
        by (simp add: byte_cases trail_iff cp949_Cons [of c])
    qed
  qed
qed

lemma malformed_shift:
  assumes "cp949 p" and "malformed_at b i"
  shows "malformed_at (p @ b) (length p + i)"
proof -
  have app: "cp949 (p @ q)" if "cp949 q" for q
    using assms(1) that by (induction p rule: cp949.induct) (auto intro: cp949.intros)
  from assms(2) consider
      q c r where "b = q @ c # r" "cp949 q" "i = length q" "unat c \<in> {128, 255} \<or> cp949_lead c \<and> r = []"
    | q c t r where "b = q @ c # t # r" "cp949 q" "i = Suc (length q)" "cp949_lead c" "\<not> cp949_trail t"
    unfolding malformed_at_def by blast
  then show ?thesis
  proof cases
    case 1
    then have "p @ b = (p @ q) @ c # r" "length p + i = length (p @ q)" by simp_all
    with 1 app show ?thesis
      unfolding malformed_at_def by blast
  next
    case 2
    then have "p @ b = (p @ q) @ c # t # r" "length p + i = Suc (length (p @ q))" by simp_all
    with 2 app show ?thesis
      unfolding malformed_at_def by blast
  qed
qed

lemma invalid_from_Some: "invalid_from k b = Some i \<Longrightarrow> k \<le> i \<and> malformed_at b (i - k)"
proof (induction k b rule: invalid_from.induct)
  case (2 k c b)
  have one: "cp949 [c]" if "unat c < 128"
    using that by (simp add: cp949_ascii cp949_Nil)
  consider "unat c < 128" | "unat c \<in> {128, 255}" | "cp949_lead c"
    using lead_byte by blast
  then show ?case
  proof cases
    case 1
    with 2 have "k + 1 \<le> i" "malformed_at b (i - (k + 1))"
      by (simp_all add: byte_cases)
    with malformed_shift [OF one [OF 1], of b "i - (k + 1)"] show ?thesis
      by (simp add: Suc_diff_Suc)
  next
    case here: 2
    with 2 have "i = k"
      by (auto simp: byte_cases split: if_splits)
    with here show ?thesis
      by (auto simp: malformed_at_def cp949_Nil)
  next
    case 3
    note lead = lead_facts [OF 3]
    show ?thesis
    proof (cases b)
      case Nil
      with 2 lead 3 have "i = k"
        by (auto simp: byte_cases split: if_splits)
      with Nil 3 show ?thesis
        by (auto simp: malformed_at_def cp949_Nil)
    next
      case b: (Cons t b')
      show ?thesis
      proof (cases "cp949_trail t")
        case True
        with 2 lead b have "k + 2 \<le> i" "malformed_at b' (i - (k + 2))"
          by (auto simp: byte_cases trail_iff split: if_splits)
        moreover have "cp949 [c, t]"
          using 3 True by (simp add: cp949_pair cp949_Nil)
        ultimately show ?thesis
          using malformed_shift [of "[c, t]" b' "i - (k + 2)"] b by (simp add: numeral_2_eq_2 Suc_diff_Suc Suc_le_eq)
      next
        case False
        with 2 lead b have "i = k + 1"
          by (auto simp: byte_cases trail_iff split: if_splits)
        with b 3 False show ?thesis
          by (auto simp: malformed_at_def intro: exI [of _ "[]"] cp949_Nil)
      qed
    qed
  qed
qed simp

lemma firstInvalid_None: "firstInvalidCP949Byte b = None \<longleftrightarrow> cp949 b"
  by (simp add: firstInvalidCP949Byte_def invalid_from_None)

lemma rune_error_None: "rune_error_from off s = None \<longleftrightarrow> 65533 \<notin> set (runes_of s)"
proof (induction off s rule: rune_error_from.induct)
  case (2 off a s)
  obtain r n where r: "first_rune (a # s) = (r, n)" by (cases "first_rune (a # s)")
  show ?case
    using "2.IH" [OF r [symmetric]] r by auto
qed simp

lemma firstRuneError_None: "firstRuneErrorOffset s = None \<longleftrightarrow> 65533 \<notin> set (runes s)"
  by (simp add: firstRuneErrorOffset_def rune_error_None runes_def)

text \<open>
  What is removed: from the left, each ESC [ with the bytes up to and with the first one of the range 64 to 126, if there
  is one.
\<close>

definition csi_final :: "byte \<Rightarrow> bool" where
  "csi_final c \<longleftrightarrow> unat c \<in> {64..126}"

inductive stripped :: "byte list \<Rightarrow> byte list \<Rightarrow> bool" where
  stripped_Nil: "stripped [] []"
| stripped_sequence: "\<forall>x \<in> set params. \<not> csi_final x \<Longrightarrow> csi_final final \<Longrightarrow> stripped b t \<Longrightarrow> stripped (27 # 91 # params @ final # b) t"
| stripped_other: "\<not> (\<exists>q. c # b = 27 # 91 # q \<and> (\<exists>x \<in> set q. csi_final x)) \<Longrightarrow> stripped b t \<Longrightarrow> stripped (c # b) (c # t)"

lemma csiEnd_final: "\<forall>x \<in> set params. \<not> csi_final x \<Longrightarrow> csi_final final \<Longrightarrow> csiEnd (params @ final # b) = Some b"
  by (induction params) (auto simp: csi_final_def word_le_nat_alt)

lemma csiEnd_Some: "csiEnd b = Some r \<Longrightarrow> \<exists>params final. b = params @ final # r \<and> (\<forall>x \<in> set params. \<not> csi_final x) \<and> csi_final final"
proof (induction b)
  case (Cons c b)
  show ?case
  proof (cases "csi_final c")
    case True
    with Cons show ?thesis
      by (intro exI [of _ "[]"] exI [of _ c]) (auto simp: csi_final_def word_le_nat_alt)
  next
    case False
    with Cons.prems have "csiEnd b = Some r"
      by (auto simp: csi_final_def word_le_nat_alt split: if_splits)
    with Cons.IH obtain params final where "b = params @ final # r" "\<forall>x \<in> set params. \<not> csi_final x" "csi_final final"
      by blast
    with False show ?thesis
      by (intro exI [of _ "c # params"] exI [of _ final]) simp
  qed
qed simp

lemma csiEnd_None: "csiEnd b = None \<longleftrightarrow> (\<forall>x \<in> set b. \<not> csi_final x)"
  by (induction b) (auto simp: csi_final_def word_le_nat_alt)

lemma stripped_Strip: "stripped b (StripTerminalControls b)"
proof (induction b rule: StripTerminalControls.induct)
  case (2 c b)
  show ?case
  proof (cases "c = 0x1b \<and> b \<noteq> [] \<and> hd b = 0x5b")
    case True
    then obtain q where q: "b = 91 # q"
      by (cases b) auto
    show ?thesis
    proof (cases "csiEnd q")
      case None
      then have "\<not> (\<exists>q'. c # b = 27 # 91 # q' \<and> (\<exists>x \<in> set q'. csi_final x))"
        by (auto simp: q csiEnd_None)
      moreover have "stripped b (StripTerminalControls b)"
        using 2(1,2) [OF True] None q by (simp del: StripTerminalControls.simps)
      ultimately have "stripped (c # b) (c # StripTerminalControls b)"
        by (rule stripped_other)
      with True None q show ?thesis
        by simp
    next
      case (Some r)
      then obtain params final where "q = params @ final # r" "\<forall>x \<in> set params. \<not> csi_final x" "csi_final final"
        using csiEnd_Some by blast
      moreover have "stripped r (StripTerminalControls r)"
        using 2(1,2) [OF True] Some q by (simp del: StripTerminalControls.simps)
      ultimately show ?thesis
        using stripped_sequence [of params final r] True Some q by simp
    qed
  next
    case False
    then have "\<not> (\<exists>q'. c # b = 27 # 91 # q' \<and> (\<exists>x \<in> set q'. csi_final x))"
      by auto
    from stripped_other [OF this] 2(3) False show ?thesis
      by auto
  qed
qed (simp add: stripped_Nil)

lemma stripped_unique: "stripped b t \<Longrightarrow> t = StripTerminalControls b"
proof (induction rule: stripped.induct)
  case (stripped_sequence params final b t)
  then show ?case
    by (simp add: csiEnd_final)
next
  case (stripped_other c b t)
  show ?case
  proof (cases "c = 0x1b \<and> b \<noteq> [] \<and> hd b = 0x5b")
    case True
    then obtain q where q: "b = 91 # q"
      by (cases b) auto
    with True stripped_other(1) have "csiEnd q = None"
      by (auto simp: csiEnd_None)
    with True q stripped_other(3) show ?thesis by simp
  next
    case False
    with stripped_other(3) show ?thesis by auto
  qed
qed simp

text \<open>The first replacement character of a text, and the number of bytes before it.\<close>

definition replaced_at :: "string \<Rightarrow> nat \<Rightarrow> bool" where
  "replaced_at s k \<longleftrightarrow> (\<exists>rs rest. runes s = rs @ 65533 # rest \<and> 65533 \<notin> set rs \<and> k = length (concat (map encode_rune rs)))"

lemma rune_error_Some:
  "rune_error_from off s = Some k \<Longrightarrow> list_all (\<lambda>b. 0 \<le> b) s \<Longrightarrow>
     \<exists>rs rest. runes_of s = rs @ 65533 # rest \<and> 65533 \<notin> set rs \<and> k = off + length (concat (map encode_rune rs))"
proof (induction off s rule: rune_error_from.induct)
  case (2 off a s)
  obtain r n where r: "first_rune (a # s) = (r, n)" by (cases "first_rune (a # s)")
  show ?case
  proof (cases "r = 65533")
    case True
    with 2(2) r have "k = off" "runes_of (a # s) = 65533 # runes_of (drop (n - 1) s)"
      by (simp_all del: first_rune.simps)
    then show ?thesis
      by (intro exI [of _ "[]"] exI [of _ "runes_of (drop (n - 1) s)"]) simp
  next
    case False
    have "list_all (\<lambda>b. 0 \<le> b) (drop (n - 1) s)"
      using 2(3) by (auto simp: list_all_iff dest: in_set_dropD)
    with 2(1) [OF r [symmetric] False] 2(2) r False obtain rs rest where
      "runes_of (drop (n - 1) s) = rs @ 65533 # rest" "65533 \<notin> set rs" "k = off + n + length (concat (map encode_rune rs))"
      by auto
    moreover have "length (encode_rune r) = n"
      using encode_first_rune [OF r, THEN conjunct2, THEN conjunct2] False 2(3) by simp
    ultimately show ?thesis
      using r False by (intro exI [of _ "r # rs"] exI [of _ rest]) auto
  qed
qed simp

lemma firstRuneError_Some: "firstRuneErrorOffset s = Some k \<Longrightarrow> replaced_at s k"
  unfolding firstRuneErrorOffset_def replaced_at_def runes_def by (drule rune_error_Some) auto

text \<open>The sample of a place: four bytes before it and eight from it on, as far as they exist.\<close>

definition sample_at :: "byte list \<Rightarrow> nat \<Rightarrow> byte list" where
  "sample_at t k = drop (k - 4) (take (k + 8) t)"

lemma sample_inside: "k < length t \<or> k = 0 \<Longrightarrow> sampleAround t (int k) = sample_at t k"
proof -
  assume k: "k < length t \<or> k = 0"
  have n: "nat (int k + 8) = k + 8" "nat (int k - 4) = k - 4" "nat (int (length t) - int k + 4) = length t - k + 4" if "k \<le> length t"
    using that by auto
  have "k \<le> length t"
    using k by auto
  note n = n [OF this]
  show ?thesis
  proof (cases "length t < k + 8")
    case True
    with k n show ?thesis
      by (cases "t = []") (auto simp: sampleAround_def sample_at_def Let_def)
  next
    case False
    with k n show ?thesis
      by (cases "t = []"; cases "k < 4") (auto simp: sampleAround_def sample_at_def Let_def drop_take)
  qed
qed

lemma sample_outside: "int (length t) \<le> k \<or> k < 0 \<Longrightarrow> sampleAround t k = sample_at t 0"
  using sample_inside [of 0 t] by (auto simp: sampleAround_def Let_def)

lemma malformed_bound: "malformed_at t i \<Longrightarrow> i < length t"
  by (auto simp: malformed_at_def)

text \<open>C32. Let \<open>t\<close> be the text without its terminal controls, which there is exactly one of.  The text is decoded exactly
  when \<open>t\<close> is made of ASCII bytes and pairs of CP949 and the codec gives a text without replacement characters, and then
  this is the result.  Otherwise the error names the operation, the path and the field that were asked for, and one of
  three things: the place of the first malformed byte of \<open>t\<close>, with the bytes around it; the error of the codec, with no place
  and the first bytes of \<open>t\<close>; or the place of the first replacement character, which is its place in the decoded text,
  with the bytes of \<open>t\<close> around this number (around the start, when \<open>t\<close> has not as many).\<close>

theorem Decode_exactly:
  "\<exists>t. stripped b = (\<lambda>t'. t' = t)
   \<and> (case DecodeEUCKRContext euckr ctx b of
      Inr s \<Rightarrow> cp949 t \<and> euckr t = Inr s \<and> 65533 \<notin> set (runes s)
    | Inl e \<Rightarrow> CE_Op e = ''decode'' \<and> CE_Path e = LC_Path ctx \<and> CE_Field e = LC_Field ctx
        \<and> ((\<exists>i. \<not> cp949 t \<and> malformed_at t i \<and> CE_Offset e = int i \<and> CE_Sample e = sample_at t i)
           \<or> (cp949 t \<and> euckr t = Inl (CE_Err e) \<and> CE_Offset e = - 1 \<and> CE_Sample e = sample_at t 0)
           \<or> (\<exists>s k. cp949 t \<and> euckr t = Inr s \<and> replaced_at s k \<and> CE_Offset e = int k
                 \<and> CE_Sample e = sample_at t (if k < length t then k else 0))))"
proof (intro exI conjI)
  let ?t = "StripTerminalControls b"
  show "stripped b = (\<lambda>t'. t' = ?t)"
    using stripped_Strip stripped_unique by (intro ext) blast
  have sample: "sampleAround ?t (int k) = sample_at ?t (if k < length ?t then k else 0)" for k
    using sample_inside [of k ?t] sample_outside [of ?t "int k"] by auto
  have none: "sampleAround ?t (- 1) = sample_at ?t 0"
    by (rule sample_outside) simp
  consider i where "firstInvalidCP949Byte ?t = Some i" | "firstInvalidCP949Byte ?t = None"
    by (cases "firstInvalidCP949Byte ?t") auto
  then show "case DecodeEUCKRContext euckr ctx b of
      Inr s \<Rightarrow> cp949 ?t \<and> euckr ?t = Inr s \<and> 65533 \<notin> set (runes s)
    | Inl e \<Rightarrow> CE_Op e = ''decode'' \<and> CE_Path e = LC_Path ctx \<and> CE_Field e = LC_Field ctx
        \<and> ((\<exists>i. \<not> cp949 ?t \<and> malformed_at ?t i \<and> CE_Offset e = int i \<and> CE_Sample e = sample_at ?t i)
           \<or> (cp949 ?t \<and> euckr ?t = Inl (CE_Err e) \<and> CE_Offset e = - 1 \<and> CE_Sample e = sample_at ?t 0)
           \<or> (\<exists>s k. cp949 ?t \<and> euckr ?t = Inr s \<and> replaced_at s k \<and> CE_Offset e = int k
                 \<and> CE_Sample e = sample_at ?t (if k < length ?t then k else 0)))"
  proof cases
    case 1
    then have "malformed_at ?t i" "\<not> cp949 ?t"
      using invalid_from_Some [of 0 ?t i] firstInvalid_None [of ?t] by (simp_all add: firstInvalidCP949Byte_def)
    with 1 malformed_bound [of ?t i] show ?thesis
      by (simp add: DecodeEUCKRContext_def Let_def conversionError_def sample)
  next
    case 2
    then have "cp949 ?t"
      by (simp add: firstInvalid_None)
    with 2 show ?thesis
      by (auto simp: DecodeEUCKRContext_def Let_def conversionError_def sample none firstRuneError_None [symmetric]
          dest: firstRuneError_Some split: sum.split option.split)
  qed
qed

text \<open>Bytes without ESC are not touched.\<close>

lemma Strip_plain: "0x1b \<notin> set b \<Longrightarrow> StripTerminalControls b = b"
  by (induction b rule: StripTerminalControls.induct) auto

text \<open>
  A sequence that the server did not write may end in a Korean character: \<^verbatim>\<open>csiEnd\<close> skips its lead byte,
  takes the trail byte for the end, and text before it is lost.
\<close>

lemma Strip_eats_text: "StripTerminalControls [0x1b, 0x5b, 0xb0, 0xa1, 0xb0, 0x61, 0x31] = [0x31]"
  by simp

text \<open>Removing controls can leave a control behind.\<close>

lemma Strip_twice:
  "StripTerminalControls [0x1b, 0x1b, 0x5b, 0x6d, 0x5b, 0x6d] = [0x1b, 0x5b, 0x6d]"
  "StripTerminalControls [0x1b, 0x5b, 0x6d] = []"
  by simp_all

text \<open>A text that was encoded is decoded to itself, whatever the context, if the codec is one: its decoder
  undoes its encoder, whose output is CP949, with an ESC only for an ESC in the text.\<close>

theorem Encode_Decode_roundtrip:
  assumes "EncodeEUCKRContext encode ctx s = Inr b" and "CHR 0x1B \<notin> set s" and "65533 \<notin> set (runes s)"
    and codec: "\<And>t c. encode t = Inr c \<Longrightarrow> euckr c = Inr t"
    and shape: "\<And>t c. encode t = Inr c \<Longrightarrow> cp949 c"
    and controls: "\<And>t c. encode t = Inr c \<Longrightarrow> 0x1b \<in> set c \<Longrightarrow> CHR 0x1B \<in> set t"
  shows "DecodeEUCKRContext euckr ctx' b = Inr s"
proof -
  have e: "encode s = Inr b"
    using assms(1) by (simp add: EncodeEUCKRContext_def split: if_splits sum.splits)
  have "StripTerminalControls b = b"
    using controls [OF e] assms(2) by (intro Strip_plain) blast
  moreover have "firstInvalidCP949Byte b = None"
    unfolding firstInvalid_None by (rule shape [OF e])
  moreover have "firstRuneErrorOffset s = None"
    using assms(3) by (simp add: firstRuneError_None)
  ultimately show ?thesis
    by (simp add: DecodeEUCKRContext_def codec [OF e])
qed

text \<open>A codec for ASCII.\<close>

definition ascii_encode :: encoder where
  "ascii_encode s =
     (if list_all (\<lambda>c. of_char c < (128 :: nat)) s then Inr (bytes_of_string s) else Inl (Errorf ''encode'' []))"

definition ascii_decode :: decoder where
  "ascii_decode b = Inr (string_of_bytes b)"

lemma string_bytes: "list_all (\<lambda>c. of_char c < (128 :: nat)) s \<Longrightarrow> string_of_bytes (bytes_of_string s) = s"
  by (induction s) (simp_all add: string_of_bytes_def bytes_of_string_def unat_of_nat take_bit_nat_eq_self_iff)

lemma cp949_ascii_bytes: "list_all (\<lambda>c. of_char c < (128 :: nat)) s \<Longrightarrow> cp949 (bytes_of_string s)"
  by (induction s) (auto simp: bytes_of_string_def word_le_nat_alt unat_of_nat take_bit_nat_eq_self_iff
      intro!: cp949_Nil cp949_ascii)

lemma ascii_escape: "list_all (\<lambda>c. of_char c < (128 :: nat)) s \<Longrightarrow> 0x1b \<in> set (bytes_of_string s) \<Longrightarrow> CHR 0x1B \<in> set s"
proof (induction s)
  case (Cons c s)
  show ?case
  proof (cases "word_of_nat (of_char c) = (0x1b :: byte)")
    case True
    then have "unat (word_of_nat (of_char c) :: byte) = unat (0x1b :: byte)"
      by (rule arg_cong)
    then have "of_char c = (27 :: nat)"
      using Cons.prems(1) by (simp add: unat_of_nat take_bit_nat_eq_self_iff)
    then have "char_of (of_char c :: nat) = (char_of (27 :: nat) :: char)"
      by (rule arg_cong)
    moreover have "char_of (27 :: nat) = CHR 0x1B"
      by code_simp
    ultimately show ?thesis by simp
  next
    case False
    with Cons show ?thesis by (simp add: bytes_of_string_def)
  qed
qed (simp add: bytes_of_string_def)

theorem Encode_Decode_roundtrip_witness:
  "DecodeEUCKRContext ascii_decode noContext (map (\<lambda>c. word_of_nat (of_char c)) ''look'') = Inr ''look''"
proof (rule Encode_Decode_roundtrip [where encode = ascii_encode and ctx = noContext])
  show "EncodeEUCKRContext ascii_encode noContext ''look'' = Inr (map (\<lambda>c. word_of_nat (of_char c)) ''look'')"
    by code_simp
  show "65533 \<notin> set (runes ''look'')"
    by code_simp
next
  fix t c
  assume e: "ascii_encode t = Inr c"
  then show "ascii_decode c = Inr t" "cp949 c"
    by (auto simp: ascii_encode_def ascii_decode_def string_bytes cp949_ascii_bytes split: if_splits)
  assume "0x1b \<in> set c"
  with e show "CHR 0x1B \<in> set t"
    by (auto simp: ascii_encode_def ascii_escape split: if_splits)
qed simp

end
