(* ===== verification/Records.thy ===== *)
theory Records
  imports LegacyText
begin

text \<open>
  The binary records of the C server (\<^verbatim>\<open>internal/persist/cbin/record.go\<close>): structures of a fixed size with
  little-endian integers and NUL-padded texts at fixed offsets, decoded at their width.
\<close>

definition ObjectSize :: nat where "ObjectSize = 352"
definition CreatureSize :: nat where "CreatureSize = 1184"
definition RoomSize :: nat where "RoomSize = 480"
definition ExitSize :: nat where "ExitSize = 44"
definition DailySize :: nat where "DailySize = 8"
definition LasttimeSize :: nat where "LasttimeSize = 12"
definition BoardIndexSize :: nat where "BoardIndexSize = 256"

lemmas record_sizes = ObjectSize_def CreatureSize_def RoomSize_def ExitSize_def DailySize_def LasttimeSize_def
  BoardIndexSize_def

record TextField =
  TF_Raw :: "byte list"
  TF_Text :: string
  TF_Err :: "ConversionError option"

record ObjectRecord =
  OR_Raw :: "byte list"
  OR_Name :: TextField
  OR_Description :: TextField
  OR_Keys :: "TextField list"
  OR_UseOutput :: TextField
  OR_Value :: "32 word"
  OR_Weight :: "16 word"
  OR_Type :: "8 word"
  OR_Adjustment :: "8 word"
  OR_ShotsMax :: "16 word"
  OR_ShotsCurrent :: "16 word"
  OR_NDice :: "16 word"
  OR_SDice :: "16 word"
  OR_PDice :: "16 word"
  OR_Armor :: "8 word"
  OR_WearFlag :: "8 word"
  OR_MagicPower :: "8 word"
  OR_MagicRealm :: "8 word"
  OR_Special :: "16 word"
  OR_Flags :: "byte list"
  OR_QuestNumber :: "8 word"

record DailyRecord =
  DR_Max :: byte
  DR_Cur :: byte
  DR_LTime :: "32 word"

record LasttimeRecord =
  LR_Interval :: "32 word"
  LR_LTime :: "32 word"
  LR_Misc :: "16 word"

record CreatureRecord =
  CR_Raw :: "byte list"
  CR_Name :: TextField
  CR_Description :: TextField
  CR_Talk :: TextField
  CR_Password :: TextField
  CR_Keys :: "TextField list"
  CR_Spells :: "byte list"
  CR_Flags :: "byte list"
  CR_Carry :: "16 word list"
  CR_Daily :: "DailyRecord list"

record RoomRecord =
  RR_Number :: "16 word"
  RR_Name :: TextField
  RR_LoLevel :: byte
  RR_HiLevel :: byte
  RR_Special :: "16 word"
  RR_Trap :: byte
  RR_TrapExit :: "16 word"
  RR_Track :: TextField
  RR_Flags :: "byte list"
  RR_Random :: "16 word list"
  RR_Traffic :: byte
  RR_PermMon :: "LasttimeRecord list"
  RR_PermObj :: "LasttimeRecord list"
  RR_BeenHere :: "32 word"
  RR_Established :: "32 word"
  RR_ShortDescription :: TextField
  RR_LongDescription :: TextField
  RR_ObjectDescription :: TextField

record ExitRecord =
  ER_Name :: TextField
  ER_Room :: "16 word"
  ER_Flags :: "byte list"
  ER_LTime :: LasttimeRecord
  ER_Key :: byte

record BoardIndexRecord =
  BR_Number :: "32 word"
  BR_Uploader :: TextField
  BR_Year :: "32 word"
  BR_Month :: "32 word"
  BR_Day :: "32 word"
  BR_Hour :: "32 word"
  BR_Minute :: "32 word"
  BR_Second :: "32 word"
  BR_Line :: "32 word"
  BR_ReadCount :: "32 word"
  BR_Title :: TextField

subsection \<open>Reading at an offset\<close>

text \<open>A slice \<^verbatim>\<open>data[off : off+size]\<close>; the lemmas on sizes below show that none is out of range.\<close>

definition slice :: "byte list \<Rightarrow> nat \<Rightarrow> nat \<Rightarrow> byte list" where
  "slice data off sz = take sz (drop off data)"

unbundle bit_operations_syntax

definition readInt32At :: "byte list \<Rightarrow> nat \<Rightarrow> 32 word" where
  "readInt32At data off =
     ucast (data ! off) OR push_bit 8 (ucast (data ! (off + 1))) OR push_bit 16 (ucast (data ! (off + 2)))
      OR push_bit 24 (ucast (data ! (off + 3)))"

definition readInt16At :: "byte list \<Rightarrow> nat \<Rightarrow> 16 word" where
  "readInt16At data off = ucast (data ! off) OR push_bit 8 (ucast (data ! (off + 1)))"

definition requireRecordSize :: "string \<Rightarrow> byte list \<Rightarrow> nat \<Rightarrow> go_error option" where
  "requireRecordSize name data sz =
     (if length data < sz
      then Some (Errorf ''%s record: need %d bytes, got %d'' [name, itoa (int sz), itoa (int (length data))])
      else None)"

definition decodeCString :: "decoder \<Rightarrow> byte list \<Rightarrow> nat \<Rightarrow> nat \<Rightarrow> string \<Rightarrow> TextField" where
  "decodeCString euckr data off sz field =
     (let raw = TrimCString (slice data off sz)
      in case DecodeCStringEUCKRContext euckr \<lparr>LC_Path = [], LC_Field = field\<rparr> raw of
           Inl err \<Rightarrow> \<lparr>TF_Raw = raw, TF_Text = [], TF_Err = Some err\<rparr>
         | Inr text \<Rightarrow> \<lparr>TF_Raw = raw, TF_Text = text, TF_Err = None\<rparr>)"

text \<open>The name of an element of an array of fields.\<close>

definition indexed :: "string \<Rightarrow> nat \<Rightarrow> string" where
  "indexed field i = field @ ''['' @ itoa (int i) @ '']''"

subsection \<open>Offsets\<close>

definition objectNameOff :: nat where "objectNameOff = 0"
definition objectDescriptionOff :: nat where "objectDescriptionOff = 80"
definition objectKeyOff :: nat where "objectKeyOff = 160"
definition objectUseOutputOff :: nat where "objectUseOutputOff = 220"
definition objectValueOff :: nat where "objectValueOff = 300"
definition objectWeightOff :: nat where "objectWeightOff = 304"
definition objectTypeOff :: nat where "objectTypeOff = 306"
definition objectAdjustmentOff :: nat where "objectAdjustmentOff = 307"
definition objectShotsMaxOff :: nat where "objectShotsMaxOff = 308"
definition objectShotsCurrentOff :: nat where "objectShotsCurrentOff = 310"
definition objectNDiceOff :: nat where "objectNDiceOff = 312"
definition objectSDiceOff :: nat where "objectSDiceOff = 314"
definition objectPDiceOff :: nat where "objectPDiceOff = 316"
definition objectArmorOff :: nat where "objectArmorOff = 318"
definition objectWearFlagOff :: nat where "objectWearFlagOff = 319"
definition objectMagicPowerOff :: nat where "objectMagicPowerOff = 320"
definition objectMagicRealmOff :: nat where "objectMagicRealmOff = 321"
definition objectSpecialOff :: nat where "objectSpecialOff = 322"
definition objectFlagsOff :: nat where "objectFlagsOff = 324"
definition objectQuestNumberOff :: nat where "objectQuestNumberOff = 332"
definition creatureNameOff :: nat where "creatureNameOff = 0"
definition creatureDescriptionOff :: nat where "creatureDescriptionOff = 80"
definition creatureTalkOff :: nat where "creatureTalkOff = 160"
definition creaturePasswordOff :: nat where "creaturePasswordOff = 240"
definition creatureKeyOff :: nat where "creatureKeyOff = 255"
definition creatureSpellsOff :: nat where "creatureSpellsOff = 396"
definition creatureFlagsOff :: nat where "creatureFlagsOff = 412"
definition creatureCarryOff :: nat where "creatureCarryOff = 438"
definition creatureDailyOff :: nat where "creatureDailyOff = 540"
definition dailyMaxOff :: nat where "dailyMaxOff = 0"
definition dailyCurOff :: nat where "dailyCurOff = 1"
definition dailyLTimeOff :: nat where "dailyLTimeOff = 4"
definition roomNumberOff :: nat where "roomNumberOff = 0"
definition roomNameOff :: nat where "roomNameOff = 2"
definition roomLoLevelOff :: nat where "roomLoLevelOff = 96"
definition roomHiLevelOff :: nat where "roomHiLevelOff = 97"
definition roomSpecialOff :: nat where "roomSpecialOff = 98"
definition roomTrapOff :: nat where "roomTrapOff = 100"
definition roomTrapExitOff :: nat where "roomTrapExitOff = 102"
definition roomTrackOff :: nat where "roomTrackOff = 104"
definition roomFlagsOff :: nat where "roomFlagsOff = 184"
definition roomRandomOff :: nat where "roomRandomOff = 192"
definition roomTrafficOff :: nat where "roomTrafficOff = 212"
definition roomPermMonOff :: nat where "roomPermMonOff = 216"
definition roomPermObjOff :: nat where "roomPermObjOff = 336"
definition roomBeenHereOff :: nat where "roomBeenHereOff = 456"
definition roomEstablishedOff :: nat where "roomEstablishedOff = 460"
definition lasttimeIntervalOff :: nat where "lasttimeIntervalOff = 0"
definition lasttimeLTimeOff :: nat where "lasttimeLTimeOff = 4"
definition lasttimeMiscOff :: nat where "lasttimeMiscOff = 8"
definition exitNameOff :: nat where "exitNameOff = 0"
definition exitRoomOff :: nat where "exitRoomOff = 20"
definition exitFlagsOff :: nat where "exitFlagsOff = 22"
definition exitLTimeOff :: nat where "exitLTimeOff = 28"
definition exitKeyOff :: nat where "exitKeyOff = 40"
definition boardNumberOff :: nat where "boardNumberOff = 0"
definition boardUploaderOff :: nat where "boardUploaderOff = 4"
definition boardYearOff :: nat where "boardYearOff = 20"
definition boardMonthOff :: nat where "boardMonthOff = 24"
definition boardDayOff :: nat where "boardDayOff = 28"
definition boardHourOff :: nat where "boardHourOff = 32"
definition boardMinuteOff :: nat where "boardMinuteOff = 36"
definition boardSecondOff :: nat where "boardSecondOff = 40"
definition boardLineOff :: nat where "boardLineOff = 44"
definition boardReadCountOff :: nat where "boardReadCountOff = 48"
definition boardTitleOff :: nat where "boardTitleOff = 52"
definition cString80 :: nat where "cString80 = 80"
definition cString40 :: nat where "cString40 = 40"
definition cString20 :: nat where "cString20 = 20"
definition cString16 :: nat where "cString16 = 16"
definition cString15 :: nat where "cString15 = 15"

lemmas offsets = objectNameOff_def objectDescriptionOff_def objectKeyOff_def objectUseOutputOff_def
  objectValueOff_def objectWeightOff_def objectTypeOff_def objectAdjustmentOff_def objectShotsMaxOff_def
  objectShotsCurrentOff_def objectNDiceOff_def objectSDiceOff_def objectPDiceOff_def objectArmorOff_def
  objectWearFlagOff_def objectMagicPowerOff_def objectMagicRealmOff_def objectSpecialOff_def
  objectFlagsOff_def objectQuestNumberOff_def creatureNameOff_def creatureDescriptionOff_def
  creatureTalkOff_def creaturePasswordOff_def creatureKeyOff_def creatureSpellsOff_def creatureFlagsOff_def
  creatureCarryOff_def creatureDailyOff_def dailyMaxOff_def dailyCurOff_def dailyLTimeOff_def
  roomNumberOff_def roomNameOff_def roomLoLevelOff_def roomHiLevelOff_def roomSpecialOff_def roomTrapOff_def
  roomTrapExitOff_def roomTrackOff_def roomFlagsOff_def roomRandomOff_def roomTrafficOff_def
  roomPermMonOff_def roomPermObjOff_def roomBeenHereOff_def roomEstablishedOff_def lasttimeIntervalOff_def
  lasttimeLTimeOff_def lasttimeMiscOff_def exitNameOff_def exitRoomOff_def exitFlagsOff_def exitLTimeOff_def
  exitKeyOff_def boardNumberOff_def boardUploaderOff_def boardYearOff_def boardMonthOff_def boardDayOff_def
  boardHourOff_def boardMinuteOff_def boardSecondOff_def boardLineOff_def boardReadCountOff_def
  boardTitleOff_def cString80_def cString40_def cString20_def cString16_def cString15_def

subsection \<open>Records\<close>

text \<open>The three keys of an object or a creature.\<close>

definition read_keys :: "decoder \<Rightarrow> byte list \<Rightarrow> nat \<Rightarrow> string \<Rightarrow> TextField list" where
  "read_keys euckr data off field =
     map (\<lambda>i. decodeCString euckr data (off + i * cString20) cString20 (indexed field i)) [0..<3]"

definition DecodeObjectRecord :: "decoder \<Rightarrow> byte list \<Rightarrow> ObjectRecord result" where
  "DecodeObjectRecord euckr data =
     (case requireRecordSize ''object'' data ObjectSize of
        Some err \<Rightarrow> Inl err
      | None \<Rightarrow> Inr
          \<lparr>OR_Raw = slice data 0 ObjectSize,
           OR_Name = decodeCString euckr data objectNameOff cString80 ''object.name'',
           OR_Description = decodeCString euckr data objectDescriptionOff cString80 ''object.description'',
           OR_Keys = read_keys euckr data objectKeyOff ''object.key'',
           OR_UseOutput = decodeCString euckr data objectUseOutputOff cString80 ''object.use_output'',
           OR_Value = readInt32At data objectValueOff,
           OR_Weight = readInt16At data objectWeightOff,
           OR_Type = data ! objectTypeOff,
           OR_Adjustment = data ! objectAdjustmentOff,
           OR_ShotsMax = readInt16At data objectShotsMaxOff,
           OR_ShotsCurrent = readInt16At data objectShotsCurrentOff,
           OR_NDice = readInt16At data objectNDiceOff,
           OR_SDice = readInt16At data objectSDiceOff,
           OR_PDice = readInt16At data objectPDiceOff,
           OR_Armor = data ! objectArmorOff,
           OR_WearFlag = data ! objectWearFlagOff,
           OR_MagicPower = data ! objectMagicPowerOff,
           OR_MagicRealm = data ! objectMagicRealmOff,
           OR_Special = readInt16At data objectSpecialOff,
           OR_Flags = slice data objectFlagsOff 8,
           OR_QuestNumber = data ! objectQuestNumberOff\<rparr>)"

definition readDailyAt :: "byte list \<Rightarrow> nat \<Rightarrow> DailyRecord" where
  "readDailyAt data off =
     \<lparr>DR_Max = data ! (off + dailyMaxOff), DR_Cur = data ! (off + dailyCurOff), DR_LTime = readInt32At data (off + dailyLTimeOff)\<rparr>"

definition DecodeCreatureRecord :: "decoder \<Rightarrow> byte list \<Rightarrow> CreatureRecord result" where
  "DecodeCreatureRecord euckr data =
     (case requireRecordSize ''creature'' data CreatureSize of
        Some err \<Rightarrow> Inl err
      | None \<Rightarrow> Inr
          \<lparr>CR_Raw = slice data 0 CreatureSize,
           CR_Name = decodeCString euckr data creatureNameOff cString80 ''creature.name'',
           CR_Description = decodeCString euckr data creatureDescriptionOff cString80 ''creature.description'',
           CR_Talk = decodeCString euckr data creatureTalkOff cString80 ''creature.talk'',
           CR_Password = decodeCString euckr data creaturePasswordOff cString15 ''creature.password'',
           CR_Keys = read_keys euckr data creatureKeyOff ''creature.key'',
           CR_Spells = slice data creatureSpellsOff 16,
           CR_Flags = slice data creatureFlagsOff 8,
           CR_Carry = map (\<lambda>i. readInt16At data (creatureCarryOff + i * 2)) [0..<10],
           CR_Daily = map (\<lambda>i. readDailyAt data (creatureDailyOff + i * DailySize)) [0..<10]\<rparr>)"

definition readLasttimeAt :: "byte list \<Rightarrow> nat \<Rightarrow> LasttimeRecord" where
  "readLasttimeAt data off =
     \<lparr>LR_Interval = readInt32At data (off + lasttimeIntervalOff), LR_LTime = readInt32At data (off + lasttimeLTimeOff),
      LR_Misc = readInt16At data (off + lasttimeMiscOff)\<rparr>"

definition noText :: TextField where
  "noText = \<lparr>TF_Raw = [], TF_Text = [], TF_Err = None\<rparr>"

definition DecodeRoomRecord :: "decoder \<Rightarrow> byte list \<Rightarrow> RoomRecord result" where
  "DecodeRoomRecord euckr data =
     (case requireRecordSize ''room'' data RoomSize of
        Some err \<Rightarrow> Inl err
      | None \<Rightarrow> Inr
          \<lparr>RR_Number = readInt16At data roomNumberOff,
           RR_Name = decodeCString euckr data roomNameOff cString80 ''room.name'',
           RR_LoLevel = data ! roomLoLevelOff,
           RR_HiLevel = data ! roomHiLevelOff,
           RR_Special = readInt16At data roomSpecialOff,
           RR_Trap = data ! roomTrapOff,
           RR_TrapExit = readInt16At data roomTrapExitOff,
           RR_Track = decodeCString euckr data roomTrackOff cString80 ''room.track'',
           RR_Flags = slice data roomFlagsOff 8,
           RR_Random = map (\<lambda>i. readInt16At data (roomRandomOff + i * 2)) [0..<10],
           RR_Traffic = data ! roomTrafficOff,
           RR_PermMon = map (\<lambda>i. readLasttimeAt data (roomPermMonOff + i * LasttimeSize)) [0..<10],
           RR_PermObj = map (\<lambda>i. readLasttimeAt data (roomPermObjOff + i * LasttimeSize)) [0..<10],
           RR_BeenHere = readInt32At data roomBeenHereOff,
           RR_Established = readInt32At data roomEstablishedOff,
           RR_ShortDescription = noText, RR_LongDescription = noText, RR_ObjectDescription = noText\<rparr>)"

definition DecodeExitRecord :: "decoder \<Rightarrow> byte list \<Rightarrow> ExitRecord result" where
  "DecodeExitRecord euckr data =
     (case requireRecordSize ''exit'' data ExitSize of
        Some err \<Rightarrow> Inl err
      | None \<Rightarrow> Inr
          \<lparr>ER_Name = decodeCString euckr data exitNameOff cString20 ''exit.name'',
           ER_Room = readInt16At data exitRoomOff,
           ER_Flags = slice data exitFlagsOff 4,
           ER_LTime = readLasttimeAt data exitLTimeOff,
           ER_Key = data ! exitKeyOff\<rparr>)"

definition DecodeBoardIndexRecord :: "decoder \<Rightarrow> byte list \<Rightarrow> BoardIndexRecord result" where
  "DecodeBoardIndexRecord euckr data =
     (case requireRecordSize ''board index'' data BoardIndexSize of
        Some err \<Rightarrow> Inl err
      | None \<Rightarrow> Inr
          \<lparr>BR_Number = readInt32At data boardNumberOff,
           BR_Uploader = decodeCString euckr data boardUploaderOff cString16 ''board_index.upload'',
           BR_Year = readInt32At data boardYearOff,
           BR_Month = readInt32At data boardMonthOff,
           BR_Day = readInt32At data boardDayOff,
           BR_Hour = readInt32At data boardHourOff,
           BR_Minute = readInt32At data boardMinuteOff,
           BR_Second = readInt32At data boardSecondOff,
           BR_Line = readInt32At data boardLineOff,
           BR_ReadCount = readInt32At data boardReadCountOff,
           BR_Title = decodeCString euckr data boardTitleOff cString40 ''board_index.title''\<rparr>)"

subsection \<open>Files of records\<close>

definition whole_records :: "string \<Rightarrow> nat \<Rightarrow> byte list \<Rightarrow> nat result" where
  "whole_records name sz data =
     (if length data mod sz \<noteq> 0
      then Inl (Errorf (''size %d is not a multiple of '' @ name @ '' record size %d'') [itoa (int (length data)), itoa (int sz)])
      else Inr (length data div sz))"

definition ValidateObjectPrototypeFile :: "byte list \<Rightarrow> nat result" where
  "ValidateObjectPrototypeFile data = whole_records ''object'' ObjectSize data"

definition ValidateCreaturePrototypeFile :: "byte list \<Rightarrow> nat result" where
  "ValidateCreaturePrototypeFile data = whole_records ''creature'' CreatureSize data"

definition ValidateBoardIndexFile :: "byte list \<Rightarrow> nat result" where
  "ValidateBoardIndexFile data = whole_records ''board index'' BoardIndexSize data"

text \<open>The loop over the records; \<open>i\<close> is the index of the first.\<close>

fun read_records :: "string \<Rightarrow> (byte list \<Rightarrow> 'a result) \<Rightarrow> nat \<Rightarrow> byte list \<Rightarrow> nat \<Rightarrow> nat \<Rightarrow> 'a list result" where
  "read_records fmt decode sz data i 0 = Inr []"
| "read_records fmt decode sz data i (Suc n) =
     (case decode (drop (i * sz) data) of
        Inl err \<Rightarrow> Inl (Wrapf fmt [itoa (int i)] err)
      | Inr rec \<Rightarrow> map_sum id ((#) rec) (read_records fmt decode sz data (i + 1) n))"

definition DecodeObjectRecords :: "decoder \<Rightarrow> byte list \<Rightarrow> ObjectRecord list result" where
  "DecodeObjectRecords euckr data =
     (case ValidateObjectPrototypeFile data of
        Inl err \<Rightarrow> Inl err
      | Inr count \<Rightarrow> read_records ''object record %d: %w'' (DecodeObjectRecord euckr) ObjectSize data 0 count)"

definition DecodeCreatureRecords :: "decoder \<Rightarrow> byte list \<Rightarrow> CreatureRecord list result" where
  "DecodeCreatureRecords euckr data =
     (case ValidateCreaturePrototypeFile data of
        Inl err \<Rightarrow> Inl err
      | Inr count \<Rightarrow> read_records ''creature record %d: %w'' (DecodeCreatureRecord euckr) CreatureSize data 0 count)"

definition DecodeBoardIndexRecords :: "decoder \<Rightarrow> byte list \<Rightarrow> BoardIndexRecord list result" where
  "DecodeBoardIndexRecords euckr data =
     (case ValidateBoardIndexFile data of
        Inl err \<Rightarrow> Inl err
      | Inr count \<Rightarrow> read_records ''board index record %d: %w'' (DecodeBoardIndexRecord euckr) BoardIndexSize data 0 count)"

subsection \<open>Records that were written\<close>

text \<open>The layout the C server writes: a record is the sequence of its fields and of padding.\<close>

definition le8 :: "byte \<Rightarrow> byte list" where
  "le8 w = [w]"

definition le16 :: "16 word \<Rightarrow> byte list" where
  "le16 w = [ucast w, ucast (drop_bit 8 w)]"

definition le32 :: "32 word \<Rightarrow> byte list" where
  "le32 w = [ucast w, ucast (drop_bit 8 w), ucast (drop_bit 16 w), ucast (drop_bit 24 w)]"

lemma length_le [simp]: "length (le8 u) = 1" "length (le16 w) = 2" "length (le32 v) = 4"
  by (simp_all add: le8_def le16_def le32_def)

lemma join16: "ucast (ucast w :: byte) OR push_bit 8 (ucast (ucast (drop_bit 8 w) :: byte)) = (w :: 16 word)"
  by (rule bit_word_eqI) (auto simp: bit_simps)

lemma join32:
  "ucast (ucast w :: byte) OR push_bit 8 (ucast (ucast (drop_bit 8 w) :: byte))
     OR push_bit 16 (ucast (ucast (drop_bit 16 w) :: byte)) OR push_bit 24 (ucast (ucast (drop_bit 24 w) :: byte)) = (w :: 32 word)"
proof (rule bit_word_eqI)
  fix n assume "n < LENGTH(32)"
  then show "bit (ucast (ucast w :: byte) OR push_bit 8 (ucast (ucast (drop_bit 8 w) :: byte))
     OR push_bit 16 (ucast (ucast (drop_bit 16 w) :: byte)) OR push_bit 24 (ucast (ucast (drop_bit 24 w) :: byte)) :: 32 word) n
    = bit w n"
    by (cases "n < 8"; cases "n < 16"; cases "n < 24") (auto simp: bit_simps)
qed

text \<open>What a reader at an offset sees of a sequence of fields.\<close>

named_theorems at_offset

lemma readInt16_here [at_offset]: "readInt16At (le16 w @ rest) 0 = w"
  by (simp add: readInt16At_def le16_def join16)

lemma readInt32_here [at_offset]: "readInt32At (le32 w @ rest) 0 = w"
  by (simp add: readInt32At_def le32_def join32 numeral_2_eq_2 numeral_3_eq_3)

lemma readInt16_later [at_offset]: "length f \<le> off \<Longrightarrow> readInt16At (f @ rest) off = readInt16At rest (off - length f)"
  by (simp add: readInt16At_def nth_append Suc_diff_le)

lemma readInt32_later [at_offset]: "length f \<le> off \<Longrightarrow> readInt32At (f @ rest) off = readInt32At rest (off - length f)"
  by (simp add: readInt32At_def nth_append Suc_diff_le)

lemma nth_later [at_offset]: "length f \<le> off \<Longrightarrow> (f @ rest) ! off = rest ! (off - length f)"
  by (simp add: nth_append)

lemma slice_here [at_offset]: "length f = n \<Longrightarrow> slice (f @ rest) 0 n = f"
  by (simp add: slice_def)

lemma slice_later [at_offset]: "length f \<le> off \<Longrightarrow> slice (f @ rest) off n = slice rest (off - length f) n"
  by (simp add: slice_def)

lemma nth_here [at_offset]: "(le8 w @ rest) ! 0 = w"
  by (simp add: le8_def)

definition padded :: "nat \<Rightarrow> TextField \<Rightarrow> byte list" where
  "padded n t = TF_Raw t @ replicate (n - length (TF_Raw t)) 0"

text \<open>A text as it is read from its bytes, which hold no NUL and fit the field.\<close>

definition text_ok :: "decoder \<Rightarrow> string \<Rightarrow> nat \<Rightarrow> TextField \<Rightarrow> bool" where
  "text_ok euckr field n t \<longleftrightarrow>
     0 \<notin> set (TF_Raw t) \<and> length (TF_Raw t) \<le> n
     \<and> (case DecodeEUCKRContext euckr \<lparr>LC_Path = [], LC_Field = field\<rparr> (TF_Raw t) of
          Inl err \<Rightarrow> TF_Text t = [] \<and> TF_Err t = Some err
        | Inr text \<Rightarrow> TF_Text t = text \<and> TF_Err t = None)"

lemma length_padded: "length (TF_Raw t) \<le> n \<Longrightarrow> length (padded n t) = n"
  by (simp add: padded_def)

lemma text_ok_length [at_offset]: "text_ok euckr field n t \<Longrightarrow> length (padded n t) = n"
  by (simp add: text_ok_def length_padded)

lemma TrimCString_plain: "0 \<notin> set raw \<Longrightarrow> TrimCString raw = raw"
  by (simp add: TrimCString_def takeWhile_eq_all_conv) blast

lemma TrimCString_padded: "0 \<notin> set (TF_Raw t) \<Longrightarrow> TrimCString (padded n t) = TF_Raw t"
  unfolding TrimCString_def padded_def by (subst takeWhile_append2) (auto simp: takeWhile_replicate)

lemma decodeCString_here [at_offset]:
  assumes "text_ok euckr field n t"
  shows "decodeCString euckr (padded n t @ rest) 0 n field = t"
proof -
  have raw: "0 \<notin> set (TF_Raw t)"
    using assms by (simp add: text_ok_def)
  have "slice (padded n t @ rest) 0 n = padded n t"
    using text_ok_length [OF assms] by (simp add: slice_here)
  then have "decodeCString euckr (padded n t @ rest) 0 n field =
      (case DecodeEUCKRContext euckr \<lparr>LC_Path = [], LC_Field = field\<rparr> (TF_Raw t) of
         Inl err \<Rightarrow> \<lparr>TF_Raw = TF_Raw t, TF_Text = [], TF_Err = Some err\<rparr>
       | Inr text \<Rightarrow> \<lparr>TF_Raw = TF_Raw t, TF_Text = text, TF_Err = None\<rparr>)"
    by (simp add: decodeCString_def DecodeCStringEUCKRContext_def TrimCString_padded [OF raw] TrimCString_plain [OF raw] Let_def)
  also have "\<dots> = t"
    using assms by (cases t) (auto simp: text_ok_def split: sum.splits)
  finally show ?thesis .
qed

lemma decodeCString_later [at_offset]:
  "length f \<le> off \<Longrightarrow> decodeCString euckr (f @ rest) off n field = decodeCString euckr rest (off - length f) n field"
  by (simp add: decodeCString_def slice_later)

lemma readDaily_later [at_offset]: "length f \<le> off \<Longrightarrow> readDailyAt (f @ rest) off = readDailyAt rest (off - length f)"
  by (simp add: readDailyAt_def nth_later readInt32_later offsets Suc_diff_le)

lemma readLasttime_later [at_offset]:
  "length f \<le> off \<Longrightarrow> readLasttimeAt (f @ rest) off = readLasttimeAt rest (off - length f)"
  by (simp add: readLasttimeAt_def readInt16_later readInt32_later offsets)

definition print_daily :: "byte list \<Rightarrow> DailyRecord \<Rightarrow> byte list" where
  "print_daily gap d = le8 (DR_Max d) @ le8 (DR_Cur d) @ gap @ le32 (DR_LTime d)"

definition print_lasttime :: "byte list \<Rightarrow> LasttimeRecord \<Rightarrow> byte list" where
  "print_lasttime gap l = le32 (LR_Interval l) @ le32 (LR_LTime l) @ le16 (LR_Misc l) @ gap"

lemma length_print [simp]:
  "length gap = 2 \<Longrightarrow> length (print_daily gap d) = 8" "length gap = 2 \<Longrightarrow> length (print_lasttime gap l) = 12"
  by (simp_all add: print_daily_def print_lasttime_def)

lemma readDaily_here [at_offset]: "length gap = 2 \<Longrightarrow> readDailyAt (print_daily gap d @ rest) 0 = d"
  by (simp add: readDailyAt_def print_daily_def offsets at_offset)

lemma readLasttime_here [at_offset]: "length gap = 2 \<Longrightarrow> readLasttimeAt (print_lasttime gap l @ rest) 0 = l"
  by (simp add: readLasttimeAt_def print_lasttime_def offsets at_offset)

text \<open>Arrays: a reader at the offsets of the elements sees the elements.\<close>

lemma read_array:
  assumes here: "\<And>x rest. read (print x @ rest) 0 = x" and later: "\<And>f rest off. length f \<le> off \<Longrightarrow> read (f @ rest) off = read rest (off - length f)"
    and width: "\<And>x. length (print x) = width"
  shows "i < length xs \<Longrightarrow> read (concat (map print xs) @ rest) (i * width) = xs ! i"
proof (induction xs arbitrary: i)
  case (Cons x xs)
  show ?case
  proof (cases i)
    case 0
    then show ?thesis by (simp add: here)
  next
    case (Suc j)
    then have "read (print x @ concat (map print xs) @ rest) (i * width) = read (concat (map print xs) @ rest) (j * width)"
      by (subst later) (simp_all add: width)
    with Suc Cons show ?thesis by simp
  qed
qed simp

lemma read_array_map:
  assumes "\<And>x rest. read (print x @ rest) 0 = x" and "\<And>f rest off. length f \<le> off \<Longrightarrow> read (f @ rest) off = read rest (off - length f)"
    and "\<And>x. length (print x) = width" and "length xs = n"
  shows "map (\<lambda>i. read (concat (map print xs) @ rest) (i * width)) [0..<n] = xs"
  using assms(4) read_array [where read = read and print = print and width = width, OF assms(1-3)]
  by (intro nth_equalityI) simp_all

lemma read_later_map:
  assumes "\<And>f rest off. length f \<le> off \<Longrightarrow> read (f @ rest) off = read rest (off - length f)" and "length f \<le> off"
  shows "map (\<lambda>i. read (f @ rest) (off + i * w)) [0..<n] = map (\<lambda>i. read rest (off - length f + i * w)) [0..<n]"
  by (intro map_cong refl) (subst assms(1); use assms(2) in simp)

definition print_object :: "byte list \<Rightarrow> ObjectRecord \<Rightarrow> byte list" where
  "print_object gap r =
     padded 80 (OR_Name r) @ padded 80 (OR_Description r)
      @ padded 20 (OR_Keys r ! 0) @ padded 20 (OR_Keys r ! 1) @ padded 20 (OR_Keys r ! 2) @ padded 80 (OR_UseOutput r)
      @ le32 (OR_Value r) @ le16 (OR_Weight r) @ le8 (OR_Type r) @ le8 (OR_Adjustment r) @ le16 (OR_ShotsMax r)
      @ le16 (OR_ShotsCurrent r) @ le16 (OR_NDice r) @ le16 (OR_SDice r) @ le16 (OR_PDice r) @ le8 (OR_Armor r)
      @ le8 (OR_WearFlag r) @ le8 (OR_MagicPower r) @ le8 (OR_MagicRealm r) @ le16 (OR_Special r) @ OR_Flags r
      @ le8 (OR_QuestNumber r) @ gap"

definition keys_ok :: "decoder \<Rightarrow> string \<Rightarrow> TextField list \<Rightarrow> bool" where
  "keys_ok euckr field ks \<longleftrightarrow> length ks = 3 \<and> (\<forall>i < 3. text_ok euckr (indexed field i) 20 (ks ! i))"

lemma keys_okD:
  assumes "keys_ok euckr field ks"
  shows "length ks = 3" "text_ok euckr (indexed field 0) 20 (ks ! 0)" "text_ok euckr (indexed field (Suc 0)) 20 (ks ! Suc 0)"
    "text_ok euckr (indexed field 2) 20 (ks ! 2)" "[ks ! 0, ks ! Suc 0, ks ! 2] = ks"
proof -
  show l: "length ks = 3"
    using assms by (simp add: keys_ok_def)
  show "text_ok euckr (indexed field 0) 20 (ks ! 0)" "text_ok euckr (indexed field (Suc 0)) 20 (ks ! Suc 0)"
    "text_ok euckr (indexed field 2) 20 (ks ! 2)"
    using assms by (simp_all add: keys_ok_def)
  show "[ks ! 0, ks ! Suc 0, ks ! 2] = ks"
    using l by (auto simp: length_Suc_conv numeral_3_eq_3)
qed

lemma read_keys_three:
  "read_keys euckr data off field =
     [decodeCString euckr data off 20 (indexed field 0), decodeCString euckr data (off + 20) 20 (indexed field (Suc 0)),
      decodeCString euckr data (off + 40) 20 (indexed field 2)]"
  by (simp add: read_keys_def upt_rec cString20_def numeral_2_eq_2)

definition object_ok :: "decoder \<Rightarrow> byte list \<Rightarrow> ObjectRecord \<Rightarrow> bool" where
  "object_ok euckr gap r \<longleftrightarrow>
     text_ok euckr ''object.name'' 80 (OR_Name r) \<and> text_ok euckr ''object.description'' 80 (OR_Description r)
     \<and> keys_ok euckr ''object.key'' (OR_Keys r) \<and> text_ok euckr ''object.use_output'' 80 (OR_UseOutput r)
     \<and> length (OR_Flags r) = 8 \<and> length gap = 19 \<and> OR_Raw r = print_object gap r"

lemma object_ok_lengths:
  assumes "object_ok euckr gap r"
  shows "length (padded 80 (OR_Name r)) = 80" "length (padded 80 (OR_Description r)) = 80"
    "length (padded 20 (OR_Keys r ! 0)) = 20" "length (padded 20 (OR_Keys r ! Suc 0)) = 20" "length (padded 20 (OR_Keys r ! 2)) = 20"
    "length (padded 80 (OR_UseOutput r)) = 80" "length (OR_Flags r) = 8" "length gap = 19"
proof -
  have keys: "keys_ok euckr ''object.key'' (OR_Keys r)"
    using assms by (simp add: object_ok_def)
  note k = keys_okD [OF keys]
  show "length (padded 20 (OR_Keys r ! 0)) = 20" "length (padded 20 (OR_Keys r ! Suc 0)) = 20" "length (padded 20 (OR_Keys r ! 2)) = 20"
    by (fact k(2-4) [THEN text_ok_length])+
qed (use assms in \<open>auto simp: object_ok_def intro: text_ok_length\<close>)

lemma length_print_object: "object_ok euckr gap r \<Longrightarrow> length (print_object gap r) = 352"
  by (simp add: print_object_def object_ok_lengths)

lemma Object_record_roundtrip:
  assumes "object_ok euckr gap r"
  shows "DecodeObjectRecord euckr (print_object gap r @ rest) = Inr r"
proof -
  have ok: "text_ok euckr ''object.name'' 80 (OR_Name r)" "text_ok euckr ''object.description'' 80 (OR_Description r)"
    "text_ok euckr ''object.use_output'' 80 (OR_UseOutput r)" "length (OR_Flags r) = 8" "length gap = 19"
    "OR_Raw r = print_object gap r" and keys: "keys_ok euckr ''object.key'' (OR_Keys r)"
    using assms by (simp_all add: object_ok_def)
  note k = keys_okD [OF keys]
  note lens = object_ok_lengths [OF assms]
  have l: "length (print_object gap r) = 352"
    by (rule length_print_object [OF assms])
  then have raw: "slice (print_object gap r @ rest) 0 352 = print_object gap r"
    by (simp add: slice_here)
  show ?thesis
    using raw l ok(6) k(5)
    unfolding DecodeObjectRecord_def requireRecordSize_def read_keys_three offsets record_sizes
    by (simp add: print_object_def lens ok(1-3) k(2-4) at_offset)
qed

definition print_exit :: "byte list \<Rightarrow> byte list \<Rightarrow> byte list \<Rightarrow> ExitRecord \<Rightarrow> byte list" where
  "print_exit gap gap' gap'' r =
     padded 20 (ER_Name r) @ le16 (ER_Room r) @ ER_Flags r @ gap @ print_lasttime gap' (ER_LTime r) @ le8 (ER_Key r) @ gap''"

lemma Exit_record_roundtrip:
  assumes "text_ok euckr ''exit.name'' 20 (ER_Name r)" and "length (ER_Flags r) = 4"
    and "length gap = 2" "length gap' = 2" "length gap'' = 3"
  shows "DecodeExitRecord euckr (print_exit gap gap' gap'' r @ rest) = Inr r"
  using assms unfolding DecodeExitRecord_def requireRecordSize_def offsets record_sizes
  by (simp add: print_exit_def at_offset)

definition print_board_index :: "byte list \<Rightarrow> BoardIndexRecord \<Rightarrow> byte list" where
  "print_board_index gap r =
     le32 (BR_Number r) @ padded 16 (BR_Uploader r) @ le32 (BR_Year r) @ le32 (BR_Month r) @ le32 (BR_Day r) @ le32 (BR_Hour r)
      @ le32 (BR_Minute r) @ le32 (BR_Second r) @ le32 (BR_Line r) @ le32 (BR_ReadCount r) @ padded 40 (BR_Title r) @ gap"

lemma Board_index_record_roundtrip:
  assumes "text_ok euckr ''board_index.upload'' 16 (BR_Uploader r)" and "text_ok euckr ''board_index.title'' 40 (BR_Title r)"
    and "length gap = 164"
  shows "DecodeBoardIndexRecord euckr (print_board_index gap r @ rest) = Inr r"
  using assms unfolding DecodeBoardIndexRecord_def requireRecordSize_def offsets record_sizes
  by (simp add: print_board_index_def at_offset)

definition print_creature :: "(nat \<Rightarrow> byte list) \<Rightarrow> CreatureRecord \<Rightarrow> byte list" where
  "print_creature gap r =
     padded 80 (CR_Name r) @ padded 80 (CR_Description r) @ padded 80 (CR_Talk r) @ padded 15 (CR_Password r)
      @ padded 20 (CR_Keys r ! 0) @ padded 20 (CR_Keys r ! 1) @ padded 20 (CR_Keys r ! 2) @ gap 81 @ CR_Spells r @ CR_Flags r
      @ gap 18 @ concat (map le16 (CR_Carry r)) @ gap 82 @ concat (map (print_daily (gap 2)) (CR_Daily r)) @ gap 564"

definition creature_ok :: "decoder \<Rightarrow> (nat \<Rightarrow> byte list) \<Rightarrow> CreatureRecord \<Rightarrow> bool" where
  "creature_ok euckr gap r \<longleftrightarrow>
     text_ok euckr ''creature.name'' 80 (CR_Name r) \<and> text_ok euckr ''creature.description'' 80 (CR_Description r)
     \<and> text_ok euckr ''creature.talk'' 80 (CR_Talk r) \<and> text_ok euckr ''creature.password'' 15 (CR_Password r)
     \<and> keys_ok euckr ''creature.key'' (CR_Keys r) \<and> length (CR_Spells r) = 16 \<and> length (CR_Flags r) = 8
     \<and> length (CR_Carry r) = 10 \<and> length (CR_Daily r) = 10 \<and> (\<forall>n. length (gap n) = n) \<and> CR_Raw r = print_creature gap r"

lemma length_array: "(\<And>x. length (print x) = width) \<Longrightarrow> length (concat (map print xs)) = length xs * width"
  by (induction xs) simp_all

lemma Creature_record_roundtrip:
  assumes "creature_ok euckr gap r"
  shows "DecodeCreatureRecord euckr (print_creature gap r @ rest) = Inr r"
proof -
  have ok: "text_ok euckr ''creature.name'' 80 (CR_Name r)" "text_ok euckr ''creature.description'' 80 (CR_Description r)"
    "text_ok euckr ''creature.talk'' 80 (CR_Talk r)" "text_ok euckr ''creature.password'' 15 (CR_Password r)"
    "length (CR_Spells r) = 16" "length (CR_Flags r) = 8" "length (CR_Carry r) = 10" "length (CR_Daily r) = 10"
    "\<And>n. length (gap n) = n" "CR_Raw r = print_creature gap r" and keys: "keys_ok euckr ''creature.key'' (CR_Keys r)"
    using assms by (simp_all add: creature_ok_def)
  note k = keys_okD [OF keys]
  have arrays: "length (concat (map le16 (CR_Carry r))) = 20" "length (concat (map (print_daily (gap 2)) (CR_Daily r))) = 80"
    using ok(7-9) by (simp_all add: length_array [where width = 2] length_array [where width = 8])
  note lens = ok(1-4) [THEN text_ok_length] k(2-4) [THEN text_ok_length] ok(5,6,9) arrays
  have carry: "map (\<lambda>i. readInt16At (concat (map le16 (CR_Carry r)) @ t) (i * 2)) [0..<10] = CR_Carry r" for t
    by (rule read_array_map [OF readInt16_here readInt16_later _ ok(7)]) simp_all
  have daily: "map (\<lambda>i. readDailyAt (concat (map (print_daily (gap 2)) (CR_Daily r)) @ t) (i * 8)) [0..<10] = CR_Daily r" for t
    by (rule read_array_map [OF readDaily_here readDaily_later _ ok(8)]) (simp_all add: ok(9))
  have l: "length (print_creature gap r) = 1184"
    by (simp add: print_creature_def lens)
  then have raw: "slice (print_creature gap r @ rest) 0 1184 = print_creature gap r"
    by (simp add: slice_here)
  show ?thesis
    using raw l ok(10) k(5)
    unfolding DecodeCreatureRecord_def requireRecordSize_def read_keys_three offsets record_sizes
    by (simp add: print_creature_def lens ok(1-4) k(2-4) carry daily at_offset)
qed

definition print_room :: "(nat \<Rightarrow> byte list) \<Rightarrow> RoomRecord \<Rightarrow> byte list" where
  "print_room gap r =
     le16 (RR_Number r) @ padded 80 (RR_Name r) @ gap 14 @ le8 (RR_LoLevel r) @ le8 (RR_HiLevel r) @ le16 (RR_Special r)
      @ le8 (RR_Trap r) @ gap 1 @ le16 (RR_TrapExit r) @ padded 80 (RR_Track r) @ RR_Flags r
      @ concat (map le16 (RR_Random r)) @ le8 (RR_Traffic r) @ gap 3 @ concat (map (print_lasttime (gap 2)) (RR_PermMon r))
      @ concat (map (print_lasttime (gap 2)) (RR_PermObj r)) @ le32 (RR_BeenHere r) @ le32 (RR_Established r) @ gap 16"

definition room_ok :: "decoder \<Rightarrow> (nat \<Rightarrow> byte list) \<Rightarrow> RoomRecord \<Rightarrow> bool" where
  "room_ok euckr gap r \<longleftrightarrow>
     text_ok euckr ''room.name'' 80 (RR_Name r) \<and> text_ok euckr ''room.track'' 80 (RR_Track r)
     \<and> length (RR_Flags r) = 8 \<and> length (RR_Random r) = 10 \<and> length (RR_PermMon r) = 10 \<and> length (RR_PermObj r) = 10
     \<and> (\<forall>n. length (gap n) = n)
     \<and> RR_ShortDescription r = noText \<and> RR_LongDescription r = noText \<and> RR_ObjectDescription r = noText"

lemma Room_record_roundtrip:
  assumes "room_ok euckr gap r"
  shows "DecodeRoomRecord euckr (print_room gap r @ rest) = Inr r"
proof -
  have ok: "text_ok euckr ''room.name'' 80 (RR_Name r)" "text_ok euckr ''room.track'' 80 (RR_Track r)"
    "length (RR_Flags r) = 8" "length (RR_Random r) = 10" "length (RR_PermMon r) = 10" "length (RR_PermObj r) = 10"
    "\<And>n. length (gap n) = n"
    and none: "RR_ShortDescription r = noText" "RR_LongDescription r = noText" "RR_ObjectDescription r = noText"
    using assms by (simp_all add: room_ok_def)
  have arrays: "length (concat (map le16 (RR_Random r))) = 20"
    "length (concat (map (print_lasttime (gap 2)) (RR_PermMon r))) = 120"
    "length (concat (map (print_lasttime (gap 2)) (RR_PermObj r))) = 120"
    using ok(4-7) by (simp_all add: length_array [where width = 2] length_array [where width = 12])
  note lens = ok(1,2) [THEN text_ok_length] ok(3,7) arrays
  have random: "map (\<lambda>i. readInt16At (concat (map le16 (RR_Random r)) @ t) (i * 2)) [0..<10] = RR_Random r" for t
    by (rule read_array_map [OF readInt16_here readInt16_later _ ok(4)]) simp_all
  have perm: "map (\<lambda>i. readLasttimeAt (concat (map (print_lasttime (gap 2)) ls) @ t) (i * 12)) [0..<10] = ls"
    if "length ls = 10" for ls t
    by (rule read_array_map [OF readLasttime_here readLasttime_later _ that]) (simp_all add: ok(7))
  show ?thesis
    using none unfolding DecodeRoomRecord_def requireRecordSize_def offsets record_sizes
    by (simp add: print_room_def lens ok(1,2) random perm [OF ok(5)] perm [OF ok(6)] at_offset)
qed

subsection \<open>Files\<close>

lemma read_records_all:
  assumes "\<And>k. k < length rs \<Longrightarrow> decode (drop (k * sz) data) = Inr (rs ! k)" and "i + n = length rs"
  shows "read_records fmt decode sz data i n = Inr (drop i rs)"
  using assms(2)
proof (induction n arbitrary: i)
  case (Suc n)
  then have "i < length rs" by simp
  then show ?case
    using Suc assms(1) [of i] by (simp add: Cons_nth_drop_Suc)
qed simp

lemma drop_array:
  assumes "\<And>x. x \<in> set xs \<Longrightarrow> length (print x) = width"
  shows "k < length xs \<Longrightarrow> drop (k * width) (concat (map print xs)) = print (xs ! k) @ concat (map print (drop (Suc k) xs))"
  using assms
proof (induction xs arbitrary: k)
  case (Cons x xs)
  then show ?case by (cases k) simp_all
qed simp

lemma read_printed:
  assumes "\<And>r. r \<in> set rs \<Longrightarrow> length (print r) = sz" and "\<And>r rest. r \<in> set rs \<Longrightarrow> decode (print r @ rest) = Inr r"
  shows "read_records fmt decode sz (concat (map print rs)) 0 (length rs) = Inr rs"
proof -
  have "decode (drop (k * sz) (concat (map print rs))) = Inr (rs ! k)" if "k < length rs" for k
    using assms(2) [OF nth_mem [OF that]] drop_array [of rs print sz, OF assms(1) that] by simp
  then have "read_records fmt decode sz (concat (map print rs)) 0 (length rs) = Inr (drop 0 rs)"
    by (intro read_records_all) auto
  then show ?thesis by simp
qed

text \<open>C31. A file of object records is read back as the records that were written to it: every field at its
  place and at its width, texts up to their padding, whatever the bytes of the padding between fields.\<close>

theorem Object_file_roundtrip:
  assumes "\<forall>r \<in> set rs. \<exists>gap. object_ok euckr gap r"
  shows "DecodeObjectRecords euckr (concat (map OR_Raw rs)) = Inr rs"
proof -
  have l: "length (OR_Raw r) = 352" and d: "DecodeObjectRecord euckr (OR_Raw r @ rest) = Inr r" if "r \<in> set rs" for r rest
  proof -
    obtain gap where gap: "object_ok euckr gap r"
      using assms \<open>r \<in> set rs\<close> by blast
    then have "OR_Raw r = print_object gap r"
      by (simp add: object_ok_def)
    with length_print_object [OF gap] Object_record_roundtrip [OF gap, of rest]
    show "length (OR_Raw r) = 352" "DecodeObjectRecord euckr (OR_Raw r @ rest) = Inr r" by simp_all
  qed
  have "length (concat (map OR_Raw rs)) = length rs * 352"
    using l by (induction rs) simp_all
  then have "ValidateObjectPrototypeFile (concat (map OR_Raw rs)) = Inr (length rs)"
    by (simp add: ValidateObjectPrototypeFile_def whole_records_def record_sizes)
  with read_printed [of rs OR_Raw 352 "DecodeObjectRecord euckr", OF l d] show ?thesis
    by (simp add: DecodeObjectRecords_def record_sizes)
qed

definition demoText :: "string \<Rightarrow> TextField" where
  "demoText s = \<lparr>TF_Raw = bytes_of_string s, TF_Text = s, TF_Err = None\<rparr>"

definition demoRecord :: ObjectRecord where
  "demoRecord =
     (let r = \<lparr>OR_Raw = [], OR_Name = demoText ''sword'', OR_Description = demoText ''A sword.'',
         OR_Keys = [demoText ''sword'', demoText [], demoText []], OR_UseOutput = demoText [], OR_Value = 100, OR_Weight = 5,
         OR_Type = 1, OR_Adjustment = - 1, OR_ShotsMax = 50, OR_ShotsCurrent = 50, OR_NDice = 2, OR_SDice = 6, OR_PDice = 1,
         OR_Armor = 0, OR_WearFlag = 20, OR_MagicPower = 0, OR_MagicRealm = 0, OR_Special = 0, OR_Flags = replicate 8 0,
         OR_QuestNumber = 0\<rparr>
      in r\<lparr>OR_Raw := print_object (replicate 19 0) r\<rparr>)"

theorem Object_file_roundtrip_witness:
  "DecodeObjectRecords ascii_decode (concat (map OR_Raw [demoRecord, demoRecord])) = Inr [demoRecord, demoRecord]"
proof (rule Object_file_roundtrip)
  have "text_ok ascii_decode ''object.name'' 80 (OR_Name demoRecord)" "text_ok ascii_decode ''object.description'' 80 (OR_Description demoRecord)"
    "text_ok ascii_decode ''object.use_output'' 80 (OR_UseOutput demoRecord)"
    by code_simp+
  moreover have "keys_ok ascii_decode ''object.key'' (OR_Keys demoRecord)"
    by code_simp
  moreover have "OR_Raw demoRecord = print_object (replicate 19 0) demoRecord"
    by (simp add: demoRecord_def Let_def print_object_def)
  ultimately have "object_ok ascii_decode (replicate 19 0) demoRecord"
    unfolding object_ok_def by (simp add: demoRecord_def Let_def)
  then show "\<forall>r \<in> set [demoRecord, demoRecord]. \<exists>gap. object_ok ascii_decode gap r" by auto
qed

end
