(* ===== verification/RecordTrees.thy ===== *)
theory RecordTrees
  imports Records "HOL-Library.Sublist"
begin

text \<open>
  The files of the C server that hold trees of records (\<^verbatim>\<open>internal/persist/cbin/decode.go\<close>): an object with the
  objects in it, a creature with its things, a room with its exits, creatures, objects and texts.  Every
  list is preceded by its length, which is not trusted.
\<close>

subsection \<open>The cursor\<close>

record Cursor =
  Cur_data :: "byte list"
  Cur_off :: nat

definition NewCursor :: "byte list \<Rightarrow> Cursor" where
  "NewCursor data = \<lparr>Cur_data = data, Cur_off = 0\<rparr>"

definition Remaining :: "Cursor \<Rightarrow> int" where
  "Remaining c = int (length (Cur_data c)) - int (Cur_off c)"

definition cursor_EOF :: "Cursor \<Rightarrow> bool" where
  "cursor_EOF c \<longleftrightarrow> Cur_off c = length (Cur_data c)"

definition skip_bytes :: "int \<Rightarrow> Cursor \<Rightarrow> go_error option \<times> Cursor" where
  "skip_bytes n c =
     (if n < 0 \<or> int (length (Cur_data c)) < int (Cur_off c) + n
      then (Some (Errorf ''need %d bytes at offset %d, remaining %d'' [itoa n, itoa (int (Cur_off c)), itoa (Remaining c)]), c)
      else (None, c\<lparr>Cur_off := Cur_off c + nat n\<rparr>))"

definition read_int32 :: "Cursor \<Rightarrow> int result \<times> Cursor" where
  "read_int32 c =
     (if length (Cur_data c) < Cur_off c + 4
      then (Inl (Errorf ''need int32 at offset %d, remaining %d'' [itoa (int (Cur_off c)), itoa (Remaining c)]), c)
      else (Inr (sint (readInt32At (Cur_data c) (Cur_off c))), c\<lparr>Cur_off := Cur_off c + 4\<rparr>))"

text \<open>A length and its check, which every list repeats with its own messages and limit.\<close>

definition read_count :: "string \<Rightarrow> string \<Rightarrow> string list \<Rightarrow> nat \<Rightarrow> Cursor \<Rightarrow> nat result \<times> Cursor" where
  "read_count missing invalid args limit c =
     (case read_int32 c of
        (Inl err, c) \<Rightarrow> (Inl (Wrapf missing args err), c)
      | (Inr count, c) \<Rightarrow>
          if count < 0 \<or> int limit < count
          then (Inl (Errorf invalid (args @ [itoa count, itoa (int (Cur_off c) - 4)])), c)
          else (Inr (nat count), c))"

definition MaxObjectChildren :: nat where "MaxObjectChildren = 10000"
definition MaxCreatureItems :: nat where "MaxCreatureItems = 10000"
definition MaxRoomExits :: nat where "MaxRoomExits = 1000"
definition MaxRoomCreatures :: nat where "MaxRoomCreatures = 10000"
definition MaxRoomObjects :: nat where "MaxRoomObjects = 10000"
definition MaxDescriptionBytes :: nat where "MaxDescriptionBytes = 2 ^ 20"
definition MaxRecursionDepth :: nat where "MaxRecursionDepth = 128"

subsection \<open>Validation\<close>

record Stats =
  St_Objects :: nat
  St_Creatures :: nat
  St_Rooms :: nat
  St_Exits :: nat
  St_Descriptions :: nat
  St_DescriptionBytes :: nat
  St_TrailingBytes :: nat
  St_MaxDepth :: nat

definition noStats :: Stats where
  "noStats = \<lparr>St_Objects = 0, St_Creatures = 0, St_Rooms = 0, St_Exits = 0, St_Descriptions = 0, St_DescriptionBytes = 0,
     St_TrailingBytes = 0, St_MaxDepth = 0\<rparr>"

definition addDepth :: "nat \<Rightarrow> Stats \<Rightarrow> Stats" where
  "addDepth depth st = (if St_MaxDepth st < depth then st\<lparr>St_MaxDepth := depth\<rparr> else st)"

type_synonym decoded = "go_error option \<times> Cursor \<times> Stats"

definition too_deep :: "string \<Rightarrow> go_error" where
  "too_deep what = Errorf (what @ '' recursion depth exceeds %d'') [itoa (int MaxRecursionDepth)]"

text \<open>\<open>decode_objects\<close> is the loop over the remaining \<open>k\<close> objects of a list, of which \<open>i\<close> have been read.\<close>

function decodeObject :: "Cursor \<Rightarrow> Stats \<Rightarrow> nat \<Rightarrow> decoded"
  and decode_objects :: "string \<Rightarrow> nat \<Rightarrow> nat \<Rightarrow> Cursor \<Rightarrow> Stats \<Rightarrow> nat \<Rightarrow> decoded"
where
  "decodeObject cur st depth =
     (if MaxRecursionDepth < depth then (Some (too_deep ''object''), cur, st)
      else case skip_bytes (int ObjectSize) cur of
        (Some err, cur) \<Rightarrow> (Some (Wrapf ''object record: %w'' [] err), cur, addDepth depth st)
      | (None, cur) \<Rightarrow>
          let st = (addDepth depth st)\<lparr>St_Objects := St_Objects st + 1\<rparr>
          in case read_count ''object child count: %w'' ''invalid object child count %d at offset %d'' [] MaxObjectChildren cur of
               (Inl err, cur) \<Rightarrow> (Some err, cur, st)
             | (Inr count, cur) \<Rightarrow> decode_objects ''object child %d/%d: %w'' 0 count cur st (depth + 1))"
| "decode_objects fmt i 0 cur st depth = (None, cur, st)"
| "decode_objects fmt i (Suc k) cur st depth =
     (case decodeObject cur st depth of
        (Some err, cur, st) \<Rightarrow> (Some (Wrapf fmt [itoa (int (i + 1)), itoa (int (i + Suc k))] err), cur, st)
      | (None, cur, st) \<Rightarrow> decode_objects fmt (i + 1) k cur st depth)"
  by pat_completeness auto
termination
  by (relation "inv_image (less_than <*lex*> less_than)
        (\<lambda>x. case x of Inl (cur, st, d) \<Rightarrow> (129 - d, 0) | Inr (fmt, i, k, cur, st, d) \<Rightarrow> (129 - d, Suc k))")
    (auto simp: MaxRecursionDepth_def)

definition decodeCreature :: "Cursor \<Rightarrow> Stats \<Rightarrow> nat \<Rightarrow> decoded" where
  "decodeCreature cur st depth =
     (if MaxRecursionDepth < depth then (Some (too_deep ''creature''), cur, st)
      else case skip_bytes (int CreatureSize) cur of
        (Some err, cur) \<Rightarrow> (Some (Wrapf ''creature record: %w'' [] err), cur, addDepth depth st)
      | (None, cur) \<Rightarrow>
          let st = (addDepth depth st)\<lparr>St_Creatures := St_Creatures st + 1\<rparr>
          in case read_count ''creature inventory count: %w'' ''invalid creature inventory count %d at offset %d'' []
                    MaxCreatureItems cur of
               (Inl err, cur) \<Rightarrow> (Some err, cur, st)
             | (Inr count, cur) \<Rightarrow> decode_objects ''creature inventory object %d/%d: %w'' 0 count cur st (depth + 1))"

fun decode_creatures :: "nat \<Rightarrow> nat \<Rightarrow> Cursor \<Rightarrow> Stats \<Rightarrow> nat \<Rightarrow> decoded" where
  "decode_creatures i 0 cur st depth = (None, cur, st)"
| "decode_creatures i (Suc k) cur st depth =
     (case decodeCreature cur st depth of
        (Some err, cur, st) \<Rightarrow> (Some (Wrapf ''room creature %d/%d: %w'' [itoa (int (i + 1)), itoa (int (i + Suc k))] err), cur, st)
      | (None, cur, st) \<Rightarrow> decode_creatures (i + 1) k cur st depth)"

definition decodeDescription :: "Cursor \<Rightarrow> Stats \<Rightarrow> nat \<Rightarrow> decoded" where
  "decodeDescription cur st index =
     (case read_count ''room description %d length: %w'' ''invalid room description %d length %d at offset %d''
             [itoa (int index)] MaxDescriptionBytes cur of
        (Inl err, cur) \<Rightarrow> (Some err, cur, st)
      | (Inr n, cur) \<Rightarrow>
          (case skip_bytes (int n) cur of
             (Some err, cur) \<Rightarrow> (Some (Wrapf ''room description %d bytes: %w'' [itoa (int index)] err), cur, st)
           | (None, cur) \<Rightarrow>
               (None, cur,
                if 0 < n then st\<lparr>St_Descriptions := St_Descriptions st + 1, St_DescriptionBytes := St_DescriptionBytes st + n\<rparr>
                else st)))"

fun decode_descriptions :: "nat list \<Rightarrow> Cursor \<Rightarrow> Stats \<Rightarrow> decoded" where
  "decode_descriptions [] cur st = (None, cur, st)"
| "decode_descriptions (i # is) cur st =
     (case decodeDescription cur st i of
        (Some err, cur, st) \<Rightarrow> (Some err, cur, st)
      | (None, cur, st) \<Rightarrow> decode_descriptions is cur st)"

text \<open>\<^verbatim>\<open>decodeRoom\<close>, in its parts: the record and the exits, the creatures, the objects and the texts.\<close>

definition decode_exits :: "Cursor \<Rightarrow> Stats \<Rightarrow> decoded" where
  "decode_exits cur st =
     (case read_count ''room exit count: %w'' ''invalid room exit count %d at offset %d'' [] MaxRoomExits cur of
        (Inl err, cur) \<Rightarrow> (Some err, cur, st)
      | (Inr count, cur) \<Rightarrow>
          (case skip_bytes (int (count * ExitSize)) cur of
             (Some err, cur) \<Rightarrow> (Some (Wrapf ''room exits: %w'' [] err), cur, st)
           | (None, cur) \<Rightarrow> (None, cur, st\<lparr>St_Exits := St_Exits st + count\<rparr>)))"

definition decode_room_creatures :: "Cursor \<Rightarrow> Stats \<Rightarrow> nat \<Rightarrow> decoded" where
  "decode_room_creatures cur st depth =
     (case read_count ''room creature count: %w'' ''invalid room creature count %d at offset %d'' [] MaxRoomCreatures cur of
        (Inl err, cur) \<Rightarrow> (Some err, cur, st)
      | (Inr count, cur) \<Rightarrow> decode_creatures 0 count cur st (depth + 1))"

definition decode_room_objects :: "Cursor \<Rightarrow> Stats \<Rightarrow> nat \<Rightarrow> decoded" where
  "decode_room_objects cur st depth =
     (case read_count ''room object count: %w'' ''invalid room object count %d at offset %d'' [] MaxRoomObjects cur of
        (Inl err, cur) \<Rightarrow> (Some err, cur, st)
      | (Inr count, cur) \<Rightarrow> decode_objects ''room object %d/%d: %w'' 0 count cur st (depth + 1))"

definition and_then :: "decoded \<Rightarrow> (Cursor \<Rightarrow> Stats \<Rightarrow> decoded) \<Rightarrow> decoded" where
  "and_then r f = (case r of (Some err, cur, st) \<Rightarrow> (Some err, cur, st) | (None, cur, st) \<Rightarrow> f cur st)"

definition decodeRoom :: "Cursor \<Rightarrow> Stats \<Rightarrow> nat \<Rightarrow> decoded" where
  "decodeRoom cur st depth =
     (if MaxRecursionDepth < depth then (Some (too_deep ''room''), cur, st)
      else case skip_bytes (int RoomSize) cur of
        (Some err, cur) \<Rightarrow> (Some (Wrapf ''room record: %w'' [] err), cur, addDepth depth st)
      | (None, cur) \<Rightarrow>
          and_then (decode_exits cur ((addDepth depth st)\<lparr>St_Rooms := St_Rooms st + 1\<rparr>)) (\<lambda>cur st.
          and_then (decode_room_creatures cur st depth) (\<lambda>cur st.
          and_then (decode_room_objects cur st depth) (\<lambda>cur st.
          decode_descriptions [0, 1, 2] cur st))))"

definition decodeObjectFile :: "byte list \<Rightarrow> bool \<Rightarrow> Stats \<times> go_error option" where
  "decodeObjectFile data allowTrailing =
     (case decodeObject (NewCursor data) noStats 1 of
        (Some err, cur, st) \<Rightarrow> (st, Some err)
      | (None, cur, st) \<Rightarrow>
          if cursor_EOF cur then (st, None)
          else if allowTrailing then (st\<lparr>St_TrailingBytes := nat (Remaining cur)\<rparr>, None)
          else (st, Some (Errorf ''trailing %d bytes after object tree'' [itoa (Remaining cur)])))"

definition DecodeObjectFile :: "byte list \<Rightarrow> Stats \<times> go_error option" where
  "DecodeObjectFile data = decodeObjectFile data False"

definition DecodeObjectFileAllowTrailing :: "byte list \<Rightarrow> Stats \<times> go_error option" where
  "DecodeObjectFileAllowTrailing data = decodeObjectFile data True"

definition DecodeCreatureFile :: "byte list \<Rightarrow> Stats \<times> go_error option" where
  "DecodeCreatureFile data =
     (case decodeCreature (NewCursor data) noStats 1 of
        (Some err, cur, st) \<Rightarrow> (st, Some err)
      | (None, cur, st) \<Rightarrow>
          if cursor_EOF cur then (st, None)
          else (st, Some (Errorf ''trailing %d bytes after creature tree'' [itoa (Remaining cur)])))"

definition DecodeRoomFile :: "byte list \<Rightarrow> Stats \<times> go_error option" where
  "DecodeRoomFile data =
     (case decodeRoom (NewCursor data) noStats 1 of
        (Some err, cur, st) \<Rightarrow> (st, Some err)
      | (None, cur, st) \<Rightarrow>
          if cursor_EOF cur then (st, None)
          else (st, Some (Errorf ''trailing %d bytes after room'' [itoa (Remaining cur)])))"

subsection \<open>The grammar of the files\<close>

datatype otree = OTree "byte list" "otree list"
datatype ctree = CTree "byte list" "otree list"

record rtree =
  Rt_Raw :: "byte list"
  Rt_Exits :: "byte list list"
  Rt_Creatures :: "ctree list"
  Rt_Objects :: "otree list"
  Rt_Texts :: "byte list list"

definition counted :: "('a \<Rightarrow> byte list) \<Rightarrow> 'a list \<Rightarrow> byte list" where
  "counted print xs = le32 (word_of_nat (length xs)) @ concat (map print xs)"

primrec print_otree :: "otree \<Rightarrow> byte list" where
  "print_otree (OTree raw ts) = raw @ le32 (word_of_nat (length ts)) @ concat (map print_otree ts)"

primrec print_ctree :: "ctree \<Rightarrow> byte list" where
  "print_ctree (CTree raw ts) = raw @ counted print_otree ts"

definition print_text :: "byte list \<Rightarrow> byte list" where
  "print_text t = le32 (word_of_nat (length t)) @ t"

definition print_rtree :: "rtree \<Rightarrow> byte list" where
  "print_rtree r =
     Rt_Raw r @ counted id (Rt_Exits r) @ counted print_ctree (Rt_Creatures r) @ counted print_otree (Rt_Objects r)
      @ concat (map print_text (Rt_Texts r))"

text \<open>The bounds the decoder checks; \<open>n\<close> is the number of levels that are left.\<close>

fun otree_ok :: "nat \<Rightarrow> otree \<Rightarrow> bool" where
  "otree_ok 0 t = False"
| "otree_ok (Suc n) (OTree raw ts) \<longleftrightarrow>
     length raw = ObjectSize \<and> length ts \<le> MaxObjectChildren \<and> list_all (otree_ok n) ts"

fun ctree_ok :: "nat \<Rightarrow> ctree \<Rightarrow> bool" where
  "ctree_ok 0 t = False"
| "ctree_ok (Suc n) (CTree raw ts) \<longleftrightarrow>
     length raw = CreatureSize \<and> length ts \<le> MaxCreatureItems \<and> list_all (otree_ok n) ts"

definition rtree_ok :: "rtree \<Rightarrow> bool" where
  "rtree_ok r \<longleftrightarrow>
     length (Rt_Raw r) = RoomSize
     \<and> length (Rt_Exits r) \<le> MaxRoomExits \<and> list_all (\<lambda>e. length e = ExitSize) (Rt_Exits r)
     \<and> length (Rt_Creatures r) \<le> MaxRoomCreatures \<and> list_all (ctree_ok 127) (Rt_Creatures r)
     \<and> length (Rt_Objects r) \<le> MaxRoomObjects \<and> list_all (otree_ok 127) (Rt_Objects r)
     \<and> length (Rt_Texts r) = 3 \<and> list_all (\<lambda>t. length t \<le> MaxDescriptionBytes) (Rt_Texts r)"

text \<open>A reference parser: what it reads, and the bytes after it.\<close>

definition parse_bytes :: "nat \<Rightarrow> byte list \<Rightarrow> (byte list \<times> byte list) option" where
  "parse_bytes n b = (if length b < n then None else Some (take n b, drop n b))"

definition parse_count :: "nat \<Rightarrow> byte list \<Rightarrow> (nat \<times> byte list) option" where
  "parse_count limit b =
     (if length b < 4 then None
      else let count = sint (readInt32At b 0)
           in if count < 0 \<or> int limit < count then None else Some (nat count, drop 4 b))"

fun parse_many :: "(byte list \<Rightarrow> ('a \<times> byte list) option) \<Rightarrow> nat \<Rightarrow> byte list \<Rightarrow> ('a list \<times> byte list) option" where
  "parse_many p 0 b = Some ([], b)"
| "parse_many p (Suc k) b =
     (case p b of
        None \<Rightarrow> None
      | Some (x, b) \<Rightarrow> map_option (\<lambda>(xs, b). (x # xs, b)) (parse_many p k b))"

definition parse_counted :: "(byte list \<Rightarrow> ('a \<times> byte list) option) \<Rightarrow> nat \<Rightarrow> byte list \<Rightarrow> ('a list \<times> byte list) option" where
  "parse_counted p limit b = (case parse_count limit b of None \<Rightarrow> None | Some (k, b) \<Rightarrow> parse_many p k b)"

fun parse_otree :: "nat \<Rightarrow> byte list \<Rightarrow> (otree \<times> byte list) option" where
  "parse_otree 0 b = None"
| "parse_otree (Suc n) b =
     (case parse_bytes ObjectSize b of
        None \<Rightarrow> None
      | Some (raw, b) \<Rightarrow> map_option (\<lambda>(ts, b). (OTree raw ts, b)) (parse_counted (parse_otree n) MaxObjectChildren b))"

fun parse_ctree :: "nat \<Rightarrow> byte list \<Rightarrow> (ctree \<times> byte list) option" where
  "parse_ctree 0 b = None"
| "parse_ctree (Suc n) b =
     (case parse_bytes CreatureSize b of
        None \<Rightarrow> None
      | Some (raw, b) \<Rightarrow> map_option (\<lambda>(ts, b). (CTree raw ts, b)) (parse_counted (parse_otree n) MaxCreatureItems b))"

text \<open>A parser reads exactly the printed values of a set, each in one way.\<close>

definition reads :: "(byte list \<Rightarrow> ('a \<times> byte list) option) \<Rightarrow> ('a \<Rightarrow> bool) \<Rightarrow> ('a \<Rightarrow> byte list) \<Rightarrow> bool" where
  "reads p ok print \<longleftrightarrow> (\<forall>b x rest. p b = Some (x, rest) \<longleftrightarrow> ok x \<and> b = print x @ rest)"

lemma readsD: "reads p ok print \<Longrightarrow> p b = Some (x, rest) \<longleftrightarrow> ok x \<and> b = print x @ rest"
  by (simp add: reads_def)

lemma reads_bytes: "reads (parse_bytes n) (\<lambda>b. length b = n) id"
  by (auto simp: reads_def parse_bytes_def)

lemma reads_many:
  assumes "reads p ok print"
  shows "reads (parse_many p k) (\<lambda>xs. length xs = k \<and> list_all ok xs) (\<lambda>xs. concat (map print xs))"
  unfolding reads_def
proof (induction k)
  case (Suc k)
  have "parse_many p (Suc k) b = Some (xs, rest) \<longleftrightarrow>
      (\<exists>x ys b'. p b = Some (x, b') \<and> parse_many p k b' = Some (ys, rest) \<and> xs = x # ys)" for b xs rest
    by (auto split: option.split)
  also have "\<dots> b xs rest \<longleftrightarrow> (\<exists>x ys b'. (ok x \<and> b = print x @ b') \<and> ((length ys = k \<and> list_all ok ys) \<and> b' = concat (map print ys) @ rest)
      \<and> xs = x # ys)" for b xs rest
    using Suc.IH by (simp only: readsD [OF assms])
  also have "\<dots> b xs rest \<longleftrightarrow> (length xs = Suc k \<and> list_all ok xs) \<and> b = concat (map print xs) @ rest" for b xs rest
    by (cases xs) auto
  finally show ?case by blast
qed auto

text \<open>Lengths within the limits are written without loss.\<close>

lemma read_length:
  assumes "int n < 2 ^ 31"
  shows "sint (readInt32At (le32 (word_of_nat n) @ b) 0) = int n"
  using assms by (simp add: readInt32_here signed_of_nat signed_take_bit_int_eq_self)

lemma le32_join:
  "le32 (ucast a OR push_bit 8 (ucast b) OR push_bit 16 (ucast c) OR push_bit 24 (ucast d)) = [a, b, c, d]"
proof -
  let ?w = "ucast a OR push_bit 8 (ucast b) OR push_bit 16 (ucast c) OR push_bit 24 (ucast d) :: 32 word"
  have "ucast ?w = a" "ucast (drop_bit 8 ?w) = b" "ucast (drop_bit 16 ?w) = c" "ucast (drop_bit 24 ?w) = d"
    by (rule bit_word_eqI; auto simp: bit_simps dest: bit_imp_le_length)+
  then show ?thesis by (simp add: le32_def)
qed

lemma le32_read:
  assumes "4 \<le> length b"
  shows "le32 (readInt32At b 0) @ drop 4 b = b"
proof -
  obtain x y z u rest where "b = x # y # z # u # rest"
    using assms by (auto simp: numeral_eq_Suc Suc_le_length_iff)
  then show ?thesis by (simp add: readInt32At_def le32_join)
qed

lemma reads_count:
  assumes "int limit < 2 ^ 31"
  shows "reads (parse_count limit) (\<lambda>k. k \<le> limit) (\<lambda>k. le32 (word_of_nat k))"
  unfolding reads_def
proof (intro allI iffI)
  fix b k rest
  assume r: "parse_count limit b = Some (k, rest)"
  let ?w = "readInt32At b 0"
  have c: "4 \<le> length b" "0 \<le> sint ?w" "sint ?w \<le> int limit" "k = nat (sint ?w)" "rest = drop 4 b"
    using r by (auto simp: parse_count_def Let_def split: if_splits)
  then have "word_of_nat k = ?w"
    by simp
  with c le32_read [OF c(1)] show "k \<le> limit \<and> b = le32 (word_of_nat k) @ rest" by simp
next
  fix b k rest
  assume k: "k \<le> limit \<and> b = le32 (word_of_nat k) @ rest"
  then have "sint (readInt32At b 0) = int k"
    using read_length [of k rest] assms by simp
  with k show "parse_count limit b = Some (k, rest)"
    by (simp add: parse_count_def)
qed

lemma reads_counted:
  assumes "reads p ok print" and "int limit < 2 ^ 31"
  shows "reads (parse_counted p limit) (\<lambda>xs. length xs \<le> limit \<and> list_all ok xs) (counted print)"
  unfolding reads_def
proof (intro allI)
  fix b xs rest
  have "parse_counted p limit b = Some (xs, rest) \<longleftrightarrow>
      (\<exists>k b'. parse_count limit b = Some (k, b') \<and> parse_many p k b' = Some (xs, rest))"
    by (auto simp: parse_counted_def split: option.split)
  also have "\<dots> \<longleftrightarrow> (\<exists>k b'. (k \<le> limit \<and> b = le32 (word_of_nat k) @ b')
        \<and> ((length xs = k \<and> list_all ok xs) \<and> b' = concat (map print xs) @ rest))"
    by (simp only: readsD [OF reads_count [OF assms(2)]] readsD [OF reads_many [OF assms(1)]])
  also have "\<dots> \<longleftrightarrow> (length xs \<le> limit \<and> list_all ok xs) \<and> b = counted print xs @ rest"
    by (auto simp: counted_def)
  finally show "parse_counted p limit b = Some (xs, rest) \<longleftrightarrow> (length xs \<le> limit \<and> list_all ok xs) \<and> b = counted print xs @ rest" .
qed

lemma reads_otree: "reads (parse_otree n) (otree_ok n) print_otree"
proof (induction n)
  case (Suc n)
  have "int MaxObjectChildren < 2 ^ 31"
    by (simp add: MaxObjectChildren_def)
  note c = readsD [OF reads_counted [OF Suc.IH this]]
  show ?case
    unfolding reads_def
  proof (intro allI)
    fix b t rest
    obtain raw ts where t: "t = OTree raw ts" by (cases t)
    have "parse_otree (Suc n) b = Some (t, rest) \<longleftrightarrow>
        (\<exists>b'. parse_bytes ObjectSize b = Some (raw, b') \<and> parse_counted (parse_otree n) MaxObjectChildren b' = Some (ts, rest))"
      by (auto simp: t split: option.split)
    then show "parse_otree (Suc n) b = Some (t, rest) \<longleftrightarrow> otree_ok (Suc n) t \<and> b = print_otree t @ rest"
      by (auto simp del: parse_otree.simps simp: t c readsD [OF reads_bytes] counted_def)
  qed
qed (simp add: reads_def)

lemma reads_ctree: "reads (parse_ctree n) (ctree_ok n) print_ctree"
  unfolding reads_def
proof (intro allI)
  fix b t rest
  obtain raw ts where t: "t = CTree raw ts" by (cases t)
  show "parse_ctree n b = Some (t, rest) \<longleftrightarrow> ctree_ok n t \<and> b = print_ctree t @ rest"
  proof (cases n)
    case (Suc m)
    have "int MaxCreatureItems < 2 ^ 31"
      by (simp add: MaxCreatureItems_def)
    note c = readsD [OF reads_counted [OF reads_otree this]]
    have "parse_ctree (Suc m) b = Some (t, rest) \<longleftrightarrow>
        (\<exists>b'. parse_bytes CreatureSize b = Some (raw, b') \<and> parse_counted (parse_otree m) MaxCreatureItems b' = Some (ts, rest))"
      by (auto simp: t split: option.split)
    then show ?thesis
      by (auto simp del: parse_ctree.simps simp: t Suc c readsD [OF reads_bytes])
  qed simp
qed

subsection \<open>Validation follows the grammar\<close>

text \<open>What validation counts of an object and of a creature at depth \<open>d\<close>.\<close>

primrec objects_in :: "otree \<Rightarrow> nat" where
  "objects_in (OTree raw ts) = 1 + sum_list (map objects_in ts)"

primrec lowest :: "otree \<Rightarrow> nat \<Rightarrow> nat" where
  "lowest (OTree raw ts) d = foldr max (map (\<lambda>f. f (Suc d)) (map lowest ts)) d"

primrec items_of :: "ctree \<Rightarrow> otree list" where
  "items_of (CTree raw ts) = ts"

definition count_otree :: "nat \<Rightarrow> otree \<Rightarrow> Stats \<Rightarrow> Stats" where
  "count_otree d t st = st\<lparr>St_Objects := St_Objects st + objects_in t, St_MaxDepth := max (St_MaxDepth st) (lowest t d)\<rparr>"

definition count_ctree :: "nat \<Rightarrow> ctree \<Rightarrow> Stats \<Rightarrow> Stats" where
  "count_ctree d t st =
     fold (count_otree (Suc d)) (items_of t) ((addDepth d st)\<lparr>St_Creatures := St_Creatures st + 1\<rparr>)"

lemma foldr_max: "foldr max xs (max a b) = max a (foldr max xs (b :: nat))"
  by (induction xs) (simp_all add: max.left_commute)

lemma fold_count_otree:
  "fold (count_otree d) ts st =
     st\<lparr>St_Objects := St_Objects st + sum_list (map objects_in ts),
        St_MaxDepth := foldr max (map (\<lambda>t. lowest t d) ts) (St_MaxDepth st)\<rparr>"
proof (induction ts arbitrary: st)
  case (Cons t ts)
  then show ?case
    by (simp add: count_otree_def foldr_max [of _ "lowest t d"] max.commute [of _ "lowest t d"] add.assoc)
qed simp

lemma count_OTree:
  "count_otree d (OTree raw ts) st =
     fold (count_otree (Suc d)) ts ((addDepth d st)\<lparr>St_Objects := St_Objects st + 1\<rparr>)"
proof -
  have "(addDepth d st)\<lparr>St_Objects := St_Objects st + 1\<rparr> = st\<lparr>St_Objects := St_Objects st + 1, St_MaxDepth := max (St_MaxDepth st) d\<rparr>"
    by (simp add: addDepth_def max_def)
  then show ?thesis
    by (simp add: fold_count_otree count_otree_def comp_def foldr_max)
qed

text \<open>The cursor that has the bytes \<open>b\<close> before it.\<close>

definition cur_at :: "byte list \<Rightarrow> byte list \<Rightarrow> Cursor" where
  "cur_at data b = \<lparr>Cur_data = data, Cur_off = length data - length b\<rparr>"

lemma suffix_drop_eq: "suffix b data \<Longrightarrow> drop (length data - length b) data = b"
  by (auto simp: suffix_def)

lemma NewCursor_at: "NewCursor data = cur_at data data"
  by (simp add: NewCursor_def cur_at_def)

lemma Remaining_at: "suffix b data \<Longrightarrow> Remaining (cur_at data b) = int (length b)"
  using suffix_length_le [of b data] by (simp add: Remaining_def cur_at_def)

lemma EOF_at: "suffix b data \<Longrightarrow> cursor_EOF (cur_at data b) \<longleftrightarrow> b = []"
  using suffix_length_le [of b data] by (cases b) (auto simp: cursor_EOF_def cur_at_def)

lemma skip_at:
  assumes "suffix b data"
  shows "(length b < n \<longrightarrow> fst (skip_bytes (int n) (cur_at data b)) \<noteq> None)
    \<and> (n \<le> length b \<longrightarrow> skip_bytes (int n) (cur_at data b) = (None, cur_at data (drop n b)))"
  using suffix_length_le [OF assms] by (auto simp: skip_bytes_def cur_at_def)

lemma read_int32_at:
  assumes "suffix b data"
  shows "read_int32 (cur_at data b) =
    (if length b < 4 then (Inl (Errorf ''need int32 at offset %d, remaining %d''
        [itoa (int (length data - length b)), itoa (Remaining (cur_at data b))]), cur_at data b)
     else (Inr (sint (readInt32At b 0)), cur_at data (drop 4 b)))"
proof -
  obtain pre where d: "data = pre @ b"
    using assms by (auto simp: suffix_def)
  then have "readInt32At data (length data - length b) = readInt32At b 0"
    by (simp add: readInt32_later)
  with d show ?thesis
    by (auto simp: read_int32_def cur_at_def)
qed

lemma read_count_at:
  assumes "suffix b data"
  shows "case parse_count limit b of
      None \<Rightarrow> \<exists>err cur. read_count missing invalid args limit (cur_at data b) = (Inl err, cur)
    | Some (k, rest) \<Rightarrow> suffix rest b \<and> read_count missing invalid args limit (cur_at data b) = (Inr k, cur_at data rest)"
  using assms by (auto simp: read_count_def parse_count_def read_int32_at Let_def suffix_drop)

text \<open>A decoder follows a parser: it fails where the parser fails, and stops where the parser stops.\<close>

definition follows :: "byte list \<Rightarrow> ('x \<times> byte list) option \<Rightarrow> ('x \<Rightarrow> Stats) \<Rightarrow> decoded \<Rightarrow> bool" where
  "follows data p f r \<longleftrightarrow>
     (case p of None \<Rightarrow> fst r \<noteq> None | Some (x, rest) \<Rightarrow> suffix rest data \<and> r = (None, cur_at data rest, f x))"

lemma follows_None: "fst r \<noteq> None \<Longrightarrow> follows data None f r"
  by (simp add: follows_def)

text \<open>A list after its length.\<close>

lemma follows_counted:
  assumes "suffix b data"
    and loop: "\<And>k rest. suffix rest data \<Longrightarrow> follows data (parse_many p k rest) f (loop k (cur_at data rest))"
  shows "follows data (parse_counted p limit b) f
    (case read_count missing invalid args limit (cur_at data b) of
       (Inl err, cur) \<Rightarrow> (Some err, cur, st) | (Inr count, cur) \<Rightarrow> loop count cur)"
proof (cases "parse_count limit b")
  case None
  then obtain err cur where "read_count missing invalid args limit (cur_at data b) = (Inl err, cur)"
    using read_count_at [OF assms(1), where limit = limit and missing = missing and invalid = invalid and args = args] by auto
  with None show ?thesis
    by (simp add: parse_counted_def follows_def)
next
  case (Some x)
  obtain k rest where x: "x = (k, rest)" by (cases x)
  have r: "suffix rest b" "read_count missing invalid args limit (cur_at data b) = (Inr k, cur_at data rest)"
    using read_count_at [OF assms(1), where limit = limit and missing = missing and invalid = invalid and args = args] Some x by auto
  from loop [OF suffix_order.trans [OF r(1) assms(1)]] show ?thesis
    by (simp add: Some x r(2) parse_counted_def)
qed

text \<open>A record of a fixed size and what comes after it.\<close>

lemma follows_record:
  assumes "suffix b data"
    and rest: "\<And>raw rest. suffix rest data \<Longrightarrow> parse_bytes n b = Some (raw, rest) \<Longrightarrow> follows data (q raw rest) f (go (cur_at data rest))"
    and stop: "\<And>err cur. fst (fail err cur) \<noteq> None"
  shows "follows data (case parse_bytes n b of None \<Rightarrow> None | Some (raw, rest) \<Rightarrow> q raw rest) f
    (case skip_bytes (int n) (cur_at data b) of (Some err, cur) \<Rightarrow> fail err cur | (None, cur) \<Rightarrow> go cur)"
proof (cases "length b < n")
  case True
  then obtain err cur where "skip_bytes (int n) (cur_at data b) = (Some err, cur)"
    using skip_at [OF assms(1), of n] by (cases "skip_bytes (int n) (cur_at data b)") auto
  with True stop show ?thesis
    by (simp add: parse_bytes_def follows_def)
next
  case False
  moreover have "suffix (drop n b) data"
    using assms(1) suffix_drop suffix_order.trans by blast
  ultimately show ?thesis
    using rest [of "drop n b" "take n b"] skip_at [OF assms(1), of n] by (simp add: parse_bytes_def)
qed

lemma follows_map: "follows data p (\<lambda>x. f (g x)) r \<Longrightarrow> follows data (map_option (\<lambda>(x, b). (g x, b)) p) f r"
  by (auto simp: follows_def split: option.splits)

lemma follows_loop:
  assumes item: "\<And>b st. suffix b data \<Longrightarrow> follows data (p b) (\<lambda>t. f t st) (decode (cur_at data b) st)"
    and empty: "\<And>i cur st. loop i 0 cur st = (None, cur, st)"
    and step: "\<And>i k cur st. loop i (Suc k) cur st =
      (case decode cur st of (Some err, cur, st) \<Rightarrow> (Some (wrap i k err), cur, st) | (None, cur, st) \<Rightarrow> loop (i + 1) k cur st)"
  shows "suffix b data \<Longrightarrow> follows data (parse_many p k b) (\<lambda>ts. fold f ts st) (loop i k (cur_at data b) st)"
proof (induction k arbitrary: i b st)
  case 0
  then show ?case by (simp add: empty follows_def)
next
  case (Suc k)
  note one = item [OF Suc.prems, of st]
  show ?case
  proof (cases "p b")
    case None
    with one show ?thesis
      by (cases "decode (cur_at data b) st") (auto simp: step follows_def)
  next
    case (Some x)
    obtain t rest where x: "x = (t, rest)" by (cases x)
    have r: "suffix rest data" "decode (cur_at data b) st = (None, cur_at data rest, f t st)"
      using one Some x by (simp_all add: follows_def)
    from Suc.IH [OF r(1), where st = "f t st" and i = "i + 1"] show ?thesis
      by (auto simp: step r(2) Some x follows_def split: option.splits)
  qed
qed

lemma follows_object:
  assumes "n \<le> 128" and "suffix b data"
  shows "follows data (parse_otree n b) (\<lambda>t. count_otree (129 - n) t st) (decodeObject (cur_at data b) st (129 - n))"
  using assms
proof (induction n arbitrary: b st)
  case 0
  then show ?case by (simp add: follows_def MaxRecursionDepth_def)
next
  case (Suc n)
  define d where "d = 128 - n"
  have d: "\<not> MaxRecursionDepth < d" "d + 1 = 129 - n" "129 - Suc n = d"
    using Suc.prems(1) by (simp_all add: d_def MaxRecursionDepth_def)
  let ?st = "(addDepth d st)\<lparr>St_Objects := St_Objects st + 1\<rparr>"
  have loop: "follows data (parse_many (parse_otree n) k rest) (\<lambda>ts. fold (count_otree (d + 1)) ts st)
      (decode_objects fmt i k (cur_at data rest) st (d + 1))" if "suffix rest data" for k rest fmt i st
    unfolding d(2) by (rule follows_loop [where decode = "\<lambda>cur st. decodeObject cur st (129 - n)"])
      (use Suc that in \<open>simp_all del: decodeObject.simps\<close>)
  show ?case
    unfolding d(3) decodeObject.simps [of _ _ d] parse_otree.simps if_not_P [OF d(1)] Let_def
    by (intro follows_record follows_map, rule Suc.prems(2), unfold count_OTree Suc_eq_plus1, rule follows_counted [OF _ loop])
      simp_all
qed

lemma follows_objects:
  assumes "n \<le> 128" and "suffix b data"
  shows "follows data (parse_many (parse_otree n) k b) (\<lambda>ts. fold (count_otree (129 - n)) ts st)
    (decode_objects fmt i k (cur_at data b) st (129 - n))"
  by (rule follows_loop [where decode = "\<lambda>cur st. decodeObject cur st (129 - n)"])
    (use assms follows_object in \<open>simp_all del: decodeObject.simps\<close>)

lemma follows_creature:
  assumes "suffix b data"
  shows "follows data (parse_ctree 127 b) (\<lambda>t. count_ctree 2 t st) (decodeCreature (cur_at data b) st 2)"
proof -
  have shallow: "\<not> MaxRecursionDepth < 2"
    by (simp add: MaxRecursionDepth_def)
  have levels: "parse_ctree 127 b = parse_ctree (Suc 126) b"
    by simp
  have loop: "follows data (parse_many (parse_otree 126) k rest) (\<lambda>ts. count_ctree 2 (CTree raw ts) st)
      (decode_objects fmt 0 k (cur_at data rest) ((addDepth 2 st)\<lparr>St_Creatures := St_Creatures st + 1\<rparr>) (2 + 1))"
    if "suffix rest data" for k rest fmt raw
    using follows_objects [of 126 rest data k "(addDepth 2 st)\<lparr>St_Creatures := St_Creatures st + 1\<rparr>" fmt 0] that
    by (simp add: count_ctree_def addDepth_def)
  show ?thesis
    unfolding decodeCreature_def levels parse_ctree.simps if_not_P [OF shallow] Let_def
    by (intro follows_record follows_map, rule assms, rule follows_counted [OF _ loop]) simp_all
qed

lemma follows_creatures:
  "suffix b data \<Longrightarrow> follows data (parse_many (parse_ctree 127) k b) (\<lambda>ts. fold (count_ctree 2) ts st)
     (decode_creatures i k (cur_at data b) st 2)"
  by (rule follows_loop [where decode = "\<lambda>cur st. decodeCreature cur st 2"]) (simp_all add: follows_creature)

text \<open>The texts of a room.\<close>

definition parse_text :: "byte list \<Rightarrow> (byte list \<times> byte list) option" where
  "parse_text b = (case parse_count MaxDescriptionBytes b of None \<Rightarrow> None | Some (n, b) \<Rightarrow> parse_bytes n b)"

lemma reads_text: "reads parse_text (\<lambda>t. length t \<le> MaxDescriptionBytes) print_text"
proof -
  have "int MaxDescriptionBytes < 2 ^ 31"
    by (simp add: MaxDescriptionBytes_def)
  note c = readsD [OF reads_count [OF this]]
  have "parse_text b = Some (t, rest) \<longleftrightarrow> (\<exists>k b'. parse_count MaxDescriptionBytes b = Some (k, b') \<and> parse_bytes k b' = Some (t, rest))"
    for b t rest
    by (auto simp: parse_text_def split: option.split)
  then show ?thesis
    by (auto simp: reads_def c readsD [OF reads_bytes] print_text_def)
qed

definition count_text :: "byte list \<Rightarrow> Stats \<Rightarrow> Stats" where
  "count_text t st =
     (if t = [] then st
      else st\<lparr>St_Descriptions := St_Descriptions st + 1, St_DescriptionBytes := St_DescriptionBytes st + length t\<rparr>)"

lemma follows_text:
  assumes "suffix b data"
  shows "follows data (parse_text b) (\<lambda>t. count_text t st) (decodeDescription (cur_at data b) st i)"
proof (cases "parse_count MaxDescriptionBytes b")
  case None
  then obtain err cur where "read_count ''room description %d length: %w'' ''invalid room description %d length %d at offset %d''
      [itoa (int i)] MaxDescriptionBytes (cur_at data b) = (Inl err, cur)"
    using read_count_at [OF assms, where limit = MaxDescriptionBytes] by fastforce
  with None show ?thesis
    by (simp add: parse_text_def decodeDescription_def follows_def)
next
  case (Some x)
  obtain k rest where x: "x = (k, rest)" by (cases x)
  have r: "suffix rest b" "read_count ''room description %d length: %w'' ''invalid room description %d length %d at offset %d''
      [itoa (int i)] MaxDescriptionBytes (cur_at data b) = (Inr k, cur_at data rest)"
    using read_count_at [OF assms, where limit = MaxDescriptionBytes] Some x by fastforce+
  then have s: "suffix rest data"
    using assms suffix_order.trans by blast
  have d: "suffix (drop k rest) data"
    using s suffix_drop suffix_order.trans by blast
  show ?thesis
    using skip_at [OF s, of k] d
    by (cases "skip_bytes (int k) (cur_at data rest)")
      (auto simp: Some x r(2) parse_text_def decodeDescription_def follows_def parse_bytes_def count_text_def)
qed

lemma follows_texts:
  "suffix b data \<Longrightarrow> follows data (parse_many parse_text (length is) b) (\<lambda>ts. fold count_text ts st)
     (decode_descriptions is (cur_at data b) st)"
proof (induction "is" arbitrary: b st)
  case Nil
  then show ?case by (simp add: follows_def)
next
  case (Cons i "is")
  note one = follows_text [OF Cons.prems, of st i]
  show ?case
  proof (cases "parse_text b")
    case None
    with one show ?thesis
      by (cases "decodeDescription (cur_at data b) st i") (auto simp: follows_def)
  next
    case (Some x)
    obtain t rest where x: "x = (t, rest)" by (cases x)
    have r: "suffix rest data" "decodeDescription (cur_at data b) st i = (None, cur_at data rest, count_text t st)"
      using one Some x by (simp_all add: follows_def)
    from Cons.IH [OF r(1), of "count_text t st"] show ?thesis
      by (auto simp: r(2) Some x follows_def split: option.splits)
  qed
qed

text \<open>The exits are skipped all at once.\<close>

lemma parse_many_bytes:
  "parse_many (parse_bytes w) k b = None \<longleftrightarrow> length b < k * w"
  "parse_many (parse_bytes w) k b = Some (xs, rest) \<Longrightarrow> rest = drop (k * w) b \<and> length xs = k"
proof (induction k arbitrary: b xs rest)
  case (Suc k)
  {
    case 1
    then show ?case
      using Suc.IH(1) [of "drop w b"] by (auto simp: parse_bytes_def)
  next
    case 2
    then show ?case
      using Suc.IH(2) [of "drop w b"] by (auto simp: parse_bytes_def add.commute split: if_splits)
  }
qed auto

definition count_exits :: "byte list list \<Rightarrow> Stats \<Rightarrow> Stats" where
  "count_exits es st = st\<lparr>St_Exits := St_Exits st + length es\<rparr>"

lemma follows_exits:
  assumes "suffix b data"
  shows "follows data (parse_counted (parse_bytes ExitSize) MaxRoomExits b) (\<lambda>es. count_exits es st) (decode_exits (cur_at data b) st)"
  unfolding decode_exits_def
proof (rule follows_counted [OF assms])
  fix k rest
  assume s: "suffix rest data"
  have d: "suffix (drop (k * ExitSize) rest) data"
    using s suffix_drop suffix_order.trans by blast
  show "follows data (parse_many (parse_bytes ExitSize) k rest) (\<lambda>es. count_exits es st)
     (case skip_bytes (int (k * ExitSize)) (cur_at data rest) of
        (None, cur) \<Rightarrow> (None, cur, st\<lparr>St_Exits := St_Exits st + k\<rparr>)
      | (Some err, cur) \<Rightarrow> (Some (Wrapf ''room exits: %w'' [] err), cur, st))"
    using skip_at [OF s, of "k * ExitSize"] parse_many_bytes [of ExitSize k rest] d
    by (cases "skip_bytes (int (k * ExitSize)) (cur_at data rest)"; cases "parse_many (parse_bytes ExitSize) k rest")
      (auto simp: follows_def count_exits_def)
qed

definition parse_rtree :: "byte list \<Rightarrow> (rtree \<times> byte list) option" where
  "parse_rtree b =
     (case parse_bytes RoomSize b of None \<Rightarrow> None | Some (raw, b) \<Rightarrow>
      (case parse_counted (parse_bytes ExitSize) MaxRoomExits b of None \<Rightarrow> None | Some (es, b) \<Rightarrow>
       (case parse_counted (parse_ctree 127) MaxRoomCreatures b of None \<Rightarrow> None | Some (cs, b) \<Rightarrow>
        (case parse_counted (parse_otree 127) MaxRoomObjects b of None \<Rightarrow> None | Some (os, b) \<Rightarrow>
          map_option (\<lambda>(ts, b). (\<lparr>Rt_Raw = raw, Rt_Exits = es, Rt_Creatures = cs, Rt_Objects = os, Rt_Texts = ts\<rparr>, b))
            (parse_many parse_text 3 b)))))"

definition count_rtree :: "rtree \<Rightarrow> Stats \<Rightarrow> Stats" where
  "count_rtree r st =
     fold count_text (Rt_Texts r) (fold (count_otree 2) (Rt_Objects r) (fold (count_ctree 2) (Rt_Creatures r)
       (count_exits (Rt_Exits r) ((addDepth 1 st)\<lparr>St_Rooms := St_Rooms st + 1\<rparr>))))"

lemma follows_then:
  assumes "follows data p f r"
    and "\<And>x rest. suffix rest data \<Longrightarrow> follows data (q x rest) h (go (cur_at data rest) (f x))"
  shows "follows data (case p of None \<Rightarrow> None | Some (x, rest) \<Rightarrow> q x rest) h (and_then r go)"
proof (cases p)
  case None
  with assms(1) show ?thesis
    by (cases r) (auto simp: follows_def and_then_def)
next
  case (Some y)
  obtain x rest where y: "p = Some (x, rest)"
    using Some by (cases y) simp
  with assms(1) have r: "suffix rest data" "r = (None, cur_at data rest, f x)"
    by (simp_all add: follows_def)
  with assms(2) [OF r(1), of x] y show ?thesis
    by (simp add: and_then_def)
qed

lemma reads_rtree: "reads parse_rtree rtree_ok print_rtree"
proof -
  have lim: "int MaxRoomExits < 2 ^ 31" "int MaxRoomCreatures < 2 ^ 31" "int MaxRoomObjects < 2 ^ 31"
    by (simp_all add: MaxRoomExits_def MaxRoomCreatures_def MaxRoomObjects_def)
  note parts = readsD [OF reads_bytes] readsD [OF reads_counted [OF reads_bytes lim(1)]]
    readsD [OF reads_counted [OF reads_ctree lim(2)]] readsD [OF reads_counted [OF reads_otree lim(3)]]
    readsD [OF reads_many [OF reads_text]]
  show ?thesis
    unfolding reads_def
  proof (intro allI)
    fix b r rest
    obtain raw es cs os ts where r: "r = \<lparr>Rt_Raw = raw, Rt_Exits = es, Rt_Creatures = cs, Rt_Objects = os, Rt_Texts = ts\<rparr>"
      by (cases r)
    have "parse_rtree b = Some (r, rest) \<longleftrightarrow>
        (\<exists>b1 b2 b3 b4. parse_bytes RoomSize b = Some (raw, b1)
          \<and> parse_counted (parse_bytes ExitSize) MaxRoomExits b1 = Some (es, b2)
          \<and> parse_counted (parse_ctree 127) MaxRoomCreatures b2 = Some (cs, b3)
          \<and> parse_counted (parse_otree 127) MaxRoomObjects b3 = Some (os, b4) \<and> parse_many parse_text 3 b4 = Some (ts, rest))"
      unfolding parse_rtree_def r by (auto split: option.split)
    also have "\<dots> \<longleftrightarrow> rtree_ok r \<and> b = print_rtree r @ rest"
      unfolding parts r by (auto simp: rtree_ok_def print_rtree_def)
    finally show "parse_rtree b = Some (r, rest) \<longleftrightarrow> rtree_ok r \<and> b = print_rtree r @ rest" .
  qed
qed

lemma follows_room:
  assumes "suffix b data"
  shows "follows data (parse_rtree b) (\<lambda>r. count_rtree r st) (decodeRoom (cur_at data b) st 1)"
proof -
  have shallow: "\<not> MaxRecursionDepth < 1"
    by (simp add: MaxRecursionDepth_def)
  have creatures: "follows data (parse_counted (parse_ctree 127) MaxRoomCreatures rest) (\<lambda>cs. fold (count_ctree 2) cs st)
      (decode_room_creatures (cur_at data rest) st 1)" if "suffix rest data" for rest st
    unfolding decode_room_creatures_def one_add_one by (rule follows_counted [OF that follows_creatures])
  have objects: "follows data (parse_counted (parse_otree 127) MaxRoomObjects rest) (\<lambda>os. fold (count_otree 2) os st)
      (decode_room_objects (cur_at data rest) st 1)" if "suffix rest data" for rest st
    unfolding decode_room_objects_def one_add_one
    by (rule follows_counted [OF that]) (use follows_objects [of 127 _ data] in simp)
  have texts: "follows data (parse_many parse_text 3 rest) (\<lambda>ts. fold count_text ts st)
      (decode_descriptions [0, 1, 2] (cur_at data rest) st)" if "suffix rest data" for rest st
    using follows_texts [OF that, of "[0, 1, 2]" st] by (simp add: numeral_3_eq_3)
  show ?thesis
    unfolding decodeRoom_def parse_rtree_def if_not_P [OF shallow]
    by (intro follows_record follows_then follows_map; (rule assms follows_exits creatures objects)?; (assumption)?)
      (simp_all only: count_rtree_def rtree.simps fst_conv option.distinct not_False_eq_True texts)
qed

subsection \<open>Files\<close>

lemma follows_file:
  assumes "follows data p f r" and "\<And>x rest. p = Some (x, rest) \<longleftrightarrow> ok x \<and> data = print x @ rest"
  shows "(\<exists>st cur. r = (None, cur, st) \<and> P cur st) \<longleftrightarrow> (\<exists>x rest. ok x \<and> data = print x @ rest \<and> P (cur_at data rest) (f x))"
proof (cases p)
  case None
  with assms(2) have "\<not> (\<exists>x rest. ok x \<and> data = print x @ rest)" by auto
  with None assms(1) show ?thesis by (cases r) (auto simp: follows_def)
next
  case (Some y)
  obtain x rest where y: "p = Some (x, rest)"
    using Some by (cases y) simp
  then have only: "ok x' \<and> data = print x' @ rest' \<longleftrightarrow> x' = x \<and> rest' = rest" for x' rest'
    using assms(2) [of x' rest'] by auto
  have "r = (None, cur_at data rest, f x)"
    using assms(1) y by (simp add: follows_def)
  moreover have "(\<exists>x rest. ok x \<and> data = print x @ rest \<and> P (cur_at data rest) (f x)) \<longleftrightarrow> P (cur_at data rest) (f x)"
    unfolding conj_assoc [symmetric] only by auto
  ultimately show ?thesis by auto
qed

text \<open>A file is accepted as an object exactly when it is the printed form of a tree of objects within the
  limits, followed by nothing, or by anything where trailing bytes are allowed: so no two trees have one
  file; and the counts are those of the tree.\<close>

theorem Object_file_grammar:
  "decodeObjectFile data allowTrailing = (st, None) \<longleftrightarrow>
     (\<exists>t rest. otree_ok 128 t \<and> data = print_otree t @ rest \<and> (rest = [] \<or> allowTrailing)
        \<and> st = noStats\<lparr>St_Objects := objects_in t, St_MaxDepth := lowest t 1, St_TrailingBytes := length rest\<rparr>)"
proof -
  have "decodeObjectFile data allowTrailing = (st, None) \<longleftrightarrow>
      (\<exists>s cur. decodeObject (NewCursor data) noStats 1 = (None, cur, s)
         \<and> (cursor_EOF cur \<and> st = s \<or> \<not> cursor_EOF cur \<and> allowTrailing \<and> st = s\<lparr>St_TrailingBytes := nat (Remaining cur)\<rparr>))"
    unfolding decodeObjectFile_def by (auto simp del: decodeObject.simps split: prod.splits option.splits)
  also have "\<dots> \<longleftrightarrow> (\<exists>t rest. otree_ok 128 t \<and> data = print_otree t @ rest
      \<and> (cursor_EOF (cur_at data rest) \<and> st = count_otree 1 t noStats
        \<or> \<not> cursor_EOF (cur_at data rest) \<and> allowTrailing
          \<and> st = (count_otree 1 t noStats)\<lparr>St_TrailingBytes := nat (Remaining (cur_at data rest))\<rparr>))"
    using follows_object [of 128 data data noStats] unfolding NewCursor_at
    by (intro follows_file [where p = "parse_otree 128 data"]) (simp_all add: readsD [OF reads_otree] del: decodeObject.simps)
  also have "\<dots> \<longleftrightarrow> (\<exists>t rest. otree_ok 128 t \<and> data = print_otree t @ rest \<and> (rest = [] \<or> allowTrailing)
      \<and> st = noStats\<lparr>St_Objects := objects_in t, St_MaxDepth := lowest t 1, St_TrailingBytes := length rest\<rparr>)"
    by (intro ex_cong1 conj_cong refl) (auto simp: EOF_at Remaining_at count_otree_def noStats_def suffix_def)
  finally show ?thesis .
qed

lemma Room_file_iff:
  "DecodeRoomFile data = (st, None) \<longleftrightarrow> (\<exists>r. rtree_ok r \<and> data = print_rtree r \<and> st = count_rtree r noStats)"
proof -
  have "DecodeRoomFile data = (st, None) \<longleftrightarrow>
      (\<exists>s cur. decodeRoom (NewCursor data) noStats 1 = (None, cur, s) \<and> cursor_EOF cur \<and> st = s)"
    unfolding DecodeRoomFile_def by (auto split: prod.splits option.splits)
  also have "\<dots> \<longleftrightarrow> (\<exists>r rest. rtree_ok r \<and> data = print_rtree r @ rest \<and> cursor_EOF (cur_at data rest) \<and> st = count_rtree r noStats)"
    using follows_room [of data data noStats] unfolding NewCursor_at
    by (intro follows_file [where p = "parse_rtree data"]) (simp_all add: readsD [OF reads_rtree])
  also have "\<dots> \<longleftrightarrow> (\<exists>r. rtree_ok r \<and> data = print_rtree r \<and> st = count_rtree r noStats)"
    by (auto simp: EOF_at suffix_def)
  finally show ?thesis .
qed

lemma fold_count_ctree:
  "St_Objects (fold (count_ctree d) cs st) = St_Objects st + sum_list (map objects_in (concat (map items_of cs)))"
  "St_Creatures (fold (count_ctree d) cs st) = St_Creatures st + length cs"
  "St_Rooms (fold (count_ctree d) cs st) = St_Rooms st" "St_Exits (fold (count_ctree d) cs st) = St_Exits st"
  "St_Descriptions (fold (count_ctree d) cs st) = St_Descriptions st"
  "St_DescriptionBytes (fold (count_ctree d) cs st) = St_DescriptionBytes st"
  "St_TrailingBytes (fold (count_ctree d) cs st) = St_TrailingBytes st"
  by (induction cs arbitrary: st) (simp_all add: count_ctree_def fold_count_otree addDepth_def)

lemma fold_count_text:
  "fold count_text ts st =
     st\<lparr>St_Descriptions := St_Descriptions st + length (filter (\<lambda>t. t \<noteq> []) ts),
        St_DescriptionBytes := St_DescriptionBytes st + length (concat ts)\<rparr>"
  by (induction ts arbitrary: st) (simp_all add: count_text_def)

text \<open>C30. A file is accepted as a room exactly when it is the printed form of a room within the limits, with
  its exits, creatures and their things, objects and three texts, and nothing after it; the statistics
  are the numbers of them in the room.\<close>

theorem Room_file_grammar:
  "DecodeRoomFile data = (st, None) \<longleftrightarrow>
     (\<exists>r. rtree_ok r \<and> data = print_rtree r
        \<and> st = \<lparr>St_Objects = sum_list (map objects_in (concat (map items_of (Rt_Creatures r)) @ Rt_Objects r)),
                St_Creatures = length (Rt_Creatures r), St_Rooms = 1, St_Exits = length (Rt_Exits r),
                St_Descriptions = length (filter (\<lambda>t. t \<noteq> []) (Rt_Texts r)), St_DescriptionBytes = length (concat (Rt_Texts r)),
                St_TrailingBytes = 0, St_MaxDepth = St_MaxDepth (count_rtree r noStats)\<rparr>)"
proof -
  have "count_rtree r noStats =
      \<lparr>St_Objects = sum_list (map objects_in (concat (map items_of (Rt_Creatures r)) @ Rt_Objects r)),
       St_Creatures = length (Rt_Creatures r), St_Rooms = 1, St_Exits = length (Rt_Exits r),
       St_Descriptions = length (filter (\<lambda>t. t \<noteq> []) (Rt_Texts r)), St_DescriptionBytes = length (concat (Rt_Texts r)),
       St_TrailingBytes = 0, St_MaxDepth = St_MaxDepth (count_rtree r noStats)\<rparr>" for r
    unfolding count_rtree_def fold_count_text fold_count_otree
    by (rule Stats.equality) (simp_all add: fold_count_ctree count_exits_def addDepth_def noStats_def)
  then show ?thesis
    unfolding Room_file_iff by (intro ex_cong1 conj_cong refl) simp
qed

end
