(* ===== verification/RecordNodes.thy ===== *)
theory RecordNodes
  imports RecordTrees
begin

text \<open>
  The second pass over a validated file (\<^verbatim>\<open>internal/persist/cbin/tree.go\<close>, and \<^verbatim>\<open>DecodeRoomFileRecord\<close> of
  \<^verbatim>\<open>record.go\<close>): the records with their offsets, statistics and the texts that could not be decoded.
\<close>

record TreeWarning =
  TW_Offset :: nat
  TW_Field :: string
  TW_Message :: ConversionError

datatype ObjectNode = ObjectNode
  (On_Offset: nat) (On_Record: ObjectRecord) (On_Children: "ObjectNode list") (On_Stats: Stats) (On_Warnings: "TreeWarning list")

record CreatureNode =
  Cn_Offset :: nat
  Cn_Record :: CreatureRecord
  Cn_Inventory :: "ObjectNode list"
  Cn_Stats :: Stats
  Cn_Warnings :: "TreeWarning list"

record ExitNode =
  En_Offset :: nat
  En_Record :: ExitRecord
  En_Warnings :: "TreeWarning list"

record RoomDescriptionNode =
  Dn_Index :: nat
  Dn_LengthOffset :: nat
  Dn_Offset :: nat
  Dn_Size :: nat
  Dn_Text :: TextField

record RoomNode =
  Rn_Offset :: nat
  Rn_Record :: RoomRecord
  Rn_Exits :: "ExitNode list"
  Rn_Creatures :: "CreatureNode list"
  Rn_Objects :: "ObjectNode list"
  Rn_Descriptions :: "RoomDescriptionNode list"
  Rn_Stats :: Stats
  Rn_Warnings :: "TreeWarning list"

subsection \<open>Warnings\<close>

text \<open>A warning keeps the error its message is rendered from.\<close>

definition textWarning :: "nat \<Rightarrow> string \<Rightarrow> TextField \<Rightarrow> TreeWarning list" where
  "textWarning off field text =
     (case TF_Err text of None \<Rightarrow> [] | Some err \<Rightarrow> [\<lparr>TW_Offset = off, TW_Field = field, TW_Message = err\<rparr>])"

definition keyWarnings :: "nat \<Rightarrow> string \<Rightarrow> TextField list \<Rightarrow> TreeWarning list" where
  "keyWarnings off field keys =
     concat (map (\<lambda>(i, key). textWarning (off + i * cString20) (indexed field i) key) (enumerate 0 keys))"

definition objectWarnings :: "nat \<Rightarrow> ObjectRecord \<Rightarrow> TreeWarning list" where
  "objectWarnings off rec =
     textWarning (off + objectNameOff) ''object.name'' (OR_Name rec)
      @ textWarning (off + objectDescriptionOff) ''object.description'' (OR_Description rec)
      @ keyWarnings (off + objectKeyOff) ''object.key'' (OR_Keys rec)
      @ textWarning (off + objectUseOutputOff) ''object.use_output'' (OR_UseOutput rec)"

definition creatureWarnings :: "nat \<Rightarrow> CreatureRecord \<Rightarrow> TreeWarning list" where
  "creatureWarnings off rec =
     textWarning (off + creatureNameOff) ''creature.name'' (CR_Name rec)
      @ textWarning (off + creatureDescriptionOff) ''creature.description'' (CR_Description rec)
      @ textWarning (off + creatureTalkOff) ''creature.talk'' (CR_Talk rec)
      @ textWarning (off + creaturePasswordOff) ''creature.password'' (CR_Password rec)
      @ keyWarnings (off + creatureKeyOff) ''creature.key'' (CR_Keys rec)"

definition roomWarnings :: "nat \<Rightarrow> RoomRecord \<Rightarrow> TreeWarning list" where
  "roomWarnings off rec = textWarning (off + roomNameOff) ''room.name'' (RR_Name rec)"

definition exitWarnings :: "nat \<Rightarrow> ExitRecord \<Rightarrow> TreeWarning list" where
  "exitWarnings off rec = textWarning (off + exitNameOff) ''exit.name'' (ER_Name rec)"

definition mergeChildStats :: "Stats \<Rightarrow> Stats \<Rightarrow> nat \<Rightarrow> Stats" where
  "mergeChildStats st child depthOffset =
     (let st = st\<lparr>St_Objects := St_Objects st + St_Objects child, St_Creatures := St_Creatures st + St_Creatures child,
            St_Rooms := St_Rooms st + St_Rooms child, St_Exits := St_Exits st + St_Exits child,
            St_Descriptions := St_Descriptions st + St_Descriptions child,
            St_DescriptionBytes := St_DescriptionBytes st + St_DescriptionBytes child\<rparr>;
          depth = St_MaxDepth child + depthOffset
      in if St_MaxDepth st < depth then st\<lparr>St_MaxDepth := depth\<rparr> else st)"

subsection \<open>Reading nodes\<close>

text \<open>The bytes from the cursor on, \<^verbatim>\<open>cur.data[cur.off:]\<close>.\<close>

definition Ahead :: "Cursor \<Rightarrow> byte list" where
  "Ahead cur = drop (Cur_off cur) (Cur_data cur)"

type_synonym 'a read = "'a result \<times> Cursor"

text \<open>A record at the cursor: it is decoded, and the cursor moves past it.\<close>

definition read_record :: "(byte list \<Rightarrow> 'a result) \<Rightarrow> nat \<Rightarrow> string \<Rightarrow> string list \<Rightarrow> Cursor \<Rightarrow> 'a read" where
  "read_record decode sz fmt args cur =
     (case decode (Ahead cur) of
        Inl err \<Rightarrow> (Inl (Wrapf fmt args err), cur)
      | Inr rec \<Rightarrow>
          (case skip_bytes (int sz) cur of
             (Some err, cur) \<Rightarrow> (Inl (Wrapf fmt args err), cur)
           | (None, cur) \<Rightarrow> (Inr rec, cur)))"

text \<open>What a loop over children has collected: the nodes, the statistics and the warnings of the parent.\<close>

type_synonym 'a collected = "'a list \<times> Stats \<times> TreeWarning list"

definition collect_object :: "ObjectNode collected \<Rightarrow> ObjectNode \<Rightarrow> ObjectNode collected" where
  "collect_object acc child =
     (case acc of (nodes, st, ws) \<Rightarrow> (nodes @ [child], mergeChildStats st (On_Stats child) 1, ws @ On_Warnings child))"

function readObjectNode :: "decoder \<Rightarrow> Cursor \<Rightarrow> nat \<Rightarrow> ObjectNode read"
  and read_objects :: "decoder \<Rightarrow> string \<Rightarrow> nat \<Rightarrow> nat \<Rightarrow> Cursor \<Rightarrow> nat \<Rightarrow> ObjectNode collected \<Rightarrow> ObjectNode collected read"
where
  "readObjectNode euckr cur depth =
     (if MaxRecursionDepth < depth then (Inl (too_deep ''object''), cur)
      else case read_record (DecodeObjectRecord euckr) ObjectSize ''object record at offset %d: %w'' [itoa (int (Cur_off cur))] cur of
        (Inl err, cur') \<Rightarrow> (Inl err, cur')
      | (Inr rec, cur') \<Rightarrow>
          (case read_count ''object child count: %w'' ''invalid object child count %d at offset %d'' [] MaxObjectChildren cur' of
             (Inl err, cur') \<Rightarrow> (Inl err, cur')
           | (Inr count, cur') \<Rightarrow>
               (case read_objects euckr ''object child %d/%d at offset %d: %w'' 0 count cur' (depth + 1)
                       ([], noStats\<lparr>St_Objects := 1, St_MaxDepth := 1\<rparr>, objectWarnings (Cur_off cur) rec) of
                  (Inl err, cur') \<Rightarrow> (Inl err, cur')
                | (Inr (children, st, ws), cur') \<Rightarrow> (Inr (ObjectNode (Cur_off cur) rec children st ws), cur'))))"
| "read_objects euckr fmt i 0 cur depth acc = (Inr acc, cur)"
| "read_objects euckr fmt i (Suc k) cur depth acc =
     (case readObjectNode euckr cur depth of
        (Inl err, cur') \<Rightarrow>
          (Inl (Wrapf fmt [itoa (int (i + 1)), itoa (int (i + Suc k)), itoa (int (Cur_off cur))] err), cur')
      | (Inr child, cur') \<Rightarrow> read_objects euckr fmt (i + 1) k cur' depth (collect_object acc child))"
  by pat_completeness auto
termination
  by (relation "inv_image (less_than <*lex*> less_than)
        (\<lambda>x. case x of Inl (e, cur, d) \<Rightarrow> (129 - d, 0) | Inr (e, fmt, i, k, cur, d, acc) \<Rightarrow> (129 - d, Suc k))")
    (auto simp: MaxRecursionDepth_def)

definition readCreatureNode :: "decoder \<Rightarrow> Cursor \<Rightarrow> nat \<Rightarrow> CreatureNode read" where
  "readCreatureNode euckr cur depth =
     (if MaxRecursionDepth < depth then (Inl (too_deep ''creature''), cur)
      else case read_record (DecodeCreatureRecord euckr) CreatureSize ''creature record at offset %d: %w''
                  [itoa (int (Cur_off cur))] cur of
        (Inl err, cur') \<Rightarrow> (Inl err, cur')
      | (Inr rec, cur') \<Rightarrow>
          (case read_count ''creature inventory count: %w'' ''invalid creature inventory count %d at offset %d'' []
                  MaxCreatureItems cur' of
             (Inl err, cur') \<Rightarrow> (Inl err, cur')
           | (Inr count, cur') \<Rightarrow>
               (case read_objects euckr ''creature inventory object %d/%d at offset %d: %w'' 0 count cur' (depth + 1)
                       ([], noStats\<lparr>St_Creatures := 1, St_MaxDepth := 1\<rparr>, creatureWarnings (Cur_off cur) rec) of
                  (Inl err, cur') \<Rightarrow> (Inl err, cur')
                | (Inr (items, st, ws), cur') \<Rightarrow>
                    (Inr \<lparr>Cn_Offset = Cur_off cur, Cn_Record = rec, Cn_Inventory = items, Cn_Stats = st, Cn_Warnings = ws\<rparr>, cur'))))"

definition collect_creature :: "CreatureNode collected \<Rightarrow> CreatureNode \<Rightarrow> CreatureNode collected" where
  "collect_creature acc c =
     (case acc of (nodes, st, ws) \<Rightarrow> (nodes @ [c], mergeChildStats st (Cn_Stats c) 1, ws @ Cn_Warnings c))"

fun read_creatures :: "decoder \<Rightarrow> nat \<Rightarrow> nat \<Rightarrow> Cursor \<Rightarrow> nat \<Rightarrow> CreatureNode collected \<Rightarrow> CreatureNode collected read" where
  "read_creatures euckr i 0 cur depth acc = (Inr acc, cur)"
| "read_creatures euckr i (Suc k) cur depth acc =
     (case readCreatureNode euckr cur depth of
        (Inl err, cur') \<Rightarrow>
          (Inl (Wrapf ''room creature %d/%d at offset %d: %w''
             [itoa (int (i + 1)), itoa (int (i + Suc k)), itoa (int (Cur_off cur))] err), cur')
      | (Inr child, cur') \<Rightarrow> read_creatures euckr (i + 1) k cur' depth (collect_creature acc child))"

fun read_exits :: "decoder \<Rightarrow> nat \<Rightarrow> nat \<Rightarrow> Cursor \<Rightarrow> ExitNode list \<times> TreeWarning list \<Rightarrow> (ExitNode list \<times> TreeWarning list) read" where
  "read_exits euckr i 0 cur acc = (Inr acc, cur)"
| "read_exits euckr i (Suc k) cur acc =
     (case read_record (DecodeExitRecord euckr) ExitSize ''room exit %d/%d at offset %d: %w''
             [itoa (int (i + 1)), itoa (int (i + Suc k)), itoa (int (Cur_off cur))] cur of
        (Inl err, cur') \<Rightarrow> (Inl err, cur')
      | (Inr rec, cur') \<Rightarrow>
          read_exits euckr (i + 1) k cur'
            (fst acc @ [\<lparr>En_Offset = Cur_off cur, En_Record = rec, En_Warnings = exitWarnings (Cur_off cur) rec\<rparr>],
             snd acc @ exitWarnings (Cur_off cur) rec))"

definition readRoomDescriptionNode :: "decoder \<Rightarrow> Cursor \<Rightarrow> nat \<Rightarrow> RoomDescriptionNode read" where
  "readRoomDescriptionNode euckr cur index =
     (case read_count ''room description %d length: %w'' ''invalid room description %d length %d at offset %d''
             [itoa (int index)] MaxDescriptionBytes cur of
        (Inl err, cur') \<Rightarrow> (Inl err, cur')
      | (Inr n, cur') \<Rightarrow>
          if length (Cur_data cur') < Cur_off cur' + n
          then (Inl (Errorf ''room description %d bytes: need %d bytes at offset %d, remaining %d''
                  [itoa (int index), itoa (int n), itoa (int (Cur_off cur')), itoa (Remaining cur')]), cur')
          else
            let description =
                  \<lparr>Dn_Index = index, Dn_LengthOffset = Cur_off cur, Dn_Offset = Cur_off cur', Dn_Size = n,
                   Dn_Text = decodeCString euckr (Cur_data cur') (Cur_off cur') n (indexed ''room.description'' index)\<rparr>
            in case skip_bytes (int n) cur' of
                 (Some err, cur') \<Rightarrow> (Inl (Wrapf ''room description %d bytes: %w'' [itoa (int index)] err), cur')
               | (None, cur') \<Rightarrow> (Inr description, cur'))"

definition put_description :: "RoomDescriptionNode \<Rightarrow> RoomNode \<Rightarrow> RoomNode" where
  "put_description d node =
     (let i = Dn_Index d; text = Dn_Text d; rec = Rn_Record node;
          rec = (if i = 0 then rec\<lparr>RR_ShortDescription := text\<rparr>
                 else if i = 1 then rec\<lparr>RR_LongDescription := text\<rparr>
                 else rec\<lparr>RR_ObjectDescription := text\<rparr>);
          st = Rn_Stats node
      in node\<lparr>Rn_Descriptions := Rn_Descriptions node @ [d], Rn_Record := rec,
              Rn_Stats := (if 0 < Dn_Size d
                           then st\<lparr>St_Descriptions := St_Descriptions st + 1,
                                   St_DescriptionBytes := St_DescriptionBytes st + Dn_Size d\<rparr>
                           else st),
              Rn_Warnings := Rn_Warnings node @ textWarning (Dn_Offset d) (indexed ''room.description'' i) text\<rparr>)"

fun read_descriptions :: "decoder \<Rightarrow> nat list \<Rightarrow> Cursor \<Rightarrow> RoomNode \<Rightarrow> RoomNode read" where
  "read_descriptions euckr [] cur node = (Inr node, cur)"
| "read_descriptions euckr (i # is) cur node =
     (case readRoomDescriptionNode euckr cur i of
        (Inl err, cur') \<Rightarrow> (Inl err, cur')
      | (Inr d, cur') \<Rightarrow> read_descriptions euckr is cur' (put_description d node))"

definition and_read :: "'a read \<Rightarrow> ('a \<Rightarrow> Cursor \<Rightarrow> 'b read) \<Rightarrow> 'b read" where
  "and_read r f = (case r of (Inl err, cur) \<Rightarrow> (Inl err, cur) | (Inr x, cur) \<Rightarrow> f x cur)"

definition readRoomNode :: "decoder \<Rightarrow> Cursor \<Rightarrow> nat \<Rightarrow> RoomNode read" where
  "readRoomNode euckr cur depth =
     (if MaxRecursionDepth < depth then (Inl (too_deep ''room''), cur)
      else
        and_read (read_record (DecodeRoomRecord euckr) RoomSize ''room record at offset %d: %w'' [itoa (int (Cur_off cur))] cur)
          (\<lambda>rec cur1.
        and_read (read_count ''room exit count: %w'' ''invalid room exit count %d at offset %d'' [] MaxRoomExits cur1)
          (\<lambda>exitCount cur2.
        and_read (read_exits euckr 0 exitCount cur2 ([], roomWarnings (Cur_off cur) rec))
          (\<lambda>(exits, ws) cur3.
        and_read (read_count ''room creature count: %w'' ''invalid room creature count %d at offset %d'' [] MaxRoomCreatures cur3)
          (\<lambda>creatureCount cur4.
        and_read (read_creatures euckr 0 creatureCount cur4 (depth + 1)
                    ([], noStats\<lparr>St_Rooms := 1, St_MaxDepth := 1, St_Exits := exitCount\<rparr>, ws))
          (\<lambda>(creatures, st, ws) cur5.
        and_read (read_count ''room object count: %w'' ''invalid room object count %d at offset %d'' [] MaxRoomObjects cur5)
          (\<lambda>objectCount cur6.
        and_read (read_objects euckr ''room object %d/%d at offset %d: %w'' 0 objectCount cur6 (depth + 1) ([], st, ws))
          (\<lambda>(objects, st, ws) cur7.
        read_descriptions euckr [0, 1, 2] cur7
          \<lparr>Rn_Offset = Cur_off cur, Rn_Record = rec, Rn_Exits = exits, Rn_Creatures = creatures, Rn_Objects = objects,
           Rn_Descriptions = [], Rn_Stats = st, Rn_Warnings = ws\<rparr>))))))))"

subsection \<open>Files\<close>

definition DecodeObjectTree :: "decoder \<Rightarrow> byte list \<Rightarrow> bool \<Rightarrow> ObjectNode result" where
  "DecodeObjectTree euckr data allowTrailing =
     (case if allowTrailing then DecodeObjectFileAllowTrailing data else DecodeObjectFile data of
        (st, Some err) \<Rightarrow> Inl err
      | (st, None) \<Rightarrow>
          (case fst (readObjectNode euckr (NewCursor data) 1) of
             Inl err \<Rightarrow> Inl err
           | Inr (ObjectNode off rec children own ws) \<Rightarrow> Inr (ObjectNode off rec children st ws)))"

definition DecodeCreatureTree :: "decoder \<Rightarrow> byte list \<Rightarrow> CreatureNode result" where
  "DecodeCreatureTree euckr data =
     (case DecodeCreatureFile data of
        (st, Some err) \<Rightarrow> Inl err
      | (st, None) \<Rightarrow>
          (case fst (readCreatureNode euckr (NewCursor data) 1) of
             Inl err \<Rightarrow> Inl err
           | Inr node \<Rightarrow> Inr (node\<lparr>Cn_Stats := st\<rparr>)))"

definition DecodeRoomTree :: "decoder \<Rightarrow> byte list \<Rightarrow> RoomNode result" where
  "DecodeRoomTree euckr data =
     (case DecodeRoomFile data of
        (st, Some err) \<Rightarrow> Inl err
      | (st, None) \<Rightarrow>
          (case fst (readRoomNode euckr (NewCursor data) 1) of
             Inl err \<Rightarrow> Inl err
           | Inr node \<Rightarrow> Inr (node\<lparr>Rn_Stats := st\<rparr>)))"

subsection \<open>The record of a room alone\<close>

type_synonym skipped = "go_error option \<times> Cursor"

function skipObjectTree :: "Cursor \<Rightarrow> nat \<Rightarrow> skipped"
  and skip_objects :: "string \<Rightarrow> nat \<Rightarrow> nat \<Rightarrow> Cursor \<Rightarrow> nat \<Rightarrow> skipped"
where
  "skipObjectTree cur depth =
     (if MaxRecursionDepth < depth then (Some (too_deep ''object''), cur)
      else case skip_bytes (int ObjectSize) cur of
        (Some err, cur) \<Rightarrow> (Some (Wrapf ''object record: %w'' [] err), cur)
      | (None, cur) \<Rightarrow>
          (case read_count ''object child count: %w'' ''invalid object child count %d at offset %d'' [] MaxObjectChildren cur of
             (Inl err, cur) \<Rightarrow> (Some err, cur)
           | (Inr count, cur) \<Rightarrow> skip_objects ''object child %d/%d: %w'' 0 count cur (depth + 1)))"
| "skip_objects fmt i 0 cur depth = (None, cur)"
| "skip_objects fmt i (Suc k) cur depth =
     (case skipObjectTree cur depth of
        (Some err, cur) \<Rightarrow> (Some (Wrapf fmt [itoa (int (i + 1)), itoa (int (i + Suc k))] err), cur)
      | (None, cur) \<Rightarrow> skip_objects fmt (i + 1) k cur depth)"
  by pat_completeness auto
termination
  by (relation "inv_image (less_than <*lex*> less_than)
        (\<lambda>x. case x of Inl (cur, d) \<Rightarrow> (129 - d, 0) | Inr (fmt, i, k, cur, d) \<Rightarrow> (129 - d, Suc k))")
    (auto simp: MaxRecursionDepth_def)

definition skipCreatureTree :: "Cursor \<Rightarrow> nat \<Rightarrow> skipped" where
  "skipCreatureTree cur depth =
     (if MaxRecursionDepth < depth then (Some (too_deep ''creature''), cur)
      else case skip_bytes (int CreatureSize) cur of
        (Some err, cur) \<Rightarrow> (Some (Wrapf ''creature record: %w'' [] err), cur)
      | (None, cur) \<Rightarrow>
          (case read_count ''creature inventory count: %w'' ''invalid creature inventory count %d at offset %d'' []
                  MaxCreatureItems cur of
             (Inl err, cur) \<Rightarrow> (Some err, cur)
           | (Inr count, cur) \<Rightarrow> skip_objects ''creature inventory object %d/%d: %w'' 0 count cur (depth + 1)))"

fun skip_creatures :: "nat \<Rightarrow> nat \<Rightarrow> Cursor \<Rightarrow> skipped" where
  "skip_creatures i 0 cur = (None, cur)"
| "skip_creatures i (Suc k) cur =
     (case skipCreatureTree cur 1 of
        (Some err, cur) \<Rightarrow> (Some (Wrapf ''room creature %d/%d: %w'' [itoa (int (i + 1)), itoa (int (i + Suc k))] err), cur)
      | (None, cur) \<Rightarrow> skip_creatures (i + 1) k cur)"

definition skipRoomContents :: "Cursor \<Rightarrow> skipped" where
  "skipRoomContents cur =
     (case read_count ''room exit count: %w'' ''invalid room exit count %d at offset %d'' [] MaxRoomExits cur of
        (Inl err, cur) \<Rightarrow> (Some err, cur)
      | (Inr exitCount, cur) \<Rightarrow>
     (case skip_bytes (int (exitCount * ExitSize)) cur of
        (Some err, cur) \<Rightarrow> (Some (Wrapf ''room exits: %w'' [] err), cur)
      | (None, cur) \<Rightarrow>
     (case read_count ''room creature count: %w'' ''invalid room creature count %d at offset %d'' [] MaxRoomCreatures cur of
        (Inl err, cur) \<Rightarrow> (Some err, cur)
      | (Inr creatureCount, cur) \<Rightarrow>
     (case skip_creatures 0 creatureCount cur of
        (Some err, cur) \<Rightarrow> (Some err, cur)
      | (None, cur) \<Rightarrow>
     (case read_count ''room object count: %w'' ''invalid room object count %d at offset %d'' [] MaxRoomObjects cur of
        (Inl err, cur) \<Rightarrow> (Some err, cur)
      | (Inr objectCount, cur) \<Rightarrow> skip_objects ''room object %d/%d: %w'' 0 objectCount cur 1)))))"

fun readRoomDescriptions :: "decoder \<Rightarrow> nat list \<Rightarrow> Cursor \<Rightarrow> TextField list read" where
  "readRoomDescriptions euckr [] cur = (Inr [], cur)"
| "readRoomDescriptions euckr (i # is) cur =
     (case read_count ''room description %d length: %w'' ''invalid room description %d length %d at offset %d''
             [itoa (int i)] MaxDescriptionBytes cur of
        (Inl err, cur) \<Rightarrow> (Inl err, cur)
      | (Inr n, cur) \<Rightarrow>
          if length (Cur_data cur) < Cur_off cur + n
          then (Inl (Errorf ''room description %d bytes: need %d bytes at offset %d, remaining %d''
                  [itoa (int i), itoa (int n), itoa (int (Cur_off cur)), itoa (Remaining cur)]), cur)
          else
            let text = decodeCString euckr (Cur_data cur) (Cur_off cur) n (indexed ''room.description'' i)
            in case skip_bytes (int n) cur of
                 (Some err, cur) \<Rightarrow> (Inl (Wrapf ''room description %d bytes: %w'' [itoa (int i)] err), cur)
               | (None, cur) \<Rightarrow>
                   (case readRoomDescriptions euckr is cur of
                      (Inl err, cur) \<Rightarrow> (Inl err, cur)
                    | (Inr texts, cur) \<Rightarrow> (Inr (text # texts), cur)))"

definition DecodeRoomFileRecord :: "decoder \<Rightarrow> byte list \<Rightarrow> RoomRecord result \<times> Stats" where
  "DecodeRoomFileRecord euckr data =
     (case DecodeRoomFile data of
        (st, Some err) \<Rightarrow> (Inl err, st)
      | (st, None) \<Rightarrow>
          (case DecodeRoomRecord euckr data of
             Inl err \<Rightarrow> (Inl err, st)
           | Inr rec \<Rightarrow>
               (case skip_bytes (int RoomSize) (NewCursor data) of
                  (Some err, cur) \<Rightarrow> (Inl err, st)
                | (None, cur) \<Rightarrow>
                    (case skipRoomContents cur of
                       (Some err, cur) \<Rightarrow> (Inl err, st)
                     | (None, cur) \<Rightarrow>
                         (case readRoomDescriptions euckr [0, 1, 2] cur of
                            (Inl err, cur) \<Rightarrow> (Inl err, st)
                          | (Inr descriptions, cur) \<Rightarrow>
                              (Inr (rec\<lparr>RR_ShortDescription := descriptions ! 0, RR_LongDescription := descriptions ! 1,
                                        RR_ObjectDescription := descriptions ! 2\<rparr>), st))))))"

subsection \<open>The second pass succeeds where the first did\<close>

text \<open>A reader that meets what a parser parses: it returns a value related to the parsed one.\<close>

definition meets :: "byte list \<Rightarrow> ('x \<times> byte list) option \<Rightarrow> ('x \<Rightarrow> 'y \<Rightarrow> bool) \<Rightarrow> 'y read \<Rightarrow> bool" where
  "meets data p R r \<longleftrightarrow>
     (\<forall>x rest. p = Some (x, rest) \<longrightarrow> suffix rest data \<and> (\<exists>y. r = (Inr y, cur_at data rest) \<and> R x y))"

lemma meetsD:
  assumes "meets data p R r" and "p = Some (x, rest)"
  obtains y where "suffix rest data" "r = (Inr y, cur_at data rest)" "R x y"
  using assms by (auto simp: meets_def)

lemma Ahead_at: "suffix b data \<Longrightarrow> Ahead (cur_at data b) = b"
  by (simp add: Ahead_def cur_at_def suffix_drop_eq)

lemma off_at: "Cur_off (cur_at data b) = length data - length b" "Cur_data (cur_at data b) = data"
  by (simp_all add: cur_at_def)

lemma meets_count:
  assumes "suffix b data"
  shows "meets data (parse_count limit b) (=) (read_count missing invalid args limit (cur_at data b))"
  using read_count_at [OF assms, where limit = limit and missing = missing and invalid = invalid and args = args] assms
  by (auto simp: meets_def intro: suffix_order.trans)

text \<open>A record that can be decoded from its bytes alone, whatever follows.\<close>

lemma meets_record:
  assumes "suffix b data" and dec: "\<And>raw rest. length raw = sz \<Longrightarrow> \<exists>rec. decode (raw @ rest) = Inr rec \<and> R raw rec"
  shows "meets data (parse_bytes sz b) R (read_record decode sz fmt args (cur_at data b))"
  unfolding meets_def
proof (intro allI impI)
  fix raw rest
  assume "parse_bytes sz b = Some (raw, rest)"
  then have b: "b = raw @ rest" and l: "length raw = sz"
    by (auto simp: parse_bytes_def split: if_splits)
  obtain rec where r: "decode b = Inr rec" "R raw rec"
    using dec [OF l, of rest] b by auto
  have "skip_bytes (int sz) (cur_at data b) = (None, cur_at data rest)"
    using skip_at [OF assms(1), of sz] b l by auto
  moreover have "suffix rest data"
    using assms(1) b by (meson suffix_order.trans suffixI)
  ultimately show "suffix rest data \<and> (\<exists>y. read_record decode sz fmt args (cur_at data b) = (Inr y, cur_at data rest) \<and> R raw y)"
    using r by (simp add: read_record_def Ahead_at [OF assms(1)])
qed

lemma meets_loop:
  assumes item: "\<And>i k b. suffix b data \<Longrightarrow> meets data (p b) R (read i k (cur_at data b))"
    and empty: "\<And>i cur acc. loop i 0 cur acc = (Inr acc, cur)"
    and step: "\<And>i k cur acc. loop i (Suc k) cur acc =
      (case read i k cur of (Inl err, cur') \<Rightarrow> (Inl (wrap i k cur err), cur') | (Inr x, cur') \<Rightarrow> loop (i + 1) k cur' (collect acc x))"
  shows "suffix b data \<Longrightarrow> meets data (parse_many p k b) (\<lambda>ts acc'. \<exists>nodes. list_all2 R ts nodes \<and> acc' = foldl collect acc nodes)
    (loop i k (cur_at data b) acc)"
proof (induction k arbitrary: i b acc)
  case 0
  then show ?case by (simp add: empty meets_def)
next
  case (Suc k)
  show ?case
    unfolding meets_def
  proof (intro allI impI)
    fix ts rest
    assume "parse_many p (Suc k) b = Some (ts, rest)"
    then obtain t ts' b' where t: "p b = Some (t, b')" "parse_many p k b' = Some (ts', rest)" "ts = t # ts'"
      by (auto split: option.splits)
    obtain x where x: "suffix b' data" "read i k (cur_at data b) = (Inr x, cur_at data b')" "R t x"
      using meetsD [OF item [OF Suc.prems] t(1)] by blast
    obtain acc' where a: "suffix rest data" "loop (i + 1) k (cur_at data b') (collect acc x) = (Inr acc', cur_at data rest)"
      "\<exists>nodes. list_all2 R ts' nodes \<and> acc' = foldl collect (collect acc x) nodes"
      using meetsD [OF Suc.IH [OF x(1)] t(2)] by blast
    then obtain nodes where n: "list_all2 R ts' nodes" "acc' = foldl collect (collect acc x) nodes" by blast
    have "list_all2 R ts (x # nodes)" "acc' = foldl collect acc (x # nodes)"
      using n x(3) t(3) by simp_all
    with a x(2) show "suffix rest data \<and> (\<exists>y. loop i (Suc k) (cur_at data b) acc = (Inr y, cur_at data rest)
        \<and> (\<exists>nodes. list_all2 R ts nodes \<and> y = foldl collect acc nodes))"
      by (auto simp: step simp del: foldl.simps)
  qed
qed

lemma meets_then:
  assumes "meets data p R r" and "\<And>x y rest. suffix rest data \<Longrightarrow> R x y \<Longrightarrow> meets data (q x rest) S (go y (cur_at data rest))"
  shows "meets data (case p of None \<Rightarrow> None | Some (x, rest) \<Rightarrow> q x rest) S (and_read r go)"
  unfolding meets_def
proof (intro allI impI)
  fix z rest'
  assume "(case p of None \<Rightarrow> None | Some (x, rest) \<Rightarrow> q x rest) = Some (z, rest')"
  then obtain x rest where p: "p = Some (x, rest)" "q x rest = Some (z, rest')"
    by (auto split: option.splits)
  obtain y where y: "suffix rest data" "r = (Inr y, cur_at data rest)" "R x y"
    using meetsD [OF assms(1) p(1)] by blast
  from assms(2) [OF y(1,3)] p(2) y(2) show "suffix rest' data \<and> (\<exists>y. and_read r go = (Inr y, cur_at data rest') \<and> S z y)"
    by (simp add: meets_def and_read_def)
qed

lemma meets_return: "suffix b data \<Longrightarrow> R x y \<Longrightarrow> meets data (Some (x, b)) R (Inr y, cur_at data b)"
  by (simp add: meets_def)

lemma meets_map: "meets data p (\<lambda>x. R (f x)) r \<Longrightarrow> meets data (map_option (\<lambda>(x, b). (f x, b)) p) R r"
  by (auto simp: meets_def)

lemma meets_weaken: "meets data p R r \<Longrightarrow> (\<And>x y. R x y \<Longrightarrow> S x y) \<Longrightarrow> meets data p S r"
  by (auto simp: meets_def)

text \<open>The tree of nodes is the tree of the file, and its own counts are those of the first pass.\<close>

primrec object_shape :: "ObjectNode \<Rightarrow> otree" where
  "object_shape (ObjectNode off rec children st ws) = OTree (OR_Raw rec) (map object_shape children)"

definition is_object :: "otree \<Rightarrow> ObjectNode \<Rightarrow> bool" where
  "is_object t node \<longleftrightarrow> object_shape node = t \<and> On_Stats node = count_otree 1 t noStats"

lemma lowest_Suc: "lowest t (Suc d) = Suc (lowest t d)"
proof (induction t arbitrary: d)
  case (OTree raw ts)
  have "foldr max (map (\<lambda>t. lowest t (Suc (Suc d))) us) (Suc d) = Suc (foldr max (map (\<lambda>t. lowest t (Suc d)) us) d)"
    if "set us \<subseteq> set ts" for us
    using that by (induction us) (simp_all add: OTree.IH)
  from this [of ts] show ?case by (simp add: comp_def)
qed

lemma merge_object: "mergeChildStats st (count_otree d t noStats) 1 = count_otree (Suc d) t st"
  by (simp add: mergeChildStats_def count_otree_def noStats_def Let_def lowest_Suc max_def)

lemma collect_objects:
  "list_all2 is_object ts nodes \<Longrightarrow> \<exists>ws'. foldl collect_object (ns, st, ws) nodes = (ns @ nodes, fold (count_otree 2) ts st, ws')"
proof (induction ts nodes arbitrary: ns st ws rule: list_all2_induct)
  case (Cons t ts n nodes)
  have "mergeChildStats st (On_Stats n) 1 = count_otree 2 t st"
    using Cons.hyps(1) merge_object [of st 1 t] by (simp add: is_object_def numeral_2_eq_2)
  with Cons.IH [of "ns @ [n]" "count_otree 2 t st" "ws @ On_Warnings n"] show ?case
    by (simp add: collect_object_def)
qed simp

lemma shapes: "list_all2 is_object ts nodes \<Longrightarrow> map object_shape nodes = ts"
  by (induction ts nodes rule: list_all2_induct) (simp_all add: is_object_def)

lemma readObjectNode_eq:
  "readObjectNode euckr cur depth =
     (if MaxRecursionDepth < depth then (Inl (too_deep ''object''), cur)
      else and_read (read_record (DecodeObjectRecord euckr) ObjectSize ''object record at offset %d: %w'' [itoa (int (Cur_off cur))] cur)
        (\<lambda>rec cur1. and_read
          (read_count ''object child count: %w'' ''invalid object child count %d at offset %d'' [] MaxObjectChildren cur1)
        (\<lambda>count cur2. and_read
          (read_objects euckr ''object child %d/%d at offset %d: %w'' 0 count cur2 (depth + 1)
            ([], noStats\<lparr>St_Objects := 1, St_MaxDepth := 1\<rparr>, objectWarnings (Cur_off cur) rec))
        (\<lambda>(children, st, ws) cur3. (Inr (ObjectNode (Cur_off cur) rec children st ws), cur3)))))"
  by (simp add: and_read_def split: prod.split sum.split)

lemma object_bytes:
  assumes "length raw = ObjectSize"
  shows "\<exists>rec. DecodeObjectRecord euckr (raw @ rest) = Inr rec \<and> OR_Raw rec = raw"
  using assms by (simp add: DecodeObjectRecord_def requireRecordSize_def slice_here)

lemma creature_bytes:
  assumes "length raw = CreatureSize"
  shows "\<exists>rec. DecodeCreatureRecord euckr (raw @ rest) = Inr rec \<and> CR_Raw rec = raw"
  using assms by (simp add: DecodeCreatureRecord_def requireRecordSize_def slice_here)

lemma meets_objects:
  assumes "\<And>b. suffix b data \<Longrightarrow> meets data (p b) is_object (readObjectNode euckr (cur_at data b) depth)"
    and "suffix b data"
  shows "meets data (parse_many p k b)
    (\<lambda>ts acc. \<exists>nodes ws'. list_all2 is_object ts nodes \<and> acc = (ns @ nodes, fold (count_otree 2) ts st, ws'))
    (read_objects euckr fmt i k (cur_at data b) depth (ns, st, ws))"
proof (rule meets_weaken)
  show "meets data (parse_many p k b) (\<lambda>ts acc. \<exists>nodes. list_all2 is_object ts nodes \<and> acc = foldl collect_object (ns, st, ws) nodes)
    (read_objects euckr fmt i k (cur_at data b) depth (ns, st, ws))"
    by (rule meets_loop [where read = "\<lambda>i k cur. readObjectNode euckr cur depth"]) (use assms in \<open>simp_all del: readObjectNode.simps\<close>)
qed (use collect_objects in blast)

text \<open>A list after its length, and what is made of it.\<close>

lemma meets_counted:
  assumes "suffix b data" and loop: "\<And>k rest. suffix rest data \<Longrightarrow> meets data (parse_many p k rest) S (loop k (cur_at data rest))"
    and finish: "\<And>xs acc cur. S xs acc \<Longrightarrow> \<exists>y. finish acc cur = (Inr y, cur) \<and> R xs y"
  shows "meets data (parse_counted p limit b) R
    (and_read (read_count missing invalid args limit (cur_at data b)) (\<lambda>k cur. and_read (loop k cur) finish))"
  unfolding parse_counted_def
proof (rule meets_then [OF meets_count [OF assms(1)]])
  fix k k' :: nat and rest :: "byte list"
  assume s: "suffix rest data" "k = k'"
  show "meets data (parse_many p k rest) R (and_read (loop k' (cur_at data rest)) finish)"
    unfolding meets_def
  proof (intro allI impI)
    fix xs rest'
    assume "parse_many p k rest = Some (xs, rest')"
    from meetsD [OF loop [OF s(1), of k] this]
    obtain acc where "suffix rest' data" "loop k (cur_at data rest) = (Inr acc, cur_at data rest')" "S xs acc" by blast
    with finish [of xs acc "cur_at data rest'"] s(2)
    show "suffix rest' data \<and> (\<exists>y. and_read (loop k' (cur_at data rest)) finish = (Inr y, cur_at data rest') \<and> R xs y)"
      by (auto simp: and_read_def)
  qed
qed

lemma meets_object:
  assumes "n \<le> 128" and "suffix b data"
  shows "meets data (parse_otree n b) is_object (readObjectNode euckr (cur_at data b) (129 - n))"
  using assms
proof (induction n arbitrary: b)
  case 0
  then show ?case by (simp add: meets_def)
next
  case (Suc n)
  have d: "\<not> MaxRecursionDepth < 129 - Suc n" "129 - Suc n + 1 = 129 - n"
    using Suc.prems(1) by (simp_all add: MaxRecursionDepth_def)
  have IH: "meets data (parse_otree n c) is_object (readObjectNode euckr (cur_at data c) (129 - n))" if "suffix c data" for c
    using Suc.IH [OF _ that] Suc.prems(1) by simp
  show ?case
    unfolding readObjectNode_eq [of _ _ "129 - Suc n"] if_not_P [OF d(1)] d(2) parse_otree.simps
  proof (rule meets_then [OF meets_record [where R = "\<lambda>raw (rec :: ObjectRecord). OR_Raw rec = raw", OF Suc.prems(2) object_bytes]], assumption, rule meets_map)
    fix raw and rec :: ObjectRecord and rest
    assume s: "suffix rest data" "OR_Raw rec = raw"
    let ?st = "noStats\<lparr>St_Objects := 1, St_MaxDepth := 1\<rparr>"
    have st: "(addDepth 1 noStats)\<lparr>St_Objects := St_Objects noStats + 1\<rparr> = ?st"
      by (simp add: addDepth_def noStats_def)
    have node: "is_object (OTree raw ts) (ObjectNode off rec nodes (fold (count_otree 2) ts ?st) ws)"
      if "list_all2 is_object ts nodes" for ts nodes off ws
      using shapes [OF that] s(2) unfolding is_object_def count_OTree st by (simp add: numeral_2_eq_2)
    show "meets data (parse_counted (parse_otree n) MaxObjectChildren rest) (\<lambda>ts. is_object (OTree raw ts))
      (and_read (read_count ''object child count: %w'' ''invalid object child count %d at offset %d'' [] MaxObjectChildren (cur_at data rest))
        (\<lambda>count cur2. and_read (read_objects euckr ''object child %d/%d at offset %d: %w'' 0 count cur2 (129 - n)
            ([], ?st, objectWarnings (Cur_off (cur_at data b)) rec))
          (\<lambda>(children, st, ws) cur3. (Inr (ObjectNode (Cur_off (cur_at data b)) rec children st ws), cur3))))"
      by (rule meets_counted [OF s(1)], rule meets_objects [OF IH], assumption+) (auto simp del: One_nat_def intro: node)
  qed
qed

definition creature_shape :: "CreatureNode \<Rightarrow> ctree" where
  "creature_shape c = CTree (CR_Raw (Cn_Record c)) (map object_shape (Cn_Inventory c))"

definition is_creature :: "ctree \<Rightarrow> CreatureNode \<Rightarrow> bool" where
  "is_creature t node \<longleftrightarrow> creature_shape node = t \<and> Cn_Stats node = count_ctree 1 t noStats"

lemma readCreatureNode_eq:
  "readCreatureNode euckr cur depth =
     (if MaxRecursionDepth < depth then (Inl (too_deep ''creature''), cur)
      else and_read (read_record (DecodeCreatureRecord euckr) CreatureSize ''creature record at offset %d: %w'' [itoa (int (Cur_off cur))] cur)
        (\<lambda>rec cur1. and_read
          (read_count ''creature inventory count: %w'' ''invalid creature inventory count %d at offset %d'' [] MaxCreatureItems cur1)
        (\<lambda>count cur2. and_read
          (read_objects euckr ''creature inventory object %d/%d at offset %d: %w'' 0 count cur2 (depth + 1)
            ([], noStats\<lparr>St_Creatures := 1, St_MaxDepth := 1\<rparr>, creatureWarnings (Cur_off cur) rec))
        (\<lambda>(items, st, ws) cur3.
          (Inr \<lparr>Cn_Offset = Cur_off cur, Cn_Record = rec, Cn_Inventory = items, Cn_Stats = st, Cn_Warnings = ws\<rparr>, cur3)))))"
  by (simp add: readCreatureNode_def and_read_def split: prod.split sum.split)

lemma meets_creature:
  assumes "suffix b data"
  shows "meets data (parse_ctree 127 b) is_creature (readCreatureNode euckr (cur_at data b) 2)"
proof -
  have d: "\<not> MaxRecursionDepth < 2" "2 + 1 = 129 - (126 :: nat)" and levels: "parse_ctree 127 b = parse_ctree (Suc 126) b"
    by (simp_all add: MaxRecursionDepth_def)
  have IH: "meets data (parse_otree 126 c) is_object (readObjectNode euckr (cur_at data c) (129 - 126))" if "suffix c data" for c
    by (rule meets_object [OF _ that]) simp
  show ?thesis
    unfolding readCreatureNode_eq [of _ _ 2] if_not_P [OF d(1)] d(2) levels parse_ctree.simps
  proof (rule meets_then [OF meets_record [where R = "\<lambda>raw (rec :: CreatureRecord). CR_Raw rec = raw", OF assms creature_bytes]], assumption, rule meets_map)
    fix raw and rec :: CreatureRecord and rest
    assume s: "suffix rest data" "CR_Raw rec = raw"
    let ?st = "noStats\<lparr>St_Creatures := 1, St_MaxDepth := 1\<rparr>"
    have st: "(addDepth 1 noStats)\<lparr>St_Creatures := St_Creatures noStats + 1\<rparr> = ?st"
      by (simp add: addDepth_def noStats_def)
    have node: "is_creature (CTree raw ts) \<lparr>Cn_Offset = off, Cn_Record = rec, Cn_Inventory = nodes,
        Cn_Stats = fold (count_otree 2) ts ?st, Cn_Warnings = ws\<rparr>"
      if "list_all2 is_object ts nodes" for ts nodes off ws
      using shapes [OF that] s(2) unfolding is_creature_def count_ctree_def st by (simp add: creature_shape_def numeral_2_eq_2)
    show "meets data (parse_counted (parse_otree 126) MaxCreatureItems rest) (\<lambda>ts. is_creature (CTree raw ts))
      (and_read (read_count ''creature inventory count: %w'' ''invalid creature inventory count %d at offset %d'' [] MaxCreatureItems (cur_at data rest))
        (\<lambda>count cur2. and_read (read_objects euckr ''creature inventory object %d/%d at offset %d: %w'' 0 count cur2 (129 - 126)
            ([], ?st, creatureWarnings (Cur_off (cur_at data b)) rec))
          (\<lambda>(items, st, ws) cur3. (Inr \<lparr>Cn_Offset = Cur_off (cur_at data b), Cn_Record = rec, Cn_Inventory = items, Cn_Stats = st,
             Cn_Warnings = ws\<rparr>, cur3))))"
      by (rule meets_counted [OF s(1)], rule meets_objects [OF IH], assumption+) (auto simp del: One_nat_def intro: node)
  qed
qed

lemma count_ctree_eq:
  "count_ctree d c st =
     st\<lparr>St_Objects := St_Objects st + sum_list (map objects_in (items_of c)), St_Creatures := St_Creatures st + 1,
        St_MaxDepth := max (St_MaxDepth st) (foldr max (map (\<lambda>t. lowest t (Suc d)) (items_of c)) d)\<rparr>"
proof -
  have "addDepth d st = st\<lparr>St_MaxDepth := max (St_MaxDepth st) d\<rparr>"
    by (simp add: addDepth_def max_def)
  then show ?thesis
    by (simp add: count_ctree_def fold_count_otree foldr_max)
qed

lemma merge_creature: "mergeChildStats st (count_ctree 1 c noStats) 1 = count_ctree 2 c st"
proof -
  have "foldr max (map (\<lambda>t. lowest t (Suc 2)) ts) 2 = Suc (foldr max (map (\<lambda>t. lowest t (Suc 1)) ts) 1)" for ts
    using lowest_Suc [of _ 2] by (induction ts) (simp_all add: numeral_2_eq_2)
  then show ?thesis
    unfolding count_ctree_eq by (simp add: mergeChildStats_def noStats_def Let_def max_def)
qed

lemma collect_creatures:
  "list_all2 is_creature cs nodes \<Longrightarrow>
     \<exists>ws'. foldl collect_creature (ns, st, ws) nodes = (ns @ nodes, fold (count_ctree 2) cs st, ws')"
proof (induction cs nodes arbitrary: ns st ws rule: list_all2_induct)
  case (Cons c cs n nodes)
  have "mergeChildStats st (Cn_Stats n) 1 = count_ctree 2 c st"
    using Cons.hyps(1) merge_creature [of st c] by (simp add: is_creature_def)
  with Cons.IH [of "ns @ [n]" "count_ctree 2 c st" "ws @ Cn_Warnings n"] show ?case
    by (simp add: collect_creature_def)
qed simp

lemma meets_creatures:
  assumes "suffix b data"
  shows "meets data (parse_many (parse_ctree 127) k b)
    (\<lambda>cs acc. \<exists>nodes ws'. list_all2 is_creature cs nodes \<and> acc = (ns @ nodes, fold (count_ctree 2) cs st, ws'))
    (read_creatures euckr i k (cur_at data b) 2 (ns, st, ws))"
proof (rule meets_weaken)
  show "meets data (parse_many (parse_ctree 127) k b)
      (\<lambda>cs acc. \<exists>nodes. list_all2 is_creature cs nodes \<and> acc = foldl collect_creature (ns, st, ws) nodes)
    (read_creatures euckr i k (cur_at data b) 2 (ns, st, ws))"
    by (rule meets_loop [where read = "\<lambda>i k cur. readCreatureNode euckr cur 2"]) (use assms meets_creature in simp_all)
qed (use collect_creatures in blast)

lemma meets_exit:
  assumes "suffix b data" and "parse_bytes ExitSize b = Some (e, b')"
  shows "suffix b' data" "\<exists>rec. read_record (DecodeExitRecord euckr) ExitSize fmt args (cur_at data b) = (Inr rec, cur_at data b')"
proof -
  have "meets data (parse_bytes ExitSize b) (\<lambda>_ _. True) (read_record (DecodeExitRecord euckr) ExitSize fmt args (cur_at data b))"
    by (rule meets_record [OF assms(1)]) (simp add: DecodeExitRecord_def requireRecordSize_def)
  with assms(2) show "suffix b' data"
    "\<exists>rec. read_record (DecodeExitRecord euckr) ExitSize fmt args (cur_at data b) = (Inr rec, cur_at data b')"
    by (simp_all add: meets_def)
qed

lemma meets_exits:
  "suffix b data \<Longrightarrow> meets data (parse_many (parse_bytes ExitSize) k b) (\<lambda>es acc. length (fst acc) = length ns + k \<and> length es = k)
     (read_exits euckr i k (cur_at data b) (ns, ws))"
proof (induction k arbitrary: i b ns ws)
  case 0
  then show ?case by (simp add: meets_def)
next
  case (Suc k)
  show ?case
    unfolding meets_def
  proof (intro allI impI)
    fix es rest
    assume "parse_many (parse_bytes ExitSize) (Suc k) b = Some (es, rest)"
    then obtain e es' b' where e: "parse_bytes ExitSize b = Some (e, b')"
      "parse_many (parse_bytes ExitSize) k b' = Some (es', rest)" "es = e # es'"
      by (auto split: option.splits)
    note b' = meets_exit(1) [OF Suc.prems e(1)]
    obtain rec where r: "read_record (DecodeExitRecord euckr) ExitSize ''room exit %d/%d at offset %d: %w''
        [itoa (int (i + 1)), itoa (int (i + Suc k)), itoa (int (Cur_off (cur_at data b)))] (cur_at data b) = (Inr rec, cur_at data b')"
      using meets_exit(2) [OF Suc.prems e(1)] by blast
    show "suffix rest data \<and> (\<exists>y. read_exits euckr i (Suc k) (cur_at data b) (ns, ws) = (Inr y, cur_at data rest)
        \<and> length (fst y) = length ns + Suc k \<and> length es = Suc k)"
    proof -
      let ?node = "\<lparr>En_Offset = Cur_off (cur_at data b), En_Record = rec, En_Warnings = exitWarnings (Cur_off (cur_at data b)) rec\<rparr>"
      obtain acc where a: "suffix rest data"
        "read_exits euckr (i + 1) k (cur_at data b') (ns @ [?node], ws @ exitWarnings (Cur_off (cur_at data b)) rec) = (Inr acc, cur_at data rest)"
        "length (fst acc) = length (ns @ [?node]) + k \<and> length es' = k"
        by (rule meetsD [OF Suc.IH [OF b', of "ns @ [?node]" "i + 1" "ws @ exitWarnings (Cur_off (cur_at data b)) rec"] e(2)])
      then have "read_exits euckr i (Suc k) (cur_at data b) (ns, ws) = (Inr acc, cur_at data rest)"
        by (simp only: read_exits.simps r prod.case sum.case fst_conv snd_conv)
      with a e(3) show ?thesis by simp
    qed
  qed
qed

subsubsection \<open>Texts\<close>

definition text_of :: "decoder \<Rightarrow> nat \<Rightarrow> byte list \<Rightarrow> TextField" where
  "text_of euckr i t = decodeCString euckr t 0 (length t) (indexed ''room.description'' i)"

lemma text_of_at:
  assumes "suffix (t @ rest) data"
  shows "decodeCString euckr data (length data - length (t @ rest)) (length t) (indexed ''room.description'' i) = text_of euckr i t"
  using suffix_drop_eq [OF assms] by (simp add: decodeCString_def slice_def text_of_def)

text \<open>A length and the bytes of a text, up to the check that the bytes are there.\<close>

lemma text_ahead:
  assumes "suffix b data" and "parse_text b = Some (t, rest)"
  shows "suffix rest data" "suffix (t @ rest) data"
    "read_count missing invalid args MaxDescriptionBytes (cur_at data b) = (Inr (length t), cur_at data (t @ rest))"
    "\<not> length data < length data - length (t @ rest) + length t"
    "skip_bytes (int (length t)) (cur_at data (t @ rest)) = (None, cur_at data rest)"
proof -
  obtain k c where c: "parse_count MaxDescriptionBytes b = Some (k, c)" "parse_bytes k c = Some (t, rest)"
    using assms(2) by (auto simp: parse_text_def split: option.splits)
  then have k: "c = t @ rest" "k = length t"
    by (auto simp: parse_bytes_def split: if_splits)
  have r: "suffix c b" "read_count missing invalid args MaxDescriptionBytes (cur_at data b) = (Inr k, cur_at data c)"
    using read_count_at [OF assms(1), where limit = MaxDescriptionBytes and missing = missing and invalid = invalid and args = args] c(1)
    by simp_all
  then show s: "suffix (t @ rest) data"
    using assms(1) suffix_order.trans k(1) by blast
  show "read_count missing invalid args MaxDescriptionBytes (cur_at data b) = (Inr (length t), cur_at data (t @ rest))"
    using r(2) k by simp
  show "suffix rest data"
    using s suffix_appendD by blast
  show "\<not> length data < length data - length (t @ rest) + length t"
    using suffix_length_le [OF s] by simp
  show "skip_bytes (int (length t)) (cur_at data (t @ rest)) = (None, cur_at data rest)"
    using skip_at [OF s, of "length t"] by simp
qed

definition is_text :: "decoder \<Rightarrow> nat \<Rightarrow> byte list \<Rightarrow> RoomDescriptionNode \<Rightarrow> bool" where
  "is_text euckr i t d \<longleftrightarrow> Dn_Index d = i \<and> Dn_Size d = length t \<and> Dn_Text d = text_of euckr i t"

lemma meets_text:
  assumes "suffix b data"
  shows "meets data (parse_text b) (is_text euckr i) (readRoomDescriptionNode euckr (cur_at data b) i)"
  unfolding meets_def
proof (intro allI impI)
  fix t rest
  assume "parse_text b = Some (t, rest)"
  note t = text_ahead [OF assms this]
  then show "suffix rest data \<and> (\<exists>d. readRoomDescriptionNode euckr (cur_at data b) i = (Inr d, cur_at data rest) \<and> is_text euckr i t d)"
    by (simp add: readRoomDescriptionNode_def t(3) off_at Let_def is_text_def text_of_at [OF t(2)] del: length_append)
qed

lemma meets_texts:
  "suffix b data \<Longrightarrow> meets data (parse_many parse_text (length is) b)
     (\<lambda>ts node'. \<exists>ds. list_all2 (\<lambda>(i, t) d. is_text euckr i t d) (zip is ts) ds \<and> length ts = length is
        \<and> node' = foldl (\<lambda>n d. put_description d n) node ds)
     (read_descriptions euckr is (cur_at data b) node)"
proof (induction "is" arbitrary: b node)
  case Nil
  then show ?case by (simp add: meets_def)
next
  case (Cons i "is")
  show ?case
    unfolding meets_def
  proof (intro allI impI)
    fix ts rest
    assume "parse_many parse_text (length (i # is)) b = Some (ts, rest)"
    then obtain t ts' b' where t: "parse_text b = Some (t, b')" "parse_many parse_text (length is) b' = Some (ts', rest)" "ts = t # ts'"
      by (auto split: option.splits)
    obtain d where d: "suffix b' data" "readRoomDescriptionNode euckr (cur_at data b) i = (Inr d, cur_at data b')" "is_text euckr i t d"
      by (rule meetsD [OF meets_text [OF Cons.prems] t(1)])
    obtain node' where n: "suffix rest data" "read_descriptions euckr is (cur_at data b') (put_description d node) = (Inr node', cur_at data rest)"
      "\<exists>ds. list_all2 (\<lambda>(i, t) d. is_text euckr i t d) (zip is ts') ds \<and> length ts' = length is
        \<and> node' = foldl (\<lambda>n d. put_description d n) (put_description d node) ds"
      by (rule meetsD [OF Cons.IH [OF d(1)] t(2)])
    then obtain ds where ds: "list_all2 (\<lambda>(i, t) d. is_text euckr i t d) (zip is ts') ds" "length ts' = length is"
      "node' = foldl (\<lambda>n d. put_description d n) (put_description d node) ds" by blast
    have "list_all2 (\<lambda>(i, t) d. is_text euckr i t d) (zip (i # is) ts) (d # ds)"
      using ds(1) d(3) t(3) by simp
    moreover have "node' = foldl (\<lambda>n d. put_description d n) node (d # ds)"
      using ds(3) by simp
    moreover have "length ts = length (i # is)"
      using ds(2) t(3) by simp
    ultimately show "suffix rest data \<and> (\<exists>y. read_descriptions euckr (i # is) (cur_at data b) node = (Inr y, cur_at data rest)
        \<and> (\<exists>ds. list_all2 (\<lambda>(i, t) d. is_text euckr i t d) (zip (i # is) ts) ds \<and> length ts = length (i # is)
             \<and> y = foldl (\<lambda>n d. put_description d n) node ds))"
      using n(1,2) d(2) by (auto simp del: foldl.simps)
  qed
qed

lemma read_texts:
  "suffix b data \<Longrightarrow> parse_many parse_text (length is) b = Some (ts, rest) \<Longrightarrow>
     readRoomDescriptions euckr is (cur_at data b) = (Inr (map2 (text_of euckr) is ts), cur_at data rest) \<and> suffix rest data"
proof (induction "is" arbitrary: b ts)
  case (Cons i "is")
  then obtain t ts' b' where t: "parse_text b = Some (t, b')" "parse_many parse_text (length is) b' = Some (ts', rest)" "ts = t # ts'"
    by (auto split: option.splits)
  note a = text_ahead [OF Cons.prems(1) t(1)]
  from Cons.IH [OF a(1) t(2)] show ?case
    by (simp add: a(3,5) off_at Let_def text_of_at [OF a(2)] t(3) a(4) del: length_append)
qed simp

subsubsection \<open>Skipping\<close>

lemma skip_loop:
  assumes "\<And>b t rest. suffix b data \<Longrightarrow> p b = Some (t, rest) \<Longrightarrow> skip (cur_at data b) = (None, cur_at data rest) \<and> suffix rest data"
    and empty: "\<And>i cur. loop i 0 cur = (None, cur)"
    and step: "\<And>i k cur. loop i (Suc k) cur = (case skip cur of (Some err, cur) \<Rightarrow> (Some (wrap i k err), cur) | (None, cur) \<Rightarrow> loop (i + 1) k cur)"
  shows "suffix b data \<Longrightarrow> parse_many p k b = Some (ts, rest) \<Longrightarrow> loop i k (cur_at data b) = (None, cur_at data rest) \<and> suffix rest data"
proof (induction k arbitrary: i b ts)
  case (Suc k)
  then obtain t ts' b' where t: "p b = Some (t, b')" "parse_many p k b' = Some (ts', rest)"
    by (auto split: option.splits)
  have s: "skip (cur_at data b) = (None, cur_at data b')" "suffix b' data"
    using assms(1) [OF Suc.prems(1) t(1)] by simp_all
  from Suc.IH [OF s(2) t(2)] show ?case
    by (simp add: step s(1))
qed (simp add: empty)

lemma skip_record:
  assumes "suffix b data" and "parse_bytes sz b = Some (raw, c)"
  shows "skip_bytes (int sz) (cur_at data b) = (None, cur_at data c)" "suffix c data"
  using assms skip_at [OF assms(1), of sz] suffix_order.trans [OF suffix_drop assms(1)]
  by (auto simp: parse_bytes_def split: if_splits)

lemma skip_count:
  assumes "suffix b data" and "parse_count limit b = Some (k, c)"
  shows "read_count missing invalid args limit (cur_at data b) = (Inr k, cur_at data c)" "suffix c data"
  using meets_count [OF assms(1), where limit = limit and missing = missing and invalid = invalid and args = args] assms(2)
  by (auto simp: meets_def)

lemma parse_countedD:
  assumes "parse_counted p limit b = Some (xs, rest)"
  obtains k c where "parse_count limit b = Some (k, c)" "parse_many p k c = Some (xs, rest)"
  using assms by (auto simp: parse_counted_def split: option.splits)

lemma skip_list:
  assumes "\<And>b t rest. suffix b data \<Longrightarrow> p b = Some (t, rest) \<Longrightarrow> skipObjectTree (cur_at data b) d = (None, cur_at data rest) \<and> suffix rest data"
    and "suffix b data" and "parse_many p k b = Some (ts, rest)"
  shows "skip_objects fmt i k (cur_at data b) d = (None, cur_at data rest) \<and> suffix rest data"
  by (rule skip_loop [where skip = "\<lambda>cur. skipObjectTree cur d" and loop = "\<lambda>i k cur. skip_objects fmt i k cur d"
        and wrap = "\<lambda>i k err. Wrapf fmt [itoa (int (i + 1)), itoa (int (i + Suc k))] err", OF assms(1) _ _ assms(2,3)])
    (simp_all del: skipObjectTree.simps)

lemma skip_object:
  assumes "n + d \<le> 129" and "suffix b data" and "parse_otree n b = Some (t, rest)"
  shows "skipObjectTree (cur_at data b) d = (None, cur_at data rest) \<and> suffix rest data"
  using assms
proof (induction n arbitrary: b d t rest)
  case (Suc n)
  obtain raw c ts where c: "parse_bytes ObjectSize b = Some (raw, c)" "parse_counted (parse_otree n) MaxObjectChildren c = Some (ts, rest)"
    using Suc.prems(3) by (auto split: option.splits)
  obtain k e where e: "parse_count MaxObjectChildren c = Some (k, e)" "parse_many (parse_otree n) k e = Some (ts, rest)"
    by (rule parse_countedD [OF c(2)])
  note s = skip_record [OF Suc.prems(2) c(1)]
  note q = skip_count [OF s(2) e(1)]
  have one: "skipObjectTree (cur_at data b) (d + 1) = (None, cur_at data rest) \<and> suffix rest data"
    if "suffix b data" "parse_otree n b = Some (t, rest)" for b t rest
    by (rule Suc.IH [OF _ that]) (use Suc.prems(1) in simp)
  have "skip_objects ''object child %d/%d: %w'' 0 k (cur_at data e) (d + 1) = (None, cur_at data rest) \<and> suffix rest data"
    by (rule skip_list [OF one q(2) e(2)])
  moreover have "\<not> MaxRecursionDepth < d"
    using Suc.prems(1) by (simp add: MaxRecursionDepth_def)
  ultimately show ?case
    by (simp add: skipObjectTree.simps [of _ d] s(1) q(1))
qed simp

lemma skip_creature:
  assumes "suffix b data" and "parse_ctree 127 b = Some (t, rest)"
  shows "skipCreatureTree (cur_at data b) 1 = (None, cur_at data rest) \<and> suffix rest data"
proof -
  have "parse_ctree (Suc 126) b = Some (t, rest)"
    using assms(2) by simp
  then obtain raw c ts where c: "parse_bytes CreatureSize b = Some (raw, c)" "parse_counted (parse_otree 126) MaxCreatureItems c = Some (ts, rest)"
    unfolding parse_ctree.simps by (auto split: option.splits)
  obtain k e where e: "parse_count MaxCreatureItems c = Some (k, e)" "parse_many (parse_otree 126) k e = Some (ts, rest)"
    by (rule parse_countedD [OF c(2)])
  note s = skip_record [OF assms(1) c(1)]
  note q = skip_count [OF s(2) e(1)]
  have "skip_objects ''creature inventory object %d/%d: %w'' 0 k (cur_at data e) (1 + 1) = (None, cur_at data rest) \<and> suffix rest data"
    by (rule skip_list [OF skip_object q(2) e(2)]) simp_all
  then show ?thesis
    by (simp add: skipCreatureTree_def MaxRecursionDepth_def s(1) q(1))
qed

subsubsection \<open>Rooms\<close>

lemma parse_many_length: "parse_many p k b = Some (xs, rest) \<Longrightarrow> length xs = k"
  by (induction k arbitrary: b xs) (auto split: option.splits)

lemma meets_counted_then:
  assumes "suffix b data" and loop: "\<And>k rest. suffix rest data \<Longrightarrow> meets data (parse_many p k rest) S (loop k (cur_at data rest))"
    and go: "\<And>xs acc rest. suffix rest data \<Longrightarrow> S xs acc \<Longrightarrow> meets data (q xs rest) R (go (length xs) acc (cur_at data rest))"
  shows "meets data (case parse_counted p limit b of None \<Rightarrow> None | Some (xs, rest) \<Rightarrow> q xs rest) R
    (and_read (read_count missing invalid args limit (cur_at data b)) (\<lambda>k cur. and_read (loop k cur) (go k)))"
  unfolding meets_def
proof (intro allI impI)
  fix z rest'
  assume "(case parse_counted p limit b of None \<Rightarrow> None | Some (xs, rest) \<Rightarrow> q xs rest) = Some (z, rest')"
  then obtain xs rest where x: "parse_counted p limit b = Some (xs, rest)" "q xs rest = Some (z, rest')"
    by (auto split: option.splits)
  obtain k c where c: "parse_count limit b = Some (k, c)" "parse_many p k c = Some (xs, rest)"
    by (rule parse_countedD [OF x(1)])
  note r = skip_count [OF assms(1) c(1)]
  obtain acc where a: "suffix rest data" "loop k (cur_at data c) = (Inr acc, cur_at data rest)" "S xs acc"
    by (rule meetsD [OF loop [OF r(2)] c(2)])
  from go [OF a(1,3)] x(2) show "suffix rest' data \<and> (\<exists>y. and_read (read_count missing invalid args limit (cur_at data b))
      (\<lambda>k cur. and_read (loop k cur) (go k)) = (Inr y, cur_at data rest') \<and> R z y)"
    by (simp add: r(1) and_read_def a(2) meets_def parse_many_length [OF c(2)])
qed

definition with_texts :: "decoder \<Rightarrow> byte list list \<Rightarrow> RoomRecord \<Rightarrow> RoomRecord" where
  "with_texts euckr ts rec =
     rec\<lparr>RR_ShortDescription := text_of euckr 0 (ts ! 0), RR_LongDescription := text_of euckr 1 (ts ! 1),
         RR_ObjectDescription := text_of euckr 2 (ts ! 2)\<rparr>"

definition is_room :: "decoder \<Rightarrow> RoomRecord \<Rightarrow> rtree \<Rightarrow> RoomNode \<Rightarrow> bool" where
  "is_room euckr rec r node \<longleftrightarrow>
     Rn_Record node = with_texts euckr (Rt_Texts r) rec \<and> length (Rn_Exits node) = length (Rt_Exits r)
     \<and> map creature_shape (Rn_Creatures node) = Rt_Creatures r \<and> map object_shape (Rn_Objects node) = Rt_Objects r
     \<and> Rn_Stats node = count_rtree r noStats"

lemma put_texts:
  assumes "list_all2 (\<lambda>(i, t) d. is_text euckr i t d) (zip [0, 1, 2] ts) ds" and "length ts = 3"
  shows "Rn_Record (foldl (\<lambda>n d. put_description d n) node ds) = with_texts euckr ts (Rn_Record node)"
    "Rn_Stats (foldl (\<lambda>n d. put_description d n) node ds) = fold count_text ts (Rn_Stats node)"
    "Rn_Exits (foldl (\<lambda>n d. put_description d n) node ds) = Rn_Exits node"
    "Rn_Creatures (foldl (\<lambda>n d. put_description d n) node ds) = Rn_Creatures node"
    "Rn_Objects (foldl (\<lambda>n d. put_description d n) node ds) = Rn_Objects node"
proof -
  obtain t u v where t: "ts = [t, u, v]"
    using assms(2) by (auto simp: numeral_3_eq_3 length_Suc_conv)
  obtain d e f where d: "ds = [d, e, f]" "is_text euckr 0 t d" "is_text euckr 1 u e" "is_text euckr 2 v f"
    using assms(1) by (auto simp: t list_all2_Cons1)
  note d' = d(2-4) [unfolded is_text_def]
  show "Rn_Record (foldl (\<lambda>n d. put_description d n) node ds) = with_texts euckr ts (Rn_Record node)"
    by (simp add: t d(1) d' put_description_def Let_def with_texts_def)
  show "Rn_Stats (foldl (\<lambda>n d. put_description d n) node ds) = fold count_text ts (Rn_Stats node)"
    by (simp add: t d(1) d' put_description_def Let_def count_text_def)
  show "Rn_Exits (foldl (\<lambda>n d. put_description d n) node ds) = Rn_Exits node"
    "Rn_Creatures (foldl (\<lambda>n d. put_description d n) node ds) = Rn_Creatures node"
    "Rn_Objects (foldl (\<lambda>n d. put_description d n) node ds) = Rn_Objects node"
    by (simp_all add: d(1) put_description_def Let_def)
qed

lemma creature_shapes: "list_all2 is_creature cs nodes \<Longrightarrow> map creature_shape nodes = cs"
  by (induction cs nodes rule: list_all2_induct) (simp_all add: is_creature_def)

lemma meets_room:
  assumes "parse_rtree data = Some (r, [])"
  shows "\<exists>rec node. DecodeRoomRecord euckr data = Inr rec \<and> fst (readRoomNode euckr (cur_at data data) 1) = Inr node \<and> is_room euckr rec r node"
proof -
  obtain raw b where b: "parse_bytes RoomSize data = Some (raw, b)"
    using assms by (auto simp: parse_rtree_def split: option.splits)
  then have "\<not> length data < RoomSize"
    by (auto simp: parse_bytes_def split: if_splits)
  then obtain rec where rec: "DecodeRoomRecord euckr data = Inr rec"
    by (simp add: DecodeRoomRecord_def requireRecordSize_def)
  note s = skip_record [OF suffix_order.refl b]
  have read: "read_record (DecodeRoomRecord euckr) RoomSize fmt args (cur_at data data) = (Inr rec, cur_at data b)" for fmt args
    by (simp add: read_record_def Ahead_at rec s(1))
  have shallow: "\<not> MaxRecursionDepth < 1"
    by (simp add: MaxRecursionDepth_def)
  have object: "meets data (parse_otree 127 c) is_object (readObjectNode euckr (cur_at data c) 2)" if "suffix c data" for c
    using meets_object [OF _ that, of 127] by (simp del: readObjectNode.simps)
  have exits: "meets data (parse_many (parse_bytes ExitSize) k c) (\<lambda>es acc. length (fst acc) = length es) (read_exits euckr 0 k (cur_at data c) ([], ws))"
    if "suffix c data" for k c ws
    by (rule meets_weaken [OF meets_exits [OF that]]) simp
  have three: "length [0, 1, 2 :: nat] = 3"
    by simp
  have texts: "meets data (parse_many parse_text 3 c) (\<lambda>ts node'. \<exists>ds. list_all2 (\<lambda>(i, t) d. is_text euckr i t d) (zip [0, 1, 2] ts) ds
      \<and> length ts = 3 \<and> node' = foldl (\<lambda>n d. put_description d n) node ds) (read_descriptions euckr [0, 1, 2] (cur_at data c) node)"
    if "suffix c data" for c node
    using meets_texts [OF that, of "[0, 1, 2]" euckr node] unfolding three .
  have start: "count_exits es ((addDepth 1 noStats)\<lparr>St_Rooms := St_Rooms noStats + 1\<rparr>)
      = noStats\<lparr>St_Rooms := 1, St_MaxDepth := 1, St_Exits := length es\<rparr>" for es
    by (simp add: count_exits_def addDepth_def noStats_def)
  have "meets data (parse_rtree data) (is_room euckr rec) (readRoomNode euckr (cur_at data data) 1)"
    unfolding readRoomNode_def if_not_P [OF shallow] and_read_def [of "(Inr rec, _)"] read parse_rtree_def b option.case prod.case sum.case one_add_one
  proof (rule meets_counted_then [OF s(2) exits], assumption, clarify, rule meets_counted_then, assumption, rule meets_creatures, assumption,
      clarify, rule meets_counted_then, assumption, rule meets_objects [OF object], assumption, assumption, clarify, rule meets_map,
      rule meets_weaken [OF texts], assumption)
  qed (auto simp: is_room_def put_texts count_rtree_def start creature_shapes shapes simp del: One_nat_def)
  with assms rec show ?thesis
    by (auto simp: meets_def)
qed

lemma skip_contents:
  assumes "parse_rtree data = Some (r, [])" and "DecodeRoomRecord euckr data = Inr rec" and "DecodeRoomFile data = (st, None)"
  shows "DecodeRoomFileRecord euckr data = (Inr (with_texts euckr (Rt_Texts r) rec), st)"
proof -
  obtain raw b1 es b2 cs b3 os b4 where p: "parse_bytes RoomSize data = Some (raw, b1)"
    "parse_counted (parse_bytes ExitSize) MaxRoomExits b1 = Some (es, b2)"
    "parse_counted (parse_ctree 127) MaxRoomCreatures b2 = Some (cs, b3)"
    "parse_counted (parse_otree 127) MaxRoomObjects b3 = Some (os, b4)" "parse_many parse_text 3 b4 = Some (Rt_Texts r, [])"
    using assms(1) by (auto simp: parse_rtree_def split: option.splits)
  note s1 = skip_record [OF suffix_order.refl p(1)]
  obtain k c where k: "parse_count MaxRoomExits b1 = Some (k, c)" "parse_many (parse_bytes ExitSize) k c = Some (es, b2)"
    by (rule parse_countedD [OF p(2)])
  note q1 = skip_count [OF s1(2) k(1)]
  have "k * ExitSize \<le> length c" "b2 = drop (k * ExitSize) c"
    using parse_many_bytes [of ExitSize k c] k(2) by (auto simp: not_less)
  then have s2: "skip_bytes (int (k * ExitSize)) (cur_at data c) = (None, cur_at data b2)" "suffix b2 data"
    using skip_at [OF q1(2), of "k * ExitSize"] suffix_order.trans [OF suffix_drop q1(2)] by simp_all
  obtain l d where l: "parse_count MaxRoomCreatures b2 = Some (l, d)" "parse_many (parse_ctree 127) l d = Some (cs, b3)"
    by (rule parse_countedD [OF p(3)])
  note q2 = skip_count [OF s2(2) l(1)]
  have s3: "skip_creatures 0 l (cur_at data d) = (None, cur_at data b3) \<and> suffix b3 data"
    by (rule skip_loop [where skip = "\<lambda>cur. skipCreatureTree cur 1" and loop = skip_creatures
          and wrap = "\<lambda>i k err. Wrapf ''room creature %d/%d: %w'' [itoa (int (i + 1)), itoa (int (i + Suc k))] err",
          OF skip_creature _ _ q2(2) l(2)]) simp_all
  obtain m e where m: "parse_count MaxRoomObjects b3 = Some (m, e)" "parse_many (parse_otree 127) m e = Some (os, b4)"
    by (rule parse_countedD [OF p(4)])
  note q3 = skip_count [OF conjunct2 [OF s3] m(1)]
  have s4: "skip_objects ''room object %d/%d: %w'' 0 m (cur_at data e) 1 = (None, cur_at data b4) \<and> suffix b4 data"
    by (rule skip_list [OF skip_object q3(2) m(2)]) simp_all
  have "length [0, 1, 2 :: nat] = 3"
    by simp
  with p(5) have three: "parse_many parse_text (length [0, 1, 2 :: nat]) b4 = Some (Rt_Texts r, [])"
    by (simp only:)
  have contents: "skipRoomContents (cur_at data b1) = (None, cur_at data b4)"
    unfolding skipRoomContents_def q1(1) s2(1) q2(1) conjunct1 [OF s3] q3(1) conjunct1 [OF s4] prod.case sum.case option.case ..
  have texts: "readRoomDescriptions euckr [0, 1, 2] (cur_at data b4) = (Inr (map2 (text_of euckr) [0, 1, 2] (Rt_Texts r)), cur_at data [])"
    using read_texts [OF conjunct2 [OF s4] three] by blast
  have "length (Rt_Texts r) = 3"
    by (rule parse_many_length [OF p(5)])
  then obtain t u v where t: "Rt_Texts r = [t, u, v]"
    by (auto simp: numeral_3_eq_3 length_Suc_conv)
  show ?thesis
    unfolding DecodeRoomFileRecord_def assms(2,3) NewCursor_at s1(1) contents texts prod.case sum.case option.case
    by (simp add: t with_texts_def)
qed

text \<open>C29. The readers of a room file agree.  What the validation refuses, every reader refuses with the same
  error; what it accepts is decoded to the end: the nodes of creatures and objects form the trees of the
  file, their own counts are those of the validation, and the room record with its texts is the one
  that is read without building the nodes, although that reader counts its depth from another start.\<close>

theorem Room_readers_agree:
  "(case DecodeRoomFile data of
      (st, Some err) \<Rightarrow> DecodeRoomTree euckr data = Inl err \<and> DecodeRoomFileRecord euckr data = (Inl err, st)
    | (st, None) \<Rightarrow>
        \<exists>r node. rtree_ok r \<and> data = print_rtree r \<and> fst (readRoomNode euckr (NewCursor data) 1) = Inr node
          \<and> Rn_Stats node = st \<and> DecodeRoomTree euckr data = Inr node \<and> DecodeRoomFileRecord euckr data = (Inr (Rn_Record node), st)
          \<and> map creature_shape (Rn_Creatures node) = Rt_Creatures r \<and> map object_shape (Rn_Objects node) = Rt_Objects r
          \<and> length (Rn_Exits node) = length (Rt_Exits r))"
proof (cases "snd (DecodeRoomFile data)")
  case (Some err)
  then show ?thesis
    by (cases "DecodeRoomFile data") (simp add: DecodeRoomTree_def DecodeRoomFileRecord_def)
next
  case None
  then obtain st where st: "DecodeRoomFile data = (st, None)"
    by (cases "DecodeRoomFile data") simp
  then obtain r where r: "rtree_ok r" "data = print_rtree r" "st = count_rtree r noStats"
    unfolding Room_file_iff by blast
  then have p: "parse_rtree data = Some (r, [])"
    by (simp add: readsD [OF reads_rtree])
  obtain rec node where n: "DecodeRoomRecord euckr data = Inr rec" "fst (readRoomNode euckr (NewCursor data) 1) = Inr node" "is_room euckr rec r node"
    using meets_room [OF p, of euckr] unfolding NewCursor_at by blast
  have same: "node\<lparr>Rn_Stats := st\<rparr> = node" and own: "Rn_Stats node = st"
    using n(3) r(3) by (simp_all add: is_room_def)
  have "DecodeRoomTree euckr data = Inr node"
    unfolding DecodeRoomTree_def st n(2) prod.case option.case sum.case same ..
  with skip_contents [OF p n(1) st] n(2,3) r own show ?thesis
    unfolding st prod.case option.case by (auto simp: is_room_def)
qed

end
