(* ===== verification/Spec2Isabelle.thy ===== *)
theory Spec2Isabelle
  imports Dying Slain Dispatch Sessions Reference Cheats Ticks RecordNodes
begin

text \<open>
  The Muhan server: the state of its world (\<^verbatim>\<open>internal/world/model\<close>, \<^verbatim>\<open>internal/world/state\<close>), and
  the way of a player's input to a command and of the answer back (\<^verbatim>\<open>internal/protocol\<close>, \<^verbatim>\<open>session\<close>,
  \<^verbatim>\<open>commandparse\<close>, \<^verbatim>\<open>commandspec\<close>, \<^verbatim>\<open>engine/command\<close>, \<^verbatim>\<open>krtext\<close>, \<^verbatim>\<open>textfmt\<close>).

  The program keeps one \<^verbatim>\<open>World\<close>: maps from ids to rooms, creatures, players, objects,
  prototypes, bank accounts and families, with the family war, the guest lists and the dirty marks that
  say what to save.  Commands, ticks and loaders change it only through the exported operations of the
  state package, each of which runs under the world's locks.  An operation is here one function on the
  record \<^verbatim>\<open>World\<close>: an atomic step.  What releases the locks on its way takes a world for each of its
  steps: a flush reads the marks, saves each player and bank and removes marks in worlds of their own, which are
  arbitrary, and the save after the death of a player reads a later world than the one its death leaves.

  \<^bold>\<open>Theories.\<close>
  \<^item> \<^verbatim>\<open>Prelude\<close>: errors and results, the 64-bit machine integer \<^verbatim>\<open>i64\<close>, lemmas on finite maps.
  \<^item> \<^verbatim>\<open>GoStrings\<close>: the functions of the packages \<^verbatim>\<open>strings\<close>, \<^verbatim>\<open>strconv\<close> and \<^verbatim>\<open>fmt\<close> that the source uses.
  \<^item> \<^verbatim>\<open>Entities\<close>: the records of \<^verbatim>\<open>model/entities.go\<close>, \<^verbatim>\<open>family.go\<close>, \<^verbatim>\<open>metadata.go\<close> and \<^verbatim>\<open>ids.go\<close>, and
    the methods \<^verbatim>\<open>Validate\<close> of \<^verbatim>\<open>model/validate.go\<close>.
  \<^item> \<^verbatim>\<open>AliasTables\<close>, \<^verbatim>\<open>Flags\<close>: the legacy flag names, their aliases and the flag tests (\<^verbatim>\<open>state.go\<close>).
  \<^item> \<^verbatim>\<open>World\<close>: the record \<^verbatim>\<open>World\<close>, lookups, dirty marks, numeric properties of objects.
  \<^item> \<^verbatim>\<open>RefLists\<close>: the name order of objects, creatures and players, and insertion into ordered lists.
  \<^item> \<^verbatim>\<open>Holders\<close>, \<^verbatim>\<open>Moves\<close>: the list that holds an object, the test for a container inside itself, the
    ownership invariant \<^verbatim>\<open>well_held\<close>, and how one move changes the map \<^verbatim>\<open>where_is\<close> from objects to holders.
  \<^item> \<^verbatim>\<open>Transfers\<close>: the operations that move, delete or change one object (\<^verbatim>\<open>room.go\<close>, \<^verbatim>\<open>creature.go\<close>, \<^verbatim>\<open>object.go\<close>).
  \<^item> \<^verbatim>\<open>Gold\<close>: the operations on gold (\<^verbatim>\<open>creature.go\<close>).
  \<^item> \<^verbatim>\<open>FreshIDs\<close>: the searches for an unused id, as one locale with three interpretations.
  \<^item> \<^verbatim>\<open>Trees\<close>, \<^verbatim>\<open>Clones\<close>: deletion and cloning of an object with its contents (\<^verbatim>\<open>object.go\<close>).
  \<^item> \<^verbatim>\<open>Making\<close>: purchases, clones, objects from prototypes, dropped money, bank roots.
  \<^item> \<^verbatim>\<open>FamilyWar\<close>: family wars, guest lists and family rosters (\<^verbatim>\<open>family.go\<close>).
  \<^item> \<^verbatim>\<open>Exits\<close>: exit flags, exit timers and keys (\<^verbatim>\<open>room.go\<close>).
  \<^item> \<^verbatim>\<open>CreatureState\<close>: numeric reads and setters of creatures, players, objects and rooms, cooldowns and
    timers (\<^verbatim>\<open>creature.go\<close>, \<^verbatim>\<open>player.go\<close>, \<^verbatim>\<open>object.go\<close>).
  \<^item> \<^verbatim>\<open>Combat\<close>: armour class, hit roll and proficiency ranks (\<^verbatim>\<open>creature.go\<close>, \<^verbatim>\<open>state.go\<close>, \<^verbatim>\<open>model/class.go\<close>).
  \<^item> \<^verbatim>\<open>Damage\<close>, \<^verbatim>\<open>Rewards\<close>: blows, the damage ledger, the death of a monster and what it leaves, the
    destruction of a creature, the rewards of the attackers (\<^verbatim>\<open>creature.go\<close>, \<^verbatim>\<open>dm_support.go\<close>).
  \<^item> \<^verbatim>\<open>Spawns\<close>: spawned creatures and the permanent inhabitants of rooms (\<^verbatim>\<open>dm_support.go\<close>, \<^verbatim>\<open>room.go\<close>).

  \<^item> \<^verbatim>\<open>Outlines\<close>: what making and deleting objects leaves alone; used by the theories on occupants.
  \<^item> \<^verbatim>\<open>Movement\<close>: who may walk through an exit, and the weight a creature carries (\<^verbatim>\<open>player.go\<close>, \<^verbatim>\<open>room.go\<close>).
  \<^item> \<^verbatim>\<open>Occupancy\<close>, \<^verbatim>\<open>Seating\<close>, \<^verbatim>\<open>Arrivals\<close>, \<^verbatim>\<open>Loading\<close>: the operations that put players and creatures
    into rooms, the invariant \<^verbatim>\<open>in_order\<close> (the lists of a room hold exactly those who name the room, once),
    the effect of an arrival, and the invariant along all sequences of operations from loading on.
  \<^item> \<^verbatim>\<open>Slain\<close>: the world after the death of a monster, over \<^verbatim>\<open>Damage\<close>, \<^verbatim>\<open>Rewards\<close> and \<^verbatim>\<open>Occupancy\<close>.

  \<^item> \<^verbatim>\<open>Penalties\<close>: the experience, the levels and the proficiency a death costs (\<^verbatim>\<open>death.go\<close>).
  \<^item> \<^verbatim>\<open>Deaths\<close>, \<^verbatim>\<open>Burials\<close>, \<^verbatim>\<open>Dying\<close>: the death of a player, where its things go, and the world and the
    save file after it (\<^verbatim>\<open>death.go\<close>).
  \<^item> \<^verbatim>\<open>Paths\<close>: file names and their check (\<^verbatim>\<open>player_save.go\<close>).
  \<^item> \<^verbatim>\<open>Sidecars\<close>, \<^verbatim>\<open>Restores\<close>, \<^verbatim>\<open>Flushes\<close>: saving and loading players, banks, the floors of rooms and family
    news (\<^verbatim>\<open>player_save.go\<close>, \<^verbatim>\<open>dm_support.go\<close>, \<^verbatim>\<open>persist/jsonstore\<close>), what a restart restores (for a codec
    that gives back data whose texts are valid UTF-8), and which dirty marks a flush removes.
  \<^item> \<^verbatim>\<open>Cheats\<close>: the check of a creature's things (\<^verbatim>\<open>cheat_check.go\<close>), which rests on \<^verbatim>\<open>Trees\<close>.
  \<^item> \<^verbatim>\<open>Ticks\<close>: the schedule of the updates and the shutdown (\<^verbatim>\<open>tick.go\<close>, \<^verbatim>\<open>event.go\<close>), with the hook for the
    shutdown that the game loop installs (\<^verbatim>\<open>engine/game/update_shutdown.go\<close>).

  Bytes from a connection go through a line discipline into a session, which passes complete lines to
  the dispatcher, as far as its limiter lets them; the dispatcher expands aliases, parses the line and
  runs the handler of the command, which calls the operations of the state package.
  \<^item> \<^verbatim>\<open>Runes\<close>: UTF-8, as the package \<^verbatim>\<open>unicode/utf8\<close> has it, over the decoder of \<^verbatim>\<open>Paths\<close>.
  \<^item> \<^verbatim>\<open>Terminal\<close>: the line discipline and the output buffer (\<^verbatim>\<open>protocol/line.go\<close>, \<^verbatim>\<open>output.go\<close>).
  \<^item> \<^verbatim>\<open>Sessions\<close>: the state of a session, its limiter and the steps of its two loops
    (\<^verbatim>\<open>protocol/sessionstate.go\<close>, \<^verbatim>\<open>session/ratelimit.go\<close>, \<^verbatim>\<open>session.go\<close>); the readings of the clock and
    whether a line could be handed on are functions of the number of the line.
  \<^item> \<^verbatim>\<open>Commands\<close>: the two parsers, the registry and the resolution of a line (\<^verbatim>\<open>commandparse.go\<close>,
    \<^verbatim>\<open>registry.go\<close>, \<^verbatim>\<open>pipeline.go\<close>).
  \<^item> \<^verbatim>\<open>Dispatch\<close>: the dispatcher, aliases and the file that stores them (\<^verbatim>\<open>dispatch.go\<close>,
    \<^verbatim>\<open>legacy_width.go\<close>, \<^verbatim>\<open>account_commands.go\<close>).
  \<^item> \<^verbatim>\<open>KoreanText\<close>: syllables, particles, colours and the formatter (\<^verbatim>\<open>hangul.go\<close>, \<^verbatim>\<open>format.go\<close>).
  \<^item> \<^verbatim>\<open>Reference\<close>: the text a particle refers to, by the notes in brackets at its end.

  Files of the C server:
  \<^item> \<^verbatim>\<open>LegacyText\<close>: its text, decoded from EUC-KR or CP949 (\<^verbatim>\<open>legacykr.go\<close>), against a description of
    well-formed text and of what is stripped from it that uses none of the functions of the code.
  \<^item> \<^verbatim>\<open>Records\<close>: its binary records of a fixed size (\<^verbatim>\<open>cbin/record.go\<close>, \<^verbatim>\<open>layout.go\<close>), with integers as words
    of their width; each record that is written is read back.
  \<^item> \<^verbatim>\<open>RecordTrees\<close>: the validation of files that hold trees of records (\<^verbatim>\<open>cbin/decode.go\<close>), against a grammar
    and a reference parser.  At most 128 levels are read, so the recursion needs no fuel.
  \<^item> \<^verbatim>\<open>RecordNodes\<close>: the readers of the second pass (\<^verbatim>\<open>cbin/tree.go\<close>, \<^verbatim>\<open>record.go\<close>), which never fail on a file
    that was accepted, and agree.

  \<^bold>\<open>Conventions.\<close>  A Go function that returns a value and an error is a function into
  \<^verbatim>\<open>go_error + 'a\<close> paired with the new world; an error carries its format string and arguments.  Go
  integers are integers wrapped by \<^verbatim>\<open>i64\<close> where a sum can leave the range.  A nil and an empty map or
  slice are one value.  Where the source ranges over a map, the model either is pointwise or takes the
  order of the keys as an argument (\<^verbatim>\<open>ord\<close>, with the hypothesis \<^verbatim>\<open>key_order ord\<close> that it lists each key
  once).  A read of a table out of its range, which panics in Go, is the value \<^verbatim>\<open>None\<close>.  The current time is the field \<^verbatim>\<open>clock\<close>, and the dice of a random
  enchantment are a function from the new object's id; other random numbers are a function \<^verbatim>\<open>dice\<close> from
  the number of the call and its bound.  The recursions over object trees take fuel;
  one more than the number of objects is proved to be enough.

  \<^bold>\<open>Not modelled.\<close>  The mutexes, the save queue, the loaders, the broadcasts, the sidecars of boards, the
  goroutines and sockets of the server, the single command handlers and the rules of the game package
  (except for the shutdown), which the dispatcher and the ticks call: they are parameters there.  The encoder of the legacy text
  encoding and its decoder, \<^verbatim>\<open>fmt.Sprintf\<close> and the table of punctuation are parameters.  The JSON codec is a pair of functions \<^verbatim>\<open>enc\<close> and \<^verbatim>\<open>dec\<close>, and the failures of the
  disk are part of its state: both are parameters.
\<close>

end
